(* ===== verification/Reagent_Prelude.thy ===== *)
theory Reagent_Prelude
  imports Complex_Main "HOL-Library.Word"
begin

text \<open>
  Shared vocabulary of the development: identifiers, clock readings and durations as the Go
  services use them, ASCII string helpers of the Go standard library (\<open>strings.ToLower\<close>,
  \<open>strings.EqualFold\<close>, \<open>strings.Contains\<close>, \<open>strings.TrimSpace\<close>, \<open>strings.Split\<close>), a
  \<open>found\<close>-style lookup on lists, and the fact collections the component theories fill.
  A fallible Go function returns a sum: \<open>Inl\<close> is the error, \<open>Inr\<close> the value.
\<close>

named_theorems breaker_simps "equations of the circuit breaker"
named_theorems store_simps "effects of the SQL statements on the store"
named_theorems rule_simps "effects of the rule life cycle on the rule table"
named_theorems hub_simps "effects of the hub operations on the connection map"
named_theorems quota_simps "effects of the rate limiting scripts"

section \<open>Identifiers, time, durations\<close>

text \<open>A UUID is an opaque identifier; \<open>uuid.Nil\<close> is 0.\<close>

type_synonym uuid = nat

abbreviation (input) uuid_nil :: uuid where
  "uuid_nil \<equiv> 0"

text \<open>
  A \<open>time.Time\<close> is its nanoseconds since the Unix epoch, a \<open>time.Duration\<close> its nanoseconds.
  \<open>Time.Sub\<close> (and so \<open>time.Since\<close>, \<open>time.Until\<close>) saturates at the ends of the 64-bit
  duration range, which \<open>go_sub\<close> keeps.
\<close>

type_synonym instant = int
type_synonym duration = int

abbreviation (input) second_ns :: duration where
  "second_ns \<equiv> 1000000000"

abbreviation (input) minute_ns :: duration where
  "minute_ns \<equiv> 60000000000"

abbreviation (input) hour_ns :: duration where
  "hour_ns \<equiv> 3600000000000"

abbreviation (input) max_duration :: duration where
  "max_duration \<equiv> 9223372036854775807"

definition go_sub :: "instant \<Rightarrow> instant \<Rightarrow> duration" where
  "go_sub a b = max (- max_duration - 1) (min max_duration (a - b))"

text \<open>The zero \<open>time.Time\<close>: midnight, 1 January of the year 1, UTC.\<close>

definition zero_time :: instant where
  "zero_time = - 62135596800 * second_ns"

text \<open>\<open>Duration.Round\<close>: to the nearest multiple, halfway values away from zero.\<close>

definition dur_round :: "duration \<Rightarrow> duration \<Rightarrow> duration" where
  "dur_round d m =
     (if m \<le> 0 then d
      else let r = \<bar>d\<bar> mod m; q = \<bar>d\<bar> - r
           in sgn d * (if r + r < m then q else q + m))"

lemma go_sub_mono: "a \<le> b \<Longrightarrow> go_sub a t \<le> go_sub b t"
  by (simp add: go_sub_def)

lemma go_sub_gt_iff:
  "0 \<le> d \<Longrightarrow> d < max_duration \<Longrightarrow> d < go_sub a b \<longleftrightarrow> d < a - b"
  by (auto simp: go_sub_def)

section \<open>ASCII strings\<close>

definition lower_char :: "char \<Rightarrow> char" where
  "lower_char c =
     (let n = of_char c :: nat in if 65 \<le> n \<and> n \<le> 90 then char_of (n + 32) else c)"

definition to_lower :: "string \<Rightarrow> string" where
  "to_lower s = map lower_char s"

definition equal_fold :: "string \<Rightarrow> string \<Rightarrow> bool" where
  "equal_fold s t \<longleftrightarrow> to_lower s = to_lower t"

fun has_prefix :: "string \<Rightarrow> string \<Rightarrow> bool" where
  "has_prefix s [] = True"
| "has_prefix [] (p # ps) = False"
| "has_prefix (c # s) (p # ps) = (c = p \<and> has_prefix s ps)"

fun str_contains :: "string \<Rightarrow> string \<Rightarrow> bool" where
  "str_contains [] sub = (sub = [])"
| "str_contains (c # s) sub = (has_prefix (c # s) sub \<or> str_contains s sub)"

text \<open>\<open>unicode.IsSpace\<close> on ASCII, as \<open>strings.TrimSpace\<close> and \<open>strings.Fields\<close> use it.\<close>

definition is_space :: "char \<Rightarrow> bool" where
  "is_space c = (let n = of_char c :: nat in n = 32 \<or> (9 \<le> n \<and> n \<le> 13))"

definition trim_space :: "string \<Rightarrow> string" where
  "trim_space s = rev (dropWhile is_space (rev (dropWhile is_space s)))"

text \<open>\<open>strings.Split(s, sep)\<close> for a separator of one character.\<close>

fun split_on :: "char \<Rightarrow> string \<Rightarrow> string list" where
  "split_on x [] = [[]]"
| "split_on x (c # s) =
     (if c = x then [] # split_on x s
      else (case split_on x s of [] \<Rightarrow> [[c]] | w # ws \<Rightarrow> (c # w) # ws))"

text \<open>\<open>strings.Fields\<close>: the words between runs of white space.\<close>

fun str_fields :: "string \<Rightarrow> string list" where
  "str_fields [] = []"
| "str_fields (c # s) =
     (if is_space c then str_fields s
      else (case s of
              [] \<Rightarrow> [[c]]
            | d # _ \<Rightarrow> if is_space d then [c] # str_fields s
                       else (case str_fields s of [] \<Rightarrow> [[c]] | w # ws \<Rightarrow> (c # w) # ws)))"

lemma of_char_lower [simp]:
  "(of_char (lower_char c) :: nat) =
     (if 65 \<le> (of_char c :: nat) \<and> (of_char c :: nat) \<le> 90 then of_char c + 32 else of_char c)"
  by (simp add: lower_char_def Let_def of_char_of)

lemma lower_char_idem [simp]: "lower_char (lower_char c) = lower_char c"
  by (simp add: lower_char_def Let_def of_char_of)

lemma to_lower_idem [simp]: "to_lower (to_lower s) = to_lower s"
  by (simp add: to_lower_def)

lemma to_lower_Nil [simp]: "to_lower [] = []"
  by (simp add: to_lower_def)

lemma to_lower_eq_Nil [simp]: "to_lower s = [] \<longleftrightarrow> s = []"
  by (simp add: to_lower_def)

lemma Nil_eq_to_lower [simp]: "[] = to_lower s \<longleftrightarrow> s = []"
  by (simp add: to_lower_def)

lemma length_to_lower [simp]: "length (to_lower s) = length s"
  by (simp add: to_lower_def)

lemma equal_fold_refl [simp]: "equal_fold s s"
  by (simp add: equal_fold_def)

lemma equal_fold_sym: "equal_fold s t \<Longrightarrow> equal_fold t s"
  by (simp add: equal_fold_def)

lemma equal_fold_trans: "equal_fold s t \<Longrightarrow> equal_fold t u \<Longrightarrow> equal_fold s u"
  by (simp add: equal_fold_def)

lemma is_space_lower [simp]: "is_space (lower_char c) = is_space c"
  by (auto simp: is_space_def Let_def)

lemma has_prefix_iff: "has_prefix s p \<longleftrightarrow> (\<exists>t. s = p @ t)"
  by (induction s p rule: has_prefix.induct) auto

lemma has_prefix_refl [simp]: "has_prefix s s"
  by (simp add: has_prefix_iff)

lemma str_contains_iff: "str_contains s sub \<longleftrightarrow> (\<exists>u v. s = u @ sub @ v)"
proof (induction s)
  case Nil
  then show ?case by auto
next
  case (Cons c s)
  have "(\<exists>u v. c # s = u @ sub @ v) \<longleftrightarrow>
      (\<exists>v. c # s = sub @ v) \<or> (\<exists>u v. s = u @ sub @ v)" (is "?l \<longleftrightarrow> ?r")
  proof
    assume ?l
    then obtain u v where uv: "c # s = u @ sub @ v" by blast
    then show ?r by (cases u) auto
  next
    assume ?r
    then show ?l
    proof
      assume "\<exists>v. c # s = sub @ v"
      then show ?l by (metis append_Nil)
    next
      assume "\<exists>u v. s = u @ sub @ v"
      then obtain u v where "s = u @ sub @ v" by blast
      then have "c # s = (c # u) @ sub @ v" by simp
      then show ?l by blast
    qed
  qed
  with Cons.IH show ?case by (simp add: has_prefix_iff)
qed

lemma str_contains_refl [simp]: "str_contains s s"
  by (auto simp: str_contains_iff intro: exI [of _ "[]"])

lemma split_on_not_Nil [simp]: "split_on x s \<noteq> []"
  by (induction s) (auto split: list.splits)

lemma split_on_no_sep: "x \<notin> set s \<Longrightarrow> split_on x s = [s]"
  by (induction s) auto

lemma split_on_parts_no_sep: "w \<in> set (split_on x s) \<Longrightarrow> x \<notin> set w"
proof (induction s arbitrary: w)
  case (Cons c s)
  then show ?case
    by (cases "split_on x s") (auto split: if_splits)
qed simp

lemma trim_space_Nil [simp]: "trim_space [] = []"
  by (simp add: trim_space_def)

lemma dropWhile_eq_self: "(s \<noteq> [] \<Longrightarrow> \<not> P (hd s)) \<Longrightarrow> dropWhile P s = s"
  by (cases s) auto

lemma dropWhile_idem' [simp]: "dropWhile P (dropWhile P s) = dropWhile P s"
  by (induction s) auto

lemma trim_space_last: "trim_space s \<noteq> [] \<Longrightarrow> \<not> is_space (last (trim_space s))"
  unfolding trim_space_def
  by (metis hd_dropWhile last_rev rev_is_Nil_conv)

lemma trim_space_idem [simp]: "trim_space (trim_space s) = trim_space s"
proof -
  define u where "u = dropWhile is_space s"
  define t where "t = rev (dropWhile is_space (rev u))"
  have ts: "trim_space s = t" by (simp add: trim_space_def u_def t_def)
  have "dropWhile is_space t = t"
  proof (rule dropWhile_eq_self)
    assume ne: "t \<noteq> []"
    obtain v where uv: "u = t @ v"
      unfolding t_def by (metis rev_append rev_rev_ident takeWhile_dropWhile_id)
    then have "hd t = hd u" "u \<noteq> []" using ne by simp_all
    then show "\<not> is_space (hd t)" unfolding u_def by (metis hd_dropWhile)
  qed
  moreover have "rev (dropWhile is_space (rev t)) = t" by (simp add: t_def)
  ultimately show ?thesis by (simp add: ts) (simp add: trim_space_def)
qed

section \<open>Lists and lookups\<close>

text \<open>
  \<open>first_some f xs\<close> is the loop "for each x, if f(x) gives a value, return it": the first hit
  in list order.
\<close>

fun first_some :: "('a \<Rightarrow> 'b option) \<Rightarrow> 'a list \<Rightarrow> 'b option" where
  "first_some f [] = None"
| "first_some f (x # xs) = (case f x of Some y \<Rightarrow> Some y | None \<Rightarrow> first_some f xs)"

lemma first_some_None_iff: "first_some f xs = None \<longleftrightarrow> (\<forall>x \<in> set xs. f x = None)"
  by (induction xs) (auto split: option.splits)

lemma first_some_SomeD: "first_some f xs = Some y \<Longrightarrow> \<exists>x \<in> set xs. f x = Some y"
  by (induction xs) (auto split: option.splits)

lemma find_append:
  "List.find P (xs @ ys) = (case List.find P xs of Some x \<Rightarrow> Some x | None \<Rightarrow> List.find P ys)"
  by (induction xs) auto

lemma find_map_key:
  "(\<And>x. P (f x) = P x) \<Longrightarrow> List.find P (map f xs) = map_option f (List.find P xs)"
  by (induction xs) auto

text \<open>Keep the first occurrence of each element, in order: the Go loop over a \<open>seen\<close> map.\<close>

fun dedup_seen :: "'a list \<Rightarrow> 'a list \<Rightarrow> 'a list" where
  "dedup_seen seen [] = []"
| "dedup_seen seen (x # xs) =
     (if x \<in> set seen then dedup_seen seen xs else x # dedup_seen (x # seen) xs)"

lemma set_dedup_seen: "set (dedup_seen seen xs) = set xs - set seen"
  by (induction seen xs rule: dedup_seen.induct) auto

lemma distinct_dedup_seen: "distinct (dedup_seen seen xs)"
  by (induction seen xs rule: dedup_seen.induct) (auto simp: set_dedup_seen)

end
