(* ===== verification/Circuit_Breaker.thy ===== *)
theory Circuit_Breaker
  imports Reagent_Prelude
begin

text \<open>
  The circuit breaker of \<open>src/sync/internal/circuitbreaker/breaker.go\<close>: one breaker with its
  state queries, its two recording operations and \<open>Call\<close>, and the registry of named breakers.
  The breaker's mutex makes each query and each recording atomic, but \<open>Call\<close> runs the protected
  function outside it, so several calls can be in flight: \<open>cb_step\<close> is that interleaved system,
  and \<open>cb_call\<close> the sequential composition of its steps.
\<close>

section \<open>State and construction\<close>

datatype cb_state = Closed | Open | HalfOpen

fun cb_state_string :: "cb_state \<Rightarrow> string" where
  "cb_state_string Closed = ''closed''"
| "cb_state_string Open = ''open''"
| "cb_state_string HalfOpen = ''half-open''"

record circuit_breaker =
  cb_name :: string
  cb_state :: cb_state
  cb_failures :: int
  cb_threshold :: int
  cb_timeout :: duration
  cb_last_failure :: instant
  cb_half_open_max_calls :: int
  cb_half_open_calls :: int

record cb_config =
  failure_threshold :: int
  reset_timeout :: duration
  half_open_max_calls :: int

definition cb_default_config :: cb_config where
  "cb_default_config =
     \<lparr>failure_threshold = 5, reset_timeout = 30 * second_ns, half_open_max_calls = 3\<rparr>"

definition cb_presets :: "string \<Rightarrow> cb_config option" where
  "cb_presets = map_of
     [(''deepgram'', cb_default_config),
      (''elevenlabs'', cb_default_config),
      (''intelligence'', cb_default_config),
      (''calendar'', cb_default_config),
      (''nats'', cb_default_config)]"

definition cb_new :: "string \<Rightarrow> int \<Rightarrow> duration \<Rightarrow> circuit_breaker" where
  "cb_new name threshold timeout =
     \<lparr>cb_name = name, cb_state = Closed, cb_failures = 0, cb_threshold = threshold,
      cb_timeout = timeout, cb_last_failure = zero_time,
      cb_half_open_max_calls = 3, cb_half_open_calls = 0\<rparr>"

definition cb_new_with_preset :: "string \<Rightarrow> circuit_breaker" where
  "cb_new_with_preset name =
     (let preset = (case cb_presets name of Some p \<Rightarrow> p | None \<Rightarrow> cb_default_config);
          cb = cb_new name (failure_threshold preset) (reset_timeout preset)
      in cb\<lparr>cb_half_open_max_calls := half_open_max_calls preset\<rparr>)"

section \<open>Queries and recordings\<close>

text \<open>\<open>currentState\<close> reads the clock and may itself move an open breaker to half-open.\<close>

definition cb_current_state :: "instant \<Rightarrow> circuit_breaker \<Rightarrow> circuit_breaker \<times> cb_state" where
  "cb_current_state now cb =
     (let cb' = (if cb_state cb = Open \<and> go_sub now (cb_last_failure cb) > cb_timeout cb
                 then cb\<lparr>cb_state := HalfOpen, cb_half_open_calls := 0\<rparr> else cb)
      in (cb', cb_state cb'))"

definition cb_is_open :: "instant \<Rightarrow> circuit_breaker \<Rightarrow> circuit_breaker \<times> bool" where
  "cb_is_open now cb = (let (cb', s) = cb_current_state now cb in (cb', s = Open))"

definition cb_record_failure :: "instant \<Rightarrow> circuit_breaker \<Rightarrow> circuit_breaker" where
  "cb_record_failure now cb =
     (let cb1 = cb\<lparr>cb_failures := cb_failures cb + 1, cb_last_failure := now\<rparr>
      in if cb_failures cb1 \<ge> cb_threshold cb1 then cb1\<lparr>cb_state := Open\<rparr> else cb1)"

definition cb_record_success :: "circuit_breaker \<Rightarrow> circuit_breaker" where
  "cb_record_success cb = cb\<lparr>cb_failures := 0, cb_state := Closed, cb_half_open_calls := 0\<rparr>"

section \<open>Call\<close>

text \<open>
  The clock is read up to four times in one call: by \<open>IsOpen\<close>, by \<open>State\<close> and \<open>time.Since\<close>
  while the rejection is reported, and by \<open>recordFailure\<close>. The protected function is a state
  transformer on its own world that may return an error.
\<close>

record cb_clock =
  at_check :: instant
  at_state :: instant
  at_report :: instant
  at_fail :: instant

datatype 'e cb_error = CircuitOpen string string duration | FnError 'e

definition cb_call ::
  "cb_clock \<Rightarrow> ('w \<Rightarrow> 'w \<times> 'e option) \<Rightarrow> circuit_breaker \<times> 'w
     \<Rightarrow> (circuit_breaker \<times> 'w) \<times> 'e cb_error option" where
  "cb_call clk fn = (\<lambda>(cb, w).
     (let (cb1, opened) = cb_is_open (at_check clk) cb
      in if opened
         then (let (cb2, s) = cb_current_state (at_state clk) cb1
               in ((cb2, w),
                   Some (CircuitOpen (cb_name cb2) (cb_state_string s)
                     (dur_round (go_sub (at_report clk) (cb_last_failure cb2)) second_ns))))
         else (let (w', err) = fn w
               in (case err of
                     Some e \<Rightarrow> ((cb_record_failure (at_fail clk) cb1, w'), Some (FnError e))
                   | None \<Rightarrow> ((cb_record_success cb1, w'), None)))))"

section \<open>Registry\<close>

text \<open>
  The registry maps names to breaker objects. \<open>GetOrCreate\<close> hands out a pointer to the entry,
  and entries are never removed or replaced, so the entry under a name stands for the object.
\<close>

type_synonym cb_registry = "string \<Rightarrow> circuit_breaker option"

definition cb_new_registry :: cb_registry where
  "cb_new_registry = Map.empty"

definition cb_get_or_create ::
  "string \<Rightarrow> int \<Rightarrow> duration \<Rightarrow> cb_registry \<Rightarrow> cb_registry \<times> circuit_breaker" where
  "cb_get_or_create name threshold timeout r =
     (case r name of
        Some cb \<Rightarrow> (r, cb)
      | None \<Rightarrow> (let cb = cb_new name threshold timeout in (r(name \<mapsto> cb), cb)))"

definition cb_get :: "string \<Rightarrow> cb_registry \<Rightarrow> circuit_breaker option" where
  "cb_get name r = r name"

text \<open>\<open>Names\<close> lists the keys in Go's unspecified map order, so only their set is modelled.\<close>

definition cb_names :: "cb_registry \<Rightarrow> string set" where
  "cb_names r = dom r"

section \<open>The interleaved system\<close>

record cb_sys =
  breaker :: circuit_breaker
  in_flight :: nat

inductive cb_step :: "cb_sys \<Rightarrow> cb_sys \<Rightarrow> bool" where
  admit: "cb_is_open now (breaker s) = (cb', False) \<Longrightarrow>
     cb_step s (s\<lparr>breaker := cb', in_flight := Suc (in_flight s)\<rparr>)"
| reject: "cb_is_open now (breaker s) = (cb', True) \<Longrightarrow> cb_step s (s\<lparr>breaker := cb'\<rparr>)"
| fail: "0 < in_flight s \<Longrightarrow>
     cb_step s (s\<lparr>breaker := cb_record_failure now (breaker s), in_flight := in_flight s - 1\<rparr>)"
| succeed: "0 < in_flight s \<Longrightarrow>
     cb_step s (s\<lparr>breaker := cb_record_success (breaker s), in_flight := in_flight s - 1\<rparr>)"
| query: "cb_current_state now (breaker s) = (cb', st) \<Longrightarrow> cb_step s (s\<lparr>breaker := cb'\<rparr>)"

definition cb_sys_init :: "string \<Rightarrow> int \<Rightarrow> duration \<Rightarrow> cb_sys" where
  "cb_sys_init name threshold timeout =
     \<lparr>breaker = cb_new name threshold timeout, in_flight = 0\<rparr>"

inductive_cases cb_step_elim: "cb_step s t"

section \<open>Lemmas\<close>

lemma cb_current_state_frame [breaker_simps]:
  "cb_name (fst (cb_current_state now cb)) = cb_name cb"
  "cb_failures (fst (cb_current_state now cb)) = cb_failures cb"
  "cb_threshold (fst (cb_current_state now cb)) = cb_threshold cb"
  "cb_timeout (fst (cb_current_state now cb)) = cb_timeout cb"
  "cb_last_failure (fst (cb_current_state now cb)) = cb_last_failure cb"
  by (simp_all add: cb_current_state_def Let_def)

lemma cb_is_open_unfold [breaker_simps]:
  "cb_is_open now cb =
     (if cb_state cb = Open \<and> cb_timeout cb < go_sub now (cb_last_failure cb)
      then (cb\<lparr>cb_state := HalfOpen, cb_half_open_calls := 0\<rparr>, False)
      else (cb, cb_state cb = Open))"
  by (simp add: cb_is_open_def cb_current_state_def)

text \<open>The breaker's invariant: it is closed exactly while the failure count is below the threshold.\<close>

definition cb_inv :: "circuit_breaker \<Rightarrow> bool" where
  "cb_inv cb \<longleftrightarrow>
     0 < cb_threshold cb \<and> 0 \<le> cb_failures cb \<and>
     (cb_state cb = Closed \<longleftrightarrow> cb_failures cb < cb_threshold cb)"

lemma cb_inv_new: "0 < threshold \<Longrightarrow> cb_inv (cb_new name threshold timeout)"
  by (simp add: cb_inv_def cb_new_def)

lemma cb_inv_current_state: "cb_inv cb \<Longrightarrow> cb_inv (fst (cb_current_state now cb))"
  by (auto simp: cb_inv_def cb_current_state_def Let_def)

lemma cb_inv_is_open: "cb_inv cb \<Longrightarrow> cb_inv (fst (cb_is_open now cb))"
  by (auto simp: cb_inv_def cb_is_open_unfold)

lemma cb_inv_record_failure: "cb_inv cb \<Longrightarrow> cb_inv (cb_record_failure now cb)"
  by (auto simp: cb_inv_def cb_record_failure_def Let_def)

lemma cb_inv_record_success: "cb_inv cb \<Longrightarrow> cb_inv (cb_record_success cb)"
  by (simp add: cb_inv_def cb_record_success_def)

lemmas cb_inv_intros =
  cb_inv_new cb_inv_current_state cb_inv_is_open cb_inv_record_failure cb_inv_record_success

lemma cb_step_inv: "cb_step s t \<Longrightarrow> cb_inv (breaker s) \<Longrightarrow> cb_inv (breaker t)"
proof (induction rule: cb_step.induct)
  case (admit now s cb')
  then show ?case using cb_inv_is_open [of "breaker s" now] by simp
next
  case (reject now s cb')
  then show ?case using cb_inv_is_open [of "breaker s" now] by simp
next
  case (query now s cb' st)
  then show ?case using cb_inv_current_state [of "breaker s" now] by simp
qed (simp_all add: cb_inv_record_failure cb_inv_record_success)

lemma cb_steps_inv: "cb_step\<^sup>*\<^sup>* s t \<Longrightarrow> cb_inv (breaker s) \<Longrightarrow> cb_inv (breaker t)"
  by (induction rule: rtranclp_induct) (auto intro: cb_step_inv)

text \<open>A run of consecutive failures, each recorded at its own time.\<close>

fun cb_fail_run :: "instant list \<Rightarrow> circuit_breaker \<Rightarrow> circuit_breaker" where
  "cb_fail_run [] cb = cb"
| "cb_fail_run (t # ts) cb = cb_fail_run ts (cb_record_failure t cb)"

lemma cb_fail_run_frame:
  "cb_failures (cb_fail_run ts cb) = cb_failures cb + int (length ts)
   \<and> cb_threshold (cb_fail_run ts cb) = cb_threshold cb
   \<and> cb_timeout (cb_fail_run ts cb) = cb_timeout cb"
  by (induction ts arbitrary: cb) (auto simp: cb_record_failure_def Let_def)

lemma cb_fail_run_inv: "cb_inv cb \<Longrightarrow> cb_inv (cb_fail_run ts cb)"
  by (induction ts arbitrary: cb) (auto intro: cb_inv_record_failure)

lemma cb_fail_run_not_half_open:
  "cb_inv cb \<Longrightarrow> cb_state cb \<noteq> HalfOpen \<Longrightarrow> cb_state (cb_fail_run ts cb) \<noteq> HalfOpen"
proof (induction ts arbitrary: cb)
  case (Cons t ts)
  have "cb_state (cb_record_failure t cb) \<noteq> HalfOpen"
    using Cons.prems by (auto simp: cb_record_failure_def Let_def)
  with Cons show ?case by (simp add: cb_inv_record_failure)
qed simp

lemma cb_fail_run_last:
  "ts \<noteq> [] \<Longrightarrow> cb_last_failure (cb_fail_run ts cb) = last ts"
  by (induction ts arbitrary: cb) (auto simp: cb_record_failure_def Let_def)


section \<open>The registry as an interface\<close>

text \<open>
  What a user of a registry relies on: an entry that exists is returned as it is, a missing one is
  built from the arguments, and no other entry changes.
\<close>

locale object_registry =
  fixes entry :: "'k \<Rightarrow> 'r \<Rightarrow> 'v option"
    and obtain_entry :: "'k \<Rightarrow> 'a \<Rightarrow> 'r \<Rightarrow> 'r \<times> 'v"
    and build :: "'k \<Rightarrow> 'a \<Rightarrow> 'v"
  assumes obtain_existing: "entry k r = Some v \<Longrightarrow> obtain_entry k a r = (r, v)"
    and obtain_missing: "entry k r = None \<Longrightarrow> snd (obtain_entry k a r) = build k a"
    and entry_obtained: "entry k (fst (obtain_entry k a r)) = Some (snd (obtain_entry k a r))"
    and entry_other: "k' \<noteq> k \<Longrightarrow> entry k' (fst (obtain_entry k a r)) = entry k' r"
begin

fun obtain_all :: "('k \<times> 'a) list \<Rightarrow> 'r \<Rightarrow> 'r" where
  "obtain_all [] r = r"
| "obtain_all ((k, a) # xs) r = obtain_all xs (fst (obtain_entry k a r))"

lemma entry_kept: "entry k r = Some v \<Longrightarrow> entry k (fst (obtain_entry k' a r)) = Some v"
  by (metis entry_obtained entry_other fst_conv obtain_existing)

lemma entry_kept_all: "entry k r = Some v \<Longrightarrow> entry k (obtain_all xs r) = Some v"
  by (induction xs r rule: obtain_all.induct) (auto intro: entry_kept)

lemma first_configuration_wins:
  assumes "entry k r = None"
  shows "obtain_entry k b (obtain_all xs (fst (obtain_entry k a r)))
         = (obtain_all xs (fst (obtain_entry k a r)), build k a)"
  using assms by (metis entry_kept_all entry_obtained obtain_existing obtain_missing)

end

interpretation cb_reg: object_registry cb_get
    "\<lambda>name (cfg :: int \<times> duration). cb_get_or_create name (fst cfg) (snd cfg)"
    "\<lambda>name cfg. cb_new name (fst cfg) (snd cfg)"
  by unfold_locales (auto simp: cb_get_def cb_get_or_create_def Let_def split: option.splits)

section \<open>Properties\<close>

text \<open>
  Starting from a new breaker, a run of failures leaves it closed while there are fewer than
  \<open>threshold\<close> of them and open from the \<open>threshold\<close>-th on; it never skips to half-open.
\<close>

lemma cb_trips_at_threshold:
  assumes "0 < threshold"
  shows "cb_state (cb_fail_run ts (cb_new name threshold timeout))
         = (if int (length ts) < threshold then Closed else Open)"
proof -
  let ?cb = "cb_fail_run ts (cb_new name threshold timeout)"
  have "cb_inv ?cb" and "cb_state ?cb \<noteq> HalfOpen"
    using assms cb_fail_run_not_half_open [of "cb_new name threshold timeout" ts]
    by (simp_all add: cb_fail_run_inv cb_inv_new) (simp add: cb_new_def)
  moreover have "cb_failures ?cb = int (length ts)" "cb_threshold ?cb = threshold"
    by (simp_all add: cb_fail_run_frame cb_new_def)
  ultimately show ?thesis
    by (cases "cb_state ?cb") (auto simp: cb_inv_def)
qed

theorem cb_trips_at_threshold_witness:
  "cb_state (cb_fail_run [1, 2, 3, 4] (cb_new ''nats'' 5 30)) = Closed
   \<and> cb_state (cb_fail_run [1, 2, 3, 4, 5] (cb_new ''nats'' 5 30)) = Open"
  using cb_trips_at_threshold [of 5 "[1, 2, 3, 4]" "''nats''" 30]
    cb_trips_at_threshold [of 5 "[1, 2, 3, 4, 5]" "''nats''" 30] by simp

text \<open>
  Fail fast. While the breaker is open and its timeout has not passed since the last failure,
  \<open>Call\<close> does not run the protected function (its world is unchanged, whatever the function) and
  returns the circuit-open error with the breaker's name; the failure count stays.
\<close>

lemma cb_open_fails_fast:
  assumes "cb_state cb = Open"
    and "go_sub (at_check clk) (cb_last_failure cb) \<le> cb_timeout cb"
  shows "(case cb_call clk fn (cb, w) of ((cb', w'), res) \<Rightarrow>
            w' = w \<and> (\<exists>s d. res = Some (CircuitOpen (cb_name cb) s d)) \<and>
            cb_failures cb' = cb_failures cb \<and> cb_state cb' \<noteq> Closed)"
proof -
  have "cb_is_open (at_check clk) cb = (cb, True)"
    using assms by (simp add: cb_is_open_unfold)
  then show ?thesis
    using assms(1) by (auto simp: cb_call_def cb_current_state_def Let_def)
qed

theorem cb_open_fails_fast_witness:
  "snd (fst (cb_call \<lparr>at_check = 100, at_state = 101, at_report = 102, at_fail = 103\<rparr>
     (\<lambda>w. (w + 1, None :: string option))
     (cb_fail_run [50] (cb_new ''nats'' 1 60), 7 :: int))) = 7"
proof -
  let ?clk = "\<lparr>at_check = 100, at_state = 101, at_report = 102, at_fail = 103\<rparr> :: cb_clock"
  let ?cb = "cb_fail_run [50] (cb_new ''nats'' 1 60)"
  have "cb_state ?cb = Open" and "go_sub (at_check ?clk) (cb_last_failure ?cb) \<le> cb_timeout ?cb"
    by (simp_all add: cb_record_failure_def cb_new_def go_sub_def)
  from cb_open_fails_fast [OF this, where fn = "\<lambda>w. (w + 1, None :: string option)" and w = "7 :: int"]
  show ?thesis by (auto split: prod.splits)
qed

text \<open>
  Recovery. Once the timeout has passed, one trial call decides: success closes the breaker
  and clears the failure count, failure opens it again at once, whatever the threshold.
\<close>

lemma cb_trial_call_decides:
  assumes "cb_inv cb" and "cb_state cb = Open"
    and "cb_timeout cb < go_sub (at_check clk) (cb_last_failure cb)"
  shows "(case cb_call clk fn (cb, w) of ((cb', w'), res) \<Rightarrow>
            w' = fst (fn w) \<and>
            (case snd (fn w) of
               None \<Rightarrow> res = None \<and> cb_state cb' = Closed \<and> cb_failures cb' = 0
             | Some e \<Rightarrow> res = Some (FnError e) \<and> cb_state cb' = Open
                 \<and> cb_last_failure cb' = at_fail clk))"
proof -
  have "cb_is_open (at_check clk) cb
        = (cb\<lparr>cb_state := HalfOpen, cb_half_open_calls := 0\<rparr>, False)"
    using assms(2,3) by (simp add: cb_is_open_unfold)
  moreover have "cb_threshold cb \<le> cb_failures cb"
    using assms(1,2) by (simp add: cb_inv_def)
  ultimately show ?thesis
    by (cases "fn w")
       (auto simp: cb_call_def cb_record_failure_def cb_record_success_def Let_def
             split: option.splits)
qed

theorem cb_trial_call_decides_witness:
  "cb_state (fst (fst (cb_call \<lparr>at_check = 200, at_state = 0, at_report = 0, at_fail = 201\<rparr>
     (\<lambda>w. (w, Some ''refused'')) (cb_fail_run [50] (cb_new ''nats'' 1 60), 7 :: int)))) = Open"
proof -
  let ?clk = "\<lparr>at_check = 200, at_state = 0, at_report = 0, at_fail = 201\<rparr> :: cb_clock"
  let ?cb = "cb_fail_run [50] (cb_new ''nats'' 1 60)"
  have "cb_inv ?cb" "cb_state ?cb = Open"
    "cb_timeout ?cb < go_sub (at_check ?clk) (cb_last_failure ?cb)"
    by (simp_all add: cb_record_failure_def cb_new_def cb_inv_def go_sub_def)
  from cb_trial_call_decides [OF this, where fn = "\<lambda>w. (w, Some ''refused'')" and w = "7 :: int"]
  show ?thesis by (auto split: prod.splits)
qed



text \<open>
  The half-open state does not bound its trial calls. Whatever \<open>halfOpenMaxCalls\<close> says, a
  half-open breaker admits any number of further concurrent calls and stays half-open.
\<close>

lemma cb_half_open_admits_any_number:
  assumes "cb_state (breaker s) = HalfOpen"
  shows "cb_step\<^sup>*\<^sup>* s (s\<lparr>in_flight := in_flight s + n\<rparr>)"
proof (induction n)
  case (Suc n)
  let ?s = "s\<lparr>in_flight := in_flight s + n\<rparr>"
  have "cb_is_open 0 (breaker ?s) = (breaker ?s, False)"
    using assms by (simp add: cb_is_open_unfold)
  from cb_step.admit [OF this] have "cb_step ?s (s\<lparr>in_flight := in_flight s + Suc n\<rparr>)"
    by simp
  with Suc show ?case by (rule rtranclp.rtrancl_into_rtrancl)
qed simp

theorem cb_half_open_admits_any_number_witness:
  "let cb = fst (cb_is_open 200 (cb_fail_run [50] (cb_new ''nats'' 1 60)));
       s = \<lparr>breaker = cb, in_flight = 0\<rparr>
   in cb_half_open_max_calls cb = 3 \<and> cb_step\<^sup>*\<^sup>* s (s\<lparr>in_flight := 100\<rparr>)"
proof -
  let ?cb = "fst (cb_is_open 200 (cb_fail_run [50] (cb_new ''nats'' 1 60)))"
  have "cb_state (breaker \<lparr>breaker = ?cb, in_flight = 0\<rparr>) = HalfOpen"
    by (simp add: cb_is_open_unfold cb_record_failure_def cb_new_def go_sub_def)
  from cb_half_open_admits_any_number [OF this, of 100] show ?thesis
    by (simp add: Let_def cb_is_open_unfold cb_record_failure_def cb_new_def go_sub_def)
qed

text \<open>
  The registry never rebuilds a breaker. Whatever names and configurations are requested in
  between, a later request for a name returns the breaker of the first request, and the later
  threshold and timeout are ignored.
\<close>

lemma cb_registry_first_configuration_wins:
  assumes "r name = None"
  shows "cb_get_or_create name th2 to2
           (cb_reg.obtain_all xs (fst (cb_get_or_create name th1 to1 r)))
         = (cb_reg.obtain_all xs (fst (cb_get_or_create name th1 to1 r)), cb_new name th1 to1)"
  using cb_reg.first_configuration_wins [of name r "(th2, to2)" xs "(th1, to1)"] assms
  by (simp add: cb_get_def)

lemma cb_registry_first_configuration_wins_witness:
  "snd (cb_get_or_create ''nats'' 9 9
     (cb_reg.obtain_all [(''tts'', (1, 1))] (fst (cb_get_or_create ''nats'' 5 30 cb_new_registry))))
   = cb_new ''nats'' 5 30"
proof -
  have "cb_new_registry ''nats'' = None" by (simp add: cb_new_registry_def)
  then show ?thesis
    using cb_registry_first_configuration_wins
      [of cb_new_registry "''nats''" 9 9 "[(''tts'', (1, 1))]" 5 30] by simp
qed

end
