(* ===== verification/Tables.thy ===== *)
theory Tables
  imports Reagent_Prelude
begin

text \<open>
  Database tables as lists of rows, the effect of UPDATE statements on them and the contract of a
  table whose rows evolve by a preorder. Shared by the sync and the classification services.
\<close>

section \<open>Updating the rows with a key\<close>

text \<open>
  An \<open>UPDATE ... WHERE id = k\<close> rewrites every row whose key matches; \<open>rows_matching\<close> is its
  \<open>RowsAffected\<close>.
\<close>

definition update_rows :: "('r \<Rightarrow> bool) \<Rightarrow> ('r \<Rightarrow> 'r) \<Rightarrow> 'r list \<Rightarrow> 'r list" where
  "update_rows p f rs = map (\<lambda>r. if p r then f r else r) rs"

definition rows_matching :: "('r \<Rightarrow> bool) \<Rightarrow> 'r list \<Rightarrow> nat" where
  "rows_matching p rs = length (filter p rs)"

lemma length_update_rows [simp]: "length (update_rows p f rs) = length rs"
  by (simp add: update_rows_def)

lemma update_rows_nth:
  "i < length rs \<Longrightarrow> update_rows p f rs ! i = (if p (rs ! i) then f (rs ! i) else rs ! i)"
  by (simp add: update_rows_def)

lemma rows_matching_0_iff [simp]: "rows_matching p rs = 0 \<longleftrightarrow> (\<forall>r \<in> set rs. \<not> p r)"
  by (auto simp: rows_matching_def filter_empty_conv)

lemma update_rows_no_match: "\<forall>r \<in> set rs. \<not> p r \<Longrightarrow> update_rows p f rs = rs"
  by (auto simp: update_rows_def intro!: map_idI)

lemma map_update_rows: "(\<And>r. p r \<Longrightarrow> g (f r) = g r) \<Longrightarrow> map g (update_rows p f rs) = map g rs"
  by (simp add: update_rows_def)

lemma filter_update_rows:
  "(\<And>r. p r \<Longrightarrow> q (f r) = q r) \<Longrightarrow>
   filter q (update_rows p f rs) = update_rows p f (filter q rs)"
  by (induction rs) (auto simp: update_rows_def)

lemma find_None_rows: "List.find p rs = None \<longleftrightarrow> rows_matching p rs = 0"
  by (auto simp: find_None_iff)

section \<open>Rows that evolve\<close>

text \<open>
  The contract a table keeps under a group of operations: each row is related to its successor
  by a preorder (what the operations may change in one row), row by row and in order. Statements
  that rewrite matching rows keep the contract when the rewrite does, and runs compose.
\<close>

locale row_evolution =
  fixes evolves :: "'r \<Rightarrow> 'r \<Rightarrow> bool"
  assumes evolves_refl: "evolves r r"
    and evolves_trans: "evolves r s \<Longrightarrow> evolves s t \<Longrightarrow> evolves r t"
begin

abbreviation rows_evolve :: "'r list \<Rightarrow> 'r list \<Rightarrow> bool" where
  "rows_evolve \<equiv> list_all2 evolves"

lemma rows_refl: "rows_evolve rs rs"
  by (simp add: evolves_refl list_all2_refl)

lemma rows_trans: "rows_evolve rs ss \<Longrightarrow> rows_evolve ss ts \<Longrightarrow> rows_evolve rs ts"
  by (rule list_all2_trans [OF evolves_trans])

lemma rows_update:
  "(\<And>r. r \<in> set rs \<Longrightarrow> p r \<Longrightarrow> evolves r (f r)) \<Longrightarrow> rows_evolve rs (update_rows p f rs)"
  by (auto simp: list_all2_conv_all_nth update_rows_nth evolves_refl)

lemma rows_nth: "rows_evolve rs ss \<Longrightarrow> i < length rs \<Longrightarrow> evolves (rs ! i) (ss ! i)"
  by (rule list_all2_nthD)

lemma rows_map:
  "(\<And>r s. evolves r s \<Longrightarrow> g s = g r) \<Longrightarrow> rows_evolve rs ss \<Longrightarrow> map g ss = map g rs"
  by (auto simp: list_all2_conv_all_nth intro!: nth_equalityI)

lemma rows_find:
  "(\<And>r s. evolves r s \<Longrightarrow> p s = p r) \<Longrightarrow> rows_evolve rs ss \<Longrightarrow>
   rel_option evolves (List.find p rs) (List.find p ss)"
  by (induction rs arbitrary: ss) (auto simp: list_all2_Cons1)

end

text \<open>Tables that also gain rows at the end.\<close>

context row_evolution
begin

definition rows_grow :: "'r list \<Rightarrow> 'r list \<Rightarrow> bool" where
  "rows_grow rs ts \<longleftrightarrow> (\<exists>us vs. ts = us @ vs \<and> rows_evolve rs us)"

lemma grow_evolve: "rows_evolve rs ss \<Longrightarrow> rows_grow rs ss"
  by (auto simp: rows_grow_def intro: exI [of _ "[]"])

lemma grow_refl: "rows_grow rs rs"
  by (rule grow_evolve) (rule rows_refl)

lemma grow_append: "rows_grow rs (rs @ vs)"
  using rows_refl by (auto simp: rows_grow_def)

lemma grow_trans:
  assumes "rows_grow rs ss" "rows_grow ss ts"
  shows "rows_grow rs ts"
proof -
  obtain us vs us' vs' where a: "ss = us @ vs" "rows_evolve rs us"
    and b: "ts = us' @ vs'" "rows_evolve ss us'"
    using assms by (auto simp: rows_grow_def)
  from b(2) obtain x y where xy: "us' = x @ y" "rows_evolve us x" "rows_evolve vs y"
    unfolding a(1) by (auto simp: list_all2_append1)
  then have "ts = x @ (y @ vs')" "rows_evolve rs x"
    using b(1) rows_trans [OF a(2)] by simp_all
  then show ?thesis by (auto simp: rows_grow_def)
qed

lemma grow_nth:
  assumes "rows_grow rs ss" "i < length rs"
  shows "i < length ss \<and> evolves (rs ! i) (ss ! i)"
proof -
  obtain us vs where "ss = us @ vs" "rows_evolve rs us"
    using assms(1) by (auto simp: rows_grow_def)
  moreover from this(2) have "length us = length rs" by (simp add: list_all2_lengthD)
  ultimately show ?thesis using assms(2) rows_nth by (simp add: nth_append)
qed

end

end
