(* ===== verification/Sync_Data.thy ===== *)
theory Sync_Data
  imports Tables
begin

text \<open>
  The data of the sync service (\<open>src/sync/internal/models/models.go\<close>): decision cards, drafts,
  user queues, the sync and decision logs, and the wire format of the sync protocol. A table is
  the list of its rows; the lists stand in for the order PostgreSQL returns rows in where a query
  leaves it open. The tables carry the columns the service's statements name. Scores are
  rationals: the code only compares them, and float64 comparison agrees with rational comparison.
  JSON columns the modelled code copies and never reads are opaque strings.
\<close>

record decision_card =
  card_id :: uuid
  card_user :: uuid
  card_thread :: uuid
  card_account :: uuid
  card_state :: string
  card_from :: string
  card_they_want :: string
  card_context :: string
  card_need :: string
  card_citations :: string
  card_urgency :: rat
  card_rule :: "uuid option"
  card_confidence :: "rat option"
  card_deadline :: "instant option"
  card_decided_at :: "instant option"
  card_sent_at :: "instant option"
  card_version :: int
  card_created_at :: instant
  card_updated_at :: instant

record draft =
  draft_id :: uuid
  draft_card :: uuid
  draft_user :: uuid
  draft_thread :: uuid
  draft_body :: string
  draft_subject :: "string option"
  draft_tone :: "string option"
  draft_in_reply_to :: "string option"
  draft_references :: "string list"
  draft_model :: "string option"
  draft_tokens :: "int option"
  draft_approved :: bool
  draft_sent_at :: "instant option"
  draft_created_at :: instant
  draft_message_id :: "string option"
  draft_updated_at :: instant

record user_queue =
  queue_user :: uuid
  queue_pending :: int
  queue_version :: int
  queue_last_notified :: "instant option"
  queue_created_at :: instant
  queue_updated_at :: instant

text \<open>The JSON details of a log entry, by the shapes the code marshals.\<close>

datatype log_details =
    NoDetails
  | SessionDetails int instant
  | StateDetails string string
  | EditDetails nat string "string option"

record sync_log_entry =
  log_user :: uuid
  log_device :: string
  log_card :: "uuid option"
  log_operation :: string
  log_change_type :: string
  log_reason :: string
  log_version :: int
  log_details :: log_details
  log_created_at :: instant

record decision_log_entry =
  dlog_user :: uuid
  dlog_card :: uuid
  dlog_type :: string
  dlog_details :: string
  dlog_created_at :: instant

record sync_db =
  cards :: "decision_card list"
  drafts :: "draft list"
  queues :: "user_queue list"
  sync_log :: "sync_log_entry list"
  decision_log :: "decision_log_entry list"

section \<open>Wire format of the sync protocol\<close>

record local_change =
  ch_card :: uuid
  ch_version :: int
  ch_state :: string
  ch_decision :: "string option"
  ch_draft_body :: "string option"
  ch_approved_draft :: "uuid option"

record sync_request =
  req_device :: string
  req_last_version :: int
  req_changes :: "local_change list"

record rejected_change =
  rej_card :: uuid
  rej_reason :: string
  rej_server_state :: string

record sync_response =
  resp_version :: int
  resp_accepted :: "uuid list"
  resp_rejected :: "rejected_change list"
  resp_new :: "decision_card list"
  resp_updated :: "decision_card list"
  resp_removed :: "uuid list"

section \<open>The order of a card queue\<close>

text \<open>
  \<open>ORDER BY urgency_score DESC, created_at ASC\<close>: a key type whose order is that order, so that
  the library's sorting facts apply to the queries.
\<close>

datatype queue_key = QueueKey rat instant

instantiation queue_key :: linorder
begin

fun less_eq_queue_key :: "queue_key \<Rightarrow> queue_key \<Rightarrow> bool" where
  "less_eq_queue_key (QueueKey u t) (QueueKey v s) = (v < u \<or> (u = v \<and> t \<le> s))"

definition less_queue_key :: "queue_key \<Rightarrow> queue_key \<Rightarrow> bool" where
  "less_queue_key a b = (a \<le> b \<and> \<not> b \<le> a)"

instance
proof
  fix a b c :: queue_key
  show "a < b \<longleftrightarrow> a \<le> b \<and> \<not> b \<le> a" by (simp add: less_queue_key_def)
  show "a \<le> a" by (cases a) simp
  show "a \<le> b \<Longrightarrow> b \<le> c \<Longrightarrow> a \<le> c" by (cases a; cases b; cases c) auto
  show "a \<le> b \<Longrightarrow> b \<le> a \<Longrightarrow> a = b" by (cases a; cases b) auto
  show "a \<le> b \<or> b \<le> a" by (cases a; cases b) auto
qed

end

definition queue_key :: "decision_card \<Rightarrow> queue_key" where
  "queue_key c = QueueKey (card_urgency c) (card_created_at c)"

definition order_queue :: "decision_card list \<Rightarrow> decision_card list" where
  "order_queue cs = sort_key queue_key cs"

lemma set_order_queue [simp]: "set (order_queue cs) = set cs"
  by (simp add: order_queue_def)

lemma order_queue_urgency_desc:
  "i < j \<Longrightarrow> j < length cs \<Longrightarrow>
     card_urgency (order_queue cs ! j) \<le> card_urgency (order_queue cs ! i)"
proof -
  assume ij: "i < j" "j < length cs"
  have "sorted (map queue_key (order_queue cs))"
    by (simp add: order_queue_def)
  with ij have "queue_key (order_queue cs ! i) \<le> queue_key (order_queue cs ! j)"
    by (auto simp: sorted_iff_nth_mono order_queue_def)
  then show ?thesis by (auto simp: queue_key_def)
qed

end
