(* ===== verification/Sync_Store.thy ===== *)
theory Sync_Store
  imports Sync_Data
begin

text \<open>
  The statements of \<open>src/sync/internal/sync/store.go\<close> and \<open>cursor.go\<close> on the tables. Every
  statement may fail for reasons of its own (connection, timeout, constraint): its first argument
  says whether it does, and a failed statement changes nothing. \<open>WithTx\<close> runs a body on a copy
  of the tables and keeps the result only when the body and the commit both succeed.
\<close>

datatype store_error =
    DbError
  | CardNotFound uuid
  | CardNotOwned uuid
  | DraftNotFound uuid
  | NoDrafts uuid
  | InvalidCardState string

section \<open>Sync log\<close>

definition log_change ::
  "bool \<Rightarrow> sync_log_entry \<Rightarrow> sync_db \<Rightarrow> sync_db \<times> store_error option" where
  "log_change fault e db =
     (if fault then (db, Some DbError) else (db\<lparr>sync_log := sync_log db @ [e]\<rparr>, None))"

definition log_change_tx ::
  "bool \<Rightarrow> sync_log_entry \<Rightarrow> sync_db \<Rightarrow> store_error + sync_db" where
  "log_change_tx fault e db =
     (if fault then Inl DbError else Inr (db\<lparr>sync_log := sync_log db @ [e]\<rparr>))"

definition log_session_start ::
  "bool \<Rightarrow> instant \<Rightarrow> uuid \<Rightarrow> string \<Rightarrow> int \<Rightarrow> sync_db \<Rightarrow> sync_db \<times> store_error option" where
  "log_session_start fault now user device client_version db =
     log_change fault
       \<lparr>log_user = user, log_device = device, log_card = None, log_operation = ''sync_start'',
        log_change_type = [], log_reason = [], log_version = client_version,
        log_details = SessionDetails client_version now, log_created_at = now\<rparr> db"

section \<open>Cards\<close>

definition get_card_by_id ::
  "bool \<Rightarrow> uuid \<Rightarrow> sync_db \<Rightarrow> store_error + decision_card" where
  "get_card_by_id fault cid db =
     (if fault then Inl DbError
      else (case List.find (\<lambda>c. card_id c = cid) (cards db) of
              None \<Rightarrow> Inl (CardNotFound cid) | Some c \<Rightarrow> Inr c))"

definition get_card_owned_by ::
  "bool \<Rightarrow> uuid \<Rightarrow> uuid \<Rightarrow> sync_db \<Rightarrow> store_error + decision_card" where
  "get_card_owned_by fault cid user db =
     (if fault then Inl DbError
      else (case List.find (\<lambda>c. card_id c = cid \<and> card_user c = user) (cards db) of
              None \<Rightarrow> Inl (CardNotOwned cid) | Some c \<Rightarrow> Inr c))"

definition store_card_states :: "string list" where
  "store_card_states =
     [''pending'', ''consulting'', ''drafting'', ''approved'', ''sent'', ''archived'', ''expired'']"

definition update_card_state_tx ::
  "bool \<Rightarrow> instant \<Rightarrow> uuid \<Rightarrow> string \<Rightarrow> sync_db \<Rightarrow> store_error + sync_db" where
  "update_card_state_tx fault now cid new_state db =
     (let p = (\<lambda>c. card_id c = cid);
          f = (\<lambda>c. c\<lparr>card_state := new_state, card_version := card_version c + 1,
                     card_updated_at := now\<rparr>)
      in if fault then Inl DbError
         else if rows_matching p (cards db) = 0 then Inl (CardNotFound cid)
         else Inr (db\<lparr>cards := update_rows p f (cards db)\<rparr>))"

definition update_card_state ::
  "bool \<Rightarrow> instant \<Rightarrow> uuid \<Rightarrow> string \<Rightarrow> sync_db \<Rightarrow> store_error + sync_db" where
  "update_card_state fault now cid new_state db =
     (if new_state \<notin> set store_card_states then Inl (InvalidCardState new_state)
      else (let p = (\<lambda>c. card_id c = cid);
                f = (\<lambda>c. c\<lparr>card_state := new_state, card_version := card_version c + 1,
                           card_updated_at := now\<rparr>)
            in if fault then Inl DbError
               else if rows_matching p (cards db) = 0 then Inl (CardNotFound cid)
               else Inr (db\<lparr>cards := update_rows p f (cards db)\<rparr>)))"

definition mark_card_approved_tx ::
  "bool \<Rightarrow> instant \<Rightarrow> uuid \<Rightarrow> sync_db \<Rightarrow> store_error + sync_db" where
  "mark_card_approved_tx fault now cid db =
     (let p = (\<lambda>c. card_id c = cid);
          f = (\<lambda>c. c\<lparr>card_state := ''approved'', card_decided_at := Some now,
                     card_version := card_version c + 1, card_updated_at := now\<rparr>)
      in if fault then Inl DbError
         else if rows_matching p (cards db) = 0 then Inl (CardNotFound cid)
         else Inr (db\<lparr>cards := update_rows p f (cards db)\<rparr>))"

definition mark_card_approved ::
  "bool \<Rightarrow> instant \<Rightarrow> uuid \<Rightarrow> sync_db \<Rightarrow> store_error + sync_db" where
  "mark_card_approved fault now cid db =
     (let p = (\<lambda>c. card_id c = cid);
          f = (\<lambda>c. c\<lparr>card_state := ''approved'', card_decided_at := Some now,
                     card_version := card_version c + 1, card_updated_at := now\<rparr>)
      in if fault then Inl DbError
         else if rows_matching p (cards db) = 0 then Inl (CardNotFound cid)
         else Inr (db\<lparr>cards := update_rows p f (cards db)\<rparr>))"

section \<open>Drafts\<close>

definition get_draft_by_id ::
  "bool \<Rightarrow> uuid \<Rightarrow> sync_db \<Rightarrow> store_error + draft" where
  "get_draft_by_id fault did db =
     (if fault then Inl DbError
      else (case List.find (\<lambda>d. draft_id d = did) (drafts db) of
              None \<Rightarrow> Inl (DraftNotFound did) | Some d \<Rightarrow> Inr d))"

definition approve_draft_tx ::
  "bool \<Rightarrow> instant \<Rightarrow> uuid \<Rightarrow> sync_db \<Rightarrow> store_error + sync_db" where
  "approve_draft_tx fault now did db =
     (let p = (\<lambda>d. draft_id d = did);
          f = (\<lambda>d. d\<lparr>draft_approved := True, draft_updated_at := now\<rparr>)
      in if fault then Inl DbError
         else if rows_matching p (drafts db) = 0 then Inl (DraftNotFound did)
         else Inr (db\<lparr>drafts := update_rows p f (drafts db)\<rparr>))"

definition approve_draft ::
  "bool \<Rightarrow> instant \<Rightarrow> uuid \<Rightarrow> sync_db \<Rightarrow> store_error + sync_db" where
  "approve_draft fault now did db =
     (let p = (\<lambda>d. draft_id d = did);
          f = (\<lambda>d. d\<lparr>draft_approved := True, draft_updated_at := now\<rparr>)
      in if fault then Inl DbError
         else if rows_matching p (drafts db) = 0 then Inl (DraftNotFound did)
         else Inr (db\<lparr>drafts := update_rows p f (drafts db)\<rparr>))"

text \<open>\<open>ORDER BY created_at DESC LIMIT 1\<close>: the newest draft of the card.\<close>

fun newest_draft :: "draft list \<Rightarrow> draft option" where
  "newest_draft [] = None"
| "newest_draft (d # ds) =
     (case newest_draft ds of
        None \<Rightarrow> Some d
      | Some e \<Rightarrow> if draft_created_at d < draft_created_at e then Some e else Some d)"

definition get_latest_draft_for_card ::
  "bool \<Rightarrow> uuid \<Rightarrow> sync_db \<Rightarrow> store_error + draft" where
  "get_latest_draft_for_card fault cid db =
     (if fault then Inl DbError
      else (case newest_draft (filter (\<lambda>d. draft_card d = cid) (drafts db)) of
              None \<Rightarrow> Inl (NoDrafts cid) | Some d \<Rightarrow> Inr d))"

section \<open>Transactions\<close>

definition with_tx ::
  "bool \<Rightarrow> bool \<Rightarrow> (sync_db \<Rightarrow> store_error + sync_db) \<Rightarrow> sync_db
     \<Rightarrow> sync_db \<times> store_error option" where
  "with_tx begin_fault commit_fault body db =
     (if begin_fault then (db, Some DbError)
      else (case body db of
              Inl e \<Rightarrow> (db, Some e)
            | Inr db' \<Rightarrow> if commit_fault then (db, Some DbError) else (db', None)))"

section \<open>Version cursor\<close>

definition get_current_version :: "bool \<Rightarrow> uuid \<Rightarrow> sync_db \<Rightarrow> store_error + int" where
  "get_current_version fault user db =
     (if fault then Inl DbError
      else (case List.find (\<lambda>q. queue_user q = user) (queues db) of
              None \<Rightarrow> Inr 0 | Some q \<Rightarrow> Inr (queue_version q)))"

definition increment_version ::
  "bool \<Rightarrow> instant \<Rightarrow> uuid \<Rightarrow> sync_db \<Rightarrow> sync_db \<times> (store_error + int)" where
  "increment_version fault now user db =
     (if fault then (db, Inl DbError)
      else (case List.find (\<lambda>q. queue_user q = user) (queues db) of
              None \<Rightarrow>
                (db\<lparr>queues := queues db @
                   [\<lparr>queue_user = user, queue_pending = 0, queue_version = 1,
                     queue_last_notified = None, queue_created_at = now,
                     queue_updated_at = now\<rparr>]\<rparr>, Inr 1)
            | Some q \<Rightarrow>
                (db\<lparr>queues := update_rows (\<lambda>r. queue_user r = user)
                   (\<lambda>r. r\<lparr>queue_version := queue_version r + 1, queue_updated_at := now\<rparr>)
                   (queues db)\<rparr>, Inr (queue_version q + 1))))"

text \<open>The same upsert inside a transaction: the body's tables or an error.\<close>

definition bump_version_tx ::
  "bool \<Rightarrow> instant \<Rightarrow> uuid \<Rightarrow> sync_db \<Rightarrow> store_error + (sync_db \<times> int)" where
  "bump_version_tx fault now user db =
     (case increment_version fault now user db of
        (db', Inl e) \<Rightarrow> Inl e | (db', Inr v) \<Rightarrow> Inr (db', v))"

definition ensure_user_queue ::
  "bool \<Rightarrow> instant \<Rightarrow> uuid \<Rightarrow> sync_db \<Rightarrow> sync_db \<times> store_error option" where
  "ensure_user_queue fault now user db =
     (if fault then (db, Some DbError)
      else if rows_matching (\<lambda>q. queue_user q = user) (queues db) \<noteq> 0 then (db, None)
      else (db\<lparr>queues := queues db @
              [\<lparr>queue_user = user, queue_pending = 0, queue_version = 0,
                queue_last_notified = None, queue_created_at = now,
                queue_updated_at = now\<rparr>]\<rparr>, None))"

record changes_since =
  new_cards :: "decision_card list"
  updated_cards :: "decision_card list"
  removed_cards :: "uuid list"

text \<open>Card states the server treats as immutable (\<open>TerminalStates\<close> of \<open>conflict.go\<close>).\<close>

definition terminal_states :: "string list" where
  "terminal_states = [''sent'', ''archived'', ''expired'']"

definition is_terminal :: "string \<Rightarrow> bool" where
  "is_terminal s \<longleftrightarrow> s \<in> set terminal_states"

fun categorise_cards :: "decision_card list \<Rightarrow> changes_since \<Rightarrow> changes_since" where
  "categorise_cards [] r = r"
| "categorise_cards (c # cs) r =
     (if is_terminal (card_state c)
      then categorise_cards cs (r\<lparr>removed_cards := removed_cards r @ [card_id c]\<rparr>)
      else if card_version c = 1
      then categorise_cards cs (r\<lparr>new_cards := new_cards r @ [c]\<rparr>)
      else categorise_cards cs (r\<lparr>updated_cards := updated_cards r @ [c]\<rparr>))"

definition get_changes_since ::
  "bool \<Rightarrow> uuid \<Rightarrow> int \<Rightarrow> sync_db \<Rightarrow> store_error + changes_since" where
  "get_changes_since fault user since0 db =
     (let since = (if since0 < 0 then 0 else since0)
      in if fault then Inl DbError
         else Inr (categorise_cards
                (order_queue (filter (\<lambda>c. card_user c = user \<and> since < card_version c) (cards db)))
                \<lparr>new_cards = [], updated_cards = [], removed_cards = []\<rparr>))"

section \<open>Lemmas\<close>

lemma log_change_frame [store_simps]:
  "cards (fst (log_change f e db)) = cards db"
  "drafts (fst (log_change f e db)) = drafts db"
  "queues (fst (log_change f e db)) = queues db"
  by (simp_all add: log_change_def)

lemma log_session_start_frame [store_simps]:
  "cards (fst (log_session_start f now u d v db)) = cards db"
  "drafts (fst (log_session_start f now u d v db)) = drafts db"
  "queues (fst (log_session_start f now u d v db)) = queues db"
  by (simp_all add: log_session_start_def store_simps)

lemma get_card_owned_byD:
  "get_card_owned_by f cid u db = Inr c \<Longrightarrow>
     c \<in> set (cards db) \<and> card_id c = cid \<and> card_user c = u"
  by (auto simp: get_card_owned_by_def find_Some_iff in_set_conv_nth
      split: if_splits option.splits)

lemma with_tx_error [store_simps]: "snd (with_tx bf cf b db) = Some e \<Longrightarrow> fst (with_tx bf cf b db) = db"
  by (auto simp: with_tx_def split: if_splits sum.splits)

lemma with_tx_ok:
  "snd (with_tx bf cf b db) = None \<Longrightarrow> \<exists>db'. b db = Inr db' \<and> fst (with_tx bf cf b db) = db'"
  by (auto simp: with_tx_def split: if_splits sum.splits)

lemma categorise_cards_eq:
  "categorise_cards cs r =
     \<lparr>new_cards = new_cards r @ filter (\<lambda>c. \<not> is_terminal (card_state c) \<and> card_version c = 1) cs,
      updated_cards = updated_cards r @ filter (\<lambda>c. \<not> is_terminal (card_state c) \<and> card_version c \<noteq> 1) cs,
      removed_cards = removed_cards r @ map card_id (filter (\<lambda>c. is_terminal (card_state c)) cs)\<rparr>"
  by (induction cs arbitrary: r) auto

end
