(* ===== verification/Sync_Engine.thy ===== *)
theory Sync_Engine
  imports Sync_Store
begin

text \<open>
  The server side of the offline-first sync protocol: the conflict policy of
  \<open>src/sync/internal/sync/conflict.go\<close>, the merge engine of \<open>merger.go\<close> (\<open>Process\<close> and the
  per-change rules) and the request handling of \<open>handler.go\<close>. The engine is a function of the
  tables and of an environment that says which statements fail and what the clock reads.
\<close>

section \<open>Conflict policy\<close>

datatype field_name = FieldCardState | FieldDraftBody | FieldUserApproved | FieldUrgencyScore

datatype winner = WinnerUser | WinnerServer

datatype exception_rule = ExceptionNone | ExceptionServerIfTerminal | ExceptionNewerTimestamp

record conflict_rule =
  rule_field :: field_name
  rule_winner :: winner
  rule_exception :: exception_rule

text \<open>Fields arrive as strings; a string that names no field has no rule.\<close>

definition field_of_string :: "string \<Rightarrow> field_name option" where
  "field_of_string = map_of
     [(''card_state'', FieldCardState), (''draft_body'', FieldDraftBody),
      (''user_approved'', FieldUserApproved), (''urgency_score'', FieldUrgencyScore)]"

fun conflict_rules :: "field_name \<Rightarrow> conflict_rule" where
  "conflict_rules FieldCardState =
     \<lparr>rule_field = FieldCardState, rule_winner = WinnerUser, rule_exception = ExceptionServerIfTerminal\<rparr>"
| "conflict_rules FieldDraftBody =
     \<lparr>rule_field = FieldDraftBody, rule_winner = WinnerServer, rule_exception = ExceptionNone\<rparr>"
| "conflict_rules FieldUserApproved =
     \<lparr>rule_field = FieldUserApproved, rule_winner = WinnerUser, rule_exception = ExceptionNone\<rparr>"
| "conflict_rules FieldUrgencyScore =
     \<lparr>rule_field = FieldUrgencyScore, rule_winner = WinnerServer, rule_exception = ExceptionNone\<rparr>"

definition resolve_conflict :: "string \<Rightarrow> bool \<Rightarrow> winner" where
  "resolve_conflict field server_is_terminal =
     (case field_of_string field of
        None \<Rightarrow> WinnerServer
      | Some f \<Rightarrow>
          if rule_exception (conflict_rules f) = ExceptionServerIfTerminal \<and> server_is_terminal
          then WinnerServer
          else rule_winner (conflict_rules f))"

definition valid_card_states :: "string list" where
  "valid_card_states =
     [''pending'', ''consulting'', ''drafting'', ''approved'', ''sent'', ''archived'', ''expired'']"

definition is_valid_card_state :: "string \<Rightarrow> bool" where
  "is_valid_card_state s = list_ex (\<lambda>v. v = s) valid_card_states"

section \<open>Applying one change\<close>

text \<open>
  What the surroundings decide while one change is applied: the clock and, per statement of the
  code in its order, whether it fails.
\<close>

record apply_env =
  env_now :: instant
  fail_get_card :: bool
  fail_log :: bool
  fail_begin :: bool
  fail_mark :: bool
  fail_approve_draft :: bool
  fail_latest_draft :: bool
  fail_log_tx :: bool
  fail_commit :: bool

definition no_faults :: "instant \<Rightarrow> apply_env" where
  "no_faults now =
     \<lparr>env_now = now, fail_get_card = False, fail_log = False, fail_begin = False,
      fail_mark = False, fail_approve_draft = False, fail_latest_draft = False,
      fail_log_tx = False, fail_commit = False\<rparr>"

record apply_result =
  res_accepted :: bool
  res_reason :: string
  res_server_state :: string

definition safe_deref :: "string option \<Rightarrow> string" where
  "safe_deref s = (case s of None \<Rightarrow> [] | Some x \<Rightarrow> x)"

definition valid_decisions :: "string list" where
  "valid_decisions = [''approve'', ''edit'', ''consult'']"

definition is_valid_decision :: "string \<Rightarrow> bool" where
  "is_valid_decision d \<longleftrightarrow> d \<in> set valid_decisions"

definition change_log ::
  "apply_env \<Rightarrow> uuid \<Rightarrow> string \<Rightarrow> local_change \<Rightarrow> string \<Rightarrow> string \<Rightarrow> string \<Rightarrow> int \<Rightarrow> log_details
     \<Rightarrow> sync_log_entry" where
  "change_log env user device ch operation change_type reason version details =
     \<lparr>log_user = user, log_device = device, log_card = Some (ch_card ch),
      log_operation = operation, log_change_type = change_type, log_reason = reason,
      log_version = version, log_details = details, log_created_at = env_now env\<rparr>"

text \<open>
  Step 2 of \<open>applyApprove\<close>: approve the draft the client named, else the newest one; failures
  are logged and ignored. The lookup of the newest draft reads outside the transaction.
\<close>

definition approve_change_draft :: "apply_env \<Rightarrow> local_change \<Rightarrow> sync_db \<Rightarrow> sync_db \<Rightarrow> sync_db" where
  "approve_change_draft env ch outside tx =
     (case ch_approved_draft ch of
        Some did \<Rightarrow>
          (case approve_draft_tx (fail_approve_draft env) (env_now env) did tx of
             Inl _ \<Rightarrow> tx | Inr tx' \<Rightarrow> tx')
      | None \<Rightarrow>
          (case get_latest_draft_for_card (fail_latest_draft env) (ch_card ch) outside of
             Inl _ \<Rightarrow> tx
           | Inr d \<Rightarrow>
               (case approve_draft_tx (fail_approve_draft env) (env_now env) (draft_id d) tx of
                  Inl _ \<Rightarrow> tx | Inr tx' \<Rightarrow> tx')))"

text \<open>The transaction body of \<open>applyApprove\<close>.\<close>

definition approve_body ::
  "apply_env \<Rightarrow> uuid \<Rightarrow> string \<Rightarrow> local_change \<Rightarrow> decision_card \<Rightarrow> sync_db \<Rightarrow> sync_db
     \<Rightarrow> store_error + sync_db" where
  "approve_body env user device ch crd outside tx =
     (case mark_card_approved_tx (fail_mark env) (env_now env) (ch_card ch) tx of
        Inl e \<Rightarrow> Inl e
      | Inr tx1 \<Rightarrow>
          log_change_tx (fail_log_tx env)
            (change_log env user device ch ''accept'' ''approve'' ''user_approved''
               (card_version crd + 1) NoDetails)
            (approve_change_draft env ch outside tx1))"

definition apply_approve ::
  "apply_env \<Rightarrow> uuid \<Rightarrow> string \<Rightarrow> local_change \<Rightarrow> decision_card \<Rightarrow> sync_db
     \<Rightarrow> sync_db \<times> apply_result" where
  "apply_approve env user device ch crd db =
     (let (db', err) = with_tx (fail_begin env) (fail_commit env)
                         (approve_body env user device ch crd db) db
      in (case err of
            Some _ \<Rightarrow> (db', \<lparr>res_accepted = False, res_reason = ''transaction_failed'',
                             res_server_state = card_state crd\<rparr>)
          | None \<Rightarrow> (db', \<lparr>res_accepted = True, res_reason = [], res_server_state = []\<rparr>)))"

definition edit_preview :: "string \<Rightarrow> string" where
  "edit_preview body = (if 200 < length body then take 200 body @ ''...'' else body)"

definition apply_edit ::
  "apply_env \<Rightarrow> uuid \<Rightarrow> string \<Rightarrow> local_change \<Rightarrow> decision_card \<Rightarrow> sync_db
     \<Rightarrow> sync_db \<times> apply_result" where
  "apply_edit env user device ch crd db =
     (let details =
        (case ch_draft_body ch of
           None \<Rightarrow> EditDetails 0 (card_state crd) None
         | Some b \<Rightarrow> EditDetails (length b) (card_state crd) (Some (edit_preview b)))
      in (fst (log_change (fail_log env)
            (change_log env user device ch ''accept'' ''edit'' ''draft_body_server_wins''
               (card_version crd) details) db),
          \<lparr>res_accepted = True, res_reason = [], res_server_state = []\<rparr>))"

definition apply_consult ::
  "apply_env \<Rightarrow> uuid \<Rightarrow> string \<Rightarrow> local_change \<Rightarrow> decision_card \<Rightarrow> sync_db
     \<Rightarrow> sync_db \<times> apply_result" where
  "apply_consult env user device ch crd db =
     (fst (log_change (fail_log env)
        (change_log env user device ch ''accept'' ''consult'' ''user_consulting''
           (card_version crd) NoDetails) db),
      \<lparr>res_accepted = True, res_reason = [], res_server_state = []\<rparr>)"

definition apply_change ::
  "apply_env \<Rightarrow> uuid \<Rightarrow> string \<Rightarrow> local_change \<Rightarrow> sync_db \<Rightarrow> sync_db \<times> apply_result" where
  "apply_change env user device ch db =
     (if ch_card ch = uuid_nil
      then (db, \<lparr>res_accepted = False, res_reason = ''invalid_card_id'', res_server_state = []\<rparr>)
      else
       (case get_card_owned_by (fail_get_card env) (ch_card ch) user db of
          Inl _ \<Rightarrow>
            (fst (log_change (fail_log env)
               (change_log env user device ch ''reject'' (safe_deref (ch_decision ch))
                  ''card_not_found'' 0 NoDetails) db),
             \<lparr>res_accepted = False, res_reason = ''card_not_found'', res_server_state = []\<rparr>)
        | Inr crd \<Rightarrow>
           if is_terminal (card_state crd)
           then
            (fst (log_change (fail_log env)
               (change_log env user device ch ''reject'' (safe_deref (ch_decision ch))
                  ''card_already_terminal'' (card_version crd)
                  (StateDetails (card_state crd) (ch_state ch))) db),
             \<lparr>res_accepted = False, res_reason = ''card_already_terminal'',
              res_server_state = card_state crd\<rparr>)
           else
            (let decision = safe_deref (ch_decision ch)
             in if decision \<noteq> [] \<and> \<not> is_valid_decision decision
                then (db, \<lparr>res_accepted = False, res_reason = ''invalid_decision'',
                           res_server_state = card_state crd\<rparr>)
                else if decision = ''approve'' then apply_approve env user device ch crd db
                else if decision = ''edit'' then apply_edit env user device ch crd db
                else if decision = ''consult'' then apply_consult env user device ch crd db
                else if decision = []
                then (db, \<lparr>res_accepted = True, res_reason = [], res_server_state = []\<rparr>)
                else (db, \<lparr>res_accepted = False, res_reason = ''invalid_decision'',
                           res_server_state = card_state crd\<rparr>))))"

section \<open>The three-phase protocol\<close>

record process_env =
  start_now :: instant
  fail_start_log :: bool
  change_env :: "nat \<Rightarrow> apply_env"
  fail_changes :: bool
  fail_version :: bool

text \<open>Phase 1, the loop over the local changes; \<open>i\<close> numbers the change for the environment.\<close>

fun apply_changes ::
  "(nat \<Rightarrow> apply_env) \<Rightarrow> nat \<Rightarrow> uuid \<Rightarrow> string \<Rightarrow> local_change list \<Rightarrow> sync_db
     \<Rightarrow> uuid list \<times> rejected_change list \<Rightarrow> sync_db \<times> uuid list \<times> rejected_change list" where
  "apply_changes envs i user device [] db (acc, rej) = (db, acc, rej)"
| "apply_changes envs i user device (ch # chs) db (acc, rej) =
     (let (db', r) = apply_change (envs i) user device ch db
      in if res_accepted r
         then apply_changes envs (Suc i) user device chs db' (acc @ [ch_card ch], rej)
         else apply_changes envs (Suc i) user device chs db'
                (acc, rej @ [\<lparr>rej_card = ch_card ch, rej_reason = res_reason r,
                              rej_server_state = res_server_state r\<rparr>]))"

definition process ::
  "process_env \<Rightarrow> uuid \<Rightarrow> string \<Rightarrow> sync_request \<Rightarrow> sync_db
     \<Rightarrow> sync_db \<times> (store_error + sync_response)" where
  "process env user device req db =
     (let db0 = fst (log_session_start (fail_start_log env) (start_now env) user device
                       (req_last_version req) db);
          (db1, acc, rej) = apply_changes (change_env env) 0 user device (req_changes req) db0 ([], [])
      in (case get_changes_since (fail_changes env) user (req_last_version req) db1 of
            Inl e \<Rightarrow> (db1, Inl e)
          | Inr ch \<Rightarrow>
             (case get_current_version (fail_version env) user db1 of
                Inl e \<Rightarrow> (db1, Inl e)
              | Inr v \<Rightarrow>
                 (db1, Inr \<lparr>resp_version = v, resp_accepted = acc, resp_rejected = rej,
                            resp_new = new_cards ch, resp_updated = updated_cards ch,
                            resp_removed = removed_cards ch\<rparr>))))"

section \<open>Request handling\<close>

datatype request_error =
    ChangeNoCard nat
  | ChangeBadDecision nat string
  | ChangeNegativeVersion nat
  | DeviceTooLong
  | DeviceInvalidChars
  | NegativeSyncVersion

fun validate_changes :: "nat \<Rightarrow> local_change list \<Rightarrow> request_error option" where
  "validate_changes i [] = None"
| "validate_changes i (ch # chs) =
     (if ch_card ch = uuid_nil then Some (ChangeNoCard i)
      else (case ch_decision ch of
              Some d \<Rightarrow>
                if d \<noteq> ''approve'' \<and> d \<noteq> ''edit'' \<and> d \<noteq> ''consult''
                then Some (ChangeBadDecision i d)
                else if ch_version ch < 0 then Some (ChangeNegativeVersion i)
                else validate_changes (Suc i) chs
            | None \<Rightarrow>
                if ch_version ch < 0 then Some (ChangeNegativeVersion i)
                else validate_changes (Suc i) chs))"

definition validate_sync_request :: "sync_request \<Rightarrow> request_error option" where
  "validate_sync_request req =
     (case validate_changes 0 (req_changes req) of
        Some e \<Rightarrow> Some e
      | None \<Rightarrow>
         if req_device req \<noteq> [] \<and> 256 < length (req_device req) then Some DeviceTooLong
         else if list_ex (\<lambda>c. (of_char c :: nat) < 32) (req_device req) then Some DeviceInvalidChars
         else if req_last_version req < 0 then Some NegativeSyncVersion
         else None)"

datatype http_reply =
    Unauthorized
  | BadJson
  | BadRequest request_error
  | SyncFailed
  | SyncOk sync_response

text \<open>
  \<open>HandleSync\<close>: the user and device come from the token's context, the body has been decoded
  by the JSON library (\<open>None\<close> when that fails).
\<close>

definition handle_sync ::
  "process_env \<Rightarrow> uuid \<Rightarrow> string \<Rightarrow> sync_request option \<Rightarrow> sync_db \<Rightarrow> sync_db \<times> http_reply" where
  "handle_sync env user ctx_device body db =
     (if user = uuid_nil then (db, Unauthorized)
      else
       (case body of
          None \<Rightarrow> (db, BadJson)
        | Some req \<Rightarrow>
           (case validate_sync_request req of
              Some e \<Rightarrow> (db, BadRequest e)
            | None \<Rightarrow>
               (let device = (if ctx_device = [] then req_device req else ctx_device);
                    (db', r) = process env user device req db
                in (case r of Inl _ \<Rightarrow> (db', SyncFailed) | Inr resp \<Rightarrow> (db', SyncOk resp))))))"

section \<open>What a merge may do to a row\<close>

text \<open>
  The contract of the engine towards its tables: a card is kept, or it is a live card of the
  syncing user whose approval was recorded at a higher version; a draft is kept, or marked
  approved with its text untouched.
\<close>

definition card_evolves :: "uuid \<Rightarrow> decision_card \<Rightarrow> decision_card \<Rightarrow> bool" where
  "card_evolves user c c' \<longleftrightarrow>
     c' = c \<or>
     (card_user c = user \<and> \<not> is_terminal (card_state c) \<and>
      card_version c < card_version c' \<and>
      c' = c\<lparr>card_state := ''approved'', card_decided_at := card_decided_at c',
             card_version := card_version c', card_updated_at := card_updated_at c'\<rparr>)"

definition draft_evolves :: "draft \<Rightarrow> draft \<Rightarrow> bool" where
  "draft_evolves d d' \<longleftrightarrow>
     d' = d \<or> d' = d\<lparr>draft_approved := True, draft_updated_at := draft_updated_at d'\<rparr>"

lemma approved_not_terminal [simp]: "\<not> is_terminal ''approved''"
  by (simp add: is_terminal_def terminal_states_def)

lemma card_evolves_fixed:
  assumes "card_evolves user c c'"
  shows "card_id c' = card_id c" "card_user c' = card_user c"
    "is_terminal (card_state c') = is_terminal (card_state c)"
    "card_version c \<le> card_version c'"
proof -
  from assms consider "c' = c"
    | st dec v up where "c' = c\<lparr>card_state := ''approved'', card_decided_at := dec,
         card_version := v, card_updated_at := up\<rparr>"
       "\<not> is_terminal (card_state c)" "card_version c < card_version c'"
    unfolding card_evolves_def by blast
  then have "card_id c' = card_id c \<and> card_user c' = card_user c \<and>
    is_terminal (card_state c') = is_terminal (card_state c) \<and> card_version c \<le> card_version c'"
    by cases auto
  then show "card_id c' = card_id c" "card_user c' = card_user c"
    "is_terminal (card_state c') = is_terminal (card_state c)"
    "card_version c \<le> card_version c'" by auto
qed

lemma card_evolves_trans:
  assumes "card_evolves u a b" "card_evolves u b c"
  shows "card_evolves u a c"
proof (cases "b = a \<or> c = b")
  case True
  then show ?thesis using assms by auto
next
  case False
  with assms have a: "card_user a = u" "\<not> is_terminal (card_state a)"
      "card_version a < card_version b" "card_version b < card_version c"
    and b: "b = a\<lparr>card_state := ''approved'', card_decided_at := card_decided_at b,
             card_version := card_version b, card_updated_at := card_updated_at b\<rparr>"
    and c: "c = b\<lparr>card_state := ''approved'', card_decided_at := card_decided_at c,
             card_version := card_version c, card_updated_at := card_updated_at c\<rparr>"
    unfolding card_evolves_def by blast+
  have "c = a\<lparr>card_state := ''approved'', card_decided_at := card_decided_at c,
             card_version := card_version c, card_updated_at := card_updated_at c\<rparr>"
    by (subst c, subst b) simp
  with a show ?thesis unfolding card_evolves_def by (meson less_trans)
qed

lemma draft_evolves_trans:
  assumes "draft_evolves a b" "draft_evolves b c"
  shows "draft_evolves a c"
proof (cases "b = a \<or> c = b")
  case True
  then show ?thesis using assms by auto
next
  case False
  with assms have b: "b = a\<lparr>draft_approved := True, draft_updated_at := draft_updated_at b\<rparr>"
    and c: "c = b\<lparr>draft_approved := True, draft_updated_at := draft_updated_at c\<rparr>"
    unfolding draft_evolves_def by blast+
  have "c = a\<lparr>draft_approved := True, draft_updated_at := draft_updated_at c\<rparr>"
    by (subst c, subst b) simp
  then show ?thesis unfolding draft_evolves_def by blast
qed

interpretation card_ev: row_evolution "card_evolves user" for user
  by unfold_locales (simp add: card_evolves_def, rule card_evolves_trans)

interpretation draft_ev: row_evolution draft_evolves
  by unfold_locales (simp add: draft_evolves_def, rule draft_evolves_trans)

text \<open>Primary keys of the tables.\<close>

definition keys_ok :: "sync_db \<Rightarrow> bool" where
  "keys_ok db \<longleftrightarrow> distinct (map card_id (cards db)) \<and> distinct (map draft_id (drafts db)) \<and>
     distinct (map queue_user (queues db))"

definition merges :: "uuid \<Rightarrow> sync_db \<Rightarrow> sync_db \<Rightarrow> bool" where
  "merges user db db' \<longleftrightarrow>
     list_all2 (card_evolves user) (cards db) (cards db') \<and>
     list_all2 draft_evolves (drafts db) (drafts db') \<and> queues db' = queues db"

lemma merges_refl: "merges user db db"
  by (simp add: merges_def card_ev.rows_refl draft_ev.rows_refl)

lemma merges_trans: "merges user a b \<Longrightarrow> merges user b c \<Longrightarrow> merges user a c"
  unfolding merges_def by (auto intro: card_ev.rows_trans draft_ev.rows_trans)

lemma merges_frame:
  "cards db' = cards db \<Longrightarrow> drafts db' = drafts db \<Longrightarrow> queues db' = queues db \<Longrightarrow> merges user db db'"
  by (simp add: merges_def card_ev.rows_refl draft_ev.rows_refl)

lemma merges_keys_ok: "merges user db db' \<Longrightarrow> keys_ok db' = keys_ok db"
proof -
  assume m: "merges user db db'"
  have "map card_id (cards db') = map card_id (cards db)"
    using m card_ev.rows_map [of user card_id] by (auto simp: merges_def card_evolves_fixed)
  moreover have "map draft_id (drafts db') = map draft_id (drafts db)"
    using m by (auto simp: merges_def draft_evolves_def intro!: draft_ev.rows_map)
      (metis draft.select_convs(1) draft.surjective draft.update_convs(12) draft.update_convs(16))
  ultimately show ?thesis using m by (simp add: keys_ok_def merges_def)
qed

lemma log_change_merges: "merges user db (fst (log_change f e db))"
  by (rule merges_frame) (simp_all add: store_simps)

lemma mark_card_approved_tx_evolves:
  assumes keys: "keys_ok db" and c: "c \<in> set (cards db)" "card_id c = cid" "card_user c = user"
    and live: "\<not> is_terminal (card_state c)"
    and upd: "mark_card_approved_tx f now cid db = Inr db'"
  shows "merges user db db'"
proof -
  have *: "x = c" if "x \<in> set (cards db)" "card_id x = cid" for x
    using keys that c by (auto simp: keys_ok_def distinct_map dest: inj_onD)
  from upd have "db' = db\<lparr>cards := update_rows (\<lambda>x. card_id x = cid)
      (\<lambda>c. c\<lparr>card_state := ''approved'', card_decided_at := Some now,
             card_version := card_version c + 1, card_updated_at := now\<rparr>) (cards db)\<rparr>"
    by (auto simp: mark_card_approved_tx_def Let_def split: if_splits)
  then show ?thesis
    using c live by (auto simp: merges_def draft_ev.rows_refl card_evolves_def
        intro!: card_ev.rows_update dest!: *)
qed

lemma approve_draft_tx_evolves:
  "approve_draft_tx f now did db = Inr db' \<Longrightarrow> merges user db db'"
  by (auto simp: approve_draft_tx_def Let_def merges_def card_ev.rows_refl draft_evolves_def
      intro!: draft_ev.rows_update split: if_splits)

lemma log_change_tx_evolves:
  "log_change_tx f e db = Inr db' \<Longrightarrow> merges user db db'"
  by (auto simp: log_change_tx_def intro!: merges_frame split: if_splits)

lemma approve_change_draft_evolves:
  "merges user tx (approve_change_draft env ch outside tx)"
  by (auto simp: approve_change_draft_def merges_refl split: option.splits sum.splits
      intro: approve_draft_tx_evolves)

lemma approve_body_evolves:
  assumes keys: "keys_ok db" and c: "c \<in> set (cards db)" "card_id c = ch_card ch" "card_user c = user"
    and live: "\<not> is_terminal (card_state c)"
    and body: "approve_body env user device ch crd outside db = Inr db'"
  shows "merges user db db'"
proof -
  obtain tx1 where tx1: "mark_card_approved_tx (fail_mark env) (env_now env) (ch_card ch) db = Inr tx1"
    using body by (auto simp: approve_body_def split: sum.splits)
  have m1: "merges user db tx1"
    using mark_card_approved_tx_evolves [OF keys c live tx1] .
  have m2: "merges user tx1 (approve_change_draft env ch outside tx1)"
    by (rule approve_change_draft_evolves)
  have m3: "merges user (approve_change_draft env ch outside tx1) db'"
    using body tx1 by (auto simp: approve_body_def intro: log_change_tx_evolves)
  show ?thesis using merges_trans [OF m1 merges_trans [OF m2 m3]] .
qed

lemma apply_approve_evolves:
  assumes "keys_ok db" "c \<in> set (cards db)" "card_id c = ch_card ch" "card_user c = user"
    "\<not> is_terminal (card_state c)"
  shows "merges user db (fst (apply_approve env user device ch crd db))"
proof (cases "snd (with_tx (fail_begin env) (fail_commit env)
    (approve_body env user device ch crd db) db)")
  case None
  then show ?thesis
    using with_tx_ok [OF None] approve_body_evolves [OF assms]
    by (auto simp: apply_approve_def split: prod.splits option.splits)
next
  case (Some e)
  then show ?thesis
    using with_tx_error [OF Some]
    by (auto simp: apply_approve_def merges_refl split: prod.splits option.splits)
qed

lemma apply_change_evolves:
  assumes "keys_ok db"
  shows "merges user db (fst (apply_change env user device ch db))"
  using apply_approve_evolves [OF assms] get_card_owned_byD [of "fail_get_card env" "ch_card ch" user db]
  by (auto simp: apply_change_def apply_edit_def apply_consult_def Let_def merges_refl
      log_change_merges split: sum.splits)

lemma apply_changes_evolves:
  "keys_ok db \<Longrightarrow> merges user db (fst (apply_changes envs i user device chs db ar))"
proof (induction envs i user device chs db ar rule: apply_changes.induct)
  case (1 envs i user device db acc rej)
  then show ?case by (simp add: merges_refl)
next
  case (2 envs i user device ch chs db acc rej)
  obtain db' r where step: "apply_change (envs i) user device ch db = (db', r)"
    by fastforce
  have m: "merges user db db'"
    using apply_change_evolves [OF \<open>keys_ok db\<close>] step by (metis fst_conv)
  then have "keys_ok db'" using 2 merges_keys_ok by blast
  then show ?case
    using 2 step merges_trans [OF m] by (auto simp: Let_def)
qed

lemma process_evolves:
  assumes "keys_ok db"
  shows "merges user db (fst (process env user device req db))"
proof -
  let ?db0 = "fst (log_session_start (fail_start_log env) (start_now env) user device
                       (req_last_version req) db)"
  have 0: "merges user db ?db0"
    by (rule merges_frame) (simp_all add: store_simps)
  then have "keys_ok ?db0" using assms merges_keys_ok by blast
  from merges_trans [OF 0 apply_changes_evolves [OF this]] show ?thesis
    by (simp add: process_def Let_def split: prod.splits sum.splits)
      (metis fst_conv)
qed

end
