(* ===== verification/Sync_Merge.thy ===== *)
theory Sync_Merge
  imports Sync_Engine
begin

text \<open>
  What the sync protocol guarantees: the refinement of the merge contract by the whole request
  handler, the verdict on every local change as a function of the tables at the start of the
  request, what a client is told about, and the limits of the protocol.
\<close>

section \<open>Verdicts\<close>

definition owned_card :: "uuid \<Rightarrow> sync_db \<Rightarrow> uuid \<Rightarrow> decision_card option" where
  "owned_card user db cid = List.find (\<lambda>c. card_id c = cid \<and> card_user c = user) (cards db)"

definition live_change :: "uuid \<Rightarrow> sync_db \<Rightarrow> local_change \<Rightarrow> bool" where
  "live_change user db ch =
     (case owned_card user db (ch_card ch) of None \<Rightarrow> False | Some c \<Rightarrow> \<not> is_terminal (card_state c))"

definition rejection :: "uuid \<Rightarrow> sync_db \<Rightarrow> local_change \<Rightarrow> rejected_change" where
  "rejection user db ch =
     (case owned_card user db (ch_card ch) of
        None \<Rightarrow> \<lparr>rej_card = ch_card ch, rej_reason = ''card_not_found'', rej_server_state = []\<rparr>
      | Some c \<Rightarrow> \<lparr>rej_card = ch_card ch, rej_reason = ''card_already_terminal'',
                  rej_server_state = card_state c\<rparr>)"

text \<open>The statements that decide a change succeed; those the engine ignores may fail.\<close>

definition healthy :: "apply_env \<Rightarrow> bool" where
  "healthy env \<longleftrightarrow> \<not> fail_get_card env \<and> \<not> fail_begin env \<and> \<not> fail_mark env \<and>
     \<not> fail_approve_draft env \<and> \<not> fail_log_tx env \<and> \<not> fail_commit env"

lemma owned_card_merges:
  "merges user db db' \<Longrightarrow> rel_option (card_evolves user) (owned_card user db cid) (owned_card user db' cid)"
  unfolding owned_card_def merges_def
  by (rule card_ev.rows_find) (auto simp: card_evolves_fixed)

lemma live_change_merges: "merges user db db' \<Longrightarrow> live_change user db' ch = live_change user db ch"
  using owned_card_merges [of user db db' "ch_card ch"]
  by (auto simp: live_change_def option_rel_Some1 option_rel_Some2 card_evolves_fixed
      split: option.splits)

lemma rejection_merges:
  "merges user db db' \<Longrightarrow> \<not> live_change user db ch \<Longrightarrow> rejection user db' ch = rejection user db ch"
  using owned_card_merges [of user db db' "ch_card ch"]
  by (auto simp: live_change_def rejection_def option_rel_Some1 option_rel_Some2 card_evolves_def
      split: option.splits)

lemma get_card_owned_by_owned:
  "get_card_owned_by False cid user db =
     (case owned_card user db cid of None \<Rightarrow> Inl (CardNotOwned cid) | Some c \<Rightarrow> Inr c)"
  by (simp add: get_card_owned_by_def owned_card_def)

lemma apply_approve_accepted:
  assumes "healthy env" "c \<in> set (cards db)" "card_id c = ch_card ch"
  shows "snd (apply_approve env user device ch c db) =
    \<lparr>res_accepted = True, res_reason = [], res_server_state = []\<rparr>"
proof -
  from assms obtain tx1 where
    "mark_card_approved_tx (fail_mark env) (env_now env) (ch_card ch) db = Inr tx1"
    by (cases "mark_card_approved_tx (fail_mark env) (env_now env) (ch_card ch) db")
      (auto simp: mark_card_approved_tx_def healthy_def Let_def split: if_splits)
  then show ?thesis
    using assms by (auto simp: apply_approve_def with_tx_def approve_body_def log_change_tx_def
        healthy_def)
qed

lemma apply_change_verdict:
  assumes "healthy env" and "ch_card ch \<noteq> uuid_nil"
    and d: "ch_decision ch \<in> {None, Some ''approve'', Some ''edit'', Some ''consult''}"
  shows "snd (apply_change env user device ch db) =
    (if live_change user db ch
     then \<lparr>res_accepted = True, res_reason = [], res_server_state = []\<rparr>
     else \<lparr>res_accepted = False, res_reason = rej_reason (rejection user db ch),
           res_server_state = rej_server_state (rejection user db ch)\<rparr>)"
proof (cases "owned_card user db (ch_card ch)")
  case None
  then show ?thesis using assms
    by (simp add: apply_change_def healthy_def get_card_owned_by_owned live_change_def rejection_def)
next
  case (Some c)
  then have c: "c \<in> set (cards db)" "card_id c = ch_card ch" "card_user c = user"
    by (auto simp: owned_card_def find_Some_iff in_set_conv_nth)
  then show ?thesis
    using assms Some apply_approve_accepted [OF assms(1) c(1,2)]
    by (auto simp: apply_change_def healthy_def get_card_owned_by_owned live_change_def
        rejection_def safe_deref_def is_valid_decision_def valid_decisions_def apply_edit_def
        apply_consult_def)
qed

lemma validate_changes_Cons:
  "validate_changes i (ch # chs) = None \<Longrightarrow>
     ch_card ch \<noteq> uuid_nil \<and> ch_decision ch \<in> {None, Some ''approve'', Some ''edit'', Some ''consult''} \<and>
     validate_changes (Suc i) chs = None"
  by (auto split: if_splits option.splits)

lemma apply_changes_verdicts:
  assumes "keys_ok db" "\<And>n. healthy (envs n)" "validate_changes j chs = None"
  shows "snd (apply_changes envs i user device chs db (acc, rej)) =
    (acc @ map ch_card (filter (live_change user db) chs),
     rej @ map (rejection user db) (filter (\<lambda>ch. \<not> live_change user db ch) chs))"
  using assms
proof (induction chs arbitrary: i j db acc rej)
  case (Cons ch chs)
  obtain db' r where step: "apply_change (envs i) user device ch db = (db', r)" by fastforce
  have m: "merges user db db'"
    using apply_change_evolves [OF Cons.prems(1)] step by (metis fst_conv)
  have k: "keys_ok db'" using m Cons.prems(1) merges_keys_ok by blast
  note v = validate_changes_Cons [OF Cons.prems(3)]
  have r: "r = (if live_change user db ch
     then \<lparr>res_accepted = True, res_reason = [], res_server_state = []\<rparr>
     else \<lparr>res_accepted = False, res_reason = rej_reason (rejection user db ch),
           res_server_state = rej_server_state (rejection user db ch)\<rparr>)"
    using apply_change_verdict [of "envs i" ch user device db] step v Cons.prems(2) by auto
  have live: "filter (live_change user db') chs = filter (live_change user db) chs"
    by (rule filter_cong) (simp_all add: live_change_merges [OF m])
  have rejs: "map (rejection user db') (filter (\<lambda>ch. \<not> live_change user db' ch) chs) =
      map (rejection user db) (filter (\<lambda>ch. \<not> live_change user db ch) chs)"
    by (auto simp: live_change_merges [OF m] rejection_merges [OF m])
  have card: "rej_card (rejection user db ch) = ch_card ch"
    by (simp add: rejection_def split: option.splits)
  show ?case
    using Cons.IH [OF k Cons.prems(2), of "Suc j" "Suc i"] v r card
    by (simp add: step live rejs)
qed simp

section \<open>The protocol\<close>

lemma handle_sync_merges: "keys_ok db \<Longrightarrow> merges user db (fst (handle_sync env user ctx_device body db))"
  using process_evolves [of db user env]
  by (auto simp: handle_sync_def Let_def merges_refl split_def split: option.split sum.split)

text \<open>Two cards and a draft of the example user 1, a terminal card, and a card of user 2.\<close>

definition ex_card :: "uuid \<Rightarrow> uuid \<Rightarrow> string \<Rightarrow> int \<Rightarrow> rat \<Rightarrow> decision_card" where
  "ex_card cid user state version urgency =
     \<lparr>card_id = cid, card_user = user, card_thread = 100 + cid, card_account = 200 + user,
      card_state = state, card_from = ''a@x'', card_they_want = ''reply'', card_context = [],
      card_need = [], card_citations = ''[]'', card_urgency = urgency, card_rule = None,
      card_confidence = None, card_deadline = None, card_decided_at = None, card_sent_at = None,
      card_version = version, card_created_at = int cid, card_updated_at = int cid\<rparr>"

definition ex_draft :: "uuid \<Rightarrow> uuid \<Rightarrow> uuid \<Rightarrow> draft" where
  "ex_draft did cid user =
     \<lparr>draft_id = did, draft_card = cid, draft_user = user, draft_thread = 100 + cid,
      draft_body = ''Dear A'', draft_subject = None, draft_tone = None, draft_in_reply_to = None,
      draft_references = [], draft_model = None, draft_tokens = None, draft_approved = False,
      draft_sent_at = None, draft_created_at = int did, draft_message_id = None,
      draft_updated_at = int did\<rparr>"

definition ex_db :: sync_db where
  "ex_db = \<lparr>cards = [ex_card 1 1 ''pending'' 1 (1/2), ex_card 2 1 ''sent'' 3 (1/4),
                      ex_card 3 2 ''pending'' 1 (3/4)],
            drafts = [ex_draft 11 1 1, ex_draft 13 3 2],
            queues = [\<lparr>queue_user = 1, queue_pending = 1, queue_version = 5,
                       queue_last_notified = None, queue_created_at = 0, queue_updated_at = 0\<rparr>],
            sync_log = [], decision_log = []\<rparr>"

definition ex_change :: "uuid \<Rightarrow> string option \<Rightarrow> uuid option \<Rightarrow> local_change" where
  "ex_change cid decision did =
     \<lparr>ch_card = cid, ch_version = 1, ch_state = ''pending'', ch_decision = decision,
      ch_draft_body = None, ch_approved_draft = did\<rparr>"

definition ex_env :: process_env where
  "ex_env = \<lparr>start_now = 50, fail_start_log = False, change_env = (\<lambda>i. no_faults (51 + int i)),
             fail_changes = False, fail_version = False\<rparr>"

lemmas ex_defs = ex_card_def ex_draft_def ex_db_def ex_change_def ex_env_def no_faults_def

lemmas engine_defs =
  handle_sync_def process_def log_session_start_def log_change_def apply_change_def
  apply_approve_def apply_edit_def apply_consult_def approve_body_def approve_change_draft_def
  with_tx_def mark_card_approved_tx_def approve_draft_tx_def log_change_tx_def
  get_card_owned_by_def get_latest_draft_for_card_def get_changes_since_def
  get_current_version_def order_queue_def update_rows_def rows_matching_def safe_deref_def
  is_valid_decision_def valid_decisions_def validate_sync_request_def is_terminal_def
  terminal_states_def change_log_def queue_key_def

lemma ex_db_keys_ok [simp]: "keys_ok ex_db"
  by (simp add: keys_ok_def ex_defs)

lemma keys_ok_card_eq:
  "keys_ok db \<Longrightarrow> x \<in> set (cards db) \<Longrightarrow> y \<in> set (cards db) \<Longrightarrow> card_id x = card_id y \<Longrightarrow> x = y"
  by (auto simp: keys_ok_def distinct_map dest: inj_onD)

lemma healthy_no_faults [simp]: "healthy (no_faults t)"
  by (simp add: healthy_def no_faults_def)



text \<open>
  C7: Only approvals reach the tables. Every card that a request changes was a live card of the
  user and is now approved at a strictly higher version with its content untouched; every draft
  that changes only gains its approval mark, so no edit sent by a client ever replaces a draft
  body; the queue rows are not written; primary keys stay unique.
\<close>

theorem sync_only_records_approvals:
  assumes "keys_ok db" and "db' = fst (handle_sync env user ctx_device body db)"
  shows "list_all2 (card_evolves user) (cards db) (cards db') \<and>
         list_all2 (\<lambda>d d'. draft_evolves d d' \<and> draft_body d' = draft_body d) (drafts db) (drafts db') \<and>
         queues db' = queues db \<and> keys_ok db'"
proof -
  have m: "merges user db db'"
    using handle_sync_merges [OF assms(1)] assms(2) by simp
  have "draft_body d' = draft_body d" if "draft_evolves d d'" for d d'
    using that by (auto simp: draft_evolves_def) (metis draft.select_convs(5) draft.surjective
        draft.update_convs(12) draft.update_convs(16))
  then show ?thesis
    using m merges_keys_ok [OF m] assms(1) by (auto simp: merges_def elim: list_all2_mono)
qed

theorem sync_only_records_approvals_witness:
  "list_all2 (card_evolves 1) (cards ex_db) (cards (fst (handle_sync ex_env 1 ''phone''
     (Some \<lparr>req_device = [], req_last_version = 0,
            req_changes = [ex_change 1 (Some ''approve'') None]\<rparr>) ex_db)))"
  using sync_only_records_approvals [OF ex_db_keys_ok refl] by blast

lemma process_phase1:
  assumes "keys_ok db" "\<And>n. healthy (change_env env n)" "validate_changes 0 (req_changes req) = None"
    and "snd (process env user device req db) = Inr resp"
  shows "resp_accepted resp = map ch_card (filter (live_change user db) (req_changes req))"
    "resp_rejected resp = map (rejection user db) (filter (\<lambda>ch. \<not> live_change user db ch) (req_changes req))"
proof -
  let ?db0 = "fst (log_session_start (fail_start_log env) (start_now env) user device
                       (req_last_version req) db)"
  obtain db1 acc rej where run: "apply_changes (change_env env) 0 user device (req_changes req) ?db0 ([], []) =
      (db1, acc, rej)" using prod_cases3 by blast
  have m: "merges user db ?db0" by (rule merges_frame) (simp_all add: store_simps)
  then have k: "keys_ok ?db0" using assms(1) merges_keys_ok by blast
  have "owned_card user ?db0 = owned_card user db"
    by (simp add: owned_card_def store_simps fun_eq_iff)
  then have same: "live_change user ?db0 = live_change user db" "rejection user ?db0 = rejection user db"
    by (simp_all add: live_change_def rejection_def fun_eq_iff)
  have v: "acc = map ch_card (filter (live_change user db) (req_changes req))"
    "rej = map (rejection user db) (filter (\<lambda>ch. \<not> live_change user db ch) (req_changes req))"
    using apply_changes_verdicts [where envs = "change_env env" and i = 0 and user = user
        and device = device and acc = "[]" and rej = "[]", OF k assms(2,3)] run same by auto
  show "resp_accepted resp = map ch_card (filter (live_change user db) (req_changes req))"
    "resp_rejected resp = map (rejection user db) (filter (\<lambda>ch. \<not> live_change user db ch) (req_changes req))"
    using assms(4) run v by (auto simp: process_def split: sum.splits)
qed

text \<open>
  C8: The verdicts of a request. When the request passed validation and the statements that
  decide a change succeed, the accepted list is exactly the changes, in order, that name a card
  of the user that was live when the request arrived, and the rejected list the others, with
  reason card_not_found or card_already_terminal and the server's state. Changes earlier in the
  request never influence the verdict on later ones.
\<close>

theorem sync_verdicts:
  assumes "keys_ok db" and "\<forall>n. healthy (change_env env n)"
    and "validate_sync_request req = None"
    and "handle_sync env user ctx_device (Some req) db = (db', SyncOk resp)"
  shows "resp_accepted resp = map ch_card (filter (live_change user db) (req_changes req)) \<and>
    resp_rejected resp = map (rejection user db) (filter (\<lambda>ch. \<not> live_change user db ch) (req_changes req))"
proof -
  have v: "validate_changes 0 (req_changes req) = None"
    using assms(3) by (auto simp: validate_sync_request_def split: option.splits)
  obtain device where "snd (process env user device req db) = Inr resp"
    using assms(3,4) by (auto simp: handle_sync_def Let_def split: if_splits prod.splits sum.splits)
      (metis snd_conv)+
  from process_phase1 [OF assms(1) _ v this] assms(2) show ?thesis by blast
qed

text \<open>
  Repeating a request repeats its verdicts. A request that is sent again after it succeeded
  (with whatever other sync requests of the user in between) gets the same accepted and rejected
  lists, rejection reasons and server states included.
\<close>

lemma sync_verdicts_idempotent:
  assumes "keys_ok db" and "\<forall>n. healthy (change_env env n)" and "\<forall>n. healthy (change_env env2 n)"
    and "validate_sync_request req = None"
    and "handle_sync env user dev (Some req) db = (db1, SyncOk resp1)"
    and "(\<lambda>a b. \<exists>e d body. b = fst (handle_sync e user d body a))\<^sup>*\<^sup>* db1 db2"
    and "handle_sync env2 user dev2 (Some req) db2 = (db3, SyncOk resp2)"
  shows "resp_accepted resp2 = resp_accepted resp1 \<and> resp_rejected resp2 = resp_rejected resp1"
proof -
  have m1: "merges user db db1"
    using handle_sync_merges [OF assms(1), of user env dev "Some req"] assms(5) by simp
  have "merges user db1 db2 \<and> keys_ok db2"
    using assms(6)
  proof (induction rule: rtranclp_induct)
    case base
    then show ?case using m1 assms(1) merges_keys_ok merges_refl by blast
  next
    case (step a b)
    then show ?case by (metis handle_sync_merges merges_keys_ok merges_trans)
  qed
  then have m: "merges user db db2" and k: "keys_ok db2"
    using m1 merges_trans by blast+
  have live: "live_change user db2 = live_change user db"
    using live_change_merges [OF m] by blast
  have "map (rejection user db2) (filter (\<lambda>ch. \<not> live_change user db ch) (req_changes req)) =
      map (rejection user db) (filter (\<lambda>ch. \<not> live_change user db ch) (req_changes req))"
    by (auto simp: rejection_merges [OF m])
  then show ?thesis
    using sync_verdicts [OF assms(1,2,4,5)] sync_verdicts [OF k assms(3,4,7)] live by simp
qed

lemma process_ok:
  "\<not> fail_changes env \<Longrightarrow> \<not> fail_version env \<Longrightarrow> \<exists>resp. snd (process env user device req db) = Inr resp"
  by (auto simp: process_def get_changes_since_def get_current_version_def
      split: prod.split option.split)

lemma handle_sync_ok:
  assumes "user \<noteq> uuid_nil" "validate_sync_request req = None" "\<not> fail_changes env" "\<not> fail_version env"
  shows "\<exists>resp. handle_sync env user d (Some req) db =
    (fst (handle_sync env user d (Some req) db), SyncOk resp)"
  using assms process_ok [OF assms(3,4), of user _ req db]
  by (auto simp: handle_sync_def Let_def split: prod.split sum.split) (metis snd_conv sum.distinct(1))+

definition ex_req :: sync_request where
  "ex_req = \<lparr>req_device = [], req_last_version = 0,
             req_changes = [ex_change 1 (Some ''approve'') None, ex_change 2 (Some ''edit'') None,
                            ex_change 3 (Some ''approve'') None, ex_change 1 (Some ''consult'') None]\<rparr>"

lemma ex_req_valid [simp]: "validate_sync_request ex_req = None"
  by (simp add: validate_sync_request_def ex_req_def ex_change_def)

lemma ex_env_simps [simp]: "\<not> fail_changes ex_env" "\<not> fail_version ex_env" "healthy (change_env ex_env n)"
  by (simp_all add: ex_env_def)

theorem sync_verdicts_witness:
  "\<exists>db' resp. handle_sync ex_env 1 ''phone'' (Some ex_req) ex_db = (db', SyncOk resp) \<and>
     resp_accepted resp = [1, 1] \<and>
     resp_rejected resp =
       [\<lparr>rej_card = 2, rej_reason = ''card_already_terminal'', rej_server_state = ''sent''\<rparr>,
        \<lparr>rej_card = 3, rej_reason = ''card_not_found'', rej_server_state = []\<rparr>]"
proof -
  obtain db' resp where run: "handle_sync ex_env 1 ''phone'' (Some ex_req) ex_db = (db', SyncOk resp)"
    using handle_sync_ok [of 1 ex_req ex_env "''phone''" ex_db] by auto
  have "\<forall>n. healthy (change_env ex_env n)" by simp
  note sync_verdicts [OF ex_db_keys_ok this ex_req_valid run]
  moreover have "filter (live_change 1 ex_db) (req_changes ex_req) =
      [ex_change 1 (Some ''approve'') None, ex_change 1 (Some ''consult'') None]"
    "filter (\<lambda>ch. \<not> live_change 1 ex_db ch) (req_changes ex_req) =
      [ex_change 2 (Some ''edit'') None, ex_change 3 (Some ''approve'') None]"
    by (simp_all add: ex_req_def live_change_def owned_card_def ex_db_def ex_card_def ex_change_def
        is_terminal_def terminal_states_def)
  ultimately show ?thesis
    using run by (simp add: rejection_def owned_card_def ex_db_def ex_card_def ex_change_def)
qed

theorem sync_verdicts_idempotent_witness:
  "\<exists>db1 resp1 db3 resp2. handle_sync ex_env 1 ''phone'' (Some ex_req) ex_db = (db1, SyncOk resp1) \<and>
     handle_sync ex_env 1 ''laptop'' (Some ex_req) db1 = (db3, SyncOk resp2) \<and>
     resp_accepted resp2 = resp_accepted resp1 \<and> resp_rejected resp2 = resp_rejected resp1"
proof -
  obtain db1 resp1 where 1: "handle_sync ex_env 1 ''phone'' (Some ex_req) ex_db = (db1, SyncOk resp1)"
    using handle_sync_ok [of 1 ex_req ex_env "''phone''" ex_db] by auto
  obtain db3 resp2 where 2: "handle_sync ex_env 1 ''laptop'' (Some ex_req) db1 = (db3, SyncOk resp2)"
    using handle_sync_ok [of 1 ex_req ex_env "''laptop''" db1] by auto
  have h: "\<forall>n. healthy (change_env ex_env n)" by simp
  from sync_verdicts_idempotent [OF ex_db_keys_ok h h ex_req_valid 1 rtranclp.rtrancl_refl 2] 1 2
  show ?thesis by blast
qed

section \<open>What a client is told\<close>

lemma get_changes_since_parts:
  assumes "get_changes_since f user since db = Inr ch"
  defines "q \<equiv> order_queue (filter (\<lambda>c. card_user c = user \<and> max 0 since < card_version c) (cards db))"
  shows "\<not> f"
    "new_cards ch = filter (\<lambda>c. \<not> is_terminal (card_state c) \<and> card_version c = 1) q"
    "updated_cards ch = filter (\<lambda>c. \<not> is_terminal (card_state c) \<and> card_version c \<noteq> 1) q"
    "removed_cards ch = map card_id (filter (\<lambda>c. is_terminal (card_state c)) q)"
  using assms by (auto simp: get_changes_since_def categorise_cards_eq Let_def max_def
      split: if_splits)

lemma order_queue_filter: "order_queue (filter p cs) = filter p (order_queue cs)"
  by (simp add: order_queue_def filter_sort)

lemma queue_filter_sorted: "sorted (map queue_key (filter p (order_queue cs)))"
  by (rule sorted_filter) (simp add: order_queue_def)





section \<open>Approvals\<close>

text \<open>
  Approval is one transaction. For any row that carries the card's id when the transaction
  runs, approval either leaves every table as it was and reports transaction_failed with the
  state read earlier, or approves the row (whatever state it is in by then, at its version plus
  one) and adds exactly one log entry. Terminal states are only checked on the earlier read.
\<close>

lemma approval_is_atomic_on_the_current_row:
  assumes "apply_approve env user device ch crd db = (db', r)"
    and "c \<in> set (cards db)" and "card_id c = ch_card ch"
  shows "(\<not> res_accepted r \<and> db' = db \<and> res_reason r = ''transaction_failed'' \<and>
           res_server_state r = card_state crd) \<or>
         (res_accepted r \<and>
          c\<lparr>card_state := ''approved'', card_decided_at := Some (env_now env),
             card_version := card_version c + 1, card_updated_at := env_now env\<rparr> \<in> set (cards db') \<and>
          length (sync_log db') = Suc (length (sync_log db)))"
proof (cases "snd (with_tx (fail_begin env) (fail_commit env)
    (approve_body env user device ch crd db) db)")
  case (Some e)
  then show ?thesis
    using with_tx_error [OF Some] assms(1)
    by (auto simp: apply_approve_def split: prod.splits option.splits)
next
  case None
  then have body: "approve_body env user device ch crd db db = Inr db'" and r: "res_accepted r"
    using with_tx_ok [OF None] assms(1)
    by (auto simp: apply_approve_def split: prod.splits option.splits)
  then obtain tx1 where tx1: "mark_card_approved_tx (fail_mark env) (env_now env) (ch_card ch) db = Inr tx1"
    and l: "log_change_tx (fail_log_tx env)
        (change_log env user device ch ''accept'' ''approve'' ''user_approved''
               (card_version crd + 1) NoDetails) (approve_change_draft env ch db tx1) = Inr db'"
    by (auto simp: approve_body_def split: sum.splits)
  have keep: "cards (approve_change_draft env ch db tx1) = cards tx1"
    "sync_log (approve_change_draft env ch db tx1) = sync_log tx1"
    by (auto simp: approve_change_draft_def approve_draft_tx_def Let_def
        split: option.splits sum.splits if_splits)
  have "c\<lparr>card_state := ''approved'', card_decided_at := Some (env_now env),
             card_version := card_version c + 1, card_updated_at := env_now env\<rparr> \<in> set (cards tx1)"
    "sync_log tx1 = sync_log db"
    using tx1 assms(2,3)
    by (auto simp: mark_card_approved_tx_def Let_def update_rows_def split: if_splits)
  then show ?thesis
    using r l keep by (auto simp: log_change_tx_def split: if_splits)
qed

theorem approval_is_atomic_on_the_current_row_witness:
  "ex_card 2 1 ''approved'' 4 (1/4) \<lparr>card_decided_at := Some 51, card_updated_at := 51\<rparr>
     \<in> set (cards (fst (apply_approve (no_faults 51) 1 ''phone'' (ex_change 2 (Some ''approve'') None)
         (ex_card 2 1 ''pending'' 2 (1/4)) ex_db)))"
proof -
  let ?run = "apply_approve (no_faults 51) 1 ''phone'' (ex_change 2 (Some ''approve'') None)
         (ex_card 2 1 ''pending'' 2 (1/4)) ex_db"
  have c: "ex_card 2 1 ''sent'' 3 (1/4) \<in> set (cards ex_db)" by (simp add: ex_db_def)
  have "res_accepted (snd ?run)"
    by (simp add: engine_defs ex_defs)
  then show ?thesis
    using approval_is_atomic_on_the_current_row [where c = "ex_card 2 1 ''sent'' 3 (1/4)", OF _ c,
        where db' = "fst ?run" and r = "snd ?run" and env = "no_faults 51" and user = 1
        and device = "''phone''" and ch = "ex_change 2 (Some ''approve'') None"
        and crd = "ex_card 2 1 ''pending'' 2 (1/4)"]
    by (simp add: ex_card_def ex_change_def no_faults_def)
qed

end
