(* ===== verification/Decision_Store.thy ===== *)
theory Decision_Store
  imports Sync_Store Circuit_Breaker
begin

text \<open>
  The card and draft stores of \<open>src/sync/internal/decision/store.go\<close> and the two proxies to the
  intelligence layer (\<open>drafting_proxy.go\<close>, \<open>consult_proxy.go\<close>), on the tables of the sync service.
  As in \<open>Sync_Store\<close> the first argument of a statement says whether it fails for reasons of its
  own. The HTTP exchange with the intelligence layer is a parameter that gives the decoded answer
  or \<open>None\<close> for any failure; the circuit breaker around it is the one of \<open>Circuit_Breaker\<close>.
\<close>

text \<open>Errors of the package; \<open>Wrapped\<close> is \<open>fmt.Errorf("...: %w", err)\<close>.\<close>

datatype decision_error =
    ErrDb
  | ErrCardNotFound uuid
  | ErrDraftNotFound uuid
  | ErrCardOwnership uuid uuid
  | ErrAlreadyApproved uuid
  | ErrAlreadySent uuid
  | ErrNotApproved uuid
  | ErrInvalidDecision string
  | ErrTurnsExceeded uuid
  | ErrConsultRejected string
  | ErrPublish
  | ErrMesh
  | ErrRemote "unit cb_error"
  | ErrJson
  | ErrPlain string
  | Wrapped string decision_error

section \<open>Cards\<close>

definition ds_get_card :: "bool \<Rightarrow> uuid \<Rightarrow> sync_db \<Rightarrow> decision_error + decision_card" where
  "ds_get_card fault cid db =
     (if fault then Inl (Wrapped ''get card'' ErrDb)
      else (case List.find (\<lambda>c. card_id c = cid) (cards db) of
              None \<Rightarrow> Inl (ErrCardNotFound cid) | Some c \<Rightarrow> Inr c))"

definition ds_get_card_owned_by ::
  "bool \<Rightarrow> uuid \<Rightarrow> uuid \<Rightarrow> sync_db \<Rightarrow> decision_error + decision_card" where
  "ds_get_card_owned_by fault cid user db =
     (if fault then Inl (Wrapped ''get card owned by'' ErrDb)
      else (case List.find (\<lambda>c. card_id c = cid \<and> card_user c = user) (cards db) of
              None \<Rightarrow> Inl (ErrCardOwnership cid user) | Some c \<Rightarrow> Inr c))"

definition set_state :: "instant \<Rightarrow> string \<Rightarrow> decision_card \<Rightarrow> decision_card" where
  "set_state now new_state c =
     c\<lparr>card_state := new_state, card_version := card_version c + 1, card_updated_at := now\<rparr>"

definition ds_update_card_state ::
  "bool \<Rightarrow> instant \<Rightarrow> uuid \<Rightarrow> string \<Rightarrow> sync_db \<Rightarrow> decision_error + sync_db" where
  "ds_update_card_state fault now cid new_state db =
     (let p = (\<lambda>c. card_id c = cid)
      in if fault then Inl (Wrapped ''update card state'' ErrDb)
         else if rows_matching p (cards db) = 0 then Inl (ErrCardNotFound cid)
         else Inr (db\<lparr>cards := update_rows p (set_state now new_state) (cards db)\<rparr>))"

definition ds_update_card_state_tx ::
  "bool \<Rightarrow> instant \<Rightarrow> uuid \<Rightarrow> string \<Rightarrow> sync_db \<Rightarrow> decision_error + sync_db" where
  "ds_update_card_state_tx fault now cid new_state db =
     (let p = (\<lambda>c. card_id c = cid)
      in if fault then Inl (Wrapped ''update card state tx'' ErrDb)
         else if rows_matching p (cards db) = 0 then Inl (ErrCardNotFound cid)
         else Inr (db\<lparr>cards := update_rows p (set_state now new_state) (cards db)\<rparr>))"

definition set_sent :: "instant \<Rightarrow> decision_card \<Rightarrow> decision_card" where
  "set_sent now c =
     c\<lparr>card_state := ''sent'', card_sent_at := Some now, card_version := card_version c + 1,
       card_updated_at := now\<rparr>"

definition ds_mark_card_sent :: "bool \<Rightarrow> instant \<Rightarrow> uuid \<Rightarrow> sync_db \<Rightarrow> decision_error + sync_db" where
  "ds_mark_card_sent fault now cid db =
     (let p = (\<lambda>c. card_id c = cid)
      in if fault then Inl (Wrapped ''mark card sent'' ErrDb)
         else if rows_matching p (cards db) = 0 then Inl (ErrCardNotFound cid)
         else Inr (db\<lparr>cards := update_rows p (set_sent now) (cards db)\<rparr>))"

definition ds_mark_card_sent_tx :: "bool \<Rightarrow> instant \<Rightarrow> uuid \<Rightarrow> sync_db \<Rightarrow> decision_error + sync_db" where
  "ds_mark_card_sent_tx fault now cid db =
     (let p = (\<lambda>c. card_id c = cid)
      in if fault then Inl (Wrapped ''mark card sent tx'' ErrDb)
         else if rows_matching p (cards db) = 0 then Inl (ErrCardNotFound cid)
         else Inr (db\<lparr>cards := update_rows p (set_sent now) (cards db)\<rparr>))"

record chunk_citation =
  cit_chunk :: uuid
  cit_snippet :: string
  cit_email :: uuid
  cit_paragraph :: int

definition ds_get_card_citations ::
  "(string \<Rightarrow> chunk_citation list option) \<Rightarrow> bool \<Rightarrow> uuid \<Rightarrow> uuid \<Rightarrow> sync_db
     \<Rightarrow> decision_error + chunk_citation list" where
  "ds_get_card_citations decode fault cid user db =
     (if fault then Inl (Wrapped ''get card citations'' ErrDb)
      else (case List.find (\<lambda>c. card_id c = cid \<and> card_user c = user) (cards db) of
              None \<Rightarrow> Inl (ErrCardOwnership cid user)
            | Some c \<Rightarrow>
                if card_citations c = [] \<or> card_citations c = ''null'' then Inr []
                else (case decode (card_citations c) of
                        None \<Rightarrow> Inl (Wrapped ''unmarshal citations'' ErrJson) | Some cs \<Rightarrow> Inr cs)))"

section \<open>Drafts\<close>

text \<open>
  The INSERT names neither \<open>sent_at\<close> nor \<open>message_id\<close>, which stay NULL, nor \<open>updated_at\<close>, which
  takes the time of the statement; the primary key refuses an id that exists.
\<close>

definition ds_create_draft :: "bool \<Rightarrow> instant \<Rightarrow> draft \<Rightarrow> sync_db \<Rightarrow> decision_error + sync_db" where
  "ds_create_draft fault now d db =
     (if fault \<or> draft_id d \<in> set (map draft_id (drafts db)) then Inl (Wrapped ''create draft'' ErrDb)
      else Inr (db\<lparr>drafts := drafts db @
             [d\<lparr>draft_sent_at := None, draft_message_id := None, draft_updated_at := now\<rparr>]\<rparr>))"

definition ds_get_draft :: "bool \<Rightarrow> uuid \<Rightarrow> sync_db \<Rightarrow> decision_error + draft" where
  "ds_get_draft fault did db =
     (if fault then Inl (Wrapped ''get draft'' ErrDb)
      else (case List.find (\<lambda>d. draft_id d = did) (drafts db) of
              None \<Rightarrow> Inl (ErrDraftNotFound did) | Some d \<Rightarrow> Inr d))"

definition ds_get_draft_owned_by :: "bool \<Rightarrow> uuid \<Rightarrow> uuid \<Rightarrow> sync_db \<Rightarrow> decision_error + draft" where
  "ds_get_draft_owned_by fault did user db =
     (if fault then Inl (Wrapped ''get draft owned by'' ErrDb)
      else (case List.find (\<lambda>d. draft_id d = did \<and> draft_user d = user) (drafts db) of
              None \<Rightarrow> Inl (ErrDraftNotFound did) | Some d \<Rightarrow> Inr d))"

definition ds_update_draft_body ::
  "bool \<Rightarrow> instant \<Rightarrow> uuid \<Rightarrow> uuid \<Rightarrow> string \<Rightarrow> sync_db \<Rightarrow> decision_error + sync_db" where
  "ds_update_draft_body fault now did user body db =
     (let p = (\<lambda>d. draft_id d = did \<and> draft_user d = user)
      in if fault then Inl (Wrapped ''update draft body'' ErrDb)
         else if rows_matching p (drafts db) = 0 then Inl (ErrDraftNotFound did)
         else Inr (db\<lparr>drafts := update_rows p
                (\<lambda>d. d\<lparr>draft_body := body, draft_updated_at := now\<rparr>) (drafts db)\<rparr>))"

text \<open>\<open>ApproveDraftTx\<close>: the locking read, the two state checks, the update.\<close>

definition ds_approve_draft_tx ::
  "bool \<Rightarrow> bool \<Rightarrow> instant \<Rightarrow> uuid \<Rightarrow> uuid \<Rightarrow> sync_db \<Rightarrow> decision_error + sync_db" where
  "ds_approve_draft_tx lock_fault fault now did user db =
     (if lock_fault then Inl (Wrapped ''approve draft lock'' ErrDb)
      else (case List.find (\<lambda>d. draft_id d = did \<and> draft_user d = user) (drafts db) of
              None \<Rightarrow> Inl (ErrDraftNotFound did)
            | Some current \<Rightarrow>
                if draft_approved current then Inl (ErrAlreadyApproved did)
                else if draft_sent_at current \<noteq> None then Inl (ErrAlreadySent did)
                else if fault then Inl (Wrapped ''approve draft'' ErrDb)
                else Inr (db\<lparr>drafts := update_rows (\<lambda>d. draft_id d = did)
                       (\<lambda>d. d\<lparr>draft_approved := True, draft_updated_at := now\<rparr>) (drafts db)\<rparr>)))"

definition ds_mark_draft_sent_tx ::
  "bool \<Rightarrow> instant \<Rightarrow> uuid \<Rightarrow> string \<Rightarrow> sync_db \<Rightarrow> decision_error + sync_db" where
  "ds_mark_draft_sent_tx fault now did message_id db =
     (let p = (\<lambda>d. draft_id d = did)
      in if fault then Inl (Wrapped ''mark draft sent tx'' ErrDb)
         else if rows_matching p (drafts db) = 0 then Inl (ErrDraftNotFound did)
         else Inr (db\<lparr>drafts := update_rows p
                (\<lambda>d. d\<lparr>draft_sent_at := Some now, draft_message_id := Some message_id,
                       draft_updated_at := now\<rparr>) (drafts db)\<rparr>))"

text \<open>Both log statements; the callers only warn when they fail.\<close>

definition ds_log_decision ::
  "bool \<Rightarrow> instant \<Rightarrow> uuid \<Rightarrow> uuid \<Rightarrow> string \<Rightarrow> string \<Rightarrow> sync_db \<Rightarrow> sync_db" where
  "ds_log_decision fault now user cid kind details db =
     (if fault then db
      else db\<lparr>decision_log := decision_log db @
             [\<lparr>dlog_user = user, dlog_card = cid, dlog_type = kind, dlog_details = details,
               dlog_created_at = now\<rparr>]\<rparr>)"

definition ds_get_latest_draft_for_card :: "bool \<Rightarrow> uuid \<Rightarrow> sync_db \<Rightarrow> decision_error + draft" where
  "ds_get_latest_draft_for_card fault cid db =
     (if fault then Inl (Wrapped ''get latest draft'' ErrDb)
      else (case newest_draft (filter (\<lambda>d. draft_card d = cid) (drafts db)) of
              None \<Rightarrow> Inl (ErrDraftNotFound uuid_nil) | Some d \<Rightarrow> Inr d))"

section \<open>The intelligence layer\<close>

text \<open>An answer of the drafting service; its id is \<open>None\<close> when it does not parse as a UUID.\<close>

record draft_answer =
  ans_draft :: "uuid option"
  ans_body :: string
  ans_subject :: "string option"
  ans_tone :: "string option"
  ans_in_reply_to :: "string option"
  ans_references :: "string list"
  ans_model :: "string option"
  ans_tokens :: "int option"

record consult_answer =
  ca_answer :: string
  ca_citations :: "chunk_citation list"
  ca_turns :: int
  ca_error :: "string option"

record consult_response =
  cr_answer :: string
  cr_citations :: "chunk_citation list"
  cr_turns :: int

text \<open>\<open>breaker.Call\<close> around a request: the answer is what the request wrote when it succeeded.\<close>

definition guarded :: "cb_clock \<Rightarrow> 'a option \<Rightarrow> circuit_breaker
     \<Rightarrow> circuit_breaker \<times> (unit cb_error + 'a)" where
  "guarded clk answer cb =
     (case cb_call clk (\<lambda>w. case answer of None \<Rightarrow> (w, Some ()) | Some a \<Rightarrow> (Some a, None)) (cb, None) of
        ((cb', _), Some e) \<Rightarrow> (cb', Inl e)
      | ((cb', Some a), None) \<Rightarrow> (cb', Inr a)
      | ((cb', None), None) \<Rightarrow> (cb', Inl (FnError ())))"

definition draft_of_answer ::
  "instant \<Rightarrow> uuid \<Rightarrow> uuid \<Rightarrow> uuid \<Rightarrow> uuid \<Rightarrow> bool \<Rightarrow> draft_answer \<Rightarrow> draft" where
  "draft_of_answer now fresh cid user thread reply a =
     \<lparr>draft_id = (case ans_draft a of Some i \<Rightarrow> i | None \<Rightarrow> fresh), draft_card = cid, draft_user = user,
      draft_thread = thread, draft_body = ans_body a, draft_subject = ans_subject a,
      draft_tone = ans_tone a, draft_in_reply_to = (if reply then ans_in_reply_to a else None),
      draft_references = (if reply then ans_references a else []), draft_model = ans_model a,
      draft_tokens = ans_tokens a, draft_approved = False, draft_sent_at = None,
      draft_created_at = now, draft_message_id = None, draft_updated_at = now\<rparr>"

definition generate_draft ::
  "cb_clock \<Rightarrow> (uuid \<Rightarrow> uuid \<Rightarrow> uuid \<Rightarrow> string option \<Rightarrow> draft_answer option) \<Rightarrow> instant \<Rightarrow> uuid
     \<Rightarrow> uuid \<Rightarrow> uuid \<Rightarrow> uuid \<Rightarrow> string option \<Rightarrow> circuit_breaker
     \<Rightarrow> circuit_breaker \<times> (decision_error + draft)" where
  "generate_draft clk remote now fresh cid user thread inp cb =
     (case guarded clk (remote cid user thread inp) cb of
        (cb', Inl e) \<Rightarrow> (cb', Inl (Wrapped ''intelligence layer generate draft'' (ErrRemote e)))
      | (cb', Inr a) \<Rightarrow> (cb', Inr (draft_of_answer now fresh cid user thread True a)))"

definition modify_draft ::
  "cb_clock \<Rightarrow> (uuid \<Rightarrow> string \<Rightarrow> draft_answer option) \<Rightarrow> instant \<Rightarrow> uuid
     \<Rightarrow> uuid \<Rightarrow> uuid \<Rightarrow> uuid \<Rightarrow> uuid \<Rightarrow> string \<Rightarrow> circuit_breaker
     \<Rightarrow> circuit_breaker \<times> (decision_error + draft)" where
  "modify_draft clk remote now fresh did cid user thread instruction cb =
     (case guarded clk (remote did instruction) cb of
        (cb', Inl e) \<Rightarrow> (cb', Inl (Wrapped ''intelligence layer modify draft'' (ErrRemote e)))
      | (cb', Inr a) \<Rightarrow> (cb', Inr (draft_of_answer now fresh cid user thread False a)))"

definition max_consultation_turns :: int where
  "max_consultation_turns = 10"

definition consult_ask ::
  "cb_clock \<Rightarrow> (uuid \<Rightarrow> uuid \<Rightarrow> string \<Rightarrow> consult_answer option) \<Rightarrow> uuid \<Rightarrow> uuid \<Rightarrow> string \<Rightarrow> int
     \<Rightarrow> circuit_breaker \<Rightarrow> circuit_breaker \<times> (decision_error + consult_response)" where
  "consult_ask clk remote cid user question turns_used cb =
     (if max_consultation_turns \<le> turns_used then (cb, Inl (ErrTurnsExceeded cid))
      else (case guarded clk (remote cid user question) cb of
              (cb', Inl e) \<Rightarrow> (cb', Inl (Wrapped ''intelligence layer consult'' (ErrRemote e)))
            | (cb', Inr a) \<Rightarrow>
                (case ca_error a of
                   Some e \<Rightarrow>
                     if e \<noteq> [] then (cb', Inl (ErrConsultRejected e))
                     else (cb', Inr \<lparr>cr_answer = ca_answer a, cr_citations = ca_citations a,
                                     cr_turns = max 0 (ca_turns a)\<rparr>)
                 | None \<Rightarrow> (cb', Inr \<lparr>cr_answer = ca_answer a, cr_citations = ca_citations a,
                                      cr_turns = max 0 (ca_turns a)\<rparr>))))"

end
