(* ===== verification/Decision.thy ===== *)
theory Decision
  imports Decision_Store
begin

text \<open>
  The decision API of the sync service: the approval flow (\<open>approval.go\<close>), the processor
  (\<open>processor.go\<close>) and the HTTP handlers (\<open>handler.go\<close>) of \<open>src/sync/internal/decision/\<close>. The
  world holds the tables, the circuit breakers of the two proxies, the jobs published to
  \<open>email.send\<close> and the mails handed to the ingestion mesh directly. An operation takes a record
  that says what the environment does: which statements fail, what the clock shows, what the
  remote services answer. Each operation returns the world and an error or a value.
\<close>

section \<open>The world of the service\<close>

record send_job =
  job_draft :: uuid
  job_user :: uuid
  job_thread :: uuid
  job_body :: string
  job_subject :: string
  job_in_reply_to :: "string option"
  job_references :: "string list"

record decision_world =
  dw_db :: sync_db
  dw_outbox :: "send_job list"
  dw_mails :: "send_job list"
  dw_drafting :: circuit_breaker
  dw_consult :: circuit_breaker

record decision_env =
  de_now :: instant
  de_fresh :: uuid
  de_show_uuid :: "uuid \<Rightarrow> string"
  de_show_int :: "int \<Rightarrow> string"
  de_begin_fails :: bool
  de_read_fails :: bool
  de_lock_fails :: bool
  de_write_fails :: bool
  de_state_fails :: bool
  de_publish_fails :: bool
  de_log_fails :: bool
  de_commit_fails :: bool
  de_rollback_fails :: bool
  de_latest_fails :: bool
  de_clock :: cb_clock
  de_generate :: "uuid \<Rightarrow> uuid \<Rightarrow> uuid \<Rightarrow> string option \<Rightarrow> draft_answer option"
  de_modify :: "uuid \<Rightarrow> string \<Rightarrow> draft_answer option"
  de_ask :: "uuid \<Rightarrow> uuid \<Rightarrow> string \<Rightarrow> consult_answer option"
  de_mesh :: "send_job \<Rightarrow> (instant \<times> string) option"
  de_decode :: "string \<Rightarrow> chunk_citation list option"

type_synonym 'a decided = "decision_world \<times> (decision_error + 'a)"

text \<open>The JSON details of a log entry, as \<open>fmt.Sprintf\<close> writes them.\<close>

definition quoted :: "string \<Rightarrow> string" where
  "quoted s = CHR 0x22 # s @ [CHR 0x22]"

fun json_pairs :: "(string \<times> string) list \<Rightarrow> string" where
  "json_pairs [] = []"
| "json_pairs [(k, v)] = quoted k @ '':'' @ v"
| "json_pairs ((k, v) # p # ps) = quoted k @ '':'' @ v @ '','' @ json_pairs (p # ps)"

definition json_object :: "(string \<times> string) list \<Rightarrow> string" where
  "json_object ps = ''{'' @ json_pairs ps @ ''}''"

definition log_detail :: "decision_env \<Rightarrow> string \<Rightarrow> (string \<times> string) list \<Rightarrow> string" where
  "log_detail env action ps = json_object ((''action'', quoted action) # ps)"

section \<open>The approval flow\<close>

definition job_of_draft :: "uuid \<Rightarrow> uuid \<Rightarrow> draft \<Rightarrow> send_job" where
  "job_of_draft did user d =
     \<lparr>job_draft = did, job_user = user, job_thread = draft_thread d, job_body = draft_body d,
      job_subject = (case draft_subject d of Some s \<Rightarrow> s | None \<Rightarrow> []),
      job_in_reply_to = draft_in_reply_to d, job_references = draft_references d\<rparr>"

text \<open>
  The body of \<open>Approve\<close>'s transaction. It works on \<open>db\<close>, the tables as they are when the
  transaction begins: \<open>GetDraft\<close> goes through the pool, not the transaction, so it reads them
  without the approval. The first component is what has been published, which no rollback undoes.
\<close>

definition decision_approve_body ::
  "decision_env \<Rightarrow> uuid \<Rightarrow> uuid \<Rightarrow> sync_db \<Rightarrow> send_job list \<times> (decision_error + sync_db)" where
  "decision_approve_body env did user db =
     (case ds_approve_draft_tx (de_lock_fails env) (de_write_fails env) (de_now env) did user db of
        Inl e \<Rightarrow> ([], Inl (Wrapped ''approve draft'' e))
      | Inr db1 \<Rightarrow>
         (case ds_get_draft (de_read_fails env) did db of
            Inl e \<Rightarrow> ([], Inl (Wrapped ''fetch draft after approval'' e))
          | Inr d \<Rightarrow>
              if draft_user d \<noteq> user then ([], Inl (ErrCardOwnership (draft_card d) user))
              else
               (case ds_update_card_state_tx (de_state_fails env) (de_now env) (draft_card d)
                       ''approved'' db1 of
                  Inl e \<Rightarrow> ([], Inl (Wrapped ''update card state to approved'' e))
                | Inr db2 \<Rightarrow>
                    if de_publish_fails env
                    then ([], Inl (Wrapped ''publish send job to nats'' ErrPublish))
                    else ([job_of_draft did user d],
                          Inr (ds_log_decision (de_log_fails env) (de_now env) user (draft_card d)
                                 ''approve''
                                 (log_detail env ''approve''
                                    [(''draft_id'', quoted (de_show_uuid env did)),
                                     (''card_id'', quoted (de_show_uuid env (draft_card d)))])
                                 db2)))))"

definition approve_flow :: "decision_env \<Rightarrow> uuid \<Rightarrow> uuid \<Rightarrow> decision_world \<Rightarrow> unit decided" where
  "approve_flow env did user w =
     (if de_begin_fails env then (w, Inl (Wrapped ''begin approval transaction'' ErrDb))
      else (case decision_approve_body env did user (dw_db w) of
              (jobs, Inl e) \<Rightarrow> (w\<lparr>dw_outbox := dw_outbox w @ jobs\<rparr>, Inl e)
            | (jobs, Inr db') \<Rightarrow>
                if de_commit_fails env
                then (w\<lparr>dw_outbox := dw_outbox w @ jobs\<rparr>,
                      Inl (Wrapped ''commit approval transaction'' ErrDb))
                else (w\<lparr>dw_outbox := dw_outbox w @ jobs, dw_db := db'\<rparr>, Inr ())))"

definition on_send_complete ::
  "decision_env \<Rightarrow> uuid \<Rightarrow> string \<Rightarrow> decision_world \<Rightarrow> unit decided" where
  "on_send_complete env did message_id w =
     (if de_begin_fails env then (w, Inl (Wrapped ''begin send-complete transaction'' ErrDb))
      else (case ds_mark_draft_sent_tx (de_write_fails env) (de_now env) did message_id (dw_db w) of
              Inl e \<Rightarrow> (w, Inl (Wrapped ''mark draft sent'' e))
            | Inr db1 \<Rightarrow>
               (case ds_get_draft (de_read_fails env) did (dw_db w) of
                  Inl e \<Rightarrow> (w, Inl (Wrapped ''fetch draft for card update'' e))
                | Inr d \<Rightarrow>
                   (case ds_mark_card_sent_tx (de_state_fails env) (de_now env) (draft_card d) db1 of
                      Inl e \<Rightarrow> (w, Inl (Wrapped ''mark card sent'' e))
                    | Inr db2 \<Rightarrow>
                       (let db3 = ds_log_decision (de_log_fails env) (de_now env) (draft_user d)
                              (draft_card d) ''send''
                              (log_detail env ''send''
                                 [(''draft_id'', quoted (de_show_uuid env did)),
                                  (''card_id'', quoted (de_show_uuid env (draft_card d))),
                                  (''message_id'', quoted message_id)]) db2
                        in if de_commit_fails env
                           then (w, Inl (Wrapped ''commit send-complete transaction'' ErrDb))
                           else (w\<lparr>dw_db := db3\<rparr>, Inr ()))))))"

text \<open>
  \<open>ExecuteSend\<close>. The mail the mesh accepts is out whatever is recorded afterwards; \<open>env'\<close> is the
  environment while completion is recorded.
\<close>

definition execute_send ::
  "decision_env \<Rightarrow> decision_env \<Rightarrow> uuid \<Rightarrow> uuid \<Rightarrow> decision_world \<Rightarrow> (instant \<times> string) decided" where
  "execute_send env env' did user w =
     (case ds_get_draft_owned_by (de_read_fails env) did user (dw_db w) of
        Inl e \<Rightarrow> (w, Inl (Wrapped ''fetch draft for send'' e))
      | Inr d \<Rightarrow>
          if \<not> draft_approved d then (w, Inl (ErrNotApproved did))
          else if draft_sent_at d \<noteq> None then (w, Inl (ErrAlreadySent did))
          else (let job = job_of_draft did user d
                in (case de_mesh env job of
                      None \<Rightarrow> (w, Inl (Wrapped ''ingestion mesh send'' ErrMesh))
                    | Some (sent_at, message_id) \<Rightarrow>
                       (case on_send_complete env' did message_id (w\<lparr>dw_mails := dw_mails w @ [job]\<rparr>) of
                          (w', Inl e) \<Rightarrow> (w', Inl (Wrapped ''record send completion'' e))
                        | (w', Inr _) \<Rightarrow> (w', Inr (sent_at, message_id))))))"

section \<open>The processor\<close>

record decide_response =
  dr_draft :: uuid
  dr_body :: string
  dr_subject :: "string option"

definition response_of :: "draft \<Rightarrow> decide_response" where
  "response_of d = \<lparr>dr_draft = draft_id d, dr_body = draft_body d, dr_subject = draft_subject d\<rparr>"

text \<open>The write back of the former state when the remote service failed; its own failure is only logged.\<close>

definition revert_state ::
  "decision_env \<Rightarrow> uuid \<Rightarrow> string \<Rightarrow> decision_world \<Rightarrow> decision_world" where
  "revert_state env cid old w =
     (case ds_update_card_state (de_rollback_fails env) (de_now env) cid old (dw_db w) of
        Inl _ \<Rightarrow> w | Inr db \<Rightarrow> w\<lparr>dw_db := db\<rparr>)"

text \<open>Store the draft, log, answer: the common end of the drafting operations.\<close>

definition store_and_answer ::
  "decision_env \<Rightarrow> uuid \<Rightarrow> uuid \<Rightarrow> string \<Rightarrow> string \<Rightarrow> (uuid \<Rightarrow> (string \<times> string) list) \<Rightarrow> draft
     \<Rightarrow> decision_world \<Rightarrow> decide_response decided" where
  "store_and_answer env user cid kind what details d w =
     (case ds_create_draft (de_write_fails env) (de_now env) d (dw_db w) of
        Inl e \<Rightarrow> (w, Inl (Wrapped what e))
      | Inr db \<Rightarrow>
          (w\<lparr>dw_db := ds_log_decision (de_log_fails env) (de_now env) user cid kind
                (log_detail env kind (details (draft_id d))) db\<rparr>,
           Inr (response_of d)))"

definition process_decision ::
  "decision_env \<Rightarrow> uuid \<Rightarrow> uuid \<Rightarrow> string \<Rightarrow> string option \<Rightarrow> decision_world
     \<Rightarrow> decide_response decided" where
  "process_decision env user cid decision inp w =
     (case ds_get_card_owned_by (de_read_fails env) cid user (dw_db w) of
        Inl e \<Rightarrow> (w, Inl (Wrapped ''verify card'' e))
      | Inr crd \<Rightarrow>
          if decision = ''approve'' \<or> decision = ''edit''
          then
           (case ds_update_card_state (de_state_fails env) (de_now env) cid ''drafting'' (dw_db w) of
              Inl e \<Rightarrow> (w, Inl (Wrapped ''set card drafting'' e))
            | Inr db1 \<Rightarrow>
               (case generate_draft (de_clock env) (de_generate env) (de_now env) (de_fresh env) cid
                       user (card_thread crd) inp (dw_drafting w) of
                  (cb, Inl e) \<Rightarrow>
                    (revert_state env cid (card_state crd) (w\<lparr>dw_db := db1, dw_drafting := cb\<rparr>),
                     Inl (Wrapped ''generate draft'' e))
                | (cb, Inr d) \<Rightarrow>
                    store_and_answer env user cid decision ''store draft''
                      (\<lambda>i. [(''draft_id'', quoted (de_show_uuid env i))]) d
                      (w\<lparr>dw_db := db1, dw_drafting := cb\<rparr>)))
          else if decision = ''consult''
          then
           (case inp of
              None \<Rightarrow> (w, Inl (ErrPlain ''consult decision requires input (question)''))
            | Some question \<Rightarrow>
                if question = [] then (w, Inl (ErrPlain ''consult decision requires input (question)''))
                else
                 (case ds_update_card_state (de_state_fails env) (de_now env) cid ''consulting'' (dw_db w) of
                    Inl e \<Rightarrow> (w, Inl (Wrapped ''set card consulting'' e))
                  | Inr db1 \<Rightarrow>
                     (case consult_ask (de_clock env) (de_ask env) cid user question 0 (dw_consult w) of
                        (cb, Inl e) \<Rightarrow>
                          (revert_state env cid (card_state crd) (w\<lparr>dw_db := db1, dw_consult := cb\<rparr>),
                           Inl (Wrapped ''consultation'' e))
                      | (cb, Inr r) \<Rightarrow>
                          (w\<lparr>dw_db := ds_log_decision (de_log_fails env) (de_now env) user cid ''consult''
                                (log_detail env ''consult''
                                   [(''turns_remaining'', de_show_int env (cr_turns r))]) db1,
                             dw_consult := cb\<rparr>,
                           Inr \<lparr>dr_draft = uuid_nil, dr_body = cr_answer r, dr_subject = None\<rparr>))))
          else (w, Inl (ErrInvalidDecision decision)))"

definition process_draft_modification ::
  "decision_env \<Rightarrow> uuid \<Rightarrow> uuid \<Rightarrow> string \<Rightarrow> decision_world \<Rightarrow> decide_response decided" where
  "process_draft_modification env user cid instruction w =
     (if instruction = [] then (w, Inl (ErrPlain ''modification instruction is required''))
      else
       (case ds_get_card_owned_by (de_read_fails env) cid user (dw_db w) of
          Inl e \<Rightarrow> (w, Inl (Wrapped ''verify card'' e))
        | Inr crd \<Rightarrow>
           (case ds_update_card_state (de_state_fails env) (de_now env) cid ''drafting'' (dw_db w) of
              Inl e \<Rightarrow> (w, Inl (Wrapped ''set card drafting'' e))
            | Inr db1 \<Rightarrow>
               (case (case ds_get_latest_draft_for_card (de_latest_fails env) cid db1 of
                        Inr latest \<Rightarrow>
                          modify_draft (de_clock env) (de_modify env) (de_now env) (de_fresh env)
                            (draft_id latest) cid user (card_thread crd) instruction (dw_drafting w)
                      | Inl _ \<Rightarrow>
                          generate_draft (de_clock env) (de_generate env) (de_now env) (de_fresh env) cid
                            user (card_thread crd) (Some instruction) (dw_drafting w)) of
                  (cb, Inl e) \<Rightarrow>
                    (revert_state env cid (card_state crd) (w\<lparr>dw_db := db1, dw_drafting := cb\<rparr>),
                     Inl (Wrapped ''modify draft'' e))
                | (cb, Inr d) \<Rightarrow>
                    store_and_answer env user cid ''draft_modify'' ''store modified draft''
                      (\<lambda>i. [(''draft_id'', quoted (de_show_uuid env i)), (''instruction'', quoted instruction)])
                      d (w\<lparr>dw_db := db1, dw_drafting := cb\<rparr>)))))"

definition process_consultation ::
  "decision_env \<Rightarrow> uuid \<Rightarrow> uuid \<Rightarrow> string \<Rightarrow> decision_world \<Rightarrow> consult_response decided" where
  "process_consultation env user cid question w =
     (if question = [] then (w, Inl (ErrPlain ''consultation question is required''))
      else
       (case ds_get_card_owned_by (de_read_fails env) cid user (dw_db w) of
          Inl e \<Rightarrow> (w, Inl (Wrapped ''verify card'' e))
        | Inr _ \<Rightarrow>
           (case consult_ask (de_clock env) (de_ask env) cid user question 0 (dw_consult w) of
              (cb, Inl e) \<Rightarrow> (w\<lparr>dw_consult := cb\<rparr>, Inl (Wrapped ''consultation'' e))
            | (cb, Inr r) \<Rightarrow>
                (w\<lparr>dw_db := ds_log_decision (de_log_fails env) (de_now env) user cid ''consult''
                      (log_detail env ''consult'' [(''turns_remaining'', de_show_int env (cr_turns r))])
                      (dw_db w),
                   dw_consult := cb\<rparr>,
                 Inr r))))"

definition process_edit ::
  "decision_env \<Rightarrow> uuid \<Rightarrow> uuid \<Rightarrow> string \<Rightarrow> decision_world \<Rightarrow> decide_response decided" where
  "process_edit env user did new_body w =
     (if new_body = [] then (w, Inl (ErrPlain ''draft body cannot be empty''))
      else
       (case ds_get_draft_owned_by (de_read_fails env) did user (dw_db w) of
          Inl e \<Rightarrow> (w, Inl (Wrapped ''verify draft'' e))
        | Inr d \<Rightarrow>
           (case ds_update_draft_body (de_write_fails env) (de_now env) did user new_body (dw_db w) of
              Inl e \<Rightarrow> (w, Inl (Wrapped ''update draft body'' e))
            | Inr db1 \<Rightarrow>
                (w\<lparr>dw_db := ds_log_decision (de_log_fails env) (de_now env) user (draft_card d) ''edit''
                      (log_detail env ''edit'' [(''draft_id'', quoted (de_show_uuid env did))]) db1\<rparr>,
                 Inr \<lparr>dr_draft = did, dr_body = new_body, dr_subject = draft_subject d\<rparr>))))"

definition process_approval ::
  "decision_env \<Rightarrow> uuid \<Rightarrow> uuid \<Rightarrow> decision_world \<Rightarrow> unit decided" where
  "process_approval env user did w =
     (case approve_flow env did user w of
        (w', Inl e) \<Rightarrow> (w', Inl (Wrapped ''approval'' e)) | (w', Inr _) \<Rightarrow> (w', Inr ()))"

definition get_source_citations ::
  "decision_env \<Rightarrow> uuid \<Rightarrow> uuid \<Rightarrow> decision_world \<Rightarrow> decision_error + chunk_citation list" where
  "get_source_citations env user cid w =
     (case ds_get_card_citations (de_decode env) (de_read_fails env) cid user (dw_db w) of
        Inl e \<Rightarrow> Inl (Wrapped ''get citations'' e) | Inr cs \<Rightarrow> Inr cs)"

section \<open>The HTTP handlers\<close>

text \<open>
  An answer is the status with the payload, or the status, the error code and the retry flag. A
  handler gets the user of the context, the parsed id and the decoded body, each \<open>None\<close> when it
  is missing or does not parse. The type switches on errors look at the outermost error only.
\<close>

datatype 'a http_reply = Reply 'a | Refuse nat string bool

definition internal_error :: "'a http_reply" where
  "internal_error = Refuse 500 ''internal_error'' True"

definition card_error_reply :: "decision_error \<Rightarrow> 'a http_reply" where
  "card_error_reply e =
     (case e of
        ErrCardNotFound _ \<Rightarrow> Refuse 404 ''card_not_found'' False
      | ErrCardOwnership _ _ \<Rightarrow> Refuse 403 ''forbidden'' False
      | _ \<Rightarrow> internal_error)"

definition approve_error_reply :: "decision_error \<Rightarrow> 'a http_reply" where
  "approve_error_reply e =
     (case e of
        ErrDraftNotFound _ \<Rightarrow> Refuse 404 ''draft_not_found'' False
      | ErrAlreadyApproved _ \<Rightarrow> Refuse 409 ''already_approved'' False
      | ErrAlreadySent _ \<Rightarrow> Refuse 409 ''already_sent'' False
      | ErrCardOwnership _ _ \<Rightarrow> Refuse 403 ''forbidden'' False
      | _ \<Rightarrow> internal_error)"

definition edit_error_reply :: "decision_error \<Rightarrow> 'a http_reply" where
  "edit_error_reply e =
     (case e of
        ErrDraftNotFound _ \<Rightarrow> Refuse 404 ''draft_not_found'' False
      | ErrCardOwnership _ _ \<Rightarrow> Refuse 403 ''forbidden'' False
      | _ \<Rightarrow> internal_error)"

definition source_error_reply :: "decision_error \<Rightarrow> 'a http_reply" where
  "source_error_reply e =
     (case e of
        ErrCardNotFound _ \<Rightarrow> Refuse 404 ''card_not_found'' False
      | ErrCardOwnership _ _ \<Rightarrow> Refuse 404 ''card_not_found'' False
      | _ \<Rightarrow> internal_error)"

definition consult_error_reply :: "decision_error \<Rightarrow> 'a http_reply" where
  "consult_error_reply e =
     (case e of
        ErrCardNotFound _ \<Rightarrow> Refuse 404 ''card_not_found'' False
      | ErrCardOwnership _ _ \<Rightarrow> Refuse 403 ''forbidden'' False
      | ErrTurnsExceeded _ \<Rightarrow> Refuse 429 ''turns_exceeded'' False
      | ErrConsultRejected _ \<Rightarrow> Refuse 400 ''consult_rejected'' False
      | _ \<Rightarrow> internal_error)"

definition send_error_reply :: "decision_error \<Rightarrow> 'a http_reply" where
  "send_error_reply e =
     (case e of
        ErrDraftNotFound _ \<Rightarrow> Refuse 404 ''draft_not_found'' False
      | ErrNotApproved _ \<Rightarrow> Refuse 409 ''not_approved'' False
      | ErrAlreadySent _ \<Rightarrow> Refuse 409 ''already_sent'' False
      | _ \<Rightarrow> internal_error)"

definition answer_with ::
  "(decision_error \<Rightarrow> 'a http_reply) \<Rightarrow> 'a decided \<Rightarrow> decision_world \<times> 'a http_reply" where
  "answer_with on_error r = (case r of (w, Inl e) \<Rightarrow> (w, on_error e) | (w, Inr a) \<Rightarrow> (w, Reply a))"

definition auth_required :: "'a http_reply" where
  "auth_required = Refuse 401 ''auth_required'' False"

definition handle_decide ::
  "decision_env \<Rightarrow> uuid option \<Rightarrow> uuid option \<Rightarrow> (string \<times> string option) option \<Rightarrow> decision_world
     \<Rightarrow> decision_world \<times> decide_response http_reply" where
  "handle_decide env auth cid body w =
     (case auth of None \<Rightarrow> (w, auth_required) | Some user \<Rightarrow>
       (case cid of None \<Rightarrow> (w, Refuse 400 ''invalid_card_id'' False) | Some i \<Rightarrow>
         (case body of None \<Rightarrow> (w, Refuse 400 ''invalid_body'' False) | Some (decision, inp) \<Rightarrow>
            if decision \<noteq> ''approve'' \<and> decision \<noteq> ''edit'' \<and> decision \<noteq> ''consult''
            then (w, Refuse 400 ''invalid_decision'' False)
            else answer_with card_error_reply (process_decision env user i decision inp w))))"

definition handle_request_draft ::
  "decision_env \<Rightarrow> uuid option \<Rightarrow> uuid option \<Rightarrow> string option \<Rightarrow> decision_world
     \<Rightarrow> decision_world \<times> decide_response http_reply" where
  "handle_request_draft env auth cid body w =
     (case auth of None \<Rightarrow> (w, auth_required) | Some user \<Rightarrow>
       (case cid of None \<Rightarrow> (w, Refuse 400 ''invalid_card_id'' False) | Some i \<Rightarrow>
         (case body of None \<Rightarrow> (w, Refuse 400 ''invalid_body'' False) | Some instruction \<Rightarrow>
            if instruction = [] then (w, Refuse 400 ''missing_instruction'' False)
            else answer_with card_error_reply (process_draft_modification env user i instruction w))))"

definition handle_approve_draft ::
  "decision_env \<Rightarrow> uuid option \<Rightarrow> uuid option \<Rightarrow> bool option \<Rightarrow> decision_world
     \<Rightarrow> decision_world \<times> unit http_reply" where
  "handle_approve_draft env auth did body w =
     (case auth of None \<Rightarrow> (w, auth_required) | Some user \<Rightarrow>
       (case did of None \<Rightarrow> (w, Refuse 400 ''invalid_draft_id'' False) | Some i \<Rightarrow>
         (case body of None \<Rightarrow> (w, Refuse 400 ''invalid_body'' False) | Some approved \<Rightarrow>
            if \<not> approved then (w, Refuse 400 ''not_approved'' False)
            else answer_with approve_error_reply (process_approval env user i w))))"

definition handle_edit_draft ::
  "decision_env \<Rightarrow> uuid option \<Rightarrow> uuid option \<Rightarrow> string option \<Rightarrow> decision_world
     \<Rightarrow> decision_world \<times> decide_response http_reply" where
  "handle_edit_draft env auth did body w =
     (case auth of None \<Rightarrow> (w, auth_required) | Some user \<Rightarrow>
       (case did of None \<Rightarrow> (w, Refuse 400 ''invalid_draft_id'' False) | Some i \<Rightarrow>
         (case body of None \<Rightarrow> (w, Refuse 400 ''invalid_body'' False) | Some new_body \<Rightarrow>
            if new_body = [] then (w, Refuse 400 ''empty_body'' False)
            else answer_with edit_error_reply (process_edit env user i new_body w))))"

definition handle_get_source ::
  "decision_env \<Rightarrow> uuid option \<Rightarrow> uuid option \<Rightarrow> decision_world
     \<Rightarrow> decision_world \<times> chunk_citation list http_reply" where
  "handle_get_source env auth cid w =
     (case auth of None \<Rightarrow> (w, auth_required) | Some user \<Rightarrow>
       (case cid of None \<Rightarrow> (w, Refuse 400 ''invalid_card_id'' False) | Some i \<Rightarrow>
          answer_with source_error_reply (w, get_source_citations env user i w)))"

definition handle_consult ::
  "decision_env \<Rightarrow> uuid option \<Rightarrow> (uuid \<times> string) option \<Rightarrow> decision_world
     \<Rightarrow> decision_world \<times> consult_response http_reply" where
  "handle_consult env auth body w =
     (case auth of None \<Rightarrow> (w, auth_required) | Some user \<Rightarrow>
       (case body of None \<Rightarrow> (w, Refuse 400 ''invalid_body'' False) | Some (cid, question) \<Rightarrow>
          if cid = uuid_nil then (w, Refuse 400 ''missing_card_id'' False)
          else if question = [] then (w, Refuse 400 ''missing_question'' False)
          else answer_with consult_error_reply (process_consultation env user cid question w)))"

text \<open>The approval flow is wired (\<open>NewHandler\<close> takes it from the processor).\<close>

definition handle_send ::
  "decision_env \<Rightarrow> decision_env \<Rightarrow> uuid option \<Rightarrow> uuid option \<Rightarrow> decision_world
     \<Rightarrow> decision_world \<times> (instant \<times> string) http_reply" where
  "handle_send env env' auth body w =
     (case auth of None \<Rightarrow> (w, auth_required) | Some user \<Rightarrow>
       (case body of None \<Rightarrow> (w, Refuse 400 ''invalid_body'' False) | Some did \<Rightarrow>
          if did = uuid_nil then (w, Refuse 400 ''missing_draft_id'' False)
          else answer_with send_error_reply (execute_send env env' did user w)))"

section \<open>Runs of requests\<close>

text \<open>
  One request in any environment. The flag says whether the commit of an approval may fail.
\<close>

inductive decision_step :: "bool \<Rightarrow> decision_world \<Rightarrow> decision_world \<Rightarrow> bool" for may_fail where
  step_decide: "decision_step may_fail w (fst (handle_decide env auth cid body w))"
| step_draft: "decision_step may_fail w (fst (handle_request_draft env auth cid instr w))"
| step_approve: "may_fail \<or> \<not> de_commit_fails env \<Longrightarrow>
     decision_step may_fail w (fst (handle_approve_draft env auth did ok w))"
| step_edit: "decision_step may_fail w (fst (handle_edit_draft env auth did body w))"
| step_consult: "decision_step may_fail w (fst (handle_consult env auth question w))"
| step_send: "decision_step may_fail w (fst (handle_send env env' auth did_body w))"

section \<open>Effects on drafts\<close>

definition draft_keeps :: "draft \<Rightarrow> draft \<Rightarrow> bool" where
  "draft_keeps d d' \<longleftrightarrow> draft_id d' = draft_id d \<and> (draft_approved d \<longrightarrow> draft_approved d')"

interpretation draft_keep: row_evolution draft_keeps
  by unfold_locales (auto simp: draft_keeps_def)

definition draft_ids :: "sync_db \<Rightarrow> uuid list" where
  "draft_ids db = map draft_id (drafts db)"

definition db_keeps :: "sync_db \<Rightarrow> sync_db \<Rightarrow> bool" where
  "db_keeps db db' \<longleftrightarrow> draft_keep.rows_grow (drafts db) (drafts db') \<and>
     (distinct (draft_ids db) \<longrightarrow> distinct (draft_ids db'))"

lemma db_keeps_same: "drafts db' = drafts db \<Longrightarrow> db_keeps db db'"
  by (simp add: db_keeps_def draft_ids_def draft_keep.grow_refl)

lemma db_keeps_refl [simp]: "db_keeps db db"
  by (simp add: db_keeps_same)

lemma db_keeps_trans: "db_keeps a b \<Longrightarrow> db_keeps b c \<Longrightarrow> db_keeps a c"
  by (auto simp: db_keeps_def intro: draft_keep.grow_trans)

lemma db_keeps_update:
  assumes "drafts db' = update_rows p f (drafts db)" and "\<And>d. draft_keeps d (f d)"
  shows "db_keeps db db'"
proof -
  have "draft_keep.rows_grow (drafts db) (drafts db')"
    unfolding assms(1) by (intro draft_keep.grow_evolve draft_keep.rows_update assms(2))
  moreover have "draft_ids db' = draft_ids db"
    unfolding draft_ids_def assms(1) by (rule map_update_rows) (use assms(2) in \<open>auto simp: draft_keeps_def\<close>)
  ultimately show ?thesis by (simp add: db_keeps_def)
qed

lemma set_card_drafts:
  "ds_update_card_state f n c s db = Inr db' \<Longrightarrow> drafts db' = drafts db"
  "ds_update_card_state_tx f n c s db = Inr db' \<Longrightarrow> drafts db' = drafts db"
  "ds_mark_card_sent_tx f n c db = Inr db' \<Longrightarrow> drafts db' = drafts db"
  "drafts (ds_log_decision f n u c k dt db) = drafts db"
  by (auto simp: ds_update_card_state_def ds_update_card_state_tx_def ds_mark_card_sent_tx_def
      ds_log_decision_def Let_def split: if_splits)

lemma db_keeps_cong: "drafts b = drafts c \<Longrightarrow> db_keeps a b = db_keeps a c"
  by (simp add: db_keeps_def draft_ids_def)

lemma db_keeps_log [simp]: "db_keeps a (ds_log_decision f n u c k dt db) = db_keeps a db"
  by (rule db_keeps_cong) (rule set_card_drafts)

lemma db_keeps_set_state:
  "ds_update_card_state f n c s db = Inr db' \<Longrightarrow> db_keeps a db' = db_keeps a db"
  by (rule db_keeps_cong) (rule set_card_drafts)

lemma create_draft_keeps:
  assumes "ds_create_draft f n d db = Inr db'"
  shows "db_keeps db db'"
  using assms draft_keep.grow_append
  by (auto simp: ds_create_draft_def db_keeps_def draft_ids_def split: if_splits)

lemma edit_draft_keeps: "ds_update_draft_body f n did user body db = Inr db' \<Longrightarrow> db_keeps db db'"
  by (rule db_keeps_update [where p = "\<lambda>d. draft_id d = did \<and> draft_user d = user"
        and f = "\<lambda>d. d\<lparr>draft_body := body, draft_updated_at := n\<rparr>"]) (auto simp: ds_update_draft_body_def draft_keeps_def Let_def split: if_splits)

lemma approve_draft_keeps: "ds_approve_draft_tx lf f n did user db = Inr db' \<Longrightarrow> db_keeps db db'"
  by (rule db_keeps_update [where p = "\<lambda>d. draft_id d = did"
        and f = "\<lambda>d. d\<lparr>draft_approved := True, draft_updated_at := n\<rparr>"]) (auto simp: ds_approve_draft_tx_def draft_keeps_def split: if_splits option.splits)

lemma mark_draft_sent_keeps: "ds_mark_draft_sent_tx f n did m db = Inr db' \<Longrightarrow> db_keeps db db'"
  by (rule db_keeps_update [where p = "\<lambda>d. draft_id d = did"
        and f = "\<lambda>d. d\<lparr>draft_sent_at := Some n, draft_message_id := Some m, draft_updated_at := n\<rparr>"])
     (auto simp: ds_mark_draft_sent_tx_def draft_keeps_def Let_def split: if_splits)

text \<open>What every request but an approval does: it publishes no job and keeps the drafts.\<close>

definition quiet_step :: "decision_world \<Rightarrow> decision_world \<Rightarrow> bool" where
  "quiet_step w w' \<longleftrightarrow> dw_outbox w' = dw_outbox w \<and> db_keeps (dw_db w) (dw_db w')"

lemma quiet_refl [simp]: "quiet_step w w"
  by (simp add: quiet_step_def)

lemma quiet_db: "db_keeps (dw_db w) db \<Longrightarrow> quiet_step w (w\<lparr>dw_db := db\<rparr>)"
  by (simp add: quiet_step_def)

lemma revert_quiet: "quiet_step w v \<Longrightarrow> quiet_step w (revert_state env cid s v)"
  by (simp add: revert_state_def quiet_step_def db_keeps_set_state split: sum.split)

lemma store_quiet: "quiet_step w v \<Longrightarrow> quiet_step w (fst (store_and_answer env user cid k wh dt d v))"
  using db_keeps_trans [OF _ create_draft_keeps]
  by (fastforce simp: store_and_answer_def quiet_step_def split: sum.split)

lemma state_quiet:
  assumes "ds_update_card_state f n c s (dw_db w) = Inr db"
  shows "quiet_step w (w\<lparr>dw_db := db, dw_drafting := cb\<rparr>)"
    "quiet_step w (w\<lparr>dw_db := db, dw_consult := cb\<rparr>)"
    "quiet_step w (w\<lparr>dw_db := ds_log_decision lf n' u c' k dt db, dw_consult := cb\<rparr>)"
  by (simp_all add: quiet_step_def db_keeps_set_state [OF assms])

lemmas quiet_intros = quiet_refl revert_quiet store_quiet state_quiet

lemma process_decision_quiet: "quiet_step w (fst (process_decision env user cid decision inp w))"
  unfolding process_decision_def
  by (simp split: sum.split option.split prod.split) (blast intro: quiet_intros)

lemma process_modification_quiet:
  "quiet_step w (fst (process_draft_modification env user cid instr w))"
  unfolding process_draft_modification_def
  by (simp split: sum.split prod.split) (blast intro: quiet_intros)

lemma process_consultation_quiet: "quiet_step w (fst (process_consultation env user cid q w))"
  by (simp add: process_consultation_def quiet_step_def split: sum.split prod.split)

lemma process_edit_quiet: "quiet_step w (fst (process_edit env user did body w))"
  by (simp add: process_edit_def quiet_step_def edit_draft_keeps split: sum.split)

lemma on_send_complete_quiet: "quiet_step w (fst (on_send_complete env did m w))"
proof -
  have "db_keeps db (ds_log_decision lf n u c k dt db2)"
    if "ds_mark_draft_sent_tx f n did m db = Inr db1" "ds_mark_card_sent_tx f' n c' db1 = Inr db2"
    for db db1 db2 lf n u c k dt f f' c'
    using mark_draft_sent_keeps [OF that(1)] db_keeps_cong [OF set_card_drafts(3) [OF that(2)]] by simp
  then show ?thesis
    by (auto simp: on_send_complete_def quiet_step_def Let_def split: sum.split)
qed

lemma execute_send_quiet: "quiet_step w (fst (execute_send env env' did user w))"
proof -
  have "quiet_step w v" if "quiet_step (w\<lparr>dw_mails := ms\<rparr>) v" for ms v
    using that by (simp add: quiet_step_def)
  moreover have "quiet_step (w\<lparr>dw_mails := ms\<rparr>) v"
    if "on_send_complete env' did m (w\<lparr>dw_mails := ms\<rparr>) = (v, r)" for ms v r m
    using on_send_complete_quiet [of "w\<lparr>dw_mails := ms\<rparr>" env' did m] that by simp
  ultimately show ?thesis
    by (fastforce simp: execute_send_def Let_def split: sum.split option.split prod.split)
qed

section \<open>Approvals\<close>

text \<open>The draft an approval acts on, and its row afterwards.\<close>

definition approvable :: "uuid \<Rightarrow> uuid \<Rightarrow> draft \<Rightarrow> sync_db \<Rightarrow> bool" where
  "approvable did user d db \<longleftrightarrow>
     List.find (\<lambda>d. draft_id d = did) (drafts db) = Some d \<and>
     draft_id d = did \<and> draft_user d = user \<and> \<not> draft_approved d \<and> draft_sent_at d = None"

definition approved_row :: "instant \<Rightarrow> draft \<Rightarrow> draft" where
  "approved_row now d = d\<lparr>draft_approved := True, draft_updated_at := now\<rparr>"

lemma approved_row_fun: "(\<lambda>d. d\<lparr>draft_approved := True, draft_updated_at := now\<rparr>) = approved_row now"
  by (rule ext) (simp add: approved_row_def)

lemma find_and: "List.find P xs = Some x \<Longrightarrow> Q x \<Longrightarrow> List.find (\<lambda>y. P y \<and> Q y) xs = Some x"
  by (induction xs) (auto split: if_splits)

lemma find_SomeD: "List.find P xs = Some x \<Longrightarrow> x \<in> set xs \<and> P x"
  by (auto simp: find_Some_iff)

lemma approve_body_ok:
  assumes "decision_approve_body env did user db = (jobs, Inr db')"
  shows "\<exists>d. approvable did user d db \<and> jobs = [job_of_draft did user d] \<and>
    drafts db' = update_rows (\<lambda>d. draft_id d = did) (approved_row (de_now env)) (drafts db)"
proof -
  obtain db1 d db2 where a: "ds_approve_draft_tx (de_lock_fails env) (de_write_fails env) (de_now env) did user db = Inr db1"
    and g: "ds_get_draft (de_read_fails env) did db = Inr d" and u: "draft_user d = user"
    and s: "ds_update_card_state_tx (de_state_fails env) (de_now env) (draft_card d) ''approved'' db1 = Inr db2"
    and j: "jobs = [job_of_draft did user d]" and db': "drafts db' = drafts db2"
    using assms unfolding decision_approve_body_def
    by (auto simp: set_card_drafts split: sum.splits if_splits)
  have f: "List.find (\<lambda>d. draft_id d = did) (drafts db) = Some d"
    using g by (auto simp: ds_get_draft_def split: if_splits option.splits)
  then have "List.find (\<lambda>d. draft_id d = did \<and> draft_user d = user) (drafts db) = Some d"
    by (rule find_and) (rule u)
  then have "\<not> draft_approved d \<and> draft_sent_at d = None \<and>
      drafts db1 = update_rows (\<lambda>d. draft_id d = did) (approved_row (de_now env)) (drafts db)"
    using a by (auto simp: ds_approve_draft_tx_def approved_row_fun split: if_splits)
  moreover have "drafts db' = drafts db1" using db' set_card_drafts(2) [OF s] by simp
  ultimately show ?thesis
    using f u j find_SomeD [OF f] by (auto simp: approvable_def)
qed

lemma approve_body_error: "decision_approve_body env did user db = (jobs, Inl e) \<Longrightarrow> jobs = []"
  by (auto simp: decision_approve_body_def split: sum.splits if_splits)

text \<open>The outcomes of the flow: approved, refused without a trace, or published and rolled back.\<close>

lemma approve_flow_ok:
  assumes "approve_flow env did user w = (w', Inr x)"
  shows "\<not> de_commit_fails env \<and> (\<exists>d. approvable did user d (dw_db w) \<and>
    dw_outbox w' = dw_outbox w @ [job_of_draft did user d] \<and> dw_mails w' = dw_mails w \<and>
    drafts (dw_db w') = update_rows (\<lambda>d. draft_id d = did) (approved_row (de_now env)) (drafts (dw_db w)))"
proof -
  obtain jobs db' where "decision_approve_body env did user (dw_db w) = (jobs, Inr db')"
    and "\<not> de_commit_fails env" and "w' = w\<lparr>dw_outbox := dw_outbox w @ jobs, dw_db := db'\<rparr>"
    using assms unfolding approve_flow_def by (auto split: if_splits prod.splits sum.splits)
  then show ?thesis using approve_body_ok by fastforce
qed

lemma approve_flow_error:
  assumes "approve_flow env did user w = (w', Inl e)"
  shows "w' = w \<or> de_commit_fails env \<and> (\<exists>d. approvable did user d (dw_db w) \<and>
    w' = w\<lparr>dw_outbox := dw_outbox w @ [job_of_draft did user d]\<rparr>)"
proof (cases "de_begin_fails env")
  case False
  then show ?thesis
    using assms approve_body_error [of env did user "dw_db w"] approve_body_ok [of env did user "dw_db w"]
    unfolding approve_flow_def by (fastforce split: if_splits prod.splits sum.splits)
qed (use assms in \<open>auto simp: approve_flow_def\<close>)

text \<open>The invariant of a run in which commits hold.\<close>

definition jobs_ok :: "decision_world \<Rightarrow> bool" where
  "jobs_ok w \<longleftrightarrow> distinct (draft_ids (dw_db w)) \<and> distinct (map job_draft (dw_outbox w)) \<and>
     (\<forall>j \<in> set (dw_outbox w). \<exists>d \<in> set (drafts (dw_db w)). draft_id d = job_draft j \<and> draft_approved d)"

lemma db_keeps_approved:
  assumes "db_keeps db db'" "d \<in> set (drafts db)" "draft_approved d"
  shows "\<exists>d' \<in> set (drafts db'). draft_id d' = draft_id d \<and> draft_approved d'"
proof -
  obtain i where "i < length (drafts db)" "d = drafts db ! i" using assms(2) by (auto simp: in_set_conv_nth)
  then have "i < length (drafts db') \<and> draft_keeps d (drafts db' ! i)"
    using assms(1) draft_keep.grow_nth unfolding db_keeps_def by blast
  then show ?thesis using assms(3) by (auto simp: draft_keeps_def intro!: bexI [of _ "drafts db' ! i"])
qed

lemma jobs_ok_quiet: "jobs_ok w \<Longrightarrow> quiet_step w w' \<Longrightarrow> jobs_ok w'"
  unfolding jobs_ok_def quiet_step_def using db_keeps_approved
  by (metis db_keeps_def)

lemma unique_draft:
  "distinct (draft_ids db) \<Longrightarrow> d \<in> set (drafts db) \<Longrightarrow> e \<in> set (drafts db) \<Longrightarrow> draft_id d = draft_id e \<Longrightarrow> d = e"
  by (auto simp: draft_ids_def distinct_map dest: inj_onD)

lemma jobs_ok_approve:
  assumes "jobs_ok w" and "approve_flow env did user w = (w', Inr x)"
  shows "jobs_ok w'"
proof -
  obtain d where d: "approvable did user d (dw_db w)"
    and out: "dw_outbox w' = dw_outbox w @ [job_of_draft did user d]"
    and upd: "drafts (dw_db w') = update_rows (\<lambda>d. draft_id d = did) (approved_row (de_now env)) (drafts (dw_db w))"
    using approve_flow_ok [OF assms(2)] by blast
  have in_d: "d \<in> set (drafts (dw_db w))" "draft_id d = did" "\<not> draft_approved d"
    using d by (auto simp: approvable_def dest: find_SomeD)
  have k: "db_keeps (dw_db w) (dw_db w')"
    by (rule db_keeps_update [OF upd]) (simp add: approved_row_def draft_keeps_def)
  have fresh: "did \<notin> set (map job_draft (dw_outbox w))"
  proof
    assume "did \<in> set (map job_draft (dw_outbox w))"
    then obtain e where "e \<in> set (drafts (dw_db w))" "draft_id e = did" "draft_approved e"
      using assms(1) by (force simp: jobs_ok_def)
    then show False using unique_draft [of "dw_db w" e d] assms(1) in_d by (auto simp: jobs_ok_def)
  qed
  have new: "\<exists>e \<in> set (drafts (dw_db w')). draft_id e = did \<and> draft_approved e"
    unfolding upd update_rows_def using in_d
    by (intro bexI [of _ "approved_row (de_now env) d"]) (auto simp: approved_row_def intro!: image_eqI [of _ _ d])
  have old: "\<exists>e \<in> set (drafts (dw_db w')). draft_id e = job_draft j \<and> draft_approved e"
    if "j \<in> set (dw_outbox w)" for j
    using assms(1) that db_keeps_approved [OF k] by (metis jobs_ok_def)
  have "distinct (map job_draft (dw_outbox w'))"
    using fresh assms(1) by (simp add: out jobs_ok_def job_of_draft_def)
  moreover have "distinct (draft_ids (dw_db w'))" using k assms(1) by (simp add: db_keeps_def jobs_ok_def)
  ultimately show ?thesis
    using old new by (auto simp: jobs_ok_def out job_of_draft_def)
qed

lemma answer_world [simp]: "fst (answer_with h r) = fst r"
  by (simp add: answer_with_def split: prod.split sum.split)

lemma step_jobs_ok:
  assumes "decision_step False w w'" "jobs_ok w"
  shows "jobs_ok w'"
  using assms(1)
proof cases
  case (step_approve env auth did ok)
  have "jobs_ok (fst (process_approval env user i w))" for user i
    using step_approve(2) jobs_ok_approve [OF assms(2), of env i user] approve_flow_error [of env i user w] assms(2)
    by (fastforce simp: process_approval_def split: prod.split sum.split)
  then show ?thesis
    unfolding step_approve(1) by (simp add: handle_approve_draft_def assms(2) split: option.split)
next
  case (step_decide env auth cid body)
  show ?thesis
    unfolding step_decide using jobs_ok_quiet [OF assms(2) process_decision_quiet] assms(2)
    by (simp add: handle_decide_def split: option.split prod.split)
next
  case (step_draft env auth cid instr)
  show ?thesis
    unfolding step_draft using jobs_ok_quiet [OF assms(2) process_modification_quiet] assms(2)
    by (simp add: handle_request_draft_def split: option.split)
next
  case (step_edit env auth did body)
  show ?thesis
    unfolding step_edit using jobs_ok_quiet [OF assms(2) process_edit_quiet] assms(2)
    by (simp add: handle_edit_draft_def split: option.split)
next
  case (step_consult env auth question)
  show ?thesis
    unfolding step_consult using jobs_ok_quiet [OF assms(2) process_consultation_quiet] assms(2)
    by (simp add: handle_consult_def split: option.split prod.split)
next
  case (step_send env env' auth did_body)
  show ?thesis
    unfolding step_send using jobs_ok_quiet [OF assms(2) execute_send_quiet] assms(2)
    by (simp add: handle_send_def split: option.split)
qed

text \<open>An environment without faults, for the instances below.\<close>

definition ex_decision_env :: decision_env where
  "ex_decision_env =
     \<lparr>de_now = 50, de_fresh = 90, de_show_uuid = (\<lambda>u. ''u''), de_show_int = (\<lambda>i. ''n''),
      de_begin_fails = False, de_read_fails = False, de_lock_fails = False, de_write_fails = False,
      de_state_fails = False, de_publish_fails = False, de_log_fails = False, de_commit_fails = False,
      de_rollback_fails = False, de_latest_fails = False,
      de_clock = \<lparr>at_check = 50, at_state = 50, at_report = 50, at_fail = 50\<rparr>,
      de_generate = (\<lambda>c u t i. None), de_modify = (\<lambda>d i. None), de_ask = (\<lambda>c u q. None),
      de_mesh = (\<lambda>j. Some (51, ''<m1>'')), de_decode = (\<lambda>s. None)\<rparr>"

definition ex_draft :: draft where
  "ex_draft =
     \<lparr>draft_id = 7, draft_card = 1, draft_user = 1, draft_thread = 3, draft_body = ''Yes.'',
      draft_subject = None, draft_tone = None, draft_in_reply_to = None, draft_references = [],
      draft_model = None, draft_tokens = None, draft_approved = False, draft_sent_at = None,
      draft_created_at = 5, draft_message_id = None, draft_updated_at = 5\<rparr>"

definition ex_decision_card :: "string \<Rightarrow> decision_card" where
  "ex_decision_card st =
     \<lparr>card_id = 1, card_user = 1, card_thread = 3, card_account = 2, card_state = st, card_from = [],
      card_they_want = [], card_context = [], card_need = [], card_citations = [], card_urgency = 1 / 2,
      card_rule = None, card_confidence = None, card_deadline = None, card_decided_at = None,
      card_sent_at = None, card_version = 4, card_created_at = 1, card_updated_at = 5\<rparr>"

definition ex_world :: "string \<Rightarrow> decision_world" where
  "ex_world st =
     \<lparr>dw_db = \<lparr>cards = [ex_decision_card st], drafts = [ex_draft], queues = [], sync_log = [], decision_log = []\<rparr>,
      dw_outbox = [], dw_mails = [],
      dw_drafting = cb_new_with_preset ''intelligence'', dw_consult = cb_new_with_preset ''intelligence''\<rparr>"

lemmas ex_world_defs = ex_decision_env_def ex_draft_def ex_decision_card_def ex_world_def

lemmas approve_defs =
  approve_flow_def decision_approve_body_def ds_approve_draft_tx_def ds_get_draft_def
  ds_update_card_state_tx_def ds_log_decision_def rows_matching_def update_rows_def

lemma ex_approved: "\<exists>w. approve_flow ex_decision_env 7 1 (ex_world ''drafting'') = (w, Inr ())"
  by (simp add: approve_defs ex_world_defs)



lemma commit_only_matters_at_the_end:
  "decision_approve_body (env\<lparr>de_commit_fails := b\<rparr>) = decision_approve_body env"
  by (intro ext) (simp add: decision_approve_body_def log_detail_def split: sum.split)

text \<open>
  The send job leaves before the transaction commits. Where an approval would succeed, a
  failing commit leaves the tables unchanged and reports a retryable error, but its job is already
  queued; the retry succeeds and queues the same mail a second time.
\<close>

lemma failed_commit_queues_mail_twice:
  assumes "approve_flow env did user w = (w1, Inr ())"
  shows "\<exists>job. job_draft job = did \<and>
    handle_approve_draft (env\<lparr>de_commit_fails := True\<rparr>) (Some user) (Some did) (Some True) w =
      (w\<lparr>dw_outbox := dw_outbox w @ [job]\<rparr>, Refuse 500 ''internal_error'' True) \<and>
    dw_outbox (fst (approve_flow env did user (w\<lparr>dw_outbox := dw_outbox w @ [job]\<rparr>))) =
      dw_outbox w @ [job, job]"
proof -
  obtain jobs db' where body: "decision_approve_body env did user (dw_db w) = (jobs, Inr db')"
    and begin_ok: "\<not> de_begin_fails env" and "\<not> de_commit_fails env"
    using assms unfolding approve_flow_def by (auto split: if_splits prod.splits sum.splits)
  obtain d where "jobs = [job_of_draft did user d]" using approve_body_ok [OF body] by blast
  then show ?thesis
    using body begin_ok
    by (intro exI [of _ "job_of_draft did user d"])
       (simp add: handle_approve_draft_def process_approval_def approve_flow_def answer_with_def
          commit_only_matters_at_the_end approve_error_reply_def internal_error_def job_of_draft_def)
qed

lemma failed_commit_queues_mail_twice_witness:
  "\<exists>job w1. approve_flow ex_decision_env 7 1 (ex_world ''drafting'') = (w1, Inr ()) \<and>
     dw_outbox (fst (approve_flow ex_decision_env 7 1 ((ex_world ''drafting'')\<lparr>dw_outbox := [job]\<rparr>))) =
       [job, job]"
proof -
  obtain w1 where w1: "approve_flow ex_decision_env 7 1 (ex_world ''drafting'') = (w1, Inr ())"
    using ex_approved by blast
  have "dw_outbox (ex_world ''drafting'') = []" by (simp add: ex_world_def)
  then show ?thesis using failed_commit_queues_mail_twice [OF w1] w1 by auto
qed

lemma job_of_approved_row: "job_of_draft did user (approved_row now d) = job_of_draft did user d"
  by (simp add: job_of_draft_def approved_row_def)

lemma find_update_first:
  "List.find p xs = Some d \<Longrightarrow> (\<And>x. p (f x) = p x) \<Longrightarrow> List.find p (update_rows p f xs) = Some (f d)"
  by (induction xs) (auto simp: update_rows_def split: if_splits)

text \<open>
  Approving queues the mail, and the direct send then delivers it again. After a successful
  approval the draft is approved and unsent, and nothing marks it sent when the queued job is
  done; a direct send by the same user hands the same mail to the ingestion mesh once more,
  whatever becomes of the recording of that send.
\<close>

lemma queued_draft_is_sent_again:
  assumes "approve_flow env did user w = (w1, Inr ())"
    and "\<not> de_read_fails env2" and "\<forall>j. de_mesh env2 j \<noteq> None"
  shows "\<exists>job. job_draft job = did \<and> dw_outbox w1 = dw_outbox w @ [job] \<and>
    dw_mails (fst (handle_send env2 env3 (Some user) (Some did) w1)) =
      dw_mails w @ (if did = uuid_nil then [] else [job])"
proof -
  obtain d where d: "approvable did user d (dw_db w)"
    and out: "dw_outbox w1 = dw_outbox w @ [job_of_draft did user d]" and mails: "dw_mails w1 = dw_mails w"
    and upd: "drafts (dw_db w1) = update_rows (\<lambda>d. draft_id d = did) (approved_row (de_now env)) (drafts (dw_db w))"
    using approve_flow_ok [OF assms(1)] by blast
  have "List.find (\<lambda>d. draft_id d = did) (drafts (dw_db w1)) = Some (approved_row (de_now env) d)"
    unfolding upd by (rule find_update_first) (use d in \<open>simp_all add: approvable_def approved_row_def\<close>)
  then have "List.find (\<lambda>d. draft_id d = did \<and> draft_user d = user) (drafts (dw_db w1)) =
      Some (approved_row (de_now env) d)"
    by (rule find_and) (use d in \<open>simp add: approvable_def approved_row_def\<close>)
  then have get: "ds_get_draft_owned_by (de_read_fails env2) did user (dw_db w1) =
      Inr (approved_row (de_now env) d)"
    using assms(2) by (simp add: ds_get_draft_owned_by_def)
  obtain t m where mesh: "de_mesh env2 (job_of_draft did user d) = Some (t, m)" using assms(3) by fastforce
  have keep: "dw_mails (fst (on_send_complete env3 did m v)) = dw_mails v" for v
    by (simp add: on_send_complete_def Let_def split: sum.split)
  have "draft_approved (approved_row (de_now env) d)" "draft_sent_at (approved_row (de_now env) d) = None"
    using d by (simp_all add: approved_row_def approvable_def)
  then have "dw_mails (fst (execute_send env2 env3 did user w1)) = dw_mails w @ [job_of_draft did user d]"
    using keep [of "w1\<lparr>dw_mails := dw_mails w @ [job_of_draft did user d]\<rparr>"]
    by (auto simp: execute_send_def get job_of_approved_row mesh mails split: sum.split prod.split)
  then show ?thesis
    using out mails by (intro exI [of _ "job_of_draft did user d"]) (simp add: handle_send_def job_of_draft_def)
qed

lemma queued_draft_is_sent_again_witness:
  "\<exists>w1 job. approve_flow ex_decision_env 7 1 (ex_world ''drafting'') = (w1, Inr ()) \<and>
     job \<in> set (dw_outbox w1) \<and>
     job \<in> set (dw_mails (fst (handle_send ex_decision_env ex_decision_env (Some 1) (Some 7) w1)))"
proof -
  obtain w1 where w1: "approve_flow ex_decision_env 7 1 (ex_world ''drafting'') = (w1, Inr ())"
    using ex_approved by blast
  have "\<not> de_read_fails ex_decision_env" "\<forall>j. de_mesh ex_decision_env j \<noteq> None"
    by (simp_all add: ex_decision_env_def)
  then show ?thesis
    using queued_draft_is_sent_again [OF w1, of ex_decision_env ex_decision_env] w1
    by (auto intro!: exI [of _ w1])
qed

section \<open>What the handlers report\<close>

lemmas error_reply_defs =
  card_error_reply_def approve_error_reply_def edit_error_reply_def source_error_reply_def
  consult_error_reply_def send_error_reply_def

lemma wrapped_replies [simp]:
  "card_error_reply (Wrapped s e) = internal_error" "approve_error_reply (Wrapped s e) = internal_error"
  "edit_error_reply (Wrapped s e) = internal_error" "source_error_reply (Wrapped s e) = internal_error"
  "consult_error_reply (Wrapped s e) = internal_error" "send_error_reply (Wrapped s e) = internal_error"
  "card_error_reply (ErrPlain s) = internal_error" "edit_error_reply (ErrPlain s) = internal_error"
  "consult_error_reply (ErrPlain s) = internal_error" "card_error_reply (ErrInvalidDecision s) = internal_error"
  by (simp_all add: error_reply_defs)

lemma answer_with_Inl: "snd (answer_with h r) = (case snd r of Inl e \<Rightarrow> h e | Inr a \<Rightarrow> Reply a)"
  by (simp add: answer_with_def split: prod.split sum.split)

lemma answer_internal:
  "(\<And>e. snd r = Inl e \<Longrightarrow> h e = internal_error) \<Longrightarrow>
   snd (answer_with h r) \<in> insert internal_error (range Reply)"
  by (simp add: answer_with_Inl split: sum.split)

lemma store_and_answer_error:
  "snd (store_and_answer env user cid k wh dt d v) = Inl e \<Longrightarrow> \<exists>s e'. e = Wrapped s e'"
  by (auto simp: store_and_answer_def split: sum.splits)

lemma process_decision_error:
  "snd (process_decision env user cid d inp w) = Inl e \<Longrightarrow>
     (\<exists>s e'. e = Wrapped s e') \<or> (\<exists>s. e = ErrPlain s) \<or> (\<exists>s. e = ErrInvalidDecision s)"
  by (auto simp: process_decision_def dest: store_and_answer_error
      split: sum.splits if_splits option.splits prod.splits)

lemma process_modification_error:
  "snd (process_draft_modification env user cid i w) = Inl e \<Longrightarrow>
     (\<exists>s e'. e = Wrapped s e') \<or> (\<exists>s. e = ErrPlain s)"
  unfolding process_draft_modification_def
  by (simp split: sum.split_asm if_split_asm prod.split_asm) (auto dest: store_and_answer_error)

lemma replies_internal:
  "snd (answer_with card_error_reply (process_decision env user cid d inp w)) \<in> insert internal_error (range Reply)"
  "snd (answer_with card_error_reply (process_draft_modification env user cid i w)) \<in> insert internal_error (range Reply)"
  "snd (answer_with approve_error_reply (process_approval env user did w)) \<in> insert internal_error (range Reply)"
  "snd (answer_with edit_error_reply (process_edit env user did b w)) \<in> insert internal_error (range Reply)"
  "snd (answer_with source_error_reply (w, get_source_citations env user cid w)) \<in> insert internal_error (range Reply)"
  "snd (answer_with consult_error_reply (process_consultation env user cid q w)) \<in> insert internal_error (range Reply)"
proof -
  show "snd (answer_with card_error_reply (process_decision env user cid d inp w)) \<in> insert internal_error (range Reply)"
    by (rule answer_internal) (auto dest: process_decision_error)
  show "snd (answer_with card_error_reply (process_draft_modification env user cid i w)) \<in> insert internal_error (range Reply)"
    by (rule answer_internal) (auto dest: process_modification_error)
  show "snd (answer_with approve_error_reply (process_approval env user did w)) \<in> insert internal_error (range Reply)"
    by (rule answer_internal) (auto simp: process_approval_def split: prod.splits sum.splits)
  show "snd (answer_with edit_error_reply (process_edit env user did b w)) \<in> insert internal_error (range Reply)"
    by (rule answer_internal) (auto simp: process_edit_def split: if_splits sum.splits)
  show "snd (answer_with source_error_reply (w, get_source_citations env user cid w)) \<in> insert internal_error (range Reply)"
    by (rule answer_internal) (auto simp: get_source_citations_def split: sum.splits)
  show "snd (answer_with consult_error_reply (process_consultation env user cid q w)) \<in> insert internal_error (range Reply)"
    by (rule answer_internal) (auto simp: process_consultation_def split: if_splits sum.splits prod.splits)
qed

lemma send_reply_kinds:
  "snd (answer_with send_error_reply (execute_send env env' did user w)) \<in>
     {internal_error, Refuse 409 ''not_approved'' False, Refuse 409 ''already_sent'' False} \<union> range Reply"
  by (simp add: answer_with_Inl execute_send_def Let_def error_reply_defs internal_error_def
      split: sum.split option.split prod.split)

text \<open>
  The handlers switch on the type of the outermost error, and the processor wraps every error
  of the stores. A request past the checks of its handler is therefore answered with success or
  with the retryable 500, for an unknown card or draft, a card of another user and a draft that is
  already approved alike: the 404, 403, 409 and 429 branches are dead. Only the direct send still
  reports an unapproved or already sent draft.
\<close>

lemma wrapped_errors_hide_their_kind:
  assumes "d \<in> {''approve'', ''edit'', ''consult''}" and "instr \<noteq> []" and "body \<noteq> []" and "cid \<noteq> uuid_nil"
    and "did \<noteq> uuid_nil"
  shows "snd (handle_decide env (Some user) (Some cid) (Some (d, inp)) w) \<in> insert internal_error (range Reply) \<and>
    snd (handle_request_draft env (Some user) (Some cid) (Some instr) w) \<in> insert internal_error (range Reply) \<and>
    snd (handle_approve_draft env (Some user) (Some did) (Some True) w) \<in> insert internal_error (range Reply) \<and>
    snd (handle_edit_draft env (Some user) (Some did) (Some body) w) \<in> insert internal_error (range Reply) \<and>
    snd (handle_get_source env (Some user) (Some cid) w) \<in> insert internal_error (range Reply) \<and>
    snd (handle_consult env (Some user) (Some (cid, instr)) w) \<in> insert internal_error (range Reply) \<and>
    snd (handle_send env env' (Some user) (Some did) w) \<in>
      {internal_error, Refuse 409 ''not_approved'' False, Refuse 409 ''already_sent'' False} \<union> range Reply"
proof -
  have "handle_decide env (Some user) (Some cid) (Some (d, inp)) w =
      answer_with card_error_reply (process_decision env user cid d inp w)"
    using assms(1) by (auto simp: handle_decide_def)
  then show ?thesis
    using assms(2-5) replies_internal send_reply_kinds
    by (simp only: handle_request_draft_def handle_approve_draft_def handle_edit_draft_def handle_get_source_def
        handle_consult_def handle_send_def option.case prod.case if_False simp_thms)
qed

lemma wrapped_errors_hide_their_kind_witness:
  "snd (handle_approve_draft ex_decision_env (Some 1) (Some 8) (Some True) (ex_world ''drafting'')) = internal_error"
proof -
  have "snd (handle_approve_draft ex_decision_env (Some 1) (Some 8) (Some True) (ex_world ''drafting'')) \<noteq> Reply ()"
    by (simp add: handle_approve_draft_def process_approval_def answer_with_def approve_defs ex_world_defs
        internal_error_def)
  moreover have "snd (handle_approve_draft ex_decision_env (Some 1) (Some 8) (Some True) (ex_world ''drafting''))
      \<in> insert internal_error (range Reply)"
    using wrapped_errors_hide_their_kind [where d = "''approve''" and instr = "''x''" and body = "''x''"
        and cid = 1 and did = 8 and user = 1] by simp
  ultimately show ?thesis by auto
qed

section \<open>What deciding does to a card\<close>

lemma get_owned_found:
  assumes "distinct (map card_id (cards db))" "c \<in> set (cards db)" "card_user c = user"
  shows "ds_get_card_owned_by False (card_id c) user db = Inr c"
proof (cases "List.find (\<lambda>x. card_id x = card_id c \<and> card_user x = user) (cards db)")
  case None
  then show ?thesis using assms(2,3) by (auto simp: find_None_iff)
next
  case (Some x)
  then have "x \<in> set (cards db)" "card_id x = card_id c" by (auto dest: find_SomeD)
  then have "x = c" using assms(1,2) by (auto simp: distinct_map dest: inj_onD)
  then show ?thesis using Some by (simp add: ds_get_card_owned_by_def)
qed

lemma update_state_ok:
  assumes "c \<in> set (cards db)"
  shows "ds_update_card_state False now (card_id c) st db =
    Inr (db\<lparr>cards := update_rows (\<lambda>x. card_id x = card_id c) (set_state now st) (cards db)\<rparr>)"
  using assms by (auto simp: ds_update_card_state_def Let_def)

lemma update_rows_twice:
  "(\<And>r. p (f r) = p r) \<Longrightarrow> update_rows p g (update_rows p f rs) = update_rows p (\<lambda>r. g (f r)) rs"
  by (simp add: update_rows_def)

lemma revert_restores:
  assumes "\<not> de_rollback_fails env" and "c \<in> set cs"
    and "cards (dw_db w) = update_rows (\<lambda>x. card_id x = card_id c) (set_state now st) cs"
  shows "cards (dw_db (revert_state env (card_id c) old w)) =
      update_rows (\<lambda>x. card_id x = card_id c) (\<lambda>x. set_state (de_now env) old (set_state now st x)) cs"
    and "drafts (dw_db (revert_state env (card_id c) old w)) = drafts (dw_db w)"
proof -
  let ?c = "set_state now st c"
  have id: "card_id ?c = card_id c" by (simp add: set_state_def)
  have "?c \<in> set (cards (dw_db w))"
    unfolding assms(3) update_rows_def set_map using assms(2) by (intro image_eqI [of _ _ c]) simp_all
  from update_state_ok [OF this, of "de_now env" old] assms(1,3)
  show "cards (dw_db (revert_state env (card_id c) old w)) =
      update_rows (\<lambda>x. card_id x = card_id c) (\<lambda>x. set_state (de_now env) old (set_state now st x)) cs"
    and "drafts (dw_db (revert_state env (card_id c) old w)) = drafts (dw_db w)"
    by (simp_all add: revert_state_def id update_rows_twice set_state_def)
qed

text \<open>
  Deciding to approve or edit asks no state of the card: a pending card and a card that has
  been sent, archived or has expired go through the same three outcomes. Either the card moves to
  drafting and an unapproved draft of its user is stored and returned; or drafting fails and the
  card is back in its state two versions later; or storing fails and the card stays in drafting
  without a new draft. No other row of the two tables changes.
\<close>

lemma decide_drafts_in_any_state:
  assumes "distinct (map card_id (cards (dw_db w)))" and "c \<in> set (cards (dw_db w))" and "card_user c = user"
    and "\<not> de_read_fails env" and "\<not> de_state_fails env" and "\<not> de_rollback_fails env"
    and "decision \<in> {''approve'', ''edit''}"
    and "process_decision env user (card_id c) decision inp w = (w', r)"
  shows
   "(\<exists>d. r = Inr (response_of d) \<and> \<not> draft_approved d \<and> draft_user d = user \<and> draft_card d = card_id c \<and>
       draft_thread d = card_thread c \<and> drafts (dw_db w') = drafts (dw_db w) @ [d] \<and>
       cards (dw_db w') = update_rows (\<lambda>x. card_id x = card_id c) (set_state (de_now env) ''drafting'') (cards (dw_db w)))
    \<or> (\<exists>e. r = Inl (Wrapped ''generate draft'' e) \<and> drafts (dw_db w') = drafts (dw_db w) \<and>
       cards (dw_db w') = update_rows (\<lambda>x. card_id x = card_id c)
         (\<lambda>x. set_state (de_now env) (card_state c) (set_state (de_now env) ''drafting'' x)) (cards (dw_db w)))
    \<or> (\<exists>e. r = Inl (Wrapped ''store draft'' e) \<and> drafts (dw_db w') = drafts (dw_db w) \<and>
       cards (dw_db w') = update_rows (\<lambda>x. card_id x = card_id c) (set_state (de_now env) ''drafting'') (cards (dw_db w)))"
proof -
  let ?db = "(dw_db w)\<lparr>cards := update_rows (\<lambda>x. card_id x = card_id c) (set_state (de_now env) ''drafting'') (cards (dw_db w))\<rparr>"
  obtain cb g where gen: "generate_draft (de_clock env) (de_generate env) (de_now env) (de_fresh env) (card_id c)
      user (card_thread c) inp (dw_drafting w) = (cb, g)" by fastforce
  let ?w1 = "w\<lparr>dw_db := ?db, dw_drafting := cb\<rparr>"
  have run: "(w', r) = (case g of
      Inl e \<Rightarrow> (revert_state env (card_id c) (card_state c) ?w1, Inl (Wrapped ''generate draft'' e))
    | Inr d \<Rightarrow> store_and_answer env user (card_id c) decision ''store draft''
        (\<lambda>i. [(''draft_id'', quoted (de_show_uuid env i))]) d ?w1)"
    using assms(4-8) get_owned_found [OF assms(1-3)] update_state_ok [OF assms(2), of "de_now env" "''drafting''"]
    by (auto simp: process_decision_def gen split: sum.split)
  show ?thesis
  proof (cases g)
    case (Inl e)
    have k: "cards (dw_db ?w1) = update_rows (\<lambda>x. card_id x = card_id c) (set_state (de_now env) ''drafting'') (cards (dw_db w))"
      by simp
    show ?thesis
      using run Inl revert_restores [OF assms(6) assms(2) k, of "card_state c"] by simp
  next
    case (Inr d)
    have d: "\<not> draft_approved d \<and> draft_user d = user \<and> draft_card d = card_id c \<and> draft_thread d = card_thread c"
      using gen Inr by (auto simp: generate_draft_def draft_of_answer_def split: prod.splits sum.splits)
    show ?thesis
    proof (cases "ds_create_draft (de_write_fails env) (de_now env) d ?db")
      case (Inl e)
      then show ?thesis using run Inr by (simp add: store_and_answer_def)
    next
      case (Inr db2)
      let ?d = "d\<lparr>draft_sent_at := None, draft_message_id := None, draft_updated_at := de_now env\<rparr>"
      have db2: "drafts db2 = drafts (dw_db w) @ [?d]" "cards db2 = cards ?db"
        using Inr by (auto simp: ds_create_draft_def split: if_splits)
      have "cards (ds_log_decision f n u i k dt db2) = cards db2" for f n u i k dt
        by (simp add: ds_log_decision_def)
      then show ?thesis
        using run \<open>g = Inr d\<close> Inr d db2 set_card_drafts(4)
        by (intro disjI1 exI [of _ ?d]) (simp add: store_and_answer_def response_of_def)
    qed
  qed
qed

lemma decide_drafts_in_any_state_witness:
  "card_state (ex_decision_card ''sent'') = ''sent'' \<and>
   (\<exists>w' r. process_decision ex_decision_env 1 1 ''edit'' None (ex_world ''sent'') = (w', r) \<and>
      drafts (dw_db w') = [ex_draft] \<and> card_version (cards (dw_db w') ! 0) = 6)"
proof -
  let ?c = "ex_decision_card ''sent''" and ?w = "ex_world ''sent''"
  obtain w' r where run: "process_decision ex_decision_env 1 1 ''edit'' None ?w = (w', r)" by fastforce
  have w: "distinct (map card_id (cards (dw_db ?w)))" "?c \<in> set (cards (dw_db ?w))" "card_user ?c = 1"
    "\<not> de_read_fails ex_decision_env" "\<not> de_state_fails ex_decision_env" "\<not> de_rollback_fails ex_decision_env"
    "''edit'' \<in> {''approve'', ''edit''}" "card_id ?c = 1"
    by (simp_all add: ex_world_defs)
  have "\<exists>e. r = Inl (Wrapped ''generate draft'' e)"
    using run by (auto simp: process_decision_def ds_get_card_owned_by_def ds_update_card_state_def rows_matching_def
        generate_draft_def guarded_def cb_call_def cb_is_open_unfold cb_new_with_preset_def cb_new_def
        cb_presets_def cb_default_config_def ex_world_defs Let_def)
  then have "drafts (dw_db w') = drafts (dw_db ?w) \<and> cards (dw_db w') =
      update_rows (\<lambda>x. card_id x = card_id ?c) (\<lambda>x. set_state (de_now ex_decision_env) (card_state ?c)
        (set_state (de_now ex_decision_env) ''drafting'' x)) (cards (dw_db ?w))"
    using decide_drafts_in_any_state [OF w(1-7), unfolded w(8), OF run] by (auto simp: w(8))
  then show ?thesis
    using run by (simp add: update_rows_def set_state_def ex_world_def ex_decision_card_def)
qed

end
