(* ===== verification/Rule_Predicate.thy ===== *)
theory Rule_Predicate
  imports Reagent_Prelude
begin

text \<open>
  The rule predicates of the classification service: \<open>src/classification/internal/models/models.go\<close>
  (predicates, conditions, e-mail attributes and the evaluator of the models package) and
  \<open>src/classification/internal/auto/predicate.go\<close> (the evaluator of the auto-handle engine, with
  its LRU cache of compiled regular expressions). An \<open>interface{}\<close> value is a tagged value, one
  tag per dynamic type the code distinguishes, so that Go's \<open>==\<close> on interfaces of different
  dynamic type is inequality of constructors. Floating-point values are rationals: the code
  compares and truncates them. Compiling a regular expression is a parameter: it gives the matcher
  or fails.
\<close>

section \<open>Values, attributes, predicates\<close>

datatype go_value =
    VNil
  | VStr string
  | VBool bool
  | VInt int
  | VInt32 int
  | VInt64 int
  | VFloat rat
  | VFloat32 rat
  | VNumber "rat option"
  | VStrs "string list"
  | VList "go_value list"
  | VObject string

record email_attributes =
  at_sender_email :: string
  at_sender_domain :: string
  at_subject :: string
  at_body :: string
  at_recipient :: string
  at_has_attachment :: bool
  at_thread_participant_count :: int
  at_time_of_day :: int
  at_day_of_week :: int

definition attr_get :: "email_attributes \<Rightarrow> string \<Rightarrow> go_value" where
  "attr_get a f =
     (if f = ''sender_email'' then VStr (at_sender_email a)
      else if f = ''sender_domain'' then VStr (at_sender_domain a)
      else if f = ''subject'' then VStr (at_subject a)
      else if f = ''body'' then VStr (at_body a)
      else if f = ''recipient'' then VStr (at_recipient a)
      else if f = ''has_attachment'' then VBool (at_has_attachment a)
      else if f = ''thread_participant_count'' then VInt (at_thread_participant_count a)
      else if f = ''time_of_day'' then VInt (at_time_of_day a)
      else if f = ''day_of_week'' then VInt (at_day_of_week a)
      else VNil)"

record condition =
  cond_field :: string
  cond_op :: string
  cond_value :: go_value

record rule_predicate =
  all_of :: "condition list"
  any_of :: "condition list"

datatype eval_error =
    UnknownOperator string
  | ContainsType
  | RegexType
  | InvalidRegex string
  | CompareType
  | InType

type_synonym matcher = "string \<Rightarrow> bool"
type_synonym regex_compile = "string \<Rightarrow> matcher option"

section \<open>Comparisons\<close>

fun str_compare :: "string \<Rightarrow> string \<Rightarrow> int" where
  "str_compare [] [] = 0"
| "str_compare [] (d # t) = -1"
| "str_compare (c # s) [] = 1"
| "str_compare (c # s) (d # t) =
     (if (of_char c :: nat) < of_char d then -1
      else if (of_char d :: nat) < of_char c then 1
      else str_compare s t)"

definition cmp :: "'a::linorder \<Rightarrow> 'a \<Rightarrow> int" where
  "cmp a b = (if a < b then -1 else if b < a then 1 else 0)"

text \<open>Conversion of a float to int drops the fraction.\<close>

definition trunc :: "rat \<Rightarrow> int" where
  "trunc q = (if q < 0 then - \<lfloor>- q\<rfloor> else \<lfloor>q\<rfloor>)"

fun to_float64 :: "go_value \<Rightarrow> rat option" where
  "to_float64 (VFloat q) = Some q"
| "to_float64 (VFloat32 q) = Some q"
| "to_float64 (VInt i) = Some (of_int i)"
| "to_float64 (VInt32 i) = Some (of_int i)"
| "to_float64 (VInt64 i) = Some (of_int i)"
| "to_float64 _ = None"

definition compare_values :: "go_value \<Rightarrow> go_value \<Rightarrow> eval_error + int" where
  "compare_values a b =
     (case a of
        VInt av \<Rightarrow>
          (case b of
             VInt bv \<Rightarrow> Inr (cmp av bv)
           | VFloat bf \<Rightarrow> Inr (cmp av (trunc bf))
           | _ \<Rightarrow> Inl CompareType)
      | VFloat av \<Rightarrow>
          (case to_float64 b of Some bv \<Rightarrow> Inr (cmp av bv) | None \<Rightarrow> Inl CompareType)
      | VStr av \<Rightarrow>
          (case b of
             VStr bv \<Rightarrow> Inr (str_compare (to_lower av) (to_lower bv))
           | _ \<Rightarrow> Inl CompareType)
      | _ \<Rightarrow> Inl CompareType)"

section \<open>The compiled-pattern cache\<close>

text \<open>
  \<open>regexCache\<close> maps a pattern to its matcher, \<open>lruList\<close> holds the patterns, most recently used
  first. A cache entry's list element is the element holding its pattern.
\<close>

record predicate_evaluator =
  regex_cache :: "string \<rightharpoonup> matcher"
  lru_list :: "string list"
  max_entries :: nat
  cache_hits :: "64 word"
  cache_misses :: "64 word"

definition new_predicate_evaluator :: predicate_evaluator where
  "new_predicate_evaluator =
     \<lparr>regex_cache = Map.empty, lru_list = [], max_entries = 100, cache_hits = 0, cache_misses = 0\<rparr>"

definition move_to_front :: "string \<Rightarrow> string list \<Rightarrow> string list" where
  "move_to_front p ps = (if p \<in> set ps then p # remove1 p ps else ps)"

definition evict_oldest :: "predicate_evaluator \<Rightarrow> predicate_evaluator" where
  "evict_oldest pe =
     (if max_entries pe \<le> length (lru_list pe) \<and> lru_list pe \<noteq> []
      then pe\<lparr>regex_cache := (regex_cache pe)(last (lru_list pe) := None),
              lru_list := butlast (lru_list pe)\<rparr>
      else pe)"

definition get_compiled_regex ::
  "regex_compile \<Rightarrow> string \<Rightarrow> predicate_evaluator \<Rightarrow> predicate_evaluator \<times> matcher option" where
  "get_compiled_regex compile p pe =
     (case regex_cache pe p of
        Some re \<Rightarrow>
          (pe\<lparr>cache_hits := cache_hits pe + 1, lru_list := move_to_front p (lru_list pe)\<rparr>, Some re)
      | None \<Rightarrow>
          (case compile p of
             None \<Rightarrow> (pe, None)
           | Some re \<Rightarrow>
              (let pe1 = evict_oldest (pe\<lparr>cache_misses := cache_misses pe + 1\<rparr>)
               in (pe1\<lparr>regex_cache := (regex_cache pe1)(p \<mapsto> re), lru_list := p # lru_list pe1\<rparr>,
                   Some re))))"

definition cache_stats :: "predicate_evaluator \<Rightarrow> 64 word \<times> 64 word" where
  "cache_stats pe = (cache_hits pe, cache_misses pe)"

definition reset_cache :: "predicate_evaluator \<Rightarrow> predicate_evaluator" where
  "reset_cache pe =
     pe\<lparr>regex_cache := Map.empty, lru_list := [], cache_hits := 0, cache_misses := 0\<rparr>"

definition cache_size :: "predicate_evaluator \<Rightarrow> nat" where
  "cache_size pe = length (lru_list pe)"

section \<open>The evaluator of the auto-handle engine\<close>

definition eval_eq :: "go_value \<Rightarrow> go_value \<Rightarrow> bool" where
  "eval_eq a b =
     (case a of
        VStr av \<Rightarrow> (case b of VStr bv \<Rightarrow> equal_fold av bv | _ \<Rightarrow> False)
      | _ \<Rightarrow> a = b)"

definition eval_contains :: "go_value \<Rightarrow> go_value \<Rightarrow> eval_error + bool" where
  "eval_contains a b =
     (case a of
        VStr s \<Rightarrow> (case b of VStr v \<Rightarrow> Inr (str_contains (to_lower s) (to_lower v))
                           | _ \<Rightarrow> Inl ContainsType)
      | _ \<Rightarrow> Inl ContainsType)"

definition eval_regex ::
  "regex_compile \<Rightarrow> go_value \<Rightarrow> go_value \<Rightarrow> predicate_evaluator
     \<Rightarrow> predicate_evaluator \<times> (eval_error + bool)" where
  "eval_regex compile a b pe =
     (case a of
        VStr s \<Rightarrow>
          (case b of
             VStr p \<Rightarrow>
               (case get_compiled_regex compile p pe of
                  (pe', None) \<Rightarrow> (pe', Inl (InvalidRegex p))
                | (pe', Some re) \<Rightarrow> (pe', Inr (re s)))
           | _ \<Rightarrow> (pe, Inl RegexType))
      | _ \<Rightarrow> (pe, Inl RegexType))"

definition eval_gt :: "go_value \<Rightarrow> go_value \<Rightarrow> eval_error + bool" where
  "eval_gt a b = (case compare_values a b of Inl e \<Rightarrow> Inl e | Inr c \<Rightarrow> Inr (0 < c))"

definition eval_lt :: "go_value \<Rightarrow> go_value \<Rightarrow> eval_error + bool" where
  "eval_lt a b = (case compare_values a b of Inl e \<Rightarrow> Inl e | Inr c \<Rightarrow> Inr (c < 0))"

definition eval_in :: "go_value \<Rightarrow> go_value \<Rightarrow> eval_error + bool" where
  "eval_in a b =
     (case a of
        VStr s \<Rightarrow>
          (case b of
             VStrs vs \<Rightarrow> Inr (list_ex (\<lambda>v. equal_fold s v) vs)
           | VList vs \<Rightarrow> Inr (list_ex (\<lambda>v. case v of VStr t \<Rightarrow> equal_fold s t | _ \<Rightarrow> False) vs)
           | _ \<Rightarrow> Inl InType)
      | _ \<Rightarrow> Inl InType)"

definition eval_condition ::
  "regex_compile \<Rightarrow> condition \<Rightarrow> email_attributes \<Rightarrow> predicate_evaluator
     \<Rightarrow> predicate_evaluator \<times> (eval_error + bool)" where
  "eval_condition compile c attrs pe =
     (let a = attr_get attrs (cond_field c); b = cond_value c; oper = cond_op c
      in if a = VNil then (pe, Inr False)
         else if oper = ''eq'' then (pe, Inr (eval_eq a b))
         else if oper = ''ne'' then (pe, Inr (\<not> eval_eq a b))
         else if oper = ''contains'' then (pe, eval_contains a b)
         else if oper = ''regex'' then eval_regex compile a b pe
         else if oper = ''gt'' then (pe, eval_gt a b)
         else if oper = ''lt'' then (pe, eval_lt a b)
         else if oper = ''in'' then (pe, eval_in a b)
         else if oper = ''not_in''
         then (pe, case eval_in a b of Inl e \<Rightarrow> Inl e | Inr ok \<Rightarrow> Inr (\<not> ok))
         else (pe, Inl (UnknownOperator oper)))"

fun eval_all_of ::
  "regex_compile \<Rightarrow> condition list \<Rightarrow> email_attributes \<Rightarrow> predicate_evaluator
     \<Rightarrow> predicate_evaluator \<times> (eval_error + bool)" where
  "eval_all_of compile [] attrs pe = (pe, Inr True)"
| "eval_all_of compile (c # cs) attrs pe =
     (case eval_condition compile c attrs pe of
        (pe', Inl e) \<Rightarrow> (pe', Inl e)
      | (pe', Inr False) \<Rightarrow> (pe', Inr False)
      | (pe', Inr True) \<Rightarrow> eval_all_of compile cs attrs pe')"

fun eval_any_of ::
  "regex_compile \<Rightarrow> condition list \<Rightarrow> email_attributes \<Rightarrow> predicate_evaluator
     \<Rightarrow> predicate_evaluator \<times> (eval_error + bool)" where
  "eval_any_of compile [] attrs pe = (pe, Inr False)"
| "eval_any_of compile (c # cs) attrs pe =
     (case eval_condition compile c attrs pe of
        (pe', Inl e) \<Rightarrow> (pe', Inl e)
      | (pe', Inr True) \<Rightarrow> (pe', Inr True)
      | (pe', Inr False) \<Rightarrow> eval_any_of compile cs attrs pe')"

definition evaluate ::
  "regex_compile \<Rightarrow> rule_predicate \<Rightarrow> email_attributes \<Rightarrow> predicate_evaluator
     \<Rightarrow> predicate_evaluator \<times> (eval_error + bool)" where
  "evaluate compile p attrs pe =
     (case eval_all_of compile (all_of p) attrs pe of
        (pe', Inl e) \<Rightarrow> (pe', Inl e)
      | (pe', Inr False) \<Rightarrow> (pe', Inr False)
      | (pe', Inr True) \<Rightarrow>
          if any_of p \<noteq> [] then eval_any_of compile (any_of p) attrs pe' else (pe', Inr True))"

section \<open>The evaluator of the models package\<close>

definition contains_ignore_case :: "string \<Rightarrow> string \<Rightarrow> bool" where
  "contains_ignore_case s sub = str_contains (to_lower s) (to_lower sub)"

definition match_regex :: "regex_compile \<Rightarrow> string \<Rightarrow> string \<Rightarrow> eval_error + bool" where
  "match_regex compile s p =
     (case compile p of None \<Rightarrow> Inl (InvalidRegex p) | Some re \<Rightarrow> Inr (re s))"

fun numeric_value :: "go_value \<Rightarrow> rat option" where
  "numeric_value (VInt i) = Some (of_int i)"
| "numeric_value (VInt64 i) = Some (of_int i)"
| "numeric_value (VFloat q) = Some q"
| "numeric_value (VFloat32 q) = Some q"
| "numeric_value (VNumber n) = n"
| "numeric_value _ = None"

definition compare_numeric :: "go_value \<Rightarrow> go_value \<Rightarrow> int" where
  "compare_numeric a b =
     (case (numeric_value a, numeric_value b) of
        (Some fa, Some fb) \<Rightarrow> (if fb < fa then 1 else if fa < fb then -1 else 0)
      | _ \<Rightarrow> 0)"

definition string_in_slice :: "string \<Rightarrow> string list \<Rightarrow> bool" where
  "string_in_slice s vs = list_ex (\<lambda>v. v = s) vs"

definition condition_match ::
  "regex_compile \<Rightarrow> condition \<Rightarrow> email_attributes \<Rightarrow> eval_error + bool" where
  "condition_match compile c attrs =
     (let a = attr_get attrs (cond_field c); b = cond_value c; oper = cond_op c
      in if oper = ''eq''
         then Inr (case (a, b) of (VStr s, VStr v) \<Rightarrow> equal_fold s v | _ \<Rightarrow> a = b)
         else if oper = ''ne''
         then Inr (case (a, b) of (VStr s, VStr v) \<Rightarrow> \<not> equal_fold s v | _ \<Rightarrow> a \<noteq> b)
         else if oper = ''contains''
         then Inr (case (a, b) of (VStr s, VStr v) \<Rightarrow> contains_ignore_case s v | _ \<Rightarrow> False)
         else if oper = ''regex''
         then (case (a, b) of (VStr s, VStr v) \<Rightarrow> match_regex compile s v | _ \<Rightarrow> Inr False)
         else if oper = ''gt'' then Inr (0 < compare_numeric a b)
         else if oper = ''lt'' then Inr (compare_numeric a b < 0)
         else if oper = ''in''
         then Inr (case (a, b) of (VStr s, VStrs vs) \<Rightarrow> string_in_slice s vs | _ \<Rightarrow> False)
         else if oper = ''not_in''
         then Inr (case (a, b) of (VStr s, VStrs vs) \<Rightarrow> \<not> string_in_slice s vs | _ \<Rightarrow> False)
         else Inr False)"

fun match_all_of ::
  "regex_compile \<Rightarrow> condition list \<Rightarrow> email_attributes \<Rightarrow> eval_error + bool" where
  "match_all_of compile [] attrs = Inr True"
| "match_all_of compile (c # cs) attrs =
     (case condition_match compile c attrs of
        Inl e \<Rightarrow> Inl e
      | Inr m \<Rightarrow> if m then match_all_of compile cs attrs else Inr False)"

fun match_any_of ::
  "regex_compile \<Rightarrow> condition list \<Rightarrow> email_attributes \<Rightarrow> eval_error + bool" where
  "match_any_of compile [] attrs = Inr False"
| "match_any_of compile (c # cs) attrs =
     (case condition_match compile c attrs of
        Inl e \<Rightarrow> Inl e
      | Inr m \<Rightarrow> if m then Inr True else match_any_of compile cs attrs)"

definition predicate_evaluate ::
  "regex_compile \<Rightarrow> rule_predicate \<Rightarrow> email_attributes \<Rightarrow> eval_error + bool" where
  "predicate_evaluate compile p attrs =
     (case match_all_of compile (all_of p) attrs of
        Inl e \<Rightarrow> Inl e
      | Inr False \<Rightarrow> Inr False
      | Inr True \<Rightarrow> if any_of p \<noteq> [] then match_any_of compile (any_of p) attrs else Inr True)"

section \<open>A source of compiled patterns\<close>

text \<open>
  What the evaluator needs from the cache: a lookup gives what compiling the pattern gives, and
  keeps the cache in order. Any run of lookups then answers like the compiler.
\<close>

locale pattern_source =
  fixes sane :: "'s \<Rightarrow> bool"
    and lookup :: "string \<Rightarrow> 's \<Rightarrow> 's \<times> matcher option"
    and comp :: "string \<Rightarrow> matcher option"
  assumes lookup_sane: "sane s \<Longrightarrow> sane (fst (lookup p s))"
    and lookup_compiles: "sane s \<Longrightarrow> snd (lookup p s) = comp p"
begin

primrec run_lookups :: "string list \<Rightarrow> 's \<Rightarrow> 's \<times> matcher option list" where
  "run_lookups [] s = (s, [])"
| "run_lookups (p # ps) s =
     (case lookup p s of (s', r) \<Rightarrow> (case run_lookups ps s' of (s'', rs) \<Rightarrow> (s'', r # rs)))"

lemma lookup_eq: "sane s \<Longrightarrow> lookup p s = (s', r) \<Longrightarrow> sane s' \<and> r = comp p"
  using lookup_sane lookup_compiles by (metis fst_conv snd_conv)

lemma run_lookups_eq:
  "sane s \<Longrightarrow> sane (fst (run_lookups ps s)) \<and> snd (run_lookups ps s) = map comp ps"
proof (induction ps arbitrary: s)
  case (Cons p ps)
  then show ?case
    using lookup_sane [of s p] lookup_compiles [of s p]
    by (simp add: split_def)
qed simp

end

text \<open>
  The cache invariant: the list holds each cached pattern once, within the capacity, and every
  cached matcher is the compiled pattern.
\<close>

definition cache_ok :: "regex_compile \<Rightarrow> predicate_evaluator \<Rightarrow> bool" where
  "cache_ok compile pe \<longleftrightarrow>
     distinct (lru_list pe) \<and> set (lru_list pe) = dom (regex_cache pe) \<and>
     length (lru_list pe) \<le> max_entries pe \<and> 0 < max_entries pe \<and>
     (\<forall>p re. regex_cache pe p = Some re \<longrightarrow> compile p = Some re)"

lemma insert_remove1: "p \<in> set ps \<Longrightarrow> insert p (set (remove1 p ps)) = set ps"
  by (induction ps) auto

lemma move_to_front_props [simp]:
  "set (move_to_front p ps) = set ps"
  "length (move_to_front p ps) = length ps"
  "distinct ps \<Longrightarrow> distinct (move_to_front p ps)"
proof -
  show "set (move_to_front p ps) = set ps"
    by (simp add: move_to_front_def insert_remove1)
  show "length (move_to_front p ps) = length ps"
    using length_pos_if_in_set [of p ps] by (simp add: move_to_front_def length_remove1)
  show "distinct ps \<Longrightarrow> distinct (move_to_front p ps)"
    by (auto simp: move_to_front_def)
qed

lemma butlast_facts:
  "xs \<noteq> [] \<Longrightarrow> distinct xs \<Longrightarrow> set (butlast xs) = set xs - {last xs}"
  by (induction xs rule: rev_induct) auto

lemma evict_oldest_ok:
  assumes "cache_ok compile pe"
  shows "cache_ok compile (evict_oldest pe) \<and> length (lru_list (evict_oldest pe)) < max_entries pe \<and>
    max_entries (evict_oldest pe) = max_entries pe \<and> dom (regex_cache (evict_oldest pe)) \<subseteq> dom (regex_cache pe)"
proof (cases "max_entries pe \<le> length (lru_list pe) \<and> lru_list pe \<noteq> []")
  case True
  then show ?thesis
    using assms butlast_facts [of "lru_list pe"]
    by (auto simp: evict_oldest_def cache_ok_def distinct_butlast split: if_splits)
next
  case False
  then show ?thesis using assms by (auto simp: evict_oldest_def cache_ok_def)
qed

lemma get_compiled_regex_ok:
  assumes "cache_ok compile pe"
  shows "cache_ok compile (fst (get_compiled_regex compile p pe)) \<and>
    snd (get_compiled_regex compile p pe) = compile p"
proof (cases "regex_cache pe p")
  case (Some re)
  then show ?thesis using assms by (auto simp: get_compiled_regex_def cache_ok_def)
next
  case None
  define pe1 where "pe1 = evict_oldest (pe\<lparr>cache_misses := cache_misses pe + 1\<rparr>)"
  have "cache_ok compile (pe\<lparr>cache_misses := cache_misses pe + 1\<rparr>)"
    using assms by (simp add: cache_ok_def)
  from evict_oldest_ok [OF this] have *: "cache_ok compile pe1" "length (lru_list pe1) < max_entries pe1"
    "regex_cache pe1 p = None"
    using None by (auto simp: pe1_def dom_def)
  then have "p \<notin> set (lru_list pe1)" by (auto simp: cache_ok_def)
  then show ?thesis
    using * None assms
    by (auto simp: get_compiled_regex_def cache_ok_def simp flip: pe1_def split: option.split)
qed

interpretation regex_cache: pattern_source "cache_ok compile" "get_compiled_regex compile" compile
  for compile
  by unfold_locales (simp_all add: get_compiled_regex_ok)

section \<open>Correctness of the evaluator\<close>

text \<open>The verdict on a condition, as a fresh evaluator gives it.\<close>

definition condition_verdict :: "regex_compile \<Rightarrow> email_attributes \<Rightarrow> condition \<Rightarrow> eval_error + bool" where
  "condition_verdict compile attrs c = snd (eval_condition compile c attrs new_predicate_evaluator)"

lemma new_evaluator_ok [simp]: "cache_ok compile new_predicate_evaluator"
  by (simp add: cache_ok_def new_predicate_evaluator_def)

lemma eval_regex_cached:
  assumes "cache_ok compile pe"
  shows "cache_ok compile (fst (eval_regex compile a b pe)) \<and>
    snd (eval_regex compile a b pe) = snd (eval_regex compile a b new_predicate_evaluator)"
  using assms regex_cache.lookup_sane [OF assms] regex_cache.lookup_compiles [OF assms]
    regex_cache.lookup_compiles [OF new_evaluator_ok [of compile]]
  by (auto simp: eval_regex_def split_def split: go_value.split option.split)

lemma eval_condition_cached:
  "cache_ok compile pe \<Longrightarrow>
   eval_condition compile c attrs pe = (pe', r) \<Longrightarrow> cache_ok compile pe' \<and> r = condition_verdict compile attrs c"
  using eval_regex_cached [of compile pe]
  by (auto simp: eval_condition_def condition_verdict_def Let_def split: if_splits)
    (metis fst_conv, metis snd_conv)

lemma eval_all_of_cached:
  "cache_ok compile pe \<Longrightarrow> eval_all_of compile cs attrs pe = (pe', r) \<Longrightarrow>
   cache_ok compile pe' \<and> (r = Inr True \<longleftrightarrow> (\<forall>c \<in> set cs. condition_verdict compile attrs c = Inr True))"
proof (induction compile cs attrs pe arbitrary: pe' r rule: eval_all_of.induct)
  case (2 compile c cs attrs pe)
  obtain pe1 v where v: "eval_condition compile c attrs pe = (pe1, v)" by fastforce
  note step = eval_condition_cached [OF 2(2) v]
  show ?case
    using 2(1) [OF v [symmetric]] 2(3) step v by (auto split: sum.splits bool.splits)
qed simp

lemma eval_any_of_cached:
  "cache_ok compile pe \<Longrightarrow> eval_any_of compile cs attrs pe = (pe', r) \<Longrightarrow>
   cache_ok compile pe' \<and>
   (r = Inr True \<longleftrightarrow>
      (\<exists>xs c ys. cs = xs @ c # ys \<and> (\<forall>x \<in> set xs. condition_verdict compile attrs x = Inr False) \<and>
         condition_verdict compile attrs c = Inr True))"
proof (induction compile cs attrs pe arbitrary: pe' r rule: eval_any_of.induct)
  case (2 compile c cs attrs pe)
  obtain pe1 v where v: "eval_condition compile c attrs pe = (pe1, v)" by fastforce
  note step = eval_condition_cached [OF 2(2) v]
  have split: "(\<exists>xs d ys. c # cs = xs @ d # ys \<and> (\<forall>x \<in> set xs. condition_verdict compile attrs x = Inr False) \<and>
       condition_verdict compile attrs d = Inr True) \<longleftrightarrow>
     condition_verdict compile attrs c = Inr True \<or>
     (condition_verdict compile attrs c = Inr False \<and>
      (\<exists>xs d ys. cs = xs @ d # ys \<and> (\<forall>x \<in> set xs. condition_verdict compile attrs x = Inr False) \<and>
       condition_verdict compile attrs d = Inr True))"
    (is "?l \<longleftrightarrow> ?r")
  proof
    assume ?l
    then obtain xs d ys where *: "c # cs = xs @ d # ys"
      "\<forall>x \<in> set xs. condition_verdict compile attrs x = Inr False"
      "condition_verdict compile attrs d = Inr True" by blast
    then show ?r by (cases xs) auto
  next
    assume ?r
    then show ?l
    proof
      assume "condition_verdict compile attrs c = Inr True"
      then show ?l by (intro exI [of _ "[]"]) auto
    next
      assume "condition_verdict compile attrs c = Inr False \<and>
        (\<exists>xs d ys. cs = xs @ d # ys \<and> (\<forall>x \<in> set xs. condition_verdict compile attrs x = Inr False) \<and>
         condition_verdict compile attrs d = Inr True)"
      then obtain xs d ys where "cs = xs @ d # ys" "condition_verdict compile attrs c = Inr False"
        "\<forall>x \<in> set xs. condition_verdict compile attrs x = Inr False"
        "condition_verdict compile attrs d = Inr True" by blast
      then show ?l by (intro exI [of _ "c # xs"] exI [of _ d] exI [of _ ys]) auto
    qed
  qed
  show ?case
    unfolding split
    using 2(1) [OF v [symmetric]] 2(3) step v by (auto split: sum.splits bool.splits)
qed simp

lemma evaluate_verdict:
  assumes "cache_ok compile pe" and "evaluate compile p attrs pe = (pe', r)"
  shows "cache_ok compile pe' \<and>
    (r = Inr True \<longleftrightarrow>
      (\<forall>c \<in> set (all_of p). condition_verdict compile attrs c = Inr True) \<and>
      (any_of p = [] \<or>
       (\<exists>xs c ys. any_of p = xs @ c # ys \<and>
          (\<forall>x \<in> set xs. condition_verdict compile attrs x = Inr False) \<and>
          condition_verdict compile attrs c = Inr True)))"
proof -
  obtain pe1 v where all: "eval_all_of compile (all_of p) attrs pe = (pe1, v)" by fastforce
  note step = eval_all_of_cached [OF assms(1) all]
  show ?thesis
  proof (cases "v = Inr True \<and> any_of p \<noteq> []")
    case True
    then have "eval_any_of compile (any_of p) attrs pe1 = (pe', r)"
      using assms(2) all by (simp add: evaluate_def)
    from eval_any_of_cached [OF conjunct1 [OF step] this] show ?thesis
      using True step by auto
  next
    case False
    then show ?thesis
      using assms(2) all step by (auto simp: evaluate_def split: sum.splits bool.splits)
  qed
qed

text \<open>
  C32: The meaning of a rule predicate. Whatever earlier evaluations have left in the cache, the
  engine's evaluator says yes exactly when every allOf condition holds and, if there are anyOf
  conditions, one of them holds and those before it are false (an error before it aborts), where
  holding is judged by a fresh evaluator. Evaluation keeps the cache in order.
\<close>

theorem evaluate_meaning:
  assumes "cache_ok compile pe" and "evaluate compile p attrs pe = (pe', r)"
  shows "cache_ok compile pe' \<and>
    (r = Inr True \<longleftrightarrow>
      (\<forall>c \<in> set (all_of p). condition_verdict compile attrs c = Inr True) \<and>
      (any_of p = [] \<or>
       (\<exists>xs c ys. any_of p = xs @ c # ys \<and>
          (\<forall>x \<in> set xs. condition_verdict compile attrs x = Inr False) \<and>
          condition_verdict compile attrs c = Inr True)))"
  using evaluate_verdict [OF assms] .

definition ex_compile :: regex_compile where
  "ex_compile p = (if p = ''('' then None else Some (\<lambda>s. str_contains s p))"

definition ex_attrs :: email_attributes where
  "ex_attrs = \<lparr>at_sender_email = ''Ann@Example.com'', at_sender_domain = ''example.com'',
     at_subject = ''Invoice 17'', at_body = ''please pay'', at_recipient = ''me@x.org'',
     at_has_attachment = True, at_thread_participant_count = 3, at_time_of_day = 9, at_day_of_week = 1\<rparr>"

definition ex_predicate :: rule_predicate where
  "ex_predicate =
     \<lparr>all_of = [\<lparr>cond_field = ''sender_email'', cond_op = ''eq'', cond_value = VStr ''ann@example.COM''\<rparr>],
      any_of = [\<lparr>cond_field = ''body'', cond_op = ''contains'', cond_value = VStr ''refund''\<rparr>,
                \<lparr>cond_field = ''subject'', cond_op = ''regex'', cond_value = VStr ''17''\<rparr>]\<rparr>"

lemmas ex_predicate_defs = ex_compile_def ex_attrs_def ex_predicate_def

lemmas evaluator_defs =
  evaluate_def eval_condition_def eval_eq_def eval_contains_def eval_regex_def
  get_compiled_regex_def evict_oldest_def new_predicate_evaluator_def attr_get_def
  to_lower_def lower_char_def equal_fold_def char_of_def bit_0

theorem evaluate_meaning_witness:
  "condition_verdict ex_compile ex_attrs (any_of ex_predicate ! 1) = Inr True \<and>
   condition_verdict ex_compile ex_attrs (any_of ex_predicate ! 0) = Inr False \<and>
   snd (evaluate ex_compile ex_predicate ex_attrs new_predicate_evaluator) = Inr True"
proof -
  obtain pe' r where run: "evaluate ex_compile ex_predicate ex_attrs new_predicate_evaluator = (pe', r)"
    by fastforce
  have v: "condition_verdict ex_compile ex_attrs (all_of ex_predicate ! 0) = Inr True"
    "condition_verdict ex_compile ex_attrs (any_of ex_predicate ! 0) = Inr False"
    "condition_verdict ex_compile ex_attrs (any_of ex_predicate ! 1) = Inr True"
    by (simp_all add: condition_verdict_def ex_predicate_defs evaluator_defs Let_def)
  have "any_of ex_predicate = [any_of ex_predicate ! 0] @ any_of ex_predicate ! 1 # []"
    "all_of ex_predicate = [all_of ex_predicate ! 0]"
    by (simp_all add: ex_predicate_def)
  then have "r = Inr True"
    using evaluate_meaning [OF new_evaluator_ok run] v
    by (metis append_Nil empty_iff empty_set list.set_intros(1) set_ConsD)
  then show ?thesis using run v by simp
qed

text \<open>
  The cache is bounded and transparent. From a new evaluator, any run of pattern lookups
  answers each of them as compiling the pattern would, never holds more than 100 patterns, and
  its map and its recency list always hold the same patterns, each once.
\<close>

lemma pattern_cache_bounded_and_transparent:
  "(let (pe, answers) = regex_cache.run_lookups compile ps new_predicate_evaluator
    in answers = map compile ps \<and> cache_size pe \<le> 100 \<and> distinct (lru_list pe) \<and>
       set (lru_list pe) = dom (regex_cache pe))"
proof -
  have "max_entries (fst (get_compiled_regex compile p pe)) = max_entries pe" for p pe
    by (auto simp: get_compiled_regex_def evict_oldest_def Let_def split: option.split)
  then have max: "max_entries (fst (regex_cache.run_lookups compile ps pe)) = max_entries pe" for pe
    by (induction ps arbitrary: pe) (auto simp: split_def)
  have "cache_ok compile (fst (regex_cache.run_lookups compile ps new_predicate_evaluator)) \<and>
    snd (regex_cache.run_lookups compile ps new_predicate_evaluator) = map compile ps"
    by (rule regex_cache.run_lookups_eq) simp
  then show ?thesis
    using max [of new_predicate_evaluator]
    by (auto simp: cache_ok_def cache_size_def split_def)
      (simp add: new_predicate_evaluator_def)
qed

text \<open>
  Numbers in stored rules never compare equal. Rules are decoded from JSON, where a number
  is a float64, while the numeric attributes are ints; the equality of the two dynamic types is
  false. So an eq condition on participant count, hour or weekday with a JSON number never
  holds and an ne condition always does, in both evaluators.
\<close>

lemma json_number_equality_is_dead:
  assumes "f \<in> {''thread_participant_count'', ''time_of_day'', ''day_of_week''}"
  shows "condition_verdict compile attrs \<lparr>cond_field = f, cond_op = ''eq'', cond_value = VFloat q\<rparr> = Inr False \<and>
    condition_verdict compile attrs \<lparr>cond_field = f, cond_op = ''ne'', cond_value = VFloat q\<rparr> = Inr True \<and>
    condition_match compile \<lparr>cond_field = f, cond_op = ''eq'', cond_value = VFloat q\<rparr> attrs = Inr False \<and>
    condition_match compile \<lparr>cond_field = f, cond_op = ''ne'', cond_value = VFloat q\<rparr> attrs = Inr True"
  using assms
  by (auto simp: condition_verdict_def eval_condition_def condition_match_def attr_get_def eval_eq_def)

theorem json_number_equality_is_dead_witness:
  "condition_verdict ex_compile ex_attrs
     \<lparr>cond_field = ''thread_participant_count'', cond_op = ''eq'', cond_value = VFloat 3\<rparr> = Inr False \<and>
   at_thread_participant_count ex_attrs = 3"
  using json_number_equality_is_dead [of "''thread_participant_count''" ex_compile ex_attrs 3]
  by (simp add: ex_attrs_def)

section \<open>The two evaluators\<close>

definition string_fields :: "string list" where
  "string_fields = [''sender_email'', ''sender_domain'', ''subject'', ''body'', ''recipient'']"

definition string_condition :: "condition \<Rightarrow> bool" where
  "string_condition c \<longleftrightarrow>
     cond_field c \<in> set string_fields \<and>
     cond_op c \<in> {''eq'', ''ne'', ''contains'', ''regex''} \<and>
     (case cond_value c of VStr _ \<Rightarrow> True | _ \<Rightarrow> False)"

lemma string_fieldE:
  assumes "f \<in> set string_fields"
  obtains s where "attr_get attrs f = VStr s"
  using assms by (auto simp: string_fields_def attr_get_def)

lemma string_condition_agrees:
  assumes "string_condition c"
  shows "condition_verdict compile attrs c = condition_match compile c attrs"
proof -
  obtain s where s: "attr_get attrs (cond_field c) = VStr s"
    using assms string_fieldE unfolding string_condition_def by blast
  obtain v where v: "cond_value c = VStr v"
    using assms by (auto simp: string_condition_def split: go_value.splits)
  have "snd (get_compiled_regex compile v new_predicate_evaluator) = compile v"
    by (rule regex_cache.lookup_compiles) simp
  then show ?thesis
    using assms s v
    by (auto simp: string_condition_def condition_verdict_def eval_condition_def eval_eq_def
        eval_contains_def eval_regex_def condition_match_def contains_ignore_case_def
        match_regex_def split_def split: option.split)
qed

lemma eval_all_of_agrees:
  "cache_ok compile pe \<Longrightarrow> list_all string_condition cs \<Longrightarrow>
   snd (eval_all_of compile cs attrs pe) = match_all_of compile cs attrs"
proof (induction compile cs attrs pe rule: eval_all_of.induct)
  case (2 compile c cs attrs pe)
  obtain pe1 v where v: "eval_condition compile c attrs pe = (pe1, v)" by fastforce
  note step = eval_condition_cached [OF 2(2) v]
  show ?case
    using 2(1) [OF v [symmetric]] 2(3) step v string_condition_agrees [of c compile attrs]
    by (auto split: sum.splits bool.splits)
qed simp

lemma eval_any_of_agrees:
  "cache_ok compile pe \<Longrightarrow> list_all string_condition cs \<Longrightarrow>
   snd (eval_any_of compile cs attrs pe) = match_any_of compile cs attrs"
proof (induction compile cs attrs pe rule: eval_any_of.induct)
  case (2 compile c cs attrs pe)
  obtain pe1 v where v: "eval_condition compile c attrs pe = (pe1, v)" by fastforce
  note step = eval_condition_cached [OF 2(2) v]
  show ?case
    using 2(1) [OF v [symmetric]] 2(3) step v string_condition_agrees [of c compile attrs]
    by (auto split: sum.splits bool.splits)
qed simp

text \<open>
  The two evaluators agree on text conditions. On predicates whose conditions compare the
  text attributes with strings by eq, ne, contains or regex, the cached evaluator of the engine
  and the evaluator of the models package give the same verdict and the same error.
\<close>

lemma evaluators_agree_on_text:
  assumes "cache_ok compile pe" and "list_all string_condition (all_of p @ any_of p)"
  shows "snd (evaluate compile p attrs pe) = predicate_evaluate compile p attrs"
proof -
  obtain pe1 v where all: "eval_all_of compile (all_of p) attrs pe = (pe1, v)" by fastforce
  have "cache_ok compile pe1" using eval_all_of_cached [OF assms(1) all] by simp
  moreover have "v = match_all_of compile (all_of p) attrs"
    using eval_all_of_agrees [OF assms(1), of "all_of p" attrs] assms(2) all by simp
  ultimately show ?thesis
    using eval_any_of_agrees [of compile pe1 "any_of p" attrs] assms(2) all
    by (auto simp: evaluate_def predicate_evaluate_def split: sum.split bool.split)
qed

theorem evaluators_agree_on_text_witness:
  "predicate_evaluate ex_compile ex_predicate ex_attrs =
     snd (evaluate ex_compile ex_predicate ex_attrs new_predicate_evaluator)"
proof -
  have "list_all string_condition (all_of ex_predicate @ any_of ex_predicate)"
    by (simp add: ex_predicate_def string_condition_def string_fields_def)
  from evaluators_agree_on_text [OF new_evaluator_ok this] show ?thesis by simp
qed

end
