(* ===== verification/Rule_Store.thy ===== *)
theory Rule_Store
  imports Tables Rule_Predicate "HOL-Library.Product_Lexorder"
begin

text \<open>
  Auto-handle rules and everything that changes them: the \<open>RuleStore\<close> and the cached store of
  \<open>src/classification/internal/auto/\<close> (\<open>store.go\<close>, \<open>loader.go\<close>), the store and HTTP handlers of
  \<open>src/classification/internal/rules/\<close>, and the staging life cycle of
  \<open>src/classification/internal/staging/\<close> (activator, cron tick, revoker). The rule table is a list
  of rows; each statement has a fault flag. Columns no modelled code reads (\<open>updated_at\<close>,
  \<open>last_used_at\<close>) are left out.
\<close>

section \<open>Rules\<close>

record auto_rule =
  ar_id :: uuid
  ar_user :: uuid
  ar_name :: string
  ar_predicate :: rule_predicate
  ar_action :: string
  ar_config :: string
  ar_threshold :: rat
  ar_status :: string
  ar_staged_at :: "instant option"
  ar_activated_at :: "instant option"
  ar_revoked_at :: "instant option"
  ar_usage :: int
  ar_created_at :: instant

type_synonym rule_table = "auto_rule list"

datatype rule_error =
    RuleDb
  | DuplicateRule string
  | RuleNotFound uuid
  | BadStatus string
  | RuleNotStaged uuid
  | RuleAlreadyRevoked uuid
  | RuleStillStaged uuid
  | RuleUnexpectedStatus uuid string

datatype insert_outcome = InsertOk | InsertUniqueViolation | InsertFailed

section \<open>The store of the auto package\<close>

definition rule_create ::
  "insert_outcome \<Rightarrow> uuid \<Rightarrow> instant \<Rightarrow> auto_rule \<Rightarrow> rule_table \<Rightarrow> rule_table \<times> (rule_error + auto_rule)" where
  "rule_create outcome fresh now r0 t =
     (let r1 = (if ar_id r0 = uuid_nil then r0\<lparr>ar_id := fresh\<rparr> else r0);
          r2 = (if ar_status r1 = [] then r1\<lparr>ar_status := ''staged''\<rparr> else r1);
          r3 = (if ar_threshold r2 = 0 then r2\<lparr>ar_threshold := 92/100\<rparr> else r2);
          r = r3\<lparr>ar_created_at := now\<rparr>
      in (case outcome of
            InsertOk \<Rightarrow> (t @ [r], Inr r)
          | InsertUniqueViolation \<Rightarrow> (t, Inl (DuplicateRule (ar_name r)))
          | InsertFailed \<Rightarrow> (t, Inl RuleDb)))"

definition rule_get_by_id :: "bool \<Rightarrow> uuid \<Rightarrow> rule_table \<Rightarrow> rule_error + auto_rule" where
  "rule_get_by_id fault rid t =
     (if fault then Inl RuleDb
      else (case List.find (\<lambda>r. ar_id r = rid) t of None \<Rightarrow> Inl (RuleNotFound rid) | Some r \<Rightarrow> Inr r))"

definition by_usage :: "rule_table \<Rightarrow> rule_table" where
  "by_usage t = sort_key (\<lambda>r. (- ar_usage r, - ar_created_at r)) t"

definition rule_get_by_user :: "bool \<Rightarrow> uuid \<Rightarrow> rule_table \<Rightarrow> rule_error + auto_rule list" where
  "rule_get_by_user fault user t =
     (if fault then Inl RuleDb else Inr (by_usage (filter (\<lambda>r. ar_user r = user) t)))"

definition rule_get_active :: "bool \<Rightarrow> uuid \<Rightarrow> rule_table \<Rightarrow> rule_error + auto_rule list" where
  "rule_get_active fault user t =
     (if fault then Inl RuleDb
      else Inr (by_usage (filter (\<lambda>r. ar_user r = user \<and> ar_status r = ''active'') t)))"

definition rule_update :: "bool \<Rightarrow> auto_rule \<Rightarrow> rule_table \<Rightarrow> rule_table \<times> rule_error option" where
  "rule_update fault n t =
     (if fault then (t, Some RuleDb)
      else if rows_matching (\<lambda>r. ar_id r = ar_id n) t = 0 then (t, Some (RuleNotFound (ar_id n)))
      else (update_rows (\<lambda>r. ar_id r = ar_id n)
              (\<lambda>r. r\<lparr>ar_name := ar_name n, ar_predicate := ar_predicate n, ar_action := ar_action n,
                     ar_config := ar_config n, ar_threshold := ar_threshold n\<rparr>) t, None))"

definition rule_update_status ::
  "bool \<Rightarrow> instant \<Rightarrow> uuid \<Rightarrow> string \<Rightarrow> rule_table \<Rightarrow> rule_table \<times> rule_error option" where
  "rule_update_status fault now rid status t =
     (if status \<notin> {''staged'', ''active'', ''revoked''} then (t, Some (BadStatus status))
      else if fault then (t, Some RuleDb)
      else if rows_matching (\<lambda>r. ar_id r = rid) t = 0 then (t, Some (RuleNotFound rid))
      else (update_rows (\<lambda>r. ar_id r = rid)
              (\<lambda>r. r\<lparr>ar_status := status,
                     ar_staged_at := (if status = ''staged'' then Some now else None),
                     ar_activated_at := (if status = ''active'' then Some now else None),
                     ar_revoked_at := (if status = ''revoked'' then Some now else None)\<rparr>) t, None))"

definition rule_delete :: "bool \<Rightarrow> uuid \<Rightarrow> rule_table \<Rightarrow> rule_table \<times> rule_error option" where
  "rule_delete fault rid t =
     (if fault then (t, Some RuleDb)
      else if rows_matching (\<lambda>r. ar_id r = rid) t = 0 then (t, Some (RuleNotFound rid))
      else (filter (\<lambda>r. ar_id r \<noteq> rid) t, None))"

definition rule_increment_usage :: "bool \<Rightarrow> uuid \<Rightarrow> rule_table \<Rightarrow> rule_table \<times> rule_error option" where
  "rule_increment_usage fault rid t =
     (if fault then (t, Some RuleDb)
      else (update_rows (\<lambda>r. ar_id r = rid) (\<lambda>r. r\<lparr>ar_usage := ar_usage r + 1\<rparr>) t, None))"

section \<open>The per-user cache of active rules\<close>

record cache_entry =
  ce_rules :: "auto_rule list"
  ce_expires :: instant

record rule_cache =
  rc_entries :: "uuid \<rightharpoonup> cache_entry"
  rc_ttl :: duration

definition new_rule_cache :: "duration \<Rightarrow> rule_cache" where
  "new_rule_cache ttl = \<lparr>rc_entries = Map.empty, rc_ttl = ttl\<rparr>"

definition cache_get :: "instant \<Rightarrow> uuid \<Rightarrow> rule_cache \<Rightarrow> rule_cache \<times> auto_rule list option" where
  "cache_get now user c =
     (case rc_entries c user of
        None \<Rightarrow> (c, None)
      | Some e \<Rightarrow>
          if ce_expires e < now then (c\<lparr>rc_entries := (rc_entries c)(user := None)\<rparr>, None)
          else (c, Some (ce_rules e)))"

definition cache_set :: "instant \<Rightarrow> uuid \<Rightarrow> auto_rule list \<Rightarrow> rule_cache \<Rightarrow> rule_cache" where
  "cache_set now user rs c =
     c\<lparr>rc_entries := (rc_entries c)(user \<mapsto> \<lparr>ce_rules = rs, ce_expires = now + rc_ttl c\<rparr>)\<rparr>"

definition cache_invalidate_user :: "uuid \<Rightarrow> rule_cache \<Rightarrow> rule_cache" where
  "cache_invalidate_user user c = c\<lparr>rc_entries := (rc_entries c)(user := None)\<rparr>"

definition cache_invalidate_all :: "rule_cache \<Rightarrow> rule_cache" where
  "cache_invalidate_all c = c\<lparr>rc_entries := Map.empty\<rparr>"

record cached_store =
  cs_table :: rule_table
  cs_cache :: rule_cache

definition new_cached_store :: "rule_table \<Rightarrow> cached_store" where
  "new_cached_store t = \<lparr>cs_table = t, cs_cache = new_rule_cache (5 * minute_ns)\<rparr>"

definition cs_get_active ::
  "bool \<Rightarrow> instant \<Rightarrow> uuid \<Rightarrow> cached_store \<Rightarrow> cached_store \<times> (rule_error + auto_rule list)" where
  "cs_get_active fault now user s =
     (case cache_get now user (cs_cache s) of
        (c, Some rs) \<Rightarrow> (s\<lparr>cs_cache := c\<rparr>, Inr rs)
      | (c, None) \<Rightarrow>
          (case rule_get_active fault user (cs_table s) of
             Inl e \<Rightarrow> (s\<lparr>cs_cache := c\<rparr>, Inl e)
           | Inr rs \<Rightarrow> (s\<lparr>cs_cache := cache_set now user rs c\<rparr>, Inr rs)))"

text \<open>
  The writes look the rule up, write, and drop the cache entry of the user they found.
  \<open>with_owner\<close> is that common frame.
\<close>

definition with_owner ::
  "bool \<Rightarrow> uuid \<Rightarrow> (rule_table \<Rightarrow> rule_table \<times> rule_error option) \<Rightarrow> cached_store
     \<Rightarrow> cached_store \<times> rule_error option" where
  "with_owner get_fault rid write s =
     (case rule_get_by_id get_fault rid (cs_table s) of
        Inl e \<Rightarrow> (s, Some e)
      | Inr r \<Rightarrow>
          (case write (cs_table s) of
             (t, Some e) \<Rightarrow> (s\<lparr>cs_table := t\<rparr>, Some e)
           | (t, None) \<Rightarrow>
               (s\<lparr>cs_table := t, cs_cache := cache_invalidate_user (ar_user r) (cs_cache s)\<rparr>, None)))"

definition cs_increment_usage ::
  "bool \<Rightarrow> bool \<Rightarrow> uuid \<Rightarrow> cached_store \<Rightarrow> cached_store \<times> rule_error option" where
  "cs_increment_usage get_fault fault rid s = with_owner get_fault rid (rule_increment_usage fault rid) s"

definition cs_update_status ::
  "bool \<Rightarrow> bool \<Rightarrow> instant \<Rightarrow> uuid \<Rightarrow> string \<Rightarrow> cached_store \<Rightarrow> cached_store \<times> rule_error option" where
  "cs_update_status get_fault fault now rid status s =
     with_owner get_fault rid (rule_update_status fault now rid status) s"

definition cs_delete ::
  "bool \<Rightarrow> bool \<Rightarrow> uuid \<Rightarrow> cached_store \<Rightarrow> cached_store \<times> rule_error option" where
  "cs_delete get_fault fault rid s = with_owner get_fault rid (rule_delete fault rid) s"

definition cs_create ::
  "insert_outcome \<Rightarrow> uuid \<Rightarrow> instant \<Rightarrow> auto_rule \<Rightarrow> cached_store
     \<Rightarrow> cached_store \<times> (rule_error + auto_rule)" where
  "cs_create outcome fresh now r s =
     (case rule_create outcome fresh now r (cs_table s) of
        (t, Inl e) \<Rightarrow> (s\<lparr>cs_table := t\<rparr>, Inl e)
      | (t, Inr r') \<Rightarrow>
          (s\<lparr>cs_table := t, cs_cache := cache_invalidate_user (ar_user r') (cs_cache s)\<rparr>, Inr r'))"

definition cs_update :: "bool \<Rightarrow> auto_rule \<Rightarrow> cached_store \<Rightarrow> cached_store \<times> rule_error option" where
  "cs_update fault n s =
     (case rule_update fault n (cs_table s) of
        (t, Some e) \<Rightarrow> (s\<lparr>cs_table := t\<rparr>, Some e)
      | (t, None) \<Rightarrow>
          (s\<lparr>cs_table := t, cs_cache := cache_invalidate_user (ar_user n) (cs_cache s)\<rparr>, None))"

end
