(* ===== verification/Rule_Lifecycle.thy ===== *)
theory Rule_Lifecycle
  imports Rule_Store
begin

text \<open>
  The life of an auto-handle rule. First the second store and the HTTP handlers of
  \<open>src/classification/internal/rules/\<close>, then the staging package: activation
  (\<open>activator.go\<close>), the cron tick (\<open>cron.go\<close>), revocation (\<open>revoker.go\<close>) and the cards the
  notifier publishes. The step relation \<open>staging_step\<close> is the staging package together with the
  creation of rules and the usage counter; it is proved one-way and never early.
\<close>

section \<open>The store and handlers of the rules package\<close>

definition newest_first :: "rule_table \<Rightarrow> rule_table" where
  "newest_first t = sort_key (\<lambda>r. - ar_created_at r) t"

definition rs_list_active :: "bool \<Rightarrow> uuid \<Rightarrow> rule_table \<Rightarrow> rule_error + auto_rule list" where
  "rs_list_active fault user t =
     (if fault then Inl RuleDb
      else Inr (newest_first (filter (\<lambda>r. ar_user r = user \<and> ar_status r = ''active'') t)))"

definition rs_get_by_id :: "bool \<Rightarrow> uuid \<Rightarrow> rule_table \<Rightarrow> rule_error + auto_rule" where
  "rs_get_by_id fault rid t =
     (if fault then Inl RuleDb
      else (case List.find (\<lambda>r. ar_id r = rid) t of None \<Rightarrow> Inl (RuleNotFound rid) | Some r \<Rightarrow> Inr r))"

definition rs_list_by_user ::
  "bool \<Rightarrow> uuid \<Rightarrow> string \<Rightarrow> nat \<Rightarrow> nat \<Rightarrow> rule_table \<Rightarrow> rule_error + auto_rule list" where
  "rs_list_by_user fault user status limit offset t =
     (if fault then Inl RuleDb
      else Inr (take limit (drop offset (newest_first
             (filter (\<lambda>r. ar_user r = user \<and> (status = [] \<or> ar_status r = status)) t)))))"

definition rs_create ::
  "bool \<Rightarrow> uuid \<Rightarrow> instant \<Rightarrow> uuid \<Rightarrow> string \<Rightarrow> rule_predicate \<Rightarrow> string \<Rightarrow> string \<Rightarrow> rat
     \<Rightarrow> rule_table \<Rightarrow> rule_table \<times> (rule_error + auto_rule)" where
  "rs_create fault fresh now user name predicate action config threshold t =
     (let r = \<lparr>ar_id = fresh, ar_user = user, ar_name = name, ar_predicate = predicate,
               ar_action = action, ar_config = config, ar_threshold = threshold,
               ar_status = ''staged'', ar_staged_at = Some now, ar_activated_at = None,
               ar_revoked_at = None, ar_usage = 0, ar_created_at = now\<rparr>
      in if fault then (t, Inl RuleDb) else (t @ [r], Inr r))"

definition rs_activate :: "bool \<Rightarrow> instant \<Rightarrow> uuid \<Rightarrow> rule_table \<Rightarrow> rule_table \<times> rule_error option" where
  "rs_activate fault now rid t =
     (let p = (\<lambda>r. ar_id r = rid \<and> ar_status r = ''staged'')
      in if fault then (t, Some RuleDb)
         else if rows_matching p t = 0 then (t, Some (RuleNotStaged rid))
         else (update_rows p (\<lambda>r. r\<lparr>ar_status := ''active'', ar_activated_at := Some now\<rparr>) t, None))"

definition rs_revoke :: "bool \<Rightarrow> instant \<Rightarrow> uuid \<Rightarrow> rule_table \<Rightarrow> rule_table \<times> rule_error option" where
  "rs_revoke fault now rid t =
     (let p = (\<lambda>r. ar_id r = rid \<and> (ar_status r = ''staged'' \<or> ar_status r = ''active''))
      in if fault then (t, Some RuleDb)
         else if rows_matching p t = 0 then (t, Some (RuleAlreadyRevoked rid))
         else (update_rows p (\<lambda>r. r\<lparr>ar_status := ''revoked'', ar_revoked_at := Some now\<rparr>) t, None))"

definition rs_increment_usage :: "bool \<Rightarrow> uuid \<Rightarrow> rule_table \<Rightarrow> rule_table \<times> rule_error option" where
  "rs_increment_usage fault rid t =
     (if fault then (t, Some RuleDb)
      else (update_rows (\<lambda>r. ar_id r = rid) (\<lambda>r. r\<lparr>ar_usage := ar_usage r + 1\<rparr>) t, None))"

text \<open>
  The handlers, after the path and query have been parsed (\<open>None\<close>: the identifier does not parse,
  and for numbers \<open>Atoi\<close>'s zero on failure). A reply is a status code with what it carries.
\<close>

datatype 'a rule_reply =
    Reply nat 'a
  | ErrorReply nat string

definition list_limit :: "int \<Rightarrow> nat" where
  "list_limit limit = (if limit \<le> 0 \<or> 100 < limit then 20 else nat limit)"

definition list_offset :: "int \<Rightarrow> nat" where
  "list_offset offset = (if offset < 0 then 0 else nat offset)"

definition handle_list_rules ::
  "bool \<Rightarrow> uuid option \<Rightarrow> string \<Rightarrow> int \<Rightarrow> int \<Rightarrow> rule_table \<Rightarrow> auto_rule list rule_reply" where
  "handle_list_rules fault user status limit offset t =
     (case user of
        None \<Rightarrow> ErrorReply 400 ''invalid user_id''
      | Some u \<Rightarrow>
          (case rs_list_by_user fault u status (list_limit limit) (list_offset offset) t of
             Inl _ \<Rightarrow> ErrorReply 500 ''failed to list rules''
           | Inr rs \<Rightarrow> Reply 200 rs))"

definition handle_get_rule :: "bool \<Rightarrow> uuid option \<Rightarrow> rule_table \<Rightarrow> auto_rule rule_reply" where
  "handle_get_rule fault rid t =
     (case rid of
        None \<Rightarrow> ErrorReply 400 ''invalid rule_id''
      | Some i \<Rightarrow>
          (case rs_get_by_id fault i t of
             Inl _ \<Rightarrow> ErrorReply 404 ''rule not found''
           | Inr r \<Rightarrow> Reply 200 r))"

record create_request =
  cr_name :: string
  cr_predicate :: rule_predicate
  cr_action :: string
  cr_config :: string
  cr_threshold :: rat

definition handle_create_rule ::
  "bool \<Rightarrow> uuid \<Rightarrow> instant \<Rightarrow> uuid option \<Rightarrow> create_request option \<Rightarrow> rule_table
     \<Rightarrow> rule_table \<times> auto_rule rule_reply" where
  "handle_create_rule fault fresh now user body t =
     (case user of
        None \<Rightarrow> (t, ErrorReply 400 ''invalid user_id'')
      | Some u \<Rightarrow>
         (case body of
            None \<Rightarrow> (t, ErrorReply 400 ''invalid request body'')
          | Some req \<Rightarrow>
             if cr_name req = [] then (t, ErrorReply 400 ''name is required'')
             else if cr_action req = [] then (t, ErrorReply 400 ''action_type is required'')
             else
              (let threshold = (if cr_threshold req = 0 then 92/100 else cr_threshold req)
               in if threshold < 92/100
                  then (t, ErrorReply 400 ''confidence_threshold below hard floor of 0.92'')
                  else (case rs_create fault fresh now u (cr_name req) (cr_predicate req) (cr_action req)
                                (cr_config req) threshold t of
                          (t', Inl _) \<Rightarrow> (t', ErrorReply 500 ''failed to create rule'')
                        | (t', Inr r) \<Rightarrow> (t', Reply 201 r)))))"

definition handle_activate_rule ::
  "bool \<Rightarrow> instant \<Rightarrow> uuid option \<Rightarrow> rule_table \<Rightarrow> rule_table \<times> string rule_reply" where
  "handle_activate_rule fault now rid t =
     (case rid of
        None \<Rightarrow> (t, ErrorReply 400 ''invalid rule_id'')
      | Some i \<Rightarrow>
          (case rs_activate fault now i t of
             (t', Some _) \<Rightarrow> (t', ErrorReply 400 ''activate failed'')
           | (t', None) \<Rightarrow> (t', Reply 200 ''activated'')))"

definition handle_revoke_rule ::
  "bool \<Rightarrow> instant \<Rightarrow> uuid option \<Rightarrow> rule_table \<Rightarrow> rule_table \<times> string rule_reply" where
  "handle_revoke_rule fault now rid t =
     (case rid of
        None \<Rightarrow> (t, ErrorReply 400 ''invalid rule_id'')
      | Some i \<Rightarrow>
          (case rs_revoke fault now i t of
             (t', Some _) \<Rightarrow> (t', ErrorReply 400 ''revoke failed'')
           | (t', None) \<Rightarrow> (t', Reply 200 ''revoked'')))"

section \<open>The staging package\<close>

abbreviation (input) staging_window :: duration where
  "staging_window \<equiv> 48 * hour_ns"

datatype card_kind = StagedCard | ActivatedCard | RevokedCard

text \<open>A notification card: its kind, the user and the rule name its text quotes.\<close>

record rule_card =
  rc_kind :: card_kind
  rc_user :: uuid
  rc_rule_name :: string

definition notify :: "bool \<Rightarrow> card_kind \<Rightarrow> uuid \<Rightarrow> string \<Rightarrow> rule_card list" where
  "notify published kind user name =
     (if published then [\<lparr>rc_kind = kind, rc_user = user, rc_rule_name = name\<rparr>] else [])"

text \<open>\<open>ActivatePanics\<close>: \<open>*rule.StagedAt\<close> of a rule without a staging time, after the update.\<close>

datatype activate_result = Activated | ActivateError rule_error | ActivatePanics

definition activate ::
  "bool \<Rightarrow> bool \<Rightarrow> instant \<Rightarrow> auto_rule \<Rightarrow> rule_table
     \<Rightarrow> rule_table \<times> rule_card list \<times> activate_result" where
  "activate fault published now r t =
     (let p = (\<lambda>x. ar_id x = ar_id r \<and> ar_status x = ''staged'')
      in if fault then (t, [], ActivateError RuleDb)
         else if rows_matching p t = 0 then (t, [], ActivateError (RuleNotStaged (ar_id r)))
         else (let t' = update_rows p (\<lambda>x. x\<lparr>ar_status := ''active'', ar_activated_at := Some now\<rparr>) t
               in case ar_staged_at r of
                    None \<Rightarrow> (t', [], ActivatePanics)
                  | Some _ \<Rightarrow> (t', notify published ActivatedCard (ar_user r) (ar_name r), Activated)))"

text \<open>
  What happens around each activation of a batch: the database fault, whether the card is
  published, the database clock. A panic ends the batch (and the process).
\<close>

record activation_env =
  ae_fault :: bool
  ae_published :: bool
  ae_now :: instant

fun bulk_activate ::
  "(nat \<Rightarrow> activation_env) \<Rightarrow> nat \<Rightarrow> auto_rule list \<Rightarrow> rule_table \<Rightarrow> nat \<times> nat
     \<Rightarrow> rule_table \<times> nat \<times> nat" where
  "bulk_activate env i [] t (act, failed) = (t, act, failed)"
| "bulk_activate env i (r # rs) t (act, failed) =
     (case activate (ae_fault (env i)) (ae_published (env i)) (ae_now (env i)) r t of
        (t', _, Activated) \<Rightarrow> bulk_activate env (Suc i) rs t' (act + 1, failed)
      | (t', _, ActivateError _) \<Rightarrow> bulk_activate env (Suc i) rs t' (act, failed + 1)
      | (t', _, ActivatePanics) \<Rightarrow> (t', act, failed))"

text \<open>
  \<open>tick\<close>: the rules staged for more than 48 hours, oldest first, at most 100; rows that do not
  decode are skipped.
\<close>

definition expired_staged :: "instant \<Rightarrow> rule_table \<Rightarrow> auto_rule list" where
  "expired_staged now t =
     take 100 (sort_key (\<lambda>r. the (ar_staged_at r))
       (filter (\<lambda>r. ar_status r = ''staged'' \<and>
                    (case ar_staged_at r of None \<Rightarrow> False | Some s \<Rightarrow> s < now - staging_window)) t))"

definition tick ::
  "bool \<Rightarrow> (auto_rule \<Rightarrow> bool) \<Rightarrow> (nat \<Rightarrow> activation_env) \<Rightarrow> instant \<Rightarrow> rule_table
     \<Rightarrow> rule_table \<times> rule_error option" where
  "tick fault readable env now t =
     (if fault then (t, Some RuleDb)
      else (case bulk_activate env 0 (filter readable (expired_staged now t)) t (0, 0) of
              (t', _, _) \<Rightarrow> (t', None)))"

definition revoke ::
  "bool \<Rightarrow> bool \<Rightarrow> bool \<Rightarrow> instant \<Rightarrow> uuid \<Rightarrow> rule_table
     \<Rightarrow> rule_table \<times> rule_card list \<times> rule_error option" where
  "revoke fault fetch_fault published now rid t =
     (let p = (\<lambda>x. ar_id x = rid \<and> ar_status x = ''active'')
      in if fault then (t, [], Some RuleDb)
         else if rows_matching p t = 0
         then (t, [],
               Some (if fetch_fault then RuleDb
                     else (case List.find (\<lambda>x. ar_id x = rid) t of
                             None \<Rightarrow> RuleNotFound rid
                           | Some x \<Rightarrow>
                               if ar_status x = ''revoked'' then RuleAlreadyRevoked rid
                               else if ar_status x = ''staged'' then RuleStillStaged rid
                               else RuleUnexpectedStatus rid (ar_status x))))
         else (let t' = update_rows p (\<lambda>x. x\<lparr>ar_status := ''revoked'', ar_revoked_at := Some now\<rparr>) t;
                   (user, name) = (if fetch_fault then (uuid_nil, ''Unknown'')
                                   else (case List.find (\<lambda>x. ar_id x = rid) t' of
                                           None \<Rightarrow> (uuid_nil, ''Unknown'')
                                         | Some x \<Rightarrow> (ar_user x, ar_name x)))
               in (t', if user = uuid_nil then [] else notify published RevokedCard user name, None)))"

definition get_revoked_rules :: "bool \<Rightarrow> uuid \<Rightarrow> rule_table \<Rightarrow> rule_error + uuid list" where
  "get_revoked_rules fault user t =
     (if fault then Inl RuleDb
      else Inr (map ar_id (sort_key (\<lambda>r. case ar_revoked_at r of None \<Rightarrow> (0::int, 0) | Some x \<Rightarrow> (1, - x))
             (filter (\<lambda>r. ar_user r = user \<and> ar_status r = ''revoked'') t))))"

definition is_revoked :: "bool \<Rightarrow> uuid \<Rightarrow> rule_table \<Rightarrow> rule_error + bool" where
  "is_revoked fault rid t =
     (if fault then Inl RuleDb
      else (case List.find (\<lambda>r. ar_id r = rid) t of
              None \<Rightarrow> Inl (RuleNotFound rid)
            | Some r \<Rightarrow> Inr (ar_status r = ''revoked'')))"

section \<open>One way\<close>

definition rule_rank :: "string \<Rightarrow> nat" where
  "rule_rank s = (if s = ''staged'' then 0 else if s = ''active'' then 1 else if s = ''revoked'' then 2 else 3)"

text \<open>What the staging package may do to one rule: move it forward, never touch when it was staged.\<close>

definition rule_ages :: "auto_rule \<Rightarrow> auto_rule \<Rightarrow> bool" where
  "rule_ages r r' \<longleftrightarrow>
     ar_id r' = ar_id r \<and> ar_user r' = ar_user r \<and> ar_staged_at r' = ar_staged_at r \<and>
     rule_rank (ar_status r) \<le> rule_rank (ar_status r') \<and>
     (rule_rank (ar_status r) = rule_rank (ar_status r') \<longrightarrow>
        ar_status r' = ar_status r \<and> ar_activated_at r' = ar_activated_at r \<and>
        ar_revoked_at r' = ar_revoked_at r)"

lemma rule_ages_trans:
  assumes "rule_ages r s" "rule_ages s t"
  shows "rule_ages r t"
proof (cases "rule_rank (ar_status r) = rule_rank (ar_status t)")
  case True
  then have "rule_rank (ar_status r) = rule_rank (ar_status s)"
    "rule_rank (ar_status s) = rule_rank (ar_status t)"
    using assms unfolding rule_ages_def by linarith+
  then show ?thesis using assms unfolding rule_ages_def by simp
next
  case False
  then show ?thesis using assms unfolding rule_ages_def by (metis le_trans)
qed

interpretation rule_table: row_evolution rule_ages
  by unfold_locales (simp add: rule_ages_def, rule rule_ages_trans)

inductive staging_step :: "rule_table \<Rightarrow> rule_table \<Rightarrow> bool" where
  created: "staging_step t t'"
    if "rule_create outcome fresh now r t = (t', res)" "ar_status r = [] \<or> ar_status r = ''staged''"
       "\<forall>r'. res = Inr r' \<longrightarrow> ar_id r' \<notin> ar_id ` set t"
| posted: "staging_step t t'"
    if "rs_create fault fresh now user name predicate action config threshold t = (t', res)"
       "fresh \<notin> ar_id ` set t"
| ticked: "staging_step t t'"
    if "tick fault readable env now t = (t', err)" "\<forall>i. now \<le> ae_now (env i)"
| revoked: "staging_step t t'"
    if "revoke fault fetch_fault published now rid t = (t', sent, err)"
| used: "staging_step t t'"
    if "rule_increment_usage fault rid t = (t', err)"
| edited: "staging_step t t'"
    if "rule_update fault n t = (t', err)"

inductive_cases staging_stepE: "staging_step t t'"

text \<open>Every active rule waited longer than the staging window; identifiers are unique.\<close>

definition waited :: "rule_table \<Rightarrow> bool" where
  "waited t \<longleftrightarrow> distinct (map ar_id t) \<and>
     (\<forall>r \<in> set t. ar_status r = ''active'' \<longrightarrow>
        (\<exists>s a. ar_staged_at r = Some s \<and> ar_activated_at r = Some a \<and> staging_window < a - s))"

definition batch_ok :: "instant \<Rightarrow> auto_rule list \<Rightarrow> rule_table \<Rightarrow> bool" where
  "batch_ok now rs t \<longleftrightarrow>
     (\<forall>r \<in> set rs. \<forall>x \<in> set t. ar_id x = ar_id r \<longrightarrow>
        (\<exists>s. ar_staged_at x = Some s \<and> s < now - staging_window))"

lemma waited_update:
  assumes "waited t" and "\<And>r. ar_id (f r) = ar_id r"
    and "\<And>r. r \<in> set t \<Longrightarrow> p r \<Longrightarrow> ar_status (f r) = ''active'' \<Longrightarrow>
      (\<exists>s a. ar_staged_at (f r) = Some s \<and> ar_activated_at (f r) = Some a \<and> staging_window < a - s)"
  shows "waited (update_rows p f t)"
proof -
  have "map ar_id (update_rows p f t) = map ar_id t"
    by (rule map_update_rows) (rule assms(2))
  moreover have "\<exists>s a. ar_staged_at r = Some s \<and> ar_activated_at r = Some a \<and> staging_window < a - s"
    if "r \<in> set (update_rows p f t)" "ar_status r = ''active''" for r
    using that assms(1,3) by (auto simp: waited_def update_rows_def split: if_splits)
  ultimately show ?thesis using assms(1) by (simp add: waited_def)
qed

lemma activate_ages: "rule_table.rows_evolve t (fst (activate fault published now r t))"
  by (auto simp: activate_def Let_def rule_table.rows_refl rule_ages_def rule_rank_def
      intro!: rule_table.rows_update split: option.split)

lemma activate_waited:
  assumes "waited t" "batch_ok now0 (r # rs) t" "now0 \<le> now"
  shows "waited (fst (activate fault published now r t)) \<and>
    batch_ok now0 rs (fst (activate fault published now r t))"
proof -
  let ?p = "\<lambda>x. ar_id x = ar_id r \<and> ar_status x = ''staged''"
  let ?f = "\<lambda>x. x\<lparr>ar_status := ''active'', ar_activated_at := Some now\<rparr>"
  have w: "waited (update_rows ?p ?f t)"
    by (rule waited_update [OF assms(1)]) (use assms(2,3) in \<open>fastforce simp: batch_ok_def\<close>)+
  have b: "batch_ok now0 rs (update_rows ?p ?f t)" "batch_ok now0 rs t"
    using assms(2) by (auto simp: batch_ok_def update_rows_def)
  show ?thesis
    using w b assms(1) by (auto simp: activate_def Let_def split: option.split)
qed

lemma bulk_activate_ages:
  "rule_table.rows_evolve t (fst (bulk_activate env i rs t counts))"
proof (induction env i rs t counts rule: bulk_activate.induct)
  case (1 env i t act failed)
  then show ?case by (simp add: rule_table.rows_refl)
next
  case (2 env i r rs t act failed)
  obtain t' ns res where step: "activate (ae_fault (env i)) (ae_published (env i)) (ae_now (env i)) r t = (t', ns, res)"
    using prod_cases3 by blast
  have e: "rule_table.rows_evolve t t'"
    using activate_ages [of t "ae_fault (env i)" "ae_published (env i)" "ae_now (env i)" r] step by simp
  show ?case
  proof (cases res)
    case Activated
    then show ?thesis using 2(1) [OF step [symmetric]] step rule_table.rows_trans [OF e] by simp
  next
    case (ActivateError err)
    then show ?thesis using 2(2) [OF step [symmetric]] step rule_table.rows_trans [OF e] by simp
  next
    case ActivatePanics
    then show ?thesis using step e by simp
  qed
qed

lemma bulk_activate_waited:
  "waited t \<Longrightarrow> batch_ok now rs t \<Longrightarrow> \<forall>i. now \<le> ae_now (env i) \<Longrightarrow>
   waited (fst (bulk_activate env i rs t counts))"
proof (induction env i rs t counts rule: bulk_activate.induct)
  case (2 env i r rs t act failed)
  obtain t' ns res where step: "activate (ae_fault (env i)) (ae_published (env i)) (ae_now (env i)) r t = (t', ns, res)"
    using prod_cases3 by blast
  have w: "waited t'" "batch_ok now rs t'"
    using activate_waited [OF 2(3,4), of "ae_now (env i)" "ae_fault (env i)" "ae_published (env i)"] 2(5) step by auto
  show ?case
    using 2(1) [OF step [symmetric]] 2(2) [OF step [symmetric]] 2(5) w step
    by (cases res) auto
qed simp

lemma expired_staged_batch:
  assumes "waited t"
  shows "batch_ok now (filter readable (expired_staged now t)) t"
proof -
  have "r \<in> set t \<and> (\<exists>s. ar_staged_at r = Some s \<and> s < now - staging_window)"
    if "r \<in> set (expired_staged now t)" for r
    using that by (auto simp: expired_staged_def dest!: in_set_takeD split: option.splits)
  moreover have "x = r" if "x \<in> set t" "r \<in> set t" "ar_id x = ar_id r" for x r
    using assms that by (auto simp: waited_def distinct_map dest: inj_onD)
  ultimately show ?thesis unfolding batch_ok_def by (metis filter_is_subset subsetD)
qed

lemma tick_ages: "rule_table.rows_evolve t (fst (tick fault readable env now t))"
  using bulk_activate_ages [of t env 0 "filter readable (expired_staged now t)" "(0, 0)"]
  by (auto simp: tick_def rule_table.rows_refl split: prod.splits)

lemma tick_waited:
  "waited t \<Longrightarrow> \<forall>i. now \<le> ae_now (env i) \<Longrightarrow> waited (fst (tick fault readable env now t))"
  using bulk_activate_waited [OF _ expired_staged_batch, of t now env 0 readable "(0, 0)"]
  by (auto simp: tick_def split: prod.splits)

lemma revoke_table:
  "fst (revoke fault fetch_fault published now rid t) = t \<or>
   fst (revoke fault fetch_fault published now rid t) =
     update_rows (\<lambda>x. ar_id x = rid \<and> ar_status x = ''active'')
       (\<lambda>x. x\<lparr>ar_status := ''revoked'', ar_revoked_at := Some now\<rparr>) t"
  by (simp add: revoke_def Let_def split_def)

lemma revoke_ages: "rule_table.rows_evolve t (fst (revoke fault fetch_fault published now rid t))"
  using revoke_table [of fault fetch_fault published now rid t]
  by (auto simp: rule_table.rows_refl rule_ages_def rule_rank_def intro!: rule_table.rows_update)

lemma revoke_waited: "waited t \<Longrightarrow> waited (fst (revoke fault fetch_fault published now rid t))"
  using revoke_table [of fault fetch_fault published now rid t] by (auto intro!: waited_update)

lemma rule_create_table:
  "rule_create outcome fresh now r t = (t', res) \<Longrightarrow>
     (t' = t \<and> (\<exists>e. res = Inl e)) \<or> (\<exists>r'. res = Inr r' \<and> t' = t @ [r'] \<and> ar_created_at r' = now \<and>
       (ar_status r' = (if ar_status r = [] then ''staged'' else ar_status r)))"
  by (auto simp: rule_create_def Let_def split: insert_outcome.splits)

lemma ages_update: "(\<And>r. rule_ages r (f r)) \<Longrightarrow> rule_table.rows_grow t (update_rows p f t)"
  by (rule rule_table.grow_evolve) (rule rule_table.rows_update)

lemma increment_table:
  "rule_increment_usage fault rid t = (t', err) \<Longrightarrow>
     t' = t \<or> t' = update_rows (\<lambda>r. ar_id r = rid) (\<lambda>r. r\<lparr>ar_usage := ar_usage r + 1\<rparr>) t"
  by (auto simp: rule_increment_usage_def split: if_splits)

lemma update_table:
  "rule_update fault n t = (t', err) \<Longrightarrow>
     t' = t \<or> t' = update_rows (\<lambda>r. ar_id r = ar_id n)
      (\<lambda>r. r\<lparr>ar_name := ar_name n, ar_predicate := ar_predicate n, ar_action := ar_action n,
             ar_config := ar_config n, ar_threshold := ar_threshold n\<rparr>) t"
  by (auto simp: rule_update_def split: if_splits)

lemma staging_step_grows: "staging_step t t' \<Longrightarrow> rule_table.rows_grow t t'"
proof (induction rule: staging_step.induct)
  case (created outcome fresh now r t t' res)
  then show ?case
    using rule_create_table [OF created(1)] rule_table.grow_refl rule_table.grow_append by auto
next
  case (posted fault fresh now user name predicate action config threshold t t' res)
  then show ?case
    using rule_table.grow_refl rule_table.grow_append by (auto simp: rs_create_def Let_def split: if_splits)
next
  case (ticked fault readable env now t t' err)
  then show ?case using tick_ages rule_table.grow_evolve by (metis fst_conv)
next
  case (revoked fault fetch_fault published now rid t t' sent err)
  then show ?case using revoke_ages rule_table.grow_evolve by (metis fst_conv)
next
  case (used fault rid t t' err)
  have "rule_table.rows_grow t (update_rows (\<lambda>r. ar_id r = rid) (\<lambda>r. r\<lparr>ar_usage := ar_usage r + 1\<rparr>) t)"
    by (rule ages_update) (simp add: rule_ages_def)
  then show ?case using increment_table [OF used] rule_table.grow_refl by blast
next
  case (edited fault n t t' err)
  have "rule_table.rows_grow t (update_rows (\<lambda>r. ar_id r = ar_id n)
      (\<lambda>r. r\<lparr>ar_name := ar_name n, ar_predicate := ar_predicate n, ar_action := ar_action n,
             ar_config := ar_config n, ar_threshold := ar_threshold n\<rparr>) t)"
    by (rule ages_update) (simp add: rule_ages_def)
  then show ?case using update_table [OF edited] rule_table.grow_refl by blast
qed

lemma staging_step_waited: "staging_step t t' \<Longrightarrow> waited t \<Longrightarrow> waited t'"
proof (induction rule: staging_step.induct)
  case (created outcome fresh now r t t' res)
  then show ?case
    using rule_create_table [OF created(1)] by (auto simp: waited_def split: if_splits)
next
  case (posted fault fresh now user name predicate action config threshold t t' res)
  then show ?case by (auto simp: waited_def rs_create_def Let_def split: if_splits)
next
  case (ticked fault readable env now t t' err)
  then show ?case using tick_waited by (metis fst_conv)
next
  case (revoked fault fetch_fault published now rid t t' sent err)
  then show ?case using revoke_waited by (metis fst_conv)
next
  case (used fault rid t t' err)
  have "waited (update_rows (\<lambda>r. ar_id r = rid) (\<lambda>r. r\<lparr>ar_usage := ar_usage r + 1\<rparr>) t)"
    by (rule waited_update [OF used(2)]) (use used(2) in \<open>auto simp: waited_def\<close>)
  then show ?case using increment_table [OF used(1)] used(2) by blast
next
  case (edited fault n t t' err)
  have "waited (update_rows (\<lambda>r. ar_id r = ar_id n)
      (\<lambda>r. r\<lparr>ar_name := ar_name n, ar_predicate := ar_predicate n, ar_action := ar_action n,
             ar_config := ar_config n, ar_threshold := ar_threshold n\<rparr>) t)"
    by (rule waited_update [OF edited(2)]) (use edited(2) in \<open>auto simp: waited_def\<close>)
  then show ?case using update_table [OF edited(1)] edited(2) by blast
qed

definition ex_rule :: "uuid \<Rightarrow> string \<Rightarrow> auto_rule" where
  "ex_rule rid status =
     \<lparr>ar_id = rid, ar_user = 1, ar_name = ''invoices'', ar_predicate = ex_predicate,
      ar_action = ''delete'', ar_config = ''{}'', ar_threshold = 95/100, ar_status = status,
      ar_staged_at = Some 0, ar_activated_at = (if status = ''staged'' then None else Some (200000 * second_ns)),
      ar_revoked_at = None, ar_usage = 0, ar_created_at = 0\<rparr>"

text \<open>
  C34: No rule becomes active early. In every table the staging package can reach from the empty
  one by creating rules, cron ticks (database clock not running backwards within a tick), revocations,
  usage counting and edits, each active rule was activated more than 48 hours after it was staged.
\<close>

theorem active_rules_waited_48h:
  assumes "staging_step\<^sup>*\<^sup>* [] t" and "r \<in> set t" and "ar_status r = ''active''"
  shows "\<exists>s a. ar_staged_at r = Some s \<and> ar_activated_at r = Some a \<and> 48 * hour_ns < a - s"
proof -
  have "waited t"
    using assms(1) by (induction rule: rtranclp_induct) (auto simp: waited_def dest: staging_step_waited)
  then show ?thesis using assms(2,3) by (simp add: waited_def)
qed

definition ex_activation :: "nat \<Rightarrow> activation_env" where
  "ex_activation i = \<lparr>ae_fault = False, ae_published = True, ae_now = 200000 * second_ns + int i\<rparr>"

theorem active_rules_waited_48h_witness:
  "\<exists>t. staging_step\<^sup>*\<^sup>* [] t \<and>
     (\<exists>r \<in> set t. ar_status r = ''active'' \<and>
        (\<exists>s a. ar_staged_at r = Some s \<and> ar_activated_at r = Some a \<and> 48 * hour_ns < a - s))"
proof -
  let ?new = "(ex_rule 7 ''staged'')\<lparr>ar_created_at := 0\<rparr>"
  let ?t = "update_rows (\<lambda>x. ar_id x = 7 \<and> ar_status x = ''staged'')
      (\<lambda>x. x\<lparr>ar_status := ''active'', ar_activated_at := Some (200000 * second_ns)\<rparr>) [?new]"
  have "rule_create InsertOk 9 0 (ex_rule 7 ''staged'') [] = ([?new], Inr ?new)"
    by (simp add: rule_create_def ex_rule_def Let_def)
  then have 1: "staging_step [] [?new]"
    by (rule staging_step.created) (simp_all add: ex_rule_def)
  have "expired_staged (200000 * second_ns) [?new] = [?new]"
    by (simp add: expired_staged_def ex_rule_def)
  then have "tick False (\<lambda>r. True) ex_activation (200000 * second_ns) [?new] = (?t, None)"
    by (simp add: tick_def activate_def ex_activation_def ex_rule_def rows_matching_def)
  then have "staging_step [?new] ?t"
    by (rule staging_step.ticked) (simp add: ex_activation_def)
  with 1 have run: "staging_step\<^sup>*\<^sup>* [] ?t" by (meson r_into_rtranclp rtranclp.rtrancl_into_rtrancl)
  have r: "?t ! 0 \<in> set ?t" "ar_status (?t ! 0) = ''active''"
    by (simp_all add: update_rows_def ex_rule_def)
  from active_rules_waited_48h [OF run r] run r show ?thesis by blast
qed

text \<open>
  Rules only move forward. Through any run of those operations a rule keeps its identity,
  owner and staging time, its status only moves along staged, active, revoked (a revoked rule
  stays revoked), and while the status stands its activation and revocation times stand.
\<close>

lemma rules_only_move_forward:
  assumes "staging_step\<^sup>*\<^sup>* t t'" and "i < length t"
  shows "i < length t' \<and> ar_id (t' ! i) = ar_id (t ! i) \<and> ar_user (t' ! i) = ar_user (t ! i) \<and>
    ar_staged_at (t' ! i) = ar_staged_at (t ! i) \<and>
    rule_rank (ar_status (t ! i)) \<le> rule_rank (ar_status (t' ! i)) \<and>
    (ar_status (t' ! i) = ar_status (t ! i) \<longrightarrow>
       ar_activated_at (t' ! i) = ar_activated_at (t ! i) \<and>
       ar_revoked_at (t' ! i) = ar_revoked_at (t ! i)) \<and>
    (ar_status (t ! i) = ''revoked'' \<longrightarrow> ar_status (t' ! i) \<noteq> ''active'' \<and> ar_status (t' ! i) \<noteq> ''staged'')"
proof -
  have "rule_table.rows_grow t t'"
    using assms(1)
    by (induction rule: rtranclp_induct)
      (auto intro: rule_table.grow_refl rule_table.grow_trans staging_step_grows)
  from rule_table.grow_nth [OF this assms(2)] show ?thesis
    unfolding rule_ages_def by (auto simp: rule_rank_def)
qed

theorem rules_only_move_forward_witness:
  "\<exists>t'. staging_step\<^sup>*\<^sup>* [ex_rule 7 ''active''] t' \<and>
     ar_status (t' ! 0) = ''revoked'' \<and> ar_staged_at (t' ! 0) = Some 0 \<and>
     rule_rank ''active'' \<le> rule_rank (ar_status (t' ! 0))"
proof -
  obtain t' ns e where run: "revoke False False True 5 7 [ex_rule 7 ''active''] = (t', ns, e)"
    using prod_cases3 by blast
  then have s: "staging_step\<^sup>*\<^sup>* [ex_rule 7 ''active''] t'"
    by (meson r_into_rtranclp staging_step.revoked)
  have "ar_status (t' ! 0) = ''revoked''"
    using run by (auto simp: revoke_def ex_rule_def update_rows_def notify_def split: if_splits)
  then show ?thesis
    using rules_only_move_forward [OF s, of 0] s by (auto simp: ex_rule_def)
qed

section \<open>The cached store\<close>

text \<open>
  The cache is coherent when each entry is what the database query would answer now. Lookups and
  the cached store's own writes keep it so.
\<close>

definition coherent :: "cached_store \<Rightarrow> bool" where
  "coherent s \<longleftrightarrow> distinct (map ar_id (cs_table s)) \<and>
     (\<forall>u e. rc_entries (cs_cache s) u = Some e \<longrightarrow> rule_get_active False u (cs_table s) = Inr (ce_rules e))"

inductive cached_step :: "cached_store \<Rightarrow> cached_store \<Rightarrow> bool" where
  read: "cached_step s s'" if "cs_get_active fault now user s = (s', res)"
| count: "cached_step s s'" if "cs_increment_usage get_fault fault rid s = (s', err)"
| status: "cached_step s s'" if "cs_update_status get_fault fault now rid st s = (s', err)"
| delete: "cached_step s s'" if "cs_delete get_fault fault rid s = (s', err)"
| create: "cached_step s s'"
    if "cs_create outcome fresh now r s = (s', res)"
       "\<forall>r'. res = Inr r' \<longrightarrow> ar_id r' \<notin> ar_id ` set (cs_table s)"

lemma cs_get_active_coherent:
  assumes "coherent s" and run: "cs_get_active fault now user s = (s', res)"
  shows "coherent s' \<and> cs_table s' = cs_table s \<and>
    (\<forall>rs. res = Inr rs \<longrightarrow> rule_get_active False user (cs_table s) = Inr rs)"
proof -
  have drop: "coherent (s\<lparr>cs_cache := (cs_cache s)\<lparr>rc_entries := (rc_entries (cs_cache s))(user := None)\<rparr>\<rparr>)"
    using assms(1) by (simp add: coherent_def)
  have fill: "coherent (s\<lparr>cs_cache := cache_set now user rs c\<rparr>)"
    if "rule_get_active False user (cs_table s) = Inr rs"
       "c = cs_cache s \<or> c = (cs_cache s)\<lparr>rc_entries := (rc_entries (cs_cache s))(user := None)\<rparr>" for rs c
    using assms(1) that by (auto simp: coherent_def cache_set_def)
  have same: "s\<lparr>cs_cache := cs_cache s\<rparr> = s" by simp
  show ?thesis
  proof (cases "rc_entries (cs_cache s) user")
    case None
    then show ?thesis
      using run assms(1) fill same
      by (cases fault) (auto simp: cs_get_active_def cache_get_def rule_get_active_def)
  next
    case (Some e)
    then have "rule_get_active False user (cs_table s) = Inr (ce_rules e)"
      using assms(1) by (simp add: coherent_def)
    then show ?thesis
      using run assms(1) fill drop same Some
      by (cases fault) (auto simp: cs_get_active_def cache_get_def rule_get_active_def split: if_splits)
  qed
qed

text \<open>A write that touches only rows with one identifier leaves other users' queries alone.\<close>

lemma get_active_other_user:
  assumes "\<forall>r \<in> set t. p r \<longrightarrow> ar_user r \<noteq> u" "\<And>r. ar_user (f r) = ar_user r"
  shows "rule_get_active False u (update_rows p f t) = rule_get_active False u t"
proof -
  have "filter (\<lambda>r. ar_user r = u \<and> ar_status r = ''active'') (update_rows p f t) =
      filter (\<lambda>r. ar_user r = u \<and> ar_status r = ''active'') t"
    using assms by (induction t) (auto simp: update_rows_def)
  then show ?thesis by (simp add: rule_get_active_def)
qed

lemma get_active_filter_other:
  assumes "\<forall>r \<in> set t. \<not> p r \<longrightarrow> ar_user r \<noteq> u"
  shows "rule_get_active False u (filter p t) = rule_get_active False u t"
proof -
  have "filter (\<lambda>r. ar_user r = u \<and> ar_status r = ''active'') (filter p t) =
      filter (\<lambda>r. ar_user r = u \<and> ar_status r = ''active'') t"
    using assms by (induction t) auto
  then show ?thesis by (simp add: rule_get_active_def)
qed

lemma with_owner_coherent:
  assumes "coherent s" and run: "with_owner get_fault rid write s = (s', err)"
    and fail: "\<And>t e. write (cs_table s) = (t, Some e) \<Longrightarrow> t = cs_table s"
    and keys: "\<And>t. write (cs_table s) = (t, None) \<Longrightarrow> distinct (map ar_id t)"
    and other: "\<And>t u. write (cs_table s) = (t, None) \<Longrightarrow>
       \<forall>r \<in> set (cs_table s). ar_id r = rid \<longrightarrow> ar_user r \<noteq> u \<Longrightarrow>
       rule_get_active False u t = rule_get_active False u (cs_table s)"
  shows "coherent s'"
proof (cases "rule_get_by_id get_fault rid (cs_table s)")
  case (Inl e)
  then show ?thesis using run assms(1) by (simp add: with_owner_def)
next
  case (Inr r)
  then have r: "r \<in> set (cs_table s)" "ar_id r = rid"
    by (auto simp: rule_get_by_id_def find_Some_iff in_set_conv_nth split: if_splits option.splits)
  then have uniq: "\<forall>x \<in> set (cs_table s). ar_id x = rid \<longrightarrow> x = r"
    using assms(1) by (auto simp: coherent_def distinct_map dest: inj_onD)
  obtain t e where w: "write (cs_table s) = (t, e)" by fastforce
  show ?thesis
  proof (cases e)
    case None
    then have "s' = s\<lparr>cs_table := t, cs_cache := cache_invalidate_user (ar_user r) (cs_cache s)\<rparr>"
      using run Inr w by (simp add: with_owner_def)
    moreover have "rule_get_active False u t = rule_get_active False u (cs_table s)"
      if "u \<noteq> ar_user r" for u
      using other [of t u] w None uniq that by auto
    ultimately show ?thesis
      using assms(1) keys w None by (auto simp: coherent_def cache_invalidate_user_def)
  next
    case (Some er)
    then show ?thesis using run Inr w fail [of t er] assms(1) by (auto simp: with_owner_def)
  qed
qed

lemma distinct_ids_update:
  "distinct (map ar_id t) \<Longrightarrow> (\<And>r. ar_id (f r) = ar_id r) \<Longrightarrow> distinct (map ar_id (update_rows p f t))"
  by (simp add: map_update_rows)

lemma cached_step_coherent: "cached_step s s' \<Longrightarrow> coherent s \<Longrightarrow> coherent s'"
proof (induction rule: cached_step.induct)
  case (read fault now user s s' res)
  then show ?case using cs_get_active_coherent by blast
next
  case (count get_fault fault rid s s' err)
  show ?case
    by (rule with_owner_coherent [OF count(2) count(1) [unfolded cs_increment_usage_def]])
      (use count(2) in \<open>auto simp: rule_increment_usage_def coherent_def
        intro!: distinct_ids_update get_active_other_user split: if_splits\<close>)
next
  case (status get_fault fault now rid st s s' err)
  show ?case
    by (rule with_owner_coherent [OF status(2) status(1) [unfolded cs_update_status_def]])
      (use status(2) in \<open>auto simp: rule_update_status_def coherent_def
        intro!: distinct_ids_update get_active_other_user split: if_splits\<close>)
next
  case (delete get_fault fault rid s s' err)
  show ?case
    by (rule with_owner_coherent [OF delete(2) delete(1) [unfolded cs_delete_def]])
      (use delete(2) in \<open>auto simp: rule_delete_def coherent_def
        intro!: distinct_map_filter get_active_filter_other split: if_splits\<close>)
next
  case (create outcome fresh now r s s' res)
  obtain t res' where c: "rule_create outcome fresh now r (cs_table s) = (t, res')" by fastforce
  then show ?case
    using create rule_create_table [OF c]
    by (auto simp: cs_create_def coherent_def cache_invalidate_user_def rule_get_active_def
        split: if_splits)
qed

text \<open>
  The rule cache is transparent for the engine. After any run of lookups, usage counts, status
  changes, deletions and creations through the cached store, starting with an empty cache on a table
  with unique identifiers, a lookup that answers gives exactly what the database query would.
\<close>

lemma cached_rules_are_current:
  assumes "distinct (map ar_id t)" and "cached_step\<^sup>*\<^sup>* (new_cached_store t) s"
    and "cs_get_active fault now user s = (s', Inr rs)"
  shows "rule_get_active False user (cs_table s) = Inr rs"
proof -
  have "coherent s"
    using assms(2) by (induction rule: rtranclp_induct)
      (use assms(1) in \<open>auto simp: coherent_def new_cached_store_def new_rule_cache_def
        dest: cached_step_coherent\<close>)
  from cs_get_active_coherent [OF this assms(3)] show ?thesis by simp
qed

theorem cached_rules_are_current_witness:
  "\<exists>s s' rs. cached_step\<^sup>*\<^sup>* (new_cached_store [ex_rule 7 ''active'']) s \<and>
     cs_get_active False 6 1 s = (s', Inr rs) \<and> map ar_usage rs = [1]"
proof -
  let ?s0 = "new_cached_store [ex_rule 7 ''active'']"
  obtain s1 r1 where r1: "cs_get_active False 5 1 ?s0 = (s1, r1)" by fastforce
  obtain s2 e2 where r2: "cs_increment_usage False False 7 s1 = (s2, e2)" by fastforce
  have steps: "cached_step\<^sup>*\<^sup>* ?s0 s2"
    by (meson r1 r2 cached_step.read cached_step.count r_into_rtranclp rtranclp.rtrancl_into_rtrancl)
  have t1: "cs_table s1 = [ex_rule 7 ''active'']"
    using r1 by (auto simp: cs_get_active_def new_cached_store_def new_rule_cache_def cache_get_def
        rule_get_active_def)
  have t2: "cs_table s2 = [(ex_rule 7 ''active'')\<lparr>ar_usage := 1\<rparr>]"
    using r2 t1 by (auto simp: cs_increment_usage_def with_owner_def rule_get_by_id_def
        rule_increment_usage_def update_rows_def ex_rule_def)
  obtain s3 res where res: "cs_get_active False 6 1 s2 = (s3, res)" by fastforce
  then have "\<exists>rs. res = Inr rs"
    by (auto simp: cs_get_active_def rule_get_active_def split: prod.splits option.splits)
  with res obtain rs where r3: "cs_get_active False 6 1 s2 = (s3, Inr rs)" by blast
  have "distinct (map ar_id [ex_rule 7 ''active''])" by simp
  from cached_rules_are_current [OF this steps r3] t2 have "rs = [(ex_rule 7 ''active'')\<lparr>ar_usage := 1\<rparr>]"
    by (simp add: rule_get_active_def by_usage_def ex_rule_def)
  then show ?thesis using steps r3 by auto
qed

text \<open>
  A revoked rule keeps firing from the cache. The revoker writes to the table and not through
  the cached store: for up to the five minutes an entry lives, the engine still gets the rules it
  had cached, the revoked one among them.
\<close>

lemma revoked_rule_served_from_cache:
  assumes "cs_get_active fault now user s = (s1, Inr rs)"
    and "\<forall>u. rc_entries (cs_cache s) u = None" and "rc_ttl (cs_cache s) = 5 * minute_ns"
    and "s2 = s1\<lparr>cs_table := fst (revoke rf ff published t rid (cs_table s1))\<rparr>"
    and "later \<le> now + 5 * minute_ns"
  shows "snd (cs_get_active fault2 later user s2) = Inr rs"
proof -
  have "rc_entries (cs_cache s1) user = Some \<lparr>ce_rules = rs, ce_expires = now + 5 * minute_ns\<rparr>"
    using assms(1,2,3) by (auto simp: cs_get_active_def cache_get_def cache_set_def split: sum.splits)
  then show ?thesis
    using assms(4,5) by (simp add: cs_get_active_def cache_get_def)
qed

theorem revoked_rule_served_from_cache_witness:
  "\<exists>s1 rs. cs_get_active False 0 1 (new_cached_store [ex_rule 7 ''active'']) = (s1, Inr rs) \<and>
     rs = [ex_rule 7 ''active''] \<and>
     is_revoked False 7 (fst (revoke False False True 10 7 (cs_table s1))) = Inr True \<and>
     snd (cs_get_active False (4 * minute_ns) 1
       (s1\<lparr>cs_table := fst (revoke False False True 10 7 (cs_table s1))\<rparr>)) = Inr rs"
proof -
  let ?s0 = "new_cached_store [ex_rule 7 ''active'']"
  obtain s1 rs where r: "cs_get_active False 0 1 ?s0 = (s1, Inr rs)"
    and rs: "rs = [ex_rule 7 ''active'']" and t: "cs_table s1 = [ex_rule 7 ''active'']"
    by (simp add: cs_get_active_def new_cached_store_def new_rule_cache_def cache_get_def
        rule_get_active_def by_usage_def ex_rule_def)
  have "snd (cs_get_active False (4 * minute_ns) 1
       (s1\<lparr>cs_table := fst (revoke False False True 10 7 (cs_table s1))\<rparr>)) = Inr rs"
    by (rule revoked_rule_served_from_cache [OF r _ _ refl])
      (simp_all add: new_cached_store_def new_rule_cache_def)
  moreover have "is_revoked False 7 (fst (revoke False False True 10 7 (cs_table s1))) = Inr True"
    by (simp add: t revoke_def is_revoked_def ex_rule_def update_rows_def notify_def)
  ultimately show ?thesis using r rs by blast
qed

text \<open>
  The confidence floor of created rules. The create handler either replies with an error and
  leaves the table as it was, or adds exactly one rule, staged now, not yet active, whose
  threshold is at least 0.92 (an absent threshold counts as 0.92).
\<close>

lemma created_rules_respect_floor:
  "(let (t', reply) = handle_create_rule fault fresh now user body t
    in case reply of
         ErrorReply code msg \<Rightarrow> t' = t
       | Reply code r \<Rightarrow> code = 201 \<and> t' = t @ [r] \<and> 92/100 \<le> ar_threshold r \<and>
           ar_status r = ''staged'' \<and> ar_staged_at r = Some now \<and> ar_activated_at r = None \<and>
           user = Some (ar_user r))"
  by (auto simp: handle_create_rule_def rs_create_def Let_def split: option.splits if_splits)

end
