(* ===== verification/Auto_Engine.thy ===== *)
theory Auto_Engine
  imports Rule_Lifecycle
begin

text \<open>
  The auto-handle engine of \<open>src/classification/internal/auto/\<close>: actions (\<open>action.go\<close>), the LLM
  fallback (\<open>llm_fallback.go\<close>) and the orchestrator (\<open>engine.go\<close>). The LLM service is a parameter
  from prompt to reply text, JSON decoding a parameter from text to value. The engine's state is
  the cached rule store, the predicate evaluator and the decision log.
\<close>

section \<open>Events and results\<close>

text \<open>A received time comes with the UTC offset its JSON text carried.\<close>

record email_event =
  ev_id :: uuid
  ev_user :: uuid
  ev_source :: string
  ev_account :: uuid
  ev_thread :: uuid
  ev_raw :: uuid
  ev_s3 :: string
  ev_attachments :: bool
  ev_sender :: string
  ev_received :: instant
  ev_offset :: duration
  ev_hint :: string
  ev_contacts :: "uuid list"

record extracted_datum =
  xd_type :: string
  xd_value :: string
  xd_text :: string

record classification_result =
  cl_raw :: uuid
  cl_user :: uuid
  cl_thread :: uuid
  cl_route :: string
  cl_confidence :: rat
  cl_rule :: "uuid option"
  cl_extracted :: "extracted_datum option"
  cl_llm :: bool
  cl_processed :: instant

abbreviation (input) route_extract :: string where "route_extract \<equiv> ''extract''"
abbreviation (input) route_auto :: string where "route_auto \<equiv> ''auto''"
abbreviation (input) route_decision :: string where "route_decision \<equiv> ''decision''"

definition hard_floor :: rat where
  "hard_floor = 92/100"

section \<open>Actions\<close>

text \<open>What decoding an action's configuration gives: whether it parses, and the forward address.\<close>

record config_decoder =
  dec_template :: "string \<Rightarrow> bool"
  dec_forward :: "string \<Rightarrow> string option"
  dec_notify :: "string \<Rightarrow> bool"

datatype action_error = BadActionConfig string | MissingForwardTo | UnknownAction string

definition execute_reply_template :: "config_decoder \<Rightarrow> auto_rule \<Rightarrow> action_error option" where
  "execute_reply_template d r =
     (if dec_template d (ar_config r) then None else Some (BadActionConfig ''reply_template''))"

definition execute_forward :: "config_decoder \<Rightarrow> auto_rule \<Rightarrow> action_error option" where
  "execute_forward d r =
     (case dec_forward d (ar_config r) of
        None \<Rightarrow> Some (BadActionConfig ''forward'')
      | Some addr \<Rightarrow> if addr = [] then Some MissingForwardTo else None)"

definition execute_calendar_accept :: "auto_rule \<Rightarrow> action_error option" where
  "execute_calendar_accept r = None"

definition execute_delete :: "auto_rule \<Rightarrow> action_error option" where
  "execute_delete r = None"

definition execute_extract_notify :: "config_decoder \<Rightarrow> auto_rule \<Rightarrow> action_error option" where
  "execute_extract_notify d r =
     (if dec_notify d (ar_config r) then None else Some (BadActionConfig ''extract_notify''))"

record decision_entry =
  de_raw :: uuid
  de_user :: uuid
  de_thread :: uuid
  de_rule :: uuid
  de_rule_name :: string
  de_action :: string
  de_confidence :: rat
  de_route :: string
  de_error :: "action_error option"

definition log_decision ::
  "bool \<Rightarrow> auto_rule \<Rightarrow> email_event \<Rightarrow> action_error option \<Rightarrow> decision_entry list
     \<Rightarrow> decision_entry list" where
  "log_decision fault r email err dlog =
     (if fault then dlog
      else dlog @ [\<lparr>de_raw = ev_raw email, de_user = ev_user email, de_thread = ev_thread email,
                   de_rule = ar_id r, de_rule_name = ar_name r, de_action = ar_action r,
                   de_confidence = ar_threshold r, de_route = route_auto, de_error = err\<rparr>])"

definition run_action :: "config_decoder \<Rightarrow> auto_rule \<Rightarrow> action_error option" where
  "run_action d r =
     (if ar_action r = ''reply_template'' then execute_reply_template d r
      else if ar_action r = ''forward'' then execute_forward d r
      else if ar_action r = ''calendar_accept'' then execute_calendar_accept r
      else if ar_action r = ''delete'' then execute_delete r
      else if ar_action r = ''extract_notify'' then execute_extract_notify d r
      else Some (UnknownAction (ar_action r)))"

definition execute_action ::
  "config_decoder \<Rightarrow> bool \<Rightarrow> auto_rule \<Rightarrow> email_event \<Rightarrow> decision_entry list
     \<Rightarrow> decision_entry list \<times> action_error option" where
  "execute_action d log_fault r email dlog =
     (let err = run_action d r in (log_decision log_fault r email err dlog, err))"

section \<open>The LLM fallback\<close>

record llm_request =
  lq_rules :: "string list"
  lq_sender :: string
  lq_subject :: string
  lq_body :: string
  lq_recipient :: string
  lq_attachment :: bool
  lq_participants :: int

record llm_response =
  lp_match :: string
  lp_confidence :: rat
  lp_reason :: string

fun digits :: "nat \<Rightarrow> string" where
  "digits n = (if n < 10 then [char_of (48 + n)] else digits (n div 10) @ [char_of (48 + n mod 10)])"

declare digits.simps [simp del]

fun prompt_rules :: "nat \<Rightarrow> string list \<Rightarrow> string" where
  "prompt_rules i [] = []"
| "prompt_rules i (name # names) = digits (i + 1) @ ''. '' @ name @ ''\<newline>'' @ prompt_rules (i + 1) names"

definition build_prompt :: "llm_request \<Rightarrow> string" where
  "build_prompt q =
     ''You are an email routing assistant. The user has these active rules:\<newline>'' @
     prompt_rules 0 (lq_rules q) @
     ''\<newline>Based ONLY on the email below, which rule matches? If none match well, respond 'none'.\<newline>\<newline>'' @
     ''Email subject: '' @ lq_subject q @ ''\<newline>'' @
     (if lq_sender q \<noteq> [] then ''From: '' @ lq_sender q @ ''\<newline>'' else []) @
     (if lq_recipient q \<noteq> [] then ''To: '' @ lq_recipient q @ ''\<newline>'' else []) @
     ''Body preview: '' @ lq_body q @ ''\<newline>'' @
     (if lq_attachment q then ''Has attachment: yes\<newline>'' else []) @
     (if 0 < lq_participants q
      then ''Thread participants: '' @ digits (nat (lq_participants q)) @ ''\<newline>'' else []) @
     ''\<newline>Respond with ONLY a JSON object in this exact format:\<newline>'' @
     ''{\"match\": \"rule_name_or_none\", \"confidence\": 0.0-1.0, \"reason\": \"brief explanation\"}'' @
     ''\<newline>\<newline>The confidence field must be a number between 0.0 and 1.0. '' @
     ''Use 0.95+ only if you are very certain. Be conservative.''"

text \<open>\<open>strings.Index\<close>.\<close>

fun index_of :: "string \<Rightarrow> string \<Rightarrow> nat option" where
  "index_of [] sub = (if sub = [] then Some 0 else None)"
| "index_of (c # s) sub =
     (if has_prefix (c # s) sub then Some 0 else map_option Suc (index_of s sub))"

text \<open>The text between a fence and the next \<open>```\<close>; the whole text when the fence does not close.\<close>

definition unfence :: "string \<Rightarrow> string \<Rightarrow> nat \<Rightarrow> string" where
  "unfence body fence i =
     (let start = drop (i + length fence) body
      in case index_of start ''```'' of None \<Rightarrow> body | Some j \<Rightarrow> trim_space (take j start))"

definition response_json :: "string \<Rightarrow> string" where
  "response_json text =
     (let body = trim_space text
      in case index_of body ''```json'' of
           Some i \<Rightarrow> unfence body ''```json'' i
         | None \<Rightarrow> (case index_of body ''```'' of Some i \<Rightarrow> unfence body ''```'' i | None \<Rightarrow> body))"

definition parse_response :: "(string \<Rightarrow> llm_response option) \<Rightarrow> string \<Rightarrow> llm_response option" where
  "parse_response decode text =
     (case decode (response_json text) of
        None \<Rightarrow> None
      | Some r \<Rightarrow>
          (let r1 = (if lp_confidence r < 0 then r\<lparr>lp_confidence := 0\<rparr> else r)
           in Some (if 1 < lp_confidence r1 then r1\<lparr>lp_confidence := 1\<rparr> else r1)))"

definition slice_contains_fold :: "string list \<Rightarrow> string \<Rightarrow> bool" where
  "slice_contains_fold xs v = list_ex (\<lambda>s. equal_fold s v) xs"

datatype llm_error = LlmUnavailable | LlmBadReply

text \<open>\<open>below_text\<close> is the formatted reason for a confidence below the floor.\<close>

definition llm_match ::
  "(string \<Rightarrow> string option) \<Rightarrow> (string \<Rightarrow> llm_response option) \<Rightarrow> (rat \<Rightarrow> string) \<Rightarrow> llm_request
     \<Rightarrow> llm_error + llm_response" where
  "llm_match call decode below_text q =
     (if lq_rules q = []
      then Inr \<lparr>lp_match = ''none'', lp_confidence = 0, lp_reason = ''no active rules to match against''\<rparr>
      else
       (case call (build_prompt q) of
          None \<Rightarrow> Inl LlmUnavailable
        | Some text \<Rightarrow>
           (case parse_response decode text of
              None \<Rightarrow> Inl LlmBadReply
            | Some r \<Rightarrow>
               (let r1 = (if lp_confidence r < hard_floor
                          then r\<lparr>lp_match := ''none'', lp_reason := below_text (lp_confidence r),
                                 lp_confidence := 0\<rparr>
                          else r)
                in Inr (if lp_match r1 \<noteq> ''none'' \<and> \<not> slice_contains_fold (lq_rules q) (lp_match r1)
                        then r1\<lparr>lp_match := ''none'', lp_confidence := 0,
                                lp_reason := ''matched unknown rule name''\<rparr>
                        else r1)))))"

section \<open>The engine\<close>

record auto_state =
  as_store :: cached_store
  as_eval :: predicate_evaluator
  as_log :: "decision_entry list"

text \<open>
  The surroundings of one evaluation: the clock, the pattern compiler, the LLM and the decoders,
  the identifier of a created rule, and which statements fail.
\<close>

record auto_env =
  ae_clock :: instant
  ae_compile :: regex_compile
  ae_llm :: "string \<Rightarrow> string option"
  ae_decode :: "string \<Rightarrow> llm_response option"
  ae_below :: "rat \<Rightarrow> string"
  ae_config :: config_decoder
  ae_fresh :: uuid
  ae_insert :: insert_outcome
  fail_rules :: bool
  fail_decision_log :: bool
  fail_usage_get :: bool
  fail_usage :: bool
  fail_stage_get :: bool
  fail_stage :: bool

definition trim_colon :: "string \<Rightarrow> string" where
  "trim_colon w = (if w \<noteq> [] \<and> last w = CHR '':'' then butlast w else w)"

definition skip_words :: "string list" where
  "skip_words = [''re'', ''fw'', ''fwd'', ''aw'', ''wg'', ''the'', ''a'', ''an'', ''is'', ''it'',
     ''to'', ''for'', ''of'', ''in'', ''on'', ''at'', ''by'', ''or'', ''and'']"

definition keyword_of :: "string \<Rightarrow> string option" where
  "keyword_of w =
     (let clean = to_lower (trim_colon w)
      in if clean \<notin> set skip_words \<and> 4 < length clean then Some clean else None)"

definition extract_subject_keyword :: "string \<Rightarrow> string" where
  "extract_subject_keyword s =
     (case take 2 (List.map_filter keyword_of (str_fields s)) of
        [] \<Rightarrow> s | [k] \<Rightarrow> k | k # l # _ \<Rightarrow> k @ '' '' @ l)"

text \<open>\<open>createStagedRuleFromLLM\<close>: a staged rule for the sender and a subject keyword.\<close>

definition llm_rule :: "auto_env \<Rightarrow> uuid \<Rightarrow> llm_response \<Rightarrow> email_attributes \<Rightarrow> auto_rule" where
  "llm_rule env user resp attrs =
     \<lparr>ar_id = uuid_nil, ar_user = user, ar_name = lp_match resp,
      ar_predicate =
        \<lparr>all_of =
           \<lparr>cond_field = ''sender_email'', cond_op = ''eq'', cond_value = VStr (at_sender_email attrs)\<rparr> #
           (if 3 < length (at_subject attrs)
            then [\<lparr>cond_field = ''subject'', cond_op = ''contains'',
                   cond_value = VStr (extract_subject_keyword (at_subject attrs))\<rparr>]
            else []),
         any_of = []\<rparr>,
      ar_action = ''extract_notify'',
      ar_config = ''{\"notification_title\": \"Auto-handled email\"}'',
      ar_threshold = hard_floor, ar_status = ''staged'', ar_staged_at = Some (ae_clock env),
      ar_activated_at = None, ar_revoked_at = None, ar_usage = 0, ar_created_at = zero_time\<rparr>"

definition create_staged_rule ::
  "auto_env \<Rightarrow> uuid \<Rightarrow> llm_response \<Rightarrow> email_attributes \<Rightarrow> cached_store
     \<Rightarrow> cached_store \<times> (rule_error + auto_rule)" where
  "create_staged_rule env user resp attrs s =
     cs_create (ae_insert env) (ae_fresh env) (ae_clock env) (llm_rule env user resp attrs) s"

definition stage_rule :: "auto_env \<Rightarrow> uuid \<Rightarrow> cached_store \<Rightarrow> cached_store" where
  "stage_rule env rid s =
     fst (cs_update_status (fail_stage_get env) (fail_stage env) (ae_clock env) rid ''staged'' s)"

text \<open>
  Firing a rule, from either path: execute, count the usage (failures are only logged), report.
\<close>

definition fire_rule ::
  "auto_env \<Rightarrow> email_event \<Rightarrow> rat \<Rightarrow> bool \<Rightarrow> auto_rule \<Rightarrow> auto_state
     \<Rightarrow> auto_state \<times> classification_result" where
  "fire_rule env email confidence llm r st =
     (st\<lparr>as_log := fst (execute_action (ae_config env) (fail_decision_log env) r email (as_log st)),
         as_store := fst (cs_increment_usage (fail_usage_get env) (fail_usage env) (ar_id r) (as_store st))\<rparr>,
      \<lparr>cl_raw = ev_raw email, cl_user = ev_user email, cl_thread = ev_thread email,
       cl_route = route_auto, cl_confidence = confidence, cl_rule = Some (ar_id r),
       cl_extracted = None, cl_llm = llm, cl_processed = ae_clock env\<rparr>)"

definition effective_threshold :: "auto_rule \<Rightarrow> rat" where
  "effective_threshold r = (if ar_threshold r = 0 then hard_floor else ar_threshold r)"

fun try_rules ::
  "auto_env \<Rightarrow> email_event \<Rightarrow> email_attributes \<Rightarrow> auto_rule list \<Rightarrow> auto_state
     \<Rightarrow> auto_state \<times> classification_result option" where
  "try_rules env email attrs [] st = (st, None)"
| "try_rules env email attrs (r # rs) st =
     (case evaluate (ae_compile env) (ar_predicate r) attrs (as_eval st) of
        (pe, Inl _) \<Rightarrow> try_rules env email attrs rs (st\<lparr>as_eval := pe\<rparr>)
      | (pe, Inr match) \<Rightarrow>
          if \<not> match \<or> effective_threshold r < hard_floor
          then try_rules env email attrs rs (st\<lparr>as_eval := pe\<rparr>)
          else (case fire_rule env email (effective_threshold r) False r (st\<lparr>as_eval := pe\<rparr>) of
                  (st', res) \<Rightarrow> (st', Some res)))"

definition llm_request_of :: "email_attributes \<Rightarrow> auto_rule list \<Rightarrow> llm_request" where
  "llm_request_of attrs rules =
     \<lparr>lq_rules = map ar_name rules, lq_sender = at_sender_email attrs, lq_subject = at_subject attrs,
      lq_body = take 500 (at_body attrs), lq_recipient = at_recipient attrs,
      lq_attachment = at_has_attachment attrs, lq_participants = at_thread_participant_count attrs\<rparr>"

definition try_llm_fallback ::
  "auto_env \<Rightarrow> email_event \<Rightarrow> email_attributes \<Rightarrow> auto_rule list \<Rightarrow> auto_state
     \<Rightarrow> auto_state \<times> classification_result option" where
  "try_llm_fallback env email attrs rules st =
     (case llm_match (ae_llm env) (ae_decode env) (ae_below env) (llm_request_of attrs rules) of
        Inl _ \<Rightarrow> (st, None)
      | Inr resp \<Rightarrow>
          if lp_match resp = ''none'' \<or> lp_confidence resp < hard_floor then (st, None)
          else
           (case List.find (\<lambda>r. equal_fold (ar_name r) (lp_match resp)) rules of
              None \<Rightarrow>
                (case create_staged_rule env (ev_user email) resp attrs (as_store st) of
                   (s, Inl _) \<Rightarrow> (st\<lparr>as_store := s\<rparr>, None)
                 | (s, Inr r) \<Rightarrow>
                     (case fire_rule env email (lp_confidence resp) True r (st\<lparr>as_store := s\<rparr>) of
                        (st', res) \<Rightarrow> (st', Some res)))
            | Some r \<Rightarrow>
                (let s = (if ar_status r \<noteq> ''active'' \<and> ar_status r \<noteq> ''staged''
                          then stage_rule env (ar_id r) (as_store st) else as_store st)
                 in (case fire_rule env email (lp_confidence resp) True r (st\<lparr>as_store := s\<rparr>) of
                       (st', res) \<Rightarrow> (st', Some res)))))"

text \<open>\<open>Inl\<close>: the rules could not be loaded; \<open>Inr None\<close>: not handled.\<close>

definition auto_evaluate ::
  "auto_env \<Rightarrow> email_event \<Rightarrow> email_attributes \<Rightarrow> auto_state
     \<Rightarrow> auto_state \<times> (rule_error + classification_result option)" where
  "auto_evaluate env email attrs st =
     (case cs_get_active (fail_rules env) (ae_clock env) (ev_user email) (as_store st) of
        (s, Inl e) \<Rightarrow> (st\<lparr>as_store := s\<rparr>, Inl e)
      | (s, Inr rules) \<Rightarrow>
          (case try_rules env email attrs rules (st\<lparr>as_store := s\<rparr>) of
             (st1, Some res) \<Rightarrow> (st1, Inr (Some res))
           | (st1, None) \<Rightarrow>
               (case try_llm_fallback env email attrs rules st1 of (st2, r) \<Rightarrow> (st2, Inr r))))"

section \<open>Which rule fires\<close>

text \<open>A rule fires on its own when its predicate holds and its threshold reaches the floor.\<close>

definition fires :: "regex_compile \<Rightarrow> email_attributes \<Rightarrow> auto_rule \<Rightarrow> bool" where
  "fires compile attrs r \<longleftrightarrow>
     snd (evaluate compile (ar_predicate r) attrs new_predicate_evaluator) = Inr True \<and>
     hard_floor \<le> effective_threshold r"

lemma evaluate_cache_irrelevant:
  assumes "cache_ok compile pe"
  shows "cache_ok compile (fst (evaluate compile p attrs pe)) \<and>
    (snd (evaluate compile p attrs pe) = Inr True \<longleftrightarrow>
     snd (evaluate compile p attrs new_predicate_evaluator) = Inr True)"
proof -
  obtain pe1 r1 where 1: "evaluate compile p attrs pe = (pe1, r1)" by fastforce
  obtain pe2 r2 where 2: "evaluate compile p attrs new_predicate_evaluator = (pe2, r2)" by fastforce
  show ?thesis
    using evaluate_verdict [OF assms 1] evaluate_verdict [OF new_evaluator_ok 2] 1 2 by auto
qed

lemma try_rules_find:
  "cache_ok (ae_compile env) (as_eval st) \<Longrightarrow>
   try_rules env email attrs rules st = (st', res) \<Longrightarrow>
   cache_ok (ae_compile env) (as_eval st') \<and>
   (case List.find (fires (ae_compile env) attrs) rules of
      None \<Rightarrow> res = None \<and> as_store st' = as_store st \<and> as_log st' = as_log st
    | Some r \<Rightarrow> (\<exists>pe. (st', res) = (let (st2, x) = fire_rule env email (effective_threshold r) False r
                                       (st\<lparr>as_eval := pe\<rparr>) in (st2, Some x))))"
proof (induction rules arbitrary: st)
  case Nil
  then show ?case by simp
next
  case (Cons r rules)
  obtain pe v where v: "evaluate (ae_compile env) (ar_predicate r) attrs (as_eval st) = (pe, v)" by fastforce
  note c = evaluate_cache_irrelevant [OF Cons.prems(1), of "ar_predicate r" attrs]
  have pe: "cache_ok (ae_compile env) pe" using c v by simp
  show ?case
  proof (cases "fires (ae_compile env) attrs r")
    case True
    then have "v = Inr True" "\<not> effective_threshold r < hard_floor"
      using c v by (auto simp: fires_def)
    then show ?thesis
      using Cons.prems(2) v True pe by (auto simp: fire_rule_def Let_def)
  next
    case False
    then have "v = Inl (projl v) \<or> (\<exists>m. v = Inr m \<and> (\<not> m \<or> effective_threshold r < hard_floor))"
      using c v by (cases v) (auto simp: fires_def)
    then have "try_rules env email attrs rules (st\<lparr>as_eval := pe\<rparr>) = (st', res)"
      using Cons.prems(2) v by (auto split: sum.splits)
    from Cons.IH [OF _ this] pe False show ?thesis by (auto split: option.splits)
  qed
qed

text \<open>The rules an evaluation works with.\<close>

definition loaded_rules :: "auto_env \<Rightarrow> email_event \<Rightarrow> auto_state \<Rightarrow> rule_error + auto_rule list" where
  "loaded_rules env email st =
     snd (cs_get_active (fail_rules env) (ae_clock env) (ev_user email) (as_store st))"

lemma auto_evaluate_fires:
  assumes "cache_ok (ae_compile env) (as_eval st)" and "loaded_rules env email st = Inr rules"
    and "List.find (fires (ae_compile env) attrs) rules = Some r"
  shows "\<exists>res. snd (auto_evaluate env email attrs st) = Inr (Some res) \<and>
    cl_rule res = Some (ar_id r) \<and> cl_confidence res = effective_threshold r \<and> \<not> cl_llm res \<and>
    cl_route res = route_auto \<and> cl_raw res = ev_raw email \<and> cl_user res = ev_user email \<and>
    cl_thread res = ev_thread email \<and>
    (\<not> fail_decision_log env \<longrightarrow>
       map de_rule (as_log (fst (auto_evaluate env email attrs st))) = map de_rule (as_log st) @ [ar_id r])"
proof -
  obtain s where g: "cs_get_active (fail_rules env) (ae_clock env) (ev_user email) (as_store st) = (s, Inr rules)"
    using assms(2) by (metis loaded_rules_def prod.collapse)
  obtain st1 o1 where t: "try_rules env email attrs rules (st\<lparr>as_store := s\<rparr>) = (st1, o1)" by fastforce
  have "cache_ok (ae_compile env) (as_eval (st\<lparr>as_store := s\<rparr>))" using assms(1) by simp
  from try_rules_find [OF this t] assms(3) obtain pe where
    "(st1, o1) = (let (st2, x) = fire_rule env email (effective_threshold r) False r
                                       (st\<lparr>as_store := s, as_eval := pe\<rparr>) in (st2, Some x))"
    by auto
  then show ?thesis
    using g t by (auto simp: auto_evaluate_def fire_rule_def execute_action_def log_decision_def Let_def)
qed

lemma auto_evaluate_none_fires:
  assumes "cache_ok (ae_compile env) (as_eval st)" and "loaded_rules env email st = Inr rules"
    and "List.find (fires (ae_compile env) attrs) rules = None"
  shows "\<exists>s pe. auto_evaluate env email attrs st =
    (let (st2, r) = try_llm_fallback env email attrs rules (st\<lparr>as_store := s, as_eval := pe\<rparr>)
     in (st2, Inr r)) \<and>
     (s, Inr rules) = cs_get_active (fail_rules env) (ae_clock env) (ev_user email) (as_store st)"
proof -
  obtain s where g: "cs_get_active (fail_rules env) (ae_clock env) (ev_user email) (as_store st) = (s, Inr rules)"
    using assms(2) by (metis loaded_rules_def prod.collapse)
  obtain st1 o1 where t: "try_rules env email attrs rules (st\<lparr>as_store := s\<rparr>) = (st1, o1)" by fastforce
  have "cache_ok (ae_compile env) (as_eval (st\<lparr>as_store := s\<rparr>))" using assms(1) by simp
  from try_rules_find [OF this t] assms(3)
  have "o1 = None" "as_store st1 = s" "as_log st1 = as_log st" by auto
  then have "o1 = None" "st1 = st\<lparr>as_store := s, as_eval := as_eval st1\<rparr>"
    by simp_all
  then have "auto_evaluate env email attrs st =
    (let (st2, r) = try_llm_fallback env email attrs rules (st\<lparr>as_store := s, as_eval := as_eval st1\<rparr>)
     in (st2, Inr r))"
    using g t by (simp add: auto_evaluate_def)
  then show ?thesis using g by metis
qed

text \<open>An answer of the LLM that passes \<open>llm_match\<close> names one of the rules of the request.\<close>

lemma llm_match_known:
  assumes "llm_match call decode below q = Inr resp" "lp_match resp \<noteq> ''none''"
  shows "slice_contains_fold (lq_rules q) (lp_match resp) \<and> hard_floor \<le> lp_confidence resp \<and>
    lp_confidence resp \<le> 1"
proof -
  obtain reply r where r: "call (build_prompt q) = Some reply" "parse_response decode reply = Some r"
      and ne: "lq_rules q \<noteq> []"
    using assms by (auto simp: llm_match_def split: if_splits option.splits)
  have "lp_confidence r \<le> 1"
    using r(2) by (auto simp: parse_response_def Let_def split: option.splits if_splits)
  then show ?thesis
    using assms r ne by (auto simp: llm_match_def Let_def split: if_splits)
qed

lemma llm_finds_rule:
  assumes "slice_contains_fold (map ar_name rules) v"
  shows "\<exists>r. List.find (\<lambda>r. equal_fold (ar_name r) v) rules = Some r \<and> r \<in> set rules \<and>
    equal_fold (ar_name r) v"
  using assms by (induction rules) (auto simp: slice_contains_fold_def)

lemma rule_get_active_members:
  "rule_get_active f u t = Inr rs \<Longrightarrow> r \<in> set rs \<Longrightarrow> r \<in> set t \<and> ar_user r = u \<and> ar_status r = ''active''"
  by (auto simp: rule_get_active_def by_usage_def split: if_splits)

lemma cs_increment_usage_table:
  "map (\<lambda>r. r\<lparr>ar_usage := 0\<rparr>) (cs_table (fst (cs_increment_usage gf f rid s))) =
   map (\<lambda>r. r\<lparr>ar_usage := 0\<rparr>) (cs_table s)"
proof -
  have "map (\<lambda>r. r\<lparr>ar_usage := 0\<rparr>) (update_rows (\<lambda>r. ar_id r = rid) (\<lambda>r. r\<lparr>ar_usage := ar_usage r + 1\<rparr>) t) =
      map (\<lambda>r. r\<lparr>ar_usage := 0\<rparr>) t" for t :: rule_table
    by (rule map_update_rows) simp
  then show ?thesis
    by (auto simp: cs_increment_usage_def with_owner_def rule_increment_usage_def
        split: sum.split prod.split option.split)
qed

lemma try_llm_fallback_effect:
  assumes "\<forall>r \<in> set rules. ar_status r = ''active''"
    and "try_llm_fallback env email attrs rules st = (st', res)"
  shows "map (\<lambda>r. r\<lparr>ar_usage := 0\<rparr>) (cs_table (as_store st')) =
      map (\<lambda>r. r\<lparr>ar_usage := 0\<rparr>) (cs_table (as_store st)) \<and>
    (case res of
       None \<Rightarrow> as_log st' = as_log st
     | Some c \<Rightarrow> cl_llm c \<and> cl_route c = route_auto \<and> hard_floor \<le> cl_confidence c \<and> cl_confidence c \<le> 1 \<and>
         cl_raw c = ev_raw email \<and> cl_user c = ev_user email \<and> cl_thread c = ev_thread email \<and>
         (\<exists>r \<in> set rules. cl_rule c = Some (ar_id r) \<and>
            as_log st' = fst (execute_action (ae_config env) (fail_decision_log env) r email (as_log st))))"
proof (cases "llm_match (ae_llm env) (ae_decode env) (ae_below env) (llm_request_of attrs rules)")
  case (Inl e)
  then show ?thesis using assms(2) by (simp add: try_llm_fallback_def)
next
  case (Inr resp)
  show ?thesis
  proof (cases "lp_match resp = ''none'' \<or> lp_confidence resp < hard_floor")
    case True
    then show ?thesis using assms(2) Inr by (simp add: try_llm_fallback_def)
  next
    case False
    with llm_match_known [OF Inr] have k: "slice_contains_fold (map ar_name rules) (lp_match resp)"
      "hard_floor \<le> lp_confidence resp" "lp_confidence resp \<le> 1"
      by (auto simp: llm_request_of_def)
    from llm_finds_rule [OF k(1)] obtain r where
      r: "List.find (\<lambda>r. equal_fold (ar_name r) (lp_match resp)) rules = Some r" "r \<in> set rules" by blast
    have "ar_status r = ''active''" using assms(1) r(2) by blast
    then have "(st', res) = (let (st2, x) = fire_rule env email (lp_confidence resp) True r st in (st2, Some x))"
      using assms(2) Inr False r(1) by (simp add: try_llm_fallback_def split_def)
    then show ?thesis
      using r(2) k by (auto simp: fire_rule_def Let_def cs_increment_usage_table)
  qed
qed

lemma fire_rule_coherent: "coherent (as_store st) \<Longrightarrow> coherent (as_store (fst (fire_rule env email c l r st)))"
  by (auto simp: fire_rule_def intro: cached_step_coherent cached_step.count [OF prod.collapse [symmetric]])

lemma try_llm_fallback_good:
  assumes "cache_ok (ae_compile env) (as_eval st)" "coherent (as_store st)"
    and "\<forall>r \<in> set rules. ar_status r = ''active''"
    and "try_llm_fallback env email attrs rules st = (st', res)"
  shows "cache_ok (ae_compile env) (as_eval st') \<and> coherent (as_store st')"
proof (cases "llm_match (ae_llm env) (ae_decode env) (ae_below env) (llm_request_of attrs rules)")
  case (Inl e)
  then show ?thesis using assms by (simp add: try_llm_fallback_def)
next
  case (Inr resp)
  show ?thesis
  proof (cases "lp_match resp = ''none'' \<or> lp_confidence resp < hard_floor")
    case True
    then show ?thesis using assms Inr by (auto simp: try_llm_fallback_def)
  next
    case False
    with llm_match_known [OF Inr] have "slice_contains_fold (map ar_name rules) (lp_match resp)"
      by (auto simp: llm_request_of_def)
    from llm_finds_rule [OF this] obtain r where
      r: "List.find (\<lambda>r. equal_fold (ar_name r) (lp_match resp)) rules = Some r" "r \<in> set rules" by blast
    have "ar_status r = ''active''" using assms(3) r(2) by blast
    then have "st' = fst (fire_rule env email (lp_confidence resp) True r st)"
      using assms(4) Inr False r(1) by (simp add: try_llm_fallback_def split_def)
    then show ?thesis
      using fire_rule_coherent [OF assms(2)] assms(1) by (simp add: fire_rule_def)
  qed
qed

section \<open>Guarantees of the engine\<close>

definition ex_event :: email_event where
  "ex_event = \<lparr>ev_id = 21, ev_user = 1, ev_source = ''gmail'', ev_account = 22, ev_thread = 23,
     ev_raw = 24, ev_s3 = ''s3://b/k'', ev_attachments = True, ev_sender = ''Ann@Example.com'',
     ev_received = 0, ev_offset = 0, ev_hint = ''pending'', ev_contacts = [31, 32, 33]\<rparr>"

definition ex_auto_env :: "auto_env" where
  "ex_auto_env = \<lparr>ae_clock = 10, ae_compile = ex_compile, ae_llm = (\<lambda>p. Some ''reply''),
     ae_decode = (\<lambda>s. Some \<lparr>lp_match = ''Invoices'', lp_confidence = 93/100, lp_reason = []\<rparr>),
     ae_below = (\<lambda>q. []),
     ae_config = \<lparr>dec_template = (\<lambda>c. True), dec_forward = (\<lambda>c. None), dec_notify = (\<lambda>c. True)\<rparr>,
     ae_fresh = 99, ae_insert = InsertOk, fail_rules = False, fail_decision_log = False,
     fail_usage_get = False, fail_usage = False, fail_stage_get = False, fail_stage = False\<rparr>"

definition ex_state :: "auto_rule list \<Rightarrow> auto_state" where
  "ex_state t = \<lparr>as_store = new_cached_store t, as_eval = new_predicate_evaluator, as_log = []\<rparr>"

lemma ex_state_simps [simp]:
  "cache_ok c (as_eval (ex_state t))" "as_log (ex_state t) = []"
  "as_store (ex_state t) = new_cached_store t"
  by (simp_all add: ex_state_def)

lemma ex_loaded:
  "loaded_rules ex_auto_env ex_event (ex_state t) =
     Inr (by_usage (filter (\<lambda>r. ar_user r = 1 \<and> ar_status r = ''active'') t))"
  by (simp add: loaded_rules_def cs_get_active_def new_cached_store_def new_rule_cache_def
      cache_get_def rule_get_active_def ex_auto_env_def ex_event_def)

text \<open>
  The first matching rule fires. Among the active rules of the user, most used first, the
  engine fires the first one whose predicate holds and whose threshold (0.92 when unset) reaches
  0.92: the result names that rule with its threshold as confidence, and exactly its action is
  logged. Rules before it, whether they do not match, fail to evaluate or are below the floor,
  have no effect.
\<close>

lemma first_matching_rule_fires:
  assumes "cache_ok (ae_compile env) (as_eval st)" and "loaded_rules env email st = Inr rules"
    and "rules = before @ r # after" and "\<forall>x \<in> set before. \<not> fires (ae_compile env) attrs x"
    and "fires (ae_compile env) attrs r"
  shows "\<exists>res. snd (auto_evaluate env email attrs st) = Inr (Some res) \<and>
    cl_rule res = Some (ar_id r) \<and> cl_confidence res = effective_threshold r \<and> 92/100 \<le> cl_confidence res \<and>
    \<not> cl_llm res \<and> cl_route res = ''auto'' \<and>
    (\<not> fail_decision_log env \<longrightarrow>
       map de_rule (as_log (fst (auto_evaluate env email attrs st))) = map de_rule (as_log st) @ [ar_id r])"
proof -
  have "List.find (fires (ae_compile env) attrs) rules = Some r"
    using assms(3-5) by (induction before arbitrary: rules) auto
  from auto_evaluate_fires [OF assms(1,2) this] assms(5) show ?thesis
    by (auto simp: fires_def hard_floor_def)
qed

theorem first_matching_rule_fires_witness:
  "\<exists>res. snd (auto_evaluate ex_auto_env ex_event ex_attrs (ex_state [ex_rule 7 ''active''])) = Inr (Some res) \<and>
     cl_rule res = Some 7 \<and> cl_confidence res = 95/100"
proof -
  have l: "loaded_rules ex_auto_env ex_event (ex_state [ex_rule 7 ''active'']) = Inr [ex_rule 7 ''active'']"
    unfolding ex_loaded by (simp add: by_usage_def ex_rule_def)
  have f: "fires (ae_compile ex_auto_env) ex_attrs (ex_rule 7 ''active'')"
    by (simp add: fires_def effective_threshold_def hard_floor_def ex_rule_def ex_auto_env_def
        ex_predicate_defs evaluator_defs Let_def)
  have s: "[ex_rule 7 ''active''] = [] @ ex_rule 7 ''active'' # []" by simp
  have b: "\<forall>x \<in> set []. \<not> fires (ae_compile ex_auto_env) ex_attrs x" by simp
  from first_matching_rule_fires [OF ex_state_simps(1) l s b f] show ?thesis
    by (auto simp: effective_threshold_def ex_rule_def)
qed

text \<open>
  The LLM fallback acts at once and never stages. When no rule fires by itself and the LLM path
  handles the mail, it executes the action of a currently active rule, one whose predicate does not
  hold or whose threshold is below the floor, and reports confidence between 0.92 and 1. In every
  case rules are neither created nor staged: the table changes in usage counts only.
\<close>

lemma llm_fallback_acts_without_staging:
  assumes "cache_ok (ae_compile env) (as_eval st)" and "coherent (as_store st)"
    and "loaded_rules env email st = Inr rules"
    and "\<forall>x \<in> set rules. \<not> fires (ae_compile env) attrs x"
    and "auto_evaluate env email attrs st = (st', out)"
  shows "map (\<lambda>r. r\<lparr>ar_usage := 0\<rparr>) (cs_table (as_store st')) =
      map (\<lambda>r. r\<lparr>ar_usage := 0\<rparr>) (cs_table (as_store st)) \<and>
    (\<forall>res. out = Inr (Some res) \<longrightarrow>
       cl_llm res \<and> 92/100 \<le> cl_confidence res \<and> cl_confidence res \<le> 1 \<and>
       (\<exists>r \<in> set rules. cl_rule res = Some (ar_id r) \<and> ar_status r = ''active'' \<and>
          \<not> fires (ae_compile env) attrs r \<and>
          as_log st' = fst (execute_action (ae_config env) (fail_decision_log env) r email (as_log st))))"
proof -
  have none: "List.find (fires (ae_compile env) attrs) rules = None"
    using assms(4) by (simp add: find_None_iff)
  from auto_evaluate_none_fires [OF assms(1,3) this] obtain s pe where
    run: "auto_evaluate env email attrs st =
      (let (st2, r) = try_llm_fallback env email attrs rules (st\<lparr>as_store := s, as_eval := pe\<rparr>) in (st2, Inr r))"
    and g: "(s, Inr rules) = cs_get_active (fail_rules env) (ae_clock env) (ev_user email) (as_store st)"
    by blast
  from cs_get_active_coherent [OF assms(2) g [symmetric]]
  have t: "cs_table s = cs_table (as_store st)" and act: "rule_get_active False (ev_user email) (cs_table (as_store st)) = Inr rules"
    by auto
  have active: "\<forall>r \<in> set rules. ar_status r = ''active''"
    using rule_get_active_members [OF act] by blast
  obtain st2 r2 where f: "try_llm_fallback env email attrs rules (st\<lparr>as_store := s, as_eval := pe\<rparr>) = (st2, r2)"
    by fastforce
  from try_llm_fallback_effect [OF active f] show ?thesis
    using run f assms(4,5) t active by (auto simp: hard_floor_def split: option.splits)
qed

theorem llm_fallback_acts_without_staging_witness:
  "\<exists>st' res. auto_evaluate ex_auto_env ex_event (ex_attrs\<lparr>at_sender_email := ''bob@b.org''\<rparr>)
       (ex_state [ex_rule 7 ''active'']) = (st', Inr (Some res)) \<and> cl_llm res \<and> cl_rule res = Some 7"
proof -
  let ?attrs = "ex_attrs\<lparr>at_sender_email := ''bob@b.org''\<rparr>"
  have l: "loaded_rules ex_auto_env ex_event (ex_state [ex_rule 7 ''active'']) = Inr [ex_rule 7 ''active'']"
    unfolding ex_loaded by (simp add: by_usage_def ex_rule_def)
  have n: "\<forall>x \<in> set [ex_rule 7 ''active'']. \<not> fires (ae_compile ex_auto_env) ?attrs x"
    by (simp add: fires_def ex_rule_def ex_auto_env_def ex_predicate_defs evaluator_defs Let_def)
  have c: "coherent (as_store (ex_state [ex_rule 7 ''active'']))"
    by (simp add: coherent_def new_cached_store_def new_rule_cache_def)
  obtain st' out where run: "auto_evaluate ex_auto_env ex_event ?attrs (ex_state [ex_rule 7 ''active'']) = (st', out)"
    by fastforce
  have m: "llm_match (ae_llm ex_auto_env) (ae_decode ex_auto_env) (ae_below ex_auto_env)
      (llm_request_of ?attrs [ex_rule 7 ''active'']) =
      Inr \<lparr>lp_match = ''Invoices'', lp_confidence = 93/100, lp_reason = []\<rparr>"
    by (simp add: llm_match_def llm_request_of_def ex_auto_env_def parse_response_def hard_floor_def
        slice_contains_fold_def ex_rule_def equal_fold_def to_lower_def lower_char_def char_of_def bit_0)
  have "List.find (fires (ae_compile ex_auto_env) ?attrs) [ex_rule 7 ''active''] = None"
    using n by simp
  from auto_evaluate_none_fires [OF ex_state_simps(1) l this] obtain res where "out = Inr (Some res)"
    using run m
    by (auto simp: try_llm_fallback_def hard_floor_def ex_rule_def equal_fold_def to_lower_def
        lower_char_def char_of_def bit_0 split_def Let_def)
  with llm_fallback_acts_without_staging [OF ex_state_simps(1) c l n run] run show ?thesis
    by (auto simp: ex_rule_def)
qed

end
