(* ===== verification/Classification.thy ===== *)
theory Classification
  imports Auto_Engine
begin

text \<open>
  Routing: the tri-state router and the message handler of
  \<open>src/classification/internal/router/\<close> (\<open>router.go\<close>, \<open>pipeline.go\<close>) over the interfaces it
  declares for the extractor and the auto-handle engine, and the second classifier of
  \<open>src/classification/internal/classifier/engine.go\<close>. The interface of the auto-handle engine is a
  locale, interpreted on the model of that engine.
\<close>

section \<open>Attributes of an event\<close>

definition hour_of :: "instant \<Rightarrow> duration \<Rightarrow> int" where
  "hour_of t offset = ((t + offset) div hour_ns) mod 24"

text \<open>1 January 1970 was a Thursday, day 4 of Go's week.\<close>

definition weekday_of :: "instant \<Rightarrow> duration \<Rightarrow> int" where
  "weekday_of t offset = ((t + offset) div (24 * hour_ns) + 4) mod 7"

definition build_attributes :: "email_event \<Rightarrow> email_attributes" where
  "build_attributes ev =
     \<lparr>at_sender_email = ev_sender ev,
      at_sender_domain = (case split_on (CHR ''@'') (ev_sender ev) of [u, d] \<Rightarrow> d | _ \<Rightarrow> []),
      at_subject = [], at_body = [], at_recipient = [],
      at_has_attachment = ev_attachments ev,
      at_thread_participant_count = int (length (ev_contacts ev)),
      at_time_of_day = hour_of (ev_received ev) (ev_offset ev),
      at_day_of_week = weekday_of (ev_received ev) (ev_offset ev)\<rparr>"

section \<open>The router\<close>

type_synonym 'e extractor = "email_event \<Rightarrow> 'e + extracted_datum option"
type_synonym ('s, 'e) auto_engine =
  "email_event \<Rightarrow> email_attributes \<Rightarrow> 's \<Rightarrow> 's \<times> ('e + classification_result option)"

definition route ::
  "'x extractor \<Rightarrow> ('s, 'e) auto_engine \<Rightarrow> instant \<Rightarrow> email_event \<Rightarrow> 's
     \<Rightarrow> 's \<times> classification_result" where
  "route xtract auto now ev s =
     (let base = \<lparr>cl_raw = ev_raw ev, cl_user = ev_user ev, cl_thread = ev_thread ev,
                  cl_route = route_decision, cl_confidence = 0, cl_rule = None, cl_extracted = None,
                  cl_llm = False, cl_processed = now\<rparr>
      in (case xtract ev of
            Inr (Some datum) \<Rightarrow>
              (s, base\<lparr>cl_route := route_extract, cl_confidence := 1, cl_extracted := Some datum\<rparr>)
          | _ \<Rightarrow>
              (case auto ev (build_attributes ev) s of
                 (s', Inr (Some r)) \<Rightarrow> (s', r\<lparr>cl_processed := now\<rparr>)
               | (s', _) \<Rightarrow> (s', base))))"

definition is_terminal_route :: "string \<Rightarrow> bool" where
  "is_terminal_route r \<longleftrightarrow> r = route_extract \<or> r = route_auto \<or> r = route_decision"

definition route_for_rule_id ::
  "instant \<Rightarrow> email_event \<Rightarrow> uuid \<Rightarrow> rat \<Rightarrow> string \<Rightarrow> classification_result" where
  "route_for_rule_id now ev rid confidence action =
     \<lparr>cl_raw = ev_raw ev, cl_user = ev_user ev, cl_thread = ev_thread ev, cl_route = action,
      cl_confidence = confidence, cl_rule = Some rid, cl_extracted = None, cl_llm = False,
      cl_processed = now\<rparr>"

datatype result_error =
    MissingRawEmail | MissingUser | NonTerminalRoute string | MissingExtracted | MissingRule

definition validate_result :: "classification_result \<Rightarrow> result_error option" where
  "validate_result r =
     (if cl_raw r = uuid_nil then Some MissingRawEmail
      else if cl_user r = uuid_nil then Some MissingUser
      else if \<not> is_terminal_route (cl_route r) then Some (NonTerminalRoute (cl_route r))
      else if cl_route r = route_extract \<and> cl_extracted r = None then Some MissingExtracted
      else if cl_route r = route_auto \<and> cl_rule r = None then Some MissingRule
      else None)"

section \<open>The message handler\<close>

text \<open>
  \<open>handleMessage\<close> on a message whose body decodes to an event or does not: the new state, what was
  published and how the message was settled.
\<close>

datatype settlement = Acked | Naked | LeftUnacked

definition handle_message ::
  "'x extractor \<Rightarrow> ('s, 'e) auto_engine \<Rightarrow> instant \<Rightarrow> bool \<Rightarrow> bool \<Rightarrow> email_event option \<Rightarrow> 's
     \<Rightarrow> 's \<times> classification_result list \<times> settlement" where
  "handle_message xtract auto now publish_fails ack_fails msg s =
     (case msg of
        None \<Rightarrow> (s, [], Naked)
      | Some ev \<Rightarrow>
          (let (s', r) = route xtract auto now ev s
           in if validate_result r \<noteq> None then (s', [], Naked)
              else if publish_fails then (s', [], Naked)
              else (s', [r], if ack_fails then LeftUnacked else Acked)))"

section \<open>The interface of the auto-handle engine\<close>

text \<open>
  What the router relies on: an engine in good order stays so, and a handled mail comes with an
  auto result for that mail which names a rule and has confidence of at least 0.92.
\<close>

locale auto_handler =
  fixes eval :: "('s, 'e) auto_engine"
    and good :: "'s \<Rightarrow> bool"
  assumes eval_good: "good s \<Longrightarrow> good (fst (eval ev attrs s))"
    and eval_handled: "good s \<Longrightarrow> snd (eval ev attrs s) = Inr (Some r) \<Longrightarrow>
      cl_raw r = ev_raw ev \<and> cl_user r = ev_user ev \<and> cl_thread r = ev_thread ev \<and>
      cl_route r = route_auto \<and> cl_rule r \<noteq> None \<and> hard_floor \<le> cl_confidence r"
begin

lemma route_good: "good s \<Longrightarrow> good (fst (route xtract eval now ev s))"
  using eval_good [of s ev "build_attributes ev"]
  by (simp add: route_def Let_def split_def split: sum.split option.split)

lemma route_not_extracted:
  assumes "\<nexists>d. xtract ev = Inr (Some d)" and "eval ev (build_attributes ev) s = (s', out)"
  shows "route xtract eval now ev s =
    (s', case out of
           Inr (Some r) \<Rightarrow> r\<lparr>cl_processed := now\<rparr>
         | _ \<Rightarrow> \<lparr>cl_raw = ev_raw ev, cl_user = ev_user ev, cl_thread = ev_thread ev,
                  cl_route = route_decision, cl_confidence = 0, cl_rule = None, cl_extracted = None,
                  cl_llm = False, cl_processed = now\<rparr>)"
proof (cases "xtract ev")
  case (Inl e)
  then show ?thesis using assms(2) by (simp add: route_def Let_def split: sum.split option.split)
next
  case (Inr d)
  then have "d = None" using assms(1) by (cases d) auto
  then show ?thesis using assms(2) Inr by (simp add: route_def Let_def split: sum.split option.split)
qed

lemma route_result:
  assumes "good s" and "route xtract eval now ev s = (s1, c)"
  shows "cl_raw c = ev_raw ev \<and> cl_user c = ev_user ev \<and> cl_processed c = now \<and>
    ((cl_route c = route_extract \<and> xtract ev = Inr (cl_extracted c) \<and> cl_extracted c \<noteq> None) \<or>
     (cl_route c = route_auto \<and> cl_rule c \<noteq> None \<and> hard_floor \<le> cl_confidence c) \<or>
     (cl_route c = route_decision \<and> cl_confidence c = 0))"
proof (cases "\<exists>d. xtract ev = Inr (Some d)")
  case True
  then show ?thesis using assms(2) by (auto simp: route_def Let_def)
next
  case False
  obtain s' out where e: "eval ev (build_attributes ev) s = (s', out)" by fastforce
  note c = route_not_extracted [where xtract = xtract and ev = ev and now = now, OF False e]
  show ?thesis
  proof (cases "\<exists>r. out = Inr (Some r)")
    case True
    then obtain r where r: "out = Inr (Some r)" by blast
    have "cl_raw r = ev_raw ev \<and> cl_user r = ev_user ev \<and>
        cl_route r = route_auto \<and> cl_rule r \<noteq> None \<and> hard_floor \<le> cl_confidence r"
      using eval_handled [OF assms(1), of ev "build_attributes ev" r] e r by simp
    then show ?thesis using assms(2) c r by auto
  next
    case False
    then have "c = \<lparr>cl_raw = ev_raw ev, cl_user = ev_user ev, cl_thread = ev_thread ev,
                  cl_route = route_decision, cl_confidence = 0, cl_rule = None, cl_extracted = None,
                  cl_llm = False, cl_processed = now\<rparr>"
      using assms(2) c by (auto split: sum.splits option.splits)
    then show ?thesis by simp
  qed
qed

lemma route_valid:
  assumes "good s"
  shows "validate_result (snd (route xtract eval now ev s)) = None \<longleftrightarrow>
    ev_raw ev \<noteq> uuid_nil \<and> ev_user ev \<noteq> uuid_nil"
proof -
  obtain s1 c where c: "route xtract eval now ev s = (s1, c)" by fastforce
  from route_result [OF assms this] c show ?thesis
    by (auto simp: validate_result_def is_terminal_route_def)
qed

text \<open>A run of messages, each with its publication and acknowledgement faults.\<close>

primrec run_messages ::
  "'x extractor \<Rightarrow> (instant \<times> bool \<times> bool \<times> email_event option) list \<Rightarrow> 's
     \<Rightarrow> 's \<times> (classification_result list \<times> settlement) list" where
  "run_messages xtract [] s = (s, [])"
| "run_messages xtract (m # ms) s =
     (case m of (now, pf, af, msg) \<Rightarrow>
        (case handle_message xtract eval now pf af msg s of
           (s', out) \<Rightarrow> (case run_messages xtract ms s' of (s'', outs) \<Rightarrow> (s'', out # outs))))"

lemma handle_message_good: "good s \<Longrightarrow> good (fst (handle_message xtract eval now pf af msg s))"
  using route_good [of s xtract now]
  by (auto simp: handle_message_def Let_def split_def split: option.split)

lemma handle_message_settles:
  assumes "good s"
  shows "(case snd (handle_message xtract eval now pf af msg s) of
      (published, settled) \<Rightarrow>
        (settled = Naked \<longleftrightarrow> published = []) \<and>
        (settled = Naked \<longleftrightarrow>
           pf \<or> (case msg of None \<Rightarrow> True | Some ev \<Rightarrow> ev_raw ev = uuid_nil \<or> ev_user ev = uuid_nil)) \<and>
        (settled = LeftUnacked \<longleftrightarrow> published \<noteq> [] \<and> af))"
  using route_valid [OF assms, of xtract now]
  by (cases msg) (simp_all add: handle_message_def Let_def split_def del: not_None_eq)

lemma run_messages_good: "good s \<Longrightarrow> good (fst (run_messages xtract ms s))"
proof (induction ms arbitrary: s)
  case (Cons m ms)
  obtain now pf af msg where m: "m = (now, pf, af, msg)" using prod_cases4 by blast
  show ?case
    using Cons.IH handle_message_good [OF Cons.prems, of xtract now pf af msg]
    by (simp add: m split_def)
qed simp

end
section \<open>The engine provides the interface\<close>

lemma auto_evaluate_good:
  assumes "cache_ok (ae_compile env) (as_eval st)" and "coherent (as_store st)"
    and run: "auto_evaluate env ev attrs st = (st', out)"
  shows "cache_ok (ae_compile env) (as_eval st') \<and> coherent (as_store st') \<and>
    (\<forall>r. out = Inr (Some r) \<longrightarrow> cl_raw r = ev_raw ev \<and> cl_user r = ev_user ev \<and> cl_thread r = ev_thread ev \<and>
      cl_route r = route_auto \<and> cl_rule r \<noteq> None \<and> hard_floor \<le> cl_confidence r)"
proof -
  obtain s res where g: "cs_get_active (fail_rules env) (ae_clock env) (ev_user ev) (as_store st) = (s, res)"
    by fastforce
  note gc = cs_get_active_coherent [OF assms(2) g]
  show ?thesis
  proof (cases res)
    case (Inl e)
    then show ?thesis using run g gc assms(1) by (auto simp: auto_evaluate_def)
  next
    case (Inr rules)
    have active: "\<forall>r \<in> set rules. ar_status r = ''active''"
      using gc Inr rule_get_active_members by blast
    obtain st1 o1 where t: "try_rules env ev attrs rules (st\<lparr>as_store := s\<rparr>) = (st1, o1)" by fastforce
    have "cache_ok (ae_compile env) (as_eval (st\<lparr>as_store := s\<rparr>))" using assms(1) by simp
    note tr = try_rules_find [OF this t]
    show ?thesis
    proof (cases "List.find (fires (ae_compile env) attrs) rules")
      case None
      then have st1: "o1 = None" "as_store st1 = s" using tr by auto
      obtain st2 r2 where f: "try_llm_fallback env ev attrs rules st1 = (st2, r2)" by fastforce
      have "st' = st2" "out = Inr r2" using run g Inr t st1 f by (simp_all add: auto_evaluate_def)
      moreover have "cache_ok (ae_compile env) (as_eval st2) \<and> coherent (as_store st2)"
        using try_llm_fallback_good [OF _ _ active f] tr st1 gc by simp
      ultimately show ?thesis
        using try_llm_fallback_effect [OF active f] by (auto split: option.splits)
    next
      case (Some r)
      with tr obtain pe where
        "(st1, o1) = (let (st2, x) = fire_rule env ev (effective_threshold r) False r
             (st\<lparr>as_store := s, as_eval := pe\<rparr>) in (st2, Some x))" by auto
      moreover have "hard_floor \<le> effective_threshold r"
        using Some by (auto simp: find_Some_iff fires_def)
      moreover have "coherent (as_store (fst (fire_rule env ev (effective_threshold r) False r
             (st\<lparr>as_store := s, as_eval := pe\<rparr>))))"
        by (rule fire_rule_coherent) (use gc in simp)
      ultimately show ?thesis
        using run g Inr t tr by (auto simp: auto_evaluate_def split_def) (auto simp: fire_rule_def)
    qed
  qed
qed

interpretation auto: auto_handler "auto_evaluate env"
    "\<lambda>st. cache_ok (ae_compile env) (as_eval st) \<and> coherent (as_store st)" for env
  by unfold_locales (metis auto_evaluate_good prod.collapse, metis auto_evaluate_good prod.collapse)

section \<open>Guarantees of the router\<close>


lemma ex_state_good:
  "distinct (map ar_id t) \<Longrightarrow> coherent (as_store (ex_state t))"
  by (simp add: coherent_def new_cached_store_def new_rule_cache_def)




text \<open>
  Text conditions are dead in the pipeline. The router never fills in subject, body and
  recipient, so for every event a condition that one of them equals or contains a given nonempty
  text is false in the engine; a rule that requires such a condition never fires.
\<close>

lemma text_rules_never_fire:
  assumes "f \<in> {''subject'', ''body'', ''recipient''}" and "v \<noteq> []" and "oper \<in> {''eq'', ''contains''}"
    and "\<lparr>cond_field = f, cond_op = oper, cond_value = VStr v\<rparr> \<in> set (all_of (ar_predicate r))"
  shows "\<not> fires compile (build_attributes ev) r"
proof -
  have "condition_verdict compile (build_attributes ev)
      \<lparr>cond_field = f, cond_op = oper, cond_value = VStr v\<rparr> = Inr False"
  proof -
    have a: "attr_get (build_attributes ev) f = VStr []"
      using assms(1) by (elim insertE emptyE) (simp_all add: attr_get_def build_attributes_def)
    show ?thesis
      using assms(2,3) by (elim insertE emptyE)
        (simp_all add: condition_verdict_def eval_condition_def a eval_eq_def eval_contains_def equal_fold_def)
  qed
  moreover obtain pe' res where "evaluate compile (ar_predicate r) (build_attributes ev) new_predicate_evaluator = (pe', res)"
    by fastforce
  ultimately show ?thesis
    using evaluate_verdict [OF new_evaluator_ok, of compile "ar_predicate r" "build_attributes ev" pe' res] assms(4)
    by (fastforce simp: fires_def)
qed

theorem text_rules_never_fire_witness:
  "\<not> fires ex_compile (build_attributes ex_event)
     ((ex_rule 7 ''active'')\<lparr>ar_predicate := \<lparr>all_of =
        [\<lparr>cond_field = ''subject'', cond_op = ''contains'', cond_value = VStr ''Invoice''\<rparr>], any_of = []\<rparr>\<rparr>)"
  by (rule text_rules_never_fire [of "''subject''" "''Invoice''" "''contains''"]) simp_all

section \<open>The second classifier\<close>

text \<open>
  \<open>classifier.Engine\<close>: its configuration, an optional extractor that returns a result, the rule
  store of the rules package, an optional LLM client. It uses the evaluator of the models package.
\<close>

record classifier_config =
  cc_floor :: rat
  cc_llm_enabled :: bool

definition cl_extract_domain :: "string \<Rightarrow> string" where
  "cl_extract_domain email =
     (if CHR ''@'' \<in> set email then rev (takeWhile (\<lambda>c. c \<noteq> CHR ''@'') (rev email)) else [])"

definition cl_build_attributes :: "email_event \<Rightarrow> email_attributes" where
  "cl_build_attributes ev =
     \<lparr>at_sender_email = ev_sender ev, at_sender_domain = cl_extract_domain (ev_sender ev),
      at_subject = [], at_body = [], at_recipient = [], at_has_attachment = ev_attachments ev,
      at_thread_participant_count = 1, at_time_of_day = hour_of (ev_received ev) (ev_offset ev),
      at_day_of_week = weekday_of (ev_received ev) (ev_offset ev)\<rparr>"

definition cl_try_extract ::
  "(email_event \<Rightarrow> 'x + classification_result option) option \<Rightarrow> email_event \<Rightarrow> extracted_datum option" where
  "cl_try_extract ex ev =
     (case ex of
        None \<Rightarrow> None
      | Some f \<Rightarrow>
          (case f ev of
             Inr (Some r) \<Rightarrow> if cl_route r = route_extract then cl_extracted r else None
           | _ \<Rightarrow> None))"

fun cl_match_rules ::
  "regex_compile \<Rightarrow> rat \<Rightarrow> email_attributes \<Rightarrow> auto_rule list \<Rightarrow> (uuid \<times> rat) option" where
  "cl_match_rules compile flr attrs [] = None"
| "cl_match_rules compile flr attrs (r # rs) =
     (case predicate_evaluate compile (ar_predicate r) attrs of
        Inr True \<Rightarrow> Some (ar_id r, if ar_threshold r < flr then flr else ar_threshold r)
      | _ \<Rightarrow> cl_match_rules compile flr attrs rs)"

definition cl_llm_request :: "email_event \<Rightarrow> llm_request" where
  "cl_llm_request ev =
     \<lparr>lq_rules = [], lq_sender = ev_sender ev, lq_subject = [], lq_body = [], lq_recipient = [],
      lq_attachment = ev_attachments ev, lq_participants = 1\<rparr>"

definition classify ::
  "classifier_config \<Rightarrow> regex_compile \<Rightarrow> (email_event \<Rightarrow> 'x + classification_result option) option
     \<Rightarrow> (llm_request \<Rightarrow> 'e + llm_response) option \<Rightarrow> bool \<Rightarrow> instant \<Rightarrow> rule_table \<Rightarrow> email_event
     \<Rightarrow> classification_result" where
  "classify cfg compile ex llm list_fault now t ev =
     (let result = \<lparr>cl_raw = ev_raw ev, cl_user = ev_user ev, cl_thread = ev_thread ev,
                    cl_route = route_decision, cl_confidence = 1, cl_rule = None, cl_extracted = None,
                    cl_llm = False, cl_processed = now\<rparr>
      in (case cl_try_extract ex ev of
            Some d \<Rightarrow> result\<lparr>cl_route := route_extract, cl_extracted := Some d\<rparr>
          | None \<Rightarrow>
             (case rs_list_active list_fault (ev_user ev) t of
                Inl _ \<Rightarrow> result
              | Inr rules \<Rightarrow>
                 (let fallback =
                    (case llm of
                       Some f \<Rightarrow>
                         if cc_llm_enabled cfg
                         then (case f (cl_llm_request ev) of
                                 Inl _ \<Rightarrow> result
                               | Inr a \<Rightarrow>
                                   if lp_match a \<noteq> ''none'' \<and> cc_floor cfg \<le> lp_confidence a
                                   then result\<lparr>cl_route := route_auto, cl_confidence := lp_confidence a,
                                               cl_llm := True\<rparr>
                                   else result\<lparr>cl_confidence := 95/100\<rparr>)
                         else result\<lparr>cl_confidence := 95/100\<rparr>
                     | None \<Rightarrow> result\<lparr>cl_confidence := 95/100\<rparr>)
                  in (case cl_match_rules compile (cc_floor cfg) (cl_build_attributes ev) rules of
                        Some (rid, conf) \<Rightarrow>
                          if cc_floor cfg \<le> conf
                          then result\<lparr>cl_route := route_auto, cl_confidence := conf, cl_rule := Some rid\<rparr>
                          else fallback
                      | None \<Rightarrow> fallback)))))"

lemma cl_match_rules_floor: "cl_match_rules compile flr attrs rs = Some (rid, conf) \<Longrightarrow> flr \<le> conf"
  by (induction rs) (auto split: sum.splits bool.splits if_splits)

lemma cl_match_rules_first:
  "cl_match_rules compile flr attrs (before @ r # after) =
     Some (ar_id r, max flr (ar_threshold r))"
  if "predicate_evaluate compile (ar_predicate r) attrs = Inr True"
    "\<forall>x \<in> set before. predicate_evaluate compile (ar_predicate x) attrs \<noteq> Inr True"
  using that by (induction before) (auto split: sum.splits bool.splits simp: max_def)

text \<open>
  The confidence floor of the classifier is vacuous. The first active rule whose predicate
  holds handles the mail whatever its own threshold is: a threshold below the floor is raised to
  the floor before it is compared with it, so the branch that rejects a rule below the floor is
  never taken and the reported confidence is the larger of the two.
\<close>

lemma classifier_floor_is_vacuous:
  assumes "cl_try_extract ex ev = None" and "rs_list_active list_fault (ev_user ev) t = Inr (before @ r # after)"
    and "predicate_evaluate compile (ar_predicate r) (cl_build_attributes ev) = Inr True"
    and "\<forall>x \<in> set before. predicate_evaluate compile (ar_predicate x) (cl_build_attributes ev) \<noteq> Inr True"
  shows "cl_route (classify cfg compile ex llm list_fault now t ev) = ''auto'' \<and>
    cl_rule (classify cfg compile ex llm list_fault now t ev) = Some (ar_id r) \<and>
    cl_confidence (classify cfg compile ex llm list_fault now t ev) = max (cc_floor cfg) (ar_threshold r)"
  using assms(1,2) cl_match_rules_first [OF assms(3,4), of "cc_floor cfg" after]
  by (simp add: classify_def Let_def)

theorem classifier_floor_is_vacuous_witness:
  "cl_route (classify \<lparr>cc_floor = 92/100, cc_llm_enabled = False\<rparr> ex_compile
     (None :: (email_event \<Rightarrow> unit + classification_result option) option)
     (None :: (llm_request \<Rightarrow> unit + llm_response) option) False 9
     [(ex_rule 7 ''active'')\<lparr>ar_threshold := 1/10, ar_predicate := \<lparr>all_of = [], any_of = []\<rparr>\<rparr>] ex_event) = ''auto''"
proof -
  let ?r = "(ex_rule 7 ''active'')\<lparr>ar_threshold := 1/10, ar_predicate := \<lparr>all_of = [], any_of = []\<rparr>\<rparr>"
  have l: "rs_list_active False (ev_user ex_event) [?r] = Inr ([] @ ?r # [])"
    by (simp add: rs_list_active_def newest_first_def ex_rule_def ex_event_def)
  have p: "predicate_evaluate ex_compile (ar_predicate ?r) (cl_build_attributes ex_event) = Inr True"
    by (simp add: predicate_evaluate_def)
  show ?thesis
    by (rule conjunct1 [OF classifier_floor_is_vacuous [OF _ l p]]) (simp_all add: cl_try_extract_def)
qed

end
