(* ===== verification/Extractor.thy ===== *)
theory Extractor
  imports Classification
begin

text \<open>
  The extract-only pipeline of \<open>src/classification/internal/extract/\<close>: the bank of regular expressions
  (\<open>regex_bank.go\<close>), the neural classifier with its tokenizer (\<open>onnx_classifier.go\<close>), the store of mail
  bodies (\<open>rawemail_store.go\<close>) and the extractor that runs them (\<open>extractor.go\<close>), which the second
  classifier of \<open>Classification\<close> calls first. The compiler of regular expressions gives for a text the
  match and its groups; it and the text \<open>%.4f\<close> of a confidence are arguments.
\<close>

section \<open>Types of data\<close>

abbreviation (input) type_2fa :: string where "type_2fa \<equiv> ''2fa''"
abbreviation (input) type_tracking :: string where "type_tracking \<equiv> ''tracking''"
abbreviation (input) type_calendar :: string where "type_calendar \<equiv> ''calendar''"
abbreviation (input) type_receipt :: string where "type_receipt \<equiv> ''receipt''"
abbreviation (input) type_newsletter :: string where "type_newsletter \<equiv> ''newsletter''"
abbreviation (input) type_notification :: string where "type_notification \<equiv> ''notification''"

definition notification_templates :: "string \<rightharpoonup> string" where
  "notification_templates = map_of
     [(type_2fa, ''Verification code detected''), (type_tracking, ''Package tracking update''),
      (type_calendar, ''Calendar event received''), (type_receipt, ''Receipt or order confirmation''),
      (type_newsletter, ''Newsletter received''), (type_notification, ''Notification received'')]"

section \<open>The bank\<close>

record bank_pattern =
  bp_name :: string
  bp_type :: string
  bp_priority :: int
  bp_regex :: string

record compiled_pattern =
  cp_name :: string
  cp_type :: string
  cp_priority :: int
  cp_find :: "string \<Rightarrow> string list option"

type_synonym submatch_compile = "string \<Rightarrow> (string \<Rightarrow> string list option) option"

definition backslash :: string where "backslash = [CHR 0x5C]"

definition bank_patterns :: "bank_pattern list" where
  "bank_patterns = [\<lparr>bp_name = ''2fa_8digit'', bp_type = type_2fa, bp_priority = 10,
     bp_regex = ''(?i)(?:code|verify|verification|otp|token|pin)[^'' @ backslash @ ''d]{0,20}('' @ backslash @ ''d{8})''\<rparr>,
   \<lparr>bp_name = ''2fa_6digit'', bp_type = type_2fa, bp_priority = 10,
     bp_regex = ''(?i)(?:code|verify|verification|otp|token|pin)[^'' @ backslash @ ''d]{0,20}('' @ backslash @ ''d{6})''\<rparr>,
   \<lparr>bp_name = ''2fa_5digit'', bp_type = type_2fa, bp_priority = 10,
     bp_regex = ''(?i)(?:code|verify|verification|otp|token|pin)[^'' @ backslash @ ''d]{0,20}('' @ backslash @ ''d{5})''\<rparr>,
   \<lparr>bp_name = ''2fa_4digit'', bp_type = type_2fa, bp_priority = 10,
     bp_regex = ''(?i)(?:code|verify|verification|otp|token|pin)[^'' @ backslash @ ''d]{0,20}('' @ backslash @ ''d{4})''\<rparr>,
   \<lparr>bp_name = ''2fa_alpha_numeric'', bp_type = type_2fa, bp_priority = 10,
     bp_regex = ''(?i:(?:code|verify|verification|otp|token|pin))[^A-Z0-9'' @ backslash @ ''n]{0,30}([A-Z0-9]{4,8})'' @ backslash @ ''b''\<rparr>,
   \<lparr>bp_name = ''ups_tracking'', bp_type = type_tracking, bp_priority = 8,
     bp_regex = backslash @ ''b(1Z[0-9A-Z]{16})'' @ backslash @ ''b''\<rparr>,
   \<lparr>bp_name = ''fedex_tracking'', bp_type = type_tracking, bp_priority = 8,
     bp_regex = backslash @ ''b('' @ backslash @ ''d{12,14})'' @ backslash @ ''b''\<rparr>,
   \<lparr>bp_name = ''usps_tracking_22'', bp_type = type_tracking, bp_priority = 8,
     bp_regex = backslash @ ''b('' @ backslash @ ''d{20,22})'' @ backslash @ ''b''\<rparr>,
   \<lparr>bp_name = ''usps_tracking_13'', bp_type = type_tracking, bp_priority = 8,
     bp_regex = backslash @ ''b([A-Z]{2}'' @ backslash @ ''d{9}[A-Z]{2})'' @ backslash @ ''b''\<rparr>,
   \<lparr>bp_name = ''dhl_tracking'', bp_type = type_tracking, bp_priority = 8,
     bp_regex = backslash @ ''b('' @ backslash @ ''d{10,11})'' @ backslash @ ''b''\<rparr>,
   \<lparr>bp_name = ''order_number_hash'', bp_type = type_receipt, bp_priority = 7,
     bp_regex = ''(?i)(?:order'' @ backslash @ ''s*#|order'' @ backslash @ ''s*number|order'' @ backslash @ ''s*id)[^'' @ backslash @ ''w]{0,10}([A-Z0-9'' @ backslash @ ''-]{4,25})''\<rparr>,
   \<lparr>bp_name = ''order_number_label'', bp_type = type_receipt, bp_priority = 7,
     bp_regex = ''(?i)(?:order|invoice|receipt)[^'' @ backslash @ ''w]{0,5}(?:#|no'' @ backslash @ ''.?|number)[^'' @ backslash @ ''w]{0,10}([A-Z0-9'' @ backslash @ ''-]{4,25})''\<rparr>,
   \<lparr>bp_name = ''receipt_total_dollar'', bp_type = type_receipt, bp_priority = 7,
     bp_regex = ''(?i)(?:total|amount|paid|charge)[^'' @ backslash @ ''d]{0,15}'' @ backslash @ ''$?(['' @ backslash @ ''d,]+'' @ backslash @ ''.'' @ backslash @ ''d{2})''\<rparr>,
   \<lparr>bp_name = ''receipt_total_eur'', bp_type = type_receipt, bp_priority = 7,
     bp_regex = ''(?i)(?:total|amount|paid|charge)[^'' @ backslash @ ''d]{0,15}('' @ [CHR 0xE2, CHR 0x82, CHR 0xAC] @ ''['' @ backslash @ ''d,]+'' @ backslash @ ''.'' @ backslash @ ''d{2})''\<rparr>,
   \<lparr>bp_name = ''receipt_subtotal'', bp_type = type_receipt, bp_priority = 7,
     bp_regex = ''(?i)subtotal[^'' @ backslash @ ''d]{0,15}'' @ backslash @ ''$?(['' @ backslash @ ''d,]+'' @ backslash @ ''.'' @ backslash @ ''d{2})''\<rparr>]"

definition compile_pattern :: "submatch_compile \<Rightarrow> bank_pattern \<Rightarrow> compiled_pattern option" where
  "compile_pattern compile p =
     map_option (\<lambda>f. \<lparr>cp_name = bp_name p, cp_type = bp_type p, cp_priority = bp_priority p, cp_find = f\<rparr>) (compile (bp_regex p))"

text \<open>Patterns that do not compile are skipped.\<close>

definition compile_patterns :: "submatch_compile \<Rightarrow> bank_pattern list \<Rightarrow> compiled_pattern list" where
  "compile_patterns compile ps = List.map_filter (compile_pattern compile) ps"

definition pattern_names :: "compiled_pattern list \<Rightarrow> string list" where
  "pattern_names cps = map cp_name cps"

definition pattern_count :: "compiled_pattern list \<Rightarrow> nat" where
  "pattern_count cps = length cps"

record match_candidate =
  mc_type :: string
  mc_pattern :: string
  mc_priority :: int
  mc_value :: string

definition normalize_input :: "string \<Rightarrow> string \<Rightarrow> string" where
  "normalize_input subject body = (if subject \<noteq> [] then subject @ '' '' else []) @ take 2048 body"

text \<open>The groups start with the full match.\<close>

definition pick_capture_group :: "string list \<Rightarrow> string" where
  "pick_capture_group groups =
     (case List.find (\<lambda>g. g \<noteq> []) (tl groups) of Some g \<Rightarrow> g | None \<Rightarrow> hd groups)"

definition build_datum :: "match_candidate \<Rightarrow> extracted_datum" where
  "build_datum c =
     \<lparr>xd_type = mc_type c, xd_value = mc_value c,
      xd_text = (case notification_templates (mc_type c) of Some t \<Rightarrow> t | None \<Rightarrow> ''Extracted data detected'')\<rparr>"

definition calendar_datum :: extracted_datum where
  "calendar_datum = \<lparr>xd_type = type_calendar, xd_value = ''calendar_invite'', xd_text = the (notification_templates type_calendar)\<rparr>"

definition calendar_indicators :: "string list" where
  "calendar_indicators = [''.ics'', ''.ical'', ''.ifb'', ''.icalendar'', ''invite.ics'', ''calendar.ics'']"

definition calendar_subject_keywords :: "string list" where
  "calendar_subject_keywords =
     [''invitation:'', ''invite:'', ''accepted:'', ''tentative:'', ''declined:'', ''updated invitation'', ''canceled:'', ''cancellation:'']"

definition detect_calendar_mime :: "email_event \<Rightarrow> string \<Rightarrow> extracted_datum option" where
  "detect_calendar_mime ev subject =
     (if list_ex (str_contains (to_lower (ev_s3 ev))) calendar_indicators then Some calendar_datum
      else if list_ex (str_contains (to_lower subject)) calendar_subject_keywords then Some calendar_datum
      else None)"

definition candidate_of :: "compiled_pattern \<Rightarrow> string \<Rightarrow> match_candidate option" where
  "candidate_of cp txt =
     map_option (\<lambda>groups. \<lparr>mc_type = cp_type cp, mc_pattern = cp_name cp, mc_priority = cp_priority cp,
                          mc_value = pick_capture_group groups\<rparr>) (cp_find cp txt)"

fun best_match :: "string \<Rightarrow> compiled_pattern list \<Rightarrow> match_candidate option \<Rightarrow> match_candidate option" where
  "best_match txt [] best = best"
| "best_match txt (cp # cps) best =
     (case candidate_of cp txt of
        None \<Rightarrow> best_match txt cps best
      | Some cand \<Rightarrow>
          best_match txt cps
            (case best of None \<Rightarrow> Some cand | Some b \<Rightarrow> if mc_priority cand > mc_priority b then Some cand else Some b))"

definition extract_datum :: "compiled_pattern list \<Rightarrow> email_event \<Rightarrow> string \<Rightarrow> string \<Rightarrow> extracted_datum option" where
  "extract_datum cps ev subject body =
     (case detect_calendar_mime ev subject of
        Some d \<Rightarrow> Some d
      | None \<Rightarrow>
          (let txt = normalize_input subject body
           in if txt = [] then None else map_option build_datum (best_match txt cps None)))"

section \<open>The neural classifier\<close>

abbreviation (input) class_unknown :: string where "class_unknown \<equiv> ''unknown''"

definition label_order :: "string list" where
  "label_order = [''is_receipt'', ''is_newsletter'', ''is_notification'']"

definition onnx_confidence_threshold :: rat where
  "onnx_confidence_threshold = 95/100"

definition is_below_threshold :: "rat \<Rightarrow> bool" where
  "is_below_threshold c \<longleftrightarrow> c < onnx_confidence_threshold"

definition arg_max_loop :: "(nat \<times> rat) list \<Rightarrow> nat \<times> rat \<Rightarrow> nat \<times> rat" where
  "arg_max_loop = fold (\<lambda>(i, v) (bi, bv). if v > bv then (i, v) else (bi, bv))"

text \<open>The index and value of the largest element, \<open>-1\<close> for none.\<close>

definition arg_max_of :: "rat list \<Rightarrow> int \<times> rat" where
  "arg_max_of vs =
     (case vs of [] \<Rightarrow> (- 1, 0)
      | v # rest \<Rightarrow> (case arg_max_loop (zip [1..<length vs] rest) (0, v) of (i, b) \<Rightarrow> (int i, b)))"

fun join_space :: "string list \<Rightarrow> string" where
  "join_space [] = []"
| "join_space [w] = w"
| "join_space (w # ws) = w @ '' '' @ join_space ws"

definition trim_punctuation :: "string \<Rightarrow> string" where
  "trim_punctuation w = rev (dropWhile (\<lambda>c. c \<in> set ''.:,;!?'') (rev w))"

definition token_of :: "(string \<rightharpoonup> int) \<Rightarrow> string \<Rightarrow> int" where
  "token_of vocab w =
     (case vocab w of Some t \<Rightarrow> t
      | None \<Rightarrow> (case vocab (trim_punctuation w) of Some t \<Rightarrow> t | None \<Rightarrow> 100))"

text \<open>The loop over the words stops at 127 identifiers, to leave room for the separator.\<close>

definition token_ids :: "(string \<rightharpoonup> int) \<Rightarrow> string list \<Rightarrow> int list" where
  "token_ids vocab ws = foldl (\<lambda>ids w. if 127 \<le> length ids then ids else ids @ [token_of vocab w]) [101] ws"

definition tokenize_text :: "(string \<rightharpoonup> int) \<Rightarrow> string \<Rightarrow> int list" where
  "tokenize_text vocab s =
     (let ids = token_ids vocab (str_fields (take 200 (join_space (str_fields (to_lower s))))) @ [102]
      in take 128 (ids @ replicate (128 - length ids) 0))"

text \<open>The vocabulary is a placeholder that nothing fills.\<close>

definition vocabulary :: "string \<rightharpoonup> int" where
  "vocabulary = Map.empty"

type_synonym onnx_session = "int list \<Rightarrow> string + rat list"

text \<open>A classifier has the session it was given, or loads one from its path on first use.\<close>

record onnx_classifier =
  ox_session :: "onnx_session option"
  ox_path :: string

definition new_onnx_classifier :: "string \<Rightarrow> string \<Rightarrow> onnx_classifier" where
  "new_onnx_classifier env_path path =
     \<lparr>ox_session = None,
      ox_path = (if env_path \<noteq> [] then env_path else if path = [] then ''/models/extract_classifier.onnx'' else path)\<rparr>"

definition new_onnx_classifier_with_session :: "onnx_session \<Rightarrow> onnx_classifier" where
  "new_onnx_classifier_with_session sess = \<lparr>ox_session = Some sess, ox_path = ''injected''\<rparr>"

definition try_real_onnx :: "string \<Rightarrow> string + onnx_session" where
  "try_real_onnx path = Inl ''onnx runtime not compiled in''"

definition load_session :: "(string \<Rightarrow> bool) \<Rightarrow> onnx_classifier \<Rightarrow> string + onnx_session" where
  "load_session missing c =
     (case try_real_onnx (ox_path c) of
        Inr s \<Rightarrow> Inr s
      | Inl _ \<Rightarrow> if missing (ox_path c) then Inl (''onnx model not found at '' @ ox_path c)
                else Inl (''onnx runtime not available for '' @ ox_path c))"

definition onnx_classify :: "(string \<Rightarrow> bool) \<Rightarrow> onnx_classifier \<Rightarrow> string \<Rightarrow> string \<times> rat" where
  "onnx_classify missing c txt =
     (case (case ox_session c of Some s \<Rightarrow> Inr s | None \<Rightarrow> load_session missing c) of
        Inl _ \<Rightarrow> (class_unknown, 0)
      | Inr run \<Rightarrow>
          (case run (tokenize_text vocabulary txt) of
             Inl _ \<Rightarrow> (class_unknown, 0)
           | Inr probs \<Rightarrow>
               if length probs \<noteq> length label_order then (class_unknown, 0)
               else (case arg_max_of probs of
                       (i, conf) \<Rightarrow> if i < 0 \<or> conf < onnx_confidence_threshold then (class_unknown, conf)
                                   else (label_order ! nat i, conf))))"

section \<open>The extractor\<close>

datatype extract_error =
    SqlNoRows
  | SqlFault string
  | RawEmailNotFound uuid extract_error
  | FetchBodyFor uuid extract_error
  | FetchBodyForRaw uuid extract_error
  | EmailIsNil

text \<open>\<open>RawEmailDB.FetchBody\<close> on the answer of the query: a fault, no row, or subject and body.\<close>

definition fetch_body :: "(uuid \<Rightarrow> string + (string \<times> string) option) \<Rightarrow> uuid \<Rightarrow> extract_error + (string \<times> string)" where
  "fetch_body query rid =
     (case query rid of
        Inr (Some row) \<Rightarrow> Inr row
      | Inr None \<Rightarrow> Inl (RawEmailNotFound rid SqlNoRows)
      | Inl e \<Rightarrow> Inl (FetchBodyFor rid (SqlFault e)))"

datatype extract_effect = ExtractCompleted uuid uuid extracted_datum | DeletionScheduled uuid

text \<open>
  The extractor: the store, the compiled bank, the optional publisher and timer with the error of their
  call, the optional classifier, the clock, and the texts of confidences.
\<close>

record extractor_env =
  xe_fetch :: "uuid \<Rightarrow> extract_error + (string \<times> string)"
  xe_bank :: "compiled_pattern list"
  xe_publisher :: "string option option"
  xe_timer :: "string option option"
  xe_onnx :: "onnx_classifier option"
  xe_missing :: "string \<Rightarrow> bool"
  xe_now :: instant
  xe_show :: "rat \<Rightarrow> string"

definition build_onnx_input :: "string \<Rightarrow> string \<Rightarrow> string" where
  "build_onnx_input subject body = subject @ '' '' @ take 200 body"

definition onnx_class_type :: "string \<Rightarrow> string" where
  "onnx_class_type cls =
     (if cls = ''is_receipt'' then type_receipt else if cls = ''is_newsletter'' then type_newsletter else type_notification)"

definition onnx_class_to_datum :: "(rat \<Rightarrow> string) \<Rightarrow> string \<Rightarrow> rat \<Rightarrow> extracted_datum" where
  "onnx_class_to_datum show_conf cls conf =
     \<lparr>xd_type = onnx_class_type cls, xd_value = cls @ ''_conf_'' @ show_conf conf,
      xd_text = the (notification_templates (onnx_class_type cls))\<rparr>"

text \<open>The calls of publisher and timer are best effort.\<close>

definition effect_of :: "string option option \<Rightarrow> extract_effect \<Rightarrow> extract_effect list" where
  "effect_of call eff = (case call of Some None \<Rightarrow> [eff] | _ \<Rightarrow> [])"

definition build_result ::
  "extractor_env \<Rightarrow> email_event \<Rightarrow> extracted_datum \<Rightarrow> rat \<Rightarrow> extract_effect list \<times> classification_result" where
  "build_result env ev d conf =
     (effect_of (xe_publisher env) (ExtractCompleted (ev_raw ev) (ev_user ev) d) @
      effect_of (xe_timer env) (DeletionScheduled (ev_raw ev)),
      \<lparr>cl_raw = ev_raw ev, cl_user = ev_user ev, cl_thread = ev_thread ev, cl_route = route_extract,
       cl_confidence = conf, cl_rule = None, cl_extracted = Some d, cl_llm = False, cl_processed = xe_now env\<rparr>)"

definition extract_process ::
  "extractor_env \<Rightarrow> email_event option \<Rightarrow> extract_effect list \<times> (extract_error + classification_result option)" where
  "extract_process env email =
     (case email of
        None \<Rightarrow> ([], Inl EmailIsNil)
      | Some ev \<Rightarrow>
          (case xe_fetch env (ev_raw ev) of
             Inl e \<Rightarrow> if e = SqlNoRows then ([], Inr None) else ([], Inl (FetchBodyForRaw (ev_raw ev) e))
           | Inr (subject, body) \<Rightarrow>
               (case extract_datum (xe_bank env) ev subject body of
                  Some d \<Rightarrow> (case build_result env ev d 1 of (effs, r) \<Rightarrow> (effs, Inr (Some r)))
                | None \<Rightarrow>
                    (case xe_onnx env of
                       None \<Rightarrow> ([], Inr None)
                     | Some c \<Rightarrow>
                         (case onnx_classify (xe_missing env) c (build_onnx_input subject body) of
                            (cls, conf) \<Rightarrow>
                              if cls \<noteq> class_unknown \<and> conf \<ge> onnx_confidence_threshold
                              then (case build_result env ev (onnx_class_to_datum (xe_show env) cls conf) conf of
                                      (effs, r) \<Rightarrow> (effs, Inr (Some r)))
                              else ([], Inr None))))))"

text \<open>The extractor of the worker: no publisher, no timer, no classifier.\<close>

definition worker_extractor ::
  "(uuid \<Rightarrow> string + (string \<times> string) option) \<Rightarrow> submatch_compile \<Rightarrow> (string \<Rightarrow> bool) \<Rightarrow> (rat \<Rightarrow> string) \<Rightarrow> instant \<Rightarrow> extractor_env" where
  "worker_extractor query compile missing show_conf now =
     \<lparr>xe_fetch = fetch_body query, xe_bank = compile_patterns compile bank_patterns, xe_publisher = None, xe_timer = None,
      xe_onnx = None, xe_missing = missing, xe_now = now, xe_show = show_conf\<rparr>"

section \<open>The bank picks the first match\<close>

text \<open>The candidate kept has the highest priority, and of those with it the first.\<close>

lemma best_match_append: "best_match txt (xs @ ys) b = best_match txt ys (best_match txt xs b)"
  by (induction xs arbitrary: b) (auto split: option.split)

lemma candidate_of_None: "candidate_of cp txt = None \<longleftrightarrow> cp_find cp txt = None"
  by (simp add: candidate_of_def)

lemma candidate_of_priority: "candidate_of cp txt = Some c \<Longrightarrow> mc_priority c = cp_priority cp"
  by (auto simp: candidate_of_def)

lemma best_match_kept:
  "\<forall>cp \<in> set cps. cp_find cp txt \<noteq> None \<longrightarrow> cp_priority cp \<le> mc_priority b \<Longrightarrow> best_match txt cps (Some b) = Some b"
proof (induction cps)
  case (Cons cp cps)
  then show ?case by (cases "candidate_of cp txt") (auto simp: candidate_of_def)
qed simp

lemma best_match_None: "best_match txt cps None = None \<longleftrightarrow> (\<forall>cp \<in> set cps. cp_find cp txt = None)"
proof -
  have some: "best_match txt cps (Some b) \<noteq> None" for cps b
    by (induction cps arbitrary: b) (auto split: option.split)
  show ?thesis by (induction cps) (auto simp: some candidate_of_None [symmetric] split: option.split)
qed

lemma best_match_spec:
  "best_match txt cps None = Some c \<Longrightarrow>
   \<exists>before cp after. cps = before @ cp # after \<and> candidate_of cp txt = Some c \<and>
     (\<forall>x \<in> set before. cp_find x txt \<noteq> None \<longrightarrow> cp_priority x < cp_priority cp) \<and>
     (\<forall>x \<in> set after. cp_find x txt \<noteq> None \<longrightarrow> cp_priority x \<le> cp_priority cp)"
proof (induction cps arbitrary: c rule: rev_induct)
  case (snoc y ys)
  have step: "best_match txt [y] (best_match txt ys None) = Some c" using snoc.prems by (simp add: best_match_append)
  show ?case
  proof (cases "best_match txt ys None")
    case None
    then have "\<forall>x \<in> set ys. cp_find x txt = None" by (simp add: best_match_None)
    moreover have "candidate_of y txt = Some c" using step None by (cases "candidate_of y txt") simp_all
    ultimately show ?thesis by (intro exI [of _ ys] exI [of _ y] exI [of _ "[]"]) simp
  next
    case (Some b)
    from snoc.IH [OF Some] obtain before cp after where split: "ys = before @ cp # after" "candidate_of cp txt = Some b"
      "\<forall>x \<in> set before. cp_find x txt \<noteq> None \<longrightarrow> cp_priority x < cp_priority cp"
      "\<forall>x \<in> set after. cp_find x txt \<noteq> None \<longrightarrow> cp_priority x \<le> cp_priority cp" by blast
    note pb = candidate_of_priority [OF split(2)]
    show ?thesis
    proof (cases "candidate_of y txt")
      case None
      then have "c = b" "cp_find y txt = None" using step Some by (simp_all add: candidate_of_None [symmetric])
      then show ?thesis using split by (intro exI [of _ before] exI [of _ cp] exI [of _ "after @ [y]"]) auto
    next
      case c1: (Some c1)
      note p1 = candidate_of_priority [OF c1]
      show ?thesis
      proof (cases "cp_priority y > cp_priority cp")
        case True
        then have "c = c1" using step Some c1 pb p1 by simp
        moreover have "\<forall>x \<in> set ys. cp_find x txt \<noteq> None \<longrightarrow> cp_priority x < cp_priority y"
          using split True by fastforce
        ultimately show ?thesis using c1 by (intro exI [of _ ys] exI [of _ y] exI [of _ "[]"]) simp
      next
        case False
        then have "c = b" using step Some c1 pb p1 by simp
        then show ?thesis using split False by (intro exI [of _ before] exI [of _ cp] exI [of _ "after @ [y]"]) auto
      qed
    qed
  qed
qed simp

text \<open>The bank is declared by falling priority, so that the choice is the first match.\<close>

lemma bank_sorted: "sorted_wrt (\<lambda>p q. bp_priority q \<le> bp_priority p) bank_patterns"
  by (simp add: bank_patterns_def)

lemma compile_patterns_simps [simp]:
  "compile_patterns compile [] = []"
  "compile_patterns compile (p # ps) =
     (case compile_pattern compile p of None \<Rightarrow> compile_patterns compile ps | Some cp \<Rightarrow> cp # compile_patterns compile ps)"
  by (simp_all add: compile_patterns_def List.map_filter_def split: option.split)

lemma compile_patterns_priority:
  "\<forall>p \<in> set ps. bp_priority p \<le> k \<Longrightarrow> \<forall>cp \<in> set (compile_patterns compile ps). cp_priority cp \<le> k"
  by (induction ps) (auto simp: compile_pattern_def split: option.splits)

lemma compile_patterns_sorted:
  "sorted_wrt (\<lambda>p q. bp_priority q \<le> bp_priority p) ps \<Longrightarrow>
   sorted_wrt (\<lambda>p q. cp_priority q \<le> cp_priority p) (compile_patterns compile ps)"
proof (induction ps)
  case (Cons p ps)
  show ?case
  proof (cases "compile_pattern compile p")
    case (Some cp)
    then have "cp_priority cp = bp_priority p" by (auto simp: compile_pattern_def)
    then show ?thesis using Cons Some compile_patterns_priority [of ps "bp_priority p"] by simp
  qed (use Cons in simp)
qed simp

lemma best_match_first:
  "sorted_wrt (\<lambda>p q. cp_priority q \<le> cp_priority p) cps \<Longrightarrow> best_match txt cps None = first_some (\<lambda>cp. candidate_of cp txt) cps"
proof (induction cps)
  case (Cons cp cps)
  show ?case
  proof (cases "candidate_of cp txt")
    case (Some c)
    then show ?thesis using Cons.prems by (simp add: best_match_kept candidate_of_priority)
  qed (use Cons in simp)
qed simp

section \<open>The classifier sees the number of words\<close>

lemma foldl_unknown:
  "length ids \<le> 127 \<Longrightarrow>
   foldl (\<lambda>ids w. if 127 \<le> length ids then ids else ids @ [100]) ids ws = ids @ replicate (min (length ws) (127 - length ids)) (100 :: int)"
proof (induction ws arbitrary: ids)
  case (Cons w ws)
  show ?case
  proof (cases "127 \<le> length ids")
    case True
    then show ?thesis using Cons.IH [of ids] Cons.prems by simp
  next
    case False
    then have "min (length (w # ws)) (127 - length ids) = Suc (min (length ws) (127 - length (ids @ [100 :: int])))"
      by (simp add: min_def) linarith
    then show ?thesis using Cons.IH [of "ids @ [100]"] False by simp
  qed
qed simp

lemma tokens_count_words:
  "tokenize_text vocabulary s =
     (let n = min 126 (length (str_fields (take 200 (join_space (str_fields (to_lower s))))))
      in 101 # replicate n 100 @ 102 # replicate (126 - n) 0)"
proof -
  have unk: "token_of vocabulary w = 100" for w by (simp add: token_of_def vocabulary_def)
  have "token_ids vocabulary ws = 101 # replicate (min 126 (length ws)) 100" for ws
    using foldl_unknown [of "[101]" ws] unfolding token_ids_def unk by (simp add: min.commute)
  then show ?thesis by (simp add: tokenize_text_def Let_def)
qed

lemma path_classifier_unknown: "onnx_classify missing (new_onnx_classifier env_path path) txt = (class_unknown, 0)"
  by (simp add: onnx_classify_def new_onnx_classifier_def load_session_def try_real_onnx_def)

lemma arg_max_loop_value: "snd (arg_max_loop ivs (i, v)) = fold max (map snd ivs) v"
  by (induction ivs arbitrary: i v) (auto simp: arg_max_loop_def max_def)

lemma onnx_class_confident:
  "onnx_classify missing c txt = (cls, conf) \<Longrightarrow> cls \<noteq> class_unknown \<Longrightarrow> \<not> is_below_threshold conf"
  by (auto simp: onnx_classify_def is_below_threshold_def split: sum.splits option.splits prod.splits if_splits)

section \<open>The extractor\<close>

text \<open>The store wraps the missing row, which the extractor compares with the bare error.\<close>

lemma deleted_mail_is_an_error:
  "query (ev_raw ev) = Inr None \<Longrightarrow> xe_fetch env = fetch_body query \<Longrightarrow>
   extract_process env (Some ev) = ([], Inl (FetchBodyForRaw (ev_raw ev) (RawEmailNotFound (ev_raw ev) SqlNoRows)))"
  by (simp add: extract_process_def fetch_body_def)

lemma extract_result_shape:
  "extract_process env (Some ev) = (effs, Inr (Some r)) \<Longrightarrow>
   cl_raw r = ev_raw ev \<and> cl_user r = ev_user ev \<and> cl_route r = route_extract \<and> cl_extracted r \<noteq> None \<and>
   \<not> is_below_threshold (cl_confidence r)"
  by (auto simp: extract_process_def build_result_def is_below_threshold_def onnx_confidence_threshold_def
      split: sum.splits option.splits prod.splits if_splits)

text \<open>
  C16: the worker extracts exactly by the first pattern that matches: with the extractor it builds, a mail
  is extracted when its row exists and it looks like an invitation, or its subject and the first 2048
  characters of its body match a pattern of the bank, and the datum is that of the first such pattern in
  the order of declaration; the priorities decide nothing. A mail whose row is missing is not extracted.
  Whatever happens, no event is published and no deletion is scheduled.
\<close>
theorem worker_extracts_by_first_pattern:
  "fst (extract_process (worker_extractor query compile missing show_conf now) (Some ev)) = [] \<and>
   cl_try_extract (Some (\<lambda>ev. snd (extract_process (worker_extractor query compile missing show_conf now) (Some ev)))) ev =
     (case query (ev_raw ev) of
        Inr (Some (subject, body)) \<Rightarrow>
          (case detect_calendar_mime ev subject of
             Some d \<Rightarrow> Some d
           | None \<Rightarrow>
               if normalize_input subject body = [] then None
               else map_option build_datum (first_some (\<lambda>cp. candidate_of cp (normalize_input subject body))
                      (compile_patterns compile bank_patterns)))
      | _ \<Rightarrow> None)"
  using best_match_first [OF compile_patterns_sorted [OF bank_sorted], of _ compile]
  by (simp add: extract_process_def worker_extractor_def fetch_body_def cl_try_extract_def build_result_def effect_of_def
      extract_datum_def Let_def split: sum.split option.split prod.split)

definition ex_digits_compile :: submatch_compile where
  "ex_digits_compile r = (if has_prefix r ''(?i)subtotal'' then Some (\<lambda>txt. if str_contains txt ''otal 9'' then Some [''subtotal 9'', ''9''] else None) else None)"

definition ex_invoice :: email_event where
  "ex_invoice = \<lparr>ev_id = 1, ev_user = 2, ev_source = ''gmail'', ev_account = 3, ev_thread = 4, ev_raw = 5, ev_s3 = ''s3://mail/5'',
     ev_attachments = False, ev_sender = ''a@b'', ev_received = 0, ev_offset = 0, ev_hint = [], ev_contacts = []\<rparr>"

lemma ex_invoice_is_extracted:
  "map_option cl_extracted (case snd (extract_process
       (worker_extractor (\<lambda>i. Inr (Some (''Invoice'', ''total 9''))) ex_digits_compile (\<lambda>p. True) (\<lambda>c. []) 6) (Some ex_invoice)) of
       Inr r \<Rightarrow> r | Inl _ \<Rightarrow> None) =
   Some (Some \<lparr>xd_type = ''receipt'', xd_value = ''9'', xd_text = ''Receipt or order confirmation''\<rparr>)"
  by code_simp

end
