(* ===== verification/Go_Encoding.thy ===== *)
theory Go_Encoding
  imports Reagent_Prelude
begin

text \<open>
  Byte strings and the encodings of the Go standard library that the services use: \<open>encoding/hex\<close>,
  \<open>base64.RawURLEncoding\<close> (no padding; the decoder skips line breaks and ignores the unused low
  bits of the last character), decimal printing, and splitting at the last or the first
  occurrence of a character.
\<close>

type_synonym bytes = "8 word list"

definition bytes_of :: "string \<Rightarrow> bytes" where
  "bytes_of s = map of_char s"

section \<open>Hexadecimal\<close>

definition hex_digit :: "nat \<Rightarrow> char" where
  "hex_digit n = (if n < 10 then char_of (48 + n) else char_of (87 + n))"

definition hex_value :: "char \<Rightarrow> nat option" where
  "hex_value c =
     (let n = of_char c :: nat
      in if 48 \<le> n \<and> n \<le> 57 then Some (n - 48)
         else if 97 \<le> n \<and> n \<le> 102 then Some (n - 87)
         else if 65 \<le> n \<and> n \<le> 70 then Some (n - 55) else None)"

fun hex_encode :: "bytes \<Rightarrow> string" where
  "hex_encode [] = []"
| "hex_encode (b # bs) = hex_digit (unat b div 16) # hex_digit (unat b mod 16) # hex_encode bs"

fun hex_decode :: "string \<Rightarrow> bytes option" where
  "hex_decode [] = Some []"
| "hex_decode [c] = None"
| "hex_decode (c # d # s) =
     (case (hex_value c, hex_value d, hex_decode s) of
        (Some a, Some b, Some bs) \<Rightarrow> Some (of_nat (16 * a + b) # bs)
      | _ \<Rightarrow> None)"

lemma hex_value_digit [simp]: "n < 16 \<Longrightarrow> hex_value (hex_digit n) = Some n"
  by (auto simp: hex_value_def hex_digit_def Let_def of_char_of)

lemma byte_div_mod: "of_nat (16 * (unat b div 16) + unat b mod 16) = (b :: 8 word)"
  by simp

lemma unat_byte_less: "unat (b :: 8 word) < 256"
  using unsigned_less [of b] by simp

lemma hex_decode_encode [simp]: "hex_decode (hex_encode bs) = Some bs"
proof (induction bs)
  case (Cons b bs)
  have "unat b div 16 < 16" using unat_byte_less [of b] by simp
  then show ?case using Cons.IH by (simp add: byte_div_mod del: of_nat_add of_nat_mult)
qed simp

lemma hex_encode_inject [simp]: "hex_encode a = hex_encode b \<longleftrightarrow> a = b"
  by (metis hex_decode_encode option.inject)

lemma length_hex_encode [simp]: "length (hex_encode bs) = 2 * length bs"
  by (induction bs) auto

lemma hex_encode_eq_Nil [simp]: "hex_encode bs = [] \<longleftrightarrow> bs = []"
  by (cases bs) auto

section \<open>Base 64\<close>

definition b64_char :: "nat \<Rightarrow> char" where
  "b64_char n =
     (if n < 26 then char_of (65 + n) else if n < 52 then char_of (71 + n)
      else if n < 62 then char_of (n - 4) else if n = 62 then CHR ''-'' else CHR ''_'')"

definition b64_value :: "char \<Rightarrow> nat option" where
  "b64_value c =
     (let n = of_char c :: nat
      in if 65 \<le> n \<and> n \<le> 90 then Some (n - 65)
         else if 97 \<le> n \<and> n \<le> 122 then Some (n - 71)
         else if 48 \<le> n \<and> n \<le> 57 then Some (n + 4)
         else if c = CHR ''-'' then Some 62 else if c = CHR ''_'' then Some 63 else None)"

fun b64_split :: "nat list \<Rightarrow> nat list" where
  "b64_split [] = []"
| "b64_split [a] = [a div 4, (a mod 4) * 16]"
| "b64_split [a, b] = [a div 4, (a mod 4) * 16 + b div 16, (b mod 16) * 4]"
| "b64_split (a # b # c # r) =
     a div 4 # ((a mod 4) * 16 + b div 16) # ((b mod 16) * 4 + c div 64) # c mod 64 # b64_split r"

fun b64_join :: "nat list \<Rightarrow> nat list option" where
  "b64_join [] = Some []"
| "b64_join [w] = None"
| "b64_join [w, x] = Some [w * 4 + x div 16]"
| "b64_join [w, x, y] = Some [w * 4 + x div 16, (x mod 16) * 16 + y div 4]"
| "b64_join (w # x # y # z # r) =
     map_option (\<lambda>bs. (w * 4 + x div 16) # ((x mod 16) * 16 + y div 4) # ((y mod 4) * 64 + z) # bs)
       (b64_join r)"

definition b64_encode :: "bytes \<Rightarrow> string" where
  "b64_encode bs = map b64_char (b64_split (map unat bs))"

definition b64_decode :: "string \<Rightarrow> bytes option" where
  "b64_decode s =
     (case those (map b64_value (filter (\<lambda>c. c \<noteq> CHR 0x0A \<and> c \<noteq> CHR 0x0D) s)) of
        None \<Rightarrow> None
      | Some vs \<Rightarrow> map_option (map of_nat) (b64_join vs))"

lemma b64_value_char [simp]:
  assumes "n < 64"
  shows "b64_value (b64_char n) = Some n"
proof -
  consider "n < 26" | "26 \<le> n" "n < 52" | "52 \<le> n" "n < 62" | "n = 62" | "n = 63"
    using assms by linarith
  then show ?thesis
    by cases (auto simp: b64_value_def b64_char_def Let_def of_char_of)
qed

lemma b64_char_not [simp]:
  "n < 64 \<Longrightarrow> b64_char n \<noteq> CHR 0x0A"
  "n < 64 \<Longrightarrow> b64_char n \<noteq> CHR 0x0D"
  "n < 64 \<Longrightarrow> b64_char n \<noteq> CHR ''.''"
proof -
  have r: "b64_char n \<noteq> x" if "n < 64" "b64_value x = None" for x
    using b64_value_char [OF that(1)] that(2) by auto
  show "n < 64 \<Longrightarrow> b64_char n \<noteq> CHR 0x0A" by (rule r) (simp_all add: b64_value_def Let_def)
  show "n < 64 \<Longrightarrow> b64_char n \<noteq> CHR 0x0D" by (rule r) (simp_all add: b64_value_def Let_def)
  show "n < 64 \<Longrightarrow> b64_char n \<noteq> CHR ''.''" by (rule r) (simp_all add: b64_value_def Let_def)
qed

lemma b64_split_less: "\<forall>b \<in> set bs. b < 256 \<Longrightarrow> v \<in> set (b64_split bs) \<Longrightarrow> v < 64"
  by (induction bs rule: b64_split.induct) auto

lemma b64_join_split: "\<forall>b \<in> set bs. b < 256 \<Longrightarrow> b64_join (b64_split bs) = Some bs"
  by (induction bs rule: b64_split.induct) auto

lemma those_map_Some: "(\<And>x. x \<in> set xs \<Longrightarrow> f x = Some (g x)) \<Longrightarrow> those (map f xs) = Some (map g xs)"
  by (induction xs) auto

lemma b64_decode_encode [simp]: "b64_decode (b64_encode bs) = Some bs"
proof -
  let ?vs = "b64_split (map unat bs)"
  have less: "\<forall>b \<in> set (map unat bs). b < 256" by (simp add: unat_byte_less)
  have small: "v < 64" if "v \<in> set ?vs" for v by (rule b64_split_less [OF less that])
  have "filter (\<lambda>c. c \<noteq> CHR 0x0A \<and> c \<noteq> CHR 0x0D) (b64_encode bs) = b64_encode bs"
    by (rule filter_True) (auto simp: b64_encode_def dest: small)
  moreover have "those (map (b64_value \<circ> b64_char) ?vs) = Some (map id ?vs)"
    by (rule those_map_Some) (simp add: small)
  ultimately show ?thesis
    by (simp add: b64_decode_def b64_encode_def b64_join_split [OF less] o_def)
qed

lemma b64_encode_no_dot: "CHR ''.'' \<notin> set (b64_encode bs)"
proof
  assume "CHR ''.'' \<in> set (b64_encode bs)"
  then obtain v where "v \<in> set (b64_split (map unat bs))" "b64_char v = CHR ''.''"
    by (auto simp: b64_encode_def)
  then show False
    using b64_split_less [of "map unat bs" v] by (simp add: unat_byte_less)
qed

section \<open>Decimal numbers\<close>

fun nat_decimal :: "nat \<Rightarrow> string" where
  "nat_decimal n =
     (if n < 10 then [char_of (48 + n)] else nat_decimal (n div 10) @ [char_of (48 + n mod 10)])"

declare nat_decimal.simps [simp del]

definition int_decimal :: "int \<Rightarrow> string" where
  "int_decimal i = (if i < 0 then CHR ''-'' # nat_decimal (nat (- i)) else nat_decimal (nat i))"

section \<open>Quoting\<close>

text \<open>\<open>strconv.Quote\<close>, the verb \<open>%q\<close>, on ASCII.\<close>

definition quote_char :: "char \<Rightarrow> string" where
  "quote_char c =
     (let n = of_char c :: nat
      in if n = 34 \<or> n = 92 then [CHR 0x5C, c]
         else if n = 7 then [CHR 0x5C, CHR ''a''] else if n = 8 then [CHR 0x5C, CHR ''b'']
         else if n = 9 then [CHR 0x5C, CHR ''t''] else if n = 10 then [CHR 0x5C, CHR ''n'']
         else if n = 11 then [CHR 0x5C, CHR ''v''] else if n = 12 then [CHR 0x5C, CHR ''f'']
         else if n = 13 then [CHR 0x5C, CHR ''r'']
         else if n < 32 \<or> n = 127 then [CHR 0x5C, CHR ''x'', hex_digit (n div 16), hex_digit (n mod 16)]
         else [c])"

definition go_quote :: "string \<Rightarrow> string" where
  "go_quote s = [CHR 0x22] @ concat (map quote_char s) @ [CHR 0x22]"

section \<open>Counting and splitting\<close>

definition count_char :: "char \<Rightarrow> string \<Rightarrow> nat" where
  "count_char x s = length (filter (\<lambda>c. c = x) s)"

text \<open>\<open>strings.SplitN(s, x, 2)\<close> when it has two parts: before and after the first \<open>x\<close>.\<close>

fun cut_first :: "char \<Rightarrow> string \<Rightarrow> (string \<times> string) option" where
  "cut_first x [] = None"
| "cut_first x (c # s) =
     (if c = x then Some ([], s) else map_option (\<lambda>(a, b). (c # a, b)) (cut_first x s))"

text \<open>Slicing at \<open>strings.LastIndex(s, x)\<close>.\<close>

definition cut_last :: "char \<Rightarrow> string \<Rightarrow> (string \<times> string) option" where
  "cut_last x s = map_option (\<lambda>(b, a). (rev a, rev b)) (cut_first x (rev s))"

lemma count_char_append [simp]: "count_char x (s @ t) = count_char x s + count_char x t"
  by (simp add: count_char_def)

lemma count_char_Cons [simp]: "count_char x (c # s) = (if c = x then 1 else 0) + count_char x s"
  by (simp add: count_char_def)

lemma count_char_Nil [simp]: "count_char x [] = 0"
  by (simp add: count_char_def)

lemma count_char_0 [simp]: "x \<notin> set s \<Longrightarrow> count_char x s = 0"
  by (auto simp: count_char_def filter_empty_conv)

lemma cut_first_append: "x \<notin> set a \<Longrightarrow> cut_first x (a @ x # b) = Some (a, b)"
  by (induction a) auto

lemma cut_first_None: "cut_first x s = None \<longleftrightarrow> x \<notin> set s"
  by (induction s) auto

lemma cut_last_append: "x \<notin> set b \<Longrightarrow> cut_last x (a @ x # b) = Some (a, b)"
  by (simp add: cut_last_def cut_first_append)

lemma cut_last_None: "cut_last x s = None \<longleftrightarrow> x \<notin> set s"
  by (simp add: cut_last_def cut_first_None)

end
