(* ===== verification/Go_Json.thy ===== *)
theory Go_Json
  imports Go_Encoding "HOL-Library.AList"
begin

text \<open>
  JSON documents as trees and civil time, as the Go library gives them to the services. A document
  that travels as bytes (\<open>json.RawMessage\<close>) is its tree; where the code reads the bytes as a
  string, the encoder is an argument.
\<close>

datatype json =
    JNull
  | JBool bool
  | JNum rat
  | JStr string
  | JArr "json list"
  | JObj "(string \<times> json) list"

abbreviation (input) JInt :: "int \<Rightarrow> json" where
  "JInt i \<equiv> JNum (rat_of_int i)"

text \<open>Assigning the members of one object to another, as ranging over a map does.\<close>

definition put_members :: "(string \<times> json) list \<Rightarrow> (string \<times> json) list \<Rightarrow> (string \<times> json) list" where
  "put_members new obj = fold (\<lambda>(k, v). AList.update k v) new obj"

text \<open>\<open>json.Unmarshal\<close> into a map: objects and null decode, everything else fails.\<close>

fun decode_object :: "json \<Rightarrow> (string \<times> json) list option" where
  "decode_object (JObj ms) = Some ms"
| "decode_object JNull = Some []"
| "decode_object _ = None"

lemma map_of_put_members: "map_of (put_members new obj) = map_of obj ++ map_of (rev new)"
  unfolding put_members_def
  by (induction new arbitrary: obj) (auto simp: AList.update_conv' map_add_upds fun_eq_iff map_add_def split: option.splits)

lemma put_members_keeps: "k \<notin> fst ` set new \<Longrightarrow> map_of (put_members new obj) k = map_of obj k"
  by (auto simp: map_of_put_members map_add_def map_of_eq_None_iff split: option.splits dest: map_of_SomeD)
    (metis fst_conv imageI map_of_SomeD set_rev)

section \<open>Civil time\<close>

text \<open>
  The date of a day number (days since 1 January 1970) in the Gregorian calendar: shift to the era
  that starts on 1 March of the year 0, where a leap day is the last of its year.
\<close>

definition civil_date :: "int \<Rightarrow> int \<times> int \<times> int" where
  "civil_date days =
     (let z = days + 719468; era = z div 146097; doe = z mod 146097;
          yoe = (doe - doe div 1460 + doe div 36524 - doe div 146096) div 365;
          doy = doe - (365 * yoe + yoe div 4 - yoe div 100);
          mp = (5 * doy + 2) div 153; d = doy - (153 * mp + 2) div 5 + 1;
          m = (if mp < 10 then mp + 3 else mp - 9)
      in (yoe + era * 400 + (if m \<le> 2 then 1 else 0), m, d))"

definition pad_decimal :: "nat \<Rightarrow> int \<Rightarrow> string" where
  "pad_decimal w i = (let s = nat_decimal (nat i) in replicate (w - length s) CHR ''0'' @ s)"

definition day_ns :: duration where
  "day_ns = 24 * hour_ns"

text \<open>\<open>Format(time.RFC3339)\<close> of a UTC time of the years 0 to 9999.\<close>

definition rfc3339_utc :: "instant \<Rightarrow> string" where
  "rfc3339_utc t =
     (let (y, m, d) = civil_date (t div day_ns); s = t mod day_ns
      in pad_decimal 4 y @ ''-'' @ pad_decimal 2 m @ ''-'' @ pad_decimal 2 d @ ''T'' @
         pad_decimal 2 (s div hour_ns) @ '':'' @ pad_decimal 2 (s mod hour_ns div minute_ns) @ '':'' @
         pad_decimal 2 (s mod minute_ns div second_ns) @ ''Z'')"

text \<open>\<open>Format("3:04 PM")\<close> of a time shown at an offset from UTC.\<close>

definition kitchen_time :: "instant \<Rightarrow> duration \<Rightarrow> string" where
  "kitchen_time t offset =
     (let s = (t + offset) mod day_ns; h = s div hour_ns
      in int_decimal (if h mod 12 = 0 then 12 else h mod 12) @ '':'' @
         pad_decimal 2 (s mod hour_ns div minute_ns) @ (if h < 12 then '' AM'' else '' PM''))"

text \<open>\<open>int(d.Minutes())\<close>: truncated towards zero.\<close>

definition whole_minutes :: "duration \<Rightarrow> int" where
  "whole_minutes d = sgn d * (\<bar>d\<bar> div minute_ns)"

lemma civil_time_samples:
  "civil_date 19782 = (2024, 2, 29) \<and> civil_date (- 1) = (1969, 12, 31) \<and>
   rfc3339_utc (1709210096 * second_ns) = ''2024-02-29T12:34:56Z'' \<and>
   kitchen_time (1709210096 * second_ns) (- 5 * hour_ns) = ''7:34 AM''"
  by code_simp

end
