(* ===== verification/Notify_Builders.thy ===== *)
theory Notify_Builders
  imports Go_Json Sync_Data
begin

text \<open>
  The builders of push notifications: \<open>src/sync/internal/notify/interrupt.go\<close>, \<open>batch.go\<close> and
  \<open>temporal.go\<close>. A Go string is a sequence of bytes, so the lengths the builders limit are bytes
  and a dash of the texts is its three UTF-8 bytes. The fresh identifier, the clock, the text of a
  UUID and the decoder of a card's sender are arguments.
\<close>

record notification =
  nt_id :: uuid
  nt_user :: uuid
  nt_type :: string
  nt_title :: string
  nt_body :: string
  nt_data :: "json option"
  nt_sent :: "instant option"
  nt_read :: "instant option"
  nt_created :: instant

record calendar_event =
  ev_id :: uuid
  ev_title :: string
  ev_start :: instant
  ev_offset :: duration

text \<open>What a builder takes from its surroundings.\<close>

record build_env =
  bd_id :: uuid
  bd_now :: instant
  bd_show_uuid :: "uuid \<Rightarrow> string"
  bd_sender :: "string \<Rightarrow> (string \<times> string \<times> string) option"

definition make_notification ::
  "build_env \<Rightarrow> uuid \<Rightarrow> string \<Rightarrow> string \<Rightarrow> string \<Rightarrow> json \<Rightarrow> notification" where
  "make_notification env user ty title body data =
     \<lparr>nt_id = bd_id env, nt_user = user, nt_type = ty, nt_title = title, nt_body = body,
      nt_data = Some data, nt_sent = None, nt_read = None, nt_created = bd_now env\<rparr>"

definition shorten :: "nat \<Rightarrow> string \<Rightarrow> string" where
  "shorten n s = (if n < length s then take (n - 3) s @ ''...'' else s)"

definition dash :: string where
  "dash = [CHR 0xE2, CHR 0x80, CHR 0x94]"

section \<open>Interrupts\<close>

record interrupt_payload =
  ip_card :: uuid
  ip_sender :: string
  ip_ask :: string
  ip_urgency :: rat

definition interrupt_json :: "build_env \<Rightarrow> interrupt_payload \<Rightarrow> json" where
  "interrupt_json env p =
     JObj [(''card_id'', JStr (bd_show_uuid env (ip_card p))), (''sender_name'', JStr (ip_sender p)),
       (''atomic_ask'', JStr (ip_ask p)), (''urgency_score'', JNum (ip_urgency p))]"

text \<open>\<open>extractSenderName\<close>; the JSON value of the sender field decodes to name, email and address.\<close>

definition extract_sender_name :: "build_env \<Rightarrow> string \<Rightarrow> string" where
  "extract_sender_name env from_field =
     (if from_field = [] then ''Unknown''
      else (case bd_sender env from_field of
              None \<Rightarrow> ''Unknown''
            | Some (name, email, address) \<Rightarrow>
                if name \<noteq> [] then name else if email \<noteq> [] then email
                else if address \<noteq> [] then address else ''Unknown''))"

definition build_from_payload :: "build_env \<Rightarrow> uuid \<Rightarrow> interrupt_payload \<Rightarrow> notification" where
  "build_from_payload env user p =
     make_notification env user ''interrupt'' (shorten 60 (''Urgent: '' @ ip_sender p)) (shorten 120 (ip_ask p))
       (interrupt_json env p)"

definition build_interrupt :: "build_env \<Rightarrow> uuid \<Rightarrow> decision_card \<Rightarrow> notification" where
  "build_interrupt env user c =
     (let sender = extract_sender_name env (card_from c);
          ask = (if card_need c = [] then card_they_want c else card_need c)
      in make_notification env user ''interrupt'' (shorten 60 (''Urgent: '' @ sender)) (shorten 120 ask)
           (interrupt_json env \<lparr>ip_card = card_id c, ip_sender = sender, ip_ask = ask, ip_urgency = card_urgency c\<rparr>))"

definition build_reply_needed :: "build_env \<Rightarrow> uuid \<Rightarrow> uuid \<Rightarrow> string \<Rightarrow> string \<Rightarrow> rat \<Rightarrow> notification" where
  "build_reply_needed env user cid sender question urgency =
     make_notification env user ''interrupt'' (shorten 60 (''Reply needed: '' @ sender)) (shorten 120 question)
       (interrupt_json env \<lparr>ip_card = cid, ip_sender = sender, ip_ask = question, ip_urgency = urgency\<rparr>)"

section \<open>Batches\<close>

definition build_batch :: "build_env \<Rightarrow> uuid \<Rightarrow> int \<Rightarrow> int \<Rightarrow> notification" where
  "build_batch env user waiting minutes =
     make_notification env user ''batch''
       (if waiting = 1 then ''1 decision waiting'' else int_decimal waiting @ '' decisions waiting'')
       (if 0 < minutes then ''About '' @ int_decimal minutes @ '' min to clear your queue''
        else ''Tap to review and respond'')
       (JObj [(''batch_size'', JInt waiting), (''estimated_clear_time_minutes'', JInt minutes)])"

definition build_empty :: "build_env \<Rightarrow> uuid \<Rightarrow> notification" where
  "build_empty env user =
     make_notification env user ''batch'' ''All caught up!'' ''No pending decisions in your queue.''
       (JObj [(''batch_size'', JInt 0), (''queue_empty'', JBool True)])"

definition build_digest :: "build_env \<Rightarrow> uuid \<Rightarrow> decision_card list \<Rightarrow> notification" where
  "build_digest env user cs =
     (let urgent = length (filter (\<lambda>c. 7 / 10 \<le> card_urgency c) cs)
      in make_notification env user ''batch'' (''Daily digest: '' @ int_decimal (int (length cs)) @ '' decisions'')
           (if urgent = 0 then ''All items are normal priority''
            else int_decimal (int urgent) @ '' urgent items need your attention'')
           (JObj [(''digest_type'', JStr ''daily''), (''total_count'', JInt (int (length cs))),
             (''urgent_count'', JInt (int urgent))]))"

section \<open>Temporal notifications\<close>

definition build_pre_event_briefing ::
  "build_env \<Rightarrow> uuid \<Rightarrow> string \<Rightarrow> instant \<Rightarrow> decision_card list \<Rightarrow> notification" where
  "build_pre_event_briefing env user event_title start related =
     (let minutes = whole_minutes (go_sub start (bd_now env)); n = int (length related)
      in make_notification env user ''temporal'' (shorten 60 (''Upcoming: '' @ event_title))
           (if related \<noteq> []
            then ''Starts in '' @ int_decimal minutes @ '' min '' @ dash @ '' '' @ int_decimal n @ '' related decisions''
            else ''Starts in '' @ int_decimal minutes @ '' min'')
           (JObj [(''event_title'', JStr event_title), (''minutes_until'', JInt minutes),
             (''related_cards'', JArr (map (\<lambda>c. JStr (bd_show_uuid env (card_id c))) related)),
             (''related_count'', JInt n), (''start_time'', JStr (rfc3339_utc start)),
             (''temporal_type'', JStr ''pre_event'')]))"

definition build_daily_digest :: "build_env \<Rightarrow> uuid \<Rightarrow> int \<Rightarrow> calendar_event list \<Rightarrow> notification" where
  "build_daily_digest env user pending events =
     (let n = int (length events)
      in make_notification env user ''temporal''
           (if 0 < pending then ''Morning briefing: '' @ int_decimal pending @ '' decisions today''
            else ''Morning briefing'')
           (if 0 < pending \<and> 0 < n
            then int_decimal pending @ '' decisions waiting, '' @ int_decimal n @ '' events scheduled''
            else if 0 < pending then int_decimal pending @ '' decisions in your queue''
            else if 0 < n then int_decimal n @ '' events scheduled today''
            else ''No pending decisions or events today'')
           (JObj [(''event_count'', JInt n),
             (''event_ids'', JArr (map (\<lambda>e. JStr (bd_show_uuid env (ev_id e))) events)),
             (''pending_count'', JInt pending), (''temporal_type'', JStr ''daily_digest'')]))"

definition build_conflict_alert :: "build_env \<Rightarrow> uuid \<Rightarrow> calendar_event list \<Rightarrow> int \<Rightarrow> notification" where
  "build_conflict_alert env user events card_count =
     (let n = int (length events)
      in make_notification env user ''temporal'' ''Calendar conflict detected''
           (if 0 < card_count
            then int_decimal n @ '' overlapping events with '' @ int_decimal card_count @ '' pending decisions''
            else int_decimal n @ '' overlapping events'')
           (JObj [(''card_count'', JInt card_count), (''event_count'', JInt n),
             (''event_titles'', JArr (map (\<lambda>e. JStr (ev_title e)) events)),
             (''temporal_type'', JStr ''conflict_alert'')]))"

definition build_reminder :: "build_env \<Rightarrow> uuid \<Rightarrow> uuid \<Rightarrow> string \<Rightarrow> int \<Rightarrow> notification" where
  "build_reminder env user cid title hours =
     make_notification env user ''temporal'' (shorten 60 (''Reminder: '' @ title))
       (if 24 \<le> hours then ''Pending for '' @ int_decimal (hours div 24) @ '' days '' @ dash @ '' tap to decide''
        else ''Pending for '' @ int_decimal hours @ '' hours '' @ dash @ '' tap to decide'')
       (JObj [(''card_id'', JStr (bd_show_uuid env cid)), (''hours_pending'', JInt hours),
         (''temporal_type'', JStr ''reminder'')])"

definition build_scheduled_briefing :: "build_env \<Rightarrow> uuid \<Rightarrow> int \<Rightarrow> calendar_event option \<Rightarrow> notification" where
  "build_scheduled_briefing env user pending next_event =
     make_notification env user ''temporal'' ''Your briefing''
       (case next_event of
          None \<Rightarrow> int_decimal pending @ '' decisions in your queue''
        | Some e \<Rightarrow>
            (let until = go_sub (ev_start e) (bd_now env)
             in if until < hour_ns
                then int_decimal pending @ '' decisions, next meeting in '' @ int_decimal (whole_minutes until) @ '' min''
                else int_decimal pending @ '' decisions, next meeting at '' @ kitchen_time (ev_start e) (ev_offset e)))
       (JObj [(''next_event_id'', case next_event of None \<Rightarrow> JNull | Some e \<Rightarrow> JStr (bd_show_uuid env (ev_id e))),
         (''pending_count'', JInt pending), (''temporal_type'', JStr ''scheduled_briefing'')])"

lemmas builder_defs = build_from_payload_def build_interrupt_def build_reply_needed_def build_batch_def
  build_empty_def build_digest_def build_pre_event_briefing_def build_daily_digest_def
  build_conflict_alert_def build_reminder_def build_scheduled_briefing_def

section \<open>Facts\<close>

lemma length_shorten [simp]: "3 \<le> n \<Longrightarrow> length (shorten n s) \<le> n"
  unfolding shorten_def by auto

lemma shorten_short: "length s \<le> n \<Longrightarrow> shorten n s = s"
  by (simp add: shorten_def)

text \<open>The keys of a notification's data never hide the fixed keys of the push payload.\<close>

definition data_keys :: "notification \<Rightarrow> string set" where
  "data_keys n = (case nt_data n of Some (JObj ms) \<Rightarrow> fst ` set ms | _ \<Rightarrow> {})"

definition built :: "build_env \<Rightarrow> uuid \<Rightarrow> notification \<Rightarrow> bool" where
  "built env user n \<longleftrightarrow>
     (\<exists>p. n = build_from_payload env user p) \<or> (\<exists>c. n = build_interrupt env user c) \<or>
     (\<exists>c s q x. n = build_reply_needed env user c s q x) \<or> (\<exists>k t. n = build_batch env user k t) \<or>
     n = build_empty env user \<or> (\<exists>cs. n = build_digest env user cs) \<or>
     (\<exists>t s cs. n = build_pre_event_briefing env user t s cs) \<or> (\<exists>k es. n = build_daily_digest env user k es) \<or>
     (\<exists>es k. n = build_conflict_alert env user es k) \<or> (\<exists>c t h. n = build_reminder env user c t h) \<or>
     (\<exists>k e. n = build_scheduled_briefing env user k e)"

lemma built_type: "built env user n \<Longrightarrow> nt_type n \<in> {''interrupt'', ''batch'', ''temporal''}"
  unfolding built_def by (elim disjE exE) (simp_all add: builder_defs make_notification_def Let_def)

lemma built_keys: "built env user n \<Longrightarrow> data_keys n \<inter> {''aps'', ''type'', ''notif_id''} = {}"
  unfolding built_def
  by (elim disjE exE) (simp_all add: builder_defs make_notification_def interrupt_json_def data_keys_def Let_def)

lemma built_object: "built env user n \<Longrightarrow> \<exists>ms. nt_data n = Some (JObj ms)"
  unfolding built_def
  by (elim disjE exE) (simp_all add: builder_defs make_notification_def interrupt_json_def Let_def)

text \<open>A limit counted in bytes cuts through a character: the last byte kept starts a pair.\<close>

lemma shorten_splits_characters:
  "shorten 60 (''Urgent: '' @ replicate 48 CHR ''a'' @ [CHR 0xC3, CHR 0xA9] @ ''bcdef'') =
     ''Urgent: '' @ replicate 48 CHR ''a'' @ [CHR 0xC3] @ ''...''"
  by code_simp

end
