(* ===== verification/Notify_Push.thy ===== *)
theory Notify_Push
  imports Notify_Builders
begin

text \<open>
  The push clients: \<open>src/sync/internal/notify/fcm.go\<close> and \<open>apns.go\<close>. The transports (the Firebase
  client, the HTTP/2 exchange, the signature) are arguments; what the clients build, how they read
  the answers and when they renew the APNS token is modelled.
\<close>

datatype push_error = InvalidToken string string string | PushError string

definition is_err_invalid_token :: "push_error \<Rightarrow> bool" where
  "is_err_invalid_token e = (case e of InvalidToken _ _ _ \<Rightarrow> True | PushError _ \<Rightarrow> False)"

definition mask_token :: "string \<Rightarrow> string" where
  "mask_token t = (if length t \<le> 8 then ''****'' else take 4 t @ ''...'' @ drop (length t - 4) t)"

definition invalid_token_text :: "push_error \<Rightarrow> string" where
  "invalid_token_text e = (case e of
     InvalidToken t platform cause \<Rightarrow> ''invalid '' @ platform @ '' token '' @ mask_token t @ '': '' @ cause
   | PushError s \<Rightarrow> s)"

section \<open>FCM\<close>

record fcm_message =
  fm_token :: string
  fm_title :: string
  fm_body :: string
  fm_data :: "(string \<times> string) list"
  fm_priority :: string
  fm_channel :: string
  fm_sound :: string

text \<open>Encoders of the surroundings: a UUID and a JSON document as text.\<close>

record push_text =
  px_show_uuid :: "uuid \<Rightarrow> string"
  px_marshal :: "json \<Rightarrow> string"

definition channel_id_for_type :: "string \<Rightarrow> string" where
  "channel_id_for_type ty =
     (if ty = ''interrupt'' then ''interrupts'' else if ty = ''batch'' then ''batch''
      else if ty = ''temporal'' then ''temporal'' else if ty = ''staging'' then ''staging'' else ''default'')"

definition sound_for_type :: "string \<Rightarrow> string" where
  "sound_for_type ty =
     (if ty = ''interrupt'' then ''urgent.caf'' else if ty = ''batch'' then ''batch.caf''
      else if ty = ''temporal'' then ''temporal.caf'' else ''default'')"

definition fcm_build_message :: "push_text \<Rightarrow> string \<Rightarrow> notification \<Rightarrow> fcm_message" where
  "fcm_build_message px token n =
     \<lparr>fm_token = token, fm_title = nt_title n, fm_body = nt_body n,
      fm_data = [(''type'', nt_type n), (''title'', nt_title n), (''body'', nt_body n),
          (''notif_id'', px_show_uuid px (nt_id n))] @
        (case nt_data n of None \<Rightarrow> [] | Some d \<Rightarrow> [(''payload'', px_marshal px d)]),
      fm_priority = (if nt_type n = ''interrupt'' then ''high'' else ''normal''),
      fm_channel = channel_id_for_type (nt_type n), fm_sound = sound_for_type (nt_type n)\<rparr>"

text \<open>The substring search of the package, by position.\<close>

definition contains_at :: "string \<Rightarrow> string \<Rightarrow> bool" where
  "contains_at s sub =
     list_ex (\<lambda>i. take (length sub) (drop i s) = sub) [0..<length s + 1 - length sub]"

definition contains_substring :: "string \<Rightarrow> string \<Rightarrow> bool" where
  "contains_substring s sub \<longleftrightarrow>
     length sub \<le> length s \<and> (s = sub \<or> 0 < length s \<and> contains_at s sub)"

definition is_fcm_token_error :: "string \<Rightarrow> bool" where
  "is_fcm_token_error e =
     list_ex (contains_substring e)
       [''registration-token-not-registered'', ''invalid-registration-token'', ''invalid-argument'',
        ''NotRegistered'', ''InvalidRegistration'']"

text \<open>
  A Firebase client answers a message with an error text or success; a client without one is
  disabled (\<open>None\<close>) and drops the message as if it had been sent.
\<close>

type_synonym fcm_client = "(fcm_message \<Rightarrow> string option) option"

definition fcm_failure :: "string \<Rightarrow> string \<Rightarrow> push_error" where
  "fcm_failure token e =
     (if is_fcm_token_error e then InvalidToken token ''android'' e else PushError (''fcm: send: '' @ e))"

definition fcm_send :: "push_text \<Rightarrow> fcm_client \<Rightarrow> string \<Rightarrow> notification \<Rightarrow> push_error option" where
  "fcm_send px c token n =
     (case c of
        None \<Rightarrow> None
      | Some send \<Rightarrow>
          if token = [] then Some (PushError ''fcm: empty token'')
          else map_option (fcm_failure token) (send (fcm_build_message px token n)))"

text \<open>
  A multicast answers with a list of results; a result is its success flag and its error, and the
  failures are collected by token. More results than tokens make the code index out of range
  (\<open>None\<close>).
\<close>

definition multicast_failure :: "string \<Rightarrow> string option \<Rightarrow> push_error option" where
  "multicast_failure token e =
     (case e of
        None \<Rightarrow> None
      | Some s \<Rightarrow> Some (if is_fcm_token_error s then InvalidToken token ''android'' s else PushError s))"

fun collect_failures ::
  "string list \<Rightarrow> (bool \<times> string option) list \<Rightarrow> (string \<times> push_error option) list \<Rightarrow>
   (string \<times> push_error option) list option" where
  "collect_failures ts [] acc = Some acc"
| "collect_failures [] ((ok, e) # rs) acc = (if ok then collect_failures [] rs acc else None)"
| "collect_failures (t # ts) ((ok, e) # rs) acc =
     collect_failures ts rs (if ok then acc else AList.update t (multicast_failure t e) acc)"

record multicast_response =
  mr_success :: int
  mr_failure :: int
  mr_responses :: "(bool \<times> string option) list"

definition fcm_send_multicast ::
  "push_text \<Rightarrow> (string list \<Rightarrow> fcm_message \<Rightarrow> string + multicast_response) option \<Rightarrow> string list \<Rightarrow> notification \<Rightarrow>
   (string \<times> push_error option) list option" where
  "fcm_send_multicast px c tokens n =
     (case c of
        None \<Rightarrow> Some []
      | Some send \<Rightarrow>
          if tokens = [] then Some []
          else (case send tokens (fcm_build_message px [] n) of
                  Inl e \<Rightarrow> Some (fold (\<lambda>t. AList.update t (Some (PushError (''fcm: multicast: '' @ e)))) tokens [])
                | Inr r \<Rightarrow> if 0 < mr_failure r then collect_failures tokens (mr_responses r) [] else Some []))"

text \<open>The wrapper the package ships sends nothing: every message is an error.\<close>

definition firebase_wrapper_send :: "fcm_message \<Rightarrow> string option" where
  "firebase_wrapper_send msg = Some ''firebase wrapper not initialized with real client''"

definition firebase_wrapper_multicast :: "string list \<Rightarrow> fcm_message \<Rightarrow> string + multicast_response" where
  "firebase_wrapper_multicast tokens msg = Inl ''firebase wrapper not initialized with real client''"

section \<open>APNS\<close>

record apns_notification =
  an_token :: string
  an_topic :: string
  an_payload :: json
  an_priority :: int
  an_expiration :: instant

record apns_response =
  ar_status :: int
  ar_apns_id :: string
  ar_reason :: string
  ar_token_invalid :: bool

definition apns_build_payload :: "push_text \<Rightarrow> notification \<Rightarrow> json" where
  "apns_build_payload px n =
     (let alert = JObj [(''title'', JStr (nt_title n)), (''body'', JStr (nt_body n))];
          sound = (if nt_type n = ''interrupt'' then ''urgent.caf''
                   else if nt_type n = ''batch'' then ''batch.caf'' else ''default'');
          aps = [(''alert'', alert), (''sound'', JStr sound)] @
            (if nt_type n = ''interrupt'' then [(''interruption-level'', JStr ''time-sensitive'')] else []);
          payload = [(''aps'', JObj aps), (''type'', JStr (nt_type n)), (''notif_id'', JStr (px_show_uuid px (nt_id n)))]
      in JObj (case nt_data n of
           None \<Rightarrow> payload
         | Some d \<Rightarrow> (case decode_object d of
                        Some ms \<Rightarrow> put_members ms payload
                      | None \<Rightarrow> AList.update ''data'' (JStr (px_marshal px d)) payload)))"

definition apns_build_notification :: "push_text \<Rightarrow> string \<Rightarrow> instant \<Rightarrow> string \<Rightarrow> notification \<Rightarrow> apns_notification" where
  "apns_build_notification px bundle now token n =
     \<lparr>an_token = token, an_topic = bundle, an_payload = apns_build_payload px n,
      an_priority = (if nt_type n = ''interrupt'' then 10 else 5), an_expiration = now + 24 * hour_ns\<rparr>"

type_synonym apns_transport = "apns_notification \<Rightarrow> string + apns_response"

text \<open>A client is its bundle and, when enabled, its transport (which can still be missing).\<close>

record apns_client =
  ac_bundle :: string
  ac_enabled :: bool
  ac_http :: "apns_transport option"

definition new_apns_client :: "string \<Rightarrow> string \<Rightarrow> (string \<Rightarrow> string + apns_transport) \<Rightarrow> apns_client" where
  "new_apns_client bundle key_path connect =
     (let off = \<lparr>ac_bundle = (if bundle = [] then ''com.decisionstack.app'' else bundle), ac_enabled = False,
                 ac_http = None\<rparr>
      in if key_path = [] then off
         else (case connect key_path of
                 Inl _ \<Rightarrow> off
               | Inr http \<Rightarrow> off\<lparr>ac_http := Some http, ac_enabled := True\<rparr>))"

definition apns_failure :: "string \<Rightarrow> string + apns_response \<Rightarrow> push_error option" where
  "apns_failure token r =
     (case r of
        Inl e \<Rightarrow> Some (PushError (''apns: push: '' @ e))
      | Inr a \<Rightarrow>
          if ar_token_invalid a then Some (InvalidToken token ''ios'' (''APNS '' @ ar_reason a))
          else if ar_status a \<noteq> 200
          then Some (PushError (''apns: status '' @ int_decimal (ar_status a) @ '': '' @ ar_reason a))
          else None)"

definition apns_send :: "push_text \<Rightarrow> apns_client \<Rightarrow> instant \<Rightarrow> string \<Rightarrow> notification \<Rightarrow> push_error option" where
  "apns_send px c now token n =
     (if \<not> ac_enabled c then None
      else if token = [] then Some (PushError ''apns: empty token'')
      else (case ac_http c of
              None \<Rightarrow> Some (PushError ''apns: HTTP client not initialized'')
            | Some push \<Rightarrow> apns_failure token (push (apns_build_notification px (ac_bundle c) now token n))))"

definition apns_send_to_multiple ::
  "push_text \<Rightarrow> apns_client \<Rightarrow> instant \<Rightarrow> string list \<Rightarrow> notification \<Rightarrow> (string \<times> push_error) list" where
  "apns_send_to_multiple px c now tokens n =
     (if \<not> ac_enabled c then []
      else fold (\<lambda>t acc. case apns_send px c now t n of None \<Rightarrow> acc | Some e \<Rightarrow> AList.update t e acc) tokens [])"

section \<open>The HTTP/2 exchange\<close>

text \<open>
  The signer of the surroundings gives an ECDSA pair for a digest or an error; \<open>ap_asn1\<close> is its
  DER encoding. The exchange posts a request (URL, authorization, topic, priority, payload) and
  answers with status, id and the reason of the body when it decodes.
\<close>

type_synonym ec_key = nat

record apns_lib =
  ap_marshal :: "json \<Rightarrow> string"
  ap_sha256 :: "bytes \<Rightarrow> bytes"
  ap_sign :: "ec_key \<Rightarrow> bytes \<Rightarrow> string + int \<times> int"
  ap_asn1 :: "int \<times> int \<Rightarrow> bytes"
  ap_pem :: "bytes \<Rightarrow> bytes option"
  ap_parse_ec :: "bytes \<Rightarrow> ec_key option"
  ap_parse_pkcs8 :: "bytes \<Rightarrow> ec_key option"
  ap_generate :: "string + ec_key"

record apns_http2 =
  hc_jwt :: string
  hc_key_id :: string
  hc_team_id :: string
  hc_auth_key :: ec_key
  hc_dev_mode :: bool

record apns_request =
  aq_url :: string
  aq_authorization :: string
  aq_topic :: string
  aq_priority :: string
  aq_payload :: json

definition apns_signing_input :: "apns_lib \<Rightarrow> instant \<Rightarrow> apns_http2 \<Rightarrow> string" where
  "apns_signing_input lib now c =
     b64_encode (bytes_of (ap_marshal lib (JObj [(''alg'', JStr ''ES256''), (''kid'', JStr (hc_key_id c))]))) @ ''.'' @
     b64_encode (bytes_of (ap_marshal lib (JObj [(''iat'', JInt (now div second_ns)), (''iss'', JStr (hc_team_id c))])))"

definition apns_refresh_token :: "apns_lib \<Rightarrow> instant \<Rightarrow> apns_http2 \<Rightarrow> apns_http2 \<times> string option" where
  "apns_refresh_token lib now c =
     (let input = apns_signing_input lib now c
      in (case ap_sign lib (hc_auth_key c) (ap_sha256 lib (bytes_of input)) of
            Inl e \<Rightarrow> (c, Some (''sign JWT: '' @ e))
          | Inr rs \<Rightarrow> (c\<lparr>hc_jwt := input @ ''.'' @ b64_encode (ap_asn1 lib rs)\<rparr>, None)))"

definition apns_request_of :: "apns_http2 \<Rightarrow> apns_notification \<Rightarrow> apns_request" where
  "apns_request_of c n =
     \<lparr>aq_url = (if hc_dev_mode c then ''https://api.sandbox.push.apple.com'' else ''https://api.push.apple.com'') @
        ''/3/device/'' @ an_token n,
      aq_authorization = ''bearer '' @ hc_jwt c, aq_topic = an_topic n, aq_priority = int_decimal (an_priority n),
      aq_payload = an_payload n\<rparr>"

definition apns_read_response :: "int \<times> string \<times> string option \<Rightarrow> apns_response" where
  "apns_read_response r =
     (case r of (status, apns_id, reason) \<Rightarrow>
        let why = (if status = 200 then [] else case reason of None \<Rightarrow> [] | Some s \<Rightarrow> s)
        in \<lparr>ar_status = status, ar_apns_id = apns_id, ar_reason = why,
            ar_token_invalid = (status = 410 \<or>
              status \<noteq> 200 \<and> why \<in> {''BadDeviceToken'', ''Unregistered'', ''DeviceTokenNotForTopic''})\<rparr>)"

definition apns_push ::
  "apns_lib \<Rightarrow> (apns_request \<Rightarrow> string + int \<times> string \<times> string option) \<Rightarrow> instant \<Rightarrow> apns_notification \<Rightarrow> apns_http2 \<Rightarrow>
   apns_http2 \<times> (string + apns_response)" where
  "apns_push lib exchange now n c =
     (case (if hc_jwt c = [] then apns_refresh_token lib now c else (c, None)) of
        (c', Some e) \<Rightarrow> (c', Inl (''refresh APNS token: '' @ e))
      | (c', None) \<Rightarrow>
          (c', (case exchange (apns_request_of c' n) of
                  Inl e \<Rightarrow> Inl (''execute request: '' @ e)
                | Inr r \<Rightarrow> Inr (apns_read_response r))))"

text \<open>A file that holds no key is answered with a key made up on the spot.\<close>

definition parse_ec_private_key :: "apns_lib \<Rightarrow> bytes \<Rightarrow> string + ec_key" where
  "parse_ec_private_key lib data =
     (let der = (case ap_pem lib data of Some b \<Rightarrow> b | None \<Rightarrow> data)
      in (case ap_parse_ec lib der of
            Some k \<Rightarrow> Inr k
          | None \<Rightarrow> (case ap_parse_pkcs8 lib der of Some k \<Rightarrow> Inr k | None \<Rightarrow> ap_generate lib)))"

definition new_apns_http2 ::
  "apns_lib \<Rightarrow> (string \<Rightarrow> string + bytes) \<Rightarrow> instant \<Rightarrow> string \<Rightarrow> string \<Rightarrow> string \<Rightarrow> bool \<Rightarrow> string + apns_http2" where
  "new_apns_http2 lib read_file now path key_id team production =
     (case read_file path of
        Inl e \<Rightarrow> Inl (''read APNS key: '' @ e)
      | Inr data \<Rightarrow>
          (case parse_ec_private_key lib data of
             Inl e \<Rightarrow> Inl (''parse APNS key: '' @ e)
           | Inr k \<Rightarrow>
               (case apns_refresh_token lib now
                   \<lparr>hc_jwt = [], hc_key_id = key_id, hc_team_id = team, hc_auth_key = k, hc_dev_mode = \<not> production\<rparr> of
                  (c, Some e) \<Rightarrow> Inl (''generate APNS JWT: '' @ e)
                | (c, None) \<Rightarrow> Inr c)))"

section \<open>Facts\<close>

lemma contains_at_iff:
  "contains_at s sub \<longleftrightarrow> (\<exists>u v. s = u @ sub @ v)"
proof
  assume "contains_at s sub"
  then obtain i where "take (length sub) (drop i s) = sub" by (auto simp: contains_at_def list_ex_iff)
  then have "s = take i s @ sub @ drop (length sub) (drop i s)"
    by (metis append_take_drop_id)
  then show "\<exists>u v. s = u @ sub @ v" by blast
next
  assume "\<exists>u v. s = u @ sub @ v"
  then obtain u v where "s = u @ sub @ v" by blast
  then show "contains_at s sub"
    by (auto simp: contains_at_def list_ex_iff intro!: bexI [of _ "length u"])
qed

text \<open>The hand written search is the substring test of the library.\<close>

lemma contains_substring_eq: "contains_substring s sub = str_contains s sub"
proof
  assume c: "contains_substring s sub"
  show "str_contains s sub"
  proof (cases "s = sub")
    case False
    then have "contains_at s sub" using c by (simp add: contains_substring_def)
    then show ?thesis by (simp add: contains_at_iff str_contains_iff)
  qed simp
next
  assume c: "str_contains s sub"
  then have at: "contains_at s sub" by (simp add: contains_at_iff str_contains_iff)
  from c have "length sub \<le> length s" by (auto simp: str_contains_iff)
  with at show "contains_substring s sub" by (auto simp: contains_substring_def)
qed

text \<open>A masked token shows at most eight of its bytes.\<close>

lemma mask_token_hides: "8 < length t \<Longrightarrow> length (mask_token t) = 11 \<and> take 4 (mask_token t) = take 4 t"
  by (simp add: mask_token_def)

lemma fcm_token_errors:
  "is_err_invalid_token (fcm_failure t e) \<longleftrightarrow> is_fcm_token_error e"
  by (simp add: fcm_failure_def is_err_invalid_token_def)

text \<open>
  The keys \<open>aps\<close>, \<open>type\<close> and \<open>notif_id\<close> of a payload are the client's own for every notification
  the builders make: the data of a notification cannot replace them.
\<close>

lemma apns_payload_keeps_fixed_keys:
  assumes "built env user n" "k \<in> {''aps'', ''type'', ''notif_id''}"
  shows "\<exists>ms. apns_build_payload px n = JObj ms \<and>
    map_of ms ''type'' = Some (JStr (nt_type n)) \<and> map_of ms ''notif_id'' = Some (JStr (px_show_uuid px (nt_id n)))"
proof -
  obtain ms where d: "nt_data n = Some (JObj ms)" using built_object [OF assms(1)] by blast
  then have k: "''type'' \<notin> fst ` set ms" "''notif_id'' \<notin> fst ` set ms"
    using built_keys [OF assms(1)] by (auto simp: data_keys_def)
  show ?thesis using d put_members_keeps [OF k(1)] put_members_keeps [OF k(2)]
    by (simp add: apns_build_payload_def Let_def)
qed

text \<open>
  A token is minted once. Whatever the exchanges answer, a client that has a token sends that same
  token with every later request.
\<close>

fun apns_pushes ::
  "apns_lib \<Rightarrow> (apns_request \<Rightarrow> string + int \<times> string \<times> string option) \<Rightarrow> (instant \<times> apns_notification) list \<Rightarrow> apns_http2 \<Rightarrow>
   apns_http2" where
  "apns_pushes lib ex [] c = c"
| "apns_pushes lib ex ((t, n) # ns) c = apns_pushes lib ex ns (fst (apns_push lib ex t n c))"

lemma apns_push_keeps_token: "hc_jwt c \<noteq> [] \<Longrightarrow> fst (apns_push lib ex t n c) = c"
  by (simp add: apns_push_def)

lemma apns_token_never_renewed:
  assumes "new_apns_http2 lib read_file t0 path key_id team live = Inr c"
  shows "hc_jwt (apns_pushes lib ex ns c) = hc_jwt c \<and>
    (\<exists>sig. hc_jwt c = apns_signing_input lib t0 c @ sig)"
proof -
  have m: "\<exists>sig. hc_jwt c = apns_signing_input lib t0 c @ sig \<and> sig \<noteq> []"
    using assms
    by (auto simp: new_apns_http2_def apns_refresh_token_def apns_signing_input_def Let_def split: sum.splits)
  then have ne: "hc_jwt c \<noteq> []" by auto
  have "apns_pushes lib ex ns c = c"
    using apns_push_keeps_token [OF ne] by (induction ns) auto
  with m show ?thesis by auto
qed

text \<open>
  A key file that cannot be read as a key does not stop the client: it signs with a generated key.
\<close>

lemma unreadable_key_is_replaced:
  assumes "read_file path = Inr data" "ap_generate lib = Inr k"
    and "\<And>b. ap_parse_ec lib b = None" "\<And>b. ap_parse_pkcs8 lib b = None"
    and "\<And>d. \<exists>rs. ap_sign lib k d = Inr rs"
  shows "\<exists>c. new_apns_http2 lib read_file now path key_id team live = Inr c \<and> hc_auth_key c = k"
  using assms
  by (auto simp: new_apns_http2_def parse_ec_private_key_def apns_refresh_token_def Let_def split: sum.splits)
    (metis Inl_Inr_False)

end
