(* ===== verification/Quiet_Hours.thy ===== *)
theory Quiet_Hours
  imports Reagent_Prelude
begin

text \<open>
  Quiet hours of \<open>src/sync/internal/notify/quiet_hours.go\<close>: when they are active for a user, when
  they end and whether a notification is deferred. The preference store is a parameter (it answers
  or fails), as is the time zone database: a zone is its offset from UTC at the time of the call,
  so days on which a zone changes its offset are outside the model.
\<close>

record quiet_config =
  cfg_quiet_start :: int
  cfg_quiet_end :: int

record quiet_prefs =
  pref_quiet_enabled :: bool
  pref_quiet_start :: "int option"
  pref_quiet_end :: "int option"
  pref_timezone :: string

record quiet_env =
  qe_now :: instant
  qe_prefs :: "uuid \<Rightarrow> quiet_prefs option"
  qe_zone :: "string \<Rightarrow> duration option"
  qe_local :: duration

definition local_hour :: "instant \<Rightarrow> duration \<Rightarrow> int" where
  "local_hour t offset = ((t + offset) div hour_ns) mod 24"

text \<open>\<open>time.Date(y, m, d, hour, 0, 0, 0, loc)\<close> for the date of \<open>t\<close> in the zone.\<close>

definition at_hour :: "instant \<Rightarrow> duration \<Rightarrow> int \<Rightarrow> instant" where
  "at_hour t offset hour =
     ((t + offset) div (24 * hour_ns)) * (24 * hour_ns) + hour * hour_ns - offset"

definition is_hour_in_range :: "int \<Rightarrow> int \<Rightarrow> int \<Rightarrow> bool" where
  "is_hour_in_range hour start end_hour =
     (if start < end_hour then start \<le> hour \<and> hour < end_hour
      else start \<le> hour \<or> hour < end_hour)"

definition zone_of :: "quiet_env \<Rightarrow> quiet_prefs \<Rightarrow> duration" where
  "zone_of env p =
     (let tz = (if pref_timezone p = [] then ''America/New_York'' else pref_timezone p)
      in (case qe_zone env tz of Some off \<Rightarrow> off | None \<Rightarrow> qe_local env))"

definition is_default_quiet_hours :: "quiet_config \<Rightarrow> quiet_env \<Rightarrow> bool" where
  "is_default_quiet_hours cfg env =
     is_hour_in_range (local_hour (qe_now env) (qe_local env)) (cfg_quiet_start cfg) (cfg_quiet_end cfg)"

definition is_quiet_hours :: "quiet_config \<Rightarrow> quiet_env \<Rightarrow> uuid \<Rightarrow> bool" where
  "is_quiet_hours cfg env user =
     (case qe_prefs env user of
        None \<Rightarrow> is_default_quiet_hours cfg env
      | Some p \<Rightarrow>
          if \<not> pref_quiet_enabled p then False
          else is_hour_in_range (local_hour (qe_now env) (zone_of env p))
                 (case pref_quiet_start p of None \<Rightarrow> cfg_quiet_start cfg | Some s \<Rightarrow> s)
                 (case pref_quiet_end p of None \<Rightarrow> cfg_quiet_end cfg | Some e \<Rightarrow> e))"

definition next_default_quiet_hours_end :: "quiet_config \<Rightarrow> quiet_env \<Rightarrow> instant" where
  "next_default_quiet_hours_end cfg env =
     (let t = at_hour (qe_now env) (qe_local env) (cfg_quiet_end cfg)
      in if t < qe_now env then t + 24 * hour_ns else t)"

definition next_quiet_hours_end :: "quiet_config \<Rightarrow> quiet_env \<Rightarrow> uuid \<Rightarrow> instant" where
  "next_quiet_hours_end cfg env user =
     (case qe_prefs env user of
        None \<Rightarrow> next_default_quiet_hours_end cfg env
      | Some p \<Rightarrow>
          (let end_hour = (case pref_quiet_end p of None \<Rightarrow> cfg_quiet_end cfg | Some e \<Rightarrow> e);
               off = zone_of env p;
               h = local_hour (qe_now env) off;
               t = at_hour (qe_now env) off end_hour
           in if \<not> is_hour_in_range h (cfg_quiet_start cfg) (cfg_quiet_end cfg) \<and> end_hour \<le> h
              then t + 24 * hour_ns else t))"

definition should_defer :: "quiet_config \<Rightarrow> quiet_env \<Rightarrow> uuid \<Rightarrow> int \<Rightarrow> bool \<times> instant" where
  "should_defer cfg env user priority =
     (if 8 \<le> priority then (False, zero_time)
      else if \<not> is_quiet_hours cfg env user then (False, zero_time)
      else (True, next_quiet_hours_end cfg env user))"

section \<open>The window\<close>

lemma local_hour_range [simp]: "0 \<le> local_hour t off" "local_hour t off < 24"
  by (simp_all add: local_hour_def)

text \<open>The time of day splits into the start of the day, the hour and the rest.\<close>

lemma at_hour_split:
  "t = at_hour t off (local_hour t off) + (t + off) mod hour_ns"
proof -
  define q where "q = (t + off) div hour_ns"
  have d: "(t + off) div (24 * hour_ns) = q div 24"
    by (simp add: q_def zdiv_zmult2_eq mult.commute)
  have "t + off = q * hour_ns + (t + off) mod hour_ns" by (simp add: q_def)
  moreover have "q = q div 24 * 24 + q mod 24" by simp
  ultimately show ?thesis
    unfolding at_hour_def local_hour_def d q_def [symmetric] by linarith
qed

lemma at_hour_diff: "at_hour t off a - at_hour t off b = (a - b) * hour_ns"
  by (simp add: at_hour_def algebra_simps)

lemma at_hour_past:
  assumes "e \<le> local_hour t off"
  shows "at_hour t off e \<le> t"
proof -
  have "at_hour t off e \<le> at_hour t off (local_hour t off)"
    using assms at_hour_diff [of t off "local_hour t off" e] by simp
  moreover have "0 \<le> (t + off) mod hour_ns" by simp
  ultimately show ?thesis using at_hour_split [of t off] by linarith
qed

lemma at_hour_future:
  assumes "local_hour t off < e"
  shows "t < at_hour t off e \<and> at_hour t off e - t \<le> (e - local_hour t off) * hour_ns"
proof -
  have "at_hour t off e - at_hour t off (local_hour t off) = (e - local_hour t off) * hour_ns"
    by (rule at_hour_diff)
  moreover have "hour_ns \<le> (e - local_hour t off) * hour_ns" using assms by simp
  moreover have "0 \<le> (t + off) mod hour_ns" "(t + off) mod hour_ns < hour_ns" by simp_all
  ultimately show ?thesis using at_hour_split [of t off] by linarith
qed

text \<open>
  The quiet window is the clock interval from start to end. For hours of the day and a start
  different from the end, an hour is quiet exactly when it lies on the clock between start
  (included) and end (excluded), wrapping over midnight when the start is later; equal start and
  end mean quiet all day.
\<close>

lemma quiet_window_is_clock_interval:
  assumes "0 \<le> hour" "hour < 24" "0 \<le> start" "start < 24" "0 \<le> end_hour" "end_hour < 24"
  shows "is_hour_in_range hour start end_hour \<longleftrightarrow>
    start = end_hour \<or> (hour - start) mod 24 < (end_hour - start) mod 24"
proof -
  have m: "(a - b) mod 24 = (if b \<le> a then a - b else a - b + 24)"
    if "0 \<le> a" "a < 24" "0 \<le> b" "b < 24" for a b :: int
    using that by (auto simp: mod_pos_pos_trivial) (smt (verit) mod_add_self2 mod_pos_pos_trivial)
  show ?thesis
    unfolding m [OF assms(1-4)] m [OF assms(5,6,3,4)] is_hour_in_range_def using assms by auto
qed

theorem quiet_window_is_clock_interval_witness:
  "is_hour_in_range 23 22 7 \<and> \<not> is_hour_in_range 7 22 7 \<and> is_hour_in_range 12 9 9"
  using quiet_window_is_clock_interval [of 23 22 7] quiet_window_is_clock_interval [of 7 22 7]
    quiet_window_is_clock_interval [of 12 9 9] by simp

text \<open>
  Deferral before midnight resumes in the past. With an overnight window from the
  configuration, a deferred notification of a user with preferences resumes at the end hour of
  the current calendar day: after midnight that is within the coming hours, but in the evening
  part of the window it is a time that has already passed. Urgent notifications are never deferred.
\<close>

lemma evening_deferral_resumes_in_the_past:
  assumes "qe_prefs env user = Some p" and "pref_quiet_enabled p"
    and "pref_quiet_start p = None" and "pref_quiet_end p = None"
    and "cfg_quiet_end cfg \<le> cfg_quiet_start cfg"
    and "should_defer cfg env user priority = (True, resume)"
  shows "priority < 8 \<and>
    (cfg_quiet_start cfg \<le> local_hour (qe_now env) (zone_of env p) \<longrightarrow> resume \<le> qe_now env) \<and>
    (local_hour (qe_now env) (zone_of env p) < cfg_quiet_end cfg \<longrightarrow>
       qe_now env < resume \<and> resume - qe_now env \<le> cfg_quiet_end cfg * hour_ns)"
proof -
  let ?h = "local_hour (qe_now env) (zone_of env p)"
  have q: "is_hour_in_range ?h (cfg_quiet_start cfg) (cfg_quiet_end cfg)" and pr: "priority < 8"
    and r: "resume = next_quiet_hours_end cfg env user"
    using assms by (auto simp: should_defer_def is_quiet_hours_def split: if_splits)
  have resume: "resume = at_hour (qe_now env) (zone_of env p) (cfg_quiet_end cfg)"
    using q r assms(1,4) by (simp add: next_quiet_hours_end_def Let_def)
  have "resume \<le> qe_now env" if "cfg_quiet_start cfg \<le> ?h"
    unfolding resume by (rule at_hour_past) (use that assms(5) in linarith)
  moreover have "qe_now env < resume \<and> resume - qe_now env \<le> cfg_quiet_end cfg * hour_ns" if "?h < cfg_quiet_end cfg"
  proof -
    have "(cfg_quiet_end cfg - ?h) * hour_ns \<le> cfg_quiet_end cfg * hour_ns" by simp
    with at_hour_future [OF that] show ?thesis unfolding resume by linarith
  qed
  ultimately show ?thesis using pr by blast
qed

theorem evening_deferral_resumes_in_the_past_witness:
  "\<exists>resume. should_defer \<lparr>cfg_quiet_start = 22, cfg_quiet_end = 7\<rparr>
     \<lparr>qe_now = 23 * hour_ns, qe_prefs = (\<lambda>u. Some \<lparr>pref_quiet_enabled = True, pref_quiet_start = None,
        pref_quiet_end = None, pref_timezone = ''UTC''\<rparr>), qe_zone = (\<lambda>z. Some 0), qe_local = 0\<rparr> 1 5 = (True, resume) \<and>
     resume \<le> 23 * hour_ns"
proof -
  let ?cfg = "\<lparr>cfg_quiet_start = 22, cfg_quiet_end = 7\<rparr>"
  let ?p = "\<lparr>pref_quiet_enabled = True, pref_quiet_start = None, pref_quiet_end = None, pref_timezone = ''UTC''\<rparr>"
  let ?env = "\<lparr>qe_now = 23 * hour_ns, qe_prefs = (\<lambda>u. Some ?p), qe_zone = (\<lambda>z. Some 0), qe_local = 0\<rparr>"
  have "is_quiet_hours ?cfg ?env 1"
    by (simp add: is_quiet_hours_def is_hour_in_range_def local_hour_def zone_of_def)
  then have d: "should_defer ?cfg ?env 1 5 = (True, next_quiet_hours_end ?cfg ?env 1)"
    by (simp add: should_defer_def)
  have "next_quiet_hours_end ?cfg ?env 1 \<le> qe_now ?env"
    using evening_deferral_resumes_in_the_past [OF _ _ _ _ _ d, of ?p]
    by (simp add: local_hour_def zone_of_def)
  with d show ?thesis by auto
qed

end
