(* ===== verification/Auth_Tokens.thy ===== *)
theory Auth_Tokens
  imports Go_Encoding "HOL-Library.Countable"
begin

text \<open>
  The tokens of the sync service (\<open>src/sync/internal/auth/tokens.go\<close>, \<open>token_validator.go\<close>) and the
  middleware that reads them (\<open>middleware.go\<close>): generation, the single key validators, access
  and refresh tokens of the token manager, bearer parsing and request contexts. The JWT, UUID and
  SHA-256 libraries are the record \<open>auth_lib\<close>; \<open>jwt_ok\<close> states what the JWT library documents.
\<close>

record token_claims =
  tc_uid :: string
  tc_did :: string
  tc_role :: string
  tc_tid :: string
  tc_use :: string
  tc_sub :: string
  tc_iss :: string
  tc_aud :: "string list"
  tc_exp :: "instant option"
  tc_nbf :: "instant option"
  tc_iat :: "instant option"

record jwt_header =
  jh_alg :: string
  jh_kid :: "string option"

record auth_lib =
  al_sha256 :: "bytes \<Rightarrow> bytes"
  al_sign :: "jwt_header \<Rightarrow> token_claims \<Rightarrow> bytes \<Rightarrow> string + string"
  al_parse :: "string \<Rightarrow> string + jwt_header \<times> token_claims"
  al_parse_with :: "string \<Rightarrow> (jwt_header \<Rightarrow> string + bytes) \<Rightarrow> string list option \<Rightarrow> instant \<Rightarrow>
    string + jwt_header \<times> token_claims"
  al_show_uuid :: "uuid \<Rightarrow> string"
  al_parse_uuid :: "string \<Rightarrow> string + uuid"

text \<open>\<open>jwt.NewNumericDate\<close> truncates to seconds; the claims travel with that precision.\<close>

definition numeric_date :: "instant \<Rightarrow> instant" where
  "numeric_date t = t - t mod second_ns"

definition whole_seconds :: "token_claims \<Rightarrow> token_claims" where
  "whole_seconds c =
     c\<lparr>tc_exp := map_option numeric_date (tc_exp c), tc_nbf := map_option numeric_date (tc_nbf c),
       tc_iat := map_option numeric_date (tc_iat c)\<rparr>"

definition dates_ok :: "token_claims \<Rightarrow> instant \<Rightarrow> bool" where
  "dates_ok c now \<longleftrightarrow>
     (case tc_exp c of None \<Rightarrow> True | Some e \<Rightarrow> now < e) \<and>
     (case tc_nbf c of None \<Rightarrow> True | Some n \<Rightarrow> n \<le> now)"

text \<open>
  The documented behaviour of the JWT library. \<open>verifies t k\<close> says that the signature of \<open>t\<close>
  verifies under the key \<open>k\<close>. Signing gives a compact token of three parts that parses back and
  verifies; parsing with a key function succeeds exactly for tokens of an admitted method whose
  signature verifies and whose dates are current, and names expiry in its error.
\<close>

definition admitted :: "string list option \<Rightarrow> jwt_header \<Rightarrow> bool" where
  "admitted ms h \<longleftrightarrow> (case ms of None \<Rightarrow> True | Some as \<Rightarrow> jh_alg h \<in> set as)"

definition jwt_signs :: "auth_lib \<Rightarrow> (string \<Rightarrow> bytes \<Rightarrow> bool) \<Rightarrow> bool" where
  "jwt_signs lib verifies \<longleftrightarrow>
     (\<forall>h c k t. jh_alg h = ''HS256'' \<longrightarrow> al_sign lib h c k = Inr t \<longrightarrow>
        al_parse lib t = Inr (h, whole_seconds c) \<and> verifies t k \<and> count_char CHR ''.'' t = 2)"

definition jwt_parses :: "auth_lib \<Rightarrow> (string \<Rightarrow> bytes \<Rightarrow> bool) \<Rightarrow> bool" where
  "jwt_parses lib verifies \<longleftrightarrow>
     (\<forall>t kf ms now h c. al_parse_with lib t kf ms now = Inr (h, c) \<longleftrightarrow>
        al_parse lib t = Inr (h, c) \<and> (\<exists>k. kf h = Inr k \<and> verifies t k) \<and> admitted ms h \<and> dates_ok c now)"

definition jwt_names_expiry :: "auth_lib \<Rightarrow> (string \<Rightarrow> bytes \<Rightarrow> bool) \<Rightarrow> bool" where
  "jwt_names_expiry lib verifies \<longleftrightarrow>
     (\<forall>t kf ms now h c k e. al_parse lib t = Inr (h, c) \<longrightarrow> kf h = Inr k \<longrightarrow> verifies t k \<longrightarrow> admitted ms h \<longrightarrow>
        tc_exp c = Some e \<longrightarrow> e \<le> now \<longrightarrow>
        (\<exists>m. al_parse_with lib t kf ms now = Inl m \<and> str_contains m ''expired''))"

definition jwt_ok :: "auth_lib \<Rightarrow> (string \<Rightarrow> bytes \<Rightarrow> bool) \<Rightarrow> bool" where
  "jwt_ok lib verifies \<longleftrightarrow> jwt_signs lib verifies \<and> jwt_parses lib verifies \<and> jwt_names_expiry lib verifies"

definition sha_ok :: "auth_lib \<Rightarrow> bool" where
  "sha_ok lib \<longleftrightarrow> (\<forall>bs. length (al_sha256 lib bs) = 32)"

definition signs_always :: "auth_lib \<Rightarrow> bool" where
  "signs_always lib \<longleftrightarrow> (\<forall>h c k. \<exists>t. al_sign lib h c k = Inr t)"

definition uuid_ok :: "auth_lib \<Rightarrow> bool" where
  "uuid_ok lib \<longleftrightarrow> (\<forall>u. al_parse_uuid lib (al_show_uuid lib u) = Inr u)"

section \<open>Generation\<close>

definition derive_kid :: "auth_lib \<Rightarrow> bytes \<Rightarrow> string" where
  "derive_kid lib key = hex_encode (take 4 (al_sha256 lib key))"

definition user_claims :: "string \<Rightarrow> string \<Rightarrow> string \<Rightarrow> instant \<Rightarrow> duration \<Rightarrow> token_claims" where
  "user_claims user device use now ttl =
     \<lparr>tc_uid = user, tc_did = device, tc_role = ''user'', tc_tid = [], tc_use = use, tc_sub = user,
      tc_iss = ''decision-stack'', tc_aud = [''decision-stack-api''],
      tc_exp = Some (numeric_date (now + ttl)), tc_nbf = Some (numeric_date now),
      tc_iat = Some (numeric_date now)\<rparr>"

definition generate_token_with_claims :: "auth_lib \<Rightarrow> token_claims \<Rightarrow> bytes \<Rightarrow> string + string" where
  "generate_token_with_claims lib c key =
     al_sign lib \<lparr>jh_alg = ''HS256'', jh_kid = Some (derive_kid lib key)\<rparr> c key"

definition generate_token :: "auth_lib \<Rightarrow> string \<Rightarrow> string \<Rightarrow> bytes \<Rightarrow> duration \<Rightarrow> instant \<Rightarrow> string + string" where
  "generate_token lib user device key expiry now =
     generate_token_with_claims lib (user_claims user device [] now expiry) key"

definition refresh_token :: "auth_lib \<Rightarrow> string \<Rightarrow> bytes \<Rightarrow> duration \<Rightarrow> instant \<Rightarrow> string + string" where
  "refresh_token lib t key expiry now =
     (case al_parse lib t of
        Inl e \<Rightarrow> Inl (''parse existing token: '' @ e)
      | Inr (h, c) \<Rightarrow>
          generate_token_with_claims lib
            (c\<lparr>tc_iat := Some (numeric_date now), tc_exp := Some (numeric_date (now + expiry))\<rparr>) key)"

section \<open>Single key validators\<close>

definition is_hmac :: "jwt_header \<Rightarrow> bool" where
  "is_hmac h \<longleftrightarrow> jh_alg h \<in> {''HS256'', ''HS384'', ''HS512''}"

definition validator_key :: "auth_lib \<Rightarrow> bytes \<Rightarrow> jwt_header \<Rightarrow> string + bytes" where
  "validator_key lib secret h =
     (if \<not> is_hmac h then Inl (''unexpected signing method: '' @ jh_alg h)
      else (case jh_kid h of
              Some kid \<Rightarrow>
                if kid \<noteq> derive_kid lib secret
                then Inl (''key ID mismatch: got '' @ kid @ '', expected '' @ derive_kid lib secret)
                else Inr secret
            | None \<Rightarrow> Inr secret))"

definition validator_validate :: "auth_lib \<Rightarrow> bytes \<Rightarrow> string \<Rightarrow> instant \<Rightarrow> string + token_claims" where
  "validator_validate lib secret t now =
     (case al_parse_with lib t (validator_key lib secret) (Some [''HS256'']) now of
        Inl e \<Rightarrow> Inl (''token validation failed: '' @ e)
      | Inr (h, c) \<Rightarrow> Inr c)"

text \<open>\<open>TokenValidator\<close> of the WebSocket upgrade: no check of method or kid.\<close>

definition token_validator_validate :: "auth_lib \<Rightarrow> bytes \<Rightarrow> string \<Rightarrow> instant \<Rightarrow> string + token_claims" where
  "token_validator_validate lib secret t now =
     map_sum id snd (al_parse_with lib t (\<lambda>_. Inr secret) None now)"

definition parse_kid :: "auth_lib \<Rightarrow> string \<Rightarrow> string + string" where
  "parse_kid lib t =
     (case al_parse lib t of
        Inl e \<Rightarrow> Inl (''parse token: '' @ e)
      | Inr (h, c) \<Rightarrow> (case jh_kid h of None \<Rightarrow> Inl ''token has no kid header'' | Some kid \<Rightarrow> Inr kid))"

definition token_expiry :: "auth_lib \<Rightarrow> string \<Rightarrow> string + instant" where
  "token_expiry lib t =
     (case al_parse lib t of
        Inl e \<Rightarrow> Inl (''parse token: '' @ e)
      | Inr (h, c) \<Rightarrow> (case tc_exp c of None \<Rightarrow> Inl ''token has no expiry'' | Some e \<Rightarrow> Inr e))"

definition token_subject :: "auth_lib \<Rightarrow> string \<Rightarrow> string + string" where
  "token_subject lib t =
     (case al_parse lib t of Inl e \<Rightarrow> Inl (''parse token: '' @ e) | Inr (h, c) \<Rightarrow> Inr (tc_sub c))"

section \<open>The token manager\<close>

record token_manager =
  tm_secret :: bytes
  tm_access_ttl :: duration
  tm_refresh_ttl :: duration

text \<open>\<open>None\<close> is the panic of an empty secret.\<close>

definition new_token_manager :: "bytes \<Rightarrow> duration \<Rightarrow> duration \<Rightarrow> token_manager option" where
  "new_token_manager secret access refresh =
     (if secret = [] then None
      else Some \<lparr>tm_secret = secret,
                 tm_access_ttl = (if access = 0 then 24 * hour_ns else access),
                 tm_refresh_ttl = (if refresh = 0 then 30 * 24 * hour_ns else refresh)\<rparr>)"

definition generate_access_token :: "auth_lib \<Rightarrow> token_manager \<Rightarrow> uuid \<Rightarrow> string \<Rightarrow> instant \<Rightarrow> string + string" where
  "generate_access_token lib tm user device now =
     generate_token_with_claims lib
       (user_claims (al_show_uuid lib user) device ''access'' now (tm_access_ttl tm)) (tm_secret tm)"

text \<open>The opaque half of a refresh token: 32 bytes of a hash over secret, time, user and device.\<close>

definition opaque_part :: "auth_lib \<Rightarrow> token_manager \<Rightarrow> uuid \<Rightarrow> string \<Rightarrow> instant \<Rightarrow> bytes" where
  "opaque_part lib tm user device now =
     al_sha256 lib
       (tm_secret tm @ bytes_of (int_decimal now @ ''-'' @ al_show_uuid lib user @ ''-'' @ device))"

definition generate_refresh_token :: "auth_lib \<Rightarrow> token_manager \<Rightarrow> uuid \<Rightarrow> string \<Rightarrow> instant \<Rightarrow> string + string" where
  "generate_refresh_token lib tm user device now =
     (case generate_token_with_claims lib
             (user_claims (al_show_uuid lib user) device ''refresh'' now (tm_refresh_ttl tm))
             (tm_secret tm) of
        Inl e \<Rightarrow> Inl (''generate refresh envelope: '' @ e)
      | Inr envelope \<Rightarrow> Inr (envelope @ ''.'' @ b64_encode (opaque_part lib tm user device now)))"

definition manager_key :: "token_manager \<Rightarrow> jwt_header \<Rightarrow> string + bytes" where
  "manager_key tm h =
     (if is_hmac h then Inr (tm_secret tm) else Inl (''unexpected signing method: '' @ jh_alg h))"

text \<open>The common tail of both validations: method, signature, dates, use, user id.\<close>

definition validate_use :: "auth_lib \<Rightarrow> token_manager \<Rightarrow> string \<Rightarrow> string \<Rightarrow> instant \<Rightarrow> string + uuid \<times> string" where
  "validate_use lib tm use t now =
     (case al_parse_with lib t (manager_key tm) (Some [''HS256'']) now of
        Inl e \<Rightarrow> Inl (''token validation failed: '' @ e)
      | Inr (h, c) \<Rightarrow>
          if tc_use c \<noteq> use then Inl (''token use is '' @ go_quote (tc_use c) @ '', not '' @ use)
          else (case al_parse_uuid lib (tc_uid c) of
                  Inl e \<Rightarrow> Inl (''invalid user ID in token: '' @ e)
                | Inr u \<Rightarrow> Inr (u, tc_did c)))"

definition validate_access_token :: "auth_lib \<Rightarrow> token_manager \<Rightarrow> string \<Rightarrow> instant \<Rightarrow> string + uuid \<times> string" where
  "validate_access_token lib tm t now =
     (if t = [] then Inl ''token is empty''
      else if count_char CHR ''.'' t \<noteq> 2 then Inl ''token is not access token: not access (wrong format)''
      else validate_use lib tm ''access'' t now)"

definition validate_refresh_token :: "auth_lib \<Rightarrow> token_manager \<Rightarrow> string \<Rightarrow> instant \<Rightarrow> string + uuid \<times> string" where
  "validate_refresh_token lib tm t now =
     (if t = [] then Inl ''token is empty''
      else if count_char CHR ''.'' t < 3 then
        (if count_char CHR ''.'' t = 2 \<and>
            (case al_parse_with lib t (\<lambda>_. Inr (tm_secret tm)) None now of
               Inl _ \<Rightarrow> False | Inr (h, c) \<Rightarrow> tc_use c = ''access'')
         then Inl ''token use is not refresh: token is an access token''
         else Inl ''refresh token has no separator'')
      else (case cut_last CHR ''.'' t of
              None \<Rightarrow> Inl ''refresh token has no separator''
            | Some (envelope, opaque) \<Rightarrow>
                (case b64_decode opaque of
                   None \<Rightarrow> Inl ''refresh token has invalid opaque portion''
                 | Some bs \<Rightarrow>
                     if length bs \<noteq> 32 then Inl ''refresh token has invalid opaque portion''
                     else validate_use lib tm ''refresh'' envelope now)))"

definition extract_refresh_token_secret :: "string \<Rightarrow> string" where
  "extract_refresh_token_secret t =
     (case cut_last CHR ''.'' t of None \<Rightarrow> t | Some (_, opaque) \<Rightarrow> opaque)"

section \<open>Bearer tokens and request contexts\<close>

text \<open>
  What a request context holds under the keys of the package. The user is stored as a UUID by
  the middleware of the HTTP routes and of unary calls.
\<close>

datatype ctx_value = CtxUuid uuid | CtxString string

record request_ctx =
  rc_claims :: "token_claims option"
  rc_user :: "ctx_value option"
  rc_device :: "string option"

definition empty_ctx :: request_ctx where
  "empty_ctx = \<lparr>rc_claims = None, rc_user = None, rc_device = None\<rparr>"

definition user_id_from_context :: "request_ctx \<Rightarrow> uuid" where
  "user_id_from_context ctx = (case rc_user ctx of Some (CtxUuid u) \<Rightarrow> u | _ \<Rightarrow> uuid_nil)"

definition must_get_user_id :: "request_ctx \<Rightarrow> string + uuid" where
  "must_get_user_id ctx =
     (if user_id_from_context ctx = uuid_nil then Inl ''user ID not found in context''
      else Inr (user_id_from_context ctx))"

definition device_id_from_context :: "request_ctx \<Rightarrow> string" where
  "device_id_from_context ctx = (case rc_device ctx of None \<Rightarrow> [] | Some d \<Rightarrow> d)"

definition bearer_token :: "string \<Rightarrow> string option" where
  "bearer_token h =
     (case cut_first CHR '' '' h of
        None \<Rightarrow> None
      | Some (scheme, t) \<Rightarrow> if to_lower scheme = ''bearer'' then Some t else None)"

text \<open>\<open>JWTMiddleware\<close>: the error code of the 401 answer, or the context handed on.\<close>

definition jwt_middleware ::
  "auth_lib \<Rightarrow> token_manager \<Rightarrow> string \<Rightarrow> request_ctx \<Rightarrow> instant \<Rightarrow> string + request_ctx" where
  "jwt_middleware lib tm h ctx now =
     (if h = [] then Inl ''auth_missing''
      else (case bearer_token h of
              None \<Rightarrow> Inl ''auth_malformed''
            | Some t \<Rightarrow>
                if t = [] then Inl ''auth_empty''
                else (case validate_access_token lib tm t now of
                        Inl e \<Rightarrow> if str_contains e ''expired'' then Inl ''auth_expired'' else Inl ''auth_invalid''
                      | Inr (u, d) \<Rightarrow> Inr (ctx\<lparr>rc_user := Some (CtxUuid u), rc_device := Some d\<rparr>))))"

section \<open>What the validations accept\<close>

lemma jwt_sign_law:
  "jwt_ok lib verifies \<Longrightarrow> jh_alg h = ''HS256'' \<Longrightarrow> al_sign lib h c k = Inr t \<Longrightarrow>
   al_parse lib t = Inr (h, whole_seconds c) \<and> verifies t k \<and> count_char CHR ''.'' t = 2"
  by (simp add: jwt_ok_def jwt_signs_def)

lemma sign_parses:
  assumes "jwt_ok lib verifies" "generate_token_with_claims lib c key = Inr t"
  shows "al_parse lib t = Inr (\<lparr>jh_alg = ''HS256'', jh_kid = Some (derive_kid lib key)\<rparr>, whole_seconds c)"
    and "verifies t key" and "count_char CHR ''.'' t = 2"
proof -
  let ?h = "\<lparr>jh_alg = ''HS256'', jh_kid = Some (derive_kid lib key)\<rparr>"
  have "al_sign lib ?h c key = Inr t" using assms(2) by (simp add: generate_token_with_claims_def)
  then have "al_parse lib t = Inr (?h, whole_seconds c) \<and> verifies t key \<and> count_char CHR ''.'' t = 2"
    by (intro jwt_sign_law [OF assms(1)]) simp_all
  then show "al_parse lib t = Inr (?h, whole_seconds c)"
    and "verifies t key" and "count_char CHR ''.'' t = 2" by simp_all
qed

lemma parse_with_iff:
  "jwt_ok lib verifies \<Longrightarrow>
   al_parse_with lib t kf ms now = Inr (h, c) \<longleftrightarrow>
     al_parse lib t = Inr (h, c) \<and> (\<exists>k. kf h = Inr k \<and> verifies t k) \<and> admitted ms h \<and> dates_ok c now"
  by (simp add: jwt_ok_def jwt_parses_def)

lemma parse_with_expired:
  assumes "jwt_ok lib verifies" "al_parse lib t = Inr (h, c)" "kf h = Inr k" "verifies t k" "admitted ms h"
    "tc_exp c = Some e" "e \<le> now"
  shows "\<exists>m. al_parse_with lib t kf ms now = Inl m \<and> str_contains m ''expired''"
  using assms by (auto simp: jwt_ok_def jwt_names_expiry_def)

lemma str_contains_append: "str_contains t sub \<Longrightarrow> str_contains (s @ t) sub"
  by (auto simp: str_contains_iff) (metis append.assoc)

lemma numeric_date_idem [simp]: "numeric_date (numeric_date t) = numeric_date t"
  by (simp add: numeric_date_def)

lemma whole_seconds_user_claims [simp]:
  "whole_seconds (user_claims u d use now ttl) = user_claims u d use now ttl"
  by (simp add: whole_seconds_def user_claims_def)

lemma user_claims_sel [simp]:
  "tc_uid (user_claims u d use now ttl) = u" "tc_did (user_claims u d use now ttl) = d"
  "tc_use (user_claims u d use now ttl) = use"
  "tc_exp (user_claims u d use now ttl) = Some (numeric_date (now + ttl))"
  "dates_ok (user_claims u d use now ttl) seen \<longleftrightarrow> seen < numeric_date (now + ttl) \<and> numeric_date now \<le> seen"
  by (simp_all add: user_claims_def dates_ok_def)

lemma minted_token_parses:
  assumes "jwt_ok lib verifies"
    and "generate_token_with_claims lib (user_claims u d use now ttl) key = Inr t"
    and "kf \<lparr>jh_alg = ''HS256'', jh_kid = Some (derive_kid lib key)\<rparr> = Inr key"
    and "admitted ms \<lparr>jh_alg = ''HS256'', jh_kid = Some (derive_kid lib key)\<rparr>"
    and "numeric_date now \<le> seen" "seen < numeric_date (now + ttl)"
  shows "al_parse_with lib t kf ms seen =
    Inr (\<lparr>jh_alg = ''HS256'', jh_kid = Some (derive_kid lib key)\<rparr>, user_claims u d use now ttl)"
  using sign_parses [OF assms(1,2)] assms(3-6)
  by (subst parse_with_iff [OF assms(1)]) auto

lemma minted_token_expires:
  assumes "jwt_ok lib verifies"
    and "generate_token_with_claims lib (user_claims u d use now ttl) key = Inr t"
    and "kf \<lparr>jh_alg = ''HS256'', jh_kid = Some (derive_kid lib key)\<rparr> = Inr key"
    and "admitted ms \<lparr>jh_alg = ''HS256'', jh_kid = Some (derive_kid lib key)\<rparr>"
    and "\<not> seen < numeric_date (now + ttl)"
  shows "\<exists>m. al_parse_with lib t kf ms seen = Inl m \<and> str_contains m ''expired''"
  using sign_parses [OF assms(1,2)] assms(3-5)
  by (intro parse_with_expired [OF assms(1), where e = "numeric_date (now + ttl)"]) auto

lemma manager_key_minted [simp]: "manager_key tm \<lparr>jh_alg = ''HS256'', jh_kid = k\<rparr> = Inr (tm_secret tm)"
  by (simp add: manager_key_def is_hmac_def)

lemma admitted_minted [simp]: "admitted (Some [''HS256'']) \<lparr>jh_alg = ''HS256'', jh_kid = k\<rparr>"
  "admitted None h"
  by (simp_all add: admitted_def)

text \<open>A minted token under the common tail: accepted for its own use until it expires.\<close>

lemma validate_use_minted:
  assumes "jwt_ok lib verifies" "uuid_ok lib"
    and "generate_token_with_claims lib (user_claims (al_show_uuid lib u) d use now ttl) (tm_secret tm) = Inr t"
    and "numeric_date now \<le> seen" "seen < numeric_date (now + ttl)"
  shows "validate_use lib tm use t seen = Inr (u, d)"
    and "use' \<noteq> use \<Longrightarrow> \<exists>e. validate_use lib tm use' t seen = Inl e"
  using minted_token_parses [OF assms(1,3), where kf = "manager_key tm" and ms = "Some [''HS256'']", simplified, OF assms(4,5)] assms(2)
  by (simp_all add: validate_use_def uuid_ok_def)

lemma validate_use_expired:
  assumes "jwt_ok lib verifies"
    and "generate_token_with_claims lib (user_claims (al_show_uuid lib u) d use now ttl) (tm_secret tm) = Inr t"
    and "\<not> seen < numeric_date (now + ttl)"
  shows "\<exists>e. validate_use lib tm use' t seen = Inl e \<and> str_contains e ''expired''"
  using minted_token_expires [OF assms(1,2), where kf = "manager_key tm" and ms = "Some [''HS256'']", simplified, of seen] assms(3)
  by (auto simp: validate_use_def intro: str_contains_append
      str_contains_append [of _ _ "''token validation failed: ''", simplified])

text \<open>Soundness: whatever is accepted carries the signature of the secret, current dates and its use.\<close>

lemma validate_use_sound:
  assumes "jwt_ok lib verifies" "validate_use lib tm use t now = Inr (u, d)"
  shows "\<exists>h c. al_parse lib t = Inr (h, c) \<and> verifies t (tm_secret tm) \<and> dates_ok c now \<and>
    tc_use c = use \<and> al_parse_uuid lib (tc_uid c) = Inr u \<and> tc_did c = d"
proof -
  obtain h c where p: "al_parse_with lib t (manager_key tm) (Some [''HS256'']) now = Inr (h, c)"
    and c: "tc_use c = use" "al_parse_uuid lib (tc_uid c) = Inr u" "tc_did c = d"
    using assms(2) by (auto simp: validate_use_def split: sum.splits if_splits)
  from parse_with_iff [OF assms(1), THEN iffD1, OF p] have "al_parse lib t = Inr (h, c)" "dates_ok c now"
    "\<exists>k. manager_key tm h = Inr k \<and> verifies t k" by blast+
  then show ?thesis using c by (auto simp: manager_key_def split: if_splits)
qed

definition bearer :: "string \<Rightarrow> string" where
  "bearer t = ''Bearer '' @ t"

lemma bearer_token_bearer [simp]: "bearer_token (bearer t) = Some t"
  by (simp add: bearer_def bearer_token_def to_lower_def lower_char_def Let_def char_of_def bit_0)

lemma bearer_not_Nil [simp]: "bearer t \<noteq> []"
  by (simp add: bearer_def)

lemma jwt_middleware_bearer:
  "t \<noteq> [] \<Longrightarrow>
   jwt_middleware lib tm (bearer t) ctx now =
     (case validate_access_token lib tm t now of
        Inl e \<Rightarrow> if str_contains e ''expired'' then Inl ''auth_expired'' else Inl ''auth_invalid''
      | Inr (u, d) \<Rightarrow> Inr (ctx\<lparr>rc_user := Some (CtxUuid u), rc_device := Some d\<rparr>))"
  by (simp add: jwt_middleware_def)

section \<open>Round trips\<close>

lemma count_pos_not_Nil: "count_char x t \<noteq> 0 \<Longrightarrow> t \<noteq> []"
  by auto

text \<open>
  C27: An access token is accepted, with the user and device it was made for, exactly until its expiry (to the second) and reported as expired afterwards; it is never accepted as a refresh token.
\<close>

theorem access_token_round_trip:
  assumes "jwt_ok lib verifies" "uuid_ok lib"
    and "generate_access_token lib tm u d now = Inr t" "numeric_date now \<le> seen"
  shows "jwt_middleware lib tm (bearer t) ctx seen =
      (if seen < numeric_date (now + tm_access_ttl tm)
       then Inr (ctx\<lparr>rc_user := Some (CtxUuid u), rc_device := Some d\<rparr>) else Inl ''auth_expired'') \<and>
    (\<exists>e. validate_refresh_token lib tm t seen = Inl e)"
proof
  note minted = assms(3) [unfolded generate_access_token_def]
  have dots: "count_char CHR ''.'' t = 2" by (rule sign_parses(3) [OF assms(1) minted])
  then have ne: "t \<noteq> []" by (intro count_pos_not_Nil [of "CHR ''.''"]) simp
  have v: "validate_access_token lib tm t seen = validate_use lib tm ''access'' t seen"
    using dots ne by (simp add: validate_access_token_def)
  show "\<exists>e. validate_refresh_token lib tm t seen = Inl e"
    using dots ne by (simp add: validate_refresh_token_def)
  show "jwt_middleware lib tm (bearer t) ctx seen =
      (if seen < numeric_date (now + tm_access_ttl tm)
       then Inr (ctx\<lparr>rc_user := Some (CtxUuid u), rc_device := Some d\<rparr>) else Inl ''auth_expired'')"
  proof (cases "seen < numeric_date (now + tm_access_ttl tm)")
    case True
    have "validate_use lib tm ''access'' t seen = Inr (u, d)"
      by (rule validate_use_minted(1) [OF assms(1,2) minted assms(4) True])
    then show ?thesis using True by (simp add: jwt_middleware_bearer [OF ne] v)
  next
    case False
    obtain e where "validate_use lib tm ''access'' t seen = Inl e" "str_contains e ''expired''"
      using validate_use_expired [OF assms(1) minted False] by blast
    then show ?thesis using False by (simp add: jwt_middleware_bearer [OF ne] v)
  qed
qed

lemma generate_refresh_token_parts:
  assumes "jwt_ok lib verifies" "sha_ok lib" "generate_refresh_token lib tm u d now = Inr t"
  obtains v where "generate_token_with_claims lib
      (user_claims (al_show_uuid lib u) d ''refresh'' now (tm_refresh_ttl tm)) (tm_secret tm) = Inr v"
    and "cut_last CHR ''.'' t = Some (v, b64_encode (opaque_part lib tm u d now))"
    and "count_char CHR ''.'' t = 3" and "t \<noteq> []"
    and "\<And>seen. validate_refresh_token lib tm t seen = validate_use lib tm ''refresh'' v seen"
proof -
  let ?o = "b64_encode (opaque_part lib tm u d now)"
  obtain v where minted: "generate_token_with_claims lib
      (user_claims (al_show_uuid lib u) d ''refresh'' now (tm_refresh_ttl tm)) (tm_secret tm) = Inr v"
    and t: "t = v @ CHR ''.'' # ?o"
    using assms(3) by (auto simp: generate_refresh_token_def split: sum.splits)
  have dots: "count_char CHR ''.'' v = 2" by (rule sign_parses(3) [OF assms(1) minted])
  have three: "count_char CHR ''.'' t = 3" by (simp add: t dots b64_encode_no_dot)
  have cut: "cut_last CHR ''.'' t = Some (v, ?o)" unfolding t by (rule cut_last_append) (rule b64_encode_no_dot)
  have len: "length (opaque_part lib tm u d now) = 32" using assms(2) by (simp add: sha_ok_def opaque_part_def)
  have ne: "t \<noteq> []" by (simp add: t)
  have "validate_refresh_token lib tm t seen = validate_use lib tm ''refresh'' v seen" for seen
    using ne three by (simp add: validate_refresh_token_def cut len)
  then show thesis by (rule that [OF minted cut three ne])
qed

lemma minted_refresh_token_valid:
  assumes "jwt_ok lib verifies" "uuid_ok lib" "sha_ok lib" "generate_refresh_token lib tm u d now = Inr t"
    and "numeric_date now \<le> seen" "seen < numeric_date (now + tm_refresh_ttl tm)"
  shows "validate_refresh_token lib tm t seen = Inr (u, d)"
proof -
  obtain v where v: "generate_token_with_claims lib
      (user_claims (al_show_uuid lib u) d ''refresh'' now (tm_refresh_ttl tm)) (tm_secret tm) = Inr v"
    "\<And>seen. validate_refresh_token lib tm t seen = validate_use lib tm ''refresh'' v seen"
    using generate_refresh_token_parts [OF assms(1,3,4)] by blast
  then show ?thesis using validate_use_minted(1) [OF assms(1,2) v(1) assms(5,6)] by simp
qed

text \<open>What the refresh validation accepts names one user and device, whenever it is asked.\<close>

lemma validate_use_same:
  assumes "jwt_ok lib verifies" "validate_use lib tm use t s1 = Inr x" "validate_use lib tm use t s2 = Inr y"
  shows "x = y"
proof -
  obtain u1 d1 u2 d2 where xy: "x = (u1, d1)" "y = (u2, d2)" by fastforce
  show ?thesis
    using validate_use_sound [OF assms(1) assms(2) [unfolded xy]] validate_use_sound [OF assms(1) assms(3) [unfolded xy]]
    by (auto simp: xy)
qed

lemma validate_refresh_token_same:
  assumes "jwt_ok lib verifies" "validate_refresh_token lib tm t s1 = Inr x" "validate_refresh_token lib tm t s2 = Inr y"
  shows "x = y"
proof -
  have "\<exists>v. cut_last CHR ''.'' t = Some v \<and> validate_use lib tm ''refresh'' (fst v) s = Inr z"
    if "validate_refresh_token lib tm t s = Inr z" for s z
    using that by (auto simp: validate_refresh_token_def split: if_splits option.splits)
  from this [OF assms(2)] this [OF assms(3)] show ?thesis using validate_use_same [OF assms(1)] by fastforce
qed

text \<open>
  A refresh token splits into an envelope and the opaque secret that is stored, is accepted as a refresh token until its expiry and refused afterwards, and is never accepted as an access token, neither whole nor as its bare envelope.
\<close>

lemma refresh_token_round_trip:
  assumes "jwt_ok lib verifies" "uuid_ok lib" "sha_ok lib"
    and "generate_refresh_token lib tm u d now = Inr t" "numeric_date now \<le> seen"
  shows "(if seen < numeric_date (now + tm_refresh_ttl tm) then validate_refresh_token lib tm t seen = Inr (u, d)
          else \<exists>e. validate_refresh_token lib tm t seen = Inl e) \<and>
      b64_decode (extract_refresh_token_secret t) = Some (opaque_part lib tm u d now) \<and>
      (\<exists>e. validate_access_token lib tm t seen = Inl e) \<and>
      (\<forall>envelope opaque. cut_last CHR ''.'' t = Some (envelope, opaque) \<longrightarrow>
         (\<exists>e. validate_access_token lib tm envelope seen = Inl e))"
proof -
  obtain v where minted: "generate_token_with_claims lib
      (user_claims (al_show_uuid lib u) d ''refresh'' now (tm_refresh_ttl tm)) (tm_secret tm) = Inr v"
    and cut: "cut_last CHR ''.'' t = Some (v, b64_encode (opaque_part lib tm u d now))"
    and three: "count_char CHR ''.'' t = 3" and ne: "t \<noteq> []"
    and refresh: "\<And>seen. validate_refresh_token lib tm t seen = validate_use lib tm ''refresh'' v seen"
    using generate_refresh_token_parts [OF assms(1,3,4)] by metis
  have wrong: "\<exists>e. validate_use lib tm ''access'' v seen = Inl e"
  proof (cases "seen < numeric_date (now + tm_refresh_ttl tm)")
    case True
    show ?thesis by (rule validate_use_minted(2) [OF assms(1,2) minted assms(5) True]) simp
  next
    case False
    then show ?thesis using validate_use_expired [OF assms(1) minted False] by blast
  qed
  have "if seen < numeric_date (now + tm_refresh_ttl tm) then validate_refresh_token lib tm t seen = Inr (u, d)
        else \<exists>e. validate_refresh_token lib tm t seen = Inl e"
    using validate_use_minted(1) [OF assms(1,2) minted assms(5)]
      validate_use_expired [OF assms(1) minted, of seen "''refresh''"] by (auto simp: refresh)
  moreover have "b64_decode (extract_refresh_token_secret t) = Some (opaque_part lib tm u d now)"
    by (simp add: extract_refresh_token_secret_def cut)
  moreover have "\<exists>e. validate_access_token lib tm t seen = Inl e"
    using ne three by (simp add: validate_access_token_def)
  moreover have "\<exists>e. validate_access_token lib tm v seen = Inl e"
    using wrong by (auto simp: validate_access_token_def)
  ultimately show ?thesis by (simp add: cut)
qed

section \<open>A library that keeps the laws\<close>

text \<open>
  The hypotheses on the library can hold: tokens that number their header, claims and key. The
  word after the second dot has as many letters as the number.
\<close>

instance token_claims_ext :: (countable) countable
proof
  show "\<exists>to_nat :: 'a token_claims_ext \<Rightarrow> nat. inj to_nat"
    by (intro exI [of _ "\<lambda>c. to_nat ((tc_uid c, tc_did c, tc_role c, tc_tid c, tc_use c, tc_sub c),
          (tc_iss c, tc_aud c, tc_exp c, tc_nbf c, tc_iat c), token_claims.more c)"] injI)
      (simp add: to_nat_split)
qed

instance jwt_header_ext :: (countable) countable
proof
  show "\<exists>to_nat :: 'a jwt_header_ext \<Rightarrow> nat. inj to_nat"
    by (intro exI [of _ "\<lambda>h. to_nat (jh_alg h, jh_kid h, jwt_header.more h)"] injI) (simp add: to_nat_split)
qed

type_synonym numbered = "jwt_header \<times> token_claims \<times> nat list"

definition number_token :: "numbered \<Rightarrow> string" where
  "number_token x = ''a.b.'' @ replicate (to_nat x) CHR ''c''"

definition token_number :: "string \<Rightarrow> numbered option" where
  "token_number t = (if has_prefix t ''a.b.'' then Some (from_nat (length (drop 4 t))) else None)"

definition sample_verifies :: "string \<Rightarrow> bytes \<Rightarrow> bool" where
  "sample_verifies t k \<longleftrightarrow> (case token_number t of None \<Rightarrow> False | Some (h, c, ks) \<Rightarrow> ks = map unat k)"

definition sample_parse :: "string \<Rightarrow> string + jwt_header \<times> token_claims" where
  "sample_parse t =
     (case token_number t of None \<Rightarrow> Inl ''token is malformed'' | Some (h, c, ks) \<Rightarrow> Inr (h, c))"

definition sample_lib :: auth_lib where
  "sample_lib =
     \<lparr>al_sha256 = (\<lambda>bs. take 32 (rev bs @ replicate 32 0)),
      al_sign = (\<lambda>h c k. Inr (number_token (h, whole_seconds c, map unat k))),
      al_parse = sample_parse,
      al_parse_with = (\<lambda>t kf ms now.
        (case sample_parse t of
           Inl e \<Rightarrow> Inl e
         | Inr (h, c) \<Rightarrow>
             (case kf h of
                Inl e \<Rightarrow> Inl e
              | Inr k \<Rightarrow> if sample_verifies t k \<and> admitted ms h \<and> dates_ok c now then Inr (h, c)
                         else Inl ''token is expired''))),
      al_show_uuid = (\<lambda>u. replicate u CHR ''1''), al_parse_uuid = (\<lambda>s. Inr (length s))\<rparr>"

lemma token_number_number [simp]: "token_number (number_token x) = Some x"
  by (simp add: token_number_def number_token_def)

lemma sample_lib_signs: "jwt_signs sample_lib sample_verifies"
proof -
  have "count_char CHR ''.'' (replicate n CHR ''c'') = 0" for n by (rule count_char_0) simp
  then show ?thesis
    by (simp add: jwt_signs_def sample_lib_def sample_parse_def sample_verifies_def)
      (simp add: number_token_def)
qed

lemma sample_lib_ok: "jwt_ok sample_lib sample_verifies" "uuid_ok sample_lib" "sha_ok sample_lib"
  "signs_always sample_lib"
proof -
  have "jwt_parses sample_lib sample_verifies"
    unfolding jwt_parses_def by (auto simp: sample_lib_def split: sum.splits)
  moreover have "jwt_names_expiry sample_lib sample_verifies"
    by (auto simp: jwt_names_expiry_def sample_lib_def dates_ok_def)
  ultimately show "jwt_ok sample_lib sample_verifies" using sample_lib_signs by (simp add: jwt_ok_def)
  show "uuid_ok sample_lib" by (simp add: uuid_ok_def sample_lib_def)
  show "signs_always sample_lib" by (simp add: signs_always_def sample_lib_def)
  show "sha_ok sample_lib" by (simp add: sha_ok_def sample_lib_def min_def)
qed

definition sample_tm :: token_manager where
  "sample_tm = \<lparr>tm_secret = [7, 7], tm_access_ttl = hour_ns, tm_refresh_ttl = 2 * hour_ns\<rparr>"

lemma sample_access:
  "generate_access_token sample_lib sample_tm u d now =
     Inr (number_token (\<lparr>jh_alg = ''HS256'', jh_kid = Some (derive_kid sample_lib [7, 7])\<rparr>,
       user_claims (replicate u CHR ''1'') d ''access'' now hour_ns, [7, 7]))"
  by (simp add: generate_access_token_def generate_token_with_claims_def sample_tm_def)
    (simp add: sample_lib_def)

lemma access_token_round_trip_witness:
  "\<exists>t. generate_access_token sample_lib sample_tm 3 ''d'' 0 = Inr t \<and>
     jwt_middleware sample_lib sample_tm (bearer t) empty_ctx minute_ns =
       Inr (empty_ctx\<lparr>rc_user := Some (CtxUuid 3), rc_device := Some ''d''\<rparr>) \<and>
     jwt_middleware sample_lib sample_tm (bearer t) empty_ctx (2 * hour_ns) = Inl ''auth_expired''"
proof -
  obtain t where t: "generate_access_token sample_lib sample_tm 3 ''d'' 0 = Inr t"
    using sample_access by blast
  note r = access_token_round_trip [OF sample_lib_ok(1,2) t]
  show ?thesis
    using t r [of minute_ns empty_ctx] r [of "2 * hour_ns" empty_ctx]
    by (simp add: numeric_date_def sample_tm_def)
qed

lemma refresh_token_round_trip_witness:
  "\<exists>t. generate_refresh_token sample_lib sample_tm 3 ''d'' 0 = Inr t \<and>
     validate_refresh_token sample_lib sample_tm t hour_ns = Inr (3, ''d'')"
proof -
  obtain t where t: "generate_refresh_token sample_lib sample_tm 3 ''d'' 0 = Inr t"
    by (simp add: generate_refresh_token_def generate_token_with_claims_def) (simp add: sample_lib_def)
  show ?thesis
    using t refresh_token_round_trip [OF sample_lib_ok(1-3) t, of hour_ns]
    by (simp add: numeric_date_def sample_tm_def)
qed

end
