(* ===== verification/Auth_Sessions.thy ===== *)
theory Auth_Sessions
  imports Auth_Tokens Tables
begin

text \<open>
  Device sessions and refresh tokens (\<open>src/sync/internal/auth/store.go\<close>, \<open>device.go\<close>) and the HTTP
  handlers over them (\<open>handler.go\<close>). A statement of the environment that fails leaves the tables
  as they are; a handler reads one clock. The library is the one of the tokens.
\<close>

record device_row =
  ds_id :: uuid
  ds_user :: uuid
  ds_device :: string
  ds_type :: string
  ds_name :: string
  ds_fcm :: "string option"
  ds_apns :: "string option"
  ds_last :: instant
  ds_created :: instant

record token_row =
  rt_user :: uuid
  rt_device :: string
  rt_hash :: string
  rt_created :: instant
  rt_expires :: instant

record auth_db =
  adb_sessions :: "device_row list"
  adb_tokens :: "token_row list"

datatype auth_stmt =
  InsertSession | SelectSession | SelectSessions | UpdatePush | UpdateActive | BeginDelete |
  DeleteToken | DeleteSession | CommitDelete | UpsertToken | SelectToken | UpsertSession

record auth_env =
  ae_now :: instant
  ae_new_id :: uuid
  ae_fails :: "auth_stmt \<Rightarrow> bool"

section \<open>Statements\<close>

definition session_is :: "uuid \<Rightarrow> string \<Rightarrow> device_row \<Rightarrow> bool" where
  "session_is u d r \<longleftrightarrow> ds_user r = u \<and> ds_device r = d"

definition token_is :: "uuid \<Rightarrow> string \<Rightarrow> token_row \<Rightarrow> bool" where
  "token_is u d r \<longleftrightarrow> rt_user r = u \<and> rt_device r = d"

definition hash_refresh_token :: "auth_lib \<Rightarrow> string \<Rightarrow> string" where
  "hash_refresh_token lib t = hex_encode (al_sha256 lib (bytes_of t))"

text \<open>A result of \<open>None\<close> is success, otherwise the error text.\<close>

definition store_refresh_token ::
  "auth_env \<Rightarrow> uuid \<Rightarrow> string \<Rightarrow> string \<Rightarrow> auth_db \<Rightarrow> auth_db \<times> string option" where
  "store_refresh_token env u d hash db =
     (if ae_fails env UpsertToken then (db, Some ''store: store refresh token'')
      else
       (let exp = ae_now env + 30 * 24 * hour_ns
        in (db\<lparr>adb_tokens :=
              (if rows_matching (token_is u d) (adb_tokens db) = 0
               then adb_tokens db @
                 [\<lparr>rt_user = u, rt_device = d, rt_hash = hash, rt_created = ae_now env, rt_expires = exp\<rparr>]
               else update_rows (token_is u d)
                 (\<lambda>r. r\<lparr>rt_hash := hash, rt_created := ae_now env, rt_expires := exp\<rparr>) (adb_tokens db))\<rparr>,
            None)))"

definition get_refresh_token :: "auth_env \<Rightarrow> uuid \<Rightarrow> string \<Rightarrow> auth_db \<Rightarrow> string + string" where
  "get_refresh_token env u d db =
     (if ae_fails env SelectToken then Inl ''store: get refresh token''
      else (case List.find (\<lambda>r. token_is u d r \<and> ae_now env < rt_expires r) (adb_tokens db) of
              None \<Rightarrow> Inr [] | Some r \<Rightarrow> Inr (rt_hash r)))"

definition create_device_session ::
  "auth_env \<Rightarrow> uuid \<Rightarrow> string \<Rightarrow> string \<Rightarrow> string \<Rightarrow> string option \<Rightarrow> string option \<Rightarrow> string \<Rightarrow> auth_db \<Rightarrow>
   auth_db \<times> string option" where
  "create_device_session env u d ty name fcm apns hash db =
     (if ae_fails env InsertSession \<or> rows_matching (session_is u d) (adb_sessions db) \<noteq> 0
      then (db, Some ''store: create device session'')
      else store_refresh_token env u d hash
        (db\<lparr>adb_sessions := adb_sessions db @
          [\<lparr>ds_id = ae_new_id env, ds_user = u, ds_device = d, ds_type = ty, ds_name = name, ds_fcm = fcm,
            ds_apns = apns, ds_last = ae_now env, ds_created = ae_now env\<rparr>]\<rparr>))"

definition get_device_session :: "auth_env \<Rightarrow> uuid \<Rightarrow> string \<Rightarrow> auth_db \<Rightarrow> string + device_row option" where
  "get_device_session env u d db =
     (if ae_fails env SelectSession then Inl ''store: get device session''
      else Inr (List.find (session_is u d) (adb_sessions db)))"

definition list_device_sessions_by_user :: "auth_env \<Rightarrow> uuid \<Rightarrow> auth_db \<Rightarrow> string + device_row list" where
  "list_device_sessions_by_user env u db =
     (if ae_fails env SelectSessions then Inl ''store: list device sessions''
      else Inr (sort_key (\<lambda>r. - ds_last r) (filter (\<lambda>r. ds_user r = u) (adb_sessions db))))"

definition update_device_session_tokens ::
  "auth_env \<Rightarrow> uuid \<Rightarrow> string \<Rightarrow> string option \<Rightarrow> string option \<Rightarrow> auth_db \<Rightarrow> auth_db \<times> string option" where
  "update_device_session_tokens env u d fcm apns db =
     (if ae_fails env UpdatePush then (db, Some ''store: update device tokens'')
      else (db\<lparr>adb_sessions := update_rows (session_is u d)
              (\<lambda>r. r\<lparr>ds_fcm := fcm, ds_apns := apns, ds_last := ae_now env\<rparr>) (adb_sessions db)\<rparr>, None))"

definition update_device_session_last_active ::
  "auth_env \<Rightarrow> uuid \<Rightarrow> string \<Rightarrow> auth_db \<Rightarrow> auth_db \<times> string option" where
  "update_device_session_last_active env u d db =
     (if ae_fails env UpdateActive then (db, Some ''store: update last active'')
      else (db\<lparr>adb_sessions := update_rows (session_is u d) (\<lambda>r. r\<lparr>ds_last := ae_now env\<rparr>) (adb_sessions db)\<rparr>,
            None))"

text \<open>The two deletions run in one transaction: only a commit publishes them.\<close>

definition delete_device_session :: "auth_env \<Rightarrow> uuid \<Rightarrow> string \<Rightarrow> auth_db \<Rightarrow> auth_db \<times> string option" where
  "delete_device_session env u d db =
     (if ae_fails env BeginDelete then (db, Some ''store: begin delete tx'')
      else if ae_fails env DeleteToken then (db, Some ''store: delete refresh token'')
      else if ae_fails env DeleteSession then (db, Some ''store: delete device session'')
      else if ae_fails env CommitDelete then (db, Some ''commit'')
      else (db\<lparr>adb_tokens := filter (\<lambda>r. \<not> token_is u d r) (adb_tokens db),
               adb_sessions := filter (\<lambda>r. \<not> session_is u d r) (adb_sessions db)\<rparr>, None))"

section \<open>Registering a device\<close>

definition known_device_type :: "string \<Rightarrow> bool" where
  "known_device_type ty \<longleftrightarrow> ty = ''ios'' \<or> ty = ''android''"

text \<open>The upsert keeps id and creation time of a session that exists.\<close>

definition register_session :: "auth_env \<Rightarrow> device_row \<Rightarrow> auth_db \<Rightarrow> auth_db \<times> string option" where
  "register_session env s db =
     (if ds_user s = uuid_nil then (db, Some ''auth: user_id is required'')
      else if ds_device s = [] then (db, Some ''auth: device_id is required'')
      else if \<not> known_device_type (ds_type s) then (db, Some ''auth: device_type must be ios or android'')
      else if ae_fails env UpsertSession then (db, Some ''auth: register device session'')
      else
       (let s' = s\<lparr>ds_last := ae_now env, ds_created := ae_now env\<rparr>;
            p = session_is (ds_user s) (ds_device s)
        in (db\<lparr>adb_sessions :=
              (if rows_matching p (adb_sessions db) = 0 then adb_sessions db @ [s']
               else update_rows p
                 (\<lambda>r. r\<lparr>ds_type := ds_type s', ds_name := ds_name s', ds_fcm := ds_fcm s', ds_apns := ds_apns s',
                        ds_last := ds_last s'\<rparr>) (adb_sessions db))\<rparr>, None)))"

section \<open>Handlers\<close>

datatype 'a auth_reply = Answer 'a | Denied nat string

record token_response =
  tr_access :: string
  tr_refresh :: string
  tr_expires :: instant

record register_request =
  dr_device :: string
  dr_type :: string
  dr_name :: string
  dr_fcm :: "string option"
  dr_apns :: "string option"

definition validate_register :: "register_request \<Rightarrow> bool" where
  "validate_register r \<longleftrightarrow> dr_device r \<noteq> [] \<and> known_device_type (dr_type r) \<and> dr_name r \<noteq> []"

record refresh_request =
  rf_token :: string
  rf_device :: string

definition validate_refresh :: "refresh_request \<Rightarrow> bool" where
  "validate_refresh r \<longleftrightarrow> rf_token r \<noteq> [] \<and> rf_device r \<noteq> []"

text \<open>The headers that name the user: the one a gateway sets, the test switch and the test user.\<close>

record user_headers =
  uh_authenticated :: string
  uh_test_auth :: string
  uh_test_user :: string

definition parsed_user :: "auth_lib \<Rightarrow> string \<Rightarrow> uuid option" where
  "parsed_user lib v =
     (if v = [] then None else (case al_parse_uuid lib v of Inl _ \<Rightarrow> None | Inr u \<Rightarrow> Some u))"

definition resolve_user_id :: "auth_lib \<Rightarrow> user_headers \<Rightarrow> uuid" where
  "resolve_user_id lib h =
     (case parsed_user lib (uh_authenticated h) of
        Some u \<Rightarrow> u
      | None \<Rightarrow>
          if uh_test_auth h = ''enabled''
          then (case parsed_user lib (uh_test_user h) of Some u \<Rightarrow> u | None \<Rightarrow> uuid_nil)
          else uuid_nil)"

text \<open>Both tokens, then the stored hash: the common end of registration and refresh.\<close>

definition issue_tokens ::
  "auth_lib \<Rightarrow> token_manager \<Rightarrow> auth_env \<Rightarrow> uuid \<Rightarrow> string \<Rightarrow> auth_db \<Rightarrow> auth_db \<times> token_response auth_reply" where
  "issue_tokens lib tm env u d db =
     (case generate_access_token lib tm u d (ae_now env) of
        Inl _ \<Rightarrow> (db, Denied 500 ''token_error'')
      | Inr acc \<Rightarrow>
          (case generate_refresh_token lib tm u d (ae_now env) of
             Inl _ \<Rightarrow> (db, Denied 500 ''token_error'')
           | Inr ref \<Rightarrow>
               (case store_refresh_token env u d (hash_refresh_token lib ref) db of
                  (db', Some _) \<Rightarrow> (db', Denied 500 ''server_error'')
                | (db', None) \<Rightarrow>
                    (db', Answer \<lparr>tr_access = acc, tr_refresh = ref,
                                  tr_expires = ae_now env + tm_access_ttl tm\<rparr>))))"

text \<open>A body of \<open>None\<close> does not decode.\<close>

definition handle_register_device ::
  "auth_lib \<Rightarrow> token_manager \<Rightarrow> auth_env \<Rightarrow> user_headers \<Rightarrow> register_request option \<Rightarrow> auth_db \<Rightarrow>
   auth_db \<times> token_response auth_reply" where
  "handle_register_device lib tm env h body db =
     (case body of
        None \<Rightarrow> (db, Denied 400 ''invalid_json'')
      | Some req \<Rightarrow>
          if \<not> validate_register req then (db, Denied 400 ''validation_error'')
          else
           (let u = resolve_user_id lib h
            in if u = uuid_nil then (db, Denied 401 ''auth_required'')
               else (case register_session env
                            \<lparr>ds_id = ae_new_id env, ds_user = u, ds_device = dr_device req, ds_type = dr_type req,
                             ds_name = dr_name req, ds_fcm = dr_fcm req, ds_apns = dr_apns req,
                             ds_last = zero_time, ds_created = zero_time\<rparr> db of
                       (db1, Some _) \<Rightarrow> (db1, Denied 500 ''server_error'')
                     | (db1, None) \<Rightarrow> issue_tokens lib tm env u (dr_device req) db1)))"

text \<open>
  A refresh request: the checks up to the lookup of the session give the status and code of the
  refusal or the user and device; then the tokens are rotated. The last activity is updated after
  the answer is decided and its failure is ignored.
\<close>

definition check_refresh ::
  "auth_lib \<Rightarrow> token_manager \<Rightarrow> auth_env \<Rightarrow> refresh_request \<Rightarrow> auth_db \<Rightarrow> nat \<times> string + uuid \<times> string" where
  "check_refresh lib tm env req db =
     (if \<not> validate_refresh req then Inl (400, ''validation_error'')
      else
       (case validate_refresh_token lib tm (rf_token req) (ae_now env) of
          Inl _ \<Rightarrow> Inl (401, ''auth_invalid'')
        | Inr (u, d) \<Rightarrow>
            if d \<noteq> rf_device req then Inl (401, ''auth_mismatch'')
            else
             (case get_refresh_token env u d db of
                Inl _ \<Rightarrow> Inl (500, ''server_error'')
              | Inr stored \<Rightarrow>
                  if stored = [] then Inl (401, ''auth_revoked'')
                  else if hash_refresh_token lib (rf_token req) \<noteq> stored \<and>
                          hash_refresh_token lib (extract_refresh_token_secret (rf_token req)) \<noteq> stored
                  then Inl (401, ''auth_invalid'')
                  else
                   (case get_device_session env u d db of
                      Inl _ \<Rightarrow> Inl (500, ''server_error'')
                    | Inr None \<Rightarrow> Inl (401, ''auth_revoked'')
                    | Inr (Some _) \<Rightarrow> Inr (u, d)))))"

definition rotate_session ::
  "auth_lib \<Rightarrow> token_manager \<Rightarrow> auth_env \<Rightarrow> uuid \<Rightarrow> string \<Rightarrow> auth_db \<Rightarrow> auth_db \<times> token_response auth_reply" where
  "rotate_session lib tm env u d db =
     (case issue_tokens lib tm env u d db of
        (db1, Denied s c) \<Rightarrow> (db1, Denied s c)
      | (db1, Answer r) \<Rightarrow> (fst (update_device_session_last_active env u d db1), Answer r))"

definition handle_refresh_token ::
  "auth_lib \<Rightarrow> token_manager \<Rightarrow> auth_env \<Rightarrow> refresh_request option \<Rightarrow> auth_db \<Rightarrow>
   auth_db \<times> token_response auth_reply" where
  "handle_refresh_token lib tm env body db =
     (case body of
        None \<Rightarrow> (db, Denied 400 ''invalid_json'')
      | Some req \<Rightarrow>
          (case check_refresh lib tm env req db of
             Inl (s, c) \<Rightarrow> (db, Denied s c)
           | Inr (u, d) \<Rightarrow> rotate_session lib tm env u d db))"

definition handle_revoke_session ::
  "auth_env \<Rightarrow> request_ctx \<Rightarrow> string option \<Rightarrow> auth_db \<Rightarrow> auth_db \<times> unit auth_reply" where
  "handle_revoke_session env ctx body db =
     (let u = user_id_from_context ctx
      in if u = uuid_nil then (db, Denied 401 ''auth_required'')
         else
          (case body of
             None \<Rightarrow> (db, Denied 400 ''invalid_json'')
           | Some d \<Rightarrow>
               if d = [] then (db, Denied 400 ''validation_error'')
               else
                (case get_device_session env u d db of
                   Inl _ \<Rightarrow> (db, Denied 500 ''server_error'')
                 | Inr None \<Rightarrow> (db, Denied 404 ''session_not_found'')
                 | Inr (Some _) \<Rightarrow>
                     (case delete_device_session env u d db of
                        (db1, Some _) \<Rightarrow> (db1, Denied 500 ''server_error'')
                      | (db1, None) \<Rightarrow> (db1, Answer ())))))"

definition handle_list_sessions :: "auth_env \<Rightarrow> request_ctx \<Rightarrow> auth_db \<Rightarrow> device_row list auth_reply" where
  "handle_list_sessions env ctx db =
     (let u = user_id_from_context ctx
      in if u = uuid_nil then Denied 401 ''auth_required''
         else (case list_device_sessions_by_user env u db of
                 Inl _ \<Rightarrow> Denied 500 ''server_error'' | Inr rs \<Rightarrow> Answer rs))"

section \<open>One row per device\<close>

definition auth_db_ok :: "auth_db \<Rightarrow> bool" where
  "auth_db_ok db \<longleftrightarrow>
     distinct (map (\<lambda>r. (ds_user r, ds_device r)) (adb_sessions db)) \<and>
     distinct (map (\<lambda>r. (rt_user r, rt_device r)) (adb_tokens db)) \<and>
     (\<forall>r \<in> set (adb_sessions db). ds_user r \<noteq> uuid_nil \<and> ds_device r \<noteq> [] \<and> known_device_type (ds_type r))"

lemma distinct_map_append:
  "distinct (map f xs) \<Longrightarrow> (\<And>x. x \<in> set xs \<Longrightarrow> f x \<noteq> f y) \<Longrightarrow> distinct (map f (xs @ [y]))"
  by (auto dest: sym)

lemma store_refresh_token_ok: "auth_db_ok db \<Longrightarrow> auth_db_ok (fst (store_refresh_token env u d hash db))"
  by (auto simp: auth_db_ok_def store_refresh_token_def Let_def map_update_rows token_is_def)

lemma register_session_ok:
  assumes "auth_db_ok db"
  shows "auth_db_ok (fst (register_session env s db))"
proof -
  have "distinct (map (\<lambda>r. (ds_user r, ds_device r)) (update_rows p f (adb_sessions db)))"
    if "\<And>r. p r \<Longrightarrow> (ds_user (f r), ds_device (f r)) = (ds_user r, ds_device r)" for p f
    using assms that by (simp add: auth_db_ok_def map_update_rows)
  then show ?thesis
    using assms by (auto simp: auth_db_ok_def register_session_def Let_def session_is_def update_rows_def)
qed

lemma delete_device_session_ok: "auth_db_ok db \<Longrightarrow> auth_db_ok (fst (delete_device_session env u d db))"
  by (auto simp: auth_db_ok_def delete_device_session_def intro: distinct_map_filter)

lemma update_active_ok: "auth_db_ok db \<Longrightarrow> auth_db_ok (fst (update_device_session_last_active env u d db))"
  by (simp add: auth_db_ok_def update_device_session_last_active_def map_update_rows)
    (auto simp: update_rows_def)

lemma issue_tokens_fst:
  "fst (issue_tokens lib tm env u d db) = db \<or>
   (\<exists>hash. fst (issue_tokens lib tm env u d db) = fst (store_refresh_token env u d hash db))"
proof (cases "generate_access_token lib tm u d (ae_now env)")
  case (Inr a)
  show ?thesis
  proof (cases "generate_refresh_token lib tm u d (ae_now env)")
    case (Inr r)
    obtain db' e where "store_refresh_token env u d (hash_refresh_token lib r) db = (db', e)" by fastforce
    then show ?thesis using \<open>_ = Inr a\<close> Inr
      by (intro disjI2 exI [of _ "hash_refresh_token lib r"]) (simp add: issue_tokens_def split: option.split)
  qed (simp add: issue_tokens_def Inr)
qed (simp add: issue_tokens_def)

lemma issue_tokens_ok: "auth_db_ok db \<Longrightarrow> auth_db_ok (fst (issue_tokens lib tm env u d db))"
  using issue_tokens_fst [of lib tm env u d db] store_refresh_token_ok [of db env u d] by auto

lemma rotate_session_ok: "auth_db_ok db \<Longrightarrow> auth_db_ok (fst (rotate_session lib tm env u d db))"
  using issue_tokens_ok [of db lib tm env u d]
  by (cases "issue_tokens lib tm env u d db") (simp add: rotate_session_def update_active_ok split: auth_reply.split)

section \<open>Requests on the tables\<close>

text \<open>One request of any client, in any environment.\<close>

inductive auth_request :: "auth_lib \<Rightarrow> token_manager \<Rightarrow> auth_db \<Rightarrow> auth_db \<Rightarrow> bool" for lib tm where
  Registers: "auth_request lib tm db (fst (handle_register_device lib tm env h body db))"
| Refreshes: "auth_request lib tm db (fst (handle_refresh_token lib tm env body' db))"
| Revokes: "auth_request lib tm db (fst (handle_revoke_session env ctx body'' db))"

lemma handle_register_device_ok:
  assumes "auth_db_ok db"
  shows "auth_db_ok (fst (handle_register_device lib tm env h body db))"
proof (cases "\<exists>req. body = Some req \<and> validate_register req \<and> resolve_user_id lib h \<noteq> uuid_nil")
  case True
  then obtain req where req: "body = Some req" "validate_register req" "resolve_user_id lib h \<noteq> uuid_nil" by blast
  let ?s = "\<lparr>ds_id = ae_new_id env, ds_user = resolve_user_id lib h, ds_device = dr_device req, ds_type = dr_type req,
    ds_name = dr_name req, ds_fcm = dr_fcm req, ds_apns = dr_apns req, ds_last = zero_time, ds_created = zero_time\<rparr>"
  obtain db1 e where r: "register_session env ?s db = (db1, e)" by fastforce
  then have "auth_db_ok db1" using register_session_ok [OF assms, of env ?s] by simp
  then show ?thesis using req r by (simp add: handle_register_device_def Let_def issue_tokens_ok split: option.split)
next
  case False
  then show ?thesis using assms by (auto simp: handle_register_device_def Let_def split: option.split)
qed

lemma handle_refresh_token_ok:
  "auth_db_ok db \<Longrightarrow> auth_db_ok (fst (handle_refresh_token lib tm env body db))"
  by (simp add: handle_refresh_token_def rotate_session_ok split: option.split sum.split prod.split)

lemma handle_revoke_session_fst:
  "fst (handle_revoke_session env ctx body db) = db \<or>
   (\<exists>u d. fst (handle_revoke_session env ctx body db) = fst (delete_device_session env u d db))"
proof (cases "\<exists>d s. body = Some d \<and> get_device_session env (user_id_from_context ctx) d db = Inr (Some s)")
  case True
  then obtain d s where b: "body = Some d" "get_device_session env (user_id_from_context ctx) d db = Inr (Some s)"
    by blast
  obtain db1 e where "delete_device_session env (user_id_from_context ctx) d db = (db1, e)" by fastforce
  then have "fst (handle_revoke_session env ctx body db) = db \<or>
      fst (handle_revoke_session env ctx body db) =
        fst (delete_device_session env (user_id_from_context ctx) d db)"
    using b by (simp add: handle_revoke_session_def Let_def split: option.split)
  then show ?thesis by blast
next
  case False
  then show ?thesis
    by (simp add: handle_revoke_session_def Let_def split: option.split sum.split)
qed

lemma handle_revoke_session_ok:
  "auth_db_ok db \<Longrightarrow> auth_db_ok (fst (handle_revoke_session env ctx body db))"
  using handle_revoke_session_fst [of env ctx body db] delete_device_session_ok [of db env] by auto

lemma auth_requests_keep_tables:
  "(auth_request lib tm)\<^sup>*\<^sup>* db db' \<Longrightarrow> auth_db_ok db \<Longrightarrow> auth_db_ok db'"
proof (induction rule: rtranclp_induct)
  case (step db' db'')
  from step.hyps(2) step.IH [OF step.prems] show ?case
    by cases (auto intro: handle_register_device_ok handle_refresh_token_ok handle_revoke_session_ok)
qed

text \<open>
  C29: Under any sequence of registrations, refreshes and revocations a user has at most one session row and one refresh token row per device, and every session names a user, a device and a known device type.
\<close>

theorem auth_tables_well_formed:
  assumes "(auth_request lib tm)\<^sup>*\<^sup>* \<lparr>adb_sessions = [], adb_tokens = []\<rparr> db"
  shows "distinct (map (\<lambda>r. (ds_user r, ds_device r)) (adb_sessions db)) \<and>
     distinct (map (\<lambda>r. (rt_user r, rt_device r)) (adb_tokens db)) \<and>
     (\<forall>r \<in> set (adb_sessions db). ds_user r \<noteq> uuid_nil \<and> ds_device r \<noteq> [] \<and> known_device_type (ds_type r))"
  using auth_requests_keep_tables [OF assms] by (simp add: auth_db_ok_def)

section \<open>Refresh rotation\<close>

lemma hash_not_Nil: "sha_ok lib \<Longrightarrow> hash_refresh_token lib t \<noteq> []"
  by (auto simp: hash_refresh_token_def sha_ok_def) (metis list.size(3) zero_neq_numeral)

lemma find_update_tokens:
  "(case List.find (\<lambda>r. token_is u d r \<and> t < rt_expires r)
      (update_rows (token_is u d) (\<lambda>r. r\<lparr>rt_hash := h, rt_created := c, rt_expires := e\<rparr>) rs) of
      None \<Rightarrow> [] | Some r \<Rightarrow> rt_hash r) =
   (if t < e \<and> rows_matching (token_is u d) rs \<noteq> 0 then h else [])"
  by (induction rs) (auto simp: update_rows_def rows_matching_def token_is_def)

lemma get_after_store:
  assumes "store_refresh_token env u d h db = (db', None)" "\<not> ae_fails env' SelectToken"
  shows "get_refresh_token env' u d db' = Inr (if ae_now env' < ae_now env + 30 * 24 * hour_ns then h else [])"
proof (cases "rows_matching (token_is u d) (adb_tokens db) = 0")
  case True
  then have "List.find (\<lambda>r. token_is u d r \<and> ae_now env' < rt_expires r) (adb_tokens db) = None"
    by (auto simp: find_None_iff)
  then show ?thesis using assms True
    by (auto simp: store_refresh_token_def get_refresh_token_def Let_def find_append token_is_def
        split: if_splits)
next
  case False
  then show ?thesis using assms
      find_update_tokens [where u = u and d = d and t = "ae_now env'" and h = h and c = "ae_now env"
        and e = "ae_now env + 30 * 24 * hour_ns" and rs = "adb_tokens db"]
    by (auto simp: store_refresh_token_def get_refresh_token_def Let_def split: if_splits option.splits)
qed

lemma issue_tokens_Answer:
  assumes "issue_tokens lib tm env u d db = (db', Answer r)"
  shows "generate_refresh_token lib tm u d (ae_now env) = Inr (tr_refresh r)"
    and "generate_access_token lib tm u d (ae_now env) = Inr (tr_access r)"
    and "store_refresh_token env u d (hash_refresh_token lib (tr_refresh r)) db = (db', None)"
  using assms by (auto simp: issue_tokens_def split: sum.splits prod.splits option.splits)

lemma mint_total: "signs_always lib \<Longrightarrow> \<exists>t. generate_token_with_claims lib c k = Inr t"
  by (simp add: generate_token_with_claims_def signs_always_def)

lemma issue_tokens_total:
  assumes "signs_always lib" "\<not> ae_fails env UpsertToken"
  shows "\<exists>db' r. issue_tokens lib tm env u d db = (db', Answer r)"
proof -
  obtain a where "generate_access_token lib tm u d (ae_now env) = Inr a"
    using mint_total [OF assms(1)] unfolding generate_access_token_def by blast
  moreover obtain v where "generate_token_with_claims lib
      (user_claims (al_show_uuid lib u) d ''refresh'' (ae_now env) (tm_refresh_ttl tm)) (tm_secret tm) = Inr v"
    using mint_total [OF assms(1)] by blast
  ultimately show ?thesis
    using assms(2) by (simp add: issue_tokens_def store_refresh_token_def Let_def generate_refresh_token_def)
qed

lemma update_active_tokens [simp]:
  "adb_tokens (fst (update_device_session_last_active env u d db)) = adb_tokens db"
  by (simp add: update_device_session_last_active_def)

lemma get_refresh_token_cong: "adb_tokens db = adb_tokens db' \<Longrightarrow> get_refresh_token env u d db = get_refresh_token env u d db'"
  by (simp add: get_refresh_token_def)

lemma find_update_rows_Some:
  "(\<And>r. p (f r) = p r) \<Longrightarrow> List.find p rs \<noteq> None \<Longrightarrow> List.find p (update_rows q f rs) \<noteq> None"
  by (induction rs) (auto simp: update_rows_def)

lemma session_kept:
  assumes "List.find (session_is u d) (adb_sessions db) \<noteq> None"
  shows "List.find (session_is u d) (adb_sessions (fst (update_device_session_last_active env u d db))) \<noteq> None"
  using assms find_update_rows_Some [of "session_is u d"]
  by (auto simp: update_device_session_last_active_def session_is_def)

lemma store_sessions: "adb_sessions (fst (store_refresh_token env u d h db)) = adb_sessions db"
  by (simp add: store_refresh_token_def Let_def)

lemma issue_sessions: "adb_sessions (fst (issue_tokens lib tm env u d db)) = adb_sessions db"
  using issue_tokens_fst [of lib tm env u d db] store_sessions [of env u d _ db] by auto

lemma refresh_Answer:
  assumes "handle_refresh_token lib tm env (Some req) db = (db', Answer r)"
  obtains u db1 where "check_refresh lib tm env req db = Inr (u, rf_device req)"
    and "issue_tokens lib tm env u (rf_device req) db = (db1, Answer r)"
    and "db' = fst (update_device_session_last_active env u (rf_device req) db1)"
proof -
  obtain u d where c: "check_refresh lib tm env req db = Inr (u, d)"
    using assms by (auto simp: handle_refresh_token_def split: sum.splits)
  then have d: "d = rf_device req" by (auto simp: check_refresh_def split: if_splits sum.splits option.splits)
  have "rotate_session lib tm env u d db = (db', Answer r)" using assms c by (simp add: handle_refresh_token_def)
  then obtain db1 where "issue_tokens lib tm env u d db = (db1, Answer r)"
    "db' = fst (update_device_session_last_active env u d db1)"
    by (auto simp: rotate_session_def split: prod.splits auth_reply.splits)
  then show thesis using that c d by simp
qed

lemma check_refresh_Inr:
  assumes "check_refresh lib tm env req db = Inr (u, d)"
  shows "validate_refresh req" "validate_refresh_token lib tm (rf_token req) (ae_now env) = Inr (u, d)"
    "d = rf_device req" "List.find (session_is u d) (adb_sessions db) \<noteq> None"
  using assms by (auto simp: check_refresh_def get_device_session_def split: if_splits sum.splits option.splits)

text \<open>After an answered refresh: the stored hash is that of the new token, the session is still there.\<close>

lemma after_refresh:
  assumes "handle_refresh_token lib tm env (Some req) db = (db', Answer r)"
  obtains u where "validate_refresh_token lib tm (rf_token req) (ae_now env) = Inr (u, rf_device req)"
    and "generate_refresh_token lib tm u (rf_device req) (ae_now env) = Inr (tr_refresh r)"
    and "\<And>env'. \<not> ae_fails env' SelectToken \<Longrightarrow> get_refresh_token env' u (rf_device req) db' =
        Inr (if ae_now env' < ae_now env + 30 * 24 * hour_ns then hash_refresh_token lib (tr_refresh r) else [])"
    and "List.find (session_is u (rf_device req)) (adb_sessions db') \<noteq> None"
    and "validate_refresh req"
proof -
  obtain u db1 where c: "check_refresh lib tm env req db = Inr (u, rf_device req)"
    and i: "issue_tokens lib tm env u (rf_device req) db = (db1, Answer r)"
    and db': "db' = fst (update_device_session_last_active env u (rf_device req) db1)"
    using refresh_Answer [OF assms] by blast
  have sessions: "adb_sessions db1 = adb_sessions db" using issue_sessions [of lib tm env u "rf_device req" db] i by simp
  have "get_refresh_token env' u (rf_device req) db' =
      Inr (if ae_now env' < ae_now env + 30 * 24 * hour_ns then hash_refresh_token lib (tr_refresh r) else [])"
    if "\<not> ae_fails env' SelectToken" for env'
    using get_after_store [OF issue_tokens_Answer(3) [OF i] that]
      get_refresh_token_cong [of db' db1 env' u "rf_device req"] by (simp add: db')
  moreover have "List.find (session_is u (rf_device req)) (adb_sessions db') \<noteq> None"
    using session_kept [of u "rf_device req" db1 env] check_refresh_Inr(4) [OF c]
    unfolding db' sessions by blast
  ultimately show thesis using that check_refresh_Inr(1,2) [OF c] issue_tokens_Answer(1) [OF i] by blast
qed


section \<open>Revocation\<close>

text \<open>
  An answered revocation ends the refreshing of the device: every refresh token that names it is refused with status 401. It does not touch the access tokens of the device, which the middleware accepts until they expire.
\<close>

lemma revocation_leaves_access_tokens:
  assumes "jwt_ok lib verifies" "uuid_ok lib"
    and "handle_revoke_session env ctx (Some d) db = (db', Answer ())"
    and "validate_refresh_token lib tm (rf_token req) (ae_now env') = Inr (user_id_from_context ctx, d)"
    and "validate_refresh req" "\<And>s. \<not> ae_fails env' s"
    and "generate_access_token lib tm (user_id_from_context ctx) d t0 = Inr t"
    and "numeric_date t0 \<le> ae_now env'" "ae_now env' < numeric_date (t0 + tm_access_ttl tm)"
  shows "(\<exists>c. handle_refresh_token lib tm env' (Some req) db' = (db', Denied 401 c)) \<and>
    (\<exists>ctx'. jwt_middleware lib tm (bearer t) empty_ctx (ae_now env') = Inr ctx' \<and>
       user_id_from_context ctx' = user_id_from_context ctx \<and> device_id_from_context ctx' = d)"
proof
  let ?u = "user_id_from_context ctx"
  have "(db', None) = delete_device_session env ?u d db"
    using assms(3) by (auto simp: handle_revoke_session_def Let_def split: if_splits sum.splits option.splits prod.splits)
  then have "adb_tokens db' = filter (\<lambda>r. \<not> token_is ?u d r) (adb_tokens db)"
    by (auto simp: delete_device_session_def split: if_splits)
  then have "List.find (\<lambda>r. token_is ?u d r \<and> ae_now env' < rt_expires r) (adb_tokens db') = None"
    by (simp add: find_None_iff)
  then have "get_refresh_token env' ?u d db' = Inr []"
    using assms(6) by (simp add: get_refresh_token_def)
  then have "\<exists>c. check_refresh lib tm env' req db' = Inl (401, c)"
    using assms(4,5) by (auto simp: check_refresh_def)
  then show "\<exists>c. handle_refresh_token lib tm env' (Some req) db' = (db', Denied 401 c)"
    by (auto simp: handle_refresh_token_def)
  note minted = assms(7) [unfolded generate_access_token_def]
  have dots: "count_char CHR ''.'' t = 2" by (rule sign_parses(3) [OF assms(1) minted])
  then have ne: "t \<noteq> []" by (intro count_pos_not_Nil [of "CHR ''.''"]) simp
  have "validate_use lib tm ''access'' t (ae_now env') = Inr (?u, d)"
    by (rule validate_use_minted(1) [OF assms(1,2) minted assms(8,9)])
  then show "\<exists>ctx'. jwt_middleware lib tm (bearer t) empty_ctx (ae_now env') = Inr ctx' \<and>
       user_id_from_context ctx' = ?u \<and> device_id_from_context ctx' = d"
    using dots ne by (simp add: jwt_middleware_bearer validate_access_token_def user_id_from_context_def
        device_id_from_context_def)
qed

section \<open>Examples\<close>

definition quiet_env :: "instant \<Rightarrow> auth_env" where
  "quiet_env t = \<lparr>ae_now = t, ae_new_id = 5, ae_fails = (\<lambda>_. False)\<rparr>"

definition sample_register :: register_request where
  "sample_register = \<lparr>dr_device = ''d'', dr_type = ''ios'', dr_name = ''phone'', dr_fcm = None, dr_apns = None\<rparr>"

lemma auth_tables_well_formed_witness:
  "length (adb_sessions (fst (handle_register_device sample_lib sample_tm (quiet_env 0)
     \<lparr>uh_authenticated = ''111'', uh_test_auth = [], uh_test_user = []\<rparr> (Some sample_register)
     \<lparr>adb_sessions = [], adb_tokens = []\<rparr>))) = 1 \<and>
   distinct (map (\<lambda>r. (ds_user r, ds_device r)) (adb_sessions (fst (handle_register_device sample_lib sample_tm (quiet_env 0)
     \<lparr>uh_authenticated = ''111'', uh_test_auth = [], uh_test_user = []\<rparr> (Some sample_register)
     \<lparr>adb_sessions = [], adb_tokens = []\<rparr>))))"
  (is "length (adb_sessions ?db) = 1 \<and> _")
proof
  have "resolve_user_id sample_lib \<lparr>uh_authenticated = ''111'', uh_test_auth = [], uh_test_user = []\<rparr> = 3"
    by (simp add: resolve_user_id_def parsed_user_def sample_lib_def)
  then show "length (adb_sessions ?db) = 1"
    by (simp add: handle_register_device_def sample_register_def validate_register_def known_device_type_def
        register_session_def quiet_env_def issue_sessions Let_def)
  have "(auth_request sample_lib sample_tm)\<^sup>*\<^sup>* \<lparr>adb_sessions = [], adb_tokens = []\<rparr> ?db"
    by (rule r_into_rtranclp) (rule Registers)
  from auth_tables_well_formed [OF this]
  show "distinct (map (\<lambda>r. (ds_user r, ds_device r)) (adb_sessions ?db))" by simp
qed

lemma revocation_leaves_access_tokens_witness:
  "\<exists>t rt db'. handle_revoke_session (quiet_env 0) (empty_ctx\<lparr>rc_user := Some (CtxUuid 3)\<rparr>) (Some ''d'')
       \<lparr>adb_sessions = [\<lparr>ds_id = 1, ds_user = 3, ds_device = ''d'', ds_type = ''ios'', ds_name = ''p'', ds_fcm = None,
          ds_apns = None, ds_last = 0, ds_created = 0\<rparr>], adb_tokens = []\<rparr> = (db', Answer ()) \<and>
     (\<exists>c. handle_refresh_token sample_lib sample_tm (quiet_env minute_ns) (Some \<lparr>rf_token = rt, rf_device = ''d''\<rparr>) db' =
        (db', Denied 401 c)) \<and>
     (\<exists>ctx'. jwt_middleware sample_lib sample_tm (bearer t) empty_ctx minute_ns = Inr ctx')"
proof -
  let ?ctx = "empty_ctx\<lparr>rc_user := Some (CtxUuid 3)\<rparr>"
  have u: "user_id_from_context ?ctx = 3" by (simp add: user_id_from_context_def)
  obtain t where t: "generate_access_token sample_lib sample_tm (user_id_from_context ?ctx) ''d'' 0 = Inr t"
    using sample_access by blast
  obtain rt where rt: "generate_refresh_token sample_lib sample_tm 3 ''d'' 0 = Inr rt"
    by (simp add: generate_refresh_token_def generate_token_with_claims_def) (simp add: sample_lib_def)
  have v: "validate_refresh_token sample_lib sample_tm rt (ae_now (quiet_env minute_ns)) = Inr (3, ''d'')"
    by (rule minted_refresh_token_valid [OF sample_lib_ok(1-3) rt])
      (simp_all add: quiet_env_def numeric_date_def sample_tm_def)
  then have ne: "rt \<noteq> []" by (auto simp: validate_refresh_token_def)
  obtain db' where r: "handle_revoke_session (quiet_env 0) ?ctx (Some ''d'')
       \<lparr>adb_sessions = [\<lparr>ds_id = 1, ds_user = 3, ds_device = ''d'', ds_type = ''ios'', ds_name = ''p'', ds_fcm = None,
          ds_apns = None, ds_last = 0, ds_created = 0\<rparr>], adb_tokens = []\<rparr> = (db', Answer ())"
    by (simp add: handle_revoke_session_def u quiet_env_def get_device_session_def session_is_def
        delete_device_session_def)
  have "validate_refresh_token sample_lib sample_tm (rf_token \<lparr>rf_token = rt, rf_device = ''d''\<rparr>)
      (ae_now (quiet_env minute_ns)) = Inr (user_id_from_context ?ctx, ''d'')" using v by (simp add: u)
  from revocation_leaves_access_tokens [OF sample_lib_ok(1,2) r this _ _ t] ne
  have "(\<exists>c. handle_refresh_token sample_lib sample_tm (quiet_env minute_ns) (Some \<lparr>rf_token = rt, rf_device = ''d''\<rparr>) db' =
        (db', Denied 401 c)) \<and> (\<exists>ctx'. jwt_middleware sample_lib sample_tm (bearer t) empty_ctx minute_ns = Inr ctx')"
    by (auto simp: quiet_env_def validate_refresh_def numeric_date_def sample_tm_def)
  then show ?thesis using r by blast
qed

text \<open>
  The sample library hashes the last bytes of a token, so tokens with different last characters
  have different hashes.
\<close>

lemma sample_hash_last:
  assumes "hash_refresh_token sample_lib s = hash_refresh_token sample_lib t" "s \<noteq> []" "t \<noteq> []"
  shows "(of_char (last s) :: 8 word) = of_char (last t)"
proof -
  have h: "hd (al_sha256 sample_lib (bytes_of x)) = of_char (last x)" if "x \<noteq> []" for x
    using that by (simp add: sample_lib_def bytes_of_def hd_append hd_rev last_map)
  have "al_sha256 sample_lib (bytes_of s) = al_sha256 sample_lib (bytes_of t)"
    using assms(1) by (simp add: hash_refresh_token_def)
  then show ?thesis using h [OF assms(2)] h [OF assms(3)] by simp
qed

lemma b64_split_last: "length xs mod 3 = 2 \<Longrightarrow> last (b64_split xs) = (last xs mod 16) * 4 \<and> b64_split xs \<noteq> []"
  by (induction xs rule: b64_split.induct) auto

lemma b64_encode_last:
  assumes "length bs = 32"
  shows "last (b64_encode bs) = b64_char ((unat (last bs) mod 16) * 4) \<and> b64_encode bs \<noteq> []"
proof -
  have "bs \<noteq> []" using assms by auto
  then show ?thesis using b64_split_last [of "map unat bs"] assms by (simp add: b64_encode_def last_map)
qed


end
