(* ===== verification/Hub.thy ===== *)
theory Hub
  imports Reagent_Prelude "HOL-Library.AList"
begin

text \<open>
  The WebSocket hub of \<open>src/sync/internal/websocket/hub.go\<close>: the map user to device to client,
  the clients' buffered send channels, registration, unregistration, broadcast routing, redis
  delivery and shutdown. A client is an identity with a fixed user and device; closing a closed
  channel and sending on one panic, and the hub blocks when it sends on its own full unregister
  channel. Operations return the new hub, \<open>HubPanic\<close> or \<open>HubStuck\<close>.
\<close>

type_synonym client = nat

record channel =
  chan_buffer :: "string list"
  chan_capacity :: nat
  chan_closed :: bool

type_synonym devices = "(string \<times> client) list"

record hub =
  connections :: "(uuid \<times> devices) list"
  channels :: "client \<Rightarrow> channel"
  unregister_queue :: "client list"
  conn_closed :: "client list"

datatype hub_outcome = HubOk hub | HubPanic | HubStuck

abbreviation (input) unregister_capacity :: nat where
  "unregister_capacity \<equiv> 100"

definition new_hub :: "(client \<Rightarrow> channel) \<Rightarrow> hub" where
  "new_hub ch = \<lparr>connections = [], channels = ch, unregister_queue = [], conn_closed = []\<rparr>"

definition devices_of :: "uuid \<Rightarrow> hub \<Rightarrow> devices" where
  "devices_of u h = (case map_of (connections h) u of None \<Rightarrow> [] | Some ds \<Rightarrow> ds)"

definition find_client :: "uuid \<Rightarrow> string \<Rightarrow> hub \<Rightarrow> client option" where
  "find_client u d h = map_of (devices_of u h) d"

definition close_channel :: "client \<Rightarrow> hub \<Rightarrow> hub_outcome" where
  "close_channel c h =
     (if chan_closed (channels h c) then HubPanic
      else HubOk (h\<lparr>channels := (channels h)(c := (channels h c)\<lparr>chan_closed := True\<rparr>)\<rparr>))"

definition close_conn :: "client \<Rightarrow> hub \<Rightarrow> hub" where
  "close_conn c h = h\<lparr>conn_closed := c # conn_closed h\<rparr>"

text \<open>\<open>registerClient\<close>: \<open>owner\<close> gives the client's user and device.\<close>

definition register_client :: "(client \<Rightarrow> uuid \<times> string) \<Rightarrow> client \<Rightarrow> hub \<Rightarrow> hub_outcome" where
  "register_client owner c h =
     (let (u, d) = owner c; put = (\<lambda>h. HubOk (h\<lparr>connections :=
                AList.update u (AList.update d c (devices_of u h)) (connections h)\<rparr>))
      in (case find_client u d h of
            None \<Rightarrow> put h
          | Some old \<Rightarrow>
              (case close_channel old h of
                 HubOk h' \<Rightarrow> put (close_conn old h')
               | r \<Rightarrow> r)))"

definition unregister_client :: "(client \<Rightarrow> uuid \<times> string) \<Rightarrow> client \<Rightarrow> hub \<Rightarrow> hub_outcome" where
  "unregister_client owner c h =
     (let (u, d) = owner c
      in (case find_client u d h of
            None \<Rightarrow> HubOk (close_conn c h)
          | Some _ \<Rightarrow>
              (let ds = AList.delete d (devices_of u h);
                   h1 = h\<lparr>connections := (if ds = [] then AList.delete u (connections h)
                                         else AList.update u ds (connections h))\<rparr>
               in (case close_channel c h1 of HubOk h2 \<Rightarrow> HubOk (close_conn c h2) | r \<Rightarrow> r))))"

text \<open>
  A non-blocking send: sent when there is room, panics on a closed channel, else not sent.
\<close>

datatype send_result = Sent hub | Full | SendPanic

definition try_send :: "client \<Rightarrow> string \<Rightarrow> hub \<Rightarrow> send_result" where
  "try_send c data h =
     (let ch = channels h c
      in if chan_closed ch then SendPanic
         else if length (chan_buffer ch) < chan_capacity ch
         then Sent (h\<lparr>channels := (channels h)(c := ch\<lparr>chan_buffer := chan_buffer ch @ [data]\<rparr>)\<rparr>)
         else Full)"

text \<open>
  Deliver to each client of a list; a full client is queued for unregistration by a goroutine.
\<close>

fun send_all :: "client list \<Rightarrow> string \<Rightarrow> hub \<Rightarrow> hub_outcome" where
  "send_all [] data h = HubOk h"
| "send_all (c # cs) data h =
     (case try_send c data h of
        Sent h' \<Rightarrow> send_all cs data h'
      | Full \<Rightarrow> send_all cs data (h\<lparr>unregister_queue := unregister_queue h @ [c]\<rparr>)
      | SendPanic \<Rightarrow> HubPanic)"

definition get_clients :: "uuid \<Rightarrow> hub \<Rightarrow> client list" where
  "get_clients u h = map snd (devices_of u h)"

definition route_broadcast :: "uuid \<Rightarrow> string \<Rightarrow> string \<Rightarrow> hub \<Rightarrow> hub_outcome" where
  "route_broadcast u device data h =
     (if device \<noteq> []
      then (case find_client u device h of
              None \<Rightarrow> HubOk h
            | Some c \<Rightarrow>
                (case try_send c data h of
                   Sent h' \<Rightarrow> HubOk h'
                 | Full \<Rightarrow> if length (unregister_queue h) < unregister_capacity
                          then HubOk (h\<lparr>unregister_queue := unregister_queue h @ [c]\<rparr>)
                          else HubStuck
                 | SendPanic \<Rightarrow> HubPanic))
      else send_all (get_clients u h) data h)"

text \<open>\<open>handleRedisMessage\<close> after the channel name and payload were decoded.\<close>

definition handle_redis_message :: "uuid \<Rightarrow> string \<Rightarrow> hub \<Rightarrow> hub_outcome" where
  "handle_redis_message u payload h =
     (if u = uuid_nil then HubOk h else send_all (get_clients u h) payload h)"

definition get_client_count :: "hub \<Rightarrow> nat" where
  "get_client_count h = sum_list (map (\<lambda>(u, ds). length ds) (connections h))"

definition is_user_online :: "uuid \<Rightarrow> hub \<Rightarrow> bool" where
  "is_user_online u h \<longleftrightarrow> 0 < length (devices_of u h)"

fun close_clients :: "client list \<Rightarrow> hub \<Rightarrow> hub_outcome" where
  "close_clients [] h = HubOk h"
| "close_clients (c # cs) h =
     (case close_channel c h of HubOk h' \<Rightarrow> close_clients cs (close_conn c h') | r \<Rightarrow> r)"

definition close_all :: "hub \<Rightarrow> hub_outcome" where
  "close_all h =
     (case close_clients (concat (map (\<lambda>(u, ds). map snd ds) (connections h))) h of
        HubOk h' \<Rightarrow> HubOk (h'\<lparr>connections := []\<rparr>)
      | r \<Rightarrow> r)"

section \<open>The hub invariant\<close>

text \<open>
  Every user has one nonempty entry, every device of it one client, registered under its own user
  and device, with an open channel.
\<close>

definition hub_ok :: "(client \<Rightarrow> uuid \<times> string) \<Rightarrow> hub \<Rightarrow> bool" where
  "hub_ok owner h \<longleftrightarrow>
     distinct (map fst (connections h)) \<and>
     (\<forall>(u, ds) \<in> set (connections h). ds \<noteq> [] \<and> distinct (map fst ds) \<and>
        (\<forall>(d, c) \<in> set ds. owner c = (u, d) \<and> \<not> chan_closed (channels h c)))"

definition registered :: "(client \<Rightarrow> uuid \<times> string) \<Rightarrow> client \<Rightarrow> hub \<Rightarrow> bool" where
  "registered owner c h \<longleftrightarrow> find_client (fst (owner c)) (snd (owner c)) h = Some c"

lemma hub_ok_devices:
  assumes "hub_ok owner h"
  shows "distinct (map fst (devices_of u h))"
    "(d, c) \<in> set (devices_of u h) \<Longrightarrow> owner c = (u, d) \<and> \<not> chan_closed (channels h c)"
  using assms by (auto simp: hub_ok_def devices_of_def dest!: map_of_SomeD split: option.splits)

lemma find_client_mem: "find_client u d h = Some c \<Longrightarrow> (d, c) \<in> set (devices_of u h)"
  by (simp add: find_client_def map_of_SomeD)

lemma find_client_iff:
  "hub_ok owner h \<Longrightarrow> find_client u d h = Some c \<longleftrightarrow> (d, c) \<in> set (devices_of u h)"
  using hub_ok_devices(1) [of owner h u] by (auto simp: find_client_def)

lemma entry_mem:
  assumes "hub_ok owner h" "(u, ds) \<in> set (connections h)"
  shows "devices_of u h = ds"
  using assms by (simp add: devices_of_def hub_ok_def)

text \<open>Replacing a user's entry by a good one keeps the invariant.\<close>

lemma set_AList_update: "distinct (map fst xs) \<Longrightarrow> set (AList.update k v xs) = {(k, v)} \<union> {(a, b) \<in> set xs. a \<noteq> k}"
proof (induction xs)
  case (Cons x xs)
  then show ?case by (cases x) (auto simp: rev_image_eqI)
qed simp

lemma hub_ok_update:
  assumes "hub_ok owner h" "ds \<noteq> []" "distinct (map fst ds)"
    and "\<And>d c. (d, c) \<in> set ds \<Longrightarrow> owner c = (u, d) \<and> \<not> chan_closed (ch c)"
    and "\<And>u' ds' d c. (u', ds') \<in> set (connections h) \<Longrightarrow> u' \<noteq> u \<Longrightarrow> (d, c) \<in> set ds' \<Longrightarrow> \<not> chan_closed (ch c)"
  shows "hub_ok owner (h\<lparr>connections := AList.update u ds (connections h), channels := ch,
      unregister_queue := q, conn_closed := cc\<rparr>)"
proof -
  have k: "distinct (map fst (connections h))" using assms(1) by (simp add: hub_ok_def)
  have "ds' \<noteq> [] \<and> distinct (map fst ds') \<and> (\<forall>(d, c) \<in> set ds'. owner c = (u', d) \<and> \<not> chan_closed (ch c))"
    if "(u', ds') \<in> set (AList.update u ds (connections h))" for u' ds'
    using that assms unfolding set_AList_update [OF k] hub_ok_def by fastforce
  then show ?thesis using k by (fastforce simp: hub_ok_def distinct_update)
qed
lemma hub_ok_delete:
  assumes "hub_ok owner h"
    and "\<And>u' ds' d c. (u', ds') \<in> set (connections h) \<Longrightarrow> u' \<noteq> u \<Longrightarrow> (d, c) \<in> set ds' \<Longrightarrow> \<not> chan_closed (ch c)"
  shows "hub_ok owner (h\<lparr>connections := AList.delete u (connections h), channels := ch, conn_closed := cc\<rparr>)"
proof -
  have "distinct (map fst (AList.delete u (connections h)))"
    using assms(1) by (simp add: hub_ok_def distinct_delete)
  moreover have "ds' \<noteq> [] \<and> distinct (map fst ds') \<and> (\<forall>(d, c) \<in> set ds'. owner c = (u', d) \<and> \<not> chan_closed (ch c))"
    if "(u', ds') \<in> set (AList.delete u (connections h))" for u' ds'
  proof -
    have m: "(u', ds') \<in> set (connections h)" "u' \<noteq> u"
      using that by (auto simp: AList.delete_eq)
    then have "ds' \<noteq> []" "distinct (map fst ds')" "\<forall>(d, c) \<in> set ds'. owner c = (u', d)"
      using assms(1) by (auto simp: hub_ok_def)
    then show ?thesis using assms(2) [OF m] by auto
  qed
  ultimately show ?thesis by (fastforce simp: hub_ok_def)
qed

lemma register_client_ok:
  assumes ok: "hub_ok owner h" and c: "\<not> chan_closed (channels h c)" "\<not> registered owner c h"
  shows "\<exists>h'. register_client owner c h = HubOk h' \<and> hub_ok owner h' \<and> registered owner c h' \<and>
    unregister_queue h' = unregister_queue h \<and>
    (\<forall>old. find_client (fst (owner c)) (snd (owner c)) h = Some old \<longrightarrow> chan_closed (channels h' old))"
proof -
  obtain u d where o: "owner c = (u, d)" by fastforce
  let ?ds = "AList.update d c (devices_of u h)"
  note dev = hub_ok_devices [OF ok]
  have ds: "?ds \<noteq> []" "distinct (map fst ?ds)"
    using dev(1) [of u] by (auto simp: distinct_update update_nonempty)
  have reg: "registered owner c (h'\<lparr>connections := AList.update u ?ds (connections h)\<rparr>)" for h'
    by (simp add: registered_def o find_client_def devices_of_def update_conv')
  show ?thesis
  proof (cases "find_client u d h")
    case None
    have "hub_ok owner (h\<lparr>connections := AList.update u ?ds (connections h), channels := channels h,
        unregister_queue := unregister_queue h, conn_closed := conn_closed h\<rparr>)"
      by (rule hub_ok_update [OF ok ds])
        (use o c dev in \<open>auto simp: set_AList_update [OF dev(1)] dest: bspec ok [unfolded hub_ok_def, THEN conjunct2, THEN bspec]\<close>)
    then show ?thesis
      using None reg [of h] o by (simp add: register_client_def)
  next
    case (Some old)
    have old: "(d, old) \<in> set (devices_of u h)" using find_client_mem [OF Some] .
    then have oo: "owner old = (u, d)" "\<not> chan_closed (channels h old)" using dev(2) by blast+
    have ne: "old \<noteq> c" using c(2) Some o by (auto simp: registered_def)
    let ?ch = "(channels h)(old := (channels h old)\<lparr>chan_closed := True\<rparr>)"
    have "hub_ok owner (h\<lparr>connections := AList.update u ?ds (connections h), channels := ?ch,
        unregister_queue := unregister_queue h, conn_closed := old # conn_closed h\<rparr>)"
    proof (rule hub_ok_update [OF ok ds])
      fix d' c' assume "(d', c') \<in> set ?ds"
      then show "owner c' = (u, d') \<and> \<not> chan_closed (?ch c')"
        using o c ne dev(2) oo by (auto simp: set_AList_update [OF dev(1)])
    next
      fix u' ds' d' c' assume "(u', ds') \<in> set (connections h)" "u' \<noteq> u" "(d', c') \<in> set ds'"
      then have "owner c' = (u', d')" "\<not> chan_closed (channels h c')"
        using ok by (auto simp: hub_ok_def)
      then show "\<not> chan_closed (?ch c')" using oo \<open>u' \<noteq> u\<close> by auto
    qed
    then show ?thesis
      using Some reg o oo
      by (simp add: register_client_def close_channel_def close_conn_def devices_of_def hub_ok_def)
  qed
qed

lemma unregister_client_ok:
  assumes ok: "hub_ok owner h"
    and c: "registered owner c h \<or> find_client (fst (owner c)) (snd (owner c)) h = None"
  shows "\<exists>h'. unregister_client owner c h = HubOk h' \<and> hub_ok owner h' \<and> unregister_queue h' = unregister_queue h \<and>
    find_client (fst (owner c)) (snd (owner c)) h' = None"
proof -
  obtain u d where o: "owner c = (u, d)" by fastforce
  note dev = hub_ok_devices [OF ok]
  show ?thesis
  proof (cases "find_client u d h")
    case None
    have "hub_ok owner (close_conn c h)" using ok by (simp add: hub_ok_def close_conn_def)
    then show ?thesis using None o
      by (simp add: unregister_client_def close_conn_def find_client_def devices_of_def)
  next
    case (Some c')
    then have c': "find_client u d h = Some c" using c o by (auto simp: registered_def)
    have op: "\<not> chan_closed (channels h c)" using dev(2) find_client_mem [OF c'] by blast
    let ?ds = "AList.delete d (devices_of u h)"
    let ?ch = "(channels h)(c := (channels h c)\<lparr>chan_closed := True\<rparr>)"
    have kd: "distinct (map fst ?ds)" using dev(1) by (rule distinct_delete)
    have mem: "(d', x) \<in> set ?ds \<Longrightarrow> d' \<noteq> d \<and> (d', x) \<in> set (devices_of u h)" for d' x
      by (auto simp: AList.delete_eq)
    have other: "\<not> chan_closed (?ch x)" if "(u', ds') \<in> set (connections h)" "u' \<noteq> u" "(d', x) \<in> set ds'" for u' ds' d' x
    proof -
      have "owner x = (u', d')" "\<not> chan_closed (channels h x)"
        using ok that by (auto simp: hub_ok_def)
      then show ?thesis using that(2) o by auto
    qed
    show ?thesis
    proof (cases "?ds = []")
      case True
      have "hub_ok owner (h\<lparr>connections := AList.delete u (connections h), channels := ?ch, conn_closed := c # conn_closed h\<rparr>)"
        using hub_ok_delete [OF ok other] .
      then show ?thesis
        using True c' o op
        by (simp add: unregister_client_def close_channel_def close_conn_def find_client_def devices_of_def
            delete_conv')
    next
      case False
      have "hub_ok owner (h\<lparr>connections := AList.update u ?ds (connections h), channels := ?ch,
          unregister_queue := unregister_queue h, conn_closed := c # conn_closed h\<rparr>)"
      proof (rule hub_ok_update [OF ok False kd])
        fix d' x assume "(d', x) \<in> set ?ds"
        note m = mem [OF this]
        then have "owner x = (u, d')" "\<not> chan_closed (channels h x)" using dev(2) by blast+
        then show "owner x = (u, d') \<and> \<not> chan_closed (?ch x)" using m o by auto
      qed (rule other)
      then show ?thesis
        using False c' o op
        by (simp add: unregister_client_def close_channel_def close_conn_def find_client_def devices_of_def
            update_conv' delete_conv')
    qed
  qed
qed

text \<open>Sending changes buffers and the unregister queue only.\<close>

definition buffers_grow :: "hub \<Rightarrow> hub \<Rightarrow> bool" where
  "buffers_grow h h' \<longleftrightarrow> connections h' = connections h \<and>
     (\<forall>c. chan_closed (channels h' c) = chan_closed (channels h c) \<and>
          (\<exists>m. chan_buffer (channels h' c) = chan_buffer (channels h c) @ m))"

lemma buffers_grow_refl: "buffers_grow h h"
  by (simp add: buffers_grow_def)

lemma buffers_grow_trans: "buffers_grow a b \<Longrightarrow> buffers_grow b c \<Longrightarrow> buffers_grow a c"
  unfolding buffers_grow_def by (metis append_assoc)

lemma buffers_grow_ok: "buffers_grow h h' \<Longrightarrow> hub_ok owner h \<Longrightarrow> hub_ok owner h'"
  by (simp add: buffers_grow_def hub_ok_def)

lemma try_send_grows: "try_send c data h = Sent h' \<Longrightarrow> buffers_grow h h'"
  by (auto simp: try_send_def buffers_grow_def Let_def split: if_splits)

lemma send_all_open:
  "\<forall>c \<in> set cs. \<not> chan_closed (channels h c) \<Longrightarrow> \<exists>h'. send_all cs data h = HubOk h' \<and> buffers_grow h h'"
proof (induction cs arbitrary: h)
  case (Cons c cs)
  show ?case
  proof (cases "try_send c data h")
    case (Sent h1)
    note g = try_send_grows [OF Sent]
    then have "\<forall>c \<in> set cs. \<not> chan_closed (channels h1 c)" using Cons.prems by (simp add: buffers_grow_def)
    from Cons.IH [OF this] Sent buffers_grow_trans [OF g] show ?thesis by auto
  next
    case Full
    let ?h = "h\<lparr>unregister_queue := unregister_queue h @ [c]\<rparr>"
    have "buffers_grow h ?h" by (simp add: buffers_grow_def)
    then show ?thesis using Cons.IH [of ?h] Cons.prems Full buffers_grow_trans by auto
  next
    case SendPanic
    then show ?thesis using Cons.prems by (auto simp: try_send_def Let_def split: if_splits)
  qed
qed (simp add: buffers_grow_refl)

lemma get_clients_open: "hub_ok owner h \<Longrightarrow> c \<in> set (get_clients u h) \<Longrightarrow> \<not> chan_closed (channels h c)"
  using hub_ok_devices(2) by (fastforce simp: get_clients_def)

lemma send_all_delivers:
  "distinct cs \<Longrightarrow> \<forall>c \<in> set cs. \<not> chan_closed (channels h c) \<Longrightarrow> send_all cs data h = HubOk h' \<Longrightarrow>
   channels h' c = (if c \<in> set cs \<and> length (chan_buffer (channels h c)) < chan_capacity (channels h c)
                    then (channels h c)\<lparr>chan_buffer := chan_buffer (channels h c) @ [data]\<rparr>
                    else channels h c)"
proof (induction cs arbitrary: h)
  case (Cons x cs)
  have x: "x \<notin> set cs" "\<not> chan_closed (channels h x)" using Cons.prems by auto
  show ?case
  proof (cases "length (chan_buffer (channels h x)) < chan_capacity (channels h x)")
    case True
    let ?h = "h\<lparr>channels := (channels h)(x := (channels h x)\<lparr>chan_buffer := chan_buffer (channels h x) @ [data]\<rparr>)\<rparr>"
    have "send_all cs data ?h = HubOk h'"
      using Cons.prems(3) True x by (simp add: try_send_def Let_def)
    from Cons.IH [OF _ _ this] Cons.prems x True show ?thesis by auto
  next
    case False
    let ?h = "h\<lparr>unregister_queue := unregister_queue h @ [x]\<rparr>"
    have "send_all cs data ?h = HubOk h'"
      using Cons.prems(3) False x by (simp add: try_send_def Let_def)
    from Cons.IH [OF _ _ this] Cons.prems x False show ?thesis by auto
  qed
qed simp

lemma get_clients_distinct: "hub_ok owner h \<Longrightarrow> distinct (get_clients u h)"
proof -
  assume ok: "hub_ok owner h"
  have "map fst (devices_of u h) = map (snd \<circ> owner) (get_clients u h)"
    using hub_ok_devices(2) [OF ok] by (force simp: get_clients_def)
  with hub_ok_devices(1) [OF ok, of u] have "distinct (map (snd \<circ> owner) (get_clients u h))" by simp
  then show ?thesis by (simp add: distinct_map)
qed

lemma get_clients_grow: "buffers_grow h h' \<Longrightarrow> get_clients u h' = get_clients u h"
  by (simp add: get_clients_def devices_of_def buffers_grow_def)

section \<open>Runs of the hub\<close>

text \<open>
  Steps in which clients are fresh when they register and are unregistered only while they are
  the registered client of their device (or nobody is).
\<close>

inductive hub_step :: "(client \<Rightarrow> uuid \<times> string) \<Rightarrow> hub \<Rightarrow> hub \<Rightarrow> bool" for owner where
  connect: "hub_step owner h h'"
    if "register_client owner c h = HubOk h'" "\<not> chan_closed (channels h c)" "\<not> registered owner c h"
| disconnect: "hub_step owner h h'"
    if "unregister_client owner c h = HubOk h'"
       "registered owner c h \<or> find_client (fst (owner c)) (snd (owner c)) h = None"
| send: "hub_step owner h h'" if "route_broadcast u device data h = HubOk h'"
| redis: "hub_step owner h h'" if "handle_redis_message u data h = HubOk h'"
| drain: "hub_step owner h (h\<lparr>channels := (channels h)(c := (channels h c)\<lparr>chan_buffer := tl (chan_buffer (channels h c))\<rparr>)\<rparr>)"
| dequeue: "hub_step owner h (h\<lparr>unregister_queue := tl (unregister_queue h)\<rparr>)"

inductive_cases hub_stepE: "hub_step owner h h'"

lemma route_broadcast_safe:
  assumes "hub_ok owner h"
  shows "route_broadcast u device data h \<noteq> HubPanic \<and>
    (\<forall>h'. route_broadcast u device data h = HubOk h' \<longrightarrow> buffers_grow h h')"
proof (cases "device = []")
  case True
  then show ?thesis
    using send_all_open [of "get_clients u h" h data] get_clients_open [OF assms]
    by (auto simp: route_broadcast_def)
next
  case False
  show ?thesis
  proof (cases "find_client u device h")
    case None
    then show ?thesis using False by (simp add: route_broadcast_def buffers_grow_refl)
  next
    case (Some c)
    then have "\<not> chan_closed (channels h c)"
      using hub_ok_devices(2) [OF assms] find_client_mem by blast
    then have "try_send c data h \<noteq> SendPanic" by (simp add: try_send_def Let_def)
    then show ?thesis
      using False Some
      by (auto simp: route_broadcast_def buffers_grow_def dest: try_send_grows [unfolded buffers_grow_def]
          split: send_result.splits)
  qed
qed

lemma handle_redis_safe:
  assumes "hub_ok owner h"
  shows "\<exists>h'. handle_redis_message u data h = HubOk h' \<and> buffers_grow h h'"
  using send_all_open [of "get_clients u h" h data] get_clients_open [OF assms]
  by (auto simp: handle_redis_message_def buffers_grow_refl)

lemma hub_step_ok: "hub_step owner h h' \<Longrightarrow> hub_ok owner h \<Longrightarrow> hub_ok owner h'"
proof (induction rule: hub_step.induct)
  case (connect c h h')
  then show ?case using register_client_ok [of owner h c] by auto
next
  case (disconnect c h h')
  then show ?case using unregister_client_ok [of owner h c] by auto
next
  case (send u device data h h')
  then show ?case using route_broadcast_safe [of owner h] buffers_grow_ok by blast
next
  case (redis u data h h')
  then show ?case using handle_redis_safe [of owner h u data] buffers_grow_ok by auto
next
  case (drain h c)
  then show ?case by (fastforce simp: hub_ok_def)
next
  case (dequeue h)
  then show ?case by (simp add: hub_ok_def)
qed

definition ex_owner :: "client \<Rightarrow> uuid \<times> string" where
  "ex_owner c = (if c < 10 then (1, ''phone'') else (2, ''laptop''))"

definition ex_channel :: "client \<Rightarrow> channel" where
  "ex_channel c = \<lparr>chan_buffer = [], chan_capacity = 256, chan_closed = False\<rparr>"

lemma new_hub_ok [simp]: "hub_ok owner (new_hub ch)"
  by (simp add: hub_ok_def new_hub_def)



text \<open>
  A reconnect crashes the hub. When a device connects again while its old connection is
  registered, the hub closes the old client's channel; the unregistration that the old
  connection's read loop sends on its way out then takes the new client out of the map and closes
  the old channel a second time, which panics.
\<close>

lemma reconnect_then_old_unregister_panics:
  assumes "hub_ok owner h" and "registered owner old h" and "owner new = owner old" and "new \<noteq> old"
    and "\<not> chan_closed (channels h new)"
  shows "\<exists>h'. register_client owner new h = HubOk h' \<and> registered owner new h' \<and>
    unregister_client owner old h' = HubPanic"
proof -
  have nr: "\<not> registered owner new h" using assms(2-4) by (auto simp: registered_def)
  have f: "find_client (fst (owner new)) (snd (owner new)) h = Some old"
    using assms(2,3) by (simp add: registered_def)
  from register_client_ok [OF assms(1,5) nr] f obtain h' where
    h': "register_client owner new h = HubOk h'" "registered owner new h'" "chan_closed (channels h' old)"
    by auto
  then have "unregister_client owner old h' = HubPanic"
    using assms(3) by (auto simp: unregister_client_def registered_def close_channel_def Let_def split: prod.splits)
  then show ?thesis using h' by blast
qed

theorem reconnect_then_old_unregister_panics_witness:
  "\<exists>h1 h2. register_client ex_owner 3 (new_hub ex_channel) = HubOk h1 \<and>
     register_client ex_owner 4 h1 = HubOk h2 \<and> unregister_client ex_owner 3 h2 = HubPanic"
proof -
  have "\<not> chan_closed (channels (new_hub ex_channel) 3)" "\<not> registered ex_owner 3 (new_hub ex_channel)"
    by (simp_all add: new_hub_def ex_channel_def registered_def find_client_def devices_of_def)
  from register_client_ok [OF new_hub_ok this] obtain h1 where
    h1: "register_client ex_owner 3 (new_hub ex_channel) = HubOk h1" "hub_ok ex_owner h1"
      "registered ex_owner 3 h1" by blast
  have o: "ex_owner 4 = ex_owner 3" "(4::client) \<noteq> 3" by (simp_all add: ex_owner_def)
  have "channels h1 = ex_channel"
    using h1(1) by (auto simp: register_client_def ex_owner_def new_hub_def find_client_def devices_of_def)
  then have "\<not> chan_closed (channels h1 4)" by (simp add: ex_channel_def)
  from reconnect_then_old_unregister_panics [OF h1(2,3) o this] h1(1) show ?thesis by blast
qed

text \<open>
  With redis a broadcast arrives twice. \<open>BroadcastToUser\<close> routes the event locally and
  publishes it; the hub subscribes to every user's channel, so it receives its own message and
  delivers it again. Each client of the user with room gets the event exactly twice, and no client
  of another user gets anything.
\<close>

lemma broadcast_with_redis_delivers_twice:
  assumes "hub_ok owner h" and "u \<noteq> uuid_nil" and "route_broadcast u [] data h = HubOk h1"
    and "handle_redis_message u data h1 = HubOk h2"
  shows "(c \<in> set (get_clients u h) \<and>
          length (chan_buffer (channels h c)) + 2 \<le> chan_capacity (channels h c) \<longrightarrow>
          chan_buffer (channels h2 c) = chan_buffer (channels h c) @ [data, data]) \<and>
    (c \<notin> set (get_clients u h) \<longrightarrow> channels h2 c = channels h c)"
proof -
  have g: "buffers_grow h h1" using route_broadcast_safe [OF assms(1)] assms(3) by blast
  have ok1: "hub_ok owner h1" using buffers_grow_ok [OF g assms(1)] .
  have s1: "send_all (get_clients u h) data h = HubOk h1"
    using assms(3) by (simp add: route_broadcast_def)
  have s2: "send_all (get_clients u h) data h1 = HubOk h2"
    using assms(2,4) get_clients_grow [OF g] by (simp add: handle_redis_message_def)
  have d: "distinct (get_clients u h)" using get_clients_distinct [OF assms(1)] .
  have o1: "\<forall>x \<in> set (get_clients u h). \<not> chan_closed (channels h x)"
    using get_clients_open [OF assms(1)] by blast
  have o2: "\<forall>x \<in> set (get_clients u h). \<not> chan_closed (channels h1 x)"
    using get_clients_open [OF ok1] get_clients_grow [OF g] by metis
  show ?thesis
    using send_all_delivers [OF d o1 s1, of c] send_all_delivers [OF d o2 s2, of c] by auto
qed

theorem broadcast_with_redis_delivers_twice_witness:
  "\<exists>h1 h2. route_broadcast 1 [] ''e'' \<lparr>connections = [(1, [(''phone'', 3)])], channels = ex_channel,
     unregister_queue = [], conn_closed = []\<rparr> = HubOk h1 \<and>
     handle_redis_message 1 ''e'' h1 = HubOk h2 \<and> chan_buffer (channels h2 3) = [''e'', ''e'']"
proof -
  let ?h = "\<lparr>connections = [(1::uuid, [(''phone'', 3)])], channels = ex_channel,
     unregister_queue = [], conn_closed = []\<rparr>"
  have ok: "hub_ok ex_owner ?h" by (simp add: hub_ok_def ex_owner_def ex_channel_def)
  obtain h1 where h1: "route_broadcast 1 [] ''e'' ?h = HubOk h1"
    using send_all_open [of "get_clients 1 ?h" ?h "''e''"] get_clients_open [OF ok]
    by (auto simp: route_broadcast_def)
  have ok1: "hub_ok ex_owner h1" using route_broadcast_safe [OF ok] h1 buffers_grow_ok [OF _ ok] by blast
  obtain h2 where h2: "handle_redis_message 1 ''e'' h1 = HubOk h2"
    using handle_redis_safe [OF ok1] by blast
  have "(1::uuid) \<noteq> uuid_nil" by simp
  from broadcast_with_redis_delivers_twice [OF ok this h1 h2, of 3] h1 h2 show ?thesis
    by (auto simp: get_clients_def devices_of_def ex_channel_def)
qed

end
