(* ===== verification/Notify_Dispatch.thy ===== *)
theory Notify_Dispatch
  imports Notify_Push Quiet_Hours Auth_Sessions Hub "HOL-Library.Multiset"
begin

text \<open>
  Notification dispatch: the tables of \<open>src/sync/internal/notify/store.go\<close> and \<open>preferences.go\<close>
  and the dispatcher of \<open>dispatcher.go\<close>. The push devices are the device sessions of the
  authentication service, quiet hours and push clients are those of their theories, and the hub is
  the one of the WebSocket service, whose broadcast channel the dispatcher fills. A statement that
  fails leaves the tables as they are.
\<close>

section \<open>State\<close>

record type_pref =
  tp_enabled :: bool
  tp_vibration :: bool
  tp_sound :: bool
  tp_badge :: bool

record user_prefs =
  up_user :: uuid
  up_enabled :: bool
  up_batch :: string
  up_interrupt :: string
  up_temporal :: string
  up_staging :: string
  up_quiet_enabled :: bool
  up_quiet_start :: "int option"
  up_quiet_end :: "int option"
  up_timezone :: string
  up_push :: bool
  up_ws :: bool
  up_email :: bool
  up_created :: instant
  up_updated :: instant

record deferred_notification =
  df_id :: uuid
  df_user :: uuid
  df_notification :: "notification option"
  df_type :: string
  df_scheduled :: instant
  df_processed :: "instant option"
  df_created :: instant

record ws_event =
  we_type :: string
  we_card :: uuid
  we_text :: string
  we_time :: instant

datatype push_call = PushCall string string uuid

record notify_world =
  nw_notifs :: "notification list"
  nw_deferred :: "deferred_notification list"
  nw_prefs :: "user_prefs list"
  nw_sessions :: "device_row list"
  nw_hub :: hub
  nw_broadcasts :: "(uuid \<times> ws_event) list"
  nw_calls :: "push_call list"

text \<open>
  The statements that can fail. The two preference reads of a dispatch are separate queries, as is
  the read of the quiet hours checker.
\<close>

datatype notify_stmt =
  InsertNotification | SelectNotification | UpdateSent | UpdateRead | SelectUnread | SelectDevices |
  ClearTokens string | ClearFCM string | ClearAPNS string | InsertDeferredRow | SelectDue |
  UpdateProcessed uuid | ReadPrefsQuiet | ReadPrefsMaster | ReadPrefsType | UpsertPrefs

record notify_env =
  ne_now :: instant
  ne_new_id :: uuid
  ne_deferred_id :: uuid
  ne_fails :: "notify_stmt \<Rightarrow> bool"
  ne_quiet :: quiet_config
  ne_zone :: "string \<Rightarrow> duration option"
  ne_local :: duration
  ne_text :: push_text
  ne_parse_uuid :: "string \<Rightarrow> uuid option"
  ne_encode_pref :: "type_pref \<Rightarrow> string"
  ne_decode_pref :: "string \<Rightarrow> type_pref option"
  ne_fcm :: fcm_client
  ne_apns :: apns_client

section \<open>Notifications\<close>

definition known_notification_type :: "string \<Rightarrow> bool" where
  "known_notification_type ty \<longleftrightarrow>
     ty \<in> {''batch'', ''interrupt'', ''temporal'', ''staging'', ''reminder''}"

text \<open>The table has the identifier as its primary key and checks the type.\<close>

definition insert_notification :: "notify_env \<Rightarrow> notification \<Rightarrow> notify_world \<Rightarrow> notify_world \<times> string option" where
  "insert_notification env n w =
     (if ne_fails env InsertNotification \<or> nt_id n \<in> nt_id ` set (nw_notifs w) \<or>
         \<not> known_notification_type (nt_type n)
      then (w, Some ''store: insert notification'')
      else (w\<lparr>nw_notifs := nw_notifs w @ [n\<lparr>nt_created := ne_now env\<rparr>]\<rparr>, None))"

definition get_notification :: "notify_env \<Rightarrow> uuid \<Rightarrow> notify_world \<Rightarrow> string + notification option" where
  "get_notification env nid w =
     (if ne_fails env SelectNotification then Inl ''store: get notification''
      else Inr (List.find (\<lambda>n. nt_id n = nid) (nw_notifs w)))"

definition mark_sent :: "notify_env \<Rightarrow> uuid \<Rightarrow> notify_world \<Rightarrow> notify_world \<times> string option" where
  "mark_sent env nid w =
     (if ne_fails env UpdateSent then (w, Some ''store: mark sent'')
      else if rows_matching (\<lambda>n. nt_id n = nid) (nw_notifs w) = 0
      then (w, Some (''store: notification not found: '' @ px_show_uuid (ne_text env) nid))
      else (w\<lparr>nw_notifs := update_rows (\<lambda>n. nt_id n = nid) (\<lambda>n. n\<lparr>nt_sent := Some (ne_now env)\<rparr>) (nw_notifs w)\<rparr>,
            None))"

definition mark_read :: "notify_env \<Rightarrow> uuid \<Rightarrow> notify_world \<Rightarrow> notify_world \<times> string option" where
  "mark_read env nid w =
     (if ne_fails env UpdateRead then (w, Some ''store: mark read'')
      else (w\<lparr>nw_notifs := update_rows (\<lambda>n. nt_id n = nid) (\<lambda>n. n\<lparr>nt_read := Some (ne_now env)\<rparr>) (nw_notifs w)\<rparr>,
            None))"

definition list_unread_by_user :: "notify_env \<Rightarrow> uuid \<Rightarrow> notify_world \<Rightarrow> string + notification list" where
  "list_unread_by_user env user w =
     (if ne_fails env SelectUnread then Inl ''store: list unread''
      else Inr (sort_key (\<lambda>n. - nt_created n)
             (filter (\<lambda>n. nt_user n = user \<and> nt_read n = None) (nw_notifs w))))"

section \<open>Device tokens\<close>

definition push_devices :: "uuid \<Rightarrow> device_row list \<Rightarrow> device_row list" where
  "push_devices user rs =
     sort_key (\<lambda>r. - ds_last r) (filter (\<lambda>r. ds_user r = user \<and> (ds_fcm r \<noteq> None \<or> ds_apns r \<noteq> None)) rs)"

definition get_devices :: "notify_env \<Rightarrow> uuid \<Rightarrow> notify_world \<Rightarrow> string + device_row list" where
  "get_devices env user w =
     (if ne_fails env SelectDevices then Inl ''store: get devices''
      else Inr (push_devices user (nw_sessions w)))"

definition remove_device_token :: "notify_env \<Rightarrow> uuid \<Rightarrow> string \<Rightarrow> notify_world \<Rightarrow> notify_world \<times> string option" where
  "remove_device_token env user dev w =
     (if ne_fails env (ClearTokens dev) then (w, Some ''store: remove device token'')
      else (w\<lparr>nw_sessions := update_rows (session_is user dev) (\<lambda>r. r\<lparr>ds_fcm := None, ds_apns := None\<rparr>) (nw_sessions w)\<rparr>,
            None))"

definition invalidate_fcm_token :: "notify_env \<Rightarrow> uuid \<Rightarrow> string \<Rightarrow> notify_world \<Rightarrow> notify_world \<times> string option" where
  "invalidate_fcm_token env user dev w =
     (if ne_fails env (ClearFCM dev) then (w, Some ''store: invalidate fcm token'')
      else (w\<lparr>nw_sessions := update_rows (session_is user dev) (\<lambda>r. r\<lparr>ds_fcm := None\<rparr>) (nw_sessions w)\<rparr>, None))"

definition invalidate_apns_token :: "notify_env \<Rightarrow> uuid \<Rightarrow> string \<Rightarrow> notify_world \<Rightarrow> notify_world \<times> string option" where
  "invalidate_apns_token env user dev w =
     (if ne_fails env (ClearAPNS dev) then (w, Some ''store: invalidate apns token'')
      else (w\<lparr>nw_sessions := update_rows (session_is user dev) (\<lambda>r. r\<lparr>ds_apns := None\<rparr>) (nw_sessions w)\<rparr>, None))"

section \<open>Deferred notifications\<close>

text \<open>
  The row holds the JSON of the notification, which decodes to the same notification; a row written
  by others need not decode (\<open>None\<close>).
\<close>

definition insert_deferred ::
  "notify_env \<Rightarrow> uuid \<Rightarrow> notification \<Rightarrow> instant \<Rightarrow> notify_world \<Rightarrow> notify_world \<times> string option" where
  "insert_deferred env user n scheduled w =
     (if ne_fails env InsertDeferredRow then (w, Some ''store: insert deferred notification'')
      else (w\<lparr>nw_deferred := nw_deferred w @
              [\<lparr>df_id = ne_deferred_id env, df_user = user, df_notification = Some n, df_type = nt_type n,
                df_scheduled = scheduled, df_processed = None, df_created = ne_now env\<rparr>]\<rparr>, None))"

definition get_due_deferred :: "notify_env \<Rightarrow> notify_world \<Rightarrow> string + deferred_notification list" where
  "get_due_deferred env w =
     (if ne_fails env SelectDue then Inl ''store: get due deferred''
      else Inr (take 100 (sort_key df_scheduled
             (filter (\<lambda>d. df_processed d = None \<and> df_scheduled d \<le> ne_now env) (nw_deferred w)))))"

definition mark_deferred_processed :: "notify_env \<Rightarrow> uuid \<Rightarrow> notify_world \<Rightarrow> notify_world \<times> string option" where
  "mark_deferred_processed env did w =
     (if ne_fails env (UpdateProcessed did) then (w, Some ''store: mark deferred processed'')
      else (w\<lparr>nw_deferred := update_rows (\<lambda>d. df_id d = did) (\<lambda>d. d\<lparr>df_processed := Some (ne_now env)\<rparr>) (nw_deferred w)\<rparr>,
            None))"

section \<open>Preferences\<close>

definition default_preferences :: "notify_env \<Rightarrow> uuid \<Rightarrow> user_prefs" where
  "default_preferences env user =
     (let pref = (\<lambda>vibration sound badge.
            ne_encode_pref env \<lparr>tp_enabled = True, tp_vibration = vibration, tp_sound = sound, tp_badge = badge\<rparr>)
      in \<lparr>up_user = user, up_enabled = True, up_batch = pref False True True, up_interrupt = pref True True True,
          up_temporal = pref False False True, up_staging = pref False True False, up_quiet_enabled = True,
          up_quiet_start = Some 22, up_quiet_end = Some 7, up_timezone = ''America/New_York'', up_push = True,
          up_ws = True, up_email = False, up_created = ne_now env, up_updated = ne_now env\<rparr>)"

definition get_preferences :: "notify_env \<Rightarrow> notify_stmt \<Rightarrow> uuid \<Rightarrow> notify_world \<Rightarrow> string + user_prefs" where
  "get_preferences env stmt user w =
     (if ne_fails env stmt then Inl ''prefs: get preferences''
      else (case List.find (\<lambda>p. up_user p = user) (nw_prefs w) of
              None \<Rightarrow> Inr (default_preferences env user) | Some p \<Rightarrow> Inr p))"

definition plain_type_pref :: type_pref where
  "plain_type_pref = \<lparr>tp_enabled = True, tp_vibration = False, tp_sound = True, tp_badge = True\<rparr>"

definition raw_type_pref :: "string \<Rightarrow> user_prefs \<Rightarrow> string" where
  "raw_type_pref ty p =
     (if ty = ''batch'' then up_batch p else if ty = ''interrupt'' then up_interrupt p
      else if ty = ''temporal'' then up_temporal p else if ty = ''staging'' then up_staging p else [])"

definition get_type_preference :: "notify_env \<Rightarrow> uuid \<Rightarrow> string \<Rightarrow> notify_world \<Rightarrow> string + type_pref" where
  "get_type_preference env user ty w =
     (case get_preferences env ReadPrefsType user w of
        Inl e \<Rightarrow> Inl e
      | Inr p \<Rightarrow>
          (let raw = raw_type_pref ty p
           in if raw = [] then Inr plain_type_pref
              else (case ne_decode_pref env raw of None \<Rightarrow> Inr plain_type_pref | Some tp \<Rightarrow> Inr tp)))"

definition is_master_enabled :: "notify_env \<Rightarrow> uuid \<Rightarrow> notify_world \<Rightarrow> string + bool" where
  "is_master_enabled env user w =
     (case get_preferences env ReadPrefsMaster user w of Inl e \<Rightarrow> Inl e | Inr p \<Rightarrow> Inr (up_enabled p))"

definition is_type_enabled :: "notify_env \<Rightarrow> uuid \<Rightarrow> string \<Rightarrow> notify_world \<Rightarrow> bool" where
  "is_type_enabled env user ty w =
     (case is_master_enabled env user w of
        Inl _ \<Rightarrow> False
      | Inr master \<Rightarrow>
          if \<not> master then False
          else (case get_type_preference env user ty w of Inl _ \<Rightarrow> True | Inr tp \<Rightarrow> tp_enabled tp))"

definition is_push_enabled :: "notify_env \<Rightarrow> uuid \<Rightarrow> notify_world \<Rightarrow> string + bool" where
  "is_push_enabled env user w =
     (case get_preferences env ReadPrefsMaster user w of Inl e \<Rightarrow> Inl e | Inr p \<Rightarrow> Inr (up_push p \<and> up_enabled p))"

definition is_ws_enabled :: "notify_env \<Rightarrow> uuid \<Rightarrow> notify_world \<Rightarrow> string + bool" where
  "is_ws_enabled env user w =
     (case get_preferences env ReadPrefsMaster user w of Inl e \<Rightarrow> Inl e | Inr p \<Rightarrow> Inr (up_ws p \<and> up_enabled p))"

text \<open>The upsert keeps the creation time of a row that exists.\<close>

definition set_preferences :: "notify_env \<Rightarrow> user_prefs \<Rightarrow> notify_world \<Rightarrow> notify_world \<times> string option" where
  "set_preferences env p w =
     (let p' = p\<lparr>up_updated := ne_now env,
                 up_created := (if up_created p = zero_time then ne_now env else up_created p)\<rparr>;
          mine = (\<lambda>r. up_user r = up_user p)
      in if ne_fails env UpsertPrefs then (w, Some ''prefs: set preferences'')
         else (w\<lparr>nw_prefs := (if rows_matching mine (nw_prefs w) = 0 then nw_prefs w @ [p']
                             else update_rows mine (\<lambda>r. p'\<lparr>up_created := up_created r\<rparr>) (nw_prefs w))\<rparr>, None))"

section \<open>Dispatch\<close>

definition get_priority :: "string \<Rightarrow> int" where
  "get_priority ty =
     (if ty = ''interrupt'' then 10 else if ty = ''batch'' then 5 else if ty = ''temporal'' then 3
      else if ty = ''staging'' then 2 else 1)"

definition queue_notification_priority :: "string \<Rightarrow> int" where
  "queue_notification_priority ty =
     (if ty = ''interrupt'' then 10 else if ty = ''batch'' then 5 else if ty = ''temporal'' then 3
      else if ty = ''staging'' then 2 else 1)"

record priority_entry =
  pe_priority :: int
  pe_bypass_quiet_hours :: bool
  pe_fcm_priority :: string
  pe_apns_priority :: int

definition priority_matrix :: "(string \<times> priority_entry) list" where
  "priority_matrix =
     [(''interrupt'', \<lparr>pe_priority = 10, pe_bypass_quiet_hours = True, pe_fcm_priority = ''high'', pe_apns_priority = 10\<rparr>),
      (''batch'', \<lparr>pe_priority = 5, pe_bypass_quiet_hours = False, pe_fcm_priority = ''normal'', pe_apns_priority = 5\<rparr>),
      (''temporal'', \<lparr>pe_priority = 3, pe_bypass_quiet_hours = False, pe_fcm_priority = ''normal'', pe_apns_priority = 5\<rparr>),
      (''staging'', \<lparr>pe_priority = 2, pe_bypass_quiet_hours = False, pe_fcm_priority = ''normal'', pe_apns_priority = 5\<rparr>)]"

definition quiet_prefs_of :: "user_prefs \<Rightarrow> quiet_prefs" where
  "quiet_prefs_of p =
     \<lparr>pref_quiet_enabled = up_quiet_enabled p, pref_quiet_start = up_quiet_start p,
      pref_quiet_end = up_quiet_end p, pref_timezone = up_timezone p\<rparr>"

definition quiet_env_of :: "notify_env \<Rightarrow> notify_world \<Rightarrow> quiet_env" where
  "quiet_env_of env w =
     \<lparr>qe_now = ne_now env,
      qe_prefs = (\<lambda>u. case get_preferences env ReadPrefsQuiet u w of Inl _ \<Rightarrow> None | Inr p \<Rightarrow> Some (quiet_prefs_of p)),
      qe_zone = ne_zone env, qe_local = ne_local env\<rparr>"

text \<open>
  One goroutine per device. The first component is the world, the second the number of errors sent
  to the error channel.
\<close>

definition log_call :: "push_call \<Rightarrow> notify_world \<Rightarrow> notify_world" where
  "log_call c w = w\<lparr>nw_calls := nw_calls w @ [c]\<rparr>"

definition fcm_calls :: "notify_env \<Rightarrow> string \<Rightarrow> notification \<Rightarrow> notify_world \<Rightarrow> notify_world" where
  "fcm_calls env t n w = (if ne_fcm env = None then w else log_call (PushCall ''android'' t (nt_id n)) w)"

definition apns_calls :: "notify_env \<Rightarrow> string \<Rightarrow> notification \<Rightarrow> notify_world \<Rightarrow> notify_world" where
  "apns_calls env t n w =
     (if ac_enabled (ne_apns env) \<and> ac_http (ne_apns env) \<noteq> None then log_call (PushCall ''ios'' t (nt_id n)) w else w)"

definition dispatch_device :: "notify_env \<Rightarrow> notification \<Rightarrow> device_row \<Rightarrow> notify_world \<times> nat \<Rightarrow> notify_world \<times> nat" where
  "dispatch_device env n d s =
     (case s of (w, errs) \<Rightarrow>
        if ds_type d = ''android'' then
          (case ds_fcm d of
             None \<Rightarrow> (w, errs)
           | Some t \<Rightarrow>
               if t = [] then (w, errs)
               else (case fcm_send (ne_text env) (ne_fcm env) t n of
                       None \<Rightarrow> (fcm_calls env t n w, errs)
                     | Some e \<Rightarrow>
                         ((if is_err_invalid_token e
                           then fst (invalidate_fcm_token env (ds_user d) (ds_device d) (fcm_calls env t n w))
                           else fcm_calls env t n w), errs + 1)))
        else if ds_type d = ''ios'' then
          (case ds_apns d of
             None \<Rightarrow> (w, errs)
           | Some t \<Rightarrow>
               if t = [] then (w, errs)
               else (case apns_send (ne_text env) (ne_apns env) (ne_now env) t n of
                       None \<Rightarrow> (apns_calls env t n w, errs)
                     | Some e \<Rightarrow>
                         ((if is_err_invalid_token e
                           then fst (invalidate_apns_token env (ds_user d) (ds_device d) (apns_calls env t n w))
                           else apns_calls env t n w), errs + 1)))
        else (w, errs + 1))"

definition dispatch_to_devices ::
  "notify_env \<Rightarrow> notification \<Rightarrow> device_row list \<Rightarrow> notify_world \<Rightarrow> notify_world \<times> string option" where
  "dispatch_to_devices env n ds w =
     (case fold (dispatch_device env n) ds (w, 0) of (w', errs) \<Rightarrow>
        (w', if 0 < errs then Some (''dispatch devices: '' @ nat_decimal errs @ '' failures'') else None))"

text \<open>\<open>BroadcastToUser\<close>: a message for the hub's broadcast channel, refused when the channel is full.\<close>

abbreviation (input) broadcast_capacity :: nat where
  "broadcast_capacity \<equiv> 256"

definition broadcast_to_user :: "uuid \<Rightarrow> ws_event \<Rightarrow> notify_world \<Rightarrow> notify_world \<times> string option" where
  "broadcast_to_user user ev w =
     (if length (nw_broadcasts w) < broadcast_capacity
      then (w\<lparr>nw_broadcasts := nw_broadcasts w @ [(user, ev)]\<rparr>, None)
      else (w, Some ''hub broadcast channel full''))"

definition data_card_id :: "notify_env \<Rightarrow> notification \<Rightarrow> uuid" where
  "data_card_id env n =
     (case nt_data n of
        None \<Rightarrow> uuid_nil
      | Some d \<Rightarrow>
          (case decode_object d of
             None \<Rightarrow> uuid_nil
           | Some ms \<Rightarrow>
               (case map_of ms ''card_id'' of
                  Some (JStr s) \<Rightarrow> (case ne_parse_uuid env s of Some c \<Rightarrow> c | None \<Rightarrow> uuid_nil)
                | _ \<Rightarrow> uuid_nil)))"

definition dispatch_to_web_socket :: "notify_env \<Rightarrow> notification \<Rightarrow> notify_world \<Rightarrow> notify_world" where
  "dispatch_to_web_socket env n w =
     fst (broadcast_to_user (nt_user n)
       \<lparr>we_type = nt_type n, we_card = data_card_id env n,
        we_text = (case nt_data n of None \<Rightarrow> [] | Some d \<Rightarrow> px_marshal (ne_text env) d), we_time = ne_now env\<rparr> w)"

text \<open>\<open>Dispatch\<close> gives the notification an identifier and the insertion its time of creation.\<close>

definition stamped :: "notify_env \<Rightarrow> notification \<Rightarrow> notification" where
  "stamped env n =
     n\<lparr>nt_id := (if nt_id n = uuid_nil then ne_new_id env else nt_id n), nt_created := ne_now env\<rparr>"

definition route_to_channels :: "notify_env \<Rightarrow> notification \<Rightarrow> device_row list \<Rightarrow> notify_world \<Rightarrow> notify_world" where
  "route_to_channels env n ds w =
     (let w1 = (if ds = [] then w else fst (dispatch_to_devices env n ds w))
      in if is_user_online (nt_user n) (nw_hub w1) then dispatch_to_web_socket env n w1 else w1)"

definition deliver :: "notify_env \<Rightarrow> notification \<Rightarrow> notify_world \<Rightarrow> notify_world \<times> string option" where
  "deliver env n w =
     (case get_devices env (nt_user n) w of
        Inl e \<Rightarrow> (w, Some (''dispatch: get devices: '' @ e))
      | Inr ds \<Rightarrow> (fst (mark_sent env (nt_id n) (route_to_channels env n ds w)), None))"

definition dispatch :: "notify_env \<Rightarrow> notification \<Rightarrow> notify_world \<Rightarrow> notify_world \<times> string option" where
  "dispatch env n0 w =
     (let n = stamped env n0
      in (case insert_notification env n w of
            (w1, Some e) \<Rightarrow> (w1, Some (''dispatch: persist: '' @ e))
          | (w1, None) \<Rightarrow>
              (case should_defer (ne_quiet env) (quiet_env_of env w1) (nt_user n) (get_priority (nt_type n)) of
                 (True, resume) \<Rightarrow> (fst (insert_deferred env (nt_user n) n resume w1), None)
               | (False, _) \<Rightarrow>
                   if \<not> is_type_enabled env (nt_user n) (nt_type n) w1 then mark_sent env (nt_id n) w1
                   else deliver env n w1)))"

definition dispatch_batch ::
  "notify_env \<Rightarrow> build_env \<Rightarrow> uuid \<Rightarrow> int \<Rightarrow> int \<Rightarrow> notify_world \<Rightarrow> notify_world \<times> string option" where
  "dispatch_batch env be user waiting minutes w = dispatch env (build_batch be user waiting minutes) w"

definition dispatch_interrupt ::
  "notify_env \<Rightarrow> build_env \<Rightarrow> uuid \<Rightarrow> decision_card \<Rightarrow> notify_world \<Rightarrow> notify_world \<times> string option" where
  "dispatch_interrupt env be user c w = dispatch env (build_interrupt be user c) w"

text \<open>Each row of \<open>ProcessDeferred\<close> is handled in its own environment.\<close>

definition process_one :: "notify_env \<Rightarrow> deferred_notification \<Rightarrow> notify_world \<Rightarrow> notify_world" where
  "process_one env d w =
     (case df_notification d of
        None \<Rightarrow> fst (mark_deferred_processed env (df_id d) w)
      | Some n \<Rightarrow>
          (case dispatch env n w of
             (w', Some _) \<Rightarrow> w'
           | (w', None) \<Rightarrow> fst (mark_deferred_processed env (df_id d) w')))"

definition process_deferred ::
  "notify_env \<Rightarrow> (uuid \<Rightarrow> notify_env) \<Rightarrow> notify_world \<Rightarrow> notify_world \<times> string option" where
  "process_deferred env envs w =
     (case get_due_deferred env w of
        Inl e \<Rightarrow> (w, Some (''process deferred: '' @ e))
      | Inr ds \<Rightarrow> (fold (\<lambda>d. process_one (envs (df_id d)) d) ds w, None))"

section \<open>Frames\<close>

text \<open>Fetching and sending only adds calls and clears tokens; the tables of notifications stay.\<close>

definition same_notifications :: "notify_world \<Rightarrow> notify_world \<Rightarrow> bool" where
  "same_notifications w w' \<longleftrightarrow>
     nw_notifs w' = nw_notifs w \<and> nw_deferred w' = nw_deferred w \<and> nw_prefs w' = nw_prefs w \<and> nw_hub w' = nw_hub w"

lemma same_notifications_refl [simp]: "same_notifications w w"
  by (simp add: same_notifications_def)

lemma same_notifications_trans:
  "same_notifications u v \<Longrightarrow> same_notifications v w \<Longrightarrow> same_notifications u w"
  by (simp add: same_notifications_def)

lemma same_notifications_steps [simp]:
  "same_notifications w (fst (invalidate_fcm_token env u d w))"
  "same_notifications w (fst (invalidate_apns_token env u d w))"
  "same_notifications w (fcm_calls env t n w)" "same_notifications w (apns_calls env t n w)"
  "same_notifications w (fst (broadcast_to_user u ev w))" "same_notifications w (dispatch_to_web_socket env n w)"
  by (auto simp: same_notifications_def invalidate_fcm_token_def invalidate_apns_token_def fcm_calls_def
      apns_calls_def log_call_def broadcast_to_user_def dispatch_to_web_socket_def)

lemma same_notifications_after [intro]:
  assumes "same_notifications u w"
  shows "same_notifications u (fst (invalidate_fcm_token env v d w))"
    and "same_notifications u (fst (invalidate_apns_token env v d w))"
    and "same_notifications u (fcm_calls env t n w)" and "same_notifications u (apns_calls env t n w)"
    and "same_notifications u (dispatch_to_web_socket env n w)"
  by (rule same_notifications_trans [OF assms], simp)+

lemma dispatch_device_same: "same_notifications (fst s) (fst (dispatch_device env n d s))"
  by (cases s) (auto simp: dispatch_device_def split: option.splits)

lemma fold_dispatch_device_same: "same_notifications (fst s) (fst (fold (dispatch_device env n) ds s))"
proof (induction ds arbitrary: s)
  case (Cons d ds)
  from same_notifications_trans [OF dispatch_device_same Cons.IH] show ?case by simp
qed simp

lemma dispatch_to_devices_same: "same_notifications w (fst (dispatch_to_devices env n ds w))"
  using fold_dispatch_device_same [of "(w, 0)" env n ds]
  by (auto simp: dispatch_to_devices_def split: prod.splits)

lemma route_to_channels_same: "same_notifications w (route_to_channels env n ds w)"
  using same_notifications_trans [OF dispatch_to_devices_same same_notifications_steps(6)]
  by (simp add: route_to_channels_def dispatch_to_devices_same Let_def)

section \<open>Rows that stay\<close>

text \<open>Every deferred row holds a notification that is stored already.\<close>

definition deferred_stored :: "notify_world \<Rightarrow> bool" where
  "deferred_stored w \<longleftrightarrow>
     (\<forall>d \<in> set (nw_deferred w). \<exists>n. df_notification d = Some n \<and> nt_id n \<in> nt_id ` set (nw_notifs w) \<and>
        nt_id n \<noteq> uuid_nil)"

lemma dispatch_known_id:
  assumes "nt_id n \<in> nt_id ` set (nw_notifs w)" "nt_id n \<noteq> uuid_nil"
  shows "\<exists>e. dispatch env n w = (w, Some e)"
  using assms by (simp add: dispatch_def insert_notification_def stamped_def)

lemma ids_update_rows [simp]:
  "nt_id ` set (update_rows p (\<lambda>n. n\<lparr>nt_sent := x\<rparr>) ns) = nt_id ` set ns"
  "nt_id ` set (update_rows p (\<lambda>n. n\<lparr>nt_read := y\<rparr>) ns) = nt_id ` set ns"
  unfolding update_rows_def set_map image_image by (rule image_cong; simp)+

lemma mark_sent_frame:
  "nw_deferred (fst (mark_sent env i w)) = nw_deferred w"
  "nt_id ` set (nw_notifs (fst (mark_sent env i w))) = nt_id ` set (nw_notifs w)"
  by (auto simp: mark_sent_def)

lemma deliver_frame:
  "nw_deferred (fst (deliver env n w)) = nw_deferred w \<and>
   nt_id ` set (nw_notifs (fst (deliver env n w))) = nt_id ` set (nw_notifs w)"
proof (cases "get_devices env (nt_user n) w")
  case (Inr ds)
  then show ?thesis
    using mark_sent_frame [of env "nt_id n" "route_to_channels env n ds w"] route_to_channels_same [of w env n ds]
    by (simp add: deliver_def same_notifications_def)
qed (simp add: deliver_def)

text \<open>A dispatch adds at most its own row and at most its own deferral.\<close>

lemma dispatch_frame:
  assumes "dispatch env n w = (w', r)"
  shows "nt_id ` set (nw_notifs w) \<subseteq> nt_id ` set (nw_notifs w')"
    and "nw_deferred w' = nw_deferred w \<or>
      (\<exists>t. nt_id (stamped env n) \<in> nt_id ` set (nw_notifs w') \<and>
        nw_deferred w' = nw_deferred w @
          [\<lparr>df_id = ne_deferred_id env, df_user = nt_user n, df_notification = Some (stamped env n),
            df_type = nt_type n, df_scheduled = t, df_processed = None, df_created = ne_now env\<rparr>])"
proof -
  let ?n = "stamped env n"
  obtain w1 e where i: "insert_notification env ?n w = (w1, e)" by fastforce
  have w1: "nw_deferred w1 = nw_deferred w" "nt_id ` set (nw_notifs w) \<subseteq> nt_id ` set (nw_notifs w1)"
    "e = None \<Longrightarrow> nt_id ?n \<in> nt_id ` set (nw_notifs w1)"
    using i by (auto simp: insert_notification_def split: if_splits)
  have s: "nt_user ?n = nt_user n" "nt_type ?n = nt_type n" by (simp_all add: stamped_def)
  consider (failed) "w' = w1" | (deferred) t where "e = None" "w' = fst (insert_deferred env (nt_user n) ?n t w1)"
    | (dropped) "w' = fst (mark_sent env (nt_id ?n) w1)" | (sent) "w' = fst (deliver env ?n w1)"
    using assms i s by (auto simp: dispatch_def Let_def split: option.splits prod.splits bool.splits if_splits)
  then have "nt_id ` set (nw_notifs w1) \<subseteq> nt_id ` set (nw_notifs w') \<and>
    (nw_deferred w' = nw_deferred w1 \<or>
      (\<exists>t. nt_id ?n \<in> nt_id ` set (nw_notifs w') \<and>
        nw_deferred w' = nw_deferred w1 @
          [\<lparr>df_id = ne_deferred_id env, df_user = nt_user n, df_notification = Some ?n,
            df_type = nt_type n, df_scheduled = t, df_processed = None, df_created = ne_now env\<rparr>]))"
  proof cases
    case (deferred t)
    then show ?thesis using w1(3) s by (auto simp: insert_deferred_def)
  next
    case dropped
    then show ?thesis by (simp add: mark_sent_frame)
  next
    case sent
    then show ?thesis by (simp add: deliver_frame)
  qed simp
  then show "nt_id ` set (nw_notifs w) \<subseteq> nt_id ` set (nw_notifs w')"
    "nw_deferred w' = nw_deferred w \<or>
      (\<exists>t. nt_id ?n \<in> nt_id ` set (nw_notifs w') \<and>
        nw_deferred w' = nw_deferred w @
          [\<lparr>df_id = ne_deferred_id env, df_user = nt_user n, df_notification = Some ?n,
            df_type = nt_type n, df_scheduled = t, df_processed = None, df_created = ne_now env\<rparr>])"
    using w1(1,2) by auto
qed

lemma dispatch_deferred_stored:
  assumes "dispatch env n w = (w', r)" "deferred_stored w" "ne_new_id env \<noteq> uuid_nil"
  shows "deferred_stored w'"
proof -
  have old: "\<exists>n. df_notification d = Some n \<and> nt_id n \<in> nt_id ` set (nw_notifs w') \<and> nt_id n \<noteq> uuid_nil"
    if "d \<in> set (nw_deferred w)" for d
    using that assms(2) dispatch_frame(1) [OF assms(1)] unfolding deferred_stored_def by blast
  have new: "nt_id (stamped env n) \<noteq> uuid_nil" using assms(3) by (simp add: stamped_def)
  from dispatch_frame(2) [OF assms(1)] show ?thesis
    unfolding deferred_stored_def using old new by (elim disjE exE conjE) auto
qed

text \<open>The system: dispatches and sweeps in any environment, reads, and whatever else the service does.\<close>

inductive notify_step :: "notify_world \<Rightarrow> notify_world \<Rightarrow> bool" where
  Dispatched: "ne_new_id env \<noteq> uuid_nil \<Longrightarrow> dispatch env n w = (w', r) \<Longrightarrow> notify_step w w'"
| Swept: "process_deferred env envs w = (w', r) \<Longrightarrow> notify_step w w'"
| MarkedRead: "mark_read env i w = (w', r) \<Longrightarrow> notify_step w w'"
| PrefsSet: "set_preferences env p w = (w', r) \<Longrightarrow> notify_step w w'"
| Surroundings: "notify_step w (w\<lparr>nw_sessions := ds, nw_hub := h, nw_broadcasts := bs\<rparr>)"

lemma process_one_stuck:
  "deferred_stored w \<Longrightarrow> d \<in> set (nw_deferred w) \<Longrightarrow> process_one env d w = w"
  using dispatch_known_id [of _ w env] by (fastforce simp: deferred_stored_def process_one_def)

lemma process_deferred_stuck:
  assumes "deferred_stored w"
  shows "fst (process_deferred env envs w) = w"
proof (cases "get_due_deferred env w")
  case (Inr ds)
  then have "set ds \<subseteq> set (nw_deferred w)"
    by (auto simp: get_due_deferred_def split: if_splits dest: in_set_takeD)
  then have "fold (\<lambda>d. process_one (envs (df_id d)) d) ds w = w"
    using process_one_stuck [OF assms] by (induction ds) auto
  with Inr show ?thesis by (simp add: process_deferred_def)
qed (simp add: process_deferred_def)

lemma notify_step_deferred_stored: "notify_step w w' \<Longrightarrow> deferred_stored w \<Longrightarrow> deferred_stored w'"
proof (induction rule: notify_step.induct)
  case (Dispatched env n w w' r)
  then show ?case using dispatch_deferred_stored by blast
next
  case (Swept env envs w w' r)
  then show ?case using process_deferred_stuck by (metis fst_conv)
next
  case (MarkedRead env i w w' r)
  then show ?case by (auto simp: mark_read_def deferred_stored_def split: if_splits)
next
  case (PrefsSet env p w w' r)
  then show ?case by (auto simp: set_preferences_def deferred_stored_def Let_def split: if_splits)
qed (simp add: deferred_stored_def)

text \<open>
  C35: A deferred notification is never delivered. The row of a deferral holds a notification that
  dispatch has stored before, and the sweep dispatches it again, which fails on the primary key
  before anything is sent. However the service has run, a sweep changes nothing: no push, no
  broadcast, no row marked processed, in no environment.
\<close>

theorem deferred_never_delivered:
  assumes "notify_step\<^sup>*\<^sup>* w w'" "nw_deferred w = []"
  shows "fst (process_deferred env envs w') = w'"
proof -
  have "deferred_stored w" using assms(2) by (simp add: deferred_stored_def)
  with assms(1) have "deferred_stored w'"
    by (induction rule: rtranclp_induct) (auto intro: notify_step_deferred_stored)
  then show ?thesis by (rule process_deferred_stuck)
qed

section \<open>Sending to devices\<close>

text \<open>What one goroutine does: a call of its client, a cleared token, an error.\<close>

definition device_push :: "notify_env \<Rightarrow> notification \<Rightarrow> device_row \<Rightarrow> push_error option" where
  "device_push env n d =
     (if ds_type d = ''android'' then
        (case ds_fcm d of None \<Rightarrow> None
         | Some t \<Rightarrow> if t = [] then None else fcm_send (ne_text env) (ne_fcm env) t n)
      else if ds_type d = ''ios'' then
        (case ds_apns d of None \<Rightarrow> None
         | Some t \<Rightarrow> if t = [] then None else apns_send (ne_text env) (ne_apns env) (ne_now env) t n)
      else Some (PushError ''unknown device type''))"

definition calls_for :: "notify_env \<Rightarrow> notification \<Rightarrow> device_row \<Rightarrow> push_call list" where
  "calls_for env n d =
     (if ds_type d = ''android'' then
        (case ds_fcm d of None \<Rightarrow> []
         | Some t \<Rightarrow> if t = [] \<or> ne_fcm env = None then [] else [PushCall ''android'' t (nt_id n)])
      else if ds_type d = ''ios'' then
        (case ds_apns d of None \<Rightarrow> []
         | Some t \<Rightarrow> if t = [] \<or> \<not> ac_enabled (ne_apns env) \<or> ac_http (ne_apns env) = None then []
                   else [PushCall ''ios'' t (nt_id n)])
      else [])"

definition clears_for :: "notify_env \<Rightarrow> notification \<Rightarrow> device_row \<Rightarrow> device_row list \<Rightarrow> device_row list" where
  "clears_for env n d rs =
     (case device_push env n d of
        None \<Rightarrow> rs
      | Some e \<Rightarrow>
          if \<not> is_err_invalid_token e then rs
          else if ds_type d = ''android'' then
            (if ne_fails env (ClearFCM (ds_device d)) then rs
             else update_rows (session_is (ds_user d) (ds_device d)) (\<lambda>r. r\<lparr>ds_fcm := None\<rparr>) rs)
          else if ne_fails env (ClearAPNS (ds_device d)) then rs
          else update_rows (session_is (ds_user d) (ds_device d)) (\<lambda>r. r\<lparr>ds_apns := None\<rparr>) rs)"

definition errors_for :: "notify_env \<Rightarrow> notification \<Rightarrow> device_row \<Rightarrow> nat" where
  "errors_for env n d = (if device_push env n d = None then 0 else 1)"

lemma dispatch_device_effect:
  "dispatch_device env n d (w, errs) =
     (w\<lparr>nw_sessions := clears_for env n d (nw_sessions w), nw_calls := nw_calls w @ calls_for env n d\<rparr>,
      errs + errors_for env n d)"
  by (auto simp: dispatch_device_def device_push_def calls_for_def clears_for_def errors_for_def
      fcm_calls_def apns_calls_def log_call_def invalidate_fcm_token_def invalidate_apns_token_def
      is_err_invalid_token_def split: option.splits)

lemma fold_dispatch_device_effect:
  "fold (dispatch_device env n) ds (w, errs) =
     (w\<lparr>nw_sessions := fold (clears_for env n) ds (nw_sessions w),
        nw_calls := nw_calls w @ concat (map (calls_for env n) ds)\<rparr>,
      errs + sum_list (map (errors_for env n) ds))"
  by (induction ds arbitrary: w errs) (auto simp: dispatch_device_effect)

lemma update_rows_commute:
  assumes "\<And>r. p (g r) = p r" "\<And>r. q (f r) = q r" "\<And>r. f (g r) = g (f r)"
  shows "update_rows p f (update_rows q g rs) = update_rows q g (update_rows p f rs)"
  using assms by (simp add: update_rows_def)

lemma clears_for_commute: "clears_for env n d (clears_for env n d' rs) = clears_for env n d' (clears_for env n d rs)"
  by (auto simp: clears_for_def session_is_def intro!: update_rows_commute split: option.splits)

text \<open>
  The goroutines of a dispatch do not depend on their order. Whichever order the devices of a
  notification are served in, the same tokens are cleared, the same error is returned and the same
  calls are made, up to the order of the calls.
\<close>

lemma device_sends_commute:
  assumes "mset ds = mset ds'" "dispatch_to_devices env n ds w = (v, r)" "dispatch_to_devices env n ds' w = (v', r')"
  shows "v'\<lparr>nw_calls := nw_calls v\<rparr> = v \<and> mset (nw_calls v') = mset (nw_calls v) \<and> r' = r"
proof -
  have clears: "fold (clears_for env n) ds = fold (clears_for env n) ds'"
    by (rule fold_multiset_equiv [OF _ assms(1)]) (auto simp: fun_eq_iff clears_for_commute)
  have "mset (map (errors_for env n) ds) = mset (map (errors_for env n) ds')" using assms(1) by simp
  then have errs: "sum_list (map (errors_for env n) ds) = sum_list (map (errors_for env n) ds')"
    by (metis sum_mset_sum_list)
  have calls: "mset (concat (map (calls_for env n) ds)) = mset (concat (map (calls_for env n) ds'))"
    using assms(1) by (simp add: mset_concat) (metis mset_map sum_mset_sum_list)
  show ?thesis
    using assms(2,3) clears errs calls
    by (auto simp: dispatch_to_devices_def fold_dispatch_device_effect)
qed

section \<open>A dispatch that goes through\<close>

lemma get_preferences_insert: "get_preferences env st u (w\<lparr>nw_notifs := ns\<rparr>) = get_preferences env st u w"
  by (simp add: get_preferences_def)

lemma quiet_env_insert:
  "quiet_env_of env (w\<lparr>nw_notifs := ns\<rparr>) = quiet_env_of env w"
  by (simp add: quiet_env_of_def get_preferences_insert)

lemma is_type_enabled_insert:
  "is_type_enabled env u ty (w\<lparr>nw_notifs := ns\<rparr>) = is_type_enabled env u ty w"
proof -
  have "get_type_preference env u ty (w\<lparr>nw_notifs := ns\<rparr>) = get_type_preference env u ty w"
    by (simp add: get_type_preference_def get_preferences_insert)
  then show ?thesis
    by (simp only: is_type_enabled_def is_master_enabled_def get_preferences_insert)
qed

definition event_of :: "notify_env \<Rightarrow> notification \<Rightarrow> ws_event" where
  "event_of env n =
     \<lparr>we_type = nt_type n, we_card = data_card_id env n,
      we_text = (case nt_data n of None \<Rightarrow> [] | Some d \<Rightarrow> px_marshal (ne_text env) d), we_time = ne_now env\<rparr>"

lemma route_to_channels_effect:
  "route_to_channels env n ds w =
     w\<lparr>nw_sessions := fold (clears_for env n) ds (nw_sessions w),
       nw_calls := nw_calls w @ concat (map (calls_for env n) ds),
       nw_broadcasts := nw_broadcasts w @
         (if is_user_online (nt_user n) (nw_hub w) \<and> length (nw_broadcasts w) < broadcast_capacity
          then [(nt_user n, event_of env n)] else [])\<rparr>"
  by (cases "ds = []")
    (auto simp: route_to_channels_def dispatch_to_devices_def fold_dispatch_device_effect dispatch_to_web_socket_def
      broadcast_to_user_def event_of_def Let_def)

text \<open>
  A dispatch reaches every device once. When the notification is new, of a known type, enabled
  and not deferred (an interrupt never is) and its statements succeed, each device session of the
  user with a token of its platform gets exactly one push, an online user gets one event while the
  broadcast channel has room, and the notification is stored as sent.
\<close>

lemma dispatch_reaches_every_device:
  assumes "nt_id (stamped env n) \<notin> nt_id ` set (nw_notifs w)" "known_notification_type (nt_type n)"
    and "\<not> ne_fails env InsertNotification" "\<not> ne_fails env SelectDevices" "\<not> ne_fails env UpdateSent"
    and "nt_type n = ''interrupt'' \<or> \<not> is_quiet_hours (ne_quiet env) (quiet_env_of env w) (nt_user n)"
    and "is_type_enabled env (nt_user n) (nt_type n) w"
  shows "\<exists>w'. dispatch env n w = (w', None) \<and>
    nw_notifs w' = nw_notifs w @ [(stamped env n)\<lparr>nt_sent := Some (ne_now env)\<rparr>] \<and>
    nw_calls w' = nw_calls w @
      concat (map (calls_for env (stamped env n)) (push_devices (nt_user n) (nw_sessions w))) \<and>
    nw_broadcasts w' = nw_broadcasts w @
      (if is_user_online (nt_user n) (nw_hub w) \<and> length (nw_broadcasts w) < broadcast_capacity
       then [(nt_user n, event_of env (stamped env n))] else []) \<and>
    nw_deferred w' = nw_deferred w"
proof -
  let ?n = "stamped env n"
  let ?w1 = "w\<lparr>nw_notifs := nw_notifs w @ [?n]\<rparr>"
  have n: "nt_user ?n = nt_user n" "nt_type ?n = nt_type n" "?n\<lparr>nt_created := ne_now env\<rparr> = ?n"
    by (simp_all add: stamped_def)
  have i: "insert_notification env ?n w = (?w1, None)"
    using assms(1-3) n by (simp add: insert_notification_def)
  have d: "should_defer (ne_quiet env) (quiet_env_of env ?w1) (nt_user n) (get_priority (nt_type n)) = (False, zero_time)"
    using assms(6) by (auto simp: should_defer_def quiet_env_insert get_priority_def)
  have e: "is_type_enabled env (nt_user n) (nt_type n) ?w1" using assms(7) by (simp add: is_type_enabled_insert)
  have old: "update_rows (\<lambda>m. nt_id m = nt_id ?n) (\<lambda>m. m\<lparr>nt_sent := Some (ne_now env)\<rparr>) (nw_notifs w) = nw_notifs w"
    using assms(1) by (intro update_rows_no_match) (force simp: image_iff)
  show ?thesis
    using i d e assms(4,5) old
    by (auto simp: dispatch_def Let_def n deliver_def get_devices_def route_to_channels_effect mark_sent_def
        update_rows_def rows_matching_def)
qed

section \<open>Switches without effect\<close>

text \<open>
  The preferences have switches for push and WebSocket delivery; no dispatch reads them.
\<close>

definition set_switches :: "bool \<Rightarrow> bool \<Rightarrow> notify_world \<Rightarrow> notify_world" where
  "set_switches a b w = w\<lparr>nw_prefs := map (\<lambda>p. p\<lparr>up_push := a, up_ws := b\<rparr>) (nw_prefs w)\<rparr>"

lemma get_preferences_switches:
  "get_preferences env st u (set_switches a b w) =
     (case get_preferences env st u w of
        Inl e \<Rightarrow> Inl e
      | Inr p \<Rightarrow> Inr (if List.find (\<lambda>p. up_user p = u) (nw_prefs w) = None then p else p\<lparr>up_push := a, up_ws := b\<rparr>))"
  by (auto simp: get_preferences_def set_switches_def find_map_key split: option.splits)

lemma readers_switches:
  "is_type_enabled env u ty (set_switches a b w) = is_type_enabled env u ty w"
  "quiet_env_of env (set_switches a b w) = quiet_env_of env w"
  by (auto simp: is_type_enabled_def is_master_enabled_def get_type_preference_def get_preferences_switches
      raw_type_pref_def quiet_env_of_def quiet_prefs_of_def fun_eq_iff Let_def split: sum.splits)

lemma writers_switches:
  "insert_notification env n (set_switches a b w) = apfst (set_switches a b) (insert_notification env n w)"
  "insert_deferred env u n t (set_switches a b w) = apfst (set_switches a b) (insert_deferred env u n t w)"
  "mark_sent env i (set_switches a b w) = apfst (set_switches a b) (mark_sent env i w)"
  "get_devices env u (set_switches a b w) = get_devices env u w"
  "route_to_channels env n ds (set_switches a b w) = set_switches a b (route_to_channels env n ds w)"
  by (simp_all add: insert_notification_def insert_deferred_def mark_sent_def get_devices_def
      route_to_channels_effect set_switches_def)

lemma deliver_switches:
  "deliver env n (set_switches a b w) = apfst (set_switches a b) (deliver env n w)"
  by (cases "get_devices env (nt_user n) w") (simp_all add: deliver_def writers_switches)

lemma dispatch_ignores_switches:
  "dispatch env n (set_switches a b w) = apfst (set_switches a b) (dispatch env n w)"
proof -
  obtain w1 e where i: "insert_notification env (stamped env n) w = (w1, e)" by fastforce
  obtain d t where q: "should_defer (ne_quiet env) (quiet_env_of env w1) (nt_user (stamped env n))
      (get_priority (nt_type (stamped env n))) = (d, t)" by fastforce
  show ?thesis
    by (cases e; cases d)
      (simp_all add: dispatch_def Let_def i q writers_switches readers_switches deliver_switches)
qed

text \<open>
  A deferral that fails is reported as success although nothing is scheduled: the notification stays
  in its table, never sent.
\<close>

lemma failed_deferral_is_lost:
  assumes "ne_fails env InsertDeferredRow" "\<not> ne_fails env InsertNotification"
    and "nt_id (stamped env n) \<notin> nt_id ` set (nw_notifs w)" "known_notification_type (nt_type n)"
    and "nt_type n \<noteq> ''interrupt''" "is_quiet_hours (ne_quiet env) (quiet_env_of env w) (nt_user n)"
  shows "dispatch env n w = (w\<lparr>nw_notifs := nw_notifs w @ [stamped env n]\<rparr>, None)"
proof -
  have n: "nt_user (stamped env n) = nt_user n" "nt_type (stamped env n) = nt_type n"
    "(stamped env n)\<lparr>nt_created := ne_now env\<rparr> = stamped env n"
    by (simp_all add: stamped_def)
  show ?thesis using assms
    by (simp add: dispatch_def Let_def insert_notification_def n should_defer_def quiet_env_insert get_priority_def
        insert_deferred_def)
qed

lemma priority_matrix_is_get_priority:
  "list_all (\<lambda>(ty, e). pe_priority e = get_priority ty \<and> pe_bypass_quiet_hours e = (8 \<le> get_priority ty)) priority_matrix"
  by code_simp

lemma queue_priority_is_get_priority: "queue_notification_priority = get_priority"
  by (rule ext) (simp only: queue_notification_priority_def get_priority_def)

section \<open>Witnesses\<close>

definition notify_env0 :: "instant \<Rightarrow> uuid \<Rightarrow> notify_env" where
  "notify_env0 t i =
     \<lparr>ne_now = t, ne_new_id = i, ne_deferred_id = i, ne_fails = (\<lambda>_. False),
      ne_quiet = \<lparr>cfg_quiet_start = 22, cfg_quiet_end = 7\<rparr>, ne_zone = (\<lambda>_. Some 0), ne_local = 0,
      ne_text = \<lparr>px_show_uuid = nat_decimal, px_marshal = (\<lambda>_. ''{}'')\<rparr>, ne_parse_uuid = (\<lambda>_. None),
      ne_encode_pref = (\<lambda>_. ''{}''), ne_decode_pref = (\<lambda>_. None), ne_fcm = Some (\<lambda>_. None),
      ne_apns = \<lparr>ac_bundle = ''b'', ac_enabled = True,
        ac_http = Some (\<lambda>_. Inr \<lparr>ar_status = 410, ar_apns_id = [], ar_reason = ''Unregistered'', ar_token_invalid = True\<rparr>)\<rparr>\<rparr>"

definition phone :: "string \<Rightarrow> string \<Rightarrow> device_row" where
  "phone dev ty =
     \<lparr>ds_id = 1, ds_user = 7, ds_device = dev, ds_type = ty, ds_name = ''p'', ds_fcm = Some ''f'', ds_apns = Some ''a'',
      ds_last = 0, ds_created = 0\<rparr>"

definition notify_world0 :: notify_world where
  "notify_world0 =
     \<lparr>nw_notifs = [], nw_deferred = [], nw_prefs = [], nw_sessions = [phone ''x'' ''android'', phone ''y'' ''ios''],
      nw_hub = new_hub (\<lambda>_. \<lparr>chan_buffer = [], chan_capacity = 256, chan_closed = False\<rparr>), nw_broadcasts = [], nw_calls = []\<rparr>"

definition build_env0 :: build_env where
  "build_env0 = \<lparr>bd_id = 5, bd_now = 0, bd_show_uuid = nat_decimal, bd_sender = (\<lambda>_. None)\<rparr>"

text \<open>Deferred at 23:00; a sweep a week later still changes nothing.\<close>

lemma deferred_never_delivered_witness:
  "\<exists>w. notify_step\<^sup>*\<^sup>* notify_world0 w \<and> length (nw_deferred w) = 1 \<and>
     fst (process_deferred (notify_env0 (200 * hour_ns) 9) (\<lambda>_. notify_env0 (200 * hour_ns) 9) w) = w"
proof -
  let ?n = "build_batch build_env0 7 3 2" and ?e = "notify_env0 (23 * hour_ns) 9"
  let ?w = "fst (dispatch ?e ?n notify_world0)"
  have s: "notify_step notify_world0 ?w"
    by (rule Dispatched [of ?e ?n _ _ "snd (dispatch ?e ?n notify_world0)"]) (simp_all add: notify_env0_def)
  then have run: "notify_step\<^sup>*\<^sup>* notify_world0 ?w" by (rule r_into_rtranclp)
  have "nw_deferred notify_world0 = []" by (simp add: notify_world0_def)
  from deferred_never_delivered [OF run this] have "fst (process_deferred (notify_env0 (200 * hour_ns) 9)
      (\<lambda>_. notify_env0 (200 * hour_ns) 9) ?w) = ?w" .
  moreover have "length (nw_deferred ?w) = 1" by code_simp
  ultimately show ?thesis using run by blast
qed

lemma device_sends_commute_witness:
  "snd (dispatch_to_devices (notify_env0 0 9) (build_empty build_env0 7)
     [phone ''y'' ''ios'', phone ''x'' ''android''] notify_world0) =
   snd (dispatch_to_devices (notify_env0 0 9) (build_empty build_env0 7)
     [phone ''x'' ''android'', phone ''y'' ''ios''] notify_world0)"
proof -
  let ?d = "\<lambda>ds. dispatch_to_devices (notify_env0 0 9) (build_empty build_env0 7) ds notify_world0"
  let ?a = "[phone ''x'' ''android'', phone ''y'' ''ios'']" and ?b = "[phone ''y'' ''ios'', phone ''x'' ''android'']"
  have m: "mset ?a = mset ?b" by simp
  show ?thesis
    using device_sends_commute [OF m, of "notify_env0 0 9" "build_empty build_env0 7" notify_world0
        "fst (?d ?a)" "snd (?d ?a)" "fst (?d ?b)" "snd (?d ?b)"] by simp
qed

lemma dispatch_reaches_every_device_witness:
  "\<exists>w. dispatch (notify_env0 (23 * hour_ns) 9)
     (build_from_payload build_env0 7 \<lparr>ip_card = 3, ip_sender = ''Ann'', ip_ask = ''Sign'', ip_urgency = 1\<rparr>)
     notify_world0 = (w, None) \<and>
   nw_calls w = [PushCall ''android'' ''f'' 5, PushCall ''ios'' ''a'' 5]"
proof -
  let ?e = "notify_env0 (23 * hour_ns) 9"
  let ?n = "build_from_payload build_env0 7 \<lparr>ip_card = 3, ip_sender = ''Ann'', ip_ask = ''Sign'', ip_urgency = 1\<rparr>"
  have calls: "concat (map (calls_for ?e (stamped ?e ?n)) (push_devices (nt_user ?n) (nw_sessions notify_world0))) =
    [PushCall ''android'' ''f'' 5, PushCall ''ios'' ''a'' 5]" by code_simp
  have "is_type_enabled ?e (nt_user ?n) (nt_type ?n) notify_world0" by code_simp
  moreover have "nw_notifs notify_world0 = []" "nw_calls notify_world0 = []" by (simp_all add: notify_world0_def)
  moreover have "nt_type ?n = ''interrupt''" by (simp add: build_from_payload_def make_notification_def)
  moreover have "\<not> ne_fails ?e s" for s by (simp add: notify_env0_def)
  ultimately show ?thesis
    using dispatch_reaches_every_device [of ?e ?n notify_world0] calls
    by (auto simp: known_notification_type_def)
qed

end
