(* ===== verification/Thread_Subject.thy ===== *)
theory Thread_Subject
  imports Reagent_Prelude "HOL-Library.Multiset" "HOL-Library.List_Lexorder" "HOL-Library.Char_ord"
begin

text \<open>
  Subject comparison and thread keys of \<open>src/ingestion/internal/thread/\<close>: the normalisation of
  subjects and the edit distance of \<open>fuzzy.go\<close>, the deterministic key of \<open>key.go\<close>. The three
  regular expressions of the file are written out as recursive functions on ASCII text (Go's
  \<open>\s\<close> does not include the vertical tab, \<open>strings.TrimSpace\<close> does); SHA-256 with hex encoding is
  a parameter.
\<close>

section \<open>Normalising subjects\<close>

definition re_space :: "char \<Rightarrow> bool" where
  "re_space c = (let n = of_char c :: nat in n = 32 \<or> n = 9 \<or> n = 10 \<or> n = 12 \<or> n = 13)"

definition re_digit :: "char \<Rightarrow> bool" where
  "re_digit c = (let n = of_char c :: nat in 48 \<le> n \<and> n \<le> 57)"

text \<open>\<open>externalTagRe.ReplaceAllString(s, "")\<close> on lower-case text.\<close>

function remove_external :: "string \<Rightarrow> string" where
  "remove_external s =
     (case s of
        [] \<Rightarrow> []
      | c # t \<Rightarrow> if has_prefix s ''[external]'' then remove_external (drop 10 s)
                else c # remove_external t)"
  by pat_completeness auto
termination by (relation "measure length") auto

declare remove_external.simps [simp del]

definition subject_prefixes :: "string list" where
  "subject_prefixes = [''re'', ''fwd'', ''fw'', ''aw'', ''wg'']"

text \<open>\<open>(\[\d+\])?\<close>, then \<open>\s*[:\]]+\s*\<close>; \<open>None\<close> when the rest does not match.\<close>

definition skip_counter :: "string \<Rightarrow> string" where
  "skip_counter s =
     (case s of
        c # t \<Rightarrow>
          if c = CHR ''['' \<and> takeWhile re_digit t \<noteq> []
          then (case dropWhile re_digit t of d # u \<Rightarrow> if d = CHR '']'' then u else s | [] \<Rightarrow> s)
          else s
      | [] \<Rightarrow> s)"

definition colon_part :: "string \<Rightarrow> string option" where
  "colon_part s =
     (let t = dropWhile re_space s
      in case t of
           c # _ \<Rightarrow> if c = CHR '':'' \<or> c = CHR '']''
                    then Some (dropWhile re_space (dropWhile (\<lambda>c. c = CHR '':'' \<or> c = CHR '']'') t))
                    else None
         | [] \<Rightarrow> None)"

definition strip_after :: "string \<Rightarrow> string \<Rightarrow> string option" where
  "strip_after s p = (if has_prefix s p then colon_part (skip_counter (drop (length p) s)) else None)"

text \<open>One application of \<open>subjectPrefixRe\<close> at the start of the text.\<close>

definition strip_prefix :: "string \<Rightarrow> string option" where
  "strip_prefix s = first_some (strip_after (dropWhile re_space s)) subject_prefixes"

lemma colon_part_shorter: "colon_part s = Some t \<Longrightarrow> length t < length s"
proof -
  assume a: "colon_part s = Some t"
  obtain c u where u: "dropWhile re_space s = c # u" and c: "c = CHR '':'' \<or> c = CHR '']''"
    and t: "t = dropWhile re_space (dropWhile (\<lambda>c. c = CHR '':'' \<or> c = CHR '']'') (c # u))"
    using a by (auto simp: colon_part_def Let_def split: list.splits if_splits)
  have "length t \<le> length (dropWhile (\<lambda>c. c = CHR '':'' \<or> c = CHR '']'') u)"
    using c t by (auto simp: length_dropWhile_le)
  also have "\<dots> \<le> length u" by (rule length_dropWhile_le)
  also have "length u < length s"
    using u length_dropWhile_le [of re_space s] by simp
  finally show ?thesis .
qed

lemma skip_counter_le: "length (skip_counter s) \<le> length s"
proof (cases s)
  case (Cons c t)
  show ?thesis
  proof (cases "dropWhile re_digit t")
    case Nil
    then show ?thesis by (simp only: \<open>s = c # t\<close> skip_counter_def list.case) simp
  next
    case (Cons d u)
    then have "length u < length t" using length_dropWhile_le [of re_digit t] by simp
    then show ?thesis using \<open>s = c # t\<close> Cons by (simp add: skip_counter_def)
  qed
qed (simp add: skip_counter_def)

lemma strip_prefix_shorter: "strip_prefix s = Some t \<Longrightarrow> length t < length s"
proof -
  assume "strip_prefix s = Some t"
  then have "\<exists>p \<in> set subject_prefixes. strip_after (dropWhile re_space s) p = Some t"
    unfolding strip_prefix_def by (rule first_some_SomeD)
  then obtain p where "strip_after (dropWhile re_space s) p = Some t" ..
  then have "colon_part (skip_counter (drop (length p) (dropWhile re_space s))) = Some t"
    unfolding strip_after_def by (simp split: if_split_asm)
  then have "length t < length (skip_counter (drop (length p) (dropWhile re_space s)))"
    by (rule colon_part_shorter)
  also have "\<dots> \<le> length (drop (length p) (dropWhile re_space s))" by (rule skip_counter_le)
  also have "\<dots> \<le> length (dropWhile re_space s)" by simp
  also have "\<dots> \<le> length s" by (rule length_dropWhile_le)
  finally show ?thesis .
qed

text \<open>The loop that strips prefixes until none remains.\<close>

function strip_all :: "string \<Rightarrow> string" where
  "strip_all s = (case strip_prefix s of None \<Rightarrow> s | Some t \<Rightarrow> strip_all t)"
  by pat_completeness auto
termination by (relation "measure length") (auto dest: strip_prefix_shorter)

declare strip_all.simps [simp del]

text \<open>\<open>whitespaceCollapseRe.ReplaceAllString(s, " ")\<close>.\<close>

fun collapse :: "bool \<Rightarrow> string \<Rightarrow> string" where
  "collapse in_space [] = []"
| "collapse in_space (c # s) =
     (if re_space c then (if in_space then collapse True s else CHR '' '' # collapse True s)
      else c # collapse False s)"

definition normalize_subject :: "string \<Rightarrow> string" where
  "normalize_subject s = collapse False (trim_space (strip_all (remove_external (to_lower s))))"

section \<open>Edit distance\<close>

definition min3 :: "nat \<Rightarrow> nat \<Rightarrow> nat \<Rightarrow> nat" where
  "min3 a b c = min (min a b) c"

text \<open>The inner loop: fill the current row from its left neighbour and the previous row.\<close>

fun inner_row :: "char \<Rightarrow> string \<Rightarrow> nat list \<Rightarrow> nat \<Rightarrow> nat list" where
  "inner_row c (r # rs) (p # q # ps) left =
     (let v = min3 (q + 1) (left + 1) (p + (if c \<noteq> r then 1 else 0))
      in v # inner_row c rs (q # ps) v)"
| "inner_row c rs ps left = []"

definition next_row :: "char \<Rightarrow> string \<Rightarrow> nat \<Rightarrow> nat list \<Rightarrow> nat list" where
  "next_row c rb i prev = i # inner_row c rb prev i"

fun outer_loop :: "string \<Rightarrow> string \<Rightarrow> nat \<Rightarrow> nat list \<Rightarrow> nat list" where
  "outer_loop [] rb i prev = prev"
| "outer_loop (c # ra) rb i prev = outer_loop ra rb (i + 1) (next_row c rb i prev)"

function levenshtein_distance :: "string \<Rightarrow> string \<Rightarrow> nat" where
  "levenshtein_distance a b =
     (if a = b then 0
      else if a = [] then length b
      else if b = [] then length a
      else if length a < length b then levenshtein_distance b a
      else outer_loop a b 1 [0..<length b + 1] ! length b)"
  by pat_completeness auto
termination by (relation "measure (\<lambda>(a, b). length b - length a)") auto

declare levenshtein_distance.simps [simp del]

definition fuzzy_subject_match :: "string \<Rightarrow> string \<Rightarrow> bool \<times> nat" where
  "fuzzy_subject_match a b =
     (let na = normalize_subject a; nb = normalize_subject b
      in if na = nb then (True, 0)
         else (let d = levenshtein_distance na nb in if 3 \<le> d then (False, 2) else (True, d)))"

section \<open>Thread keys\<close>

definition key_char :: "char \<Rightarrow> bool" where
  "key_char c = (let n = of_char c :: nat in
     (97 \<le> n \<and> n \<le> 122) \<or> (65 \<le> n \<and> n \<le> 90) \<or> (48 \<le> n \<and> n \<le> 57) \<or> n = 32)"

definition normalize_subject_for_key :: "string \<Rightarrow> string" where
  "normalize_subject_for_key s = collapse False (trim_space (filter key_char (normalize_subject s)))"

fun join_comma :: "string list \<Rightarrow> string" where
  "join_comma [] = []"
| "join_comma [e] = e"
| "join_comma (e # f # es) = e @ '','' @ join_comma (f # es)"

definition key_emails :: "string list \<Rightarrow> string list" where
  "key_emails participants =
     dedup_seen [] (filter (\<lambda>e. e \<noteq> []) (map (\<lambda>e. to_lower (trim_space e)) (sort_key to_lower participants)))"

definition generate_thread_key :: "(string \<Rightarrow> string) \<Rightarrow> string list \<Rightarrow> string \<Rightarrow> string" where
  "generate_thread_key sha participants subj =
     sha (join_comma (key_emails participants) @ ''|'' @ normalize_subject_for_key subj)"

section \<open>Reply prefixes do not change the normal form\<close>

lemma re_space_is_space: "re_space c \<Longrightarrow> is_space c"
  by (auto simp: re_space_def is_space_def Let_def)

lemma remove_external_plain: "CHR ''['' \<notin> set p \<Longrightarrow> remove_external (p @ t) = p @ remove_external t"
proof (induction p)
  case (Cons c p)
  then show ?case by (subst remove_external.simps) auto
qed simp

lemma strip_prefix_leading: "strip_prefix (dropWhile re_space t) = strip_prefix t"
  by (simp add: strip_prefix_def)

lemma strip_prefix_reply:
  "p \<in> set subject_prefixes \<Longrightarrow> strip_prefix (p @ '': '' @ t) = Some (dropWhile re_space t)"
  by (auto simp: subject_prefixes_def strip_prefix_def strip_after_def skip_counter_def colon_part_def
      re_space_def)

lemma dropWhile_sub: "(\<And>c. P c \<Longrightarrow> Q c) \<Longrightarrow> dropWhile Q (dropWhile P s) = dropWhile Q s"
  by (induction s) auto

lemma trim_space_leading: "trim_space (dropWhile re_space t) = trim_space t"
  by (simp add: trim_space_def dropWhile_sub re_space_is_space)

lemma trim_strip_all_leading: "trim_space (strip_all (dropWhile re_space t)) = trim_space (strip_all t)"
proof (cases "strip_prefix t")
  case None
  then show ?thesis
    using strip_all.simps [of t] strip_all.simps [of "dropWhile re_space t"]
    by (simp add: strip_prefix_leading trim_space_leading)
next
  case (Some u)
  then show ?thesis
    using strip_all.simps [of t] strip_all.simps [of "dropWhile re_space t"]
    by (simp add: strip_prefix_leading)
qed

lemma prefix_has_no_tag: "p \<in> set subject_prefixes \<Longrightarrow> CHR ''['' \<notin> set (p @ '': '')"
  by (auto simp: subject_prefixes_def)

lemma normalize_reply:
  assumes "to_lower w \<in> set subject_prefixes"
  shows "normalize_subject (w @ '': '' @ s) = normalize_subject s"
proof -
  let ?p = "to_lower w" and ?t = "remove_external (to_lower s)"
  have "to_lower (w @ '': '' @ s) = (?p @ '': '') @ to_lower s"
    by (simp add: to_lower_def lower_char_def char_of_def bit_0)
  then have "remove_external (to_lower (w @ '': '' @ s)) = ?p @ '': '' @ ?t"
    using remove_external_plain [OF prefix_has_no_tag [OF assms]] by simp
  moreover have "strip_all (?p @ '': '' @ ?t) = strip_all (dropWhile re_space ?t)"
    by (subst strip_all.simps) (simp only: strip_prefix_reply [OF assms] option.case)
  ultimately show ?thesis
    by (simp only: normalize_subject_def trim_strip_all_leading)
qed

section \<open>The table computes the edit distance\<close>

text \<open>One edit: insert, delete or replace one character, anywhere.\<close>

inductive edit1 :: "string \<Rightarrow> string \<Rightarrow> bool" where
  edit_insert: "edit1 v (x # v)"
| edit_delete: "edit1 (x # v) v"
| edit_replace: "edit1 (x # v) (y # v)"
| edit_later: "edit1 u v \<Longrightarrow> edit1 (x # u) (x # v)"

text \<open>The recurrence the table is filled by.\<close>

fun lev :: "string \<Rightarrow> string \<Rightarrow> nat" where
  "lev [] b = length b"
| "lev a [] = length a"
| "lev (x # a) (y # b) = min3 (lev a (y # b) + 1) (lev (x # a) b + 1) (lev a b + (if x \<noteq> y then 1 else 0))"

lemma lev_Nil2 [simp]: "lev a [] = length a"
  by (cases a) auto

lemma lev_comm: "lev a b = lev b a"
  by (induction a b rule: lev.induct) (auto simp: min3_def)

lemma lev_refl [simp]: "lev a a = 0"
  by (induction a) (auto simp: min3_def)

lemma lev_cons_le: "lev (z # a) b \<le> lev a b + 1"
  by (cases b) (auto simp: min3_def)

lemma lev_le_cons: "lev a b \<le> lev (y # a) b + 1"
proof (induction b)
  case (Cons z b)
  then show ?case
    using lev_cons_le [of z b a] by (auto simp: min3_def lev_comm [of a "z # b"] lev_comm [of a b])
qed simp

lemma lev_replace: "lev (x # v) b \<le> lev (y # v) b + 1"
  by (induction b) (auto simp: min3_def)

lemma lev_edit1: "edit1 u v \<Longrightarrow> lev v b \<le> lev u b + 1"
proof (induction arbitrary: b rule: edit1.induct)
  case (edit_later u v x)
  show ?case
  proof (induction b)
    case (Cons y b)
    then show ?case using edit_later.IH [of b] edit_later.IH [of "y # b"] by (auto simp: min3_def)
  next
    case Nil
    show ?case using edit_later.IH [of "[]"] by simp
  qed
next
  case (edit_insert v x)
  show ?case by (rule lev_cons_le)
next
  case (edit_delete x v)
  show ?case by (rule lev_le_cons)
next
  case (edit_replace x v y)
  show ?case by (rule lev_replace)
qed

lemma edits_cons: "(edit1 ^^ n) u v \<Longrightarrow> (edit1 ^^ n) (x # u) (x # v)"
  by (induction n arbitrary: v) (auto intro: edit_later relcomppI)

lemma edits_step: "edit1 u v \<Longrightarrow> (edit1 ^^ n) v w \<Longrightarrow> (edit1 ^^ Suc n) u w"
  by (rule relpowp_Suc_I2)

lemma edits_clear: "(edit1 ^^ length a) a []"
proof (induction a)
  case (Cons x a)
  then show ?case using edits_step [OF edit_delete [of x a]] by simp
qed simp

lemma edits_fill: "(edit1 ^^ length b) [] b"
proof (induction b)
  case (Cons x b)
  then have "(edit1 ^^ Suc (length b)) [] (x # b)" by (rule relpowp_Suc_I) (rule edit_insert)
  then show ?case by simp
qed simp

lemma edits_lev: "(edit1 ^^ lev a b) a b"
proof (induction a b rule: lev.induct)
  case (3 x a y b)
  have d: "(edit1 ^^ Suc (lev a (y # b))) (x # a) (y # b)"
    by (rule edits_step [OF edit_delete 3(1)])
  have i: "(edit1 ^^ Suc (lev (x # a) b)) (x # a) (y # b)"
    by (rule relpowp_Suc_I [OF 3(2) edit_insert])
  have s: "(edit1 ^^ (lev a b + (if x \<noteq> y then 1 else 0))) (x # a) (y # b)"
  proof (cases "x = y")
    case False
    have "(edit1 ^^ Suc (lev a b)) (x # a) (y # b)"
      by (rule edits_step [OF edit_replace edits_cons [OF 3(3)]])
    then show ?thesis using False by simp
  qed (simp add: edits_cons [OF 3(3)])
  show ?case
    unfolding lev.simps min3_def min_def using d i s by simp
next
  case (2 v va)
  show ?case using edits_clear [of "v # va"] by simp
qed (simp add: edits_fill)

lemma lev_lower: "(edit1 ^^ n) a b \<Longrightarrow> lev a b \<le> n"
proof (induction n arbitrary: b)
  case (Suc n)
  then obtain c where "(edit1 ^^ n) a c" and "edit1 c b" by auto
  then show ?case
    using Suc.IH [of c] lev_edit1 [of c b a] by (simp add: lev_comm)
qed simp

text \<open>Edits read backwards, and of reversed texts.\<close>

lemma edit1_snoc: "edit1 u v \<Longrightarrow> edit1 (u @ w) (v @ w)"
  by (induction rule: edit1.induct) (auto intro: edit1.intros)

lemma edit1_prefix: "edit1 u v \<Longrightarrow> edit1 (w @ u) (w @ v)"
  by (induction w) (auto intro: edit1.intros)

lemma edit1_rev: "edit1 u v \<Longrightarrow> edit1 (rev u) (rev v)"
proof (induction rule: edit1.induct)
  case (edit_insert v x)
  then show ?case using edit1_prefix [OF edit1.edit_insert [of "[]" x]] by simp
next
  case (edit_delete x v)
  then show ?case using edit1_prefix [OF edit1.edit_delete [of x "[]"]] by simp
next
  case (edit_replace x v y)
  then show ?case using edit1_prefix [OF edit1.edit_replace [of x "[]" y]] by simp
next
  case (edit_later u v x)
  then show ?case using edit1_snoc [of "rev u" "rev v" "[x]"] by simp
qed

lemma edits_rev: "(edit1 ^^ n) u v \<Longrightarrow> (edit1 ^^ n) (rev u) (rev v)"
  by (induction n arbitrary: v) (auto intro: edit1_rev relcomppI)

lemma lev_rev: "lev (rev a) (rev b) = lev a b"
proof (rule antisym)
  show "lev (rev a) (rev b) \<le> lev a b" by (rule lev_lower [OF edits_rev [OF edits_lev]])
  have "lev (rev (rev a)) (rev (rev b)) \<le> lev (rev a) (rev b)"
    by (rule lev_lower [OF edits_rev [OF edits_lev]])
  then show "lev a b \<le> lev (rev a) (rev b)" by simp
qed

text \<open>A row of the table: the distances from \<open>ru\<close> to the reversed prefixes of \<open>rev rv @ rs\<close>.\<close>

fun lev_row :: "string \<Rightarrow> string \<Rightarrow> string \<Rightarrow> nat list" where
  "lev_row ru rv [] = [lev ru rv]"
| "lev_row ru rv (r # rs) = lev ru rv # lev_row ru (r # rv) rs"

lemma lev_row_hd: "\<exists>ps. lev_row ru rv rs = lev ru rv # ps"
  by (cases rs) auto

lemma inner_row_lev:
  "lev ru rv # [] @ inner_row c rs (lev_row u rv rs) (lev ru rv) = lev_row ru rv rs" if "ru = c # u"
  using that
proof (induction rs arbitrary: rv)
  case (Cons r rs)
  obtain ps where ps: "lev_row u (r # rv) rs = lev u (r # rv) # ps" using lev_row_hd by blast
  then show ?case using Cons.IH [of "r # rv"] Cons.prems by (simp add: Let_def ps)
qed simp

lemma next_row_lev: "next_row c rb (Suc (length u)) (lev_row u [] rb) = lev_row (c # u) [] rb"
  using inner_row_lev [of "c # u" c u "[]" rb] by (simp add: next_row_def)

lemma outer_loop_lev: "outer_loop ra rb (Suc (length u)) (lev_row u [] rb) = lev_row (rev ra @ u) [] rb"
proof (induction ra arbitrary: u)
  case (Cons c ra)
  then show ?case using Cons.IH [of "c # u"] by (simp add: next_row_lev)
qed simp

lemma first_row: "lev_row [] rv rs = [length rv ..< length rv + length rs + 1]"
  by (induction rs arbitrary: rv) (simp_all add: upt_conv_Cons del: upt_Suc)

lemma last_of_row: "lev_row u rv rs ! length rs = lev u (rev rs @ rv)"
  by (induction rs arbitrary: rv) auto

lemma table_lev: "outer_loop a b 1 [0..<length b + 1] ! length b = lev a b"
  using outer_loop_lev [of a b "[]"] first_row [of "[]" b] last_of_row [of "rev a" "[]" b]
  by (simp add: lev_rev)

lemma levenshtein_lev: "levenshtein_distance a b = lev a b"
proof (induction a b rule: levenshtein_distance.induct)
  case (1 a b)
  then show ?case
    by (subst levenshtein_distance.simps) (auto simp: table_lev lev_comm simp del: One_nat_def)
qed

text \<open>
  C39: \<open>LevenshteinDistance\<close>, computed with two rows over the shorter text, is the least number of
  single character insertions, deletions and replacements that turn the first text into the
  second, and that many edits do it.
\<close>

theorem levenshtein_is_minimum_edits:
  "(edit1 ^^ levenshtein_distance a b) a b \<and>
   levenshtein_distance a b = (LEAST n. (edit1 ^^ n) a b)"
proof
  show r: "(edit1 ^^ levenshtein_distance a b) a b" by (simp add: levenshtein_lev edits_lev)
  show "levenshtein_distance a b = (LEAST n. (edit1 ^^ n) a b)"
  proof (rule sym, rule Least_equality)
    show "(edit1 ^^ levenshtein_distance a b) a b" by (rule r)
    show "levenshtein_distance a b \<le> m" if "(edit1 ^^ m) a b" for m
      using that by (simp add: levenshtein_lev lev_lower)
  qed
qed

lemma fuzzy_match_distance: "fst (fuzzy_subject_match a b) \<longleftrightarrow> lev (normalize_subject a) (normalize_subject b) < 3"
  by (auto simp: fuzzy_subject_match_def Let_def levenshtein_lev)

text \<open>
  Two subjects match fuzzily exactly when at most two single character edits separate their
  normal forms; a reply or forward marker (\<open>re:\<close>, \<open>fwd:\<close>, \<open>fw:\<close>, \<open>aw:\<close>, \<open>wg:\<close>, in any case) put in
  front of either of them never changes the answer.
\<close>

lemma fuzzy_match_within_two_edits:
  assumes "to_lower w \<in> set subject_prefixes"
  shows "(fst (fuzzy_subject_match a b) \<longleftrightarrow>
            (\<exists>n. n < 3 \<and> (edit1 ^^ n) (normalize_subject a) (normalize_subject b)))
       \<and> fuzzy_subject_match (w @ '': '' @ a) b = fuzzy_subject_match a b
       \<and> fuzzy_subject_match a (w @ '': '' @ b) = fuzzy_subject_match a b"
proof (intro conjI)
  show "fst (fuzzy_subject_match a b) \<longleftrightarrow>
      (\<exists>n. n < 3 \<and> (edit1 ^^ n) (normalize_subject a) (normalize_subject b))"
    unfolding fuzzy_match_distance using edits_lev lev_lower le_less_trans by metis
qed (simp_all only: fuzzy_subject_match_def normalize_reply [OF assms])

lemma fuzzy_match_within_two_edits_witness:
  "to_lower ''FWD'' \<in> set subject_prefixes
   \<and> fst (fuzzy_subject_match ''FWD: Invoice 12'' ''invoice 13'') = True"
proof -
  have p: "to_lower ''FWD'' \<in> set subject_prefixes" by code_simp
  have "fst (fuzzy_subject_match ''Invoice 12'' ''invoice 13'')" by code_simp
  then show ?thesis using fuzzy_match_within_two_edits [OF p, of "''Invoice 12''" "''invoice 13''"] p by simp
qed

section \<open>Thread keys forget order, repetition and case\<close>

lemma to_lower_trim: "to_lower (trim_space s) = trim_space (to_lower s)"
  by (simp add: trim_space_def to_lower_def dropWhile_map rev_map comp_def)

lemma map_sort_key: "map f (sort_key f xs) = sort (map f xs)"
  by (rule properties_for_sort [symmetric]) simp_all

lemma dedup_remdups_adj:
  "dedup_seen seen (filter P (map g (remdups_adj xs))) = dedup_seen seen (filter P (map g xs))"
proof (induction xs arbitrary: seen rule: remdups_adj.induct)
  case (3 x y xs)
  show ?case
  proof (cases "x = y")
    case True
    then have "dedup_seen seen (filter P (map g (remdups_adj (x # y # xs)))) =
        dedup_seen seen (filter P (map g (x # xs)))"
      using 3(1) by simp
    then show ?thesis using True by simp
  next
    case False
    then show ?thesis using 3(2) by simp
  qed
qed simp_all

lemma distinct_remdups_adj_sorted: "sorted xs \<Longrightarrow> distinct (remdups_adj xs)"
  by (induction xs rule: remdups_adj.induct) (auto dest: order_antisym)

lemma remdups_adj_sort: "remdups_adj (sort xs) = sorted_list_of_set (set xs)"
  by (rule sorted_distinct_set_unique)
     (simp_all add: sorted_remdups_adj distinct_remdups_adj_sorted)

lemma key_emails_set:
  "key_emails ps =
     dedup_seen [] (filter (\<lambda>e. e \<noteq> []) (map trim_space (sorted_list_of_set (set (map to_lower ps)))))"
proof -
  have "map (\<lambda>e. to_lower (trim_space e)) (sort_key to_lower ps) = map trim_space (sort (map to_lower ps))"
    by (simp add: to_lower_trim map_sort_key [symmetric])
  then show ?thesis
    using dedup_remdups_adj [of "[]" "\<lambda>e. e \<noteq> []" trim_space "sort (map to_lower ps)"]
    by (simp add: key_emails_def remdups_adj_sort)
qed

text \<open>
  The thread key of a message depends only on the set of its participants, compared without
  regard to case, and on the normal form of its subject: reordering or repeating addresses,
  changing their case, or replying to and forwarding the message keeps the key.
\<close>

lemma thread_key_of_reply:
  assumes "to_lower ` set ps = to_lower ` set qs"
    and "to_lower w \<in> set subject_prefixes"
  shows "generate_thread_key sha ps (w @ '': '' @ s) = generate_thread_key sha qs s"
  using assms by (simp only: generate_thread_key_def key_emails_set set_map
      normalize_subject_for_key_def normalize_reply [OF assms(2)])

lemma thread_key_of_reply_witness:
  "generate_thread_key (\<lambda>s. s) [''Bob@x.io'', ''ann@x.io'', ''bob@x.io''] ''Re: Invoice #12'' =
   generate_thread_key (\<lambda>s. s) [''ann@x.io'', ''BOB@X.IO''] ''Invoice #12''
   \<and> to_lower ''Re'' \<in> set subject_prefixes"
proof -
  have p: "to_lower ''Re'' \<in> set subject_prefixes" by code_simp
  have e: "to_lower ` set [''Bob@x.io'', ''ann@x.io'', ''bob@x.io''] = to_lower ` set [''ann@x.io'', ''BOB@X.IO'']"
    by (simp add: to_lower_def lower_char_def char_of_def bit_0) blast
  show ?thesis using thread_key_of_reply [OF e p, of "\<lambda>s. s" "''Invoice #12''"] p by simp
qed

end
