(* ===== verification/Thread_Engine.thy ===== *)
theory Thread_Engine
  imports Thread_Subject Tables
begin

text \<open>
  The thread engine of \<open>src/ingestion/internal/thread/engine.go\<close>: a mail is filed in the thread of
  the mail it answers, of a mail it refers to, of a recent thread with a similar subject and a
  common participant, or in a new thread. The tables are the columns of \<open>raw_emails\<close> and
  \<open>threads\<close> that the engine reads and writes. The environment says which statements fail, which
  rows cannot be scanned, what the clock shows and which id a new thread gets.
\<close>

record thread_row =
  th_id :: uuid
  th_user :: uuid
  th_key :: string
  th_account :: uuid
  th_subject :: "string option"
  th_participants :: "string list"
  th_count :: int
  th_last :: "instant option"
  th_status :: string
  th_created :: instant

record mail_row =
  ml_message :: string
  ml_user :: uuid
  ml_thread :: uuid
  ml_received :: instant

record thread_db =
  threads :: "thread_row list"
  mails :: "mail_row list"

record parsed_email =
  pm_user :: uuid
  pm_account :: uuid
  pm_in_reply_to :: "string option"
  pm_references :: "string list"
  pm_sender :: string
  pm_recipients :: "string list"
  pm_subject :: string
  pm_received :: instant

record match_result =
  mr_thread :: uuid
  mr_key :: string
  mr_new :: bool
  mr_method :: string

record thread_env =
  te_now :: instant
  te_fresh :: uuid
  te_lookup_fails :: "string \<Rightarrow> bool"
  te_query_fails :: bool
  te_scan_fails :: "uuid \<Rightarrow> bool"
  te_rows_fail :: bool
  te_update_fails :: bool
  te_upsert_fails :: bool

datatype thread_error = IncrementFailed uuid | UpsertFailed

type_synonym filed = "thread_db \<times> (thread_error + match_result)"

section \<open>Lookups\<close>

text \<open>\<open>ORDER BY received_at DESC LIMIT 1\<close>.\<close>

fun newest_mail :: "mail_row list \<Rightarrow> mail_row option" where
  "newest_mail [] = None"
| "newest_mail (r # rs) =
     (case newest_mail rs of
        None \<Rightarrow> Some r | Some s \<Rightarrow> if ml_received r < ml_received s then Some s else Some r)"

text \<open>\<open>None\<close> is any error, \<open>sql.ErrNoRows\<close> included: the callers only log the difference.\<close>

definition find_thread_by_message_id ::
  "thread_env \<Rightarrow> string \<Rightarrow> uuid \<Rightarrow> thread_db \<Rightarrow> uuid option" where
  "find_thread_by_message_id env mid user db =
     (if te_lookup_fails env mid then None
      else map_option ml_thread (newest_mail (filter (\<lambda>r. ml_message r = mid \<and> ml_user r = user) (mails db))))"

definition collect_participants :: "parsed_email \<Rightarrow> string list" where
  "collect_participants m =
     dedup_seen [] (filter (\<lambda>e. e \<noteq> [])
       (map (\<lambda>e. to_lower (trim_space e)) (pm_sender m # pm_recipients m)))"

definition increment_and_return ::
  "thread_env \<Rightarrow> uuid \<Rightarrow> string \<Rightarrow> thread_db \<Rightarrow> filed" where
  "increment_and_return env tid method db =
     (if te_update_fails env then (db, Inl (IncrementFailed tid))
      else (case List.find (\<lambda>t. th_id t = tid) (threads db) of
              None \<Rightarrow> (db, Inl (IncrementFailed tid))
            | Some t \<Rightarrow>
                (db\<lparr>threads := update_rows (\<lambda>t. th_id t = tid)
                      (\<lambda>t. t\<lparr>th_count := th_count t + 1, th_last := Some (te_now env)\<rparr>) (threads db)\<rparr>,
                 Inr \<lparr>mr_thread = tid, mr_key = th_key t, mr_new = False, mr_method = method\<rparr>)))"

section \<open>The fuzzy tier\<close>

definition week_ns :: duration where
  "week_ns = 7 * 24 * hour_ns"

definition candidate :: "parsed_email \<Rightarrow> string list \<Rightarrow> thread_row \<Rightarrow> bool" where
  "candidate m ps t \<longleftrightarrow>
     th_user t = pm_user m \<and>
     (case th_last t of None \<Rightarrow> False | Some l \<Rightarrow> pm_received m - week_ns \<le> l) \<and>
     set (th_participants t) \<inter> set ps \<noteq> {}"

text \<open>\<open>ORDER BY last_message_at DESC LIMIT 50\<close>, without the rows that cannot be scanned.\<close>

definition candidates :: "thread_env \<Rightarrow> parsed_email \<Rightarrow> string list \<Rightarrow> thread_db \<Rightarrow> thread_row list" where
  "candidates env m ps db =
     filter (\<lambda>t. \<not> te_scan_fails env (th_id t))
       (take 50 (sort_key (\<lambda>t. - the (th_last t)) (filter (candidate m ps) (threads db))))"

text \<open>The scoring loop: the best candidate so far with its distance.\<close>

fun best_candidate :: "string \<Rightarrow> thread_row list \<Rightarrow> thread_row option \<Rightarrow> nat \<Rightarrow> thread_row option" where
  "best_candidate subj [] best score = best"
| "best_candidate subj (t # ts) best score =
     (case th_subject t of
        None \<Rightarrow> best_candidate subj ts best score
      | Some s \<Rightarrow>
          (case fuzzy_subject_match subj s of
             (matched, d) \<Rightarrow>
               if matched \<and> d < score then best_candidate subj ts (Some t) d
               else best_candidate subj ts best score))"

text \<open>The outer \<open>None\<close> is no match, for want of participants, on a failed query or for want of a subject.\<close>

definition fuzzy_match :: "thread_env \<Rightarrow> parsed_email \<Rightarrow> thread_db \<Rightarrow> (thread_db \<times> match_result) option" where
  "fuzzy_match env m db =
     (let ps = collect_participants m
      in if ps = [] \<or> te_query_fails env \<or> te_rows_fail env then None
         else (case best_candidate (pm_subject m) (candidates env m ps db) None 999 of
                 None \<Rightarrow> None
               | Some t \<Rightarrow>
                   (case increment_and_return env (th_id t) ''fuzzy_subject'' db of
                      (db', Inr r) \<Rightarrow> Some (db', r) | (_, Inl _) \<Rightarrow> None)))"

section \<open>New threads\<close>

definition create_new_thread ::
  "(string \<Rightarrow> string) \<Rightarrow> thread_env \<Rightarrow> parsed_email \<Rightarrow> thread_db \<Rightarrow> filed" where
  "create_new_thread sha env m db =
     (let ps = collect_participants m;
          key = generate_thread_key sha ps (pm_subject m);
          subj = (if pm_subject m = [] then ''(no subject)'' else pm_subject m);
          p = (\<lambda>t. th_user t = pm_user m \<and> th_key t = key)
      in if te_upsert_fails env then (db, Inl UpsertFailed)
         else (case List.find p (threads db) of
                 Some t \<Rightarrow>
                   (db\<lparr>threads := update_rows p
                         (\<lambda>t. t\<lparr>th_count := th_count t + 1, th_last := Some (pm_received m),
                                th_participants := dedup_seen [] (th_participants t @ ps)\<rparr>) (threads db)\<rparr>,
                    Inr \<lparr>mr_thread = th_id t, mr_key = key, mr_new = (th_id t = te_fresh env),
                         mr_method = (if th_id t = te_fresh env then ''new'' else ''concurrent_upsert'')\<rparr>)
               | None \<Rightarrow>
                   (db\<lparr>threads := threads db @
                         [\<lparr>th_id = te_fresh env, th_user = pm_user m, th_key = key, th_account = pm_account m,
                           th_subject = Some subj, th_participants = ps, th_count = 1,
                           th_last = Some (pm_received m), th_status = ''active'', th_created = te_now env\<rparr>]\<rparr>,
                    Inr \<lparr>mr_thread = te_fresh env, mr_key = key, mr_new = True, mr_method = ''new''\<rparr>)))"

section \<open>The four tiers\<close>

fun match_references ::
  "thread_env \<Rightarrow> uuid \<Rightarrow> string list \<Rightarrow> thread_db \<Rightarrow> filed option" where
  "match_references env user [] db = None"
| "match_references env user (r # rs) db =
     (if r = [] then match_references env user rs db
      else (case find_thread_by_message_id env r user db of
              None \<Rightarrow> match_references env user rs db
            | Some tid \<Rightarrow>
                if tid = uuid_nil then match_references env user rs db
                else Some (increment_and_return env tid ''references'' db)))"

definition match_in_reply_to :: "thread_env \<Rightarrow> parsed_email \<Rightarrow> thread_db \<Rightarrow> filed option" where
  "match_in_reply_to env m db =
     (case pm_in_reply_to m of
        None \<Rightarrow> None
      | Some mid \<Rightarrow>
          if mid = [] then None
          else (case find_thread_by_message_id env mid (pm_user m) db of
                  None \<Rightarrow> None
                | Some tid \<Rightarrow>
                    if tid = uuid_nil then None else Some (increment_and_return env tid ''in_reply_to'' db)))"

definition find_or_create_thread ::
  "(string \<Rightarrow> string) \<Rightarrow> thread_env \<Rightarrow> parsed_email \<Rightarrow> thread_db \<Rightarrow> filed" where
  "find_or_create_thread sha env m db =
     (case match_in_reply_to env m db of
        Some r \<Rightarrow> r
      | None \<Rightarrow>
          (case match_references env (pm_user m) (pm_references m) db of
             Some r \<Rightarrow> r
           | None \<Rightarrow>
               (case fuzzy_match env m db of
                  Some (db', r) \<Rightarrow> (db', Inr r)
                | None \<Rightarrow> create_new_thread sha env m db)))"

definition get_thread_participants :: "bool \<Rightarrow> uuid \<Rightarrow> thread_db \<Rightarrow> string list option" where
  "get_thread_participants fault tid db =
     (if fault then None else map_option th_participants (List.find (\<lambda>t. th_id t = tid) (threads db)))"

section \<open>A mail is counted once, in a thread of its user\<close>

definition threads_ok :: "thread_db \<Rightarrow> bool" where
  "threads_ok db \<longleftrightarrow>
     distinct (map th_id (threads db)) \<and>
     distinct (map (\<lambda>t. (th_user t, th_key t)) (threads db)) \<and>
     (\<forall>r \<in> set (mails db). \<forall>t \<in> set (threads db). th_id t = ml_thread r \<longrightarrow> th_user t = ml_user r)"

text \<open>What filing a mail of \<open>user\<close> in thread \<open>tid\<close> does to the tables.\<close>

definition counted :: "uuid \<Rightarrow> uuid \<Rightarrow> thread_db \<Rightarrow> thread_db \<Rightarrow> bool" where
  "counted user tid db db' \<longleftrightarrow>
     mails db' = mails db \<and>
     filter (\<lambda>t. th_id t \<noteq> tid) (threads db') = filter (\<lambda>t. th_id t \<noteq> tid) (threads db) \<and>
     sum_list (map th_count (threads db')) = sum_list (map th_count (threads db)) + 1 \<and>
     (\<forall>t \<in> set (threads db). th_id t = tid \<longrightarrow> th_user t = user) \<and>
     (\<exists>t \<in> set (threads db'). th_id t = tid \<and> th_user t = user)"

lemma update_one:
  assumes "distinct (map th_id ts)" and "t \<in> set ts" and "\<And>x. x \<in> set ts \<Longrightarrow> p x \<longleftrightarrow> th_id x = th_id t"
    and "\<And>x. th_id (f x) = th_id x" and "\<And>x. th_count (f x) = th_count x + 1"
  shows "filter (\<lambda>x. th_id x \<noteq> th_id t) (update_rows p f ts) = filter (\<lambda>x. th_id x \<noteq> th_id t) ts"
    and "sum_list (map th_count (update_rows p f ts)) = sum_list (map th_count ts) + 1"
    and "f t \<in> set (update_rows p f ts)"
proof -
  have same: "update_rows p f xs = xs" if "\<forall>x \<in> set xs. x \<in> set ts \<and> th_id x \<noteq> th_id t" for xs
    by (rule update_rows_no_match) (use that assms(3) in auto)
  obtain us vs where split: "ts = us @ t # vs" using assms(2) by (auto dest: split_list)
  have "th_id t \<notin> th_id ` set us" "th_id t \<notin> th_id ` set vs" using assms(1) by (auto simp: split)
  then have u: "update_rows p f us = us" and v: "update_rows p f vs = vs"
    by (auto simp: split image_iff intro!: same)
  have "p t" using assms(2,3) by blast
  then have all: "update_rows p f ts = us @ f t # vs"
    using u v by (simp add: split update_rows_def)
  show "filter (\<lambda>x. th_id x \<noteq> th_id t) (update_rows p f ts) = filter (\<lambda>x. th_id x \<noteq> th_id t) ts"
    unfolding all by (simp add: split assms(4))
  show "sum_list (map th_count (update_rows p f ts)) = sum_list (map th_count ts) + 1"
    unfolding all by (simp add: split assms(5))
  show "f t \<in> set (update_rows p f ts)" unfolding all by simp
qed

text \<open>A rewrite of the row with an id that counts one mail and keeps identity, owner and key.\<close>

definition counts_one :: "(thread_row \<Rightarrow> thread_row) \<Rightarrow> bool" where
  "counts_one f \<longleftrightarrow> (\<forall>x. th_id (f x) = th_id x \<and> th_user (f x) = th_user x \<and> th_key (f x) = th_key x \<and>
     th_count (f x) = th_count x + 1)"

lemma rewrite_counted:
  assumes ok: "threads_ok db" and "t \<in> set (threads db)" and "counts_one f"
    and "\<And>x. x \<in> set (threads db) \<Longrightarrow> p x \<longleftrightarrow> th_id x = th_id t"
  shows "counted (th_user t) (th_id t) db (db\<lparr>threads := update_rows p f (threads db)\<rparr>) \<and>
    threads_ok (db\<lparr>threads := update_rows p f (threads db)\<rparr>)"
proof -
  have "distinct (map th_id (threads db))" using ok by (simp add: threads_ok_def)
  note u = update_one [OF this assms(2) assms(4), where f = f]
  have ids: "map (\<lambda>x. (th_id x, th_user x, th_key x)) (update_rows p f (threads db)) =
      map (\<lambda>x. (th_id x, th_user x, th_key x)) (threads db)"
    by (rule map_update_rows) (use assms(3) in \<open>simp add: counts_one_def\<close>)
  have "\<exists>y \<in> set (threads db). th_id y = th_id x \<and> th_user y = th_user x"
    if "x \<in> set (update_rows p f (threads db))" for x
    using that assms(3) by (auto simp: update_rows_def counts_one_def)
  then have "threads_ok (db\<lparr>threads := update_rows p f (threads db)\<rparr>)"
    using ok arg_cong [OF ids, of "map fst"] arg_cong [OF ids, of "map snd"]
    by (fastforce simp: threads_ok_def comp_def)
  moreover have "th_user x = th_user t" if "x \<in> set (threads db)" "th_id x = th_id t" for x
    using ok assms(2) that by (auto simp: threads_ok_def distinct_map dest: inj_onD)
  ultimately show ?thesis
    using u assms(3) by (auto simp: counted_def counts_one_def)
qed

lemma increment_counted:
  assumes "threads_ok db" and "increment_and_return env tid k db = (db', Inr r)"
    and "\<And>t. t \<in> set (threads db) \<Longrightarrow> th_id t = tid \<Longrightarrow> th_user t = user"
  shows "counted user (mr_thread r) db db' \<and> threads_ok db' \<and> mr_thread r = tid"
proof -
  obtain t where t: "List.find (\<lambda>t. th_id t = tid) (threads db) = Some t"
    and db': "db' = db\<lparr>threads := update_rows (\<lambda>t. th_id t = tid)
      (\<lambda>t. t\<lparr>th_count := th_count t + 1, th_last := Some (te_now env)\<rparr>) (threads db)\<rparr>" and r: "mr_thread r = tid"
    using assms(2) by (auto simp: increment_and_return_def split: if_splits option.splits)
  have "t \<in> set (threads db)" "th_id t = tid" using t by (auto simp: find_Some_iff)
  moreover from this have "th_user t = user" by (rule assms(3))
  ultimately show ?thesis
    using rewrite_counted [OF assms(1), of t "\<lambda>t. t\<lparr>th_count := th_count t + 1, th_last := Some (te_now env)\<rparr>"
        "\<lambda>t. th_id t = tid"] r
    unfolding db' by (simp add: counts_one_def)
qed

lemma increment_error: "increment_and_return env tid k db = (db', Inl e) \<Longrightarrow> db' = db"
  by (auto simp: increment_and_return_def split: if_splits option.splits)

lemma newest_mail_in: "newest_mail rs = Some r \<Longrightarrow> r \<in> set rs"
  by (induction rs arbitrary: r) (auto split: option.splits if_splits)

lemma found_thread_user:
  assumes "threads_ok db" "find_thread_by_message_id env mid user db = Some tid"
    and "t \<in> set (threads db)" "th_id t = tid"
  shows "th_user t = user"
proof -
  obtain r where "newest_mail (filter (\<lambda>r. ml_message r = mid \<and> ml_user r = user) (mails db)) = Some r" "ml_thread r = tid"
    using assms(2) by (auto simp: find_thread_by_message_id_def split: if_splits)
  then have "r \<in> set (mails db)" "ml_user r = user" by (auto dest: newest_mail_in)
  then show ?thesis using assms \<open>ml_thread r = tid\<close> by (auto simp: threads_ok_def)
qed

text \<open>The outcome of a tier: nothing changed and an error, or the mail counted in one thread of its user.\<close>

definition filed_once :: "uuid \<Rightarrow> thread_db \<Rightarrow> filed \<Rightarrow> bool" where
  "filed_once user db res \<longleftrightarrow>
     (case res of
        (db', Inl e) \<Rightarrow> db' = db
      | (db', Inr r) \<Rightarrow> counted user (mr_thread r) db db' \<and> threads_ok db')"

lemma increment_filed:
  assumes "threads_ok db"
    and "\<And>t. t \<in> set (threads db) \<Longrightarrow> th_id t = tid \<Longrightarrow> th_user t = user"
  shows "filed_once user db (increment_and_return env tid k db)"
proof (cases "increment_and_return env tid k db")
  case (Pair db' r)
  then show ?thesis
    using increment_counted [OF assms(1), of env tid k db' _ user] assms(2) increment_error [of env tid k db db']
    by (cases r) (auto simp: filed_once_def)
qed

lemma in_reply_to_filed:
  assumes "threads_ok db" "match_in_reply_to env m db = Some res"
  shows "filed_once (pm_user m) db res"
proof -
  obtain mid tid where "find_thread_by_message_id env mid (pm_user m) db = Some tid"
    and "res = increment_and_return env tid ''in_reply_to'' db"
    using assms(2) by (auto simp: match_in_reply_to_def split: option.splits if_splits)
  then show ?thesis using increment_filed [OF assms(1)] found_thread_user [OF assms(1)] by blast
qed

lemma references_filed:
  assumes "threads_ok db"
  shows "match_references env user rs db = Some res \<Longrightarrow> filed_once user db res"
proof (induction rs)
  case (Cons r rs)
  show ?case
  proof (cases "r = [] \<or> find_thread_by_message_id env r user db \<in> {None, Some uuid_nil}")
    case True
    then show ?thesis using Cons by (auto split: if_splits)
  next
    case False
    then obtain tid where t: "find_thread_by_message_id env r user db = Some tid" by auto
    then have "res = increment_and_return env tid ''references'' db" using Cons.prems False by auto
    then show ?thesis using increment_filed [OF assms] found_thread_user [OF assms t] by blast
  qed
qed simp

lemma best_candidate_in:
  "best_candidate s ts best score = Some t \<Longrightarrow> t \<in> set ts \<or> best = Some t"
  by (induction s ts best score rule: best_candidate.induct) (auto split: option.splits if_splits prod.splits)

lemma fuzzy_filed:
  assumes "threads_ok db" "fuzzy_match env m db = Some (db', r)"
  shows "counted (pm_user m) (mr_thread r) db db' \<and> threads_ok db'"
proof -
  obtain t where b: "best_candidate (pm_subject m) (candidates env m (collect_participants m) db) None 999 = Some t"
    and i: "increment_and_return env (th_id t) ''fuzzy_subject'' db = (db', Inr r)"
    using assms(2) by (auto simp: fuzzy_match_def Let_def split: if_splits option.splits prod.splits sum.splits)
  have "t \<in> set (threads db)" "th_user t = pm_user m"
    using best_candidate_in [OF b] by (auto simp: candidates_def candidate_def dest!: in_set_takeD)
  then have "th_user x = pm_user m" if "x \<in> set (threads db)" "th_id x = th_id t" for x
    using assms(1) that by (auto simp: threads_ok_def distinct_map dest: inj_onD)
  then show ?thesis using increment_counted [OF assms(1) i] by blast
qed

lemma create_filed:
  assumes ok: "threads_ok db" and "te_fresh env \<notin> th_id ` set (threads db)"
    and "te_fresh env \<notin> ml_thread ` set (mails db)"
  shows "filed_once (pm_user m) db (create_new_thread sha env m db)"
proof (cases "te_upsert_fails env")
  case False
  define key where "key = generate_thread_key sha (collect_participants m) (pm_subject m)"
  let ?p = "\<lambda>t. th_user t = pm_user m \<and> th_key t = key"
  show ?thesis
  proof (cases "List.find ?p (threads db)")
    case None
    then have "(pm_user m, key) \<notin> (\<lambda>t. (th_user t, th_key t)) ` set (threads db)"
      by (auto simp: find_None_iff)
    moreover have "\<forall>t \<in> set (threads db). th_id t \<noteq> te_fresh env" using assms(2) by force
    ultimately show ?thesis
      using None False assms
      by (auto simp: filed_once_def create_new_thread_def Let_def key_def counted_def threads_ok_def)
  next
    case (Some t)
    then have t: "t \<in> set (threads db)" "th_user t = pm_user m" "th_key t = key"
      by (auto simp: find_Some_iff)
    have "?p x \<longleftrightarrow> th_id x = th_id t" if "x \<in> set (threads db)" for x
    proof
      assume "?p x"
      then show "th_id x = th_id t"
        using ok t that inj_onD [of "\<lambda>t. (th_user t, th_key t)" "set (threads db)" x t]
        by (simp add: threads_ok_def distinct_map)
    next
      assume "th_id x = th_id t"
      then have "x = t" using ok t that by (auto simp: threads_ok_def distinct_map dest: inj_onD)
      then show "?p x" using t by simp
    qed
    from rewrite_counted [OF ok t(1) _ this] t(2) show ?thesis
      using Some False
      by (simp add: filed_once_def create_new_thread_def Let_def key_def [symmetric] counts_one_def)
  qed
qed (simp add: filed_once_def create_new_thread_def Let_def)

lemma find_or_create_filed:
  assumes "threads_ok db" and "te_fresh env \<notin> th_id ` set (threads db)"
    and "te_fresh env \<notin> ml_thread ` set (mails db)"
  shows "filed_once (pm_user m) db (find_or_create_thread sha env m db)"
  unfolding find_or_create_thread_def
  using in_reply_to_filed [OF assms(1), of env m] references_filed [OF assms(1), of env "pm_user m" "pm_references m"]
    fuzzy_filed [OF assms(1), of env m] create_filed [OF assms, of m sha]
  by (auto simp: filed_once_def [of _ _ "(_, Inr _)"] split: option.split)

definition ex_thread_env :: thread_env where
  "ex_thread_env =
     \<lparr>te_now = 900, te_fresh = 30, te_lookup_fails = (\<lambda>i. False), te_query_fails = False,
      te_scan_fails = (\<lambda>i. True), te_rows_fail = False, te_update_fails = False, te_upsert_fails = False\<rparr>"

definition ex_mail :: parsed_email where
  "ex_mail =
     \<lparr>pm_user = 1, pm_account = 2, pm_in_reply_to = None, pm_references = [], pm_sender = ''bob@x.io'',
      pm_recipients = [], pm_subject = ''Hi'', pm_received = 100\<rparr>"

definition ex_threads :: thread_db where
  "ex_threads =
     \<lparr>threads = [\<lparr>th_id = 4, th_user = 1, th_key = generate_thread_key (\<lambda>s. s) [''bob@x.io''] ''Hi'', th_account = 2,
        th_subject = Some ''Hi'', th_participants = [''bob@x.io''], th_count = 1, th_last = Some 800,
        th_status = ''active'', th_created = 800\<rparr>],
      mails = []\<rparr>"

lemma ex_threads_ok: "threads_ok ex_threads"
  by (simp add: threads_ok_def ex_threads_def)

lemma ex_participants: "collect_participants ex_mail = [''bob@x.io'']"
  by (simp add: collect_participants_def ex_mail_def trim_space_def is_space_def to_lower_def lower_char_def)

text \<open>
  Whichever tier finds or creates the thread, a mail that is filed is counted exactly once, in
  one thread of its own user; every other thread and the mail table are untouched, and thread ids,
  the keys of a user and the ownership of filed mails stay in order. A mail that is not filed
  changes nothing.
\<close>

lemma mail_counted_once:
  assumes "threads_ok db" and "te_fresh env \<notin> th_id ` set (threads db)"
    and "te_fresh env \<notin> ml_thread ` set (mails db)"
    and "find_or_create_thread sha env m db = (db', res)"
  shows "(\<exists>e. res = Inl e \<and> db' = db) \<or>
    (\<exists>r. res = Inr r \<and> mails db' = mails db \<and>
       filter (\<lambda>t. th_id t \<noteq> mr_thread r) (threads db') = filter (\<lambda>t. th_id t \<noteq> mr_thread r) (threads db) \<and>
       sum_list (map th_count (threads db')) = sum_list (map th_count (threads db)) + 1 \<and>
       (\<exists>t \<in> set (threads db'). th_id t = mr_thread r \<and> th_user t = pm_user m) \<and> threads_ok db')"
  using find_or_create_filed [OF assms(1-3), of m sha] assms(4)
  by (cases res) (auto simp: filed_once_def counted_def)

lemma mail_counted_once_witness:
  "\<exists>db' r. find_or_create_thread (\<lambda>s. s) ex_thread_env (ex_mail\<lparr>pm_subject := ''Other''\<rparr>) ex_threads = (db', Inr r) \<and>
     sum_list (map th_count (threads db')) = 2"
proof -
  let ?m = "ex_mail\<lparr>pm_subject := ''Other''\<rparr>"
  obtain db' res where run: "find_or_create_thread (\<lambda>s. s) ex_thread_env ?m ex_threads = (db', res)" by fastforce
  have "\<exists>r. res = Inr r"
    using run by (auto simp: find_or_create_thread_def match_in_reply_to_def ex_mail_def fuzzy_match_def Let_def
        candidates_def ex_thread_env_def create_new_thread_def split: option.splits if_splits)
  moreover have "te_fresh ex_thread_env \<notin> th_id ` set (threads ex_threads)"
    "te_fresh ex_thread_env \<notin> ml_thread ` set (mails ex_threads)"
    "sum_list (map th_count (threads ex_threads)) = 1"
    by (simp_all add: ex_thread_env_def ex_threads_def)
  ultimately show ?thesis using mail_counted_once [OF ex_threads_ok _ _ run] run by fastforce
qed

text \<open>
  The scan of a candidate reads the participants column into a Go slice, which database/sql
  does not convert; when every scan fails so, similar subjects never match. A mail without
  references then joins a thread only if the thread key is the same, and joining sets the time of
  the thread's last message to the mail's own time: an old mail that arrives late moves it
  backwards.
\<close>

lemma late_mail_moves_thread_backwards:
  assumes "threads_ok db" and "t \<in> set (threads db)" and "th_user t = pm_user m"
    and "th_key t = generate_thread_key sha (collect_participants m) (pm_subject m)"
    and "pm_in_reply_to m = None" and "pm_references m = []"
    and "\<forall>i. te_scan_fails env i" and "\<not> te_upsert_fails env" and "te_fresh env \<noteq> th_id t"
  shows "\<exists>db' t'. find_or_create_thread sha env m db =
      (db', Inr \<lparr>mr_thread = th_id t, mr_key = th_key t, mr_new = False, mr_method = ''concurrent_upsert''\<rparr>) \<and>
    t' \<in> set (threads db') \<and> th_id t' = th_id t \<and> th_count t' = th_count t + 1 \<and>
    th_last t' = Some (pm_received m)"
proof -
  let ?p = "\<lambda>x. th_user x = pm_user m \<and> th_key x = generate_thread_key sha (collect_participants m) (pm_subject m)"
  have "\<exists>x. List.find ?p (threads db) = Some x"
    using assms(2-4) by (auto simp: find_None_iff simp flip: not_None_eq)
  then obtain x where x: "List.find ?p (threads db) = Some x" ..
  then have "x \<in> set (threads db)" "?p x" by (auto simp: find_Some_iff)
  then have "x = t"
    using assms(1-4) inj_onD [of "\<lambda>t. (th_user t, th_key t)" "set (threads db)" x t]
    by (simp add: threads_ok_def distinct_map)
  moreover have "fuzzy_match env m db = None"
    using assms(7) by (simp add: fuzzy_match_def candidates_def Let_def)
  ultimately have run: "find_or_create_thread sha env m db = create_new_thread sha env m db"
    and f: "List.find ?p (threads db) = Some t"
    using x assms(5,6) by (simp_all add: find_or_create_thread_def match_in_reply_to_def)
  have "?p t" using assms(3,4) by simp
  then show ?thesis
    unfolding run using f assms(2,8,9)
    by (auto simp: create_new_thread_def Let_def update_rows_def intro!: bexI [of _ t])
qed

lemma late_mail_moves_thread_backwards_witness:
  "\<exists>db' r. find_or_create_thread (\<lambda>s. s) ex_thread_env ex_mail ex_threads = (db', Inr r) \<and>
     (\<exists>t' \<in> set (threads db'). th_last t' = Some 100) \<and> th_last (threads ex_threads ! 0) = Some 800"
proof -
  let ?t = "threads ex_threads ! 0"
  have t: "?t \<in> set (threads ex_threads)" "th_user ?t = pm_user ex_mail"
    "th_key ?t = generate_thread_key (\<lambda>s. s) (collect_participants ex_mail) (pm_subject ex_mail)"
    "pm_in_reply_to ex_mail = None" "pm_references ex_mail = []"
    "\<forall>i. te_scan_fails ex_thread_env i" "\<not> te_upsert_fails ex_thread_env" "te_fresh ex_thread_env \<noteq> th_id ?t"
    unfolding ex_participants by (simp_all add: ex_threads_def ex_mail_def ex_thread_env_def)
  from late_mail_moves_thread_backwards [OF ex_threads_ok t] show ?thesis
    by (auto simp: ex_mail_def) (auto simp: ex_threads_def)
qed

end
