(* ===== verification/Contacts.thy ===== *)
theory Contacts
  imports Thread_Subject Tables
begin

text \<open>
  Contact deduplication of \<open>src/ingestion/internal/contact\<close>: normal forms of addresses and names
  (\<open>normalize.go\<close>), similarity of two contacts (\<open>similar.go\<close>), the graph of contacts with its
  SIMILAR_TO edges (\<open>neo4j.go\<close>) and the deduplication engine (\<open>dedup.go\<close>). The address parser of
  \<open>net/mail\<close> is an argument. Scores are rationals. A query of the graph that fails leaves it as it is.
\<close>

section \<open>Normal forms\<close>

text \<open>\<open>mail.ParseAddress\<close>: the address of a well-formed input.\<close>

type_synonym parse_address = "string \<Rightarrow> string option"

text \<open>\<open>emailPlusRe.ReplaceAllString(email, "")\<close>: drop a plus and what follows, up to an at sign.\<close>

function strip_plus :: "string \<Rightarrow> string" where
  "strip_plus s =
     (case s of
        [] \<Rightarrow> []
      | c # t \<Rightarrow>
          if c = CHR ''+'' \<and> t \<noteq> [] \<and> hd t \<noteq> CHR ''@'' then strip_plus (dropWhile (\<lambda>d. d \<noteq> CHR ''@'') t)
          else c # strip_plus t)"
  by pat_completeness auto
termination by (relation "measure length") (auto simp: length_dropWhile_le less_Suc_eq_le)

declare strip_plus.simps [simp del, code del]

definition normalize_email :: "parse_address \<Rightarrow> string \<Rightarrow> string" where
  "normalize_email parse s =
     (let e = to_lower (trim_space s)
      in if e = [] then []
         else strip_plus (case parse e of Some a \<Rightarrow> if a \<noteq> [] then a else e | None \<Rightarrow> e))"

definition is_control :: "char \<Rightarrow> bool" where
  "is_control c = (let n = of_char c :: nat in n < 32 \<or> n = 127)"

definition normalize_name :: "string \<Rightarrow> string" where
  "normalize_name s =
     (let n = trim_space s
      in if n = [] then []
         else trim_space (collapse False (filter (\<lambda>c. \<not> is_control c \<or> is_space c) n)))"

definition extract_domain :: "string \<Rightarrow> string" where
  "extract_domain s =
     (let e = to_lower (trim_space s); r = takeWhile (\<lambda>c. c \<noteq> CHR ''@'') (rev e)
      in if length r = length e then [] else rev r)"

definition is_google_workspace_alias :: "string \<Rightarrow> string \<Rightarrow> bool" where
  "is_google_workspace_alias email domain \<longleftrightarrow> domain = ''gmail.com''"

definition upper_char :: "char \<Rightarrow> char" where
  "upper_char c = (let n = of_char c :: nat in if 97 \<le> n \<and> n \<le> 122 then char_of (n - 32) else c)"

definition add_variant :: "string \<Rightarrow> string list \<Rightarrow> string list" where
  "add_variant v vs = (if v \<in> set vs then vs else vs @ [v])"

definition generate_name_variants :: "string \<Rightarrow> string list" where
  "generate_name_variants s =
     (let name = normalize_name s; parts = str_fields name
      in if name = [] then []
         else if length parts < 2 then [name]
         else
          (let vs = add_variant (last parts) (add_variant (hd parts) [name]);
               ini = map (\<lambda>p. upper_char (hd p)) parts
           in if 2 \<le> length ini then add_variant ini vs else vs))"

section \<open>Similarity\<close>

record contact =
  co_id :: uuid
  co_user :: uuid
  co_email :: string
  co_variants :: "string list"
  co_first :: "instant option"
  co_last :: "instant option"
  co_count :: int

definition new_similar_matcher :: "rat \<Rightarrow> rat" where
  "new_similar_matcher t = (if t \<le> 0 \<or> 1 < t then 3/5 else t)"

fun common_prefix :: "string \<Rightarrow> string \<Rightarrow> nat" where
  "common_prefix (a # s) (b # t) = (if a = b then Suc (common_prefix s t) else 0)"
| "common_prefix _ _ = 0"

definition name_similarity :: "string list \<Rightarrow> string list \<Rightarrow> rat" where
  "name_similarity as bs =
     (if as = [] \<or> bs = [] then 0
      else
       (let a = to_lower (hd as); b = to_lower (hd bs)
        in if a = b then 1
           else
            (let prefix_score = of_nat (common_prefix a b) / of_nat (max (length a) (length b));
                 ratio = (if length b < length a then of_nat (length b) / of_nat (length a)
                          else if 0 < length b then of_nat (length a) / of_nat (length b) else 0);
                 score = 7/10 * prefix_score + 3/10 * ratio
             in if 1 < score then 1 else score)))"

definition domain_similarity :: "string \<Rightarrow> string \<Rightarrow> rat" where
  "domain_similarity a b =
     (let da = extract_domain a; db = extract_domain b
      in if da = [] \<or> db = [] then 0 else if equal_fold da db then 1 else 0)"

definition variant_overlap :: "string list \<Rightarrow> string list \<Rightarrow> rat" where
  "variant_overlap as bs =
     (if as = [] \<or> bs = [] then 0
      else
       (let common = length (filter (\<lambda>v. to_lower v \<in> to_lower ` set as) bs);
            union = int (length as) + int (length bs) - int common
        in if union = 0 then 0 else of_nat common / of_int union))"

definition check_similarity :: "rat \<Rightarrow> contact option \<Rightarrow> contact option \<Rightarrow> bool \<times> rat" where
  "check_similarity threshold a b =
     (case (a, b) of
        (Some x, Some y) \<Rightarrow>
          (let combined = 3/5 * name_similarity (co_variants x) (co_variants y) +
                 1/4 * domain_similarity (co_email x) (co_email y) +
                 3/20 * variant_overlap (co_variants x) (co_variants y)
           in (threshold \<le> combined, combined))
      | _ \<Rightarrow> (False, 0))"

definition is_letter :: "char \<Rightarrow> bool" where
  "is_letter c = (let n = of_char c :: nat in (65 \<le> n \<and> n \<le> 90) \<or> (97 \<le> n \<and> n \<le> 122))"

fun initials :: "bool \<Rightarrow> string \<Rightarrow> string" where
  "initials in_word [] = []"
| "initials in_word (c # s) =
     (if is_letter c then (if in_word then initials True s else upper_char c # initials True s)
      else initials False s)"

section \<open>The graph\<close>

record similar_edge =
  se_from :: uuid
  se_to :: uuid
  se_confidence :: rat
  se_reviewed :: bool

record contact_graph =
  cg_contacts :: "contact list"
  cg_edges :: "similar_edge list"
  cg_interactions :: "(uuid \<times> uuid) list"

datatype graph_stmt =
  FindByEmail string | FindByName string | CreateNode string | CreateEdge uuid uuid | RecordInteraction uuid

text \<open>The fresh id of a node depends on its address: one email creates several nodes.\<close>

record contact_env =
  ce_now :: instant
  ce_fresh :: "string \<Rightarrow> uuid"
  ce_fails :: "graph_stmt \<Rightarrow> bool"
  ce_parse :: parse_address

definition find_contact_by_email :: "contact_env \<Rightarrow> uuid \<Rightarrow> string \<Rightarrow> contact_graph \<Rightarrow> string + contact option" where
  "find_contact_by_email env user email g =
     (let c = normalize_email (ce_parse env) email
      in if ce_fails env (FindByEmail c) then Inl ''neo4j find by email''
         else Inr (List.find (\<lambda>x. co_user x = user \<and> co_email x = c) (cg_contacts g)))"

definition find_contacts_by_name :: "contact_env \<Rightarrow> uuid \<Rightarrow> string \<Rightarrow> contact_graph \<Rightarrow> string + contact list" where
  "find_contacts_by_name env user name g =
     (let n = normalize_name name
      in if n = [] then Inr []
         else if ce_fails env (FindByName n) then Inl ''neo4j find by name''
         else Inr (take 20 (filter (\<lambda>x. co_user x = user \<and>
                (\<exists>v \<in> set (co_variants x). str_contains (to_lower v) (to_lower n))) (cg_contacts g))))"

definition new_contact :: "contact_env \<Rightarrow> uuid \<Rightarrow> string \<Rightarrow> string \<Rightarrow> contact" where
  "new_contact env user email name =
     (let c = normalize_email (ce_parse env) email
      in \<lparr>co_id = ce_fresh env c, co_user = user, co_email = c, co_variants = generate_name_variants name,
          co_first = Some (ce_now env), co_last = Some (ce_now env), co_count = 0\<rparr>)"

definition create_contact ::
  "contact_env \<Rightarrow> uuid \<Rightarrow> string \<Rightarrow> string \<Rightarrow> contact_graph \<Rightarrow> contact_graph \<times> (string + contact)" where
  "create_contact env user email name g =
     (let x = new_contact env user email name
      in if ce_fails env (CreateNode (co_email x)) then (g, Inl ''neo4j create contact'')
         else (g\<lparr>cg_contacts := cg_contacts g @ [x]\<rparr>, Inr x))"

text \<open>Both ends must exist and differ; MERGE updates the confidence of an edge that exists.\<close>

definition has_node :: "uuid \<Rightarrow> contact_graph \<Rightarrow> bool" where
  "has_node i g = list_ex (\<lambda>x. co_id x = i) (cg_contacts g)"

definition create_similar_to_edge ::
  "contact_env \<Rightarrow> uuid \<Rightarrow> uuid \<Rightarrow> rat \<Rightarrow> contact_graph \<Rightarrow> contact_graph \<times> string option" where
  "create_similar_to_edge env a b confidence g =
     (if ce_fails env (CreateEdge a b) then (g, Some ''neo4j create similar_to edge'')
      else if \<not> has_node a g \<or> \<not> has_node b g \<or> a = b then (g, None)
      else
       (let p = (\<lambda>e. se_from e = a \<and> se_to e = b)
        in (g\<lparr>cg_edges :=
              (if rows_matching p (cg_edges g) = 0
               then cg_edges g @ [\<lparr>se_from = a, se_to = b, se_confidence = confidence, se_reviewed = False\<rparr>]
               else update_rows p (\<lambda>e. e\<lparr>se_confidence := confidence\<rparr>) (cg_edges g))\<rparr>, None)))"

definition update_contact_interaction ::
  "contact_env \<Rightarrow> uuid \<Rightarrow> uuid \<Rightarrow> contact_graph \<Rightarrow> contact_graph \<times> string option" where
  "update_contact_interaction env cid tid g =
     (if ce_fails env (RecordInteraction cid) then (g, Some ''neo4j update interaction'')
      else if \<not> has_node cid g then (g, None)
      else (g\<lparr>cg_interactions := cg_interactions g @ [(cid, tid)],
              cg_contacts := update_rows (\<lambda>x. co_id x = cid)
                (\<lambda>x. x\<lparr>co_count := co_count x + 1, co_last := Some (ce_now env)\<rparr>) (cg_contacts g)\<rparr>, None))"

section \<open>Deduplication\<close>

record dedup_result =
  dr_contact :: uuid
  dr_new :: bool
  dr_fuzzy :: bool
  dr_similar :: "uuid list"

definition has_variant :: "string list \<Rightarrow> string \<Rightarrow> bool" where
  "has_variant vs name = list_ex (\<lambda>v. equal_fold v (to_lower name)) vs"

definition similarity_threshold :: rat where
  "similarity_threshold = new_similar_matcher (3/5)"

text \<open>
  The candidate loop: an edge from the candidate to the nil identifier, which no node has, and the
  candidate remembered; a failed edge is only logged.
\<close>

fun flag_similar ::
  "contact_env \<Rightarrow> uuid \<Rightarrow> string \<Rightarrow> string \<Rightarrow> contact list \<Rightarrow> contact_graph \<Rightarrow> contact_graph \<times> uuid list" where
  "flag_similar env user email name [] g = (g, [])"
| "flag_similar env user email name (x # xs) g =
     (if equal_fold (co_email x) email then flag_similar env user email name xs g
      else
       (case check_similarity similarity_threshold
            (Some \<lparr>co_id = uuid_nil, co_user = user, co_email = email, co_variants = generate_name_variants name,
              co_first = None, co_last = None, co_count = 0\<rparr>) (Some x) of
          (False, _) \<Rightarrow> flag_similar env user email name xs g
        | (True, conf) \<Rightarrow>
            (case flag_similar env user email name xs (fst (create_similar_to_edge env (co_id x) uuid_nil conf g)) of
               (g', ids) \<Rightarrow> (g', co_id x # ids))))"

definition link_similar :: "contact_env \<Rightarrow> uuid \<Rightarrow> uuid list \<Rightarrow> contact_graph \<Rightarrow> contact_graph" where
  "link_similar env cid ids g = fold (\<lambda>i g. fst (create_similar_to_edge env cid i (3/4) g)) ids g"

definition create_result ::
  "contact_env \<Rightarrow> uuid \<Rightarrow> string \<Rightarrow> string \<Rightarrow> uuid list \<Rightarrow> contact_graph \<Rightarrow> contact_graph \<times> (string + dedup_result)" where
  "create_result env user canonical name similar g =
     (case create_contact env user canonical name g of
        (g', Inl e) \<Rightarrow> (g', Inl ((if similar = [] then ''dedup: create new contact: ''
                               else ''dedup: create contact after fuzzy match: '') @ e))
      | (g', Inr x) \<Rightarrow>
          (link_similar env (co_id x) similar g',
           Inr \<lparr>dr_contact = co_id x, dr_new = True, dr_fuzzy = similar \<noteq> [], dr_similar = similar\<rparr>))"

definition dedup ::
  "contact_env \<Rightarrow> uuid \<Rightarrow> string \<Rightarrow> string \<Rightarrow> contact_graph \<Rightarrow> contact_graph \<times> (string + dedup_result)" where
  "dedup env user email name g =
     (let canonical = normalize_email (ce_parse env) email; n = normalize_name name
      in (case find_contact_by_email env user canonical g of
            Inl e \<Rightarrow> (g, Inl (''dedup: exact lookup failed: '' @ e))
          | Inr (Some x) \<Rightarrow> (g, Inr \<lparr>dr_contact = co_id x, dr_new = False, dr_fuzzy = False, dr_similar = []\<rparr>)
          | Inr None \<Rightarrow>
              if n = [] then create_result env user canonical n [] g
              else (case find_contacts_by_name env user n g of
                      Inl e \<Rightarrow> (g, Inl (''dedup: name lookup failed: '' @ e))
                    | Inr xs \<Rightarrow>
                        (case flag_similar env user canonical n xs g of
                           (g', similar) \<Rightarrow> create_result env user canonical n similar g'))))"

text \<open>The results of an email by canonical address, in the order they are resolved.\<close>

fun dedup_recipients ::
  "contact_env \<Rightarrow> uuid \<Rightarrow> string list \<Rightarrow> (string \<times> dedup_result) list \<Rightarrow> contact_graph \<Rightarrow>
   contact_graph \<times> (string + (string \<times> dedup_result) list)" where
  "dedup_recipients env user [] acc g = (g, Inr acc)"
| "dedup_recipients env user (r # rs) acc g =
     (let c = normalize_email (ce_parse env) r
      in if c = [] \<or> c \<in> fst ` set acc then dedup_recipients env user rs acc g
         else (case dedup env user r [] g of
                 (g', Inl e) \<Rightarrow> (g', Inl (''dedup recipient '' @ r @ '': '' @ e))
               | (g', Inr d) \<Rightarrow> dedup_recipients env user rs (acc @ [(c, d)]) g'))"

definition dedup_all ::
  "contact_env \<Rightarrow> uuid \<Rightarrow> string \<Rightarrow> string \<Rightarrow> string list \<Rightarrow> contact_graph \<Rightarrow>
   contact_graph \<times> (string + (string \<times> dedup_result) list)" where
  "dedup_all env user sender name recipients g =
     (case dedup env user sender name g of
        (g', Inl e) \<Rightarrow> (g', Inl (''dedup sender: '' @ e))
      | (g', Inr d) \<Rightarrow> dedup_recipients env user recipients [(normalize_email (ce_parse env) sender, d)] g')"

section \<open>Normal forms are stable\<close>

lemma strip_plus_Nil [simp, code]: "strip_plus [] = []"
  by (simp add: strip_plus.simps)

lemma strip_plus_Cons [code]:
  "strip_plus (c # t) =
     (if c = CHR ''+'' \<and> t \<noteq> [] \<and> hd t \<noteq> CHR ''@'' then strip_plus (dropWhile (\<lambda>d. d \<noteq> CHR ''@'') t)
      else c # strip_plus t)"
  by (simp add: strip_plus.simps)

lemma strip_plus_idem [simp]: "strip_plus (strip_plus s) = strip_plus s"
proof (induction s rule: strip_plus.induct)
  case (1 s)
  show ?case
  proof (cases s)
    case (Cons c t)
    show ?thesis
    proof (cases "c = CHR ''+'' \<and> t \<noteq> [] \<and> hd t \<noteq> CHR ''@''")
      case True
      then show ?thesis using 1(1) [OF Cons True] Cons by (simp add: strip_plus_Cons)
    next
      case False
      have "strip_plus (c # strip_plus t) = c # strip_plus (strip_plus t)"
      proof (cases t)
        case (Cons d u)
        then have "c = CHR ''+'' \<longrightarrow> d = CHR ''@''" using False by auto
        then have "c = CHR ''+'' \<longrightarrow> hd (strip_plus t) = CHR ''@''" using Cons by (simp add: strip_plus_Cons)
        then show ?thesis by (auto simp: strip_plus_Cons)
      qed (simp add: strip_plus_Cons)
      moreover have "strip_plus s = c # strip_plus t"
        unfolding Cons strip_plus_Cons using False by (simp only: if_False)
      ultimately show ?thesis using 1(2) [OF Cons False] by (simp only:)
    qed
  qed simp
qed

text \<open>Text without two white space characters in a row, and no white space but blanks.\<close>

fun collapsed :: "string \<Rightarrow> bool" where
  "collapsed [] = True"
| "collapsed (c # s) = ((re_space c \<longrightarrow> c = CHR '' '' \<and> (s \<noteq> [] \<longrightarrow> \<not> re_space (hd s))) \<and> collapsed s)"

lemma re_space_blank [simp]: "re_space CHR '' ''"
  by (simp add: re_space_def)

lemma collapsed_collapse: "collapsed (collapse b s) \<and> (b \<longrightarrow> collapse b s \<noteq> [] \<longrightarrow> \<not> re_space (hd (collapse b s)))"
  by (induction b s rule: collapse.induct) auto

lemma collapse_collapsed: "collapsed s \<Longrightarrow> (b \<longrightarrow> s \<noteq> [] \<longrightarrow> \<not> re_space (hd s)) \<Longrightarrow> collapse b s = s"
  by (induction s arbitrary: b) auto

lemma collapsed_append: "collapsed (s @ t) \<Longrightarrow> collapsed s \<and> collapsed t"
  by (induction s) (auto simp: hd_append split: if_splits)

lemma trim_factor: "\<exists>u v. s = u @ trim_space s @ v"
proof -
  let ?d = "dropWhile is_space s"
  have "s = takeWhile is_space s @ ?d" by simp
  moreover have "?d = rev (dropWhile is_space (rev ?d)) @ rev (takeWhile is_space (rev ?d))"
    by (metis rev_append rev_rev_ident takeWhile_dropWhile_id)
  ultimately show ?thesis unfolding trim_space_def by (metis append_assoc)
qed

lemma set_trim_space: "set (trim_space s) \<subseteq> set s"
  using trim_factor [of s] by (metis Un_iff set_append subsetI)

lemma set_collapse: "c \<in> set (collapse b s) \<Longrightarrow> c \<in> set s \<or> c = CHR '' ''"
  by (induction b s rule: collapse.induct) (auto split: if_splits)

lemma collapsed_trim: "collapsed s \<Longrightarrow> collapsed (trim_space s)"
  using collapsed_append trim_factor [of s] by metis

lemma normalize_name_idem [simp]: "normalize_name (normalize_name s) = normalize_name s"
proof (cases "normalize_name s = []")
  case False
  define f where "f = (\<lambda>c. \<not> is_control c \<or> is_space c)"
  define x where "x = collapse False (filter f (trim_space s))"
  have n: "normalize_name s = trim_space x"
    using False by (auto simp: normalize_name_def x_def f_def Let_def)
  have "f c" if "c \<in> set x" for c
    using set_collapse [OF that [unfolded x_def]]
  proof
    assume "c = CHR '' ''"
    then show "f c" by (simp add: f_def is_space_def)
  qed simp
  then have "filter f (trim_space x) = trim_space x"
    using set_trim_space [of x] by (auto simp: filter_id_conv)
  moreover have "collapsed x" by (simp add: x_def collapsed_collapse)
  then have "collapse False (trim_space x) = trim_space x"
    by (simp add: collapsed_trim collapse_collapsed)
  ultimately have "normalize_name (trim_space x) = trim_space x"
    unfolding normalize_name_def Let_def f_def [symmetric] by simp
  then show ?thesis unfolding n .
qed (simp add: normalize_name_def)

lemma generate_variants_normal [simp]:
  "generate_name_variants (normalize_name s) = generate_name_variants s"
  by (simp add: generate_name_variants_def)

lemma distinct_add_variant [simp]: "distinct vs \<Longrightarrow> distinct (add_variant v vs)"
  by (simp add: add_variant_def)

lemma distinct_variants: "distinct (generate_name_variants s)"
  by (simp add: generate_name_variants_def Let_def)

section \<open>Scores\<close>

lemma common_prefix_le: "common_prefix s t \<le> length s \<and> common_prefix s t \<le> length t"
  by (induction s t rule: common_prefix.induct) auto

lemma common_prefix_sym: "common_prefix s t = common_prefix t s"
  by (induction s t rule: common_prefix.induct) auto

lemma quotient_range: "a \<le> b \<Longrightarrow> 0 \<le> (of_nat a :: rat) / of_nat b \<and> (of_nat a :: rat) / of_nat b \<le> 1"
  by (cases "b = 0") (auto simp: divide_le_eq)

lemma name_similarity_range: "0 \<le> name_similarity as bs \<and> name_similarity as bs \<le> 1"
proof -
  have m: "common_prefix s t \<le> max (length s) (length t)" for s t
    using common_prefix_le [of s t] by linarith
  show ?thesis
    using quotient_range [OF m] quotient_range [of "length (hd bs)" "length (hd as)"]
      quotient_range [of "length (hd as)" "length (hd bs)"]
    by (auto simp: name_similarity_def Let_def intro!: add_nonneg_nonneg mult_nonneg_nonneg)
qed

lemma name_similarity_sym: "name_similarity as bs = name_similarity bs as"
  by (auto simp: name_similarity_def Let_def common_prefix_sym max.commute)

lemma variant_overlap_range:
  assumes "distinct (map to_lower bs)"
  shows "0 \<le> variant_overlap as bs \<and> variant_overlap as bs \<le> 1"
proof -
  let ?F = "filter (\<lambda>v. to_lower v \<in> to_lower ` set as) bs"
  have "distinct (map to_lower ?F)" using assms by (simp add: distinct_map inj_on_def)
  then have "length ?F = card (to_lower ` set ?F)" by (metis distinct_card length_map set_map)
  also have "\<dots> \<le> card (to_lower ` set as)" by (rule card_mono) auto
  also have "\<dots> \<le> length as" by (metis card_length list.set_map length_map)
  finally have a: "length ?F \<le> length as" .
  have "int (length ?F) \<le> int (length as) + int (length bs) - int (length ?F)"
    using a length_filter_le [of "\<lambda>v. to_lower v \<in> to_lower ` set as" bs] by linarith
  then have "(of_nat (length ?F) :: rat) \<le> of_int (int (length as) + int (length bs) - int (length ?F))"
    by (metis of_int_le_iff of_int_of_nat_eq)
  then show ?thesis by (auto simp: variant_overlap_def Let_def divide_le_eq)
qed

text \<open>
  The combined score lies between 0 and 1 when the variants of the second contact differ by more
  than case. Variants that are written by others need not: then the score can exceed 1.
\<close>

lemma similarity_score_range:
  assumes "distinct (map to_lower (co_variants y))"
  shows "0 \<le> snd (check_similarity t (Some x) (Some y)) \<and> snd (check_similarity t (Some x) (Some y)) \<le> 1"
proof -
  have "0 \<le> domain_similarity (co_email x) (co_email y) \<and> domain_similarity (co_email x) (co_email y) \<le> 1"
    by (simp add: domain_similarity_def Let_def)
  then show ?thesis
    using name_similarity_range [of "co_variants x" "co_variants y"]
      variant_overlap_range [OF assms, of "co_variants x"]
    by (auto simp: check_similarity_def Let_def)
qed

lemma variant_overlap_above_one: "variant_overlap [''ann''] [''Ann'', ''ANN'', ''ann''] = 3"
  by code_simp

section \<open>One contact per address\<close>

text \<open>Identifiers are unique, a user has one contact per address, edges join two known contacts.\<close>

definition contacts_ok :: "contact_graph \<Rightarrow> bool" where
  "contacts_ok g \<longleftrightarrow>
     distinct (map co_id (cg_contacts g)) \<and>
     distinct (map (\<lambda>x. (co_user x, co_email x)) (cg_contacts g)) \<and>
     (\<forall>x \<in> set (cg_contacts g). co_id x \<noteq> uuid_nil) \<and>
     (\<forall>e \<in> set (cg_edges g). has_node (se_from e) g \<and> has_node (se_to e) g \<and> se_from e \<noteq> se_to e)"

text \<open>
  Fresh identifiers are not nil, differ from address to address, and belong to no other contact.
\<close>

definition fresh_for :: "contact_env \<Rightarrow> uuid \<Rightarrow> contact_graph \<Rightarrow> bool" where
  "fresh_for env user g \<longleftrightarrow>
     inj (ce_fresh env) \<and> (\<forall>e. ce_fresh env e \<noteq> uuid_nil) \<and>
     (\<forall>e. \<forall>x \<in> set (cg_contacts g). co_id x = ce_fresh env e \<longrightarrow> co_user x = user \<and> co_email x = e)"

lemma has_node_iff: "has_node i g \<longleftrightarrow> (\<exists>x \<in> set (cg_contacts g). co_id x = i)"
  by (auto simp: has_node_def list_ex_iff)

text \<open>Edges change no contact and join known contacts.\<close>

lemma edge_contacts [simp]: "cg_contacts (fst (create_similar_to_edge env a b r g)) = cg_contacts g"
  by (simp add: create_similar_to_edge_def)

lemma has_node_contacts: "cg_contacts g' = cg_contacts g \<Longrightarrow> has_node i g' = has_node i g"
  by (simp add: has_node_def)

lemma edge_ok:
  assumes "contacts_ok g"
  shows "contacts_ok (fst (create_similar_to_edge env a b r g))"
proof -
  let ?g = "fst (create_similar_to_edge env a b r g)"
  have n: "has_node i ?g = has_node i g" for i by (rule has_node_contacts) simp
  have "has_node (se_from e) g \<and> has_node (se_to e) g \<and> se_from e \<noteq> se_to e" if "e \<in> set (cg_edges ?g)" for e
  proof -
    have "e \<in> set (cg_edges g) \<or> (\<exists>d \<in> set (cg_edges g). se_from e = se_from d \<and> se_to e = se_to d) \<or>
        (has_node a g \<and> has_node b g \<and> a \<noteq> b \<and> se_from e = a \<and> se_to e = b)"
      using that by (auto simp: create_similar_to_edge_def Let_def update_rows_def split: if_splits)
    then show ?thesis using assms unfolding contacts_ok_def by metis
  qed
  then show ?thesis using assms n by (simp add: contacts_ok_def)
qed

lemma nil_edge: "contacts_ok g \<Longrightarrow> fst (create_similar_to_edge env a uuid_nil r g) = g"
  by (auto simp: create_similar_to_edge_def contacts_ok_def has_node_iff)

lemma flag_similar_same: "contacts_ok g \<Longrightarrow> fst (flag_similar env user email name xs g) = g"
proof (induction xs)
  case (Cons x xs)
  then show ?case
    using nil_edge [OF Cons.prems] by (auto split: prod.splits bool.splits)
qed simp

lemma link_contacts [simp]: "cg_contacts (link_similar env i js g) = cg_contacts g"
  unfolding link_similar_def by (induction js arbitrary: g) simp_all

lemma link_ok: "contacts_ok g \<Longrightarrow> contacts_ok (link_similar env i js g)"
  unfolding link_similar_def by (induction js arbitrary: g) (simp_all add: edge_ok)

section \<open>What a deduplication does\<close>

text \<open>The address under which a contact is stored and looked up: the engine and the graph both normalise.\<close>

definition contact_key :: "contact_env \<Rightarrow> string \<Rightarrow> string" where
  "contact_key env email = normalize_email (ce_parse env) (normalize_email (ce_parse env) email)"

definition owns :: "uuid \<Rightarrow> string \<Rightarrow> contact \<Rightarrow> bool" where
  "owns user key x \<longleftrightarrow> co_user x = user \<and> co_email x = key"

lemma dedup_cases:
  assumes "contacts_ok g" "dedup env user email name g = (g', r)"
  obtains (failed) e where "r = Inl e" "g' = g"
    | (found) x where "List.find (owns user (contact_key env email)) (cg_contacts g) = Some x" "g' = g"
        "r = Inr \<lparr>dr_contact = co_id x, dr_new = False, dr_fuzzy = False, dr_similar = []\<rparr>"
    | (created) x ids where "List.find (owns user (contact_key env email)) (cg_contacts g) = None"
        "x = new_contact env user (normalize_email (ce_parse env) email) (normalize_name name)"
        "g' = link_similar env (co_id x) ids (g\<lparr>cg_contacts := cg_contacts g @ [x]\<rparr>)"
        "r = Inr \<lparr>dr_contact = co_id x, dr_new = True, dr_fuzzy = ids \<noteq> [], dr_similar = ids\<rparr>"
proof -
  have f: "find_contact_by_email env user (normalize_email (ce_parse env) email) g =
      (if ce_fails env (FindByEmail (contact_key env email)) then Inl ''neo4j find by email''
       else Inr (List.find (owns user (contact_key env email)) (cg_contacts g)))"
    by (simp add: find_contact_by_email_def contact_key_def owns_def [abs_def] Let_def)
  have c: thesis if res: "create_result env user (normalize_email (ce_parse env) email) (normalize_name name) ids g = (g', r)"
    and none: "List.find (owns user (contact_key env email)) (cg_contacts g) = None" for ids
  proof (cases "ce_fails env (CreateNode (co_email (new_contact env user (normalize_email (ce_parse env) email) (normalize_name name))))")
    case True
    then show thesis using failed res by (auto simp: create_result_def create_contact_def Let_def)
  next
    case False
    then show thesis using created [OF none refl, of ids] res by (auto simp: create_result_def create_contact_def Let_def)
  qed
  show thesis
  proof (cases "ce_fails env (FindByEmail (contact_key env email))")
    case True
    then show thesis using failed assms(2) f by (auto simp: dedup_def Let_def)
  next
    case False
    show thesis
    proof (cases "List.find (owns user (contact_key env email)) (cg_contacts g)")
      case (Some x)
      then show thesis using found [OF Some] assms(2) f False by (auto simp: dedup_def Let_def)
    next
      case None
      show thesis
      proof (cases "normalize_name name = []")
        case True
        then show thesis using c [OF _ None, of "[]"] assms(2) f False None by (auto simp: dedup_def Let_def)
      next
        case name: False
        show thesis
        proof (cases "find_contacts_by_name env user (normalize_name name) g")
          case (Inl e)
          then show thesis using failed assms(2) f False None name by (auto simp: dedup_def Let_def)
        next
          case (Inr xs)
          obtain ids where "flag_similar env user (normalize_email (ce_parse env) email) (normalize_name name) xs g = (g, ids)"
            using flag_similar_same [OF assms(1)] by (metis fst_conv prod.exhaust)
          then show thesis using c [OF _ None, of ids] assms(2) f False None name Inr by (simp add: dedup_def Let_def)
        qed
      qed
    qed
  qed
qed

lemma new_contact_key:
  "owns user (contact_key env email) (new_contact env user (normalize_email (ce_parse env) email) name)"
  by (simp add: owns_def contact_key_def new_contact_def Let_def)

text \<open>
  The outcome of one deduplication: contacts are only added, at most one, the invariant stays, and
  the result is the contact of the address.
\<close>

lemma dedup_step:
  assumes ok: "contacts_ok g" and fr: "fresh_for env user g" and d: "dedup env user email name g = (g', r)"
  shows "contacts_ok g' \<and> fresh_for env user g' \<and> (\<exists>new. cg_contacts g' = cg_contacts g @ new \<and> length new \<le> 1) \<and>
    (\<forall>d. r = Inr d \<longrightarrow> (\<exists>x. List.find (owns user (contact_key env email)) (cg_contacts g') = Some x \<and>
       co_id x = dr_contact d))"
  using ok d
proof (cases rule: dedup_cases)
  case (failed e)
  then show ?thesis using assms by auto
next
  case (found x)
  then show ?thesis using assms by auto
next
  case (created x ids)
  have key: "owns user (contact_key env email) x" using new_contact_key created(2) by simp
  then have x: "co_user x = user" "co_email x = contact_key env email" by (simp_all add: owns_def)
  have i: "co_id x = ce_fresh env (contact_key env email)"
    using created(2) by (simp add: new_contact_def contact_key_def Let_def)
  have none: "\<not> owns user (contact_key env email) y" if "y \<in> set (cg_contacts g)" for y
    using created(1) that by (auto simp: find_None_iff)
  have cs: "cg_contacts g' = cg_contacts g @ [x]" using created(3) by simp
  have fresh: "co_id x \<notin> co_id ` set (cg_contacts g)"
  proof
    assume "co_id x \<in> co_id ` set (cg_contacts g)"
    then obtain y where "y \<in> set (cg_contacts g)" "co_id y = ce_fresh env (contact_key env email)" using i by auto
    with fr none show False by (auto simp: fresh_for_def owns_def)
  qed
  have "contacts_ok (g\<lparr>cg_contacts := cg_contacts g @ [x]\<rparr>)"
    using ok fresh none x i fr by (fastforce simp: contacts_ok_def fresh_for_def owns_def has_node_iff)
  then have "contacts_ok g'" unfolding created(3) by (rule link_ok)
  moreover have "fresh_for env user g'"
    using fr x i unfolding fresh_for_def cs by (auto dest: injD)
  moreover have "List.find (owns user (contact_key env email)) (cg_contacts g') = Some x"
    using created(1) key unfolding cs by (simp add: find_append)
  ultimately show ?thesis using created(4) cs by auto
qed

text \<open>
  Deduplication never merges and is stable. A deduplication keeps identifiers and addresses
  unique, leaves every contact as it is and adds at most one; asked again for the same address,
  under any name, it answers with the same contact and changes nothing.
\<close>

lemma dedup_is_stable:
  assumes "contacts_ok g" "fresh_for env user g" "dedup env user email name g = (g', Inr d)"
    and "ce_parse env' = ce_parse env" "\<And>s. \<not> ce_fails env' s"
  shows "contacts_ok g' \<and> (\<exists>new. cg_contacts g' = cg_contacts g @ new \<and> length new \<le> 1) \<and>
    dedup env' user email name' g' =
      (g', Inr \<lparr>dr_contact = dr_contact d, dr_new = False, dr_fuzzy = False, dr_similar = []\<rparr>)"
proof -
  obtain x where x: "List.find (owns user (contact_key env email)) (cg_contacts g') = Some x" "co_id x = dr_contact d"
    using dedup_step [OF assms(1-3)] by blast
  have "find_contact_by_email env' user (normalize_email (ce_parse env') email) g' = Inr (Some x)"
    using x(1) assms(4,5) by (simp add: find_contact_by_email_def contact_key_def owns_def [abs_def] Let_def)
  then have "dedup env' user email name' g' =
      (g', Inr \<lparr>dr_contact = dr_contact d, dr_new = False, dr_fuzzy = False, dr_similar = []\<rparr>)"
    using x(2) assms(4) by (simp add: dedup_def Let_def)
  then show ?thesis using dedup_step [OF assms(1-3)] by blast
qed

text \<open>All participants of an email.\<close>

definition resolved :: "contact_env \<Rightarrow> uuid \<Rightarrow> contact_graph \<Rightarrow> string \<times> dedup_result \<Rightarrow> bool" where
  "resolved env user g p \<longleftrightarrow>
     (\<exists>x \<in> set (cg_contacts g). co_id x = dr_contact (snd p) \<and>
        owns user (normalize_email (ce_parse env) (fst p)) x)"

lemma resolved_mono: "resolved env user g p \<Longrightarrow> cg_contacts g' = cg_contacts g @ new \<Longrightarrow> resolved env user g' p"
  by (auto simp: resolved_def)

lemma dedup_recipients_step:
  assumes "contacts_ok g" "fresh_for env user g" "\<forall>p \<in> set acc. resolved env user g p" "distinct (map fst acc)"
    and "dedup_recipients env user rs acc g = (g', Inr m)"
  shows "contacts_ok g' \<and> (\<exists>new. cg_contacts g' = cg_contacts g @ new) \<and> (\<forall>p \<in> set m. resolved env user g' p) \<and>
    distinct (map fst m) \<and>
    set (map fst m) = set (map fst acc) \<union> (normalize_email (ce_parse env) ` set rs - {[]})"
  using assms
proof (induction env user rs acc g rule: dedup_recipients.induct)
  case (1 env user acc g)
  then show ?case by auto
next
  case (2 env user r rs acc g)
  let ?c = "normalize_email (ce_parse env) r"
  show ?case
  proof (cases "?c = [] \<or> ?c \<in> fst ` set acc")
    case True
    then have run: "dedup_recipients env user rs acc g = (g', Inr m)" using "2.prems"(5) by simp
    show ?thesis using "2.IH"(1) [OF refl True "2.prems"(1-4) run] True by auto
  next
    case False
    obtain g1 d where d: "dedup env user r [] g = (g1, Inr d)"
      and run: "dedup_recipients env user rs (acc @ [(?c, d)]) g1 = (g', Inr m)"
      using "2.prems"(5) False by (auto simp: Let_def split: prod.splits sum.splits)
    note s = dedup_step [OF "2.prems"(1,2) d]
    obtain new where new: "cg_contacts g1 = cg_contacts g @ new" using s by blast
    obtain x where x: "List.find (owns user (contact_key env r)) (cg_contacts g1) = Some x" "co_id x = dr_contact d"
      using s by blast
    then have "resolved env user g1 (?c, d)"
      by (auto simp: resolved_def contact_key_def find_Some_iff intro!: bexI [of _ x])
    then have all: "\<forall>p \<in> set (acc @ [(?c, d)]). resolved env user g1 p"
      using "2.prems"(3) resolved_mono [OF _ new] by auto
    have dis: "distinct (map fst (acc @ [(?c, d)]))" using "2.prems"(4) False by auto
    have ok: "contacts_ok g1" "fresh_for env user g1" using s by blast+
    from "2.IH"(2) [OF refl False d [symmetric] refl ok all dis run] show ?thesis
      using new False by auto
  qed
qed

text \<open>Whatever the outcome, the invariant stays and contacts are only added.\<close>

lemma dedup_recipients_ok:
  "contacts_ok g \<Longrightarrow> fresh_for env user g \<Longrightarrow> dedup_recipients env user rs acc g = (g', r) \<Longrightarrow>
   contacts_ok g' \<and> fresh_for env user g' \<and> (\<exists>new. cg_contacts g' = cg_contacts g @ new)"
proof (induction env user rs acc g rule: dedup_recipients.induct)
  case (2 env user c rs acc g)
  let ?c = "normalize_email (ce_parse env) c"
  show ?case
  proof (cases "?c = [] \<or> ?c \<in> fst ` set acc")
    case True
    then show ?thesis using "2.IH"(1) [OF refl True "2.prems"(1,2)] "2.prems"(3) by simp
  next
    case False
    obtain g1 d where d: "dedup env user c [] g = (g1, d)" by fastforce
    note s = dedup_step [OF "2.prems"(1,2) d]
    show ?thesis
    proof (cases d)
      case (Inl e)
      then show ?thesis using s "2.prems"(3) False d by (auto simp: Let_def)
    next
      case (Inr x)
      then have run: "dedup_recipients env user rs (acc @ [(?c, x)]) g1 = (g', r)"
        using "2.prems"(3) False d by (simp add: Let_def)
      have "contacts_ok g1" "fresh_for env user g1" using s by blast+
      from "2.IH"(2) [OF refl False d [symmetric] Inr this run] s show ?thesis by auto
    qed
  qed
qed auto

lemma dedup_all_ok:
  assumes "contacts_ok g" "fresh_for env user g" "dedup_all env user sender name recipients g = (g', r)"
  shows "contacts_ok g' \<and> fresh_for env user g' \<and> (\<exists>new. cg_contacts g' = cg_contacts g @ new)"
proof -
  obtain g1 d where d: "dedup env user sender name g = (g1, d)" by fastforce
  note s = dedup_step [OF assms(1,2) d]
  show ?thesis
  proof (cases d)
    case (Inl e)
    then show ?thesis using assms(3) d s by (auto simp: dedup_all_def)
  next
    case (Inr x)
    then have "dedup_recipients env user recipients [(normalize_email (ce_parse env) sender, x)] g1 = (g', r)"
      using assms(3) d by (simp add: dedup_all_def)
    then show ?thesis using dedup_recipients_ok [of g1 env user] s by fastforce
  qed
qed

lemma dedup_all_step:
  assumes "contacts_ok g" "fresh_for env user g" "dedup_all env user sender name recipients g = (g', Inr m)"
  shows "contacts_ok g' \<and> (\<exists>new. cg_contacts g' = cg_contacts g @ new) \<and>
    distinct (map fst m) \<and>
    set (map fst m) = insert (normalize_email (ce_parse env) sender)
      (normalize_email (ce_parse env) ` set recipients - {[]}) \<and>
    (\<forall>p \<in> set m. resolved env user g' p)"
proof -
  let ?c = "normalize_email (ce_parse env) sender"
  obtain g1 d where d: "dedup env user sender name g = (g1, Inr d)"
    and run: "dedup_recipients env user recipients [(?c, d)] g1 = (g', Inr m)"
    using assms(3) by (auto simp: dedup_all_def split: prod.splits sum.splits)
  note s = dedup_step [OF assms(1,2) d]
  obtain x where x: "List.find (owns user (contact_key env sender)) (cg_contacts g1) = Some x" "co_id x = dr_contact d"
    using s by blast
  then have "\<forall>p \<in> set [(?c, d)]. resolved env user g1 p"
    by (auto simp: resolved_def contact_key_def find_Some_iff intro!: bexI [of _ x])
  then have "contacts_ok g' \<and> (\<exists>new. cg_contacts g' = cg_contacts g1 @ new) \<and> (\<forall>p \<in> set m. resolved env user g' p) \<and>
    distinct (map fst m) \<and> set (map fst m) = {?c} \<union> (normalize_email (ce_parse env) ` set recipients - {[]})"
    using dedup_recipients_step [OF _ _ _ _ run] s by simp
  then show ?thesis using s by auto
qed

text \<open>
  Every participant of an email is one contact. When the deduplication of an email succeeds, its
  result has each address of sender and recipients once, in normal form, with the one contact of
  the user under that address; known contacts are untouched and no second contact of an address
  appears.
\<close>

lemma dedup_all_resolves_participants:
  assumes "contacts_ok g" "fresh_for env user g" "dedup_all env user sender name recipients g = (g', Inr m)"
  shows "contacts_ok g' \<and> (\<exists>new. cg_contacts g' = cg_contacts g @ new) \<and>
    distinct (map fst m) \<and>
    set (map fst m) = insert (normalize_email (ce_parse env) sender)
      (normalize_email (ce_parse env) ` set recipients - {[]}) \<and>
    (\<forall>p \<in> set m. resolved env user g' p)"
  using assms by (rule dedup_all_step)

section \<open>Witnesses\<close>

text \<open>A numbering of addresses.\<close>

fun text_code :: "string \<Rightarrow> nat" where
  "text_code [] = 1"
| "text_code (c # s) = of_char c + 256 * text_code s"

lemma text_code_pos: "0 < text_code s"
  by (induction s) auto

lemma text_code_inj: "inj text_code"
proof
  have step: "c = d \<and> m = n" if "of_char c + 256 * m = of_char d + 256 * n" for c d and m n :: nat
  proof -
    have "(of_char c + 256 * m) mod 256 = (of_char c :: nat)" "(of_char d + 256 * n) mod 256 = (of_char d :: nat)"
      by simp_all
    then have "of_char c = (of_char d :: nat)" using that by metis
    then show ?thesis using that by simp
  qed
  fix s t
  show "text_code s = text_code t \<Longrightarrow> s = t"
  proof (induction s arbitrary: t)
    case Nil
    have "1 < of_char c + 256 * text_code u" for c u using text_code_pos [of u] by linarith
    then show ?case using Nil by (cases t) (auto dest: sym simp: less_not_refl)
  next
    case (Cons c s)
    then show ?case using text_code_pos [of s] step by (cases t) auto
  qed
qed

definition contact_env_with :: "(string \<Rightarrow> uuid) \<Rightarrow> contact_env" where
  "contact_env_with f = \<lparr>ce_now = 0, ce_fresh = f, ce_fails = (\<lambda>_. False), ce_parse = (\<lambda>_. None)\<rparr>"

abbreviation contact_env0 :: contact_env where
  "contact_env0 \<equiv> contact_env_with text_code"

definition empty_graph :: contact_graph where
  "empty_graph = \<lparr>cg_contacts = [], cg_edges = [], cg_interactions = []\<rparr>"

lemma empty_graph_ok: "contacts_ok empty_graph" "fresh_for contact_env0 user empty_graph"
  using text_code_inj by (auto simp: contacts_ok_def fresh_for_def empty_graph_def contact_env_with_def less_imp_neq [OF text_code_pos, symmetric])

lemma answered: "(case snd r of Inl _ \<Rightarrow> False | Inr m \<Rightarrow> P m) \<Longrightarrow> \<exists>m. r = (fst r, Inr m) \<and> P m"
  by (cases r; cases "snd r") auto

lemma dedup_is_stable_witness:
  "\<exists>g d. dedup contact_env0 3 ''Ann+news@X.org'' ''Ann'' empty_graph = (g, Inr d) \<and> dr_new d \<and>
     dedup contact_env0 3 ''Ann+news@X.org'' ''Bob'' g =
       (g, Inr \<lparr>dr_contact = dr_contact d, dr_new = False, dr_fuzzy = False, dr_similar = []\<rparr>)"
proof -
  let ?r = "\<lambda>f. dedup (contact_env_with f) 3 ''Ann+news@X.org'' ''Ann'' empty_graph"
  have "(case snd (?r f) of Inl _ \<Rightarrow> False | Inr d \<Rightarrow> dr_new d)" for f by code_simp
  from answered [OF this, of text_code] obtain d where d: "?r text_code = (fst (?r text_code), Inr d)" "dr_new d"
    by (elim exE conjE)
  have "\<not> ce_fails contact_env0 s" for s by (simp add: contact_env_with_def)
  from dedup_is_stable [OF empty_graph_ok d(1) refl this] d show ?thesis by blast
qed

lemma dedup_all_resolves_participants_witness:
  "\<exists>g m. dedup_all contact_env0 3 ''A@x.org'' ''Ann'' [''b+c@x.org'', ''B@x.org'', ''a@X.org''] empty_graph = (g, Inr m) \<and>
     map fst m = [''a@x.org'', ''b@x.org''] \<and> (\<forall>p \<in> set m. resolved contact_env0 3 g p)"
proof -
  let ?r = "\<lambda>f. dedup_all (contact_env_with f) 3 ''A@x.org'' ''Ann'' [''b+c@x.org'', ''B@x.org'', ''a@X.org''] empty_graph"
  have "(case snd (?r f) of Inl _ \<Rightarrow> False | Inr m \<Rightarrow> map fst m = [''a@x.org'', ''b@x.org''])" for f by code_simp
  from answered [OF this, of text_code] obtain m
    where m: "?r text_code = (fst (?r text_code), Inr m)" "map fst m = [''a@x.org'', ''b@x.org'']"
    by (elim exE conjE)
  have "\<forall>p \<in> set m. resolved contact_env0 3 (fst (?r text_code)) p"
    using dedup_all_resolves_participants [OF empty_graph_ok m(1)] by (elim conjE)
  with m show ?thesis by (intro exI [of _ "fst (?r text_code)"] exI [of _ m] conjI)
qed

end
