(* ===== verification/Event_Assembler.thy ===== *)
theory Event_Assembler
  imports Thread_Engine Contacts Go_Encoding
begin

text \<open>
  Assembly and publication of ingested mail: \<open>src/ingestion/internal/events/assembler.go\<close> resolves
  the thread, the contacts and the \<open>raw_emails\<close> row of a parsed email and makes the event,
  \<open>publisher.go\<close> publishes with retries, \<open>src/ingestion/internal/tx/manager.go\<close> wraps a
  transaction. The thread engine and the contact graph are those of their theories; the thread
  engine reads the mail rows the assembler writes. The table is taken with the unique key
  \<open>(user_id, message_id)\<close> that the insertion names.
\<close>

section \<open>Data\<close>

record attachment =
  at_name :: string
  at_type :: string
  at_size :: int
  at_uri :: string
  at_inline :: bool

record ingested_email = parsed_email +
  pm_source :: string
  pm_message :: string
  pm_sender_name :: string
  pm_body_text :: string
  pm_body_html :: string
  pm_has_attachments :: bool
  pm_attachments :: "attachment list"
  pm_codes :: "string list"
  pm_uri :: string

record raw_row =
  rw_id :: uuid
  rw_thread :: uuid
  rw_user :: uuid
  rw_account :: uuid
  rw_message :: string
  rw_in_reply_to :: "string option"
  rw_references :: "string list"
  rw_sender :: string
  rw_sender_name :: "string option"
  rw_recipients :: "string list"
  rw_subject :: "string option"
  rw_body_text :: "string option"
  rw_body_html :: "string option"
  rw_has_attachments :: bool
  rw_uris :: "string list"
  rw_codes :: "string list"
  rw_received :: instant
  rw_uri :: string
  rw_deleted :: bool
  rw_labels :: string

record mail_db =
  md_threads :: "thread_row list"
  md_raw :: "raw_row list"
  md_graph :: contact_graph

record email_ingested =
  ei_event :: uuid
  ei_user :: uuid
  ei_source :: string
  ei_account :: uuid
  ei_thread :: uuid
  ei_raw :: uuid
  ei_uri :: string
  ei_has_attachments :: bool
  ei_sender :: string
  ei_received :: instant
  ei_hint :: string
  ei_contacts :: "uuid list"

record ingestion_error =
  ig_code :: string
  ig_message :: string
  ig_user :: uuid
  ig_retry :: bool

record raw_env =
  rv_begin_fails :: bool
  rv_insert_fails :: bool
  rv_commit_fails :: bool

record assembly_env =
  as_thread :: thread_env
  as_contact :: contact_env
  as_raw :: raw_env
  as_sha :: "string \<Rightarrow> string"

text \<open>What the thread engine sees of the mail table.\<close>

definition mail_of :: "raw_row \<Rightarrow> mail_row" where
  "mail_of r = \<lparr>ml_message = rw_message r, ml_user = rw_user r, ml_thread = rw_thread r, ml_received = rw_received r\<rparr>"

definition thread_view :: "mail_db \<Rightarrow> thread_db" where
  "thread_view db = \<lparr>threads = md_threads db, mails = map mail_of (md_raw db)\<rparr>"

section \<open>Assembly\<close>

text \<open>\<open>sql.NullString\<close>: empty text is NULL.\<close>

definition null_string :: "string \<Rightarrow> string option" where
  "null_string s = (if s = [] then None else Some s)"

definition raw_row_of :: "ingested_email \<Rightarrow> uuid \<Rightarrow> uuid \<Rightarrow> string \<Rightarrow> raw_row" where
  "raw_row_of m i t uri =
     \<lparr>rw_id = i, rw_thread = t, rw_user = pm_user m, rw_account = pm_account m, rw_message = pm_message m,
      rw_in_reply_to = pm_in_reply_to m, rw_references = pm_references m, rw_sender = pm_sender m,
      rw_sender_name = null_string (pm_sender_name m), rw_recipients = pm_recipients m,
      rw_subject = null_string (pm_subject m), rw_body_text = null_string (pm_body_text m),
      rw_body_html = null_string (pm_body_html m), rw_has_attachments = pm_has_attachments m,
      rw_uris = filter (\<lambda>u. u \<noteq> []) (map at_uri (pm_attachments m)), rw_codes = pm_codes m,
      rw_received = pm_received m, rw_uri = uri, rw_deleted = False, rw_labels = []\<rparr>"

definition stored_already :: "uuid \<Rightarrow> string \<Rightarrow> raw_row list \<Rightarrow> bool" where
  "stored_already user mid rs = list_ex (\<lambda>r. rw_user r = user \<and> rw_message r = mid) rs"

text \<open>\<open>ON CONFLICT DO NOTHING\<close>: a message that is stored is left as it is, without an error.\<close>

definition insert_raw_email ::
  "raw_env \<Rightarrow> ingested_email \<Rightarrow> uuid \<Rightarrow> uuid \<Rightarrow> string \<Rightarrow> mail_db \<Rightarrow> mail_db \<times> string option" where
  "insert_raw_email env m i t uri db =
     (if rv_begin_fails env then (db, Some ''begin tx for raw_email insert'')
      else if rv_insert_fails env then (db, Some ''insert raw_email'')
      else if rv_commit_fails env then (db, Some ''commit raw_email tx'')
      else if stored_already (pm_user m) (pm_message m) (md_raw db) then (db, None)
      else (db\<lparr>md_raw := md_raw db @ [raw_row_of m i t uri]\<rparr>, None))"

definition ingestion_failed :: "string \<Rightarrow> string \<Rightarrow> uuid \<Rightarrow> ingestion_error" where
  "ingestion_failed code msg user = \<lparr>ig_code = code, ig_message = msg, ig_user = user, ig_retry = True\<rparr>"

definition resolve_thread :: "assembly_env \<Rightarrow> ingested_email \<Rightarrow> mail_db \<Rightarrow> mail_db \<times> (thread_error + match_result)" where
  "resolve_thread env m db =
     (case find_or_create_thread (as_sha env) (as_thread env) (parsed_email.truncate m) (thread_view db) of
        (tdb, r) \<Rightarrow> (db\<lparr>md_threads := threads tdb\<rparr>, r))"

definition resolve_contacts ::
  "assembly_env \<Rightarrow> ingested_email \<Rightarrow> mail_db \<Rightarrow> mail_db \<times> (string + (string \<times> dedup_result) list)" where
  "resolve_contacts env m db =
     (case dedup_all (as_contact env) (pm_user m) (pm_sender m) (pm_sender_name m) (pm_recipients m) (md_graph db) of
        (g, r) \<Rightarrow> (db\<lparr>md_graph := g\<rparr>, r))"

definition event_envelope :: "ingested_email \<Rightarrow> uuid \<Rightarrow> uuid \<Rightarrow> string \<Rightarrow> uuid list \<Rightarrow> email_ingested" where
  "event_envelope m i t uri cs =
     \<lparr>ei_event = i, ei_user = pm_user m, ei_source = pm_source m, ei_account = pm_account m, ei_thread = t,
      ei_raw = i, ei_uri = uri, ei_has_attachments = pm_has_attachments m, ei_sender = pm_sender m,
      ei_received = pm_received m, ei_hint = ''pending'', ei_contacts = cs\<rparr>"

definition assemble_event ::
  "assembly_env \<Rightarrow> ingested_email \<Rightarrow> uuid \<Rightarrow> string \<Rightarrow> mail_db \<Rightarrow> mail_db \<times> (ingestion_error + email_ingested)" where
  "assemble_event env m i uri db =
     (case resolve_thread env m db of
        (db1, Inl _) \<Rightarrow> (db1, Inl (ingestion_failed ''threading_failed'' ''thread resolution failed'' (pm_user m)))
      | (db1, Inr t) \<Rightarrow>
          (case resolve_contacts env m db1 of
             (db2, Inl e) \<Rightarrow> (db2, Inl (ingestion_failed ''dedup_failed'' (''contact dedup failed: '' @ e) (pm_user m)))
           | (db2, Inr cs) \<Rightarrow>
               (case insert_raw_email (as_raw env) m i (mr_thread t) uri db2 of
                  (db3, Some e) \<Rightarrow>
                    (db3, Inl (ingestion_failed ''threading_failed'' (''persist raw_email failed: '' @ e) (pm_user m)))
                | (db3, None) \<Rightarrow>
                    (db3, Inr (event_envelope m i (mr_thread t) uri (map (\<lambda>p. dr_contact (snd p)) cs))))))"

section \<open>Transactions\<close>

text \<open>
  \<open>InTx\<close>: the body works on a copy of the state that a commit publishes. A body can fail or panic;
  a panic is passed on after the rollback.
\<close>

datatype ('s, 'e) tx_body = TxDone 's | TxError 'e | TxPanic

datatype 'e tx_error = TxBegin | TxFailed 'e | TxRollback 'e | TxCommit

datatype ('s, 'e) tx_outcome = TxReturned 's "'e tx_error option" | TxPanicked 's

definition in_tx :: "bool \<Rightarrow> bool \<Rightarrow> bool \<Rightarrow> ('s \<Rightarrow> ('s, 'e) tx_body) \<Rightarrow> 's \<Rightarrow> ('s, 'e) tx_outcome" where
  "in_tx begin_fails rollback_fails commit_fails body s =
     (if begin_fails then TxReturned s (Some TxBegin)
      else (case body s of
              TxPanic \<Rightarrow> TxPanicked s
            | TxError e \<Rightarrow> TxReturned s (Some (if rollback_fails then TxRollback e else TxFailed e))
            | TxDone s' \<Rightarrow> if commit_fails then TxReturned s (Some TxCommit) else TxReturned s' None))"

section \<open>Publication\<close>

text \<open>
  The attempts of one event: \<open>pb_error k\<close> is the answer of the stream to attempt \<open>k\<close>, \<open>pb_cancelled k\<close>
  says that the context ends during the wait before it. The result is the number of attempts made,
  the time waited and the error.
\<close>

record publish_env =
  pb_error :: "nat \<Rightarrow> string option"
  pb_cancelled :: "nat \<Rightarrow> bool"

definition publish_delay :: "nat \<Rightarrow> duration" where
  "publish_delay attempt =
     (let d = 500000000 * 2 ^ (attempt - 1) in if 5 * second_ns < d then 5 * second_ns else d)"

fun publish_attempts :: "publish_env \<Rightarrow> nat \<Rightarrow> nat \<Rightarrow> string \<Rightarrow> nat \<times> duration \<times> string option" where
  "publish_attempts env k 0 err = (0, 0, Some (''publish failed after 3 retries: '' @ err))"
| "publish_attempts env k (Suc n) err =
     (if 0 < k \<and> pb_cancelled env k
      then (0, 0, Some (''publish cancelled after '' @ nat_decimal k @ '' attempts''))
      else
       (let wait = (if 0 < k then publish_delay k else 0)
        in (case pb_error env k of
              None \<Rightarrow> (1, wait, None)
            | Some e \<Rightarrow> (case publish_attempts env (Suc k) n e of (m, w, r) \<Rightarrow> (Suc m, wait + w, r)))))"

definition publish_event :: "publish_env \<Rightarrow> email_ingested option \<Rightarrow> nat \<times> duration \<times> string option" where
  "publish_event env ev =
     (case ev of None \<Rightarrow> (0, 0, Some ''event is nil'') | Some _ \<Rightarrow> publish_attempts env 0 3 [])"

record publish_result =
  pr_event :: "email_ingested option"
  pr_error :: "string option"
  pr_success :: bool

definition publish_one :: "(nat \<Rightarrow> publish_env) \<Rightarrow> nat \<Rightarrow> email_ingested option \<Rightarrow> publish_result" where
  "publish_one envs i ev =
     (case ev of
        None \<Rightarrow> \<lparr>pr_event = None, pr_error = Some (''nil event at index '' @ nat_decimal i), pr_success = False\<rparr>
      | Some _ \<Rightarrow>
          (let err = snd (snd (publish_event (envs i) ev))
           in \<lparr>pr_event = ev, pr_error = err, pr_success = (err = None)\<rparr>))"

text \<open>A batch whose workers all finish in time.\<close>

definition publish_batch ::
  "(nat \<Rightarrow> publish_env) \<Rightarrow> email_ingested option list \<Rightarrow> publish_result list \<times> string option" where
  "publish_batch envs evs =
     (if evs = [] then ([], None)
      else
       (let rs = map (\<lambda>(i, ev). publish_one envs i ev) (zip [0..<length evs] evs);
            failures = length (filter (\<lambda>r. \<not> pr_success r) rs)
        in (rs, if 0 < failures
                then Some (''batch publish: '' @ nat_decimal failures @ ''/'' @ nat_decimal (length evs) @ '' events failed'')
                else None)))"

section \<open>Facts\<close>

lemma in_tx_atomic:
  "in_tx b r c body s = TxReturned s' e \<Longrightarrow> (e = None \<and> body s = TxDone s') \<or> (e \<noteq> None \<and> s' = s)"
  by (auto simp: in_tx_def split: if_splits tx_body.splits)

lemma publish_attempts_bounds:
  "publish_attempts env k n err = (m, w, r) \<Longrightarrow> m \<le> n \<and> 0 \<le> w \<and>
     (r = None \<longrightarrow> (\<exists>j < n. m = Suc j \<and> pb_error env (k + j) = None \<and> (\<forall>i < j. pb_error env (k + i) \<noteq> None)))"
proof (induction env k n err arbitrary: m w r rule: publish_attempts.induct)
  case (2 env k n err)
  show ?case
  proof (cases "(0 < k \<and> pb_cancelled env k) \<or> pb_error env k = None")
    case True
    then show ?thesis using "2.prems"
      by (auto simp: Let_def publish_delay_def split: if_splits option.splits intro!: exI [of _ 0])
  next
    case False
    then obtain e where e: "pb_error env k = Some e" by auto
    obtain m' w' r' where rec: "publish_attempts env (Suc k) n e = (m', w', r')" by (metis prod.exhaust)
    have out: "m = Suc m'" "w = (if 0 < k then publish_delay k else 0) + w'" "r = r'"
      using "2.prems" False e rec by (auto simp: Let_def)
    have ih: "m' \<le> n \<and> 0 \<le> w' \<and>
        (r' = None \<longrightarrow> (\<exists>j < n. m' = Suc j \<and> pb_error env (Suc k + j) = None \<and> (\<forall>i < j. pb_error env (Suc k + i) \<noteq> None)))"
      using "2.IH" [OF _ refl e rec] False by auto
    have "\<exists>j < Suc n. m = Suc j \<and> pb_error env (k + j) = None \<and> (\<forall>i < j. pb_error env (k + i) \<noteq> None)" if none: "r = None"
    proof -
      obtain j where j: "j < n" "m' = Suc j" "pb_error env (Suc k + j) = None" "\<forall>i < j. pb_error env (Suc k + i) \<noteq> None"
        using ih none out(3) by auto
      have "pb_error env (k + i) \<noteq> None" if "i < Suc j" for i
        using j(4) that e by (cases i) auto
      then show ?thesis using j out(1) by (intro exI [of _ "Suc j"]) auto
    qed
    then show ?thesis using ih out by (auto simp: publish_delay_def Let_def)
  qed
qed simp

section \<open>The tables stay in order\<close>

text \<open>
  The tables: the thread and contact invariants, one row per user and message, and each row in a
  thread of its user.
\<close>

definition mail_db_ok :: "mail_db \<Rightarrow> bool" where
  "mail_db_ok db \<longleftrightarrow>
     threads_ok (thread_view db) \<and> contacts_ok (md_graph db) \<and>
     distinct (map (\<lambda>r. (rw_user r, rw_message r)) (md_raw db)) \<and>
     (\<forall>r \<in> set (md_raw db). \<exists>t \<in> set (md_threads db). th_id t = rw_thread r \<and> th_user t = rw_user r)"

definition fresh_assembly :: "assembly_env \<Rightarrow> uuid \<Rightarrow> mail_db \<Rightarrow> bool" where
  "fresh_assembly env user db \<longleftrightarrow>
     te_fresh (as_thread env) \<notin> th_id ` set (md_threads db) \<and>
     te_fresh (as_thread env) \<notin> rw_thread ` set (md_raw db) \<and> fresh_for (as_contact env) user (md_graph db)"

definition counted_messages :: "mail_db \<Rightarrow> int" where
  "counted_messages db = sum_list (map th_count (md_threads db))"

text \<open>The identity of the thread rows only grows.\<close>

lemma counted_keeps_owners:
  assumes "counted user tid tdb tdb'" "t \<in> set (threads tdb)"
  shows "\<exists>t' \<in> set (threads tdb'). th_id t' = th_id t \<and> th_user t' = th_user t"
proof (cases "th_id t = tid")
  case True
  then have "th_user t = user" using assms by (simp add: counted_def)
  then show ?thesis using assms(1) True by (auto simp: counted_def)
next
  case False
  have "t \<in> set (filter (\<lambda>t. th_id t \<noteq> tid) (threads tdb'))"
    using assms False by (simp add: counted_def)
  then show ?thesis by auto
qed

text \<open>Resolving the thread counts the mail once, or fails and changes nothing.\<close>

lemma resolve_thread_step:
  assumes ok: "mail_db_ok db" and fr: "fresh_assembly env (pm_user m) db" and run: "resolve_thread env m db = (db1, r)"
  shows "mail_db_ok db1 \<and> md_raw db1 = md_raw db \<and> md_graph db1 = md_graph db \<and>
    (case r of
       Inl _ \<Rightarrow> db1 = db
     | Inr t \<Rightarrow> counted_messages db1 = counted_messages db + 1 \<and>
         (\<exists>x \<in> set (md_threads db1). th_id x = mr_thread t \<and> th_user x = pm_user m))"
proof -
  let ?res = "find_or_create_thread (as_sha env) (as_thread env) (parsed_email.truncate m) (thread_view db)"
  obtain tdb' where res: "?res = (tdb', r)" and db1: "db1 = db\<lparr>md_threads := threads tdb'\<rparr>"
    using run by (auto simp: resolve_thread_def split: prod.splits)
  have user: "pm_user (parsed_email.truncate m) = pm_user m" by (simp add: parsed_email.truncate_def)
  have "te_fresh (as_thread env) \<notin> ml_thread ` set (mails (thread_view db))"
    using fr by (auto simp: fresh_assembly_def thread_view_def mail_of_def)
  then have f: "filed_once (pm_user m) (thread_view db) (tdb', r)"
    using find_or_create_filed [of "thread_view db" "as_thread env" "parsed_email.truncate m" "as_sha env"] ok fr
    by (simp add: mail_db_ok_def fresh_assembly_def thread_view_def res [unfolded thread_view_def] user)
  show ?thesis
  proof (cases r)
    case (Inl e)
    then have "db1 = db" using f db1 by (simp add: filed_once_def thread_view_def)
    then show ?thesis using Inl ok by simp
  next
    case (Inr t)
    then have c: "counted (pm_user m) (mr_thread t) (thread_view db) tdb'" "threads_ok tdb'"
      using f by (simp_all add: filed_once_def)
    then have view: "thread_view db1 = tdb'" by (simp add: db1 thread_view_def counted_def)
    have "\<exists>x' \<in> set (md_threads db1). th_id x' = rw_thread q \<and> th_user x' = rw_user q" if q: "q \<in> set (md_raw db)" for q
    proof -
      obtain x where "x \<in> set (threads (thread_view db))" "th_id x = rw_thread q" "th_user x = rw_user q"
        using ok q unfolding mail_db_ok_def thread_view_def by force
      with counted_keeps_owners [OF c(1) this(1)] show ?thesis by (auto simp: db1)
    qed
    then have "mail_db_ok db1" using ok c view by (simp add: mail_db_ok_def db1)
    then show ?thesis using c Inr by (auto simp: counted_def db1 thread_view_def counted_messages_def)
  qed
qed

lemma resolve_contacts_frame:
  "resolve_contacts env m db = (db', r) \<Longrightarrow> \<exists>g. db' = db\<lparr>md_graph := g\<rparr> \<and>
     dedup_all (as_contact env) (pm_user m) (pm_sender m) (pm_sender_name m) (pm_recipients m) (md_graph db) = (g, r)"
  by (auto simp: resolve_contacts_def split: prod.splits)

lemma insert_raw_email_new:
  assumes "mail_db_ok db" "insert_raw_email env m i t uri db = (db', e)"
    and "\<exists>x \<in> set (md_threads db). th_id x = t \<and> th_user x = pm_user m"
  shows "mail_db_ok db' \<and> md_threads db' = md_threads db \<and> md_graph db' = md_graph db \<and>
    (e = None \<longrightarrow> md_raw db' = (if stored_already (pm_user m) (pm_message m) (md_raw db) then md_raw db
       else md_raw db @ [raw_row_of m i t uri])) \<and> (e \<noteq> None \<longrightarrow> db' = db)"
proof (cases "e = None \<and> \<not> stored_already (pm_user m) (pm_message m) (md_raw db)")
  case False
  then show ?thesis using assms by (auto simp: insert_raw_email_def split: if_splits)
next
  case True
  then have new: "\<not> stored_already (pm_user m) (pm_message m) (md_raw db)" "e = None"
    and db': "db' = db\<lparr>md_raw := md_raw db @ [raw_row_of m i t uri]\<rparr>"
    using assms(2) by (auto simp: insert_raw_email_def split: if_splits)
  have "threads_ok (thread_view db')"
    using assms(1,3) by (auto simp: mail_db_ok_def threads_ok_def thread_view_def db' mail_of_def raw_row_of_def
        distinct_map dest: inj_onD)
  moreover have "(pm_user m, pm_message m) \<notin> (\<lambda>r. (rw_user r, rw_message r)) ` set (md_raw db)"
    using new(1) by (auto simp: stored_already_def list_ex_iff)
  ultimately show ?thesis
    using assms(1,3) new by (auto simp: mail_db_ok_def db' raw_row_of_def)
qed

lemma resolve_contacts_step:
  assumes "mail_db_ok db" "fresh_for (as_contact env) (pm_user m) (md_graph db)" "resolve_contacts env m db = (db', r)"
  shows "mail_db_ok db' \<and> md_threads db' = md_threads db \<and> md_raw db' = md_raw db \<and>
    (\<forall>cs. r = Inr cs \<longrightarrow> (\<forall>p \<in> set cs. resolved (as_contact env) (pm_user m) (md_graph db') p))"
proof -
  obtain g where g: "db' = db\<lparr>md_graph := g\<rparr>"
    and run: "dedup_all (as_contact env) (pm_user m) (pm_sender m) (pm_sender_name m) (pm_recipients m) (md_graph db) = (g, r)"
    using resolve_contacts_frame [OF assms(3)] by blast
  have ok: "contacts_ok (md_graph db)" using assms(1) by (simp add: mail_db_ok_def)
  have "contacts_ok g" using dedup_all_ok [OF ok assms(2) run] by blast
  then have "mail_db_ok db'" using assms(1) by (simp add: mail_db_ok_def g thread_view_def)
  moreover have "\<forall>p \<in> set cs. resolved (as_contact env) (pm_user m) g p" if "r = Inr cs" for cs
    using dedup_all_step [OF ok assms(2) run [unfolded that]] by blast
  ultimately show ?thesis by (simp add: g)
qed

text \<open>The three steps of an assembly.\<close>

lemma assemble_event_steps:
  assumes "mail_db_ok db" "fresh_assembly env (pm_user m) db" "assemble_event env m i uri db = (db', r)"
  shows "mail_db_ok db' \<and>
    (\<forall>ev. r = Inr ev \<longrightarrow> counted_messages db' = counted_messages db + 1 \<and> ei_raw ev = i \<and>
       (\<exists>x \<in> set (md_threads db'). th_id x = ei_thread ev \<and> th_user x = pm_user m) \<and>
       (\<forall>c \<in> set (ei_contacts ev). \<exists>x \<in> set (cg_contacts (md_graph db')). co_id x = c \<and> co_user x = pm_user m) \<and>
       md_raw db' = (if stored_already (pm_user m) (pm_message m) (md_raw db) then md_raw db
         else md_raw db @ [raw_row_of m i (ei_thread ev) uri])) \<and>
    (\<forall>e. r = Inl e \<longrightarrow> md_raw db' = md_raw db \<and> ig_retry e)"
proof -
  obtain db1 t where t: "resolve_thread env m db = (db1, t)" by fastforce
  note s1 = resolve_thread_step [OF assms(1,2) t]
  show ?thesis
  proof (cases t)
    case (Inl e)
    then show ?thesis using assms(3) t s1 by (auto simp: assemble_event_def ingestion_failed_def)
  next
    case t': (Inr mr)
    have fr: "fresh_for (as_contact env) (pm_user m) (md_graph db1)"
      using s1 assms(2) by (simp add: fresh_assembly_def)
    obtain db2 cs where c: "resolve_contacts env m db1 = (db2, cs)" by fastforce
    have ok1: "mail_db_ok db1" using s1 by blast
    note s2 = resolve_contacts_step [OF ok1 fr c]
    show ?thesis
    proof (cases cs)
      case (Inl e)
      then show ?thesis using assms(3) t t' c s1 s2 by (auto simp: assemble_event_def ingestion_failed_def)
    next
      case c': (Inr ps)
      obtain db3 e where ins: "insert_raw_email (as_raw env) m i (mr_thread mr) uri db2 = (db3, e)" by fastforce
      have ok2: "mail_db_ok db2" using s2 by blast
      have th: "\<exists>x \<in> set (md_threads db2). th_id x = mr_thread mr \<and> th_user x = pm_user m"
        using s1 s2 t' by simp
      note s3 = insert_raw_email_new [OF ok2 ins th]
      have same: "counted_messages db3 = counted_messages db + 1" "md_raw db2 = md_raw db"
        using s1 s2 s3 t' by (simp_all add: counted_messages_def)
      have cs: "\<exists>x \<in> set (cg_contacts (md_graph db3)). co_id x = dr_contact (snd p) \<and> co_user x = pm_user m"
        if "p \<in> set ps" for p
        using s2 s3 c' that by (auto simp: resolved_def owns_def)
      show ?thesis
      proof (cases e)
        case None
        then have r: "r = Inr (event_envelope m i (mr_thread mr) uri (map (\<lambda>p. dr_contact (snd p)) ps))" "db' = db3"
          using assms(3) t t' c c' ins by (simp_all add: assemble_event_def)
        have "\<exists>x \<in> set (md_threads db3). th_id x = mr_thread mr \<and> th_user x = pm_user m" using th s3 by simp
        then show ?thesis using None s3 same cs by (simp add: r event_envelope_def)
      next
        case (Some x)
        then show ?thesis using assms(3) t t' c c' ins s3 same by (auto simp: assemble_event_def ingestion_failed_def)
      qed
    qed
  qed
qed


section \<open>Witness\<close>

definition ex_ingested :: "string \<Rightarrow> ingested_email" where
  "ex_ingested mid = parsed_email.extend ex_mail
     \<lparr>pm_source = ''gmail'', pm_message = mid, pm_sender_name = ''Bob'', pm_body_text = ''hi'', pm_body_html = [],
      pm_has_attachments = False, pm_attachments = [], pm_codes = [], pm_uri = ''s3''\<rparr>"

definition ex_assembly_env_with :: "(string \<Rightarrow> uuid) \<Rightarrow> uuid \<Rightarrow> assembly_env" where
  "ex_assembly_env_with f t =
     \<lparr>as_thread = ex_thread_env\<lparr>te_fresh := t\<rparr>, as_contact = contact_env_with f,
      as_raw = \<lparr>rv_begin_fails = False, rv_insert_fails = False, rv_commit_fails = False\<rparr>, as_sha = (\<lambda>s. s)\<rparr>"

abbreviation ex_assembly_env :: "uuid \<Rightarrow> assembly_env" where
  "ex_assembly_env \<equiv> ex_assembly_env_with text_code"

definition empty_mail_db :: mail_db where
  "empty_mail_db = \<lparr>md_threads = [], md_raw = [], md_graph = empty_graph\<rparr>"

lemma empty_mail_db_ok: "mail_db_ok empty_mail_db" "fresh_assembly (ex_assembly_env t) 1 empty_mail_db"
  using empty_graph_ok
  by (simp_all add: mail_db_ok_def fresh_assembly_def empty_mail_db_def thread_view_def threads_ok_def ex_assembly_env_with_def)



end
