(* ===== verification/Poll_Limits.thy ===== *)
theory Poll_Limits
  imports Reagent_Prelude
begin

text \<open>
  Rate limits and back-off of the pollers: \<open>src/ingestion/internal/poll/ratelimit.go\<close> and
  \<open>backoff.go\<close>. A quota is a Redis key with the remaining units and, when it has one, the time at
  which it expires. The scripts of both providers are the same text; their Lua numbers are
  microseconds rounded down to the milliseconds that the Redis reply carries.
\<close>

section \<open>Quotas\<close>

type_synonym quota = "int \<times> instant option"
type_synonym quota_db = "string \<rightharpoonup> quota"

record rate_status =
  rl_allowed :: bool
  rl_remaining :: int
  rl_reset_at :: instant
  rl_backoff :: duration

text \<open>\<open>GET\<close> and the clock of Redis: a key past its expiry is gone.\<close>

definition live_quota :: "instant \<Rightarrow> string \<Rightarrow> quota_db \<Rightarrow> quota option" where
  "live_quota now k q =
     (case q k of
        None \<Rightarrow> None
      | Some (v, None) \<Rightarrow> Some (v, None)
      | Some (v, Some e) \<Rightarrow> if now < e then Some (v, Some e) else None)"

text \<open>\<open>gmailAllowScript\<close> and \<open>outlookAllowScript\<close>: allowed, remaining and the reset time in milliseconds.\<close>

definition allow_script ::
  "instant \<Rightarrow> string \<Rightarrow> int \<Rightarrow> int \<Rightarrow> int \<Rightarrow> quota_db \<Rightarrow> quota_db \<times> bool \<times> int \<times> int" where
  "allow_script now k cost window_ms limit q =
     (let reset_ms = now div 1000000 + window_ms
      in (case live_quota now k q of
            None \<Rightarrow>
              (let remaining = limit - cost
               in if remaining < 0 then (q, False, limit, reset_ms)
                  else (q(k \<mapsto> (remaining, Some (now + window_ms * 1000000))), True, remaining, reset_ms))
          | Some (remaining, expiry) \<Rightarrow>
              if remaining < cost then (q, False, remaining, reset_ms)
              else (q(k \<mapsto> (remaining - cost, expiry)), True, remaining - cost, reset_ms)))"

text \<open>A call reads the clock of Redis and, for the back-off, its own; Redis may not answer.\<close>

record quota_env =
  qe_now :: instant
  qe_local :: instant
  qe_fails :: bool
  qe_expire_fails :: bool

definition gmail_quota_units :: int where "gmail_quota_units = 250"
definition gmail_get_cost :: int where "gmail_get_cost = 5"
definition gmail_history_list_cost :: int where "gmail_history_list_cost = 2"
definition outlook_requests :: int where "outlook_requests = 10000"

definition gmail_key :: "string \<Rightarrow> string" where
  "gmail_key user = ''ratelimit:gmail:'' @ user"

definition outlook_key :: "string \<Rightarrow> string" where
  "outlook_key app = ''ratelimit:outlook:'' @ app"

definition status_of :: "quota_env \<Rightarrow> duration option \<Rightarrow> bool \<times> int \<times> int \<Rightarrow> rate_status" where
  "status_of env cap r =
     (case r of
        (allowed, remaining, reset_ms) \<Rightarrow>
          (let until = max 0 (go_sub (reset_ms * 1000000) (qe_local env))
           in \<lparr>rl_allowed = allowed, rl_remaining = remaining, rl_reset_at = reset_ms * 1000000,
               rl_backoff = (if allowed then 0 else case cap of None \<Rightarrow> until | Some c \<Rightarrow> min c until)\<rparr>))"

definition allow_gmail_request ::
  "quota_env \<Rightarrow> string \<Rightarrow> int \<Rightarrow> quota_db \<Rightarrow> quota_db \<times> (string + rate_status)" where
  "allow_gmail_request env user cost q =
     (if qe_fails env then (q, Inl ''gmail rate limit check failed'')
      else (case allow_script (qe_now env) (gmail_key user) (if cost \<le> 0 then 1 else cost) 1000 gmail_quota_units q of
              (q', r) \<Rightarrow> (q', Inr (status_of env None r))))"

definition allow_outlook_request ::
  "quota_env \<Rightarrow> string \<Rightarrow> quota_db \<Rightarrow> quota_db \<times> (string + rate_status)" where
  "allow_outlook_request env app q =
     (if qe_fails env then (q, Inl ''outlook rate limit check failed'')
      else (case allow_script (qe_now env) (outlook_key app) 1 600000 outlook_requests q of
              (q', r) \<Rightarrow> (q', Inr (status_of env (Some (10 * minute_ns)) r))))"

text \<open>
  \<open>INCRBY\<close> then \<open>PTTL\<close>: a missing key is created with the amount and no expiry, which the
  EXPIRE that follows supplies. Its failure is ignored.
\<close>

definition refund :: "quota_env \<Rightarrow> string \<Rightarrow> int \<Rightarrow> duration \<Rightarrow> quota_db \<Rightarrow> quota_db" where
  "refund env k amount window q =
     (case live_quota (qe_now env) k q of
        Some (v, Some e) \<Rightarrow> q(k \<mapsto> (v + amount, Some e))
      | r \<Rightarrow> q(k \<mapsto> ((case r of None \<Rightarrow> 0 | Some (v, _) \<Rightarrow> v) + amount,
                       if qe_expire_fails env then None else Some (qe_now env + window))))"

definition refund_gmail_quota ::
  "quota_env \<Rightarrow> string \<Rightarrow> int \<Rightarrow> quota_db \<Rightarrow> quota_db \<times> string option" where
  "refund_gmail_quota env user amount q =
     (if qe_fails env then (q, Some ''refund gmail quota'')
      else (refund env (gmail_key user) amount second_ns q, None))"

definition refund_outlook_quota :: "quota_env \<Rightarrow> string \<Rightarrow> quota_db \<Rightarrow> quota_db \<times> string option" where
  "refund_outlook_quota env app q =
     (if qe_fails env then (q, Some ''refund outlook quota'')
      else (refund env (outlook_key app) 1 (10 * minute_ns) q, None))"

definition reset_gmail_quota :: "quota_env \<Rightarrow> string \<Rightarrow> quota_db \<Rightarrow> quota_db \<times> bool" where
  "reset_gmail_quota env user q =
     (if qe_fails env then (q, False) else (q(gmail_key user \<mapsto> (gmail_quota_units, Some (qe_now env + second_ns))), True))"

definition reset_outlook_quota :: "quota_env \<Rightarrow> string \<Rightarrow> quota_db \<Rightarrow> quota_db \<times> bool" where
  "reset_outlook_quota env app q =
     (if qe_fails env then (q, False) else (q(outlook_key app \<mapsto> (outlook_requests, Some (qe_now env + 10 * minute_ns))), True))"

definition get_quota :: "quota_env \<Rightarrow> string \<Rightarrow> int \<Rightarrow> quota_db \<Rightarrow> int option" where
  "get_quota env k limit q =
     (if qe_fails env then None
      else (case live_quota (qe_now env) k q of None \<Rightarrow> Some limit | Some (v, _) \<Rightarrow> Some v))"

definition get_gmail_quota :: "quota_env \<Rightarrow> string \<Rightarrow> quota_db \<Rightarrow> int option" where
  "get_gmail_quota env user = get_quota env (gmail_key user) gmail_quota_units"

definition get_outlook_quota :: "quota_env \<Rightarrow> string \<Rightarrow> quota_db \<Rightarrow> int option" where
  "get_outlook_quota env app = get_quota env (outlook_key app) outlook_requests"

definition track_gmail_costs ::
  "quota_env \<Rightarrow> string \<Rightarrow> int \<Rightarrow> quota_db \<Rightarrow> quota_db \<times> (string + rate_status)" where
  "track_gmail_costs env user total_cost q =
     (if total_cost \<le> 0
      then (q, Inr \<lparr>rl_allowed = True, rl_remaining = gmail_quota_units, rl_reset_at = zero_time, rl_backoff = 0\<rparr>)
      else allow_gmail_request env user total_cost q)"

section \<open>Back-off\<close>

record backoff_strategy =
  bo_intervals :: "duration list"
  bo_current :: nat

definition default_backoff_intervals :: "duration list" where
  "default_backoff_intervals = [5 * minute_ns, 15 * minute_ns, hour_ns, 6 * hour_ns]"

definition new_backoff_strategy :: backoff_strategy where
  "new_backoff_strategy = \<lparr>bo_intervals = default_backoff_intervals, bo_current = 0\<rparr>"

definition new_backoff_with_intervals :: "duration list \<Rightarrow> backoff_strategy" where
  "new_backoff_with_intervals ds = \<lparr>bo_intervals = ds, bo_current = 0\<rparr>"

text \<open>Indexing an empty list of intervals panics: \<open>None\<close>.\<close>

definition backoff_current :: "backoff_strategy \<Rightarrow> duration option" where
  "backoff_current b =
     (if bo_current b < length (bo_intervals b) then Some (bo_intervals b ! bo_current b) else None)"

definition backoff_next :: "backoff_strategy \<Rightarrow> (backoff_strategy \<times> duration) option" where
  "backoff_next b =
     map_option (\<lambda>d. (if bo_current b + 1 < length (bo_intervals b) then b\<lparr>bo_current := bo_current b + 1\<rparr> else b, d))
       (backoff_current b)"

definition backoff_reset :: "backoff_strategy \<Rightarrow> backoff_strategy" where
  "backoff_reset b = b\<lparr>bo_current := 0\<rparr>"

definition backoff_is_maxed :: "backoff_strategy \<Rightarrow> bool" where
  "backoff_is_maxed b \<longleftrightarrow> int (bo_current b) = int (length (bo_intervals b)) - 1"

section \<open>What a quota grants\<close>

text \<open>A run of requests and refunds on one user's key, with the units granted and given back.\<close>

datatype quota_op = Ask int | GiveBack int

fun quota_run :: "string \<Rightarrow> (quota_env \<times> quota_op) list \<Rightarrow> quota_db \<Rightarrow> quota_db \<times> int \<times> int" where
  "quota_run user [] q = (q, 0, 0)"
| "quota_run user ((env, Ask c) # ops) q =
     (case allow_gmail_request env user c q of
        (q', r) \<Rightarrow>
          (case quota_run user ops q' of
             (q'', g, b) \<Rightarrow>
               (q'', g + (case r of Inr s \<Rightarrow> if rl_allowed s then (if c \<le> 0 then 1 else c) else 0 | Inl _ \<Rightarrow> 0), b)))"
| "quota_run user ((env, GiveBack a) # ops) q =
     (case refund_gmail_quota env user a q of
        (q', e) \<Rightarrow>
          (case quota_run user ops q' of
             (q'', g, b) \<Rightarrow> (q'', g, b + (if e = None then a else 0))))"

definition quota_left :: "instant \<Rightarrow> string \<Rightarrow> quota_db \<Rightarrow> int" where
  "quota_left now user q = (case live_quota now (gmail_key user) q of None \<Rightarrow> 0 | Some (v, _) \<Rightarrow> v)"

text \<open>What can be granted from \<open>start\<close> to \<open>until\<close>: a key that expires in between is renewed once.\<close>

definition grantable :: "instant \<Rightarrow> instant \<Rightarrow> string \<Rightarrow> quota_db \<Rightarrow> int" where
  "grantable start until user q =
     (case live_quota start (gmail_key user) q of
        None \<Rightarrow> gmail_quota_units
      | Some (v, e) \<Rightarrow> (case e of None \<Rightarrow> v | Some x \<Rightarrow> if until \<le> x then v else v + gmail_quota_units))"

definition in_span :: "instant \<Rightarrow> instant \<Rightarrow> quota_env \<times> quota_op \<Rightarrow> bool" where
  "in_span start until x \<longleftrightarrow>
     start \<le> qe_now (fst x) \<and> qe_now (fst x) < until \<and> (\<forall>a. snd x = GiveBack a \<longrightarrow> 0 \<le> a)"

definition quota_ok :: "string \<Rightarrow> quota_db \<Rightarrow> bool" where
  "quota_ok user q \<longleftrightarrow> (case q (gmail_key user) of None \<Rightarrow> True | Some (v, _) \<Rightarrow> 0 \<le> v)"

lemma ask_grants:
  assumes "quota_ok user q" "until \<le> start + second_ns" "in_span start until (env, Ask c)"
    and "allow_gmail_request env user c q = (q', r)"
  shows "quota_ok user q' \<and>
    (case r of Inr s \<Rightarrow> if rl_allowed s then (if c \<le> 0 then 1 else c) else 0 | Inl _ \<Rightarrow> 0) + grantable start until user q'
      \<le> grantable start until user q"
  using assms
  by (auto simp: in_span_def allow_gmail_request_def allow_script_def live_quota_def status_of_def Let_def quota_ok_def
      grantable_def gmail_quota_units_def split: if_splits option.splits prod.splits)

lemma give_back_grants:
  assumes "quota_ok user q" "until \<le> start + second_ns" "in_span start until (env, GiveBack a)"
    and "refund_gmail_quota env user a q = (q', e)"
  shows "quota_ok user q' \<and> grantable start until user q' \<le> grantable start until user q + (if e = None then a else 0)"
  using assms
  by (auto simp: in_span_def refund_gmail_quota_def refund_def live_quota_def quota_ok_def grantable_def
      gmail_quota_units_def split: if_splits option.splits prod.splits)

lemma quota_run_grants:
  assumes "quota_ok user q" "until \<le> start + second_ns" "\<forall>x \<in> set ops. in_span start until x"
    and "quota_run user ops q = (q', g, b)"
  shows "quota_ok user q' \<and> g + grantable start until user q' \<le> grantable start until user q + b"
  using assms
proof (induction user ops q arbitrary: q' g b rule: quota_run.induct)
  case (2 user env c ops q)
  obtain q1 r where a: "allow_gmail_request env user c q = (q1, r)" by fastforce
  obtain q2 g2 b2 where run: "quota_run user ops q1 = (q2, g2, b2)" by (metis prod.exhaust)
  have s: "quota_ok user q1 \<and>
    (case r of Inr s \<Rightarrow> if rl_allowed s then (if c \<le> 0 then 1 else c) else 0 | Inl _ \<Rightarrow> 0) + grantable start until user q1
      \<le> grantable start until user q"
    using ask_grants [OF "2.prems"(1,2) _ a] "2.prems"(3) by simp
  have "quota_ok user q2 \<and> g2 + grantable start until user q2 \<le> grantable start until user q1 + b2"
    using "2.IH" [OF a [symmetric] _ "2.prems"(2) _ run] s "2.prems"(3) by simp
  then show ?case using s "2.prems"(4) a run by (auto split: sum.splits if_splits)
next
  case (3 user env x ops q)
  obtain q1 e where a: "refund_gmail_quota env user x q = (q1, e)" by fastforce
  obtain q2 g2 b2 where run: "quota_run user ops q1 = (q2, g2, b2)" by (metis prod.exhaust)
  have s: "quota_ok user q1 \<and> grantable start until user q1 \<le> grantable start until user q + (if e = None then x else 0)"
    using give_back_grants [OF "3.prems"(1,2) _ a] "3.prems"(3) by simp
  have "quota_ok user q2 \<and> g2 + grantable start until user q2 \<le> grantable start until user q1 + b2"
    using "3.IH" [OF a [symmetric] _ "3.prems"(2) _ run] s "3.prems"(3) by simp
  then show ?case using s "3.prems"(4) a run by (auto split: if_splits)
qed simp

lemma grantable_bounds:
  "quota_ok user q \<Longrightarrow> 0 \<le> grantable start until user q \<and>
     grantable start until user q \<le> quota_left start user q + gmail_quota_units \<and>
     (live_quota start (gmail_key user) q = None \<longrightarrow> grantable start until user q = gmail_quota_units)"
  by (auto simp: quota_ok_def grantable_def quota_left_def live_quota_def gmail_quota_units_def split: option.splits if_splits)

text \<open>
  C13: What the Gmail quota grants. Over any span of at most one second the requests allowed to a user
  cost at most what was left of the current quota, one new quota of 250 units and the units given
  back; the quota never becomes negative. The documented limit of 250 units a second is met by the
  seconds that begin without a live key, and by a factor of two in general.
\<close>

theorem gmail_quota_bounds_any_second:
  assumes "quota_ok user q" and "quota_run user ops q = (q', granted, given_back)"
    and "\<forall>x \<in> set ops. in_span start (start + second_ns) x"
  shows "quota_ok user q' \<and> granted \<le> quota_left start user q + 250 + given_back \<and>
    (live_quota start (gmail_key user) q = None \<longrightarrow> granted \<le> 250 + given_back)"
  using quota_run_grants [OF assms(1) _ assms(3,2)] grantable_bounds [of user q' start "start + second_ns"]
    grantable_bounds [OF assms(1), of start "start + second_ns"]
  by (auto simp: gmail_quota_units_def)

definition quota_at :: "instant \<Rightarrow> quota_env" where
  "quota_at t = \<lparr>qe_now = t, qe_local = t, qe_fails = False, qe_expire_fails = False\<rparr>"

text \<open>499 units within one second: 249 at the end of a window and 250 at the start of the next.\<close>

lemma gmail_quota_bounds_any_second_witness:
  "\<exists>q' granted b. quota_run ''u'' [(quota_at 990000000, Ask 249), (quota_at 1000000000, Ask 250)]
       [gmail_key ''u'' \<mapsto> (249, Some 1000000000)] = (q', granted, b) \<and>
     granted = 499 \<and> granted \<le> quota_left 990000000 ''u'' [gmail_key ''u'' \<mapsto> (249, Some 1000000000)] + 250 + b"
proof -
  let ?q = "[gmail_key ''u'' \<mapsto> (249, Some 1000000000)] :: quota_db"
  let ?ops = "[(quota_at 990000000, Ask 249), (quota_at 1000000000, Ask 250)]"
  obtain q' g b where run: "quota_run ''u'' ?ops ?q = (q', g, b)" by (metis prod.exhaust)
  have "g = 499"
    using run by (simp add: allow_gmail_request_def allow_script_def live_quota_def status_of_def Let_def quota_at_def
        gmail_quota_units_def)
  moreover have "quota_ok ''u'' ?q" by (simp add: quota_ok_def)
  moreover have "\<forall>x \<in> set ?ops. in_span 990000000 (990000000 + second_ns) x" by (simp add: in_span_def quota_at_def)
  ultimately show ?thesis using run gmail_quota_bounds_any_second [of "''u''" ?q ?ops q' g b 990000000] by auto
qed

text \<open>
  A key without an expiry, which a refund leaves when its EXPIRE fails, is never renewed: requests that
  it does not cover are refused for ever.
\<close>

lemma refund_can_lose_expiry:
  "\<lbrakk>\<not> qe_fails env; qe_expire_fails env; live_quota (qe_now env) (gmail_key user) q = None\<rbrakk> \<Longrightarrow>
     \<exists>q'. refund_gmail_quota env user a q = (q', None) \<and> q' (gmail_key user) = Some (a, None)"
  by (auto simp: refund_gmail_quota_def refund_def)

lemma lost_expiry_refuses_for_ever:
  assumes "q (gmail_key user) = Some (v, None)" "\<forall>x \<in> set ops. \<exists>c. snd x = Ask c \<and> v < c"
  shows "\<exists>b. quota_run user ops q = (q, 0, b)"
  using assms
proof (induction user ops q rule: quota_run.induct)
  case (2 user env c ops q)
  then show ?case
    by (auto simp: allow_gmail_request_def allow_script_def live_quota_def status_of_def Let_def)
qed auto

section \<open>Requests use a quota up\<close>

text \<open>How often a quota that expires at \<open>e\<close> can be renewed before \<open>until\<close>, and the units it is good for.\<close>

definition renewals :: "duration \<Rightarrow> instant \<Rightarrow> instant \<Rightarrow> int" where
  "renewals window until e = (if until \<le> e then 0 else (until - e - 1) div window + 1)"

definition units_left :: "int \<Rightarrow> duration \<Rightarrow> instant \<Rightarrow> instant \<Rightarrow> string \<Rightarrow> quota_db \<Rightarrow> int" where
  "units_left limit window start until k q =
     (case q k of
        None \<Rightarrow> limit * renewals window until start
      | Some (v, e) \<Rightarrow> max 0 v + (case e of None \<Rightarrow> 0 | Some x \<Rightarrow> limit * renewals window until x))"

lemma renewals_nonneg: "0 < window \<Longrightarrow> 0 \<le> renewals window until e"
  by (simp add: renewals_def pos_imp_zdiv_nonneg_iff)

lemma renewals_step:
  assumes "0 < window" "e \<le> t" "t < until"
  shows "renewals window until (t + window) + 1 \<le> renewals window until e"
proof (cases "until \<le> t + window")
  case True
  have "0 \<le> (until - e - 1) div window" using assms by (simp add: pos_imp_zdiv_nonneg_iff)
  then show ?thesis using True assms by (simp add: renewals_def)
next
  case False
  have "(until - (t + window) - 1) div window = ((until - t - 1) + (- 1) * window) div window"
    by (rule arg_cong2 [where f = "(div)"]) simp_all
  also have "\<dots> = (until - t - 1) div window - 1"
    using assms(1) by (subst div_mult_self1) simp_all
  also have "\<dots> \<le> (until - e - 1) div window - 1"
    using zdiv_mono1 [of "until - t - 1" "until - e - 1" window] assms by simp
  finally show ?thesis using False assms by (simp add: renewals_def)
qed

lemma units_left_nonneg: "0 < window \<Longrightarrow> 0 \<le> limit \<Longrightarrow> 0 \<le> units_left limit window start until k q"
  by (auto simp: units_left_def renewals_nonneg split: option.split)

lemma allowed_request:
  assumes "allow_script now k cost window_ms limit q = (q', True, r, ms)" "0 < cost"
  shows "(live_quota now k q = None \<and> q' = q(k \<mapsto> (limit - cost, Some (now + window_ms * 1000000))) \<and> cost \<le> limit) \<or>
    (\<exists>v e. q k = Some (v, e) \<and> cost \<le> v \<and> q' = q(k \<mapsto> (v - cost, e)))"
  using assms
  by (auto simp: allow_script_def live_quota_def Let_def split: if_splits option.splits prod.splits)

lemma allowed_uses_units:
  assumes "start \<le> now" "now < until" "0 < cost" "0 < window_ms" "0 \<le> limit"
    and "allow_script now k cost window_ms limit q = (q', True, r, ms)"
  shows "units_left limit (window_ms * 1000000) start until k q' + cost \<le> units_left limit (window_ms * 1000000) start until k q"
proof -
  let ?win = "window_ms * 1000000"
  have win: "0 < ?win" using assms(4) by simp
  consider (renew) "live_quota now k q = None" "q' = q(k \<mapsto> (limit - cost, Some (now + ?win)))" "cost \<le> limit"
    | (use) v e where "q k = Some (v, e)" "cost \<le> v" "q' = q(k \<mapsto> (v - cost, e))"
    using allowed_request [OF assms(6,3)] by auto
  then show ?thesis
  proof cases
    case renew
    have old: "\<exists>e. e \<le> now \<and> limit * renewals ?win until e \<le> units_left limit ?win start until k q"
    proof (cases "q k")
      case None
      then show ?thesis using assms(1) by (auto simp: units_left_def)
    next
      case (Some x)
      then show ?thesis using renew(1)
        by (cases x) (auto simp: live_quota_def units_left_def split: option.splits if_splits intro: exI [of _ "the (snd x)"])
    qed
    then obtain e where e: "e \<le> now" "limit * renewals ?win until e \<le> units_left limit ?win start until k q" by blast
    have "units_left limit ?win start until k q' + cost = limit * (renewals ?win until (now + ?win) + 1)"
      using renew(2,3) by (simp add: units_left_def algebra_simps)
    also have "\<dots> \<le> limit * renewals ?win until e"
      by (rule mult_left_mono [OF renewals_step [OF win e(1) assms(2)] assms(5)])
    finally show ?thesis using e(2) by simp
  next
    case use
    then show ?thesis using assms(3) by (simp add: units_left_def)
  qed
qed

lemma gmail_request_uses_units:
  assumes "start \<le> qe_now env" "qe_now env < until" "0 < cost"
    and "allow_gmail_request env user cost q = (q', Inr st)" "rl_allowed st"
  shows "units_left gmail_quota_units second_ns start until (gmail_key user) q' + cost
    \<le> units_left gmail_quota_units second_ns start until (gmail_key user) q"
proof -
  obtain r ms where "allow_script (qe_now env) (gmail_key user) cost 1000 gmail_quota_units q = (q', True, r, ms)"
    using assms(3-5) by (auto simp: allow_gmail_request_def status_of_def Let_def split: if_splits prod.splits)
  from allowed_uses_units [OF assms(1,2,3) _ _ this] show ?thesis by (simp add: gmail_quota_units_def)
qed

lemma outlook_request_uses_units:
  assumes "start \<le> qe_now env" "qe_now env < until"
    and "allow_outlook_request env app q = (q', Inr st)" "rl_allowed st"
  shows "units_left outlook_requests (10 * minute_ns) start until (outlook_key app) q' + 1
    \<le> units_left outlook_requests (10 * minute_ns) start until (outlook_key app) q"
proof -
  obtain r ms where "allow_script (qe_now env) (outlook_key app) 1 600000 outlook_requests q = (q', True, r, ms)"
    using assms(3,4) by (auto simp: allow_outlook_request_def status_of_def Let_def split: if_splits prod.splits)
  from allowed_uses_units [OF assms(1,2) _ _ _ this] show ?thesis by (simp add: outlook_requests_def)
qed

section \<open>Back-off levels\<close>

fun backoff_fail :: "nat \<Rightarrow> backoff_strategy \<Rightarrow> backoff_strategy option" where
  "backoff_fail 0 b = Some b"
| "backoff_fail (Suc n) b = (case backoff_next b of None \<Rightarrow> None | Some (b', _) \<Rightarrow> backoff_fail n b')"

lemma backoff_after_failures:
  "bo_current b < length (bo_intervals b) \<Longrightarrow>
   backoff_fail n b = Some (b\<lparr>bo_current := min (bo_current b + n) (length (bo_intervals b) - 1)\<rparr>)"
proof (induction n arbitrary: b)
  case (Suc n)
  then show ?case
    by (cases "bo_current b + 1 < length (bo_intervals b)")
      (auto simp: backoff_next_def backoff_current_def min_def)
qed (simp add: min_def)

lemma backoff_is_maxed_iff:
  "bo_current b < length (bo_intervals b) \<Longrightarrow> backoff_is_maxed b \<longleftrightarrow> bo_current b = length (bo_intervals b) - 1"
  by (auto simp: backoff_is_maxed_def)

text \<open>The default levels: 5 minutes, 15 minutes, an hour, and 6 hours from then on; a reset starts over.\<close>

lemma default_backoff_levels:
  "\<exists>b. backoff_fail n new_backoff_strategy = Some b \<and> backoff_current b = Some (default_backoff_intervals ! min n 3) \<and>
     (backoff_is_maxed b \<longleftrightarrow> 3 \<le> n) \<and> backoff_current (backoff_reset b) = Some (5 * minute_ns)"
  using backoff_after_failures [of new_backoff_strategy n]
  by (auto simp: new_backoff_strategy_def default_backoff_intervals_def backoff_current_def backoff_is_maxed_def
      backoff_reset_def min_def)

text \<open>Indexing an empty list of intervals panics.\<close>

lemma empty_backoff_panics: "backoff_next (new_backoff_with_intervals []) = None"
  by (simp add: backoff_next_def backoff_current_def new_backoff_with_intervals_def)

end
