(* ===== verification/Poll_State.thy ===== *)
theory Poll_State
  imports Poll_Limits Event_Assembler
begin

text \<open>
  What the pollers share: the accounts with their cursors
  (\<open>src/ingestion/internal/poll/state.go\<close>), the world a polling cycle works on, its errors, and the
  statements on mail that both providers issue.
\<close>

section \<open>Accounts and the world\<close>

record email_account =
  ea_id :: uuid
  ea_user :: uuid
  ea_provider :: string
  ea_active :: bool
  ea_created :: instant
  ea_poll_interval :: "int option"
  ea_last_polled :: "instant option"
  ea_history :: "string option"
  ea_delta :: "string option"
  ea_updated :: instant

text \<open>
  The tables, the quotas in Redis, the events published, and the counters of the two pollers, which
  every account shares.
\<close>

record poll_world =
  pw_accounts :: "email_account list"
  pw_mail :: mail_db
  pw_quota :: quota_db
  pw_published :: "email_ingested list"
  pw_gaps :: nat
  pw_silent :: nat
  pw_previous_delta :: string

record fetch_job =
  fj_account :: uuid
  fj_user :: uuid
  fj_provider :: string

text \<open>A typed ingestion error goes with the duration that its message ends with.\<close>

datatype poll_error = PollFailed string | PollRefused ingestion_error duration

definition rate_limited :: "string \<Rightarrow> uuid \<Rightarrow> duration \<Rightarrow> poll_error" where
  "rate_limited msg user wait =
     PollRefused \<lparr>ig_code = ''rate_limited'', ig_message = msg, ig_user = user, ig_retry = True\<rparr> wait"

section \<open>Cursors\<close>

text \<open>A cursor column: \<open>col\<close> reads it; a missing account is an error, NULL is the empty text.\<close>

definition get_cursor ::
  "(email_account \<Rightarrow> string option) \<Rightarrow> string \<Rightarrow> bool \<Rightarrow> uuid \<Rightarrow> email_account list \<Rightarrow> string + string" where
  "get_cursor col name fails a accs =
     (if fails then Inl (''get '' @ name)
      else (case List.find (\<lambda>x. ea_id x = a) accs of
              None \<Rightarrow> Inl ''account not found''
            | Some x \<Rightarrow> Inr (case col x of None \<Rightarrow> [] | Some c \<Rightarrow> c)))"

definition get_history_id :: "bool \<Rightarrow> uuid \<Rightarrow> email_account list \<Rightarrow> string + string" where
  "get_history_id = get_cursor ea_history ''history_id''"

definition get_delta_link :: "bool \<Rightarrow> uuid \<Rightarrow> email_account list \<Rightarrow> string + string" where
  "get_delta_link = get_cursor ea_delta ''delta_link''"

definition update_history_id_direct ::
  "bool \<Rightarrow> instant \<Rightarrow> uuid \<Rightarrow> string \<Rightarrow> email_account list \<Rightarrow> email_account list \<times> string option" where
  "update_history_id_direct fails now a h accs =
     (if h = [] then (accs, Some ''historyID cannot be empty'')
      else if fails then (accs, Some ''update history_id direct'')
      else (update_rows (\<lambda>x. ea_id x = a) (\<lambda>x. x\<lparr>ea_history := Some h, ea_updated := now\<rparr>) accs, None))"

definition update_delta_link_direct ::
  "bool \<Rightarrow> instant \<Rightarrow> uuid \<Rightarrow> string \<Rightarrow> email_account list \<Rightarrow> email_account list \<times> string option" where
  "update_delta_link_direct fails now a d accs =
     (if d = [] then (accs, Some ''deltaLink cannot be empty'')
      else if fails then (accs, Some ''update delta_link direct'')
      else (update_rows (\<lambda>x. ea_id x = a) (\<lambda>x. x\<lparr>ea_delta := Some d, ea_updated := now\<rparr>) accs, None))"

text \<open>The same statements inside a transaction.\<close>

definition update_history_id ::
  "bool \<Rightarrow> instant \<Rightarrow> uuid \<Rightarrow> string \<Rightarrow> poll_world \<Rightarrow> (poll_world, string) tx_body" where
  "update_history_id fails now a h w =
     (if h = [] then TxError ''historyID cannot be empty''
      else if fails then TxError ''update history_id''
      else TxDone (w\<lparr>pw_accounts := fst (update_history_id_direct False now a h (pw_accounts w))\<rparr>))"

definition update_delta_link ::
  "bool \<Rightarrow> instant \<Rightarrow> uuid \<Rightarrow> string \<Rightarrow> poll_world \<Rightarrow> (poll_world, string) tx_body" where
  "update_delta_link fails now a d w =
     (if d = [] then TxError ''deltaLink cannot be empty''
      else if fails then TxError ''update delta_link''
      else TxDone (w\<lparr>pw_accounts := fst (update_delta_link_direct False now a d (pw_accounts w))\<rparr>))"

definition atomic_email_commit ::
  "bool \<Rightarrow> bool \<Rightarrow> ('s \<Rightarrow> ('s, string) tx_body) \<Rightarrow> ('s \<Rightarrow> ('s, string) tx_body) \<Rightarrow> 's \<Rightarrow> ('s, string) tx_outcome" where
  "atomic_email_commit begin_fails commit_fails ins upd s =
     (if begin_fails then TxReturned s (Some TxBegin)
      else (case ins s of
              TxPanic \<Rightarrow> TxPanicked s
            | TxError e \<Rightarrow> TxReturned s (Some (TxFailed (''insert email: '' @ e)))
            | TxDone s1 \<Rightarrow>
                (case upd s1 of
                   TxPanic \<Rightarrow> TxPanicked s
                 | TxError e \<Rightarrow> TxReturned s (Some (TxFailed (''update state: '' @ e)))
                 | TxDone s2 \<Rightarrow> if commit_fails then TxReturned s (Some TxCommit) else TxReturned s2 None)))"

section \<open>Statements on mail\<close>

definition mark_deleted :: "bool \<Rightarrow> fetch_job \<Rightarrow> string \<Rightarrow> poll_world \<Rightarrow> poll_world \<times> string option" where
  "mark_deleted fails job mid w =
     (if fails then (w, Some (''mark deleted '' @ mid))
      else (w\<lparr>pw_mail := (pw_mail w)\<lparr>md_raw :=
              update_rows (\<lambda>r. rw_account r = fj_account job \<and> rw_message r = mid \<and> rw_user r = fj_user job)
                (\<lambda>r. r\<lparr>rw_deleted := True\<rparr>) (md_raw (pw_mail w))\<rparr>\<rparr>, None))"

definition record_labels :: "bool \<Rightarrow> fetch_job \<Rightarrow> string \<Rightarrow> string list \<Rightarrow> poll_world \<Rightarrow> poll_world \<times> string option" where
  "record_labels fails job mid labels w =
     (if fails then (w, Some (''update labels '' @ mid))
      else (w\<lparr>pw_mail := (pw_mail w)\<lparr>md_raw :=
              update_rows (\<lambda>r. rw_account r = fj_account job \<and> rw_message r = mid \<and> rw_user r = fj_user job)
                (\<lambda>r. r\<lparr>rw_labels := join_comma labels\<rparr>) (md_raw (pw_mail w))\<rparr>\<rparr>, None))"

text \<open>Assembly of a mail and the publication of its event, whose failure is only logged.\<close>

definition ingest_mail ::
  "assembly_env \<Rightarrow> bool \<Rightarrow> uuid \<Rightarrow> ingested_email \<Rightarrow> poll_world \<Rightarrow> poll_world \<times> ingestion_error option" where
  "ingest_mail env publish_fails i m w =
     (case assemble_event env m i (pm_uri m) (pw_mail w) of
        (db, Inl e) \<Rightarrow> (w\<lparr>pw_mail := db\<rparr>, Some e)
      | (db, Inr ev) \<Rightarrow>
          (w\<lparr>pw_mail := db, pw_published := (if publish_fails then pw_published w else pw_published w @ [ev])\<rparr>, None))"

section \<open>Facts\<close>

lemma atomic_commit_is_atomic:
  "atomic_email_commit b c f g s = TxReturned s' e \<Longrightarrow>
     (e = None \<and> (\<exists>s1. f s = TxDone s1 \<and> g s1 = TxDone s')) \<or> (e \<noteq> None \<and> s' = s)"
  by (auto simp: atomic_email_commit_def split: if_splits tx_body.splits)

lemma stored_already_update:
  "(\<And>r. p r \<Longrightarrow> rw_user (f r) = rw_user r \<and> rw_message (f r) = rw_message r) \<Longrightarrow>
     stored_already u m (update_rows p f rs) = stored_already u m rs"
  by (auto simp: stored_already_def list_ex_iff update_rows_def)

lemma ingest_mail_stores:
  assumes "ingest_mail env f i m w = (w', None)"
  shows "stored_already (pm_user m) (pm_message m) (md_raw (pw_mail w'))"
  using assms
  by (auto simp: ingest_mail_def assemble_event_def insert_raw_email_def stored_already_def raw_row_of_def
      split: prod.splits sum.splits option.splits if_splits)

lemma ingest_mail_keeps:
  assumes "ingest_mail env f i m w = (w', e)"
  shows "pw_accounts w' = pw_accounts w \<and> pw_quota w' = pw_quota w \<and> pw_gaps w' = pw_gaps w \<and> pw_silent w' = pw_silent w \<and>
    pw_previous_delta w' = pw_previous_delta w \<and>
    (md_raw (pw_mail w') = md_raw (pw_mail w) \<or>
      e = None \<and> (\<exists>t. md_raw (pw_mail w') = md_raw (pw_mail w) @ [raw_row_of m i t (pm_uri m)]))"
  using assms
  by (auto simp: ingest_mail_def assemble_event_def insert_raw_email_def resolve_thread_def resolve_contacts_def
      split: prod.splits sum.splits option.splits if_splits)

lemma mark_deleted_keeps:
  "mark_deleted f job mid w = (w', e) \<Longrightarrow>
     \<exists>rs. w' = w\<lparr>pw_mail := (pw_mail w)\<lparr>md_raw := rs\<rparr>\<rparr> \<and> (\<forall>u m. stored_already u m rs = stored_already u m (md_raw (pw_mail w)))"
  by (auto simp: mark_deleted_def stored_already_update split: if_splits intro: exI [of _ "md_raw (pw_mail w)"])

lemma record_labels_keeps:
  "record_labels f job mid ls w = (w', e) \<Longrightarrow>
     \<exists>rs. w' = w\<lparr>pw_mail := (pw_mail w)\<lparr>md_raw := rs\<rparr>\<rparr> \<and> (\<forall>u m. stored_already u m rs = stored_already u m (md_raw (pw_mail w)))"
  by (auto simp: record_labels_def stored_already_update split: if_splits intro: exI [of _ "md_raw (pw_mail w)"])

lemma stored_already_append: "stored_already u m (rs @ rs') \<longleftrightarrow> stored_already u m rs \<or> stored_already u m rs'"
  by (simp add: stored_already_def)

text \<open>The rows of a table of accounts that a job does not name are left alone.\<close>

lemma cursor_after_update:
  assumes "List.find (\<lambda>x. ea_id x = a) accs = Some x" "update_history_id_direct f now a h accs = (accs', None)"
  shows "get_history_id False a accs' = Inr h"
proof -
  have accs: "accs' = update_rows (\<lambda>x. ea_id x = a) (\<lambda>x. x\<lparr>ea_history := Some h, ea_updated := now\<rparr>) accs"
    using assms(2) by (simp add: update_history_id_direct_def split: if_splits)
  have "ea_id x = a" using assms(1) by (auto simp: find_Some_iff)
  then show ?thesis
    using assms(1) by (simp add: get_history_id_def get_cursor_def accs update_rows_def find_map_key)
qed

text \<open>What polling does not touch: the identity and schedule of the accounts, and mail that is stored.\<close>

definition account_fixed :: "email_account \<Rightarrow> uuid \<times> uuid \<times> string \<times> bool \<times> instant \<times> int option \<times> instant option" where
  "account_fixed a = (ea_id a, ea_user a, ea_provider a, ea_active a, ea_created a, ea_poll_interval a, ea_last_polled a)"

definition same_accounts :: "poll_world \<Rightarrow> poll_world \<Rightarrow> bool" where
  "same_accounts w w' \<longleftrightarrow> map account_fixed (pw_accounts w') = map account_fixed (pw_accounts w)"

lemma update_cursor_fixed:
  "map account_fixed (fst (update_history_id_direct f now a h accs)) = map account_fixed accs"
  "map account_fixed (fst (update_delta_link_direct f now a h accs)) = map account_fixed accs"
  by (auto simp: update_history_id_direct_def update_delta_link_direct_def map_update_rows account_fixed_def)

definition keeps_mail :: "poll_world \<Rightarrow> poll_world \<Rightarrow> bool" where
  "keeps_mail w w' \<longleftrightarrow> (\<forall>u m. stored_already u m (md_raw (pw_mail w)) \<longrightarrow> stored_already u m (md_raw (pw_mail w')))"

lemma keeps_mail_refl [simp]: "keeps_mail w w"
  by (simp add: keeps_mail_def)

lemma keeps_mail_trans: "keeps_mail w w' \<Longrightarrow> keeps_mail w' w'' \<Longrightarrow> keeps_mail w w''"
  by (simp add: keeps_mail_def)

lemma keeps_mail_append: "md_raw (pw_mail w') = md_raw (pw_mail w) @ rs \<Longrightarrow> keeps_mail w w'"
  by (simp add: keeps_mail_def stored_already_append)

text \<open>Accounts without a cursor, as the OAuth service creates them.\<close>

definition cursorless :: "email_account list \<Rightarrow> bool" where
  "cursorless accs \<longleftrightarrow> (\<forall>a \<in> set accs. (ea_history a = None \<or> ea_history a = Some []) \<and> (ea_delta a = None \<or> ea_delta a = Some []))"

lemma found_account: "List.find p accs = Some x \<Longrightarrow> x \<in> set accs \<and> p x"
  by (auto simp: find_Some_iff)

lemma cursorless_get:
  assumes "cursorless accs"
  shows "get_history_id f a accs = Inr h \<Longrightarrow> h = []" "get_delta_link f a accs = Inr h \<Longrightarrow> h = []"
  using assms
  by (auto simp: cursorless_def get_history_id_def get_delta_link_def get_cursor_def
      split: if_splits option.splits dest!: found_account)

end
