(* ===== verification/Poll_Gmail.thy ===== *)
theory Poll_Gmail
  imports Poll_State
begin

text \<open>
  The Gmail poller \<open>src/ingestion/internal/poll/gmail.go\<close>: one cycle asks for the history since the
  stored identifier, follows the page tokens under the rate limit, checks the records for gaps and
  ingests the added messages. The loop over the pages is a partial function: it ends only if the
  server or the limiter ends it. The token store, the Gmail API and the MIME parser are arguments.
\<close>

section \<open>Data\<close>

record added_message =
  am_message :: string
  am_thread :: string

record label_change =
  lc_message :: string
  lc_labels :: "string list"

record history_record =
  hr_id :: string
  hr_added :: "added_message list"
  hr_deleted :: "string list"
  hr_labels_added :: "label_change list"
  hr_labels_removed :: "label_change list"

record history_page =
  hp_records :: "history_record list"
  hp_next :: string
  hp_history :: string

record gmail_message =
  gm_id :: string
  gm_thread :: string
  gm_raw :: string
  gm_snippet :: string

text \<open>The calls of a cycle that go through the rate limiter, by position.\<close>

datatype quota_call = ListCall nat | ListRefund nat | GetCall nat | GetRefund nat

record gmail_env =
  ge_token :: "string + string"
  ge_cursor_fails :: bool
  ge_show :: "uuid \<Rightarrow> string"
  ge_quota :: "quota_call \<Rightarrow> quota_env"
  ge_list :: "string \<Rightarrow> string + history_page"
  ge_page :: "nat \<Rightarrow> string \<Rightarrow> string \<Rightarrow> string + history_page"
  ge_get :: "string \<Rightarrow> string + gmail_message option"
  ge_parse :: "bytes \<Rightarrow> uuid \<Rightarrow> uuid \<Rightarrow> string + ingested_email"
  ge_fresh :: "nat \<Rightarrow> uuid"
  ge_assembly :: "nat \<Rightarrow> assembly_env"
  ge_publish_fails :: "nat \<Rightarrow> bool"
  ge_delete_fails :: "string \<Rightarrow> bool"
  ge_label_fails :: "string \<Rightarrow> bool"
  ge_save_fails :: bool
  ge_now :: instant

section \<open>Gaps in the history\<close>

text \<open>\<open>strconv.ParseUint(s, 10, 64)\<close>.\<close>

definition digit_value :: "char \<Rightarrow> nat option" where
  "digit_value c = (let n = of_char c :: nat in if 48 \<le> n \<and> n \<le> 57 then Some (n - 48) else None)"

definition parse_uint :: "string \<Rightarrow> 64 word option" where
  "parse_uint s =
     (case those (map digit_value s) of
        None \<Rightarrow> None
      | Some ds \<Rightarrow>
          (let n = foldl (\<lambda>n d. 10 * n + d) 0 ds
           in if s = [] \<or> 2 ^ 64 \<le> n then None else Some (of_nat n)))"

definition history_gap_threshold :: "64 word" where "history_gap_threshold = 1"
definition history_range_tolerance :: "64 word" where "history_range_tolerance = 10"
definition max_consecutive_gaps :: nat where "max_consecutive_gaps = 2"

datatype history_gap = FirstNotAfterStart "64 word" "64 word" | GapBetween "64 word" "64 word" | SuspiciousRange "64 word" nat

fun first_gap :: "64 word list \<Rightarrow> history_gap option" where
  "first_gap (a # b # ids) = (if history_gap_threshold < b - a then Some (GapBetween a b) else first_gap (b # ids))"
| "first_gap _ = None"

definition record_ids :: "history_record list \<Rightarrow> 64 word list" where
  "record_ids rs = sort (List.map_filter (\<lambda>r. parse_uint (hr_id r)) rs)"

definition verify_no_gaps :: "string \<Rightarrow> string \<Rightarrow> history_record list \<Rightarrow> history_gap option" where
  "verify_no_gaps start newest rs =
     (if rs = [] then None
      else
       (let start_id = (case parse_uint start of None \<Rightarrow> 0 | Some n \<Rightarrow> n); ids = record_ids rs
        in (case parse_uint newest of
              None \<Rightarrow> None
            | Some newest_id \<Rightarrow>
                if ids = [] then None
                else if 0 < start_id \<and> hd ids \<le> start_id then Some (FirstNotAfterStart (hd ids) start_id)
                else (case first_gap ids of
                        Some g \<Rightarrow> Some g
                      | None \<Rightarrow>
                          if 0 < start_id \<and> history_range_tolerance < (newest_id - start_id) div of_nat (length ids)
                          then Some (SuspiciousRange (newest_id - start_id) (length ids)) else None))))"

section \<open>The pages of the history\<close>

definition save_progress :: "gmail_env \<Rightarrow> fetch_job \<Rightarrow> string \<Rightarrow> poll_world \<Rightarrow> poll_world" where
  "save_progress env job h w =
     (if h = [] then w
      else w\<lparr>pw_accounts := fst (update_history_id_direct (ge_save_fails env) (ge_now env) (fj_account job) h (pw_accounts w))\<rparr>)"

definition gmail_allow :: "gmail_env \<Rightarrow> fetch_job \<Rightarrow> quota_call \<Rightarrow> int \<Rightarrow> poll_world \<Rightarrow> poll_world \<times> (string + rate_status)" where
  "gmail_allow env job c cost w =
     (case allow_gmail_request (ge_quota env c) (ge_show env (fj_user job)) cost (pw_quota w) of
        (q, r) \<Rightarrow> (w\<lparr>pw_quota := q\<rparr>, r))"

definition gmail_refund :: "gmail_env \<Rightarrow> fetch_job \<Rightarrow> quota_call \<Rightarrow> int \<Rightarrow> poll_world \<Rightarrow> poll_world" where
  "gmail_refund env job c amount w =
     w\<lparr>pw_quota := fst (refund_gmail_quota (ge_quota env c) (ge_show env (fj_user job)) amount (pw_quota w))\<rparr>"

text \<open>The result of following the pages: an error, or the newest identifier and all records.\<close>

type_synonym history_result = "poll_error + string \<times> history_record list"

partial_function (option) fetch_pages ::
  "gmail_env \<Rightarrow> fetch_job \<Rightarrow> string \<Rightarrow> nat \<Rightarrow> string \<Rightarrow> string \<Rightarrow> history_record list \<Rightarrow> poll_world \<Rightarrow>
   (poll_world \<times> history_result) option" where
  "fetch_pages env job hid k token newest recs w =
     (if token = [] then Some (w, Inr (newest, recs))
      else (case gmail_allow env job (ListCall k) gmail_history_list_cost w of
              (w1, Inl e) \<Rightarrow> Some (w1, Inl (PollFailed (''rate limit check (history.list page): '' @ e)))
            | (w1, Inr st) \<Rightarrow>
                if \<not> rl_allowed st
                then Some (save_progress env job newest w1,
                           Inl (rate_limited ''gmail rate limited during pagination: retry after '' (fj_user job) (rl_backoff st)))
                else (case ge_page env k hid token of
                        Inl e \<Rightarrow>
                          Some (save_progress env job newest (gmail_refund env job (ListRefund k) gmail_history_list_cost w1),
                                Inl (PollFailed (''history.list page failed: '' @ e)))
                      | Inr p \<Rightarrow>
                          fetch_pages env job hid (Suc k) (hp_next p) (if hp_history p = [] then newest else hp_history p)
                            (recs @ hp_records p) w1)))"

declare fetch_pages.simps [code]

definition fetch_history :: "gmail_env \<Rightarrow> fetch_job \<Rightarrow> string \<Rightarrow> poll_world \<Rightarrow> (poll_world \<times> history_result) option" where
  "fetch_history env job hid w =
     (case gmail_allow env job (ListCall 0) gmail_history_list_cost w of
        (w1, Inl e) \<Rightarrow> Some (w1, Inl (PollFailed (''rate limit check (history.list): '' @ e)))
      | (w1, Inr st) \<Rightarrow>
          if \<not> rl_allowed st
          then Some (w1, Inl (rate_limited ''gmail rate limited: retry after '' (fj_user job) (rl_backoff st)))
          else (case ge_list env hid of
                  Inl e \<Rightarrow>
                    Some (gmail_refund env job (ListRefund 0) gmail_history_list_cost w1,
                          Inl (PollFailed (''history.list failed: '' @ e)))
                | Inr p \<Rightarrow>
                    fetch_pages env job hid 1 (hp_next p) (if hp_history p = [] then hid else hp_history p) (hp_records p) w1))"

section \<open>The messages of the history\<close>

text \<open>
  What processing a message ends with. The fetcher may answer without a message and without an error,
  and reading the raw text of no message panics.
\<close>

datatype step_result = StepDone | StepFailed poll_error | StepPanic

text \<open>\<open>base64.URLEncoding\<close> and, failing that, \<open>base64.StdEncoding\<close>, both with padding.\<close>

definition b64_std_value :: "char \<Rightarrow> nat option" where
  "b64_std_value c =
     (if c = CHR ''+'' then Some 62 else if c = CHR ''/'' then Some 63
      else if c = CHR ''-'' \<or> c = CHR ''_'' then None else b64_value c)"

definition b64_decode_padded :: "(char \<Rightarrow> nat option) \<Rightarrow> string \<Rightarrow> bytes option" where
  "b64_decode_padded val s =
     (let t = filter (\<lambda>c. c \<noteq> CHR 0x0A \<and> c \<noteq> CHR 0x0D) s; body = takeWhile (\<lambda>c. c \<noteq> CHR ''='') t;
          pad = dropWhile (\<lambda>c. c \<noteq> CHR ''='') t
      in if length t mod 4 \<noteq> 0 \<or> pad \<notin> {[], ''='', ''==''} then None
         else (case those (map val body) of None \<Rightarrow> None | Some vs \<Rightarrow> map_option (map of_nat) (b64_join vs)))"

definition decode_raw :: "string \<Rightarrow> bytes option" where
  "decode_raw s =
     (case b64_decode_padded b64_value s of Some b \<Rightarrow> Some b | None \<Rightarrow> b64_decode_padded b64_std_value s)"

definition process_added_message ::
  "gmail_env \<Rightarrow> fetch_job \<Rightarrow> nat \<Rightarrow> string \<Rightarrow> poll_world \<Rightarrow> poll_world \<times> step_result" where
  "process_added_message env job n mid w =
     (case gmail_allow env job (GetCall n) gmail_get_cost w of
        (w1, Inl e) \<Rightarrow> (w1, StepFailed (PollFailed (''rate limit check (messages.get): '' @ e)))
      | (w1, Inr st) \<Rightarrow>
          if \<not> rl_allowed st
          then (w1, StepFailed (rate_limited ''gmail rate limited for messages.get: retry after '' (fj_user job) (rl_backoff st)))
          else (case ge_get env mid of
                  Inl e \<Rightarrow>
                    (gmail_refund env job (GetRefund n) gmail_get_cost w1,
                     StepFailed (PollFailed (''messages.get '' @ mid @ '': '' @ e)))
                | Inr None \<Rightarrow> (w1, StepPanic)
                | Inr (Some msg) \<Rightarrow>
                    (case decode_raw (gm_raw msg) of
                       None \<Rightarrow> (w1, StepFailed (PollFailed (''decode raw message '' @ mid)))
                     | Some raw \<Rightarrow>
                         (case ge_parse env raw (fj_account job) (fj_user job) of
                            Inl e \<Rightarrow> (w1, StepFailed (PollFailed (''parse MIME for '' @ mid @ '': '' @ e)))
                          | Inr m \<Rightarrow>
                              (case ingest_mail (ge_assembly env n) (ge_publish_fails env n) (ge_fresh env n) m w1 of
                                 (w2, None) \<Rightarrow> (w2, StepDone)
                               | (w2, Some e) \<Rightarrow>
                                   (w2, StepFailed (PollFailed (''assemble event for '' @ mid @ '': '' @ ig_message e))))))))"

fun handle_deletions :: "gmail_env \<Rightarrow> fetch_job \<Rightarrow> string list \<Rightarrow> poll_world \<Rightarrow> poll_world" where
  "handle_deletions env job [] w = w"
| "handle_deletions env job (d # ds) w = handle_deletions env job ds (fst (mark_deleted (ge_delete_fails env d) job d w))"

fun handle_label_changes :: "gmail_env \<Rightarrow> fetch_job \<Rightarrow> label_change list \<Rightarrow> poll_world \<Rightarrow> poll_world" where
  "handle_label_changes env job [] w = w"
| "handle_label_changes env job (c # cs) w =
     handle_label_changes env job cs (fst (record_labels (ge_label_fails env (lc_message c)) job (lc_message c) (lc_labels c) w))"

fun process_messages ::
  "gmail_env \<Rightarrow> fetch_job \<Rightarrow> string \<Rightarrow> nat \<Rightarrow> added_message list \<Rightarrow> poll_world \<Rightarrow> poll_world \<times> step_result" where
  "process_messages env job newest n [] w = (w, StepDone)"
| "process_messages env job newest n (a # as) w =
     (case process_added_message env job n (am_message a) w of
        (w1, StepDone) \<Rightarrow> process_messages env job newest (Suc n) as w1
      | (w1, StepFailed e) \<Rightarrow> (save_progress env job newest w1, StepFailed e)
      | (w1, StepPanic) \<Rightarrow> (w1, StepPanic))"

definition added_messages :: "history_record list \<Rightarrow> added_message list" where
  "added_messages rs = concat (map hr_added rs)"

definition label_changes :: "history_record list \<Rightarrow> label_change list" where
  "label_changes rs = concat (map (\<lambda>r. hr_labels_added r @ hr_labels_removed r) rs)"

datatype cycle_error =
  CycleFailed poll_error | FoundGap history_gap | PersistentGap nat history_gap | MessageFailed poll_error | CyclePanic

text \<open>The consecutive gaps are counted; from the second on the error is critical.\<close>

definition gap_error :: "nat \<Rightarrow> history_gap \<Rightarrow> cycle_error" where
  "gap_error n g = (if max_consecutive_gaps \<le> n then PersistentGap n g else FoundGap g)"

text \<open>Steps 6a to 10: what follows once the records are there.\<close>

definition process_history ::
  "gmail_env \<Rightarrow> fetch_job \<Rightarrow> string \<Rightarrow> string \<Rightarrow> history_record list \<Rightarrow> poll_world \<Rightarrow> poll_world \<times> (cycle_error + unit)" where
  "process_history env job hid newest recs w =
     (case verify_no_gaps hid newest recs of
        Some g \<Rightarrow> (w\<lparr>pw_gaps := Suc (pw_gaps w)\<rparr>, Inl (gap_error (Suc (pw_gaps w)) g))
      | None \<Rightarrow>
          (case process_messages env job newest 0 (added_messages recs)
              (handle_label_changes env job (label_changes recs)
                (handle_deletions env job (concat (map hr_deleted recs)) (w\<lparr>pw_gaps := 0\<rparr>))) of
             (w1, StepFailed e) \<Rightarrow> (w1, Inl (MessageFailed e))
           | (w1, StepPanic) \<Rightarrow> (w1, Inl CyclePanic)
           | (w1, StepDone) \<Rightarrow>
               (case update_history_id_direct (ge_save_fails env) (ge_now env) (fj_account job) newest (pw_accounts w1) of
                  (accs, Some e) \<Rightarrow> (w1\<lparr>pw_accounts := accs\<rparr>, Inl (CycleFailed (PollFailed (''update history_id to '' @ newest @ '': '' @ e))))
                | (accs, None) \<Rightarrow> (w1\<lparr>pw_accounts := accs\<rparr>, Inr ()))))"

text \<open>\<open>Process\<close>; \<open>None\<close> is a cycle that never returns.\<close>

definition gmail_process :: "gmail_env \<Rightarrow> fetch_job \<Rightarrow> poll_world \<Rightarrow> (poll_world \<times> (cycle_error + unit)) option" where
  "gmail_process env job w =
     (case ge_token env of
        Inl e \<Rightarrow> Some (w, Inl (CycleFailed (PollFailed (''refresh tokens: '' @ e))))
      | Inr _ \<Rightarrow>
          (case get_history_id (ge_cursor_fails env) (fj_account job) (pw_accounts w) of
             Inl e \<Rightarrow> Some (w, Inl (CycleFailed (PollFailed (''get history_id: '' @ e))))
           | Inr hid \<Rightarrow>
               if hid = [] then Some (w, Inl (CycleFailed (PollFailed ''no history_id: full sync required'')))
               else (case fetch_history env job hid w of
                       None \<Rightarrow> None
                     | Some (w1, Inl e) \<Rightarrow> Some (w1, Inl (CycleFailed e))
                     | Some (w1, Inr (newest, recs)) \<Rightarrow> Some (process_history env job hid newest recs w1))))"

text \<open>Header summary of a raw mail; reading, date and word decoding are those of \<open>net/mail\<close> and \<open>mime\<close>.\<close>

definition parse_email_headers ::
  "(string \<Rightarrow> (string \<Rightarrow> string) option) \<Rightarrow> (string \<Rightarrow> instant option) \<Rightarrow> (string \<Rightarrow> string option) \<Rightarrow> string \<Rightarrow>
   (string \<times> string \<times> string \<times> instant) option" where
  "parse_email_headers read_message parse_date decode_word raw =
     (case read_message raw of
        None \<Rightarrow> None
      | Some get \<Rightarrow>
          (let subject = get ''Subject''; dt = get ''Date''
           in Some (if subject = [] then [] else case decode_word subject of Some d \<Rightarrow> d | None \<Rightarrow> subject,
                    get ''From'', get ''Message-Id'',
                    if dt = [] then zero_time else case parse_date dt of Some t \<Rightarrow> t | None \<Rightarrow> zero_time)))"

section \<open>A cycle returns\<close>

lemma fetch_pages_returns:
  assumes clock: "\<forall>k. start \<le> qe_now (ge_quota env (ListCall k)) \<and> qe_now (ge_quota env (ListCall k)) < until"
  shows "\<exists>r. fetch_pages env job hid k token newest recs w = Some r"
proof -
  let ?left = "units_left gmail_quota_units second_ns start until (gmail_key (ge_show env (fj_user job)))"
  have nonneg: "0 \<le> ?left q" for q by (rule units_left_nonneg) (simp_all add: gmail_quota_units_def)
  show ?thesis
  proof (induction "nat (?left (pw_quota w))" arbitrary: k token newest recs w rule: less_induct)
    case less
    obtain w1 a where a: "gmail_allow env job (ListCall k) gmail_history_list_cost w = (w1, a)" by fastforce
    have "\<exists>r. fetch_pages env job hid (Suc k) t n rs w1 = Some r"
      if st: "a = Inr st" "rl_allowed st" for st t n rs
    proof -
      have q: "allow_gmail_request (ge_quota env (ListCall k)) (ge_show env (fj_user job)) gmail_history_list_cost (pw_quota w)
          = (pw_quota w1, Inr st)"
        using a st by (auto simp: gmail_allow_def split: prod.splits)
      have "?left (pw_quota w1) + gmail_history_list_cost \<le> ?left (pw_quota w)"
        by (rule gmail_request_uses_units [OF _ _ _ q st(2)]) (use clock in \<open>auto simp: gmail_history_list_cost_def\<close>)
      then have "nat (?left (pw_quota w1)) < nat (?left (pw_quota w))"
        using nonneg [of "pw_quota w1"] by (simp add: gmail_history_list_cost_def)
      then show ?thesis by (rule less)
    qed
    then show ?case
      by (subst fetch_pages.simps) (auto simp: a split: sum.split)
  qed
qed

text \<open>
  A polling cycle ends whatever the server answers, if the clock of the rate limiter stays within any bounds
  during it: every page costs two units of a quota that is renewed at most once a second.
\<close>

lemma gmail_cycle_returns:
  assumes "\<forall>k. start \<le> qe_now (ge_quota env (ListCall k)) \<and> qe_now (ge_quota env (ListCall k)) < until"
  shows "\<exists>w' r. gmail_process env job w = Some (w', r)"
proof -
  have "\<exists>r. fetch_history env job hid w = Some r" for hid
    using fetch_pages_returns [OF assms]
    by (auto simp: fetch_history_def split: prod.split sum.split)
  then have "gmail_process env job w \<noteq> None"
    by (auto simp: gmail_process_def split: sum.split option.split prod.split) (metis option.distinct(1))
  then show ?thesis by auto
qed

text \<open>Without such bounds it need not: a server whose pages never end, asked once a second, is asked for ever.\<close>

lemma endless_history_never_returns:
  assumes pages: "\<forall>k t. \<exists>p. ge_page env k hid t = Inr p \<and> hp_next p \<noteq> []"
    and clock: "\<forall>k. \<not> qe_fails (ge_quota env (ListCall k)) \<and> qe_now (ge_quota env (ListCall k)) = t0 + int k * second_ns"
    and "token \<noteq> []"
    and "case pw_quota w (gmail_key (ge_show env (fj_user job))) of None \<Rightarrow> True | Some (v, e) \<Rightarrow> \<exists>x. e = Some x \<and> x \<le> t0 + int k * second_ns"
  shows "fetch_pages env job hid k token newest recs w = None"
proof -
  let ?key = "gmail_key (ge_show env (fj_user job))"
  let ?due = "\<lambda>k w. case pw_quota w ?key of None \<Rightarrow> True | Some (v, e) \<Rightarrow> \<exists>x. e = Some x \<and> x \<le> t0 + int k * second_ns"
  have "env' = env \<longrightarrow> job' = job \<longrightarrow> hid' = hid \<longrightarrow> token \<noteq> [] \<longrightarrow> \<not> ?due k w"
    if ret: "fetch_pages env' job' hid' k token newest recs w = Some r" for env' job' hid' k token newest recs w r
  proof (rule fetch_pages.raw_induct [where P = "\<lambda>env' job' hid' k token newest recs w r.
      env' = env \<longrightarrow> job' = job \<longrightarrow> hid' = hid \<longrightarrow> token \<noteq> [] \<longrightarrow> \<not> ?due k w", OF _ ret], intro impI notI)
    fix f env' job' hid' k token newest recs w r
    assume IH: "\<And>env' job' hid' k token newest recs w r. f env' job' hid' k token newest recs w = Some r \<Longrightarrow>
        env' = env \<longrightarrow> job' = job \<longrightarrow> hid' = hid \<longrightarrow> token \<noteq> [] \<longrightarrow> \<not> ?due k w"
      and eqs: "env' = env" "job' = job" "hid' = hid" "token \<noteq> []" and due: "?due k w"
      and run: "(if token = [] then Some (w, Inr (newest, recs))
        else (case gmail_allow env' job' (ListCall k) gmail_history_list_cost w of
          (w1, Inl e) \<Rightarrow> Some (w1, Inl (PollFailed (''rate limit check (history.list page): '' @ e)))
        | (w1, Inr st) \<Rightarrow>
            if \<not> rl_allowed st
            then Some (save_progress env' job' newest w1,
              Inl (rate_limited ''gmail rate limited during pagination: retry after '' (fj_user job') (rl_backoff st)))
            else (case ge_page env' k hid' token of
                Inl e \<Rightarrow> Some (save_progress env' job' newest (gmail_refund env' job' (ListRefund k) gmail_history_list_cost w1),
                  Inl (PollFailed (''history.list page failed: '' @ e)))
              | Inr p \<Rightarrow> f env' job' hid' (Suc k) (hp_next p) (if hp_history p = [] then newest else hp_history p)
                  (recs @ hp_records p) w1))) = Some r"
    obtain p where p: "ge_page env k hid token = Inr p" "hp_next p \<noteq> []" using pages by blast
    have live: "live_quota (t0 + int k * second_ns) ?key (pw_quota w) = None"
      using due by (auto simp: live_quota_def split: option.splits prod.splits)
    obtain st where st: "gmail_allow env job (ListCall k) gmail_history_list_cost w =
        (w\<lparr>pw_quota := (pw_quota w)(?key \<mapsto> (248, Some (t0 + int k * second_ns + second_ns)))\<rparr>, Inr st)" "rl_allowed st"
      using clock live by (simp add: gmail_allow_def allow_gmail_request_def allow_script_def status_of_def Let_def
          gmail_history_list_cost_def gmail_quota_units_def)
    then have "\<exists>n rs. f env job hid (Suc k) (hp_next p) n rs
        (w\<lparr>pw_quota := (pw_quota w)(?key \<mapsto> (248, Some (t0 + int k * second_ns + second_ns)))\<rparr>) = Some r"
      using run eqs(4) unfolding eqs(1-3) by (auto simp: p(1))
    with IH p(2) show False by (fastforce simp: algebra_simps)
  qed
  then have "fetch_pages env job hid k token newest recs w \<noteq> Some r" for r using assms(3,4) by blast
  then show ?thesis by (cases "fetch_pages env job hid k token newest recs w") auto
qed

section \<open>What a cycle stores\<close>

text \<open>The mail of an added message: what the parser makes of what the provider returns for it.\<close>

definition fetched_mail :: "gmail_env \<Rightarrow> fetch_job \<Rightarrow> string \<Rightarrow> ingested_email option" where
  "fetched_mail env job mid =
     (case ge_get env mid of
        Inl _ \<Rightarrow> None
      | Inr None \<Rightarrow> None
      | Inr (Some msg) \<Rightarrow>
          (case decode_raw (gm_raw msg) of
             None \<Rightarrow> None
           | Some raw \<Rightarrow> (case ge_parse env raw (fj_account job) (fj_user job) of Inl _ \<Rightarrow> None | Inr m \<Rightarrow> Some m)))"

definition stored_mail :: "gmail_env \<Rightarrow> fetch_job \<Rightarrow> poll_world \<Rightarrow> added_message \<Rightarrow> bool" where
  "stored_mail env job w a \<longleftrightarrow>
     (case fetched_mail env job (am_message a) of
        None \<Rightarrow> False
      | Some m \<Rightarrow> stored_already (pm_user m) (pm_message m) (md_raw (pw_mail w)))"

lemma stored_mail_accounts [simp]: "stored_mail env job (w\<lparr>pw_accounts := x\<rparr>) a = stored_mail env job w a"
  by (cases "fetched_mail env job (am_message a)") (simp_all add: stored_mail_def)

lemma gmail_allow_frame: "gmail_allow env job c cost w = (w', r) \<Longrightarrow> \<exists>q. w' = w\<lparr>pw_quota := q\<rparr>"
  by (auto simp: gmail_allow_def split: prod.splits)

lemma process_added_message_step:
  assumes "process_added_message env job n mid w = (w', e)"
  shows "pw_accounts w' = pw_accounts w \<and>
    (\<exists>rs. md_raw (pw_mail w') = md_raw (pw_mail w) @ rs \<and> length rs \<le> 1 \<and> (e \<noteq> StepDone \<longrightarrow> rs = [])) \<and>
    (e = StepDone \<longrightarrow> (\<exists>m. fetched_mail env job mid = Some m \<and> stored_already (pm_user m) (pm_message m) (md_raw (pw_mail w'))))"
proof -
  obtain w1 a where a: "gmail_allow env job (GetCall n) gmail_get_cost w = (w1, a)" by fastforce
  obtain q where w1: "w1 = w\<lparr>pw_quota := q\<rparr>" using gmail_allow_frame [OF a] by blast
  show ?thesis
  proof (cases "\<exists>st m. a = Inr st \<and> rl_allowed st \<and> fetched_mail env job mid = Some m")
    case False
    then show ?thesis using assms
      by (auto simp: process_added_message_def a w1 fetched_mail_def gmail_refund_def
          split: sum.splits if_splits option.splits)
  next
    case True
    then obtain st m where st: "a = Inr st" "rl_allowed st" and m: "fetched_mail env job mid = Some m" by blast
    obtain w2 f where i: "ingest_mail (ge_assembly env n) (ge_publish_fails env n) (ge_fresh env n) m w1 = (w2, f)" by fastforce
    have out: "w' = w2" "e = StepDone \<longleftrightarrow> f = None"
      using assms m st i
      by (auto simp: process_added_message_def a fetched_mail_def split: sum.splits option.splits)
    have k: "pw_accounts w2 = pw_accounts w1 \<and> (md_raw (pw_mail w2) = md_raw (pw_mail w1) \<or>
        f = None \<and> (\<exists>t. md_raw (pw_mail w2) = md_raw (pw_mail w1) @ [raw_row_of m (ge_fresh env n) t (pm_uri m)]))"
      using ingest_mail_keeps [OF i] by blast
    have "\<exists>rs. md_raw (pw_mail w') = md_raw (pw_mail w) @ rs \<and> length rs \<le> 1 \<and> (e \<noteq> StepDone \<longrightarrow> rs = [])"
      using k out by (auto simp: w1)
    moreover have "f = None \<Longrightarrow> stored_already (pm_user m) (pm_message m) (md_raw (pw_mail w2))"
      using i by (auto intro: ingest_mail_stores)
    ultimately show ?thesis using k out m by (simp add: w1)
  qed
qed

lemma process_messages_stores:
  assumes "process_messages env job newest n as w = (w', StepDone)"
  shows "pw_accounts w' = pw_accounts w \<and> (\<exists>rs. md_raw (pw_mail w') = md_raw (pw_mail w) @ rs \<and> length rs \<le> length as) \<and>
    (\<forall>a \<in> set as. stored_mail env job w' a)"
  using assms
proof (induction env job newest n as w rule: process_messages.induct)
  case (2 env job newest n a as w)
  obtain w1 e where s: "process_added_message env job n (am_message a) w = (w1, e)" by fastforce
  have e: "e = StepDone" and run: "process_messages env job newest (Suc n) as w1 = (w', StepDone)"
    using "2.prems" s by (cases e; simp)+
  note step = process_added_message_step [OF s, unfolded e]
  have ih: "pw_accounts w' = pw_accounts w1 \<and> (\<exists>rs. md_raw (pw_mail w') = md_raw (pw_mail w1) @ rs \<and> length rs \<le> length as) \<and>
      (\<forall>a \<in> set as. stored_mail env job w' a)"
    using "2.IH" [OF s [symmetric] e run] .
  obtain rs rs' where rs: "md_raw (pw_mail w1) = md_raw (pw_mail w) @ rs" "length rs \<le> 1"
    "md_raw (pw_mail w') = md_raw (pw_mail w1) @ rs'" "length rs' \<le> length as"
    using step ih by blast
  have "stored_mail env job w' a" using step rs(3) by (auto simp: stored_mail_def stored_already_append)
  moreover have "md_raw (pw_mail w') = md_raw (pw_mail w) @ (rs @ rs') \<and> length (rs @ rs') \<le> length (a # as)"
    using rs by simp
  ultimately show ?case using step ih by auto
qed simp

text \<open>The first message that fails: those before it are processed, those after it are not.\<close>

lemma process_messages_stops:
  assumes "process_messages env job newest n as w = (w', e)" "e \<noteq> StepDone"
  shows "\<exists>before a rest w1 w2. as = before @ a # rest \<and> process_messages env job newest n before w = (w1, StepDone) \<and>
    process_added_message env job (n + length before) (am_message a) w1 = (w2, e) \<and>
    w' = (if e = StepPanic then w2 else save_progress env job newest w2)"
  using assms
proof (induction env job newest n as w rule: process_messages.induct)
  case (2 env job newest n a as w)
  obtain w1 f where s: "process_added_message env job n (am_message a) w = (w1, f)" by fastforce
  show ?case
  proof (cases "f = StepDone")
    case True
    then have "process_messages env job newest (Suc n) as w1 = (w', e)" using "2.prems" s by simp
    from "2.IH" [OF s [symmetric] True this "2.prems"(2)] obtain before b rest v1 v2
      where "as = before @ b # rest" "process_messages env job newest (Suc n) before w1 = (v1, StepDone)"
        "process_added_message env job (Suc n + length before) (am_message b) v1 = (v2, e)"
        "w' = (if e = StepPanic then v2 else save_progress env job newest v2)" by blast
    then show ?thesis using s True
      by (intro exI [of _ "a # before"] exI [of _ b] exI [of _ rest] exI [of _ v1] exI [of _ v2]) simp
  next
    case False
    have "process_messages env job newest n (a # as) w = (if f = StepPanic then w1 else save_progress env job newest w1, f)"
      using False by (cases f) (simp_all add: s)
    then have "e = f" "w' = (if e = StepPanic then w1 else save_progress env job newest w1)"
      using "2.prems"(1) by (auto simp del: process_messages.simps)
    then show ?thesis using s
      by (intro exI [of _ "[]"] exI [of _ a] exI [of _ as] exI [of _ w] exI [of _ w1]) simp
  qed
qed simp

lemma handle_deletions_keeps:
  "\<exists>rs. handle_deletions env job ds w = w\<lparr>pw_mail := (pw_mail w)\<lparr>md_raw := rs\<rparr>\<rparr> \<and> length rs = length (md_raw (pw_mail w))"
proof (induction env job ds w rule: handle_deletions.induct)
  case (1 env job w)
  then show ?case by (intro exI [of _ "md_raw (pw_mail w)"]) simp
next
  case (2 env job d ds w)
  then show ?case by (auto simp: mark_deleted_def)
qed

lemma handle_label_changes_keeps:
  "\<exists>rs. handle_label_changes env job cs w = w\<lparr>pw_mail := (pw_mail w)\<lparr>md_raw := rs\<rparr>\<rparr> \<and> length rs = length (md_raw (pw_mail w))"
proof (induction env job cs w rule: handle_label_changes.induct)
  case (1 env job w)
  then show ?case by (intro exI [of _ "md_raw (pw_mail w)"]) simp
next
  case (2 env job c cs w)
  then show ?case by (auto simp: record_labels_def)
qed

text \<open>Fetching the history touches the quota and, when a page fails, the cursor.\<close>

lemma fetch_pages_frame:
  assumes "fetch_pages env job hid k token newest recs w = Some r"
  shows "pw_mail (fst r) = pw_mail w \<and> same_accounts w (fst r) \<and> pw_gaps (fst r) = pw_gaps w \<and> (isl (snd r) \<or> pw_accounts (fst r) = pw_accounts w)"
proof (rule fetch_pages.raw_induct [where P = "\<lambda>env job hid k token newest recs w r.
    pw_mail (fst r) = pw_mail w \<and> same_accounts w (fst r) \<and> pw_gaps (fst r) = pw_gaps w \<and> (isl (snd r) \<or> pw_accounts (fst r) = pw_accounts w)", OF _ assms],
    goal_cases)
  case (1 f env job hid k token newest recs w r)
  obtain w1 a where a: "gmail_allow env job (ListCall k) gmail_history_list_cost w = (w1, a)" by fastforce
  obtain q where w1: "w1 = w\<lparr>pw_quota := q\<rparr>" using gmail_allow_frame [OF a] by blast
  show ?case
    using "1"(2) by (auto simp: a w1 save_progress_def gmail_refund_def same_accounts_def update_cursor_fixed split: if_splits sum.splits dest!: "1"(1))
qed

lemma fetch_history_frame:
  assumes "fetch_history env job hid w = Some (w', r)"
  shows "pw_mail w' = pw_mail w \<and> same_accounts w w' \<and> pw_gaps w' = pw_gaps w \<and> (isl r \<or> pw_accounts w' = pw_accounts w)"
proof -
  obtain w1 a where a: "gmail_allow env job (ListCall 0) gmail_history_list_cost w = (w1, a)" by fastforce
  obtain q where w1: "w1 = w\<lparr>pw_quota := q\<rparr>" using gmail_allow_frame [OF a] by blast
  show ?thesis
    using assms by (auto simp: fetch_history_def a w1 gmail_refund_def same_accounts_def split: if_splits sum.splits dest!: fetch_pages_frame)
qed

lemma gmail_process_cases:
  assumes "gmail_process env job w = Some (w', r)"
  obtains (before) e where "r = Inl (CycleFailed e)" "w' = w"
  | (history) hid e where "get_history_id (ge_cursor_fails env) (fj_account job) (pw_accounts w) = Inr hid" "hid \<noteq> []"
      "fetch_history env job hid w = Some (w', Inl e)" "r = Inl (CycleFailed e)"
  | (records) hid newest recs w1 where
      "get_history_id (ge_cursor_fails env) (fj_account job) (pw_accounts w) = Inr hid" "hid \<noteq> []"
      "fetch_history env job hid w = Some (w1, Inr (newest, recs))" "process_history env job hid newest recs w1 = (w', r)"
  using assms
  by (auto simp: gmail_process_def split: sum.splits if_splits option.splits prod.splits)

lemma fetch_pages_newest:
  assumes "fetch_pages env job hid k token newest recs w = Some (w', Inr (n, rs))" "newest \<noteq> []"
  shows "n \<noteq> []"
proof -
  have "\<forall>n rs. newest \<noteq> [] \<longrightarrow> snd r = Inr (n, rs) \<longrightarrow> n \<noteq> []"
    if ret: "fetch_pages env job hid k token newest recs w = Some r" for env job hid k token newest recs w r
  proof (rule fetch_pages.raw_induct [where P = "\<lambda>env job hid k token newest recs w r.
      \<forall>n rs. newest \<noteq> [] \<longrightarrow> snd r = Inr (n, rs) \<longrightarrow> n \<noteq> []", OF _ ret], goal_cases)
    case (1 f env job hid k token newest recs w r)
    obtain w1 a where a: "gmail_allow env job (ListCall k) gmail_history_list_cost w = (w1, a)" by fastforce
    show ?case
      using "1"(2) by (auto simp: a split: if_splits sum.splits dest!: "1"(1))
  qed
  from this [OF assms(1)] assms(2) show ?thesis by simp
qed

lemma fetch_history_newest:
  assumes "fetch_history env job hid w = Some (w', Inr (newest, recs))" "hid \<noteq> []"
  shows "newest \<noteq> []"
  using assms by (auto simp: fetch_history_def split: prod.splits sum.splits if_splits dest!: fetch_pages_newest)

lemma get_history_idE:
  assumes "get_history_id f a accs = Inr h"
  obtains x where "List.find (\<lambda>x. ea_id x = a) accs = Some x"
  using assms by (auto simp: get_history_id_def get_cursor_def split: if_splits option.splits)

text \<open>
  C9: A cycle that reports success has lost nothing: the history it was given has no gap, every added
  message was fetched, decoded and parsed and its mail is in \<open>raw_emails\<close>, and the cursor of the
  account is the newest identifier of that history.
\<close>

theorem gmail_success_stores_every_message:
  assumes "gmail_process env job w = Some (w', Inr ())"
  shows "\<exists>hid newest recs w1. get_history_id (ge_cursor_fails env) (fj_account job) (pw_accounts w) = Inr hid \<and>
    fetch_history env job hid w = Some (w1, Inr (newest, recs)) \<and> verify_no_gaps hid newest recs = None \<and>
    (\<forall>a \<in> set (added_messages recs). stored_mail env job w' a) \<and>
    get_history_id False (fj_account job) (pw_accounts w') = Inr newest"
  using assms
proof (cases rule: gmail_process_cases)
  case (records hid newest recs w1)
  obtain x where x: "List.find (\<lambda>x. ea_id x = fj_account job) (pw_accounts w) = Some x"
    using records(1) by (rule get_history_idE)
  have f: "pw_accounts w1 = pw_accounts w" using fetch_history_frame [OF records(3)] by simp
  let ?w0 = "handle_label_changes env job (label_changes recs)
      (handle_deletions env job (concat (map hr_deleted recs)) (w1\<lparr>pw_gaps := 0\<rparr>))"
  have w0: "pw_accounts ?w0 = pw_accounts w"
    using handle_deletions_keeps [of env job "concat (map hr_deleted recs)" "w1\<lparr>pw_gaps := 0\<rparr>"]
      handle_label_changes_keeps [of env job "label_changes recs" "handle_deletions env job (concat (map hr_deleted recs)) (w1\<lparr>pw_gaps := 0\<rparr>)"]
      f by auto
  obtain w2 where gap: "verify_no_gaps hid newest recs = None"
    and run: "process_messages env job newest 0 (added_messages recs) ?w0 = (w2, StepDone)"
    and fin: "(case update_history_id_direct (ge_save_fails env) (ge_now env) (fj_account job) newest (pw_accounts w2) of
        (accs, Some e) \<Rightarrow> (w2\<lparr>pw_accounts := accs\<rparr>, Inl (CycleFailed (PollFailed (''update history_id to '' @ newest @ '': '' @ e))))
      | (accs, None) \<Rightarrow> (w2\<lparr>pw_accounts := accs\<rparr>, Inr ())) = (w', Inr ())"
    using records(4) by (auto simp: process_history_def split: option.splits prod.splits step_result.splits)
  obtain accs where upd: "update_history_id_direct (ge_save_fails env) (ge_now env) (fj_account job) newest (pw_accounts w2) = (accs, None)"
    and w': "w' = w2\<lparr>pw_accounts := accs\<rparr>"
    using fin by (auto split: prod.splits option.splits)
  note s = process_messages_stores [OF run]
  have "get_history_id False (fj_account job) (pw_accounts w') = Inr newest"
    using cursor_after_update [OF _ upd] x s w0 by (simp add: w')
  moreover have "\<forall>a \<in> set (added_messages recs). stored_mail env job w' a"
    using s by (simp add: w')
  ultimately show ?thesis using records gap by blast
qed simp_all


text \<open>A page that fails does the same before any message was looked at.\<close>

lemma failed_page_skips_history:
  assumes "token \<noteq> []" "newest \<noteq> []" "\<not> ge_save_fails env" "ge_page env k hid token = Inl e"
    and "gmail_allow env job (ListCall k) gmail_history_list_cost w = (w1, Inr st)" "rl_allowed st"
    and "List.find (\<lambda>x. ea_id x = fj_account job) (pw_accounts w) = Some x"
  shows "\<exists>w'. fetch_pages env job hid k token newest recs w = Some (w', Inl (PollFailed (''history.list page failed: '' @ e))) \<and>
    pw_mail w' = pw_mail w \<and> get_history_id False (fj_account job) (pw_accounts w') = Inr newest"
proof -
  obtain q where w1: "w1 = w\<lparr>pw_quota := q\<rparr>" using gmail_allow_frame [OF assms(5)] by blast
  obtain accs where upd: "update_history_id_direct False (ge_now env) (fj_account job) newest (pw_accounts w) = (accs, None)"
    using assms(2) by (simp add: update_history_id_direct_def)
  show ?thesis
    using assms cursor_after_update [OF assms(7) upd] upd
    by (subst fetch_pages.simps) (simp add: save_progress_def gmail_refund_def w1)
qed

section \<open>What the gap check accepts\<close>

lemma word_step: "a \<le> b \<Longrightarrow> \<not> 1 < b - a \<longleftrightarrow> b = a \<or> b = a + (1 :: 64 word)"
proof -
  assume "a \<le> b"
  have "\<not> 1 < b - a \<longleftrightarrow> b - a = 0 \<or> b - a = 1" by unat_arith
  also have "\<dots> \<longleftrightarrow> b = a \<or> b = a + 1" by (auto simp: algebra_simps diff_eq_eq)
  finally show ?thesis .
qed

lemma between_step: "a \<le> x \<Longrightarrow> x \<le> a + 1 \<Longrightarrow> x = a \<or> x = a + (1 :: 64 word)"
  by unat_arith

lemma first_gap_None_iff:
  "sorted ids \<Longrightarrow> ids \<noteq> [] \<Longrightarrow> first_gap ids = None \<longleftrightarrow> {hd ids..last ids} \<subseteq> set ids"
proof (induction ids rule: first_gap.induct)
  case (1 a b ids)
  have ord: "a \<le> b" "b \<le> last (b # ids)" "\<forall>x \<in> set ids. b \<le> x" using "1.prems"(1) by auto
  have lst: "last (a # b # ids) = last (b # ids)" by simp
  have ih: "first_gap (b # ids) = None \<longleftrightarrow> {b..last (b # ids)} \<subseteq> set (b # ids)" if "\<not> 1 < b - a"
    using "1.IH" that "1.prems"(1) by (simp add: history_gap_threshold_def)
  show ?case
  proof (cases "1 < b - a")
    case True
    then have "a + 1 \<noteq> b" "a \<noteq> b" using word_step [OF ord(1)] by auto
    then have "a < a + 1 \<and> a + 1 < b" using ord(1) by unat_arith
    then have "a + 1 \<in> {a..last (b # ids)} \<and> a + 1 \<notin> set (a # b # ids)" using ord by (auto simp: less_le_not_le)
    then show ?thesis using True unfolding lst by (auto simp: history_gap_threshold_def simp del: last.simps)
  next
    case False
    then have b: "b = a \<or> b = a + 1" using word_step [OF ord(1)] by simp
    have "{a..last (b # ids)} \<subseteq> set (a # b # ids) \<longleftrightarrow> {b..last (b # ids)} \<subseteq> set (b # ids)"
    proof (cases "b = a")
      case True
      then show ?thesis by simp
    next
      case ne: False
      have a: "x = a \<or> b \<le> x" if "a \<le> x" for x using that b ne by (auto simp: order_le_less) unat_arith
      show ?thesis
      proof
        assume l: "{a..last (b # ids)} \<subseteq> set (a # b # ids)"
        show "{b..last (b # ids)} \<subseteq> set (b # ids)"
        proof
          fix x assume x: "x \<in> {b..last (b # ids)}"
          then have "x \<in> {a..last (b # ids)}" using ord(1) by (auto simp del: last.simps intro: order_trans)
          then have "x \<in> set (a # b # ids)" using l by (rule set_mp [rotated])
          moreover have "x \<noteq> a" using x ord(1) ne by auto
          ultimately show "x \<in> set (b # ids)" by simp
        qed
      next
        assume sub: "{b..last (b # ids)} \<subseteq> set (b # ids)"
        show "{a..last (b # ids)} \<subseteq> set (a # b # ids)"
        proof
          fix x assume x: "x \<in> {a..last (b # ids)}"
          have "x = a \<or> x \<in> set (b # ids)" using a [of x] x sub by (auto simp del: last.simps set_simps)
          then show "x \<in> set (a # b # ids)" by simp
        qed
      qed
    qed
    then show ?thesis using ih [OF False] False unfolding lst by (simp add: history_gap_threshold_def del: last.simps)
  qed
qed auto

text \<open>
  What the gap check accepts. With numeric identifiers it lets a history pass exactly if its records
  start after the stored identifier, their identifiers leave no number out, and the distance to the
  newest identifier, as a 64 bit number, is below eleven times the number of records.
\<close>

lemma gmail_gap_check_meaning:
  assumes "parse_uint start = Some s" and "0 < s" and "parse_uint newest = Some n" and "record_ids recs \<noteq> []"
  shows "verify_no_gaps start newest recs = None \<longleftrightarrow>
    s < hd (record_ids recs) \<and> {hd (record_ids recs)..last (record_ids recs)} \<subseteq> set (record_ids recs) \<and>
    (n - s) div of_nat (length (record_ids recs)) \<le> 10"
proof -
  have "recs \<noteq> []" using assms(4) by (auto simp: record_ids_def List.map_filter_def)
  moreover have "sorted (record_ids recs)" by (simp add: record_ids_def)
  ultimately show ?thesis
    using assms first_gap_None_iff [of "record_ids recs"]
    by (cases "first_gap (record_ids recs)")
      (simp_all add: verify_no_gaps_def history_range_tolerance_def Let_def not_less not_le conj_commute)
qed

text \<open>A history that is refused leaves mail and cursor as they were, so the next cycle asks for it again.\<close>

lemma gap_blocks_account:
  assumes "ge_token env = Inr tok" "get_history_id (ge_cursor_fails env) (fj_account job) (pw_accounts w) = Inr hid" "hid \<noteq> []"
    and "fetch_history env job hid w = Some (w1, Inr (newest, recs))" "verify_no_gaps hid newest recs \<noteq> None"
  shows "\<exists>w' e. gmail_process env job w = Some (w', Inl e) \<and> pw_mail w' = pw_mail w \<and> pw_accounts w' = pw_accounts w \<and>
    pw_gaps w' = Suc (pw_gaps w)"
  using assms fetch_history_frame [OF assms(4)]
  by (auto simp: gmail_process_def process_history_def)

section \<open>Witnesses\<close>

definition ex_page :: "string list \<Rightarrow> history_page" where
  "ex_page ms =
     \<lparr>hp_records = [\<lparr>hr_id = ''101'', hr_added = map (\<lambda>m. \<lparr>am_message = m, am_thread = ''t''\<rparr>) ms, hr_deleted = [],
        hr_labels_added = [], hr_labels_removed = []\<rparr>], hp_next = [], hp_history = ''101''\<rparr>"

definition ex_gmail_env :: "string list \<Rightarrow> (string \<Rightarrow> string + gmail_message option) \<Rightarrow> gmail_env" where
  "ex_gmail_env ms get =
     \<lparr>ge_token = Inr ''tok'', ge_cursor_fails = False, ge_show = (\<lambda>_. ''u''), ge_quota = (\<lambda>_. quota_at 5),
      ge_list = (\<lambda>_. Inr (ex_page ms)), ge_page = (\<lambda>_ _ _. Inl ''gone''), ge_get = get,
      ge_parse = (\<lambda>raw _ _. Inr (ex_ingested ''m1'')), ge_fresh = (\<lambda>n. 7 + n), ge_assembly = (\<lambda>n. ex_assembly_env (9 + n)),
      ge_publish_fails = (\<lambda>_. False), ge_delete_fails = (\<lambda>_. False), ge_label_fails = (\<lambda>_. False), ge_save_fails = False,
      ge_now = 5\<rparr>"

definition ex_account_row :: email_account where
  "ex_account_row =
     \<lparr>ea_id = 2, ea_user = 1, ea_provider = ''gmail'', ea_active = True, ea_created = 0, ea_poll_interval = None,
      ea_last_polled = None, ea_history = Some ''100'', ea_delta = None, ea_updated = 0\<rparr>"

definition ex_poll_world :: poll_world where
  "ex_poll_world =
     \<lparr>pw_accounts = [ex_account_row], pw_mail = empty_mail_db, pw_quota = Map.empty, pw_published = [], pw_gaps = 0, pw_silent = 0,
      pw_previous_delta = []\<rparr>"

definition ex_job :: fetch_job where
  "ex_job = \<lparr>fj_account = 2, fj_user = 1, fj_provider = ''gmail''\<rparr>"

lemma ex_ids: "parse_uint ''100'' = Some 100" "parse_uint ''101'' = Some 101" "record_ids (hp_records (ex_page ms)) = [101]"
proof -
  show n: "parse_uint ''100'' = Some 100" "parse_uint ''101'' = Some 101" by (simp_all add: parse_uint_def digit_value_def)
  then show "record_ids (hp_records (ex_page ms)) = [101]" by (simp add: record_ids_def ex_page_def List.map_filter_def)
qed

lemma ex_no_gap: "verify_no_gaps ''100'' ''101'' (hp_records (ex_page ms)) = None"
  using ex_ids by (simp add: verify_no_gaps_def Let_def history_range_tolerance_def split: list.split)

lemma gmail_gap_check_meaning_witness:
  "{hd (record_ids (hp_records (ex_page [])))..last (record_ids (hp_records (ex_page [])))} \<subseteq> {101} \<and>
     verify_no_gaps ''100'' ''101'' (hp_records (ex_page [])) = None"
  using gmail_gap_check_meaning [OF ex_ids(1) _ ex_ids(2), of "hp_records (ex_page [])"] by (simp add: ex_ids)

lemma ex_hid: "get_history_id (ge_cursor_fails (ex_gmail_env ms get)) (fj_account ex_job) (pw_accounts ex_poll_world) = Inr ''100''"
  by (simp add: get_history_id_def get_cursor_def ex_job_def ex_poll_world_def ex_account_row_def ex_gmail_env_def)

lemma ex_fetch:
  "fetch_history (ex_gmail_env ms get) ex_job ''100'' ex_poll_world =
     Some (ex_poll_world\<lparr>pw_quota := [gmail_key ''u'' \<mapsto> (248, Some 1000000005)]\<rparr>, Inr (''101'', hp_records (ex_page ms)))"
  by (simp add: fetch_history_def gmail_allow_def allow_gmail_request_def allow_script_def live_quota_def status_of_def Let_def
      quota_at_def gmail_history_list_cost_def gmail_quota_units_def fetch_pages.simps ex_page_def ex_poll_world_def ex_gmail_env_def)

lemma ex_cycle:
  "gmail_process (ex_gmail_env ms get) ex_job ex_poll_world =
     Some (process_history (ex_gmail_env ms get) ex_job ''100'' ''101'' (hp_records (ex_page ms))
       (ex_poll_world\<lparr>pw_quota := [gmail_key ''u'' \<mapsto> (248, Some 1000000005)]\<rparr>))"
proof -
  have "ge_token (ex_gmail_env ms get) = Inr ''tok''" by (simp add: ex_gmail_env_def)
  then show ?thesis by (simp add: gmail_process_def ex_hid ex_fetch)
qed

lemma ex_assembles:
  "\<exists>db ev. assemble_event (ex_assembly_env 9) (ex_ingested ''m1'') 7 ''s3'' empty_mail_db = (db, Inr ev)"
proof -
  let ?r = "\<lambda>f. assemble_event (ex_assembly_env_with f 9) (ex_ingested ''m1'') 7 ''s3'' empty_mail_db"
  have "(case snd (?r f) of Inl _ \<Rightarrow> False | Inr e \<Rightarrow> True)" for f by code_simp
  from answered [OF this, of text_code] show ?thesis by (elim exE conjE) (intro exI)
qed

lemma gmail_success_stores_every_message_witness:
  "\<exists>w'. gmail_process (ex_gmail_env [''m1''] (\<lambda>_. Inr (Some \<lparr>gm_id = [], gm_thread = [], gm_raw = [], gm_snippet = []\<rparr>))) ex_job ex_poll_world
     = Some (w', Inr ()) \<and> get_history_id False 2 (pw_accounts w') = Inr ''101''"
proof -
  let ?env = "ex_gmail_env [''m1''] (\<lambda>_. Inr (Some \<lparr>gm_id = [], gm_thread = [], gm_raw = [], gm_snippet = []\<rparr>))"
  let ?w = "ex_poll_world\<lparr>pw_quota := [gmail_key ''u'' \<mapsto> (248, Some 1000000005)]\<rparr>"
  obtain db ev where a: "assemble_event (ex_assembly_env 9) (ex_ingested ''m1'') 7 ''s3'' empty_mail_db = (db, Inr ev)"
    using ex_assembles by blast
  have uri: "pm_uri (ex_ingested ''m1'') = ''s3''" by (simp add: ex_ingested_def parsed_email.defs)
  have d: "decode_raw [] = Some []" by (simp add: decode_raw_def b64_decode_padded_def Let_def)
  have "\<exists>w1. process_messages ?env ex_job ''101'' 0 (added_messages (hp_records (ex_page [''m1''])))
      (ex_poll_world\<lparr>pw_quota := [gmail_key ''u'' \<mapsto> (248, Some 1000000005)], pw_gaps := 0\<rparr>) = (w1, StepDone) \<and> pw_accounts w1 = [ex_account_row]"
    using a by (simp add: added_messages_def ex_page_def process_added_message_def ex_gmail_env_def gmail_allow_def
        allow_gmail_request_def allow_script_def live_quota_def status_of_def Let_def quota_at_def gmail_get_cost_def
        ex_poll_world_def d ingest_mail_def uri)
  then have "\<exists>w'. process_history ?env ex_job ''100'' ''101'' (hp_records (ex_page [''m1''])) ?w = (w', Inr ())"
    using ex_no_gap [of "[''m1'']"]
    by (auto simp: process_history_def update_history_id_direct_def label_changes_def ex_gmail_env_def ex_page_def)
  then obtain w' where p: "gmail_process ?env ex_job ex_poll_world = Some (w', Inr ())" by (auto simp: ex_cycle)
  from gmail_success_stores_every_message [OF p] obtain hid newest recs w1
    where h: "get_history_id (ge_cursor_fails ?env) (fj_account ex_job) (pw_accounts ex_poll_world) = Inr hid"
      "fetch_history ?env ex_job hid ex_poll_world = Some (w1, Inr (newest, recs))"
      "get_history_id False (fj_account ex_job) (pw_accounts w') = Inr newest" by blast
  have hid: "hid = ''100''" using h(1) ex_hid by simp
  have "newest = ''101''" using h(2) unfolding hid ex_fetch by simp
  then show ?thesis using p h(3) by (simp add: ex_job_def)
qed


end
