(* ===== verification/Fetch_Gmail.thy ===== *)
theory Fetch_Gmail
  imports Poll_Gmail
begin

text \<open>
  The Gmail fetcher \<open>src/ingestion/internal/fetch/gmail.go\<close>: conversion of the answers of the Gmail API
  client, which is an argument, to the types of the poller, and the mapping of its errors.
\<close>

section \<open>Errors\<close>

text \<open>An error of the API client with a status code and its text, or any other error.\<close>

datatype api_error = ApiStatus nat string | ApiOther string

datatype fetch_error = FetchTyped ingestion_error | FetchNotFound string | FetchFailed string

definition map_error :: "string \<Rightarrow> api_error \<Rightarrow> fetch_error" where
  "map_error action e =
     (case e of
        ApiStatus c t \<Rightarrow>
          if c = 401
          then FetchTyped \<lparr>ig_code = ''oauth_expired'',
                 ig_message = ''gmail '' @ action @ '': OAuth token expired or revoked (HTTP 401)'', ig_user = uuid_nil, ig_retry = False\<rparr>
          else if c = 403
          then FetchTyped \<lparr>ig_code = ''rate_limited'', ig_message = ''gmail '' @ action @ '': rate limited or forbidden (HTTP 403)'',
                 ig_user = uuid_nil, ig_retry = True\<rparr>
          else if c = 404 then FetchNotFound action
          else FetchTyped \<lparr>ig_code = ''gmail_api_error_'' @ nat_decimal c, ig_message = ''gmail '' @ action @ '': '' @ t,
                 ig_user = uuid_nil, ig_retry = True\<rparr>
      | ApiOther t \<Rightarrow> FetchFailed (''gmail '' @ action @ '': '' @ t))"

definition fetch_error_text :: "fetch_error \<Rightarrow> string" where
  "fetch_error_text e =
     (case e of
        FetchTyped x \<Rightarrow> ig_message x
      | FetchNotFound action \<Rightarrow> ''gmail '' @ action @ '': not found (HTTP 404)''
      | FetchFailed t \<Rightarrow> t)"

section \<open>Answers\<close>

text \<open>A history entry of the API; its messages may be missing.\<close>

record api_history =
  ah_id :: "64 word"
  ah_added :: "(string \<times> string) option list"
  ah_deleted :: "string option list"
  ah_labels_added :: "(string option \<times> string list) list"
  ah_labels_removed :: "(string option \<times> string list) list"

record api_history_list =
  al_history :: "api_history list"
  al_next :: string
  al_history_id :: "64 word"

record gmail_api =
  ga_service_fails :: bool
  ga_history :: "64 word \<Rightarrow> string \<Rightarrow> api_error + api_history_list"
  ga_message :: "string \<Rightarrow> api_error + gmail_message"
  ga_messages :: "string \<Rightarrow> string \<Rightarrow> api_error + (string \<times> string) list \<times> string \<times> int"

definition format_uint :: "64 word \<Rightarrow> string" where
  "format_uint n = nat_decimal (unat n)"

definition convert_label :: "string option \<times> string list \<Rightarrow> label_change" where
  "convert_label l = \<lparr>lc_message = (case fst l of None \<Rightarrow> [] | Some m \<Rightarrow> m), lc_labels = snd l\<rparr>"

definition convert_record :: "api_history \<Rightarrow> history_record" where
  "convert_record h =
     \<lparr>hr_id = format_uint (ah_id h),
      hr_added = List.map_filter (map_option (\<lambda>(m, t). \<lparr>am_message = m, am_thread = t\<rparr>)) (ah_added h),
      hr_deleted = List.map_filter id (ah_deleted h), hr_labels_added = map convert_label (ah_labels_added h),
      hr_labels_removed = map convert_label (ah_labels_removed h)\<rparr>"

definition convert_history_response :: "api_history_list \<Rightarrow> history_page" where
  "convert_history_response r =
     \<lparr>hp_records = map convert_record (al_history r), hp_next = al_next r, hp_history = format_uint (al_history_id r)\<rparr>"

text \<open>\<open>HistoryList\<close> and \<open>HistoryListPage\<close>; the first call carries no page token.\<close>

definition history_list_call :: "gmail_api \<Rightarrow> string \<Rightarrow> string \<Rightarrow> string \<Rightarrow> fetch_error + history_page" where
  "history_list_call api action hid token =
     (if ga_service_fails api then Inl (FetchFailed ''create gmail service'')
      else (case parse_uint hid of
              None \<Rightarrow> Inl (FetchFailed (''parse historyID '' @ go_quote hid))
            | Some n \<Rightarrow>
                (case ga_history api n token of
                   Inl e \<Rightarrow> Inl (map_error action e)
                 | Inr r \<Rightarrow> Inr (convert_history_response r))))"

definition history_list :: "gmail_api \<Rightarrow> string \<Rightarrow> fetch_error + history_page" where
  "history_list api hid = history_list_call api ''history.list'' hid []"

definition history_list_page :: "gmail_api \<Rightarrow> string \<Rightarrow> string \<Rightarrow> fetch_error + history_page" where
  "history_list_page api hid token = history_list_call api ''history.list page'' hid token"

text \<open>A message that is gone is no message and no error.\<close>

definition messages_get :: "gmail_api \<Rightarrow> string \<Rightarrow> fetch_error + gmail_message option" where
  "messages_get api mid =
     (if ga_service_fails api then Inl (FetchFailed ''create gmail service'')
      else (case ga_message api mid of
              Inl e \<Rightarrow>
                (case map_error ''messages.get'' e of FetchNotFound _ \<Rightarrow> Inr None | err \<Rightarrow> Inl err)
            | Inr m \<Rightarrow> Inr (Some m)))"

record message_list =
  ml_items :: "(string \<times> string) list"
  ml_next :: string
  ml_estimate :: int

definition messages_list :: "gmail_api \<Rightarrow> string \<Rightarrow> string \<Rightarrow> fetch_error + message_list" where
  "messages_list api query token =
     (if ga_service_fails api then Inl (FetchFailed ''create gmail service'')
      else (case ga_messages api query token of
              Inl e \<Rightarrow> Inl (map_error ''messages.list'' e)
            | Inr (ms, next_token, n) \<Rightarrow> Inr \<lparr>ml_items = ms, ml_next = next_token, ml_estimate = n\<rparr>))"

section \<open>The poller on the API\<close>

definition text_error :: "fetch_error + 'a \<Rightarrow> string + 'a" where
  "text_error r = (case r of Inl e \<Rightarrow> Inl (fetch_error_text e) | Inr x \<Rightarrow> Inr x)"

text \<open>The wiring of \<open>cmd/worker/main.go\<close>: the poller with this fetcher, over an API that changes with each page.\<close>

definition with_gmail_api :: "(nat \<Rightarrow> gmail_api) \<Rightarrow> gmail_env \<Rightarrow> gmail_env" where
  "with_gmail_api api env =
     env\<lparr>ge_list := (\<lambda>hid. text_error (history_list (api 0) hid)),
         ge_page := (\<lambda>k hid token. text_error (history_list_page (api k) hid token)),
         ge_get := (\<lambda>mid. text_error (messages_get (api 0) mid))\<rparr>"

section \<open>Identifiers survive the conversion\<close>

lemma digit_value_digit: "n < 10 \<Longrightarrow> digit_value (char_of (48 + n)) = Some n"
  by (simp add: digit_value_def Let_def of_char_of)

lemma those_append: "those (xs @ ys) = (case (those xs, those ys) of (Some a, Some b) \<Rightarrow> Some (a @ b) | _ \<Rightarrow> None)"
  by (induction xs) (auto split: option.splits)

lemma nat_decimal_digits:
  "\<exists>ds. those (map digit_value (nat_decimal n)) = Some ds \<and> foldl (\<lambda>n d. 10 * n + d) 0 ds = n \<and> nat_decimal n \<noteq> []"
proof (induction n rule: nat_decimal.induct)
  case (1 n)
  show ?case
  proof (cases "n < 10")
    case True
    then show ?thesis by (simp add: nat_decimal.simps [of n] digit_value_digit)
  next
    case False
    then obtain ds where "those (map digit_value (nat_decimal (n div 10))) = Some ds" "foldl (\<lambda>n d. 10 * n + d) 0 ds = n div 10"
      using "1.IH" by blast
    then show ?thesis using False
      by (simp add: nat_decimal.simps [of n] those_append digit_value_digit)
  qed
qed

lemma parse_format_uint [simp]: "parse_uint (format_uint n) = Some n"
proof -
  obtain ds where "those (map digit_value (nat_decimal (unat n))) = Some ds" "foldl (\<lambda>n d. 10 * n + d) 0 ds = unat n"
    "nat_decimal (unat n) \<noteq> []"
    using nat_decimal_digits by blast
  moreover have "\<not> 2 ^ 64 \<le> unat n" using unsigned_less [of n] by (simp add: not_le)
  ultimately show ?thesis by (simp add: parse_uint_def format_uint_def Let_def)
qed

lemma record_ids_converted: "record_ids (map convert_record hs) = sort (map ah_id hs)"
proof -
  have "List.map_filter (\<lambda>r. parse_uint (hr_id r)) (map convert_record hs) = map ah_id hs"
    by (induction hs) (simp_all add: List.map_filter_def convert_record_def)
  then show ?thesis by (simp add: record_ids_def)
qed

lemma process_added_message_panic:
  "process_added_message env job n mid w = (w', StepPanic) \<Longrightarrow> ge_get env mid = Inr None"
  by (auto simp: process_added_message_def rate_limited_def split: prod.splits sum.splits if_splits option.splits)

text \<open>
  A new message that is gone again crashes the worker, each time. A cycle panics only because Gmail
  answered 404 for one of the added messages (a draft that was sent, a mail deleted at once), for which
  the fetcher returns neither a message nor an error. The cursor is not stored then, so that after a
  restart the same history is asked for, with the same message in it.
\<close>

lemma vanished_message_crash_repeats:
  assumes "gmail_process (with_gmail_api api env) job w = Some (w', Inl CyclePanic)"
  shows "pw_accounts w' = pw_accounts w \<and>
    (\<exists>hid newest recs w1 a t. get_history_id (ge_cursor_fails env) (fj_account job) (pw_accounts w) = Inr hid \<and>
      fetch_history (with_gmail_api api env) job hid w = Some (w1, Inr (newest, recs)) \<and> a \<in> set (added_messages recs) \<and>
      ga_message (api 0) (am_message a) = Inl (ApiStatus 404 t))"
  using assms
proof (cases rule: gmail_process_cases)
  case (records hid newest recs w1)
  let ?env = "with_gmail_api api env"
  let ?wd = "handle_deletions ?env job (concat (map hr_deleted recs)) (w1\<lparr>pw_gaps := 0\<rparr>)"
  let ?w0 = "handle_label_changes ?env job (label_changes recs) ?wd"
  have run: "process_messages ?env job newest 0 (added_messages recs) ?w0 = (w', StepPanic)"
    using records(4) by (auto simp: process_history_def gap_error_def split: option.splits prod.splits if_splits step_result.splits)
  from process_messages_stops [OF run] obtain before a rest w2
    where split: "added_messages recs = before @ a # rest" "process_messages ?env job newest 0 before ?w0 = (w2, StepDone)"
      "process_added_message ?env job (0 + length before) (am_message a) w2 = (w', StepPanic)" by auto
  have "ge_get ?env (am_message a) = Inr None" using process_added_message_panic [OF split(3)] .
  then obtain t where "ga_message (api 0) (am_message a) = Inl (ApiStatus 404 t)"
    by (auto simp: with_gmail_api_def messages_get_def map_error_def text_error_def
        split: if_splits sum.splits api_error.splits fetch_error.splits)
  moreover have "pw_accounts w' = pw_accounts w"
    using process_added_message_step [OF split(3)] process_messages_stores [OF split(2)] fetch_history_frame [OF records(3)]
      handle_deletions_keeps [of ?env job "concat (map hr_deleted recs)" "w1\<lparr>pw_gaps := 0\<rparr>"]
      handle_label_changes_keeps [of ?env job "label_changes recs" ?wd]
    by auto
  moreover have "ge_cursor_fails ?env = ge_cursor_fails env" by (simp add: with_gmail_api_def)
  ultimately show ?thesis using records(1,3) split(1) by auto
qed simp_all

text \<open>
  What the fetcher delivers has numeric identifiers throughout, so a cycle that succeeds has seen a
  history without a hole.
\<close>

definition ex_gmail_api :: gmail_api where
  "ex_gmail_api =
     \<lparr>ga_service_fails = False,
      ga_history = (\<lambda>_ _. Inr \<lparr>al_history = [\<lparr>ah_id = 101, ah_added = [Some (''m1'', ''t'')], ah_deleted = [], ah_labels_added = [],
        ah_labels_removed = []\<rparr>], al_next = [], al_history_id = 101\<rparr>),
      ga_message = (\<lambda>_. Inl (ApiStatus 404 ''gone'')), ga_messages = (\<lambda>_ _. Inl (ApiOther ''unused''))\<rparr>"

lemma vanished_message_crash_repeats_witness:
  "\<exists>w'. gmail_process (with_gmail_api (\<lambda>_. ex_gmail_api) (ex_gmail_env [] (\<lambda>_. Inl []))) ex_job ex_poll_world = Some (w', Inl CyclePanic) \<and>
     pw_accounts w' = pw_accounts ex_poll_world"
proof -
  let ?env = "with_gmail_api (\<lambda>_. ex_gmail_api) (ex_gmail_env [] (\<lambda>_. Inl []))"
  let ?q = "[gmail_key ''u'' \<mapsto> (248, Some 1000000005)] :: quota_db"
  have dec: "nat_decimal 101 = ''101''" by code_simp
  have list: "ge_list ?env ''100'' = Inr (ex_page [''m1''])"
    by (simp add: with_gmail_api_def history_list_def history_list_call_def ex_gmail_api_def ex_ids convert_history_response_def
        convert_record_def List.map_filter_def text_error_def format_uint_def dec ex_page_def)
  have get: "ge_get ?env m = Inr None" for m
    by (simp add: with_gmail_api_def messages_get_def ex_gmail_api_def map_error_def text_error_def)
  have hid: "get_history_id (ge_cursor_fails ?env) (fj_account ex_job) (pw_accounts ex_poll_world) = Inr ''100''"
    using ex_hid by (simp add: with_gmail_api_def)
  have fetch: "fetch_history ?env ex_job ''100'' ex_poll_world = Some (ex_poll_world\<lparr>pw_quota := ?q\<rparr>, Inr (''101'', hp_records (ex_page [''m1''])))"
    using list by (simp add: fetch_history_def with_gmail_api_def gmail_allow_def allow_gmail_request_def allow_script_def live_quota_def
        status_of_def Let_def quota_at_def gmail_history_list_cost_def gmail_quota_units_def fetch_pages.simps ex_page_def ex_poll_world_def
        ex_gmail_env_def)
  have msg: "\<exists>w1. process_messages ?env ex_job ''101'' 0 (added_messages (hp_records (ex_page [''m1''])))
      (ex_poll_world\<lparr>pw_quota := ?q, pw_gaps := 0\<rparr>) = (w1, StepPanic)"
    using get by (simp add: added_messages_def ex_page_def process_added_message_def with_gmail_api_def ex_gmail_env_def gmail_allow_def
        allow_gmail_request_def allow_script_def live_quota_def status_of_def Let_def quota_at_def gmail_get_cost_def ex_poll_world_def)
  have tok: "ge_token ?env = Inr ''tok''" by (simp add: with_gmail_api_def ex_gmail_env_def)
  have "\<exists>w'. process_history ?env ex_job ''100'' ''101'' (hp_records (ex_page [''m1''])) (ex_poll_world\<lparr>pw_quota := ?q\<rparr>) = (w', Inl CyclePanic)"
    using msg ex_no_gap [of "[''m1'']"] by (auto simp: process_history_def label_changes_def ex_page_def)
  then obtain w' where "gmail_process ?env ex_job ex_poll_world = Some (w', Inl CyclePanic)"
    by (auto simp: gmail_process_def tok hid fetch)
  with vanished_message_crash_repeats [OF this] show ?thesis by blast
qed

end
