(* ===== verification/Poll_Outlook.thy ===== *)
theory Poll_Outlook
  imports Poll_Gmail
begin

text \<open>
  The Outlook poller \<open>src/ingestion/internal/poll/outlook.go\<close>: one cycle runs a delta query from the
  stored link, follows the next links under the rate limit of the application, looks for anomalies and
  ingests the messages. The Graph API and the token store are arguments; the date formats of a
  Retry-After header are one argument.
\<close>

section \<open>Data\<close>

record recipient =
  rp_address :: string
  rp_name :: string

record outlook_attachment =
  oa_name :: string
  oa_type :: string
  oa_size :: int
  oa_inline :: bool

record outlook_message =
  om_id :: string
  om_conversation :: string
  om_subject :: string
  om_sender :: recipient
  om_from :: recipient
  om_to :: "recipient list"
  om_cc :: "recipient list"
  om_bcc :: "recipient list"
  om_received :: instant
  om_preview :: string
  om_body_type :: string
  om_body :: string
  om_internet_id :: string
  om_headers :: "(string \<times> string) list"
  om_has_attachments :: bool
  om_attachments :: "outlook_attachment list"
  om_draft :: bool
  om_change :: string

record delta_result =
  dq_messages :: "outlook_message list"
  dq_delta :: string
  dq_next :: string
  dq_retry_after :: duration
  dq_limited :: bool
  dq_error :: string

datatype outlook_call = DeltaCall nat | DeltaRefund nat | AttachmentCall nat

record outlook_env =
  oe_token :: "string + string"
  oe_cursor_fails :: bool
  oe_app :: string
  oe_quota :: "outlook_call \<Rightarrow> quota_env"
  oe_query :: "nat \<Rightarrow> string \<Rightarrow> string + delta_result"
  oe_fresh :: "nat \<Rightarrow> uuid"
  oe_assembly :: "nat \<Rightarrow> assembly_env"
  oe_publish_fails :: "nat \<Rightarrow> bool"
  oe_delete_fails :: "string \<Rightarrow> bool"
  oe_save_fails :: bool
  oe_now :: instant

text \<open>\<open>NewOutlookPoller\<close>: the key of the quota.\<close>

definition poller_app_id :: "string \<Rightarrow> string" where
  "poller_app_id app = (if app = [] then ''default'' else app)"

section \<open>Conversion\<close>

text \<open>\<open>strings.Trim(r, "<>")\<close>.\<close>

definition is_angle :: "char \<Rightarrow> bool" where
  "is_angle c \<longleftrightarrow> c = CHR ''<'' \<or> c = CHR ''>''"

definition trim_angles :: "string \<Rightarrow> string" where
  "trim_angles s = rev (dropWhile is_angle (rev (dropWhile is_angle s)))"

definition parse_references :: "string \<Rightarrow> string list" where
  "parse_references s = filter (\<lambda>r. r \<noteq> []) (map trim_angles (str_fields s))"

definition addresses :: "recipient list \<Rightarrow> string list" where
  "addresses rs = filter (\<lambda>a. a \<noteq> []) (map rp_address rs)"

text \<open>The last header of a name counts.\<close>

definition last_header :: "string \<Rightarrow> (string \<times> string) list \<Rightarrow> string option" where
  "last_header name hs = map_option snd (List.find (\<lambda>h. fst h = name) (rev hs))"

definition convert_to_parsed_email :: "outlook_message \<Rightarrow> uuid \<Rightarrow> uuid \<Rightarrow> ingested_email" where
  "convert_to_parsed_email m account user =
     (let who = (if rp_address (om_from m) \<noteq> [] then om_from m
                 else if rp_address (om_sender m) \<noteq> [] then om_sender m else \<lparr>rp_address = [], rp_name = []\<rparr>)
      in \<lparr>pm_user = user, pm_account = account, pm_in_reply_to = last_header ''In-Reply-To'' (om_headers m),
          pm_references = (case last_header ''References'' (om_headers m) of None \<Rightarrow> [] | Some r \<Rightarrow> parse_references r),
          pm_sender = rp_address who, pm_recipients = addresses (om_to m) @ addresses (om_cc m), pm_subject = om_subject m,
          pm_received = om_received m, pm_source = ''outlook'', pm_message = om_internet_id m, pm_sender_name = rp_name who,
          pm_body_text = (if om_body_type m = ''text'' then om_body m else om_preview m),
          pm_body_html = (if om_body_type m = ''text'' then [] else om_body m),
          pm_has_attachments = om_attachments m \<noteq> [],
          pm_attachments = map (\<lambda>a. \<lparr>at_name = oa_name a, at_type = oa_type a, at_size = oa_size a, at_uri = [],
            at_inline = oa_inline a\<rparr>) (om_attachments m),
          pm_codes = [], pm_uri = []\<rparr>)"

definition truncate_text :: "string \<Rightarrow> nat \<Rightarrow> string" where
  "truncate_text s n = (if length s \<le> n then s else take n s @ ''...'')"

text \<open>
  \<open>ParseRetryAfter\<close>: seconds as a 64 bit number whose product with the nanoseconds of a second wraps
  around, or a date, from which \<open>time.Until\<close> counts.
\<close>

definition wrap_64 :: "int \<Rightarrow> int" where
  "wrap_64 i = (i + 2 ^ 63) mod 2 ^ 64 - 2 ^ 63"

definition atoi :: "string \<Rightarrow> int option" where
  "atoi s =
     (let digits = (case s of c # t \<Rightarrow> if c = CHR ''-'' \<or> c = CHR ''+'' then t else s | [] \<Rightarrow> [])
      in (case those (map digit_value digits) of
            None \<Rightarrow> None
          | Some ds \<Rightarrow>
              (let n = int (foldl (\<lambda>n d. 10 * n + d) 0 ds); i = (if has_prefix s ''-'' then - n else n)
               in if digits = [] \<or> i < - (2 ^ 63) \<or> 2 ^ 63 \<le> i then None else Some i)))"

definition parse_retry_after :: "(string \<Rightarrow> instant option) \<Rightarrow> instant \<Rightarrow> string \<Rightarrow> duration" where
  "parse_retry_after parse_date now value =
     (case atoi (trim_space value) of
        Some s \<Rightarrow> wrap_64 (s * second_ns)
      | None \<Rightarrow>
          (case parse_date (trim_space value) of
             Some t \<Rightarrow> max 0 (go_sub t now)
           | None \<Rightarrow> 60 * second_ns))"

section \<open>Anomalies of the delta\<close>

definition max_consecutive_silent_polls :: nat where "max_consecutive_silent_polls = 5"
definition min_delta_link_change :: nat where "min_delta_link_change = 10"

definition delta_link_diff :: "string \<Rightarrow> string \<Rightarrow> nat" where
  "delta_link_diff a b =
     (if a = [] \<or> b = [] then length a + length b
      else if has_prefix a b then length a - length b
      else if has_prefix b a then length b - length a
      else length a + length b)"

datatype delta_anomaly = SilentPoll nat | DeltaTruncated nat nat | DeltaUnchanged nat

definition delta_gap :: "string \<Rightarrow> string \<Rightarrow> nat \<Rightarrow> delta_anomaly option" where
  "delta_gap previous new n =
     (if n = 0 \<and> new \<noteq> [] \<and> new \<noteq> previous \<and> min_delta_link_change \<le> delta_link_diff previous new
      then Some (SilentPoll (delta_link_diff previous new))
      else if previous \<noteq> [] \<and> new \<noteq> [] \<and> length new < length previous div 2
      then Some (DeltaTruncated (length new) (length previous))
      else if 0 < n \<and> new = previous \<and> previous \<noteq> [] then Some (DeltaUnchanged n) else None)"

definition verify_no_delta_gaps :: "string \<Rightarrow> string \<Rightarrow> nat \<Rightarrow> poll_world \<Rightarrow> poll_world \<times> delta_anomaly option" where
  "verify_no_delta_gaps previous new n w =
     (case delta_gap previous new n of
        Some g \<Rightarrow> (w, Some g)
      | None \<Rightarrow> (w\<lparr>pw_previous_delta := new\<rparr>, None))"

section \<open>The pages of the delta\<close>

definition save_delta :: "outlook_env \<Rightarrow> fetch_job \<Rightarrow> string \<Rightarrow> poll_world \<Rightarrow> poll_world" where
  "save_delta env job d w =
     (if d = [] then w
      else w\<lparr>pw_accounts := fst (update_delta_link_direct (oe_save_fails env) (oe_now env) (fj_account job) d (pw_accounts w))\<rparr>)"

definition outlook_allow :: "outlook_env \<Rightarrow> outlook_call \<Rightarrow> poll_world \<Rightarrow> poll_world \<times> (string + rate_status)" where
  "outlook_allow env c w =
     (case allow_outlook_request (oe_quota env c) (oe_app env) (pw_quota w) of (q, r) \<Rightarrow> (w\<lparr>pw_quota := q\<rparr>, r))"

definition outlook_refund :: "outlook_env \<Rightarrow> outlook_call \<Rightarrow> poll_world \<Rightarrow> poll_world" where
  "outlook_refund env c w = w\<lparr>pw_quota := fst (refund_outlook_quota (oe_quota env c) (oe_app env) (pw_quota w))\<rparr>"

definition retry_delay :: "duration \<Rightarrow> duration" where
  "retry_delay d = (if d \<le> 0 then 60 * second_ns else d)"

type_synonym delta_pages = "poll_error + string \<times> outlook_message list"

text \<open>An error code on a page after the first is not looked at.\<close>

partial_function (option) fetch_delta_pages ::
  "outlook_env \<Rightarrow> fetch_job \<Rightarrow> nat \<Rightarrow> string \<Rightarrow> string \<Rightarrow> outlook_message list \<Rightarrow> poll_world \<Rightarrow> (poll_world \<times> delta_pages) option" where
  "fetch_delta_pages env job k link delta msgs w =
     (if link = [] then Some (w, Inr (delta, msgs))
      else (case outlook_allow env (DeltaCall k) w of
              (w1, Inl e) \<Rightarrow> Some (w1, Inl (PollFailed (''rate limit check (delta page): '' @ e)))
            | (w1, Inr st) \<Rightarrow>
                if \<not> rl_allowed st
                then Some (save_delta env job delta w1,
                           Inl (rate_limited ''outlook rate limited during pagination: retry after '' (fj_user job) (rl_backoff st)))
                else (case oe_query env k link of
                        Inl e \<Rightarrow>
                          Some (save_delta env job delta (outlook_refund env (DeltaRefund k) w1),
                                Inl (PollFailed (''delta query page failed: '' @ e)))
                      | Inr p \<Rightarrow>
                          if dq_limited p
                          then Some (save_delta env job delta w1,
                                     Inl (rate_limited ''outlook API rate limited on page: retry after '' (fj_user job)
                                       (retry_delay (dq_retry_after p))))
                          else fetch_delta_pages env job (Suc k) (dq_next p) (if dq_delta p = [] then delta else dq_delta p)
                                 (msgs @ dq_messages p) w1)))"

declare fetch_delta_pages.simps [code]

definition fetch_delta :: "outlook_env \<Rightarrow> fetch_job \<Rightarrow> string \<Rightarrow> poll_world \<Rightarrow> (poll_world \<times> delta_pages) option" where
  "fetch_delta env job link w =
     (case outlook_allow env (DeltaCall 0) w of
        (w1, Inl e) \<Rightarrow> Some (w1, Inl (PollFailed (''rate limit check: '' @ e)))
      | (w1, Inr st) \<Rightarrow>
          if \<not> rl_allowed st
          then Some (w1, Inl (rate_limited ''outlook rate limited: retry after '' (fj_user job) (rl_backoff st)))
          else (case oe_query env 0 link of
                  Inl e \<Rightarrow> Some (outlook_refund env (DeltaRefund 0) w1, Inl (PollFailed (''delta query failed: '' @ e)))
                | Inr p \<Rightarrow>
                    if dq_limited p
                    then Some (w1, Inl (rate_limited ''outlook API rate limited: retry after '' (fj_user job)
                      (retry_delay (dq_retry_after p))))
                    else if dq_error p \<noteq> []
                    then Some (w1, Inl (PollRefused \<lparr>ig_code = dq_error p, ig_message = ''outlook API error: '' @ dq_error p,
                      ig_user = fj_user job, ig_retry = True\<rparr> 0))
                    else fetch_delta_pages env job 1 (dq_next p) (dq_delta p) (dq_messages p) w1))"

section \<open>The messages of the delta\<close>

definition process_message :: "outlook_env \<Rightarrow> fetch_job \<Rightarrow> nat \<Rightarrow> outlook_message \<Rightarrow> poll_world \<Rightarrow> poll_world \<times> poll_error option" where
  "process_message env job n m w =
     (if om_draft m then (w, None)
      else
       (let asks = om_has_attachments m \<and> om_attachments m \<noteq> []
        in (case (if asks then outlook_allow env (AttachmentCall n) w
                  else (w, Inr \<lparr>rl_allowed = True, rl_remaining = 0, rl_reset_at = zero_time, rl_backoff = 0\<rparr>)) of
              (w1, Inl e) \<Rightarrow> (w1, Some (PollFailed (''rate limit check (attachments): '' @ e)))
            | (w1, Inr st) \<Rightarrow>
                if \<not> rl_allowed st
                then (w1, Some (rate_limited ''outlook rate limited for attachments: retry after '' (fj_user job) (rl_backoff st)))
                else (case ingest_mail (oe_assembly env n) (oe_publish_fails env n) (oe_fresh env n)
                        (convert_to_parsed_email m (fj_account job) (fj_user job)) w1 of
                        (w2, None) \<Rightarrow> (w2, None)
                      | (w2, Some e) \<Rightarrow>
                          (w2, Some (PollFailed (''assemble event for '' @ om_id m @ '': '' @ ig_message e)))))))"

fun process_delta :: "outlook_env \<Rightarrow> fetch_job \<Rightarrow> string \<Rightarrow> nat \<Rightarrow> outlook_message list \<Rightarrow> poll_world \<Rightarrow> poll_world \<times> poll_error option" where
  "process_delta env job delta n [] w = (w, None)"
| "process_delta env job delta n (m # ms) w =
     (if om_change m = ''deleted''
      then process_delta env job delta (Suc n) ms (fst (mark_deleted (oe_delete_fails env (om_id m)) job (om_id m) w))
      else (case process_message env job n m w of
              (w1, None) \<Rightarrow> process_delta env job delta (Suc n) ms w1
            | (w1, Some e) \<Rightarrow> (save_delta env job delta w1, Some e)))"

datatype delta_error = DeltaFailed poll_error | DeltaHalted nat delta_anomaly | DeltaMessageFailed poll_error

text \<open>Steps 6a to 8.\<close>

definition process_delta_messages ::
  "outlook_env \<Rightarrow> fetch_job \<Rightarrow> string \<Rightarrow> string \<Rightarrow> outlook_message list \<Rightarrow> poll_world \<Rightarrow> poll_world \<times> (delta_error + unit)" where
  "process_delta_messages env job link delta msgs w =
     (case verify_no_delta_gaps link delta (length msgs) w of
        (w0, gap) \<Rightarrow>
          (let w1 = w0\<lparr>pw_silent := (if gap = None then 0 else Suc (pw_silent w0))\<rparr>
           in (case (if gap \<noteq> None \<and> max_consecutive_silent_polls \<le> pw_silent w1 then gap else None) of
                 Some g \<Rightarrow> (w1, Inl (DeltaHalted (pw_silent w1) g))
               | None \<Rightarrow>
                   (case process_delta env job delta 0 msgs w1 of
                      (w2, Some e) \<Rightarrow> (w2, Inl (DeltaMessageFailed e))
                    | (w2, None) \<Rightarrow>
                        if delta = [] then (w2, Inr ())
                        else (case update_delta_link_direct (oe_save_fails env) (oe_now env) (fj_account job) delta (pw_accounts w2) of
                                (accs, Some e) \<Rightarrow> (w2\<lparr>pw_accounts := accs\<rparr>, Inl (DeltaFailed (PollFailed (''update delta_link: '' @ e))))
                              | (accs, None) \<Rightarrow> (w2\<lparr>pw_accounts := accs\<rparr>, Inr ()))))))"

definition outlook_process :: "outlook_env \<Rightarrow> fetch_job \<Rightarrow> poll_world \<Rightarrow> (poll_world \<times> (delta_error + unit)) option" where
  "outlook_process env job w =
     (case oe_token env of
        Inl e \<Rightarrow> Some (w, Inl (DeltaFailed (PollFailed (''refresh tokens: '' @ e))))
      | Inr _ \<Rightarrow>
          (case get_delta_link (oe_cursor_fails env) (fj_account job) (pw_accounts w) of
             Inl e \<Rightarrow> Some (w, Inl (DeltaFailed (PollFailed (''get delta_link: '' @ e))))
           | Inr link \<Rightarrow>
               if link = [] then Some (w, Inl (DeltaFailed (PollFailed ''no delta_link: full sync required'')))
               else (case fetch_delta env job link w of
                       None \<Rightarrow> None
                     | Some (w1, Inl e) \<Rightarrow> Some (w1, Inl (DeltaFailed e))
                     | Some (w1, Inr (delta, msgs)) \<Rightarrow> Some (process_delta_messages env job link delta msgs w1))))"

section \<open>A cycle returns\<close>

lemma outlook_allow_frame: "outlook_allow env c w = (w', r) \<Longrightarrow> \<exists>q. w' = w\<lparr>pw_quota := q\<rparr>"
  by (auto simp: outlook_allow_def split: prod.splits)

lemma fetch_delta_pages_returns:
  assumes clock: "\<forall>k. start \<le> qe_now (oe_quota env (DeltaCall k)) \<and> qe_now (oe_quota env (DeltaCall k)) < until"
  shows "\<exists>r. fetch_delta_pages env job k link delta msgs w = Some r"
proof -
  let ?left = "units_left outlook_requests (10 * minute_ns) start until (outlook_key (oe_app env))"
  have nonneg: "0 \<le> ?left q" for q by (rule units_left_nonneg) (simp_all add: outlook_requests_def)
  show ?thesis
  proof (induction "nat (?left (pw_quota w))" arbitrary: k link delta msgs w rule: less_induct)
    case less
    obtain w1 a where a: "outlook_allow env (DeltaCall k) w = (w1, a)" by fastforce
    have "\<exists>r. fetch_delta_pages env job (Suc k) l d ms w1 = Some r"
      if st: "a = Inr st" "rl_allowed st" for st l d ms
    proof -
      have q: "allow_outlook_request (oe_quota env (DeltaCall k)) (oe_app env) (pw_quota w) = (pw_quota w1, Inr st)"
        using a st by (auto simp: outlook_allow_def split: prod.splits)
      have "?left (pw_quota w1) + 1 \<le> ?left (pw_quota w)"
        by (rule outlook_request_uses_units [OF _ _ q st(2)]) (use clock in auto)
      then have "nat (?left (pw_quota w1)) < nat (?left (pw_quota w))"
        using nonneg [of "pw_quota w1"] by simp
      then show ?thesis by (rule less)
    qed
    then show ?case
      by (subst fetch_delta_pages.simps) (auto simp: a split: sum.split)
  qed
qed

lemma outlook_cycle_returns:
  assumes "\<forall>k. start \<le> qe_now (oe_quota env (DeltaCall k)) \<and> qe_now (oe_quota env (DeltaCall k)) < until"
  shows "\<exists>w' r. outlook_process env job w = Some (w', r)"
proof -
  have "\<exists>r. fetch_delta env job link w = Some r" for link
    using fetch_delta_pages_returns [OF assms]
    by (auto simp: fetch_delta_def split: prod.split sum.split)
  then have "outlook_process env job w \<noteq> None"
    by (auto simp: outlook_process_def split: sum.split option.split prod.split) (metis option.distinct(1))
  then show ?thesis by auto
qed

section \<open>What a cycle stores\<close>

text \<open>The messages that are to be stored, and whether one is.\<close>

definition is_new_mail :: "outlook_message \<Rightarrow> bool" where
  "is_new_mail m \<longleftrightarrow> om_change m \<noteq> ''deleted'' \<and> \<not> om_draft m"

definition stored_outlook_mail :: "fetch_job \<Rightarrow> poll_world \<Rightarrow> outlook_message \<Rightarrow> bool" where
  "stored_outlook_mail job w m \<longleftrightarrow> stored_already (fj_user job) (om_internet_id m) (md_raw (pw_mail w))"

lemma converted_key [simp]:
  "pm_user (convert_to_parsed_email m a u) = u" "pm_message (convert_to_parsed_email m a u) = om_internet_id m"
  "pm_uri (convert_to_parsed_email m a u) = []"
  by (simp_all add: convert_to_parsed_email_def Let_def)

lemma process_message_step:
  assumes "process_message env job n m w = (w', e)"
  shows "pw_accounts w' = pw_accounts w \<and> keeps_mail w w' \<and> (e = None \<and> \<not> om_draft m \<longrightarrow> stored_outlook_mail job w' m)"
proof (cases "om_draft m")
  case True
  then show ?thesis using assms by (simp add: process_message_def)
next
  case False
  define asks where "asks \<longleftrightarrow> om_has_attachments m \<and> om_attachments m \<noteq> []"
  obtain w1 a where a: "(if asks then outlook_allow env (AttachmentCall n) w
      else (w, Inr \<lparr>rl_allowed = True, rl_remaining = 0, rl_reset_at = zero_time, rl_backoff = 0\<rparr>)) = (w1, a)" by fastforce
  then have "\<exists>q. w1 = w\<lparr>pw_quota := q\<rparr>"
    using outlook_allow_frame [of env "AttachmentCall n" w] by (auto split: if_splits intro: exI [of _ "pw_quota w"])
  then obtain q where w1: "w1 = w\<lparr>pw_quota := q\<rparr>" by blast
  obtain w2 f where i: "ingest_mail (oe_assembly env n) (oe_publish_fails env n) (oe_fresh env n)
      (convert_to_parsed_email m (fj_account job) (fj_user job)) w1 = (w2, f)" by fastforce
  have cases: "(w' = w1 \<and> e \<noteq> None) \<or> (w' = w2 \<and> (e = None \<longleftrightarrow> f = None))"
    using assms False a i
    by (simp add: process_message_def Let_def flip: asks_def split: sum.splits if_splits option.splits) auto
  have k: "pw_accounts w2 = pw_accounts w1 \<and> keeps_mail w1 w2"
    using ingest_mail_keeps [OF i] by (auto simp: keeps_mail_def stored_already_append)
  have "f = None \<Longrightarrow> stored_outlook_mail job w2 m"
    using i ingest_mail_stores [of _ _ _ "convert_to_parsed_email m (fj_account job) (fj_user job)" w1 w2]
    by (auto simp: stored_outlook_mail_def)
  then show ?thesis using cases k by (auto simp: w1 keeps_mail_def)
qed

lemma mark_deleted_frame:
  "pw_accounts (fst (mark_deleted f job mid w)) = pw_accounts w \<and> keeps_mail w (fst (mark_deleted f job mid w))"
  by (auto simp: mark_deleted_def keeps_mail_def stored_already_update)

lemma process_delta_step:
  assumes "process_delta env job delta n ms w = (w', e)"
  shows "keeps_mail w w' \<and> (e = None \<longrightarrow> pw_accounts w' = pw_accounts w \<and>
      (\<forall>m \<in> set ms. is_new_mail m \<longrightarrow> stored_outlook_mail job w' m)) \<and>
    (\<exists>v. pw_accounts v = pw_accounts w \<and> pw_mail v = pw_mail w' \<and> (e \<noteq> None \<longrightarrow> w' = save_delta env job delta v))"
  using assms
proof (induction env job delta n ms w rule: process_delta.induct)
  case (2 env job delta n m ms w)
  show ?case
  proof (cases "om_change m = ''deleted''")
    case True
    note d = mark_deleted_frame [of "oe_delete_fails env (om_id m)" job "om_id m" w]
    have "process_delta env job delta (Suc n) ms (fst (mark_deleted (oe_delete_fails env (om_id m)) job (om_id m) w)) = (w', e)"
      using "2.prems" True by simp
    from "2.IH"(1) [OF True this] show ?thesis
      using d keeps_mail_trans True by (auto simp: is_new_mail_def)
  next
    case False
    obtain w1 f where s: "process_message env job n m w = (w1, f)" by fastforce
    note st = process_message_step [OF s]
    show ?thesis
    proof (cases f)
      case None
      then have run: "process_delta env job delta (Suc n) ms w1 = (w', e)" using "2.prems" False s by simp
      note ih = "2.IH"(2) [OF False s [symmetric] None run]
      have "e = None \<Longrightarrow> is_new_mail m \<Longrightarrow> stored_outlook_mail job w' m"
        using st ih None by (auto simp: is_new_mail_def stored_outlook_mail_def keeps_mail_def)
      then show ?thesis using st ih keeps_mail_trans by auto
    next
      case (Some x)
      then have "w' = save_delta env job delta w1" "e = Some x" using "2.prems" False s by auto
      then show ?thesis using st by (auto simp: save_delta_def keeps_mail_def intro!: exI [of _ w1])
    qed
  qed
qed (auto intro: exI [of _ "_ :: poll_world"])

lemma fetch_delta_pages_frame:
  assumes "fetch_delta_pages env job k link delta msgs w = Some r"
  shows "pw_mail (fst r) = pw_mail w \<and> same_accounts w (fst r) \<and> pw_silent (fst r) = pw_silent w \<and> (isl (snd r) \<or> pw_accounts (fst r) = pw_accounts w)"
proof (rule fetch_delta_pages.raw_induct [where P = "\<lambda>env job k link delta msgs w r.
    pw_mail (fst r) = pw_mail w \<and> same_accounts w (fst r) \<and> pw_silent (fst r) = pw_silent w \<and> (isl (snd r) \<or> pw_accounts (fst r) = pw_accounts w)", OF _ assms], goal_cases)
  case (1 f env job k link delta msgs w r)
  obtain w1 a where a: "outlook_allow env (DeltaCall k) w = (w1, a)" by fastforce
  obtain q where w1: "w1 = w\<lparr>pw_quota := q\<rparr>" using outlook_allow_frame [OF a] by blast
  show ?case
    using "1"(2) by (auto simp: a w1 save_delta_def outlook_refund_def same_accounts_def update_cursor_fixed split: if_splits sum.splits dest!: "1"(1))
qed

lemma fetch_delta_frame:
  assumes "fetch_delta env job link w = Some (w', r)"
  shows "pw_mail w' = pw_mail w \<and> same_accounts w w' \<and> pw_silent w' = pw_silent w \<and> (isl r \<or> pw_accounts w' = pw_accounts w)"
proof -
  obtain w1 a where a: "outlook_allow env (DeltaCall 0) w = (w1, a)" by fastforce
  obtain q where w1: "w1 = w\<lparr>pw_quota := q\<rparr>" using outlook_allow_frame [OF a] by blast
  show ?thesis
    using assms by (auto simp: fetch_delta_def a w1 outlook_refund_def same_accounts_def split: if_splits sum.splits dest!: fetch_delta_pages_frame)
qed

lemma outlook_process_cases:
  assumes "outlook_process env job w = Some (w', r)"
  obtains (before) e where "r = Inl (DeltaFailed e)" "w' = w"
  | (delta) link e where "get_delta_link (oe_cursor_fails env) (fj_account job) (pw_accounts w) = Inr link" "link \<noteq> []"
      "fetch_delta env job link w = Some (w', Inl e)" "r = Inl (DeltaFailed e)"
  | (messages) link delta msgs w1 where
      "get_delta_link (oe_cursor_fails env) (fj_account job) (pw_accounts w) = Inr link" "link \<noteq> []"
      "fetch_delta env job link w = Some (w1, Inr (delta, msgs))" "process_delta_messages env job link delta msgs w1 = (w', r)"
  using assms
  by (auto simp: outlook_process_def split: sum.splits if_splits option.splits prod.splits)

lemma delta_after_update:
  assumes "List.find (\<lambda>x. ea_id x = a) accs = Some x" "update_delta_link_direct f now a d accs = (accs', None)"
  shows "get_delta_link False a accs' = Inr d"
proof -
  have accs: "accs' = update_rows (\<lambda>x. ea_id x = a) (\<lambda>x. x\<lparr>ea_delta := Some d, ea_updated := now\<rparr>) accs"
    using assms(2) by (simp add: update_delta_link_direct_def split: if_splits)
  have "ea_id x = a" using assms(1) by (auto simp: find_Some_iff)
  then show ?thesis
    using assms(1) by (simp add: get_delta_link_def get_cursor_def accs update_rows_def find_map_key)
qed

lemma verify_no_delta_gaps_frame:
  "verify_no_delta_gaps p d n w = (w', g) \<Longrightarrow> pw_accounts w' = pw_accounts w \<and> pw_mail w' = pw_mail w \<and> pw_silent w' = pw_silent w"
  by (auto simp: verify_no_delta_gaps_def split: option.splits)

text \<open>
  A successful Outlook cycle stores every new message of its pages under its Internet message
  identifier, and moves the cursor to the delta link if one was given. It also succeeds with an anomaly:
  only from the fifth in a row on is the cursor held back, while the comment asks for it each time.
\<close>

lemma outlook_success_stores_every_message:
  assumes "outlook_process env job w = Some (w', Inr ())"
  shows "\<exists>link delta msgs w1. get_delta_link (oe_cursor_fails env) (fj_account job) (pw_accounts w) = Inr link \<and>
    fetch_delta env job link w = Some (w1, Inr (delta, msgs)) \<and>
    (\<forall>m \<in> set msgs. is_new_mail m \<longrightarrow> stored_outlook_mail job w' m) \<and>
    (if delta = [] then pw_accounts w' = pw_accounts w else get_delta_link False (fj_account job) (pw_accounts w') = Inr delta) \<and>
    (delta_gap link delta (length msgs) = None \<or> Suc (pw_silent w) < 5)"
  using assms
proof (cases rule: outlook_process_cases)
  case (messages link delta msgs w1)
  obtain x where x: "List.find (\<lambda>x. ea_id x = fj_account job) (pw_accounts w) = Some x"
    using messages(1) by (auto simp: get_delta_link_def get_cursor_def split: if_splits option.splits)
  have f: "pw_accounts w1 = pw_accounts w" using fetch_delta_frame [OF messages(3)] by simp
  obtain w0 g where v: "verify_no_delta_gaps link delta (length msgs) w1 = (w0, g)" by fastforce
  have g: "g = delta_gap link delta (length msgs)"
    using v by (auto simp: verify_no_delta_gaps_def split: option.splits)
  let ?v = "w0\<lparr>pw_silent := (if g = None then 0 else Suc (pw_silent w0))\<rparr>"
  obtain w2 e where run: "process_delta env job delta 0 msgs ?v = (w2, e)" by fastforce
  have low: "g = None \<or> Suc (pw_silent w0) < 5"
    using messages(4) v by (auto simp: process_delta_messages_def Let_def max_consecutive_silent_polls_def split: option.splits if_splits)
  have e: "e = None" and fin: "(if delta = [] then (w2, Inr ())
      else (case update_delta_link_direct (oe_save_fails env) (oe_now env) (fj_account job) delta (pw_accounts w2) of
        (accs, Some e) \<Rightarrow> (w2\<lparr>pw_accounts := accs\<rparr>, Inl (DeltaFailed (PollFailed (''update delta_link: '' @ e))))
      | (accs, None) \<Rightarrow> (w2\<lparr>pw_accounts := accs\<rparr>, Inr ()))) = (w', Inr ())"
    using messages(4) v run low
    by (auto simp: process_delta_messages_def Let_def max_consecutive_silent_polls_def split: option.splits if_splits)
  note s = process_delta_step [OF run, unfolded e]
  have acc: "pw_accounts w2 = pw_accounts w" using s verify_no_delta_gaps_frame [OF v] f by simp
  have cursor: "if delta = [] then pw_accounts w' = pw_accounts w else get_delta_link False (fj_account job) (pw_accounts w') = Inr delta"
    and mail: "pw_mail w' = pw_mail w2"
  proof -
    obtain accs where d: "delta \<noteq> [] \<Longrightarrow>
        update_delta_link_direct (oe_save_fails env) (oe_now env) (fj_account job) delta (pw_accounts w2) = (accs, None) \<and> w' = w2\<lparr>pw_accounts := accs\<rparr>"
      and n: "delta = [] \<Longrightarrow> w' = w2"
      using fin by (cases "delta = []") (auto split: prod.splits option.splits)
    show "if delta = [] then pw_accounts w' = pw_accounts w else get_delta_link False (fj_account job) (pw_accounts w') = Inr delta"
      using d n acc x delta_after_update by (cases "delta = []") auto
    show "pw_mail w' = pw_mail w2" using d n by (cases "delta = []") auto
  qed
  have "\<forall>m \<in> set msgs. is_new_mail m \<longrightarrow> stored_outlook_mail job w' m"
    using s by (simp add: stored_outlook_mail_def mail)
  moreover have "delta_gap link delta (length msgs) = None \<or> Suc (pw_silent w) < 5"
    using low g verify_no_delta_gaps_frame [OF v] fetch_delta_frame [OF messages(3)] by auto
  ultimately show ?thesis using messages(1,3) cursor by blast
qed simp_all

section \<open>Witnesses and observations\<close>

definition ex_outlook_message :: outlook_message where
  "ex_outlook_message =
     \<lparr>om_id = ''g1'', om_conversation = ''c'', om_subject = ''Hi'', om_sender = \<lparr>rp_address = [], rp_name = []\<rparr>,
      om_from = \<lparr>rp_address = ''bob@x.io'', rp_name = ''Bob''\<rparr>, om_to = [], om_cc = [], om_bcc = [], om_received = 100, om_preview = ''hi'',
      om_body_type = ''text'', om_body = ''hi'', om_internet_id = ''m1'', om_headers = [], om_has_attachments = False, om_attachments = [],
      om_draft = False, om_change = []\<rparr>"

definition ex_outlook_env :: "delta_result \<Rightarrow> outlook_env" where
  "ex_outlook_env p =
     \<lparr>oe_token = Inr ''tok'', oe_cursor_fails = False, oe_app = ''default'', oe_quota = (\<lambda>_. quota_at 5), oe_query = (\<lambda>_ _. Inr p),
      oe_fresh = (\<lambda>n. 7 + n), oe_assembly = (\<lambda>n. ex_assembly_env (9 + n)), oe_publish_fails = (\<lambda>_. False),
      oe_delete_fails = (\<lambda>_. False), oe_save_fails = False, oe_now = 5\<rparr>"

definition ex_delta :: "outlook_message list \<Rightarrow> string \<Rightarrow> delta_result" where
  "ex_delta ms d = \<lparr>dq_messages = ms, dq_delta = d, dq_next = [], dq_retry_after = 0, dq_limited = False, dq_error = []\<rparr>"

definition ex_outlook_world :: poll_world where
  "ex_outlook_world = ex_poll_world\<lparr>pw_accounts := [ex_account_row\<lparr>ea_provider := ''outlook'', ea_history := None, ea_delta := Some ''d0''\<rparr>]\<rparr>"

text \<open>Deleting by the Graph identifier finds no row, because rows carry the Internet message identifier.\<close>

lemma deletion_by_graph_id_is_void:
  "\<forall>r \<in> set (md_raw (pw_mail w)). rw_message r \<noteq> mid \<Longrightarrow> fst (mark_deleted f job mid w) = w"
  by (auto simp: mark_deleted_def update_rows_no_match)

text \<open>An error code on a later page goes unnoticed: the cycle goes on with what it has.\<close>

lemma page_error_is_ignored:
  assumes "link \<noteq> []" "outlook_allow env (DeltaCall k) w = (w1, Inr st)" "rl_allowed st"
    and "oe_query env k link = Inr p" "\<not> dq_limited p" "dq_error p \<noteq> []" "dq_next p = []" "dq_delta p = []" "dq_messages p = []"
  shows "fetch_delta_pages env job k link delta msgs w = Some (w1, Inr (delta, msgs))"
  using assms by (subst fetch_delta_pages.simps) (simp add: fetch_delta_pages.simps)

text \<open>A large Retry-After overflows to a negative duration.\<close>

lemma retry_after_overflows: "parse_retry_after pd now ''9999999999'' < 0"
  by (simp add: parse_retry_after_def atoi_def trim_space_def is_space_def digit_value_def wrap_64_def Let_def)

lemma parse_references_plain:
  "set (parse_references s) \<subseteq> set (map trim_angles (str_fields s)) \<and> [] \<notin> set (parse_references s)"
  by (auto simp: parse_references_def)

lemma ex_outlook_assembles:
  "\<exists>db ev. assemble_event (ex_assembly_env 9) (convert_to_parsed_email ex_outlook_message 2 1) 7 [] empty_mail_db = (db, Inr ev)"
proof -
  let ?r = "\<lambda>f. assemble_event (ex_assembly_env_with f 9) (convert_to_parsed_email ex_outlook_message 2 1) 7 [] empty_mail_db"
  have "(case snd (?r f) of Inl _ \<Rightarrow> False | Inr e \<Rightarrow> True)" for f by code_simp
  from answered [OF this, of text_code] show ?thesis by (elim exE conjE) (intro exI)
qed

lemma ex_outlook_fetch:
  "fetch_delta (ex_outlook_env p) ex_job ''d0'' ex_outlook_world =
     (let w = ex_outlook_world\<lparr>pw_quota := [outlook_key ''default'' \<mapsto> (9999, Some 600000000005)]\<rparr>
      in if dq_limited p then Some (w, Inl (rate_limited ''outlook API rate limited: retry after '' 1 (retry_delay (dq_retry_after p))))
         else if dq_error p \<noteq> []
         then Some (w, Inl (PollRefused \<lparr>ig_code = dq_error p, ig_message = ''outlook API error: '' @ dq_error p, ig_user = 1, ig_retry = True\<rparr> 0))
         else fetch_delta_pages (ex_outlook_env p) ex_job 1 (dq_next p) (dq_delta p) (dq_messages p) w)"
  by (simp add: fetch_delta_def outlook_allow_def allow_outlook_request_def allow_script_def live_quota_def status_of_def Let_def
      quota_at_def outlook_requests_def ex_outlook_world_def ex_poll_world_def ex_outlook_env_def ex_job_def)

lemma ex_outlook_cursor:
  "oe_token (ex_outlook_env p) = Inr ''tok''"
  "get_delta_link (oe_cursor_fails (ex_outlook_env p)) (fj_account ex_job) (pw_accounts ex_outlook_world) = Inr ''d0''"
  by (simp_all add: get_delta_link_def get_cursor_def ex_job_def ex_outlook_world_def ex_account_row_def ex_outlook_env_def)

lemma outlook_success_stores_every_message_witness:
  "\<exists>w'. outlook_process (ex_outlook_env (ex_delta [ex_outlook_message] ''d1'')) ex_job ex_outlook_world = Some (w', Inr ()) \<and>
     stored_outlook_mail ex_job w' ex_outlook_message"
proof -
  let ?env = "ex_outlook_env (ex_delta [ex_outlook_message] ''d1'')"
  obtain db ev where a: "assemble_event (ex_assembly_env 9) (convert_to_parsed_email ex_outlook_message 2 1) 7 [] empty_mail_db = (db, Inr ev)"
    using ex_outlook_assembles by blast
  have plain: "\<not> om_draft ex_outlook_message" "\<not> om_has_attachments ex_outlook_message" by (simp_all add: ex_outlook_message_def)
  let ?w = "ex_outlook_world\<lparr>pw_quota := [outlook_key ''default'' \<mapsto> (9999, Some 600000000005)]\<rparr>"
  have fetch: "fetch_delta ?env ex_job ''d0'' ex_outlook_world = Some (?w, Inr (''d1'', [ex_outlook_message]))"
    by (simp add: ex_outlook_fetch Let_def ex_delta_def fetch_delta_pages.simps)
  have msg: "process_message ?env ex_job 0 ex_outlook_message v =
      (v\<lparr>pw_mail := db, pw_published := pw_published v @ [ev]\<rparr>, None)" if "pw_mail v = empty_mail_db" for v
    using a that plain
    by (simp add: process_message_def Let_def ex_outlook_env_def ex_job_def ingest_mail_def del: One_nat_def)
  have "om_change ex_outlook_message \<noteq> ''deleted''" by (simp add: ex_outlook_message_def)
  then have "\<exists>w'. process_delta_messages ?env ex_job ''d0'' ''d1'' [ex_outlook_message] ?w = (w', Inr ())"
    by (simp add: process_delta_messages_def verify_no_delta_gaps_def delta_gap_def Let_def max_consecutive_silent_polls_def msg
        ex_outlook_world_def ex_poll_world_def update_delta_link_direct_def, simp add: ex_outlook_env_def)
  then obtain w' where p: "outlook_process ?env ex_job ex_outlook_world = Some (w', Inr ())"
    by (auto simp: outlook_process_def ex_outlook_cursor fetch)
  from outlook_success_stores_every_message [OF p] obtain link delta msgs w1
    where h: "get_delta_link (oe_cursor_fails ?env) (fj_account ex_job) (pw_accounts ex_outlook_world) = Inr link"
      "fetch_delta ?env ex_job link ex_outlook_world = Some (w1, Inr (delta, msgs))"
      "\<forall>m \<in> set msgs. is_new_mail m \<longrightarrow> stored_outlook_mail ex_job w' m" by blast
  have "link = ''d0''" using h(1) ex_outlook_cursor(2) by simp
  then have "msgs = [ex_outlook_message]" using h(2) fetch by simp
  moreover have "is_new_mail ex_outlook_message" by (simp add: is_new_mail_def ex_outlook_message_def)
  ultimately show ?thesis using p h(3) by simp
qed

end
