(* ===== verification/Fetch_Outlook.thy ===== *)
theory Fetch_Outlook
  imports Poll_Outlook
begin

text \<open>
  The Outlook fetcher \<open>src/ingestion/internal/fetch/outlook.go\<close>: one delta query of the Graph API with the
  pages that follow its next links. The HTTP exchange is an argument: the reply to the request with
  number \<open>k\<close> for a URL. Following the links is a partial function, since no limit is consulted here.
\<close>

section \<open>Replies\<close>

text \<open>A message as the API delivers it: with the mark of a removal instead of a change type.\<close>

record graph_message = outlook_message +
  gr_removed :: bool

record graph_delta =
  gd_delta :: string
  gd_next :: string
  gd_value :: "graph_message list"
  gd_error :: "string option"

text \<open>No reply, or a status with its Retry-After header and, where it can be read, the document.\<close>

datatype graph_reply = NoReply string | GraphReply nat string "graph_delta option"

type_synonym graph_api = "nat \<Rightarrow> string \<Rightarrow> graph_reply"

definition to_outlook_message :: "graph_message \<Rightarrow> outlook_message" where
  "to_outlook_message g = (outlook_message.truncate g)\<lparr>om_change := (if gr_removed g then ''deleted'' else [])\<rparr>"

definition parse_retry_after_header :: "(string \<Rightarrow> instant option) \<Rightarrow> instant \<Rightarrow> string \<Rightarrow> duration" where
  "parse_retry_after_header parse_date now value =
     (if value = [] then 0
      else (case atoi value of
              Some s \<Rightarrow> wrap_64 (s * second_ns)
            | None \<Rightarrow> (case parse_date value of Some t \<Rightarrow> max 0 (go_sub t now) | None \<Rightarrow> 60 * second_ns)))"

definition empty_result :: delta_result where
  "empty_result = \<lparr>dq_messages = [], dq_delta = [], dq_next = [], dq_retry_after = 0, dq_limited = False, dq_error = []\<rparr>"

section \<open>Errors\<close>

definition classify_status_code :: "nat \<Rightarrow> string" where
  "classify_status_code c =
     (if c = 401 then ''oauth_expired'' else if c = 403 then ''forbidden'' else if c = 404 then ''not_found''
      else if c = 429 then ''rate_limited''
      else if 500 \<le> c then ''server_error_'' @ nat_decimal c else ''client_error_'' @ nat_decimal c)"

definition handle_error_response :: "nat \<Rightarrow> duration \<Rightarrow> delta_result" where
  "handle_error_response c retry =
     (let r = empty_result\<lparr>dq_retry_after := retry\<rparr>
      in if c = 401 then r\<lparr>dq_error := ''oauth_expired''\<rparr>
         else if c = 429 then r\<lparr>dq_limited := True, dq_retry_after := retry_delay retry\<rparr>
         else if c = 404 then empty_result
         else if 500 \<le> c then r\<lparr>dq_error := ''server_error_'' @ nat_decimal c\<rparr>
         else r\<lparr>dq_error := ''client_error_'' @ nat_decimal c\<rparr>)"

definition graph_error_to_result :: "string \<Rightarrow> delta_result" where
  "graph_error_to_result code =
     (if code \<in> set [''InvalidAuthenticationToken'', ''AuthenticationError'', ''OrganizationFromTenantGuidNotFound'', ''TokenExpired'']
      then empty_result\<lparr>dq_error := ''oauth_expired''\<rparr>
      else if code \<in> set [''ErrorThrottleLimitExceeded'', ''ActivityLimitReached'', ''ApplicationThrottled'', ''TooManyRequests'']
      then empty_result\<lparr>dq_limited := True, dq_retry_after := 60 * second_ns\<rparr>
      else if code \<in> set [''ErrorItemNotFound'', ''ErrorInvalidIdMalformed'', ''ResourceNotFound'']
      then empty_result\<lparr>dq_error := ''not_found''\<rparr>
      else if code \<in> set [''ErrorInternalServerError'', ''ErrorInternalServerTransientError'']
      then empty_result\<lparr>dq_error := ''server_error''\<rparr>
      else empty_result\<lparr>dq_error := code\<rparr>)"

section \<open>The query\<close>

record graph_client =
  gc_api :: graph_api
  gc_parse_date :: "string \<Rightarrow> instant option"
  gc_now :: instant

definition reply_delay :: "graph_client \<Rightarrow> string \<Rightarrow> duration" where
  "reply_delay cl h = parse_retry_after_header (gc_parse_date cl) (gc_now cl) h"

partial_function (option) follow_pagination ::
  "graph_client \<Rightarrow> nat \<Rightarrow> string \<Rightarrow> outlook_message list \<Rightarrow> string \<Rightarrow> (string + delta_result) option" where
  "follow_pagination cl k link msgs final =
     (if link = [] then Some (Inr (empty_result\<lparr>dq_messages := msgs, dq_delta := final\<rparr>))
      else (case gc_api cl k link of
              NoReply e \<Rightarrow> Some (Inl (''execute pagination request: '' @ e))
            | GraphReply c h doc \<Rightarrow>
                if c \<noteq> 200
                then Some (Inr (empty_result\<lparr>dq_messages := msgs, dq_delta := final, dq_error := classify_status_code c,
                       dq_limited := (c = 429), dq_retry_after := reply_delay cl h\<rparr>))
                else (case doc of
                        None \<Rightarrow> Some (Inl ''unmarshal pagination response'')
                      | Some d \<Rightarrow>
                          (case gd_error d of
                             Some code \<Rightarrow> Some (Inr (graph_error_to_result code))
                           | None \<Rightarrow>
                               follow_pagination cl (Suc k) (gd_next d) (msgs @ map to_outlook_message (gd_value d))
                                 (if gd_delta d = [] then final else gd_delta d)))))"

declare follow_pagination.simps [code]

definition graph_delta_url :: string where
  "graph_delta_url = ''https://graph.microsoft.com/v1.0/me/messages/delta?$select='' @
     ''id,conversationId,subject,from,sender,toRecipients,ccRecipients,bccRecipients,body,bodyPreview,internetMessageId,'' @
     ''internetMessageHeaders,hasAttachments,isDraft,isRead,importance,flag,categories,receivedDateTime,sentDateTime''"

definition delta_query_internal :: "graph_client \<Rightarrow> string \<Rightarrow> (string + delta_result) option" where
  "delta_query_internal cl link =
     (case gc_api cl 0 (if link = [] then graph_delta_url else link) of
        NoReply e \<Rightarrow> Some (Inl (''execute request: '' @ e))
      | GraphReply c h doc \<Rightarrow>
          if c \<noteq> 200 then Some (Inr (handle_error_response c (reply_delay cl h)))
          else (case doc of
                  None \<Rightarrow> Some (Inl ''unmarshal response'')
                | Some d \<Rightarrow>
                    (case gd_error d of
                       Some code \<Rightarrow> Some (Inr (graph_error_to_result code))
                     | None \<Rightarrow>
                         (let msgs = map to_outlook_message (gd_value d)
                          in if gd_next d \<noteq> [] \<and> gd_delta d = []
                             then follow_pagination cl 1 (gd_next d) msgs []
                             else Some (Inr (empty_result\<lparr>dq_messages := msgs, dq_delta := gd_delta d, dq_next := gd_next d\<rparr>))))))"

definition delta_query :: "graph_client \<Rightarrow> string \<Rightarrow> (string + delta_result) option" where
  "delta_query cl link = delta_query_internal cl link"

definition is_graph_url_local :: "(string \<Rightarrow> string option) \<Rightarrow> string \<Rightarrow> bool" where
  "is_graph_url_local host u =
     (case host u of
        None \<Rightarrow> False
      | Some h \<Rightarrow> h \<in> set [''graph.microsoft.com'', ''graph.microsoft.us'', ''dod-graph.microsoft.us'', ''microsoftgraph.chinacloudapi.cn''])"

section \<open>Facts\<close>

text \<open>The loop ends with a chain of links that ends; without one it does not.\<close>

lemma follow_pagination_chain:
  assumes "\<forall>i < n. \<exists>d. gc_api cl (k + i) (links i) = GraphReply 200 [] (Some d) \<and> gd_error d = None \<and> gd_next d = links (Suc i)"
    and "links n = []"
  shows "\<exists>r. follow_pagination cl k (links 0) msgs final = Some r"
  using assms
proof (induction n arbitrary: k links msgs final)
  case 0
  then show ?case by (subst follow_pagination.simps) simp
next
  case (Suc n)
  show ?case
  proof (cases "links 0 = []")
    case True
    then show ?thesis by (subst follow_pagination.simps) simp
  next
    case False
    obtain d where d: "gc_api cl k (links 0) = GraphReply 200 [] (Some d)" "gd_error d = None" "gd_next d = links 1"
      using Suc.prems(1) by (auto dest!: spec [of _ 0])
    have "\<forall>i < n. \<exists>d. gc_api cl (Suc k + i) (links (Suc i)) = GraphReply 200 [] (Some d) \<and> gd_error d = None \<and>
        gd_next d = links (Suc (Suc i))"
      using Suc.prems(1) by (metis Suc_less_eq add_Suc add_Suc_right)
    from Suc.IH [OF this, of "msgs @ map to_outlook_message (gd_value d)" "if gd_delta d = [] then final else gd_delta d"]
    show ?thesis using Suc.prems(2) False d by (subst follow_pagination.simps) simp
  qed
qed

lemma endless_next_links_never_return:
  assumes "\<forall>k l. \<exists>h d. gc_api cl k l = GraphReply 200 h (Some d) \<and> gd_error d = None \<and> gd_next d \<noteq> []" "link \<noteq> []"
  shows "follow_pagination cl k link msgs final = None"
proof -
  have "cl' = cl \<longrightarrow> link = []" if ret: "follow_pagination cl' k link msgs final = Some r" for cl' k link msgs final r
  proof (rule follow_pagination.raw_induct [where P = "\<lambda>cl' k link msgs final r. cl' = cl \<longrightarrow> link = []", OF _ ret], rule impI, rule ccontr)
    fix f cl' k link msgs final r
    assume IH: "\<And>cl' k link msgs final r. f cl' k link msgs final = Some r \<Longrightarrow> cl' = cl \<longrightarrow> link = []"
      and eqs: "cl' = cl" "link \<noteq> []"
      and run: "(if link = [] then Some (Inr (empty_result\<lparr>dq_messages := msgs, dq_delta := final\<rparr>))
        else (case gc_api cl' k link of
          NoReply e \<Rightarrow> Some (Inl (''execute pagination request: '' @ e))
        | GraphReply c h doc \<Rightarrow>
            if c \<noteq> 200
            then Some (Inr (empty_result\<lparr>dq_messages := msgs, dq_delta := final, dq_error := classify_status_code c,
              dq_limited := (c = 429), dq_retry_after := reply_delay cl' h\<rparr>))
            else (case doc of
                None \<Rightarrow> Some (Inl ''unmarshal pagination response'')
              | Some d \<Rightarrow> (case gd_error d of
                  Some code \<Rightarrow> Some (Inr (graph_error_to_result code))
                | None \<Rightarrow> f cl' (Suc k) (gd_next d) (msgs @ map to_outlook_message (gd_value d))
                    (if gd_delta d = [] then final else gd_delta d))))) = Some r"
    obtain h d where d: "gc_api cl k link = GraphReply 200 h (Some d)" "gd_error d = None" "gd_next d \<noteq> []" using assms(1) by blast
    have "\<exists>ms fin. f cl (Suc k) (gd_next d) ms fin = Some r"
      using run eqs(2) d(1,2) unfolding eqs(1) by auto
    with IH d(3) show False by blast
  qed
  with assms(2) have "follow_pagination cl k link msgs final \<noteq> Some r" for r by blast
  then show ?thesis by (cases "follow_pagination cl k link msgs final") auto
qed

text \<open>
  An account whose delta link has expired stops receiving mail without any error. The Graph API
  answers 404; the fetcher turns this into an empty result without a link, meant to force a full
  synchronisation, but the poller keeps the old link when it gets none and reports success. Cursor and
  mail stay as they are, so every later cycle does the same.
\<close>

lemma expired_delta_link_succeeds_for_ever:
  assumes "oe_token env = Inr tok" and "get_delta_link (oe_cursor_fails env) (fj_account job) (pw_accounts w) = Inr link" and "link \<noteq> []"
    and "outlook_allow env (DeltaCall 0) w = (w1, Inr st)" and "rl_allowed st"
    and "delta_query cl link = Some (oe_query env 0 link)" and "gc_api cl 0 link = GraphReply 404 h doc"
  shows "\<exists>w'. outlook_process env job w = Some (w', Inr ()) \<and> pw_accounts w' = pw_accounts w \<and> pw_mail w' = pw_mail w"
proof -
  obtain q where w1: "w1 = w\<lparr>pw_quota := q\<rparr>" using outlook_allow_frame [OF assms(4)] by blast
  have "oe_query env 0 link = Inr empty_result"
    using assms(3,6,7) by (simp add: delta_query_def delta_query_internal_def handle_error_response_def)
  then have "fetch_delta env job link w = Some (w1, Inr ([], []))"
    using assms(4,5) by (simp add: fetch_delta_def empty_result_def fetch_delta_pages.simps)
  then show ?thesis
    using assms(1-3) by (simp add: outlook_process_def process_delta_messages_def verify_no_delta_gaps_def delta_gap_def w1)
qed

lemma expired_delta_link_succeeds_for_ever_witness:
  "\<exists>w'. outlook_process (ex_outlook_env empty_result) ex_job ex_outlook_world = Some (w', Inr ()) \<and>
     get_delta_link False 2 (pw_accounts w') = Inr ''d0''"
proof -
  let ?cl = "\<lparr>gc_api = (\<lambda>_ _. GraphReply 404 [] None), gc_parse_date = (\<lambda>_. None), gc_now = 0\<rparr>"
  have "\<exists>st. outlook_allow (ex_outlook_env empty_result) (DeltaCall 0) ex_outlook_world =
      (ex_outlook_world\<lparr>pw_quota := [outlook_key ''default'' \<mapsto> (9999, Some 600000000005)]\<rparr>, Inr st) \<and> rl_allowed st"
    by (simp add: outlook_allow_def allow_outlook_request_def allow_script_def live_quota_def status_of_def Let_def quota_at_def
        outlook_requests_def ex_outlook_world_def ex_poll_world_def ex_outlook_env_def)
  then obtain st where st: "outlook_allow (ex_outlook_env empty_result) (DeltaCall 0) ex_outlook_world =
      (ex_outlook_world\<lparr>pw_quota := [outlook_key ''default'' \<mapsto> (9999, Some 600000000005)]\<rparr>, Inr st)" "rl_allowed st" by blast
  have "delta_query ?cl ''d0'' = Some (oe_query (ex_outlook_env empty_result) 0 ''d0'')"
    by (simp add: delta_query_def delta_query_internal_def handle_error_response_def ex_outlook_env_def)
  from expired_delta_link_succeeds_for_ever [OF ex_outlook_cursor(1) ex_outlook_cursor(2) _ st this, of "[]" None]
  obtain w' where "outlook_process (ex_outlook_env empty_result) ex_job ex_outlook_world = Some (w', Inr ())"
    "pw_accounts w' = pw_accounts ex_outlook_world" by auto
  then show ?thesis
    by (auto simp: get_delta_link_def get_cursor_def ex_outlook_world_def ex_account_row_def)
qed

end
