(* ===== verification/Poll_Worker.thy ===== *)
theory Poll_Worker
  imports Fetch_Gmail Fetch_Outlook
begin

text \<open>
  The polling workers: the bounded job queue of \<open>src/ingestion/internal/poll/worker.go\<close>, the scheduler of
  \<open>scheduler.go\<close> and the processor of \<open>src/ingestion/cmd/worker/main.go\<close> that picks the poller of the
  provider. Workers share one world; here a job runs as one step.
\<close>

section \<open>The contract of a poller\<close>

text \<open>
  What workers rely on: a job moves cursors only, keeps the mail that is stored, and does nothing for
  accounts without a cursor.
\<close>

locale job_processor =
  fixes run :: "'e \<Rightarrow> fetch_job \<Rightarrow> poll_world \<Rightarrow> (poll_world \<times> 'r) option"
  assumes run_same_accounts: "run e j w = Some (w', r) \<Longrightarrow> same_accounts w w'"
    and run_keeps_mail: "run e j w = Some (w', r) \<Longrightarrow> keeps_mail w w'"
    and run_cursorless: "run e j w = Some (w', r) \<Longrightarrow> cursorless (pw_accounts w) \<Longrightarrow>
      pw_accounts w' = pw_accounts w \<and> pw_mail w' = pw_mail w"

section \<open>Both pollers keep it\<close>

lemma handle_deletions_keep_mail: "keeps_mail w (handle_deletions env job ds w)"
  by (induction env job ds w rule: handle_deletions.induct)
    (auto simp: mark_deleted_def keeps_mail_def stored_already_update)

lemma handle_label_changes_keep_mail: "keeps_mail w (handle_label_changes env job cs w)"
  by (induction env job cs w rule: handle_label_changes.induct)
    (auto simp: record_labels_def keeps_mail_def stored_already_update)

lemma same_accounts_save [simp]: "same_accounts w (save_progress env job h w)" "keeps_mail w (save_progress env job h w)"
  "same_accounts w (save_delta env' job h w)" "keeps_mail w (save_delta env' job h w)"
  by (simp_all add: save_progress_def save_delta_def same_accounts_def update_cursor_fixed keeps_mail_def)

lemma same_accounts_trans: "same_accounts w w' \<Longrightarrow> same_accounts w' w'' \<Longrightarrow> same_accounts w w''"
  by (simp add: same_accounts_def)

lemma process_messages_frame:
  "process_messages env job newest n as w = (w', e) \<Longrightarrow> same_accounts w w' \<and> keeps_mail w w'"
proof (induction env job newest n as w arbitrary: w' e rule: process_messages.induct)
  case (2 env job newest n a as w)
  obtain w1 f where s: "process_added_message env job n (am_message a) w = (w1, f)" by fastforce
  have step: "same_accounts w w1 \<and> keeps_mail w w1"
    using process_added_message_step [OF s] by (auto simp: same_accounts_def keeps_mail_append)
  show ?case
  proof (cases f)
    case StepDone
    then have "process_messages env job newest (Suc n) as w1 = (w', e)" using "2.prems" s by simp
    from "2.IH" [OF s [symmetric] StepDone this] step show ?thesis
      using same_accounts_trans keeps_mail_trans by blast
  next
    case (StepFailed x)
    then have "w' = save_progress env job newest w1" using "2.prems" s by simp
    then show ?thesis
      using step same_accounts_trans [OF _ same_accounts_save(1)] keeps_mail_trans [OF _ same_accounts_save(2)] by simp
  next
    case StepPanic
    then show ?thesis using "2.prems" s step by simp
  qed
qed (simp add: same_accounts_def)

lemma gmail_process_frame:
  assumes "gmail_process env job w = Some (w', r)"
  shows "same_accounts w w' \<and> keeps_mail w w'"
  using assms
proof (cases rule: gmail_process_cases)
  case before
  then show ?thesis by (simp add: same_accounts_def)
next
  case history
  then show ?thesis using fetch_history_frame [OF history(3)] by (simp add: keeps_mail_def)
next
  case (records hid newest recs w1)
  have f: "same_accounts w w1" "keeps_mail w w1" using fetch_history_frame [OF records(3)] by (simp_all add: keeps_mail_def)
  let ?wd = "handle_deletions env job (concat (map hr_deleted recs)) (w1\<lparr>pw_gaps := 0\<rparr>)"
  let ?w0 = "handle_label_changes env job (label_changes recs) ?wd"
  have "same_accounts w ?w0"
    using f handle_deletions_keeps [of env job "concat (map hr_deleted recs)" "w1\<lparr>pw_gaps := 0\<rparr>"]
      handle_label_changes_keeps [of env job "label_changes recs" ?wd] by (auto simp: same_accounts_def)
  moreover have "keeps_mail (w1\<lparr>pw_gaps := 0\<rparr>) ?w0"
    using keeps_mail_trans [OF handle_deletions_keep_mail handle_label_changes_keep_mail] .
  then have "keeps_mail w ?w0" using f(2) by (simp add: keeps_mail_def)
  moreover obtain w2 e where run: "process_messages env job newest 0 (added_messages recs) ?w0 = (w2, e)" by fastforce
  ultimately have m: "same_accounts w w2 \<and> keeps_mail w w2"
    using process_messages_frame [OF run] same_accounts_trans keeps_mail_trans by blast
  have fin: "same_accounts w2 (w2\<lparr>pw_accounts := fst (update_history_id_direct a b c d (pw_accounts w2))\<rparr>) \<and>
      keeps_mail w2 (w2\<lparr>pw_accounts := x\<rparr>)" for a b c d x
    by (simp add: same_accounts_def update_cursor_fixed keeps_mail_def)
  have "w' = w1\<lparr>pw_gaps := Suc (pw_gaps w1)\<rparr> \<or> w' = w2 \<or>
      (\<exists>a b c d. w' = w2\<lparr>pw_accounts := fst (update_history_id_direct a b c d (pw_accounts w2))\<rparr>)"
    using records(4) run
    by (auto simp: process_history_def gap_error_def split: option.splits prod.splits step_result.splits if_splits) (metis fst_conv)+
  then show ?thesis
    using m f fin same_accounts_trans keeps_mail_trans by (auto simp: same_accounts_def keeps_mail_def update_cursor_fixed)
qed

lemma outlook_process_frame:
  assumes "outlook_process env job w = Some (w', r)"
  shows "same_accounts w w' \<and> keeps_mail w w'"
  using assms
proof (cases rule: outlook_process_cases)
  case before
  then show ?thesis by (simp add: same_accounts_def)
next
  case delta
  then show ?thesis using fetch_delta_frame [OF delta(3)] by (simp add: keeps_mail_def)
next
  case (messages link delta msgs w1)
  obtain w0 g where v: "verify_no_delta_gaps link delta (length msgs) w1 = (w0, g)" by fastforce
  let ?v = "w0\<lparr>pw_silent := (if g = None then 0 else Suc (pw_silent w0))\<rparr>"
  have f: "same_accounts w ?v" "keeps_mail w ?v"
    using fetch_delta_frame [OF messages(3)] verify_no_delta_gaps_frame [OF v] by (simp_all add: keeps_mail_def same_accounts_def)
  obtain w2 e where run: "process_delta env job delta 0 msgs ?v = (w2, e)" by fastforce
  obtain u where u: "pw_accounts u = pw_accounts ?v" "pw_mail u = pw_mail w2" "e \<noteq> None \<longrightarrow> w2 = save_delta env job delta u"
    "e = None \<longrightarrow> pw_accounts w2 = pw_accounts ?v" "keeps_mail ?v w2"
    using process_delta_step [OF run] by blast
  have "same_accounts ?v w2"
    using u by (cases e) (auto simp: same_accounts_def save_delta_def update_cursor_fixed)
  then have m: "same_accounts w w2 \<and> keeps_mail w w2"
    using f u(5) same_accounts_trans keeps_mail_trans by blast
  have "w' = ?v \<or> w' = w2 \<or> (\<exists>a b c d. w' = w2\<lparr>pw_accounts := fst (update_delta_link_direct a b c d (pw_accounts w2))\<rparr>)"
    using messages(4) v run
    by (auto simp: process_delta_messages_def Let_def split: option.splits prod.splits if_splits) (metis fst_conv)+
  then show ?thesis
    using m f by (auto simp: same_accounts_def keeps_mail_def update_cursor_fixed)
qed

lemma gmail_process_cursorless:
  assumes "gmail_process env job w = Some (w', r)" "cursorless (pw_accounts w)"
  shows "w' = w"
  using assms(1) by (cases rule: gmail_process_cases) (use cursorless_get(1) [OF assms(2)] in auto)

lemma outlook_process_cursorless:
  assumes "outlook_process env job w = Some (w', r)" "cursorless (pw_accounts w)"
  shows "w' = w"
  using assms(1) by (cases rule: outlook_process_cases) (use cursorless_get(2) [OF assms(2)] in auto)

interpretation gmail: job_processor gmail_process
  using gmail_process_frame gmail_process_cursorless by unfold_locales blast+

interpretation outlook: job_processor outlook_process
  using outlook_process_frame outlook_process_cursorless by unfold_locales blast+


section \<open>The processor of a job\<close>

record poll_env =
  pe_gmail :: gmail_env
  pe_outlook :: outlook_env

datatype poll_failure = GmailFailed cycle_error | OutlookFailed delta_error | UnknownProvider string

definition composite_process :: "poll_env \<Rightarrow> fetch_job \<Rightarrow> poll_world \<Rightarrow> (poll_world \<times> (poll_failure + unit)) option" where
  "composite_process env job w =
     (if fj_provider job = ''gmail'' then map_option (apsnd (map_sum GmailFailed id)) (gmail_process (pe_gmail env) job w)
      else if fj_provider job = ''outlook''
      then map_option (apsnd (map_sum OutlookFailed id)) (outlook_process (pe_outlook env) job w)
      else Some (w, Inl (UnknownProvider (fj_provider job))))"

lemma composite_process_cases:
  assumes "composite_process env job w = Some (w', r)"
  obtains (gmail) g where "gmail_process (pe_gmail env) job w = Some (w', g)"
  | (outlook) d where "outlook_process (pe_outlook env) job w = Some (w', d)"
  | (unknown) "w' = w"
  using assms by (auto simp: composite_process_def split: if_splits)

interpretation poller: job_processor composite_process
proof unfold_locales
  fix env job w w' r
  assume run: "composite_process env job w = Some (w', r)"
  then show "same_accounts w w'"
    by (cases rule: composite_process_cases)
      (auto dest: gmail.run_same_accounts outlook.run_same_accounts simp: same_accounts_def)
  from run show "keeps_mail w w'"
    by (cases rule: composite_process_cases) (auto dest: gmail.run_keeps_mail outlook.run_keeps_mail)
  assume "cursorless (pw_accounts w)"
  with run show "pw_accounts w' = pw_accounts w \<and> pw_mail w' = pw_mail w"
    by (cases rule: composite_process_cases) (auto dest: gmail_process_cursorless outlook_process_cursorless)
qed

section \<open>The worker pool\<close>

datatype worker = Idle | Busy fetch_job | Exited

text \<open>\<open>wp_closed\<close>: \<open>stopCh\<close> is closed, and the goroutine that drains the channel runs.\<close>

record worker_pool =
  wp_size :: nat
  wp_queue :: "fetch_job list"
  wp_running :: bool
  wp_closed :: bool
  wp_workers :: "worker list"

definition new_worker_pool :: "int \<Rightarrow> worker_pool" where
  "new_worker_pool n = \<lparr>wp_size = (if n \<le> 0 then 4 else nat n), wp_queue = [], wp_running = False,
     wp_closed = False, wp_workers = []\<rparr>"

definition queue_capacity :: "worker_pool \<Rightarrow> nat" where
  "queue_capacity p = wp_size p * 4"

definition start_pool :: "worker_pool \<Rightarrow> worker_pool" where
  "start_pool p =
     (if wp_running p then p
      else p\<lparr>wp_running := True, wp_workers := wp_workers p @ replicate (wp_size p) Idle\<rparr>)"

definition submit_job :: "fetch_job \<Rightarrow> worker_pool \<Rightarrow> worker_pool \<times> bool" where
  "submit_job job p =
     (if length (wp_queue p) < queue_capacity p then (p\<lparr>wp_queue := wp_queue p @ [job]\<rparr>, True) else (p, False))"

definition pending :: "worker_pool \<Rightarrow> nat" where "pending p = length (wp_queue p)"

text \<open>
  The turns of the \<open>select\<close> of worker \<open>i\<close>: it receives a job, or, when the context is cancelled or
  \<open>stopCh\<close> is closed, leaves. Go picks any turn that is possible, so that a stopped worker may still
  receive. \<open>None\<close> is a turn that is not possible.
\<close>

definition receive_job :: "nat \<Rightarrow> worker_pool \<Rightarrow> (worker_pool \<times> fetch_job) option" where
  "receive_job i p =
     (if i < length (wp_workers p) \<and> wp_workers p ! i = Idle
      then (case wp_queue p of
              [] \<Rightarrow> None
            | j # js \<Rightarrow> Some (p\<lparr>wp_queue := js, wp_workers := (wp_workers p)[i := Busy j]\<rparr>, j))
      else None)"

definition finish_job :: "nat \<Rightarrow> worker_pool \<Rightarrow> (worker_pool \<times> fetch_job) option" where
  "finish_job i p =
     (if i < length (wp_workers p)
      then (case wp_workers p ! i of
              Busy j \<Rightarrow> Some (p\<lparr>wp_workers := (wp_workers p)[i := Idle]\<rparr>, j)
            | _ \<Rightarrow> None)
      else None)"

definition leave_pool :: "bool \<Rightarrow> nat \<Rightarrow> worker_pool \<Rightarrow> worker_pool option" where
  "leave_pool cancelled i p =
     (if i < length (wp_workers p) \<and> wp_workers p ! i = Idle \<and> (cancelled \<or> wp_closed p)
      then Some (p\<lparr>wp_workers := (wp_workers p)[i := Exited]\<rparr>) else None)"

text \<open>The goroutine that \<open>Stop\<close> leaves behind discards whatever is in the channel.\<close>

definition drain_job :: "worker_pool \<Rightarrow> (worker_pool \<times> fetch_job) option" where
  "drain_job p =
     (if wp_closed p then (case wp_queue p of [] \<Rightarrow> None | j # js \<Rightarrow> Some (p\<lparr>wp_queue := js\<rparr>, j)) else None)"

text \<open>\<open>Stop\<close> up to its wait, and the answer of the wait; \<open>close\<close> of a closed channel panics.\<close>

datatype 'a stop_call = StopRefused string | StopPanics 'a | StopWaits 'a

definition stop_pool :: "worker_pool \<Rightarrow> worker_pool stop_call" where
  "stop_pool p =
     (if \<not> wp_running p then StopRefused ''worker pool not running''
      else if wp_closed p then StopPanics (p\<lparr>wp_running := False\<rparr>)
      else StopWaits (p\<lparr>wp_running := False, wp_closed := True\<rparr>))"

definition pool_stopped :: "worker_pool \<Rightarrow> string option" where
  "pool_stopped p =
     (if \<forall>x \<in> set (wp_workers p). x = Exited then None else Some ''worker pool stop timed out after 30s'')"

section \<open>The scheduler\<close>

record poll_scheduler =
  sc_interval :: duration
  sc_running :: bool
  sc_closed :: bool

definition new_scheduler :: "duration \<Rightarrow> poll_scheduler" where
  "new_scheduler interval =
     \<lparr>sc_interval = (if interval \<le> 0 then 5 * minute_ns else interval), sc_running = False, sc_closed = False\<rparr>"

definition start_scheduler :: "poll_scheduler \<Rightarrow> string + poll_scheduler" where
  "start_scheduler s = (if sc_running s then Inl ''scheduler already running'' else Inr (s\<lparr>sc_running := True\<rparr>))"

definition stop_scheduler :: "poll_scheduler \<Rightarrow> poll_scheduler stop_call" where
  "stop_scheduler s =
     (if \<not> sc_running s then StopRefused ''scheduler not running''
      else if sc_closed s then StopPanics (s\<lparr>sc_running := False\<rparr>)
      else StopWaits (s\<lparr>sc_running := False, sc_closed := True\<rparr>))"

text \<open>\<open>queryDueAccounts\<close>: intervals are milliseconds; accounts never polled come first.\<close>

definition ms_ns :: duration where "ms_ns = 1000000"

definition account_due :: "duration \<Rightarrow> instant \<Rightarrow> email_account \<Rightarrow> bool" where
  "account_due interval now a \<longleftrightarrow> ea_active a \<and>
     (case ea_last_polled a of
        None \<Rightarrow> True
      | Some t \<Rightarrow> t + (case ea_poll_interval a of Some ms \<Rightarrow> ms | None \<Rightarrow> interval div ms_ns) * ms_ns \<le> now)"

definition last_polled :: "email_account \<Rightarrow> instant" where
  "last_polled a = (case ea_last_polled a of Some t \<Rightarrow> t | None \<Rightarrow> 0)"

definition query_due_accounts :: "duration \<Rightarrow> instant \<Rightarrow> email_account list \<Rightarrow> email_account list" where
  "query_due_accounts interval now accs =
     take 1000 (filter (\<lambda>a. ea_last_polled a = None) (filter (account_due interval now) accs) @
       sort_key last_polled (filter (\<lambda>a. ea_last_polled a \<noteq> None) (filter (account_due interval now) accs)))"

definition update_last_polled :: "bool \<Rightarrow> instant \<Rightarrow> uuid \<Rightarrow> email_account list \<Rightarrow> email_account list" where
  "update_last_polled fails now a accs =
     (if fails then accs else update_rows (\<lambda>x. ea_id x = a) (\<lambda>x. x\<lparr>ea_last_polled := Some now\<rparr>) accs)"

record tick_env =
  tk_query_fails :: bool
  tk_now :: instant
  tk_update_fails :: "uuid \<Rightarrow> bool"
  tk_update_now :: "uuid \<Rightarrow> instant"

definition job_of :: "email_account \<Rightarrow> fetch_job" where
  "job_of a = \<lparr>fj_account = ea_id a, fj_user = ea_user a, fj_provider = ea_provider a\<rparr>"

fun submit_due :: "tick_env \<Rightarrow> email_account list \<Rightarrow> worker_pool \<times> email_account list \<Rightarrow> worker_pool \<times> email_account list" where
  "submit_due env [] s = s"
| "submit_due env (a # as) (p, accs) =
     (case submit_job (job_of a) p of
        (p', True) \<Rightarrow> submit_due env as (p', update_last_polled (tk_update_fails env (ea_id a)) (tk_update_now env (ea_id a)) (ea_id a) accs)
      | (p', False) \<Rightarrow> submit_due env as (p', accs))"

definition scheduler_tick :: "tick_env \<Rightarrow> poll_scheduler \<Rightarrow> worker_pool \<Rightarrow> email_account list \<Rightarrow> worker_pool \<times> email_account list" where
  "scheduler_tick env s p accs =
     (if tk_query_fails env then (p, accs)
      else submit_due env (query_due_accounts (sc_interval s) (tk_now env) accs) (p, accs))"


section \<open>What a tick does\<close>

definition waits_longer :: "email_account \<Rightarrow> email_account \<Rightarrow> bool" where
  "waits_longer a b \<longleftrightarrow> ea_last_polled a = None \<or> (ea_last_polled b \<noteq> None \<and> last_polled a \<le> last_polled b)"

lemma sort_key_waits:
  "sorted_wrt waits_longer (sort_key last_polled (filter (\<lambda>a. ea_last_polled a \<noteq> None) xs))" (is "sorted_wrt _ ?ys")
proof (rule sorted_wrt_mono_rel)
  show "sorted_wrt (\<lambda>a b. last_polled a \<le> last_polled b) ?ys"
    using sorted_sort_key [of last_polled "filter (\<lambda>a. ea_last_polled a \<noteq> None) xs"] by (simp only: sorted_map)
qed (simp add: waits_longer_def)

lemma due_accounts_sorted: "sorted_wrt waits_longer (query_due_accounts interval now accs)"
proof -
  have "sorted_wrt waits_longer (filter (\<lambda>a. ea_last_polled a = None) xs)" for xs
    by (induction xs) (auto simp: waits_longer_def)
  then have "sorted_wrt waits_longer (filter (\<lambda>a. ea_last_polled a = None) xs @
      sort_key last_polled (filter (\<lambda>a. ea_last_polled a \<noteq> None) xs))" for xs
    by (simp only: sorted_wrt_append sort_key_waits) (simp add: waits_longer_def)
  then show ?thesis unfolding query_due_accounts_def by (rule sorted_wrt_take)
qed

lemma due_accounts_exact:
  "length (filter (account_due interval now) accs) \<le> 1000 \<Longrightarrow>
     set (query_due_accounts interval now accs) = {a \<in> set accs. account_due interval now a}"
  "set (query_due_accounts interval now accs) \<subseteq> {a \<in> set accs. account_due interval now a}"
proof -
  let ?due = "filter (account_due interval now) accs"
  let ?all = "filter (\<lambda>a. ea_last_polled a = None) ?due @ sort_key last_polled (filter (\<lambda>a. ea_last_polled a \<noteq> None) ?due)"
  have all: "set ?all = {a \<in> set accs. account_due interval now a}" by auto
  have len: "length ?all = length ?due" using sum_length_filter_compl [of "\<lambda>a. ea_last_polled a = None" ?due] by simp
  show "length ?due \<le> 1000 \<Longrightarrow> set (query_due_accounts interval now accs) = {a \<in> set accs. account_due interval now a}"
    using all len by (simp add: query_due_accounts_def)
  show "set (query_due_accounts interval now accs) \<subseteq> {a \<in> set accs. account_due interval now a}"
    using all set_take_subset [of 1000 ?all] by (simp add: query_due_accounts_def)
qed

definition marked_polled :: "tick_env \<Rightarrow> uuid set \<Rightarrow> email_account \<Rightarrow> email_account" where
  "marked_polled env ids x =
     (if ea_id x \<in> ids \<and> \<not> tk_update_fails env (ea_id x) then x\<lparr>ea_last_polled := Some (tk_update_now env (ea_id x))\<rparr> else x)"

lemma marked_polled_simps [simp]: "ea_id (marked_polled env ids x) = ea_id x" "marked_polled env {} x = x"
  by (simp_all add: marked_polled_def)

lemma update_last_polled_marks:
  "update_last_polled (tk_update_fails env i) (tk_update_now env i) i (map (marked_polled env ids) accs) =
     map (marked_polled env (insert i ids)) accs"
  by (auto simp: update_last_polled_def update_rows_def marked_polled_def)

lemma submit_due_takes:
  assumes "submit_due env as (p, map (marked_polled env ids) accs) = (p', accs')"
  shows "wp_queue p' = wp_queue p @ map job_of (take (queue_capacity p - length (wp_queue p)) as) \<and>
    p'\<lparr>wp_queue := []\<rparr> = p\<lparr>wp_queue := []\<rparr> \<and>
    accs' = map (marked_polled env (ids \<union> ea_id ` set (take (queue_capacity p - length (wp_queue p)) as))) accs"
  using assms
proof (induction as arbitrary: p ids)
  case (Cons a as)
  show ?case
  proof (cases "length (wp_queue p) < queue_capacity p")
    case True
    then obtain k where k: "queue_capacity p - length (wp_queue p) = Suc k"
      "queue_capacity p - Suc (length (wp_queue p)) = k" by (metis Suc_diff_Suc)
    have "submit_due env as (p\<lparr>wp_queue := wp_queue p @ [job_of a]\<rparr>, map (marked_polled env (insert (ea_id a) ids)) accs) = (p', accs')"
      using Cons.prems True by (simp add: submit_job_def update_last_polled_marks)
    from Cons.IH [OF this] k show ?thesis by (simp add: queue_capacity_def)
  next
    case False
    then have "submit_due env as (p, map (marked_polled env ids) accs) = (p', accs')"
      using Cons.prems by (simp add: submit_job_def)
    from Cons.IH [OF this] False show ?thesis by simp
  qed
qed simp

text \<open>
  A tick polls who has waited longest. Of the due accounts it submits as many as the queue still
  holds, in the order of their last poll and those never polled first; the accounts submitted, and no
  other, are marked as polled now; an account that found the queue full stays due; and no account left
  out has waited longer than one that was submitted.
\<close>

lemma tick_serves_longest_waiting:
  assumes "scheduler_tick env s p accs = (p', accs')" and "\<not> tk_query_fails env"
    and "length (filter (account_due (sc_interval s) (tk_now env)) accs) \<le> 1000"
  shows "\<exists>served. wp_queue p' = wp_queue p @ map job_of served \<and>
    length served = min (queue_capacity p - length (wp_queue p)) (length (filter (account_due (sc_interval s) (tk_now env)) accs)) \<and>
    accs' = map (marked_polled env (ea_id ` set served)) accs \<and>
    (\<forall>a \<in> set served. a \<in> set accs \<and> account_due (sc_interval s) (tk_now env) a) \<and>
    (\<forall>b \<in> set accs. account_due (sc_interval s) (tk_now env) b \<and> b \<notin> set served \<longrightarrow> (\<forall>a \<in> set served. waits_longer a b))"
proof -
  let ?due = "query_due_accounts (sc_interval s) (tk_now env) accs"
  let ?n = "queue_capacity p - length (wp_queue p)"
  have len: "length ?due = length (filter (account_due (sc_interval s) (tk_now env)) accs)"
    using assms(3) sum_length_filter_compl [of "\<lambda>a. ea_last_polled a = None" "filter (account_due (sc_interval s) (tk_now env)) accs"]
    by (simp add: query_due_accounts_def)
  have "submit_due env ?due (p, map (marked_polled env {}) accs) = (p', accs')"
    using assms(1,2) by (simp add: scheduler_tick_def map_idI)
  note t = submit_due_takes [OF this]
  have longer: "waits_longer a b" if "b \<in> set accs" "account_due (sc_interval s) (tk_now env) b" "b \<notin> set (take ?n ?due)" "a \<in> set (take ?n ?due)" for a b
  proof -
    have "b \<in> set (take ?n ?due @ drop ?n ?due)" using that(1,2) due_accounts_exact(1) [OF assms(3)] by simp
    then have "b \<in> set (drop ?n ?due)" using that(3) by (simp only: set_append) blast
    moreover have "sorted_wrt waits_longer (take ?n ?due @ drop ?n ?due)" using due_accounts_sorted by simp
    ultimately show ?thesis using that(4) by (simp only: sorted_wrt_append)
  qed
  have due: "\<forall>a \<in> set (take ?n ?due). a \<in> set accs \<and> account_due (sc_interval s) (tk_now env) a"
    using due_accounts_exact(2) [of "sc_interval s" "tk_now env" accs] by (auto dest!: in_set_takeD)
  show ?thesis
  proof (intro exI [of _ "take ?n ?due"] conjI)
    show "length (take ?n ?due) = min ?n (length (filter (account_due (sc_interval s) (tk_now env)) accs))"
      by (simp only: length_take len min.commute)
  qed (use t due longer in \<open>simp_all only: Un_empty_left\<close>, blast)
qed


section \<open>The pool and the scheduler together\<close>

text \<open>
  The system as \<open>main\<close> builds it. The last three fields are what an observer has seen: the jobs that
  were accepted, the jobs that a worker finished, and those that were thrown away.
\<close>

record poll_system =
  ps_world :: poll_world
  ps_pool :: worker_pool
  ps_scheduler :: poll_scheduler
  ps_cancelled :: bool
  ps_crashed :: bool
  ps_accepted :: "fetch_job list"
  ps_finished :: "fetch_job list"
  ps_discarded :: "fetch_job list"

definition started_system :: "int \<Rightarrow> duration \<Rightarrow> poll_world \<Rightarrow> poll_system" where
  "started_system n interval w =
     \<lparr>ps_world = w, ps_pool = start_pool (new_worker_pool n), ps_scheduler = (new_scheduler interval)\<lparr>sc_running := True\<rparr>,
      ps_cancelled = False, ps_crashed = False, ps_accepted = [], ps_finished = [], ps_discarded = []\<rparr>"

text \<open>
  The steps, for any processor \<open>run\<close>; a job whose processing panics takes the process down, and one that
  never returns has no step of its own. A tick is one step, and one that had begun when \<open>stopCh\<close> was closed
  still ends, so that closing it does not disable the step.
\<close>

inductive poll_step :: "('e \<Rightarrow> fetch_job \<Rightarrow> poll_world \<Rightarrow> (poll_world \<times> 'r) option) \<Rightarrow> ('r \<Rightarrow> bool) \<Rightarrow> poll_system \<Rightarrow> poll_system \<Rightarrow> bool"
  for run panics where
  tick: "\<lbrakk>\<not> ps_crashed s; scheduler_tick env (ps_scheduler s) (ps_pool s) (pw_accounts (ps_world s)) = (p, accs)\<rbrakk> \<Longrightarrow>
    poll_step run panics s (s\<lparr>ps_pool := p, ps_world := (ps_world s)\<lparr>pw_accounts := accs\<rparr>,
      ps_accepted := ps_accepted s @ drop (length (wp_queue (ps_pool s))) (wp_queue p)\<rparr>)"
| receive: "\<lbrakk>\<not> ps_crashed s; receive_job i (ps_pool s) = Some (p, j)\<rbrakk> \<Longrightarrow> poll_step run panics s (s\<lparr>ps_pool := p\<rparr>)"
| finish: "\<lbrakk>\<not> ps_crashed s; finish_job i (ps_pool s) = Some (p, j); run e j (ps_world s) = Some (w, r)\<rbrakk> \<Longrightarrow>
    poll_step run panics s (s\<lparr>ps_pool := p, ps_world := w, ps_finished := ps_finished s @ [j], ps_crashed := panics r\<rparr>)"
| leave: "\<lbrakk>\<not> ps_crashed s; leave_pool (ps_cancelled s) i (ps_pool s) = Some p\<rbrakk> \<Longrightarrow> poll_step run panics s (s\<lparr>ps_pool := p\<rparr>)"
| drain: "\<lbrakk>\<not> ps_crashed s; drain_job (ps_pool s) = Some (p, j)\<rbrakk> \<Longrightarrow>
    poll_step run panics s (s\<lparr>ps_pool := p, ps_discarded := ps_discarded s @ [j]\<rparr>)"
| cancel: "\<not> ps_crashed s \<Longrightarrow> poll_step run panics s (s\<lparr>ps_cancelled := True\<rparr>)"
| stop_schedule: "\<lbrakk>\<not> ps_crashed s; stop_scheduler (ps_scheduler s) = StopWaits sc\<rbrakk> \<Longrightarrow> poll_step run panics s (s\<lparr>ps_scheduler := sc\<rparr>)"
| stop_work: "\<lbrakk>\<not> ps_crashed s; stop_pool (ps_pool s) = StopWaits p\<rbrakk> \<Longrightarrow> poll_step run panics s (s\<lparr>ps_pool := p\<rparr>)"

abbreviation poll_reach :: "('e \<Rightarrow> fetch_job \<Rightarrow> poll_world \<Rightarrow> (poll_world \<times> 'r) option) \<Rightarrow> ('r \<Rightarrow> bool) \<Rightarrow> poll_system \<Rightarrow> poll_system \<Rightarrow> bool" where
  "poll_reach run panics \<equiv> (poll_step run panics)\<^sup>*\<^sup>*"

inductive_cases poll_stepE: "poll_step run panics s s'"

text \<open>The jobs in the hands of a worker.\<close>

fun in_hand :: "worker \<Rightarrow> fetch_job list" where
  "in_hand (Busy j) = [j]"
| "in_hand _ = []"

definition jobs_kept :: "poll_system \<Rightarrow> bool" where
  "jobs_kept s \<longleftrightarrow>
     length (wp_queue (ps_pool s)) \<le> queue_capacity (ps_pool s) \<and>
     mset (ps_accepted s) = mset (wp_queue (ps_pool s)) + mset (concat (map in_hand (wp_workers (ps_pool s)))) +
       mset (ps_finished s) + mset (ps_discarded s) \<and>
     (\<not> wp_closed (ps_pool s) \<longrightarrow> ps_discarded s = []) \<and>
     (\<not> wp_closed (ps_pool s) \<and> \<not> ps_cancelled s \<longrightarrow> Exited \<notin> set (wp_workers (ps_pool s)))"

lemma in_hand_update:
  assumes "i < length ws"
  shows "mset (concat (map in_hand (ws[i := x]))) + mset (in_hand (ws ! i)) = mset (concat (map in_hand ws)) + mset (in_hand x)"
  using assms by (induction ws arbitrary: i) (auto simp: nth_Cons split: nat.splits)

lemma tick_extends_queue:
  assumes "scheduler_tick env sc p accs = (p', accs')"
  obtains js ids where "wp_queue p' = wp_queue p @ js" "length js \<le> queue_capacity p - length (wp_queue p)"
    "p'\<lparr>wp_queue := []\<rparr> = p\<lparr>wp_queue := []\<rparr>" "accs' = map (marked_polled env ids) accs"
proof (cases "tk_query_fails env")
  case True
  then show ?thesis using assms that [of "[]" "{}"] by (auto simp: scheduler_tick_def map_idI)
next
  case False
  then have "submit_due env (query_due_accounts (sc_interval sc) (tk_now env) accs) (p, map (marked_polled env {}) accs) = (p', accs')"
    using assms by (simp add: scheduler_tick_def map_idI)
  from submit_due_takes [OF this] show ?thesis
    by (intro that) auto
qed

lemma pool_unchanged:
  "p'\<lparr>wp_queue := []\<rparr> = p\<lparr>wp_queue := []\<rparr> \<Longrightarrow>
     wp_size p' = wp_size p \<and> wp_workers p' = wp_workers p \<and> wp_closed p' = wp_closed p \<and> wp_running p' = wp_running p"
  by (cases p; cases p') simp


lemma jobs_kept_started: "jobs_kept (started_system n interval w)"
  by (auto simp: jobs_kept_def started_system_def start_pool_def new_worker_pool_def)

lemma jobs_kept_step:
  assumes "poll_step run panics s s'" "jobs_kept s"
  shows "jobs_kept s'"
  using assms
proof (cases rule: poll_step.cases)
  case (tick env p accs)
  obtain js where js: "wp_queue p = wp_queue (ps_pool s) @ js" "length js \<le> queue_capacity (ps_pool s) - length (wp_queue (ps_pool s))"
    "p\<lparr>wp_queue := []\<rparr> = (ps_pool s)\<lparr>wp_queue := []\<rparr>"
    using tick_extends_queue [OF tick(3)] by metis
  then show ?thesis
    using assms(2) pool_unchanged [OF js(3)] by (auto simp: jobs_kept_def tick(1) queue_capacity_def)
next
  case (receive i p j)
  then obtain js where "wp_queue (ps_pool s) = j # js" "i < length (wp_workers (ps_pool s))" "wp_workers (ps_pool s) ! i = Idle"
    "p = (ps_pool s)\<lparr>wp_queue := js, wp_workers := (wp_workers (ps_pool s))[i := Busy j]\<rparr>"
    by (auto simp: receive_job_def split: if_splits list.splits)
  then show ?thesis
    using assms(2) in_hand_update [of i "wp_workers (ps_pool s)" "Busy j"]
    by (auto simp: jobs_kept_def receive(1) queue_capacity_def dest!: set_update_subset_insert [THEN subsetD])
next
  case (finish i p j e w r)
  then have "i < length (wp_workers (ps_pool s))" "wp_workers (ps_pool s) ! i = Busy j"
    "p = (ps_pool s)\<lparr>wp_workers := (wp_workers (ps_pool s))[i := Idle]\<rparr>"
    by (auto simp: finish_job_def split: if_splits worker.splits)
  then show ?thesis
    using assms(2) in_hand_update [of i "wp_workers (ps_pool s)" Idle]
    by (auto simp: jobs_kept_def finish(1) queue_capacity_def dest!: set_update_subset_insert [THEN subsetD])
next
  case (leave i p)
  then have "i < length (wp_workers (ps_pool s))" "wp_workers (ps_pool s) ! i = Idle" "ps_cancelled s \<or> wp_closed (ps_pool s)"
    "p = (ps_pool s)\<lparr>wp_workers := (wp_workers (ps_pool s))[i := Exited]\<rparr>"
    by (auto simp: leave_pool_def split: if_splits)
  then show ?thesis
    using assms(2) in_hand_update [of i "wp_workers (ps_pool s)" Exited]
    by (auto simp: jobs_kept_def leave(1) queue_capacity_def)
next
  case (drain p j)
  then show ?thesis
    using assms(2) by (auto simp: jobs_kept_def drain_job_def queue_capacity_def split: if_splits list.splits)
next
  case (stop_work p)
  then show ?thesis
    using assms(2) by (auto simp: jobs_kept_def stop_pool_def queue_capacity_def split: if_splits)
qed (auto simp: jobs_kept_def)

text \<open>
  No accepted job is lost or run twice while the pool runs. Whatever the processor does and however
  ticks, workers and the shutdown interleave, a job the scheduler was told is accepted is, once for each
  time it was accepted, in the queue, in the hands of one worker, finished, or discarded, and jobs are
  discarded only after \<open>Stop\<close>; the queue never holds more than four jobs a worker, and no worker leaves
  before the shutdown begins.
\<close>

lemma accepted_jobs_accounted_for:
  assumes "poll_reach run panics (started_system n interval w) s"
  shows "length (wp_queue (ps_pool s)) \<le> queue_capacity (ps_pool s) \<and>
    mset (ps_accepted s) = mset (wp_queue (ps_pool s)) + mset (concat (map in_hand (wp_workers (ps_pool s)))) +
      mset (ps_finished s) + mset (ps_discarded s) \<and>
    (\<not> wp_closed (ps_pool s) \<longrightarrow> ps_discarded s = []) \<and>
    (\<not> wp_closed (ps_pool s) \<and> \<not> ps_cancelled s \<longrightarrow> Exited \<notin> set (wp_workers (ps_pool s)))"
proof -
  have "jobs_kept s"
    using assms by (induction rule: rtranclp_induct) (blast intro: jobs_kept_started jobs_kept_step)+
  then show ?thesis by (simp add: jobs_kept_def)
qed

section \<open>What jobs can do to the system\<close>

text \<open>What every step leaves of an account: all but its cursors and the time of its last poll.\<close>

definition account_kept :: "email_account \<Rightarrow> uuid \<times> uuid \<times> string \<times> bool \<times> instant \<times> int option" where
  "account_kept a = (ea_id a, ea_user a, ea_provider a, ea_active a, ea_created a, ea_poll_interval a)"

lemma marked_polled_kept:
  "account_kept (marked_polled env ids a) = account_kept a" "ea_history (marked_polled env ids a) = ea_history a"
  "ea_delta (marked_polled env ids a) = ea_delta a"
  by (simp_all add: marked_polled_def account_kept_def)

lemma same_accounts_kept: "same_accounts w w' \<Longrightarrow> map account_kept (pw_accounts w') = map account_kept (pw_accounts w)"
  unfolding same_accounts_def
  by (drule arg_cong [of _ _ "map (\<lambda>(i, u, p, b, c, d, l). (i, u, p, b, c, d))"])
    (simp add: account_fixed_def account_kept_def [abs_def] comp_def)

lemma cursorless_marked [simp]: "cursorless (map (marked_polled env ids) accs) = cursorless accs"
  by (simp add: cursorless_def marked_polled_kept)

context job_processor begin

lemma step_keeps:
  assumes "poll_step run panics s s'"
  shows "map account_kept (pw_accounts (ps_world s')) = map account_kept (pw_accounts (ps_world s)) \<and>
    keeps_mail (ps_world s) (ps_world s')"
  using assms
proof (cases rule: poll_step.cases)
  case (tick env p accs)
  then show ?thesis
    by (auto elim!: tick_extends_queue simp: marked_polled_kept keeps_mail_def)
next
  case (finish i p j e w r)
  then show ?thesis using run_keeps_mail same_accounts_kept [OF run_same_accounts] by auto
qed simp_all

lemma reach_keeps:
  assumes "poll_reach run panics s s'"
  shows "map account_kept (pw_accounts (ps_world s')) = map account_kept (pw_accounts (ps_world s)) \<and>
    keeps_mail (ps_world s) (ps_world s')"
  using assms
proof (induction rule: rtranclp_induct)
  case (step y z)
  then show ?case using step_keeps [OF step(2)] keeps_mail_trans [of "ps_world s" "ps_world y" "ps_world z"] by simp
qed simp

lemma cursorless_step:
  assumes "poll_step run panics s s'" "cursorless (pw_accounts (ps_world s))"
  shows "cursorless (pw_accounts (ps_world s')) \<and> pw_mail (ps_world s') = pw_mail (ps_world s)"
  using assms
proof (cases rule: poll_step.cases)
  case (tick env p accs)
  then show ?thesis
    using assms(2) by (auto elim!: tick_extends_queue)
next
  case (finish i p j e w r)
  then show ?thesis using run_cursorless [OF finish(4) assms(2)] assms(2) by simp
qed simp_all

lemma cursorless_reach:
  assumes "poll_reach run panics s s'" "cursorless (pw_accounts (ps_world s))"
  shows "cursorless (pw_accounts (ps_world s')) \<and> pw_mail (ps_world s') = pw_mail (ps_world s)"
  using assms by (induction rule: rtranclp_induct) (auto dest!: cursorless_step)

end


section \<open>The system of the worker service\<close>

definition poll_panics :: "poll_failure + unit \<Rightarrow> bool" where
  "poll_panics r \<longleftrightarrow> r = Inl (GmailFailed CyclePanic)"

lemma cursorless_gmail:
  assumes "cursorless (pw_accounts w)"
  shows "\<exists>f. gmail_process env job w = Some (w, Inl f)"
  using cursorless_get(1) [OF assms, of "ge_cursor_fails env" "fj_account job"]
  by (cases "ge_token env"; cases "get_history_id (ge_cursor_fails env) (fj_account job) (pw_accounts w)")
    (simp_all add: gmail_process_def)

lemma cursorless_outlook:
  assumes "cursorless (pw_accounts w)"
  shows "\<exists>f. outlook_process env job w = Some (w, Inl f)"
  using cursorless_get(2) [OF assms, of "oe_cursor_fails env" "fj_account job"]
  by (cases "oe_token env"; cases "get_delta_link (oe_cursor_fails env) (fj_account job) (pw_accounts w)")
    (simp_all add: outlook_process_def)

lemma cursorless_job_fails:
  assumes "cursorless (pw_accounts w)"
  shows "\<exists>e. composite_process env job w = Some (w, Inl e)"
  using cursorless_gmail [OF assms, of "pe_gmail env" job] cursorless_outlook [OF assms, of "pe_outlook env" job]
  by (auto simp: composite_process_def)

text \<open>
  Polling never undoes what is stored and never touches an account's identity: whatever the providers
  answer and however the service interleaves, the mail that was in \<open>raw_emails\<close> is still there, and every
  account is still there with its owner, its provider, its state and its interval.
\<close>

lemma polling_keeps_mail_and_accounts:
  assumes "poll_reach composite_process poll_panics s s'"
  shows "map account_kept (pw_accounts (ps_world s')) = map account_kept (pw_accounts (ps_world s)) \<and>
    (\<forall>u m. stored_already u m (md_raw (pw_mail (ps_world s))) \<longrightarrow> stored_already u m (md_raw (pw_mail (ps_world s'))))"
  using poller.reach_keeps [OF assms] by (simp add: keeps_mail_def)

text \<open>
  C11: Polling never starts by itself. The columns \<open>history_id\<close> and \<open>delta_link\<close> are written by the pollers
  only, and the pollers refuse an account whose column is empty; so from accounts as they are created, no run
  of the worker service ever stores a mail, and every job it runs fails with \<open>full sync required\<close> or
  earlier, for ever.
\<close>

theorem polling_never_starts:
  assumes "poll_reach composite_process poll_panics s s'" and "cursorless (pw_accounts (ps_world s))"
  shows "pw_mail (ps_world s') = pw_mail (ps_world s) \<and> cursorless (pw_accounts (ps_world s')) \<and>
    (\<forall>env job. \<exists>e. composite_process env job (ps_world s') = Some (ps_world s', Inl e))"
  using poller.cursorless_reach [OF assms] cursorless_job_fails [of "ps_world s'"] by simp

text \<open>
  C12: A job ends, whatever the provider answers. If the clocks of the two rate limiters stay within any
  bounds while it runs, the processor returns: every page of Gmail's history costs two units of a quota that
  is renewed at most once a second, and every page of Outlook's delta costs one of the requests of ten
  minutes, so that a server that hands out further pages for ever is cut off.
\<close>

theorem polling_job_returns:
  assumes "\<forall>k. start \<le> qe_now (ge_quota (pe_gmail env) (ListCall k)) \<and> qe_now (ge_quota (pe_gmail env) (ListCall k)) < until"
    and "\<forall>k. start \<le> qe_now (oe_quota (pe_outlook env) (DeltaCall k)) \<and> qe_now (oe_quota (pe_outlook env) (DeltaCall k)) < until"
  shows "\<exists>w' r. composite_process env job w = Some (w', r)"
  using gmail_cycle_returns [OF assms(1), of job w] outlook_cycle_returns [OF assms(2), of job w]
  by (auto simp: composite_process_def)

section \<open>Shutdown\<close>

text \<open>The drain goroutine empties the channel but nothing closes it, so it stays blocked in its range.\<close>

lemma submit_after_stop_is_lost:
  assumes "stop_pool p = StopWaits p'" "length (wp_queue p) < queue_capacity p"
  shows "snd (submit_job j p')" "wp_queue p = [] \<Longrightarrow> drain_job (fst (submit_job j p')) = Some (p', j)"
  using assms by (auto simp: stop_pool_def submit_job_def drain_job_def queue_capacity_def split: if_splits)

lemma restarted_pool_stop_panics:
  assumes "stop_pool p = StopWaits p'"
  shows "\<exists>q. stop_pool (start_pool p') = StopPanics q"
  using assms by (auto simp: stop_pool_def start_pool_def split: if_splits)

lemma restarted_scheduler_stop_panics:
  assumes "stop_scheduler s = StopWaits s'"
  shows "\<exists>s2 q. start_scheduler s' = Inr s2 \<and> stop_scheduler s2 = StopPanics q"
  using assms by (auto simp: stop_scheduler_def start_scheduler_def split: if_splits)

section \<open>Worked inputs\<close>

definition ex_tick_env :: tick_env where
  "ex_tick_env = \<lparr>tk_query_fails = False, tk_now = 1000, tk_update_fails = (\<lambda>_. False), tk_update_now = (\<lambda>_. 1001)\<rparr>"

definition ex_accounts :: "email_account list" where
  "ex_accounts = [ex_account_row\<lparr>ea_id := 5, ea_last_polled := Some 7\<rparr>, ex_account_row\<lparr>ea_id := 6, ea_last_polled := Some 3\<rparr>,
     ex_account_row, ex_account_row\<lparr>ea_id := 8, ea_active := False\<rparr>, ex_account_row\<lparr>ea_id := 9, ea_last_polled := Some 900\<rparr>]"

definition ex_scheduler :: poll_scheduler where
  "ex_scheduler = \<lparr>sc_interval = 0, sc_running = True, sc_closed = False\<rparr>"

definition ex_pool :: worker_pool where
  "ex_pool = (start_pool (new_worker_pool 1))\<lparr>wp_queue := [ex_job, ex_job]\<rparr>"


definition ex_poll_env :: poll_env where
  "ex_poll_env = \<lparr>pe_gmail = ex_gmail_env [] (\<lambda>_. Inl ''404''), pe_outlook = ex_outlook_env (ex_delta [] [])\<rparr>"

lemma ex_tick_jobs:
  "wp_queue (fst (scheduler_tick ex_tick_env ex_scheduler ex_pool ex_accounts)) = [ex_job, ex_job, ex_job, job_of (ex_accounts ! 1)]"
  by code_simp

lemma tick_serves_longest_waiting_witness:
  "\<exists>p' accs' served. scheduler_tick ex_tick_env ex_scheduler ex_pool ex_accounts = (p', accs') \<and>
     wp_queue p' = [ex_job, ex_job] @ map job_of served \<and> length served = 2 \<and>
     accs' = map (marked_polled ex_tick_env (ea_id ` set served)) ex_accounts"
proof -
  obtain p' accs' where t: "scheduler_tick ex_tick_env ex_scheduler ex_pool ex_accounts = (p', accs')" by fastforce
  have due: "length (filter (account_due (sc_interval ex_scheduler) (tk_now ex_tick_env)) ex_accounts) = 4" by code_simp
  have room: "queue_capacity ex_pool = 4" "wp_queue ex_pool = [ex_job, ex_job]"
    by (simp_all add: ex_pool_def queue_capacity_def start_pool_def new_worker_pool_def)
  have "\<not> tk_query_fails ex_tick_env" by (simp add: ex_tick_env_def)
  from tick_serves_longest_waiting [OF t this] t show ?thesis
    by (simp add: due room) blast
qed

lemma polling_job_returns_witness:
  "\<exists>w' r. composite_process ex_poll_env ex_job ex_poll_world = Some (w', r)"
  by (rule polling_job_returns [where start = 0 and until = 10])
    (simp_all add: ex_poll_env_def ex_gmail_env_def ex_outlook_env_def quota_at_def)

text \<open>A first tick of a service of one worker, whose job is then taken.\<close>

definition ex_new_world :: poll_world where
  "ex_new_world = ex_poll_world\<lparr>pw_accounts := [ex_account_row\<lparr>ea_history := None\<rparr>]\<rparr>"

lemma ex_polling:
  "\<exists>s. poll_reach composite_process poll_panics (started_system 1 0 ex_new_world) s \<and> wp_workers (ps_pool s) = [Busy ex_job] \<and>
     ps_accepted s = [ex_job]"
proof -
  let ?s = "started_system 1 0 ex_new_world"
  obtain p accs where t: "scheduler_tick ex_tick_env (ps_scheduler ?s) (ps_pool ?s) (pw_accounts (ps_world ?s)) = (p, accs)" by fastforce
  have p: "p = \<lparr>wp_size = 1, wp_queue = [ex_job], wp_running = True, wp_closed = False, wp_workers = [Idle]\<rparr>"
    using t by (simp add: started_system_def start_pool_def new_worker_pool_def scheduler_tick_def query_due_accounts_def
        ex_new_world_def ex_poll_world_def ex_account_row_def ex_tick_env_def account_due_def submit_job_def queue_capacity_def
        job_of_def ex_job_def)
  define s1 where "s1 = ?s\<lparr>ps_pool := p, ps_world := (ps_world ?s)\<lparr>pw_accounts := accs\<rparr>,
      ps_accepted := ps_accepted ?s @ drop (length (wp_queue (ps_pool ?s))) (wp_queue p)\<rparr>"
  have 1: "poll_step composite_process poll_panics ?s s1"
    unfolding s1_def by (rule poll_step.tick [OF _ t]) (simp add: started_system_def)
  have "receive_job 0 (ps_pool s1) = Some (p\<lparr>wp_queue := [], wp_workers := [Busy ex_job]\<rparr>, ex_job)"
    by (simp add: s1_def receive_job_def p)
  from poll_step.receive [OF _ this]
  have 2: "poll_step composite_process poll_panics s1 (s1\<lparr>ps_pool := p\<lparr>wp_queue := [], wp_workers := [Busy ex_job]\<rparr>\<rparr>)"
    by (simp add: s1_def started_system_def)
  have "ps_accepted s1 = [ex_job]" by (simp add: s1_def p started_system_def start_pool_def new_worker_pool_def)
  moreover have "poll_reach composite_process poll_panics ?s s1" using 1 by (rule r_into_rtranclp)
  then have "poll_reach composite_process poll_panics ?s (s1\<lparr>ps_pool := p\<lparr>wp_queue := [], wp_workers := [Busy ex_job]\<rparr>\<rparr>)"
    using 2 by (rule rtranclp.rtrancl_into_rtrancl)
  ultimately show ?thesis
    by (intro exI [of _ "s1\<lparr>ps_pool := p\<lparr>wp_queue := [], wp_workers := [Busy ex_job]\<rparr>\<rparr>"] conjI) simp_all
qed

lemma accepted_jobs_accounted_for_witness:
  "\<exists>s. poll_reach composite_process poll_panics (started_system 1 0 ex_new_world) s \<and>
     mset [ex_job] = mset (wp_queue (ps_pool s)) + mset (concat (map in_hand [Busy ex_job])) + mset (ps_finished s) + mset (ps_discarded s)"
proof -
  obtain s where s: "poll_reach composite_process poll_panics (started_system 1 0 ex_new_world) s"
    "wp_workers (ps_pool s) = [Busy ex_job]" "ps_accepted s = [ex_job]" using ex_polling by blast
  from accepted_jobs_accounted_for [OF s(1)] s show ?thesis by (intro exI [of _ s]) simp
qed

lemma polling_never_starts_witness:
  "\<exists>s. poll_reach composite_process poll_panics (started_system 1 0 ex_new_world) s \<and> ps_accepted s = [ex_job] \<and>
     pw_mail (ps_world s) = empty_mail_db \<and> (\<exists>e. composite_process ex_poll_env ex_job (ps_world s) = Some (ps_world s, Inl e))"
proof -
  obtain s where s: "poll_reach composite_process poll_panics (started_system 1 0 ex_new_world) s" "ps_accepted s = [ex_job]"
    using ex_polling by blast
  have "cursorless (pw_accounts (ps_world (started_system 1 0 ex_new_world)))"
    by (simp add: started_system_def ex_new_world_def cursorless_def ex_account_row_def)
  from polling_never_starts [OF s(1) this] s show ?thesis
    by (intro exI [of _ s]) (simp add: started_system_def ex_new_world_def ex_poll_world_def)
qed

end
