(* ===== verification/Backfill_Queue.thy ===== *)
theory Backfill_Queue
  imports Poll_Worker Go_Json
begin

text \<open>
  The backfill of the mail before an account was connected: its jobs, their queue, progress and rate limit
  in Redis (\<open>src/ingestion/internal/backfill/models.go\<close>, \<open>scheduler.go\<close>), what puts a job there
  (\<open>trigger.go\<close>, the callback of \<open>cmd/server/main.go\<close>) and the status endpoint (\<open>handler.go\<close>). A job in
  the queue stands for its JSON text; a text that is no job is \<open>None\<close>.
\<close>

section \<open>Jobs\<close>

datatype backfill_status = BfPending | BfRunning | BfComplete | BfFailed | BfCancelled

fun backfill_status_text :: "backfill_status \<Rightarrow> string" where
  "backfill_status_text BfPending = ''pending''"
| "backfill_status_text BfRunning = ''running''"
| "backfill_status_text BfComplete = ''complete''"
| "backfill_status_text BfFailed = ''failed''"
| "backfill_status_text BfCancelled = ''cancelled''"

record backfill_job =
  bj_user :: uuid
  bj_account :: uuid
  bj_provider :: string
  bj_history :: string
  bj_delta :: string
  bj_start :: instant
  bj_end :: instant
  bj_status :: backfill_status
  bj_progress :: int
  bj_found :: int
  bj_processed :: int
  bj_skipped :: int
  bj_failed :: int
  bj_retries :: nat
  bj_error :: string
  bj_created :: instant
  bj_updated :: instant
  bj_completed :: "instant option"

definition apostrophes :: "string \<Rightarrow> string" where
  "apostrophes s = CHR 0x27 # s @ [CHR 0x27]"

definition validate_job :: "backfill_job \<Rightarrow> string option" where
  "validate_job j =
     (if bj_user j = uuid_nil then Some ''user_id is required''
      else if bj_account j = uuid_nil then Some ''account_id is required''
      else if bj_provider j \<noteq> ''gmail'' \<and> bj_provider j \<noteq> ''outlook''
      then Some (''provider must be '' @ apostrophes ''gmail'' @ '' or '' @ apostrophes ''outlook'' @ '', got '' @ go_quote (bj_provider j))
      else if bj_start j = zero_time \<or> bj_end j = zero_time then Some ''start_date and end_date are required''
      else if bj_end j < bj_start j then Some ''end_date must be after start_date''
      else None)"

definition is_complete :: "backfill_job \<Rightarrow> bool" where
  "is_complete j \<longleftrightarrow> bj_status j = BfComplete \<or> bj_status j = BfFailed \<or> bj_status j = BfCancelled"

section \<open>Keys and bounds\<close>

definition progress_hash_key :: "string \<Rightarrow> string" where "progress_hash_key user = ''backfill:progress:'' @ user"
definition count_key :: "string \<Rightarrow> string" where "count_key user = ''backfill:count:'' @ user"

definition job_key :: "string \<Rightarrow> string \<Rightarrow> string" where
  "job_key user account = ''backfill:job:'' @ user @ '':'' @ account"

definition max_retries :: nat where "max_retries = 3"
definition rate_limit_max_emails :: int where "rate_limit_max_emails = 100"
definition rate_limit_window :: duration where "rate_limit_window = hour_ns"
definition progress_update_interval :: int where "progress_update_interval = 10"
definition backfill_date_range :: duration where "backfill_date_range = 90 * 24 * hour_ns"

section \<open>Redis\<close>

text \<open>
  The list (its left end first), the hashes and the counters. A call reads a clock and may fail, and then
  does nothing; \<open>uuid.String\<close> is \<open>rc_show\<close>.
\<close>

type_synonym redis_hashes = "(string \<times> (string \<rightharpoonup> string)) list"

record backfill_redis =
  br_queue :: "backfill_job option list"
  br_hashes :: redis_hashes
  br_counts :: quota_db

record redis_call =
  rc_now :: instant
  rc_fails :: bool
  rc_expire_fails :: bool
  rc_show :: "uuid \<Rightarrow> string"

definition hgetall :: "string \<Rightarrow> redis_hashes \<Rightarrow> string \<rightharpoonup> string" where
  "hgetall k h = (case map_of h k of None \<Rightarrow> Map.empty | Some m \<Rightarrow> m)"

definition hset :: "string \<Rightarrow> (string \<times> string) list \<Rightarrow> redis_hashes \<Rightarrow> redis_hashes" where
  "hset k kvs h = AList.update k (hgetall k h ++ map_of kvs) h"

lemma hgetall_hset: "hgetall k' (hset k kvs h) = (if k' = k then hgetall k h ++ map_of kvs else hgetall k' h)"
  by (simp add: hgetall_def hset_def AList.update_conv')

section \<open>The life of a job\<close>

definition enqueue_backfill ::
  "redis_call \<Rightarrow> backfill_job \<Rightarrow> backfill_redis \<Rightarrow> backfill_redis \<times> string option" where
  "enqueue_backfill c j r =
     (case validate_job j of
        Some e \<Rightarrow> (r, Some (''validate job: '' @ e))
      | None \<Rightarrow>
          (let j' = j\<lparr>bj_status := BfPending, bj_created := rc_now c, bj_updated := rc_now c\<rparr>
           in if rc_fails c then (r, Some ''enqueue job'')
              else (r\<lparr>br_queue := Some j' # br_queue r,
                      br_hashes := hset (job_key (rc_show c (bj_user j)) (rc_show c (bj_account j)))
                        [(''status'', backfill_status_text (bj_status j')), (''progress'', int_decimal (bj_progress j')),
                         (''emails_found'', int_decimal (bj_found j')), (''emails_processed'', int_decimal (bj_processed j')),
                         (''created_at'', rfc3339_utc (bj_created j')), (''updated_at'', rfc3339_utc (bj_updated j'))]
                        (br_hashes r)\<rparr>, None)))"

definition update_job_status :: "redis_call \<Rightarrow> backfill_job \<Rightarrow> backfill_redis \<Rightarrow> backfill_job \<times> backfill_redis \<times> string option" where
  "update_job_status c j r =
     (let j' = j\<lparr>bj_updated := rc_now c\<rparr>
      in if rc_fails c then (j', r, Some ''update job status'')
         else (j', r\<lparr>br_hashes := hset (job_key (rc_show c (bj_user j)) (rc_show c (bj_account j)))
                 ([(''status'', backfill_status_text (bj_status j)), (''updated_at'', rfc3339_utc (rc_now c))] @
                  (if bj_error j \<noteq> [] then [(''last_error'', bj_error j)] else [])) (br_hashes r)\<rparr>, None))"

text \<open>
  \<open>Dequeue\<close> on a queue that is not empty; on an empty one it blocks, which is \<open>None\<close>. The first call is
  BRPOP, the second the update of the status, whose failure is only logged.
\<close>

definition dequeue_backfill ::
  "redis_call \<Rightarrow> redis_call \<Rightarrow> backfill_redis \<Rightarrow> (backfill_redis \<times> (string + backfill_job)) option" where
  "dequeue_backfill c c' r =
     (if rc_fails c then Some (r, Inl ''brpop'')
      else if br_queue r = [] then None
      else (let r1 = r\<lparr>br_queue := butlast (br_queue r)\<rparr>
            in case last (br_queue r) of
                 None \<Rightarrow> Some (r1, Inl ''deserialize job'')
               | Some j \<Rightarrow>
                   (case update_job_status c' (j\<lparr>bj_status := BfRunning\<rparr>) r1 of (j', r2, _) \<Rightarrow> Some (r2, Inr j'))))"

definition update_progress :: "redis_call \<Rightarrow> backfill_job \<Rightarrow> backfill_redis \<Rightarrow> backfill_job \<times> backfill_redis \<times> string option" where
  "update_progress c j r =
     (let j' = j\<lparr>bj_updated := rc_now c\<rparr>; user = rc_show c (bj_user j)
      in if rc_fails c then (j', r, Some ''update progress'')
         else (j', r\<lparr>br_hashes :=
                 hset (job_key user (rc_show c (bj_account j)))
                   [(''status'', backfill_status_text (bj_status j)), (''progress'', int_decimal (bj_progress j)),
                    (''emails_processed'', int_decimal (bj_processed j)), (''updated_at'', rfc3339_utc (rc_now c))]
                   (hset (progress_hash_key user)
                     [(''status'', backfill_status_text (bj_status j)), (''progress'', int_decimal (bj_progress j)),
                      (''emails_found'', int_decimal (bj_found j)), (''emails_processed'', int_decimal (bj_processed j)),
                      (''emails_skipped'', int_decimal (bj_skipped j)), (''emails_failed'', int_decimal (bj_failed j)),
                      (''updated_at'', rfc3339_utc (rc_now c))] (br_hashes r))\<rparr>, None))"

definition mark_complete :: "redis_call \<Rightarrow> backfill_job \<Rightarrow> backfill_redis \<Rightarrow> backfill_job \<times> backfill_redis \<times> string option" where
  "mark_complete c j r =
     (let j' = j\<lparr>bj_status := BfComplete, bj_progress := 100, bj_updated := rc_now c, bj_completed := Some (rc_now c)\<rparr>;
          user = rc_show c (bj_user j);
          fields = [(''status'', backfill_status_text BfComplete), (''progress'', ''100''), (''completed_at'', rfc3339_utc (rc_now c))]
      in if rc_fails c then (j', r, Some ''mark complete'')
         else (j', r\<lparr>br_hashes := hset (job_key user (rc_show c (bj_account j))) fields (hset (progress_hash_key user) fields (br_hashes r)),
                     br_counts := (br_counts r)(count_key user := None)\<rparr>, None))"

definition mark_failed :: "redis_call \<Rightarrow> backfill_job \<Rightarrow> string \<Rightarrow> backfill_redis \<Rightarrow> backfill_job \<times> backfill_redis \<times> string option" where
  "mark_failed c j reason r =
     (let j' = j\<lparr>bj_status := BfFailed, bj_error := reason, bj_updated := rc_now c\<rparr>; user = rc_show c (bj_user j)
      in if rc_fails c then (j', r, Some ''mark failed'')
         else (j', r\<lparr>br_hashes :=
                 hset (job_key user (rc_show c (bj_account j)))
                   [(''status'', backfill_status_text BfFailed), (''last_error'', reason), (''updated_at'', rfc3339_utc (rc_now c))]
                   (hset (progress_hash_key user)
                     [(''status'', backfill_status_text BfFailed), (''last_error'', reason),
                      (''retry_count'', nat_decimal (bj_retries j)), (''updated_at'', rfc3339_utc (rc_now c))] (br_hashes r))\<rparr>, None))"

definition cleanup_backfill :: "redis_call \<Rightarrow> uuid \<Rightarrow> uuid \<Rightarrow> backfill_redis \<Rightarrow> backfill_redis \<times> string option" where
  "cleanup_backfill c user account r =
     (if rc_fails c then (r, Some ''cleanup'')
      else (r\<lparr>br_hashes := AList.delete (job_key (rc_show c user) (rc_show c account))
                (AList.delete (progress_hash_key (rc_show c user)) (br_hashes r)),
              br_counts := (br_counts r)(count_key (rc_show c user) := None)\<rparr>, None))"

definition requeue_for_retry :: "redis_call \<Rightarrow> backfill_job \<Rightarrow> backfill_redis \<Rightarrow> backfill_job \<times> backfill_redis \<times> string option" where
  "requeue_for_retry c j r =
     (let j' = j\<lparr>bj_retries := Suc (bj_retries j), bj_status := BfPending, bj_updated := rc_now c\<rparr>
      in if rc_fails c then (j', r, Some ''requeue for retry'') else (j', r\<lparr>br_queue := Some j' # br_queue r\<rparr>, None))"

section \<open>The rate limit\<close>

text \<open>INCR keeps the expiry of a counter; only the first increment sets one, and its failure is ignored.\<close>

definition can_process_email :: "redis_call \<Rightarrow> uuid \<Rightarrow> backfill_redis \<Rightarrow> backfill_redis \<times> (string + bool)" where
  "can_process_email c user r =
     (if rc_fails c then (r, Inl ''incr rate limit counter'')
      else (let k = count_key (rc_show c user); old = live_quota (rc_now c) k (br_counts r);
                val = (case old of None \<Rightarrow> 1 | Some (v, _) \<Rightarrow> v + 1);
                expiry = (if val = 1 \<and> \<not> rc_expire_fails c then Some (rc_now c + rate_limit_window)
                          else case old of None \<Rightarrow> None | Some (_, e) \<Rightarrow> e)
            in (r\<lparr>br_counts := (br_counts r)(k \<mapsto> (val, expiry))\<rparr>, Inr (val \<le> rate_limit_max_emails))))"

definition get_rate_limit_remaining :: "redis_call \<Rightarrow> uuid \<Rightarrow> backfill_redis \<Rightarrow> string + int" where
  "get_rate_limit_remaining c user r =
     (if rc_fails c then Inl ''get rate limit counter''
      else (case live_quota (rc_now c) (count_key (rc_show c user)) (br_counts r) of
              None \<Rightarrow> Inr rate_limit_max_emails
            | Some (v, _) \<Rightarrow> Inr (max 0 (rate_limit_max_emails - v))))"


section \<open>What is shown to the user\<close>

record progress_snapshot =
  sn_status :: string
  sn_progress :: int
  sn_found :: int
  sn_processed :: int
  sn_skipped :: int
  sn_failed :: int
  sn_retries :: int
  sn_error :: string
  sn_started :: instant
  sn_completed :: "instant option"

text \<open>A number that does not parse counts as 0, a time that does not parse as the zero time.\<close>

definition int_field :: "(string \<rightharpoonup> string) \<Rightarrow> string \<Rightarrow> int" where
  "int_field d k = (case d k of None \<Rightarrow> 0 | Some v \<Rightarrow> (case atoi v of Some n \<Rightarrow> n | None \<Rightarrow> 0))"

definition text_field :: "(string \<rightharpoonup> string) \<Rightarrow> string \<Rightarrow> string" where
  "text_field d k = (case d k of None \<Rightarrow> [] | Some v \<Rightarrow> v)"

definition time_or_zero :: "(string \<Rightarrow> instant option) \<Rightarrow> string \<Rightarrow> instant" where
  "time_or_zero parse s = (case parse s of Some t \<Rightarrow> t | None \<Rightarrow> zero_time)"

definition empty_snapshot :: progress_snapshot where
  "empty_snapshot =
     \<lparr>sn_status = [], sn_progress = 0, sn_found = 0, sn_processed = 0, sn_skipped = 0, sn_failed = 0, sn_retries = 0,
      sn_error = [], sn_started = zero_time, sn_completed = None\<rparr>"

definition get_progress ::
  "(string \<Rightarrow> instant option) \<Rightarrow> redis_call \<Rightarrow> redis_call \<Rightarrow> uuid \<Rightarrow> backfill_redis \<Rightarrow> string + progress_snapshot" where
  "get_progress parse c c' user r =
     (let d = hgetall (progress_hash_key (rc_show c user)) (br_hashes r)
      in if rc_fails c then Inl ''hgetall progress''
         else if map_of (br_hashes r) (progress_hash_key (rc_show c user)) = None
         then (if rc_fails c' \<or> \<not> list_ex (\<lambda>(k, _). has_prefix k (job_key (rc_show c user) [])) (br_hashes r)
               then Inl (''no backfill job found for user '' @ rc_show c user)
               else Inr (empty_snapshot\<lparr>sn_status := backfill_status_text BfPending\<rparr>))
         else Inr \<lparr>sn_status = text_field d ''status'', sn_progress = int_field d ''progress'', sn_found = int_field d ''emails_found'',
                    sn_processed = int_field d ''emails_processed'', sn_skipped = int_field d ''emails_skipped'',
                    sn_failed = int_field d ''emails_failed'', sn_retries = int_field d ''retry_count'',
                    sn_error = text_field d ''last_error'',
                    sn_started = (case d ''updated_at'' of None \<Rightarrow> zero_time | Some v \<Rightarrow> time_or_zero parse v),
                    sn_completed = (case d ''completed_at'' of None \<Rightarrow> None
                                    | Some v \<Rightarrow> if v = [] then None else Some (time_or_zero parse v))\<rparr>)"

text \<open>\<open>StatusHandler.ServeHTTP\<close>: the status code and the JSON body; \<open>uuid.Parse\<close> is an argument.\<close>

definition status_message :: "string \<Rightarrow> json" where
  "status_message e = JObj [(''error'', JStr e)]"

definition serve_status ::
  "(string \<Rightarrow> uuid option) \<Rightarrow> (string \<Rightarrow> instant option) \<Rightarrow> redis_call \<Rightarrow> redis_call \<Rightarrow> string \<Rightarrow> string \<Rightarrow> backfill_redis \<Rightarrow> nat \<times> json" where
  "serve_status parse_uuid parse c c' meth user_id r =
     (if meth \<noteq> ''GET'' then (405, status_message ''method not allowed'')
      else if user_id = [] then (400, status_message ''user_id query parameter is required'')
      else (case parse_uuid user_id of
              None \<Rightarrow> (400, status_message ''invalid user_id format'')
            | Some user \<Rightarrow>
                (case get_progress parse c c' user r of
                   Inl _ \<Rightarrow> (200, JObj [(''status'', JStr ''not_found''), (''progress'', JInt 0), (''emails_found'', JInt 0),
                              (''emails_processed'', JInt 0), (''message'', JStr ''No backfill job found for this user'')])
                 | Inr sn \<Rightarrow>
                     (200, JObj ([(''status'', JStr (sn_status sn)), (''progress'', JInt (sn_progress sn)),
                        (''emails_found'', JInt (sn_found sn)), (''emails_processed'', JInt (sn_processed sn)),
                        (''emails_skipped'', JInt (sn_skipped sn)), (''emails_failed'', JInt (sn_failed sn)),
                        (''retry_count'', JInt (sn_retries sn))] @
                        (if sn_error sn \<noteq> [] then [(''last_error'', JStr (sn_error sn))] else []) @
                        (if sn_started sn \<noteq> zero_time then [(''started_at'', JStr (rfc3339_utc (sn_started sn)))] else []) @
                        (case sn_completed sn of None \<Rightarrow> [] | Some t \<Rightarrow> [(''completed_at'', JStr (rfc3339_utc t))]))))))"

section \<open>What puts a job there\<close>

definition new_job :: backfill_job where
  "new_job =
     \<lparr>bj_user = uuid_nil, bj_account = uuid_nil, bj_provider = [], bj_history = [], bj_delta = [], bj_start = zero_time,
      bj_end = zero_time, bj_status = BfPending, bj_progress = 0, bj_found = 0, bj_processed = 0, bj_skipped = 0, bj_failed = 0,
      bj_retries = 0, bj_error = [], bj_created = zero_time, bj_updated = zero_time, bj_completed = None\<rparr>"

definition trigger_backfill ::
  "redis_call \<Rightarrow> instant \<Rightarrow> uuid \<Rightarrow> uuid \<Rightarrow> string \<Rightarrow> string \<Rightarrow> backfill_redis \<Rightarrow> backfill_redis \<times> string option" where
  "trigger_backfill c now user account provider history r =
     map_prod id (map_option (\<lambda>e. ''enqueue backfill job: '' @ e))
       (enqueue_backfill c (new_job\<lparr>bj_user := user, bj_account := account, bj_provider := provider, bj_history := history,
          bj_start := now - backfill_date_range, bj_end := now, bj_created := now, bj_updated := now\<rparr>) r)"

definition trigger_from_callback ::
  "redis_call \<Rightarrow> instant \<Rightarrow> uuid \<Rightarrow> uuid \<Rightarrow> string \<Rightarrow> string \<Rightarrow> backfill_redis \<Rightarrow> backfill_redis" where
  "trigger_from_callback c now user account provider history r = fst (trigger_backfill c now user account provider history r)"

text \<open>
  What the server calls when an account was connected: a job with the user alone. Its status is the empty
  text in the code, which \<open>Enqueue\<close> overwrites.
\<close>

definition oauth_success :: "redis_call \<Rightarrow> uuid \<Rightarrow> backfill_redis \<Rightarrow> backfill_redis \<times> string option" where
  "oauth_success c user r = enqueue_backfill c (new_job\<lparr>bj_user := user\<rparr>) r"

section \<open>Facts\<close>

lemma int_decimal_digits_head: "nat_decimal n \<noteq> [] \<and> hd (nat_decimal n) \<noteq> CHR ''-'' \<and> hd (nat_decimal n) \<noteq> CHR ''+''"
proof (induction n rule: nat_decimal.induct)
  case (1 n)
  have "char_of (48 + n) \<noteq> CHR ''-'' \<and> char_of (48 + n) \<noteq> CHR ''+''" if "n < 10" for n :: nat
    using that by (auto dest!: arg_cong [where f = "of_char :: char \<Rightarrow> nat"] simp: of_char_of)
  then show ?case using 1 by (cases "n < 10") (auto simp: nat_decimal.simps [of n])
qed

lemma atoi_int_decimal:
  assumes "- (2 ^ 63) \<le> i" "i < 2 ^ 63"
  shows "atoi (int_decimal i) = Some i"
proof -
  obtain ds where ds: "those (map digit_value (nat_decimal (nat \<bar>i\<bar>))) = Some ds" "foldl (\<lambda>n d. 10 * n + d) 0 ds = nat \<bar>i\<bar>"
    "nat_decimal (nat \<bar>i\<bar>) \<noteq> []"
    using nat_decimal_digits by blast
  obtain x xs where x: "nat_decimal (nat \<bar>i\<bar>) = x # xs" "x \<noteq> CHR ''-''" "x \<noteq> CHR ''+''"
    using int_decimal_digits_head [of "nat \<bar>i\<bar>"] by (cases "nat_decimal (nat \<bar>i\<bar>)") auto
  show ?thesis
  proof (cases "i < 0")
    case True
    then have "int_decimal i = CHR ''-'' # x # xs" using x by (simp add: int_decimal_def)
    then show ?thesis using ds x True assms by (simp add: atoi_def Let_def)
  next
    case False
    then have "int_decimal i = x # xs" using x by (simp add: int_decimal_def)
    then show ?thesis using ds x False assms by (simp add: atoi_def Let_def)
  qed
qed


text \<open>
  The status endpoint shows the counters that the worker wrote. After an update of the progress that
  did not fail, and until the next one, reading the progress of the user gives back the status, the
  percentage and the four counters of the job, whatever was stored before; numbers are within 64 bits.
\<close>

lemma progress_round_trip:
  assumes "update_progress c j r = (j', r', None)" and "\<not> rc_fails d" and "rc_show d = rc_show c"
    and "\<forall>n \<in> {bj_progress j, bj_found j, bj_processed j, bj_skipped j, bj_failed j}. - (2 ^ 63) \<le> n \<and> n < 2 ^ 63"
  shows "\<exists>sn. get_progress parse d d' (bj_user j) r' = Inr sn \<and> sn_status sn = backfill_status_text (bj_status j) \<and>
    sn_progress sn = bj_progress j \<and> sn_found sn = bj_found j \<and> sn_processed sn = bj_processed j \<and>
    sn_skipped sn = bj_skipped j \<and> sn_failed sn = bj_failed j \<and> sn_started sn = time_or_zero parse (rfc3339_utc (rc_now c))"
proof -
  let ?u = "rc_show c (bj_user j)"
  have keys: "progress_hash_key ?u \<noteq> job_key u a" for u a by (simp add: progress_hash_key_def job_key_def)
  have r': "br_hashes r' = hset (job_key ?u (rc_show c (bj_account j)))
      [(''status'', backfill_status_text (bj_status j)), (''progress'', int_decimal (bj_progress j)),
       (''emails_processed'', int_decimal (bj_processed j)), (''updated_at'', rfc3339_utc (rc_now c))]
      (hset (progress_hash_key ?u)
        [(''status'', backfill_status_text (bj_status j)), (''progress'', int_decimal (bj_progress j)),
         (''emails_found'', int_decimal (bj_found j)), (''emails_processed'', int_decimal (bj_processed j)),
         (''emails_skipped'', int_decimal (bj_skipped j)), (''emails_failed'', int_decimal (bj_failed j)),
         (''updated_at'', rfc3339_utc (rc_now c))] (br_hashes r))"
    using assms(1) by (auto simp: update_progress_def Let_def split: if_splits)
  obtain m where m: "map_of (br_hashes r') (progress_hash_key ?u) = Some m"
    using keys by (simp add: r' hset_def AList.update_conv')
  have fields: "hgetall (progress_hash_key ?u) (br_hashes r') = hgetall (progress_hash_key ?u) (br_hashes r) ++ map_of
        [(''status'', backfill_status_text (bj_status j)), (''progress'', int_decimal (bj_progress j)),
         (''emails_found'', int_decimal (bj_found j)), (''emails_processed'', int_decimal (bj_processed j)),
         (''emails_skipped'', int_decimal (bj_skipped j)), (''emails_failed'', int_decimal (bj_failed j)),
         (''updated_at'', rfc3339_utc (rc_now c))]"
    using keys by (simp add: r' hgetall_hset)
  show ?thesis
    using assms(2-4) m by (simp add: get_progress_def fields Let_def int_field_def text_field_def atoi_int_decimal)
qed

text \<open>
  Connecting an account never starts a backfill. The callback that the server hands to the OAuth handler
  builds a job with the user alone, and \<open>Enqueue\<close> refuses every job without an account: nothing reaches
  the queue.
\<close>

lemma oauth_success_enqueues_nothing:
  "\<exists>e. oauth_success c user r = (r, Some e)"
  by (simp add: oauth_success_def enqueue_backfill_def validate_job_def new_job_def)

text \<open>A job as \<open>Trigger\<close> builds it, which nothing calls, is accepted for the two providers.\<close>

lemma triggered_job_is_queued:
  assumes "user \<noteq> uuid_nil" "account \<noteq> uuid_nil" "provider \<in> {''gmail'', ''outlook''}" "\<not> rc_fails c"
    and "now \<noteq> zero_time" "now - backfill_date_range \<noteq> zero_time"
  shows "\<exists>j. fst (trigger_backfill c now user account provider history r) = r\<lparr>br_queue := Some j # br_queue r,
      br_hashes := br_hashes (fst (trigger_backfill c now user account provider history r))\<rparr> \<and>
    bj_user j = user \<and> bj_account j = account \<and> bj_retries j = 0"
  using assms
  by (auto simp: trigger_backfill_def enqueue_backfill_def validate_job_def new_job_def backfill_date_range_def Let_def)

text \<open>
  The queue is served from its right end. A job that is put back for a retry goes to the left end and so
  waits for every other job, although \<open>RequeueForRetry\<close> promises the front.
\<close>

lemma retry_goes_to_the_back:
  assumes "\<not> rc_fails c" "requeue_for_retry c j r = (j', r', e)" "br_queue r = q @ [Some k]" "\<not> rc_fails c1"
  shows "\<exists>r2 k'. dequeue_backfill c1 c2 r' = Some (r2, Inr k') \<and> bj_account k' = bj_account k \<and> hd (br_queue r2) = Some j'"
  using assms
  by (auto simp: requeue_for_retry_def dequeue_backfill_def update_job_status_def Let_def split: if_splits)

section \<open>The limit of an hour\<close>

text \<open>A sequence of checks for one user; the second part counts those that were granted.\<close>

fun check_run :: "uuid \<Rightarrow> redis_call list \<Rightarrow> backfill_redis \<Rightarrow> backfill_redis \<times> nat" where
  "check_run user [] r = (r, 0)"
| "check_run user (c # cs) r =
     (case can_process_email c user r of
        (r', x) \<Rightarrow> map_prod id (\<lambda>n. if x = Inr True then Suc n else n) (check_run user cs r'))"

lemma check_run_live:
  assumes "live_quota begun (count_key (sh user)) (br_counts r) = Some (v, Some e)" "0 < v"
    and "\<forall>c \<in> set cs. begun \<le> rc_now c \<and> rc_now c < e \<and> \<not> rc_fails c \<and> rc_show c = sh"
  shows "snd (check_run user cs r) = min (length cs) (nat (rate_limit_max_emails - v))"
  using assms
proof (induction cs arbitrary: r v)
  case (Cons c cs)
  let ?k = "count_key (sh user)" and ?r = "r\<lparr>br_counts := (br_counts r)(count_key (sh user) \<mapsto> (v + 1, Some e))\<rparr>"
  have cell: "br_counts r ?k = Some (v, Some e)" "begun < e"
    using Cons.prems(1) by (auto simp: live_quota_def split: option.splits prod.splits if_splits)
  then have "live_quota (rc_now c) ?k (br_counts r) = Some (v, Some e)"
    using Cons.prems(3) by (simp add: live_quota_def)
  then have run: "can_process_email c user r = (?r, Inr (v + 1 \<le> rate_limit_max_emails))"
    using Cons.prems(2,3) by (simp add: can_process_email_def Let_def)
  have "snd (check_run user cs ?r) = min (length cs) (nat (rate_limit_max_emails - (v + 1)))"
    by (rule Cons.IH) (use Cons.prems(2,3) cell in \<open>auto simp: live_quota_def\<close>)
  then show ?case using run by (simp add: split_beta) linarith
qed simp

text \<open>
  The hourly limit lets exactly the first hundred through. If a user's counter is absent or expired at
  the first of a sequence of checks, all within an hour of it, and Redis answers, then as many are granted
  as are asked, up to one hundred, and no more.
\<close>

lemma first_hundred_are_granted:
  assumes "live_quota (rc_now c) (count_key (rc_show c user)) (br_counts r) = None"
    and "\<not> rc_fails c" and "\<not> rc_expire_fails c"
    and "\<forall>d \<in> set cs. rc_now c \<le> rc_now d \<and> rc_now d < rc_now c + rate_limit_window \<and> \<not> rc_fails d \<and> rc_show d = rc_show c"
  shows "snd (check_run user (c # cs) r) = min (Suc (length cs)) 100"
proof -
  let ?e = "rc_now c + rate_limit_window"
  let ?r = "r\<lparr>br_counts := (br_counts r)(count_key (rc_show c user) \<mapsto> (1, Some ?e))\<rparr>"
  have run: "can_process_email c user r = (?r, Inr True)"
    using assms(1-3) by (simp add: can_process_email_def Let_def rate_limit_max_emails_def)
  have "snd (check_run user cs ?r) = min (length cs) (nat (rate_limit_max_emails - 1))"
    by (rule check_run_live [where begun = "rc_now c" and e = ?e and sh = "rc_show c"])
      (use assms(4) in \<open>auto simp: live_quota_def rate_limit_window_def\<close>)
  then show ?thesis using run by (simp add: split_beta rate_limit_max_emails_def)
qed

text \<open>If the first EXPIRE fails the counter stays for ever, and after the hundredth check nobody passes.\<close>

lemma lost_expiry_blocks_backfill:
  assumes "br_counts r (count_key (rc_show c user)) = Some (v, None)" "100 \<le> v" "\<not> rc_fails c"
  shows "\<exists>r'. can_process_email c user r = (r', Inr False) \<and> br_counts r' (count_key (rc_show c user)) = Some (v + 1, None)"
  using assms by (simp add: can_process_email_def live_quota_def rate_limit_max_emails_def Let_def)

text \<open>Completing one account's job deletes the counter of the user, whatever the other accounts have used.\<close>

lemma completion_resets_limit:
  assumes "mark_complete c j r = (j', r', None)"
  shows "live_quota t (count_key (rc_show c (bj_user j))) (br_counts r') = None"
  using assms by (auto simp: mark_complete_def Let_def live_quota_def split: if_splits)

section \<open>Worked inputs\<close>

definition ex_redis :: backfill_redis where
  "ex_redis = \<lparr>br_queue = [], br_hashes = [], br_counts = Map.empty\<rparr>"

definition redis_at :: "instant \<Rightarrow> redis_call" where
  "redis_at t = \<lparr>rc_now = t, rc_fails = False, rc_expire_fails = False, rc_show = (\<lambda>_. ''u'')\<rparr>"

definition ex_backfill_job :: backfill_job where
  "ex_backfill_job = new_job\<lparr>bj_user := 1, bj_account := 2, bj_provider := ''gmail'', bj_start := 0, bj_end := 100,
     bj_progress := 40, bj_found := 50, bj_processed := 20, bj_skipped := 3\<rparr>"

lemma progress_round_trip_witness:
  "\<exists>j' r' sn. update_progress (redis_at 5) ex_backfill_job ex_redis = (j', r', None) \<and>
     get_progress (\<lambda>_. None) (redis_at 6) (redis_at 6) 1 r' = Inr sn \<and> sn_progress sn = 40 \<and> sn_found sn = 50 \<and> sn_skipped sn = 3"
proof -
  obtain j' r' where u: "update_progress (redis_at 5) ex_backfill_job ex_redis = (j', r', None)"
    by (simp add: update_progress_def redis_at_def Let_def)
  have "\<forall>n \<in> {bj_progress ex_backfill_job, bj_found ex_backfill_job, bj_processed ex_backfill_job, bj_skipped ex_backfill_job,
      bj_failed ex_backfill_job}. - (2 ^ 63) \<le> n \<and> n < 2 ^ 63"
    by (simp add: ex_backfill_job_def new_job_def)
  from progress_round_trip [OF u _ _ this, of "redis_at 6" "\<lambda>_. None" "redis_at 6"] u show ?thesis
    by (auto simp: redis_at_def ex_backfill_job_def new_job_def)
qed

lemma first_hundred_are_granted_witness:
  "snd (check_run 1 (redis_at 5 # replicate 200 (redis_at 6)) ex_redis) = 100"
  using first_hundred_are_granted [of "redis_at 5" 1 ex_redis "replicate 200 (redis_at 6)"]
  by (simp add: redis_at_def ex_redis_def live_quota_def rate_limit_window_def)

end
