(* ===== verification/Backfill_Worker.thy ===== *)
theory Backfill_Worker
  imports Backfill_Queue
begin

text \<open>
  The worker of the backfill (\<open>src/ingestion/internal/backfill/worker.go\<close>): it lists the mail of an
  account, runs each message through fetching, parsing, insertion and publication under the hourly limit,
  and retries jobs that fail. The columns of \<open>raw_emails\<close> that only the backfill writes (\<open>parsed_at\<close>,
  \<open>retention_until\<close>, \<open>classification\<close>, \<open>is_backfill\<close>) are left out.
\<close>

section \<open>The worker's world\<close>

record backfill_world =
  bw_world :: poll_world
  bw_redis :: backfill_redis

text \<open>
  The environment of one job. Calls are numbered by page or by message; \<open>bf_uuid\<close> is PostgreSQL's reading
  of a text as a UUID, \<open>bf_fresh\<close> the identifiers of the row and of the event.
\<close>

record backfill_env =
  bf_now :: instant
  bf_token :: "string + string"
  bf_list :: "nat \<Rightarrow> string \<Rightarrow> string \<Rightarrow> string + message_list"
  bf_page_cancelled :: "nat \<Rightarrow> bool"
  bf_get :: "string \<Rightarrow> string + gmail_message option"
  bf_parse :: "bytes \<Rightarrow> uuid \<Rightarrow> uuid \<Rightarrow> string + ingested_email"
  bf_delta :: "nat \<Rightarrow> string \<Rightarrow> string + delta_result"
  bf_uuid :: "string \<Rightarrow> uuid option"
  bf_insert_fails :: "nat \<Rightarrow> bool"
  bf_fresh :: "nat \<Rightarrow> uuid \<times> uuid"
  bf_publish_fails :: "nat \<Rightarrow> bool"
  bf_cancelled :: "nat \<Rightarrow> bool"
  bf_check :: "nat \<Rightarrow> redis_call"
  bf_wait_cancelled :: "nat \<Rightarrow> bool"
  bf_recheck :: "nat \<Rightarrow> redis_call"
  bf_update :: "nat \<Rightarrow> redis_call"
  bf_listed :: redis_call
  bf_complete :: redis_call

section \<open>One message\<close>

definition backfill_row :: "backfill_job \<Rightarrow> ingested_email \<Rightarrow> uuid \<Rightarrow> uuid \<Rightarrow> raw_row" where
  "backfill_row j m i t =
     \<lparr>rw_id = i, rw_thread = t, rw_user = bj_user j, rw_account = bj_account j, rw_message = pm_message m,
      rw_in_reply_to = pm_in_reply_to m, rw_references = pm_references m, rw_sender = pm_sender m,
      rw_sender_name = Some (pm_sender_name m), rw_recipients = pm_recipients m, rw_subject = Some (pm_subject m),
      rw_body_text = Some (pm_body_text m), rw_body_html = Some (pm_body_html m), rw_has_attachments = pm_has_attachments m,
      rw_uris = filter (\<lambda>u. u \<noteq> []) (map at_uri (pm_attachments m)), rw_codes = pm_codes m, rw_received = pm_received m,
      rw_uri = [], rw_deleted = False, rw_labels = []\<rparr>"

text \<open>The conflict target is the account and the message; the thread is the provider's, not one of ours.\<close>

definition persist_and_publish ::
  "backfill_env \<Rightarrow> nat \<Rightarrow> string \<Rightarrow> string \<Rightarrow> ingested_email \<Rightarrow> backfill_job \<times> poll_world \<Rightarrow> (backfill_job \<times> poll_world) \<times> string option" where
  "persist_and_publish env n source thread m s =
     (case s of (j, w) \<Rightarrow>
        (case (if bf_insert_fails env n then None else bf_uuid env thread) of
           None \<Rightarrow> ((j, w), Some ''persist email'')
         | Some t \<Rightarrow>
             if list_ex (\<lambda>r. rw_account r = bj_account j \<and> rw_message r = pm_message m) (md_raw (pw_mail w))
             then ((j\<lparr>bj_skipped := bj_skipped j + 1\<rparr>, w), None)
             else (let (i, e) = bf_fresh env n;
                       ev = \<lparr>ei_event = e, ei_user = bj_user j, ei_source = source, ei_account = bj_account j, ei_thread = uuid_nil,
                             ei_raw = i, ei_uri = pm_uri m, ei_has_attachments = pm_has_attachments m, ei_sender = pm_sender m,
                             ei_received = pm_received m, ei_hint = ''pending'', ei_contacts = []\<rparr>
                   in ((j, w\<lparr>pw_mail := (pw_mail w)\<lparr>md_raw := md_raw (pw_mail w) @ [backfill_row j m i t]\<rparr>,
                             pw_published := (if bf_publish_fails env n then pw_published w else pw_published w @ [ev])\<rparr>), None))))"

definition process_single_gmail ::
  "backfill_env \<Rightarrow> nat \<Rightarrow> string \<times> string \<Rightarrow> backfill_job \<times> poll_world \<Rightarrow> (backfill_job \<times> poll_world) \<times> string option" where
  "process_single_gmail env n item s =
     (case s of (j, w) \<Rightarrow>
        (case bf_get env (fst item) of
           Inl e \<Rightarrow> ((j, w), Some (''messages.get '' @ fst item @ '': '' @ e))
         | Inr None \<Rightarrow> ((j\<lparr>bj_skipped := bj_skipped j + 1\<rparr>, w), None)
         | Inr (Some msg) \<Rightarrow>
             (case decode_raw (gm_raw msg) of
                None \<Rightarrow> ((j, w), Some (''decode raw message '' @ fst item))
              | Some raw \<Rightarrow>
                  (case bf_parse env raw (bj_account j) (bj_user j) of
                     Inl e \<Rightarrow> ((j, w), Some (''parse MIME '' @ fst item @ '': '' @ e))
                   | Inr m \<Rightarrow> persist_and_publish env n ''gmail'' (snd item) m (j, w)))))"

text \<open>\<open>parseReferences\<close> of this package trims white space around the brackets too.\<close>

definition backfill_references :: "string \<Rightarrow> string list" where
  "backfill_references s = filter (\<lambda>r. r \<noteq> []) (map (\<lambda>r. trim_space (trim_angles (trim_space r))) (str_fields s))"

definition backfill_parsed_email :: "outlook_message \<Rightarrow> uuid \<Rightarrow> uuid \<Rightarrow> ingested_email" where
  "backfill_parsed_email m account user =
     (convert_to_parsed_email m account user)
       \<lparr>pm_references := (case last_header ''References'' (om_headers m) of None \<Rightarrow> [] | Some r \<Rightarrow> backfill_references r)\<rparr>"

definition process_single_outlook ::
  "backfill_env \<Rightarrow> nat \<Rightarrow> outlook_message \<Rightarrow> backfill_job \<times> poll_world \<Rightarrow> (backfill_job \<times> poll_world) \<times> string option" where
  "process_single_outlook env n m s =
     persist_and_publish env n ''outlook'' (om_conversation m) (backfill_parsed_email m (bj_account (fst s)) (bj_user (fst s))) s"

section \<open>The messages of a job\<close>

definition rate_gate :: "backfill_env \<Rightarrow> nat \<Rightarrow> uuid \<Rightarrow> backfill_redis \<Rightarrow> backfill_redis \<times> string option" where
  "rate_gate env n user r =
     (case can_process_email (bf_check env n) user r of
        (r1, Inl e) \<Rightarrow> (r1, Some (''rate limit check: '' @ e))
      | (r1, Inr True) \<Rightarrow> (r1, None)
      | (r1, Inr False) \<Rightarrow>
          if bf_wait_cancelled env n then (r1, Some ''context canceled'')
          else (case can_process_email (bf_recheck env n) user r1 of
                  (r2, Inr True) \<Rightarrow> (r2, None)
                | (r2, _) \<Rightarrow> (r2, Some ''rate limit still exceeded after waiting'')))"

definition set_progress :: "backfill_job \<Rightarrow> backfill_job" where
  "set_progress j = (if 0 < bj_found j then j\<lparr>bj_progress := bj_processed j * 100 div bj_found j\<rparr> else j)"

definition count_processed :: "backfill_env \<Rightarrow> nat \<Rightarrow> backfill_job \<Rightarrow> backfill_redis \<Rightarrow> backfill_job \<times> backfill_redis" where
  "count_processed env n j r =
     (let j1 = j\<lparr>bj_processed := bj_processed j + 1\<rparr>
      in if bj_processed j1 mod progress_update_interval = 0
         then (case update_progress (bf_update env n) (set_progress j1) r of (j2, r', _) \<Rightarrow> (j2, r')) else (j1, r))"

text \<open>One message of either provider, once the gate is passed: \<open>single\<close> processes it.\<close>

definition backfill_one ::
  "backfill_env \<Rightarrow> nat \<Rightarrow> (backfill_job \<times> poll_world \<Rightarrow> (backfill_job \<times> poll_world) \<times> string option) \<Rightarrow>
   backfill_job \<Rightarrow> backfill_world \<Rightarrow> backfill_job \<times> backfill_world" where
  "backfill_one env n single j w =
     (case single (j, bw_world w) of
        ((j1, p), Some e) \<Rightarrow> (j1\<lparr>bj_failed := bj_failed j1 + 1\<rparr>, w\<lparr>bw_world := p\<rparr>)
      | ((j1, p), None) \<Rightarrow>
          (case count_processed env n j1 (bw_redis w) of (j2, r) \<Rightarrow> (j2, w\<lparr>bw_world := p, bw_redis := r\<rparr>)))"

fun backfill_gmail_messages ::
  "backfill_env \<Rightarrow> nat \<Rightarrow> (string \<times> string) list \<Rightarrow> backfill_job \<Rightarrow> backfill_world \<Rightarrow> (backfill_job \<times> backfill_world) \<times> string option" where
  "backfill_gmail_messages env n [] j w = ((set_progress j, w), None)"
| "backfill_gmail_messages env n (item # items) j w =
     (case rate_gate env n (bj_user j) (bw_redis w) of
        (r, Some e) \<Rightarrow> ((j, w\<lparr>bw_redis := r\<rparr>), Some e)
      | (r, None) \<Rightarrow>
          (case backfill_one env n (process_single_gmail env n item) j (w\<lparr>bw_redis := r\<rparr>) of
             (j', w') \<Rightarrow> backfill_gmail_messages env (Suc n) items j' w'))"

fun backfill_outlook_messages ::
  "backfill_env \<Rightarrow> nat \<Rightarrow> outlook_message list \<Rightarrow> backfill_job \<Rightarrow> backfill_world \<Rightarrow> (backfill_job \<times> backfill_world) \<times> string option" where
  "backfill_outlook_messages env n [] j w = ((set_progress j, w), None)"
| "backfill_outlook_messages env n (m # ms) j w =
     (if bf_cancelled env n then ((j, w), Some ''context canceled'')
      else (case rate_gate env n (bj_user j) (bw_redis w) of
              (r, Some e) \<Rightarrow> ((j, w\<lparr>bw_redis := r\<rparr>), Some e)
            | (r, None) \<Rightarrow>
                if om_draft m then backfill_outlook_messages env (Suc n) ms (j\<lparr>bj_skipped := bj_skipped j + 1\<rparr>) (w\<lparr>bw_redis := r\<rparr>)
                else (case backfill_one env n (process_single_outlook env n m) j (w\<lparr>bw_redis := r\<rparr>) of
                        (j', w') \<Rightarrow> backfill_outlook_messages env (Suc n) ms j' w')))"

section \<open>Listing\<close>

definition gmail_query :: "backfill_env \<Rightarrow> backfill_job \<Rightarrow> string" where
  "gmail_query env j = ''newer_than:'' @ int_decimal (go_sub (bf_now env) (bj_start j) div day_ns) @ ''d''"

text \<open>The pages of both providers; \<open>None\<close> is a loop that never ends.\<close>

partial_function (option) list_gmail ::
  "backfill_env \<Rightarrow> string \<Rightarrow> nat \<Rightarrow> string \<Rightarrow> (string \<times> string) list \<Rightarrow> (string + (string \<times> string) list) option" where
  "list_gmail env query k token acc =
     (case bf_list env k query token of
        Inl e \<Rightarrow> Some (Inl (''messages.list page '' @ nat_decimal (Suc k) @ '': '' @ e))
      | Inr p \<Rightarrow>
          if ml_next p = [] then Some (Inr (acc @ ml_items p))
          else if bf_page_cancelled env k then Some (Inl ''context canceled'')
          else list_gmail env query (Suc k) (ml_next p) (acc @ ml_items p))"

definition to_backfill :: "backfill_job \<Rightarrow> outlook_message \<Rightarrow> bool" where
  "to_backfill j m \<longleftrightarrow> om_change m \<noteq> ''deleted'' \<and>
     (om_received m = zero_time \<or> (bj_start j \<le> om_received m \<and> om_received m \<le> bj_end j))"

text \<open>A page that is rate limited is asked for again after a pause; \<open>k\<close> counts requests, \<open>page\<close> too.\<close>

partial_function (option) list_outlook ::
  "backfill_env \<Rightarrow> backfill_job \<Rightarrow> nat \<Rightarrow> string \<Rightarrow> outlook_message list \<Rightarrow> (string + outlook_message list) option" where
  "list_outlook env j k link acc =
     (case bf_delta env k link of
        Inl e \<Rightarrow> Some (Inl (''delta query page '' @ nat_decimal (Suc k) @ '': '' @ e))
      | Inr p \<Rightarrow>
          if dq_limited p
          then (if bf_page_cancelled env k then Some (Inl ''context canceled'') else list_outlook env j (Suc k) link acc)
          else if dq_error p \<noteq> [] then Some (Inl (''outlook delta query error: '' @ dq_error p))
          else if dq_next p \<noteq> [] then list_outlook env j (Suc k) (dq_next p) (acc @ filter (to_backfill j) (dq_messages p))
          else Some (Inr (acc @ filter (to_backfill j) (dq_messages p))))"

definition after_listing :: "backfill_env \<Rightarrow> nat \<Rightarrow> backfill_job \<Rightarrow> backfill_world \<Rightarrow> backfill_job \<times> backfill_world" where
  "after_listing env found j w =
     (case update_progress (bf_listed env) (j\<lparr>bj_found := int found\<rparr>) (bw_redis w) of (j', r, _) \<Rightarrow> (j', w\<lparr>bw_redis := r\<rparr>))"

definition process_gmail_backfill ::
  "backfill_env \<Rightarrow> backfill_job \<Rightarrow> backfill_world \<Rightarrow> ((backfill_job \<times> backfill_world) \<times> string option) option" where
  "process_gmail_backfill env j w =
     (case list_gmail env (gmail_query env j) 0 [] [] of
        None \<Rightarrow> None
      | Some (Inl e) \<Rightarrow> Some ((j, w), Some e)
      | Some (Inr items) \<Rightarrow>
          (case after_listing env (length items) j w of (j1, w1) \<Rightarrow> Some (backfill_gmail_messages env 0 items j1 w1)))"

definition process_outlook_backfill ::
  "backfill_env \<Rightarrow> backfill_job \<Rightarrow> backfill_world \<Rightarrow> ((backfill_job \<times> backfill_world) \<times> string option) option" where
  "process_outlook_backfill env j w =
     (case list_outlook env j 0 [] [] of
        None \<Rightarrow> None
      | Some (Inl e) \<Rightarrow> Some ((j, w), Some e)
      | Some (Inr ms) \<Rightarrow>
          (case after_listing env (length ms) j w of (j1, w1) \<Rightarrow> Some (backfill_outlook_messages env 0 ms j1 w1)))"

section \<open>A job and the loop of the worker\<close>

definition complete_job :: "backfill_env \<Rightarrow> string \<Rightarrow> (backfill_job \<times> backfill_world) \<times> string option \<Rightarrow> (backfill_job \<times> backfill_world) \<times> string option" where
  "complete_job env what x =
     (case x of
        ((j, w), Some e) \<Rightarrow> ((j, w), Some (what @ '': '' @ e))
      | ((j, w), None) \<Rightarrow>
          (case mark_complete (bf_complete env) j (bw_redis w) of (j', r, _) \<Rightarrow> ((j', w\<lparr>bw_redis := r\<rparr>), None)))"

definition process_backfill_job ::
  "backfill_env \<Rightarrow> backfill_job \<Rightarrow> backfill_world \<Rightarrow> ((backfill_job \<times> backfill_world) \<times> string option) option" where
  "process_backfill_job env j w =
     (case bf_token env of
        Inl e \<Rightarrow> Some ((j, w), Some (''refresh tokens: '' @ e))
      | Inr _ \<Rightarrow>
          if bj_provider j = ''gmail'' then map_option (complete_job env ''gmail backfill'') (process_gmail_backfill env j w)
          else if bj_provider j = ''outlook''
          then map_option (complete_job env ''outlook backfill'') (process_outlook_backfill env j w)
          else Some ((j, w), Some (''unsupported provider: '' @ bj_provider j)))"

definition retry_backoff :: "backfill_job \<Rightarrow> duration" where
  "retry_backoff j = 2 ^ bj_retries j * (5 * second_ns)"

record turn_env =
  tn_pop :: redis_call
  tn_status :: redis_call
  tn_job :: backfill_env
  tn_requeue :: redis_call
  tn_failed :: redis_call

datatype turn = TurnBlocked | TurnStuck | TurnDone backfill_world

text \<open>One turn of \<open>Run\<close>: the pauses after an error and before a retry are not part of the state.\<close>

definition worker_turn :: "turn_env \<Rightarrow> backfill_world \<Rightarrow> turn" where
  "worker_turn te w =
     (case dequeue_backfill (tn_pop te) (tn_status te) (bw_redis w) of
        None \<Rightarrow> TurnBlocked
      | Some (r, Inl _) \<Rightarrow> TurnDone (w\<lparr>bw_redis := r\<rparr>)
      | Some (r, Inr j) \<Rightarrow>
          (case process_backfill_job (tn_job te) j (w\<lparr>bw_redis := r\<rparr>) of
             None \<Rightarrow> TurnStuck
           | Some ((j', w'), None) \<Rightarrow> TurnDone w'
           | Some ((j', w'), Some e) \<Rightarrow>
               if bj_retries j' < max_retries
               then (case requeue_for_retry (tn_requeue te) j' (bw_redis w') of
                       (j2, r2, None) \<Rightarrow> TurnDone (w'\<lparr>bw_redis := r2\<rparr>)
                     | (j2, r2, Some e2) \<Rightarrow>
                         (case mark_failed (tn_failed te) j2 (''retry requeue failed: '' @ e2) r2 of
                            (_, r3, _) \<Rightarrow> TurnDone (w'\<lparr>bw_redis := r3\<rparr>)))
               else (case mark_failed (tn_failed te) j' e (bw_redis w') of (_, r3, _) \<Rightarrow> TurnDone (w'\<lparr>bw_redis := r3\<rparr>))))"


section \<open>What a job does\<close>

definition stored_rows :: "poll_world \<Rightarrow> int" where
  "stored_rows p = int (length (md_raw (pw_mail p)))"

text \<open>What a step of a job leaves alone: the identity of the job, the accounts and the queue.\<close>

definition job_identity :: "backfill_job \<Rightarrow> uuid \<times> uuid \<times> string \<times> instant \<times> instant \<times> nat \<times> int" where
  "job_identity j = (bj_user j, bj_account j, bj_provider j, bj_start j, bj_end j, bj_retries j, bj_found j)"

definition single_step :: "backfill_job \<times> poll_world \<Rightarrow> (backfill_job \<times> poll_world) \<times> string option \<Rightarrow> bool" where
  "single_step s x \<longleftrightarrow>
     (case (s, x) of
        ((j, p), ((j', p'), e)) \<Rightarrow>
          job_identity j' = job_identity j \<and> bj_processed j' = bj_processed j \<and> bj_failed j' = bj_failed j \<and>
          pw_accounts p' = pw_accounts p \<and>
          (e \<noteq> None \<longrightarrow> j' = j \<and> p' = p) \<and>
          stored_rows p' + bj_skipped j' = stored_rows p + bj_skipped j + (if e = None then 1 else 0))"

lemma persist_single_step: "single_step s (persist_and_publish env n source t m s)"
  by (auto simp: single_step_def persist_and_publish_def job_identity_def stored_rows_def split: prod.splits option.splits)

lemma gmail_single_step: "single_step s (process_single_gmail env n item s)"
proof -
  have "single_step (j, p) ((j, p), Some e)" "single_step (j, p) ((j\<lparr>bj_skipped := bj_skipped j + 1\<rparr>, p), None)" for j p e
    by (simp_all add: single_step_def job_identity_def)
  then show ?thesis
    by (cases s) (auto simp: process_single_gmail_def persist_single_step split: sum.splits option.splits)
qed

lemma outlook_single_step: "single_step s (process_single_outlook env n m s)"
  by (simp add: process_single_outlook_def persist_single_step)

lemma update_progress_keeps:
  "update_progress c j r = (j', r', e) \<Longrightarrow>
     j' = j\<lparr>bj_updated := rc_now c\<rparr> \<and> br_queue r' = br_queue r \<and> br_counts r' = br_counts r"
  by (auto simp: update_progress_def Let_def split: if_splits)

lemma can_process_keeps: "can_process_email c u r = (r', x) \<Longrightarrow> br_queue r' = br_queue r \<and> br_hashes r' = br_hashes r"
  by (auto simp: can_process_email_def Let_def split: if_splits)

lemma rate_gate_keeps: "rate_gate env n u r = (r', x) \<Longrightarrow> br_queue r' = br_queue r \<and> br_hashes r' = br_hashes r"
  by (auto simp: rate_gate_def split: prod.splits sum.splits bool.splits if_splits dest!: can_process_keeps)

definition one_step :: "backfill_job \<Rightarrow> backfill_world \<Rightarrow> backfill_job \<Rightarrow> backfill_world \<Rightarrow> bool" where
  "one_step j w j' w' \<longleftrightarrow> job_identity j' = job_identity j \<and> br_queue (bw_redis w') = br_queue (bw_redis w) \<and>
     pw_accounts (bw_world w') = pw_accounts (bw_world w) \<and>
     bj_processed j' + bj_failed j' = bj_processed j + bj_failed j + 1 \<and>
     stored_rows (bw_world w') + bj_skipped j' - bj_processed j' = stored_rows (bw_world w) + bj_skipped j - bj_processed j"

lemma backfill_one_step:
  assumes "\<And>s. single_step s (single s)" "backfill_one env n single j w = (j', w')"
  shows "one_step j w j' w'"
proof -
  obtain j1 p e where s: "single (j, bw_world w) = ((j1, p), e)" by (metis prod.exhaust)
  with assms(1) [of "(j, bw_world w)"] have step: "single_step (j, bw_world w) ((j1, p), e)" by simp
  show ?thesis
  proof (cases e)
    case None
    obtain j2 r where c: "count_processed env n j1 (bw_redis w) = (j2, r)" by fastforce
    then have "j' = j2 \<and> w' = w\<lparr>bw_world := p, bw_redis := r\<rparr>" using assms(2) s None by (simp add: backfill_one_def)
    moreover have "br_queue r = br_queue (bw_redis w) \<and> job_identity j2 = job_identity j1 \<and>
        bj_processed j2 = bj_processed j1 + 1 \<and> bj_failed j2 = bj_failed j1 \<and> bj_skipped j2 = bj_skipped j1"
      using c by (auto simp: count_processed_def Let_def set_progress_def job_identity_def split: if_splits prod.splits
          dest!: update_progress_keeps)
    ultimately show ?thesis using step None by (simp add: one_step_def single_step_def)
  next
    case (Some x)
    then show ?thesis
      using step s assms(2) by (auto simp: backfill_one_def one_step_def single_step_def job_identity_def)
  qed
qed

lemma set_progress_keeps [simp]:
  "job_identity (set_progress j) = job_identity j" "bj_processed (set_progress j) = bj_processed j"
  "bj_failed (set_progress j) = bj_failed j" "bj_skipped (set_progress j) = bj_skipped j" "bj_found (set_progress j) = bj_found j"
  by (simp_all add: set_progress_def job_identity_def)

lemma gmail_messages_account:
  assumes "backfill_gmail_messages env n items j w = ((j', w'), e)"
  shows "job_identity j' = job_identity j \<and> br_queue (bw_redis w') = br_queue (bw_redis w) \<and>
     pw_accounts (bw_world w') = pw_accounts (bw_world w) \<and>
     stored_rows (bw_world w') + bj_skipped j' - bj_processed j' = stored_rows (bw_world w) + bj_skipped j - bj_processed j \<and>
     (e = None \<longrightarrow> bj_processed j' + bj_failed j' = bj_processed j + bj_failed j + int (length items))"
  using assms
proof (induction items arbitrary: n j w)
  case (Cons item items)
  obtain r x where g: "rate_gate env n (bj_user j) (bw_redis w) = (r, x)" by fastforce
  note q = rate_gate_keeps [OF g]
  show ?case
  proof (cases x)
    case None
    obtain j1 w1 where o: "backfill_one env n (process_single_gmail env n item) j (w\<lparr>bw_redis := r\<rparr>) = (j1, w1)" by fastforce
    have "backfill_gmail_messages env (Suc n) items j1 w1 = ((j', w'), e)" using Cons.prems g None o by simp
    from Cons.IH [OF this] backfill_one_step [OF gmail_single_step o] q show ?thesis by (auto simp: one_step_def)
  next
    case (Some f)
    then show ?thesis using Cons.prems g q by auto
  qed
qed auto

definition draft_count :: "outlook_message list \<Rightarrow> int" where
  "draft_count ms = int (length (filter om_draft ms))"

lemma outlook_messages_account:
  assumes "backfill_outlook_messages env n ms j w = ((j', w'), e)"
  shows "job_identity j' = job_identity j \<and> br_queue (bw_redis w') = br_queue (bw_redis w) \<and>
     pw_accounts (bw_world w') = pw_accounts (bw_world w) \<and>
     (e = None \<longrightarrow> bj_processed j' + bj_failed j' = bj_processed j + bj_failed j + int (length ms) - draft_count ms \<and>
       stored_rows (bw_world w') + bj_skipped j' - bj_processed j' =
         stored_rows (bw_world w) + bj_skipped j - bj_processed j + draft_count ms)"
  using assms
proof (induction ms arbitrary: n j w)
  case (Cons m ms)
  show ?case
  proof (cases "bf_cancelled env n")
    case False
    obtain r x where g: "rate_gate env n (bj_user j) (bw_redis w) = (r, x)" by fastforce
    note q = rate_gate_keeps [OF g]
    show ?thesis
    proof (cases x)
      case None
      show ?thesis
      proof (cases "om_draft m")
        case True
        then have "backfill_outlook_messages env (Suc n) ms (j\<lparr>bj_skipped := bj_skipped j + 1\<rparr>) (w\<lparr>bw_redis := r\<rparr>) = ((j', w'), e)"
          using Cons.prems False g None by simp
        from Cons.IH [OF this] q True show ?thesis by (auto simp: job_identity_def draft_count_def)
      next
        case nd: False
        obtain j1 w1 where o: "backfill_one env n (process_single_outlook env n m) j (w\<lparr>bw_redis := r\<rparr>) = (j1, w1)" by fastforce
        have "backfill_outlook_messages env (Suc n) ms j1 w1 = ((j', w'), e)" using Cons.prems False g None nd o by simp
        from Cons.IH [OF this] backfill_one_step [OF outlook_single_step o] q nd show ?thesis
          by (auto simp: one_step_def draft_count_def)
      qed
    next
      case (Some f)
      then show ?thesis using Cons.prems False g q by auto
    qed
  qed (use Cons.prems in auto)
qed (auto simp: draft_count_def)


lemma after_listing_keeps:
  assumes "after_listing env n j w = (j1, w1)"
  shows "j1 = j\<lparr>bj_found := int n, bj_updated := rc_now (bf_listed env)\<rparr>" "bw_world w1 = bw_world w"
    "br_queue (bw_redis w1) = br_queue (bw_redis w)"
  using assms by (auto simp: after_listing_def split: prod.splits dest!: update_progress_keeps)

lemma mark_complete_keeps:
  "mark_complete c j r = (j', r', e) \<Longrightarrow> br_queue r' = br_queue r \<and> bj_status j' = BfComplete \<and> bj_progress j' = 100 \<and>
     job_identity j' = job_identity j \<and> bj_processed j' = bj_processed j \<and> bj_failed j' = bj_failed j \<and> bj_skipped j' = bj_skipped j"
  by (auto simp: mark_complete_def Let_def job_identity_def split: if_splits)

lemma complete_jobE:
  assumes "complete_job env what x = ((j', w'), None)"
  obtains j w where "x = ((j, w), None)" "bw_world w' = bw_world w" "br_queue (bw_redis w') = br_queue (bw_redis w)"
    "bj_status j' = BfComplete" "bj_progress j' = 100" "job_identity j' = job_identity j" "bj_processed j' = bj_processed j"
    "bj_failed j' = bj_failed j" "bj_skipped j' = bj_skipped j"
  using assms
  by (auto simp: complete_job_def split: prod.splits option.splits dest!: mark_complete_keeps)

lemma complete_job_keeps:
  assumes "complete_job env what ((j, w), e) = ((j', w'), e')"
  shows "job_identity j' = job_identity j \<and> br_queue (bw_redis w') = br_queue (bw_redis w) \<and> bw_world w' = bw_world w"
  using assms
  by (auto simp: complete_job_def split: prod.splits option.splits dest!: mark_complete_keeps)

text \<open>Listing changes the number of mails found, nothing else that identifies the job.\<close>

definition same_job :: "backfill_job \<Rightarrow> backfill_job \<Rightarrow> bool" where
  "same_job j j' \<longleftrightarrow> bj_user j' = bj_user j \<and> bj_account j' = bj_account j \<and> bj_provider j' = bj_provider j \<and>
     bj_start j' = bj_start j \<and> bj_end j' = bj_end j \<and> bj_retries j' = bj_retries j"

lemma job_identity_same: "job_identity j' = job_identity (j\<lparr>bj_found := n, bj_updated := t\<rparr>) \<Longrightarrow> same_job j j' \<and> bj_found j' = n"
  by (simp add: job_identity_def same_job_def)

lemma process_backfill_job_cases:
  assumes "process_backfill_job env j w = Some ((j', w'), e)"
  obtains (refused) f where "j' = j" "w' = w" "e = Some f"
  | (gmail) j1 w1 f where "bj_provider j = ''gmail''" "process_gmail_backfill env j w = Some ((j1, w1), f)"
      "complete_job env ''gmail backfill'' ((j1, w1), f) = ((j', w'), e)"
  | (outlook) j1 w1 f where "bj_provider j = ''outlook''" "process_outlook_backfill env j w = Some ((j1, w1), f)"
      "complete_job env ''outlook backfill'' ((j1, w1), f) = ((j', w'), e)"
  using assms
  by (auto simp: process_backfill_job_def split: sum.splits if_splits)

lemma process_backfill_job_keeps:
  assumes "process_backfill_job env j w = Some ((j', w'), e)"
  shows "same_job j j' \<and> br_queue (bw_redis w') = br_queue (bw_redis w) \<and> pw_accounts (bw_world w') = pw_accounts (bw_world w)"
proof -
  have gmail_run: "same_job j j1 \<and> br_queue (bw_redis w1) = br_queue (bw_redis w) \<and> pw_accounts (bw_world w1) = pw_accounts (bw_world w)"
    if run: "process_gmail_backfill env j w = Some ((j1, w1), f)" for j1 w1 f
  proof (cases "list_gmail env (gmail_query env j) 0 [] []")
    case (Some l)
    show ?thesis
    proof (cases l)
      case (Inr items)
      obtain j0 w0 where a: "after_listing env (length items) j w = (j0, w0)" by fastforce
      have "backfill_gmail_messages env 0 items j0 w0 = ((j1, w1), f)" using run Some Inr a by (simp add: process_gmail_backfill_def)
      from gmail_messages_account [OF this] after_listing_keeps [OF a] job_identity_same show ?thesis by auto
    qed (use run Some in \<open>simp add: process_gmail_backfill_def same_job_def\<close>)
  qed (use run in \<open>simp add: process_gmail_backfill_def\<close>)
  have outlook_run: "same_job j j1 \<and> br_queue (bw_redis w1) = br_queue (bw_redis w) \<and> pw_accounts (bw_world w1) = pw_accounts (bw_world w)"
    if run: "process_outlook_backfill env j w = Some ((j1, w1), f)" for j1 w1 f
  proof (cases "list_outlook env j 0 [] []")
    case (Some l)
    show ?thesis
    proof (cases l)
      case (Inr ms)
      obtain j0 w0 where a: "after_listing env (length ms) j w = (j0, w0)" by fastforce
      have "backfill_outlook_messages env 0 ms j0 w0 = ((j1, w1), f)" using run Some Inr a by (simp add: process_outlook_backfill_def)
      from outlook_messages_account [OF this] after_listing_keeps [OF a] job_identity_same show ?thesis by auto
    qed (use run Some in \<open>simp add: process_outlook_backfill_def same_job_def\<close>)
  qed (use run in \<open>simp add: process_outlook_backfill_def\<close>)
  have fin: ?thesis if "complete_job env what ((j1, w1), f) = ((j', w'), e)" "same_job j j1 \<and>
      br_queue (bw_redis w1) = br_queue (bw_redis w) \<and> pw_accounts (bw_world w1) = pw_accounts (bw_world w)" for what j1 w1 f
    using complete_job_keeps [OF that(1)] that(2) by (simp add: job_identity_def same_job_def)
  show ?thesis
    using assms
  proof (cases rule: process_backfill_job_cases)
    case refused
    then show ?thesis by (simp add: same_job_def)
  next
    case gmail: (gmail j1 w1 f)
    show ?thesis using fin [OF gmail(3) gmail_run [OF gmail(2)]] .
  next
    case outlook: (outlook j1 w1 f)
    show ?thesis using fin [OF outlook(3) outlook_run [OF outlook(2)]] .
  qed
qed


lemma gmail_job_run:
  assumes "process_backfill_job env j w = Some ((j', w'), None)" and "bj_provider j = ''gmail''"
  obtains items j0 w0 j1 w1 where "list_gmail env (gmail_query env j) 0 [] [] = Some (Inr items)"
    "after_listing env (length items) j w = (j0, w0)" "backfill_gmail_messages env 0 items j0 w0 = ((j1, w1), None)"
    "complete_job env ''gmail backfill'' ((j1, w1), None) = ((j', w'), None)"
  using assms(1)
proof (cases rule: process_backfill_job_cases)
  case (gmail j1 w1 f)
  have f: "f = None" using gmail(3) by (auto elim: complete_jobE)
  obtain l where l: "list_gmail env (gmail_query env j) 0 [] [] = Some l" "l = Inl e \<Longrightarrow> False" for e
    using gmail(2) f by (auto simp: process_gmail_backfill_def split: option.splits sum.splits)
  then obtain items where items: "l = Inr items" by (cases l) auto
  obtain j0 w0 where a: "after_listing env (length items) j w = (j0, w0)" by fastforce
  have "backfill_gmail_messages env 0 items j0 w0 = ((j1, w1), None)"
    using gmail(2) f l(1) items a by (simp add: process_gmail_backfill_def)
  then show ?thesis using that l(1) items a gmail(3) f by simp
qed (use assms(2) in simp_all)

text \<open>
  C14: The counters of a backfill account for every message. When a Gmail job ends without an error, each
  message that was listed has been counted as processed or as failed, exactly once; each one that is
  counted as processed has added a row or has been counted as skipped as well; the job is complete with a
  progress of 100; and neither the cursors of the accounts nor the queue have changed.
\<close>

theorem backfill_accounts_for_every_message:
  assumes "process_backfill_job env j w = Some ((j', w'), None)" and "bj_provider j = ''gmail''"
  shows "\<exists>items. list_gmail env (gmail_query env j) 0 [] [] = Some (Inr items) \<and> bj_found j' = int (length items) \<and>
    bj_processed j' + bj_failed j' = bj_processed j + bj_failed j + int (length items) \<and>
    stored_rows (bw_world w') + (bj_skipped j' - bj_skipped j) = stored_rows (bw_world w) + (bj_processed j' - bj_processed j) \<and>
    bj_status j' = BfComplete \<and> bj_progress j' = 100 \<and>
    pw_accounts (bw_world w') = pw_accounts (bw_world w) \<and> br_queue (bw_redis w') = br_queue (bw_redis w)"
proof -
  obtain items j0 w0 j1 w1 where run: "list_gmail env (gmail_query env j) 0 [] [] = Some (Inr items)"
    "after_listing env (length items) j w = (j0, w0)" "backfill_gmail_messages env 0 items j0 w0 = ((j1, w1), None)"
    "complete_job env ''gmail backfill'' ((j1, w1), None) = ((j', w'), None)"
    using gmail_job_run [OF assms] .
  note a = after_listing_keeps [OF run(2)] and b = gmail_messages_account [OF run(3)]
  from run(4) have c: "bw_world w' = bw_world w1" "br_queue (bw_redis w') = br_queue (bw_redis w1)" "bj_status j' = BfComplete"
    "bj_progress j' = 100" "job_identity j' = job_identity j1" "bj_processed j' = bj_processed j1" "bj_failed j' = bj_failed j1"
    "bj_skipped j' = bj_skipped j1" by (auto elim!: complete_jobE)
  have "bj_found j' = int (length items)" using c(5) b a(1) by (simp add: job_identity_def)
  then show ?thesis using run(1) a b c by (intro exI [of _ items]) (simp add: algebra_simps)
qed

lemma gmail_messages_unreadable:
  assumes "\<forall>item \<in> set items. bf_uuid env (snd item) = None"
    and "backfill_gmail_messages env n items j w = ((j', w'), e)"
  shows "bw_world w' = bw_world w"
  using assms
proof (induction items arbitrary: n j w)
  case (Cons item items)
  have single: "snd (fst (process_single_gmail env n item (k, p))) = p" for k p
    using Cons.prems(1)
    by (auto simp: process_single_gmail_def persist_and_publish_def split: sum.splits option.splits)
  have one: "bw_world (snd (backfill_one env n (process_single_gmail env n item) k v)) = bw_world v" for k v
    using single [of k "bw_world v"] by (auto simp: backfill_one_def split: prod.splits option.splits)
  obtain r x where g: "rate_gate env n (bj_user j) (bw_redis w) = (r, x)" by fastforce
  obtain j1 w1 where o: "backfill_one env n (process_single_gmail env n item) j (w\<lparr>bw_redis := r\<rparr>) = (j1, w1)" by fastforce
  have "bw_world w1 = bw_world w" using one [of j "w\<lparr>bw_redis := r\<rparr>"] o by simp
  then show ?case
    using Cons.prems Cons.IH [of "Suc n" j1 w1] g o by (cases x) auto
qed simp

text \<open>
  A Gmail backfill completes with nothing stored. The statement files a mail under the thread
  identifier of the provider, which PostgreSQL must read as a UUID; Gmail's are not. So when no thread
  identifier of the listing reads as a UUID, a job that ends without an error has stored and published
  nothing, and is marked complete with a progress of 100 all the same.
\<close>

lemma gmail_backfill_completes_empty:
  assumes "process_backfill_job env j w = Some ((j', w'), None)" and "bj_provider j = ''gmail''"
    and "\<forall>items. list_gmail env (gmail_query env j) 0 [] [] = Some (Inr items) \<longrightarrow> (\<forall>item \<in> set items. bf_uuid env (snd item) = None)"
  shows "bw_world w' = bw_world w \<and> bj_status j' = BfComplete \<and> bj_progress j' = 100"
proof -
  obtain items j0 w0 j1 w1 where run: "list_gmail env (gmail_query env j) 0 [] [] = Some (Inr items)"
    "after_listing env (length items) j w = (j0, w0)" "backfill_gmail_messages env 0 items j0 w0 = ((j1, w1), None)"
    "complete_job env ''gmail backfill'' ((j1, w1), None) = ((j', w'), None)"
    using gmail_job_run [OF assms(1,2)] .
  have "bw_world w1 = bw_world w"
    using gmail_messages_unreadable [OF _ run(3)] assms(3) run(1) after_listing_keeps(2) [OF run(2)] by simp
  with run(4) show ?thesis by (auto elim!: complete_jobE)
qed

section \<open>Retries end\<close>

text \<open>The attempts that the jobs of a queue have left: four for a new one.\<close>

definition attempts_of :: "backfill_job option \<Rightarrow> nat" where
  "attempts_of x = (case x of None \<Rightarrow> 1 | Some j \<Rightarrow> Suc (max_retries - bj_retries j))"

definition attempts_left :: "backfill_world \<Rightarrow> nat" where
  "attempts_left w = sum_list (map attempts_of (br_queue (bw_redis w)))"

lemma attempts_of_last: "q \<noteq> [] \<Longrightarrow> sum_list (map attempts_of q) = sum_list (map attempts_of (butlast q)) + attempts_of (last q)"
  by (induction q) auto

lemma mark_failed_queue: "mark_failed c j e r = (j', r', x) \<Longrightarrow> br_queue r' = br_queue r"
  by (auto simp: mark_failed_def Let_def split: if_splits)

lemma dequeue_some:
  assumes "br_queue r = q @ [Some j]" "\<not> rc_fails c"
  obtains r' j' where "dequeue_backfill c c' r = Some (r', Inr j')" "br_queue r' = q" "bj_retries j' = bj_retries j"
proof -
  obtain j' r' e where u: "update_job_status c' (j\<lparr>bj_status := BfRunning\<rparr>) (r\<lparr>br_queue := q\<rparr>) = (j', r', e)"
    by (metis prod.exhaust)
  moreover have "br_queue r' = q \<and> bj_retries j' = bj_retries j"
    using u by (auto simp: update_job_status_def Let_def split: if_splits)
  ultimately show ?thesis using that assms by (simp add: dequeue_backfill_def)
qed

lemma worker_turn_uses_attempt:
  assumes "worker_turn te w = TurnDone w'" "\<not> rc_fails (tn_pop te)"
  shows "attempts_left w' < attempts_left w"
proof -
  let ?q = "br_queue (bw_redis w)"
  have ne: "?q \<noteq> []" using assms by (auto simp: worker_turn_def dequeue_backfill_def split: if_splits)
  show ?thesis
  proof (cases "last ?q")
    case None
    then have "w' = w\<lparr>bw_redis := (bw_redis w)\<lparr>br_queue := butlast ?q\<rparr>\<rparr>"
      using assms ne by (simp add: worker_turn_def dequeue_backfill_def Let_def)
    then show ?thesis using attempts_of_last [OF ne] None by (simp add: attempts_left_def attempts_of_def)
  next
    case (Some j)
    have "?q = butlast ?q @ [Some j]" using ne Some by (metis append_butlast_last_id)
    then obtain r j1 where d: "dequeue_backfill (tn_pop te) (tn_status te) (bw_redis w) = Some (r, Inr j1)"
      and j1: "br_queue r = butlast ?q" "bj_retries j1 = bj_retries j"
      using assms(2) by (rule dequeue_some)
    obtain j2 w2 e where p: "process_backfill_job (tn_job te) j1 (w\<lparr>bw_redis := r\<rparr>) = Some ((j2, w2), e)"
      using assms(1) d by (auto simp: worker_turn_def split: option.splits)
    have k: "bj_retries j2 = bj_retries j" "br_queue (bw_redis w2) = butlast ?q"
      using process_backfill_job_keeps [OF p] j1 by (simp_all add: same_job_def)
    have "br_queue (bw_redis w') = butlast ?q \<or> (\<exists>j3. br_queue (bw_redis w') = Some j3 # butlast ?q \<and>
        bj_retries j3 = Suc (bj_retries j) \<and> bj_retries j < max_retries)"
      using assms(1) d p k
      by (auto simp: worker_turn_def requeue_for_retry_def Let_def split: option.splits prod.splits if_splits dest!: mark_failed_queue)
    then show ?thesis
      using attempts_of_last [OF ne] Some by (auto simp: attempts_left_def attempts_of_def)
  qed
qed

fun worker_run :: "turn_env list \<Rightarrow> backfill_world \<Rightarrow> backfill_world option" where
  "worker_run [] w = Some w"
| "worker_run (te # tes) w = (case worker_turn te w of TurnDone w' \<Rightarrow> worker_run tes w' | _ \<Rightarrow> None)"



section \<open>Loops that do not end\<close>

text \<open>
  Listing asks no rate limiter and sets no bound: it never returns while Gmail hands out page tokens, or
  while Graph answers every request with 429.
\<close>

lemma endless_listing_never_returns:
  assumes pages: "\<And>k token. \<exists>p. bf_list env k query token = Inr p \<and> ml_next p \<noteq> []" and live: "\<And>k. \<not> bf_page_cancelled env k"
  shows "list_gmail env query k token acc = None"
proof -
  have "\<not> (env' = env \<and> query' = query)" if ret: "list_gmail env' query' k token acc = Some r" for env' query' k token acc r
  proof (rule list_gmail.raw_induct [where P = "\<lambda>env' query' k token acc r. \<not> (env' = env \<and> query' = query)", OF _ ret], goal_cases)
    case (1 f env' query' k token acc r)
    obtain p where "bf_list env k query token = Inr p" "ml_next p \<noteq> []" using pages by blast
    then show ?case using "1"(2) live by (auto dest!: "1"(1))
  qed
  then show ?thesis by (metis not_None_eq)
qed

lemma limited_listing_never_returns:
  assumes limited: "\<And>k l. \<exists>p. bf_delta env k l = Inr p \<and> dq_limited p" and live: "\<And>k. \<not> bf_page_cancelled env k"
  shows "list_outlook env j k link acc = None"
proof -
  have "env' \<noteq> env" if ret: "list_outlook env' j k link acc = Some r" for env' j k link acc r
  proof (rule list_outlook.raw_induct [where P = "\<lambda>env' j k link acc r. env' \<noteq> env", OF _ ret], goal_cases)
    case (1 f env' j k link acc r)
    obtain p where "bf_delta env k link = Inr p" "dq_limited p" using limited by blast
    then show ?case using "1"(2) live by (auto dest!: "1"(1))
  qed
  then show ?thesis by (metis not_None_eq)
qed

section \<open>Worked inputs\<close>

definition ex_backfill_env :: "(string \<Rightarrow> uuid option) \<Rightarrow> backfill_env" where
  "ex_backfill_env rd =
     \<lparr>bf_now = 100, bf_token = Inr ''tok'',
      bf_list = (\<lambda>_ _ _. Inr \<lparr>ml_items = [(''a'', ''18c2''), (''b'', ''18c3'')], ml_next = [], ml_estimate = 2\<rparr>),
      bf_page_cancelled = (\<lambda>_. False),
      bf_get = (\<lambda>mid. if mid = ''a'' then Inr (Some \<lparr>gm_id = ''a'', gm_thread = ''18c2'', gm_raw = [], gm_snippet = []\<rparr>) else Inl ''gone''),
      bf_parse = (\<lambda>_ _ _. Inr (ex_ingested ''m1'')), bf_delta = (\<lambda>_ _. Inl ''unused''), bf_uuid = rd, bf_insert_fails = (\<lambda>_. False),
      bf_fresh = (\<lambda>n. (7 + n, 70 + n)), bf_publish_fails = (\<lambda>_. False), bf_cancelled = (\<lambda>_. False), bf_check = (\<lambda>_. redis_at 5),
      bf_wait_cancelled = (\<lambda>_. False), bf_recheck = (\<lambda>_. redis_at 6), bf_update = (\<lambda>_. redis_at 7), bf_listed = redis_at 4,
      bf_complete = redis_at 9\<rparr>"

definition ex_backfill_world :: backfill_world where
  "ex_backfill_world = \<lparr>bw_world = ex_new_world, bw_redis = ex_redis\<rparr>"

lemma ex_backfill_lists:
  "list_gmail (ex_backfill_env rd) q 0 [] [] = Some (Inr [(''a'', ''18c2''), (''b'', ''18c3'')])"
  by (simp add: list_gmail.simps ex_backfill_env_def)

lemma ex_raw_decodes: "decode_raw [] = Some []"
  by (simp add: decode_raw_def b64_decode_padded_def Let_def)

lemma backfill_one_counts: "br_counts (bw_redis (snd (backfill_one env n single j w))) = br_counts (bw_redis w)"
  by (auto simp: backfill_one_def count_processed_def Let_def split: prod.splits option.splits dest!: update_progress_keeps)

lemma ex_gate:
  assumes "br_counts r = Map.empty(count_key ''u'' := c)" "case c of None \<Rightarrow> v = 1 | Some (u, e) \<Rightarrow> v = u + 1 \<and> 0 < u \<and> u < 100 \<and> e = Some (5 + hour_ns)"
  shows "\<exists>r'. rate_gate (ex_backfill_env rd) n user r = (r', None) \<and> br_counts r' = [count_key ''u'' \<mapsto> (v, Some (5 + hour_ns))]"
  using assms
  by (auto simp: rate_gate_def can_process_email_def Let_def ex_backfill_env_def redis_at_def live_quota_def rate_limit_window_def
      rate_limit_max_emails_def split: option.splits)

lemma ex_backfill_runs:
  "\<exists>j w. process_backfill_job (ex_backfill_env rd) ex_backfill_job ex_backfill_world = Some ((j, w), None)"
proof -
  let ?env = "ex_backfill_env rd" and ?a = "(''a'', ''18c2'')" and ?b = "(''b'', ''18c3'')"
  obtain j0 w0 where l: "after_listing ?env (length [?a, ?b]) ex_backfill_job ex_backfill_world = (j0, w0)" by fastforce
  have c0: "br_counts (bw_redis w0) = Map.empty(count_key ''u'' := None)"
    using l by (auto simp: after_listing_def ex_backfill_world_def ex_redis_def split: prod.splits dest!: update_progress_keeps)
  obtain r1 where g0: "rate_gate ?env 0 (bj_user j0) (bw_redis w0) = (r1, None)"
    and c1: "br_counts r1 = [count_key ''u'' \<mapsto> (1, Some (5 + hour_ns))]"
    using ex_gate [OF c0, of 1 rd 0 "bj_user j0"] by auto
  obtain j1 w1 where o0: "backfill_one ?env 0 (process_single_gmail ?env 0 ?a) j0 (w0\<lparr>bw_redis := r1\<rparr>) = (j1, w1)" by fastforce
  have "br_counts (bw_redis w1) = br_counts r1"
    using backfill_one_counts [of ?env 0 "process_single_gmail ?env 0 ?a" j0 "w0\<lparr>bw_redis := r1\<rparr>"] o0 by simp
  with c1 obtain r2 where g1: "rate_gate ?env 1 (bj_user j1) (bw_redis w1) = (r2, None)"
    using ex_gate [of "bw_redis w1" "Some (1, Some (5 + hour_ns))" 2 rd 1 "bj_user j1"] by auto
  obtain j2 w2 where o1: "backfill_one ?env 1 (process_single_gmail ?env 1 ?b) j1 (w1\<lparr>bw_redis := r2\<rparr>) = (j2, w2)" by fastforce
  have "backfill_gmail_messages ?env 0 [?a, ?b] j0 w0 = ((set_progress j2, w2), None)"
    using g0 o0 g1 o1 by simp
  then have "process_gmail_backfill ?env ex_backfill_job ex_backfill_world = Some ((set_progress j2, w2), None)"
    using l by (simp del: backfill_gmail_messages.simps list.size add: process_gmail_backfill_def ex_backfill_lists)
  moreover have "bf_token ?env = Inr ''tok''" "bj_provider ex_backfill_job = ''gmail''"
    by (simp_all add: ex_backfill_env_def ex_backfill_job_def)
  ultimately show ?thesis
    by (cases "mark_complete (bf_complete ?env) (set_progress j2) (bw_redis w2)")
      (simp add: process_backfill_job_def complete_job_def)
qed

lemma ex_job_provider: "bj_provider ex_backfill_job = ''gmail''"
  by (simp add: ex_backfill_job_def)

lemma backfill_accounts_for_every_message_witness:
  "\<exists>j w. process_backfill_job (ex_backfill_env (\<lambda>_. Some 5)) ex_backfill_job ex_backfill_world = Some ((j, w), None) \<and>
     bj_found j = 2 \<and> bj_processed j + bj_failed j = 22 \<and> stored_rows (bw_world w) + bj_skipped j = bj_processed j - 17"
proof -
  obtain j w where run: "process_backfill_job (ex_backfill_env (\<lambda>_. Some 5)) ex_backfill_job ex_backfill_world = Some ((j, w), None)"
    using ex_backfill_runs by blast
  have "stored_rows (bw_world ex_backfill_world) = 0" "bj_processed ex_backfill_job = 20" "bj_failed ex_backfill_job = 0"
    "bj_skipped ex_backfill_job = 3"
    by (simp_all add: stored_rows_def ex_backfill_world_def ex_new_world_def ex_poll_world_def empty_mail_db_def
        ex_backfill_job_def new_job_def)
  with backfill_accounts_for_every_message [OF run ex_job_provider] run show ?thesis
    by (auto simp: ex_backfill_lists)
qed

lemma gmail_backfill_completes_empty_witness:
  "\<exists>j w. process_backfill_job (ex_backfill_env (\<lambda>_. None)) ex_backfill_job ex_backfill_world = Some ((j, w), None) \<and>
     md_raw (pw_mail (bw_world w)) = [] \<and> bj_status j = BfComplete \<and> bj_progress j = 100"
proof -
  obtain j w where run: "process_backfill_job (ex_backfill_env (\<lambda>_. None)) ex_backfill_job ex_backfill_world = Some ((j, w), None)"
    using ex_backfill_runs by blast
  have "\<forall>items. list_gmail (ex_backfill_env (\<lambda>_. None)) (gmail_query (ex_backfill_env (\<lambda>_. None)) ex_backfill_job) 0 [] [] = Some (Inr items) \<longrightarrow>
      (\<forall>item \<in> set items. bf_uuid (ex_backfill_env (\<lambda>_. None)) (snd item) = None)"
    by (simp add: ex_backfill_lists) (simp add: ex_backfill_env_def)
  with gmail_backfill_completes_empty [OF run ex_job_provider] run show ?thesis
    by (intro exI conjI) (auto simp: ex_backfill_world_def ex_new_world_def ex_poll_world_def empty_mail_db_def)
qed

text \<open>A job whose token cannot be refreshed, tried twice.\<close>

definition ex_turn :: turn_env where
  "ex_turn = \<lparr>tn_pop = redis_at 1, tn_status = redis_at 2, tn_job = (ex_backfill_env (\<lambda>_. None))\<lparr>bf_token := Inl ''revoked''\<rparr>,
     tn_requeue = redis_at 3, tn_failed = redis_at 4\<rparr>"

lemma ex_turn_requeues:
  assumes "br_queue (bw_redis w) = [Some j]" "bj_retries j < 3"
  shows "\<exists>w' j'. worker_turn ex_turn w = TurnDone w' \<and> br_queue (bw_redis w') = [Some j'] \<and> bj_retries j' = Suc (bj_retries j)"
  using assms
  by (simp add: worker_turn_def dequeue_backfill_def update_job_status_def process_backfill_job_def requeue_for_retry_def Let_def
      ex_turn_def redis_at_def max_retries_def)


end
