(* ===== verification/Token_Crypto.thy ===== *)
theory Token_Crypto
  imports Poll_Gmail "HOL-Library.AList"
begin

text \<open>
  The encryption of OAuth tokens (\<open>src/ingestion/internal/crypto/token.go\<close>, \<open>kms.go\<close>). Data encryption
  keys are byte slices that are shared: the cache holds a reference to the slice that the caller wipes when
  it returns. So the keys live in an explicit store, and the cache maps identifiers to addresses. KMS,
  AES-GCM, the random source and the JSON text of a key reference are parameters.
\<close>

section \<open>Padded base 64\<close>

definition b64_std_char :: "nat \<Rightarrow> char" where
  "b64_std_char n = (if n = 62 then CHR ''+'' else if n = 63 then CHR ''/'' else b64_char n)"

definition b64_encode_padded :: "(nat \<Rightarrow> char) \<Rightarrow> bytes \<Rightarrow> string" where
  "b64_encode_padded ch bs =
     map ch (b64_split (map unat bs)) @ replicate ((3 - length bs mod 3) mod 3) (CHR ''='')"

definition b64_std_encode :: "bytes \<Rightarrow> string" where "b64_std_encode = b64_encode_padded b64_std_char"
definition b64_std_decode :: "string \<Rightarrow> bytes option" where "b64_std_decode = b64_decode_padded b64_std_value"

definition text_of_bytes :: "bytes \<Rightarrow> string" where "text_of_bytes bs = map (\<lambda>b. char_of (unat b)) bs"

lemma mod3_Suc3 [simp]: "Suc (Suc (Suc n)) mod 3 = n mod 3"
  by presburger

lemma length_b64_padded: "(length (b64_split ns) + (3 - length ns mod 3) mod 3) mod 4 = 0"
proof (induction ns rule: b64_split.induct)
  case (4 a b c r)
  have l: "length (b64_split (a # b # c # r)) = length (b64_split r) + 4" by simp
  have m: "length (a # b # c # r) mod 3 = length r mod 3" by (simp only: length_Cons mod3_Suc3)
  have shift: "(x + 4 + k) mod 4 = (x + k) mod 4" for x k :: nat by presburger
  show ?case unfolding l m shift by (rule 4)
qed simp_all

lemma b64_std_value_char: assumes "n < 64" shows "b64_std_value (b64_std_char n) = Some n"
proof (cases "n < 62")
  case True
  have "b64_char n \<noteq> c" if "b64_value c \<noteq> Some n" for c
    using b64_value_char [OF assms] that by (auto simp del: b64_value_char)
  moreover have "b64_value (CHR ''+'') \<noteq> Some n" "b64_value (CHR ''/'') \<noteq> Some n" "b64_value (CHR ''-'') \<noteq> Some n"
    "b64_value (CHR ''_'') \<noteq> Some n" using True by (simp_all add: b64_value_def Let_def)
  ultimately show ?thesis using True assms by (simp add: b64_std_value_def b64_std_char_def)
next
  case False
  then have "n = 62 \<or> n = 63" using assms by linarith
  then show ?thesis by (auto simp: b64_std_value_def b64_std_char_def)
qed

lemma b64_std_char_not:
  assumes "n < 64"
  shows "b64_std_char n \<noteq> CHR 0x0A" "b64_std_char n \<noteq> CHR 0x0D" "b64_std_char n \<noteq> CHR ''=''"
proof -
  have r: "b64_std_char n \<noteq> c" if "b64_std_value c = None" for c using b64_std_value_char [OF assms] that by auto
  show "b64_std_char n \<noteq> CHR 0x0A" "b64_std_char n \<noteq> CHR 0x0D" "b64_std_char n \<noteq> CHR ''=''"
    by (rule r, simp add: b64_std_value_def b64_value_def Let_def)+
qed

lemma takeWhile_pad:
  assumes "\<forall>c \<in> set xs. c \<noteq> p"
  shows "takeWhile (\<lambda>c. c \<noteq> p) (xs @ replicate k p) = xs" "dropWhile (\<lambda>c. c \<noteq> p) (xs @ replicate k p) = replicate k p"
  using assms by (induction xs) (cases k; simp)+

lemma b64_std_decode_encode [simp]: "b64_std_decode (b64_std_encode bs) = Some bs"
proof -
  let ?vs = "b64_split (map unat bs)" and ?pad = "replicate ((3 - length bs mod 3) mod 3) (CHR ''='')"
  have less: "\<forall>b \<in> set (map unat bs). b < 256" by (simp add: unat_byte_less)
  have small: "v < 64" if "v \<in> set ?vs" for v by (rule b64_split_less [OF less that])
  have clean: "filter (\<lambda>c. c \<noteq> CHR 0x0A \<and> c \<noteq> CHR 0x0D) (b64_std_encode bs) = b64_std_encode bs"
    by (rule filter_True) (auto simp: b64_std_encode_def b64_encode_padded_def b64_std_char_not dest: small)
  have noeq: "\<forall>c \<in> set (map b64_std_char ?vs). c \<noteq> CHR ''=''" using small b64_std_char_not(3) by auto
  note body = takeWhile_pad [OF noeq]
  have "length bs mod 3 = 0 \<or> length bs mod 3 = 1 \<or> length bs mod 3 = 2" by linarith
  then have pad: "?pad \<in> {[], ''='', ''==''}" by (auto simp: numeral_2_eq_2)
  have len: "length (b64_std_encode bs) mod 4 = 0"
    using length_b64_padded [of "map unat bs"] by (simp add: b64_std_encode_def b64_encode_padded_def)
  have "those (map (b64_std_value \<circ> b64_std_char) ?vs) = Some (map id ?vs)"
    by (rule those_map_Some) (simp add: small b64_std_value_char)
  then have "those (map b64_std_value (map b64_std_char ?vs)) = Some ?vs" by simp
  moreover have tw: "takeWhile (\<lambda>c. c \<noteq> CHR ''='') (b64_std_encode bs) = map b64_std_char ?vs"
    and dw: "dropWhile (\<lambda>c. c \<noteq> CHR ''='') (b64_std_encode bs) = ?pad"
    using body by (simp_all add: b64_std_encode_def b64_encode_padded_def)
  ultimately show ?thesis
    unfolding b64_std_decode_def b64_decode_padded_def Let_def clean tw dw
    using pad len by (simp add: b64_join_split [OF less] o_def)
qed

lemma text_of_bytes_of [simp]: "text_of_bytes (bytes_of s) = s"
proof (induction s)
  case (Cons c s)
  have "(of_char c :: 8 word) = of_nat (of_char c)" by (rule of_nat_of_char [symmetric])
  then have "unat (of_char c :: 8 word) = of_char c mod 2 ^ 8" by (simp only: unat_of_nat) simp
  then have "unat (of_char c :: 8 word) = (of_char c :: nat)" by simp
  then show ?case using Cons by (simp add: text_of_bytes_def bytes_of_def)
qed (simp add: text_of_bytes_def bytes_of_def)


section \<open>The state\<close>

text \<open>
  A byte slice is an address of the store; two references to one slice are one address. A \<open>cachedDEK\<close>
  is the slice and its expiry, and the cache is an association list with one entry a key.
\<close>

type_synonym slice = nat

record cached_dek =
  cd_dek :: slice
  cd_expires_at :: instant

record token_crypto =
  cy_store :: "bytes list"
  cy_cache :: "(string \<times> cached_dek) list"
  cy_closed :: bool

definition new_token_crypto :: token_crypto where
  "new_token_crypto = \<lparr>cy_store = [], cy_cache = [], cy_closed = False\<rparr>"

definition dek_cache_ttl :: duration where "dek_cache_ttl = 5 * minute_ns"
definition nonce_size :: nat where "nonce_size = 12"
definition dek_size :: nat where "dek_size = 32"

definition zero_bytes :: "nat \<Rightarrow> bytes" where "zero_bytes n = replicate n 0"
definition zero_dek :: bytes where "zero_dek = zero_bytes dek_size"

definition slice_at :: "slice \<Rightarrow> token_crypto \<Rightarrow> bytes" where "slice_at a tc = cy_store tc ! a"

definition make_slice :: "bytes \<Rightarrow> token_crypto \<Rightarrow> token_crypto \<times> slice" where
  "make_slice b tc = (tc\<lparr>cy_store := cy_store tc @ [b]\<rparr>, length (cy_store tc))"

definition memzero :: "slice \<Rightarrow> token_crypto \<Rightarrow> token_crypto" where
  "memzero a tc = tc\<lparr>cy_store := (cy_store tc)[a := zero_bytes (length (slice_at a tc))]\<rparr>"

definition put_dek :: "string \<Rightarrow> slice \<Rightarrow> instant \<Rightarrow> token_crypto \<Rightarrow> token_crypto" where
  "put_dek k a now tc =
     tc\<lparr>cy_cache := AList.update k \<lparr>cd_dek = a, cd_expires_at = now + dek_cache_ttl\<rparr> (cy_cache tc)\<rparr>"

definition live_dek :: "instant \<Rightarrow> string \<Rightarrow> token_crypto \<Rightarrow> slice option" where
  "live_dek now k tc =
     (case map_of (cy_cache tc) k of
        Some c \<Rightarrow> if now < cd_expires_at c then Some (cd_dek c) else None
      | None \<Rightarrow> None)"

section \<open>The libraries and one call\<close>

record encrypted_token =
  et_ciphertext :: bytes
  et_nonce :: bytes
  et_key_id :: string

record key_reference =
  kr_kms_key_id :: string
  kr_encrypted_dek :: string
  kr_created_at :: int

text \<open>
  AES-GCM and the JSON text of a key reference. Of AES-GCM the code relies on opening what was sealed
  with the same key and nonce.
\<close>

record crypto_lib =
  cl_seal :: "bytes \<Rightarrow> bytes \<Rightarrow> bytes \<Rightarrow> bytes"
  cl_open :: "bytes \<Rightarrow> bytes \<Rightarrow> bytes \<Rightarrow> string + bytes"
  cl_marshal :: "key_reference \<Rightarrow> bytes"
  cl_unmarshal :: "bytes \<Rightarrow> key_reference option"

text \<open>
  What one call meets: the clock, the random source for the key and the nonce, and the answers of KMS to
  the first and second encryption and to the decryption.
\<close>

record crypto_env =
  cye_now :: instant
  cye_random_dek :: "string + bytes"
  cye_random_nonce :: "string + bytes"
  cye_kms_encrypt :: "bytes \<Rightarrow> string + bytes"
  cye_kms_reencrypt :: "bytes \<Rightarrow> string + bytes"
  cye_kms_decrypt :: "bytes \<Rightarrow> string + bytes"

definition generate_dek :: "crypto_env \<Rightarrow> token_crypto \<Rightarrow> token_crypto \<times> (string + slice)" where
  "generate_dek env tc =
     (case cye_random_dek env of
        Inl e \<Rightarrow> (tc, Inl (''failed to generate DEK: '' @ e))
      | Inr r \<Rightarrow> (let (tc1, a) = make_slice r tc in (tc1, Inr a)))"

definition encrypt_dek :: "(bytes \<Rightarrow> string + bytes) \<Rightarrow> bytes \<Rightarrow> string + bytes" where
  "encrypt_dek kms dek =
     (if length dek \<noteq> dek_size
      then Inl (''invalid DEK size: expected 32 bytes, got '' @ nat_decimal (length dek))
      else (case kms dek of Inl e \<Rightarrow> Inl (''KMS EncryptDEK failed: '' @ e) | Inr b \<Rightarrow> Inr b))"

definition decrypt_dek :: "(bytes \<Rightarrow> string + bytes) \<Rightarrow> bytes \<Rightarrow> string + bytes" where
  "decrypt_dek kms enc =
     (if enc = [] then Inl ''encrypted DEK is empty''
      else (case kms enc of
              Inl e \<Rightarrow> Inl (''KMS DecryptDEK failed: '' @ e)
            | Inr p \<Rightarrow>
                if length p \<noteq> dek_size
                then Inl (''decrypted DEK has unexpected size: expected 32 bytes, got '' @ nat_decimal (length p))
                else Inr p))"

section \<open>Key references\<close>

definition key_reference_of :: "crypto_env \<Rightarrow> string \<Rightarrow> bytes \<Rightarrow> key_reference" where
  "key_reference_of env keyid enc =
     \<lparr>kr_kms_key_id = keyid, kr_encrypted_dek = b64_std_encode enc, kr_created_at = cye_now env div second_ns\<rparr>"

definition build_rotated_key_id :: "crypto_lib \<Rightarrow> crypto_env \<Rightarrow> string \<Rightarrow> bytes \<Rightarrow> string" where
  "build_rotated_key_id lib env keyid enc = b64_std_encode (cl_marshal lib (key_reference_of env keyid enc))"

definition encode_key_reference :: "crypto_lib \<Rightarrow> crypto_env \<Rightarrow> string \<Rightarrow> bytes \<Rightarrow> string + string" where
  "encode_key_reference lib env keyid dek =
     (case encrypt_dek (cye_kms_reencrypt env) dek of
        Inl e \<Rightarrow> Inl e
      | Inr enc \<Rightarrow> Inr (b64_std_encode (cl_marshal lib (key_reference_of env keyid enc))))"

text \<open>What is no reference is taken for the name of a KMS key, without an encrypted key.\<close>

definition parse_key_reference :: "crypto_lib \<Rightarrow> string \<Rightarrow> string + bytes \<times> string" where
  "parse_key_reference lib keyid =
     (case b64_std_decode keyid of
        None \<Rightarrow> Inr ([], keyid)
      | Some data \<Rightarrow>
          (case cl_unmarshal lib data of
             None \<Rightarrow> Inr ([], keyid)
           | Some ref \<Rightarrow>
               (case b64_std_decode (kr_encrypted_dek ref) of
                  None \<Rightarrow> Inl ''failed to decode encrypted DEK''
                | Some enc \<Rightarrow> Inr (enc, kr_kms_key_id ref))))"

section \<open>The operations\<close>

definition get_or_create_dek ::
  "crypto_lib \<Rightarrow> crypto_env \<Rightarrow> string \<Rightarrow> token_crypto \<Rightarrow> token_crypto \<times> (string + slice)" where
  "get_or_create_dek lib env keyid tc =
     (case live_dek (cye_now env) keyid tc of
        Some a \<Rightarrow> (let (tc1, dek) = make_slice (slice_at a tc) tc in (tc1, Inr dek))
      | None \<Rightarrow>
          (case generate_dek env tc of
             (tc1, Inl e) \<Rightarrow> (tc1, Inl e)
           | (tc1, Inr dek) \<Rightarrow>
               (case encrypt_dek (cye_kms_encrypt env) (slice_at dek tc1) of
                  Inl e \<Rightarrow> (tc1, Inl (''failed to encrypt DEK: '' @ e))
                | Inr enc \<Rightarrow> (put_dek (build_rotated_key_id lib env keyid enc) dek (cye_now env) tc1, Inr dek))))"

definition resolve_dek ::
  "crypto_lib \<Rightarrow> crypto_env \<Rightarrow> string \<Rightarrow> token_crypto \<Rightarrow> token_crypto \<times> (string + slice)" where
  "resolve_dek lib env keyid tc =
     (case live_dek (cye_now env) keyid tc of
        Some a \<Rightarrow> (let (tc1, dek) = make_slice (slice_at a tc) tc in (tc1, Inr dek))
      | None \<Rightarrow>
          (case parse_key_reference lib keyid of
             Inl e \<Rightarrow> (tc, Inl (''failed to parse key reference: '' @ e))
           | Inr (enc, kms_key) \<Rightarrow>
               (case decrypt_dek (cye_kms_decrypt env) enc of
                  Inl e \<Rightarrow> (tc, Inl (''failed to decrypt DEK via KMS: '' @ e))
                | Inr p \<Rightarrow>
                    (let (tc1, dek) = make_slice p tc; tc2 = put_dek keyid dek (cye_now env) tc1;
                         tc3 = (if kms_key \<noteq> [] then put_dek kms_key dek (cye_now env) tc2 else tc2)
                     in (tc3, Inr dek)))))"

definition aes_new_cipher :: "bytes \<Rightarrow> string option" where
  "aes_new_cipher key =
     (if length key \<in> {16, 24, 32} then None else Some (''crypto/aes: invalid key size '' @ nat_decimal (length key)))"

text \<open>The body of \<open>EncryptToken\<close> once the key is at hand; the deferred wipe follows on every path.\<close>

definition seal_token ::
  "crypto_lib \<Rightarrow> crypto_env \<Rightarrow> string \<Rightarrow> string \<Rightarrow> bytes \<Rightarrow> string + encrypted_token" where
  "seal_token lib env plaintext keyid key =
     (case cye_random_nonce env of
        Inl e \<Rightarrow> Inl (''failed to generate nonce: '' @ e)
      | Inr nonce \<Rightarrow>
          (case aes_new_cipher key of
             Some e \<Rightarrow> Inl (''failed to create AES cipher: '' @ e)
           | None \<Rightarrow>
               (case encode_key_reference lib env keyid key of
                  Inl e \<Rightarrow> Inl (''failed to encode key reference: '' @ e)
                | Inr ref \<Rightarrow>
                    Inr \<lparr>et_ciphertext = cl_seal lib key nonce (bytes_of plaintext), et_nonce = nonce, et_key_id = ref\<rparr>)))"

definition encrypt_token ::
  "crypto_lib \<Rightarrow> crypto_env \<Rightarrow> string \<Rightarrow> string \<Rightarrow> token_crypto \<Rightarrow> token_crypto \<times> (string + encrypted_token)" where
  "encrypt_token lib env plaintext keyid tc =
     (if plaintext = [] then (tc, Inl ''plaintext token is empty'')
      else if keyid = [] then (tc, Inl ''keyID is required'')
      else (case get_or_create_dek lib env keyid tc of
              (tc1, Inl e) \<Rightarrow> (tc1, Inl (''failed to get or create DEK: '' @ e))
            | (tc1, Inr dek) \<Rightarrow> (memzero dek tc1, seal_token lib env plaintext keyid (slice_at dek tc1))))"

definition open_token :: "crypto_lib \<Rightarrow> encrypted_token \<Rightarrow> bytes \<Rightarrow> string + string" where
  "open_token lib enc key =
     (case aes_new_cipher key of
        Some e \<Rightarrow> Inl (''failed to create AES cipher: '' @ e)
      | None \<Rightarrow>
          (case cl_open lib key (et_nonce enc) (et_ciphertext enc) of
             Inl e \<Rightarrow> Inl (''decryption failed (possible tampering or wrong key): '' @ e)
           | Inr p \<Rightarrow> Inr (text_of_bytes p)))"

definition decrypt_token ::
  "crypto_lib \<Rightarrow> crypto_env \<Rightarrow> encrypted_token option \<Rightarrow> token_crypto \<Rightarrow> token_crypto \<times> (string + string)" where
  "decrypt_token lib env enc tc =
     (case enc of
        None \<Rightarrow> (tc, Inl ''encrypted token is nil'')
      | Some t \<Rightarrow>
          if et_ciphertext t = [] then (tc, Inl ''ciphertext is empty'')
          else if length (et_nonce t) \<noteq> nonce_size
          then (tc, Inl (''invalid nonce size: expected 12, got '' @ nat_decimal (length (et_nonce t))))
          else if et_key_id t = [] then (tc, Inl ''keyID is empty'')
          else (case resolve_dek lib env (et_key_id t) tc of
                  (tc1, Inl e) \<Rightarrow> (tc1, Inl (''failed to resolve DEK: '' @ e))
                | (tc1, Inr dek) \<Rightarrow> (memzero dek tc1, open_token lib t (slice_at dek tc1))))"

text \<open>The new reference is the key of the cache entry and is not returned.\<close>

definition rotate_dek :: "crypto_lib \<Rightarrow> crypto_env \<Rightarrow> string \<Rightarrow> token_crypto \<Rightarrow> token_crypto \<times> string option" where
  "rotate_dek lib env keyid tc =
     (if keyid = [] then (tc, Some ''keyID is required'')
      else (case generate_dek env tc of
              (tc1, Inl e) \<Rightarrow> (tc1, Some (''failed to generate new DEK: '' @ e))
            | (tc1, Inr dek) \<Rightarrow>
                (case encrypt_dek (cye_kms_encrypt env) (slice_at dek tc1) of
                   Inl e \<Rightarrow> (tc1, Some (''failed to encrypt new DEK: '' @ e))
                 | Inr enc \<Rightarrow>
                     (put_dek (build_rotated_key_id lib env keyid enc) dek (cye_now env)
                        (tc1\<lparr>cy_cache := AList.delete keyid (cy_cache tc1)\<rparr>), None))))"

definition evict_deks :: "(cached_dek \<Rightarrow> bool) \<Rightarrow> token_crypto \<Rightarrow> token_crypto" where
  "evict_deks gone tc =
     (let wiped = fold (\<lambda>(k, c). memzero (cd_dek c)) (filter (gone \<circ> snd) (cy_cache tc)) tc
      in wiped\<lparr>cy_cache := filter (\<lambda>e. \<not> gone (snd e)) (cy_cache tc)\<rparr>)"

definition cache_cleanup_tick :: "instant \<Rightarrow> token_crypto \<Rightarrow> token_crypto" where
  "cache_cleanup_tick now tc = (if cy_closed tc then tc else evict_deks (\<lambda>c. cd_expires_at c < now) tc)"

text \<open>Closing a closed channel panics.\<close>

definition close_token_crypto :: "token_crypto \<Rightarrow> token_crypto option" where
  "close_token_crypto tc =
     (if cy_closed tc then None else Some (evict_deks (\<lambda>_. True) (tc\<lparr>cy_closed := True\<rparr>)))"

section \<open>The cache is blank\<close>

text \<open>Every cached slice, apart from at most one, has been wiped.\<close>

definition blank_but :: "slice option \<Rightarrow> token_crypto \<Rightarrow> bool" where
  "blank_but a tc \<longleftrightarrow>
     (\<forall>c \<in> snd ` set (cy_cache tc). cd_dek c < length (cy_store tc) \<and>
        (if a = Some (cd_dek c) then length (slice_at (cd_dek c) tc) = dek_size else slice_at (cd_dek c) tc = zero_dek))"

abbreviation blank_cache :: "token_crypto \<Rightarrow> bool" where "blank_cache \<equiv> blank_but None"

lemma update_values: "snd ` set (AList.update k v xs) \<subseteq> insert v (snd ` set xs)"
  by (induction xs) auto

lemma slice_at_make [simp]:
  "a < length (cy_store tc) \<Longrightarrow> slice_at a (tc\<lparr>cy_store := cy_store tc @ [b]\<rparr>) = slice_at a tc"
  and slice_at_fresh [simp]: "slice_at (length (cy_store tc)) (tc\<lparr>cy_store := cy_store tc @ [b]\<rparr>) = b"
  by (simp_all add: slice_at_def nth_append)

lemma slice_at_put [simp]: "slice_at a (put_dek k b now tc) = slice_at a tc"
  and store_put [simp]: "cy_store (put_dek k b now tc) = cy_store tc"
  by (simp_all add: put_dek_def slice_at_def)

lemma cache_memzero [simp]: "cy_cache (memzero a tc) = cy_cache tc"
  and length_store_memzero [simp]: "length (cy_store (memzero a tc)) = length (cy_store tc)"
  by (simp_all add: memzero_def)

lemma slice_at_memzero:
  "slice_at b (memzero a tc) = (if a = b \<and> a < length (cy_store tc) then zero_bytes (length (slice_at a tc)) else slice_at b tc)"
  by (cases "a = b") (auto simp: memzero_def slice_at_def list_update_beyond)


lemma length_zero_dek [simp]: "length zero_dek = dek_size"
  by (simp add: zero_dek_def zero_bytes_def)

lemma blank_weaken: "blank_but None tc \<Longrightarrow> blank_but a tc"
  by (auto simp: blank_but_def)

lemma blank_alloc: "blank_but None tc \<Longrightarrow> blank_but None (tc\<lparr>cy_store := cy_store tc @ [b]\<rparr>)"
  by (auto simp: blank_but_def)

lemma blank_put:
  assumes "blank_but (Some a) tc" "a < length (cy_store tc)" "length (slice_at a tc) = dek_size"
  shows "blank_but (Some a) (put_dek k a now tc)"
proof -
  have "c \<in> insert \<lparr>cd_dek = a, cd_expires_at = now + dek_cache_ttl\<rparr> (snd ` set (cy_cache tc))"
    if "c \<in> snd ` set (cy_cache (put_dek k a now tc))" for c
    using that update_values [of k _ "cy_cache tc"] by (auto simp: put_dek_def)
  then show ?thesis using assms unfolding blank_but_def by fastforce
qed

lemma blank_memzero: "blank_but (Some a) tc \<Longrightarrow> blank_but None (memzero a tc)"
  by (auto simp: blank_but_def slice_at_memzero zero_dek_def split: if_splits)

lemma blank_memzero_any: "blank_but None tc \<Longrightarrow> blank_but None (memzero a tc)"
  by (rule blank_memzero [OF blank_weaken])

lemma encrypt_dek_length: "encrypt_dek kms dek = Inr enc \<Longrightarrow> length dek = dek_size"
  by (simp add: encrypt_dek_def split: if_splits)

lemma decrypt_dek_length: "decrypt_dek kms enc = Inr dek \<Longrightarrow> length dek = dek_size"
  by (auto simp: decrypt_dek_def split: if_splits sum.splits)

lemma get_or_create_blank:
  assumes "blank_but None tc" "get_or_create_dek lib env keyid tc = (tc', r)"
  shows "case r of Inl e \<Rightarrow> blank_but None tc' | Inr a \<Rightarrow> blank_but (Some a) tc'"
proof (cases "live_dek (cye_now env) keyid tc")
  case (Some b)
  then show ?thesis
    using assms by (auto simp: get_or_create_dek_def make_slice_def intro!: blank_weaken blank_alloc)
next
  case None
  show ?thesis
  proof (cases "cye_random_dek env")
    case (Inr d)
    show ?thesis
    proof (cases "encrypt_dek (cye_kms_encrypt env) d")
      case enc: (Inr enc)
      have "blank_but (Some (length (cy_store tc)))
          (put_dek (build_rotated_key_id lib env keyid enc) (length (cy_store tc)) (cye_now env) (tc\<lparr>cy_store := cy_store tc @ [d]\<rparr>))"
        by (rule blank_put) (simp_all add: blank_weaken blank_alloc assms encrypt_dek_length [OF enc])
      then show ?thesis using assms None Inr enc
        by (auto simp: get_or_create_dek_def generate_dek_def make_slice_def)
    qed (use assms None Inr in \<open>auto simp: get_or_create_dek_def generate_dek_def make_slice_def intro!: blank_alloc\<close>)
  qed (use assms None in \<open>auto simp: get_or_create_dek_def generate_dek_def\<close>)
qed

lemma resolve_blank:
  assumes "blank_but None tc" "resolve_dek lib env keyid tc = (tc', r)"
  shows "case r of Inl e \<Rightarrow> blank_but None tc' | Inr a \<Rightarrow> blank_but (Some a) tc'"
proof (cases "live_dek (cye_now env) keyid tc")
  case (Some b)
  then show ?thesis
    using assms by (auto simp: resolve_dek_def make_slice_def intro!: blank_weaken blank_alloc)
next
  case None
  show ?thesis
  proof (cases "parse_key_reference lib keyid")
    case (Inr p)
    obtain enc kms_key where p: "p = (enc, kms_key)" by (cases p)
    show ?thesis
    proof (cases "decrypt_dek (cye_kms_decrypt env) enc")
      case dec: (Inr d)
      let ?a = "length (cy_store tc)"
      have len: "length d = dek_size" by (rule decrypt_dek_length [OF dec])
      have one: "blank_but (Some ?a) (put_dek keyid ?a (cye_now env) (tc\<lparr>cy_store := cy_store tc @ [d]\<rparr>))"
        by (rule blank_put) (simp_all add: blank_weaken blank_alloc assms len)
      have "blank_but (Some ?a) (put_dek kms_key ?a (cye_now env) (put_dek keyid ?a (cye_now env) (tc\<lparr>cy_store := cy_store tc @ [d]\<rparr>)))"
        by (rule blank_put [OF one]) (simp_all add: len)
      then show ?thesis using assms one None Inr dec p
        by (auto simp: resolve_dek_def make_slice_def Let_def)
    qed (use assms None Inr p in \<open>auto simp: resolve_dek_def\<close>)
  qed (use assms None in \<open>auto simp: resolve_dek_def\<close>)
qed

lemma encrypt_token_blank:
  assumes "blank_but None tc"
  shows "blank_but None (fst (encrypt_token lib env plaintext keyid tc))"
proof (cases "plaintext = [] \<or> keyid = []")
  case False
  obtain tc1 r where g: "get_or_create_dek lib env keyid tc = (tc1, r)" by fastforce
  show ?thesis
    using get_or_create_blank [OF assms g] False g by (cases r) (auto simp: encrypt_token_def intro: blank_memzero)
qed (auto simp: encrypt_token_def assms)

lemma decrypt_token_checks:
  obtains e where "decrypt_token lib env t tc = (tc, Inl e)"
  | s where "t = Some s" "et_ciphertext s \<noteq> []" "length (et_nonce s) = nonce_size" "et_key_id s \<noteq> []"
      "decrypt_token lib env t tc =
         (case resolve_dek lib env (et_key_id s) tc of
            (tc1, Inl e) \<Rightarrow> (tc1, Inl (''failed to resolve DEK: '' @ e))
          | (tc1, Inr dek) \<Rightarrow> (memzero dek tc1, open_token lib s (slice_at dek tc1)))"
proof (cases t)
  case None
  then show ?thesis by (intro that(1)) (simp add: decrypt_token_def)
next
  case (Some s)
  show ?thesis
  proof (cases "et_ciphertext s \<noteq> [] \<and> length (et_nonce s) = nonce_size \<and> et_key_id s \<noteq> []")
    case True
    then have "decrypt_token lib env t tc =
        (case resolve_dek lib env (et_key_id s) tc of
           (tc1, Inl e) \<Rightarrow> (tc1, Inl (''failed to resolve DEK: '' @ e))
         | (tc1, Inr dek) \<Rightarrow> (memzero dek tc1, open_token lib s (slice_at dek tc1)))"
      unfolding decrypt_token_def Some by (simp only: option.case if_False simp_thms)
    then show ?thesis using that(2) [OF Some] True by blast
  next
    case False
    then have "\<exists>e. decrypt_token lib env t tc = (tc, Inl e)" using Some by (auto simp: decrypt_token_def)
    then show ?thesis using that(1) by blast
  qed
qed

lemma decrypt_token_blank:
  assumes "blank_but None tc"
  shows "blank_but None (fst (decrypt_token lib env t tc))"
proof (cases rule: decrypt_token_checks [of lib env t tc])
  case (2 s)
  obtain tc1 r where g: "resolve_dek lib env (et_key_id s) tc = (tc1, r)" by fastforce
  show ?thesis using resolve_blank [OF assms g] 2(5) g by (cases r) (auto intro: blank_memzero)
qed (simp add: assms)

lemma fold_memzero_blank:
  assumes "blank_but None tc"
  shows "blank_but None (fold (\<lambda>(k, c). memzero (cd_dek c)) es tc) \<and>
    cy_cache (fold (\<lambda>(k, c). memzero (cd_dek c)) es tc) = cy_cache tc"
  using assms by (induction es arbitrary: tc) (auto simp: blank_memzero_any)

lemma evict_blank: "blank_but None tc \<Longrightarrow> blank_but None (evict_deks gone tc)"
  using fold_memzero_blank [of tc "filter (gone \<circ> snd) (cy_cache tc)"]
  by (auto simp: evict_deks_def Let_def blank_but_def slice_at_def)

text \<open>One call after the other; \<open>RotateDEK\<close> is never called.\<close>

inductive crypto_step :: "crypto_lib \<Rightarrow> token_crypto \<Rightarrow> token_crypto \<Rightarrow> bool" for lib where
  step_encrypt: "crypto_step lib tc (fst (encrypt_token lib env plaintext keyid tc))"
| step_decrypt: "crypto_step lib tc (fst (decrypt_token lib env t tc))"
| step_cleanup: "crypto_step lib tc (cache_cleanup_tick now tc)"
| step_close: "close_token_crypto tc = Some tc' \<Longrightarrow> crypto_step lib tc tc'"

lemma crypto_step_blank: "crypto_step lib tc tc' \<Longrightarrow> blank_but None tc \<Longrightarrow> blank_but None tc'"
proof (induction rule: crypto_step.induct)
  case (step_close tc tc')
  then have "tc' = evict_deks (\<lambda>_. True) (tc\<lparr>cy_closed := True\<rparr>)" by (simp add: close_token_crypto_def split: if_splits)
  moreover have "blank_but None (tc\<lparr>cy_closed := True\<rparr>)" using step_close by (simp add: blank_but_def slice_at_def)
  ultimately show ?case by (simp add: evict_blank)
qed (simp_all add: encrypt_token_blank decrypt_token_blank cache_cleanup_tick_def evict_blank)

lemma crypto_steps_blank:
  assumes "(crypto_step lib)\<^sup>*\<^sup>* new_token_crypto tc"
  shows "blank_but None tc"
  using assms
proof induction
  case base
  show ?case by (simp add: blank_but_def new_token_crypto_def)
next
  case (step y z)
  from crypto_step_blank [OF step.hyps(2) step.IH] show ?case .
qed

section \<open>What the blank cache means\<close>

lemma live_dek_blank:
  assumes "blank_but None tc" "live_dek now k tc = Some a"
  shows "a < length (cy_store tc)" "slice_at a tc = zero_dek"
proof -
  obtain c where "map_of (cy_cache tc) k = Some c" "cd_dek c = a"
    using assms(2) by (auto simp: live_dek_def split: option.splits if_splits)
  then have "\<exists>c \<in> snd ` set (cy_cache tc). cd_dek c = a" by (force dest: map_of_SomeD)
  then show "a < length (cy_store tc)" "slice_at a tc = zero_dek" using assms(1) by (auto simp: blank_but_def)
qed

lemma live_dek_make [simp]: "live_dek now k (tc\<lparr>cy_store := s\<rparr>) = live_dek now k tc"
  and live_dek_memzero [simp]: "live_dek now k (memzero a tc) = live_dek now k tc"
  by (simp_all add: live_dek_def memzero_def)

lemma live_dek_put [simp]:
  "live_dek now k (put_dek k' a t tc) =
     (if k = k' then if now < t + dek_cache_ttl then Some a else None else live_dek now k tc)"
  by (simp add: live_dek_def put_dek_def update_conv')

lemma get_or_create_hit:
  assumes "blank_but None tc" "live_dek (cye_now env) keyid tc = Some a"
  shows "\<exists>tc1 dek. get_or_create_dek lib env keyid tc = (tc1, Inr dek) \<and> slice_at dek tc1 = zero_dek"
  using live_dek_blank [OF assms] assms(2) by (simp add: get_or_create_dek_def make_slice_def)

lemma resolve_hit:
  assumes "blank_but None tc" "live_dek (cye_now env) keyid tc = Some a"
  shows "\<exists>tc1 dek. resolve_dek lib env keyid tc = (tc1, Inr dek) \<and> slice_at dek tc1 = zero_dek"
  using live_dek_blank [OF assms] assms(2) by (simp add: resolve_dek_def make_slice_def)

text \<open>A token is sealed with the given key: the key that the first step of \<open>EncryptToken\<close> returned.\<close>

lemma seal_token_Inr:
  assumes "seal_token lib env p k key = Inr t"
  obtains nonce enc where "cye_random_nonce env = Inr nonce" "encrypt_dek (cye_kms_reencrypt env) key = Inr enc"
    "t = \<lparr>et_ciphertext = cl_seal lib key nonce (bytes_of p), et_nonce = nonce,
          et_key_id = build_rotated_key_id lib env k enc\<rparr>"
  using assms
  by (auto simp: seal_token_def encode_key_reference_def build_rotated_key_id_def split: sum.splits option.splits)

lemma encrypt_token_Inr:
  assumes "encrypt_token lib env p k tc = (tc', Inr t)"
  obtains tc1 dek where "p \<noteq> []" "k \<noteq> []" "get_or_create_dek lib env k tc = (tc1, Inr dek)" "tc' = memzero dek tc1"
    "seal_token lib env p k (slice_at dek tc1) = Inr t"
  using assms by (auto simp: encrypt_token_def split: if_splits prod.splits sum.splits)

lemma decrypt_token_Inr:
  assumes "decrypt_token lib env (Some t) tc = (tc', Inr p)"
  obtains tc1 dek where "resolve_dek lib env (et_key_id t) tc = (tc1, Inr dek)" "tc' = memzero dek tc1"
    "open_token lib t (slice_at dek tc1) = Inr p"
  using assms by (auto simp: decrypt_token_def split: if_splits prod.splits sum.splits)

lemma encrypt_token_hit:
  assumes "blank_but None tc" "live_dek (cye_now env) k tc = Some a" "encrypt_token lib env p k tc = (tc', Inr t)"
  shows "et_ciphertext t = cl_seal lib zero_dek (et_nonce t) (bytes_of p)"
proof -
  obtain tc1 dek where g: "get_or_create_dek lib env k tc = (tc1, Inr dek)"
    and s: "seal_token lib env p k (slice_at dek tc1) = Inr t"
    using encrypt_token_Inr [OF assms(3)] by metis
  obtain tc2 dek2 where "get_or_create_dek lib env k tc = (tc2, Inr dek2)" "slice_at dek2 tc2 = zero_dek"
    using get_or_create_hit [OF assms(1,2)] by blast
  then have "slice_at dek tc1 = zero_dek" using g by simp
  then show ?thesis using seal_token_Inr [OF s] by (metis encrypted_token.select_convs(1,2))
qed

lemma resolve_caches:
  assumes "resolve_dek lib env keyid tc = (tc1, Inr dek)" "live_dek (cye_now env) keyid tc = None"
  shows "\<exists>enc kms_key. parse_key_reference lib keyid = Inr (enc, kms_key) \<and>
    decrypt_dek (cye_kms_decrypt env) enc = Inr (slice_at dek tc1) \<and>
    (\<forall>now < cye_now env + dek_cache_ttl. live_dek now keyid tc1 = Some dek \<and> (kms_key \<noteq> [] \<longrightarrow> live_dek now kms_key tc1 = Some dek))"
  using assms by (auto simp: resolve_dek_def make_slice_def Let_def split: sum.splits)

text \<open>A call that decrypted leaves the blank key under the reference and under the name in it.\<close>

lemma decrypt_leaves_live:
  assumes "blank_but None tc" "decrypt_token lib env (Some t) tc = (tc', Inr p)"
    "live_dek (cye_now env) (et_key_id t) tc = None" "now < cye_now env + dek_cache_ttl"
  shows "blank_but None tc'" "\<exists>a. live_dek now (et_key_id t) tc' = Some a"
    "parse_key_reference lib (et_key_id t) = Inr (enc, k) \<Longrightarrow> k \<noteq> [] \<Longrightarrow> \<exists>a. live_dek now k tc' = Some a"
proof -
  show "blank_but None tc'" using decrypt_token_blank [OF assms(1), of lib env "Some t"] assms(2) by simp
  obtain tc1 dek where r: "resolve_dek lib env (et_key_id t) tc = (tc1, Inr dek)" "tc' = memzero dek tc1"
    using decrypt_token_Inr [OF assms(2)] by metis
  note c = resolve_caches [OF r(1) assms(3)]
  show "\<exists>a. live_dek now (et_key_id t) tc' = Some a" using c assms(4) r(2) by auto
  show "\<exists>a. live_dek now k tc' = Some a" if "parse_key_reference lib (et_key_id t) = Inr (enc, k)" "k \<noteq> []"
    using c assms(4) r(2) that by auto
qed

lemma blank_hit_fails:
  assumes "blank_but None tc" "live_dek (cye_now env) (et_key_id t) tc = Some a"
    and "cl_open lib (replicate 32 0) (et_nonce t) (et_ciphertext t) = Inl e"
    and "et_ciphertext t \<noteq> []" "length (et_nonce t) = nonce_size" "et_key_id t \<noteq> []"
  shows "snd (decrypt_token lib env (Some t) tc) = Inl (''decryption failed (possible tampering or wrong key): '' @ e)"
proof -
  obtain tc2 dek where "resolve_dek lib env (et_key_id t) tc = (tc2, Inr dek)" "slice_at dek tc2 = zero_dek"
    using resolve_hit [OF assms(1,2)] by blast
  moreover have "open_token lib t zero_dek = Inl (''decryption failed (possible tampering or wrong key): '' @ e)"
    using assms(3) by (simp add: open_token_def aes_new_cipher_def zero_dek_def zero_bytes_def dek_size_def)
  ultimately show ?thesis using assms(4-6) by (simp add: decrypt_token_def)
qed

lemma decrypted_is_whole:
  assumes "decrypt_token lib env (Some t) tc = (tc', Inr p)"
  shows "et_ciphertext t \<noteq> []" "length (et_nonce t) = nonce_size" "et_key_id t \<noteq> []"
  using assms by (auto simp: decrypt_token_def split: if_splits)

section \<open>Properties\<close>

definition aead_opens :: "crypto_lib \<Rightarrow> bool" where
  "aead_opens lib \<longleftrightarrow> (\<forall>k n m. cl_open lib k n (cl_seal lib k n m) = Inr m \<and> cl_seal lib k n m \<noteq> [])"

definition reference_codec :: "crypto_lib \<Rightarrow> bool" where
  "reference_codec lib \<longleftrightarrow> (\<forall>r. cl_unmarshal lib (cl_marshal lib r) = Some r \<and> cl_marshal lib r \<noteq> [])"

definition kms_unwraps :: "(bytes \<Rightarrow> string + bytes) \<Rightarrow> (bytes \<Rightarrow> string + bytes) \<Rightarrow> bool" where
  "kms_unwraps wrap unwrap \<longleftrightarrow> (\<forall>d b. wrap d = Inr b \<longrightarrow> b \<noteq> [] \<and> unwrap b = Inr d)"

lemma b64_std_encode_Nil [simp]: "b64_std_encode bs = [] \<longleftrightarrow> bs = []"
proof
  assume "b64_std_encode bs = []"
  moreover have "b64_std_encode [] = []" by (simp add: b64_std_encode_def b64_encode_padded_def)
  ultimately have "b64_std_decode (b64_std_encode bs) = b64_std_decode (b64_std_encode [])" by simp
  then show "bs = []" by simp
qed (simp add: b64_std_encode_def b64_encode_padded_def)

lemma parse_built_reference:
  assumes "reference_codec lib"
  shows "parse_key_reference lib (build_rotated_key_id lib env k enc) = Inr (enc, k)"
  using assms by (simp add: parse_key_reference_def build_rotated_key_id_def reference_codec_def key_reference_of_def)

lemma encrypted_decrypts:
  assumes "aead_opens lib" "reference_codec lib" "kms_unwraps (cye_kms_reencrypt env) (cye_kms_decrypt env2)"
    and "encrypt_token lib env p name tc = (tc1, Inr t)" "\<And>b. cye_random_nonce env = Inr b \<Longrightarrow> length b = 12"
    and "live_dek (cye_now env2) (et_key_id t) tc2 = None"
  shows "snd (decrypt_token lib env2 (Some t) tc2) = Inr p"
proof -
  obtain tc0 dek where k: "p \<noteq> []" "name \<noteq> []" "seal_token lib env p name (slice_at dek tc0) = Inr t"
    using encrypt_token_Inr [OF assms(4)] by metis
  let ?key = "slice_at dek tc0"
  obtain nonce enc where s: "cye_random_nonce env = Inr nonce" "encrypt_dek (cye_kms_reencrypt env) ?key = Inr enc"
    "t = \<lparr>et_ciphertext = cl_seal lib ?key nonce (bytes_of p), et_nonce = nonce,
          et_key_id = build_rotated_key_id lib env name enc\<rparr>"
    using seal_token_Inr [OF k(3)] by metis
  have len: "length ?key = dek_size" and wrap: "cye_kms_reencrypt env ?key = Inr enc"
    using s(2) by (auto simp: encrypt_dek_def split: if_splits sum.splits)
  have dec: "decrypt_dek (cye_kms_decrypt env2) enc = Inr ?key"
    using assms(3) wrap len unfolding kms_unwraps_def by (auto simp: decrypt_dek_def)
  have parse: "parse_key_reference lib (et_key_id t) = Inr (enc, name)"
    using parse_built_reference [OF assms(2)] s(3) by simp
  have fresh: "slice_at (length (cy_store tc2)) (put_dek a b c (put_dek d f g (tc2\<lparr>cy_store := cy_store tc2 @ [?key]\<rparr>))) = ?key"
    for a b c d f g by simp
  obtain tc3 dek3 where r: "resolve_dek lib env2 (et_key_id t) tc2 = (tc3, Inr dek3)" "slice_at dek3 tc3 = ?key"
    using assms(6) parse dec k(2) fresh by (simp add: resolve_dek_def make_slice_def Let_def)
  have "open_token lib t ?key = Inr p"
    using assms(1) s(3) len by (simp add: open_token_def aes_new_cipher_def dek_size_def aead_opens_def)
  moreover have "et_ciphertext t \<noteq> []" "et_key_id t \<noteq> []"
    using s(3) assms(1,2) by (auto simp: aead_opens_def reference_codec_def build_rotated_key_id_def)
  ultimately show ?thesis using r s(1,3) assms(5) by (simp add: decrypt_token_def nonce_size_def)
qed

text \<open>The reference of a token names the key that it was encrypted under.\<close>

lemma encrypted_names_key:
  assumes "reference_codec lib" "encrypt_token lib env p name tc = (tc', Inr t)"
  shows "\<exists>enc. parse_key_reference lib (et_key_id t) = Inr (enc, name)"
proof -
  obtain key where "seal_token lib env p name key = Inr t" using encrypt_token_Inr [OF assms(2)] by metis
  then obtain nonce enc where "t = \<lparr>et_ciphertext = cl_seal lib key nonce (bytes_of p), et_nonce = nonce,
      et_key_id = build_rotated_key_id lib env name enc\<rparr>" using seal_token_Inr by metis
  then show ?thesis using parse_built_reference [OF assms(1)] by auto
qed

text \<open>
  C19: In every state that the service reaches, each cached data encryption key is 32 zero bytes: the cache
  shares the slice with the call that wipes it.
\<close>

theorem cached_keys_are_wiped:
  assumes "(crypto_step lib)\<^sup>*\<^sup>* new_token_crypto tc" "(k, c) \<in> set (cy_cache tc)"
  shows "slice_at (cd_dek c) tc = replicate 32 0"
  using crypto_steps_blank [OF assms(1)] assms(2)
  by (force simp: blank_but_def zero_dek_def zero_bytes_def dek_size_def)

text \<open>
  After a token was decrypted whose reference names a key, a token that is encrypted under that name
  within the next five minutes is sealed with the AES key of 32 zero bytes.
\<close>

lemma reused_key_name_seals_with_zeros:
  assumes "(crypto_step lib)\<^sup>*\<^sup>* new_token_crypto tc"
    and "live_dek (cye_now env) (et_key_id old) tc = None"
    and "parse_key_reference lib (et_key_id old) = Inr (enc, name)" "name \<noteq> []"
    and "decrypt_token lib env (Some old) tc = (tc1, Inr p)"
    and "cye_now env2 < cye_now env + 5 * minute_ns"
    and "encrypt_token lib env2 secret name tc1 = (tc2, Inr new)"
  shows "et_ciphertext new = cl_seal lib (replicate 32 0) (et_nonce new) (bytes_of secret)"
proof -
  have t: "cye_now env2 < cye_now env + dek_cache_ttl" using assms(6) by (simp add: dek_cache_ttl_def)
  note l = decrypt_leaves_live [OF crypto_steps_blank [OF assms(1)] assms(5,2) t]
  obtain a where "live_dek (cye_now env2) name tc1 = Some a" using l(3) [OF assms(3,4)] by blast
  from encrypt_token_hit [OF l(1) this assms(7)] show ?thesis by (simp add: zero_dek_def zero_bytes_def dek_size_def)
qed

text \<open>
  A token that was decrypted from KMS cannot be decrypted again for five minutes: the second call finds
  the wiped key and fails, unless the token opens with the key of zeros.
\<close>

lemma second_decryption_fails:
  assumes "(crypto_step lib)\<^sup>*\<^sup>* new_token_crypto tc"
    and "live_dek (cye_now env) (et_key_id t) tc = None"
    and "decrypt_token lib env (Some t) tc = (tc1, Inr p)"
    and "cye_now env2 < cye_now env + 5 * minute_ns"
    and "cl_open lib (replicate 32 0) (et_nonce t) (et_ciphertext t) = Inl e"
  shows "snd (decrypt_token lib env2 (Some t) tc1) = Inl (''decryption failed (possible tampering or wrong key): '' @ e)"
proof -
  have now: "cye_now env2 < cye_now env + dek_cache_ttl" using assms(4) by (simp add: dek_cache_ttl_def)
  note l = decrypt_leaves_live [OF crypto_steps_blank [OF assms(1)] assms(3,2) now]
  obtain a where a: "live_dek (cye_now env2) (et_key_id t) tc1 = Some a" using l(2) by blast
  from blank_hit_fails [OF l(1) a assms(5) decrypted_is_whole [OF assms(3)]] show ?thesis .
qed

text \<open>
  What \<open>EncryptToken\<close> returned, whatever key was used, decrypts to the plaintext in every state that
  holds no unexpired key under the reference of the token, when KMS unwraps what it wrapped.
\<close>

lemma encrypted_token_decrypts:
  assumes "aead_opens lib" "reference_codec lib" "kms_unwraps (cye_kms_reencrypt env) (cye_kms_decrypt env2)"
    and "encrypt_token lib env p name tc = (tc1, Inr t)" "\<And>b. cye_random_nonce env = Inr b \<Longrightarrow> length b = 12"
    and "live_dek (cye_now env2) (et_key_id t) tc2 = None"
  shows "snd (decrypt_token lib env2 (Some t) tc2) = Inr p"
  by (rule encrypted_decrypts [OF assms(1-4) _ assms(6)]) (rule assms(5))

section \<open>An instance\<close>

definition put_nat :: "nat \<Rightarrow> bytes" where "put_nat n = replicate n 1 @ [0]"
definition put_str :: "string \<Rightarrow> bytes" where "put_str s = put_nat (length s) @ bytes_of s"

definition get_nat :: "bytes \<Rightarrow> nat \<times> bytes" where
  "get_nat b = (length (takeWhile ((=) 1) b), drop 1 (dropWhile ((=) 1) b))"

definition get_str :: "bytes \<Rightarrow> string \<times> bytes" where
  "get_str b = (let (n, r) = get_nat b in (text_of_bytes (take n r), drop n r))"

lemma get_put_nat [simp]: "get_nat (put_nat n @ r) = (n, r)"
  by (induction n) (simp_all add: get_nat_def put_nat_def)

lemma get_put_str [simp]: "get_str (put_str s @ r) = (s, r)"
  using text_of_bytes_of [of s] by (simp add: get_str_def put_str_def bytes_of_def)

definition sample_crypto :: crypto_lib where
  "sample_crypto =
     \<lparr>cl_seal = (\<lambda>k n m. k @ n @ m @ [0]),
      cl_open = (\<lambda>k n c.
        if take (length k + length n) c = k @ n then Inr (butlast (drop (length k + length n) c))
        else Inl ''cipher: message authentication failed''),
      cl_marshal = (\<lambda>r. put_str (kr_kms_key_id r) @ put_str (kr_encrypted_dek r) @
        put_nat (nat (kr_created_at r)) @ put_nat (nat (- kr_created_at r))),
      cl_unmarshal = (\<lambda>b.
        let (k, r1) = get_str b; (d, r2) = get_str r1; (p, r3) = get_nat r2; (m, r4) = get_nat r3
        in if b = [] then None
           else Some \<lparr>kr_kms_key_id = k, kr_encrypted_dek = d, kr_created_at = int p - int m\<rparr>)\<rparr>"

lemma sample_crypto_laws: "aead_opens sample_crypto" "reference_codec sample_crypto"
proof -
  show "aead_opens sample_crypto" by (simp add: aead_opens_def sample_crypto_def)
  have "get_nat (put_nat n) = (n, [])" for n using get_put_nat [of n "[]"] by simp
  moreover have "put_str s @ r \<noteq> []" for s r by (simp add: put_str_def put_nat_def)
  ultimately show "reference_codec sample_crypto" by (simp add: reference_codec_def sample_crypto_def Let_def)
qed

definition sample_crypto_env :: "instant \<Rightarrow> 8 word \<Rightarrow> crypto_env" where
  "sample_crypto_env now b =
     \<lparr>cye_now = now, cye_random_dek = Inr (replicate 32 b), cye_random_nonce = Inr (replicate 12 b),
      cye_kms_encrypt = (\<lambda>d. Inr (1 # d)), cye_kms_reencrypt = (\<lambda>d. Inr (2 # d)),
      cye_kms_decrypt = (\<lambda>c. case c of [] \<Rightarrow> Inl ''invalid ciphertext'' | _ # d \<Rightarrow> Inr d)\<rparr>"

lemma sample_kms_unwraps: "kms_unwraps (cye_kms_reencrypt (sample_crypto_env a b)) (cye_kms_decrypt (sample_crypto_env c d))"
  by (auto simp: kms_unwraps_def sample_crypto_env_def)

abbreviation ex_reference :: "string \<Rightarrow> 8 word \<Rightarrow> string" where
  "ex_reference name b \<equiv> build_rotated_key_id sample_crypto (sample_crypto_env 0 7) name (b # replicate 32 7)"

definition ex_token_of :: "string \<Rightarrow> 8 word \<Rightarrow> encrypted_token" where
  "ex_token_of name b =
     \<lparr>et_ciphertext = cl_seal sample_crypto (replicate 32 7) (replicate 12 7) (bytes_of ''tok''),
      et_nonce = replicate 12 7, et_key_id = ex_reference name b\<rparr>"

abbreviation ex_token :: encrypted_token where "ex_token \<equiv> ex_token_of ''k'' 2"

definition ex_crypto_of :: "string \<Rightarrow> token_crypto" where
  "ex_crypto_of name = \<lparr>cy_store = [zero_dek], cy_cache = [(ex_reference name 1, \<lparr>cd_dek = 0, cd_expires_at = dek_cache_ttl\<rparr>)], cy_closed = False\<rparr>"

abbreviation ex_crypto :: token_crypto where "ex_crypto \<equiv> ex_crypto_of ''k''"

lemma ex_references_parse: "parse_key_reference sample_crypto (ex_reference name b) = Inr (b # replicate 32 7, name)"
  by (rule parse_built_reference [OF sample_crypto_laws(2)])

lemma ex_references_differ [simp]: "ex_reference name b = ex_reference name c \<longleftrightarrow> b = c"
proof
  assume "ex_reference name b = ex_reference name c"
  then have "parse_key_reference sample_crypto (ex_reference name b) = parse_key_reference sample_crypto (ex_reference name c)"
    by (rule arg_cong)
  then show "b = c" unfolding ex_references_parse by simp
qed simp

lemma ex_reference_not_Nil [simp]: "ex_reference name b \<noteq> []"
  using ex_references_parse [of name b]
  by (auto simp: parse_key_reference_def b64_std_decode_def b64_decode_padded_def sample_crypto_def)

lemma ex_encrypted:
  "name \<noteq> [] \<Longrightarrow> encrypt_token sample_crypto (sample_crypto_env 0 7) ''tok'' name new_token_crypto =
    (ex_crypto_of name, Inr (ex_token_of name 2))"
  by (simp add: encrypt_token_def get_or_create_dek_def new_token_crypto_def live_dek_def generate_dek_def
      make_slice_def slice_at_def encrypt_dek_def dek_size_def put_dek_def memzero_def zero_dek_def zero_bytes_def
      seal_token_def encode_key_reference_def aes_new_cipher_def ex_crypto_of_def ex_token_of_def sample_crypto_env_def
      build_rotated_key_id_def key_reference_of_def)

lemma ex_not_live: "b \<noteq> 1 \<Longrightarrow> live_dek now (et_key_id (ex_token_of name b)) (ex_crypto_of name) = None"
  by (simp add: live_dek_def ex_crypto_of_def ex_token_of_def)

text \<open>What decrypting such a token does to a cache that does not know its reference.\<close>

lemma sample_env_simps:
  "cye_now (sample_crypto_env n b) = n" "cye_kms_decrypt (sample_crypto_env n b) (c # d) = Inr d"
  by (simp_all add: sample_crypto_env_def)

lemma sample_opens: "cl_open sample_crypto k n (cl_seal sample_crypto k n m) = Inr m" "cl_seal sample_crypto k n m \<noteq> []"
  using sample_crypto_laws(1) by (simp_all add: aead_opens_def)

lemma ex_decrypts:
  assumes "live_dek n (ex_reference name b) tc = None"
  shows "decrypt_token sample_crypto (sample_crypto_env n c) (Some (ex_token_of name b)) tc =
    (let a = length (cy_store tc); tc1 = put_dek (ex_reference name b) a n (tc\<lparr>cy_store := cy_store tc @ [replicate 32 7]\<rparr>)
     in (memzero a (if name \<noteq> [] then put_dek name a n tc1 else tc1), Inr ''tok''))"
  using assms
  by (simp add: decrypt_token_def resolve_dek_def ex_token_of_def decrypt_dek_def make_slice_def Let_def open_token_def
      aes_new_cipher_def nonce_size_def dek_size_def sample_env_simps sample_opens ex_references_parse)

lemma ex_decrypted:
  "\<exists>tc. decrypt_token sample_crypto (sample_crypto_env 1 7) (Some ex_token) ex_crypto = (tc, Inr ''tok'')"
  using ex_decrypts [of 1 "''k''" 2 ex_crypto 7] ex_not_live [of 2 1 "''k''"] by (simp add: Let_def ex_token_of_def)

lemma ex_reachable: "name \<noteq> [] \<Longrightarrow> (crypto_step sample_crypto)\<^sup>*\<^sup>* new_token_crypto (ex_crypto_of name)"
  using step_encrypt [of sample_crypto new_token_crypto "sample_crypto_env 0 7" "''tok''" name]
  by (simp add: ex_encrypted r_into_rtranclp)

lemma ex_encrypts_live:
  assumes "blank_but None tc" "live_dek n k tc = Some a" "p \<noteq> []" "k \<noteq> []"
  shows "\<exists>tc' x. encrypt_token sample_crypto (sample_crypto_env n b) p k tc = (tc', Inr x)"
proof -
  have "live_dek (cye_now (sample_crypto_env n b)) k tc = Some a" using assms(2) by (simp add: sample_crypto_env_def)
  from get_or_create_hit [OF assms(1) this, of sample_crypto] obtain tc2 dek where
    "get_or_create_dek sample_crypto (sample_crypto_env n b) k tc = (tc2, Inr dek)" "slice_at dek tc2 = zero_dek" by blast
  then show ?thesis using assms(3,4)
    by (simp add: encrypt_token_def seal_token_def encode_key_reference_def encrypt_dek_def aes_new_cipher_def dek_size_def
        sample_crypto_env_def)
qed

lemma ex_encrypts:
  assumes "blank_but None tc" "p \<noteq> []" "k \<noteq> []"
  shows "\<exists>tc' x. encrypt_token sample_crypto (sample_crypto_env n b) p k tc = (tc', Inr x)"
proof (cases "live_dek n k tc")
  case None
  then show ?thesis using assms(2,3)
    by (simp add: encrypt_token_def get_or_create_dek_def generate_dek_def make_slice_def encrypt_dek_def dek_size_def
        seal_token_def encode_key_reference_def aes_new_cipher_def sample_crypto_env_def)
qed (rule ex_encrypts_live [OF assms(1) _ assms(2,3)])

lemma cached_keys_are_wiped_witness: "slice_at 0 ex_crypto = replicate 32 0"
  using cached_keys_are_wiped [OF ex_reachable, of "''k''" "ex_reference ''k'' 1" "\<lparr>cd_dek = 0, cd_expires_at = dek_cache_ttl\<rparr>"]
  by (simp add: ex_crypto_of_def)

lemma reused_key_name_seals_with_zeros_witness:
  "\<exists>tc1 p tc2 new. decrypt_token sample_crypto (sample_crypto_env 1 7) (Some ex_token) ex_crypto = (tc1, Inr p) \<and>
     encrypt_token sample_crypto (sample_crypto_env 2 5) ''other'' ''k'' tc1 = (tc2, Inr new) \<and>
     et_ciphertext new = cl_seal sample_crypto (replicate 32 0) (et_nonce new) (bytes_of ''other'')"
proof -
  have reach: "(crypto_step sample_crypto)\<^sup>*\<^sup>* new_token_crypto ex_crypto" by (rule ex_reachable) simp
  obtain tc1 where d: "decrypt_token sample_crypto (sample_crypto_env 1 7) (Some ex_token) ex_crypto = (tc1, Inr ''tok'')"
    using ex_decrypted by blast
  have now: "cye_now (sample_crypto_env n b) = n" for n b by (simp add: sample_crypto_env_def)
  have ref: "parse_key_reference sample_crypto (et_key_id ex_token) = Inr (2 # replicate 32 7, ''k'')"
    by (simp add: ex_token_of_def ex_references_parse)
  have live: "live_dek (cye_now (sample_crypto_env 1 7)) (et_key_id ex_token) ex_crypto = None"
    by (rule ex_not_live) simp
  have soon: "(2 :: int) < cye_now (sample_crypto_env 1 7) + dek_cache_ttl"
    by (simp add: now dek_cache_ttl_def)
  note l = decrypt_leaves_live [OF crypto_steps_blank [OF reach] d live soon]
  obtain a where "live_dek 2 ''k'' tc1 = Some a" using l(3) [OF ref] by auto
  then have "\<exists>tc' new. encrypt_token sample_crypto (sample_crypto_env 2 5) ''other'' ''k'' tc1 = (tc', Inr new)"
    by (rule ex_encrypts_live [OF l(1)]) simp_all
  then obtain tc' new where e: "encrypt_token sample_crypto (sample_crypto_env 2 5) ''other'' ''k'' tc1 = (tc', Inr new)" by blast
  have "(2 :: int) < 1 + 5 * minute_ns" by simp
  then show ?thesis using reused_key_name_seals_with_zeros [OF reach live ref _ d _ e] d e by (simp add: now)
qed

lemma second_decryption_fails_witness:
  "\<exists>tc1. decrypt_token sample_crypto (sample_crypto_env 1 7) (Some ex_token) ex_crypto = (tc1, Inr ''tok'') \<and>
     (\<exists>e. snd (decrypt_token sample_crypto (sample_crypto_env 2 7) (Some ex_token) tc1) = Inl e)"
proof -
  have reach: "(crypto_step sample_crypto)\<^sup>*\<^sup>* new_token_crypto ex_crypto" by (rule ex_reachable) simp
  obtain tc1 where d: "decrypt_token sample_crypto (sample_crypto_env 1 7) (Some ex_token) ex_crypto = (tc1, Inr ''tok'')"
    using ex_decrypted by blast
  have "cl_open sample_crypto (replicate 32 0) (et_nonce ex_token) (et_ciphertext ex_token) = Inl ''cipher: message authentication failed''"
    by (simp add: sample_crypto_def ex_token_of_def)
  moreover have "cye_now (sample_crypto_env 2 7) < cye_now (sample_crypto_env 1 7) + 5 * minute_ns"
    by (simp add: sample_crypto_env_def)
  ultimately show ?thesis using second_decryption_fails [OF reach ex_not_live d] d by (simp (no_asm_simp))
qed

lemma encrypted_token_decrypts_witness:
  "snd (decrypt_token sample_crypto (sample_crypto_env 1 7) (Some ex_token) ex_crypto) = Inr ''tok''"
  by (rule encrypted_token_decrypts [OF sample_crypto_laws sample_kms_unwraps ex_encrypted _ ex_not_live])
    (auto simp: sample_crypto_env_def)

end
