(* ===== verification/OAuth_Store.thy ===== *)
theory OAuth_Store
  imports Token_Crypto
begin

text \<open>
  The token store (\<open>src/ingestion/internal/oauth/storage.go\<close>): the token columns of
  \<open>email_accounts\<close>, and the refresh of an access token that is about to expire. The environment of
  a call gives what each of its encryptions and decryptions meets, by number, and the error text of each of
  its statements, if it fails. A stored token stands for its JSON text.
\<close>

section \<open>Tables and values\<close>

record token_pair =
  tp_refresh :: "encrypted_token option"
  tp_access :: "encrypted_token option"
  tp_plaintext :: "string option"
  tp_expires :: "instant option"
  tp_scopes :: "string list option"

text \<open>The content of a token column: empty, the JSON text of a token, or any other text.\<close>

datatype token_text = EmptyText | TokenJson encrypted_token | OtherText

record oauth_account =
  oac_id :: uuid
  oac_user :: uuid
  oac_provider :: string
  oac_email :: string
  oac_refresh :: token_text
  oac_access :: "token_text option"
  oac_expires :: "instant option"
  oac_scopes :: "string list"
  oac_active :: bool
  oac_deactivated :: "instant option"
  oac_created :: instant
  oac_updated :: instant

record token_world =
  tw_crypto :: token_crypto
  tw_accounts :: "oauth_account list"

record token_env =
  ote_crypto :: "nat \<Rightarrow> crypto_env"
  ote_db :: "nat \<Rightarrow> string option"
  ote_now :: instant
  ote_new_id :: uuid
  ote_show :: "uuid \<Rightarrow> string"

text \<open>An error with the text that wraps it; \<open>errors.As\<close> still finds a typed one.\<close>

datatype store_error = StorePlain string | StoreTyped ingestion_error | StoreWrap string store_error

primrec store_error_text :: "store_error \<Rightarrow> string" where
  "store_error_text (StorePlain s) = s"
| "store_error_text (StoreTyped e) = ig_message e"
| "store_error_text (StoreWrap s e) = s @ store_error_text e"

primrec typed_error :: "store_error \<Rightarrow> ingestion_error option" where
  "typed_error (StorePlain s) = None"
| "typed_error (StoreTyped e) = Some e"
| "typed_error (StoreWrap s e) = typed_error e"

definition store_failed :: "string \<Rightarrow> string \<Rightarrow> bool \<Rightarrow> store_error" where
  "store_failed code msg again = StoreTyped \<lparr>ig_code = code, ig_message = msg, ig_user = 0, ig_retry = again\<rparr>"

type_synonym 'a stored = "token_world \<times> (store_error + 'a)"

definition find_account :: "uuid \<Rightarrow> token_world \<Rightarrow> oauth_account option" where
  "find_account a w = List.find (\<lambda>r. oac_id r = a) (tw_accounts w)"

definition update_accounts :: "(oauth_account \<Rightarrow> bool) \<Rightarrow> (oauth_account \<Rightarrow> oauth_account) \<Rightarrow> token_world \<Rightarrow> token_world" where
  "update_accounts sel f w = w\<lparr>tw_accounts := map (\<lambda>r. if sel r then f r else r) (tw_accounts w)\<rparr>"

section \<open>Encrypting\<close>

definition is_encrypted :: "encrypted_token option \<Rightarrow> bool" where
  "is_encrypted t = (case t of None \<Rightarrow> False | Some e \<Rightarrow> length (et_nonce e) = nonce_size \<and> et_key_id e \<noteq> [])"

definition encrypt_and_marshal ::
  "crypto_lib \<Rightarrow> crypto_env \<Rightarrow> encrypted_token option \<Rightarrow> token_world \<Rightarrow> token_world \<times> (string + token_text option)" where
  "encrypt_and_marshal lib env t w =
     (case t of
        None \<Rightarrow> (w, Inr None)
      | Some e \<Rightarrow>
          if et_ciphertext e = [] then (w, Inr None)
          else if is_encrypted t then (w, Inr (Some (TokenJson e)))
          else (case encrypt_token lib env (text_of_bytes (et_ciphertext e)) (et_key_id e) (tw_crypto w) of
                  (tc, Inl err) \<Rightarrow> (w\<lparr>tw_crypto := tc\<rparr>, Inl err)
                | (tc, Inr enc) \<Rightarrow> (w\<lparr>tw_crypto := tc\<rparr>, Inr (Some (TokenJson enc)))))"

text \<open>Both tokens of a pair, in the given order of the encryptions; each failure names its token.\<close>

definition encrypt_refresh ::
  "crypto_lib \<Rightarrow> crypto_env \<Rightarrow> token_pair \<Rightarrow> token_world \<Rightarrow> token_text option stored" where
  "encrypt_refresh lib env p w =
     (case encrypt_and_marshal lib env (tp_refresh p) w of
        (w1, Inl e) \<Rightarrow> (w1, Inl (StorePlain (''encrypt refresh token: '' @ e)))
      | (w1, Inr t) \<Rightarrow> (w1, Inr t))"

definition encrypt_access ::
  "crypto_lib \<Rightarrow> crypto_env \<Rightarrow> token_pair \<Rightarrow> token_world \<Rightarrow> token_text option stored" where
  "encrypt_access lib env p w =
     (case encrypt_and_marshal lib env (tp_access p) w of
        (w1, Inl e) \<Rightarrow> (w1, Inl (StorePlain (''encrypt access token: '' @ e)))
      | (w1, Inr t) \<Rightarrow> (w1, Inr t))"

section \<open>Storing\<close>

definition put_pair :: "token_env \<Rightarrow> token_pair \<Rightarrow> token_text \<Rightarrow> token_text option \<Rightarrow> string list \<Rightarrow> oauth_account \<Rightarrow> oauth_account" where
  "put_pair env p refresh access scopes r =
     r\<lparr>oac_refresh := refresh, oac_access := access, oac_expires := tp_expires p, oac_scopes := scopes,
       oac_active := True, oac_updated := ote_now env\<rparr>"

definition not_null :: "string \<Rightarrow> string" where
  "not_null col = ''null value in column '' @ col @ '' violates not-null constraint''"

text \<open>
  The columns \<open>refresh_token_enc\<close> and \<open>scope_granted\<close> are not nullable, which is checked
  before a conflict is. On a conflict the provider of the account stays.
\<close>

definition upsert_account ::
  "token_env \<Rightarrow> uuid \<Rightarrow> string \<Rightarrow> string \<Rightarrow> token_pair \<Rightarrow> token_text option \<Rightarrow> token_text option \<Rightarrow> token_world \<Rightarrow>
   token_world \<times> (string + uuid)" where
  "upsert_account env user provider email p refresh access w =
     (case ote_db env 0 of
        Some e \<Rightarrow> (w, Inl e)
      | None \<Rightarrow>
          (case (refresh, tp_scopes p) of
             (None, _) \<Rightarrow> (w, Inl (not_null ''refresh_token_enc''))
           | (_, None) \<Rightarrow> (w, Inl (not_null ''scope_granted''))
           | (Some rt, Some scopes) \<Rightarrow>
               (case List.find (\<lambda>r. oac_user r = user \<and> oac_email r = email) (tw_accounts w) of
                  Some old \<Rightarrow>
                    (update_accounts (\<lambda>r. oac_user r = user \<and> oac_email r = email) (put_pair env p rt access scopes) w,
                     Inr (oac_id old))
                | None \<Rightarrow>
                    (w\<lparr>tw_accounts := tw_accounts w @
                       [\<lparr>oac_id = ote_new_id env, oac_user = user, oac_provider = provider, oac_email = email,
                         oac_refresh = rt, oac_access = access, oac_expires = tp_expires p, oac_scopes = scopes,
                         oac_active = True, oac_deactivated = None, oac_created = ote_now env, oac_updated = ote_now env\<rparr>]\<rparr>,
                     Inr (ote_new_id env)))))"

definition upsert_account_with_tokens ::
  "crypto_lib \<Rightarrow> token_env \<Rightarrow> uuid \<Rightarrow> string \<Rightarrow> string \<Rightarrow> token_pair option \<Rightarrow> token_world \<Rightarrow> uuid stored" where
  "upsert_account_with_tokens lib env user provider email pair w =
     (case pair of
        None \<Rightarrow> (w, Inl (StorePlain ''token pair is nil''))
      | Some p \<Rightarrow>
          (case encrypt_refresh lib (ote_crypto env 0) p w of
             (w1, Inl e) \<Rightarrow> (w1, Inl e)
           | (w1, Inr refresh) \<Rightarrow>
               (case encrypt_access lib (ote_crypto env 1) p w1 of
                  (w2, Inl e) \<Rightarrow> (w2, Inl e)
                | (w2, Inr access) \<Rightarrow>
                    (case upsert_account env user provider email p refresh access w2 of
                       (w3, Inl e) \<Rightarrow> (w3, Inl (StorePlain (''upsert account for '' @ provider @ ''/'' @ email @ '': '' @ e)))
                     | (w3, Inr a) \<Rightarrow> (w3, Inr a)))))"

text \<open>An update of an account that does not exist changes nothing and is no error.\<close>

definition save_tokens ::
  "crypto_lib \<Rightarrow> token_env \<Rightarrow> uuid \<Rightarrow> token_pair option \<Rightarrow> token_world \<Rightarrow> token_world \<times> store_error option" where
  "save_tokens lib env a pair w =
     (case pair of
        None \<Rightarrow> (w, Some (StorePlain ''token pair is nil''))
      | Some p \<Rightarrow>
          (case encrypt_refresh lib (ote_crypto env 0) p w of
             (w1, Inl e) \<Rightarrow> (w1, Some e)
           | (w1, Inr refresh) \<Rightarrow>
               (case encrypt_access lib (ote_crypto env 1) p w1 of
                  (w2, Inl e) \<Rightarrow> (w2, Some e)
                | (w2, Inr access) \<Rightarrow>
                    (case (ote_db env 0, find_account a w2, refresh, tp_scopes p) of
                       (Some e, _) \<Rightarrow> (w2, Some (StorePlain (''failed to save tokens to database: '' @ e)))
                     | (None, None, _) \<Rightarrow> (w2, None)
                     | (None, Some _, None, _) \<Rightarrow>
                         (w2, Some (StorePlain (''failed to save tokens to database: '' @ not_null ''refresh_token_enc'')))
                     | (None, Some _, Some _, None) \<Rightarrow>
                         (w2, Some (StorePlain (''failed to save tokens to database: '' @ not_null ''scope_granted'')))
                     | (None, Some _, Some rt, Some scopes) \<Rightarrow>
                         (update_accounts (\<lambda>r. oac_id r = a) (put_pair env p rt access scopes) w2, None)))))"

text \<open>After a refresh. The old refresh token stays when the pair has none; the access token does not.\<close>

definition update_access_token ::
  "crypto_lib \<Rightarrow> (nat \<Rightarrow> crypto_env) \<Rightarrow> string option \<Rightarrow> instant \<Rightarrow> uuid \<Rightarrow> token_pair option \<Rightarrow> token_world \<Rightarrow>
   token_world \<times> store_error option" where
  "update_access_token lib crypto db now a pair w =
     (case pair of
        None \<Rightarrow> (w, Some (StorePlain ''token pair is nil''))
      | Some p \<Rightarrow>
          (case encrypt_access lib (crypto 0) p w of
             (w1, Inl e) \<Rightarrow> (w1, Some e)
           | (w1, Inr access) \<Rightarrow>
               (case encrypt_refresh lib (crypto 1) p w1 of
                  (w2, Inl e) \<Rightarrow> (w2, Some e)
                | (w2, Inr refresh) \<Rightarrow>
                    (case db of
                       Some e \<Rightarrow> (w2, Some (StorePlain (''failed to update access token: '' @ e)))
                     | None \<Rightarrow>
                         (update_accounts (\<lambda>r. oac_id r = a)
                            (\<lambda>r. r\<lparr>oac_access := access, oac_expires := tp_expires p, oac_updated := now,
                                  oac_refresh := (case refresh of None \<Rightarrow> oac_refresh r | Some rt \<Rightarrow> rt)\<rparr>) w2,
                          None)))))"

definition deactivate_account :: "(uuid \<Rightarrow> string) \<Rightarrow> string option \<Rightarrow> instant \<Rightarrow> uuid \<Rightarrow> token_world \<Rightarrow> token_world \<times> string option" where
  "deactivate_account sh db now a w =
     (case db of
        Some e \<Rightarrow> (w, Some (''failed to deactivate account '' @ sh a @ '': '' @ e))
      | None \<Rightarrow>
          if find_account a w = None then (w, Some (''account '' @ sh a @ '' not found''))
          else (update_accounts (\<lambda>r. oac_id r = a)
                  (\<lambda>r. r\<lparr>oac_active := False, oac_deactivated := Some now, oac_updated := now\<rparr>) w, None))"
section \<open>Loading\<close>

text \<open>
  \<open>LoadTokens\<close>: the refresh token stays encrypted; \<open>db\<close> and \<open>crypto\<close> belong to its statement and its
  decryption.
\<close>

definition unmarshal_token :: "string \<Rightarrow> token_text option \<Rightarrow> string + encrypted_token option" where
  "unmarshal_token what t =
     (case t of
        None \<Rightarrow> Inr None
      | Some EmptyText \<Rightarrow> Inr None
      | Some (TokenJson e) \<Rightarrow> Inr (Some e)
      | Some OtherText \<Rightarrow> Inl (''failed to unmarshal '' @ what @ '' token''))"

definition pair_of_row :: "oauth_account \<Rightarrow> encrypted_token option \<Rightarrow> encrypted_token option \<Rightarrow> string option \<Rightarrow> token_pair" where
  "pair_of_row r refresh access plain =
     \<lparr>tp_refresh = refresh, tp_access = access, tp_plaintext = plain, tp_expires = oac_expires r, tp_scopes = Some (oac_scopes r)\<rparr>"

definition load_tokens ::
  "crypto_lib \<Rightarrow> (uuid \<Rightarrow> string) \<Rightarrow> string option \<Rightarrow> crypto_env \<Rightarrow> uuid \<Rightarrow> token_world \<Rightarrow> token_pair stored" where
  "load_tokens lib sh db crypto a w =
     (case db of
        Some e \<Rightarrow> (w, Inl (StorePlain (''failed to load tokens: '' @ e)))
      | None \<Rightarrow>
          (case find_account a w of
             None \<Rightarrow> (w, Inl (StorePlain (''account '' @ sh a @ '' not found'')))
           | Some r \<Rightarrow>
               if \<not> oac_active r
               then (w, Inl (store_failed ''oauth_expired'' (''account '' @ sh a @ '' is deactivated'') False))
               else (case unmarshal_token ''refresh'' (Some (oac_refresh r)) of
                       Inl e \<Rightarrow> (w, Inl (StorePlain e))
                     | Inr refresh \<Rightarrow>
                         (case unmarshal_token ''access'' (oac_access r) of
                            Inl e \<Rightarrow> (w, Inl (StorePlain e))
                          | Inr None \<Rightarrow> (w, Inr (pair_of_row r refresh None None))
                          | Inr (Some t) \<Rightarrow>
                              (case decrypt_token lib crypto (Some t) (tw_crypto w) of
                                 (tc, Inl e) \<Rightarrow>
                                   (w\<lparr>tw_crypto := tc\<rparr>,
                                    Inl (store_failed ''token_decrypt_failed'' (''failed to decrypt access token: '' @ e) True))
                               | (tc, Inr plain) \<Rightarrow>
                                   (w\<lparr>tw_crypto := tc\<rparr>, Inr (pair_of_row r refresh (Some t) (Some plain))))))))"

definition get_tokens ::
  "crypto_lib \<Rightarrow> (uuid \<Rightarrow> string) \<Rightarrow> string option \<Rightarrow> crypto_env \<Rightarrow> uuid \<Rightarrow> token_world \<Rightarrow> token_pair stored" where
  "get_tokens = load_tokens"

definition decrypt_refresh_token ::
  "crypto_lib \<Rightarrow> (uuid \<Rightarrow> string) \<Rightarrow> string option \<Rightarrow> crypto_env \<Rightarrow> uuid \<Rightarrow> token_world \<Rightarrow> string stored" where
  "decrypt_refresh_token lib sh db crypto a w =
     (case db of
        Some e \<Rightarrow> (w, Inl (StorePlain (''failed to load refresh token: '' @ e)))
      | None \<Rightarrow>
          (case List.find (\<lambda>r. oac_id r = a \<and> oac_active r) (tw_accounts w) of
             None \<Rightarrow> (w, Inl (StorePlain (''account '' @ sh a @ '' not found or deactivated'')))
           | Some r \<Rightarrow>
               (case unmarshal_token ''refresh'' (Some (oac_refresh r)) of
                  Inl e \<Rightarrow> (w, Inl (StorePlain e))
                | Inr None \<Rightarrow> (w, Inl (StorePlain (''no refresh token stored for account '' @ sh a)))
                | Inr (Some t) \<Rightarrow>
                    (case decrypt_token lib crypto (Some t) (tw_crypto w) of
                       (tc, Inl e) \<Rightarrow>
                         (w\<lparr>tw_crypto := tc\<rparr>,
                          Inl (store_failed ''token_decrypt_failed'' (''failed to decrypt refresh token: '' @ e) True))
                     | (tc, Inr p) \<Rightarrow> (w\<lparr>tw_crypto := tc\<rparr>, Inr p)))))"

text \<open>\<open>ListActiveAccounts\<close>: the metadata of the active accounts of a provider, the last updated first.\<close>

record token_metadata =
  tmd_id :: uuid
  tmd_provider :: string
  tmd_active :: bool
  tmd_created :: instant
  tmd_updated :: instant
  tmd_expires :: "instant option"

definition list_active_accounts :: "string option \<Rightarrow> string \<Rightarrow> token_world \<Rightarrow> string + token_metadata list" where
  "list_active_accounts db provider w =
     (case db of
        Some e \<Rightarrow> Inl (''failed to list accounts: '' @ e)
      | None \<Rightarrow>
          Inr (map (\<lambda>r. \<lparr>tmd_id = oac_id r, tmd_provider = oac_provider r, tmd_active = oac_active r,
                         tmd_created = oac_created r, tmd_updated = oac_updated r, tmd_expires = oac_expires r\<rparr>)
                 (sort_key (\<lambda>r. - oac_updated r)
                    (filter (\<lambda>r. oac_provider r = provider \<and> oac_active r) (tw_accounts w)))))"

section \<open>Refreshing\<close>

text \<open>
  What a provider offers: its name, the login URL, the exchange of a code, the refresh. The text of an error
  is all that the callers read.
\<close>

record oauth_provider =
  opr_name :: string
  opr_auth_url :: "string \<Rightarrow> string \<Rightarrow> string"
  opr_exchange :: "string \<Rightarrow> string \<Rightarrow> string + token_pair"
  opr_refresh :: "string \<Rightarrow> string + token_pair"

definition register_provider :: "string \<Rightarrow> oauth_provider \<Rightarrow> (string \<times> oauth_provider) list \<Rightarrow> (string \<times> oauth_provider) list" where
  "register_provider name p ps = AList.update name p ps"

definition near_expiry :: duration where "near_expiry = 5 * minute_ns"

definition still_valid :: "instant \<Rightarrow> token_pair \<Rightarrow> bool" where
  "still_valid now p =
     (tp_plaintext p \<noteq> None \<and> (case tp_expires p of None \<Rightarrow> False | Some e \<Rightarrow> now + near_expiry < e))"

text \<open>A new token that the provider returned in the clear is encrypted under the name of the provider.\<close>

definition encrypt_new ::
  "crypto_lib \<Rightarrow> crypto_env \<Rightarrow> string \<Rightarrow> encrypted_token option \<Rightarrow> token_crypto \<Rightarrow>
   token_crypto \<times> (string + encrypted_token option)" where
  "encrypt_new lib env keyid t tc =
     (case t of
        None \<Rightarrow> (tc, Inr None)
      | Some e \<Rightarrow>
          if et_ciphertext e = [] then (tc, Inr t)
          else (case encrypt_token lib env (text_of_bytes (et_ciphertext e)) keyid tc of
                  (tc1, Inl err) \<Rightarrow> (tc1, Inl err)
                | (tc1, Inr enc) \<Rightarrow> (tc1, Inr (Some enc))))"

definition quote_text :: "string \<Rightarrow> string" where "quote_text s = CHR 0x22 # s @ [CHR 0x22]"

definition store_new_pair ::
  "crypto_lib \<Rightarrow> token_env \<Rightarrow> string \<Rightarrow> uuid \<Rightarrow> token_pair \<Rightarrow> token_world \<Rightarrow> token_pair stored" where
  "store_new_pair lib env keyid a p w =
     (case encrypt_new lib (ote_crypto env 2) keyid (tp_access p) (tw_crypto w) of
        (tc, Inl e) \<Rightarrow>
          (w\<lparr>tw_crypto := tc\<rparr>, Inl (StorePlain (''encrypt new access token for account '' @ ote_show env a @ '': '' @ e)))
      | (tc, Inr access) \<Rightarrow>
          (case encrypt_new lib (ote_crypto env 3) keyid (tp_refresh p) tc of
             (tc1, Inl e) \<Rightarrow>
               (w\<lparr>tw_crypto := tc1\<rparr>, Inl (StorePlain (''encrypt new refresh token for account '' @ ote_show env a @ '': '' @ e)))
           | (tc1, Inr refresh) \<Rightarrow>
               (let p1 = p\<lparr>tp_access := access, tp_refresh := refresh\<rparr>
                in case update_access_token lib (\<lambda>n. ote_crypto env (4 + n)) (ote_db env 3) (ote_now env) a (Some p1)
                          (w\<lparr>tw_crypto := tc1\<rparr>) of
                     (w1, Some e) \<Rightarrow> (w1, Inl (StoreWrap (''persist refreshed tokens for account '' @ ote_show env a @ '': '') e))
                   | (w1, None) \<Rightarrow> (w1, Inr p1))))"

definition refused_refresh ::
  "token_env \<Rightarrow> uuid \<Rightarrow> string \<Rightarrow> token_world \<Rightarrow> token_pair stored" where
  "refused_refresh env a err w =
     (if str_contains err ''invalid_grant''
      then (case deactivate_account (ote_show env) (ote_db env 3) (ote_now env) a w of
              (w1, Some e) \<Rightarrow>
                (w1, Inl (StorePlain (''invalid_grant for account '' @ ote_show env a @ '' AND deactivation failed: '' @ e @
                   '', original: '' @ err)))
            | (w1, None) \<Rightarrow>
                (w1, Inl (store_failed ''oauth_expired''
                   (''refresh token expired (invalid_grant) for account '' @ ote_show env a @ '': '' @ err) False)))
      else (w, Inl (StorePlain (''provider refresh failed for account '' @ ote_show env a @ '': '' @ err))))"

text \<open>\<open>RefreshIfNeeded\<close> once the stored access token no longer serves.\<close>

definition refresh_now ::
  "crypto_lib \<Rightarrow> token_env \<Rightarrow> (string \<times> oauth_provider) list \<Rightarrow> uuid \<Rightarrow> token_world \<Rightarrow> token_pair stored" where
  "refresh_now lib env provs a w =
     (case decrypt_refresh_token lib (ote_show env) (ote_db env 1) (ote_crypto env 1) a w of
        (w1, Inl e) \<Rightarrow> (w1, Inl (StoreWrap (''decrypt refresh token for account '' @ ote_show env a @ '': '') e))
      | (w1, Inr token) \<Rightarrow>
          (case (ote_db env 2, find_account a w1) of
             (Some e, _) \<Rightarrow> (w1, Inl (StorePlain (''query provider for account '' @ ote_show env a @ '': '' @ e)))
           | (None, None) \<Rightarrow>
               (w1, Inl (StorePlain (''query provider for account '' @ ote_show env a @ '': sql: no rows in result set'')))
           | (None, Some r) \<Rightarrow>
               (case map_of provs (oac_provider r) of
                  None \<Rightarrow>
                    (w1, Inl (StorePlain (''no OAuth provider registered for '' @ quote_text (oac_provider r) @ '' (account '' @ ote_show env a @ '')'')))
                | Some prov \<Rightarrow>
                    (case opr_refresh prov token of
                       Inl err \<Rightarrow> refused_refresh env a err w1
                     | Inr p \<Rightarrow> store_new_pair lib env (opr_name prov @ ''-refresh'') a p w1))))"

definition refresh_if_needed ::
  "crypto_lib \<Rightarrow> token_env \<Rightarrow> (string \<times> oauth_provider) list \<Rightarrow> uuid \<Rightarrow> token_world \<Rightarrow> token_pair stored" where
  "refresh_if_needed lib env provs a w =
     (case load_tokens lib (ote_show env) (ote_db env 0) (ote_crypto env 0) a w of
        (w1, Inl e) \<Rightarrow> (w1, Inl (StoreWrap (''load tokens for refresh check on account '' @ ote_show env a @ '': '') e))
      | (w1, Inr p) \<Rightarrow> if still_valid (ote_now env) p then (w1, Inr p) else refresh_now lib env provs a w1)"

section \<open>Lemmas\<close>

lemma find_map_eq: "(\<And>r. P (f r) = P r) \<Longrightarrow> List.find P (map f xs) = map_option f (List.find P xs)"
  by (induction xs) auto

lemma find_account_update:
  assumes "\<And>r. oac_id (f r) = oac_id r"
  shows "find_account a (update_accounts sel f w) = map_option (\<lambda>r. if sel r then f r else r) (find_account a w)"
  unfolding find_account_def update_accounts_def by (simp add: find_map_eq assms)

lemma find_account_id: "find_account a w = Some r \<Longrightarrow> oac_id r = a"
  by (auto simp: find_account_def find_Some_iff)

lemma crypto_update_accounts [simp]: "tw_crypto (update_accounts sel f w) = tw_crypto w"
  by (simp add: update_accounts_def)

lemma find_account_crypto [simp]: "find_account a (w\<lparr>tw_crypto := tc\<rparr>) = find_account a w"
  by (simp add: find_account_def)

lemma bytes_of_text [simp]: "bytes_of (text_of_bytes bs) = bs"
proof (induction bs)
  case (Cons b bs)
  let ?c = "char_of (unat b) :: char"
  have "(of_char ?c :: nat) = unat b" using unat_byte_less [of b] by simp
  moreover have "(of_char ?c :: 8 word) = of_nat (of_char ?c)" by (rule of_nat_of_char [symmetric])
  ultimately have "(of_char ?c :: 8 word) = b" by simp
  then show ?case using Cons by (simp add: text_of_bytes_def bytes_of_def del: of_char_of)
qed (simp add: text_of_bytes_def bytes_of_def)

lemma load_tokens_Inr:
  assumes "load_tokens lib sh db c a w = (w', Inr p)"
  obtains r refresh where "db = None" "find_account a w = Some r" "oac_active r"
      "unmarshal_token ''refresh'' (Some (oac_refresh r)) = Inr refresh" "unmarshal_token ''access'' (oac_access r) = Inr None"
      "w' = w" "p = pair_of_row r refresh None None"
  | r refresh t tc plain where "db = None" "find_account a w = Some r" "oac_active r"
      "unmarshal_token ''refresh'' (Some (oac_refresh r)) = Inr refresh" "unmarshal_token ''access'' (oac_access r) = Inr (Some t)"
      "decrypt_token lib c (Some t) (tw_crypto w) = (tc, Inr plain)"
      "w' = w\<lparr>tw_crypto := tc\<rparr>" "p = pair_of_row r refresh (Some t) (Some plain)"
proof -
  obtain r where r: "db = None" "find_account a w = Some r" "oac_active r"
    using assms by (cases db; cases "find_account a w") (auto simp: load_tokens_def split: if_splits)
  obtain refresh access where u: "unmarshal_token ''refresh'' (Some (oac_refresh r)) = Inr refresh"
    "unmarshal_token ''access'' (oac_access r) = Inr access"
    using assms r
    by (cases "unmarshal_token ''refresh'' (Some (oac_refresh r))"; cases "unmarshal_token ''access'' (oac_access r)")
      (simp_all add: load_tokens_def)
  show ?thesis
  proof (cases access)
    case None
    then show ?thesis using assms r u by (intro that(1) [of r refresh]) (simp_all add: load_tokens_def)
  next
    case (Some t)
    obtain tc x where d: "decrypt_token lib c (Some t) (tw_crypto w) = (tc, x)" by fastforce
    then show ?thesis using assms r u Some that(2) [of r refresh t tc] by (cases x) (simp_all add: load_tokens_def)
  qed
qed

lemma unmarshal_token_Some: "unmarshal_token s c = Inr (Some t) \<longleftrightarrow> c = Some (TokenJson t)"
  by (auto simp: unmarshal_token_def split: option.splits token_text.splits)

lemma load_tokens_expires:
  assumes "load_tokens lib sh db c a w = (w', Inr p)" "find_account a w = Some r"
  shows "tp_expires p = oac_expires r"
  by (cases rule: load_tokens_Inr [OF assms(1)]) (use assms(2) in \<open>simp_all add: pair_of_row_def\<close>)

lemma load_tokens_decrypts:
  assumes "load_tokens lib sh db c a w = (w', Inr p)" "find_account a w = Some r" "oac_access r = Some (TokenJson t)"
  shows "\<exists>tc plain. decrypt_token lib c (Some t) (tw_crypto w) = (tc, Inr plain) \<and> w' = w\<lparr>tw_crypto := tc\<rparr> \<and>
    tp_access p = Some t \<and> tp_plaintext p = Some plain"
  by (cases rule: load_tokens_Inr [OF assms(1)])
    (use assms(2,3) in \<open>simp_all add: pair_of_row_def unmarshal_token_def\<close>)

lemma decrypt_refresh_token_Inr:
  assumes "decrypt_refresh_token lib sh db c a w = (w', Inr p)"
  obtains t tc where "decrypt_token lib c (Some t) (tw_crypto w) = (tc, Inr p)" "w' = w\<lparr>tw_crypto := tc\<rparr>"
proof -
  obtain r where r: "db = None" "List.find (\<lambda>r. oac_id r = a \<and> oac_active r) (tw_accounts w) = Some r"
    using assms
    by (cases db; cases "List.find (\<lambda>r. oac_id r = a \<and> oac_active r) (tw_accounts w)")
      (simp_all add: decrypt_refresh_token_def)
  obtain t where t: "unmarshal_token ''refresh'' (Some (oac_refresh r)) = Inr (Some t)"
  proof (cases "unmarshal_token ''refresh'' (Some (oac_refresh r))")
    case (Inr x)
    then show ?thesis using that assms r by (cases x) (simp_all add: decrypt_refresh_token_def)
  qed (use assms r in \<open>simp add: decrypt_refresh_token_def\<close>)
  obtain tc x where d: "decrypt_token lib c (Some t) (tw_crypto w) = (tc, x)" by fastforce
  then show ?thesis using assms r t that [of t tc] by (cases x) (simp_all add: decrypt_refresh_token_def)
qed

text \<open>A live entry stays live when another call puts its own, which expires no sooner.\<close>

lemma resolve_keeps_live:
  assumes "resolve_dek lib env keyid tc = (tc', r)" "live_dek now k tc = Some a" "now < cye_now env + dek_cache_ttl"
  shows "\<exists>b. live_dek now k tc' = Some b"
  using assms
  by (cases "live_dek (cye_now env) keyid tc"; cases "parse_key_reference lib keyid")
    (auto simp: resolve_dek_def make_slice_def Let_def split: sum.splits)

lemma get_or_create_keeps_live:
  assumes "get_or_create_dek lib env keyid tc = (tc', r)" "live_dek now k tc = Some a" "now < cye_now env + dek_cache_ttl"
  shows "\<exists>b. live_dek now k tc' = Some b"
  using assms
  by (cases "live_dek (cye_now env) keyid tc"; cases "cye_random_dek env")
    (auto simp: get_or_create_dek_def generate_dek_def make_slice_def Let_def split: sum.splits)

lemma decrypt_token_keeps_live:
  assumes "live_dek now k tc = Some a" "now < cye_now env + dek_cache_ttl"
  shows "\<exists>b. live_dek now k (fst (decrypt_token lib env t tc)) = Some b"
proof (cases rule: decrypt_token_checks [of lib env t tc])
  case (2 s)
  obtain tc1 r where g: "resolve_dek lib env (et_key_id s) tc = (tc1, r)" by fastforce
  show ?thesis using resolve_keeps_live [OF g assms] 2(5) g by (cases r) auto
qed (simp add: assms)

lemma encrypt_token_keeps_live:
  assumes "live_dek now k tc = Some a" "now < cye_now env + dek_cache_ttl"
  shows "\<exists>b. live_dek now k (fst (encrypt_token lib env p keyid tc)) = Some b"
proof (cases "p = [] \<or> keyid = []")
  case False
  obtain tc1 r where g: "get_or_create_dek lib env keyid tc = (tc1, r)" by fastforce
  show ?thesis using get_or_create_keeps_live [OF g assms] False g by (cases r) (auto simp: encrypt_token_def)
qed (auto simp: encrypt_token_def assms)

lemma refresh_if_needed_Inr:
  assumes "refresh_if_needed lib env provs a w = (w', Inr p)"
  obtains w1 where "load_tokens lib (ote_show env) (ote_db env 0) (ote_crypto env 0) a w = (w1, Inr p)"
      "still_valid (ote_now env) p" "w' = w1"
  | w1 q where "load_tokens lib (ote_show env) (ote_db env 0) (ote_crypto env 0) a w = (w1, Inr q)"
      "\<not> still_valid (ote_now env) q" "refresh_now lib env provs a w1 = (w', Inr p)"
proof -
  obtain w1 x where l: "load_tokens lib (ote_show env) (ote_db env 0) (ote_crypto env 0) a w = (w1, x)" by fastforce
  show ?thesis
  proof (cases x)
    case (Inr q)
    then show ?thesis using assms l that by (cases "still_valid (ote_now env) q") (simp_all add: refresh_if_needed_def)
  qed (use assms l in \<open>simp add: refresh_if_needed_def\<close>)
qed

lemma refused_refresh_fails: "\<exists>e. snd (refused_refresh env a err w) = Inl e"
  by (cases "deactivate_account (ote_show env) (ote_db env 3) (ote_now env) a w")
    (simp add: refused_refresh_def split: option.split)

lemma refresh_now_Inr:
  assumes "refresh_now lib env provs a w = (w', Inr p)"
  obtains w1 token r prov q where
    "decrypt_refresh_token lib (ote_show env) (ote_db env 1) (ote_crypto env 1) a w = (w1, Inr token)"
    "find_account a w1 = Some r" "map_of provs (oac_provider r) = Some prov" "opr_refresh prov token = Inr q"
    "store_new_pair lib env (opr_name prov @ ''-refresh'') a q w1 = (w', Inr p)"
proof -
  obtain w1 x where d: "decrypt_refresh_token lib (ote_show env) (ote_db env 1) (ote_crypto env 1) a w = (w1, x)" by fastforce
  obtain token where x: "x = Inr token" using assms d by (cases x) (simp_all add: refresh_now_def)
  have db: "ote_db env 2 = None" using assms d x by (cases "ote_db env 2") (simp_all add: refresh_now_def)
  obtain r where r: "find_account a w1 = Some r" using assms d x db by (cases "find_account a w1") (simp_all add: refresh_now_def)
  obtain prov where prov: "map_of provs (oac_provider r) = Some prov"
    using assms d x db r by (cases "map_of provs (oac_provider r)") (simp_all add: refresh_now_def)
  show ?thesis
  proof (cases "opr_refresh prov token")
    case (Inl err)
    then show ?thesis using assms d x db r prov refused_refresh_fails [of env a err w1] by (simp add: refresh_now_def)
  next
    case (Inr q)
    then show ?thesis using assms d x db r prov that [of w1 token r prov q] by (simp add: refresh_now_def)
  qed
qed

lemma store_new_pair_Inr:
  assumes "store_new_pair lib env keyid a q w = (w', Inr p)"
  obtains tc access tc1 refresh where
    "encrypt_new lib (ote_crypto env 2) keyid (tp_access q) (tw_crypto w) = (tc, Inr access)"
    "encrypt_new lib (ote_crypto env 3) keyid (tp_refresh q) tc = (tc1, Inr refresh)"
    "p = q\<lparr>tp_access := access, tp_refresh := refresh\<rparr>"
    "update_access_token lib (\<lambda>n. ote_crypto env (4 + n)) (ote_db env 3) (ote_now env) a (Some p) (w\<lparr>tw_crypto := tc1\<rparr>) = (w', None)"
proof -
  obtain tc x where e1: "encrypt_new lib (ote_crypto env 2) keyid (tp_access q) (tw_crypto w) = (tc, x)" by fastforce
  obtain access where x: "x = Inr access" using assms e1 by (cases x) (simp_all add: store_new_pair_def)
  obtain tc1 y where e2: "encrypt_new lib (ote_crypto env 3) keyid (tp_refresh q) tc = (tc1, y)" by fastforce
  obtain refresh where y: "y = Inr refresh" using assms e1 x e2 by (cases y) (simp_all add: store_new_pair_def)
  let ?p = "q\<lparr>tp_access := access, tp_refresh := refresh\<rparr>"
  obtain w2 z where u: "update_access_token lib (\<lambda>n. ote_crypto env (4 + n)) (ote_db env 3) (ote_now env) a (Some ?p)
      (w\<lparr>tw_crypto := tc1\<rparr>) = (w2, z)" by fastforce
  show ?thesis
    using assms e1 e2 u unfolding x y
    by (cases z) (auto simp: store_new_pair_def intro!: that)
qed

definition clear_token :: "encrypted_token option \<Rightarrow> bytes option" where
  "clear_token t = (case t of None \<Rightarrow> None | Some e \<Rightarrow> if et_ciphertext e = [] then None else Some (et_ciphertext e))"

definition zero_sealed :: "crypto_lib \<Rightarrow> bytes \<Rightarrow> encrypted_token \<Rightarrow> bool" where
  "zero_sealed lib secret x \<longleftrightarrow> et_ciphertext x = cl_seal lib (replicate 32 0) (et_nonce x) secret"

lemma encrypt_new_hit:
  assumes "blank_but None tc" "live_dek (cye_now env) k tc = Some a" "encrypt_new lib env k t tc = (tc', Inr t')"
    and "clear_token t = Some secret"
  obtains x where "t' = Some x" "zero_sealed lib secret x" "encrypt_token lib env (text_of_bytes secret) k tc = (tc', Inr x)"
proof -
  obtain e where e: "t = Some e" "et_ciphertext e = secret" "secret \<noteq> []"
    using assms(4) by (auto simp: clear_token_def split: option.splits if_splits)
  obtain tc1 r where en: "encrypt_token lib env (text_of_bytes secret) k tc = (tc1, r)" by fastforce
  obtain x where x: "r = Inr x" "tc1 = tc'" "t' = Some x" using assms(3) e en by (cases r) (auto simp: encrypt_new_def)
  have "zero_sealed lib secret x"
    using encrypt_token_hit [OF assms(1,2) en [unfolded x(1)]] by (simp add: zero_sealed_def zero_dek_def zero_bytes_def dek_size_def)
  then show ?thesis using that x en by blast
qed

lemma encrypt_new_keeps:
  assumes "encrypt_new lib env k t tc = (tc', r)" "blank_but None tc"
  shows "blank_but None tc'" "live_dek now n tc = Some a \<Longrightarrow> now < cye_now env + dek_cache_ttl \<Longrightarrow> \<exists>b. live_dek now n tc' = Some b"
proof -
  have "tc' = tc \<or> (\<exists>e :: encrypted_token. tc' = fst (encrypt_token lib env (text_of_bytes (et_ciphertext e)) k tc))"
  proof (cases t)
    case (Some e)
    obtain tc1 y where en: "encrypt_token lib env (text_of_bytes (et_ciphertext e)) k tc = (tc1, y)" by fastforce
    then have "tc' = tc \<or> tc' = tc1"
      using assms(1) Some by (cases y; cases "et_ciphertext e = []") (simp_all add: encrypt_new_def)
    moreover have "tc1 = fst (encrypt_token lib env (text_of_bytes (et_ciphertext e)) k tc)" by (simp add: en)
    ultimately show ?thesis by blast
  qed (use assms(1) in \<open>simp add: encrypt_new_def\<close>)
  then consider "tc' = tc" | e :: encrypted_token where "tc' = fst (encrypt_token lib env (text_of_bytes (et_ciphertext e)) k tc)" by blast
  then have "blank_but None tc' \<and>
    (live_dek now n tc = Some a \<longrightarrow> now < cye_now env + dek_cache_ttl \<longrightarrow> (\<exists>b. live_dek now n tc' = Some b))"
  proof cases
    case (2 e)
    then show ?thesis
      using encrypt_token_keeps_live [of now n tc a env lib "text_of_bytes (et_ciphertext e)" k] encrypt_token_blank [OF assms(2)]
      by simp
  qed (simp add: assms(2))
  then show "blank_but None tc'"
    "live_dek now n tc = Some a \<Longrightarrow> now < cye_now env + dek_cache_ttl \<Longrightarrow> \<exists>b. live_dek now n tc' = Some b" by blast+
qed

text \<open>A token that was just encrypted passes for encrypted, so that it is stored as it is.\<close>

lemma encrypted_is_encrypted:
  assumes "reference_codec lib" "encrypt_token lib env p k tc = (tc', Inr x)" "\<And>b. cye_random_nonce env = Inr b \<Longrightarrow> length b = 12"
  shows "is_encrypted (Some x)"
proof -
  obtain key where s: "seal_token lib env p k key = Inr x" using encrypt_token_Inr [OF assms(2)] by metis
  obtain nonce enc where n: "cye_random_nonce env = Inr nonce" "et_nonce x = nonce" "et_key_id x = build_rotated_key_id lib env k enc"
    using seal_token_Inr [OF s] by (metis encrypted_token.select_convs(2,3))
  then show ?thesis using assms(1,3) by (simp add: is_encrypted_def nonce_size_def build_rotated_key_id_def reference_codec_def)
qed

lemma marshal_encrypted:
  assumes "encrypt_and_marshal lib env t w = (w', Inr s)"
  shows "t = Some x \<Longrightarrow> et_ciphertext x \<noteq> [] \<Longrightarrow> is_encrypted t \<Longrightarrow> s = Some (TokenJson x) \<and> w' = w"
    and "find_account a w' = find_account a w"
  using assms by (auto simp: encrypt_and_marshal_def split: option.splits if_splits prod.splits sum.splits)

lemma update_access_token_stores:
  assumes "update_access_token lib c db now a (Some p) w = (w', None)" "find_account a w = Some r"
  obtains r' where "find_account a w' = Some r'"
    "\<And>x. tp_access p = Some x \<Longrightarrow> et_ciphertext x \<noteq> [] \<Longrightarrow> is_encrypted (Some x) \<Longrightarrow> oac_access r' = Some (TokenJson x)"
    "\<And>x. tp_refresh p = Some x \<Longrightarrow> et_ciphertext x \<noteq> [] \<Longrightarrow> is_encrypted (Some x) \<Longrightarrow> oac_refresh r' = TokenJson x"
proof -
  obtain w1 s where e1: "encrypt_and_marshal lib (c 0) (tp_access p) w = (w1, s)" by fastforce
  obtain access where s: "s = Inr access" using assms(1) e1 by (cases s) (simp_all add: update_access_token_def encrypt_access_def)
  obtain w2 t where e2: "encrypt_and_marshal lib (c 1) (tp_refresh p) w1 = (w2, t)" by fastforce
  obtain refresh where t: "t = Inr refresh"
    using assms(1) e1 e2 s by (cases t) (simp_all add: update_access_token_def encrypt_access_def encrypt_refresh_def)
  let ?f = "\<lambda>r. r\<lparr>oac_access := access, oac_expires := tp_expires p, oac_updated := now,
    oac_refresh := (case refresh of None \<Rightarrow> oac_refresh r | Some rt \<Rightarrow> rt)\<rparr>"
  have w': "w' = update_accounts (\<lambda>r. oac_id r = a) ?f w2"
    using assms(1) e1 e2 s t by (cases db) (simp_all add: update_access_token_def encrypt_access_def encrypt_refresh_def)
  have "find_account a w2 = Some r" using marshal_encrypted(2) [OF e1 [unfolded s]] marshal_encrypted(2) [OF e2 [unfolded t]] assms(2) by simp
  then have "find_account a w' = Some (?f r)" unfolding w' by (simp add: find_account_update find_account_id)
  then show ?thesis
    using marshal_encrypted(1) [OF e1 [unfolded s]] marshal_encrypted(1) [OF e2 [unfolded t]] by (intro that) fastforce+
qed

definition stored_under_zeros :: "crypto_lib \<Rightarrow> token_pair \<Rightarrow> oauth_account \<Rightarrow> bool" where
  "stored_under_zeros lib q r \<longleftrightarrow>
     (\<forall>secret. clear_token (tp_access q) = Some secret \<longrightarrow> (\<exists>x. oac_access r = Some (TokenJson x) \<and> zero_sealed lib secret x)) \<and>
     (\<forall>secret. clear_token (tp_refresh q) = Some secret \<longrightarrow> (\<exists>x. oac_refresh r = TokenJson x \<and> zero_sealed lib secret x))"

lemma store_new_pair_zeros:
  fixes env :: token_env
  defines "c \<equiv> ote_crypto env"
  assumes "blank_but None (tw_crypto w)" and live: "\<And>n. \<exists>b. live_dek (cye_now (c n)) k (tw_crypto w) = Some b"
    and ttl: "\<And>n m. cye_now (c n) < cye_now (c m) + dek_cache_ttl" and laws: "reference_codec lib" "aead_opens lib"
    and nonces: "\<And>n b. cye_random_nonce (c n) = Inr b \<Longrightarrow> length b = 12"
    and "find_account a w = Some r" and new: "store_new_pair lib env k a q w = (w', Inr p)"
  shows "\<exists>r'. find_account a w' = Some r' \<and> stored_under_zeros lib q r'"
proof -
  obtain tc3 access tc4 refresh where n: "encrypt_new lib (c 2) k (tp_access q) (tw_crypto w) = (tc3, Inr access)"
    "encrypt_new lib (c 3) k (tp_refresh q) tc3 = (tc4, Inr refresh)" "p = q\<lparr>tp_access := access, tp_refresh := refresh\<rparr>"
    "update_access_token lib (\<lambda>n. c (4 + n)) (ote_db env 3) (ote_now env) a (Some p) (w\<lparr>tw_crypto := tc4\<rparr>) = (w', None)"
    unfolding c_def by (rule store_new_pair_Inr [OF new])
  obtain b2 where live2: "live_dek (cye_now (c 2)) k (tw_crypto w) = Some b2" using live by blast
  obtain b3 where live3: "live_dek (cye_now (c 3)) k tc3 = Some b3"
    using live [of 3] encrypt_new_keeps(2) [OF n(1) assms(2) _ ttl] by blast
  note blank3 = encrypt_new_keeps(1) [OF n(1) assms(2)]
  obtain r' where r': "find_account a w' = Some r'"
    "\<And>x. tp_access p = Some x \<Longrightarrow> et_ciphertext x \<noteq> [] \<Longrightarrow> is_encrypted (Some x) \<Longrightarrow> oac_access r' = Some (TokenJson x)"
    "\<And>x. tp_refresh p = Some x \<Longrightarrow> et_ciphertext x \<noteq> [] \<Longrightarrow> is_encrypted (Some x) \<Longrightarrow> oac_refresh r' = TokenJson x"
    using update_access_token_stores [OF n(4), of r] assms(8) by auto
  have full: "et_ciphertext x \<noteq> []" if "zero_sealed lib secret x" for secret x
    using that laws(2) by (simp add: zero_sealed_def aead_opens_def)
  have "\<exists>x. oac_access r' = Some (TokenJson x) \<and> zero_sealed lib secret x" if s: "clear_token (tp_access q) = Some secret" for secret
  proof -
    from encrypt_new_hit [OF assms(2) live2 n(1) s] obtain x where x: "access = Some x" "zero_sealed lib secret x"
      "encrypt_token lib (c 2) (text_of_bytes secret) k (tw_crypto w) = (tc3, Inr x)" .
    then show ?thesis using r'(2) n(3) full encrypted_is_encrypted [OF laws(1) x(3) nonces] by force
  qed
  moreover have "\<exists>x. oac_refresh r' = TokenJson x \<and> zero_sealed lib secret x" if s: "clear_token (tp_refresh q) = Some secret" for secret
  proof -
    from encrypt_new_hit [OF blank3 live3 n(2) s] obtain x where x: "refresh = Some x" "zero_sealed lib secret x"
      "encrypt_token lib (c 3) (text_of_bytes secret) k tc3 = (tc4, Inr x)" .
    then show ?thesis using r'(3) n(3) full encrypted_is_encrypted [OF laws(1) x(3) nonces] by force
  qed
  ultimately show ?thesis using r'(1) unfolding stored_under_zeros_def by blast
qed

section \<open>Properties\<close>

text \<open>
  C20: When the stored access token was itself sealed by a refresh, so that its reference names the key of
  refreshes, the next refresh stores what the provider returns sealed with the AES key of 32 zero bytes.
\<close>

theorem next_refresh_stores_under_zeros:
  assumes "(crypto_step lib)\<^sup>*\<^sup>* new_token_crypto (tw_crypto w)" "reference_codec lib" "aead_opens lib"
    and "find_account a w = Some r" "oac_access r = Some (TokenJson t)" "map_of provs (oac_provider r) = Some prov"
    and "parse_key_reference lib (et_key_id t) = Inr (enc, opr_name prov @ ''-refresh'')"
    and "live_dek (cye_now (ote_crypto env 0)) (et_key_id t) (tw_crypto w) = None"
    and clocks: "\<And>n. cye_now (ote_crypto env 0) \<le> cye_now (ote_crypto env n)"
      "\<And>n. cye_now (ote_crypto env n) < cye_now (ote_crypto env 0) + 5 * minute_ns"
    and nonces: "\<And>n b. cye_random_nonce (ote_crypto env n) = Inr b \<Longrightarrow> length b = 12"
    and expired: "case oac_expires r of None \<Rightarrow> True | Some e \<Rightarrow> e \<le> ote_now env + 5 * minute_ns"
    and ok: "refresh_if_needed lib env provs a w = (w', Inr p)"
  shows "\<exists>token q r'. opr_refresh prov token = Inr q \<and> find_account a w' = Some r' \<and> stored_under_zeros lib q r'"
proof -
  let ?c = "ote_crypto env" and ?k = "opr_name prov @ ''-refresh''"
  have ttl: "cye_now (?c n) < cye_now (?c m) + dek_cache_ttl" for n m
    using clocks(1) [of m] clocks(2) [of n] by (simp add: dek_cache_ttl_def)
  have no: "\<not> still_valid (ote_now env) q" if "tp_expires q = oac_expires r" for q
    using expired that by (simp add: still_valid_def near_expiry_def split: option.splits)
  obtain w1 q0 where l: "load_tokens lib (ote_show env) (ote_db env 0) (?c 0) a w = (w1, Inr q0)"
    and rn: "refresh_now lib env provs a w1 = (w', Inr p)"
  proof (cases rule: refresh_if_needed_Inr [OF ok])
    case (1 w1)
    show ?thesis using no [OF load_tokens_expires [OF 1(1) assms(4)]] 1(2) by blast
  qed (rule that)
  obtain tc plain where d: "decrypt_token lib (?c 0) (Some t) (tw_crypto w) = (tc, Inr plain)" "w1 = w\<lparr>tw_crypto := tc\<rparr>"
    using load_tokens_decrypts [OF l assms(4,5)] by blast
  note L = decrypt_leaves_live [OF crypto_steps_blank [OF assms(1)] d(1) assms(8) ttl]
  obtain a0 where live: "live_dek (cye_now (?c n)) ?k tc = Some (a0 n)" for n
    using L(3) [OF assms(7)] by (metis append_is_Nil_conv list.discI)
  obtain w2 token r2 prov2 q where s: "decrypt_refresh_token lib (ote_show env) (ote_db env 1) (?c 1) a w1 = (w2, Inr token)"
    "find_account a w2 = Some r2" "map_of provs (oac_provider r2) = Some prov2" "opr_refresh prov2 token = Inr q"
    "store_new_pair lib env (opr_name prov2 @ ''-refresh'') a q w2 = (w', Inr p)"
    using refresh_now_Inr [OF rn] by metis
  obtain t2 tc2 where d2: "decrypt_token lib (?c 1) (Some t2) tc = (tc2, Inr token)" "w2 = w\<lparr>tw_crypto := tc2\<rparr>"
    using decrypt_refresh_token_Inr [OF s(1)] d(2) by auto
  have same: "r2 = r" "prov2 = prov" using s(2,3) d2(2) assms(4,6) by auto
  have blank: "blank_but None (tw_crypto w2)" using decrypt_token_blank [OF L(1), of lib "?c 1" "Some t2"] d2 by simp
  have live2: "\<exists>b. live_dek (cye_now (?c n)) ?k (tw_crypto w2) = Some b" for n
    using decrypt_token_keeps_live [OF live [of n] ttl, of lib 1 "Some t2"] d2 by simp
  have "\<exists>r'. find_account a w' = Some r' \<and> stored_under_zeros lib q r'"
    by (rule store_new_pair_zeros [OF blank live2 ttl assms(2,3) _ s(2) s(5) [unfolded same]]) (rule nonces)
  then show ?thesis using s(4) same by blast
qed

text \<open>
  Once the tokens of an account were loaded with a key from KMS, loading them again in the next five
  minutes fails with a decryption error that asks for a retry, unless the token was sealed with zeros.
\<close>

lemma tokens_load_once:
  assumes "(crypto_step lib)\<^sup>*\<^sup>* new_token_crypto (tw_crypto w)"
    and "find_account a w = Some r" "oac_access r = Some (TokenJson t)"
    and "live_dek (cye_now c) (et_key_id t) (tw_crypto w) = None"
    and "load_tokens lib sh None c a w = (w1, Inr p)"
    and "cye_now later < cye_now c + 5 * minute_ns"
    and "cl_open lib (replicate 32 0) (et_nonce t) (et_ciphertext t) = Inl e"
  shows "\<exists>err. snd (load_tokens lib sh None later a w1) = Inl err \<and>
    (\<exists>x. typed_error err = Some x \<and> ig_code x = ''token_decrypt_failed'' \<and> ig_retry x)"
proof -
  obtain tc plain where d: "decrypt_token lib c (Some t) (tw_crypto w) = (tc, Inr plain)" "w1 = w\<lparr>tw_crypto := tc\<rparr>"
    using load_tokens_decrypts [OF assms(5,2,3)] by blast
  have blank: "blank_but None tc" using decrypt_token_blank [OF crypto_steps_blank [OF assms(1)], of lib c "Some t"] d(1) by simp
  have "cye_now later < cye_now c + dek_cache_ttl" using assms(6) by (simp add: dek_cache_ttl_def)
  then obtain b where b: "live_dek (cye_now later) (et_key_id t) tc = Some b"
    using decrypt_leaves_live(2) [OF crypto_steps_blank [OF assms(1)] d(1) assms(4)] by blast
  obtain tc2 m where f: "decrypt_token lib later (Some t) tc = (tc2, Inl m)"
    using blank_hit_fails [OF blank b assms(7) decrypted_is_whole [OF d(1)]] by (metis prod.collapse)
  have r: "find_account a w1 = Some r" "oac_active r" "\<exists>rt. unmarshal_token ''refresh'' (Some (oac_refresh r)) = Inr rt"
    using load_tokens_Inr [OF assms(5)] assms(2) d(2) by auto
  moreover have "unmarshal_token ''access'' (Some (TokenJson t)) = Inr (Some t)" by (simp add: unmarshal_token_Some)
  ultimately show ?thesis using assms(3) f d(2) by (auto simp: load_tokens_def store_failed_def)
qed

text \<open>The row of an account that was connected.\<close>

lemma marshal_is_token: "encrypt_and_marshal lib env t w = (w', Inr (Some s)) \<Longrightarrow> \<exists>x. s = TokenJson x"
  by (auto simp: encrypt_and_marshal_def split: option.splits if_splits prod.splits sum.splits)

lemma marshal_clear:
  assumes "encrypt_and_marshal lib env (Some t) w = (w', Inr s)" "et_ciphertext t = bytes_of p" "p \<noteq> []" "\<not> is_encrypted (Some t)"
  obtains x where "s = Some (TokenJson x)" "encrypt_token lib env p (et_key_id t) (tw_crypto w) = (tw_crypto w', Inr x)"
proof -
  obtain tc r where e: "encrypt_token lib env p (et_key_id t) (tw_crypto w) = (tc, r)" by fastforce
  moreover have "bytes_of p \<noteq> []" using assms(3) by (simp add: bytes_of_def)
  ultimately show ?thesis using assms that by (cases r) (auto simp: encrypt_and_marshal_def)
qed

lemma marshal_accounts: "encrypt_and_marshal lib env t w = (w', r) \<Longrightarrow> tw_accounts w' = tw_accounts w"
  by (auto simp: encrypt_and_marshal_def split: option.splits if_splits prod.splits sum.splits)

lemma find_distinct:
  assumes "distinct (map oac_id rs)" "r \<in> set rs"
  shows "List.find (\<lambda>x. oac_id x = oac_id r) rs = Some r"
  using assms by (induction rs) auto

lemma upsert_account_row:
  assumes "upsert_account env user provider email p (Some rt) access w = (w', Inr a)"
    and "distinct (map oac_id (tw_accounts w))" "ote_new_id env \<notin> oac_id ` set (tw_accounts w)"
  obtains r scopes where "find_account a w' = Some r" "tp_scopes p = Some scopes" "oac_access r = access" "oac_refresh r = rt"
    "oac_active r" "oac_expires r = tp_expires p" "oac_scopes r = scopes"
proof -
  have db: "ote_db env 0 = None" using assms(1) by (cases "ote_db env 0") (simp_all add: upsert_account_def)
  obtain scopes where sc: "tp_scopes p = Some scopes" using assms(1) db by (cases "tp_scopes p") (simp_all add: upsert_account_def)
  show ?thesis
  proof (cases "List.find (\<lambda>r. oac_user r = user \<and> oac_email r = email) (tw_accounts w)")
    case None
    have "List.find (\<lambda>r. oac_id r = ote_new_id env) (tw_accounts w) = None"
      using assms(3) by (force simp: find_None_iff image_iff)
    then show ?thesis using assms(1) db sc None that
      by (auto simp: upsert_account_def find_account_def find_append)
  next
    case (Some old)
    then have old: "old \<in> set (tw_accounts w)" "oac_user old = user \<and> oac_email old = email"
      by (auto simp: find_Some_iff)
    have w': "w' = update_accounts (\<lambda>r. oac_user r = user \<and> oac_email r = email) (put_pair env p rt access scopes) w" "a = oac_id old"
      using assms(1) db sc Some by (auto simp: upsert_account_def)
    have "find_account a w = Some old" using find_distinct [OF assms(2) old(1)] w'(2) by (simp add: find_account_def)
    then have "find_account a w' = Some (put_pair env p rt access scopes old)"
      unfolding w'(1) using old(2) by (simp add: find_account_update put_pair_def)
    then show ?thesis using that sc by (simp add: put_pair_def)
  qed
qed

text \<open>Connecting the same address through another provider keeps the provider of the account.\<close>

lemma reconnecting_keeps_provider:
  assumes "upsert_account env user provider email p (Some rt) access w = (w', Inr a)" "distinct (map oac_id (tw_accounts w))"
    and "List.find (\<lambda>r. oac_user r = user \<and> oac_email r = email) (tw_accounts w) = Some old"
  shows "\<exists>r. find_account a w' = Some r \<and> oac_provider r = oac_provider old \<and> oac_refresh r = rt"
proof -
  have old: "old \<in> set (tw_accounts w)" "oac_user old = user \<and> oac_email old = email" using assms(3) by (auto simp: find_Some_iff)
  have db: "ote_db env 0 = None" using assms(1) by (cases "ote_db env 0") (simp_all add: upsert_account_def)
  obtain scopes where sc: "tp_scopes p = Some scopes" using assms(1) db by (cases "tp_scopes p") (simp_all add: upsert_account_def)
  have w': "w' = update_accounts (\<lambda>r. oac_user r = user \<and> oac_email r = email) (put_pair env p rt access scopes) w" "a = oac_id old"
    using assms(1,3) db sc by (auto simp: upsert_account_def)
  have "find_account a w = Some old" using find_distinct [OF assms(2) old(1)] w'(2) by (simp add: find_account_def)
  then show ?thesis unfolding w'(1) using old(2) by (simp add: find_account_update put_pair_def)
qed

text \<open>A pair without a refresh token or without scopes cannot be stored: both columns are not nullable.\<close>

lemma pair_without_refresh_token_is_refused:
  assumes "tp_refresh p = None"
  shows "\<exists>e. snd (upsert_account_with_tokens lib env user provider email (Some p) w) = Inl e"
proof -
  obtain w2 x where "encrypt_access lib (ote_crypto env 1) p w = (w2, x)" by fastforce
  moreover have "encrypt_refresh lib (ote_crypto env 0) p w = (w, Inr None)"
    using assms by (simp add: encrypt_refresh_def encrypt_and_marshal_def)
  ultimately show ?thesis
    by (cases x; cases "ote_db env 0") (simp_all add: upsert_account_with_tokens_def upsert_account_def)
qed

lemma upsert_with_tokens_Inr:
  assumes "upsert_account_with_tokens lib env user provider email (Some p) w = (w', Inr a)"
  obtains w1 rt w2 access where "encrypt_and_marshal lib (ote_crypto env 0) (tp_refresh p) w = (w1, Inr (Some rt))"
    "encrypt_and_marshal lib (ote_crypto env 1) (tp_access p) w1 = (w2, Inr access)"
    "upsert_account env user provider email p (Some rt) access w2 = (w', Inr a)"
proof -
  obtain w1 x where e1: "encrypt_and_marshal lib (ote_crypto env 0) (tp_refresh p) w = (w1, x)" by fastforce
  obtain rt where x: "x = Inr rt"
    using assms e1 by (cases x) (simp_all add: upsert_account_with_tokens_def encrypt_refresh_def)
  obtain w2 y where e2: "encrypt_and_marshal lib (ote_crypto env 1) (tp_access p) w1 = (w2, y)" by fastforce
  obtain access where y: "y = Inr access"
    using assms e1 e2 x by (cases y) (simp_all add: upsert_account_with_tokens_def encrypt_refresh_def encrypt_access_def)
  obtain w3 z where u: "upsert_account env user provider email p rt access w2 = (w3, z)" by fastforce
  then have u': "upsert_account env user provider email p rt access w2 = (w', Inr a)"
    using assms e1 e2 x y by (cases z) (simp_all add: upsert_account_with_tokens_def encrypt_refresh_def encrypt_access_def)
  then obtain rt' where "rt = Some rt'" by (cases rt; cases "ote_db env 0") (simp_all add: upsert_account_def)
  then show ?thesis using that e1 e2 x y u' by blast
qed

text \<open>
  C21: What \<open>UpsertAccountWithTokens\<close> stored for a pair in the clear, as a code exchange gives it, loads
  again with the same access token from every state that holds no unexpired key of the stored token.
\<close>

theorem stored_tokens_load:
  assumes "aead_opens lib" "reference_codec lib" "kms_unwraps (cye_kms_reencrypt (ote_crypto env 1)) (cye_kms_decrypt later)"
    and nonce: "\<And>b. cye_random_nonce (ote_crypto env 1) = Inr b \<Longrightarrow> length b = 12"
    and "distinct (map oac_id (tw_accounts w))" "ote_new_id env \<notin> oac_id ` set (tw_accounts w)"
    and "tp_access p = Some t" "et_ciphertext t = bytes_of access" "access \<noteq> []" "\<not> is_encrypted (Some t)"
    and "upsert_account_with_tokens lib env user provider email (Some p) w = (w1, Inr a)"
    and cold: "\<And>k. live_dek (cye_now later) k tc = None"
  shows "\<exists>q. snd (load_tokens lib sh None later a (w1\<lparr>tw_crypto := tc\<rparr>)) = Inr q \<and>
    tp_plaintext q = Some access \<and> tp_expires q = tp_expires p \<and> tp_scopes q = tp_scopes p"
proof -
  obtain v1 rt v2 acc where u: "encrypt_and_marshal lib (ote_crypto env 0) (tp_refresh p) w = (v1, Inr (Some rt))"
    "encrypt_and_marshal lib (ote_crypto env 1) (tp_access p) v1 = (v2, Inr acc)"
    "upsert_account env user provider email p (Some rt) acc v2 = (w1, Inr a)"
    by (rule upsert_with_tokens_Inr [OF assms(11)])
  obtain y where rt: "rt = TokenJson y" using marshal_is_token [OF u(1)] by blast
  obtain x where x: "acc = Some (TokenJson x)" "encrypt_token lib (ote_crypto env 1) access (et_key_id t) (tw_crypto v1) = (tw_crypto v2, Inr x)"
    by (rule marshal_clear [OF u(2) [unfolded assms(7)] assms(8-10)])
  have same: "tw_accounts v2 = tw_accounts w" using marshal_accounts [OF u(1)] marshal_accounts [OF u(2)] by simp
  obtain r scopes where r: "find_account a w1 = Some r" "tp_scopes p = Some scopes" "oac_access r = acc" "oac_refresh r = rt"
    "oac_active r" "oac_expires r = tp_expires p" "oac_scopes r = scopes"
    by (rule upsert_account_row [OF u(3)]) (simp_all add: same assms(5,6))
  have "snd (decrypt_token lib later (Some x) tc) = Inr access"
    by (rule encrypted_decrypts [OF assms(1,2,3) x(2) _ cold]) (rule nonce)
  then obtain tc' where "decrypt_token lib later (Some x) tc = (tc', Inr access)" by (metis prod.collapse)
  moreover have "unmarshal_token s (Some (TokenJson z)) = Inr (Some z)" for s z by (simp add: unmarshal_token_Some)
  ultimately show ?thesis using r x(1) rt by (simp add: load_tokens_def pair_of_row_def)
qed

section \<open>An instance\<close>

abbreviation ex_key :: string where "ex_key \<equiv> ''gmail-refresh''"

definition ex_token_account :: oauth_account where
  "ex_token_account =
     \<lparr>oac_id = 1, oac_user = 5, oac_provider = ''gmail'', oac_email = ''ann@x.org'',
      oac_refresh = TokenJson (ex_token_of ex_key 3), oac_access = Some (TokenJson (ex_token_of ex_key 2)),
      oac_expires = Some 0, oac_scopes = [], oac_active = True, oac_deactivated = None, oac_created = 0, oac_updated = 0\<rparr>"

definition ex_token_world :: token_world where
  "ex_token_world = \<lparr>tw_crypto = ex_crypto_of ex_key, tw_accounts = [ex_token_account]\<rparr>"

definition ex_token_env :: token_env where
  "ex_token_env =
     \<lparr>ote_crypto = (\<lambda>_. sample_crypto_env 1 7), ote_db = (\<lambda>_. None), ote_now = 1, ote_new_id = 9, ote_show = (\<lambda>_. [])\<rparr>"

definition clear_pair :: "string \<Rightarrow> token_pair" where
  "clear_pair s =
     \<lparr>tp_refresh = Some \<lparr>et_ciphertext = bytes_of ''ref'', et_nonce = [], et_key_id = ''google-id''\<rparr>,
      tp_access = Some \<lparr>et_ciphertext = bytes_of s, et_nonce = [], et_key_id = ''google-id''\<rparr>,
      tp_plaintext = Some s, tp_expires = Some hour_ns, tp_scopes = Some []\<rparr>"

definition ex_provider :: oauth_provider where
  "ex_provider =
     \<lparr>opr_name = ''gmail'', opr_auth_url = (\<lambda>_ _. []), opr_exchange = (\<lambda>_ _. Inr (clear_pair ''first'')),
      opr_refresh = (\<lambda>_. Inr ((clear_pair ''new'')\<lparr>tp_refresh := None\<rparr>))\<rparr>"

lemma ex_key_is_no_reference: "ex_reference name b \<noteq> ex_key"
proof
  assume "ex_reference name b = ex_key"
  then have "parse_key_reference sample_crypto ex_key = Inr (b # replicate 32 7, name)" using ex_references_parse by metis
  moreover have "b64_std_decode ex_key = None" by code_simp
  ultimately show False by (simp add: parse_key_reference_def)
qed

lemma ex_refresh_runs:
  "\<exists>w' p. refresh_if_needed sample_crypto ex_token_env [(''gmail'', ex_provider)] 1 ex_token_world = (w', Inr p)"
proof -
  let ?tc = "ex_crypto_of ex_key" and ?c = "sample_crypto_env 1 7" and ?r = ex_token_account
  have env: "ote_crypto ex_token_env n = ?c" "ote_db ex_token_env n = None" "ote_now ex_token_env = 1" for n
    by (simp_all add: ex_token_env_def)
  have blank: "blank_but None ?tc" by (rule crypto_steps_blank [OF ex_reachable]) simp
  have cold: "b \<noteq> 1 \<Longrightarrow> live_dek 1 (ex_reference ex_key b) ?tc = None" for b
    using ex_not_live [of b 1 ex_key] by (simp add: ex_token_of_def)
  obtain tc1 where d1: "decrypt_token sample_crypto ?c (Some (ex_token_of ex_key 2)) ?tc = (tc1, Inr ''tok'')"
    "live_dek 1 (ex_reference ex_key 3) tc1 = None"
    using ex_decrypts [OF cold [of 2], of 7] cold [of 3] ex_key_is_no_reference [of ex_key] by (simp add: Let_def)
  obtain tc2 where d2: "decrypt_token sample_crypto ?c (Some (ex_token_of ex_key 3)) tc1 = (tc2, Inr ''tok'')"
    "\<exists>a. live_dek 1 ex_key tc2 = Some a"
    using ex_decrypts [OF d1(2), of 7] by (simp add: Let_def dek_cache_ttl_def)
  have b1: "blank_but None tc1" using decrypt_token_blank [OF blank, of sample_crypto ?c "Some (ex_token_of ex_key 2)"] d1(1) by simp
  have b2: "blank_but None tc2" using decrypt_token_blank [OF b1, of sample_crypto ?c "Some (ex_token_of ex_key 3)"] d2(1) by simp
  obtain tc3 x where e: "encrypt_token sample_crypto ?c ''new'' ex_key tc2 = (tc3, Inr x)"
    using d2(2) ex_encrypts_live [OF b2] by blast
  have x: "is_encrypted (Some x)"
    by (rule encrypted_is_encrypted [OF sample_crypto_laws(2) e]) (auto simp: sample_crypto_env_def)
  have bytes_of_new: "bytes_of ''new'' \<noteq> []" by (simp add: bytes_of_def)
  have load: "load_tokens sample_crypto (ote_show ex_token_env) None ?c 1 ex_token_world =
      (ex_token_world\<lparr>tw_crypto := tc1\<rparr>, Inr (pair_of_row ?r (Some (ex_token_of ex_key 3)) (Some (ex_token_of ex_key 2)) (Some ''tok'')))"
    using d1(1) by (simp add: load_tokens_def find_account_def ex_token_world_def ex_token_account_def unmarshal_token_def)
  have "decrypt_refresh_token sample_crypto (ote_show ex_token_env) None ?c 1 (ex_token_world\<lparr>tw_crypto := tc1\<rparr>) =
      (ex_token_world\<lparr>tw_crypto := tc2\<rparr>, Inr ''tok'')"
    using d2(1) by (simp add: decrypt_refresh_token_def ex_token_world_def ex_token_account_def unmarshal_token_def)
  moreover have "\<exists>w' p. store_new_pair sample_crypto ex_token_env ex_key 1 ((clear_pair ''new'')\<lparr>tp_refresh := None\<rparr>)
      (ex_token_world\<lparr>tw_crypto := tc2\<rparr>) = (w', Inr p)"
    using e x bytes_of_new
    by (simp add: store_new_pair_def env clear_pair_def encrypt_new_def Let_def
        update_access_token_def encrypt_access_def encrypt_refresh_def encrypt_and_marshal_def)
  ultimately have "\<exists>w' p. refresh_now sample_crypto ex_token_env [(''gmail'', ex_provider)] 1 (ex_token_world\<lparr>tw_crypto := tc1\<rparr>) = (w', Inr p)"
    by (simp add: refresh_now_def env find_account_def ex_token_world_def ex_token_account_def ex_provider_def)
  then show ?thesis using load
    by (simp add: refresh_if_needed_def env still_valid_def pair_of_row_def ex_token_account_def near_expiry_def)
qed

lemma next_refresh_stores_under_zeros_witness:
  "\<exists>w' p token q r'. refresh_if_needed sample_crypto ex_token_env [(''gmail'', ex_provider)] 1 ex_token_world = (w', Inr p) \<and>
     opr_refresh ex_provider token = Inr q \<and> clear_token (tp_access q) = Some (bytes_of ''new'') \<and>
     find_account 1 w' = Some r' \<and> stored_under_zeros sample_crypto q r'"
proof -
  obtain w' p where ok: "refresh_if_needed sample_crypto ex_token_env [(''gmail'', ex_provider)] 1 ex_token_world = (w', Inr p)"
    using ex_refresh_runs by blast
  have reach: "(crypto_step sample_crypto)\<^sup>*\<^sup>* new_token_crypto (tw_crypto ex_token_world)"
    by (simp add: ex_token_world_def ex_reachable)
  have row: "find_account 1 ex_token_world = Some ex_token_account"
    by (simp add: find_account_def ex_token_world_def ex_token_account_def)
  have ref: "parse_key_reference sample_crypto (et_key_id (ex_token_of ex_key 2)) = Inr (2 # replicate 32 7, opr_name ex_provider @ ''-refresh'')"
    by (simp add: ex_token_of_def ex_references_parse ex_provider_def)
  have cold: "live_dek (cye_now (ote_crypto ex_token_env 0)) (et_key_id (ex_token_of ex_key 2)) (tw_crypto ex_token_world) = None"
    by (simp add: ex_token_world_def ex_not_live)
  have "\<exists>token q r'. opr_refresh ex_provider token = Inr q \<and> find_account 1 w' = Some r' \<and> stored_under_zeros sample_crypto q r'"
    by (rule next_refresh_stores_under_zeros [OF reach sample_crypto_laws(2,1) row _ _ ref cold _ _ _ _ ok])
      (simp_all add: ex_token_account_def ex_token_env_def sample_crypto_env_def ex_provider_def)
  moreover have "clear_token (tp_access q) = Some (bytes_of ''new'')" if "opr_refresh ex_provider token = Inr q" for token q
    using that by (auto simp: ex_provider_def clear_pair_def clear_token_def bytes_of_def)
  ultimately show ?thesis using ok by blast
qed

lemma tokens_load_once_witness:
  "\<exists>w1 p err. load_tokens sample_crypto (\<lambda>_. []) None (sample_crypto_env 1 7) 1 ex_token_world = (w1, Inr p) \<and>
     snd (load_tokens sample_crypto (\<lambda>_. []) None (sample_crypto_env 2 7) 1 w1) = Inl err"
proof -
  have row: "find_account 1 ex_token_world = Some ex_token_account"
    by (simp add: find_account_def ex_token_world_def ex_token_account_def)
  have cold: "live_dek 1 (et_key_id (ex_token_of ex_key 2)) (ex_crypto_of ex_key) = None" by (rule ex_not_live) simp
  then have "\<exists>tc. decrypt_token sample_crypto (sample_crypto_env 1 7) (Some (ex_token_of ex_key 2)) (ex_crypto_of ex_key) = (tc, Inr ''tok'')"
    using ex_decrypts [of 1 ex_key 2 "ex_crypto_of ex_key" 7] by (simp add: ex_token_of_def Let_def)
  then obtain w1 p where load: "load_tokens sample_crypto (\<lambda>_. []) None (sample_crypto_env 1 7) 1 ex_token_world = (w1, Inr p)"
    by (auto simp: load_tokens_def find_account_def ex_token_world_def ex_token_account_def unmarshal_token_def)
  have "cl_open sample_crypto (replicate 32 0) (et_nonce (ex_token_of ex_key 2)) (et_ciphertext (ex_token_of ex_key 2)) =
      Inl ''cipher: message authentication failed''"
    by (simp add: sample_crypto_def ex_token_of_def)
  moreover have "(crypto_step sample_crypto)\<^sup>*\<^sup>* new_token_crypto (tw_crypto ex_token_world)"
    by (simp add: ex_token_world_def ex_reachable)
  moreover have "live_dek (cye_now (sample_crypto_env 1 7)) (et_key_id (ex_token_of ex_key 2)) (tw_crypto ex_token_world) = None"
    using cold by (simp add: sample_env_simps ex_token_world_def)
  moreover have "oac_access ex_token_account = Some (TokenJson (ex_token_of ex_key 2))" by (simp add: ex_token_account_def)
  ultimately have "\<exists>err. snd (load_tokens sample_crypto (\<lambda>_. []) None (sample_crypto_env 2 7) 1 w1) = Inl err \<and>
      (\<exists>x. typed_error err = Some x \<and> ig_code x = ''token_decrypt_failed'' \<and> ig_retry x)"
    by (intro tokens_load_once [OF _ row _ _ load, where later = "sample_crypto_env 2 7"]) (simp_all add: sample_env_simps)
  then show ?thesis using load by blast
qed

lemma stored_tokens_load_witness:
  "\<exists>w1 q. upsert_account_with_tokens sample_crypto ex_token_env 5 ''gmail'' ''bob@x.org'' (Some (clear_pair ''first''))
       \<lparr>tw_crypto = new_token_crypto, tw_accounts = []\<rparr> = (w1, Inr 9) \<and>
     snd (load_tokens sample_crypto (\<lambda>_. []) None (sample_crypto_env 2 7) 9 (w1\<lparr>tw_crypto := new_token_crypto\<rparr>)) = Inr q \<and>
     tp_plaintext q = Some ''first''"
proof -
  let ?w = "\<lparr>tw_crypto = new_token_crypto, tw_accounts = []\<rparr>" and ?c = "sample_crypto_env 1 7"
  have env: "ote_crypto ex_token_env n = ?c" "ote_db ex_token_env n = None" "ote_new_id ex_token_env = 9" for n
    by (simp_all add: ex_token_env_def)
  have blank: "blank_but None new_token_crypto" by (simp add: blank_but_def new_token_crypto_def)
  obtain tc1 x1 where e1: "encrypt_token sample_crypto ?c ''ref'' ''google-id'' new_token_crypto = (tc1, Inr x1)"
    using ex_encrypts [OF blank, of "''ref''" "''google-id''" 1 7] by auto
  have blank1: "blank_but None tc1" using encrypt_token_blank [OF blank, of sample_crypto ?c "''ref''" "''google-id''"] e1 by simp
  obtain tc2 x2 where e2: "encrypt_token sample_crypto ?c ''first'' ''google-id'' tc1 = (tc2, Inr x2)"
    using ex_encrypts [OF blank1, of "''first''" "''google-id''" 1 7] by auto
  have full: "bytes_of ''ref'' \<noteq> []" "bytes_of ''first'' \<noteq> []" by (simp_all add: bytes_of_def)
  have up: "\<exists>w1. upsert_account_with_tokens sample_crypto ex_token_env 5 ''gmail'' ''bob@x.org'' (Some (clear_pair ''first'')) ?w = (w1, Inr 9)"
    using e1 e2 full
    by (simp add: upsert_account_with_tokens_def env clear_pair_def encrypt_refresh_def encrypt_access_def encrypt_and_marshal_def
        is_encrypted_def nonce_size_def upsert_account_def)
  then obtain w1 where u: "upsert_account_with_tokens sample_crypto ex_token_env 5 ''gmail'' ''bob@x.org'' (Some (clear_pair ''first'')) ?w = (w1, Inr 9)"
    by blast
  have "\<exists>q. snd (load_tokens sample_crypto (\<lambda>_. []) None (sample_crypto_env 2 7) 9 (w1\<lparr>tw_crypto := new_token_crypto\<rparr>)) = Inr q \<and>
      tp_plaintext q = Some ''first'' \<and> tp_expires q = tp_expires (clear_pair ''first'') \<and> tp_scopes q = tp_scopes (clear_pair ''first'')"
    by (rule stored_tokens_load [OF sample_crypto_laws _ _ _ _ _ _ _ _ u, where t = "\<lparr>et_ciphertext = bytes_of ''first'', et_nonce = [], et_key_id = ''google-id''\<rparr>"])
      (auto simp: env kms_unwraps_def clear_pair_def is_encrypted_def nonce_size_def live_dek_def new_token_crypto_def sample_crypto_env_def)
  then show ?thesis using u by blast
qed

end
