(* ===== verification/OAuth_Providers.thy ===== *)
theory OAuth_Providers
  imports OAuth_Store Go_Json
begin

text \<open>
  What the two OAuth providers share (\<open>src/ingestion/internal/oauth/provider.go\<close>, the provider types of
  \<open>models.go\<close>): their configuration, the URL encoding of forms, replies over HTTP, the tokens in the clear
  of a token response, and the values that both produce.
\<close>

section \<open>Providers\<close>

record oauth_config =
  ocf_google_id :: string
  ocf_google_secret :: string
  ocf_google_redirect :: string
  ocf_ms_id :: string
  ocf_ms_secret :: string
  ocf_ms_redirect :: string
  ocf_kms_key :: string

record client_app =
  cap_id :: string
  cap_secret :: string
  cap_redirect :: string

datatype provider_client = GoogleClient client_app | MicrosoftClient client_app

definition provider_gmail :: string where "provider_gmail = ''gmail''"
definition provider_outlook :: string where "provider_outlook = ''outlook''"

definition provider_names :: "string list" where "provider_names = [provider_gmail, provider_outlook]"
definition is_valid_provider :: "string \<Rightarrow> bool" where "is_valid_provider name \<longleftrightarrow> name = provider_gmail \<or> name = provider_outlook"

definition new_google_provider :: "oauth_config \<Rightarrow> client_app" where
  "new_google_provider cfg = \<lparr>cap_id = ocf_google_id cfg, cap_secret = ocf_google_secret cfg, cap_redirect = ocf_google_redirect cfg\<rparr>"

definition new_microsoft_provider :: "oauth_config \<Rightarrow> client_app" where
  "new_microsoft_provider cfg = \<lparr>cap_id = ocf_ms_id cfg, cap_secret = ocf_ms_secret cfg, cap_redirect = ocf_ms_redirect cfg\<rparr>"

definition new_provider :: "string \<Rightarrow> oauth_config \<Rightarrow> string + provider_client" where
  "new_provider name cfg =
     (if name = provider_gmail then Inr (GoogleClient (new_google_provider cfg))
      else if name = provider_outlook then Inr (MicrosoftClient (new_microsoft_provider cfg))
      else Inl (''unsupported OAuth provider: '' @ quote_text name @ '' (expected '' @ quote_text provider_gmail @ '' or '' @
             quote_text provider_outlook @ '')''))"

section \<open>Forms\<close>

definition upper_hex :: "nat \<Rightarrow> char" where "upper_hex n = char_of (if n < 10 then 48 + n else 55 + n)"

definition unreserved :: "char \<Rightarrow> bool" where
  "unreserved c =
     (let n = of_char c :: nat
      in (48 \<le> n \<and> n \<le> 57) \<or> (65 \<le> n \<and> n \<le> 90) \<or> (97 \<le> n \<and> n \<le> 122) \<or>
         c \<in> {CHR ''-'', CHR ''_'', CHR ''.'', CHR ''~''})"

text \<open>\<open>url.QueryEscape\<close> and \<open>url.Values.Encode\<close>, which sorts by key.\<close>

definition escape_char :: "char \<Rightarrow> string" where
  "escape_char c =
     (if unreserved c then [c] else if c = CHR '' '' then ''+''
      else (let n = of_char c :: nat in [CHR ''%'', upper_hex (n div 16), upper_hex (n mod 16)]))"

definition query_escape :: "string \<Rightarrow> string" where "query_escape s = concat (map escape_char s)"

fun join_with :: "string \<Rightarrow> string list \<Rightarrow> string" where
  "join_with sep [] = []"
| "join_with sep [s] = s"
| "join_with sep (s # t # r) = s @ sep @ join_with sep (t # r)"

definition form_encode :: "(string \<times> string) list \<Rightarrow> string" where
  "form_encode kvs = join_with ''&'' (map (\<lambda>(k, v). query_escape k @ ''='' @ query_escape v) (sort_key fst kvs))"

text \<open>No reply, or a status with an error of reading the body and what was read of it.\<close>

datatype http_reply = HttpFailed string | HttpReply nat "string option" bytes

section \<open>Values\<close>

text \<open>A token in the clear, which the caller encrypts; an empty one is none.\<close>

definition clear_of :: "string \<Rightarrow> string \<Rightarrow> encrypted_token option" where
  "clear_of keyid s = (if s = [] then None else Some \<lparr>et_ciphertext = bytes_of s, et_nonce = [], et_key_id = keyid\<rparr>)"

definition clear_token_pair :: "string \<Rightarrow> string \<Rightarrow> string \<Rightarrow> instant \<Rightarrow> string list \<Rightarrow> token_pair" where
  "clear_token_pair keyid refresh access expires scopes =
     \<lparr>tp_refresh = clear_of keyid refresh, tp_access = clear_of keyid access,
      tp_plaintext = (if access = [] then None else Some access), tp_expires = Some expires, tp_scopes = Some scopes\<rparr>"

record webhook_payload =
  whp_message_id :: string
  whp_history_id :: string
  whp_delta_link :: string
  whp_change_type :: string
  whp_received_at :: instant

record sent_mail =
  sml_message_id :: string
  sml_source :: string
  sml_sender_email :: string
  sml_sender_name :: string
  sml_recipients :: "string list"
  sml_subject :: string
  sml_in_reply_to :: "string option"
  sml_references :: "string list"
  sml_body_text :: string
  sml_body_html :: string
  sml_has_attachments :: bool
  sml_received_at :: instant

record mail_request =
  mrq_to :: string
  mrq_subject :: string
  mrq_body_text :: string
  mrq_body_html :: string
  mrq_in_reply_to :: "string option"
  mrq_references :: "string list"

definition webhook_invalid :: "string \<Rightarrow> store_error" where
  "webhook_invalid msg = store_failed ''webhook_invalid'' msg False"

definition map_get :: "(string \<rightharpoonup> string) \<Rightarrow> string \<Rightarrow> string" where
  "map_get m k = (case m k of None \<Rightarrow> [] | Some v \<Rightarrow> v)"

text \<open>What a call ends with when it may panic.\<close>

datatype 'a call_end = Returns 'a | Fails string | Panics

section \<open>Lemmas\<close>

lemma escape_char_clean: "c \<in> set (escape_char d) \<Longrightarrow> unreserved c \<or> c = CHR ''+'' \<or> c = CHR ''%''"
proof -
  have hex: "unreserved (upper_hex n)" if "n < 16" for n
  proof -
    have "(of_char (upper_hex n) :: nat) = (if n < 10 then 48 + n else 55 + n)" using that by (simp add: upper_hex_def)
    then show ?thesis using that by (simp add: unreserved_def Let_def split: if_splits)
  qed
  have less: "(of_char d :: nat) div 16 < 16" by (rule less_mult_imp_div_less) simp
  assume "c \<in> set (escape_char d)"
  then show ?thesis using hex [OF less] hex [of "of_char d mod 16"]
    by (auto simp: escape_char_def Let_def split: if_splits)
qed

text \<open>No separator of a form survives in an escaped value, so that a value cannot add a parameter.\<close>

lemma query_escape_clean: "c \<in> set (query_escape s) \<Longrightarrow> c \<noteq> CHR ''&'' \<and> c \<noteq> CHR ''='' \<and> c \<noteq> CHR ''#''"
proof -
  assume "c \<in> set (query_escape s)"
  then obtain d where "c \<in> set (escape_char d)" by (auto simp: query_escape_def)
  then show ?thesis using escape_char_clean [of c d] by (auto simp: unreserved_def Let_def)
qed

lemma clear_pair_is_clear:
  "tp_access (clear_token_pair k r a e s) = Some t \<Longrightarrow> \<not> is_encrypted (Some t) \<and> et_ciphertext t = bytes_of a \<and> a \<noteq> []"
  "tp_refresh (clear_token_pair k r a e s) = Some t \<Longrightarrow> \<not> is_encrypted (Some t) \<and> et_ciphertext t = bytes_of r \<and> r \<noteq> []"
  by (auto simp: clear_token_pair_def clear_of_def is_encrypted_def nonce_size_def split: if_splits)

end
