(* ===== verification/OAuth_Google.thy ===== *)
theory OAuth_Google
  imports OAuth_Providers
begin

text \<open>
  The Google provider (\<open>src/ingestion/internal/oauth/google.go\<close>): login URL, code exchange and refresh over
  the \<open>oauth2\<close> package, webhook payloads, the sent mail of an account, and the mail it sends. The packages
  \<open>oauth2\<close> and \<open>gmail\<close>, HTTP, JSON decoding and the parsing of dates are parameters.
\<close>

section \<open>Tokens\<close>

record oauth2_config =
  o2c_client :: string
  o2c_secret :: string
  o2c_redirect :: string
  o2c_scopes :: "string list"

record oauth2_token =
  o2t_access :: string
  o2t_refresh :: string
  o2t_expiry :: "instant option"

record oauth2_lib =
  o2_auth_code_url :: "oauth2_config \<Rightarrow> string \<Rightarrow> string"
  o2_exchange :: "oauth2_config \<Rightarrow> string \<Rightarrow> string + oauth2_token"
  o2_token :: "oauth2_config \<Rightarrow> string \<Rightarrow> string + oauth2_token"

definition gmail_scopes :: "string list" where
  "gmail_scopes =
     [''https://www.googleapis.com/auth/gmail.readonly'', ''https://www.googleapis.com/auth/gmail.send'',
      ''https://www.googleapis.com/auth/gmail.modify'', ''https://www.googleapis.com/auth/calendar'',
      ''https://www.googleapis.com/auth/userinfo.email'']"

definition google_config :: "client_app \<Rightarrow> string \<Rightarrow> oauth2_config" where
  "google_config p redirect =
     \<lparr>o2c_client = cap_id p, o2c_secret = cap_secret p,
      o2c_redirect = (if redirect = [] then cap_redirect p else redirect), o2c_scopes = gmail_scopes\<rparr>"

definition google_auth_url :: "oauth2_lib \<Rightarrow> client_app \<Rightarrow> string \<Rightarrow> string \<Rightarrow> string" where
  "google_auth_url lib p state redirect = o2_auth_code_url lib (google_config p redirect) state"

text \<open>A token without an expiry is taken to last a quarter of an hour.\<close>

definition google_pair :: "client_app \<Rightarrow> instant \<Rightarrow> oauth2_token \<Rightarrow> token_pair" where
  "google_pair p now t =
     clear_token_pair (''google-'' @ cap_id p) (o2t_refresh t) (o2t_access t)
       (case o2t_expiry t of Some e \<Rightarrow> e | None \<Rightarrow> now + 15 * minute_ns) gmail_scopes"

definition google_exchange :: "oauth2_lib \<Rightarrow> instant \<Rightarrow> client_app \<Rightarrow> string \<Rightarrow> string \<Rightarrow> string + token_pair" where
  "google_exchange lib now p code redirect =
     (case o2_exchange lib (google_config p redirect) code of
        Inl e \<Rightarrow> Inl (''failed to exchange authorization code: '' @ e)
      | Inr t \<Rightarrow> Inr (google_pair p now t))"

definition google_refresh :: "oauth2_lib \<Rightarrow> instant \<Rightarrow> client_app \<Rightarrow> string \<Rightarrow> store_error + token_pair" where
  "google_refresh lib now p token =
     (if token = [] then Inl (StorePlain ''refresh token is empty'')
      else (case o2_token lib ((google_config p [])\<lparr>o2c_redirect := []\<rparr>) token of
              Inl e \<Rightarrow>
                Inl (if str_contains e ''invalid_grant''
                     then store_failed ''oauth_expired'' (''refresh token expired or revoked: '' @ e) False
                     else StorePlain (''failed to refresh token: '' @ e))
            | Inr t \<Rightarrow> Inr (google_pair p now t)))"

definition google_provider :: "oauth2_lib \<Rightarrow> instant \<Rightarrow> client_app \<Rightarrow> oauth_provider" where
  "google_provider lib now p =
     \<lparr>opr_name = provider_gmail, opr_auth_url = google_auth_url lib p, opr_exchange = google_exchange lib now p,
      opr_refresh = (\<lambda>t. case google_refresh lib now p t of Inl e \<Rightarrow> Inl (store_error_text e) | Inr q \<Rightarrow> Inr q)\<rparr>"

text \<open>\<open>post\<close> sends a form to the revocation endpoint; an error of reading the refusal is ignored.\<close>

definition google_revoke :: "(string \<Rightarrow> http_reply) \<Rightarrow> string \<Rightarrow> string option" where
  "google_revoke post token =
     (if token = [] then Some ''token is empty''
      else (case post (form_encode [(''token'', token)]) of
              HttpFailed e \<Rightarrow> Some (''revoke request failed: '' @ e)
            | HttpReply code _ body \<Rightarrow>
                if code \<noteq> 200 then Some (''revoke failed with status '' @ nat_decimal code @ '': '' @ text_of_bytes body) else None))"

section \<open>Webhooks\<close>

record pubsub_push =
  psp_data :: string
  psp_message_id :: string

record gmail_notification =
  gnt_email :: string
  gnt_history_id :: "64 word"

record google_decode =
  gdc_push :: "bytes \<Rightarrow> pubsub_push option"
  gdc_notification :: "bytes \<Rightarrow> string + gmail_notification"

definition first_nonempty :: "string \<Rightarrow> string \<Rightarrow> string" where
  "first_nonempty a b = (if a = [] then b else a)"

definition parse_direct_payload :: "instant \<Rightarrow> (string \<rightharpoonup> string) \<Rightarrow> webhook_payload" where
  "parse_direct_payload now headers =
     \<lparr>whp_message_id = first_nonempty (map_get headers ''X-Goog-Message-Number'') (map_get headers ''X-Goog-Channel-ID''),
      whp_history_id = first_nonempty (map_get headers ''X-Goog-Resource-State'') (map_get headers ''X-Goog-Channel-Token''),
      whp_delta_link = [], whp_change_type = ''created'', whp_received_at = now\<rparr>"

definition google_validate_webhook ::
  "google_decode \<Rightarrow> instant \<Rightarrow> bytes \<Rightarrow> (string \<rightharpoonup> string) \<Rightarrow> store_error + webhook_payload" where
  "google_validate_webhook dec now payload headers =
     (if payload = [] then Inl (webhook_invalid ''empty webhook payload'')
      else (case gdc_push dec payload of
              None \<Rightarrow> Inr (parse_direct_payload now headers)
            | Some m \<Rightarrow>
                (case gdc_notification dec (case b64_std_decode (psp_data m) of Some d \<Rightarrow> d | None \<Rightarrow> bytes_of (psp_data m)) of
                   Inl e \<Rightarrow> Inl (webhook_invalid (''failed to parse Gmail push notification: '' @ e))
                 | Inr n \<Rightarrow>
                     Inr \<lparr>whp_message_id = psp_message_id m, whp_history_id = nat_decimal (unat (gnt_history_id n)),
                          whp_delta_link = [], whp_change_type = ''created'', whp_received_at = now\<rparr>)))"

section \<open>Addresses\<close>

text \<open>\<open>strings.LastIndex\<close> for one character, and \<open>strings.Trim\<close> with the quote.\<close>

definition last_index :: "char \<Rightarrow> string \<Rightarrow> nat option" where
  "last_index c s =
     (if c \<in> set s then Some (length s - Suc (length (takeWhile ((\<noteq>) c) (rev s)))) else None)"

definition trim_quotes :: "string \<Rightarrow> string" where
  "trim_quotes s = rev (dropWhile ((=) (CHR 0x22)) (rev (dropWhile ((=) (CHR 0x22)) s)))"

text \<open>
  Address and name of a header. Slicing from behind the last \<open><\<close> to the last \<open>>\<close> panics when the
  latter comes first, which is \<open>None\<close>.
\<close>

definition parse_address :: "string \<Rightarrow> (string \<times> string) option" where
  "parse_address text =
     (let addr = trim_space text
      in case (last_index (CHR ''<'') addr, last_index (CHR ''>'') addr) of
           (Some i, Some j) \<Rightarrow>
             if j < Suc i then None
             else (let email = trim_space (take (j - Suc i) (drop (Suc i) addr));
                       name = trim_space (trim_quotes (take i addr))
                   in Some (first_nonempty email addr, name))
         | _ \<Rightarrow> Some (addr, []))"

fun parse_addresses :: "string list \<Rightarrow> string list option" where
  "parse_addresses [] = Some []"
| "parse_addresses (a # r) =
     (if trim_space a = [] then parse_addresses r
      else (case parse_address (trim_space a) of
              None \<Rightarrow> None
            | Some (e, _) \<Rightarrow> map_option (\<lambda>es. if e \<noteq> [] then e # es else es) (parse_addresses r)))"

definition parse_address_list :: "string \<Rightarrow> string list option" where
  "parse_address_list s = parse_addresses (split_on (CHR '','') s)"

section \<open>Messages\<close>

datatype gmail_part =
  GmailPart (gpt_mime: string) (gpt_filename: string) (gpt_headers: "(string \<times> string) list") (gpt_body: "string option")
    (gpt_parts: "gmail_part list")

text \<open>An absent body and an absent payload are \<open>None\<close>; reading the latter panics.\<close>

record gmail_full =
  gfl_id :: string
  gfl_payload :: "gmail_part option"

definition decode_payload_body :: "gmail_part \<Rightarrow> string" where
  "decode_payload_body p =
     (case gpt_body p of
        None \<Rightarrow> []
      | Some d \<Rightarrow> if d = [] then [] else (case decode_raw d of None \<Rightarrow> [] | Some b \<Rightarrow> text_of_bytes b))"

definition pick_body :: "string \<times> string \<Rightarrow> string \<times> string \<Rightarrow> string \<times> string" where
  "pick_body p acc = (first_nonempty (fst acc) (fst p), first_nonempty (snd acc) (snd p))"

fun extract_body :: "gmail_part \<Rightarrow> string \<times> string" where
  "extract_body (GmailPart mime file headers body parts) =
     (let m = to_lower mime; data = decode_payload_body (GmailPart mime file headers body parts)
      in if m = ''text/plain'' then (data, [])
         else if m = ''text/html'' then ([], data)
         else if m \<in> {''multipart/alternative'', ''multipart/mixed'', ''multipart/related''}
         then fold pick_body (map extract_body parts) ([], [])
         else ([], []))"

definition apply_gmail_header ::
  "(string \<Rightarrow> instant option) \<Rightarrow> string \<Rightarrow> string \<times> string \<Rightarrow> sent_mail \<Rightarrow> sent_mail option" where
  "apply_gmail_header parse_date mid h m =
     (let name = to_lower (fst h); v = snd h
      in if name = ''from'' then map_option (\<lambda>(e, n). m\<lparr>sml_sender_email := e, sml_sender_name := n\<rparr>) (parse_address v)
         else if name = ''to'' then map_option (\<lambda>es. m\<lparr>sml_recipients := es\<rparr>) (parse_address_list v)
         else if name = ''subject'' then Some (m\<lparr>sml_subject := v\<rparr>)
         else if name = ''in-reply-to'' then Some (m\<lparr>sml_in_reply_to := Some v\<rparr>)
         else if name = ''references'' then Some (m\<lparr>sml_references := split_on (CHR '' '') v\<rparr>)
         else if name = ''message-id''
         then Some (if sml_message_id m = [] \<or> sml_message_id m = mid then m\<lparr>sml_message_id := v\<rparr> else m)
         else if name = ''date'' then Some (case parse_date v of Some t \<Rightarrow> m\<lparr>sml_received_at := t\<rparr> | None \<Rightarrow> m)
         else Some m)"

fun apply_gmail_headers ::
  "(string \<Rightarrow> instant option) \<Rightarrow> string \<Rightarrow> (string \<times> string) list \<Rightarrow> sent_mail \<Rightarrow> sent_mail option" where
  "apply_gmail_headers parse_date mid [] m = Some m"
| "apply_gmail_headers parse_date mid (h # hs) m =
     (case apply_gmail_header parse_date mid h m of None \<Rightarrow> None | Some m' \<Rightarrow> apply_gmail_headers parse_date mid hs m')"

record gmail_service =
  gsv_error :: "string option"
  gsv_list :: "string \<Rightarrow> string \<Rightarrow> string + string list \<times> string"
  gsv_get :: "string \<Rightarrow> string + gmail_full"
  gsv_send :: "string \<Rightarrow> string + string"
  gsv_parse_date :: "string \<Rightarrow> instant option"
  gsv_now :: instant

definition blank_mail :: "string \<Rightarrow> string \<Rightarrow> instant \<Rightarrow> sent_mail" where
  "blank_mail mid source now =
     \<lparr>sml_message_id = mid, sml_source = source, sml_sender_email = [], sml_sender_name = [], sml_recipients = [],
      sml_subject = [], sml_in_reply_to = None, sml_references = [], sml_body_text = [], sml_body_html = [],
      sml_has_attachments = False, sml_received_at = now\<rparr>"

definition fetch_and_parse_message :: "gmail_service \<Rightarrow> string \<Rightarrow> sent_mail call_end" where
  "fetch_and_parse_message s mid =
     (case gsv_get s mid of
        Inl e \<Rightarrow> Fails (''failed to get message '' @ mid @ '': '' @ e)
      | Inr msg \<Rightarrow>
          (case gfl_payload msg of
             None \<Rightarrow> Panics
           | Some p \<Rightarrow>
               (case apply_gmail_headers (gsv_parse_date s) (gfl_id msg) (gpt_headers p) (blank_mail mid provider_gmail (gsv_now s)) of
                  None \<Rightarrow> Panics
                | Some m \<Rightarrow>
                    Returns (m\<lparr>sml_body_text := fst (extract_body p), sml_body_html := snd (extract_body p),
                               sml_has_attachments := (gpt_parts p \<noteq> [])\<rparr>))))"

text \<open>The messages of a page; those that cannot be fetched are left out.\<close>

fun fetch_messages :: "gmail_service \<Rightarrow> string list \<Rightarrow> sent_mail list option" where
  "fetch_messages s [] = Some []"
| "fetch_messages s (mid # r) =
     (case fetch_and_parse_message s mid of
        Panics \<Rightarrow> None
      | Fails _ \<Rightarrow> fetch_messages s r
      | Returns m \<Rightarrow> map_option ((#) m) (fetch_messages s r))"

text \<open>All pages, without a bound; \<open>None\<close> is a loop that never ends.\<close>

partial_function (option) google_sent_pages ::
  "gmail_service \<Rightarrow> string \<Rightarrow> string \<Rightarrow> sent_mail list \<Rightarrow> sent_mail list call_end option" where
  "google_sent_pages s query token acc =
     (case gsv_list s query token of
        Inl e \<Rightarrow> Some (Fails (''failed to list sent messages: '' @ e))
      | Inr (ids, next) \<Rightarrow>
          (case fetch_messages s ids of
             None \<Rightarrow> Some Panics
           | Some ms \<Rightarrow> if next = [] then Some (Returns (acc @ ms)) else google_sent_pages s query next (acc @ ms)))"

definition sent_since :: "instant \<Rightarrow> int \<Rightarrow> string" where
  "sent_since now days =
     (let (y, m, d) = civil_date (now div day_ns - days)
      in ''in:sent after:'' @ pad_decimal 4 y @ ''/'' @ pad_decimal 2 m @ ''/'' @ pad_decimal 2 d)"

definition google_fetch_sent_history :: "gmail_service \<Rightarrow> string \<Rightarrow> int \<Rightarrow> sent_mail list call_end option" where
  "google_fetch_sent_history s token days =
     (if token = [] then Some (Fails ''access token is empty'')
      else (case gsv_error s of
              Some e \<Rightarrow> Some (Fails (''failed to create Gmail service: '' @ e))
            | None \<Rightarrow> google_sent_pages s (sent_since (gsv_now s) (if days \<le> 0 then 30 else days)) [] []))"

section \<open>Sending\<close>

definition crlf :: string where "crlf = [CHR 0x0D, CHR 0x0A]"

definition mail_headers :: "mail_request \<Rightarrow> string list" where
  "mail_headers r =
     [''To: '' @ mrq_to r, ''Subject: '' @ mrq_subject r] @
     (case mrq_in_reply_to r of None \<Rightarrow> [] | Some i \<Rightarrow> [''In-Reply-To: '' @ i]) @
     (if mrq_references r = [] then [] else [''References: '' @ join_with '' '' (mrq_references r)]) @
     [''MIME-Version: 1.0'']"

definition text_plain :: string where "text_plain = ''Content-Type: text/plain; charset='' @ quote_text ''UTF-8''"
definition text_html :: string where "text_html = ''Content-Type: text/html; charset='' @ quote_text ''UTF-8''"

definition crlf_lines :: "string list \<Rightarrow> string" where "crlf_lines ls = concat (map (\<lambda>l. l @ crlf) ls)"

definition rfc2822_message :: "string \<Rightarrow> mail_request \<Rightarrow> string" where
  "rfc2822_message boundary r =
     crlf_lines (mail_headers r) @
     (if mrq_body_html r \<noteq> []
      then crlf_lines [''Content-Type: multipart/alternative; boundary='' @ quote_text boundary, [], ''--'' @ boundary, text_plain, []] @
        mrq_body_text r @ crlf @ crlf_lines [''--'' @ boundary, text_html, []] @ mrq_body_html r @ crlf @
        crlf_lines [''--'' @ boundary @ ''--'']
      else crlf_lines [text_plain, []] @ mrq_body_text r)"

definition google_send_email :: "gmail_service \<Rightarrow> string \<Rightarrow> mail_request \<Rightarrow> string + string" where
  "google_send_email s token r =
     (if token = [] then Inl ''access token is empty''
      else if mrq_to r = [] \<or> mrq_subject r = [] then Inl ''recipient and subject are required''
      else (let raw = b64_encode_padded b64_char (bytes_of (rfc2822_message (''boundary_'' @ int_decimal (gsv_now s)) r))
            in case gsv_error s of
                 Some e \<Rightarrow> Inl (''failed to create Gmail service: '' @ e)
               | None \<Rightarrow> (case gsv_send s raw of Inl e \<Rightarrow> Inl (''failed to send email: '' @ e) | Inr i \<Rightarrow> Inr i)))"

section \<open>Facts\<close>

text \<open>A header whose last closing bracket precedes its last opening bracket panics, and only such a header does.\<close>

lemma takeWhile_before: "c \<notin> set b \<Longrightarrow> takeWhile ((\<noteq>) c) (rev b @ c # r) = rev b"
  by (subst takeWhile_append2) auto

lemma last_index_split:
  "last_index c s = Some i \<longleftrightarrow> (\<exists>a b. s = a @ c # b \<and> length a = i \<and> c \<notin> set b)"
proof
  assume l: "last_index c s = Some i"
  then have c: "c \<in> set s" by (simp add: last_index_def split: if_splits)
  then obtain a b where s: "s = a @ c # b" "c \<notin> set b" using split_list_last by metis
  then have "takeWhile ((\<noteq>) c) (rev s) = rev b" by (simp add: takeWhile_before)
  then show "\<exists>a b. s = a @ c # b \<and> length a = i \<and> c \<notin> set b" using l s by (auto simp: last_index_def)
next
  assume "\<exists>a b. s = a @ c # b \<and> length a = i \<and> c \<notin> set b"
  then obtain a b where s: "s = a @ c # b" "length a = i" "c \<notin> set b" by blast
  then have "takeWhile ((\<noteq>) c) (rev s) = rev b" by (simp add: takeWhile_before)
  then show "last_index c s = Some i" using s by (simp add: last_index_def)
qed

lemma parse_address_panics:
  "parse_address s = None \<longleftrightarrow>
     (\<exists>i j. last_index (CHR ''<'') (trim_space s) = Some i \<and> last_index (CHR ''>'') (trim_space s) = Some j \<and> j \<le> i)"
  by (auto simp: parse_address_def Let_def split: option.splits)

lemma crossed_brackets_panic: "parse_address ''a> <b'' = None"
  by code_simp

text \<open>One such sender among the messages of a page ends the whole fetch in a panic.\<close>

lemma bad_sender_panics:
  assumes "gsv_get s mid = Inr msg" "gfl_payload msg = Some p" "(n, v) \<in> set (gpt_headers p)" "to_lower n = ''from''"
    and "parse_address v = None"
  shows "fetch_and_parse_message s mid = Panics"
proof -
  have "apply_gmail_headers pd i hs m = None" if "(n, v) \<in> set hs" for pd i hs m
    using that
  proof (induction hs arbitrary: m)
    case (Cons h hs)
    show ?case
    proof (cases "h = (n, v)")
      case True
      then show ?thesis using assms(4,5) by (simp add: apply_gmail_header_def Let_def)
    qed (use Cons in \<open>auto split: option.split\<close>)
  qed simp
  then show ?thesis using assms(1,2,3) by (simp add: fetch_and_parse_message_def)
qed

lemma panicking_message_panics_page: "mid \<in> set ids \<Longrightarrow> fetch_and_parse_message s mid = Panics \<Longrightarrow> fetch_messages s ids = None"
  by (induction ids) (auto split: call_end.split)

section \<open>The header of a mail that is sent\<close>

text \<open>A message as its reader takes it apart: lines up to the first empty one, then the body.\<close>

fun cut_line :: "string \<Rightarrow> (string \<times> string) option" where
  "cut_line [] = None"
| "cut_line (c # s) =
     (if c = CHR 0x0D \<and> s \<noteq> [] \<and> hd s = CHR 0x0A then Some ([], tl s)
      else map_option (\<lambda>(l, r). (c # l, r)) (cut_line s))"

lemma cut_line_shorter: "cut_line s = Some (l, r) \<Longrightarrow> length r < length s"
  by (induction s arbitrary: l) (auto split: if_splits)

function read_headers :: "string \<Rightarrow> string list \<times> string" where
  "read_headers s =
     (case cut_line s of
        None \<Rightarrow> ([s], [])
      | Some (l, r) \<Rightarrow> if l = [] then ([], r) else (l # fst (read_headers r), snd (read_headers r)))"
  by pat_completeness auto
termination by (relation "measure length") (auto dest: cut_line_shorter)

declare read_headers.simps [simp del]

definition one_line :: "string \<Rightarrow> bool" where "one_line s \<longleftrightarrow> CHR 0x0D \<notin> set s \<and> CHR 0x0A \<notin> set s"

lemma cut_line_crlf: "one_line l \<Longrightarrow> cut_line (l @ crlf @ r) = Some (l, r)"
  by (induction l) (auto simp: one_line_def crlf_def)

lemma read_headers_lines:
  assumes "\<forall>l \<in> set ls. one_line l \<and> l \<noteq> []"
  shows "read_headers (crlf_lines ls @ crlf @ body) = (ls, body)"
  using assms
proof (induction ls)
  case Nil
  have "one_line []" by (simp add: one_line_def)
  from cut_line_crlf [OF this, of body] show ?case by (simp add: crlf_lines_def read_headers.simps [of "crlf @ body"])
next
  case (Cons l ls)
  let ?r = "crlf_lines ls @ crlf @ body"
  have "crlf_lines (l # ls) @ crlf @ body = l @ crlf @ ?r" by (simp add: crlf_lines_def)
  moreover have "cut_line (l @ crlf @ ?r) = Some (l, ?r)" using Cons.prems by (intro cut_line_crlf) simp
  ultimately show ?case using Cons by (simp add: read_headers.simps [of "l @ crlf @ ?r"])
qed

lemma one_line_append [simp]: "one_line (a @ b) \<longleftrightarrow> one_line a \<and> one_line b"
  by (auto simp: one_line_def)

lemma one_line_join: "one_line sep \<Longrightarrow> \<forall>s \<in> set ss. one_line s \<Longrightarrow> one_line (join_with sep ss)"
  by (induction sep ss rule: join_with.induct) (auto simp: one_line_def)

definition content_type :: "string \<Rightarrow> mail_request \<Rightarrow> string" where
  "content_type boundary r =
     (if mrq_body_html r \<noteq> [] then ''Content-Type: multipart/alternative; boundary='' @ quote_text boundary else text_plain)"

lemma rfc2822_split:
  "\<exists>body. rfc2822_message boundary r = crlf_lines (mail_headers r @ [content_type boundary r]) @ crlf @ body \<and>
     (mrq_body_html r = [] \<longrightarrow> body = mrq_body_text r)"
  by (auto simp: rfc2822_message_def content_type_def crlf_lines_def)

lemma int_decimal_one_line: "one_line (int_decimal i)"
proof -
  have "one_line (nat_decimal n)" for n
  proof (induction n rule: nat_decimal.induct)
    case (1 n)
    have "one_line [char_of (48 + k)]" if "k < 10" for k :: nat
      using that by (auto simp: one_line_def dest!: arg_cong [where f = "of_char :: char \<Rightarrow> nat"] simp: of_char_of)
    then show ?case using 1 by (simp add: nat_decimal.simps [of n])
  qed
  then show ?thesis by (auto simp: int_decimal_def one_line_def)
qed

section \<open>Properties\<close>

text \<open>
  When no field holds a line break, the reader of a mail that is sent finds exactly the headers To,
  Subject, In-Reply-To, References and MIME-Version of the request and the content type, and without HTML
  the body is the text of the request.
\<close>

lemma sent_message_headers:
  assumes "one_line (mrq_to r)" "one_line (mrq_subject r)" "\<And>i. mrq_in_reply_to r = Some i \<Longrightarrow> one_line i"
    and "\<And>x. x \<in> set (mrq_references r) \<Longrightarrow> one_line x"
  shows "\<exists>body. read_headers (rfc2822_message (''boundary_'' @ int_decimal now) r) =
      (mail_headers r @ [content_type (''boundary_'' @ int_decimal now) r], body) \<and>
    (mrq_body_html r = [] \<longrightarrow> body = mrq_body_text r)"
proof -
  let ?b = "''boundary_'' @ int_decimal now"
  have name: "one_line ''To: ''" "one_line ''Subject: ''" "one_line ''In-Reply-To: ''" "one_line ''References: ''"
    "one_line ''MIME-Version: 1.0''" "one_line '' ''" "one_line ''boundary_''" "one_line text_plain" "one_line [CHR 0x22]"
    "one_line ''Content-Type: multipart/alternative; boundary=''"
    by (simp_all add: one_line_def text_plain_def quote_text_def)
  have "one_line (content_type ?b r)"
    using name int_decimal_one_line [of now] by (simp add: content_type_def quote_text_def one_line_def)
  moreover have "\<forall>l \<in> set (mail_headers r). one_line l"
    using assms(1-3) name one_line_join [of "'' ''" "mrq_references r"] assms(4)
    by (auto simp: mail_headers_def one_line_def split: option.splits)
  moreover have "\<forall>l \<in> set (mail_headers r). l \<noteq> []" by (auto simp: mail_headers_def split: option.splits)
  moreover have "content_type ?b r \<noteq> []" by (simp add: content_type_def text_plain_def)
  ultimately have "\<forall>l \<in> set (mail_headers r @ [content_type ?b r]). one_line l \<and> l \<noteq> []" by auto
  from read_headers_lines [OF this] show ?thesis using rfc2822_split [of ?b r] by metis
qed

text \<open>A line break in the subject adds a header: the request of a reply can add recipients.\<close>

definition ex_mail :: "string \<Rightarrow> mail_request" where
  "ex_mail subject =
     \<lparr>mrq_to = ''ann@x.org'', mrq_subject = subject, mrq_body_text = ''hi'', mrq_body_html = [], mrq_in_reply_to = None,
      mrq_references = []\<rparr>"

lemma line_break_adds_header:
  "''Bcc: eve@x.org'' \<in> set (fst (read_headers (rfc2822_message b (ex_mail (''re'' @ crlf @ ''Bcc: eve@x.org'')))))"
proof -
  have "rfc2822_message b (ex_mail (''re'' @ crlf @ ''Bcc: eve@x.org'')) =
      crlf_lines [''To: ann@x.org'', ''Subject: re'', ''Bcc: eve@x.org'', ''MIME-Version: 1.0'', text_plain] @ crlf @ ''hi''"
    by (simp add: rfc2822_message_def mail_headers_def ex_mail_def crlf_lines_def)
  moreover have "\<forall>l \<in> set [''To: ann@x.org'', ''Subject: re'', ''Bcc: eve@x.org'', ''MIME-Version: 1.0'', text_plain]. one_line l \<and> l \<noteq> []"
    by (simp add: one_line_def text_plain_def quote_text_def)
  ultimately show ?thesis using read_headers_lines by (metis fst_conv list.set_intros)
qed

lemma sent_message_headers_witness:
  "\<exists>body. read_headers (rfc2822_message (''boundary_'' @ int_decimal 7) (ex_mail ''re'')) =
     ([''To: ann@x.org'', ''Subject: re'', ''MIME-Version: 1.0'', text_plain], body) \<and> body = ''hi''"
  using sent_message_headers [of "ex_mail ''re''" 7]
  by (simp add: ex_mail_def one_line_def mail_headers_def content_type_def)

end
