(* ===== verification/OAuth_Microsoft.thy ===== *)
theory OAuth_Microsoft
  imports OAuth_Google Poll_Outlook
begin

text \<open>
  The Microsoft provider (\<open>src/ingestion/internal/oauth/microsoft.go\<close>): login URL, code exchange and refresh
  over the token endpoint, webhook notifications, the sent mail of an account, and the mail it sends over the
  Graph API. HTTP, JSON decoding and the parsing of dates are parameters.
\<close>

section \<open>Tokens\<close>

definition microsoft_scopes :: "string list" where
  "microsoft_scopes = [''Mail.Read'', ''Mail.Send'', ''Calendars.ReadWrite'', ''User.Read'', ''offline_access'']"

definition ms_base_auth_url :: string where "ms_base_auth_url = ''https://login.microsoftonline.com/common/oauth2/v2.0/authorize''"
definition ms_base_token_url :: string where "ms_base_token_url = ''https://login.microsoftonline.com/common/oauth2/v2.0/token''"
definition ms_revoke_url :: string where "ms_revoke_url = ''https://login.microsoftonline.com/common/oauth2/v2.0/revoke''"
definition ms_graph_base_url :: string where "ms_graph_base_url = ''https://graph.microsoft.com/v1.0''"

definition ms_auth_url :: "client_app \<Rightarrow> string \<Rightarrow> string \<Rightarrow> string" where
  "ms_auth_url p state redirect =
     ms_base_auth_url @ ''?'' @
     form_encode
       [(''client_id'', cap_id p), (''response_type'', ''code''),
        (''redirect_uri'', if redirect = [] then cap_redirect p else redirect),
        (''scope'', join_with '' '' microsoft_scopes), (''state'', state), (''response_mode'', ''query''), (''prompt'', ''consent'')]"

record ms_token_response =
  mtr_access :: string
  mtr_refresh :: string
  mtr_expires_in :: int
  mtr_scope :: string

text \<open>A form posted to a URL, and the decoding of the body of a token response.\<close>

record ms_http =
  mht_post :: "string \<Rightarrow> string \<Rightarrow> http_reply"
  mht_token :: "bytes \<Rightarrow> string + ms_token_response"

text \<open>The product of the lifetime with a second wraps around.\<close>

definition ms_pair :: "client_app \<Rightarrow> instant \<Rightarrow> ms_token_response \<Rightarrow> token_pair" where
  "ms_pair p now t =
     clear_token_pair (''microsoft-'' @ cap_id p) (mtr_refresh t) (mtr_access t)
       (now + wrap_64 (mtr_expires_in t * second_ns)) (split_on (CHR '' '') (mtr_scope t))"

definition ms_exchange_form :: "client_app \<Rightarrow> string \<Rightarrow> string \<Rightarrow> string" where
  "ms_exchange_form p code redirect =
     form_encode
       [(''client_id'', cap_id p), (''client_secret'', cap_secret p), (''code'', code),
        (''redirect_uri'', if redirect = [] then cap_redirect p else redirect), (''grant_type'', ''authorization_code''),
        (''scope'', join_with '' '' microsoft_scopes)]"

definition ms_exchange :: "ms_http \<Rightarrow> instant \<Rightarrow> client_app \<Rightarrow> string \<Rightarrow> string \<Rightarrow> string + token_pair" where
  "ms_exchange http now p code redirect =
     (case mht_post http ms_base_token_url (ms_exchange_form p code redirect) of
        HttpFailed e \<Rightarrow> Inl (''token request failed: '' @ e)
      | HttpReply _ (Some e) _ \<Rightarrow> Inl (''failed to read token response: '' @ e)
      | HttpReply status None body \<Rightarrow>
          if status \<noteq> 200
          then Inl (''token exchange failed with status '' @ nat_decimal status @ '': '' @ text_of_bytes body)
          else (case mht_token http body of
                  Inl e \<Rightarrow> Inl (''failed to parse token response: '' @ e)
                | Inr t \<Rightarrow> Inr (ms_pair p now t)))"

definition ms_refresh_form :: "client_app \<Rightarrow> string \<Rightarrow> string" where
  "ms_refresh_form p token =
     form_encode
       [(''client_id'', cap_id p), (''client_secret'', cap_secret p), (''refresh_token'', token),
        (''grant_type'', ''refresh_token''), (''scope'', join_with '' '' microsoft_scopes)]"

definition ms_refresh :: "ms_http \<Rightarrow> instant \<Rightarrow> client_app \<Rightarrow> string \<Rightarrow> store_error + token_pair" where
  "ms_refresh http now p token =
     (if token = [] then Inl (StorePlain ''refresh token is empty'')
      else (case mht_post http ms_base_token_url (ms_refresh_form p token) of
              HttpFailed e \<Rightarrow> Inl (StorePlain (''refresh request failed: '' @ e))
            | HttpReply _ (Some e) _ \<Rightarrow> Inl (StorePlain (''failed to read refresh response: '' @ e))
            | HttpReply status None body \<Rightarrow>
                if status \<noteq> 200
                then Inl (if str_contains (text_of_bytes body) ''invalid_grant''
                          then store_failed ''oauth_expired'' (''refresh token expired or revoked: '' @ text_of_bytes body) False
                          else StorePlain (''refresh failed with status '' @ nat_decimal status @ '': '' @ text_of_bytes body))
                else (case mht_token http body of
                        Inl e \<Rightarrow> Inl (StorePlain (''failed to parse refresh response: '' @ e))
                      | Inr t \<Rightarrow> Inr (ms_pair p now t))))"

definition microsoft_provider :: "ms_http \<Rightarrow> instant \<Rightarrow> client_app \<Rightarrow> oauth_provider" where
  "microsoft_provider http now p =
     \<lparr>opr_name = provider_outlook, opr_auth_url = ms_auth_url p, opr_exchange = ms_exchange http now p,
      opr_refresh = (\<lambda>t. case ms_refresh http now p t of Inl e \<Rightarrow> Inl (store_error_text e) | Inr q \<Rightarrow> Inr q)\<rparr>"

definition ms_revoke :: "ms_http \<Rightarrow> client_app \<Rightarrow> string \<Rightarrow> string option" where
  "ms_revoke http p token =
     (if token = [] then Some ''token is empty''
      else (case mht_post http ms_revoke_url
                   (form_encode [(''token'', token), (''client_id'', cap_id p), (''client_secret'', cap_secret p)]) of
              HttpFailed e \<Rightarrow> Some (''revoke request failed: '' @ e)
            | HttpReply code _ body \<Rightarrow>
                if code \<noteq> 200 then Some (''revoke failed with status '' @ nat_decimal code @ '': '' @ text_of_bytes body) else None))"

section \<open>Webhooks\<close>

text \<open>\<open>strings.Split\<close> with a separator of several characters, as far as its second part.\<close>

fun cut_at :: "string \<Rightarrow> string \<Rightarrow> (string \<times> string) option" where
  "cut_at sep [] = (if sep = [] then Some ([], []) else None)"
| "cut_at sep (c # s) =
     (if has_prefix (c # s) sep then Some ([], drop (length sep) (c # s))
      else map_option (\<lambda>(a, b). (c # a, b)) (cut_at sep s))"

definition extract_validation_token :: "string \<Rightarrow> string" where
  "extract_validation_token payload =
     (case cut_at ''validationToken='' payload of
        None \<Rightarrow> []
      | Some (_, rest) \<Rightarrow>
          (let part = (case cut_at ''validationToken='' rest of None \<Rightarrow> rest | Some (a, _) \<Rightarrow> a)
           in takeWhile (\<lambda>c. c \<notin> {CHR ''&'', CHR '' '', CHR 0x0A}) part))"

record graph_change =
  gch_type :: string
  gch_resource :: string
  gch_id :: string

definition ms_validate_webhook ::
  "(bytes \<Rightarrow> string + graph_change list) \<Rightarrow> instant \<Rightarrow> bytes \<Rightarrow> (string \<rightharpoonup> string) \<Rightarrow> store_error + webhook_payload" where
  "ms_validate_webhook decode now payload headers =
     (if payload = [] then Inl (webhook_invalid ''empty webhook payload'')
      else (let token = first_nonempty (map_get headers ''validationToken'') (extract_validation_token (text_of_bytes payload))
            in if token \<noteq> []
               then Inr \<lparr>whp_message_id = token, whp_history_id = [], whp_delta_link = [],
                         whp_change_type = ''validation'', whp_received_at = now\<rparr>
               else (case decode payload of
                       Inl e \<Rightarrow> Inl (webhook_invalid (''failed to parse Microsoft change notification: '' @ e))
                     | Inr [] \<Rightarrow> Inl (webhook_invalid ''no change notifications in payload'')
                     | Inr (c # _) \<Rightarrow>
                         Inr \<lparr>whp_message_id = gch_id c, whp_history_id = [], whp_delta_link = gch_resource c,
                              whp_change_type = gch_type c, whp_received_at = now\<rparr>)))"

section \<open>Sent mail\<close>

record graph_sent =
  gsm_id :: string
  gsm_subject :: string
  gsm_from_address :: string
  gsm_from_name :: string
  gsm_to :: "string list"
  gsm_content_type :: string
  gsm_content :: string
  gsm_sent :: string
  gsm_in_reply_to :: "string option"
  gsm_internet_id :: string
  gsm_has_attachments :: bool

record graph_sent_page =
  gsp_value :: "graph_sent list"
  gsp_next :: string
  gsp_delta :: string

record graph_mailer =
  gml_get :: "string \<Rightarrow> http_reply"
  gml_page :: "bytes \<Rightarrow> string + graph_sent_page"
  gml_post :: "json \<Rightarrow> http_reply"
  gml_parse_date :: "string \<Rightarrow> instant option"
  gml_now :: instant

definition parse_graph_message :: "graph_mailer \<Rightarrow> graph_sent \<Rightarrow> sent_mail" where
  "parse_graph_message g m =
     (let b = blank_mail (first_nonempty (gsm_internet_id m) (gsm_id m)) provider_outlook
            (if gsm_sent m \<noteq> [] then (case gml_parse_date g (gsm_sent m) of Some t \<Rightarrow> t | None \<Rightarrow> gml_now g) else gml_now g);
          plain = (gsm_content_type m = ''text'' \<or> gsm_content_type m = ''text/plain'')
      in b\<lparr>sml_subject := gsm_subject m, sml_has_attachments := gsm_has_attachments m,
           sml_sender_email := gsm_from_address m,
           sml_sender_name := (if gsm_from_address m \<noteq> [] then gsm_from_name m else []),
           sml_recipients := filter (\<lambda>a. a \<noteq> []) (gsm_to m),
           sml_body_text := (if plain then gsm_content m else []),
           sml_body_html := (if plain then [] else gsm_content m),
           sml_in_reply_to := gsm_in_reply_to m\<rparr>)"

text \<open>Following the next links, without a bound; an error of reading a body is not looked at.\<close>

partial_function (option) ms_sent_pages :: "graph_mailer \<Rightarrow> string \<Rightarrow> sent_mail list \<Rightarrow> (string + sent_mail list) option" where
  "ms_sent_pages g url acc =
     (if url = [] then Some (Inr acc)
      else (case gml_get g url of
              HttpFailed e \<Rightarrow> Some (Inl (''request failed: '' @ e))
            | HttpReply status _ body \<Rightarrow>
                if status \<noteq> 200
                then Some (Inl (''Microsoft API returned status '' @ nat_decimal status @ '': '' @ text_of_bytes body))
                else (case gml_page g body of
                        Inl e \<Rightarrow> Some (Inl (''failed to parse response: '' @ e))
                      | Inr p \<Rightarrow>
                          (let acc' = acc @ map (parse_graph_message g) (gsp_value p)
                           in if gsp_delta p \<noteq> [] then Some (Inr acc') else ms_sent_pages g (gsp_next p) acc'))))"

definition ms_sent_url :: "instant \<Rightarrow> int \<Rightarrow> string" where
  "ms_sent_url now days =
     ms_graph_base_url @ ''/me/mailFolders/sentitems/messages?'' @
     form_encode
       [(''$filter'', ''sentDateTime ge '' @ rfc3339_utc (now - days * day_ns)),
        (''$select'', ''id,subject,from,toRecipients,body,sentDateTime,inReplyTo,internetMessageId''),
        (''$top'', ''50''), (''$orderby'', ''sentDateTime desc'')]"

definition ms_fetch_sent_history :: "graph_mailer \<Rightarrow> string \<Rightarrow> int \<Rightarrow> (string + sent_mail list) option" where
  "ms_fetch_sent_history g token days =
     (if token = [] then Some (Inl ''access token is empty'')
      else ms_sent_pages g (ms_sent_url (gml_now g) (if days \<le> 0 then 30 else days)) [])"

section \<open>Sending\<close>

text \<open>The text body gives way to the HTML body; References goes out with In-Reply-To only.\<close>

definition graph_body :: "mail_request \<Rightarrow> json" where
  "graph_body r =
     (if mrq_body_html r \<noteq> []
      then JObj [(''contentType'', JStr ''html''), (''content'', JStr (mrq_body_html r))]
      else JObj [(''contentType'', JStr ''text''), (''content'', JStr (mrq_body_text r))])"

definition graph_header :: "string \<Rightarrow> string \<Rightarrow> json" where
  "graph_header name value = JObj [(''name'', JStr name), (''value'', JStr value)]"

definition graph_headers :: "mail_request \<Rightarrow> (string \<times> json) list" where
  "graph_headers r =
     (case mrq_in_reply_to r of
        None \<Rightarrow> []
      | Some i \<Rightarrow>
          [(''internetMessageHeaders'',
            JArr (graph_header ''In-Reply-To'' i #
              (if mrq_references r = [] then [] else [graph_header ''References'' (join_with '' '' (mrq_references r))])))])"

definition graph_send_request :: "mail_request \<Rightarrow> json" where
  "graph_send_request r =
     JObj
       [(''message'',
         JObj ([(''subject'', JStr (mrq_subject r)), (''body'', graph_body r),
                (''toRecipients'', JArr [JObj [(''emailAddress'', JObj [(''address'', JStr (mrq_to r))])]])] @ graph_headers r)),
        (''saveToSentItems'', JBool True)]"

definition ms_send_email :: "graph_mailer \<Rightarrow> string \<Rightarrow> mail_request \<Rightarrow> string + string" where
  "ms_send_email g token r =
     (if token = [] then Inl ''access token is empty''
      else if mrq_to r = [] \<or> mrq_subject r = [] then Inl ''recipient and subject are required''
      else (case gml_post g (graph_send_request r) of
              HttpFailed e \<Rightarrow> Inl (''send mail request failed: '' @ e)
            | HttpReply status _ body \<Rightarrow>
                if status \<noteq> 202
                then Inl (''send mail failed with status '' @ nat_decimal status @ '': '' @ text_of_bytes body)
                else Inr (''msgraph_'' @ int_decimal (gml_now g))))"

section \<open>Facts\<close>

text \<open>Both providers give their tokens in the clear, which is what the token store encrypts.\<close>

lemma provider_pairs_are_clear:
  assumes "opr_exchange (google_provider lib now p) code uri = Inr q \<or> opr_exchange (microsoft_provider http now p) code uri = Inr q"
    and "tp_access q = Some t"
  shows "\<not> is_encrypted (Some t) \<and> (\<exists>s. s \<noteq> [] \<and> et_ciphertext t = bytes_of s \<and> tp_plaintext q = Some s)"
proof -
  from assms(1) have "(\<exists>t. q = google_pair p now t) \<or> (\<exists>t. q = ms_pair p now t)"
  proof
    assume "opr_exchange (google_provider lib now p) code uri = Inr q"
    then show ?thesis by (cases "o2_exchange lib (google_config p uri) code") (auto simp: google_provider_def google_exchange_def)
  next
    assume "opr_exchange (microsoft_provider http now p) code uri = Inr q"
    then have "\<exists>t. q = ms_pair p now t"
      by (auto simp: microsoft_provider_def ms_exchange_def split: sum.splits http_reply.splits option.splits if_splits)
    then show ?thesis ..
  qed
  then have "\<exists>k r a e s. q = clear_token_pair k r a e s" unfolding google_pair_def ms_pair_def by blast
  then obtain k r a e s where q: "q = clear_token_pair k r a e s" by blast
  then show ?thesis using clear_pair_is_clear(1) [of k r a e s t] assms(2) by (auto simp: clear_token_pair_def)
qed

text \<open>A notification that mentions \<open>validationToken=\<close> anywhere passes for a validation request.\<close>

lemma mentions_token_is_validation:
  assumes "extract_validation_token (text_of_bytes payload) = c # t" "map_get headers ''validationToken'' = []"
  shows "\<exists>w. ms_validate_webhook decode now payload headers = Inr w \<and> whp_change_type w = ''validation''"
proof -
  have "payload \<noteq> []" using assms(1) by (auto simp: extract_validation_token_def text_of_bytes_def)
  then show ?thesis using assms by (simp add: ms_validate_webhook_def first_nonempty_def Let_def)
qed

text \<open>A page whose next link leads to itself is followed for ever.\<close>

lemma self_linked_page_never_returns:
  assumes "gml_get g url = HttpReply 200 e body" "gml_page g body = Inr p" "gsp_next p = url" "url \<noteq> []" "gsp_delta p = []"
  shows "ms_sent_pages g url acc = None"
proof -
  have "\<not> (g' = g \<and> url' = url)" if ret: "ms_sent_pages g' url' acc = Some r" for g' url' acc r
  proof (rule ms_sent_pages.raw_induct [where P = "\<lambda>g' url' acc r. \<not> (g' = g \<and> url' = url)", OF _ ret], goal_cases)
    case (1 f g' url' acc r)
    then show ?case using "1"(2) assms by (auto simp: Let_def dest!: "1"(1))
  qed
  then show ?thesis by (metis not_None_eq)
qed

end
