(* ===== verification/OAuth_Handler.thy ===== *)
theory OAuth_Handler
  imports OAuth_Microsoft Backfill_Queue
begin

text \<open>
  The login and the callback of the OAuth flows (\<open>src/ingestion/internal/oauth/handler.go\<close>): the state that
  ties a callback to a login is kept in Redis for ten minutes, and a callback that holds stores user, account
  and tokens and starts a backfill. The two pairs of handlers in the code differ in names and URLs only; a
  flow holds what differs.
\<close>

section \<open>State\<close>

record oauth_user =
  our_id :: uuid
  our_email :: string
  our_name :: string
  our_key :: string

text \<open>The states of Redis with their expiry, the two tables, and the queue of backfills.\<close>

record login_world =
  lgw_states :: "(string \<times> string \<times> instant) list"
  lgw_users :: "oauth_user list"
  lgw_tokens :: token_world
  lgw_backfill :: backfill_redis

record login_env =
  lgn_now :: instant
  lgn_random :: "string + bytes"
  lgn_redis :: "string option"
  lgn_tokens :: token_env
  lgn_user_db :: "string option"
  lgn_new_user :: uuid
  lgn_kms_key :: string
  lgn_backfill :: redis_call

record oauth_flow =
  flw_tag :: string
  flw_unconfigured :: string
  flw_account_provider :: string
  flw_redirect :: string
  flw_client :: "oauth_provider option"
  flw_userinfo :: "string \<Rightarrow> string + string \<times> string"

record callback_query =
  cbq_error :: string
  cbq_code :: string
  cbq_state :: string

text \<open>The body of an error is its code as JSON.\<close>

datatype login_reply = AuthError string nat | AuthRedirect string

section \<open>User info\<close>

record google_user_info =
  gui_email :: string
  gui_name :: string

record ms_user_info =
  mui_display_name :: string
  mui_mail :: string
  mui_principal :: string

text \<open>\<open>get\<close> sends the request with the bearer token, \<open>decode\<close> reads a body that may end in an error.\<close>

definition fetch_google_user_email ::
  "(string \<Rightarrow> http_reply) \<Rightarrow> (string option \<Rightarrow> bytes \<Rightarrow> string + google_user_info) \<Rightarrow> string \<Rightarrow> string + string \<times> string" where
  "fetch_google_user_email get decode token =
     (case get token of
        HttpFailed e \<Rightarrow> Inl (''google userinfo request: '' @ e)
      | HttpReply status err body \<Rightarrow>
          if status \<noteq> 200 then Inl (''google userinfo returned '' @ nat_decimal status @ '': '' @ text_of_bytes body)
          else (case decode err body of
                  Inl e \<Rightarrow> Inl (''decode google userinfo: '' @ e)
                | Inr i \<Rightarrow> if gui_email i = [] then Inl ''google userinfo returned empty email'' else Inr (gui_email i, gui_name i)))"

definition fetch_microsoft_user_email ::
  "(string \<Rightarrow> http_reply) \<Rightarrow> (string option \<Rightarrow> bytes \<Rightarrow> string + ms_user_info) \<Rightarrow> string \<Rightarrow> string + string \<times> string" where
  "fetch_microsoft_user_email get decode token =
     (case get token of
        HttpFailed e \<Rightarrow> Inl (''microsoft userinfo request: '' @ e)
      | HttpReply status err body \<Rightarrow>
          if status \<noteq> 200 then Inl (''microsoft graph /me returned '' @ nat_decimal status @ '': '' @ text_of_bytes body)
          else (case decode err body of
                  Inl e \<Rightarrow> Inl (''decode microsoft userinfo: '' @ e)
                | Inr i \<Rightarrow>
                    if mui_mail i \<noteq> [] then Inr (mui_mail i, mui_display_name i)
                    else if mui_principal i \<noteq> [] then Inr (mui_principal i, mui_display_name i)
                    else Inl ''microsoft graph /me returned no email address''))"

section \<open>The handler\<close>

record login_lib =
  lgl_oauth2 :: oauth2_lib
  lgl_ms :: ms_http
  lgl_google_get :: "string \<Rightarrow> http_reply"
  lgl_google_decode :: "string option \<Rightarrow> bytes \<Rightarrow> string + google_user_info"
  lgl_ms_get :: "string \<Rightarrow> http_reply"
  lgl_ms_decode :: "string option \<Rightarrow> bytes \<Rightarrow> string + ms_user_info"
  lgl_now :: instant

text \<open>\<open>NewHandler\<close>: a provider exists only when both of its credentials are configured.\<close>

definition google_flow :: "login_lib \<Rightarrow> oauth_config \<Rightarrow> oauth_flow" where
  "google_flow lib cfg =
     \<lparr>flw_tag = ''google'', flw_unconfigured = ''google_oauth_not_configured'', flw_account_provider = provider_gmail,
      flw_redirect = ocf_google_redirect cfg,
      flw_client = (if ocf_google_id cfg \<noteq> [] \<and> ocf_google_secret cfg \<noteq> []
                    then Some (google_provider (lgl_oauth2 lib) (lgl_now lib) (new_google_provider cfg)) else None),
      flw_userinfo = fetch_google_user_email (lgl_google_get lib) (lgl_google_decode lib)\<rparr>"

definition microsoft_flow :: "login_lib \<Rightarrow> oauth_config \<Rightarrow> oauth_flow" where
  "microsoft_flow lib cfg =
     \<lparr>flw_tag = ''microsoft'', flw_unconfigured = ''microsoft_oauth_not_configured'', flw_account_provider = provider_outlook,
      flw_redirect = ocf_ms_redirect cfg,
      flw_client = (if ocf_ms_id cfg \<noteq> [] \<and> ocf_ms_secret cfg \<noteq> []
                    then Some (microsoft_provider (lgl_ms lib) (lgl_now lib) (new_microsoft_provider cfg)) else None),
      flw_userinfo = fetch_microsoft_user_email (lgl_ms_get lib) (lgl_ms_decode lib)\<rparr>"

definition state_key :: "string \<Rightarrow> string" where "state_key s = ''oauth:state:'' @ s"

definition generate_state :: "login_env \<Rightarrow> string + string" where
  "generate_state env = (case lgn_random env of Inl e \<Rightarrow> Inl e | Inr b \<Rightarrow> Inr (hex_encode b))"

definition state_ttl :: duration where "state_ttl = 10 * minute_ns"

definition handle_login :: "oauth_flow \<Rightarrow> login_env \<Rightarrow> login_world \<Rightarrow> login_world \<times> login_reply" where
  "handle_login fl env w =
     (case flw_client fl of
        None \<Rightarrow> (w, AuthError (flw_unconfigured fl) 503)
      | Some p \<Rightarrow>
          (case generate_state env of
             Inl _ \<Rightarrow> (w, AuthError ''internal_error'' 500)
           | Inr s \<Rightarrow>
               if lgn_redis env \<noteq> None then (w, AuthError ''internal_error'' 500)
               else (w\<lparr>lgw_states := AList.update (state_key s) (flw_tag fl, lgn_now env + state_ttl) (lgw_states w)\<rparr>,
                     AuthRedirect (opr_auth_url p s (flw_redirect fl)))))"

text \<open>GETDEL: the state is gone whatever was stored; a lapsed one is not found.\<close>

definition validate_and_consume_state ::
  "login_env \<Rightarrow> string \<Rightarrow> string \<Rightarrow> login_world \<Rightarrow> login_world \<times> string option" where
  "validate_and_consume_state env s expected w =
     (case lgn_redis env of
        Some e \<Rightarrow> (w, Some (''redis error validating state: '' @ e))
      | None \<Rightarrow>
          (let w1 = w\<lparr>lgw_states := AList.delete (state_key s) (lgw_states w)\<rparr>
           in case map_of (lgw_states w) (state_key s) of
                None \<Rightarrow> (w1, Some ''state not found or expired'')
              | Some (stored, expires) \<Rightarrow>
                  if expires \<le> lgn_now env then (w1, Some ''state not found or expired'')
                  else if stored \<noteq> expected
                  then (w1, Some (''state provider mismatch: got '' @ quote_text stored @ '' want '' @ quote_text expected))
                  else (w1, None)))"

definition upsert_user :: "login_env \<Rightarrow> string \<Rightarrow> string \<Rightarrow> login_world \<Rightarrow> login_world \<times> (string + uuid)" where
  "upsert_user env email name w =
     (case lgn_user_db env of
        Some e \<Rightarrow> (w, Inl (''upsert user '' @ email @ '': '' @ e))
      | None \<Rightarrow>
          (case List.find (\<lambda>u. our_email u = email) (lgw_users w) of
             Some u \<Rightarrow>
               (w\<lparr>lgw_users := map (\<lambda>x. if our_email x = email then x\<lparr>our_name := name\<rparr> else x) (lgw_users w)\<rparr>, Inr (our_id u))
           | None \<Rightarrow>
               (w\<lparr>lgw_users := lgw_users w @ [\<lparr>our_id = lgn_new_user env, our_email = email, our_name = name, our_key = lgn_kms_key env\<rparr>]\<rparr>,
                Inr (lgn_new_user env))))"

text \<open>The failure of the callback is only logged.\<close>

definition fire_on_success :: "login_env \<Rightarrow> uuid \<Rightarrow> login_world \<Rightarrow> login_world" where
  "fire_on_success env user w = w\<lparr>lgw_backfill := fst (oauth_success (lgn_backfill env) user (lgw_backfill w))\<rparr>"

text \<open>From the exchanged pair on.\<close>

definition store_login ::
  "crypto_lib \<Rightarrow> oauth_flow \<Rightarrow> login_env \<Rightarrow> token_pair \<Rightarrow> string \<Rightarrow> login_world \<Rightarrow> login_world \<times> login_reply" where
  "store_login cl fl env pair token w =
     (case flw_userinfo fl token of
        Inl _ \<Rightarrow> (w, AuthError ''userinfo_failed'' 502)
      | Inr (email, name) \<Rightarrow>
          (case upsert_user env email name w of
             (w1, Inl _) \<Rightarrow> (w1, AuthError ''internal_error'' 500)
           | (w1, Inr user) \<Rightarrow>
               (case upsert_account_with_tokens cl (lgn_tokens env) user (flw_account_provider fl) email (Some pair) (lgw_tokens w1) of
                  (t, Inl _) \<Rightarrow> (w1\<lparr>lgw_tokens := t\<rparr>, AuthError ''token_storage_failed'' 500)
                | (t, Inr _) \<Rightarrow> (fire_on_success env user (w1\<lparr>lgw_tokens := t\<rparr>), AuthRedirect ''/''))))"

definition handle_callback ::
  "crypto_lib \<Rightarrow> oauth_flow \<Rightarrow> login_env \<Rightarrow> callback_query \<Rightarrow> login_world \<Rightarrow> login_world \<times> login_reply" where
  "handle_callback cl fl env q w =
     (case flw_client fl of
        None \<Rightarrow> (w, AuthError (flw_unconfigured fl) 503)
      | Some p \<Rightarrow>
          if cbq_error q \<noteq> [] then (w, AuthError ''oauth_denied'' 400)
          else if cbq_code q = [] \<or> cbq_state q = [] then (w, AuthError ''missing_code_or_state'' 400)
          else (case validate_and_consume_state env (cbq_state q) (flw_tag fl) w of
                  (w1, Some _) \<Rightarrow> (w1, AuthError ''invalid_state'' 400)
                | (w1, None) \<Rightarrow>
                    (case opr_exchange p (cbq_code q) (flw_redirect fl) of
                       Inl _ \<Rightarrow> (w1, AuthError ''token_exchange_failed'' 502)
                     | Inr pair \<Rightarrow>
                         (case tp_plaintext pair of
                            None \<Rightarrow> (w1, AuthError ''token_exchange_failed'' 502)
                          | Some token \<Rightarrow> store_login cl fl env pair token w1))))"

definition handle_google_login :: "login_lib \<Rightarrow> oauth_config \<Rightarrow> login_env \<Rightarrow> login_world \<Rightarrow> login_world \<times> login_reply" where
  "handle_google_login lib cfg = handle_login (google_flow lib cfg)"

definition handle_microsoft_login :: "login_lib \<Rightarrow> oauth_config \<Rightarrow> login_env \<Rightarrow> login_world \<Rightarrow> login_world \<times> login_reply" where
  "handle_microsoft_login lib cfg = handle_login (microsoft_flow lib cfg)"

definition handle_google_callback ::
  "crypto_lib \<Rightarrow> login_lib \<Rightarrow> oauth_config \<Rightarrow> login_env \<Rightarrow> callback_query \<Rightarrow> login_world \<Rightarrow> login_world \<times> login_reply" where
  "handle_google_callback cl lib cfg = handle_callback cl (google_flow lib cfg)"

definition handle_microsoft_callback ::
  "crypto_lib \<Rightarrow> login_lib \<Rightarrow> oauth_config \<Rightarrow> login_env \<Rightarrow> callback_query \<Rightarrow> login_world \<Rightarrow> login_world \<times> login_reply" where
  "handle_microsoft_callback cl lib cfg = handle_callback cl (microsoft_flow lib cfg)"

section \<open>Runs\<close>

text \<open>
  What can happen to the states: logins and callbacks of any flow, answered in any way, states that Redis
  evicts, and everything else, which leaves the states alone. \<open>ls\<close> lists the logins that redirected and
  \<open>cs\<close> the callbacks that completed, each with the tag of its flow and its state.
\<close>

inductive login_run :: "(string \<times> string) list \<Rightarrow> (string \<times> string) list \<Rightarrow> login_world \<Rightarrow> bool" where
  run_start: "lgw_states w = [] \<Longrightarrow> login_run [] [] w"
| run_login: "login_run ls cs w \<Longrightarrow> handle_login fl env w = (w', AuthRedirect u) \<Longrightarrow> generate_state env = Inr s \<Longrightarrow>
    login_run ((flw_tag fl, s) # ls) cs w'"
| run_login_failed: "login_run ls cs w \<Longrightarrow> handle_login fl env w = (w', AuthError c n) \<Longrightarrow> login_run ls cs w'"
| run_callback: "login_run ls cs w \<Longrightarrow> handle_callback cl fl env q w = (w', AuthRedirect u) \<Longrightarrow>
    login_run ls ((flw_tag fl, cbq_state q) # cs) w'"
| run_callback_failed: "login_run ls cs w \<Longrightarrow> handle_callback cl fl env q w = (w', AuthError c n) \<Longrightarrow> login_run ls cs w'"
| run_evict: "login_run ls cs w \<Longrightarrow> login_run ls cs (w\<lparr>lgw_states := AList.delete k (lgw_states w)\<rparr>)"
| run_other: "login_run ls cs w \<Longrightarrow> lgw_states w' = lgw_states w \<Longrightarrow> login_run ls cs w'"

definition pending :: "string \<times> string \<Rightarrow> login_world \<Rightarrow> nat" where
  "pending p w = (case map_of (lgw_states w) (state_key (snd p)) of None \<Rightarrow> 0 | Some (tag, _) \<Rightarrow> if tag = fst p then 1 else 0)"

lemma state_key_eq [simp]: "state_key s = state_key t \<longleftrightarrow> s = t"
  by (simp add: state_key_def)

lemma handle_login_cases:
  obtains c n where "handle_login fl env w = (w, AuthError c n)"
  | s u where "generate_state env = Inr s" "handle_login fl env w =
      (w\<lparr>lgw_states := AList.update (state_key s) (flw_tag fl, lgn_now env + state_ttl) (lgw_states w)\<rparr>, AuthRedirect u)"
  by (cases "flw_client fl"; cases "generate_state env"; cases "lgn_redis env") (auto simp: handle_login_def)

lemma upsert_user_states: "lgw_states (fst (upsert_user env email name w)) = lgw_states w"
  by (simp add: upsert_user_def split: option.splits)

lemma store_login_states: "lgw_states (fst (store_login cl fl env pair token w)) = lgw_states w"
proof (cases "flw_userinfo fl token")
  case (Inr i)
  obtain email name where i: "i = (email, name)" by (cases i)
  obtain w1 r where u: "upsert_user env email name w = (w1, r)" by fastforce
  then have w1: "lgw_states w1 = lgw_states w" using upsert_user_states [of env email name w] by simp
  show ?thesis
  proof (cases r)
    case r: (Inr user)
    obtain t x where "upsert_account_with_tokens cl (lgn_tokens env) user (flw_account_provider fl) email (Some pair) (lgw_tokens w1) = (t, x)"
      by fastforce
    then show ?thesis using Inr i u w1 r by (cases x) (simp_all add: store_login_def fire_on_success_def)
  qed (use Inr i u w1 in \<open>simp add: store_login_def\<close>)
qed (simp add: store_login_def)

text \<open>A callback that completes consumed a live state of its own flow; any other one adds no state.\<close>

lemma handle_callback_cases:
  obtains (refused) c n w1 where "handle_callback cl fl env q w = (w1, AuthError c n)"
      "lgw_states w1 = lgw_states w \<or> lgw_states w1 = AList.delete (state_key (cbq_state q)) (lgw_states w)"
  | (completed) w1 u expires where "handle_callback cl fl env q w = (w1, AuthRedirect u)"
      "lgw_states w1 = AList.delete (state_key (cbq_state q)) (lgw_states w)"
      "map_of (lgw_states w) (state_key (cbq_state q)) = Some (flw_tag fl, expires)" "lgn_now env < expires"
proof (cases "flw_client fl = None \<or> cbq_error q \<noteq> [] \<or> cbq_code q = [] \<or> cbq_state q = []")
  case True
  then have "\<exists>c n. handle_callback cl fl env q w = (w, AuthError c n)"
    by (cases "flw_client fl") (auto simp: handle_callback_def)
  then show ?thesis using refused by blast
next
  case False
  then obtain p where p: "flw_client fl = Some p" by auto
  obtain w1 v where v: "validate_and_consume_state env (cbq_state q) (flw_tag fl) w = (w1, v)" by fastforce
  show ?thesis
  proof (cases v)
    case (Some e)
    have "lgw_states w1 = lgw_states w \<or> lgw_states w1 = AList.delete (state_key (cbq_state q)) (lgw_states w)"
      using v by (auto simp: validate_and_consume_state_def Let_def split: option.splits if_splits)
    then show ?thesis using refused p False v Some by (auto simp: handle_callback_def)
  next
    case None
    then have s: "lgw_states w1 = AList.delete (state_key (cbq_state q)) (lgw_states w)"
      "\<exists>expires. map_of (lgw_states w) (state_key (cbq_state q)) = Some (flw_tag fl, expires) \<and> lgn_now env < expires"
      using v by (auto simp: validate_and_consume_state_def Let_def split: option.splits if_splits)
    obtain w2 r where r: "handle_callback cl fl env q w = (w2, r)" by fastforce
    have "handle_callback cl fl env q w =
        (case opr_exchange p (cbq_code q) (flw_redirect fl) of
           Inl _ \<Rightarrow> (w1, AuthError ''token_exchange_failed'' 502)
         | Inr pair \<Rightarrow>
             (case tp_plaintext pair of
                None \<Rightarrow> (w1, AuthError ''token_exchange_failed'' 502)
              | Some token \<Rightarrow> store_login cl fl env pair token w1))"
      using p False v None by (auto simp: handle_callback_def)
    then have "lgw_states w2 = lgw_states w1"
      using r store_login_states by (auto split: sum.splits option.splits) (metis fst_conv)
    then show ?thesis using r s refused completed by (cases r) auto
  qed
qed

lemma pending_delete: "pending p (w\<lparr>lgw_states := AList.delete k ss\<rparr>) \<le> pending p (w\<lparr>lgw_states := ss\<rparr>)"
  by (simp add: pending_def AList.delete_conv' split: option.split)

lemma pending_states: "lgw_states w' = lgw_states w \<Longrightarrow> pending p w' = pending p w"
  by (simp add: pending_def)

lemma pending_consumed:
  assumes "lgw_states w' = AList.delete (state_key s) (lgw_states w)" "map_of (lgw_states w) (state_key s) = Some (tag, expires)"
  shows "pending p w' + (if p = (tag, s) then 1 else 0) \<le> pending p w"
  using assms by (cases p) (auto simp: pending_def AList.delete_conv' split: option.split)

lemma login_run_counts:
  assumes "login_run ls cs w"
  shows "count_list cs p + pending p w \<le> count_list ls p"
  using assms
proof (induction arbitrary: p rule: login_run.induct)
  case (run_start w)
  then show ?case by (simp add: pending_def)
next
  case (run_login ls cs w fl env w' u s)
  have "pending p w' \<le> (if p = (flw_tag fl, s) then 1 else pending p w)"
  proof (cases rule: handle_login_cases [of fl env w])
    case (2 s' u')
    then have "w' = w\<lparr>lgw_states := AList.update (state_key s) (flw_tag fl, lgn_now env + state_ttl) (lgw_states w)\<rparr>"
      using run_login.hyps(2,3) by simp
    then show ?thesis by (cases p) (auto simp: pending_def AList.update_conv' split: option.split)
  qed (use run_login.hyps(2) in simp)
  then show ?case using run_login.IH [of p] by (auto split: if_splits)
next
  case (run_login_failed ls cs w fl env w' c n)
  then have "w' = w" by (cases rule: handle_login_cases [of fl env w]) auto
  then show ?case using run_login_failed.IH by simp
next
  case (run_callback ls cs w cl fl env q w' u)
  show ?case
  proof (cases rule: handle_callback_cases [of cl fl env q w])
    case (completed w1 u' expires)
    then have "pending p w' + (if p = (flw_tag fl, cbq_state q) then 1 else 0) \<le> pending p w"
      using run_callback.hyps(2) by (intro pending_consumed) auto
    then show ?thesis using run_callback.IH [of p] by (auto split: if_splits)
  qed (use run_callback.hyps(2) in simp)
next
  case (run_callback_failed ls cs w cl fl env q w' c n)
  show ?case
  proof (cases rule: handle_callback_cases [of cl fl env q w])
    case (refused c' n' w1)
    then have "lgw_states w' = lgw_states w \<or> lgw_states w' = AList.delete (state_key (cbq_state q)) (lgw_states w)"
      using run_callback_failed.hyps(2) by auto
    then have "pending p w' \<le> pending p w"
    proof
      assume "lgw_states w' = lgw_states w"
      then show ?thesis using pending_states [of w' w p] by simp
    next
      assume "lgw_states w' = AList.delete (state_key (cbq_state q)) (lgw_states w)"
      then have "pending p w' = pending p (w\<lparr>lgw_states := AList.delete (state_key (cbq_state q)) (lgw_states w)\<rparr>)"
        by (intro pending_states) simp
      then show ?thesis using pending_delete [where p = p and w = w and ss = "lgw_states w"] by simp
    qed
    then show ?thesis using run_callback_failed.IH [of p] by simp
  qed (use run_callback_failed.hyps(2) in simp)
next
  case (run_evict ls cs w k)
  have "pending p (w\<lparr>lgw_states := AList.delete k (lgw_states w)\<rparr>) \<le> pending p w"
    using pending_delete [where p = p and w = w and ss = "lgw_states w"] by simp
  then show ?case using run_evict.IH [of p] by simp
next
  case (run_other ls cs w w')
  then show ?case using pending_states by metis
qed

section \<open>Properties\<close>

text \<open>
  C22: A login authorises at most one completed callback, and only one of its own flow: no state completes more
  callbacks of a flow than logins of that flow generated it, and it completes none once it has lapsed.
\<close>

theorem callbacks_are_authorised_once:
  assumes "login_run ls cs w"
  shows "count_list cs (tag, s) \<le> count_list ls (tag, s) \<and>
    (\<forall>cl fl env q w' u. handle_callback cl fl env q w = (w', AuthRedirect u) \<longrightarrow>
       (\<exists>expires. map_of (lgw_states w) (state_key (cbq_state q)) = Some (flw_tag fl, expires) \<and> lgn_now env < expires))"
proof (intro conjI allI impI)
  show "count_list cs (tag, s) \<le> count_list ls (tag, s)" using login_run_counts [OF assms, of "(tag, s)"] by simp
next
  fix cl fl env q w' u
  assume "handle_callback cl fl env q w = (w', AuthRedirect u)"
  then show "\<exists>expires. map_of (lgw_states w) (state_key (cbq_state q)) = Some (flw_tag fl, expires) \<and> lgn_now env < expires"
    by (cases rule: handle_callback_cases [of cl fl env q w]) auto
qed

lemma upsert_user_row:
  assumes "upsert_user env email name w = (w', Inr user)"
  shows "\<exists>u \<in> set (lgw_users w'). our_id u = user \<and> our_email u = email \<and> our_name u = name" "lgw_tokens w' = lgw_tokens w"
    "lgw_backfill w' = lgw_backfill w"
proof -
  have db: "lgn_user_db env = None" using assms by (simp add: upsert_user_def split: option.splits)
  have "(\<exists>u \<in> set (lgw_users w'). our_id u = user \<and> our_email u = email \<and> our_name u = name) \<and>
    lgw_tokens w' = lgw_tokens w \<and> lgw_backfill w' = lgw_backfill w"
  proof (cases "List.find (\<lambda>u. our_email u = email) (lgw_users w)")
    case (Some u)
    then have u: "u \<in> set (lgw_users w)" "our_email u = email" by (auto simp: find_Some_iff)
    then have "u\<lparr>our_name := name\<rparr> \<in> set (map (\<lambda>x. if our_email x = email then x\<lparr>our_name := name\<rparr> else x) (lgw_users w))"
      by (auto intro!: image_eqI [of _ _ u])
    moreover have "our_id (u\<lparr>our_name := name\<rparr>) = our_id u \<and> our_email (u\<lparr>our_name := name\<rparr>) = email \<and> our_name (u\<lparr>our_name := name\<rparr>) = name"
      using u by simp
    ultimately show ?thesis using assms db Some unfolding upsert_user_def
      by (auto simp del: set_map intro: bexI [of _ "u\<lparr>our_name := name\<rparr>"])
  qed (use assms db in \<open>auto simp: upsert_user_def\<close>)
  then show "\<exists>u \<in> set (lgw_users w'). our_id u = user \<and> our_email u = email \<and> our_name u = name" "lgw_tokens w' = lgw_tokens w"
    "lgw_backfill w' = lgw_backfill w" by blast+
qed

lemma upsert_account_email:
  assumes "upsert_account env user provider email p (Some rt) access w = (w', Inr a)" "find_account a w' = Some r"
    and "distinct (map oac_id (tw_accounts w))" "ote_new_id env \<notin> oac_id ` set (tw_accounts w)"
  shows "oac_user r = user \<and> oac_email r = email"
proof -
  have db: "ote_db env 0 = None" using assms(1) by (cases "ote_db env 0") (simp_all add: upsert_account_def)
  obtain scopes where sc: "tp_scopes p = Some scopes" using assms(1) db by (cases "tp_scopes p") (simp_all add: upsert_account_def)
  show ?thesis
  proof (cases "List.find (\<lambda>r. oac_user r = user \<and> oac_email r = email) (tw_accounts w)")
    case None
    have "List.find (\<lambda>r. oac_id r = ote_new_id env) (tw_accounts w) = None" using assms(4) by (force simp: find_None_iff image_iff)
    then show ?thesis using assms(1,2) db sc None by (auto simp: upsert_account_def find_account_def find_append)
  next
    case (Some old)
    then have old: "old \<in> set (tw_accounts w)" "oac_user old = user \<and> oac_email old = email" by (auto simp: find_Some_iff)
    have w': "w' = update_accounts (\<lambda>r. oac_user r = user \<and> oac_email r = email) (put_pair env p rt access scopes) w" "a = oac_id old"
      using assms(1) db sc Some by (auto simp: upsert_account_def)
    have "find_account a w = Some old" using find_distinct [OF assms(3) old(1)] w'(2) by (simp add: find_account_def)
    then show ?thesis using assms(2) old(2) unfolding w'(1) by (auto simp: find_account_update put_pair_def)
  qed
qed

text \<open>
  A callback that ends in the redirect to the start page has a user with the address and name of the
  user info, and an active account of that user under that address with the expiry and scopes of the exchanged
  pair; it has put no backfill in the queue.
\<close>

lemma completed_callback_connects_account:
  assumes "handle_callback cl fl env q w = (w', AuthRedirect u)"
    and "distinct (map oac_id (tw_accounts (lgw_tokens w)))" "ote_new_id (lgn_tokens env) \<notin> oac_id ` set (tw_accounts (lgw_tokens w))"
  shows "\<exists>p pair token email name user r. flw_client fl = Some p \<and> opr_exchange p (cbq_code q) (flw_redirect fl) = Inr pair \<and>
    tp_plaintext pair = Some token \<and> flw_userinfo fl token = Inr (email, name) \<and>
    user \<in> set (lgw_users w') \<and> our_email user = email \<and> our_name user = name \<and>
    r \<in> set (tw_accounts (lgw_tokens w')) \<and> oac_user r = our_id user \<and> oac_email r = email \<and> oac_active r \<and>
    oac_expires r = tp_expires pair \<and> Some (oac_scopes r) = tp_scopes pair \<and> lgw_backfill w' = lgw_backfill w"
proof -
  obtain p where p: "flw_client fl = Some p" using assms(1) by (cases "flw_client fl") (simp_all add: handle_callback_def)
  have c: "cbq_error q = []" "cbq_code q \<noteq> []" "cbq_state q \<noteq> []" using assms(1) p by (auto simp: handle_callback_def split: if_splits)
  obtain w1 v where v: "validate_and_consume_state env (cbq_state q) (flw_tag fl) w = (w1, v)" by fastforce
  have v0: "v = None" using assms(1) p c v by (cases v) (simp_all add: handle_callback_def)
  obtain pair where pair: "opr_exchange p (cbq_code q) (flw_redirect fl) = Inr pair"
    using assms(1) p c v v0 by (cases "opr_exchange p (cbq_code q) (flw_redirect fl)") (simp_all add: handle_callback_def)
  obtain token where token: "tp_plaintext pair = Some token"
    using assms(1) p c v v0 pair by (cases "tp_plaintext pair") (simp_all add: handle_callback_def)
  have s: "store_login cl fl env pair token w1 = (w', AuthRedirect u)"
    using assms(1) p c v v0 pair token by (simp add: handle_callback_def)
  have same: "lgw_tokens w1 = lgw_tokens w" "lgw_backfill w1 = lgw_backfill w"
    using v by (auto simp: validate_and_consume_state_def Let_def split: option.splits if_splits)
  obtain email name where info: "flw_userinfo fl token = Inr (email, name)"
    using s by (cases "flw_userinfo fl token") (auto simp: store_login_def)
  obtain w2 r where us: "upsert_user env email name w1 = (w2, r)" by fastforce
  obtain user where r: "r = Inr user" using s info us by (cases r) (simp_all add: store_login_def)
  obtain t x where up: "upsert_account_with_tokens cl (lgn_tokens env) user (flw_account_provider fl) email (Some pair) (lgw_tokens w2) = (t, x)"
    by fastforce
  obtain a where x: "x = Inr a" using s info us r up by (cases x) (simp_all add: store_login_def)
  have w': "w' = fire_on_success env user (w2\<lparr>lgw_tokens := t\<rparr>)" using s info us r up x by (simp add: store_login_def)
  note row = upsert_user_row [OF us [unfolded r]]
  obtain v1 rt v2 acc where m: "encrypt_and_marshal cl (ote_crypto (lgn_tokens env) 0) (tp_refresh pair) (lgw_tokens w2) = (v1, Inr (Some rt))"
    "encrypt_and_marshal cl (ote_crypto (lgn_tokens env) 1) (tp_access pair) v1 = (v2, Inr acc)"
    "upsert_account (lgn_tokens env) user (flw_account_provider fl) email pair (Some rt) acc v2 = (t, Inr a)"
    by (rule upsert_with_tokens_Inr [OF up [unfolded x]])
  have acc: "tw_accounts v2 = tw_accounts (lgw_tokens w)" using marshal_accounts [OF m(1)] marshal_accounts [OF m(2)] row(2) same by simp
  obtain ar scopes where ar: "find_account a t = Some ar" "tp_scopes pair = Some scopes" "oac_active ar" "oac_expires ar = tp_expires pair" "oac_scopes ar = scopes"
    by (rule upsert_account_row [OF m(3)]) (simp_all add: acc assms(2,3))
  have em: "oac_user ar = user \<and> oac_email ar = email" by (rule upsert_account_email [OF m(3) ar(1)]) (simp_all add: acc assms(2,3))
  obtain us where us': "us \<in> set (lgw_users w2)" "our_id us = user" "our_email us = email" "our_name us = name" using row(1) by blast
  have fin: "lgw_users w' = lgw_users w2" "lgw_tokens w' = t" "lgw_backfill w' = lgw_backfill w"
    using w' row(3) same oauth_success_enqueues_nothing [of "lgn_backfill env" user "lgw_backfill w2"] by (auto simp: fire_on_success_def)
  have "ar \<in> set (tw_accounts t)" using ar(1) by (auto simp: find_account_def find_Some_iff)
  then show ?thesis using p pair token info us' ar em fin by (intro exI [of _ p] exI [of _ pair] exI [of _ token] exI [of _ email] exI [of _ name] exI [of _ us] exI [of _ ar]) simp
qed

section \<open>An instance\<close>

definition ex_flow :: oauth_flow where
  "ex_flow =
     \<lparr>flw_tag = ''google'', flw_unconfigured = ''google_oauth_not_configured'', flw_account_provider = provider_gmail,
      flw_redirect = ''https://x.org/cb'', flw_client = Some ex_provider, flw_userinfo = (\<lambda>_. Inr (''ann@x.org'', ''Ann''))\<rparr>"

definition ex_login_env :: login_env where
  "ex_login_env =
     \<lparr>lgn_now = 0, lgn_random = Inr [1], lgn_redis = None, lgn_tokens = ex_token_env, lgn_user_db = None, lgn_new_user = 3,
      lgn_kms_key = ''kms'', lgn_backfill = \<lparr>rc_now = 0, rc_fails = False, rc_expire_fails = False, rc_show = (\<lambda>_. [])\<rparr>\<rparr>"

definition ex_query :: callback_query where "ex_query = \<lparr>cbq_error = [], cbq_code = ''c'', cbq_state = ''01''\<rparr>"

definition ex_login_world :: login_world where
  "ex_login_world =
     \<lparr>lgw_states = [], lgw_users = [], lgw_tokens = \<lparr>tw_crypto = new_token_crypto, tw_accounts = []\<rparr>,
      lgw_backfill = \<lparr>br_queue = [], br_hashes = [], br_counts = Map.empty\<rparr>\<rparr>"

definition ex_logged_in :: login_world where "ex_logged_in = fst (handle_login ex_flow ex_login_env ex_login_world)"

lemma ex_login: "handle_login ex_flow ex_login_env ex_login_world = (ex_logged_in, AuthRedirect [])"
  by (simp add: ex_logged_in_def handle_login_def ex_flow_def ex_provider_def generate_state_def ex_login_env_def)

lemma ex_login_states:
  "lgw_states ex_logged_in = [(state_key ''01'', ''google'', 600000000000)]"
  "lgw_tokens ex_logged_in = \<lparr>tw_crypto = new_token_crypto, tw_accounts = []\<rparr>" "lgw_users ex_logged_in = []"
proof -
  have "hex_encode [1] = ''01''" by code_simp
  then show "lgw_states ex_logged_in = [(state_key ''01'', ''google'', 600000000000)]"
    by (simp add: ex_logged_in_def handle_login_def ex_flow_def ex_provider_def generate_state_def ex_login_env_def
        ex_login_world_def state_ttl_def)
qed (simp_all add: ex_logged_in_def handle_login_def ex_flow_def ex_provider_def generate_state_def ex_login_env_def ex_login_world_def)

lemma ex_callback: "\<exists>w'. handle_callback sample_crypto ex_flow ex_login_env ex_query ex_logged_in = (w', AuthRedirect ''/'')"
proof -
  have env: "ote_crypto ex_token_env n = sample_crypto_env 1 7" "ote_db ex_token_env n = None" for n by (simp_all add: ex_token_env_def)
  have blank: "blank_but None new_token_crypto" by (simp add: blank_but_def new_token_crypto_def)
  obtain tc1 x1 where e1: "encrypt_token sample_crypto (sample_crypto_env 1 7) ''ref'' ''google-id'' new_token_crypto = (tc1, Inr x1)"
    using ex_encrypts [OF blank, of "''ref''" "''google-id''" 1 7] by auto
  have blank1: "blank_but None tc1"
    using encrypt_token_blank [OF blank, of sample_crypto "sample_crypto_env 1 7" "''ref''" "''google-id''"] e1 by simp
  obtain tc2 x2 where e2: "encrypt_token sample_crypto (sample_crypto_env 1 7) ''first'' ''google-id'' tc1 = (tc2, Inr x2)"
    using ex_encrypts [OF blank1, of "''first''" "''google-id''" 1 7] by auto
  have full: "bytes_of ''ref'' \<noteq> []" "bytes_of ''first'' \<noteq> []" by (simp_all add: bytes_of_def)
  have up: "\<exists>t a. upsert_account_with_tokens sample_crypto ex_token_env 3 provider_gmail ''ann@x.org'' (Some (clear_pair ''first''))
      \<lparr>tw_crypto = new_token_crypto, tw_accounts = []\<rparr> = (t, Inr a)"
    using e1 e2 full
    by (simp add: upsert_account_with_tokens_def env clear_pair_def encrypt_refresh_def encrypt_access_def encrypt_and_marshal_def
        is_encrypted_def nonce_size_def upsert_account_def)
  have "validate_and_consume_state ex_login_env ''01'' ''google'' ex_logged_in = (ex_logged_in\<lparr>lgw_states := []\<rparr>, None)"
    by (simp add: validate_and_consume_state_def ex_login_states ex_login_env_def)
  moreover have "\<exists>w'. store_login sample_crypto ex_flow ex_login_env (clear_pair ''first'') ''first'' (ex_logged_in\<lparr>lgw_states := []\<rparr>) =
      (w', AuthRedirect ''/'')"
    using up by (auto simp: store_login_def ex_flow_def upsert_user_def ex_login_env_def ex_login_states)
  ultimately show ?thesis
    by (simp add: handle_callback_def ex_flow_def ex_query_def ex_provider_def clear_pair_def)
qed

lemma callbacks_are_authorised_once_witness:
  "\<exists>w'. login_run [(''google'', ''01'')] [(''google'', ''01'')] w' \<and> count_list [(''google'', ''01'')] (''google'', ''01'') \<le> (1 :: nat) \<and>
     lgw_states w' = []"
proof -
  obtain w' where cb: "handle_callback sample_crypto ex_flow ex_login_env ex_query ex_logged_in = (w', AuthRedirect ''/'')"
    using ex_callback by blast
  have "hex_encode [1] = ''01''" by code_simp
  then have s: "generate_state ex_login_env = Inr ''01''" by (simp add: generate_state_def ex_login_env_def)
  have "login_run [] [] ex_login_world" by (rule run_start) (simp add: ex_login_world_def)
  from run_login [OF this ex_login s] have "login_run [(''google'', ''01'')] [] ex_logged_in" by (simp add: ex_flow_def)
  from run_callback [OF this cb] have run: "login_run [(''google'', ''01'')] [(''google'', ''01'')] w'"
    by (simp add: ex_flow_def ex_query_def)
  have "lgw_states w' = []"
    by (cases rule: handle_callback_cases [of sample_crypto ex_flow ex_login_env ex_query ex_logged_in])
      (use cb in \<open>simp_all add: ex_login_states ex_query_def\<close>)
  then show ?thesis using run callbacks_are_authorised_once [OF run, of "''google''" "''01''"] by auto
qed

lemma completed_callback_connects_account_witness:
  "\<exists>w' user r. handle_callback sample_crypto ex_flow ex_login_env ex_query ex_logged_in = (w', AuthRedirect ''/'') \<and>
     user \<in> set (lgw_users w') \<and> our_email user = ''ann@x.org'' \<and> r \<in> set (tw_accounts (lgw_tokens w')) \<and> oac_user r = our_id user"
proof -
  obtain w' where cb: "handle_callback sample_crypto ex_flow ex_login_env ex_query ex_logged_in = (w', AuthRedirect ''/'')"
    using ex_callback by blast
  have "distinct (map oac_id (tw_accounts (lgw_tokens ex_logged_in)))"
    "ote_new_id (lgn_tokens ex_login_env) \<notin> oac_id ` set (tw_accounts (lgw_tokens ex_logged_in))" by (simp_all add: ex_login_states)
  from completed_callback_connects_account [OF cb this] show ?thesis using cb by (auto simp: ex_flow_def)
qed

end
