(* ===== verification/Webhook_Verifier.thy ===== *)
theory Webhook_Verifier
  imports Go_Json
begin

text \<open>
  The verification of webhook pushes (\<open>src/ingestion/internal/webhook/verifier.go\<close>): key sets of the
  providers with their cache, the token of a Gmail push, and RSA PKCS #1 v1.5 as the Go library checks it.
  SHA-256 and the JSON decoder are arguments.
\<close>

section \<open>RSA signatures\<close>

text \<open>\<open>big.Int.SetBytes\<close>, the number of bytes of a modulus, and a number in that many bytes.\<close>

definition be_nat :: "bytes \<Rightarrow> nat" where
  "be_nat bs = foldl (\<lambda>n b. 256 * n + unat b) 0 bs"

fun byte_size :: "nat \<Rightarrow> nat" where
  "byte_size n = (if n = 0 then 0 else Suc (byte_size (n div 256)))"

declare byte_size.simps [simp del]

fun be_bytes :: "nat \<Rightarrow> nat \<Rightarrow> bytes" where
  "be_bytes 0 n = []"
| "be_bytes (Suc k) n = be_bytes k (n div 256) @ [of_nat (n mod 256)]"

text \<open>
  The public operation: the modulus has to be odd and above the message. The library raises by squaring
  from the top bit of the exponent, so that an exponent of 0 works like 1.
\<close>

definition rsa_public :: "nat \<Rightarrow> nat \<Rightarrow> bytes \<Rightarrow> bytes option" where
  "rsa_public n e sig =
     (if even n \<or> n \<le> be_nat sig then None
      else Some (be_bytes (byte_size n) (be_nat sig ^ (if e = 0 then 1 else e) mod n)))"

text \<open>
  A hash function by its \<open>crypto.Hash\<close>: 0 is none, which stands for an input that is signed as it is,
  and SHA-256 names itself in a prefix of 19 bytes.
\<close>

datatype crypto_hash = NoHash | SHA256

definition sha256_prefix :: bytes where
  "sha256_prefix = [48, 49, 48, 13, 6, 9, 96, 134, 72, 1, 101, 3, 4, 2, 1, 5, 0, 4, 32]"

definition pkcs1_hash_info :: "crypto_hash \<Rightarrow> nat \<Rightarrow> (nat \<times> bytes) option" where
  "pkcs1_hash_info h len =
     (case h of NoHash \<Rightarrow> Some (len, []) | SHA256 \<Rightarrow> if len \<noteq> 32 then None else Some (32, sha256_prefix))"

definition verify_pkcs1v15 :: "nat \<Rightarrow> nat \<Rightarrow> crypto_hash \<Rightarrow> bytes \<Rightarrow> bytes \<Rightarrow> bool" where
  "verify_pkcs1v15 n e h hashed sig =
     (case pkcs1_hash_info h (length hashed) of
        None \<Rightarrow> False
      | Some (hash_len, prefix) \<Rightarrow>
          (let t_len = length prefix + hash_len; k = byte_size n
           in t_len + 11 \<le> k \<and> length sig = k \<and>
              rsa_public n e sig = Some ([0, 1] @ replicate (k - t_len - 3) 255 @ [0] @ prefix @ hashed)))"

section \<open>Key sets\<close>

record web_key =
  wy_kty :: string
  wy_kid :: string
  wy_n :: string
  wy_e :: string
  wy_alg :: string
  wy_use :: string
  wy_x5c :: "string list"
  wy_x5t :: string

record outlook_payload =
  ol_change :: string
  ol_resource :: string
  ol_client_state :: string
  ol_subscription :: string
  ol_id :: string
  ol_delta :: string

text \<open>SHA-256 and the decoders of the messages; \<open>None\<close> is a decoding error.\<close>

record verifier_lib =
  vl_sha256 :: "bytes \<Rightarrow> bytes"
  vl_json :: "bytes \<Rightarrow> json option"
  vl_keys :: "bytes \<Rightarrow> web_key list option"
  vl_validation :: "bytes \<Rightarrow> string option"
  vl_envelope :: "bytes \<Rightarrow> outlook_payload list option"

text \<open>What an HTTP request gives: an error or the status and the body.\<close>

type_synonym fetched = "string + nat \<times> bytes"

type_synonym cert_cache = "string \<rightharpoonup> web_key list \<times> instant"

definition cert_cache_ttl :: duration where "cert_cache_ttl = hour_ns"

definition fetch_jwks :: "('a) verifier_lib_scheme \<Rightarrow> fetched \<Rightarrow> string + web_key list" where
  "fetch_jwks lib reply =
     (case reply of
        Inl e \<Rightarrow> Inl (''fetch jwks: '' @ e)
      | Inr (code, body) \<Rightarrow>
          if code \<noteq> 200 then Inl (''jwks endpoint returned '' @ nat_decimal code @ '': '' @ map (\<lambda>b. char_of (unat b)) body)
          else (case vl_keys lib body of
                  None \<Rightarrow> Inl ''decode jwks''
                | Some [] \<Rightarrow> Inl ''jwks response contains no keys''
                | Some ks \<Rightarrow> Inr ks))"

text \<open>The key set of a provider: from the cache while it is fresh, else from the network.\<close>

definition fetch_certs ::
  "('a) verifier_lib_scheme \<Rightarrow> string \<Rightarrow> instant \<Rightarrow> fetched \<Rightarrow> cert_cache \<Rightarrow> cert_cache \<times> (string + web_key list)" where
  "fetch_certs lib provider now reply cache =
     (case cache provider of
        Some (ks, expires) \<Rightarrow>
          if now < expires then (cache, Inr ks)
          else (case fetch_jwks lib reply of
                  Inl e \<Rightarrow> (cache, Inl e)
                | Inr ks \<Rightarrow> (cache(provider \<mapsto> (ks, now + cert_cache_ttl)), Inr ks))
      | None \<Rightarrow>
          (case fetch_jwks lib reply of
             Inl e \<Rightarrow> (cache, Inl e)
           | Inr ks \<Rightarrow> (cache(provider \<mapsto> (ks, now + cert_cache_ttl)), Inr ks)))"

definition fetch_google_certs ::
  "('a) verifier_lib_scheme \<Rightarrow> instant \<Rightarrow> fetched \<Rightarrow> cert_cache \<Rightarrow> cert_cache \<times> (string + web_key list)" where
  "fetch_google_certs lib = fetch_certs lib ''google''"

definition fetch_microsoft_jwks ::
  "('a) verifier_lib_scheme \<Rightarrow> instant \<Rightarrow> fetched \<Rightarrow> cert_cache \<Rightarrow> cert_cache \<times> (string + web_key list)" where
  "fetch_microsoft_jwks lib = fetch_certs lib ''microsoft''"

section \<open>Tokens\<close>

definition parse_jwt_header :: "('a) verifier_lib_scheme \<Rightarrow> string \<Rightarrow> string + (string \<times> json) list" where
  "parse_jwt_header lib token =
     (case split_on (CHR ''.'') token of
        [h, _, _] \<Rightarrow>
          (case b64_decode h of
             None \<Rightarrow> Inl ''decode header''
           | Some bs \<Rightarrow>
               (case Option.bind (vl_json lib bs) decode_object of
                  None \<Rightarrow> Inl ''unmarshal header''
                | Some ms \<Rightarrow> Inr ms))
      | _ \<Rightarrow> Inl ''invalid jwt format: expected 3 parts'')"

definition parse_jwt_claims :: "('a) verifier_lib_scheme \<Rightarrow> string \<Rightarrow> string + (string \<times> json) list" where
  "parse_jwt_claims lib token =
     (case split_on (CHR ''.'') token of
        [_, c, _] \<Rightarrow>
          (case b64_decode c of
             None \<Rightarrow> Inl ''decode claims''
           | Some bs \<Rightarrow>
               (case Option.bind (vl_json lib bs) decode_object of
                  None \<Rightarrow> Inl ''unmarshal claims''
                | Some ms \<Rightarrow> Inr ms))
      | _ \<Rightarrow> Inl ''invalid jwt format'')"

text \<open>The exponent is cut to 64 bits on its way through \<open>Int64\<close> and \<open>int\<close>.\<close>

definition verify_jwt_signature :: "('a) verifier_lib_scheme \<Rightarrow> string \<Rightarrow> web_key \<Rightarrow> string + (string \<times> json) list" where
  "verify_jwt_signature lib token key =
     (if wy_kty key \<noteq> ''RSA'' then Inl (''unsupported key type: '' @ wy_kty key)
      else (case b64_decode (wy_n key) of
        None \<Rightarrow> Inl ''decode modulus''
      | Some n_bytes \<Rightarrow>
          (case b64_decode (wy_e key) of
             None \<Rightarrow> Inl ''decode exponent''
           | Some e_bytes \<Rightarrow>
               (case split_on (CHR ''.'') token of
                  [h, c, s] \<Rightarrow>
                    (case b64_decode s of
                       None \<Rightarrow> Inl ''decode signature''
                     | Some sig \<Rightarrow>
                         if wy_alg key \<noteq> ''RS256'' \<and> wy_alg key \<noteq> [] then Inl (''unsupported algorithm: '' @ wy_alg key)
                         else if \<not> verify_pkcs1v15 (be_nat n_bytes) (be_nat e_bytes mod 2 ^ 64) NoHash
                                    (vl_sha256 lib (bytes_of (h @ ''.'' @ c))) sig
                         then Inl ''signature verification failed''
                         else parse_jwt_claims lib token)
                | _ \<Rightarrow> Inl ''invalid jwt format''))))"

definition get_string_claim :: "(string \<times> json) list \<Rightarrow> string \<Rightarrow> string" where
  "get_string_claim claims key = (case map_of claims key of Some (JStr s) \<Rightarrow> s | _ \<Rightarrow> [])"

record gmail_payload =
  gp_subject :: string
  gp_email :: string
  gp_audience :: string
  gp_issuer :: string

definition gmail_payload_of :: "(string \<times> json) list \<Rightarrow> string + gmail_payload" where
  "gmail_payload_of claims =
     (let p = \<lparr>gp_subject = get_string_claim claims ''sub'', gp_email = get_string_claim claims ''email'',
               gp_audience = get_string_claim claims ''aud'', gp_issuer = get_string_claim claims ''iss''\<rparr>
      in if gp_issuer p \<noteq> ''https://accounts.google.com'' \<and> gp_issuer p \<noteq> ''accounts.google.com''
         then Inl (''invalid issuer: '' @ gp_issuer p) else Inr p)"

text \<open>
  The key a token names. The first reply answers the request for a missing key set, the second the one
  after the cache was dropped for an unknown key.
\<close>

definition find_google_key ::
  "('a) verifier_lib_scheme \<Rightarrow> instant \<Rightarrow> fetched \<Rightarrow> fetched \<Rightarrow> string \<Rightarrow> cert_cache \<Rightarrow> cert_cache \<times> (string + web_key)" where
  "find_google_key lib now reply1 reply2 kid cache =
     (case fetch_google_certs lib now reply1 cache of
        (cache1, Inl e) \<Rightarrow> (cache1, Inl (''fetch google certs: '' @ e))
      | (cache1, Inr ks) \<Rightarrow>
          (case List.find (\<lambda>k. wy_kid k = kid) ks of
             Some k \<Rightarrow> (cache1, Inr k)
           | None \<Rightarrow>
               (case fetch_google_certs lib now reply2 (cache1(''google'' := None)) of
                  (cache2, Inl e) \<Rightarrow> (cache2, Inl (''refresh google certs: '' @ e))
                | (cache2, Inr ks2) \<Rightarrow>
                    (case List.find (\<lambda>k. wy_kid k = kid) ks2 of
                       Some k \<Rightarrow> (cache2, Inr k)
                     | None \<Rightarrow> (cache2, Inl (''no matching key found for kid: '' @ kid))))))"

definition verify_gmail_jwt ::
  "('a) verifier_lib_scheme \<Rightarrow> instant \<Rightarrow> fetched \<Rightarrow> fetched \<Rightarrow> string \<Rightarrow> cert_cache \<Rightarrow> cert_cache \<times> (string + gmail_payload)" where
  "verify_gmail_jwt lib now reply1 reply2 token cache =
     (case parse_jwt_header lib token of
        Inl e \<Rightarrow> (cache, Inl (''parse jwt header: '' @ e))
      | Inr header \<Rightarrow>
          (case map_of header ''kid'' of
             Some (JStr kid) \<Rightarrow>
               (case find_google_key lib now reply1 reply2 kid cache of
                  (cache', Inl e) \<Rightarrow> (cache', Inl e)
                | (cache', Inr k) \<Rightarrow>
                    (cache', case verify_jwt_signature lib token k of
                               Inl e \<Rightarrow> Inl (''verify jwt signature: '' @ e)
                             | Inr claims \<Rightarrow> gmail_payload_of claims))
           | _ \<Rightarrow> (cache, Inl ''jwt header missing kid'')))"

definition verify_outlook_validation :: "('a) verifier_lib_scheme \<Rightarrow> bytes \<Rightarrow> string + string" where
  "verify_outlook_validation lib payload =
     (case vl_validation lib payload of
        Some (c # t) \<Rightarrow> Inr (c # t)
      | _ \<Rightarrow>
          (let token = trim_space (map (\<lambda>b. char_of (unat b)) payload)
           in if payload \<noteq> [] \<and> token \<noteq> [] \<and> token \<noteq> ''{}'' then Inr token
              else Inl ''no validation token found in payload''))"

definition verify_outlook_notification :: "('a) verifier_lib_scheme \<Rightarrow> bytes \<Rightarrow> string + outlook_payload list" where
  "verify_outlook_notification lib payload =
     (case vl_envelope lib payload of
        None \<Rightarrow> Inl ''unmarshal outlook notification''
      | Some [] \<Rightarrow> Inl ''empty notification envelope''
      | Some vs \<Rightarrow> Inr vs)"

section \<open>What a signature proves\<close>

lemma sha256_prefix_length [simp]: "length sha256_prefix = 19"
  by (simp add: sha256_prefix_def)

lemma sha256_prefix_last: "sha256_prefix = take 18 sha256_prefix @ [32]"
  by (simp add: sha256_prefix_def)

text \<open>
  A message signed with the name of its hash does not verify as a bare one: the byte before the digest
  is the end of the prefix and not the separator.
\<close>

lemma sha256_signature_is_not_bare:
  assumes "verify_pkcs1v15 n e SHA256 hashed sig"
  shows "\<not> verify_pkcs1v15 n e NoHash hashed sig"
proof
  assume bare: "verify_pkcs1v15 n e NoHash hashed sig"
  let ?k = "byte_size n"
  have len: "length hashed = 32"
    using assms by (auto simp: verify_pkcs1v15_def pkcs1_hash_info_def split: if_splits)
  then have "[0, 1] @ replicate (?k - 54) 255 @ [0] @ sha256_prefix @ hashed =
      [0, 1] @ replicate (?k - 35) 255 @ [0] @ [] @ (hashed :: bytes)"
    using assms bare by (auto simp: verify_pkcs1v15_def pkcs1_hash_info_def Let_def)
  then have "([0, 1] @ replicate (?k - 54) 255 @ [0] @ take 18 sha256_prefix) @ 32 # hashed =
      ([0, 1] @ replicate (?k - 35) 255) @ 0 # (hashed :: bytes)"
    by (subst (asm) sha256_prefix_last) simp
  then show False by (simp add: append_eq_append_conv)
qed

text \<open>A token whose signature is one of RS256 under a key (RFC 7518), and the check of the service.\<close>

definition rs256_token :: "('a) verifier_lib_scheme \<Rightarrow> string \<Rightarrow> web_key \<Rightarrow> bool" where
  "rs256_token lib token key =
     (case (split_on (CHR ''.'') token, b64_decode (wy_n key), b64_decode (wy_e key)) of
        ([h, c, s], Some n, Some e) \<Rightarrow>
          (case b64_decode s of
             None \<Rightarrow> False
           | Some sig \<Rightarrow> be_nat e < 2 ^ 64 \<and>
               verify_pkcs1v15 (be_nat n) (be_nat e) SHA256 (vl_sha256 lib (bytes_of (h @ ''.'' @ c))) sig)
      | _ \<Rightarrow> False)"

lemma rs256_token_fails:
  "rs256_token lib token key \<Longrightarrow> \<exists>e. verify_jwt_signature lib token key = Inl e"
  using sha256_signature_is_not_bare
  by (auto simp: rs256_token_def verify_jwt_signature_def split: list.splits option.splits)

section \<open>Numbers in bytes\<close>

lemma be_nat_Nil [simp]: "be_nat [] = 0"
  by (simp add: be_nat_def)

lemma be_nat_snoc [simp]: "be_nat (bs @ [b]) = 256 * be_nat bs + unat b"
  by (simp add: be_nat_def)

lemma be_bytes_be_nat [simp]: "be_bytes (length bs) (be_nat bs) = bs"
  by (induction bs rule: rev_induct) (simp_all add: unat_byte_less)

lemma be_nat_less: "be_nat bs < 256 ^ length bs"
proof (induction bs rule: rev_induct)
  case (snoc b bs)
  then show ?case using unat_byte_less [of b] by simp
qed simp

lemma be_nat_Cons: "be_nat (b # bs) = unat b * 256 ^ length bs + be_nat bs"
proof (induction bs rule: rev_induct)
  case Nil
  show ?case using be_nat_snoc [of "[]" b] by simp
next
  case (snoc x bs)
  then show ?case using be_nat_snoc [of "b # bs" x] by (simp add: algebra_simps)
qed

lemma byte_size_be_nat:
  assumes "b \<noteq> 0"
  shows "byte_size (be_nat (b # bs)) = Suc (length bs)"
proof (induction bs rule: rev_induct)
  case Nil
  have "unat b \<noteq> 0" using assms by (simp add: unsigned_eq_0_iff)
  then show ?case using unat_byte_less [of b] by (simp add: be_nat_Cons byte_size.simps)
next
  case (snoc x bs)
  have "be_nat (b # bs) \<noteq> 0" using assms by (simp add: be_nat_Cons unsigned_eq_0_iff)
  moreover have "be_nat (b # bs @ [x]) = 256 * be_nat (b # bs) + unat x"
    using be_nat_snoc [of "b # bs" x] by simp
  ultimately show ?case
    using snoc unat_byte_less [of x] by (subst byte_size.simps) simp
qed

text \<open>With the exponent 1 the padded message is its own signature, under an odd modulus of its length.\<close>

lemma exponent_one_signs:
  assumes "odd (be_nat (b # bs))" "b \<noteq> 0" "length em = length bs"
  shows "rsa_public (be_nat (b # bs)) 1 (0 # em) = Some (0 # em)"
proof -
  have "be_nat (0 # em) < 256 ^ length em" by (simp add: be_nat_Cons be_nat_less)
  also have "\<dots> \<le> unat b * 256 ^ length bs"
  proof -
    have "unat b \<noteq> 0" using assms(2) by (simp add: unsigned_eq_0_iff)
    then show ?thesis using assms(3) by simp
  qed
  finally have "be_nat (0 # em) < be_nat (b # bs)" by (simp add: be_nat_Cons [of b])
  then show ?thesis
    using assms be_bytes_be_nat [of "0 # em"] by (simp add: rsa_public_def byte_size_be_nat del: be_bytes_be_nat)
qed

section \<open>A signed token\<close>

lemma split_on_first: "x \<notin> set a \<Longrightarrow> split_on x (a @ x # b) = a # split_on x b"
  by (induction a) auto

definition sample_message :: bytes where
  "sample_message = [0, 1] @ replicate 8 255 @ [0] @ sha256_prefix @ replicate 32 7"

definition sample_modulus :: bytes where "sample_modulus = 255 # replicate 61 255"

definition sample_key :: web_key where
  "sample_key = \<lparr>wy_kty = ''RSA'', wy_kid = ''k'', wy_n = b64_encode sample_modulus, wy_e = b64_encode [1],
     wy_alg = ''RS256'', wy_use = ''sig'', wy_x5c = [], wy_x5t = []\<rparr>"

definition sample_token :: string where
  "sample_token = b64_encode [1] @ CHR ''.'' # b64_encode [2] @ CHR ''.'' # b64_encode sample_message"

definition sample_json :: "bytes \<Rightarrow> json option" where
  "sample_json bs = (if bs = [1] then Some (JObj [(''kid'', JStr ''k'')]) else None)"

lemma split_sample_token: "split_on (CHR ''.'') sample_token = [b64_encode [1], b64_encode [2], b64_encode sample_message]"
  by (simp add: sample_token_def split_on_first b64_encode_no_dot split_on_no_sep)

lemma odd_sample_modulus: "odd (be_nat sample_modulus)"
proof -
  have "sample_modulus = (255 # replicate 60 255) @ [255]"
    by (simp add: sample_modulus_def replicate_append_same [symmetric] numeral_eq_Suc)
  then have "be_nat sample_modulus = 256 * be_nat (255 # replicate 60 255) + unat (255 :: 8 word)"
    by (metis be_nat_snoc)
  then show ?thesis by simp
qed

lemma sample_token_signed:
  assumes "\<And>m. vl_sha256 lib m = replicate 32 7"
  shows "rs256_token lib sample_token sample_key"
proof -
  have em: "sample_message = 0 # tl sample_message" "length (tl sample_message) = 61"
    by (simp_all add: sample_message_def)
  have "rsa_public (be_nat sample_modulus) 1 sample_message = Some sample_message"
    using exponent_one_signs [of 255 "replicate 61 255" "tl sample_message"] odd_sample_modulus em
    by (simp add: sample_modulus_def)
  moreover have "byte_size (be_nat sample_modulus) = 62"
    using byte_size_be_nat [of 255 "replicate 61 255"] by (simp add: sample_modulus_def)
  moreover have "length sample_message = 62" by (simp add: sample_message_def)
  ultimately have "verify_pkcs1v15 (be_nat sample_modulus) 1 SHA256 (replicate 32 7) sample_message"
    by (simp add: verify_pkcs1v15_def pkcs1_hash_info_def sample_message_def)
  moreover have "be_nat [1] = 1" by (simp add: be_nat_def)
  ultimately show ?thesis
    by (simp add: rs256_token_def split_sample_token sample_key_def assms)
qed

end
