(* ===== verification/Fetch_Queue.thy ===== *)
theory Fetch_Queue
  imports Go_Encoding "HOL-Library.Sublist"
begin

text \<open>
  The fetch jobs that webhooks leave for the fetch workers (\<open>src/ingestion/internal/fetch/job.go\<close>) and
  their queues in Redis, one list for each user (\<open>enqueuer.go\<close>). A list is kept with the time it expires;
  an entry stands for its JSON text, and is \<open>None\<close> when the text is no job.
\<close>

section \<open>Jobs\<close>

record hook_job =
  hj_id :: string
  hj_user :: string
  hj_account :: string
  hj_source :: string
  hj_history :: "string option"
  hj_delta :: "string option"
  hj_page :: "string option"
  hj_enqueued :: instant
  hj_attempts :: int

definition new_fetch_job :: "string \<Rightarrow> instant \<Rightarrow> string \<Rightarrow> string \<Rightarrow> string \<Rightarrow> hook_job" where
  "new_fetch_job jid now user account source =
     \<lparr>hj_id = jid, hj_user = user, hj_account = account, hj_source = source, hj_history = None,
      hj_delta = None, hj_page = None, hj_enqueued = now, hj_attempts = 0\<rparr>"

text \<open>
  \<open>fmtUInt64\<close> fills a buffer of 20 bytes from the right. Writing before the buffer would be a panic,
  which is \<open>None\<close>.
\<close>

fun fmt_digits :: "64 word \<Rightarrow> nat \<Rightarrow> string \<Rightarrow> string option" where
  "fmt_digits v 0 buf = (if v = 0 then Some buf else None)"
| "fmt_digits v (Suc i) buf =
     (if v = 0 then Some (drop (Suc i) buf)
      else fmt_digits (v div 10) i (buf[i := char_of (48 + unat (v mod 10))]))"

definition fmt_uint64 :: "64 word \<Rightarrow> string option" where
  "fmt_uint64 v = (if v = 0 then Some ''0'' else fmt_digits v 20 (replicate 20 (CHR 0x00)))"

definition new_gmail_fetch_job :: "string \<Rightarrow> instant \<Rightarrow> string \<Rightarrow> string \<Rightarrow> 64 word \<Rightarrow> hook_job option" where
  "new_gmail_fetch_job jid now user account history =
     (case fmt_uint64 history of
        None \<Rightarrow> None
      | Some h \<Rightarrow> Some ((new_fetch_job jid now user account ''gmail'')\<lparr>hj_history := Some h\<rparr>))"

definition new_outlook_fetch_job :: "string \<Rightarrow> instant \<Rightarrow> string \<Rightarrow> string \<Rightarrow> string \<Rightarrow> hook_job" where
  "new_outlook_fetch_job jid now user account link =
     (new_fetch_job jid now user account ''outlook'')\<lparr>hj_delta := Some link\<rparr>"

definition increment_attempts :: "hook_job \<Rightarrow> hook_job" where
  "increment_attempts j = j\<lparr>hj_attempts := hj_attempts j + 1\<rparr>"

section \<open>Redis\<close>

text \<open>
  A command is performed and answered, never reaches the server, or is performed while its answer is
  lost; the last two are errors to the caller. A list without expiry has \<open>None\<close>.
\<close>

datatype call_fate = Performed | NotSent | Unanswered

type_synonym job_lists = "string \<rightharpoonup> instant option \<times> hook_job option list"

definition live_list :: "instant \<Rightarrow> string \<Rightarrow> job_lists \<Rightarrow> (instant option \<times> hook_job option list) option" where
  "live_list now k r =
     (case r k of
        Some (Some e, js) \<Rightarrow> if now < e then Some (Some e, js) else None
      | x \<Rightarrow> x)"

definition entries_of :: "instant \<Rightarrow> string \<Rightarrow> job_lists \<Rightarrow> hook_job option list" where
  "entries_of now k r = (case live_list now k r of None \<Rightarrow> [] | Some (_, js) \<Rightarrow> js)"

definition rpush :: "instant \<Rightarrow> string \<Rightarrow> hook_job option \<Rightarrow> job_lists \<Rightarrow> job_lists" where
  "rpush now k j r =
     r(k \<mapsto> (case live_list now k r of None \<Rightarrow> (None, [j]) | Some (e, js) \<Rightarrow> (e, js @ [j])))"

definition expire_list :: "instant \<Rightarrow> string \<Rightarrow> duration \<Rightarrow> job_lists \<Rightarrow> job_lists" where
  "expire_list now k ttl r =
     (case live_list now k r of None \<Rightarrow> r | Some (_, js) \<Rightarrow> r(k \<mapsto> (Some (now + ttl), js)))"

text \<open>
  BLPOP at the moment it is served: the left end of the first list that is not empty. A list that
  becomes empty is removed. No entry is the timeout, \<open>redis.Nil\<close>.
\<close>

fun blpop :: "instant \<Rightarrow> string list \<Rightarrow> job_lists \<Rightarrow> job_lists \<times> (string \<times> hook_job option) option" where
  "blpop now [] r = (r, None)"
| "blpop now (k # ks) r =
     (case live_list now k r of
        Some (e, j # js) \<Rightarrow> (if js = [] then r(k := None) else r(k \<mapsto> (e, js)), Some (k, j))
      | _ \<Rightarrow> blpop now ks r)"

section \<open>The enqueuer\<close>

definition job_ttl :: duration where "job_ttl = 24 * hour_ns"

definition fetch_queue_key :: "string \<Rightarrow> string" where
  "fetch_queue_key user = ''fetch:queue:'' @ user"

record fetch_call =
  fc_now :: instant
  fc_push :: call_fate
  fc_expire :: call_fate

definition enqueue_fetch_job :: "fetch_call \<Rightarrow> hook_job \<Rightarrow> job_lists \<Rightarrow> job_lists \<times> string option" where
  "enqueue_fetch_job c j r =
     (if hj_id j = [] then (r, Some ''fetch job ID is required'')
      else if hj_user j = [] then (r, Some ''fetch job UserID is required'')
      else if hj_account j = [] then (r, Some ''fetch job AccountID is required'')
      else if hj_source j \<noteq> ''gmail'' \<and> hj_source j \<noteq> ''outlook''
      then (r, Some (''invalid source: '' @ hj_source j @ '' (must be '' @ [CHR 0x27] @ ''gmail'' @ [CHR 0x27] @ '' or '' @
                     [CHR 0x27] @ ''outlook'' @ [CHR 0x27] @ '')''))
      else (let k = fetch_queue_key (hj_user j);
                r1 = (if fc_push c = NotSent then r
                      else rpush (fc_now c) k (Some (j\<lparr>hj_enqueued := fc_now c\<rparr>)) r);
                r2 = (if fc_expire c = NotSent then r1 else expire_list (fc_now c) k job_ttl r1)
            in (r2, if fc_push c = Performed \<and> fc_expire c = Performed then None
                    else Some ''redis rpush fetch job'')))"

text \<open>The result of a dequeue: an error, no job before the timeout, or the job as the worker gets it.\<close>

definition dequeue_fetch_job ::
  "call_fate \<Rightarrow> instant \<Rightarrow> string \<Rightarrow> job_lists \<Rightarrow> job_lists \<times> (string + hook_job option)" where
  "dequeue_fetch_job fate now user r =
     (if user = [] then (r, Inl ''userID is required'')
      else if fate = NotSent then (r, Inl ''redis blpop'')
      else (case blpop now [fetch_queue_key user] r of
              (r', got) \<Rightarrow>
                if fate = Unanswered then (r', Inl ''redis blpop'')
                else (case got of
                        None \<Rightarrow> (r', Inr None)
                      | Some (_, None) \<Rightarrow> (r', Inl ''unmarshal fetch job'')
                      | Some (_, Some j) \<Rightarrow> (r', Inr (Some (increment_attempts j))))))"

definition queue_length :: "call_fate \<Rightarrow> instant \<Rightarrow> string \<Rightarrow> job_lists \<Rightarrow> string + nat" where
  "queue_length fate now user r =
     (if user = [] then Inl ''userID is required''
      else if fate \<noteq> Performed then Inl ''redis llen''
      else Inr (length (entries_of now (fetch_queue_key user) r)))"

definition dequeue_any_fetch_job ::
  "call_fate \<Rightarrow> instant \<Rightarrow> string list \<Rightarrow> job_lists \<Rightarrow> job_lists \<times> (string + (hook_job \<times> string) option)" where
  "dequeue_any_fetch_job fate now users r =
     (if users = [] then (r, Inr None)
      else if fate = NotSent then (r, Inl ''redis blpop any'')
      else (case blpop now (map fetch_queue_key users) r of
              (r', got) \<Rightarrow>
                if fate = Unanswered then (r', Inl ''redis blpop any'')
                else (case got of
                        None \<Rightarrow> (r', Inr None)
                      | Some (_, None) \<Rightarrow> (r', Inl ''unmarshal fetch job'')
                      | Some (k, Some j) \<Rightarrow>
                          (r', Inr (Some (increment_attempts j,
                                 case find (\<lambda>u. fetch_queue_key u = k) users of None \<Rightarrow> [] | Some u \<Rightarrow> u))))))"

section \<open>History numbers\<close>

lemma unat_div_10: "unat ((v :: 64 word) div 10) = unat v div 10"
  by (simp add: unat_div)

lemma unat_mod_10: "unat ((v :: 64 word) mod 10) = unat v mod 10"
  by (simp add: unat_mod)

lemma nat_decimal_step:
  "n \<noteq> 0 \<Longrightarrow> nat_decimal n = (if n div 10 = 0 then [] else nat_decimal (n div 10)) @ [char_of (48 + n mod 10)]"
  by (subst nat_decimal.simps) auto

lemma fmt_digits_writes:
  assumes "i \<le> length buf" "unat v < 10 ^ i"
  shows "fmt_digits v i buf = Some ((if v = 0 then [] else nat_decimal (unat v)) @ drop i buf)"
  using assms
proof (induction v i buf rule: fmt_digits.induct)
  case (1 v buf)
  then have "unat v = 0" by simp
  then have "v = 0" by (simp add: unsigned_eq_0_iff)
  then show ?case by simp
next
  case (2 v i buf)
  show ?case
  proof (cases "v = 0")
    case False
    let ?d = "char_of (48 + unat (v mod 10))"
    have "unat (v div 10) < 10 ^ i"
      using "2.prems"(2) by (simp add: unat_div_10 less_mult_imp_div_less mult.commute)
    then have "fmt_digits (v div 10) i (buf[i := ?d]) =
        Some ((if v div 10 = 0 then [] else nat_decimal (unat (v div 10))) @ drop i (buf[i := ?d]))"
      using "2.IH" [OF False] "2.prems"(1) by simp
    moreover have "drop i (buf[i := ?d]) = ?d # drop (Suc i) buf"
      using "2.prems"(1) by (simp add: Cons_nth_drop_Suc [symmetric])
    moreover have "unat v \<noteq> 0" using False by (simp add: unsigned_eq_0_iff)
    moreover have "v div 10 = 0 \<longleftrightarrow> unat v div 10 = 0"
      by (metis unat_div_10 unsigned_eq_0_iff)
    ultimately show ?thesis
      using False nat_decimal_step [of "unat v"]
      by (simp add: unat_div_10 unat_mod_10)
  qed simp
qed

text \<open>The buffer is never too short for 64 bits.\<close>

lemma fmt_uint64_decimal [simp]: "fmt_uint64 v = Some (nat_decimal (unat v))"
proof -
  have "unat v < 10 ^ 20"
    using unsigned_less [of v, where 'a = nat] by simp
  then have "fmt_digits v 20 (replicate 20 (CHR 0x00)) = Some ((if v = 0 then [] else nat_decimal (unat v)) @ [])"
    using fmt_digits_writes [of 20 "replicate 20 (CHR 0x00)" v] by simp
  moreover have "nat_decimal 0 = ''0''" by code_simp
  ultimately show ?thesis by (simp add: fmt_uint64_def)
qed

section \<open>Order and loss\<close>

text \<open>
  What happens to the queue of one user: jobs are queued, for any user, and workers take jobs of this
  one. A run gives the jobs that reached the queue and those that workers got.
\<close>

datatype fetch_op = QueueJob fetch_call hook_job | TakeJob call_fate instant

definition reaches_queue :: "string \<Rightarrow> fetch_call \<Rightarrow> hook_job \<Rightarrow> bool" where
  "reaches_queue user c j \<longleftrightarrow> hj_user j = user \<and> user \<noteq> [] \<and> hj_id j \<noteq> [] \<and> hj_account j \<noteq> [] \<and>
     (hj_source j = ''gmail'' \<or> hj_source j = ''outlook'') \<and> fc_push c \<noteq> NotSent"

fun fetch_run :: "string \<Rightarrow> fetch_op list \<Rightarrow> job_lists \<Rightarrow> job_lists \<times> hook_job list \<times> hook_job list" where
  "fetch_run user [] r = (r, [], [])"
| "fetch_run user (QueueJob c j # ops) r =
     (case fetch_run user ops (fst (enqueue_fetch_job c j r)) of
        (r', queued, got) \<Rightarrow>
          (r', (if reaches_queue user c j then [j\<lparr>hj_enqueued := fc_now c\<rparr>] else []) @ queued, got))"
| "fetch_run user (TakeJob fate now # ops) r =
     (case dequeue_fetch_job fate now user r of
        (r1, res) \<Rightarrow>
          (case fetch_run user ops r1 of
             (r', queued, got) \<Rightarrow>
               (r', queued, (case res of Inr (Some j) \<Rightarrow> [j] | _ \<Rightarrow> []) @ got)))"

text \<open>The entries of a list, whether it has expired or not, as a worker would get them.\<close>

definition stored_jobs :: "string \<Rightarrow> job_lists \<Rightarrow> hook_job list" where
  "stored_jobs user r =
     (case r (fetch_queue_key user) of None \<Rightarrow> [] | Some (_, js) \<Rightarrow> map increment_attempts (List.map_filter id js))"

text \<open>Calls that are performed and answered, the queue never idle for a day.\<close>

fun paced :: "instant \<Rightarrow> fetch_op list \<Rightarrow> bool" where
  "paced e [] \<longleftrightarrow> True"
| "paced e (QueueJob c j # ops) \<longleftrightarrow>
     fc_now c < e \<and> fc_push c = Performed \<and> fc_expire c = Performed \<and> paced (min e (fc_now c + job_ttl)) ops"
| "paced e (TakeJob fate now # ops) \<longleftrightarrow> now < e \<and> fate = Performed \<and> paced e ops"

lemma fetch_queue_key_inject [simp]: "fetch_queue_key a = fetch_queue_key b \<longleftrightarrow> a = b"
  by (simp add: fetch_queue_key_def)

lemma stored_expire [simp]: "stored_jobs user (expire_list now k ttl r) = stored_jobs user r"
  by (auto simp: expire_list_def live_list_def stored_jobs_def split: option.splits if_splits)

lemma stored_rpush:
  "stored_jobs user (rpush now (fetch_queue_key u) (Some j) r) =
     (if u \<noteq> user then stored_jobs user r
      else (if live_list now (fetch_queue_key user) r = None then [] else stored_jobs user r) @ [increment_attempts j])"
  by (auto simp: rpush_def live_list_def stored_jobs_def List.map_filter_def split: option.splits if_splits)

lemma enqueue_stores:
  "subseq (stored_jobs user (fst (enqueue_fetch_job c j r)))
     (stored_jobs user r @
      (if reaches_queue user c j then [increment_attempts (j\<lparr>hj_enqueued := fc_now c\<rparr>)] else []))"
proof (cases "fst (enqueue_fetch_job c j r) = r")
  case False
  then have "hj_user j \<noteq> []" "hj_id j \<noteq> []" "hj_account j \<noteq> []" "hj_source j = ''gmail'' \<or> hj_source j = ''outlook''"
    by (auto simp: enqueue_fetch_job_def)
  then show ?thesis
    by (auto simp: enqueue_fetch_job_def Let_def stored_rpush reaches_queue_def)
qed (simp add: list_emb_prefix)

lemma dequeue_takes_first:
  assumes "dequeue_fetch_job fate now user r = (r1, res)"
  shows "subseq ((case res of Inr (Some j) \<Rightarrow> [j] | _ \<Rightarrow> []) @ stored_jobs user r1) (stored_jobs user r)"
  using assms
  by (auto simp: dequeue_fetch_job_def stored_jobs_def live_list_def List.map_filter_def
      split: if_splits option.splits list.splits prod.splits)

lemma delivered_in_order:
  assumes "fetch_run user ops r = (r', queued, got)"
  shows "subseq (got @ stored_jobs user r') (stored_jobs user r @ map increment_attempts queued)"
  using assms
proof (induction user ops r arbitrary: r' queued got rule: fetch_run.induct)
  case (2 user c j ops r)
  obtain r2 q2 g2 where run: "fetch_run user ops (fst (enqueue_fetch_job c j r)) = (r2, q2, g2)"
    by (cases "fetch_run user ops (fst (enqueue_fetch_job c j r))") auto
  define q1 where "q1 = (if reaches_queue user c j then [j\<lparr>hj_enqueued := fc_now c\<rparr>] else [])"
  have q: "r' = r2" "got = g2" "queued = q1 @ q2" using "2.prems" run by (auto simp: q1_def)
  have "subseq (stored_jobs user (fst (enqueue_fetch_job c j r)) @ map increment_attempts q2)
     ((stored_jobs user r @ map increment_attempts q1) @ map increment_attempts q2)"
    using enqueue_stores [of user c j r] by (intro list_emb_append_mono) (simp_all add: q1_def split: if_splits)
  then show ?case using subseq_order.trans [OF "2.IH" [OF run]] by (simp add: q)
next
  case (3 user fate now ops r)
  obtain r1 res where deq: "dequeue_fetch_job fate now user r = (r1, res)" by fastforce
  obtain r2 q2 g2 where run: "fetch_run user ops r1 = (r2, q2, g2)" by (cases "fetch_run user ops r1") auto
  define g where "g = (case res of Inr (Some j) \<Rightarrow> [j] | _ \<Rightarrow> [])"
  have q: "r' = r2" "got = g @ g2" "queued = q2" using "3.prems" deq run by (auto simp: g_def)
  have "subseq (g @ (g2 @ stored_jobs user r2)) (g @ (stored_jobs user r1 @ map increment_attempts q2))"
    by (rule list_emb_append_mono [OF subseq_order.refl "3.IH" [OF deq [symmetric] run]])
  moreover have "subseq ((g @ stored_jobs user r1) @ map increment_attempts q2) (stored_jobs user r @ map increment_attempts q2)"
    by (rule list_emb_append_mono [OF dequeue_takes_first [OF deq, folded g_def] subseq_order.refl])
  ultimately show ?case using subseq_order.trans by (simp add: q)
qed simp

text \<open>A list that lives until \<open>e\<close> and holds jobs only.\<close>

definition lasts :: "instant \<Rightarrow> string \<Rightarrow> job_lists \<Rightarrow> bool" where
  "lasts e user r =
     (case r (fetch_queue_key user) of
        None \<Rightarrow> True
      | Some (t, js) \<Rightarrow> None \<notin> set js \<and> (case t of None \<Rightarrow> True | Some e' \<Rightarrow> e \<le> e'))"

lemma lasts_queue_reaching:
  assumes "lasts e user r" "fc_now c < e" "fc_push c = Performed" "fc_expire c = Performed" "reaches_queue user c j"
  shows "stored_jobs user (fst (enqueue_fetch_job c j r)) =
      stored_jobs user r @ [increment_attempts (j\<lparr>hj_enqueued := fc_now c\<rparr>)]"
    "lasts (min e (fc_now c + job_ttl)) user (fst (enqueue_fetch_job c j r))"
  using assms
  by (auto simp: reaches_queue_def enqueue_fetch_job_def Let_def rpush_def expire_list_def live_list_def stored_jobs_def
      lasts_def job_ttl_def List.map_filter_def split: option.splits if_splits)

lemma enqueue_elsewhere:
  assumes "fc_push c = Performed" "\<not> reaches_queue user c j"
  shows "fst (enqueue_fetch_job c j r) (fetch_queue_key user) = r (fetch_queue_key user)"
proof (cases "hj_user j = user")
  case True
  then have "fst (enqueue_fetch_job c j r) = r"
    using assms by (auto simp: reaches_queue_def enqueue_fetch_job_def)
  then show ?thesis by simp
next
  case False
  then show ?thesis
    by (simp add: enqueue_fetch_job_def Let_def rpush_def expire_list_def split: option.split)
qed

lemma lasts_queue_not_reaching:
  assumes "lasts e user r" "fc_push c = Performed" "\<not> reaches_queue user c j"
  shows "stored_jobs user (fst (enqueue_fetch_job c j r)) = stored_jobs user r"
    "lasts (min e (fc_now c + job_ttl)) user (fst (enqueue_fetch_job c j r))"
  using assms(1) enqueue_elsewhere [OF assms(2,3), of r]
  by (auto simp: stored_jobs_def lasts_def split: option.splits)

lemma lasts_take:
  assumes "lasts e user r" "now < e" "user \<noteq> []" "dequeue_fetch_job Performed now user r = (r1, res)"
  shows "(case res of Inr (Some j) \<Rightarrow> [j] | _ \<Rightarrow> []) @ stored_jobs user r1 = stored_jobs user r" "lasts e user r1"
  using assms
  by (auto simp: dequeue_fetch_job_def live_list_def stored_jobs_def lasts_def List.map_filter_def
      split: option.splits if_splits list.splits prod.splits)

lemma paced_keeps_all:
  assumes "lasts e user r" "user \<noteq> []" "paced e ops" "fetch_run user ops r = (r', queued, got)"
  shows "got @ stored_jobs user r' = stored_jobs user r @ map increment_attempts queued"
  using assms
proof (induction user ops r arbitrary: e r' queued got rule: fetch_run.induct)
  case (2 user c j ops r)
  obtain r2 q2 g2 where run: "fetch_run user ops (fst (enqueue_fetch_job c j r)) = (r2, q2, g2)"
    by (cases "fetch_run user ops (fst (enqueue_fetch_job c j r))") auto
  note IH = "2.IH" [OF _ "2.prems"(2) _ run]
  show ?case
  proof (cases "reaches_queue user c j")
    case True
    then show ?thesis
      using IH lasts_queue_reaching [OF "2.prems"(1) _ _ _ True] "2.prems"(3,4) run by auto
  next
    case False
    then show ?thesis
      using IH lasts_queue_not_reaching [OF "2.prems"(1) _ False] "2.prems"(3,4) run by auto
  qed
next
  case (3 user fate now ops r)
  obtain r1 res where deq: "dequeue_fetch_job fate now user r = (r1, res)" by fastforce
  obtain r2 q2 g2 where run: "fetch_run user ops r1 = (r2, q2, g2)" by (cases "fetch_run user ops r1") auto
  have p: "fate = Performed" "now < e" "paced e ops" using "3.prems"(3) by auto
  define g where "g = (case res of Inr (Some j) \<Rightarrow> [j] | _ \<Rightarrow> [])"
  note t = lasts_take [OF "3.prems"(1) p(2) "3.prems"(2) deq [unfolded p(1)], folded g_def]
  have "g2 @ stored_jobs user r2 = stored_jobs user r1 @ map increment_attempts q2"
    by (rule "3.IH" [OF deq [symmetric] t(2) "3.prems"(2) p(3) run])
  moreover have "got = g @ g2" "queued = q2" "r' = r2" using "3.prems"(4) deq run by (auto simp: g_def)
  ultimately show ?case by (simp flip: t(1))
qed simp

text \<open>
  The workers of a user get the jobs in the order in which they reached the queue, each at most
  once, whatever fails; and none is missing when every call is answered and no more than a day passes
  after any of them.
\<close>

lemma jobs_delivered_in_order:
  assumes "fetch_run user ops r = (r', queued, got)"
  shows "subseq got (stored_jobs user r @ map increment_attempts queued) \<and>
    (lasts e user r \<and> user \<noteq> [] \<and> paced e ops \<longrightarrow>
     got @ stored_jobs user r' = stored_jobs user r @ map increment_attempts queued)"
  using subseq_order.trans [OF list_emb_prefix [OF subseq_order.refl] delivered_in_order [OF assms]]
    paced_keeps_all [OF _ _ _ assms]
  by blast

definition ex_hook_job :: "string \<Rightarrow> hook_job" where
  "ex_hook_job jid = new_outlook_fetch_job jid 0 ''u'' ''a'' ''link''"

definition ex_ops :: "fetch_op list" where
  "ex_ops = [QueueJob \<lparr>fc_now = 10, fc_push = Performed, fc_expire = Performed\<rparr> (ex_hook_job ''1''),
     QueueJob \<lparr>fc_now = 20, fc_push = Performed, fc_expire = Performed\<rparr> (ex_hook_job ''2''), TakeJob Performed 30]"

theorem jobs_delivered_in_order_witness:
  "\<exists>r' queued got. fetch_run ''u'' ex_ops Map.empty = (r', queued, got) \<and> map hj_id got = [''1''] \<and>
     subseq got (stored_jobs ''u'' Map.empty @ map increment_attempts queued) \<and>
     got @ stored_jobs ''u'' r' = stored_jobs ''u'' Map.empty @ map increment_attempts queued"
proof -
  obtain r' queued got where run: "fetch_run ''u'' ex_ops Map.empty = (r', queued, got)"
    by (cases "fetch_run ''u'' ex_ops Map.empty") auto
  have "map hj_id (snd (snd (fetch_run ''u'' ex_ops Map.empty))) = [''1'']"
    by code_simp
  moreover have "lasts 100 ''u'' Map.empty" "paced 100 ex_ops"
    by (simp_all add: lasts_def ex_ops_def job_ttl_def)
  ultimately show ?thesis
    using jobs_delivered_in_order [OF run, of 100] run by auto
qed

end
