(* ===== verification/Webhook_Handler.thy ===== *)
theory Webhook_Handler
  imports Webhook_Verifier Fetch_Queue
begin

text \<open>
  The webhook endpoints (\<open>src/ingestion/internal/webhook/handler.go\<close>) with the deduplication of
  deliveries in Redis (\<open>dedup.go\<close>), over the verifier and the fetch queues. The decoders of the request
  bodies are arguments; a body that cannot be read is \<open>None\<close>.
\<close>

section \<open>Deduplication\<close>

definition dedup_ttl :: duration where "dedup_ttl = 24 * hour_ns"

definition dedup_key :: "string \<Rightarrow> string" where
  "dedup_key key = ''dedup:webhook:'' @ key"

definition key_live :: "instant \<Rightarrow> string \<Rightarrow> (string \<rightharpoonup> instant) \<Rightarrow> bool" where
  "key_live now k d = (case d k of None \<Rightarrow> False | Some e \<Rightarrow> now < e)"

text \<open>SET NX EX: an error, or whether the key was a duplicate.\<close>

definition is_duplicate ::
  "call_fate \<Rightarrow> instant \<Rightarrow> string \<Rightarrow> (string \<rightharpoonup> instant) \<Rightarrow> (string \<rightharpoonup> instant) \<times> (string + bool)" where
  "is_duplicate fate now key d =
     (let k = dedup_key key; dup = key_live now k d;
          d' = (if fate = NotSent \<or> dup then d else d(k \<mapsto> now + dedup_ttl))
      in (d', if fate = Performed then Inr dup else Inl ''redis setnx''))"

definition dedup_key_gmail :: "64 word \<Rightarrow> string" where
  "dedup_key_gmail h = ''gmail:'' @ nat_decimal (unat h)"

definition dedup_key_outlook :: "string \<Rightarrow> string" where
  "dedup_key_outlook i = ''outlook:'' @ i"

section \<open>Messages\<close>

record pubsub_data =
  pd_data :: string
  pd_attributes :: "(string \<times> string) list"
  pd_message_id :: string
  pd_publish_time :: string

record gmail_history =
  gh_email :: string
  gh_history :: "64 word"

record outlook_notification =
  ou_change :: string
  ou_resource :: string
  ou_subscription :: string
  ou_client_state :: string
  ou_id :: string

record webhook_lib = verifier_lib +
  vl_pubsub :: "bytes \<Rightarrow> pubsub_data option option"
  vl_history :: "bytes \<Rightarrow> gmail_history option"
  vl_notifications :: "bytes \<Rightarrow> outlook_notification list option"

text \<open>\<open>base64.StdEncoding\<close>: padded, over the alphabet with \<open>+\<close> and \<open>/\<close>.\<close>

definition std_b64_value :: "char \<Rightarrow> nat option" where
  "std_b64_value c =
     (if c = CHR ''+'' then Some 62 else if c = CHR ''/'' then Some 63
      else if c = CHR ''-'' \<or> c = CHR ''_'' then None else b64_value c)"

fun drop_padding :: "nat \<Rightarrow> string \<Rightarrow> string" where
  "drop_padding (Suc n) (c # s) = (if c = CHR ''='' then drop_padding n s else c # s)"
| "drop_padding _ s = s"

definition std_b64_decode :: "string \<Rightarrow> bytes option" where
  "std_b64_decode s =
     (let t = filter (\<lambda>c. c \<noteq> CHR 0x0A \<and> c \<noteq> CHR 0x0D) s
      in if length t mod 4 \<noteq> 0 then None
         else (case those (map std_b64_value (rev (drop_padding 2 (rev t)))) of
                 None \<Rightarrow> None
               | Some vs \<Rightarrow> map_option (map of_nat) (b64_join vs)))"

section \<open>Helpers\<close>

definition extract_bearer_token :: "string \<Rightarrow> string" where
  "extract_bearer_token h = (if 7 < length h \<and> take 7 h = ''Bearer '' then drop 7 h else [])"

text \<open>The loop over the positions of the resource, from a position to the end.\<close>

fun after_users :: "string \<Rightarrow> string option" where
  "after_users [] = None"
| "after_users (c # s) =
     (if length (c # s) \<le> 7 then None
      else if take 7 (c # s) = ''Users('' @ [CHR 0x27] \<or> take 7 (c # s) = ''users('' @ [CHR 0x27]
      then Some (drop 7 (c # s))
      else after_users s)"

definition extract_user_from_resource :: "string \<Rightarrow> string" where
  "extract_user_from_resource resource =
     (case after_users resource of
        None \<Rightarrow> resource
      | Some r \<Rightarrow> takeWhile (\<lambda>c. c \<noteq> CHR 0x27) r)"

section \<open>The handlers\<close>

record webhook_state =
  wk_dedup :: "string \<rightharpoonup> instant"
  wk_queues :: job_lists
  wk_certs :: cert_cache

text \<open>The environment of one delivery: its clock, what happens to its calls, the identifier of its job.\<close>

record delivery =
  dv_now :: instant
  dv_dedup :: call_fate
  dv_fetch :: fetch_call
  dv_job_id :: string
  dv_keys1 :: fetched
  dv_keys2 :: fetched

record webhook_request =
  hq_body :: "bytes option"
  hq_authorization :: string
  hq_validation :: string

type_synonym webhook_reply = "nat \<times> string"

definition webhook_error :: "nat \<Rightarrow> string \<Rightarrow> webhook_reply" where
  "webhook_error code e =
     (code, CHR ''{'' # [CHR 0x22] @ ''error'' @ [CHR 0x22] @ '':'' @ [CHR 0x22] @ e @ [CHR 0x22] @ ''}'')"

text \<open>The steps of \<open>HandleGmail\<close> up to the history data: the payload, or the reply.\<close>

definition parse_gmail_push :: "webhook_lib \<Rightarrow> webhook_request \<Rightarrow> webhook_reply + pubsub_data \<times> gmail_history" where
  "parse_gmail_push lib req =
     (case hq_body req of
        None \<Rightarrow> Inl (webhook_error 400 ''bad request'')
      | Some body \<Rightarrow>
          (case vl_pubsub lib body of
             None \<Rightarrow> Inl (webhook_error 400 ''invalid json'')
           | Some None \<Rightarrow> Inl (webhook_error 400 ''missing message'')
           | Some (Some msg) \<Rightarrow>
               (case std_b64_decode (pd_data msg) of
                  None \<Rightarrow> Inl (webhook_error 400 ''invalid base64'')
                | Some bs \<Rightarrow>
                    (case vl_history lib bs of
                       None \<Rightarrow> Inl (webhook_error 400 ''invalid history data'')
                     | Some h \<Rightarrow> Inr (msg, h)))))"

definition gmail_dedup_key :: "pubsub_data \<Rightarrow> gmail_history \<Rightarrow> string" where
  "gmail_dedup_key msg h =
     (if pd_message_id msg = [] then dedup_key_gmail (gh_history h) else ''gmail:msg:'' @ pd_message_id msg)"

text \<open>The check of the token: the caches it leaves and whether it refuses.\<close>

definition check_authorization :: "webhook_lib \<Rightarrow> delivery \<Rightarrow> string \<Rightarrow> cert_cache \<Rightarrow> cert_cache \<times> bool" where
  "check_authorization lib d header certs =
     (if header = [] then (certs, False)
      else (let token = extract_bearer_token header
            in if token = [] then (certs, False)
               else (case verify_gmail_jwt lib (dv_now d) (dv_keys1 d) (dv_keys2 d) token certs of
                       (certs', Inl e) \<Rightarrow> (certs', True)
                     | (certs', Inr p) \<Rightarrow> (certs', False))))"

text \<open>The user and the account of the job are the address, which a later stage is to resolve.\<close>

definition handle_gmail :: "webhook_lib \<Rightarrow> delivery \<Rightarrow> webhook_request \<Rightarrow> webhook_state \<Rightarrow> webhook_state \<times> webhook_reply" where
  "handle_gmail lib d req s =
     (case parse_gmail_push lib req of
        Inl reply \<Rightarrow> (s, reply)
      | Inr (msg, h) \<Rightarrow>
          (case check_authorization lib d (hq_authorization req) (wk_certs s) of
             (certs, True) \<Rightarrow> (s\<lparr>wk_certs := certs\<rparr>, webhook_error 401 ''unauthorized'')
           | (certs, False) \<Rightarrow>
               (case is_duplicate (dv_dedup d) (dv_now d) (gmail_dedup_key msg h) (wk_dedup s) of
                  (dd, dup) \<Rightarrow>
                    (let s1 = s\<lparr>wk_certs := certs, wk_dedup := dd\<rparr>
                     in if dup = Inr True then (s1, (200, []))
                        else (case new_gmail_fetch_job (dv_job_id d) (dv_now d) (gh_email h) (gh_email h) (gh_history h) of
                                None \<Rightarrow> (s1, (500, []))
                              | Some j \<Rightarrow> (s1\<lparr>wk_queues := fst (enqueue_fetch_job (dv_fetch d) j (wk_queues s1))\<rparr>, (200, [])))))))"

text \<open>One notification of a batch; its count of processed and skipped ones.\<close>

definition process_notification ::
  "delivery \<Rightarrow> outlook_notification \<Rightarrow> webhook_state \<Rightarrow> webhook_state \<times> nat \<times> nat" where
  "process_notification d n s =
     (let i = (if ou_id n = [] then ou_resource n else ou_id n)
      in case is_duplicate (dv_dedup d) (dv_now d) (dedup_key_outlook i) (wk_dedup s) of
           (dd, dup) \<Rightarrow>
             (let s1 = s\<lparr>wk_dedup := dd\<rparr>; user = extract_user_from_resource (ou_resource n)
              in if dup = Inr True then (s1, 0, 1)
                 else (case enqueue_fetch_job (dv_fetch d)
                              (new_outlook_fetch_job (dv_job_id d) (dv_now d) user user (ou_resource n)) (wk_queues s1) of
                         (q, None) \<Rightarrow> (s1\<lparr>wk_queues := q\<rparr>, 1, 0)
                       | (q, Some e) \<Rightarrow> (s1\<lparr>wk_queues := q\<rparr>, 0, 0))))"

fun process_notifications ::
  "(nat \<Rightarrow> delivery) \<Rightarrow> outlook_notification list \<Rightarrow> webhook_state \<Rightarrow> webhook_state \<times> nat \<times> nat" where
  "process_notifications env [] s = (s, 0, 0)"
| "process_notifications env (n # ns) s =
     (case process_notification (env 0) n s of
        (s1, p1, k1) \<Rightarrow>
          (case process_notifications (\<lambda>i. env (Suc i)) ns s1 of
             (s2, p2, k2) \<Rightarrow> (s2, p1 + p2, k1 + k2)))"

text \<open>\<open>HandleOutlook\<close>: the handshake echoes its token; anything else is a batch of notifications.\<close>

definition handle_outlook ::
  "webhook_lib \<Rightarrow> (nat \<Rightarrow> delivery) \<Rightarrow> webhook_request \<Rightarrow> webhook_state \<Rightarrow> webhook_state \<times> webhook_reply" where
  "handle_outlook lib env req s =
     (if hq_validation req \<noteq> [] then (s, (200, hq_validation req))
      else (case hq_body req of
              None \<Rightarrow> (s, webhook_error 400 ''bad request'')
            | Some body \<Rightarrow>
                (case vl_validation lib body of
                   Some (c # t) \<Rightarrow> (s, (200, c # t))
                 | _ \<Rightarrow>
                     (case vl_notifications lib body of
                        None \<Rightarrow> (s, webhook_error 400 ''invalid json'')
                      | Some ns \<Rightarrow> (fst (process_notifications env ns s), (202, []))))))"

text \<open>\<open>HandleHealth\<close>: \<open>None\<close> is a service without publisher, \<open>Some None\<close> one whose check passes.\<close>

definition handle_health :: "string option option \<Rightarrow> nat \<times> string \<times> string" where
  "handle_health publisher =
     (let nats = (case publisher of
            None \<Rightarrow> ''not configured''
          | Some None \<Rightarrow> ''ok''
          | Some (Some e) \<Rightarrow> ''error: '' @ e)
      in if nats \<noteq> ''ok'' then (503, ''degraded'', nats) else (200, ''healthy'', nats))"

section \<open>Tokens of Gmail pushes\<close>

text \<open>
  The keys that a delivery can meet, and a token that Google signed: its signature is one of RS256 under
  every key of its name among them.
\<close>

definition offered_keys :: "webhook_lib \<Rightarrow> delivery \<Rightarrow> cert_cache \<Rightarrow> web_key list" where
  "offered_keys lib d certs =
     (case certs ''google'' of None \<Rightarrow> [] | Some (ks, _) \<Rightarrow> ks) @
     (case fetch_jwks lib (dv_keys1 d) of Inl _ \<Rightarrow> [] | Inr ks \<Rightarrow> ks) @
     (case fetch_jwks lib (dv_keys2 d) of Inl _ \<Rightarrow> [] | Inr ks \<Rightarrow> ks)"

definition google_signed :: "webhook_lib \<Rightarrow> delivery \<Rightarrow> cert_cache \<Rightarrow> string \<Rightarrow> bool" where
  "google_signed lib d certs token =
     (case parse_jwt_header lib token of
        Inl _ \<Rightarrow> False
      | Inr header \<Rightarrow>
          list_all (\<lambda>k. map_of header ''kid'' = Some (JStr (wy_kid k)) \<longrightarrow> rs256_token lib token k) (offered_keys lib d certs))"

lemma fetch_certs_Inr:
  assumes "fetch_certs lib provider now reply cache = (cache', Inr ks)"
  shows "(\<exists>t. cache provider = Some (ks, t)) \<or> fetch_jwks lib reply = Inr ks"
  using assms by (auto simp: fetch_certs_def split: option.splits if_splits sum.splits)

lemma find_google_key_offered:
  assumes "find_google_key lib (dv_now d) (dv_keys1 d) (dv_keys2 d) kid certs = (certs', Inr k)"
  shows "wy_kid k = kid \<and> k \<in> set (offered_keys lib d certs)"
proof -
  obtain c1 r1 where f1: "fetch_google_certs lib (dv_now d) (dv_keys1 d) certs = (c1, r1)" by fastforce
  then obtain ks where r1: "r1 = Inr ks"
    using assms by (cases r1) (auto simp: find_google_key_def)
  have ks: "set ks \<subseteq> set (offered_keys lib d certs)"
    using fetch_certs_Inr [OF f1 [unfolded fetch_google_certs_def r1]] by (auto simp: offered_keys_def)
  show ?thesis
  proof (cases "List.find (\<lambda>k. wy_kid k = kid) ks")
    case None
    obtain c2 r2 where f2: "fetch_google_certs lib (dv_now d) (dv_keys2 d) (c1(''google'' := None)) = (c2, r2)" by fastforce
    then obtain ks2 where r2: "r2 = Inr ks2"
      using assms f1 r1 None by (cases r2) (auto simp: find_google_key_def)
    have "set ks2 \<subseteq> set (offered_keys lib d certs)"
      using fetch_certs_Inr [OF f2 [unfolded fetch_google_certs_def r2]] by (auto simp: offered_keys_def)
    then show ?thesis
      using assms f1 r1 None f2 r2 by (auto simp: find_google_key_def find_Some_iff split: option.splits)
  next
    case (Some k')
    then have "k = k'" using assms f1 r1 by (simp add: find_google_key_def)
    moreover have "k' \<in> set ks" "wy_kid k' = kid" using Some by (auto simp: find_Some_iff)
    ultimately show ?thesis using ks by blast
  qed
qed

lemma google_signed_fails:
  assumes "google_signed lib d certs token"
  shows "\<exists>e. snd (verify_gmail_jwt lib (dv_now d) (dv_keys1 d) (dv_keys2 d) token certs) = Inl e"
proof -
  obtain header where header: "parse_jwt_header lib token = Inr header"
    and all: "list_all (\<lambda>k. map_of header ''kid'' = Some (JStr (wy_kid k)) \<longrightarrow> rs256_token lib token k) (offered_keys lib d certs)"
    using assms by (auto simp: google_signed_def split: sum.splits)
  show ?thesis
  proof (cases "\<exists>kid. map_of header ''kid'' = Some (JStr kid)")
    case True
    then obtain kid where kid: "map_of header ''kid'' = Some (JStr kid)" ..
    obtain c r where f: "find_google_key lib (dv_now d) (dv_keys1 d) (dv_keys2 d) kid certs = (c, r)" by fastforce
    show ?thesis
    proof (cases r)
      case (Inr k)
      then have "rs256_token lib token k"
        using find_google_key_offered [OF f [unfolded Inr]] all kid by (auto simp: list_all_iff)
      then show ?thesis
        using rs256_token_fails by (fastforce simp: verify_gmail_jwt_def header kid f Inr)
    qed (simp add: verify_gmail_jwt_def header kid f)
  qed (auto simp: verify_gmail_jwt_def header split: option.split json.split)
qed

lemma google_signed_refused:
  assumes "google_signed lib d certs token" "token \<noteq> []"
  shows "snd (check_authorization lib d (''Bearer '' @ token) certs)"
  using google_signed_fails [OF assms(1)] assms(2)
  by (auto simp: check_authorization_def extract_bearer_token_def Let_def split: prod.splits sum.splits)

section \<open>Deliveries of a message\<close>

text \<open>A key that was set once is there until its time, whatever else is delivered.\<close>

definition dedup_le :: "(string \<rightharpoonup> instant) \<Rightarrow> (string \<rightharpoonup> instant) \<Rightarrow> bool" where
  "dedup_le d d' \<longleftrightarrow> (\<forall>k e. d k = Some e \<longrightarrow> (\<exists>e'. e \<le> e' \<and> d' k = Some e'))"

lemma dedup_le_refl [simp]: "dedup_le d d"
  by (auto simp: dedup_le_def)

lemma dedup_le_trans: "dedup_le a b \<Longrightarrow> dedup_le b c \<Longrightarrow> dedup_le a c"
  unfolding dedup_le_def by (meson order_trans)

lemma is_duplicate_le: "dedup_le d (fst (is_duplicate fate now key d))"
  by (auto simp: dedup_le_def is_duplicate_def Let_def key_live_def dedup_ttl_def split: option.splits)

lemma is_duplicate_sets:
  "fate \<noteq> NotSent \<Longrightarrow> \<not> key_live now (dedup_key key) d \<Longrightarrow>
   fst (is_duplicate fate now key d) (dedup_key key) = Some (now + dedup_ttl)"
  by (simp add: is_duplicate_def Let_def)

lemma is_duplicate_live:
  "key_live now (dedup_key key) d \<Longrightarrow> is_duplicate Performed now key d = (d, Inr True)"
  by (simp add: is_duplicate_def Let_def)

lemma dedup_le_live:
  "dedup_le d d' \<Longrightarrow> d k = Some e \<Longrightarrow> now < e \<Longrightarrow> key_live now k d'"
  by (fastforce simp: dedup_le_def key_live_def)

datatype hook_event = GmailPush delivery webhook_request | OutlookPush "nat \<Rightarrow> delivery" webhook_request

fun hook_step :: "webhook_lib \<Rightarrow> hook_event \<Rightarrow> webhook_state \<Rightarrow> webhook_state" where
  "hook_step lib (GmailPush d req) s = fst (handle_gmail lib d req s)"
| "hook_step lib (OutlookPush env req) s = fst (handle_outlook lib env req s)"

lemma handle_gmail_le: "dedup_le (wk_dedup s) (wk_dedup (fst (handle_gmail lib d req s)))"
proof (cases "parse_gmail_push lib req")
  case (Inr m)
  obtain msg h where m: "m = (msg, h)" by (cases m)
  obtain certs r where c: "check_authorization lib d (hq_authorization req) (wk_certs s) = (certs, r)" by fastforce
  obtain dd dup where i: "is_duplicate (dv_dedup d) (dv_now d) (gmail_dedup_key msg h) (wk_dedup s) = (dd, dup)" by fastforce
  then have "dedup_le (wk_dedup s) dd" by (metis fst_conv is_duplicate_le)
  then show ?thesis
    by (cases r) (simp_all add: handle_gmail_def Inr m c i Let_def split: option.split)
qed (simp add: handle_gmail_def)

lemma process_notification_le: "dedup_le (wk_dedup s) (wk_dedup (fst (process_notification d n s)))"
proof -
  let ?i = "if ou_id n = [] then ou_resource n else ou_id n"
  obtain dd dup where i: "is_duplicate (dv_dedup d) (dv_now d) (dedup_key_outlook ?i) (wk_dedup s) = (dd, dup)" by fastforce
  then have "dedup_le (wk_dedup s) dd" by (metis fst_conv is_duplicate_le)
  then show ?thesis
    by (simp add: process_notification_def i Let_def split: prod.split option.split)
qed

lemma process_notifications_le: "dedup_le (wk_dedup s) (wk_dedup (fst (process_notifications env ns s)))"
proof (induction env ns s rule: process_notifications.induct)
  case (2 env n ns s)
  obtain s1 p1 k1 where p: "process_notification (env 0) n s = (s1, p1, k1)" by (rule prod_cases3)
  have "dedup_le (wk_dedup s) (wk_dedup s1)"
    using process_notification_le [of s "env 0" n] by (simp add: p)
  moreover obtain s2 p2 k2 where r: "process_notifications (\<lambda>i. env (Suc i)) ns s1 = (s2, p2, k2)" by (rule prod_cases3)
  ultimately show ?case
    using dedup_le_trans [OF _ "2.IH" [OF p [symmetric] refl], of "wk_dedup s"] by (simp add: p r)
qed simp

lemma handle_outlook_le: "dedup_le (wk_dedup s) (wk_dedup (fst (handle_outlook lib env req s)))"
  using process_notifications_le by (auto simp: handle_outlook_def split: option.split list.split)

lemma hook_step_le: "dedup_le (wk_dedup s) (wk_dedup (hook_step lib ev s))"
  by (cases ev) (simp_all add: handle_gmail_le handle_outlook_le)

lemma hook_run_le: "dedup_le (wk_dedup s) (wk_dedup (fold (hook_step lib) evs s))"
  by (induction evs arbitrary: s) (auto intro: dedup_le_trans hook_step_le)

lemma handle_gmail_accepted:
  assumes "parse_gmail_push lib req = Inr (msg, h)"
    and "check_authorization lib d (hq_authorization req) (wk_certs s) = (certs, False)"
    and "is_duplicate (dv_dedup d) (dv_now d) (gmail_dedup_key msg h) (wk_dedup s) = (dd, dup)"
  shows "handle_gmail lib d req s =
     (let s1 = s\<lparr>wk_certs := certs, wk_dedup := dd\<rparr>;
          j = (new_fetch_job (dv_job_id d) (dv_now d) (gh_email h) (gh_email h) ''gmail'')
                \<lparr>hj_history := Some (nat_decimal (unat (gh_history h)))\<rparr>
      in (if dup = Inr True then s1 else s1\<lparr>wk_queues := fst (enqueue_fetch_job (dv_fetch d) j (wk_queues s1))\<rparr>, (200, [])))"
  using assms by (simp add: handle_gmail_def new_gmail_fetch_job_def Let_def)

lemma enqueue_not_sent: "fc_push c = NotSent \<Longrightarrow> stored_jobs user (fst (enqueue_fetch_job c j r)) = stored_jobs user r"
  by (simp add: enqueue_fetch_job_def Let_def)

text \<open>
  C4: A push with a token that Google signed is refused with 401 and queues nothing, while the same push
  without any token is answered 200 and, when it is new, its job goes into the queue of its address.
\<close>

theorem signed_push_is_refused:
  assumes push: "parse_gmail_push lib req = Inr (msg, h)" "hq_authorization req = ''Bearer '' @ token" "token \<noteq> []"
    and signed: "google_signed lib d (wk_certs s) token"
    and new: "\<not> key_live (dv_now d) (dedup_key (gmail_dedup_key msg h)) (wk_dedup s)"
    and job: "gh_email h \<noteq> []" "dv_job_id d \<noteq> []" "fc_push (dv_fetch d) = Performed"
  shows "snd (handle_gmail lib d req s) = webhook_error 401 ''unauthorized'' \<and>
    wk_queues (fst (handle_gmail lib d req s)) = wk_queues s \<and>
    (let open_push = handle_gmail lib d (req\<lparr>hq_authorization := []\<rparr>) s
     in snd open_push = (200, []) \<and>
        (\<exists>j. hj_history j = Some (nat_decimal (unat (gh_history h))) \<and>
             last (stored_jobs (gh_email h) (wk_queues (fst open_push))) = increment_attempts j))"
proof (intro conjI)
  obtain certs r where c: "check_authorization lib d (hq_authorization req) (wk_certs s) = (certs, r)" by fastforce
  then have "r" using google_signed_refused [OF signed push(3)] push(2) by simp
  then show "snd (handle_gmail lib d req s) = webhook_error 401 ''unauthorized''"
    "wk_queues (fst (handle_gmail lib d req s)) = wk_queues s"
    by (simp_all add: handle_gmail_def push(1) c)
next
  let ?req = "req\<lparr>hq_authorization := []\<rparr>"
  obtain dd dup where i: "is_duplicate (dv_dedup d) (dv_now d) (gmail_dedup_key msg h) (wk_dedup s) = (dd, dup)" by fastforce
  have parsed: "parse_gmail_push lib ?req = Inr (msg, h)" using push(1) by (simp add: parse_gmail_push_def)
  have open_door: "check_authorization lib d (hq_authorization ?req) (wk_certs s) = (wk_certs s, False)"
    by (simp add: check_authorization_def)
  have "dup \<noteq> Inr True" using i new by (auto simp: is_duplicate_def Let_def split: if_splits)
  moreover define j where "j = (new_fetch_job (dv_job_id d) (dv_now d) (gh_email h) (gh_email h) ''gmail'')
                \<lparr>hj_history := Some (nat_decimal (unat (gh_history h)))\<rparr>"
  ultimately have h: "handle_gmail lib d ?req s =
      (s\<lparr>wk_certs := wk_certs s, wk_dedup := dd, wk_queues := fst (enqueue_fetch_job (dv_fetch d) j (wk_queues s))\<rparr>, (200, []))"
    by (simp add: handle_gmail_accepted [OF parsed open_door i] Let_def)
  have "stored_jobs (gh_email h) (fst (enqueue_fetch_job (dv_fetch d) j (wk_queues s))) \<noteq> [] \<and>
      last (stored_jobs (gh_email h) (fst (enqueue_fetch_job (dv_fetch d) j (wk_queues s)))) =
        increment_attempts (j\<lparr>hj_enqueued := fc_now (dv_fetch d)\<rparr>)"
    using job by (auto simp: enqueue_fetch_job_def j_def new_fetch_job_def Let_def stored_rpush)
  then show "let open_push = handle_gmail lib d ?req s
     in snd open_push = (200, []) \<and>
        (\<exists>j. hj_history j = Some (nat_decimal (unat (gh_history h))) \<and>
             last (stored_jobs (gh_email h) (wk_queues (fst open_push))) = increment_attempts j)"
    by (auto simp: h j_def intro!: exI [of _ "j\<lparr>hj_enqueued := fc_now (dv_fetch d)\<rparr>"])
qed

text \<open>
  After an accepted Gmail push the deliveries of the same message within 24 hours change no queue,
  whatever other webhooks come between them; so when the job of the first could not be sent to the queue,
  which is answered 200 as well, the message is lost.
\<close>

lemma redelivered_push_is_dropped:
  assumes first: "parse_gmail_push lib req = Inr (msg, h)"
      "snd (check_authorization lib d (hq_authorization req) (wk_certs s)) = False"
      "\<not> key_live (dv_now d) (dedup_key (gmail_dedup_key msg h)) (wk_dedup s)" "dv_dedup d \<noteq> NotSent"
    and s2: "s2 = fold (hook_step lib) evs (fst (handle_gmail lib d req s))"
    and again: "parse_gmail_push lib req2 = Inr (msg2, h2)" "gmail_dedup_key msg2 h2 = gmail_dedup_key msg h"
      "dv_dedup d2 = Performed" "dv_now d2 < dv_now d + dedup_ttl"
  shows "snd (handle_gmail lib d req s) = (200, []) \<and>
    wk_queues (fst (handle_gmail lib d2 req2 s2)) = wk_queues s2 \<and>
    (fc_push (dv_fetch d) = NotSent \<longrightarrow>
     stored_jobs user (wk_queues (fst (handle_gmail lib d req s))) = stored_jobs user (wk_queues s))"
proof (intro conjI)
  let ?k = "gmail_dedup_key msg h"
  obtain certs where c: "check_authorization lib d (hq_authorization req) (wk_certs s) = (certs, False)"
    using first(2) by (metis prod.collapse)
  obtain dd dup where i: "is_duplicate (dv_dedup d) (dv_now d) ?k (wk_dedup s) = (dd, dup)" by fastforce
  note h = handle_gmail_accepted [OF first(1) c i]
  show "snd (handle_gmail lib d req s) = (200, [])" by (simp add: h Let_def)
  show "fc_push (dv_fetch d) = NotSent \<longrightarrow>
     stored_jobs user (wk_queues (fst (handle_gmail lib d req s))) = stored_jobs user (wk_queues s)"
    by (simp add: h Let_def enqueue_not_sent)
  have "wk_dedup (fst (handle_gmail lib d req s)) (dedup_key ?k) = Some (dv_now d + dedup_ttl)"
    using is_duplicate_sets [OF first(4,3)] by (simp add: h i Let_def)
  then have "key_live (dv_now d2) (dedup_key ?k) (wk_dedup s2)"
    using dedup_le_live [OF hook_run_le] again(4) s2 by blast
  then have dup: "is_duplicate (dv_dedup d2) (dv_now d2) (gmail_dedup_key msg2 h2) (wk_dedup s2) = (wk_dedup s2, Inr True)"
    using is_duplicate_live again(2,3) by simp
  obtain certs2 r2 where "check_authorization lib d2 (hq_authorization req2) (wk_certs s2) = (certs2, r2)" by fastforce
  then show "wk_queues (fst (handle_gmail lib d2 req2 s2)) = wk_queues s2"
    by (cases r2) (simp_all add: handle_gmail_def again(1) dup Let_def)
qed

section \<open>Examples\<close>

definition ex_push :: pubsub_data where
  "ex_push = \<lparr>pd_data = ''AA=='', pd_attributes = [], pd_message_id = ''m1'', pd_publish_time = ''''\<rparr>"

definition ex_history :: gmail_history where
  "ex_history = \<lparr>gh_email = ''a@x'', gh_history = 7\<rparr>"

definition ex_hook_lib :: webhook_lib where
  "ex_hook_lib = \<lparr>vl_sha256 = (\<lambda>_. replicate 32 7), vl_json = sample_json, vl_keys = (\<lambda>_. None), vl_validation = (\<lambda>_. None),
     vl_envelope = (\<lambda>_. None), vl_pubsub = (\<lambda>_. Some (Some ex_push)), vl_history = (\<lambda>_. Some ex_history),
     vl_notifications = (\<lambda>_. None)\<rparr>"

definition ex_delivery :: "instant \<Rightarrow> call_fate \<Rightarrow> delivery" where
  "ex_delivery now fate = \<lparr>dv_now = now, dv_dedup = Performed, dv_fetch = \<lparr>fc_now = now, fc_push = fate, fc_expire = fate\<rparr>,
     dv_job_id = ''j1'', dv_keys1 = Inl '''', dv_keys2 = Inl ''''\<rparr>"

definition ex_request :: "string \<Rightarrow> webhook_request" where
  "ex_request header = \<lparr>hq_body = Some [], hq_authorization = header, hq_validation = ''''\<rparr>"

definition ex_hooks :: webhook_state where
  "ex_hooks = \<lparr>wk_dedup = Map.empty, wk_queues = Map.empty, wk_certs = [''google'' \<mapsto> ([sample_key], 100)]\<rparr>"

lemma ex_push_parses: "parse_gmail_push ex_hook_lib (ex_request header) = Inr (ex_push, ex_history)"
proof -
  have "std_b64_decode ''AA=='' = Some [0]" by code_simp
  then show ?thesis by (simp add: parse_gmail_push_def ex_request_def ex_hook_lib_def ex_push_def)
qed

lemma ex_signed: "google_signed ex_hook_lib (ex_delivery now fate) (wk_certs ex_hooks) sample_token"
proof -
  have "rs256_token ex_hook_lib sample_token sample_key"
    by (rule sample_token_signed) (simp add: ex_hook_lib_def)
  moreover have "parse_jwt_header ex_hook_lib sample_token = Inr [(''kid'', JStr ''k'')]"
    by (simp add: parse_jwt_header_def split_sample_token ex_hook_lib_def sample_json_def)
  ultimately show ?thesis
    by (simp add: google_signed_def offered_keys_def ex_hooks_def ex_delivery_def fetch_jwks_def)
qed

theorem signed_push_is_refused_witness:
  "snd (handle_gmail ex_hook_lib (ex_delivery 50 Performed) (ex_request (''Bearer '' @ sample_token)) ex_hooks) =
     webhook_error 401 ''unauthorized'' \<and>
   snd (handle_gmail ex_hook_lib (ex_delivery 50 Performed) ((ex_request (''Bearer '' @ sample_token))\<lparr>hq_authorization := []\<rparr>) ex_hooks) =
     (200, [])"
proof -
  have "\<not> key_live (dv_now (ex_delivery 50 Performed)) (dedup_key (gmail_dedup_key ex_push ex_history)) (wk_dedup ex_hooks)"
    by (simp add: ex_hooks_def key_live_def)
  moreover have "sample_token \<noteq> []" by (simp add: sample_token_def)
  ultimately show ?thesis
    using signed_push_is_refused [OF ex_push_parses [of "''Bearer '' @ sample_token"] _ _ ex_signed [of 50 Performed]]
    by (simp add: ex_request_def ex_history_def ex_delivery_def Let_def)
qed

theorem redelivered_push_is_dropped_witness:
  "let s1 = fst (handle_gmail ex_hook_lib (ex_delivery 50 NotSent) (ex_request []) ex_hooks);
       s2 = fst (handle_gmail ex_hook_lib (ex_delivery 60 Performed) (ex_request []) s1)
   in snd (handle_gmail ex_hook_lib (ex_delivery 50 NotSent) (ex_request []) ex_hooks) = (200, []) \<and>
      wk_queues s2 = wk_queues s1 \<and> stored_jobs ''a@x'' (wk_queues s1) = []"
proof -
  have "snd (check_authorization ex_hook_lib (ex_delivery 50 NotSent) (hq_authorization (ex_request [])) (wk_certs ex_hooks)) = False"
    by (simp add: check_authorization_def ex_request_def)
  moreover have "\<not> key_live (dv_now (ex_delivery 50 NotSent)) (dedup_key (gmail_dedup_key ex_push ex_history)) (wk_dedup ex_hooks)"
    by (simp add: ex_hooks_def key_live_def)
  moreover have "stored_jobs ''a@x'' (wk_queues ex_hooks) = []" by (simp add: ex_hooks_def stored_jobs_def)
  ultimately show ?thesis
    using redelivered_push_is_dropped [OF ex_push_parses [of "[]"] _ _ _ refl ex_push_parses [of "[]"] refl,
        where d = "ex_delivery 50 NotSent" and s = ex_hooks and evs = "[]"
          and ?d2.0 = "ex_delivery 60 Performed" and user = "''a@x''"]
    by (simp add: ex_delivery_def dedup_ttl_def Let_def)
qed

text \<open>The user of a Graph resource that names one.\<close>

lemma extract_user_named:
  "CHR 0x27 \<notin> set user \<Longrightarrow>
   extract_user_from_resource (''Users('' @ CHR 0x27 # user @ CHR 0x27 # rest) = user"
  by (simp add: extract_user_from_resource_def takeWhile_append)

lemma extract_user_other_form: "extract_user_from_resource ''Users/u1/Messages/m1'' = ''Users/u1/Messages/m1''"
  by code_simp

end
