(* ===== verification/Archive_Job.thy ===== *)
theory Archive_Job
  imports Fetch_Queue Go_Json
begin

text \<open>
  The nightly archive of old mail (\<open>src/ingestion/internal/archive/jobs.go\<close>): batches of rows of
  \<open>raw_emails\<close> go to S3 as Parquet files and are deleted. The Parquet writer and the text of UUIDs are
  arguments. The bucket is the list of uploads; their keys carry a new UUID each, so that none replaces
  another.
\<close>

section \<open>Rows\<close>

text \<open>A row of \<open>raw_emails\<close>; an array that is NULL is empty.\<close>

record stored_email =
  sx_id :: uuid
  sx_thread :: uuid
  sx_user :: uuid
  sx_account :: uuid
  sx_message :: string
  sx_in_reply_to :: "string option"
  sx_references :: "string list"
  sx_sender :: string
  sx_sender_name :: "string option"
  sx_recipients :: "string list"
  sx_subject :: "string option"
  sx_body_text :: "string option"
  sx_body_html :: "string option"
  sx_has_attachments :: "bool option"
  sx_uris :: "string list"
  sx_codes :: "string list"
  sx_received :: "instant option"
  sx_parsed :: "instant option"
  sx_retention :: "instant option"
  sx_classification :: "string option"
  sx_deleted :: "bool option"
  sx_backfill :: "bool option"
  sx_created :: "instant option"
  sx_updated :: "instant option"

record archive_row =
  ar_id :: string
  ar_thread :: string
  ar_user :: string
  ar_account :: string
  ar_message :: string
  ar_in_reply_to :: "string option"
  ar_references :: "string list"
  ar_sender :: string
  ar_sender_name :: "string option"
  ar_recipients :: "string list"
  ar_subject :: "string option"
  ar_body_text :: "string option"
  ar_body_html :: "string option"
  ar_has_attachments :: bool
  ar_uris :: "string list"
  ar_codes :: "string list"
  ar_received :: int
  ar_parsed :: int
  ar_retention :: int
  ar_classification :: string
  ar_deleted :: bool
  ar_backfill :: bool
  ar_created :: int
  ar_updated :: int
  ar_batch :: string

record archive_lib =
  al_show :: "uuid \<Rightarrow> string"
  al_parse :: "string \<Rightarrow> uuid option"
  al_parquet :: "archive_row list \<Rightarrow> string + bytes"

text \<open>\<open>uuid.Parse\<close> reads what \<open>uuid.String\<close> writes.\<close>

definition uuid_text_ok :: "archive_lib \<Rightarrow> bool" where
  "uuid_text_ok lib \<longleftrightarrow> (\<forall>u. al_parse lib (al_show lib u) = Some u)"

definition string_slice :: "string list \<Rightarrow> string list" where
  "string_slice arr = filter (\<lambda>s. s \<noteq> []) arr"

text \<open>A nullable text without its empty value, a nullable flag, and \<open>UnixMilli\<close> of a nullable time.\<close>

definition text_or_none :: "string option \<Rightarrow> string option" where
  "text_or_none x = (if x = Some [] then None else x)"

definition unix_milli :: "instant option \<Rightarrow> int" where
  "unix_milli t = (case t of None \<Rightarrow> 0 | Some i \<Rightarrow> i div 1000000)"

definition to_archive :: "archive_lib \<Rightarrow> stored_email \<Rightarrow> archive_row" where
  "to_archive lib r =
     \<lparr>ar_id = al_show lib (sx_id r), ar_thread = al_show lib (sx_thread r), ar_user = al_show lib (sx_user r),
      ar_account = al_show lib (sx_account r), ar_message = sx_message r,
      ar_in_reply_to = text_or_none (sx_in_reply_to r), ar_references = string_slice (sx_references r),
      ar_sender = sx_sender r, ar_sender_name = text_or_none (sx_sender_name r),
      ar_recipients = string_slice (sx_recipients r), ar_subject = text_or_none (sx_subject r),
      ar_body_text = text_or_none (sx_body_text r), ar_body_html = text_or_none (sx_body_html r),
      ar_has_attachments = (sx_has_attachments r = Some True), ar_uris = string_slice (sx_uris r),
      ar_codes = string_slice (sx_codes r), ar_received = unix_milli (sx_received r),
      ar_parsed = unix_milli (sx_parsed r), ar_retention = unix_milli (sx_retention r),
      ar_classification = (case sx_classification r of None \<Rightarrow> ''pending'' | Some c \<Rightarrow> c),
      ar_deleted = (sx_deleted r = Some True), ar_backfill = (sx_backfill r = Some True),
      ar_created = unix_milli (sx_created r), ar_updated = unix_milli (sx_updated r), ar_batch = []\<rparr>"

section \<open>The job\<close>

record archive_job =
  aj_age_days :: int
  aj_batch_size :: nat
  aj_prefix :: string
  aj_delete :: bool

definition new_archive_job :: archive_job where
  "new_archive_job = \<lparr>aj_age_days = 90, aj_batch_size = 5000, aj_prefix = ''archive/raw_emails'', aj_delete = True\<rparr>"

record archive_stats =
  at_users :: nat
  at_rows :: nat
  at_deleted :: nat
  at_batches :: nat
  at_bytes :: nat
  at_errors :: nat

definition empty_stats :: archive_stats where
  "empty_stats = \<lparr>at_users = 0, at_rows = 0, at_deleted = 0, at_batches = 0, at_bytes = 0, at_errors = 0\<rparr>"

record archive_world =
  aw_rows :: "stored_email list"
  aw_uploads :: "(string \<times> bytes) list"

text \<open>
  What a batch meets: failures of the query and of reading its rows, the identifier and the clock of its
  file, the fate of the upload and of the DELETE of each chunk, and the context at the pause after it.
\<close>

record archive_turn =
  av_query_fails :: bool
  av_scan_fails :: bool
  av_id :: string
  av_now :: instant
  av_upload :: call_fate
  av_delete :: "nat \<Rightarrow> call_fate"
  av_cancelled :: bool

definition is_old :: "instant \<Rightarrow> uuid \<Rightarrow> stored_email \<Rightarrow> bool" where
  "is_old cutoff user r \<longleftrightarrow> sx_user r = user \<and> (case sx_received r of None \<Rightarrow> False | Some t \<Rightarrow> t < cutoff)"

definition find_users_with_old_emails :: "instant \<Rightarrow> archive_world \<Rightarrow> uuid list" where
  "find_users_with_old_emails cutoff w =
     sort (remdups (map sx_user (filter (\<lambda>r. is_old cutoff (sx_user r) r) (aw_rows w))))"

definition fetch_batch ::
  "archive_lib \<Rightarrow> archive_turn \<Rightarrow> uuid \<Rightarrow> instant \<Rightarrow> nat \<Rightarrow> archive_world \<Rightarrow> string + archive_row list \<times> bool" where
  "fetch_batch lib env user cutoff limit w =
     (if av_query_fails env then Inl ''query batch''
      else if av_scan_fails env then Inl ''scan row''
      else (let sel = take (limit + 1) (sort_key (\<lambda>r. the (sx_received r)) (filter (is_old cutoff user) (aw_rows w)))
            in Inr (map (to_archive lib) (take limit sel), limit < length sel)))"

definition archive_key :: "archive_job \<Rightarrow> archive_turn \<Rightarrow> string" where
  "archive_key j env =
     (let (y, m, d) = civil_date (av_now env div day_ns)
      in aj_prefix j @ ''/year='' @ int_decimal y @ ''/month='' @ pad_decimal 2 m @ ''/'' @ av_id env @ ''.parquet'')"

definition upload_to_s3 :: "call_fate \<Rightarrow> string \<Rightarrow> bytes \<Rightarrow> archive_world \<Rightarrow> archive_world \<times> string option" where
  "upload_to_s3 fate key data w =
     (if fate = NotSent then w else w\<lparr>aw_uploads := aw_uploads w @ [(key, data)]\<rparr>,
      if fate = Performed then None else Some (''s3 put object '' @ key))"

text \<open>The DELETE of one chunk, and the loop over chunks of 1000 rows with the fate of each statement.\<close>

definition delete_ids :: "uuid \<Rightarrow> uuid list \<Rightarrow> stored_email list \<Rightarrow> stored_email list" where
  "delete_ids user ids rows = filter (\<lambda>r. \<not> (sx_user r = user \<and> sx_id r \<in> set ids)) rows"

fun delete_chunks ::
  "archive_lib \<Rightarrow> (nat \<Rightarrow> call_fate) \<Rightarrow> nat \<Rightarrow> uuid \<Rightarrow> archive_row list \<Rightarrow> stored_email list \<Rightarrow> nat \<Rightarrow> stored_email list \<times> (string + nat)" where
  "delete_chunks lib fates i user rows tbl cnt =
     (if rows = [] then (tbl, Inr cnt)
      else (case those (map (\<lambda>r. al_parse lib (ar_id r)) (take 1000 rows)) of
              None \<Rightarrow> (tbl, Inl ''parse uuid'')
            | Some ids \<Rightarrow>
                (let tbl' = delete_ids user ids tbl
                 in case fates i of
                      NotSent \<Rightarrow> (tbl, Inl ''delete chunk'')
                    | Unanswered \<Rightarrow> (tbl', Inl ''delete chunk'')
                    | Performed \<Rightarrow>
                        delete_chunks lib fates (Suc i) user (drop 1000 rows) tbl' (cnt + (length tbl - length tbl')))))"

declare delete_chunks.simps [simp del]

definition delete_batch ::
  "archive_lib \<Rightarrow> archive_turn \<Rightarrow> uuid \<Rightarrow> archive_row list \<Rightarrow> archive_world \<Rightarrow> archive_world \<times> (string + nat)" where
  "delete_batch lib env user rows w =
     (case delete_chunks lib (av_delete env) 0 user rows (aw_rows w) 0 of
        (tbl, res) \<Rightarrow> (w\<lparr>aw_rows := tbl\<rparr>, res))"

text \<open>One turn of the loop of \<open>archiveUser\<close>: how it goes on after it.\<close>

datatype batch_end = BatchFailed string | LastBatch | MoreBatches

definition archive_batch ::
  "archive_lib \<Rightarrow> archive_job \<Rightarrow> archive_turn \<Rightarrow> uuid \<Rightarrow> instant \<Rightarrow> archive_world \<Rightarrow> archive_stats \<Rightarrow> archive_world \<times> archive_stats \<times> batch_end" where
  "archive_batch lib j env user cutoff w st =
     (case fetch_batch lib env user cutoff (aj_batch_size j) w of
        Inl e \<Rightarrow> (w, st, BatchFailed (''fetch batch: '' @ e))
      | Inr (rows, has_more) \<Rightarrow>
          if rows = [] then (w, st, LastBatch)
          else (let tagged = map (\<lambda>r. r\<lparr>ar_batch := av_id env\<rparr>) rows
                in case al_parquet lib tagged of
                     Inl e \<Rightarrow> (w, st, BatchFailed (''write parquet: '' @ e))
                   | Inr data \<Rightarrow>
                       (case upload_to_s3 (av_upload env) (archive_key j env) data w of
                          (w1, Some e) \<Rightarrow> (w1, st, BatchFailed (''upload to s3: '' @ e))
                        | (w1, None) \<Rightarrow>
                            (let st1 = st\<lparr>at_rows := at_rows st + length rows, at_batches := Suc (at_batches st),
                                          at_bytes := at_bytes st + length data\<rparr>;
                                 next_step = (if has_more then MoreBatches else LastBatch)
                             in if \<not> aj_delete j then (w1, st1, next_step)
                                else (case delete_batch lib env user tagged w1 of
                                        (w2, Inl e) \<Rightarrow> (w2, st1, BatchFailed (''delete batch: '' @ e))
                                      | (w2, Inr n) \<Rightarrow> (w2, st1\<lparr>at_deleted := at_deleted st1 + n\<rparr>, next_step))))))"

text \<open>The loop over the batches of a user; \<open>None\<close> is a loop that never returns.\<close>

partial_function (option) archive_batches ::
  "archive_lib \<Rightarrow> archive_job \<Rightarrow> (nat \<Rightarrow> archive_turn) \<Rightarrow> nat \<Rightarrow> uuid \<Rightarrow> instant \<Rightarrow> archive_world \<Rightarrow> archive_stats \<Rightarrow> (archive_world \<times> archive_stats \<times> string option) option" where
  "archive_batches lib j env n user cutoff w st =
     (case archive_batch lib j (env n) user cutoff w st of
        (w', st', BatchFailed e) \<Rightarrow> Some (w', st', Some e)
      | (w', st', LastBatch) \<Rightarrow> Some (w', st', None)
      | (w', st', MoreBatches) \<Rightarrow>
          if av_cancelled (env n) then Some (w', st', Some ''context canceled'')
          else archive_batches lib j env (Suc n) user cutoff w' st')"

definition archive_user ::
  "archive_lib \<Rightarrow> archive_job \<Rightarrow> (nat \<Rightarrow> archive_turn) \<Rightarrow> uuid \<Rightarrow> instant \<Rightarrow> archive_world \<Rightarrow> (archive_world \<times> archive_stats \<times> string option) option" where
  "archive_user lib j env user cutoff w = archive_batches lib j env 0 user cutoff w empty_stats"

text \<open>
  \<open>Run\<close>: the environment says whether the search for users fails, whether the context is done before each
  user, and what the batches of each user meet.
\<close>

record archive_env =
  ae_now :: instant
  ae_users_fail :: bool
  ae_done :: "nat \<Rightarrow> bool"
  ae_batches :: "nat \<Rightarrow> nat \<Rightarrow> archive_turn"

fun archive_users ::
  "archive_lib \<Rightarrow> archive_job \<Rightarrow> archive_env \<Rightarrow> nat \<Rightarrow> uuid list \<Rightarrow> instant \<Rightarrow> archive_world \<Rightarrow> archive_stats \<Rightarrow> (archive_world \<times> archive_stats \<times> string option) option" where
  "archive_users lib j env i [] cutoff w st = Some (w, st, None)"
| "archive_users lib j env i (u # us) cutoff w st =
     (if ae_done env i then Some (w, st, Some ''context canceled'')
      else (case archive_user lib j (ae_batches env i) u cutoff w of
              None \<Rightarrow> None
            | Some (w', ust, Some e) \<Rightarrow>
                archive_users lib j env (Suc i) us cutoff w' (st\<lparr>at_errors := Suc (at_errors st)\<rparr>)
            | Some (w', ust, None) \<Rightarrow>
                archive_users lib j env (Suc i) us cutoff w'
                  (st\<lparr>at_users := Suc (at_users st), at_rows := at_rows st + at_rows ust,
                      at_deleted := at_deleted st + at_deleted ust, at_batches := at_batches st + at_batches ust,
                      at_bytes := at_bytes st + at_bytes ust\<rparr>)))"

definition archive_run ::
  "archive_lib \<Rightarrow> archive_job \<Rightarrow> archive_env \<Rightarrow> archive_world \<Rightarrow> (archive_world \<times> archive_stats \<times> string option) option" where
  "archive_run lib j env w =
     (let cutoff = ae_now env - aj_age_days j * day_ns
      in if ae_users_fail env then Some (w, empty_stats, Some ''find users with old emails: query distinct users'')
         else archive_users lib j env 0 (find_users_with_old_emails cutoff w) cutoff w empty_stats)"

section \<open>No mail is lost\<close>

text \<open>A row is in the archive when an upload holds its Parquet row.\<close>

definition archived_in :: "archive_lib \<Rightarrow> archive_world \<Rightarrow> stored_email \<Rightarrow> bool" where
  "archived_in lib w r \<longleftrightarrow>
     (\<exists>key data rows batch. (key, data) \<in> set (aw_uploads w) \<and> al_parquet lib rows = Inr data \<and>
        (to_archive lib r)\<lparr>ar_batch := batch\<rparr> \<in> set rows)"

text \<open>A step that only removes old rows of a user, and only archived ones.\<close>

definition archives :: "archive_lib \<Rightarrow> instant \<Rightarrow> archive_world \<Rightarrow> archive_world \<Rightarrow> bool" where
  "archives lib cutoff w w' \<longleftrightarrow>
     (\<exists>P. aw_rows w' = filter P (aw_rows w)) \<and> set (aw_uploads w) \<subseteq> set (aw_uploads w') \<and>
     (\<forall>r \<in> set (aw_rows w) - set (aw_rows w'). is_old cutoff (sx_user r) r \<and> archived_in lib w' r)"

definition keys_distinct :: "archive_world \<Rightarrow> bool" where
  "keys_distinct w \<longleftrightarrow> distinct (map (\<lambda>r. (sx_user r, sx_id r)) (aw_rows w))"

lemma keys_distinct_eq:
  "keys_distinct w \<Longrightarrow> r \<in> set (aw_rows w) \<Longrightarrow> r' \<in> set (aw_rows w) \<Longrightarrow> sx_user r = sx_user r' \<Longrightarrow> sx_id r = sx_id r' \<Longrightarrow> r = r'"
  by (simp add: keys_distinct_def distinct_map inj_on_def)

lemma archives_refl [simp]: "archives lib cutoff w w"
  by (auto simp: archives_def intro: exI [of _ "\<lambda>_. True"])

lemma archived_in_mono: "archived_in lib w r \<Longrightarrow> set (aw_uploads w) \<subseteq> set (aw_uploads w') \<Longrightarrow> archived_in lib w' r"
  unfolding archived_in_def by blast

lemma archives_trans: "archives lib cutoff w1 w2 \<Longrightarrow> archives lib cutoff w2 w3 \<Longrightarrow> archives lib cutoff w1 w3"
  unfolding archives_def by (auto dest: archived_in_mono)

lemma archives_rows: "archives lib cutoff w w' \<Longrightarrow> set (aw_rows w') \<subseteq> set (aw_rows w)"
  by (auto simp: archives_def)

lemma archives_length: "archives lib cutoff w w' \<Longrightarrow> length (aw_rows w') \<le> length (aw_rows w)"
  by (auto simp: archives_def)

lemma archives_keys_distinct: "archives lib cutoff w w' \<Longrightarrow> keys_distinct w \<Longrightarrow> keys_distinct w'"
  by (auto simp: keys_distinct_def archives_def distinct_map_filter)

lemma archives_upload:
  "upload_to_s3 fate key data w = (w', res) \<Longrightarrow> archives lib cutoff w w' \<and> aw_rows w' = aw_rows w \<and>
     (res = None \<longrightarrow> (key, data) \<in> set (aw_uploads w'))"
  by (auto simp: upload_to_s3_def archives_def intro: exI [of _ "\<lambda>_. True"] split: if_splits)

lemma those_al_parse:
  assumes "uuid_text_ok lib"
  shows "those (map (\<lambda>r. al_parse lib (ar_id r)) (map (\<lambda>r. (to_archive lib r)\<lparr>ar_batch := b\<rparr>) rs)) = Some (map sx_id rs)"
  using assms by (induction rs) (auto simp: uuid_text_ok_def to_archive_def)

text \<open>What the chunks delete: rows of the user with an identifier among those of the batch.\<close>

lemma delete_ids_append: "delete_ids user b (delete_ids user a tbl) = delete_ids user (a @ b) tbl"
  by (auto simp: delete_ids_def intro: filter_cong)

lemma length_delete_ids: "length (delete_ids user ids tbl) \<le> length tbl"
  by (simp add: delete_ids_def)

lemma delete_chunks_deletes:
  assumes "uuid_text_ok lib"
    and "delete_chunks lib fates i user (map (\<lambda>r. (to_archive lib r)\<lparr>ar_batch := b\<rparr>) rs) tbl n = (tbl', res)"
  shows "\<exists>ids. set ids \<subseteq> sx_id ` set rs \<and> tbl' = delete_ids user ids tbl \<and>
           ((\<forall>m. res = Inr m \<longrightarrow> set ids = sx_id ` set rs \<and> m = n + (length tbl - length tbl')))"
  using assms(2)
proof (induction "length rs" arbitrary: rs i tbl n tbl' res rule: less_induct)
  case less
  show ?case
  proof (cases "rs = []")
    case True
    then have "tbl' = tbl" "res = Inr n" using less.prems by (simp_all add: delete_chunks.simps)
    then show ?thesis using True by (intro exI [of _ "[]"]) (simp add: delete_ids_def)
  next
    case False
    let ?c = "map sx_id (take 1000 rs)"
    have step: "(let t = delete_ids user ?c tbl in case fates i of
          NotSent \<Rightarrow> (tbl, Inl ''delete chunk'')
        | Unanswered \<Rightarrow> (t, Inl ''delete chunk'')
        | Performed \<Rightarrow> delete_chunks lib fates (Suc i) user (map (\<lambda>r. (to_archive lib r)\<lparr>ar_batch := b\<rparr>) (drop 1000 rs)) t
            (n + (length tbl - length t))) = (tbl', res)"
      using less.prems False unfolding delete_chunks.simps [of lib fates i] take_map drop_map those_al_parse [OF assms(1)]
      by simp
    have sub: "set ?c \<subseteq> sx_id ` set rs" by (auto dest: in_set_takeD)
    show ?thesis
    proof (cases "fates i")
      case Performed
      let ?t = "delete_ids user ?c tbl"
      have shorter: "length (drop 1000 rs) < length rs" using False by simp
      obtain ids where ids: "set ids \<subseteq> sx_id ` set (drop 1000 rs)" "tbl' = delete_ids user ids ?t"
        "\<forall>m. res = Inr m \<longrightarrow> set ids = sx_id ` set (drop 1000 rs) \<and> m = n + (length tbl - length ?t) + (length ?t - length tbl')"
        using less.hyps [OF shorter step [unfolded Performed Let_def call_fate.case]] by blast
      have le: "length tbl' \<le> length ?t" "length ?t \<le> length tbl"
        unfolding ids(2) by (rule length_delete_ids)+
      have all: "sx_id ` set rs = set ?c \<union> sx_id ` set (drop 1000 rs)"
        by (metis append_take_drop_id image_Un list.set_map set_append)
      show ?thesis
        using ids sub le all by (intro exI [of _ "?c @ ids"]) (auto simp: delete_ids_append)
    next
      case NotSent
      then show ?thesis using step by (intro exI [of _ "[]"]) (auto simp: delete_ids_def)
    next
      case Unanswered
      then show ?thesis using step sub by (intro exI [of _ ?c]) (auto simp: Let_def)
    qed
  qed
qed

text \<open>The rows a batch is made of.\<close>

definition selected :: "uuid \<Rightarrow> instant \<Rightarrow> nat \<Rightarrow> archive_world \<Rightarrow> stored_email list" where
  "selected user cutoff limit w =
     take limit (sort_key (\<lambda>r. the (sx_received r)) (filter (is_old cutoff user) (aw_rows w)))"

lemma fetch_batch_Inr:
  assumes "fetch_batch lib env user cutoff limit w = Inr (rows, has_more)"
  shows "rows = map (to_archive lib) (selected user cutoff limit w)"
    "has_more \<longleftrightarrow> limit < length (filter (is_old cutoff user) (aw_rows w))"
  using assms by (auto simp: fetch_batch_def selected_def Let_def min_def split: if_splits)

lemma selected_old: "set (selected user cutoff limit w) \<subseteq> {r \<in> set (aw_rows w). is_old cutoff user r}"
  by (auto simp: selected_def dest: in_set_takeD)

lemma delete_batch_archives:
  assumes "uuid_text_ok lib" "keys_distinct w"
    and "delete_batch lib env user (map (\<lambda>r. (to_archive lib r)\<lparr>ar_batch := b\<rparr>) rs) w = (w', res)"
    and "set rs \<subseteq> {r \<in> set (aw_rows w). is_old cutoff user r}"
    and "\<And>r. r \<in> set rs \<Longrightarrow> archived_in lib w r"
  shows "archives lib cutoff w w'"
    "\<And>m. res = Inr m \<Longrightarrow> aw_rows w' = filter (\<lambda>r. r \<notin> set rs) (aw_rows w) \<and> m = length (aw_rows w) - length (aw_rows w')"
proof -
  obtain ids where ids: "set ids \<subseteq> sx_id ` set rs" "w' = w\<lparr>aw_rows := delete_ids user ids (aw_rows w)\<rparr>"
    "\<forall>m. res = Inr m \<longrightarrow> set ids = sx_id ` set rs \<and> m = length (aw_rows w) - length (aw_rows w')"
    using delete_chunks_deletes [OF assms(1)] assms(3) by (fastforce simp: delete_batch_def split: prod.splits)
  have key: "r \<in> set rs" if r: "r \<in> set (aw_rows w)" "sx_user r = user" "sx_id r \<in> sx_id ` set rs" for r
  proof -
    obtain r' where r': "r' \<in> set rs" "sx_id r = sx_id r'" using r(3) by auto
    then have "r' \<in> set (aw_rows w)" "sx_user r' = user" using assms(4) by (auto simp: is_old_def)
    then have "r = r'" using keys_distinct_eq [OF assms(2) r(1)] r(2) r'(2) by simp
    then show ?thesis using r'(1) by simp
  qed
  have rs_old: "is_old cutoff user r" "sx_user r = user" if "r \<in> set rs" for r
    using assms(4) that by (auto simp: is_old_def)
  have gone: "r \<in> set rs" if "r \<in> set (aw_rows w)" "r \<notin> set (aw_rows w')" for r
  proof -
    have "sx_user r = user" "sx_id r \<in> sx_id ` set rs" using that ids(1,2) by (auto simp: delete_ids_def)
    then show ?thesis using key that(1) by blast
  qed
  show "archives lib cutoff w w'"
    unfolding archives_def
  proof (intro conjI ballI)
    show "\<exists>P. aw_rows w' = filter P (aw_rows w)" unfolding ids(2) by (simp add: delete_ids_def) blast
    show "set (aw_uploads w) \<subseteq> set (aw_uploads w')" by (simp add: ids(2))
    fix r assume "r \<in> set (aw_rows w) - set (aw_rows w')"
    then have r: "r \<in> set rs" using gone by blast
    then show "is_old cutoff (sx_user r) r" using rs_old by simp
    show "archived_in lib w' r"
      by (rule archived_in_mono [OF assms(5) [OF r]]) (simp add: ids(2))
  qed
  fix m assume m: "res = Inr m"
  have "aw_rows w' = filter (\<lambda>r. r \<notin> set rs) (aw_rows w)"
    unfolding ids(2) delete_ids_def
    using m ids(3) key rs_old(2) by (auto intro!: filter_cong)
  then show "aw_rows w' = filter (\<lambda>r. r \<notin> set rs) (aw_rows w) \<and> m = length (aw_rows w) - length (aw_rows w')"
    using m ids(3) by simp
qed

lemma length_minus_members:
  assumes "distinct xs" "distinct ys" "set ys \<subseteq> set xs"
  shows "length xs - length (filter (\<lambda>x. x \<notin> set ys) xs) = length ys"
proof -
  have "length (filter (\<lambda>x. x \<in> set ys) xs) = length ys"
    using assms by (metis Int_absorb1 distinct_card distinct_filter inf_commute inter_set_filter inf.absorb2)
  then show ?thesis using sum_length_filter_compl [of "\<lambda>x. x \<in> set ys" xs] by simp
qed

lemma selected_Nil: "selected user cutoff limit w = [] \<longleftrightarrow> limit = 0 \<or> filter (is_old cutoff user) (aw_rows w) = []"
  unfolding selected_def take_eq_Nil by (metis set_empty set_sort)

lemma selected_distinct: "keys_distinct w \<Longrightarrow> distinct (selected user cutoff limit w)"
  by (simp add: selected_def keys_distinct_def distinct_map)

text \<open>What one turn of the loop does.\<close>

text \<open>The shape of a turn that has rows to write: the upload, then the DELETE.\<close>

lemma archive_batch_cases:
  assumes "archive_batch lib j env user cutoff w st = (w', st', e)"
  obtains (Failed) x where "w' = w" "e = BatchFailed x"
  | (Empty) "w' = w" "st' = st" "e = LastBatch" "selected user cutoff (aj_batch_size j) w = []"
  | (Upload_failed) key data x where "upload_to_s3 (av_upload env) key data w = (w', Some x)" "\<exists>y. e = BatchFailed y"
  | (Uploaded) key data w1 rows where
      "rows = map (\<lambda>r. (to_archive lib r)\<lparr>ar_batch := av_id env\<rparr>) (selected user cutoff (aj_batch_size j) w)"
      "rows \<noteq> []" "al_parquet lib rows = Inr data" "upload_to_s3 (av_upload env) key data w = (w1, None)"
      "\<not> aj_delete j \<Longrightarrow> w' = w1 \<and> (e = LastBatch \<or> e = MoreBatches)"
      "aj_delete j \<Longrightarrow> \<exists>res. delete_batch lib env user rows w1 = (w', res) \<and>
         (case res of Inl x \<Rightarrow> \<exists>y. e = BatchFailed y
          | Inr m \<Rightarrow> (e = LastBatch \<or> e = MoreBatches) \<and> at_rows st' = at_rows st + length rows \<and> at_deleted st' = at_deleted st + m)"
      "e = LastBatch \<Longrightarrow> length (filter (is_old cutoff user) (aw_rows w)) \<le> aj_batch_size j"
proof (cases "fetch_batch lib env user cutoff (aj_batch_size j) w")
  case (Inl x)
  then show ?thesis using assms Failed by (auto simp: archive_batch_def)
next
  case (Inr p)
  obtain rows has_more where p: "p = (rows, has_more)" by (cases p)
  note f = fetch_batch_Inr [OF Inr [unfolded p]]
  define tagged where "tagged = map (\<lambda>r. (to_archive lib r)\<lparr>ar_batch := av_id env\<rparr>) (selected user cutoff (aj_batch_size j) w)"
  have tagged: "map (\<lambda>r. r\<lparr>ar_batch := av_id env\<rparr>) rows = tagged" "length rows = length tagged"
    by (simp_all add: f(1) tagged_def)
  show ?thesis
  proof (cases "rows = []")
    case True
    then show ?thesis using assms Empty f(1) by (simp add: archive_batch_def Inr p)
  next
    case rows: False
    show ?thesis
    proof (cases "al_parquet lib tagged")
      case (Inl x)
      then show ?thesis using assms Failed rows by (auto simp: archive_batch_def \<open>fetch_batch _ _ _ _ _ _ = _\<close> p tagged Let_def)
    next
      case pq: (Inr data)
      obtain w1 r where up: "upload_to_s3 (av_upload env) (archive_key j env) data w = (w1, r)" by fastforce
      show ?thesis
      proof (cases r)
        case (Some x)
        then show ?thesis using assms Upload_failed rows up by (auto simp: archive_batch_def Inr p tagged pq Let_def)
      next
        case None
        have ne: "tagged \<noteq> []" using rows tagged(2) by auto
        obtain w2 res where del: "delete_batch lib env user tagged w1 = (w2, res)" by fastforce
        show ?thesis
        proof (rule Uploaded [OF tagged_def ne pq up [unfolded None]])
          show "w' = w1 \<and> (e = LastBatch \<or> e = MoreBatches)" if "\<not> aj_delete j"
            using assms rows up None that by (auto simp: archive_batch_def Inr p tagged pq Let_def)
          show "\<exists>res. delete_batch lib env user tagged w1 = (w', res) \<and>
              (case res of Inl x \<Rightarrow> \<exists>y. e = BatchFailed y
               | Inr m \<Rightarrow> (e = LastBatch \<or> e = MoreBatches) \<and> at_rows st' = at_rows st + length tagged \<and> at_deleted st' = at_deleted st + m)"
            if "aj_delete j"
            using assms rows up None that del
            by (cases res) (auto simp: archive_batch_def Inr p tagged pq Let_def)
          show "length (filter (is_old cutoff user) (aw_rows w)) \<le> aj_batch_size j" if "e = LastBatch"
            using assms rows up None that del f(2)
            by (cases res) (auto simp: archive_batch_def Inr p tagged pq Let_def split: if_splits)
        qed
      qed
    qed
  qed
qed

lemma selected_archived:
  assumes "rows = map (\<lambda>r. (to_archive lib r)\<lparr>ar_batch := b\<rparr>) rs" "al_parquet lib rows = Inr data"
    and "(key, data) \<in> set (aw_uploads w)" "r \<in> set rs"
  shows "archived_in lib w r"
  using assms unfolding archived_in_def by force

lemma archive_batch_archives:
  assumes ok: "uuid_text_ok lib" "keys_distinct w" and b: "archive_batch lib j env user cutoff w st = (w', st', e)"
  shows "archives lib cutoff w w'"
  using b
proof (cases rule: archive_batch_cases)
  case (Upload_failed key data x)
  then show ?thesis using archives_upload by blast
next
  case (Uploaded key data w1 rows)
  have up: "archives lib cutoff w w1" "aw_rows w1 = aw_rows w" "(key, data) \<in> set (aw_uploads w1)"
    using archives_upload [OF Uploaded(4)] by auto
  show ?thesis
  proof (cases "aj_delete j")
    case True
    then obtain res where "delete_batch lib env user rows w1 = (w', res)" using Uploaded(6) by blast
    then have "archives lib cutoff w1 w'"
      using delete_batch_archives(1) [OF ok(1) archives_keys_distinct [OF up(1) ok(2)], of env user "av_id env"
          "selected user cutoff (aj_batch_size j) w" w' res cutoff] selected_old [of user cutoff "aj_batch_size j" w] up(2)
        selected_archived [OF Uploaded(1,3) up(3)] Uploaded(1) by auto
    then show ?thesis using archives_trans up(1) by blast
  qed (use Uploaded(5) up(1) in blast)
qed simp_all

lemma archive_batch_deletes:
  assumes ok: "uuid_text_ok lib" "keys_distinct w" and b: "archive_batch lib j env user cutoff w st = (w', st', e)"
    and del: "aj_delete j" "e = LastBatch \<or> e = MoreBatches"
  shows "aw_rows w' = filter (\<lambda>r. r \<notin> set (selected user cutoff (aj_batch_size j) w)) (aw_rows w)"
    "at_rows st' = at_rows st + (length (aw_rows w) - length (aw_rows w'))"
    "at_deleted st' = at_deleted st + (length (aw_rows w) - length (aw_rows w'))"
    "e = MoreBatches \<Longrightarrow> length (aw_rows w') < length (aw_rows w)"
    "e = LastBatch \<Longrightarrow> 0 < aj_batch_size j \<Longrightarrow> filter (is_old cutoff user) (aw_rows w') = []"
proof -
  let ?sel = "selected user cutoff (aj_batch_size j) w"
  have dist: "distinct (aw_rows w)" using ok(2) by (simp add: keys_distinct_def distinct_map)
  have sel: "distinct ?sel" "set ?sel \<subseteq> set (aw_rows w)"
    using selected_distinct [OF ok(2)] selected_old [of user cutoff "aj_batch_size j" w] by auto
  have all: "set ?sel = {r \<in> set (aw_rows w). is_old cutoff user r}"
    if "length (filter (is_old cutoff user) (aw_rows w)) \<le> aj_batch_size j"
    using that by (simp add: selected_def)
  have "aw_rows w' = filter (\<lambda>r. r \<notin> set ?sel) (aw_rows w) \<and>
      at_rows st' = at_rows st + (length (aw_rows w) - length (aw_rows w')) \<and>
      at_deleted st' = at_deleted st + (length (aw_rows w) - length (aw_rows w')) \<and>
      (e = MoreBatches \<longrightarrow> length (aw_rows w') < length (aw_rows w)) \<and>
      (e = LastBatch \<longrightarrow> 0 < aj_batch_size j \<longrightarrow> filter (is_old cutoff user) (aw_rows w') = [])"
    using b
  proof (cases rule: archive_batch_cases)
    case Empty
    then have "aj_batch_size j = 0 \<or> filter (is_old cutoff user) (aw_rows w) = []" by (simp only: selected_Nil)
    then show ?thesis using Empty by auto
  next
    case (Uploaded key data w1 rows)
    have up: "archives lib cutoff w w1" "aw_rows w1 = aw_rows w" "(key, data) \<in> set (aw_uploads w1)"
      using archives_upload [OF Uploaded(4)] by auto
    obtain res where d: "delete_batch lib env user rows w1 = (w', res)"
      and c: "case res of Inl x \<Rightarrow> \<exists>y. e = BatchFailed y
          | Inr m \<Rightarrow> (e = LastBatch \<or> e = MoreBatches) \<and> at_rows st' = at_rows st + length rows \<and> at_deleted st' = at_deleted st + m"
      using Uploaded(6) del(1) by blast
    obtain m where m: "res = Inr m" using c del(2) by (cases res) auto
    have rows: "aw_rows w' = filter (\<lambda>r. r \<notin> set ?sel) (aw_rows w)" "m = length (aw_rows w) - length (aw_rows w')"
      using delete_batch_archives(2) [OF ok(1) archives_keys_distinct [OF up(1) ok(2)], of env user "av_id env" ?sel w' res cutoff m]
        selected_old [of user cutoff "aj_batch_size j" w] up(2) selected_archived [OF Uploaded(1,3) up(3)] Uploaded(1) d m by auto
    have n: "length (aw_rows w) - length (aw_rows w') = length rows"
      using length_minus_members [OF dist sel] rows(1) Uploaded(1) by simp
    then have "length (aw_rows w') < length (aw_rows w)"
      using Uploaded(2) by (metis length_greater_0_conv zero_less_diff)
    then show ?thesis
      using rows n c m Uploaded(7) all by (auto simp: filter_empty_conv)
  qed (use del(2) in auto)
  then show "aw_rows w' = filter (\<lambda>r. r \<notin> set ?sel) (aw_rows w)"
    "at_rows st' = at_rows st + (length (aw_rows w) - length (aw_rows w'))"
    "at_deleted st' = at_deleted st + (length (aw_rows w) - length (aw_rows w'))"
    "e = MoreBatches \<Longrightarrow> length (aw_rows w') < length (aw_rows w)"
    "e = LastBatch \<Longrightarrow> 0 < aj_batch_size j \<Longrightarrow> filter (is_old cutoff user) (aw_rows w') = []"
    by blast+
qed

section \<open>The loops\<close>

lemma archive_batches_archives:
  assumes "uuid_text_ok lib" "archive_batches lib j env n user cutoff w st = Some (w', st', e)" "keys_distinct w"
  shows "archives lib cutoff w w'"
proof -
  have "uuid_text_ok lib \<longrightarrow> keys_distinct w \<longrightarrow> archives lib cutoff w (fst (w', st', e))"
  proof (rule archive_batches.raw_induct [where P = "\<lambda>lib j env n user cutoff w st y.
        uuid_text_ok lib \<longrightarrow> keys_distinct w \<longrightarrow> archives lib cutoff w (fst y)", OF _ assms(2)], intro impI, goal_cases)
    case (1 rec lib j env n user cutoff w st y)
    obtain w1 st1 e1 where b: "archive_batch lib j (env n) user cutoff w st = (w1, st1, e1)" by (rule prod_cases3)
    note step = archive_batch_archives [OF 1(3,4) b]
    show ?case
    proof (cases "e1 = MoreBatches \<and> \<not> av_cancelled (env n)")
      case True
      then have "rec lib j env (Suc n) user cutoff w1 st1 = Some y" using 1(2) b by simp
      then show ?thesis
        using 1(1,3) archives_keys_distinct [OF step 1(4)] archives_trans [OF step] by blast
    next
      case False
      then have "fst y = w1" using 1(2) b by (auto split: batch_end.splits if_splits)
      then show ?thesis using step by simp
    qed
  qed
  then show ?thesis using assms(1,3) by simp
qed

lemma archive_users_archives:
  assumes "uuid_text_ok lib" "archive_users lib j env i us cutoff w st = Some (w', st', e)" "keys_distinct w"
  shows "archives lib cutoff w w'"
  using assms(2,3)
proof (induction us arbitrary: i w st)
  case (Cons u us)
  show ?case
  proof (cases "ae_done env i")
    case False
    obtain w1 ust e1 where u: "archive_user lib j (ae_batches env i) u cutoff w = Some (w1, ust, e1)"
      using Cons.prems(1) False by (auto split: option.splits prod.splits)
    then have step: "archives lib cutoff w w1"
      using archive_batches_archives [OF assms(1) _ Cons.prems(2)] by (simp add: archive_user_def)
    obtain st1 where "archive_users lib j env (Suc i) us cutoff w1 st1 = Some (w', st', e)"
      using Cons.prems(1) False u by (cases e1) auto
    then show ?thesis using Cons.IH archives_keys_distinct [OF step Cons.prems(2)] archives_trans [OF step] by blast
  qed (use Cons.prems in simp)
qed simp

text \<open>
  C17: However a run of the archive job ends, every mail that left the table was older than the cutoff and
  is in an uploaded file, and the other rows are as they were.
\<close>

theorem archive_never_loses_mail:
  assumes "uuid_text_ok lib" "keys_distinct w" "archive_run lib j env w = Some (w', st, e)"
  shows "(\<exists>P. aw_rows w' = filter P (aw_rows w)) \<and>
    (\<forall>r \<in> set (aw_rows w) - set (aw_rows w').
       is_old (ae_now env - aj_age_days j * day_ns) (sx_user r) r \<and> archived_in lib w' r)"
  using archive_users_archives [OF assms(1) _ assms(2)] assms(3)
  by (fastforce simp: archive_run_def Let_def archives_def split: if_splits intro: exI [of _ "\<lambda>_. True"])

lemma archive_batches_returns:
  assumes "uuid_text_ok lib" "aj_delete j" "0 < aj_batch_size j" "keys_distinct w"
  shows "\<exists>w' st' e. archive_batches lib j env n user cutoff w st = Some (w', st', e) \<and>
    (e = None \<longrightarrow> filter (is_old cutoff user) (aw_rows w') = [] \<and>
       at_rows st' = at_rows st + (length (aw_rows w) - length (aw_rows w')) \<and>
       at_deleted st' = at_deleted st + (length (aw_rows w) - length (aw_rows w')))"
  using assms(4)
proof (induction "length (aw_rows w)" arbitrary: n w st rule: less_induct)
  case less
  obtain w1 st1 e1 where b: "archive_batch lib j (env n) user cutoff w st = (w1, st1, e1)" by (rule prod_cases3)
  note step = archive_batch_deletes [OF assms(1) less.prems b assms(2)]
  note arch = archive_batch_archives [OF assms(1) less.prems b]
  show ?case
  proof (cases e1)
    case (BatchFailed x)
    then show ?thesis using b by (subst archive_batches.simps) simp
  next
    case LastBatch
    then show ?thesis using b step assms(3) by (subst archive_batches.simps) simp
  next
    case MoreBatches
    then have shorter: "length (aw_rows w1) < length (aw_rows w)" using step by simp
    show ?thesis
    proof (cases "av_cancelled (env n)")
      case True
      then show ?thesis using b MoreBatches by (subst archive_batches.simps) simp
    next
      case False
      obtain w' st' e where r: "archive_batches lib j env (Suc n) user cutoff w1 st1 = Some (w', st', e)"
        "e = None \<longrightarrow> filter (is_old cutoff user) (aw_rows w') = [] \<and>
           at_rows st' = at_rows st1 + (length (aw_rows w1) - length (aw_rows w')) \<and>
           at_deleted st' = at_deleted st1 + (length (aw_rows w1) - length (aw_rows w'))"
        using less.hyps [OF shorter archives_keys_distinct [OF arch less.prems]] by blast
      have "archives lib cutoff w1 w'"
        by (rule archive_batches_archives [OF assms(1) r(1) archives_keys_distinct [OF arch less.prems]])
      then have "length (aw_rows w') \<le> length (aw_rows w1)" by (rule archives_length)
      then show ?thesis
        using r step(2,3) MoreBatches shorter b False by (subst archive_batches.simps) auto
    qed
  qed
qed

lemma archive_users_returns:
  assumes "uuid_text_ok lib" "aj_delete j" "0 < aj_batch_size j" "keys_distinct w"
  shows "\<exists>w' st' e. archive_users lib j env i us cutoff w st = Some (w', st', e) \<and>
    at_errors st \<le> at_errors st' \<and>
    (e = None \<and> at_errors st' = at_errors st \<longrightarrow>
       (\<forall>u \<in> set us. filter (is_old cutoff u) (aw_rows w') = []) \<and>
       at_rows st' = at_rows st + (length (aw_rows w) - length (aw_rows w')) \<and>
       at_deleted st' = at_deleted st + (length (aw_rows w) - length (aw_rows w')))"
  using assms(4)
proof (induction us arbitrary: i w st)
  case (Cons u us)
  show ?case
  proof (cases "ae_done env i")
    case False
    obtain w1 ust e1 where u: "archive_user lib j (ae_batches env i) u cutoff w = Some (w1, ust, e1)"
      and ok: "e1 = None \<longrightarrow> filter (is_old cutoff u) (aw_rows w1) = [] \<and>
          at_rows ust = length (aw_rows w) - length (aw_rows w1) \<and> at_deleted ust = length (aw_rows w) - length (aw_rows w1)"
      using archive_batches_returns [OF assms(1-3) Cons.prems, of "ae_batches env i" 0 u cutoff empty_stats]
      by (auto simp: archive_user_def empty_stats_def)
    have step: "archives lib cutoff w w1"
      using archive_batches_archives [OF assms(1) _ Cons.prems] u by (simp add: archive_user_def)
    define st1 where "st1 = (case e1 of Some e \<Rightarrow> st\<lparr>at_errors := Suc (at_errors st)\<rparr>
      | None \<Rightarrow> st\<lparr>at_users := Suc (at_users st), at_rows := at_rows st + at_rows ust,
                      at_deleted := at_deleted st + at_deleted ust, at_batches := at_batches st + at_batches ust,
                      at_bytes := at_bytes st + at_bytes ust\<rparr>)"
    have run: "archive_users lib j env i (u # us) cutoff w st = archive_users lib j env (Suc i) us cutoff w1 st1"
      using False u by (cases e1) (simp_all add: st1_def)
    obtain w' st' e where r: "archive_users lib j env (Suc i) us cutoff w1 st1 = Some (w', st', e)"
      "at_errors st1 \<le> at_errors st'"
      "e = None \<and> at_errors st' = at_errors st1 \<longrightarrow>
         (\<forall>u \<in> set us. filter (is_old cutoff u) (aw_rows w') = []) \<and>
         at_rows st' = at_rows st1 + (length (aw_rows w1) - length (aw_rows w')) \<and>
         at_deleted st' = at_deleted st1 + (length (aw_rows w1) - length (aw_rows w'))"
      using Cons.IH [OF archives_keys_distinct [OF step Cons.prems]] by blast
    have step2: "archives lib cutoff w1 w'"
      by (rule archive_users_archives [OF assms(1) r(1) archives_keys_distinct [OF step Cons.prems]])
    have le: "length (aw_rows w') \<le> length (aw_rows w1)" "length (aw_rows w1) \<le> length (aw_rows w)"
      using archives_length [OF step] archives_length [OF step2] by simp_all
    have gone: "filter (is_old cutoff u) (aw_rows w1) = [] \<Longrightarrow> filter (is_old cutoff u) (aw_rows w') = []"
      using archives_rows [OF step2] by (auto simp: filter_empty_conv)
    show ?thesis
    proof (cases e1)
      case (Some x)
      then have "at_errors st1 = Suc (at_errors st)" by (simp add: st1_def)
      then show ?thesis using run r by auto
    next
      case None
      then have st1: "at_errors st1 = at_errors st" "at_rows st1 = at_rows st + (length (aw_rows w) - length (aw_rows w1))"
        "at_deleted st1 = at_deleted st + (length (aw_rows w) - length (aw_rows w1))"
        using ok by (simp_all add: st1_def)
      then show ?thesis using run r le ok None gone by auto
    qed
  qed simp
qed simp

text \<open>
  With deletion, a run returns whatever its statements and uploads meet; when no user failed, it has
  removed every mail older than the cutoff, and the counts of archived and deleted rows are those removed.
\<close>

lemma archive_run_returns:
  assumes "uuid_text_ok lib" "aj_delete j" "0 < aj_batch_size j" "keys_distinct w"
  shows "\<exists>w' st e. archive_run lib j env w = Some (w', st, e) \<and>
    (e = None \<and> at_errors st = 0 \<longrightarrow>
       (\<forall>r \<in> set (aw_rows w'). \<not> is_old (ae_now env - aj_age_days j * day_ns) (sx_user r) r) \<and>
       at_rows st = length (aw_rows w) - length (aw_rows w') \<and> at_deleted st = at_rows st)"
proof (cases "ae_users_fail env")
  case False
  let ?c = "ae_now env - aj_age_days j * day_ns"
  obtain w' st e where r: "archive_run lib j env w = Some (w', st, e)"
    and res: "e = None \<and> at_errors st = 0 \<longrightarrow>
       (\<forall>u \<in> set (find_users_with_old_emails ?c w). filter (is_old ?c u) (aw_rows w') = []) \<and>
       at_rows st = length (aw_rows w) - length (aw_rows w') \<and> at_deleted st = length (aw_rows w) - length (aw_rows w')"
    using archive_users_returns [OF assms, of env 0 "find_users_with_old_emails ?c w" ?c empty_stats] False
    by (auto simp: archive_run_def Let_def empty_stats_def)
  have "archives lib ?c w w'"
    using archive_users_archives [OF assms(1) _ assms(4)] r False by (simp add: archive_run_def Let_def)
  then have "set (aw_rows w') \<subseteq> set (aw_rows w)" by (rule archives_rows)
  then show ?thesis
    using r res by (fastforce simp: find_users_with_old_emails_def filter_empty_conv)
qed (simp add: archive_run_def Let_def)

text \<open>Without deletion the next batch is the same one: two batches of old mail keep the loop going for ever.\<close>

definition batch_succeeds :: "archive_turn \<Rightarrow> bool" where
  "batch_succeeds e \<longleftrightarrow> \<not> av_query_fails e \<and> \<not> av_scan_fails e \<and> av_upload e = Performed \<and> \<not> av_cancelled e"

lemma archive_without_delete_step:
  assumes "batch_succeeds e" "\<not> aj_delete j" "0 < aj_batch_size j" "\<And>rows. \<exists>data. al_parquet lib rows = Inr data"
    and "aj_batch_size j < length (filter (is_old cutoff user) (aw_rows w))"
  obtains w' st' where "archive_batch lib j e user cutoff w st = (w', st', MoreBatches)" "aw_rows w' = aw_rows w"
proof -
  let ?rows = "map (to_archive lib) (selected user cutoff (aj_batch_size j) w)"
  have f: "fetch_batch lib e user cutoff (aj_batch_size j) w = Inr (?rows, True)"
    using assms(1,5) by (simp add: fetch_batch_def batch_succeeds_def selected_def Let_def min_def)
  have ne: "selected user cutoff (aj_batch_size j) w \<noteq> []"
    using assms(3,5) unfolding selected_Nil by auto
  obtain data where "al_parquet lib (map (\<lambda>r. r\<lparr>ar_batch := av_id e\<rparr>) ?rows) = Inr data" using assms(4) by blast
  then show ?thesis
    using that assms(1,2) ne
    by (simp add: archive_batch_def f Let_def upload_to_s3_def batch_succeeds_def)
qed

lemma archive_without_delete_never_returns:
  assumes "\<And>n. batch_succeeds (env n)" "\<not> aj_delete j" "0 < aj_batch_size j" "\<And>rows. \<exists>data. al_parquet lib rows = Inr data"
    and "aj_batch_size j < length (filter (is_old cutoff user) (aw_rows w))"
  shows "archive_user lib j env user cutoff w = None"
proof (rule ccontr)
  assume "archive_user lib j env user cutoff w \<noteq> None"
  then obtain y where ret: "archive_batches lib j env 0 user cutoff w empty_stats = Some y"
    by (auto simp: archive_user_def)
  let ?P = "\<lambda>l j' env' n u c w (st :: archive_stats) (y :: archive_world \<times> archive_stats \<times> string option).
      \<not> (l = lib \<and> j' = j \<and> env' = env \<and> u = user \<and> c = cutoff \<and> aj_batch_size j < length (filter (is_old cutoff user) (aw_rows w)))"
  have "?P lib j env 0 user cutoff w empty_stats y"
  proof (rule archive_batches.raw_induct [where P = ?P, OF _ ret], goal_cases)
    case (1 rec l j' env' n u c w st y)
    show ?case
    proof
      assume eq: "l = lib \<and> j' = j \<and> env' = env \<and> u = user \<and> c = cutoff \<and> aj_batch_size j < length (filter (is_old cutoff user) (aw_rows w))"
      then obtain w' st' where s: "archive_batch lib j (env n) user cutoff w st = (w', st', MoreBatches)" "aw_rows w' = aw_rows w"
        using archive_without_delete_step [OF assms(1) assms(2-4)] by blast
      have "rec lib j env (Suc n) user cutoff w' st' = Some y"
        using 1(2) eq assms(1) [of n] s(1) by (simp add: batch_succeeds_def)
      moreover have "aj_batch_size j < length (filter (is_old cutoff user) (aw_rows w'))" using eq s(2) by simp
      ultimately show False using 1(1) by blast
    qed
  qed
  then show False using assms(5) by simp
qed

section \<open>Examples\<close>

definition ex_archive_lib :: archive_lib where
  "ex_archive_lib = \<lparr>al_show = (\<lambda>u. replicate u (CHR ''x'')), al_parse = (\<lambda>s. Some (length s)),
     al_parquet = (\<lambda>rows. Inr (replicate (length rows) 0))\<rparr>"

definition ex_stored :: "uuid \<Rightarrow> instant \<Rightarrow> stored_email" where
  "ex_stored i t = \<lparr>sx_id = i, sx_thread = 1, sx_user = 1, sx_account = 1, sx_message = ''m'', sx_in_reply_to = None,
     sx_references = [], sx_sender = ''s'', sx_sender_name = None, sx_recipients = [], sx_subject = Some [],
     sx_body_text = None, sx_body_html = None, sx_has_attachments = None, sx_uris = [], sx_codes = [],
     sx_received = Some t, sx_parsed = None, sx_retention = None, sx_classification = None, sx_deleted = None,
     sx_backfill = None, sx_created = None, sx_updated = None\<rparr>"

definition ex_archive_world :: archive_world where
  "ex_archive_world = \<lparr>aw_rows = [ex_stored 1 5, ex_stored 2 20, ex_stored 3 1], aw_uploads = []\<rparr>"

definition ex_batch_env :: archive_turn where
  "ex_batch_env = \<lparr>av_query_fails = False, av_scan_fails = False, av_id = ''b'', av_now = 10, av_upload = Performed,
     av_delete = (\<lambda>_. Performed), av_cancelled = False\<rparr>"

definition ex_archive_env :: archive_env where
  "ex_archive_env = \<lparr>ae_now = 10, ae_users_fail = False, ae_done = (\<lambda>_. False), ae_batches = (\<lambda>_ _. ex_batch_env)\<rparr>"

definition ex_archive_job :: archive_job where
  "ex_archive_job = \<lparr>aj_age_days = 0, aj_batch_size = 1, aj_prefix = ''p'', aj_delete = True\<rparr>"

lemma ex_archive_ok: "uuid_text_ok ex_archive_lib" "keys_distinct ex_archive_world"
  by (simp_all add: uuid_text_ok_def ex_archive_lib_def keys_distinct_def ex_archive_world_def ex_stored_def)

theorem archive_run_returns_witness:
  "\<exists>w' st e. archive_run ex_archive_lib ex_archive_job ex_archive_env ex_archive_world = Some (w', st, e) \<and>
    (e = None \<and> at_errors st = 0 \<longrightarrow> at_rows st = 3 - length (aw_rows w'))"
  using archive_run_returns [OF ex_archive_ok(1) _ _ ex_archive_ok(2), of ex_archive_job ex_archive_env]
  by (auto simp: ex_archive_job_def ex_archive_world_def)

definition ex_archived :: archive_world where
  "ex_archived = \<lparr>aw_rows = [ex_stored 2 20],
     aw_uploads = [(''p/year=1970/month=01/b.parquet'', [0]), (''p/year=1970/month=01/b.parquet'', [0])]\<rparr>"

definition ex_halfway :: archive_world where
  "ex_halfway = \<lparr>aw_rows = [ex_stored 1 5, ex_stored 2 20], aw_uploads = [(''p/year=1970/month=01/b.parquet'', [0])]\<rparr>"

lemma ex_archive_run:
  "archive_run ex_archive_lib ex_archive_job ex_archive_env ex_archive_world =
     Some (ex_archived, \<lparr>at_users = 1, at_rows = 2, at_deleted = 2, at_batches = 2, at_bytes = 2, at_errors = 0\<rparr>, None)"
proof -
  let ?st = "\<lambda>n. \<lparr>at_users = 0, at_rows = n, at_deleted = n, at_batches = n, at_bytes = n, at_errors = 0\<rparr>"
  have "archive_batch ex_archive_lib ex_archive_job ex_batch_env 1 10 ex_archive_world empty_stats = (ex_halfway, ?st 1, MoreBatches)"
    by code_simp
  moreover have "archive_batch ex_archive_lib ex_archive_job ex_batch_env 1 10 ex_halfway (?st 1) = (ex_archived, ?st 2, LastBatch)"
    by code_simp
  moreover have "av_cancelled ex_batch_env = False" by (simp add: ex_batch_env_def)
  ultimately have u: "archive_user ex_archive_lib ex_archive_job (\<lambda>_. ex_batch_env) 1 10 ex_archive_world = Some (ex_archived, ?st 2, None)"
    unfolding archive_user_def by (subst archive_batches.simps, simp) (subst archive_batches.simps, simp)
  have "find_users_with_old_emails 10 ex_archive_world = [1]" by code_simp
  then show ?thesis
    using u by (simp add: archive_run_def ex_archive_env_def ex_archive_job_def empty_stats_def)
qed

theorem archive_never_loses_mail_witness:
  "ex_stored 1 5 \<in> set (aw_rows ex_archive_world) - set (aw_rows ex_archived) \<and>
   archived_in ex_archive_lib ex_archived (ex_stored 1 5)"
proof -
  have "ex_stored 1 5 \<in> set (aw_rows ex_archive_world) - set (aw_rows ex_archived)"
    by (simp add: ex_archive_world_def ex_archived_def ex_stored_def)
  then show ?thesis
    using archive_never_loses_mail [OF ex_archive_ok ex_archive_run] by blast
qed

end
