(* ===== verification/Rate_Limits.thy ===== *)
theory Rate_Limits
  imports Fetch_Queue
begin

text \<open>
  The rate limiting middleware of the services (\<open>src/sync/internal/middleware/ratelimit.go\<close>, with equal
  copies in the other services): counters in Redis per user, one for requests in a fixed window and one for
  WebSocket connections, and the composite that the sync service puts in front of its routes.
\<close>

section \<open>Counters\<close>

text \<open>A counter and the time it expires, if any; the three commands on it.\<close>

type_synonym counters = "string \<rightharpoonup> int \<times> instant option"

definition live_counter :: "instant \<Rightarrow> string \<Rightarrow> counters \<Rightarrow> (int \<times> instant option) option" where
  "live_counter now k db =
     (case db k of
        Some (n, Some e) \<Rightarrow> if now < e then Some (n, Some e) else None
      | x \<Rightarrow> x)"

definition add_counter :: "int \<Rightarrow> instant \<Rightarrow> string \<Rightarrow> counters \<Rightarrow> counters \<times> int" where
  "add_counter d now k db =
     (case live_counter now k db of
        None \<Rightarrow> (db(k \<mapsto> (d, None)), d)
      | Some (n, e) \<Rightarrow> (db(k \<mapsto> (n + d, e)), n + d))"

definition expire_counter :: "instant \<Rightarrow> string \<Rightarrow> duration \<Rightarrow> counters \<Rightarrow> counters" where
  "expire_counter now k ttl db =
     (case live_counter now k db of None \<Rightarrow> db | Some (n, _) \<Rightarrow> db(k \<mapsto> (n, Some (now + ttl))))"

record limit_call =
  rl_now :: instant
  rl_incr :: call_fate
  rl_expire :: call_fate
  rl_decr :: call_fate

text \<open>The result of INCR is \<open>None\<close> when the caller sees an error; those of EXPIRE and DECR are not read.\<close>

definition call_incr :: "limit_call \<Rightarrow> string \<Rightarrow> counters \<Rightarrow> counters \<times> int option" where
  "call_incr c k db =
     (if rl_incr c = NotSent then (db, None)
      else (case add_counter 1 (rl_now c) k db of
              (db', n) \<Rightarrow> (db', if rl_incr c = Performed then Some n else None)))"

definition call_expire :: "limit_call \<Rightarrow> string \<Rightarrow> duration \<Rightarrow> counters \<Rightarrow> counters" where
  "call_expire c k ttl db = (if rl_expire c = NotSent then db else expire_counter (rl_now c) k ttl db)"

definition call_decr :: "limit_call \<Rightarrow> string \<Rightarrow> counters \<Rightarrow> counters" where
  "call_decr c k db = (if rl_decr c = NotSent then db else fst (add_counter (- 1) (rl_now c) k db))"

section \<open>Requests in a window\<close>

text \<open>What the middleware reads of a request, and what it does: call the next handler or answer.\<close>

record limited_request =
  lq_user :: string
  lq_upgrade :: string

datatype limit_outcome = PassedOn "(string \<times> string) list" | Refused nat "(string \<times> string) list" string

text \<open>\<open>int(window.Seconds())\<close> of a window that is not negative.\<close>

definition window_seconds :: "duration \<Rightarrow> string" where
  "window_seconds window = int_decimal (window div second_ns)"

definition rate_key :: "string \<Rightarrow> string" where
  "rate_key user = ''ratelimit:api:'' @ user"

definition rate_limit_middleware ::
  "int \<Rightarrow> duration \<Rightarrow> limit_call \<Rightarrow> limited_request \<Rightarrow> counters \<Rightarrow> counters \<times> limit_outcome" where
  "rate_limit_middleware limit window c req db =
     (if lq_user req = [] then (db, PassedOn [])
      else (case call_incr c (rate_key (lq_user req)) db of
              (db1, None) \<Rightarrow> (db1, PassedOn [])
            | (db1, Some current) \<Rightarrow>
                (let db2 = (if current = 1 then call_expire c (rate_key (lq_user req)) window db1 else db1);
                     remaining = max 0 (limit - current);
                     headers = [(''X-RateLimit-Limit'', int_decimal limit), (''X-RateLimit-Remaining'', int_decimal remaining),
                                (''X-RateLimit-Window'', window_seconds window)]
                 in if limit < current
                    then (db2, Refused 429 (headers @ [(''Retry-After'', window_seconds window)])
                            ([CHR 0x7B, CHR 0x22] @ ''error'' @ [CHR 0x22, CHR '':'', CHR 0x22] @ ''rate limit exceeded'' @
                             [CHR 0x22, CHR '','', CHR 0x22] @ ''retry_after'' @ [CHR 0x22, CHR '':''] @ window_seconds window @ [CHR 0x7D]))
                    else (db2, PassedOn headers))))"

definition sync_api_rate_limit :: "limit_call \<Rightarrow> limited_request \<Rightarrow> counters \<Rightarrow> counters \<times> limit_outcome" where
  "sync_api_rate_limit = rate_limit_middleware 100 minute_ns"

definition intelligence_api_rate_limit :: "limit_call \<Rightarrow> limited_request \<Rightarrow> counters \<Rightarrow> counters \<times> limit_outcome" where
  "intelligence_api_rate_limit = rate_limit_middleware 30 minute_ns"

definition web_socket_rate_limit :: "limit_call \<Rightarrow> limited_request \<Rightarrow> counters \<Rightarrow> counters \<times> limit_outcome" where
  "web_socket_rate_limit = rate_limit_middleware 10 second_ns"

section \<open>Connections\<close>

record rate_limits =
  rs_sync_api :: int
  rs_intelligence_api :: int
  rs_connections :: int
  rs_messages :: int

definition default_rate_limits :: rate_limits where
  "default_rate_limits = \<lparr>rs_sync_api = 100, rs_intelligence_api = 30, rs_connections = 1, rs_messages = 10\<rparr>"

record connection_limiter =
  cl_limit :: int
  cl_ttl :: duration
  cl_prefix :: string

definition new_connection_limiter :: "int \<Rightarrow> connection_limiter" where
  "new_connection_limiter limit = \<lparr>cl_limit = limit, cl_ttl = 2 * hour_ns, cl_prefix = ''ratelimit:ws:conn''\<rparr>"

definition connection_key :: "connection_limiter \<Rightarrow> string \<Rightarrow> string" where
  "connection_key cl user = cl_prefix cl @ '':'' @ user"

definition acquire_connection :: "connection_limiter \<Rightarrow> limit_call \<Rightarrow> string \<Rightarrow> counters \<Rightarrow> counters \<times> bool" where
  "acquire_connection cl c user db =
     (case call_incr c (connection_key cl user) db of
        (db1, None) \<Rightarrow> (db1, True)
      | (db1, Some current) \<Rightarrow>
          (let db2 = (if current = 1 then call_expire c (connection_key cl user) (cl_ttl cl) db1 else db1)
           in if cl_limit cl < current then (call_decr c (connection_key cl user) db2, False) else (db2, True)))"

definition release_connection :: "connection_limiter \<Rightarrow> limit_call \<Rightarrow> string \<Rightarrow> counters \<Rightarrow> counters" where
  "release_connection cl c user db = call_decr c (connection_key cl user) db"

definition is_web_socket_request :: "limited_request \<Rightarrow> bool" where
  "is_web_socket_request req \<longleftrightarrow> lq_upgrade req = ''websocket''"

definition with_rate_limits :: "rate_limits \<Rightarrow> limit_call \<Rightarrow> limited_request \<Rightarrow> counters \<Rightarrow> counters \<times> limit_outcome" where
  "with_rate_limits limits c req db =
     (if is_web_socket_request req \<and> lq_user req \<noteq> []
      then (case acquire_connection (new_connection_limiter (rs_connections limits)) c (lq_user req) db of
              (db', True) \<Rightarrow> (db', PassedOn [])
            | (db', False) \<Rightarrow>
                (db', Refused 429 [(''X-RateLimit-Limit'', int_decimal (rs_connections limits)), (''X-RateLimit-Remaining'', ''0'')]
                   ([CHR 0x7B, CHR 0x22] @ ''error'' @ [CHR 0x22, CHR '':'', CHR 0x22] @ ''websocket connection limit exceeded'' @ [CHR 0x22, CHR 0x7D])))
      else (db, PassedOn []))"

section \<open>What a counter bounds\<close>

text \<open>A user's requests one after the other, and how many of them were counted and passed on.\<close>

definition counted_pass :: "limit_outcome \<Rightarrow> bool" where
  "counted_pass r = (case r of PassedOn hs \<Rightarrow> hs \<noteq> [] | Refused _ _ _ \<Rightarrow> False)"

fun window_run :: "int \<Rightarrow> duration \<Rightarrow> string \<Rightarrow> limit_call list \<Rightarrow> counters \<Rightarrow> counters \<times> nat" where
  "window_run limit window user [] db = (db, 0)"
| "window_run limit window user (c # cs) db =
     (case rate_limit_middleware limit window c \<lparr>lq_user = user, lq_upgrade = []\<rparr> db of
        (db1, r) \<Rightarrow>
          (case window_run limit window user cs db1 of
             (db2, n) \<Rightarrow> (db2, (if counted_pass r then 1 else 0) + n)))"

text \<open>The counter after a request whose INCR found it dead or alive.\<close>

lemma middleware_on_dead:
  assumes "live_counter (rl_now c) (rate_key user) db = None" "user \<noteq> []"
    and "rate_limit_middleware limit window c \<lparr>lq_user = user, lq_upgrade = u\<rparr> db = (db', r)"
  shows "(rl_incr c = NotSent \<longrightarrow> db' = db \<and> \<not> counted_pass r) \<and>
     (rl_incr c \<noteq> NotSent \<longrightarrow> (\<exists>e. db' (rate_key user) = Some (1, e) \<and> (e = None \<or> e = Some (rl_now c + window))) \<and>
        (rl_incr c = Performed \<and> rl_expire c = NotSent \<longrightarrow> db' (rate_key user) = Some (1, None)) \<and>
        (counted_pass r \<longrightarrow> 1 \<le> limit))"
  using assms
  by (auto simp: rate_limit_middleware_def call_incr_def call_expire_def add_counter_def expire_counter_def live_counter_def
      Let_def counted_pass_def split: if_splits option.splits prod.splits)

lemma middleware_on_live:
  assumes "live_counter (rl_now c) (rate_key user) db = Some (n, e)" "user \<noteq> []" "1 \<le> n"
    and "rate_limit_middleware limit window c \<lparr>lq_user = user, lq_upgrade = u\<rparr> db = (db', r)"
  shows "db' (rate_key user) = Some (if rl_incr c = NotSent then n else n + 1, e) \<and>
     (counted_pass r \<longrightarrow> n + 1 \<le> limit \<and> rl_incr c \<noteq> NotSent) \<and>
     (rl_incr c = Performed \<and> limit < n + 1 \<longrightarrow> (\<exists>hs b. r = Refused 429 hs b))"
proof (cases "rl_incr c")
  case NotSent
  have "db (rate_key user) = Some (n, e)" using assms(1) by (auto simp: live_counter_def split: option.splits if_splits)
  then show ?thesis using assms NotSent by (auto simp: rate_limit_middleware_def call_incr_def counted_pass_def)
qed (use assms in \<open>auto simp: rate_limit_middleware_def call_incr_def add_counter_def Let_def counted_pass_def split: if_splits\<close>)

lemma window_run_live:
  assumes "db (rate_key user) = Some (n, e)" "1 \<le> n" "user \<noteq> []"
    and "\<And>c. c \<in> set cs \<Longrightarrow> e = None \<or> (\<exists>t. e = Some t \<and> rl_now c < t)"
    and "window_run limit window user cs db = (db', p)"
  shows "\<exists>m \<ge> n. db' (rate_key user) = Some (m, e) \<and> m = n + int (length (filter (\<lambda>c. rl_incr c \<noteq> NotSent) cs)) \<and>
     int p \<le> max 0 (limit - n)"
  using assms
proof (induction cs arbitrary: db n db' p)
  case (Cons c cs)
  obtain db1 r where s: "rate_limit_middleware limit window c \<lparr>lq_user = user, lq_upgrade = []\<rparr> db = (db1, r)" by fastforce
  obtain db2 q where run: "window_run limit window user cs db1 = (db2, q)" by fastforce
  have out: "db' = db2" "p = (if counted_pass r then 1 else 0) + q" using Cons.prems(5) s run by auto
  have live: "live_counter (rl_now c) (rate_key user) db = Some (n, e)"
    using Cons.prems(1) Cons.prems(4) [of c] by (auto simp: live_counter_def)
  define n1 where "n1 = (if rl_incr c = NotSent then n else n + 1)"
  note step = middleware_on_live [OF live Cons.prems(3,2) s, folded n1_def]
  have "\<exists>m \<ge> n1. db2 (rate_key user) = Some (m, e) \<and> m = n1 + int (length (filter (\<lambda>c. rl_incr c \<noteq> NotSent) cs)) \<and>
     int q \<le> max 0 (limit - n1)"
    using Cons.IH [of db1 n1 db2 q] step Cons.prems(2,3,4) run by (auto simp: n1_def)
  then show ?case using step out Cons.prems(2) by (auto simp: n1_def split: if_splits)
qed simp

lemma window_run_dead:
  assumes "user \<noteq> []" "\<And>c. c \<in> set cs \<Longrightarrow> t \<le> rl_now c \<and> rl_now c < t + window"
    and "case db (rate_key user) of None \<Rightarrow> True | Some (_, None) \<Rightarrow> False | Some (_, Some e) \<Rightarrow> e \<le> t"
    and "window_run limit window user cs db = (db', p)"
  shows "int p \<le> max 0 limit"
  using assms
proof (induction cs arbitrary: db db' p)
  case (Cons c cs)
  obtain db1 r where s: "rate_limit_middleware limit window c \<lparr>lq_user = user, lq_upgrade = []\<rparr> db = (db1, r)" by fastforce
  obtain db2 q where run: "window_run limit window user cs db1 = (db2, q)" by fastforce
  have out: "p = (if counted_pass r then 1 else 0) + q" using Cons.prems(4) s run by auto
  have t: "t \<le> rl_now c" using Cons.prems(2) by simp
  have dead: "live_counter (rl_now c) (rate_key user) db = None"
    using Cons.prems(3) t by (auto simp: live_counter_def split: option.splits)
  note step = middleware_on_dead [OF dead Cons.prems(1) s]
  show ?case
  proof (cases "rl_incr c = NotSent")
    case True
    then show ?thesis using step Cons.IH [of db db2 q] Cons.prems(1-3) run out by simp
  next
    case False
    then obtain e where e: "db1 (rate_key user) = Some (1, e)" "e = None \<or> e = Some (rl_now c + window)"
      "counted_pass r \<longrightarrow> 1 \<le> limit" using step by blast
    have "e = None \<or> (\<exists>t. e = Some t \<and> rl_now c' < t)" if "c' \<in> set cs" for c'
      using e(2) t Cons.prems(2) [of c'] that by fastforce
    then have "int q \<le> max 0 (limit - 1)"
      using window_run_live [OF e(1) _ Cons.prems(1) _ run] by fastforce
    then show ?thesis using e(3) out by (auto split: if_splits)
  qed
qed simp

text \<open>
  C18: Whatever calls fail, at most \<open>limit\<close> requests of a user are counted and passed on within one window
  that starts without a live counter.
\<close>

theorem window_bounds_requests:
  assumes "user \<noteq> []" "\<And>c. c \<in> set cs \<Longrightarrow> t \<le> rl_now c \<and> rl_now c < t + window" "live_counter t (rate_key user) db = None"
  shows "int (snd (window_run limit window user cs db)) \<le> max 0 limit"
  by (rule window_run_dead [OF assms(1,2) _ prod.collapse [symmetric]])
    (use assms(3) in \<open>auto simp: live_counter_def split: option.splits if_splits\<close>)

text \<open>
  When the EXPIRE after the first request of a window is lost, the counter never expires: once \<open>limit\<close>
  requests were counted, every later one whose INCR is answered is refused, at any time.
\<close>

lemma lost_expire_locks_out:
  assumes "user \<noteq> []" "live_counter (rl_now c) (rate_key user) db = None" "rl_incr c = Performed" "rl_expire c = NotSent"
    and "limit \<le> 1 + int (length (filter (\<lambda>c. rl_incr c \<noteq> NotSent) cs))" "rl_incr c' = Performed"
  shows "\<exists>hs b. snd (rate_limit_middleware limit window c' \<lparr>lq_user = user, lq_upgrade = u\<rparr>
     (fst (window_run limit window user (c # cs) db))) = Refused 429 hs b"
proof -
  obtain db1 r where s: "rate_limit_middleware limit window c \<lparr>lq_user = user, lq_upgrade = []\<rparr> db = (db1, r)" by fastforce
  obtain db2 q where run: "window_run limit window user cs db1 = (db2, q)" by fastforce
  have "db1 (rate_key user) = Some (1, None)" using middleware_on_dead [OF assms(2,1) s] assms(3,4) by simp
  then obtain m where m: "db2 (rate_key user) = Some (m, None)" "limit \<le> m" "1 \<le> m"
    using window_run_live [OF _ _ assms(1) _ run, of 1 None] assms(5) by auto
  obtain db3 r3 where s3: "rate_limit_middleware limit window c' \<lparr>lq_user = user, lq_upgrade = u\<rparr> db2 = (db3, r3)" by fastforce
  have "live_counter (rl_now c') (rate_key user) db2 = Some (m, None)" using m(1) by (simp add: live_counter_def)
  then show ?thesis using middleware_on_live [OF _ assms(1) m(3) s3] m(2) assms(6) s run s3 by simp
qed

section \<open>Connection slots\<close>

text \<open>The middleware of the sync service over the requests of all users; nothing there releases a slot.\<close>

fun connection_run :: "(limit_call \<times> limited_request) list \<Rightarrow> counters \<Rightarrow> counters" where
  "connection_run [] db = db"
| "connection_run ((c, req) # rs) db = connection_run rs (fst (with_rate_limits default_rate_limits c req db))"

abbreviation (input) conn_key :: "string \<Rightarrow> string" where
  "conn_key user \<equiv> connection_key (new_connection_limiter 1) user"

lemma conn_key_inject [simp]: "conn_key a = conn_key b \<longleftrightarrow> a = b"
  by (simp add: connection_key_def)

lemma with_rate_limits_other:
  "lq_user req \<noteq> user \<Longrightarrow> fst (with_rate_limits limits c req db) (connection_key (new_connection_limiter (rs_connections limits)) user) =
     db (connection_key (new_connection_limiter (rs_connections limits)) user)"
  by (auto simp: with_rate_limits_def acquire_connection_def call_incr_def call_expire_def call_decr_def add_counter_def
      expire_counter_def connection_key_def Let_def split: option.split prod.split)

lemma acquire_on_live:
  assumes "live_counter (rl_now c) (conn_key user) db = Some (n, e)" "1 \<le> n"
    and "acquire_connection (new_connection_limiter 1) c user db = (db', ok)"
  shows "(\<exists>m \<ge> 1. db' (conn_key user) = Some (m, e)) \<and> (rl_incr c = Performed \<longrightarrow> \<not> ok)"
proof (cases "rl_incr c = NotSent")
  case True
  have "db (conn_key user) = Some (n, e)" using assms(1) by (auto simp: live_counter_def split: option.splits if_splits)
  then show ?thesis using assms True by (auto simp: acquire_connection_def call_incr_def)
next
  case False
  have e: "case e of None \<Rightarrow> True | Some t \<Rightarrow> rl_now c < t"
    using assms(1) by (auto simp: live_counter_def split: option.splits if_splits)
  show ?thesis
    using assms(1,2,3) False e
    by (auto simp: acquire_connection_def call_incr_def call_decr_def add_counter_def new_connection_limiter_def live_counter_def
        Let_def split: if_splits option.splits)
qed

lemma acquire_on_dead:
  assumes "live_counter (rl_now c) (conn_key user) db = None" "rl_incr c = Performed"
    and "acquire_connection (new_connection_limiter 1) c user db = (db', ok)"
  shows "ok \<and> (\<exists>e. db' (conn_key user) = Some (1, e) \<and> (e = None \<or> rl_expire c \<noteq> NotSent \<and> e = Some (rl_now c + 2 * hour_ns)))"
  using assms
  by (auto simp: acquire_connection_def call_incr_def call_expire_def add_counter_def expire_counter_def
      new_connection_limiter_def live_counter_def Let_def split: if_splits)

lemma connection_run_live:
  assumes "db (conn_key user) = Some (n, e)" "1 \<le> n"
    and "\<And>c req. (c, req) \<in> set rs \<Longrightarrow> e = None \<or> (\<exists>t. e = Some t \<and> rl_now c < t)"
  shows "\<exists>m \<ge> 1. connection_run rs db (conn_key user) = Some (m, e)"
  using assms
proof (induction rs arbitrary: db n)
  case (Cons x rs)
  obtain c req where x: "x = (c, req)" by (cases x)
  obtain db1 r where s: "with_rate_limits default_rate_limits c req db = (db1, r)" by fastforce
  have "\<exists>m \<ge> 1. db1 (conn_key user) = Some (m, e)"
  proof (cases "lq_user req = user \<and> is_web_socket_request req \<and> user \<noteq> []")
    case True
    obtain ok where "acquire_connection (new_connection_limiter 1) c user db = (db1, ok)"
      using s True by (auto simp: with_rate_limits_def default_rate_limits_def split: prod.splits bool.splits)
    moreover have "live_counter (rl_now c) (conn_key user) db = Some (n, e)"
      using Cons.prems(1) Cons.prems(3) [of c req] x by (auto simp: live_counter_def)
    ultimately show ?thesis using acquire_on_live Cons.prems(2) by blast
  next
    case False
    have "db1 (conn_key user) = db (conn_key user)"
    proof (cases "lq_user req = user")
      case True
      then show ?thesis using s False by (auto simp: with_rate_limits_def)
    next
      case other: False
      then show ?thesis using s with_rate_limits_other [OF other, of default_rate_limits c db] by (simp add: default_rate_limits_def)
    qed
    then show ?thesis using Cons.prems(1,2) by auto
  qed
  then obtain m where "1 \<le> m" "db1 (conn_key user) = Some (m, e)" by blast
  then have "\<exists>m \<ge> 1. connection_run rs db1 (conn_key user) = Some (m, e)"
    using Cons.prems(3) by (intro Cons.IH) auto
  then show ?case using s x by simp
qed auto

text \<open>
  C5: The first WebSocket request of a user takes the only slot, and nothing gives it back: whatever is
  requested meanwhile, every further WebSocket request that names this user within two hours is refused with
  429 when its INCR is answered, and without end when the EXPIRE of the first was lost.
\<close>

theorem connection_slot_is_never_freed:
  assumes "user \<noteq> []" "lq_user req = user" "is_web_socket_request req" "lq_user req' = user" "is_web_socket_request req'"
    and "live_counter (rl_now c) (conn_key user) db = None" "rl_incr c = Performed" "rl_incr c' = Performed"
    and "rl_expire c = NotSent \<or> (\<forall>t \<in> rl_now ` fst ` set rs \<union> {rl_now c'}. t < rl_now c + 2 * hour_ns)"
  shows "snd (with_rate_limits default_rate_limits c req db) = PassedOn [] \<and>
    (\<exists>hs b. snd (with_rate_limits default_rate_limits c' req'
       (connection_run rs (fst (with_rate_limits default_rate_limits c req db)))) = Refused 429 hs b)"
proof
  let ?db1 = "fst (with_rate_limits default_rate_limits c req db)"
  obtain db1 ok where a1: "acquire_connection (new_connection_limiter 1) c user db = (db1, ok)" by fastforce
  note dead = acquire_on_dead [OF assms(6,7) a1]
  then have first: "with_rate_limits default_rate_limits c req db = (db1, PassedOn [])"
    using a1 assms(1-3) by (simp add: with_rate_limits_def default_rate_limits_def)
  then show "snd (with_rate_limits default_rate_limits c req db) = PassedOn []" by simp
  obtain e where e: "?db1 (conn_key user) = Some (1, e)" "e = None \<or> rl_expire c \<noteq> NotSent \<and> e = Some (rl_now c + 2 * hour_ns)"
    using dead first by auto
  have times: "e = None \<or> (\<exists>t. e = Some t \<and> rl_now d < t)" if "d \<in> fst ` set rs \<union> {c'}" for d
    using e(2) assms(9) that by auto
  have "\<exists>m \<ge> 1. connection_run rs ?db1 (conn_key user) = Some (m, e)"
  proof (rule connection_run_live)
    show "?db1 (conn_key user) = Some (1, e)" by (rule e(1))
    show "e = None \<or> (\<exists>t. e = Some t \<and> rl_now d < t)" if "(d, r) \<in> set rs" for d r
      using times [of d] that by force
  qed simp
  then obtain m where m: "1 \<le> m" "connection_run rs ?db1 (conn_key user) = Some (m, e)" by blast
  obtain db3 ok where a: "acquire_connection (new_connection_limiter 1) c' user (connection_run rs ?db1) = (db3, ok)" by fastforce
  have "live_counter (rl_now c') (conn_key user) (connection_run rs ?db1) = Some (m, e)"
    using m(2) times [of c'] by (auto simp: live_counter_def)
  then have "\<not> ok" using acquire_on_live [OF _ m(1) a] assms(8) by blast
  then show "\<exists>hs b. snd (with_rate_limits default_rate_limits c' req' (connection_run rs ?db1)) = Refused 429 hs b"
    using a assms(1,4,5) by (simp add: with_rate_limits_def default_rate_limits_def)
qed

section \<open>Examples\<close>

definition ex_limit_call :: "instant \<Rightarrow> call_fate \<Rightarrow> limit_call" where
  "ex_limit_call now fate = \<lparr>rl_now = now, rl_incr = Performed, rl_expire = fate, rl_decr = Performed\<rparr>"

lemma window_example:
  "snd (window_run 2 60 ''u'' (map (\<lambda>t. ex_limit_call t Performed) [0, 1, 2, 3]) Map.empty) = 2"
  by code_simp

theorem window_bounds_requests_witness:
  "int (snd (window_run 2 60 ''u'' (map (\<lambda>t. ex_limit_call t Performed) [0, 1, 2, 3]) Map.empty)) \<le> 2"
proof -
  have "int (snd (window_run 2 60 ''u'' (map (\<lambda>t. ex_limit_call t Performed) [0, 1, 2, 3]) Map.empty)) \<le> max 0 2"
    by (rule window_bounds_requests [where t = 0]) (auto simp: ex_limit_call_def live_counter_def)
  then show ?thesis by (simp del: window_run.simps list.map)
qed

lemma lost_expire_locks_out_witness:
  "\<exists>hs b. snd (rate_limit_middleware 1 60 (ex_limit_call 1000000 Performed) \<lparr>lq_user = ''u'', lq_upgrade = ''''\<rparr>
     (fst (window_run 1 60 ''u'' [ex_limit_call 0 NotSent] Map.empty))) = Refused 429 hs b"
  by (rule lost_expire_locks_out) (simp_all add: ex_limit_call_def live_counter_def)

theorem connection_slot_is_never_freed_witness:
  "let db1 = fst (with_rate_limits default_rate_limits (ex_limit_call 0 Performed) \<lparr>lq_user = ''u'', lq_upgrade = ''websocket''\<rparr> Map.empty)
   in snd (with_rate_limits default_rate_limits (ex_limit_call 0 Performed) \<lparr>lq_user = ''u'', lq_upgrade = ''websocket''\<rparr> Map.empty) =
        PassedOn [] \<and>
      (\<exists>hs b. snd (with_rate_limits default_rate_limits (ex_limit_call (60 * minute_ns) Performed)
         \<lparr>lq_user = ''u'', lq_upgrade = ''websocket''\<rparr> db1) = Refused 429 hs b)"
  using connection_slot_is_never_freed [of "''u''" "\<lparr>lq_user = ''u'', lq_upgrade = ''websocket''\<rparr>" "\<lparr>lq_user = ''u'', lq_upgrade = ''websocket''\<rparr>"
      "ex_limit_call 0 Performed" Map.empty "ex_limit_call (60 * minute_ns) Performed" "[]"]
  by (simp add: ex_limit_call_def live_counter_def is_web_socket_request_def Let_def)

end
