(* ===== verification/Log_Sanitizer.thy ===== *)
theory Log_Sanitizer
  imports Go_Json
begin

text \<open>
  The redaction of log fields (\<open>src/ingestion/internal/logutil/sanitizer.go\<close>, with equal copies in the
  other services). SHA-256 and the value of the variable ENV are arguments; a field is its JSON tree.
\<close>

definition is_production :: "string \<Rightarrow> bool" where
  "is_production e \<longleftrightarrow> to_lower e = ''production'' \<or> to_lower e = ''staging''"

definition is_development :: "string \<Rightarrow> bool" where
  "is_development e \<longleftrightarrow> to_lower e = ''development'' \<or> to_lower e = ''local'' \<or> to_lower e = []"

record log_env =
  le_env :: string
  le_sha :: "bytes \<Rightarrow> bytes"

text \<open>The first bytes of the digest of a text, in hexadecimal.\<close>

definition digest_prefix :: "log_env \<Rightarrow> nat \<Rightarrow> string \<Rightarrow> string" where
  "digest_prefix l n s = hex_encode (take n (le_sha l (bytes_of s)))"

definition redact_subject :: "log_env \<Rightarrow> string \<Rightarrow> string" where
  "redact_subject l s =
     (if is_development (le_env l) then s
      else if length s \<le> 20 then s
      else take 20 s @ ''... ['' @ digest_prefix l 4 s @ '']'')"

definition redact_email :: "log_env \<Rightarrow> string \<Rightarrow> string" where
  "redact_email l s =
     (if is_development (le_env l) then s
      else (case split_on (CHR ''@'') s of
              [name, domain] \<Rightarrow> ''['' @ digest_prefix l 4 name @ ''...]@'' @ domain
            | _ \<Rightarrow> ''[REDACTED]''))"

definition redact_body :: "log_env \<Rightarrow> string \<Rightarrow> string" where
  "redact_body l s =
     (if is_development (le_env l) then s
      else if s = [] then []
      else ''[REDACTED:'' @ digest_prefix l 8 s @ '']'')"

definition redact_generic :: "log_env \<Rightarrow> string \<Rightarrow> nat \<Rightarrow> string" where
  "redact_generic l s n =
     (if is_development (le_env l) then s
      else if s = [] then []
      else if 0 < n \<and> length s \<le> n then s
      else take n s @ ''... [REDACTED:'' @ digest_prefix l 8 s @ '']'')"

definition body_keys :: "string list" where
  "body_keys = [''body_text'', ''body_html'', ''body'', ''content'', ''text'']"

definition address_keys :: "string list" where
  "address_keys = [''sender_email'', ''from'', ''sender'', ''recipient_emails'', ''to'']"

definition instruction_keys :: "string list" where
  "instruction_keys = [''instruction'', ''user_input'', ''transcription'', ''message'']"

text \<open>A value of one of these keys that is no text is replaced as a whole, except a subject.\<close>

definition redact_string :: "(string \<Rightarrow> string) \<Rightarrow> json \<Rightarrow> json \<Rightarrow> json" where
  "redact_string f other v = (case v of JStr s \<Rightarrow> JStr (f s) | _ \<Rightarrow> other)"

definition sanitize_field :: "log_env \<Rightarrow> string \<Rightarrow> json \<Rightarrow> json" where
  "sanitize_field l k v =
     (let key = to_lower k; gone = JStr ''[REDACTED]''
      in if key \<in> set body_keys then redact_string (redact_body l) gone v
         else if key = ''subject'' then redact_string (redact_subject l) v v
         else if key \<in> set address_keys then redact_string (redact_email l) gone v
         else if key = ''attachment_s3_uris'' then JStr ''[REDACTED:s3_paths]''
         else if key \<in> set instruction_keys then redact_string (\<lambda>s. redact_generic l s 20) gone v
         else v)"

definition sanitize_map :: "log_env \<Rightarrow> (string \<times> json) list \<Rightarrow> (string \<times> json) list" where
  "sanitize_map l members =
     (if is_development (le_env l) then members else map (\<lambda>(k, v). (k, sanitize_field l k v)) members)"

definition sanitize_any_map :: "log_env \<Rightarrow> (string \<times> json) list \<Rightarrow> (string \<times> json) list" where
  "sanitize_any_map l members = sanitize_map l members"

text \<open>
  Outside development two texts with the same digest leave the same body, and the sanitizer changes
  neither the keys nor the other members.
\<close>

lemma redact_body_hides:
  "\<not> is_development (le_env l) \<Longrightarrow> le_sha l (bytes_of s) = le_sha l (bytes_of t) \<Longrightarrow> s \<noteq> [] \<Longrightarrow> t \<noteq> [] \<Longrightarrow>
   redact_body l s = redact_body l t"
  by (simp add: redact_body_def digest_prefix_def)

lemma redact_email_hides_name:
  assumes "\<not> is_development (le_env l)" "CHR ''@'' \<notin> set a" "CHR ''@'' \<notin> set b" "CHR ''@'' \<notin> set d"
    and "le_sha l (bytes_of a) = le_sha l (bytes_of b)"
  shows "redact_email l (a @ CHR ''@'' # d) = redact_email l (b @ CHR ''@'' # d)"
proof -
  have "split_on (CHR ''@'') (x @ CHR ''@'' # d) = [x, d]" if "CHR ''@'' \<notin> set x" for x
    using that assms(4) by (induction x) (auto simp: split_on_no_sep)
  then show ?thesis using assms by (simp add: redact_email_def digest_prefix_def)
qed

lemma sanitize_map_keys: "map fst (sanitize_map l members) = map fst members"
  by (auto simp: sanitize_map_def)

text \<open>A subject of at most 20 characters is logged as it is, in every environment.\<close>

lemma short_subject_stays: "length s \<le> 20 \<Longrightarrow> sanitize_field l ''subject'' (JStr s) = JStr s"
proof -
  assume "length s \<le> 20"
  moreover have "to_lower ''subject'' = ''subject''" by code_simp
  moreover have "''subject'' \<notin> set body_keys" by code_simp
  ultimately show ?thesis by (simp add: sanitize_field_def redact_string_def redact_subject_def)
qed

text \<open>Nested members are not looked at.\<close>

lemma nested_body_stays:
  "sanitize_map \<lparr>le_env = ''production'', le_sha = id\<rparr> [(''mail'', JObj [(''body'', JStr ''secret'')])] =
     [(''mail'', JObj [(''body'', JStr ''secret'')])]"
proof -
  have "sanitize_field l ''mail'' v = v" for l v
  proof -
    have "to_lower ''mail'' = ''mail''" "''mail'' \<notin> set body_keys" "''mail'' \<notin> set address_keys" "''mail'' \<notin> set instruction_keys"
      by code_simp+
    then show ?thesis by (simp add: sanitize_field_def)
  qed
  then show ?thesis by (simp add: sanitize_map_def)
qed

end
