(* ===== verification/Ws_Session.thy ===== *)
theory Ws_Session
  imports Hub Go_Json Decision_Store
begin

text \<open>
  What a WebSocket client says and hears: the events of \<open>src/sync/internal/websocket/events.go\<close>, the
  drafting sessions of \<open>session.go\<close>, and the routing of a message to them (\<open>handleMessage\<close> of
  \<open>handler.go\<close>). The session store is an argument, a record of its operations over a state of any type;
  the stand-in that \<open>cmd/server/main.go\<close> passes is \<open>no_op_store\<close>. JSON texts are arguments.
\<close>

section \<open>Events\<close>

record server_event =
  sv_type :: string
  sv_card :: uuid
  sv_payload :: "json option"
  sv_time :: instant

record client_event =
  cv_type :: string
  cv_card :: uuid
  cv_text :: string
  cv_trigger :: string
  cv_cursor :: int
  cv_time :: instant

record session_event =
  wv_type :: string
  wv_card :: uuid
  wv_text :: string
  wv_time :: instant

definition server_event_of :: "string \<Rightarrow> instant \<Rightarrow> uuid \<Rightarrow> json \<Rightarrow> server_event" where
  "server_event_of t now cid p = \<lparr>sv_type = t, sv_card = cid, sv_payload = Some p, sv_time = now\<rparr>"

definition paragraph_payload :: "string \<Rightarrow> string \<Rightarrow> bool \<Rightarrow> string \<Rightarrow> json" where
  "paragraph_payload pid chunk final full =
     JObj [(''paragraph_id'', JStr pid), (''chunk'', JStr chunk), (''is_final'', JBool final), (''full_text'', JStr full)]"

definition new_paragraph_stream_event :: "instant \<Rightarrow> uuid \<Rightarrow> json \<Rightarrow> server_event" where
  "new_paragraph_stream_event = server_event_of ''paragraph_stream''"

definition new_draft_updated_event :: "(uuid \<Rightarrow> string) \<Rightarrow> instant \<Rightarrow> uuid \<Rightarrow> uuid \<Rightarrow> string \<Rightarrow> string \<Rightarrow> server_event" where
  "new_draft_updated_event show_id now cid draft body device =
     server_event_of ''draft_updated'' now cid
       (JObj [(''draft_id'', JStr (show_id draft)), (''draft_body'', JStr body), (''edited_by'', JStr device)])"

definition new_card_state_changed_event :: "instant \<Rightarrow> uuid \<Rightarrow> string \<Rightarrow> string \<Rightarrow> server_event" where
  "new_card_state_changed_event now cid old new =
     server_event_of ''card_state_changed'' now cid (JObj [(''old_state'', JStr old), (''new_state'', JStr new)])"

definition new_ws_error_event :: "instant \<Rightarrow> uuid \<Rightarrow> string \<Rightarrow> string \<Rightarrow> bool \<Rightarrow> server_event" where
  "new_ws_error_event now cid code msg retry =
     server_event_of ''error'' now cid (JObj [(''code'', JStr code), (''message'', JStr msg), (''retry'', JBool retry)])"

definition new_pong_event :: "instant \<Rightarrow> uuid \<Rightarrow> server_event" where
  "new_pong_event now cid = \<lparr>sv_type = ''pong'', sv_card = cid, sv_payload = None, sv_time = now\<rparr>"

definition new_sync_trigger_event :: "instant \<Rightarrow> uuid \<Rightarrow> server_event" where
  "new_sync_trigger_event now cid = \<lparr>sv_type = ''sync_trigger'', sv_card = cid, sv_payload = None, sv_time = now\<rparr>"

definition is_client_event_type :: "string \<Rightarrow> bool" where
  "is_client_event_type t \<longleftrightarrow> t \<in> {''spawn'', ''accept'', ''edit'', ''delegate'', ''ping''}"

definition is_server_event_type :: "string \<Rightarrow> bool" where
  "is_server_event_type t \<longleftrightarrow>
     t \<in> {''paragraph_stream'', ''paragraph_complete'', ''draft_updated'', ''card_state_changed'', ''error'', ''typing'', ''sync_trigger'', ''pong''}"

definition requires_card_id :: "string \<Rightarrow> bool" where
  "requires_card_id t \<longleftrightarrow>
     t \<in> {''spawn'', ''accept'', ''edit'', ''delegate'', ''paragraph_stream'', ''draft_updated'', ''card_state_changed''}"

section \<open>Store and engine\<close>

text \<open>The operations of \<open>SessionStore\<close> that sessions use: the new state and the error, if any.\<close>

record 's session_store =
  so_update_draft :: "uuid \<Rightarrow> uuid \<Rightarrow> string \<Rightarrow> 's \<Rightarrow> 's \<times> string option"
  so_staged_rule :: "uuid \<Rightarrow> uuid \<Rightarrow> string \<Rightarrow> 's \<Rightarrow> 's \<times> (string + uuid)"
  so_update_state :: "uuid \<Rightarrow> uuid \<Rightarrow> string \<Rightarrow> 's \<Rightarrow> 's \<times> string option"

definition no_op_store :: "'s session_store" where
  "no_op_store =
     \<lparr>so_update_draft = (\<lambda>cid user body s. (s, Some ''session store not configured'')),
      so_staged_rule = (\<lambda>cid user kind s. (s, Inl ''session store not configured'')),
      so_update_state = (\<lambda>cid user state s. (s, Some ''session store not configured''))\<rparr>"

text \<open>
  What the \<open>select\<close> of \<open>handleSpawn\<close> receives, in order: chunks, the end of the stream, a value of the
  error channel (no error once it is closed), or the end of the 30 seconds.
\<close>

datatype spawn_signal = Chunk string bool | StreamClosed | ErrSignal "string option" | TimedOut

text \<open>
  The stand-in engine closes an empty stream beside its error: the \<open>select\<close> takes either of them first.
\<close>

definition no_op_engine :: "spawn_signal list list" where
  "no_op_engine = [[StreamClosed], [ErrSignal (Some ''spawn engine not configured'')]]"

section \<open>Sessions\<close>

record sending_session =
  sn_card :: uuid
  sn_user :: uuid
  sn_draft :: uuid
  sn_body :: string
  sn_device :: string

definition new_sending_session :: "uuid \<Rightarrow> uuid \<Rightarrow> string \<Rightarrow> sending_session" where
  "new_sending_session cid user device =
     \<lparr>sn_card = cid, sn_user = user, sn_draft = uuid_nil, sn_body = [], sn_device = device\<rparr>"

record session_env =
  sz_now :: instant
  sz_show :: "uuid \<Rightarrow> string"
  sz_encode :: "json \<Rightarrow> string"
  sz_paragraph :: string
  sz_signals :: "spawn_signal list"

text \<open>The event handed to the hub: the payload travels as text.\<close>

definition to_ws_event :: "session_env \<Rightarrow> server_event \<Rightarrow> session_event" where
  "to_ws_event env e =
     \<lparr>wv_type = sv_type e, wv_card = sv_card e,
      wv_text = (case sv_payload e of None \<Rightarrow> [] | Some p \<Rightarrow> sz_encode env p), wv_time = sv_time e\<rparr>"

text \<open>\<open>handleSpawn\<close> from the first signal on, for the card of the session and the one of the event; \<open>None\<close> while it still waits for the next one.\<close>

fun spawn_loop :: "session_env \<Rightarrow> uuid \<Rightarrow> uuid \<Rightarrow> spawn_signal list \<Rightarrow> string \<Rightarrow> (server_event list \<times> string option) option" where
  "spawn_loop env cid ecid [] full = None"
| "spawn_loop env cid ecid (Chunk t final # ss) full =
     (let e = new_paragraph_stream_event (sz_now env) cid (paragraph_payload (sz_paragraph env) t final (full @ t))
      in if final then Some ([e], None)
         else map_option (\<lambda>(es, r). (e # es, r)) (spawn_loop env cid ecid ss (full @ t)))"
| "spawn_loop env cid ecid (StreamClosed # ss) full =
     Some ([server_event_of ''paragraph_complete'' (sz_now env) ecid (paragraph_payload (sz_paragraph env) [] True full)], None)"
| "spawn_loop env cid ecid (ErrSignal None # ss) full = spawn_loop env cid ecid ss full"
| "spawn_loop env cid ecid (ErrSignal (Some e) # ss) full =
     Some ([new_ws_error_event (sz_now env) cid ''spawn_failed'' e True], Some (''spawn generation failed: '' @ e))"
| "spawn_loop env cid ecid (TimedOut # ss) full =
     Some ([new_ws_error_event (sz_now env) cid ''spawn_timeout'' ''Paragraph generation timed out'' True],
       Some ''spawn generation timed out'')"

text \<open>An event handler: the session and the store it leaves, what it broadcasts, and its error.\<close>

type_synonym 's handled = "sending_session \<times> 's \<times> server_event list \<times> string option"

definition handle_spawn :: "session_env \<Rightarrow> client_event \<Rightarrow> sending_session \<Rightarrow> 's \<Rightarrow> 's handled option" where
  "handle_spawn env ev s st =
     map_option (\<lambda>(es, r). (s, st, es, r)) (spawn_loop env (sn_card s) (cv_card ev) (sz_signals env) [])"

definition save_draft :: "'s session_store \<Rightarrow> session_env \<Rightarrow> sending_session \<Rightarrow> 's \<Rightarrow> 's handled" where
  "save_draft store env s st =
     (case so_update_draft store (sn_card s) (sn_user s) (sn_body s) st of
        (st', Some e) \<Rightarrow>
          (s, st', [new_ws_error_event (sz_now env) (sn_card s) ''draft_save_failed'' ''Failed to save draft'' True],
           Some (''update draft body: '' @ e))
      | (st', None) \<Rightarrow>
          (s, st', [new_draft_updated_event (sz_show env) (sz_now env) (sn_card s) (sn_draft s) (sn_body s) (sn_device s)], None))"

definition line_break :: string where "line_break = [CHR 0x0A, CHR 0x0A]"

definition append_text :: "string \<Rightarrow> string \<Rightarrow> string" where
  "append_text body t = (if body \<noteq> [] then body @ line_break @ t else t)"

definition handle_accept :: "'s session_store \<Rightarrow> session_env \<Rightarrow> client_event \<Rightarrow> sending_session \<Rightarrow> 's \<Rightarrow> 's handled" where
  "handle_accept store env ev s st =
     (if cv_text ev = [] then (s, st, [], Some ''accept event requires text'')
      else save_draft store env (s\<lparr>sn_body := append_text (sn_body s) (cv_text ev)\<rparr>) st)"

definition handle_edit :: "'s session_store \<Rightarrow> session_env \<Rightarrow> client_event \<Rightarrow> sending_session \<Rightarrow> 's \<Rightarrow> 's handled" where
  "handle_edit store env ev s st = save_draft store env (s\<lparr>sn_body := cv_text ev\<rparr>) st"

text \<open>The error of the state change is only logged.\<close>

definition handle_delegate :: "'s session_store \<Rightarrow> session_env \<Rightarrow> client_event \<Rightarrow> sending_session \<Rightarrow> 's \<Rightarrow> 's handled" where
  "handle_delegate store env ev s st =
     (case so_staged_rule store (sn_card s) (sn_user s) (cv_trigger ev) st of
        (st1, Inl e) \<Rightarrow>
          (s, st1, [new_ws_error_event (sz_now env) (sn_card s) ''delegate_failed'' ''Failed to create staged rule'' False],
           Some (''create staged rule: '' @ e))
      | (st1, Inr rule) \<Rightarrow>
          (s, fst (so_update_state store (sn_card s) (sn_user s) ''approved'' st1),
           [new_card_state_changed_event (sz_now env) (sn_card s) ''consulting'' ''approved''], None))"

definition handle_event :: "'s session_store \<Rightarrow> session_env \<Rightarrow> client_event \<Rightarrow> sending_session \<Rightarrow> 's \<Rightarrow> 's handled option" where
  "handle_event store env ev s st =
     (if cv_type ev = ''spawn'' then handle_spawn env ev s st
      else if cv_type ev = ''accept'' then Some (handle_accept store env ev s st)
      else if cv_type ev = ''edit'' then Some (handle_edit store env ev s st)
      else if cv_type ev = ''delegate'' then Some (handle_delegate store env ev s st)
      else Some (s, st, [], Some (''unsupported event type: '' @ cv_type ev)))"

section \<open>Messages of a client\<close>

text \<open>
  A connection: its identity, its sessions by card, the hub with its send channel, the store behind the
  sessions, and the events its sessions handed to \<open>BroadcastToUser\<close>.
\<close>

record 's ws_client =
  wz_client :: client
  wz_user :: uuid
  wz_device :: string
  wz_sessions :: "uuid \<rightharpoonup> sending_session"
  wz_hub :: hub
  wz_store :: 's
  wz_broadcasts :: "session_event list"

text \<open>A message is handled, crashes the process, or still waits for the engine.\<close>

datatype 's ws_outcome = WsOk "'s ws_client" | WsPanic | WsWaits

record ws_codec =
  wc_decode :: "string \<Rightarrow> client_event option"
  wc_encode :: "server_event \<Rightarrow> string"

text \<open>The non-blocking send on the channel of the client: a full one drops the message, a closed one panics.\<close>

definition send_event :: "ws_codec \<Rightarrow> server_event \<Rightarrow> 's ws_client \<Rightarrow> 's ws_outcome" where
  "send_event codec e w =
     (case try_send (wz_client w) (wc_encode codec e) (wz_hub w) of
        Sent h \<Rightarrow> WsOk (w\<lparr>wz_hub := h\<rparr>)
      | Full \<Rightarrow> WsOk w
      | SendPanic \<Rightarrow> WsPanic)"

definition send_error :: "ws_codec \<Rightarrow> session_env \<Rightarrow> uuid \<Rightarrow> string \<Rightarrow> string \<Rightarrow> bool \<Rightarrow> 's ws_client \<Rightarrow> 's ws_outcome" where
  "send_error codec env cid code msg retry = send_event codec (new_ws_error_event (sz_now env) cid code msg retry)"

definition get_or_create_session :: "uuid \<Rightarrow> 's ws_client \<Rightarrow> sending_session" where
  "get_or_create_session cid w =
     (case wz_sessions w cid of Some s \<Rightarrow> s | None \<Rightarrow> new_sending_session cid (wz_user w) (wz_device w))"

definition handle_client_message ::
  "ws_codec \<Rightarrow> 's session_store \<Rightarrow> session_env \<Rightarrow> string \<Rightarrow> 's ws_client \<Rightarrow> 's ws_outcome" where
  "handle_client_message codec store env data w =
     (case wc_decode codec data of
        None \<Rightarrow> WsOk w
      | Some ev \<Rightarrow>
          if \<not> is_client_event_type (cv_type ev)
          then send_error codec env (cv_card ev) ''invalid_event_type'' (''event type '' @ cv_type ev @ '' not supported'') False w
          else if cv_type ev = ''ping'' then send_event codec (new_pong_event (sz_now env) (cv_card ev)) w
          else if requires_card_id (cv_type ev) \<and> cv_card ev = uuid_nil
          then send_error codec env uuid_nil ''missing_card_id'' ''card_id is required for this event type'' False w
          else (case handle_event store env ev (get_or_create_session (cv_card ev) w) (wz_store w) of
                  None \<Rightarrow> WsWaits
                | Some (s, st, es, r) \<Rightarrow>
                    (let w' = w\<lparr>wz_sessions := (wz_sessions w)(cv_card ev \<mapsto> s), wz_store := st,
                               wz_broadcasts := wz_broadcasts w @ map (to_ws_event env) es\<rparr>
                     in case r of None \<Rightarrow> WsOk w'
                        | Some e \<Rightarrow> send_error codec env (cv_card ev) ''handler_error'' e True w')))"

section \<open>Drafts\<close>

lemma save_draft_session: "save_draft store env s st = (s', st', es, r) \<Longrightarrow> s' = s"
  by (auto simp: save_draft_def split: prod.splits option.splits)

lemma save_draft_update:
  "save_draft store env s st = (s', st', es, r) \<Longrightarrow>
   \<exists>e. so_update_draft store (sn_card s) (sn_user s) (sn_body s) st = (st', e) \<and> (e = None \<longleftrightarrow> r = None)"
  by (auto simp: save_draft_def split: prod.splits option.splits)

text \<open>
  The contract of the store that \<open>SessionStore.UpdateDraftBody\<close> states: after an update without error
  the draft reads as it was written, and other drafts as before.
\<close>

locale draft_store =
  fixes update :: "uuid \<Rightarrow> uuid \<Rightarrow> string \<Rightarrow> 's \<Rightarrow> 's \<times> string option"
    and draft_of :: "uuid \<Rightarrow> uuid \<Rightarrow> 's \<Rightarrow> string option"
  assumes update_written: "update cid user body st = (st', None) \<Longrightarrow> draft_of cid user st' = Some body"
    and update_others:
      "update cid user body st = (st', e) \<Longrightarrow> (cid', user') \<noteq> (cid, user) \<Longrightarrow> draft_of cid' user' st' = draft_of cid' user' st"
begin

lemma save_written:
  "so_update_draft store = update \<Longrightarrow> save_draft store env s st = (s', st', es, None) \<Longrightarrow>
   draft_of (sn_card s) (sn_user s) st' = Some (sn_body s)"
  by (drule save_draft_update) (auto intro: update_written)

lemma save_others:
  "so_update_draft store = update \<Longrightarrow> save_draft store env s st = (s', st', es, r) \<Longrightarrow>
   (cid, user) \<noteq> (sn_card s, sn_user s) \<Longrightarrow> draft_of cid user st' = draft_of cid user st"
  by (drule save_draft_update) (elim exE conjE, rule update_others, simp_all)

end

text \<open>The text a session gives a draft, from the texts it accepted and the bodies it was edited to.\<close>

datatype draft_op = Accepted string | Edited string

fun draft_text :: "draft_op list \<Rightarrow> string \<Rightarrow> string" where
  "draft_text [] body = body"
| "draft_text (Accepted t # ops) body = draft_text ops (append_text body t)"
| "draft_text (Edited t # ops) body = draft_text ops t"

definition op_event :: "session_env \<Rightarrow> uuid \<Rightarrow> draft_op \<Rightarrow> client_event" where
  "op_event env cid p =
     (case p of
        Accepted t \<Rightarrow> \<lparr>cv_type = ''accept'', cv_card = cid, cv_text = t, cv_trigger = [], cv_cursor = 0, cv_time = sz_now env\<rparr>
      | Edited t \<Rightarrow> \<lparr>cv_type = ''edit'', cv_card = cid, cv_text = t, cv_trigger = [], cv_cursor = 0, cv_time = sz_now env\<rparr>)"

definition op_fits :: "draft_op \<Rightarrow> bool" where
  "op_fits p \<longleftrightarrow> p \<noteq> Accepted []"

text \<open>A run of such events on one session, with the errors of the handlers.\<close>

fun draft_run ::
  "'s session_store \<Rightarrow> session_env \<Rightarrow> draft_op list \<Rightarrow> sending_session \<Rightarrow> 's \<Rightarrow> sending_session \<times> 's \<times> string option list" where
  "draft_run store env [] s st = (s, st, [])"
| "draft_run store env (p # ps) s st =
     (case handle_event store env (op_event env (sn_card s) p) s st of
        None \<Rightarrow> (s, st, [])
      | Some (s1, st1, es, r) \<Rightarrow>
          (case draft_run store env ps s1 st1 of (s2, st2, rs) \<Rightarrow> (s2, st2, r # rs)))"

lemma handle_op:
  assumes "op_fits p"
  shows "handle_event store env (op_event env (sn_card s) p) s st = Some (save_draft store env (s\<lparr>sn_body := draft_text [p] (sn_body s)\<rparr>) st)"
  using assms by (cases p) (simp_all add: handle_event_def op_event_def handle_accept_def handle_edit_def op_fits_def)

lemma draft_run_body:
  assumes "\<forall>p \<in> set ps. op_fits p" "draft_run store env ps s st = (s', st', rs)"
  shows "s' = s\<lparr>sn_body := draft_text ps (sn_body s)\<rparr> \<and> length rs = length ps"
  using assms
proof (induction ps arbitrary: s st s' st' rs)
  case (Cons p ps)
  obtain s1 st1 es r where h: "save_draft store env (s\<lparr>sn_body := draft_text [p] (sn_body s)\<rparr>) st = (s1, st1, es, r)"
    by (rule prod_cases4)
  obtain s2 st2 rs2 where run: "draft_run store env ps s1 st1 = (s2, st2, rs2)" by (rule prod_cases3)
  have "draft_text ps (draft_text [p] (sn_body s)) = draft_text (p # ps) (sn_body s)" by (cases p) simp_all
  then show ?case
    using Cons.prems Cons.IH [OF _ run] save_draft_session [OF h] handle_op [of p store env s st] h run by auto
qed simp

context draft_store
begin

lemma run_saves:
  assumes up: "so_update_draft store = update"
    and "\<forall>p \<in> set ps. op_fits p" "draft_run store env ps s st = (s', st', rs)" "rs \<noteq> []" "last rs = None"
  shows "draft_of (sn_card s) (sn_user s) st' = Some (draft_text ps (sn_body s))"
  using assms(2-)
proof (induction ps arbitrary: s st s' st' rs)
  case (Cons p ps)
  obtain s1 st1 es r where h: "save_draft store env (s\<lparr>sn_body := draft_text [p] (sn_body s)\<rparr>) st = (s1, st1, es, r)"
    by (rule prod_cases4)
  obtain s2 st2 rs2 where run: "draft_run store env ps s1 st1 = (s2, st2, rs2)" by (rule prod_cases3)
  have s1: "s1 = s\<lparr>sn_body := draft_text [p] (sn_body s)\<rparr>" by (rule save_draft_session [OF h])
  have out: "st' = st2" "rs = r # rs2"
    using Cons.prems(1,2) handle_op [of p store env s st] h run by auto
  have two: "draft_text ps (draft_text [p] (sn_body s)) = draft_text (p # ps) (sn_body s)" by (cases p) simp_all
  show ?case
  proof (cases "ps = []")
    case True
    then have "st2 = st1" "rs2 = []" using run by simp_all
    moreover have "r = None" using Cons.prems(4) out(2) calculation(2) by simp
    ultimately show ?thesis using save_written [OF up, of env "s\<lparr>sn_body := draft_text [p] (sn_body s)\<rparr>" st s1 st1 es] h out True by (cases p) simp_all
  next
    case False
    have "length rs2 = length ps" using draft_run_body [OF _ run] Cons.prems(1) by simp
    then have "rs2 \<noteq> []" using False by auto
    then show ?thesis using Cons.IH [OF _ run] Cons.prems(1,4) out s1 two by simp
  qed
qed simp

lemma run_others:
  assumes up: "so_update_draft store = update"
    and "\<forall>p \<in> set ps. op_fits p" "draft_run store env ps s st = (s', st', rs)" "(cid, user) \<noteq> (sn_card s, sn_user s)"
  shows "draft_of cid user st' = draft_of cid user st"
  using assms(2-)
proof (induction ps arbitrary: s st s' st' rs)
  case (Cons p ps)
  obtain s1 st1 es r where h: "save_draft store env (s\<lparr>sn_body := draft_text [p] (sn_body s)\<rparr>) st = (s1, st1, es, r)"
    by (rule prod_cases4)
  obtain s2 st2 rs2 where run: "draft_run store env ps s1 st1 = (s2, st2, rs2)" by (rule prod_cases3)
  have s1: "s1 = s\<lparr>sn_body := draft_text [p] (sn_body s)\<rparr>" by (rule save_draft_session [OF h])
  have "st' = st2" using Cons.prems(1,2) handle_op [of p store env s st] h run by auto
  then show ?case
    using Cons.IH [OF _ run] Cons.prems(1,3) save_others [OF up h, of cid user] s1 by simp
qed simp

end

text \<open>
  The stand-in that the server passes keeps this contract because each update fails.
\<close>

interpretation unconfigured: draft_store "so_update_draft no_op_store" "\<lambda>cid user st. st cid user"
  by unfold_locales (auto simp: no_op_store_def)

text \<open>
  \<open>DraftStore.UpdateDraftBody\<close> of the decision package has the type of the operation, and names the
  draft where a session names its card.
\<close>

definition table_update_draft ::
  "bool \<Rightarrow> instant \<Rightarrow> (decision_error \<Rightarrow> string) \<Rightarrow> uuid \<Rightarrow> uuid \<Rightarrow> string \<Rightarrow> sync_db \<Rightarrow> sync_db \<times> string option" where
  "table_update_draft fault now err_text did user body db =
     (case ds_update_draft_body fault now did user body db of
        Inl e \<Rightarrow> (db, Some (err_text e)) | Inr db' \<Rightarrow> (db', None))"

definition table_draft :: "uuid \<Rightarrow> uuid \<Rightarrow> sync_db \<Rightarrow> string option" where
  "table_draft did user db = map_option draft_body (List.find (\<lambda>d. draft_id d = did \<and> draft_user d = user) (drafts db))"

lemma find_update_rows_key:
  "(\<And>d. q (f d) = q d) \<Longrightarrow> List.find q (update_rows p f ds) = map_option (\<lambda>d. if p d then f d else d) (List.find q ds)"
  by (induction ds) (auto simp: update_rows_def)

lemma table_update_cases:
  "table_update_draft fault now err_text did user body db = (db', e) \<Longrightarrow>
   (db' = db \<and> e \<noteq> None) \<or>
   (e = None \<and> List.find (\<lambda>d. draft_id d = did \<and> draft_user d = user) (drafts db) \<noteq> None \<and>
    db' = db\<lparr>drafts := update_rows (\<lambda>d. draft_id d = did \<and> draft_user d = user)
                         (\<lambda>d. d\<lparr>draft_body := body, draft_updated_at := now\<rparr>) (drafts db)\<rparr>)"
  by (auto simp: table_update_draft_def ds_update_draft_body_def Let_def find_None_iff split: if_splits)

interpretation draft_table: draft_store "table_update_draft fault now err_text" table_draft
proof unfold_locales
  fix did user body db db'
  assume "table_update_draft fault now err_text did user body db = (db', None)"
  then show "table_draft did user db' = Some body"
    using table_update_cases by (fastforce simp: table_draft_def find_update_rows_key dest: find_Some_iff [THEN iffD1])
next
  fix did user body db db' e did' user'
  assume "table_update_draft fault now err_text did user body db = (db', e)" and other: "(did', user') \<noteq> (did, user)"
  from table_update_cases [OF this(1)] show "table_draft did' user' db' = table_draft did' user' db"
  proof
    assume "db' = db \<and> e \<noteq> None" then show ?thesis by simp
  next
    assume *: "e = None \<and> List.find (\<lambda>d. draft_id d = did \<and> draft_user d = user) (drafts db) \<noteq> None \<and>
      db' = db\<lparr>drafts := update_rows (\<lambda>d. draft_id d = did \<and> draft_user d = user)
                         (\<lambda>d. d\<lparr>draft_body := body, draft_updated_at := now\<rparr>) (drafts db)\<rparr>"
    show ?thesis
    proof (cases "List.find (\<lambda>d. draft_id d = did' \<and> draft_user d = user') (drafts db)")
      case None
      then show ?thesis using * by (simp add: table_draft_def find_update_rows_key)
    next
      case (Some d)
      then have "draft_id d = did'" "draft_user d = user'" by (auto simp: find_Some_iff)
      then show ?thesis using * other Some by (auto simp: table_draft_def find_update_rows_key)
    qed
  qed
qed

section \<open>Properties\<close>

lemma draft_run_unconfigured:
  "\<forall>p \<in> set ps. op_fits p \<Longrightarrow>
   draft_run no_op_store env ps s st =
     (s\<lparr>sn_body := draft_text ps (sn_body s)\<rparr>, st, replicate (length ps) (Some ''update draft body: session store not configured''))"
proof (induction ps arbitrary: s)
  case (Cons p ps)
  have "draft_text ps (draft_text [p] (sn_body s)) = draft_text (p # ps) (sn_body s)" by (cases p) simp_all
  then show ?case using Cons handle_op [of p no_op_store env s st] by (simp add: save_draft_def no_op_store_def)
qed simp

text \<open>Without an engine a spawn ends well with an empty paragraph, or with the error: the runtime chooses.\<close>

lemma unconfigured_spawn_races:
  "map (\<lambda>sig. map_option snd (spawn_loop env cid ecid sig [])) no_op_engine =
     [Some None, Some (Some ''spawn generation failed: spawn engine not configured'')]"
  by (simp add: no_op_engine_def)

text \<open>However a spawn ends, the chunks before are broadcast in order, each with the text so far.\<close>

lemma spawn_streams_chunks:
  "spawn_loop env cid ecid (map (\<lambda>t. Chunk t False) ts @ ss) full = Some (es, r) \<Longrightarrow>
   \<exists>es'. es = map (\<lambda>i. new_paragraph_stream_event (sz_now env) cid
                  (paragraph_payload (sz_paragraph env) (ts ! i) False (full @ concat (take (Suc i) ts)))) [0..<length ts] @ es' \<and>
         spawn_loop env cid ecid ss (full @ concat ts) = Some (es', r)"
proof (induction ts arbitrary: full es)
  case (Cons t ts)
  then obtain es1 where one: "spawn_loop env cid ecid (map (\<lambda>t. Chunk t False) ts @ ss) (full @ t) = Some (es1, r)"
    "es = new_paragraph_stream_event (sz_now env) cid (paragraph_payload (sz_paragraph env) t False (full @ t)) # es1"
    by (auto simp: Let_def)
  then show ?case using Cons.IH [OF one(1)] by (auto simp: upt_conv_Cons map_Suc_upt [symmetric] o_def simp del: upt_Suc)
qed simp

text \<open>A failed accept has already extended the text: the retry that the answer asks for appends it again.\<close>

lemma retried_accept_doubles_text:
  "t \<noteq> [] \<Longrightarrow> draft_text [Accepted t, Accepted t] [] = t @ line_break @ t"
  by (simp add: append_text_def)

lemma delegate_announces_approval:
  "so_staged_rule store (sn_card s) (sn_user s) (cv_trigger ev) st = (st1, Inr rule) \<Longrightarrow>
   so_update_state store (sn_card s) (sn_user s) ''approved'' st1 = (st2, Some e) \<Longrightarrow>
   handle_delegate store env ev s st =
     (s, st2, [new_card_state_changed_event (sz_now env) (sn_card s) ''consulting'' ''approved''], None)"
  by (simp add: handle_delegate_def)

lemma other_sessions_kept:
  assumes "handle_client_message codec store env data w = WsOk w'" "wc_decode codec data = Some ev" "cid \<noteq> cv_card ev"
  shows "wz_sessions w' cid = wz_sessions w cid"
  using assms by (auto simp: handle_client_message_def send_error_def send_event_def Let_def
    split: if_splits option.splits prod.splits send_result.splits)

lemma send_error_closed:
  "chan_closed (channels (wz_hub w) (wz_client w)) \<Longrightarrow> send_error codec env cid code msg retry w = WsPanic"
  by (simp add: send_error_def send_event_def try_send_def Let_def)

lemma failed_event_on_closed_channel:
  assumes "wc_decode codec data = Some ev" "is_client_event_type (cv_type ev)" "cv_type ev \<noteq> ''ping''" "cv_card ev \<noteq> uuid_nil"
    and "handle_event store env ev (get_or_create_session (cv_card ev) w) (wz_store w) = Some (s, st, es, Some e)"
    and "chan_closed (channels (wz_hub w) (wz_client w))"
  shows "handle_client_message codec store env data w = WsPanic"
  using assms by (simp add: handle_client_message_def send_error_closed Let_def)

lemma replaced_channel_closed:
  "register_client owner c h = HubOk h' \<Longrightarrow> find_client (fst (owner c)) (snd (owner c)) h = Some old \<Longrightarrow>
   chan_closed (channels h' old)"
  by (auto simp: register_client_def close_channel_def close_conn_def Let_def split: prod.splits if_splits)

lemma last_save_is_stored:
  assumes "so_update_draft store = table_update_draft fault now err_text" "\<forall>p \<in> set ps. op_fits p"
    and "draft_run store env ps s db = (s', db', rs)" "rs \<noteq> []" "last rs = None"
  shows "table_draft (sn_card s) (sn_user s) db' = Some (draft_text ps (sn_body s))"
  using assms by (rule draft_table.run_saves)

text \<open>
  C2: drafting over the WebSocket never saves anything in the server as it is started: with the store
  that \<open>main.go\<close> passes, a session that accepts and edits texts builds up the draft in memory, every one
  of these events is answered by an error that asks for a retry, and the store stays as it was.
\<close>
theorem drafting_never_persists:
  assumes "\<forall>p \<in> set ps. op_fits p"
  shows "draft_run no_op_store env ps s st =
     (s\<lparr>sn_body := draft_text ps (sn_body s)\<rparr>, st, replicate (length ps) (Some ''update draft body: session store not configured''))"
  using assms by (rule draft_run_unconfigured)

definition ws_sample_env :: session_env where
  "ws_sample_env = \<lparr>sz_now = 5, sz_show = (\<lambda>i. ''id''), sz_encode = (\<lambda>j. ''json''), sz_paragraph = ''p'', sz_signals = [Chunk ''Dear'' False, TimedOut]\<rparr>"

theorem drafting_never_persists_witness:
  "draft_run no_op_store ws_sample_env [Accepted ''a'', Edited ''b'', Accepted ''c''] (new_sending_session 1 2 ''phone'') (7 :: nat) =
     ((new_sending_session 1 2 ''phone'')\<lparr>sn_body := ''b'' @ line_break @ ''c''\<rparr>, 7,
      replicate 3 (Some ''update draft body: session store not configured''))"
  using drafting_never_persists [of "[Accepted ''a'', Edited ''b'', Accepted ''c'']" ws_sample_env "new_sending_session 1 2 ''phone''" "7 :: nat"]
  by (simp add: op_fits_def append_text_def eval_nat_numeral)

text \<open>
  C1: a client whose device reconnects while its event is still handled takes the server down when that
  event fails, as a generation does that ends after 30 seconds: the hub closed the channel of the old
  connection, and the error answer is sent on it without a recover.
\<close>
theorem failed_event_after_reconnect_crashes:
  assumes "wc_decode codec data = Some ev" "cv_type ev \<in> {''spawn'', ''accept'', ''edit'', ''delegate''}" "cv_card ev \<noteq> uuid_nil"
    and "handle_event store env ev (get_or_create_session (cv_card ev) w) (wz_store w) = Some (s, st, es, Some e)"
    and "find_client (fst (owner c)) (snd (owner c)) h = Some (wz_client w)" "register_client owner c h = HubOk (wz_hub w)"
  shows "handle_client_message codec store env data w = WsPanic"
  using assms(2) by (intro failed_event_on_closed_channel [OF assms(1) _ _ assms(3,4) replaced_channel_closed [OF assms(6,5)]])
    (auto simp: is_client_event_type_def)

definition ws_sample_channel :: channel where
  "ws_sample_channel = \<lparr>chan_buffer = [], chan_capacity = 256, chan_closed = False\<rparr>"

definition ws_sample_hub :: hub where
  "ws_sample_hub = (new_hub (\<lambda>c. ws_sample_channel))\<lparr>connections := [(2, [(''phone'', 0)])]\<rparr>"

definition ws_sample_after :: hub where
  "ws_sample_after = (case register_client (\<lambda>c. (2, ''phone'')) 1 ws_sample_hub of HubOk h \<Rightarrow> h | _ \<Rightarrow> ws_sample_hub)"

definition ws_sample_client :: "nat ws_client" where
  "ws_sample_client =
     \<lparr>wz_client = 0, wz_user = 2, wz_device = ''phone'', wz_sessions = (\<lambda>i. None), wz_hub = ws_sample_after, wz_store = 7, wz_broadcasts = []\<rparr>"

definition ws_sample_event :: client_event where
  "ws_sample_event = \<lparr>cv_type = ''spawn'', cv_card = 1, cv_text = [], cv_trigger = ''/reply'', cv_cursor = 0, cv_time = 4\<rparr>"

definition ws_sample_codec :: ws_codec where
  "ws_sample_codec = \<lparr>wc_decode = (\<lambda>t. Some ws_sample_event), wc_encode = (\<lambda>e. sv_type e)\<rparr>"

theorem failed_event_after_reconnect_crashes_witness:
  "handle_client_message ws_sample_codec no_op_store ws_sample_env ''{}'' ws_sample_client = WsPanic"
proof -
  have hub: "find_client 2 ''phone'' ws_sample_hub = Some 0" "register_client (\<lambda>c. (2, ''phone'')) 1 ws_sample_hub = HubOk ws_sample_after"
    by (simp_all add: ws_sample_after_def ws_sample_hub_def ws_sample_channel_def new_hub_def register_client_def find_client_def
        devices_of_def close_channel_def)
  have ev: "\<exists>s st es e. handle_event no_op_store ws_sample_env ws_sample_event
      (get_or_create_session 1 ws_sample_client) (wz_store ws_sample_client) = Some (s, st, es, Some e)"
    by (simp add: handle_event_def handle_spawn_def ws_sample_event_def ws_sample_env_def Let_def)
  then obtain s st es e where "handle_event no_op_store ws_sample_env ws_sample_event
      (get_or_create_session (cv_card ws_sample_event) ws_sample_client) (wz_store ws_sample_client) = Some (s, st, es, Some e)"
    by (auto simp: ws_sample_event_def)
  then show ?thesis
    by (rule failed_event_after_reconnect_crashes [where owner = "\<lambda>c. (2, ''phone'')" and c = 1 and h = ws_sample_hub, rotated 3])
       (use hub in \<open>simp_all add: ws_sample_codec_def ws_sample_event_def ws_sample_client_def\<close>)
qed

end
