(* ===== verification/Send_Consumer.thy ===== *)
theory Send_Consumer
  imports Tables
begin

text \<open>
  The sending of approved mail in the ingestion mesh: the consumer of \<open>email.send\<close>
  (\<open>src/ingestion/internal/nats/send_consumer.go\<close>) and the HTTP handler that queues jobs
  (\<open>src/ingestion/internal/server/handler_send.go\<close>). The tables are the columns the consumer reads.
  The environment of an attempt gives the text of a database error where a query fails, what the
  token store and the provider answer and whether the confirmation can be published; a provider
  may deliver a mail and still report an error. Errors are their texts, since the consumer decides
  by substring whether to try again.
\<close>

record send_payload =
  sp_draft :: uuid
  sp_user :: uuid
  sp_thread :: uuid
  sp_body :: string
  sp_subject :: string
  sp_in_reply_to :: "string option"
  sp_references :: "string list"
  sp_to :: string
  sp_account :: string

record email_request =
  er_to :: string
  er_subject :: string
  er_body :: string
  er_in_reply_to :: "string option"
  er_references :: "string list"

record account_row =
  acc_id :: uuid
  acc_user :: uuid
  acc_provider :: string
  acc_active :: bool
  acc_created :: instant

record draft_ref =
  dref_id :: uuid
  dref_user :: uuid
  dref_card :: uuid

record card_ref =
  cref_id :: uuid
  cref_thread :: uuid
  cref_account :: uuid

record received_row =
  rcv_thread :: uuid
  rcv_account :: uuid
  rcv_sender :: string
  rcv_at :: instant

record send_db =
  sdb_accounts :: "account_row list"
  sdb_drafts :: "draft_ref list"
  sdb_cards :: "card_ref list"
  sdb_mails :: "received_row list"

record send_world =
  sw_delivered :: "(uuid \<times> email_request) list"
  sw_confirmed :: "(uuid \<times> string) list"

text \<open>What a provider did: whether the mail went out, and the message id or the error text.\<close>

type_synonym provider_answer = "bool \<times> (string + string)"

record send_env =
  se_account_error :: "string option"
  se_join_error :: "string option"
  se_first_error :: "string option"
  se_recipient_error :: "string option"
  se_sender_error :: "string option"
  se_tokens :: "uuid \<Rightarrow> string + string option"
  se_google :: "string \<Rightarrow> email_request \<Rightarrow> provider_answer"
  se_outlook :: "string \<Rightarrow> email_request \<Rightarrow> provider_answer"
  se_confirm_fails :: bool
  se_parse :: "string \<Rightarrow> uuid option"
  se_show :: "uuid \<Rightarrow> string"

section \<open>Account and recipient\<close>

text \<open>A query with at most one row: an error text, no row, or the row.\<close>

datatype 'a row_result = QueryError string | NoRows | Row 'a

definition row_of :: "string option \<Rightarrow> 'a option \<Rightarrow> 'a row_result" where
  "row_of err r = (case err of Some e \<Rightarrow> QueryError e | None \<Rightarrow> (case r of None \<Rightarrow> NoRows | Some x \<Rightarrow> Row x))"

definition explicit_account :: "send_env \<Rightarrow> send_payload \<Rightarrow> send_db \<Rightarrow> account_row row_result" where
  "explicit_account env p db =
     (if sp_account p = [] then NoRows
      else (case se_parse env (sp_account p) of
              None \<Rightarrow> NoRows
            | Some i \<Rightarrow>
                row_of (se_account_error env)
                  (List.find (\<lambda>a. acc_id a = i \<and> acc_user a = sp_user p \<and> acc_active a) (sdb_accounts db))))"

text \<open>The join of draft, card and account; the first matching combination.\<close>

definition draft_account :: "send_env \<Rightarrow> send_payload \<Rightarrow> send_db \<Rightarrow> account_row row_result" where
  "draft_account env p db =
     row_of (se_join_error env)
       (first_some
         (\<lambda>d. if dref_id d = sp_draft p \<and> dref_user d = sp_user p
              then first_some
                (\<lambda>c. if cref_id c = dref_card d
                     then List.find (\<lambda>a. acc_id a = cref_account c \<and> acc_active a) (sdb_accounts db)
                     else None) (sdb_cards db)
              else None) (sdb_drafts db))"

fun oldest_account :: "account_row list \<Rightarrow> account_row option" where
  "oldest_account [] = None"
| "oldest_account (a # as) =
     (case oldest_account as of
        None \<Rightarrow> Some a | Some b \<Rightarrow> if acc_created b < acc_created a then Some b else Some a)"

definition first_account :: "send_env \<Rightarrow> send_payload \<Rightarrow> send_db \<Rightarrow> account_row row_result" where
  "first_account env p db =
     row_of (se_first_error env)
       (oldest_account (filter (\<lambda>a. acc_user a = sp_user p \<and> acc_active a) (sdb_accounts db)))"

definition resolve_account :: "send_env \<Rightarrow> send_payload \<Rightarrow> send_db \<Rightarrow> string + account_row" where
  "resolve_account env p db =
     (case (case explicit_account env p db of NoRows \<Rightarrow> draft_account env p db | r \<Rightarrow> r) of
        Row a \<Rightarrow> Inr a
      | QueryError e \<Rightarrow> Inl (''resolve source account: '' @ e)
      | NoRows \<Rightarrow>
          (case first_account env p db of
             Row a \<Rightarrow> Inr a
           | NoRows \<Rightarrow> Inl (''no active email account found for user '' @ se_show env (sp_user p))
           | QueryError e \<Rightarrow> Inl (''fallback account lookup failed: '' @ e)))"

fun oldest_mail :: "received_row list \<Rightarrow> received_row option" where
  "oldest_mail [] = None"
| "oldest_mail (r # rs) =
     (case oldest_mail rs of None \<Rightarrow> Some r | Some s \<Rightarrow> if rcv_at s < rcv_at r then Some s else Some r)"

fun latest_mail :: "received_row list \<Rightarrow> received_row option" where
  "latest_mail [] = None"
| "latest_mail (r # rs) =
     (case latest_mail rs of None \<Rightarrow> Some r | Some s \<Rightarrow> if rcv_at r < rcv_at s then Some s else Some r)"

text \<open>
  \<open>resolveRecipient\<close>. The first query selects the card whose id is the thread id of the payload;
  the comparison with its sub-select drops all rows when there is no such card.
\<close>

definition recipient_rows :: "uuid \<Rightarrow> send_db \<Rightarrow> received_row list" where
  "recipient_rows tid db =
     (case List.find (\<lambda>c. cref_id c = tid) (sdb_cards db) of
        None \<Rightarrow> []
      | Some c \<Rightarrow> filter (\<lambda>r. rcv_thread r = cref_thread c \<and> rcv_account r \<noteq> cref_account c) (sdb_mails db))"

definition resolve_recipient :: "send_env \<Rightarrow> send_payload \<Rightarrow> send_db \<Rightarrow> string option" where
  "resolve_recipient env p db =
     (case row_of (se_recipient_error env) (latest_mail (recipient_rows (sp_thread p) db)) of
        Row r \<Rightarrow> Some (rcv_sender r)
      | QueryError _ \<Rightarrow> None
      | NoRows \<Rightarrow>
          (case row_of (se_sender_error env)
                  (oldest_mail (filter (\<lambda>r. rcv_thread r = sp_thread p) (sdb_mails db))) of
             Row r \<Rightarrow> Some (rcv_sender r) | _ \<Rightarrow> None))"

definition recipient_of :: "send_env \<Rightarrow> send_payload \<Rightarrow> send_db \<Rightarrow> string" where
  "recipient_of env p db =
     (if trim_space (sp_to p) \<noteq> [] then trim_space (sp_to p)
      else (case resolve_recipient env p db of Some r \<Rightarrow> r | None \<Rightarrow> []))"

section \<open>One attempt\<close>

definition request_of :: "string \<Rightarrow> send_payload \<Rightarrow> email_request" where
  "request_of to p =
     \<lparr>er_to = to, er_subject = sp_subject p, er_body = sp_body p, er_in_reply_to = sp_in_reply_to p,
      er_references = sp_references p\<rparr>"

text \<open>The result is \<open>None\<close> when the mail is sent, or the text of the error.\<close>

definition try_send_mail :: "send_env \<Rightarrow> send_payload \<Rightarrow> send_db \<Rightarrow> send_world \<Rightarrow> send_world \<times> string option" where
  "try_send_mail env p db w =
     (case resolve_account env p db of
        Inl e \<Rightarrow> (w, Some e)
      | Inr a \<Rightarrow>
         (let to = recipient_of env p db
          in (case se_tokens env (acc_id a) of
                Inl e \<Rightarrow> (w, Some (''refresh tokens for account '' @ se_show env (acc_id a) @ '': '' @ e))
              | Inr None \<Rightarrow> (w, Some (''no access token available for account '' @ se_show env (acc_id a)))
              | Inr (Some token) \<Rightarrow>
                  if acc_provider a \<noteq> ''gmail'' \<and> acc_provider a \<noteq> ''outlook''
                  then (w, Some (''unsupported provider '' @ [CHR 0x22] @ acc_provider a @ [CHR 0x22] @
                                 '' for account '' @ se_show env (acc_id a)))
                  else
                   (let req = request_of to p
                    in (case (if acc_provider a = ''gmail'' then se_google env token req
                              else se_outlook env token req) of
                          (out, r) \<Rightarrow>
                            (let w1 = (if out then w\<lparr>sw_delivered := sw_delivered w @ [(sp_draft p, req)]\<rparr> else w)
                             in (case r of
                                   Inl e \<Rightarrow> (w1, Some (''provider send failed: '' @ e))
                                 | Inr mid \<Rightarrow>
                                     (if se_confirm_fails env then w1
                                      else w1\<lparr>sw_confirmed := sw_confirmed w1 @ [(sp_draft p, mid)]\<rparr>,
                                      None))))))))"

definition is_non_retryable :: "string \<Rightarrow> bool" where
  "is_non_retryable s \<longleftrightarrow>
     str_contains s ''no active email account found'' \<or> str_contains s ''unsupported provider'' \<or>
     str_contains s ''unmarshal send job payload'' \<or> str_contains s ''invalid_grant''"

section \<open>Handling a message\<close>

text \<open>What becomes of the message; \<open>Unsettled\<close> messages and failed acknowledgements are redelivered.\<close>

datatype settled = MsgAck | MsgNak | Unsettled

definition max_attempts :: nat where
  "max_attempts = 3"

text \<open>
  The retry loop from an attempt on. \<open>stop n\<close> says whether the context is cancelled during the
  backoff before attempt \<open>n\<close>.
\<close>

fun attempts ::
  "nat \<Rightarrow> (nat \<Rightarrow> send_env) \<Rightarrow> (nat \<Rightarrow> bool) \<Rightarrow> nat \<Rightarrow> send_payload \<Rightarrow> send_db \<Rightarrow> send_world
     \<Rightarrow> send_world \<times> settled" where
  "attempts 0 env stop n p db w = (w, MsgNak)"
| "attempts (Suc left) env stop n p db w =
     (if 0 < n \<and> stop n then (w, Unsettled)
      else (case try_send_mail (env n) p db w of
              (w', None) \<Rightarrow> (w', MsgAck)
            | (w', Some e) \<Rightarrow>
                if is_non_retryable e then (w', MsgAck)
                else attempts left env stop (n + 1) p db w'))"

definition handle_send_message ::
  "(nat \<Rightarrow> send_env) \<Rightarrow> (nat \<Rightarrow> bool) \<Rightarrow> send_payload option \<Rightarrow> send_db \<Rightarrow> send_world
     \<Rightarrow> send_world \<times> settled" where
  "handle_send_message env stop msg db w =
     (case msg of None \<Rightarrow> (w, MsgAck) | Some p \<Rightarrow> attempts max_attempts env stop 0 p db w)"

text \<open>The backoff before attempt \<open>n\<close> (from 1): \<open>time.Second << (n - 1)\<close>.\<close>

definition send_backoff :: "nat \<Rightarrow> duration" where
  "send_backoff n = second_ns * 2 ^ (n - 1)"

section \<open>Queueing over HTTP\<close>

record send_request =
  sr_user :: "uuid option"
  sr_thread :: "uuid option"
  sr_to :: string
  sr_account :: string
  sr_body :: string
  sr_subject :: string
  sr_in_reply_to :: string
  sr_references :: "string list"

text \<open>The status and the job that is published, if any; \<open>None\<close> is a body that does not decode.\<close>

definition handle_send_request ::
  "uuid \<Rightarrow> bool \<Rightarrow> send_request option \<Rightarrow> nat \<times> send_payload option" where
  "handle_send_request fresh publish_fails req =
     (case req of
        None \<Rightarrow> (400, None)
      | Some r \<Rightarrow>
          (case sr_user r of
             None \<Rightarrow> (400, None)
           | Some user \<Rightarrow>
               if sr_body r = [] then (400, None)
               else if trim_space (sr_to r) = [] then (400, None)
               else if publish_fails then (503, None)
               else (202, Some
                 \<lparr>sp_draft = fresh, sp_user = user,
                  sp_thread = (case sr_thread r of Some t \<Rightarrow> t | None \<Rightarrow> uuid_nil),
                  sp_body = sr_body r, sp_subject = sr_subject r,
                  sp_in_reply_to = (if sr_in_reply_to r = [] then None else Some (sr_in_reply_to r)),
                  sp_references = sr_references r, sp_to = trim_space (sr_to r),
                  sp_account = trim_space (sr_account r)\<rparr>)))"

section \<open>At most one mail per message\<close>

text \<open>A provider that reports an error has not sent the mail, and one that reports none has.\<close>

definition honest :: "(string \<Rightarrow> email_request \<Rightarrow> provider_answer) \<Rightarrow> bool" where
  "honest send \<longleftrightarrow> (\<forall>token req. fst (send token req) = (case snd (send token req) of Inl _ \<Rightarrow> False | Inr _ \<Rightarrow> True))"

definition honest_env :: "send_env \<Rightarrow> bool" where
  "honest_env env \<longleftrightarrow> honest (se_google env) \<and> honest (se_outlook env)"

lemma honest_env_answer:
  assumes "honest_env env"
    and "(if b then se_google env token req else se_outlook env token req) = (out, r)"
  shows "out = (case r of Inl _ \<Rightarrow> False | Inr _ \<Rightarrow> True)"
  using assms unfolding honest_env_def honest_def by (metis fst_conv snd_conv)

lemma try_send_mail_delivers:
  assumes "honest_env env" and "try_send_mail env p db w = (w', r)"
  shows "sw_delivered w' = sw_delivered w @
    (if r = None then [(sp_draft p, request_of (recipient_of env p db) p)] else [])"
proof (cases "resolve_account env p db")
  case (Inr a)
  show ?thesis
  proof (cases "\<exists>token. se_tokens env (acc_id a) = Inr (Some token) \<and> acc_provider a \<in> {''gmail'', ''outlook''}")
    case True
    then obtain token where t: "se_tokens env (acc_id a) = Inr (Some token)"
      and pr: "\<not> (acc_provider a \<noteq> ''gmail'' \<and> acc_provider a \<noteq> ''outlook'')" by auto
    obtain out s where s: "(if acc_provider a = ''gmail'' then se_google env token (request_of (recipient_of env p db) p)
        else se_outlook env token (request_of (recipient_of env p db) p)) = (out, s)" by fastforce
    note out = honest_env_answer [OF assms(1) s]
    have run: "try_send_mail env p db w = (let w1 = (if out then w\<lparr>sw_delivered := sw_delivered w @
          [(sp_draft p, request_of (recipient_of env p db) p)]\<rparr> else w)
        in case s of Inl e \<Rightarrow> (w1, Some (''provider send failed: '' @ e))
           | Inr mid \<Rightarrow> (if se_confirm_fails env then w1
                        else w1\<lparr>sw_confirmed := sw_confirmed w1 @ [(sp_draft p, mid)]\<rparr>, None))"
      unfolding try_send_mail_def Inr t sum.case option.case Let_def if_not_P [OF pr] s prod.case ..
    show ?thesis
      using assms(2) out unfolding run by (cases s) (auto simp: Let_def)
  next
    case False
    then show ?thesis
      using assms(2) Inr by (auto simp: try_send_mail_def Let_def split: sum.splits option.splits)
  qed
qed (use assms(2) in \<open>auto simp: try_send_mail_def\<close>)

lemma attempts_deliver:
  assumes "\<And>n. honest_env (env n)"
  shows "attempts left env stop n p db w = (w', s) \<Longrightarrow>
    sw_delivered w' = sw_delivered w \<or>
    s = MsgAck \<and> (\<exists>k. n \<le> k \<and> k < n + left \<and>
      sw_delivered w' = sw_delivered w @ [(sp_draft p, request_of (recipient_of (env k) p db) p)])"
proof (induction left arbitrary: n w)
  case (Suc left)
  show ?case
  proof (cases "0 < n \<and> stop n")
    case False
    obtain w1 r where r: "try_send_mail (env n) p db w = (w1, r)" by fastforce
    note d = try_send_mail_delivers [OF assms r]
    show ?thesis
    proof (cases r)
      case None
      then have "w' = w1" "s = MsgAck" using Suc.prems False r by auto
      then show ?thesis using d None by (intro disjI2 conjI exI [of _ n]) simp_all
    next
      case (Some e)
      then have same: "sw_delivered w1 = sw_delivered w" using d by simp
      show ?thesis
      proof (cases "is_non_retryable e")
        case True
        then show ?thesis using Suc.prems False r Some same by auto
      next
        case retry: False
        then have "attempts left env stop (n + 1) p db w1 = (w', s)" using Suc.prems False r Some by auto
        from Suc.IH [OF this] same show ?thesis by auto (metis Suc_leD)
      qed
    qed
  qed (use Suc.prems in auto)
qed simp

lemma attempts_live:
  assumes "\<And>n. honest_env (env n)" and "\<And>n. \<not> stop n"
    and "\<And>v. snd (try_send_mail (env k) p db v) = None"
    and "n \<le> k" "k < n + left"
    and "\<And>j v e. n \<le> j \<Longrightarrow> j < k \<Longrightarrow> snd (try_send_mail (env j) p db v) = Some e \<Longrightarrow> \<not> is_non_retryable e"
  shows "\<exists>w' j. attempts left env stop n p db w = (w', MsgAck) \<and> j \<le> k \<and>
    sw_delivered w' = sw_delivered w @ [(sp_draft p, request_of (recipient_of (env j) p db) p)]"
  using assms(4-6)
proof (induction left arbitrary: n w)
  case (Suc left)
  obtain w1 r where r: "try_send_mail (env n) p db w = (w1, r)" by fastforce
  note d = try_send_mail_delivers [OF assms(1) r]
  show ?case
  proof (cases r)
    case None
    then show ?thesis using r d assms(2) Suc.prems(1) by (intro exI [of _ w1] exI [of _ n]) auto
  next
    case (Some e)
    then have "n \<noteq> k" using assms(3) [of w] r by auto
    then have k: "n + 1 \<le> k" "k < n + 1 + left" using Suc.prems(1,2) by simp_all
    have "\<not> is_non_retryable e" using Suc.prems(3) [of n w e] r Some k(1) by simp
    then have "attempts (Suc left) env stop n p db w = attempts left env stop (n + 1) p db w1"
      using assms(2) r Some by simp
    moreover have "sw_delivered w1 = sw_delivered w" using d Some by simp
    moreover have "\<not> is_non_retryable e" if "n + 1 \<le> j" "j < k" "snd (try_send_mail (env j) p db v) = Some e" for j v e
      using Suc.prems(3) [of j v e] that by simp
    ultimately show ?thesis using Suc.IH [OF k, of w1] by metis
  qed
qed simp

definition ex_send_env :: "bool \<Rightarrow> send_env" where
  "ex_send_env up =
     \<lparr>se_account_error = None, se_join_error = None, se_first_error = None, se_recipient_error = None,
      se_sender_error = None, se_tokens = (\<lambda>a. Inr (Some ''t'')),
      se_google = (\<lambda>t r. if up then (True, Inr ''m'') else (False, Inl ''timeout'')),
      se_outlook = (\<lambda>t r. (False, Inl ''down'')),
      se_confirm_fails = False, se_parse = (\<lambda>s. None), se_show = (\<lambda>u. ''u'')\<rparr>"

definition ex_payload :: send_payload where
  "ex_payload =
     \<lparr>sp_draft = 7, sp_user = 1, sp_thread = 3, sp_body = ''Yes.'', sp_subject = ''Hi'', sp_in_reply_to = None,
      sp_references = [], sp_to = [], sp_account = []\<rparr>"

definition ex_send_db :: send_db where
  "ex_send_db =
     \<lparr>sdb_accounts = [\<lparr>acc_id = 2, acc_user = 1, acc_provider = ''gmail'', acc_active = True, acc_created = 0\<rparr>],
      sdb_drafts = [], sdb_cards = [],
      sdb_mails = [\<lparr>rcv_thread = 3, rcv_account = 2, rcv_sender = ''me@x.io'', rcv_at = 10\<rparr>,
                   \<lparr>rcv_thread = 3, rcv_account = 2, rcv_sender = ''ann@x.io'', rcv_at = 20\<rparr>]\<rparr>"

lemmas ex_send_defs = ex_send_env_def ex_payload_def ex_send_db_def

lemma ex_account: "resolve_account (ex_send_env up) ex_payload ex_send_db = Inr (sdb_accounts ex_send_db ! 0)"
  by (simp add: resolve_account_def explicit_account_def draft_account_def first_account_def row_of_def ex_send_defs)

lemma ex_send_honest: "honest_env (ex_send_env up)"
  by (simp add: honest_env_def honest_def ex_send_env_def)

lemma ex_try_send:
  "snd (try_send_mail (ex_send_env up) ex_payload ex_send_db v) = (if up then None else Some ''provider send failed: timeout'')"
  unfolding try_send_mail_def ex_account sum.case by (simp add: ex_send_defs)



text \<open>
  A queued mail gets out as soon as an attempt can succeed. If no earlier attempt ends in an
  error the consumer takes for permanent and the context is not cancelled, a message whose first,
  second or third attempt would succeed is acknowledged with its mail delivered.
\<close>

lemma healthy_attempt_delivers:
  assumes "\<forall>n. honest_env (env n)" and "\<forall>n. \<not> stop n" and "k < max_attempts"
    and "\<forall>v. snd (try_send_mail (env k) p db v) = None"
    and "\<forall>j < k. \<forall>v e. snd (try_send_mail (env j) p db v) = Some e \<longrightarrow> \<not> is_non_retryable e"
  shows "\<exists>w' j. handle_send_message env stop (Some p) db w = (w', MsgAck) \<and> j \<le> k \<and>
    sw_delivered w' = sw_delivered w @ [(sp_draft p, request_of (recipient_of (env j) p db) p)]"
  using attempts_live [of env stop k p db 0 max_attempts w] assms by (auto simp: handle_send_message_def)

lemma healthy_attempt_delivers_witness:
  "\<exists>w'. handle_send_message (\<lambda>n. ex_send_env (n = 1)) (\<lambda>n. False) (Some ex_payload) ex_send_db
      \<lparr>sw_delivered = [], sw_confirmed = []\<rparr> = (w', MsgAck) \<and> length (sw_delivered w') = 1"
proof -
  have h: "\<forall>n. honest_env (ex_send_env (n = 1))" "\<forall>n::nat. \<not> False" "1 < max_attempts"
    "\<forall>v. snd (try_send_mail (ex_send_env (1 = (1::nat))) ex_payload ex_send_db v) = None"
    by (simp_all add: ex_send_honest ex_try_send max_attempts_def)
  have "\<not> is_non_retryable ''provider send failed: timeout''" by code_simp
  then have "\<forall>j < 1. \<forall>v e. snd (try_send_mail (ex_send_env (j = (1::nat))) ex_payload ex_send_db v) = Some e \<longrightarrow>
      \<not> is_non_retryable e"
    by (auto simp: ex_try_send)
  from healthy_attempt_delivers [OF h this, of "\<lparr>sw_delivered = [], sw_confirmed = []\<rparr>"]
  show ?thesis by auto
qed

section \<open>Who gets the mail\<close>

lemma oldest_mail_set: "rs \<noteq> [] \<Longrightarrow> \<exists>r \<in> set rs. oldest_mail rs = Some r \<and> (\<forall>s \<in> set rs. rcv_at r \<le> rcv_at s)"
proof (induction rs)
  case (Cons r rs)
  then show ?case by (cases "rs = []") (auto, (fastforce split: if_splits)+)
qed simp

text \<open>
  An explicit recipient is used as given, and every job accepted over HTTP has one. Without it
  the first lookup compares the thread id with card ids; when no card has that id, the mail goes
  to the sender of the oldest mail of the thread, who is the user where the user began the thread.
\<close>

lemma reply_goes_to_first_sender:
  assumes "trim_space (sp_to p) = []" and "sp_thread p \<notin> cref_id ` set (sdb_cards db)"
    and "se_recipient_error env = None" and "se_sender_error env = None"
    and "r \<in> set (sdb_mails db)" and "rcv_thread r = sp_thread p"
    and "\<forall>r' \<in> set (sdb_mails db). rcv_thread r' = sp_thread p \<and> r' \<noteq> r \<longrightarrow> rcv_at r < rcv_at r'"
  shows "recipient_of env p db = rcv_sender r \<and>
    (\<forall>fresh pf req q. handle_send_request fresh pf (Some req) = (202, Some q) \<longrightarrow>
       recipient_of env q db = trim_space (sr_to req) \<and> trim_space (sr_to req) \<noteq> [])"
proof
  let ?rs = "filter (\<lambda>r. rcv_thread r = sp_thread p) (sdb_mails db)"
  have "?rs \<noteq> []" using assms(5,6) by (auto simp: filter_empty_conv)
  then obtain s where s: "s \<in> set ?rs" "oldest_mail ?rs = Some s" "\<forall>x \<in> set ?rs. rcv_at s \<le> rcv_at x"
    using oldest_mail_set by blast
  then have "s = r" using assms(5-7) by force
  moreover have "List.find (\<lambda>c. cref_id c = sp_thread p) (sdb_cards db) = None"
    using assms(2) by (auto simp: find_None_iff image_iff)
  ultimately show "recipient_of env p db = rcv_sender r"
    using s assms(1,3,4) by (simp add: recipient_of_def resolve_recipient_def recipient_rows_def row_of_def)
  show "\<forall>fresh pf req q. handle_send_request fresh pf (Some req) = (202, Some q) \<longrightarrow>
       recipient_of env q db = trim_space (sr_to req) \<and> trim_space (sr_to req) \<noteq> []"
    by (auto simp: handle_send_request_def recipient_of_def split: option.splits if_splits)
qed

lemma reply_goes_to_first_sender_witness:
  "recipient_of (ex_send_env True) ex_payload ex_send_db = ''me@x.io''"
proof -
  have "recipient_of (ex_send_env True) ex_payload ex_send_db = rcv_sender (sdb_mails ex_send_db ! 0)"
    by (rule conjunct1 [OF reply_goes_to_first_sender]) (auto simp: ex_send_defs)
  then show ?thesis by (simp add: ex_send_db_def)
qed

end
