(* ===== verification/Key_Rotation.thy ===== *)
theory Key_Rotation
  imports Auth_Tokens
begin

text \<open>
  Rotation of the signing key (\<open>src/sync/internal/auth/rotation.go\<close> and the \<open>MultiKeyValidator\<close> of
  \<open>tokens.go\<close>). The state holds the validator, the record that is persisted, the secret as it is
  stored, the armed cleanup timer and the number of timer callbacks that have fired and wait for
  the lock; \<open>rotation_step\<close> is one operation under the lock, the firing of the timer or a restart.
\<close>

section \<open>Several keys at once\<close>

record multi_key =
  mk_keys :: "string \<Rightarrow> bytes option"
  mk_current :: string
  mk_previous :: string
  mk_grace_end :: instant
  mk_grace_active :: bool

definition new_multi_key :: "auth_lib \<Rightarrow> bytes \<Rightarrow> multi_key" where
  "new_multi_key lib key =
     \<lparr>mk_keys = [derive_kid lib key \<mapsto> key], mk_current = derive_kid lib key, mk_previous = [],
      mk_grace_end = zero_time, mk_grace_active = False\<rparr>"

text \<open>A missing entry reads as the nil slice, the empty key.\<close>

definition key_at :: "multi_key \<Rightarrow> string \<Rightarrow> bytes" where
  "key_at v kid = (case mk_keys v kid of None \<Rightarrow> [] | Some k \<Rightarrow> k)"

definition multi_key_lookup :: "multi_key \<Rightarrow> jwt_header \<Rightarrow> string + bytes" where
  "multi_key_lookup v h =
     (if \<not> is_hmac h then Inl (''unexpected signing method: '' @ jh_alg h)
      else (case jh_kid h of
              Some kid \<Rightarrow>
                if kid \<noteq> []
                then (case mk_keys v kid of Some k \<Rightarrow> Inr k | None \<Rightarrow> Inl (''unknown key ID: '' @ kid))
                else Inr (key_at v (mk_current v))
            | None \<Rightarrow> Inr (key_at v (mk_current v))))"

definition multi_key_validate :: "auth_lib \<Rightarrow> multi_key \<Rightarrow> string \<Rightarrow> instant \<Rightarrow> string + token_claims" where
  "multi_key_validate lib v t now =
     (case al_parse_with lib t (multi_key_lookup v) (Some [''HS256'']) now of
        Inl e \<Rightarrow> Inl (''token validation failed: '' @ e)
      | Inr (h, c) \<Rightarrow>
          (case jh_kid h of
             Some kid \<Rightarrow>
               if mk_grace_active v \<and> kid = mk_previous v \<and> mk_grace_end v < now
               then Inl (''token signed with expired key (kid='' @ kid @ ''), please re-authenticate'')
               else Inr c
           | None \<Rightarrow> Inr c))"

definition current_key :: "multi_key \<Rightarrow> bytes \<times> string" where
  "current_key v = (key_at v (mk_current v), mk_current v)"

definition key_count :: "multi_key \<Rightarrow> nat" where
  "key_count v = card (dom (mk_keys v))"

definition is_grace_period_active :: "multi_key \<Rightarrow> instant \<Rightarrow> bool" where
  "is_grace_period_active v now \<longleftrightarrow> mk_grace_active v \<and> now < mk_grace_end v"

definition grace_period_remaining :: "multi_key \<Rightarrow> instant \<Rightarrow> duration" where
  "grace_period_remaining v now =
     (if mk_grace_active v then max 0 (go_sub (mk_grace_end v) now) else 0)"

section \<open>The rotator\<close>

record rotation_record =
  rr_current_key :: string
  rr_previous_key :: string
  rr_current_kid :: string
  rr_previous_kid :: string
  rr_rotated_at :: instant
  rr_grace_end :: instant
  rr_state :: string
  rr_version :: int

datatype rotation_state = RotationIdle | RotationGracePeriod

fun rotation_state_string :: "rotation_state \<Rightarrow> string" where
  "rotation_state_string RotationIdle = ''idle''"
| "rotation_state_string RotationGracePeriod = ''grace_period''"

record key_rotator =
  kr_validator :: multi_key
  kr_record :: rotation_record
  kr_grace :: duration
  kr_configured :: bool
  kr_timer :: "instant option"
  kr_pending :: nat
  kr_callback :: bool
  kr_events :: "(string \<times> string) list"
  kr_secret :: "rotation_record option"

definition new_key_rotator ::
  "auth_lib \<Rightarrow> bytes \<Rightarrow> bool \<Rightarrow> duration \<Rightarrow> bool \<Rightarrow> rotation_record option \<Rightarrow> key_rotator" where
  "new_key_rotator lib key configured grace callback secret =
     \<lparr>kr_validator = new_multi_key lib key,
      kr_record = \<lparr>rr_current_key = hex_encode key, rr_previous_key = [], rr_current_kid = derive_kid lib key,
                   rr_previous_kid = [], rr_rotated_at = zero_time, rr_grace_end = zero_time,
                   rr_state = rotation_state_string RotationIdle, rr_version = 1\<rparr>,
      kr_grace = grace, kr_configured = configured, kr_timer = None, kr_pending = 0,
      kr_callback = callback, kr_events = [], kr_secret = secret\<rparr>"

text \<open>The answer of Secrets Manager: \<open>PutExists\<close> makes the code try an update.\<close>

datatype put_answer = PutOk | PutExists bool | PutFails

definition put_done :: "put_answer \<Rightarrow> bool" where
  "put_done p \<longleftrightarrow> (case p of PutOk \<Rightarrow> True | PutExists ok \<Rightarrow> ok | PutFails \<Rightarrow> False)"

definition persist_record :: "put_answer \<Rightarrow> key_rotator \<Rightarrow> key_rotator \<times> string option" where
  "persist_record p kr =
     (if \<not> kr_configured kr then (kr, None)
      else if put_done p then (kr\<lparr>kr_secret := Some (kr_record kr)\<rparr>, None)
      else (kr, Some ''put secret value''))"

definition rollback :: "put_answer \<Rightarrow> key_rotator \<Rightarrow> key_rotator \<times> string option" where
  "rollback p kr =
     (let v = kr_validator kr
      in if \<not> mk_grace_active v \<or> mk_previous v = [] then (kr, Some ''no rotation in progress to rollback'')
         else
          (case persist_record p
                  (kr\<lparr>kr_validator :=
                        v\<lparr>mk_keys := (mk_keys v)(mk_current v := None), mk_current := mk_previous v,
                          mk_previous := [], mk_grace_active := False, mk_grace_end := zero_time\<rparr>,
                      kr_timer := None,
                      kr_record := (kr_record kr)\<lparr>rr_state := rotation_state_string RotationIdle,
                                                   rr_previous_key := [], rr_previous_kid := []\<rparr>\<rparr>) of
             (kr', None) \<Rightarrow> (kr', None)
           | (kr', Some e) \<Rightarrow> (kr', Some (''persist rollback: '' @ e))))"

definition complete_grace_period :: "put_answer \<Rightarrow> key_rotator \<Rightarrow> key_rotator \<times> string option" where
  "complete_grace_period p kr =
     (let v = kr_validator kr
      in if \<not> mk_grace_active v then (kr, None)
         else persist_record p
                (kr\<lparr>kr_validator :=
                      v\<lparr>mk_keys := (if mk_previous v \<noteq> [] then (mk_keys v)(mk_previous v := None) else mk_keys v),
                        mk_previous := [], mk_grace_active := False, mk_grace_end := zero_time\<rparr>,
                    kr_record := (kr_record kr)\<lparr>rr_previous_key := [], rr_previous_kid := [],
                                                 rr_state := rotation_state_string RotationIdle\<rparr>,
                    kr_timer := None\<rparr>))"

text \<open>
  \<open>Rotate\<close>: \<open>key\<close> is what the random source gives, \<open>p\<close> and \<open>p'\<close> the answers to the two writes of
  the secret, the second one during the rollback that follows a failed first one.
\<close>

definition rotated_validator :: "auth_lib \<Rightarrow> bytes \<Rightarrow> instant \<Rightarrow> multi_key \<Rightarrow> multi_key" where
  "rotated_validator lib key grace_end v =
     \<lparr>mk_keys = (if mk_previous v \<noteq> [] then (mk_keys v)(mk_previous v := None) else mk_keys v)
                  (derive_kid lib key \<mapsto> key),
      mk_current = derive_kid lib key, mk_previous = mk_current v, mk_grace_end = grace_end,
      mk_grace_active = True\<rparr>"

definition rotation_started :: "auth_lib \<Rightarrow> bytes \<Rightarrow> instant \<Rightarrow> key_rotator \<Rightarrow> key_rotator" where
  "rotation_started lib key now kr =
     (let old = mk_current (kr_validator kr);
          v = rotated_validator lib key (now + kr_grace kr) (kr_validator kr)
      in kr\<lparr>kr_validator := v,
            kr_record := \<lparr>rr_current_key = hex_encode key, rr_previous_key = hex_encode (key_at v old),
                          rr_current_kid = derive_kid lib key, rr_previous_kid = old, rr_rotated_at = now,
                          rr_grace_end = now + kr_grace kr,
                          rr_state = rotation_state_string RotationGracePeriod,
                          rr_version = rr_version (kr_record kr) + 1\<rparr>\<rparr>)"

definition rotate_key ::
  "auth_lib \<Rightarrow> bytes option \<Rightarrow> instant \<Rightarrow> put_answer \<Rightarrow> put_answer \<Rightarrow> key_rotator \<Rightarrow> key_rotator \<times> (string + string)" where
  "rotate_key lib key now p p' kr =
     (case key of
        None \<Rightarrow> (kr, Inl ''generate new signing key'')
      | Some k \<Rightarrow>
          let old = mk_current (kr_validator kr)
          in if derive_kid lib k = old
             then (kr, Inl ''new key collision (statistically impossible) - retry'')
             else (case persist_record p (rotation_started lib k now kr) of
                     (kr', Some e) \<Rightarrow> (fst (rollback p' kr'), Inl (''persist rotation record: '' @ e))
                   | (kr', None) \<Rightarrow>
                       (kr'\<lparr>kr_timer := Some (now + kr_grace kr),
                            kr_events := kr_events kr' @
                              (if kr_callback kr' then [(old, derive_kid lib k)] else [])\<rparr>,
                        Inr (derive_kid lib k))))"

section \<open>The cleanup timer\<close>

definition timer_fires :: "key_rotator \<Rightarrow> key_rotator" where
  "timer_fires kr = kr\<lparr>kr_timer := None, kr_pending := kr_pending kr + 1\<rparr>"

definition run_cleanup :: "put_answer \<Rightarrow> key_rotator \<Rightarrow> key_rotator" where
  "run_cleanup p kr =
     (let kr1 = kr\<lparr>kr_pending := kr_pending kr - 1\<rparr>
      in if \<not> mk_grace_active (kr_validator kr1) then kr1
         else fst (complete_grace_period p
                (kr1\<lparr>kr_events := kr_events kr1 @
                       (if kr_callback kr1 then [(mk_previous (kr_validator kr1), [])] else [])\<rparr>)))"

section \<open>Loading and status\<close>

definition restored_validator :: "auth_lib \<Rightarrow> bytes \<Rightarrow> instant \<Rightarrow> multi_key \<Rightarrow> multi_key" where
  "restored_validator lib prev grace_end v =
     v\<lparr>mk_keys := (mk_keys v)(derive_kid lib prev \<mapsto> prev), mk_previous := derive_kid lib prev,
       mk_grace_active := True, mk_grace_end := grace_end\<rparr>"

definition load_from_secret_manager ::
  "auth_lib \<Rightarrow> rotation_record option \<Rightarrow> duration \<Rightarrow> bool \<Rightarrow> instant \<Rightarrow> put_answer \<Rightarrow> string + key_rotator" where
  "load_from_secret_manager lib secret grace callback now p =
     (case secret of
        None \<Rightarrow> Inl ''get secret value''
      | Some r \<Rightarrow>
          (case hex_decode (rr_current_key r) of
             None \<Rightarrow> Inl ''decode current key''
           | Some cur \<Rightarrow>
               let kr = new_key_rotator lib cur True grace callback secret
               in if rr_state r = rotation_state_string RotationGracePeriod \<and> rr_previous_key r \<noteq> []
                  then (case hex_decode (rr_previous_key r) of
                          None \<Rightarrow> Inl ''decode previous key''
                        | Some prev \<Rightarrow>
                            let kr1 = kr\<lparr>kr_validator :=
                                           restored_validator lib prev (rr_grace_end r) (kr_validator kr)\<rparr>;
                                kr2 = (if now < rr_grace_end r then kr1\<lparr>kr_timer := Some (rr_grace_end r)\<rparr>
                                       else fst (complete_grace_period p kr1))
                            in Inr (kr2\<lparr>kr_record := r\<rparr>))
                  else Inr (kr\<lparr>kr_record := r\<rparr>)))"

record rotation_status =
  rs_state :: string
  rs_current :: string
  rs_previous :: string
  rs_count :: nat
  rs_active :: bool
  rs_grace_end :: "instant option"
  rs_remaining :: duration
  rs_rotated_at :: "instant option"
  rs_version :: int

definition rotator_status :: "key_rotator \<Rightarrow> instant \<Rightarrow> rotation_status" where
  "rotator_status kr now =
     (let v = kr_validator kr; a = mk_grace_active v; r = go_sub (mk_grace_end v) now
      in \<lparr>rs_state = rr_state (kr_record kr), rs_current = mk_current v,
          rs_previous = (if a then mk_previous v else []), rs_count = key_count v, rs_active = a,
          rs_grace_end = (if a then Some (mk_grace_end v) else None),
          rs_remaining = (if a \<and> 0 < r then r else 0),
          rs_rotated_at = (if rr_rotated_at (kr_record kr) = zero_time then None
                           else Some (rr_rotated_at (kr_record kr))),
          rs_version = rr_version (kr_record kr)\<rparr>)"

section \<open>Runs\<close>

text \<open>One operation; a restart loads the stored secret and loses timers and waiting callbacks.\<close>

inductive rotation_step :: "auth_lib \<Rightarrow> key_rotator \<Rightarrow> key_rotator \<Rightarrow> bool" for lib where
  Rotates: "rotation_step lib kr (fst (rotate_key lib key now p p' kr))"
| RollsBack: "rotation_step lib kr (fst (rollback p kr))"
| Completes: "rotation_step lib kr (fst (complete_grace_period p kr))"
| Fires: "kr_timer kr = Some t \<Longrightarrow> rotation_step lib kr (timer_fires kr)"
| CleansUp: "0 < kr_pending kr \<Longrightarrow> rotation_step lib kr (run_cleanup p kr)"
| Restarts: "load_from_secret_manager lib (kr_secret kr) (kr_grace kr) (kr_callback kr) now p = Inr kr' \<Longrightarrow>
    rotation_step lib kr kr'"

section \<open>The keys that are held\<close>

declare rotation_state_string.simps [simp del]

definition held_keys_ok :: "auth_lib \<Rightarrow> multi_key \<Rightarrow> bool" where
  "held_keys_ok lib v \<longleftrightarrow>
     dom (mk_keys v) = insert (mk_current v) (if mk_previous v = [] then {} else {mk_previous v}) \<and>
     mk_previous v \<noteq> mk_current v \<and> mk_current v \<noteq> [] \<and> (mk_grace_active v \<longleftrightarrow> mk_previous v \<noteq> []) \<and>
     (\<forall>kid k. mk_keys v kid = Some k \<longrightarrow> derive_kid lib k = kid)"

definition record_ok :: "auth_lib \<Rightarrow> rotation_record \<Rightarrow> bool" where
  "record_ok lib r \<longleftrightarrow>
     (\<exists>c. rr_current_key r = hex_encode c \<and>
        (rr_state r = rotation_state_string RotationGracePeriod \<and> rr_previous_key r \<noteq> [] \<longrightarrow>
           (\<exists>q. rr_previous_key r = hex_encode q \<and> derive_kid lib q \<noteq> derive_kid lib c)))"

definition rotator_ok :: "auth_lib \<Rightarrow> key_rotator \<Rightarrow> bool" where
  "rotator_ok lib kr \<longleftrightarrow>
     held_keys_ok lib (kr_validator kr) \<and> record_ok lib (kr_record kr) \<and>
     (\<forall>r. kr_secret kr = Some r \<longrightarrow> record_ok lib r)"

lemma derive_kid_not_Nil: "sha_ok lib \<Longrightarrow> derive_kid lib k \<noteq> []"
proof -
  assume "sha_ok lib"
  then have "length (derive_kid lib k) = 8" by (simp add: derive_kid_def sha_ok_def)
  then show ?thesis by auto
qed

lemma held_keys_ok_count: "held_keys_ok lib v \<Longrightarrow> key_count v = (if mk_grace_active v then 2 else 1)"
  by (auto simp: held_keys_ok_def key_count_def)

lemma held_keys_ok_current:
  "held_keys_ok lib v \<Longrightarrow> mk_keys v (mk_current v) = Some (key_at v (mk_current v)) \<and>
     derive_kid lib (key_at v (mk_current v)) = mk_current v"
  unfolding held_keys_ok_def key_at_def by (cases "mk_keys v (mk_current v)") auto

lemma held_keys_ok_dom:
  assumes "held_keys_ok lib v"
  shows "mk_keys v kid = None \<longleftrightarrow> kid \<noteq> mk_current v \<and> (mk_previous v = [] \<or> kid \<noteq> mk_previous v)"
proof -
  have d: "dom (mk_keys v) = insert (mk_current v) (if mk_previous v = [] then {} else {mk_previous v})"
    using assms by (simp add: held_keys_ok_def)
  have "mk_keys v kid = None \<longleftrightarrow> kid \<notin> dom (mk_keys v)" by auto
  then show ?thesis unfolding d by simp
qed

lemma new_multi_key_ok: "sha_ok lib \<Longrightarrow> held_keys_ok lib (new_multi_key lib key)"
  using derive_kid_not_Nil [of lib key] by (auto simp: held_keys_ok_def new_multi_key_def split: if_splits)

lemma rotated_validator_ok:
  assumes "sha_ok lib" "held_keys_ok lib v" "derive_kid lib key \<noteq> mk_current v"
  shows "held_keys_ok lib (rotated_validator lib key e v)"
  using assms(2,3) derive_kid_not_Nil [OF assms(1), of key]
  unfolding held_keys_ok_def rotated_validator_def by (auto split: if_splits)

lemma promoted_validator_ok:
  assumes "held_keys_ok lib v" "mk_previous v \<noteq> []"
  shows "held_keys_ok lib (v\<lparr>mk_keys := (mk_keys v)(mk_current v := None), mk_current := mk_previous v,
    mk_previous := [], mk_grace_active := False, mk_grace_end := e\<rparr>)"
  using assms unfolding held_keys_ok_def by (auto split: if_splits)

lemma completed_validator_ok:
  assumes "held_keys_ok lib v" "mk_grace_active v"
  shows "held_keys_ok lib (v\<lparr>mk_keys := (if mk_previous v \<noteq> [] then (mk_keys v)(mk_previous v := None) else mk_keys v),
    mk_previous := [], mk_grace_active := False, mk_grace_end := e\<rparr>)"
  using assms unfolding held_keys_ok_def by (auto split: if_splits)

lemma restored_validator_ok:
  assumes "sha_ok lib" "derive_kid lib prev \<noteq> derive_kid lib key"
  shows "held_keys_ok lib (restored_validator lib prev e (new_multi_key lib key))"
  using assms(2) derive_kid_not_Nil [OF assms(1)]
  unfolding held_keys_ok_def restored_validator_def new_multi_key_def by (auto split: if_splits)

section \<open>Every operation keeps them\<close>

lemma persist_record_ok: "rotator_ok lib kr \<Longrightarrow> rotator_ok lib (fst (persist_record p kr))"
  by (auto simp: persist_record_def rotator_ok_def)

lemma persist_validator [simp]: "kr_validator (fst (persist_record p kr)) = kr_validator kr"
  by (simp add: persist_record_def)

lemma record_ok_idle:
  "record_ok lib r \<Longrightarrow> record_ok lib (r\<lparr>rr_state := rotation_state_string RotationIdle, rr_previous_key := [],
     rr_previous_kid := []\<rparr>)"
  "record_ok lib r \<Longrightarrow> record_ok lib (r\<lparr>rr_previous_key := [], rr_previous_kid := [],
     rr_state := rotation_state_string RotationIdle\<rparr>)"
  by (auto simp: record_ok_def)

lemma rollback_fst:
  "fst (rollback p kr) =
     (let v = kr_validator kr
      in if \<not> mk_grace_active v \<or> mk_previous v = [] then kr
         else fst (persist_record p
                  (kr\<lparr>kr_validator :=
                        v\<lparr>mk_keys := (mk_keys v)(mk_current v := None), mk_current := mk_previous v,
                          mk_previous := [], mk_grace_active := False, mk_grace_end := zero_time\<rparr>,
                      kr_timer := None,
                      kr_record := (kr_record kr)\<lparr>rr_state := rotation_state_string RotationIdle,
                                                   rr_previous_key := [], rr_previous_kid := []\<rparr>\<rparr>)))"
  by (simp add: rollback_def Let_def split: prod.splits option.splits)

lemma rollback_ok:
  assumes "rotator_ok lib kr"
  shows "rotator_ok lib (fst (rollback p kr))"
proof (cases "\<not> mk_grace_active (kr_validator kr) \<or> mk_previous (kr_validator kr) = []")
  case False
  show ?thesis
    unfolding rollback_fst Let_def if_not_P [OF False]
    using assms False
    by (intro persist_record_ok) (simp add: rotator_ok_def promoted_validator_ok record_ok_idle)
qed (simp add: rollback_fst assms)

lemma complete_ok:
  assumes "rotator_ok lib kr"
  shows "rotator_ok lib (fst (complete_grace_period p kr))"
proof (cases "mk_grace_active (kr_validator kr)")
  case True
  then have n: "\<not> \<not> mk_grace_active (kr_validator kr)" by simp
  show ?thesis
    unfolding complete_grace_period_def Let_def if_not_P [OF n]
    using assms True completed_validator_ok [of lib "kr_validator kr" zero_time]
    by (intro persist_record_ok) (simp add: rotator_ok_def record_ok_idle)
qed (simp add: complete_grace_period_def assms)

lemma rotation_started_ok:
  assumes "sha_ok lib" "rotator_ok lib kr" "derive_kid lib k \<noteq> mk_current (kr_validator kr)"
  shows "rotator_ok lib (rotation_started lib k now kr)"
proof -
  let ?v = "kr_validator kr"
  have v: "held_keys_ok lib ?v" using assms(2) by (simp add: rotator_ok_def)
  note cur = held_keys_ok_current [OF v]
  have "key_at (rotated_validator lib k e ?v) (mk_current ?v) = key_at ?v (mk_current ?v)" for e
    using v assms(3) by (auto simp: key_at_def rotated_validator_def held_keys_ok_def)
  then show ?thesis
    using assms cur v
    by (auto simp: rotation_started_def rotator_ok_def Let_def rotated_validator_ok record_ok_def)
qed

lemma rotate_ok:
  assumes "sha_ok lib" "rotator_ok lib kr"
  shows "rotator_ok lib (fst (rotate_key lib key now p p' kr))"
proof (cases key)
  case (Some k)
  show ?thesis
  proof (cases "derive_kid lib k = mk_current (kr_validator kr)")
    case False
    note s = persist_record_ok [OF rotation_started_ok [OF assms False], of p now]
    obtain kr' r where r: "persist_record p (rotation_started lib k now kr) = (kr', r)" by fastforce
    have "rotator_ok lib kr'" using s by (simp add: r)
    moreover from this have "rotator_ok lib (kr'\<lparr>kr_timer := t, kr_events := es\<rparr>)"
      "rotator_ok lib (kr'\<lparr>kr_timer := t\<rparr>)" for t es
      by (simp_all add: rotator_ok_def)
    ultimately show ?thesis
      using rollback_ok [of lib kr' p'] False by (simp add: rotate_key_def Some Let_def r split: option.splits)
  qed (simp add: rotate_key_def Some assms)
qed (simp add: rotate_key_def assms)

lemma load_ok:
  assumes "sha_ok lib" "record_ok lib r"
    and "load_from_secret_manager lib (Some r) g cb now p = Inr kr"
  shows "rotator_ok lib kr"
proof -
  obtain c where c: "rr_current_key r = hex_encode c"
    and prev: "rr_state r = rotation_state_string RotationGracePeriod \<Longrightarrow> rr_previous_key r \<noteq> [] \<Longrightarrow>
      \<exists>q. rr_previous_key r = hex_encode q \<and> derive_kid lib q \<noteq> derive_kid lib c"
    using assms(2) by (auto simp: record_ok_def)
  let ?k = "new_key_rotator lib c True g cb (Some r)"
  have k: "rotator_ok lib ?k" using assms(1,2)
    by (auto simp: rotator_ok_def new_key_rotator_def new_multi_key_ok record_ok_def)
  show ?thesis
  proof (cases "rr_state r = rotation_state_string RotationGracePeriod \<and> rr_previous_key r \<noteq> []")
    case True
    then obtain q where q: "rr_previous_key r = hex_encode q" "derive_kid lib q \<noteq> derive_kid lib c"
      using prev by blast
    let ?k1 = "?k\<lparr>kr_validator := restored_validator lib q (rr_grace_end r) (kr_validator ?k)\<rparr>"
    have k1: "rotator_ok lib ?k1"
      using k restored_validator_ok [OF assms(1) q(2)] by (simp add: rotator_ok_def) (simp add: new_key_rotator_def)
    have "rotator_ok lib (x\<lparr>kr_record := r\<rparr>)" if "rotator_ok lib x" for x
      using that assms(2) by (simp add: rotator_ok_def)
    moreover have "rotator_ok lib (?k1\<lparr>kr_timer := t\<rparr>)" for t using k1 by (simp add: rotator_ok_def)
    ultimately show ?thesis
      using assms(3) True complete_ok [OF k1, of p]
      by (auto simp: load_from_secret_manager_def c q Let_def split: if_splits)
  next
    case False
    then have "kr = ?k\<lparr>kr_record := r\<rparr>"
      using assms(3) by (auto simp: load_from_secret_manager_def c Let_def split: if_splits)
    then show ?thesis using k assms(2) by (simp add: rotator_ok_def)
  qed
qed

lemma rotation_step_ok:
  assumes "rotation_step lib kr kr'" "sha_ok lib" "rotator_ok lib kr"
  shows "rotator_ok lib kr'"
  using assms
proof induction
  case (Rotates kr key now p p')
  then show ?case by (simp add: rotate_ok)
next
  case (RollsBack kr p)
  then show ?case by (simp add: rollback_ok)
next
  case (Completes kr p)
  then show ?case by (simp add: complete_ok)
next
  case (Fires kr t)
  then show ?case by (simp add: timer_fires_def rotator_ok_def)
next
  case (CleansUp kr p)
  have "rotator_ok lib (kr\<lparr>kr_pending := n\<rparr>)" "rotator_ok lib (kr\<lparr>kr_pending := n, kr_events := es\<rparr>)" for n es
    using CleansUp.prems by (simp_all add: rotator_ok_def)
  then show ?case by (simp add: run_cleanup_def Let_def complete_ok)
next
  case (Restarts kr now p kr')
  then obtain r where "kr_secret kr = Some r" by (auto simp: load_from_secret_manager_def split: option.splits)
  then show ?case using Restarts load_ok by (auto simp: rotator_ok_def)
qed

text \<open>
  In every state that rotations, rollbacks, completions, timer callbacks and restarts can reach, the rotator holds exactly the current key, and the previous one while a grace period is active, each under its own key id.
\<close>

lemma rotator_holds_current_and_previous:
  assumes "sha_ok lib" "\<And>r. secret = Some r \<Longrightarrow> record_ok lib r"
    and "(rotation_step lib)\<^sup>*\<^sup>* (new_key_rotator lib key configured grace callback secret) kr"
  shows "mk_keys (kr_validator kr) (mk_current (kr_validator kr)) \<noteq> None \<and>
     key_count (kr_validator kr) = (if mk_grace_active (kr_validator kr) then 2 else 1) \<and>
     (\<forall>kid k. mk_keys (kr_validator kr) kid = Some k \<longrightarrow>
        derive_kid lib k = kid \<and> kid \<in> {mk_current (kr_validator kr), mk_previous (kr_validator kr)})"
proof -
  have "rotator_ok lib (new_key_rotator lib key configured grace callback secret)"
    using assms(1,2) by (auto simp: rotator_ok_def new_key_rotator_def new_multi_key_ok record_ok_def)
  with assms(3) have "rotator_ok lib kr"
    by (induction rule: rtranclp_induct) (auto intro: rotation_step_ok assms(1))
  then have v: "held_keys_ok lib (kr_validator kr)" by (simp add: rotator_ok_def)
  have "kid \<in> {mk_current (kr_validator kr), mk_previous (kr_validator kr)}"
    if "mk_keys (kr_validator kr) kid = Some k" for kid k
    using held_keys_ok_dom [OF v, of kid] that by auto
  moreover have "derive_kid lib k = kid" if "mk_keys (kr_validator kr) kid = Some k" for kid k
    using v that by (simp add: held_keys_ok_def)
  ultimately show ?thesis using held_keys_ok_count [OF v] held_keys_ok_current [OF v] by simp
qed

section \<open>Sessions across a rotation\<close>

lemma multi_key_validate_held:
  assumes "jwt_ok lib verifies" "sha_ok lib"
    and "generate_token_with_claims lib (user_claims u d use t0 ttl) key = Inr t"
    and "numeric_date t0 \<le> seen" "seen < numeric_date (t0 + ttl)"
    and "mk_keys v (derive_kid lib key) = Some key"
    and "\<not> (mk_grace_active v \<and> derive_kid lib key = mk_previous v \<and> mk_grace_end v < seen)"
  shows "multi_key_validate lib v t seen = Inr (user_claims u d use t0 ttl)"
proof -
  have "multi_key_lookup v \<lparr>jh_alg = ''HS256'', jh_kid = Some (derive_kid lib key)\<rparr> = Inr key"
    using assms(6) derive_kid_not_Nil [OF assms(2)] by (simp add: multi_key_lookup_def is_hmac_def)
  from minted_token_parses [OF assms(1,3), where kf = "multi_key_lookup v" and ms = "Some [''HS256'']",
      simplified, OF this assms(4,5)]
  show ?thesis using assms(7) by (simp add: multi_key_validate_def)
qed

lemma multi_key_validate_refused:
  assumes "jwt_ok lib verifies" "sha_ok lib"
    and "generate_token_with_claims lib (user_claims u d use t0 ttl) key = Inr t"
    and "mk_keys v (derive_kid lib key) = None \<or>
      mk_grace_active v \<and> derive_kid lib key = mk_previous v \<and> mk_grace_end v < seen"
  shows "\<exists>e. multi_key_validate lib v t seen = Inl e"
proof (cases "al_parse_with lib t (multi_key_lookup v) (Some [''HS256'']) seen")
  case (Inr x)
  obtain h c where x: "x = (h, c)" by fastforce
  have p: "al_parse lib t = Inr (h, c)" "\<exists>k. multi_key_lookup v h = Inr k"
    using Inr parse_with_iff [OF assms(1)] unfolding x by blast+
  then have h: "h = \<lparr>jh_alg = ''HS256'', jh_kid = Some (derive_kid lib key)\<rparr>"
    using sign_parses(1) [OF assms(1,3)] by simp
  show ?thesis
    using p(2) assms(4) derive_kid_not_Nil [OF assms(2)] Inr
    by (auto simp: h x multi_key_lookup_def multi_key_validate_def split: if_splits option.splits)
qed (simp add: multi_key_validate_def)

lemma rotate_succeeds:
  assumes "rotate_key lib (Some k) now p p' kr = (kr', Inr kid)"
  shows "kr_validator kr' = rotated_validator lib k (now + kr_grace kr) (kr_validator kr)"
    and "derive_kid lib k \<noteq> mk_current (kr_validator kr)" and "kid = derive_kid lib k"
    and "kr_pending kr' = kr_pending kr"
  using assms
  by (auto simp: rotate_key_def Let_def persist_record_def rotation_started_def
      split: if_splits prod.splits option.splits)

lemma rotated_validator_keys:
  assumes "held_keys_ok lib v" "derive_kid lib k \<noteq> mk_current v"
  shows "mk_keys (rotated_validator lib k e v) (mk_current v) = Some (key_at v (mk_current v))"
    and "mk_keys (rotated_validator lib k e v) (derive_kid lib k) = Some k"
    and "derive_kid lib (key_at v (mk_current v)) = mk_current v"
  using assms held_keys_ok_current [OF assms(1)] by (auto simp: rotated_validator_def held_keys_ok_def)

lemma complete_validator:
  "mk_grace_active (kr_validator kr) \<Longrightarrow>
   kr_validator (fst (complete_grace_period p kr)) =
     (kr_validator kr)\<lparr>mk_keys := (if mk_previous (kr_validator kr) \<noteq> []
          then (mk_keys (kr_validator kr))(mk_previous (kr_validator kr) := None) else mk_keys (kr_validator kr)),
        mk_previous := [], mk_grace_active := False, mk_grace_end := zero_time\<rparr>"
  by (simp add: complete_grace_period_def Let_def)

text \<open>
  C30: After a rotation, unexpired tokens of the old key are accepted up to the end of the grace period and refused after it or once the grace period has been completed; tokens of the new key are accepted throughout.
\<close>

theorem rotation_keeps_sessions_through_grace:
  assumes "jwt_ok lib verifies" "sha_ok lib" "rotator_ok lib kr"
    and "rotate_key lib (Some k) now p p' kr = (kr', Inr kid)"
    and "generate_token_with_claims lib (user_claims u d use t0 ttl) (fst (current_key (kr_validator kr))) = Inr old"
    and "generate_token_with_claims lib (user_claims u d use t0 ttl) k = Inr new"
    and "numeric_date t0 \<le> seen" "seen < numeric_date (t0 + ttl)"
  shows "(if seen \<le> now + kr_grace kr
          then multi_key_validate lib (kr_validator kr') old seen = Inr (user_claims u d use t0 ttl)
          else \<exists>e. multi_key_validate lib (kr_validator kr') old seen = Inl e) \<and>
     (\<exists>e. multi_key_validate lib (kr_validator (fst (complete_grace_period q kr'))) old seen = Inl e) \<and>
     multi_key_validate lib (kr_validator kr') new seen = Inr (user_claims u d use t0 ttl) \<and>
     multi_key_validate lib (kr_validator (fst (complete_grace_period q kr'))) new seen =
       Inr (user_claims u d use t0 ttl)"
proof -
  let ?v = "kr_validator kr" and ?w = "rotated_validator lib k (now + kr_grace kr) (kr_validator kr)"
  have v: "held_keys_ok lib ?v" using assms(3) by (simp add: rotator_ok_def)
  note r = rotate_succeeds [OF assms(4)]
  note keys = rotated_validator_keys [OF v r(2)]
  have cur: "mk_current ?v \<noteq> []" using v by (simp add: held_keys_ok_def)
  note old = assms(5) [unfolded current_key_def fst_conv]
  note held = multi_key_validate_held [OF assms(1,2) _ assms(7,8)]
  note refused = multi_key_validate_refused [OF assms(1,2)]
  have w: "mk_grace_active ?w" "mk_previous ?w = mk_current ?v" "mk_grace_end ?w = now + kr_grace kr"
    by (simp_all add: rotated_validator_def)
  have finished: "kr_validator (fst (complete_grace_period q kr')) =
      ?w\<lparr>mk_keys := (mk_keys ?w)(mk_current ?v := None), mk_previous := [], mk_grace_active := False,
        mk_grace_end := zero_time\<rparr>"
    using complete_validator [of kr' q] w cur by (simp add: r(1))
  show ?thesis
    using held [OF old, of ?w] refused [OF old, of ?w seen] held [OF assms(6), of ?w] r(2) keys w
      refused [OF old, of "kr_validator (fst (complete_grace_period q kr'))" seen]
      held [OF assms(6), of "kr_validator (fst (complete_grace_period q kr'))"]
    unfolding finished by (simp add: r(1))
qed

text \<open>
  A rotation that is undone, because the secret could not be written or by a rollback, leaves the discarded key in the stored secret: the running service accepts its sessions, and after a restart it signs with the discarded key and refuses them.
\<close>

lemma rollback_persists_discarded_key:
  assumes "jwt_ok lib verifies" "sha_ok lib" "rotator_ok lib kr" "kr_configured kr"
    and "derive_kid lib k \<noteq> mk_current (kr_validator kr)"
    and "kr' = fst (rotate_key lib (Some k) now PutFails PutOk kr) \<or>
         kr' = fst (rollback PutOk (fst (rotate_key lib (Some k) now PutOk PutOk kr)))"
    and "generate_token_with_claims lib (user_claims u d use t0 ttl) (fst (current_key (kr_validator kr))) = Inr t"
    and "numeric_date t0 \<le> seen" "seen < numeric_date (t0 + ttl)"
  shows "multi_key_validate lib (kr_validator kr') t seen = Inr (user_claims u d use t0 ttl) \<and>
     (\<exists>kr''. load_from_secret_manager lib (kr_secret kr') grace callback now' p = Inr kr'' \<and>
        current_key (kr_validator kr'') = (k, derive_kid lib k) \<and>
        (\<exists>e. multi_key_validate lib (kr_validator kr'') t seen = Inl e))"
proof -
  let ?v = "kr_validator kr" and ?w = "rotated_validator lib k (now + kr_grace kr) (kr_validator kr)"
  have v: "held_keys_ok lib ?v" using assms(3) by (simp add: rotator_ok_def)
  have cur: "mk_current ?v \<noteq> []" using v by (simp add: held_keys_ok_def)
  note keys = rotated_validator_keys [OF v assms(5)]
  let ?x = "?w\<lparr>mk_keys := (mk_keys ?w)(derive_kid lib k := None), mk_current := mk_current ?v,
        mk_previous := [], mk_grace_active := False, mk_grace_end := zero_time\<rparr>"
  have w: "mk_grace_active ?w" "mk_previous ?w = mk_current ?v" "mk_current ?w = derive_kid lib k"
    by (simp_all add: rotated_validator_def)
  have kr': "kr_validator kr' = ?x"
    "\<exists>r. kr_secret kr' = Some r \<and> rr_current_key r = hex_encode k \<and> rr_state r = rotation_state_string RotationIdle"
    using assms(4,5,6) w cur
    by (auto simp: rotate_key_def Let_def persist_record_def put_done_def rotation_started_def rollback_fst)
  have "multi_key_validate lib ?x t seen = Inr (user_claims u d use t0 ttl)"
    using assms(5) keys
    by (intro multi_key_validate_held [OF assms(1,2) assms(7) assms(8,9)]) (simp_all add: current_key_def)
  moreover obtain r where r: "kr_secret kr' = Some r" "rr_current_key r = hex_encode k"
    "rr_state r = rotation_state_string RotationIdle" using kr'(2) by blast
  have "load_from_secret_manager lib (kr_secret kr') grace callback now' p =
      Inr ((new_key_rotator lib k True grace callback (Some r))\<lparr>kr_record := r\<rparr>)"
    by (simp add: load_from_secret_manager_def r Let_def rotation_state_string.simps)
  moreover have "\<exists>e. multi_key_validate lib (new_multi_key lib k) t seen = Inl e"
    using assms(5) keys(3)
    by (intro multi_key_validate_refused [OF assms(1,2) assms(7)]) (simp add: new_multi_key_def current_key_def)
  moreover have "current_key (new_multi_key lib k) = (k, derive_kid lib k)"
    by (simp add: current_key_def key_at_def new_multi_key_def)
  ultimately show ?thesis by (simp add: kr'(1) new_key_rotator_def)
qed

text \<open>
  A cleanup callback that waits for the lock while a rotation runs ends the new grace period at
  once: it only checks that some grace period is active.
\<close>

lemma waiting_callback_ends_new_grace_period:
  assumes "jwt_ok lib verifies" "sha_ok lib" "rotator_ok lib kr"
    and "rotate_key lib (Some k) now p p' kr = (kr', Inr kid)"
    and "generate_token_with_claims lib (user_claims u d use t0 ttl) (fst (current_key (kr_validator kr))) = Inr t"
  shows "\<exists>e. multi_key_validate lib (kr_validator (run_cleanup q kr')) t seen = Inl e"
proof -
  have v: "held_keys_ok lib (kr_validator kr)" using assms(3) by (simp add: rotator_ok_def)
  note r = rotate_succeeds [OF assms(4)]
  have cur: "mk_current (kr_validator kr) \<noteq> []" using v by (simp add: held_keys_ok_def)
  have "mk_keys (kr_validator (run_cleanup q kr')) (mk_current (kr_validator kr)) = None"
    using cur by (simp add: run_cleanup_def Let_def r(1) complete_validator rotated_validator_def)
  then show ?thesis
    using rotated_validator_keys(3) [OF v r(2)]
    by (intro multi_key_validate_refused [OF assms(1,2,5)]) (simp add: current_key_def)
qed

section \<open>A rotation that runs\<close>

definition sample_rotator :: key_rotator where
  "sample_rotator = new_key_rotator sample_lib [7, 7] True (24 * hour_ns) False None"

lemma sample_kid: "derive_kid sample_lib [9] \<noteq> derive_kid sample_lib [7, 7]"
  by (simp add: derive_kid_def sample_lib_def del: hex_encode.simps)

lemma sample_rotator_ok: "rotator_ok sample_lib sample_rotator"
  by (simp add: sample_rotator_def rotator_ok_def new_key_rotator_def new_multi_key_ok sample_lib_ok record_ok_def
      del: hex_encode.simps)

lemma sample_rotator_sel:
  "kr_configured sample_rotator" "kr_grace sample_rotator = 24 * hour_ns"
  "mk_current (kr_validator sample_rotator) = derive_kid sample_lib [7, 7]"
  "current_key (kr_validator sample_rotator) = ([7, 7], derive_kid sample_lib [7, 7])"
  by (simp_all add: sample_rotator_def new_key_rotator_def new_multi_key_def current_key_def key_at_def)

lemma sample_mints: "\<exists>t. generate_token_with_claims sample_lib c key = Inr t"
  by (simp add: generate_token_with_claims_def) (simp add: sample_lib_def)

lemma sample_rotates:
  "\<exists>kr'. rotate_key sample_lib (Some [9]) 0 PutOk PutOk sample_rotator = (kr', Inr (derive_kid sample_lib [9]))"
proof -
  have "\<exists>kr'. persist_record PutOk kr = (kr', None)" for kr by (simp add: persist_record_def put_done_def)
  then obtain kr' where "persist_record PutOk (rotation_started sample_lib [9] 0 sample_rotator) = (kr', None)"
    by blast
  then show ?thesis by (simp add: rotate_key_def sample_rotator_sel sample_kid Let_def)
qed

lemma rotator_holds_current_and_previous_witness:
  "key_count (kr_validator (fst (rotate_key sample_lib (Some [9]) 0 PutOk PutOk sample_rotator))) = 2"
proof -
  let ?kr = "fst (rotate_key sample_lib (Some [9]) 0 PutOk PutOk sample_rotator)"
  obtain kr' where r: "rotate_key sample_lib (Some [9]) 0 PutOk PutOk sample_rotator = (kr', Inr (derive_kid sample_lib [9]))"
    using sample_rotates by blast
  have run: "(rotation_step sample_lib)\<^sup>*\<^sup>* (new_key_rotator sample_lib [7, 7] True (24 * hour_ns) False None) ?kr"
    unfolding sample_rotator_def by (rule r_into_rtranclp) (rule Rotates)
  have "mk_grace_active (kr_validator ?kr)"
    by (simp add: r rotate_succeeds(1) [OF r] rotated_validator_def)
  then show ?thesis using rotator_holds_current_and_previous [OF sample_lib_ok(3) _ run] by simp
qed

lemma rotation_keeps_sessions_through_grace_witness:
  "\<exists>kr' old. rotate_key sample_lib (Some [9]) 0 PutOk PutOk sample_rotator = (kr', Inr (derive_kid sample_lib [9])) \<and>
     multi_key_validate sample_lib (kr_validator kr') old hour_ns =
       Inr (user_claims ''u'' ''d'' ''access'' 0 (48 * hour_ns)) \<and>
     (\<exists>e. multi_key_validate sample_lib (kr_validator kr') old (25 * hour_ns) = Inl e)"
proof -
  let ?c = "user_claims ''u'' ''d'' ''access'' 0 (48 * hour_ns)"
  obtain kr' where r: "rotate_key sample_lib (Some [9]) 0 PutOk PutOk sample_rotator = (kr', Inr (derive_kid sample_lib [9]))"
    using sample_rotates by blast
  obtain old new where t: "generate_token_with_claims sample_lib ?c (fst (current_key (kr_validator sample_rotator))) = Inr old"
    "generate_token_with_claims sample_lib ?c [9] = Inr new" using sample_mints by meson
  note s = rotation_keeps_sessions_through_grace [OF sample_lib_ok(1,3) sample_rotator_ok r t]
  show ?thesis using r s [of hour_ns] s [of "25 * hour_ns"]
    by (intro exI [of _ kr'] exI [of _ old]) (simp add: numeric_date_def sample_rotator_sel)
qed

lemma rollback_persists_discarded_key_witness:
  "\<exists>kr' t kr''. kr' = fst (rotate_key sample_lib (Some [9]) 0 PutFails PutOk sample_rotator) \<and>
     multi_key_validate sample_lib (kr_validator kr') t hour_ns =
       Inr (user_claims ''u'' ''d'' ''access'' 0 (48 * hour_ns)) \<and>
     load_from_secret_manager sample_lib (kr_secret kr') 0 False hour_ns PutOk = Inr kr'' \<and>
     (\<exists>e. multi_key_validate sample_lib (kr_validator kr'') t hour_ns = Inl e)"
proof -
  let ?c = "user_claims ''u'' ''d'' ''access'' 0 (48 * hour_ns)"
  obtain t where t: "generate_token_with_claims sample_lib ?c (fst (current_key (kr_validator sample_rotator))) = Inr t"
    using sample_mints by meson
  have kid: "derive_kid sample_lib [9] \<noteq> mk_current (kr_validator sample_rotator)"
    by (simp add: sample_kid sample_rotator_sel)
  note s = rollback_persists_discarded_key [OF sample_lib_ok(1,3) sample_rotator_ok sample_rotator_sel(1) kid
      disjI1 [OF refl] t, of hour_ns 0 0 False hour_ns PutOk]
  then show ?thesis by (simp add: numeric_date_def) blast
qed

end
