(* ===== verification/Auth_Middleware.thy ===== *)
theory Auth_Middleware
  imports Key_Rotation
begin

text \<open>
  The middleware around the rotating validator (\<open>src/sync/internal/auth/middleware.go\<close>): Gin
  handlers, role checks, gRPC interceptors, exempted paths and the key discovery endpoint. A Gin
  handler aborts with a status and an error code or continues with the context it has built.
\<close>

record gin_ctx =
  gc_claims :: "token_claims option"
  gc_user :: "string option"
  gc_device :: "string option"

record gin_abort =
  ga_status :: nat
  ga_error :: string
  ga_kid :: "string option"
  ga_current_kid :: "string option"

definition abort :: "nat \<Rightarrow> string \<Rightarrow> gin_abort" where
  "abort s e = \<lparr>ga_status = s, ga_error = e, ga_kid = None, ga_current_kid = None\<rparr>"

text \<open>\<open>now\<close> is the clock of the validator, \<open>now'\<close> the later reading of the extra expiry check.\<close>

definition gin_middleware ::
  "auth_lib \<Rightarrow> multi_key \<Rightarrow> string \<Rightarrow> instant \<Rightarrow> instant \<Rightarrow> gin_ctx \<Rightarrow> gin_abort + gin_ctx" where
  "gin_middleware lib v h now now' ctx =
     (if h = [] then Inl (abort 401 ''missing_authorization_header'')
      else (case bearer_token h of
              None \<Rightarrow> Inl (abort 401 ''invalid_authorization_format'')
            | Some t \<Rightarrow>
                (case multi_key_validate lib v t now of
                   Inl _ \<Rightarrow>
                     (case parse_kid lib t of
                        Inr kid \<Rightarrow> Inl ((abort 401 ''token_invalid'')\<lparr>ga_kid := Some kid,
                                        ga_current_kid := Some (mk_current v)\<rparr>)
                      | Inl _ \<Rightarrow> Inl (abort 401 ''token_invalid''))
                 | Inr c \<Rightarrow>
                     if (case tc_exp c of None \<Rightarrow> False | Some e \<Rightarrow> e < now')
                     then Inl (abort 401 ''token_expired'')
                     else Inr (ctx\<lparr>gc_claims := Some c, gc_user := Some (tc_uid c),
                                   gc_device := Some (tc_did c)\<rparr>))))"

definition gin_optional_middleware ::
  "auth_lib \<Rightarrow> multi_key \<Rightarrow> string \<Rightarrow> instant \<Rightarrow> gin_ctx \<Rightarrow> gin_ctx" where
  "gin_optional_middleware lib v h now ctx =
     (if h = [] then ctx
      else (case bearer_token h of
              None \<Rightarrow> ctx
            | Some t \<Rightarrow>
                (case multi_key_validate lib v t now of
                   Inl _ \<Rightarrow> ctx
                 | Inr c \<Rightarrow> ctx\<lparr>gc_claims := Some c, gc_user := Some (tc_uid c)\<rparr>)))"

definition require_role :: "string \<Rightarrow> gin_ctx \<Rightarrow> gin_abort + gin_ctx" where
  "require_role role ctx =
     (case gc_claims ctx of
        None \<Rightarrow> Inl (abort 403 ''authentication_required'')
      | Some c \<Rightarrow>
          if tc_role c \<noteq> role \<and> tc_role c \<noteq> ''admin'' then Inl (abort 403 ''insufficient_permissions'')
          else Inr ctx)"

definition health_check_paths :: "string list" where
  "health_check_paths = [''/health'', ''/health/live'', ''/health/ready'', ''/metrics'', ''/.well-known/jwks.json'']"

definition gin_middleware_with_exemptions ::
  "auth_lib \<Rightarrow> multi_key \<Rightarrow> string \<Rightarrow> string \<Rightarrow> instant \<Rightarrow> instant \<Rightarrow> gin_ctx \<Rightarrow> gin_abort + gin_ctx" where
  "gin_middleware_with_exemptions lib v path h now now' ctx =
     (if path \<in> set health_check_paths then Inr ctx else gin_middleware lib v h now now' ctx)"

section \<open>gRPC\<close>

text \<open>The metadata of a call: absent, or the values under \<open>authorization\<close>.\<close>

definition grpc_claims ::
  "auth_lib \<Rightarrow> multi_key \<Rightarrow> string list option \<Rightarrow> instant \<Rightarrow> string + token_claims" where
  "grpc_claims lib v md now =
     (case md of
        None \<Rightarrow> Inl ''missing metadata''
      | Some [] \<Rightarrow> Inl ''missing authorization header''
      | Some (h # _) \<Rightarrow>
          (case bearer_token h of
             None \<Rightarrow> Inl ''invalid authorization format''
           | Some t \<Rightarrow>
               (case multi_key_validate lib v t now of
                  Inl e \<Rightarrow> Inl (''invalid token: '' @ e)
                | Inr c \<Rightarrow> Inr c)))"

definition grpc_unary_interceptor ::
  "auth_lib \<Rightarrow> multi_key \<Rightarrow> string list option \<Rightarrow> instant \<Rightarrow> request_ctx \<Rightarrow> string + request_ctx" where
  "grpc_unary_interceptor lib v md now ctx =
     map_sum id
       (\<lambda>c. ctx\<lparr>rc_claims := Some c,
                rc_user := Some (CtxUuid (case al_parse_uuid lib (tc_uid c) of Inl _ \<Rightarrow> uuid_nil | Inr u \<Rightarrow> u)),
                rc_device := Some (tc_did c)\<rparr>)
       (grpc_claims lib v md now)"

definition grpc_stream_interceptor ::
  "auth_lib \<Rightarrow> multi_key \<Rightarrow> string list option \<Rightarrow> instant \<Rightarrow> request_ctx \<Rightarrow> string + request_ctx" where
  "grpc_stream_interceptor lib v md now ctx =
     map_sum id (\<lambda>c. ctx\<lparr>rc_claims := Some c, rc_user := Some (CtxString (tc_uid c))\<rparr>)
       (grpc_claims lib v md now)"

section \<open>Key discovery\<close>

record jwk =
  jwk_kid :: string
  jwk_kty :: string
  jwk_alg :: string
  jwk_use :: string

definition handle_jwks :: "multi_key \<Rightarrow> jwk list" where
  "handle_jwks v =
     [\<lparr>jwk_kid = mk_current v, jwk_kty = ''oct'', jwk_alg = ''HS256'', jwk_use = ''sig''\<rparr>]"

section \<open>Who gets through\<close>

lemma grpc_claims_cases:
  "grpc_claims lib v md now = Inr c \<longleftrightarrow>
   (\<exists>h hs t. md = Some (h # hs) \<and> bearer_token h = Some t \<and> multi_key_validate lib v t now = Inr c)"
  by (auto simp: grpc_claims_def split: option.splits list.splits sum.splits)

text \<open>Streaming calls: the user id travels as a string, which the reader of the context ignores.\<close>

lemma stream_calls_have_no_user:
  "grpc_stream_interceptor lib v md now ctx = Inr ctx' \<Longrightarrow> must_get_user_id ctx' = Inl ''user ID not found in context''"
  by (cases "grpc_claims lib v md now")
    (auto simp: grpc_stream_interceptor_def must_get_user_id_def user_id_from_context_def)

text \<open>The extra expiry check never fires on a clock that has not moved.\<close>

lemma multi_key_validate_dates:
  assumes "jwt_ok lib verifies" "multi_key_validate lib v t now = Inr c"
  shows "dates_ok c now"
proof -
  obtain h where "al_parse_with lib t (multi_key_lookup v) (Some [''HS256'']) now = Inr (h, c)"
    using assms(2) by (auto simp: multi_key_validate_def split: sum.splits option.splits if_splits)
  then show ?thesis using parse_with_iff [OF assms(1)] by blast
qed

lemma gin_expiry_check_redundant:
  assumes "jwt_ok lib verifies" "gin_middleware lib v h now now ctx = Inl a"
  shows "ga_error a \<noteq> ''token_expired''"
proof
  assume e: "ga_error a = ''token_expired''"
  then obtain t c x where "multi_key_validate lib v t now = Inr c" "tc_exp c = Some x" "x < now"
    using assms(2) by (auto simp: gin_middleware_def abort_def split: if_splits option.splits sum.splits)
  then show False using multi_key_validate_dates [OF assms(1)] by (fastforce simp: dates_ok_def)
qed

text \<open>Only the role of a token that the validator accepts opens a guarded route.\<close>

lemma admin_route_needs_role:
  assumes "gin_middleware lib v h now now' ctx = Inr ctx'" "require_role role ctx' = Inr ctx''"
  shows "\<exists>t c. bearer_token h = Some t \<and> multi_key_validate lib v t now = Inr c \<and>
    (tc_role c = role \<or> tc_role c = ''admin'') \<and> gc_user ctx'' = Some (tc_uid c)"
  using assms by (auto simp: gin_middleware_def require_role_def split: if_splits option.splits sum.splits)

text \<open>All tokens the service mints carry the role user, so no minted token opens the rotation routes.\<close>

lemma minted_tokens_are_not_admin:
  assumes "jwt_ok lib verifies" "generate_token_with_claims lib (user_claims u d use t0 ttl) key = Inr t"
    and "gin_middleware lib v (bearer t) now now' ctx = Inr ctx'"
  shows "require_role ''admin'' ctx' = Inl (abort 403 ''insufficient_permissions'')"
proof -
  obtain c where c: "multi_key_validate lib v t now = Inr c" "gc_claims ctx' = Some c"
    using assms(3) by (auto simp: gin_middleware_def split: if_splits option.splits sum.splits)
  then obtain h where "al_parse_with lib t (multi_key_lookup v) (Some [''HS256'']) now = Inr (h, c)"
    by (auto simp: multi_key_validate_def split: sum.splits option.splits if_splits)
  then have "al_parse lib t = Inr (h, c)" using parse_with_iff [OF assms(1)] by blast
  then have "c = user_claims u d use t0 ttl" using sign_parses(1) [OF assms(1,2)] by simp
  then show ?thesis using c(2) by (simp add: require_role_def user_claims_def)
qed

end
