(* ===== verification/Sync_Server.thy ===== *)
theory Sync_Server
  imports Auth_Sessions Sync_Engine Decision Hub
begin

text \<open>
  The wiring of the sync service (\<open>src/sync/cmd/server/main.go\<close>): which routes run behind the JWT
  middleware, which context keys the handlers read, and the upgrade of WebSocket connections
  (\<open>ServeWS\<close> of \<open>src/sync/internal/websocket/handler.go\<close>). A request starts from a context
  without values; the middleware writes the keys of the package \<open>auth\<close>, the decision handlers read
  a key of their own.
\<close>

record server_ctx =
  sc_auth :: request_ctx
  sc_decision_user :: "uuid option"

definition background :: server_ctx where
  "background = \<lparr>sc_auth = empty_ctx, sc_decision_user = None\<rparr>"

text \<open>The middleware in front of a handler: a refusal, or the handler on the new context.\<close>

definition with_jwt ::
  "auth_lib \<Rightarrow> token_manager \<Rightarrow> instant \<Rightarrow> string \<Rightarrow> server_ctx \<Rightarrow> (string \<Rightarrow> 'r) \<Rightarrow> (server_ctx \<Rightarrow> 'r) \<Rightarrow> 'r" where
  "with_jwt lib tm now h ctx refuse handler =
     (case jwt_middleware lib tm h (sc_auth ctx) now of
        Inl code \<Rightarrow> refuse code
      | Inr a \<Rightarrow> handler (ctx\<lparr>sc_auth := a\<rparr>))"

record server_state =
  ss_world :: decision_world
  ss_auth :: auth_db

datatype api_request =
    PostDecide "uuid option" "(string \<times> string option) option"
  | PostDraft "uuid option" "string option"
  | PostApprove "uuid option" "bool option"
  | PostEdit "uuid option" "string option"
  | GetSource "uuid option"
  | PostConsult "(uuid \<times> string) option"
  | PostSend "uuid option"
  | PostDevice user_headers "register_request option"
  | PostRefresh "refresh_request option"
  | PostRevoke "string option"
  | GetSessions
  | PostSync "sync_request option"
  | Devices

datatype api_reply =
    Unauthenticated string
  | DecideReply "decide_response Decision.http_reply"
  | ApproveReply "unit Decision.http_reply"
  | SourceReply "chunk_citation list Decision.http_reply"
  | ConsultReply "consult_response Decision.http_reply"
  | SendReply "(instant \<times> string) Decision.http_reply"
  | TokenReply "token_response auth_reply"
  | RevokeReply "unit auth_reply"
  | SessionsReply "device_row list auth_reply"
  | SyncReply Sync_Engine.http_reply
  | NotImplemented

text \<open>The environments of the parts: the clock of the middleware is the one of \<open>auth_env\<close>.\<close>

record server_env =
  se_lib :: auth_lib
  se_tm :: token_manager
  se_auth :: auth_env
  se_decision :: decision_env
  se_sent :: decision_env
  se_process :: process_env

definition on_world :: "(decision_world \<times> 'a) \<Rightarrow> ('a \<Rightarrow> api_reply) \<Rightarrow> server_state \<Rightarrow> server_state \<times> api_reply" where
  "on_world r f s = (s\<lparr>ss_world := fst r\<rparr>, f (snd r))"

definition on_auth :: "(auth_db \<times> 'a) \<Rightarrow> ('a \<Rightarrow> api_reply) \<Rightarrow> server_state \<Rightarrow> server_state \<times> api_reply" where
  "on_auth r f s = (s\<lparr>ss_auth := fst r\<rparr>, f (snd r))"

text \<open>The handlers on a context, before the middleware is put in front of them.\<close>

fun handle_api :: "server_env \<Rightarrow> server_ctx \<Rightarrow> api_request \<Rightarrow> server_state \<Rightarrow> server_state \<times> api_reply" where
  "handle_api env ctx (PostDecide i b) s =
     on_world (handle_decide (se_decision env) (sc_decision_user ctx) i b (ss_world s)) DecideReply s"
| "handle_api env ctx (PostDraft i b) s =
     on_world (handle_request_draft (se_decision env) (sc_decision_user ctx) i b (ss_world s)) DecideReply s"
| "handle_api env ctx (PostApprove i b) s =
     on_world (handle_approve_draft (se_decision env) (sc_decision_user ctx) i b (ss_world s)) ApproveReply s"
| "handle_api env ctx (PostEdit i b) s =
     on_world (handle_edit_draft (se_decision env) (sc_decision_user ctx) i b (ss_world s)) DecideReply s"
| "handle_api env ctx (GetSource i) s =
     on_world (handle_get_source (se_decision env) (sc_decision_user ctx) i (ss_world s)) SourceReply s"
| "handle_api env ctx (PostConsult b) s =
     on_world (handle_consult (se_decision env) (sc_decision_user ctx) b (ss_world s)) ConsultReply s"
| "handle_api env ctx (PostSend b) s =
     on_world (handle_send (se_decision env) (se_sent env) (sc_decision_user ctx) b (ss_world s)) SendReply s"
| "handle_api env ctx (PostDevice h b) s =
     on_auth (handle_register_device (se_lib env) (se_tm env) (se_auth env) h b (ss_auth s)) TokenReply s"
| "handle_api env ctx (PostRefresh b) s =
     on_auth (handle_refresh_token (se_lib env) (se_tm env) (se_auth env) b (ss_auth s)) TokenReply s"
| "handle_api env ctx (PostRevoke b) s =
     on_auth (handle_revoke_session (se_auth env) (sc_auth ctx) b (ss_auth s)) RevokeReply s"
| "handle_api env ctx GetSessions s =
     (s, SessionsReply (handle_list_sessions (se_auth env) (sc_auth ctx) (ss_auth s)))"
| "handle_api env ctx (PostSync b) s =
     (let r = handle_sync (se_process env) (user_id_from_context (sc_auth ctx))
                (device_id_from_context (sc_auth ctx)) b (dw_db (ss_world s))
      in (s\<lparr>ss_world := (ss_world s)\<lparr>dw_db := fst r\<rparr>\<rparr>, SyncReply (snd r)))"
| "handle_api env ctx Devices s = (s, NotImplemented)"

text \<open>The routes under \<open>/auth\<close> are mounted outside the groups that use the middleware.\<close>

fun is_public :: "api_request \<Rightarrow> bool" where
  "is_public (PostDevice h b) = True"
| "is_public (PostRefresh b) = True"
| "is_public (PostRevoke b) = True"
| "is_public GetSessions = True"
| "is_public _ = False"

definition serve_api :: "server_env \<Rightarrow> string \<Rightarrow> api_request \<Rightarrow> server_state \<Rightarrow> server_state \<times> api_reply" where
  "serve_api env h req s =
     (if is_public req then handle_api env background req s
      else with_jwt (se_lib env) (se_tm env) (ae_now (se_auth env)) h background
             (\<lambda>code. (s, Unauthenticated code)) (\<lambda>ctx. handle_api env ctx req s))"

fun is_decision_route :: "api_request \<Rightarrow> bool" where
  "is_decision_route (PostDecide i b) = True"
| "is_decision_route (PostDraft i b) = True"
| "is_decision_route (PostApprove i b) = True"
| "is_decision_route (PostEdit i b) = True"
| "is_decision_route (GetSource i) = True"
| "is_decision_route (PostConsult b) = True"
| "is_decision_route (PostSend b) = True"
| "is_decision_route _ = False"

fun refuse_status :: "'a Decision.http_reply \<Rightarrow> nat" where
  "refuse_status (Reply _) = 200"
| "refuse_status (Refuse s _ _) = s"

fun denied_status :: "'a auth_reply \<Rightarrow> nat" where
  "denied_status (Answer _) = 200"
| "denied_status (Denied s _) = s"

fun sync_status :: "Sync_Engine.http_reply \<Rightarrow> nat" where
  "sync_status Unauthorized = 401"
| "sync_status BadJson = 400"
| "sync_status (BadRequest _) = 400"
| "sync_status SyncFailed = 500"
| "sync_status (SyncOk _) = 200"

fun api_status :: "api_reply \<Rightarrow> nat" where
  "api_status (Unauthenticated _) = 401"
| "api_status (DecideReply r) = refuse_status r"
| "api_status (ApproveReply r) = refuse_status r"
| "api_status (SourceReply r) = refuse_status r"
| "api_status (ConsultReply r) = refuse_status r"
| "api_status (SendReply r) = refuse_status r"
| "api_status (TokenReply r) = denied_status r"
| "api_status (RevokeReply r) = denied_status r"
| "api_status (SessionsReply r) = denied_status r"
| "api_status (SyncReply r) = sync_status r"
| "api_status NotImplemented = 501"

section \<open>WebSocket upgrades\<close>

record ws_request =
  wq_token :: string
  wq_device_header :: string
  wq_device_query :: string

text \<open>
  Steps 1 to 3 of \<open>ServeWS\<close>: the status and code of a refusal, or user and device. The device is
  the one the client names, not the one of the token.
\<close>

definition ws_authenticate ::
  "auth_lib \<Rightarrow> bytes option \<Rightarrow> instant \<Rightarrow> ws_request \<Rightarrow> nat \<times> string + uuid \<times> string" where
  "ws_authenticate lib validator now q =
     (if wq_token q = [] then Inl (401, ''auth_expired'')
      else (case validator of
              None \<Rightarrow> Inl (500, ''internal_error'')
            | Some secret \<Rightarrow>
                (case token_validator_validate lib secret (wq_token q) now of
                   Inl _ \<Rightarrow> Inl (401, ''auth_expired'')
                 | Inr c \<Rightarrow>
                    (let device = (if wq_device_header q = [] then wq_device_query q else wq_device_header q);
                         user = (if tc_uid c = [] then tc_sub c else tc_uid c)
                     in if device = [] then Inl (400, ''invalid_request'')
                        else if user = [] then Inl (401, ''auth_expired'')
                        else (case al_parse_uuid lib user of
                                Inl _ \<Rightarrow> Inl (401, ''auth_expired'')
                              | Inr u \<Rightarrow> Inr (u, device))))))"

text \<open>
  The whole upgrade on a hub: an older connection of the device is queued for unregistration when
  the queue has room, then the new client, whose owner the authentication fixes, registers.
\<close>

definition serve_ws ::
  "auth_lib \<Rightarrow> bytes option \<Rightarrow> instant \<Rightarrow> ws_request \<Rightarrow> bool \<Rightarrow> client \<Rightarrow> hub \<Rightarrow>
   nat \<times> string + (client \<times> uuid \<times> string) option \<times> hub" where
  "serve_ws lib validator now q upgrades c h =
     (case ws_authenticate lib validator now q of
        Inl e \<Rightarrow> Inl e
      | Inr (u, d) \<Rightarrow>
          (let h1 = (case find_client u d h of
                       None \<Rightarrow> h
                     | Some old \<Rightarrow>
                         if length (unregister_queue h) < unregister_capacity
                         then h\<lparr>unregister_queue := unregister_queue h @ [old]\<rparr> else h)
           in if upgrades then Inr (Some (c, u, d), h1) else Inr (None, h1)))"

section \<open>What the routes reach\<close>

lemma decision_without_user:
  "is_decision_route req \<Longrightarrow> sc_decision_user ctx = None \<Longrightarrow>
   fst (handle_api env ctx req s) = s \<and> api_status (snd (handle_api env ctx req s)) = 401"
  by (cases req)
    (simp_all add: on_world_def handle_decide_def handle_request_draft_def handle_approve_draft_def
      handle_edit_draft_def handle_get_source_def handle_consult_def handle_send_def auth_required_def)


text \<open>
  The routes that revoke and list sessions are mounted without the middleware, so they answer every request with status 401 and never delete a session, although their handlers do so for an authenticated context.
\<close>

lemma revocation_route_is_unreachable:
  "fst (serve_api env h (PostRevoke b) s) = s \<and> api_status (snd (serve_api env h (PostRevoke b) s)) = 401 \<and>
   fst (serve_api env h GetSessions s) = s \<and> api_status (snd (serve_api env h GetSessions s)) = 401"
  by (simp add: serve_api_def on_auth_def handle_revoke_session_def handle_list_sessions_def background_def
      empty_ctx_def user_id_from_context_def Let_def)

lemma access_token_reaches_handler:
  assumes "jwt_ok (se_lib env) verifies" "uuid_ok (se_lib env)"
    and "generate_access_token (se_lib env) (se_tm env) u d t0 = Inr t"
    and "numeric_date t0 \<le> ae_now (se_auth env)"
    and "ae_now (se_auth env) < numeric_date (t0 + tm_access_ttl (se_tm env))" "\<not> is_public req"
  shows "serve_api env (bearer t) req s =
    handle_api env (background\<lparr>sc_auth := empty_ctx\<lparr>rc_user := Some (CtxUuid u), rc_device := Some d\<rparr>\<rparr>) req s"
proof -
  note minted = assms(3) [unfolded generate_access_token_def]
  have dots: "count_char CHR ''.'' t = 2" by (rule sign_parses(3) [OF assms(1) minted])
  then have ne: "t \<noteq> []" by (intro count_pos_not_Nil [of "CHR ''.''"]) simp
  have "validate_use (se_lib env) (se_tm env) ''access'' t (ae_now (se_auth env)) = Inr (u, d)"
    by (rule validate_use_minted(1) [OF assms(1,2) minted assms(4,5)])
  then show ?thesis
    using dots ne assms(6) by (simp add: serve_api_def with_jwt_def jwt_middleware_bearer validate_access_token_def
        background_def)
qed

text \<open>
  A sync request with a valid access token runs the sync engine for exactly the user of the token and, when the token names one, the device of the token; without a valid token it changes nothing and is answered with status 401.
\<close>

lemma sync_runs_for_token_user:
  assumes "jwt_ok (se_lib env) verifies" "uuid_ok (se_lib env)"
    and "generate_access_token (se_lib env) (se_tm env) u d t0 = Inr t"
    and "numeric_date t0 \<le> ae_now (se_auth env)"
  shows "serve_api env (bearer t) (PostSync b) s =
    (if ae_now (se_auth env) < numeric_date (t0 + tm_access_ttl (se_tm env))
     then (let r = handle_sync (se_process env) u d b (dw_db (ss_world s))
           in (s\<lparr>ss_world := (ss_world s)\<lparr>dw_db := fst r\<rparr>\<rparr>, SyncReply (snd r)))
     else (s, Unauthenticated ''auth_expired''))"
proof (cases "ae_now (se_auth env) < numeric_date (t0 + tm_access_ttl (se_tm env))")
  case True
  have "\<not> is_public (PostSync b)" by simp
  from access_token_reaches_handler [OF assms True this] show ?thesis
    using True by (simp add: user_id_from_context_def device_id_from_context_def)
next
  case False
  note minted = assms(3) [unfolded generate_access_token_def]
  have dots: "count_char CHR ''.'' t = 2" by (rule sign_parses(3) [OF assms(1) minted])
  then have ne: "t \<noteq> []" by (intro count_pos_not_Nil [of "CHR ''.''"]) simp
  obtain e where "validate_use (se_lib env) (se_tm env) ''access'' t (ae_now (se_auth env)) = Inl e"
    "str_contains e ''expired''"
    using validate_use_expired [OF assms(1) minted False] by blast
  then show ?thesis
    using dots ne False by (simp add: serve_api_def with_jwt_def jwt_middleware_bearer validate_access_token_def)
qed

text \<open>
  The bare envelope of a refresh token opens a WebSocket connection for its user, on any device the client names, for as long as the refresh token lasts, while the HTTP middleware refuses it: the validator of the upgrade does not look at the use of the token.
\<close>

lemma websocket_accepts_refresh_envelope:
  assumes "jwt_ok lib verifies" "uuid_ok lib" "sha_ok lib" "al_show_uuid lib u \<noteq> []"
    and "generate_refresh_token lib tm u d t0 = Inr t" "cut_last CHR ''.'' t = Some (envelope, opaque)"
    and "numeric_date t0 \<le> now" "now < numeric_date (t0 + tm_refresh_ttl tm)" "device \<noteq> []"
  shows "ws_authenticate lib (Some (tm_secret tm)) now
      \<lparr>wq_token = envelope, wq_device_header = device, wq_device_query = q\<rparr> = Inr (u, device) \<and>
    jwt_middleware lib tm (bearer envelope) ctx now = Inl ''auth_invalid''"
proof -
  obtain v where v: "generate_token_with_claims lib
      (user_claims (al_show_uuid lib u) d ''refresh'' t0 (tm_refresh_ttl tm)) (tm_secret tm) = Inr v"
    "cut_last CHR ''.'' t = Some (v, b64_encode (opaque_part lib tm u d t0))"
    using generate_refresh_token_parts [OF assms(1,3,5)] by blast
  have env: "envelope = v" using v(2) assms(6) by simp
  have dots: "count_char CHR ''.'' v = 2" by (rule sign_parses(3) [OF assms(1) v(1)])
  then have ne: "v \<noteq> []" by (intro count_pos_not_Nil [of "CHR ''.''"]) simp
  let ?c = "user_claims (al_show_uuid lib u) d ''refresh'' t0 (tm_refresh_ttl tm)"
  let ?h = "\<lparr>jh_alg = ''HS256'', jh_kid = Some (derive_kid lib (tm_secret tm))\<rparr>"
  have p: "al_parse_with lib v (\<lambda>_. Inr (tm_secret tm)) None now = Inr (?h, ?c)"
    "al_parse_with lib v (manager_key tm) (Some [''HS256'']) now = Inr (?h, ?c)"
    by (rule minted_token_parses [OF assms(1) v(1)]; simp add: assms(7,8))+
  have no: "\<not> str_contains (''token use is '' @ go_quote ''refresh'' @ '', not '' @ ''access'') ''expired''"
    by code_simp
  have "validate_access_token lib tm v now = Inl (''token use is '' @ go_quote ''refresh'' @ '', not '' @ ''access'')"
    using p(2) dots ne by (simp add: validate_access_token_def validate_use_def)
  then have "jwt_middleware lib tm (bearer v) ctx now = Inl ''auth_invalid''"
    using no unfolding jwt_middleware_bearer [OF ne] by simp
  moreover have "ws_authenticate lib (Some (tm_secret tm)) now
      \<lparr>wq_token = v, wq_device_header = device, wq_device_query = q\<rparr> = Inr (u, device)"
    using p(1) ne assms(2,4,9) by (simp add: ws_authenticate_def token_validator_validate_def uuid_ok_def Let_def)
  ultimately show ?thesis by (simp add: env)
qed

section \<open>Examples\<close>

definition sample_server :: "instant \<Rightarrow> decision_env \<Rightarrow> process_env \<Rightarrow> server_env" where
  "sample_server t d p =
     \<lparr>se_lib = sample_lib, se_tm = sample_tm, se_auth = quiet_env t, se_decision = d, se_sent = d, se_process = p\<rparr>"


lemma sync_runs_for_token_user_witness:
  "\<exists>t. generate_access_token sample_lib sample_tm 3 ''d'' 0 = Inr t \<and>
     (\<forall>d p s. serve_api (sample_server minute_ns d p) (bearer t) (PostSync None) s = (s, SyncReply BadJson))"
proof -
  obtain t where t: "generate_access_token sample_lib sample_tm 3 ''d'' 0 = Inr t"
    using sample_access by blast
  have "serve_api (sample_server minute_ns d p) (bearer t) (PostSync None) s = (s, SyncReply BadJson)" for d p s
    using sync_runs_for_token_user [of "sample_server minute_ns d p" sample_verifies 3 "''d''" 0 t None s]
      sample_lib_ok(1,2) t
    by (simp add: sample_server_def quiet_env_def numeric_date_def sample_tm_def handle_sync_def)
  then show ?thesis using t by blast
qed

lemma websocket_accepts_refresh_envelope_witness:
  "\<exists>t envelope opaque. generate_refresh_token sample_lib sample_tm 3 ''d'' 0 = Inr t \<and>
     cut_last CHR ''.'' t = Some (envelope, opaque) \<and>
     jwt_middleware sample_lib sample_tm (bearer envelope) empty_ctx hour_ns = Inl ''auth_invalid''"
proof -
  obtain t where t: "generate_refresh_token sample_lib sample_tm 3 ''d'' 0 = Inr t"
    by (simp add: generate_refresh_token_def generate_token_with_claims_def) (simp add: sample_lib_def)
  then obtain v where v: "cut_last CHR ''.'' t = Some (v, b64_encode (opaque_part sample_lib sample_tm 3 ''d'' 0))"
    using generate_refresh_token_parts [OF sample_lib_ok(1,3)] by blast
  have "al_show_uuid sample_lib 3 \<noteq> []" by (simp add: sample_lib_def)
  from websocket_accepts_refresh_envelope [OF sample_lib_ok(1-3) this t v, of hour_ns "''x''"]
  show ?thesis using t v by (simp add: numeric_date_def sample_tm_def)
qed

end
