(* ===== verification/Batch_Estimator.thy ===== *)
theory Batch_Estimator
  imports Reagent_Prelude
begin

text \<open>
  The clear time estimator of the batch API (\<open>src/sync/internal/batch/estimator.go\<close>): an
  exponential moving average of the seconds a user spends on a card, kept in Redis with six
  decimals. Averages are rationals; a stored value is absent, does not parse, or is a number.
\<close>

datatype stored_average = NoAverage | BadAverage | Average rat

abbreviation (input) default_seconds :: rat where
  "default_seconds \<equiv> 45"

abbreviation (input) max_seconds :: rat where
  "max_seconds \<equiv> 600"

abbreviation (input) min_seconds :: rat where
  "min_seconds \<equiv> 5"

record timing =
  tm_average :: "uuid \<Rightarrow> stored_average"
  tm_last_clear :: "uuid \<Rightarrow> int option"

definition clamp_seconds :: "rat \<Rightarrow> rat" where
  "clamp_seconds x = (if x < min_seconds then min_seconds else if max_seconds < x then max_seconds else x)"

text \<open>\<open>strconv.FormatFloat(x, 'f', 6, 64)\<close> read back: six decimals, ties to even.\<close>

definition six_decimals :: "rat \<Rightarrow> rat" where
  "six_decimals x =
     (let y = x * 1000000; f = \<lfloor>y\<rfloor>; r = y - of_int f
      in (if r < 1 / 2 \<or> (r = 1 / 2 \<and> even f) then of_int f else of_int (f + 1)) / 1000000)"

definition get_average_seconds :: "bool \<Rightarrow> uuid \<Rightarrow> timing \<Rightarrow> rat" where
  "get_average_seconds fails u t =
     (if fails then default_seconds
      else (case tm_average t u of Average a \<Rightarrow> clamp_seconds a | _ \<Rightarrow> default_seconds))"

definition estimate_minutes :: "bool \<Rightarrow> uuid \<Rightarrow> int \<Rightarrow> timing \<Rightarrow> int" where
  "estimate_minutes fails u pending t =
     (if pending \<le> 0 then 0
      else max 1 \<lceil>of_int pending * get_average_seconds fails u t / 60\<rceil>)"

text \<open>\<open>RecordCardCleared\<close>: the flags say whether reading, storing and stamping fail.\<close>

definition next_average :: "rat \<Rightarrow> rat \<Rightarrow> rat" where
  "next_average elapsed avg = (1 / 5) * clamp_seconds elapsed + (1 - 1 / 5) * avg"

definition record_card_cleared ::
  "bool \<Rightarrow> bool \<Rightarrow> bool \<Rightarrow> instant \<Rightarrow> uuid \<Rightarrow> rat \<Rightarrow> timing \<Rightarrow> timing" where
  "record_card_cleared read_fails set_fails stamp_fails now u elapsed t =
     (if set_fails then t
      else
       (let t1 = t\<lparr>tm_average := (tm_average t)
              (u := Average (six_decimals (next_average elapsed (get_average_seconds read_fails u t))))\<rparr>
        in if stamp_fails then t1
           else t1\<lparr>tm_last_clear := (tm_last_clear t1)(u := Some (now div second_ns))\<rparr>))"

definition reset_timing :: "bool \<Rightarrow> uuid \<Rightarrow> timing \<Rightarrow> timing \<times> bool" where
  "reset_timing fails u t =
     (if fails then (t, False)
      else (t\<lparr>tm_average := (tm_average t)(u := NoAverage), tm_last_clear := (tm_last_clear t)(u := None)\<rparr>, True))"

definition get_last_cleared_at :: "bool \<Rightarrow> uuid \<Rightarrow> timing \<Rightarrow> instant" where
  "get_last_cleared_at fails u t =
     (if fails then zero_time
      else (case tm_last_clear t u of None \<Rightarrow> zero_time | Some s \<Rightarrow> s * second_ns))"

section \<open>Bounds\<close>

lemma clamp_seconds_bounds: "min_seconds \<le> clamp_seconds x" "clamp_seconds x \<le> max_seconds"
  by (simp_all add: clamp_seconds_def)

lemma clamp_seconds_id [simp]: "min_seconds \<le> x \<Longrightarrow> x \<le> max_seconds \<Longrightarrow> clamp_seconds x = x"
  by (simp add: clamp_seconds_def)

lemma get_average_bounds: "min_seconds \<le> get_average_seconds b u t" "get_average_seconds b u t \<le> max_seconds"
  by (auto simp: get_average_seconds_def clamp_seconds_bounds split: stored_average.split)

lemma six_decimals_error: "\<bar>six_decimals x - x\<bar> \<le> 1 / 2000000"
proof -
  define y where "y = x * 1000000"
  define f where "f = \<lfloor>y\<rfloor>"
  have f: "of_int f \<le> y" "y < of_int f + 1" unfolding f_def by linarith+
  have s: "six_decimals x =
      (if y - of_int f < 1 / 2 \<or> (y - of_int f = 1 / 2 \<and> even f) then of_int f else of_int (f + 1)) / 1000000"
    by (simp add: six_decimals_def Let_def y_def f_def)
  show ?thesis
  proof (cases "y - of_int f < 1 / 2 \<or> (y - of_int f = 1 / 2 \<and> even f)")
    case True
    then have "six_decimals x = of_int f / 1000000" using s by simp
    then have "six_decimals x - x = (of_int f - y) / 1000000" by (simp add: y_def field_simps)
    then have d: "\<bar>six_decimals x - x\<bar> = \<bar>of_int f - y\<bar> / 1000000" by (simp only: abs_divide abs_numeral)
    have "\<bar>of_int f - y\<bar> \<le> 1 / 2" using f True by (auto simp: abs_le_iff)
    then show ?thesis unfolding d by simp
  next
    case False
    then have "six_decimals x = of_int (f + 1) / 1000000" using s by simp
    then have "six_decimals x - x = (of_int f + 1 - y) / 1000000" by (simp add: y_def field_simps)
    then have d: "\<bar>six_decimals x - x\<bar> = \<bar>of_int f + 1 - y\<bar> / 1000000" by (simp only: abs_divide abs_numeral)
    have "\<bar>of_int f + 1 - y\<bar> \<le> 1 / 2" using f False by (auto simp: abs_le_iff)
    then show ?thesis unfolding d by simp
  qed
qed

lemma six_decimals_between:
  assumes "of_int a \<le> x" "x \<le> of_int b"
  shows "of_int a \<le> six_decimals x" "six_decimals x \<le> of_int b"
proof -
  define y where "y = x * 1000000"
  define f where "f = \<lfloor>y\<rfloor>"
  have s: "six_decimals x =
      (if y - of_int f < 1 / 2 \<or> (y - of_int f = 1 / 2 \<and> even f) then of_int f else of_int (f + 1)) / 1000000"
    by (simp add: six_decimals_def Let_def y_def f_def)
  have ya: "of_int (a * 1000000) \<le> y" and yb: "y \<le> of_int (b * 1000000)" using assms by (simp_all add: y_def)
  have fa: "a * 1000000 \<le> f" unfolding f_def using ya by linarith
  have fb: "f \<le> b * 1000000" and top: "f = b * 1000000 \<Longrightarrow> y = of_int f"
    unfolding f_def using yb by linarith+
  have "(of_int (a * 1000000) :: rat) \<le> of_int f" "(of_int f :: rat) \<le> of_int (b * 1000000)"
    using fa fb by (simp_all only: of_int_le_iff)
  moreover have "f < b * 1000000 \<Longrightarrow> (of_int (f + 1) :: rat) \<le> of_int (b * 1000000)"
    by (simp only: of_int_le_iff)
  ultimately show "of_int a \<le> six_decimals x" "six_decimals x \<le> of_int b"
    using top fb by (cases "f = b * 1000000"; simp add: s field_simps)+
qed

lemma next_average_bounds:
  assumes "min_seconds \<le> a" "a \<le> max_seconds"
  shows "min_seconds \<le> next_average e a" "next_average e a \<le> max_seconds"
  using assms clamp_seconds_bounds [of e] by (simp_all add: next_average_def)

lemma recorded_average:
  assumes "\<not> set_fails"
  shows "\<exists>a. tm_average (record_card_cleared rf set_fails sf now u e t) u = Average a \<and>
     min_seconds \<le> a \<and> a \<le> max_seconds \<and>
     a = six_decimals (next_average e (get_average_seconds rf u t))"
proof -
  let ?x = "next_average e (get_average_seconds rf u t)"
  have b: "of_int 5 \<le> ?x" "?x \<le> of_int 600" using next_average_bounds [OF get_average_bounds] by simp_all
  show ?thesis using assms six_decimals_between [OF b] by (simp add: record_card_cleared_def Let_def)
qed

text \<open>The estimate grows with the queue and stays between five seconds and ten minutes for each card.\<close>

lemma estimate_minutes_bounds:
  assumes "0 < pending"
  shows "1 \<le> estimate_minutes b u pending t \<and> of_int pending * 5 / 60 \<le> (of_int (estimate_minutes b u pending t) :: rat) \<and>
    estimate_minutes b u pending t \<le> pending * 10"
proof -
  let ?a = "get_average_seconds b u t"
  have p: "(0 :: rat) < of_int pending" using assms by simp
  have low: "of_int pending * 5 / 60 \<le> of_int pending * ?a / 60"
    using get_average_bounds(1) [of b u t] p by (simp add: field_simps)
  have "of_int pending * ?a / 60 \<le> of_int pending * 600 / 60"
    using get_average_bounds(2) [of b u t] p by (simp add: field_simps)
  then have "of_int pending * ?a / 60 \<le> of_int (pending * 10)" by simp
  then have top: "\<lceil>of_int pending * ?a / 60\<rceil> \<le> pending * 10" by (simp only: ceiling_le_iff)
  let ?e = "estimate_minutes b u pending t"
  have e: "?e = max 1 \<lceil>of_int pending * ?a / 60\<rceil>" using assms by (simp add: estimate_minutes_def)
  have "of_int pending * ?a / 60 \<le> of_int \<lceil>of_int pending * ?a / 60\<rceil>" by (rule le_of_int_ceiling)
  also have "\<dots> \<le> of_int ?e" unfolding e by simp
  finally have "of_int pending * 5 / 60 \<le> (of_int ?e :: rat)" using low by linarith
  then show ?thesis using e top assms by simp
qed

lemma estimate_minutes_mono: "p \<le> q \<Longrightarrow> estimate_minutes b u p t \<le> estimate_minutes b u q t"
proof -
  assume pq: "p \<le> q"
  have "0 \<le> get_average_seconds b u t" using get_average_bounds(1) [of b u t] by linarith
  then have "of_int p * get_average_seconds b u t / 60 \<le> of_int q * get_average_seconds b u t / 60"
    using pq by (simp add: mult_right_mono)
  then have "\<lceil>of_int p * get_average_seconds b u t / 60\<rceil> \<le> \<lceil>of_int q * get_average_seconds b u t / 60\<rceil>"
    by (rule ceiling_mono)
  then show ?thesis using pq by (auto simp: estimate_minutes_def)
qed

section \<open>Convergence\<close>

text \<open>Recording the same time again and again, with Redis available.\<close>

fun record_times :: "nat \<Rightarrow> instant \<Rightarrow> uuid \<Rightarrow> rat \<Rightarrow> timing \<Rightarrow> timing" where
  "record_times 0 now u e t = t"
| "record_times (Suc n) now u e t = record_card_cleared False False False now u e (record_times n now u e t)"

lemma one_step_error:
  assumes "min_seconds \<le> e" "e \<le> max_seconds"
  shows "\<bar>get_average_seconds False u (record_card_cleared False False sf now u e t) - e\<bar> \<le>
    4 / 5 * \<bar>get_average_seconds False u t - e\<bar> + 1 / 2000000"
proof -
  let ?a = "get_average_seconds False u t"
  obtain a' where a': "tm_average (record_card_cleared False False sf now u e t) u = Average a'"
    "min_seconds \<le> a'" "a' \<le> max_seconds" "a' = six_decimals (next_average e ?a)"
    using recorded_average [of False] by blast
  have g: "get_average_seconds False u (record_card_cleared False False sf now u e t) = a'"
    using a' by (simp add: get_average_seconds_def)
  have n: "next_average e ?a - e = 4 / 5 * (?a - e)" using assms by (simp add: next_average_def)
  have "\<bar>a' - e\<bar> \<le> \<bar>a' - next_average e ?a\<bar> + \<bar>next_average e ?a - e\<bar>" by linarith
  also have "\<bar>next_average e ?a - e\<bar> = 4 / 5 * \<bar>?a - e\<bar>" unfolding n abs_mult by simp
  also have "\<bar>a' - next_average e ?a\<bar> + 4 / 5 * \<bar>?a - e\<bar> \<le> 1 / 2000000 + 4 / 5 * \<bar>?a - e\<bar>"
    using six_decimals_error [of "next_average e ?a"] unfolding a'(4) [symmetric] by linarith
  finally show ?thesis by (simp add: g)
qed

lemma contract_error:
  "x \<le> 4 / 5 * y + 1 / 2000000 \<Longrightarrow> y \<le> z + 1 / 400000 \<Longrightarrow> x \<le> 4 / 5 * z + 1 / (400000 :: rat)"
  by linarith

text \<open>
  Whatever Redis holds, a recorded average lies between 5 and 600 seconds, and recording a time in that range again and again moves the average to it geometrically, up to the rounding to six decimals; the estimate for a non-empty queue lies between five seconds and ten minutes per card.
\<close>

lemma estimator_bounded_and_converges:
  assumes "min_seconds \<le> e" "e \<le> max_seconds"
  shows "\<bar>get_average_seconds False u (record_times n now u e t) - e\<bar> \<le>
      (4 / 5) ^ n * \<bar>get_average_seconds False u t - e\<bar> + 1 / 400000 \<and>
    (0 < n \<longrightarrow> (\<exists>a. tm_average (record_times n now u e t) u = Average a \<and> min_seconds \<le> a \<and> a \<le> max_seconds)) \<and>
    (0 < pending \<longrightarrow> estimate_minutes b u pending (record_times n now u e t) \<in> {1..pending * 10} \<and>
       of_int pending * 5 / 60 \<le> (of_int (estimate_minutes b u pending (record_times n now u e t)) :: rat))"
proof (intro conjI impI)
  show "\<bar>get_average_seconds False u (record_times n now u e t) - e\<bar> \<le>
      (4 / 5) ^ n * \<bar>get_average_seconds False u t - e\<bar> + 1 / 400000"
  proof (induction n)
    case (Suc n)
    let ?d = "\<bar>get_average_seconds False u t - e\<bar>"
    have "\<bar>get_average_seconds False u (record_times (Suc n) now u e t) - e\<bar> \<le> 4 / 5 * ((4 / 5) ^ n * ?d) + 1 / 400000"
      by (rule contract_error [OF one_step_error [OF assms, of u False now "record_times n now u e t",
          folded record_times.simps(2)] Suc.IH])
    then show ?case by simp
  qed simp
  show "\<exists>a. tm_average (record_times n now u e t) u = Average a \<and> min_seconds \<le> a \<and> a \<le> max_seconds" if "0 < n"
    using that recorded_average [of False] by (cases n) (auto simp del: record_card_cleared_def)
  assume p: "0 < pending"
  show "estimate_minutes b u pending (record_times n now u e t) \<in> {1..pending * 10}"
    "of_int pending * 5 / 60 \<le> (of_int (estimate_minutes b u pending (record_times n now u e t)) :: rat)"
    using estimate_minutes_bounds [OF p, of b u "record_times n now u e t"] by auto
qed

lemma estimator_bounded_and_converges_witness:
  "\<bar>get_average_seconds False 1 (record_times 20 0 1 100 \<lparr>tm_average = (\<lambda>_. NoAverage), tm_last_clear = (\<lambda>_. None)\<rparr>) - 100\<bar> \<le> 1"
proof -
  let ?t = "\<lparr>tm_average = (\<lambda>_. NoAverage), tm_last_clear = (\<lambda>_. None)\<rparr>"
  have "get_average_seconds False 1 ?t = 45" by (simp add: get_average_seconds_def)
  then have "\<bar>get_average_seconds False 1 (record_times 20 0 1 100 ?t) - 100\<bar> \<le> (4 / 5) ^ 20 * 55 + 1 / 400000"
    using conjunct1 [OF estimator_bounded_and_converges [of 100 1 20 0 ?t]] by simp
  moreover have "((4 / 5) ^ 20 * 55 + 1 / 400000 :: rat) \<le> 1" by (simp add: power_divide)
  ultimately show ?thesis by linarith
qed

end
