(* ===== verification/Batch_Queue.thy ===== *)
theory Batch_Queue
  imports Batch_Estimator Sync_Store "HOL-Library.Multiset"
begin

text \<open>
  The batch API of the sync service: the statements of \<open>src/sync/internal/batch/store.go\<close>, the
  queue manager of \<open>queue.go\<close> and the HTTP handlers of \<open>handler.go\<close>. The tables are those of the sync
  engine; Redis holds the version and the queue members of each user, the timings and what was
  published. The environment says which statements and Redis calls fail and what the clock and
  the local hour of the server are.
\<close>

datatype batch_call =
    SelectPending | CountPending | CountUrgent | BeginInsert | InsertCard | EnsureQueue | CommitInsert |
    SelectCard | UpdateCardState | UpsertVersion | SelectVersion | BumpPending | DropPending | SelectQueue |
    BeginSent | UpdateSent | UpdateSentQueue | CommitSent | InsertDismissal |
    BeginCreated | UpdateCreated | SelectCreated | CommitCreated | SelectNotified | UpdateNotified |
    RedisSetVersion | RedisZAdd | RedisZRange | RedisZRem | RedisPublish | RedisGetTiming | RedisSetTiming |
    RedisSetLast

record batch_env =
  be_fails :: "batch_call \<Rightarrow> bool"
  be_now :: instant
  be_hour :: int
  be_new_id :: uuid

record batch_world =
  bw_db :: sync_db
  bw_dismissals :: "(uuid \<times> instant) list"
  bw_version :: "uuid \<Rightarrow> int option"
  bw_members :: "uuid \<Rightarrow> (uuid \<times> int) list"
  bw_timing :: timing
  bw_published :: "(uuid \<times> instant) list"

section \<open>The store\<close>

definition pending_cards :: "uuid \<Rightarrow> sync_db \<Rightarrow> decision_card list" where
  "pending_cards user db = filter (\<lambda>c. card_user c = user \<and> card_state c = ''pending'') (cards db)"

text \<open>A limit of 0 or less means no LIMIT clause.\<close>

definition get_pending :: "batch_env \<Rightarrow> uuid \<Rightarrow> int \<Rightarrow> sync_db \<Rightarrow> string + decision_card list" where
  "get_pending env user limit db =
     (if be_fails env SelectPending then Inl ''select pending cards''
      else (let cs = order_queue (pending_cards user db)
            in Inr (if 0 < limit then take (nat limit) cs else cs)))"

definition get_pending_count :: "batch_env \<Rightarrow> uuid \<Rightarrow> sync_db \<Rightarrow> string + nat" where
  "get_pending_count env user db =
     (if be_fails env CountPending then Inl ''count pending cards'' else Inr (length (pending_cards user db)))"

definition get_urgent_count :: "batch_env \<Rightarrow> uuid \<Rightarrow> rat \<Rightarrow> sync_db \<Rightarrow> string + nat" where
  "get_urgent_count env user threshold db =
     (if be_fails env CountUrgent then Inl ''count urgent cards''
      else Inr (length (filter (\<lambda>c. threshold \<le> card_urgency c) (pending_cards user db))))"

text \<open>
  The defaults that both \<open>OnCardCreated\<close> and \<open>Insert\<close> fill in, then the insertion of the card
  and of the queue row in one transaction; a duplicate id violates the primary key.
\<close>

definition fill_card :: "batch_env \<Rightarrow> decision_card \<Rightarrow> decision_card" where
  "fill_card env c =
     c\<lparr>card_id := (if card_id c = uuid_nil then be_new_id env else card_id c),
       card_state := (if card_state c = [] then ''pending'' else card_state c),
       card_created_at := (if card_created_at c = zero_time then be_now env else card_created_at c),
       card_updated_at := (if card_updated_at c = zero_time then be_now env else card_updated_at c)\<rparr>"

definition insert_card :: "batch_env \<Rightarrow> decision_card \<Rightarrow> sync_db \<Rightarrow> string + sync_db" where
  "insert_card env c0 db =
     (let c = fill_card env c0
      in if be_fails env BeginInsert then Inl ''begin tx for card insert''
         else if be_fails env InsertCard \<or> card_id c \<in> set (map card_id (cards db)) then Inl ''insert decision card''
         else
          (case ensure_user_queue (be_fails env EnsureQueue) (be_now env) (card_user c)
                  (db\<lparr>cards := cards db @ [c]\<rparr>) of
             (_, Some _) \<Rightarrow> Inl ''ensure user queue''
           | (db', None) \<Rightarrow> if be_fails env CommitInsert then Inl ''commit card insert'' else Inr db'))"

definition batch_update_state :: "batch_env \<Rightarrow> uuid \<Rightarrow> string \<Rightarrow> sync_db \<Rightarrow> string + sync_db" where
  "batch_update_state env cid st db =
     (if st \<notin> set store_card_states then Inl (''invalid card state: '' @ st)
      else if be_fails env UpdateCardState then Inl ''update card state''
      else if rows_matching (\<lambda>c. card_id c = cid) (cards db) = 0 then Inl ''card not found''
      else Inr (db\<lparr>cards := update_rows (\<lambda>c. card_id c = cid)
                 (\<lambda>c. c\<lparr>card_state := st, card_updated_at := be_now env\<rparr>) (cards db)\<rparr>))"

definition batch_get_by_id :: "batch_env \<Rightarrow> uuid \<Rightarrow> sync_db \<Rightarrow> string + decision_card" where
  "batch_get_by_id env cid db =
     (if be_fails env SelectCard then Inl ''get card by id''
      else (case List.find (\<lambda>c. card_id c = cid) (cards db) of
              None \<Rightarrow> Inl ''card not found'' | Some c \<Rightarrow> Inr c))"

definition batch_increment_version :: "batch_env \<Rightarrow> uuid \<Rightarrow> sync_db \<Rightarrow> sync_db \<times> (store_error + int)" where
  "batch_increment_version env user db = increment_version (be_fails env UpsertVersion) (be_now env) user db"

definition get_server_version :: "batch_env \<Rightarrow> uuid \<Rightarrow> sync_db \<Rightarrow> store_error + int" where
  "get_server_version env user db = get_current_version (be_fails env SelectVersion) user db"

abbreviation update_queue :: "uuid \<Rightarrow> (user_queue \<Rightarrow> user_queue) \<Rightarrow> sync_db \<Rightarrow> sync_db" where
  "update_queue user f db \<equiv> db\<lparr>queues := update_rows (\<lambda>q. queue_user q = user) f (queues db)\<rparr>"

definition increment_pending_count :: "batch_env \<Rightarrow> uuid \<Rightarrow> sync_db \<Rightarrow> string + sync_db" where
  "increment_pending_count env user db =
     (if be_fails env BumpPending then Inl ''increment pending count''
      else Inr (update_queue user
        (\<lambda>q. q\<lparr>queue_pending := queue_pending q + 1, queue_updated_at := be_now env\<rparr>) db))"

definition decrement_pending_count :: "batch_env \<Rightarrow> uuid \<Rightarrow> sync_db \<Rightarrow> string + sync_db" where
  "decrement_pending_count env user db =
     (if be_fails env DropPending then Inl ''decrement pending count''
      else Inr (update_queue user
        (\<lambda>q. q\<lparr>queue_pending := max (queue_pending q - 1) 0, queue_updated_at := be_now env\<rparr>) db))"

definition get_user_queue :: "batch_env \<Rightarrow> uuid \<Rightarrow> sync_db \<Rightarrow> string + user_queue" where
  "get_user_queue env user db =
     (if be_fails env SelectQueue then Inl ''get user queue''
      else (case List.find (\<lambda>q. queue_user q = user) (queues db) of
              None \<Rightarrow> Inr \<lparr>queue_user = user, queue_pending = 0, queue_version = 0, queue_last_notified = None,
                            queue_created_at = zero_time, queue_updated_at = zero_time\<rparr>
            | Some q \<Rightarrow> Inr q))"

definition mark_card_sent :: "batch_env \<Rightarrow> uuid \<Rightarrow> uuid \<Rightarrow> sync_db \<Rightarrow> string + sync_db" where
  "mark_card_sent env user cid db =
     (if be_fails env BeginSent then Inl ''begin tx for mark sent''
      else if be_fails env UpdateSent then Inl ''update card to sent''
      else if be_fails env UpdateSentQueue then Inl ''decrement pending count on sent''
      else if be_fails env CommitSent then Inl ''commit mark card sent''
      else Inr (update_queue user
             (\<lambda>q. q\<lparr>queue_pending := max (queue_pending q - 1) 0, queue_version := queue_version q + 1,
                    queue_updated_at := be_now env\<rparr>)
             (db\<lparr>cards := update_rows (\<lambda>c. card_id c = cid \<and> card_user c = user)
                (\<lambda>c. c\<lparr>card_state := ''sent'', card_sent_at := Some (be_now env), card_updated_at := be_now env\<rparr>)
                (cards db)\<rparr>)))"

definition record_dismissal :: "batch_env \<Rightarrow> uuid \<Rightarrow> instant \<Rightarrow> batch_world \<Rightarrow> batch_world \<times> string option" where
  "record_dismissal env user t w =
     (if be_fails env InsertDismissal then (w, Some ''record dismissal'')
      else (w\<lparr>bw_dismissals := bw_dismissals w @ [(user, t)]\<rparr>, None))"

section \<open>The queue manager\<close>

record batch_info =
  bi_size :: nat
  bi_minutes :: int
  bi_cards :: "decision_card list"

definition clamp_limit :: "int \<Rightarrow> int" where
  "clamp_limit n = (let m = (if n \<le> 0 then 20 else n) in if 100 < m then 100 else m)"

definition get_batch :: "batch_env \<Rightarrow> uuid \<Rightarrow> int \<Rightarrow> batch_world \<Rightarrow> string + batch_info" where
  "get_batch env user limit w =
     (case get_pending env user (clamp_limit limit) (bw_db w) of
        Inl e \<Rightarrow> Inl (''get pending cards: '' @ e)
      | Inr cs \<Rightarrow>
          (case get_pending_count env user (bw_db w) of
             Inl e \<Rightarrow> Inl (''get pending count: '' @ e)
           | Inr n \<Rightarrow>
               Inr \<lparr>bi_size = n,
                    bi_minutes = estimate_minutes (be_fails env RedisGetTiming) user (int n) (bw_timing w),
                    bi_cards = cs\<rparr>))"

datatype next_card = NextFails string | QueueEmpty | NextCard decision_card

definition get_next_card :: "batch_env \<Rightarrow> uuid \<Rightarrow> batch_world \<Rightarrow> next_card" where
  "get_next_card env user w =
     (case get_pending env user 1 (bw_db w) of
        Inl e \<Rightarrow> NextFails (''get next card: '' @ e)
      | Inr [] \<Rightarrow> QueueEmpty
      | Inr (c # _) \<Rightarrow> NextCard c)"

abbreviation (input) urgent_threshold :: rat where
  "urgent_threshold \<equiv> 7 / 10"

definition get_counts :: "batch_env \<Rightarrow> uuid \<Rightarrow> sync_db \<Rightarrow> string + nat \<times> nat" where
  "get_counts env user db =
     (case get_pending_count env user db of
        Inl e \<Rightarrow> Inl (''get pending count: '' @ e)
      | Inr p \<Rightarrow>
          (case get_urgent_count env user urgent_threshold db of
             Inl e \<Rightarrow> Inl (''get urgent count: '' @ e) | Inr u \<Rightarrow> Inr (p, u)))"

definition set_redis_version :: "batch_env \<Rightarrow> uuid \<Rightarrow> int \<Rightarrow> batch_world \<Rightarrow> batch_world" where
  "set_redis_version env user v w =
     (if be_fails env RedisSetVersion then w else w\<lparr>bw_version := (bw_version w)(user := Some v)\<rparr>)"

definition increment_server_version :: "batch_env \<Rightarrow> uuid \<Rightarrow> batch_world \<Rightarrow> batch_world \<times> (store_error + int)" where
  "increment_server_version env user w =
     (case batch_increment_version env user (bw_db w) of
        (db, Inl e) \<Rightarrow> (w\<lparr>bw_db := db\<rparr>, Inl e)
      | (db, Inr v) \<Rightarrow> (set_redis_version env user v (w\<lparr>bw_db := db\<rparr>), Inr v))"

text \<open>
  \<open>shouldTriggerNotification\<close>: the hour is the one of the server. A failed or empty read of the
  last notification does not hold a notification back.
\<close>

definition should_trigger :: "batch_env \<Rightarrow> uuid \<Rightarrow> sync_db \<Rightarrow> string + bool" where
  "should_trigger env user db =
     (case get_counts env user db of
        Inl e \<Rightarrow> Inl e
      | Inr (p, u) \<Rightarrow>
          if 22 \<le> be_hour env \<or> be_hour env < 8 then Inr False
          else if \<not> be_fails env SelectNotified \<and>
             (case List.find (\<lambda>q. queue_user q = user) (queues db) of
                Some q \<Rightarrow> (case queue_last_notified q of
                            Some t \<Rightarrow> go_sub (be_now env) t < 15 * minute_ns | None \<Rightarrow> False)
              | None \<Rightarrow> False)
          then Inr False
          else Inr (5 \<le> p \<or> 1 \<le> u))"

definition trigger_notification :: "batch_env \<Rightarrow> uuid \<Rightarrow> batch_world \<Rightarrow> batch_world \<times> string option" where
  "trigger_notification env user w =
     (if be_fails env UpdateNotified then (w, Some ''update last_notification_at'')
      else
       (let w1 = w\<lparr>bw_db := update_queue user
              (\<lambda>q. q\<lparr>queue_last_notified := Some (be_now env), queue_updated_at := be_now env\<rparr>) (bw_db w)\<rparr>
        in if be_fails env RedisPublish then (w1, Some ''publish notification event'')
           else (w1\<lparr>bw_published := bw_published w1 @ [(user, be_now env)]\<rparr>, None)))"

definition count_created :: "batch_env \<Rightarrow> uuid \<Rightarrow> sync_db \<Rightarrow> string + sync_db \<times> int" where
  "count_created env user db =
     (if be_fails env BeginCreated then Inl ''begin tx for queue update''
      else if be_fails env UpdateCreated then Inl ''update user queue on create''
      else
       (let db1 = update_queue user
              (\<lambda>q. q\<lparr>queue_pending := queue_pending q + 1, queue_version := queue_version q + 1,
                     queue_updated_at := be_now env\<rparr>) db
        in (case List.find (\<lambda>q. queue_user q = user) (queues db1) of
              None \<Rightarrow> Inl ''fetch updated version''
            | Some q \<Rightarrow>
                if be_fails env SelectCreated then Inl ''fetch updated version''
                else if be_fails env CommitCreated then Inl ''commit card created''
                else Inr (db1, queue_version q))))"

text \<open>A result of \<open>None\<close> is success.\<close>

definition notify_if_due :: "batch_env \<Rightarrow> uuid \<Rightarrow> batch_world \<Rightarrow> batch_world" where
  "notify_if_due env user w =
     (case should_trigger env user (bw_db w) of
        Inr True \<Rightarrow> fst (trigger_notification env user w) | _ \<Rightarrow> w)"

definition on_card_created :: "batch_env \<Rightarrow> decision_card \<Rightarrow> batch_world \<Rightarrow> batch_world \<times> string option" where
  "on_card_created env c0 w =
     (let c = fill_card env c0; user = card_user c
      in (case insert_card env c (bw_db w) of
            Inl e \<Rightarrow> (w, Some (''insert card: '' @ e))
          | Inr db \<Rightarrow>
              (case count_created env user db of
                     Inl e \<Rightarrow> (w\<lparr>bw_db := db\<rparr>, Some e)
                   | Inr (db2, v) \<Rightarrow>
                       (let w2 = set_redis_version env user v (w\<lparr>bw_db := db2\<rparr>);
                            w3 = (if be_fails env RedisZAdd then w2
                                  else w2\<lparr>bw_members := (bw_members w2)(user := bw_members w2 user @ [(card_id c, v)])\<rparr>)
                        in (notify_if_due env user w3, None)))))"

text \<open>Both ways of clearing: \<open>elapsed\<close> is the time the client reports, or the default.\<close>

definition drop_member :: "batch_env \<Rightarrow> uuid \<Rightarrow> uuid \<Rightarrow> batch_world \<Rightarrow> batch_world" where
  "drop_member env user cid w =
     (if be_fails env RedisZRange \<or> be_fails env RedisZRem then w
      else (case List.find (\<lambda>m. fst m = cid) (bw_members w user) of
              None \<Rightarrow> w
            | Some m \<Rightarrow> w\<lparr>bw_members := (bw_members w)(user := filter (\<lambda>x. x \<noteq> m) (bw_members w user))\<rparr>))"

definition on_card_cleared_with_timing ::
  "batch_env \<Rightarrow> uuid \<Rightarrow> uuid \<Rightarrow> rat \<Rightarrow> batch_world \<Rightarrow> batch_world \<times> string option" where
  "on_card_cleared_with_timing env user cid elapsed w =
     (case mark_card_sent env user cid (bw_db w) of
        Inl e \<Rightarrow> (w, Some (''mark card sent: '' @ e))
      | Inr db \<Rightarrow>
          (let v = (case get_server_version env user db of Inl _ \<Rightarrow> 0 | Inr v \<Rightarrow> v);
               w1 = drop_member env user cid (set_redis_version env user v (w\<lparr>bw_db := db\<rparr>))
           in (w1\<lparr>bw_timing := record_card_cleared (be_fails env RedisGetTiming) (be_fails env RedisSetTiming)
                    (be_fails env RedisSetLast) (be_now env) user elapsed (bw_timing w1)\<rparr>, None)))"

definition on_card_cleared :: "batch_env \<Rightarrow> uuid \<Rightarrow> uuid \<Rightarrow> batch_world \<Rightarrow> batch_world \<times> string option" where
  "on_card_cleared env user cid w = on_card_cleared_with_timing env user cid default_seconds w"

section \<open>HTTP handlers\<close>

text \<open>The user is the one of the context, 0 when there is none.\<close>

datatype 'a batch_reply = BatchOk 'a | BatchError nat string

definition handle_get_batch :: "batch_env \<Rightarrow> uuid \<Rightarrow> int option \<Rightarrow> batch_world \<Rightarrow> batch_info batch_reply" where
  "handle_get_batch env user limit w =
     (if user = uuid_nil then BatchError 401 ''auth_expired''
      else
       (let n = (case limit of Some k \<Rightarrow> if 0 < k then k else 20 | None \<Rightarrow> 20)
        in (case get_batch env user n w of
              Inl _ \<Rightarrow> BatchError 500 ''internal_error'' | Inr b \<Rightarrow> BatchOk b)))"

definition handle_get_next_card :: "batch_env \<Rightarrow> uuid \<Rightarrow> batch_world \<Rightarrow> decision_card batch_reply" where
  "handle_get_next_card env user w =
     (if user = uuid_nil then BatchError 401 ''auth_expired''
      else (case get_next_card env user w of
              QueueEmpty \<Rightarrow> BatchError 404 ''queue_empty''
            | NextFails _ \<Rightarrow> BatchError 500 ''internal_error''
            | NextCard c \<Rightarrow> BatchOk c))"

definition handle_get_count :: "batch_env \<Rightarrow> uuid \<Rightarrow> batch_world \<Rightarrow> (nat \<times> nat) batch_reply" where
  "handle_get_count env user w =
     (if user = uuid_nil then BatchError 401 ''auth_expired''
      else (case get_counts env user (bw_db w) of
              Inl _ \<Rightarrow> BatchError 500 ''internal_error'' | Inr r \<Rightarrow> BatchOk r))"

text \<open>The body: does not decode, or an optional time.\<close>

definition handle_dismiss ::
  "batch_env \<Rightarrow> uuid \<Rightarrow> instant option option \<Rightarrow> batch_world \<Rightarrow> batch_world \<times> unit batch_reply" where
  "handle_dismiss env user body w =
     (if user = uuid_nil then (w, BatchError 401 ''auth_expired'')
      else (case body of
              None \<Rightarrow> (w, BatchError 400 ''invalid_request'')
            | Some t \<Rightarrow>
                (case record_dismissal env user (case t of None \<Rightarrow> be_now env | Some x \<Rightarrow> x) w of
                   (w', Some _) \<Rightarrow> (w', BatchError 500 ''internal_error'')
                 | (w', None) \<Rightarrow> (w', BatchOk ()))))"

section \<open>Batches are prefixes of the queue\<close>

lemma sorted_take_drop:
  assumes "sorted (map f xs)" "x \<in> set (take n xs)" "y \<in> set (drop n xs)"
  shows "f x \<le> f y"
proof -
  have "sorted (map f (take n xs) @ map f (drop n xs))" using assms(1) by (simp flip: map_append)
  then show ?thesis using assms(2,3) by (auto simp: sorted_append)
qed


section \<open>The pending counter\<close>

definition counter_exact :: "uuid \<Rightarrow> sync_db \<Rightarrow> bool" where
  "counter_exact user db \<longleftrightarrow>
     (\<exists>q. List.find (\<lambda>q. queue_user q = user) (queues db) = Some q \<and>
        queue_pending q = int (length (pending_cards user db)))"

lemma find_update_queue:
  "(\<And>q. queue_user (f q) = queue_user q) \<Longrightarrow>
   List.find (\<lambda>q. queue_user q = v) (update_rows (\<lambda>q. queue_user q = u) f rs) =
     map_option (\<lambda>q. if queue_user q = u then f q else q) (List.find (\<lambda>q. queue_user q = v) rs)"
  by (induction rs) (auto simp: update_rows_def)

lemma find_user: "List.find (\<lambda>q. queue_user q = u) rs = Some q \<Longrightarrow> queue_user q = u"
  by (auto simp: find_Some_iff)

lemma pending_after_sent:
  assumes "distinct (map card_id cs)"
  shows "length (filter (\<lambda>c. card_user c = user \<and> card_state c = ''pending'')
      (update_rows (\<lambda>c. card_id c = cid \<and> card_user c = user)
        (\<lambda>c. c\<lparr>card_state := ''sent'', card_sent_at := s, card_updated_at := t\<rparr>) cs)) =
    length (filter (\<lambda>c. card_user c = user \<and> card_state c = ''pending'') cs) -
      (if \<exists>c \<in> set cs. card_id c = cid \<and> card_user c = user \<and> card_state c = ''pending'' then 1 else 0)"
  using assms
proof (induction cs)
  case (Cons c cs)
  show ?case
  proof (cases "card_id c = cid")
    case True
    have other: "card_id d \<noteq> cid" if "d \<in> set cs" for d
    proof -
      have "card_id d \<in> card_id ` set cs" using that by (rule imageI)
      then show ?thesis using True Cons.prems by auto
    qed
    then have no: "\<not> (\<exists>d \<in> set cs. card_id d = cid \<and> card_user d = user \<and> card_state d = ''pending'')" by blast
    have "update_rows (\<lambda>c. card_id c = cid \<and> card_user c = user) f cs = cs" for f
      using other by (intro update_rows_no_match) auto
    then show ?thesis using True no by (auto simp: update_rows_def)
  next
    case False
    have "0 < length (filter (\<lambda>c. card_user c = user \<and> card_state c = ''pending'') cs)"
      if "\<exists>d \<in> set cs. card_id d = cid \<and> card_user d = user \<and> card_state d = ''pending''"
      using that by (auto simp: filter_empty_conv)
    then show ?thesis using False Cons by (auto simp: update_rows_def)
  qed
qed (simp add: update_rows_def)

lemma mark_card_sent_counter:
  assumes "distinct (map card_id (cards db))" "counter_exact user db" "mark_card_sent env user cid db = Inr db'"
  shows "counter_exact user db' \<longleftrightarrow>
    (\<exists>c \<in> set (pending_cards user db). card_id c = cid) \<or> pending_cards user db = []"
proof -
  obtain q where q: "List.find (\<lambda>q. queue_user q = user) (queues db) = Some q"
    "queue_pending q = int (length (pending_cards user db))" using assms(2) by (auto simp: counter_exact_def)
  let ?hit = "\<exists>c \<in> set (cards db). card_id c = cid \<and> card_user c = user \<and> card_state c = ''pending''"
  have db': "length (pending_cards user db') = length (pending_cards user db) - (if ?hit then 1 else 0)"
    "\<exists>q'. List.find (\<lambda>q. queue_user q = user) (queues db') = Some q' \<and> queue_pending q' = max (queue_pending q - 1) 0"
    using assms(3) find_user [OF q(1)] q(1)
    by (auto simp: mark_card_sent_def pending_cards_def pending_after_sent [OF assms(1)] find_update_queue split: if_splits)
  have hit: "?hit \<longleftrightarrow> (\<exists>c \<in> set (pending_cards user db). card_id c = cid)" by (auto simp: pending_cards_def)
  have "?hit \<Longrightarrow> pending_cards user db \<noteq> []" by (auto simp: hit)
  then show ?thesis using db' q(2) unfolding hit [symmetric] counter_exact_def
    by (cases "pending_cards user db") auto
qed

lemma insert_card_queue:
  assumes "insert_card env c db = Inr db'"
  shows "cards db' = cards db @ [fill_card env c]"
    and "List.find (\<lambda>q. queue_user q = card_user c) (queues db') =
      (case List.find (\<lambda>q. queue_user q = card_user c) (queues db) of
         None \<Rightarrow> Some \<lparr>queue_user = card_user c, queue_pending = 0, queue_version = 0, queue_last_notified = None,
                   queue_created_at = be_now env, queue_updated_at = be_now env\<rparr>
       | Some q \<Rightarrow> Some q)"
proof -
  have user: "card_user (fill_card env c) = card_user c" by (simp add: fill_card_def)
  have find_append: "List.find p (xs @ ys) = (case List.find p xs of None \<Rightarrow> List.find p ys | Some x \<Rightarrow> Some x)"
    for p :: "user_queue \<Rightarrow> bool" and xs ys by (induction xs) auto
  show "cards db' = cards db @ [fill_card env c]"
    using assms by (auto simp: insert_card_def Let_def ensure_user_queue_def split: if_splits)
  show "List.find (\<lambda>q. queue_user q = card_user c) (queues db') =
      (case List.find (\<lambda>q. queue_user q = card_user c) (queues db) of
         None \<Rightarrow> Some \<lparr>queue_user = card_user c, queue_pending = 0, queue_version = 0, queue_last_notified = None,
                   queue_created_at = be_now env, queue_updated_at = be_now env\<rparr>
       | Some q \<Rightarrow> Some q)"
  proof (cases "List.find (\<lambda>q. queue_user q = card_user c) (queues db)")
    case None
    then have "rows_matching (\<lambda>q. queue_user q = card_user c) (queues db) = 0" by (simp only: find_None_rows)
    then show ?thesis using assms None
      by (auto simp: insert_card_def Let_def ensure_user_queue_def user find_append split: if_splits)
  next
    case (Some q)
    then have "rows_matching (\<lambda>q. queue_user q = card_user c) (queues db) \<noteq> 0"
      using find_None_rows [of "\<lambda>q. queue_user q = card_user c" "queues db"] by (metis option.distinct(1))
    then show ?thesis using assms Some
      by (auto simp: insert_card_def Let_def ensure_user_queue_def user split: if_splits)
  qed
qed

lemma notify_if_due_frame [simp]:
  "cards (bw_db (notify_if_due env user w)) = cards (bw_db w)"
  "bw_dismissals (notify_if_due env user w) = bw_dismissals w"
  by (auto simp: notify_if_due_def trigger_notification_def Let_def split: sum.split bool.split)

lemma notify_if_due_cases:
  "notify_if_due env user w = w \<or>
   (should_trigger env user (bw_db w) = Inr True \<and> \<not> be_fails env UpdateNotified \<and>
    notify_if_due env user w = fst (trigger_notification env user w))"
  by (auto simp: notify_if_due_def trigger_notification_def Let_def split: sum.split bool.split)

lemma queues_after_trigger:
  "queues (bw_db (fst (trigger_notification env user w))) =
   (if be_fails env UpdateNotified then queues (bw_db w)
    else update_rows (\<lambda>q. queue_user q = user)
      (\<lambda>q. q\<lparr>queue_last_notified := Some (be_now env), queue_updated_at := be_now env\<rparr>) (queues (bw_db w)))"
  by (simp add: trigger_notification_def Let_def)

lemma counter_exact_alt:
  "counter_exact user db \<longleftrightarrow>
   map_option queue_pending (List.find (\<lambda>q. queue_user q = user) (queues db)) = Some (int (length (pending_cards user db)))"
  by (auto simp: counter_exact_def)

lemma notify_if_due_counter [simp]:
  "counter_exact u (bw_db (notify_if_due env user w)) = counter_exact u (bw_db w)"
proof (cases "notify_if_due env user w = w")
  case False
  then have n: "notify_if_due env user w = fst (trigger_notification env user w)" using notify_if_due_cases by blast
  have "cards (bw_db (fst (trigger_notification env user w))) = cards (bw_db w)"
    by (simp add: trigger_notification_def Let_def)
  moreover have "map_option queue_pending (List.find (\<lambda>q. queue_user q = u) (queues (bw_db (fst (trigger_notification env user w))))) =
      map_option queue_pending (List.find (\<lambda>q. queue_user q = u) (queues (bw_db w)))"
    by (cases "List.find (\<lambda>q. queue_user q = u) (queues (bw_db w))")
      (simp_all add: queues_after_trigger find_update_queue)
  ultimately show ?thesis unfolding n counter_exact_alt by (simp add: pending_cards_def)
qed simp

lemma set_redis_version_db [simp]: "bw_db (set_redis_version env user v w) = bw_db w"
  by (simp add: set_redis_version_def)

lemma on_card_created_ok:
  assumes "on_card_created env c w = (w', None)"
  obtains db1 db2 v w3 where "insert_card env (fill_card env c) (bw_db w) = Inr db1"
    and "count_created env (card_user c) db1 = Inr (db2, v)"
    and "bw_db w3 = db2" "bw_published w3 = bw_published w" "w' = notify_if_due env (card_user c) w3"
proof -
  have user: "card_user (fill_card env c) = card_user c" by (simp add: fill_card_def)
  obtain db1 where i: "insert_card env (fill_card env c) (bw_db w) = Inr db1"
    using assms by (auto simp: on_card_created_def Let_def split: sum.splits)
  obtain db2 v where k: "count_created env (card_user c) db1 = Inr (db2, v)"
    using assms i by (auto simp: on_card_created_def Let_def user split: sum.splits)
  let ?w2 = "set_redis_version env (card_user c) v (w\<lparr>bw_db := db2\<rparr>)"
  let ?w3 = "if be_fails env RedisZAdd then ?w2
     else ?w2\<lparr>bw_members := (bw_members ?w2)(card_user c := bw_members ?w2 (card_user c) @ [(card_id (fill_card env c), v)])\<rparr>"
  have "w' = notify_if_due env (card_user c) ?w3"
    using assms i k unfolding on_card_created_def Let_def user by simp
  moreover have "bw_db ?w3 = db2" "bw_published ?w3 = bw_published w" by (simp_all add: set_redis_version_def)
  ultimately show thesis using i k that by blast
qed

lemma count_created_ok:
  assumes "count_created env user db = Inr (db', v)"
  shows "cards db' = cards db"
    and "queues db' = update_rows (\<lambda>q. queue_user q = user)
      (\<lambda>q. q\<lparr>queue_pending := queue_pending q + 1, queue_version := queue_version q + 1,
             queue_updated_at := be_now env\<rparr>) (queues db)"
  using assms by (auto simp: count_created_def Let_def split: if_splits option.splits)

lemma fill_card_idem: "fill_card env (fill_card env c) = fill_card env c"
  by (simp add: fill_card_def)

lemma on_card_created_counter:
  assumes "on_card_created env c w = (w', None)"
    and "counter_exact (card_user c) (bw_db w) \<or>
      List.find (\<lambda>q. queue_user q = card_user c) (queues (bw_db w)) = None \<and> pending_cards (card_user c) (bw_db w) = []"
  shows "counter_exact (card_user c) (bw_db w') \<longleftrightarrow> card_state (fill_card env c) = ''pending''"
proof -
  obtain db1 db2 v w3 where i: "insert_card env (fill_card env c) (bw_db w) = Inr db1"
    and k: "count_created env (card_user c) db1 = Inr (db2, v)"
    and w: "bw_db w3 = db2" "w' = notify_if_due env (card_user c) w3"
    using on_card_created_ok [OF assms(1)] by metis
  have user: "card_user (fill_card env c) = card_user c" by (simp add: fill_card_def)
  note ins = insert_card_queue [OF i, unfolded fill_card_idem user]
  obtain q where q: "List.find (\<lambda>q. queue_user q = card_user c) (queues db1) = Some q"
    "queue_pending q = int (length (pending_cards (card_user c) (bw_db w)))"
    using assms(2) ins(2) by (auto simp: counter_exact_def)
  have q2: "List.find (\<lambda>q. queue_user q = card_user c) (queues db2) =
      Some (q\<lparr>queue_pending := queue_pending q + 1, queue_version := queue_version q + 1, queue_updated_at := be_now env\<rparr>)"
    using q(1) find_user [OF q(1)] by (simp add: count_created_ok(2) [OF k] find_update_queue)
  have "length (pending_cards (card_user c) db2) =
      length (pending_cards (card_user c) (bw_db w)) + (if card_state (fill_card env c) = ''pending'' then 1 else 0)"
    by (simp add: pending_cards_def count_created_ok(1) [OF k] ins(1) user)
  then have "counter_exact (card_user c) db2 \<longleftrightarrow> card_state (fill_card env c) = ''pending''"
    using q(2) q2 by (simp add: counter_exact_def)
  then show ?thesis by (simp add: w)
qed

text \<open>
  The stored counter of pending cards stays exact under the creation of a card exactly when the card is created pending, and under the clearing of a card exactly when it was a pending card of the user (or nothing was pending): clearing a card twice, or a foreign or unknown one, makes the counter too small.
\<close>

lemma pending_counter_exactness:
  assumes "distinct (map card_id (cards (bw_db w)))" "counter_exact user (bw_db w)"
  shows "(on_card_cleared_with_timing env user cid e w = (w1, None) \<longrightarrow>
       (counter_exact user (bw_db w1) \<longleftrightarrow>
          (\<exists>c \<in> set (pending_cards user (bw_db w)). card_id c = cid) \<or> pending_cards user (bw_db w) = [])) \<and>
     (card_user c = user \<and> on_card_created env c w = (w2, None) \<longrightarrow>
       (counter_exact user (bw_db w2) \<longleftrightarrow> card_state (fill_card env c) = ''pending''))"
proof (intro conjI impI)
  assume a: "on_card_cleared_with_timing env user cid e w = (w1, None)"
  obtain db where m: "mark_card_sent env user cid (bw_db w) = Inr db"
    using a by (auto simp: on_card_cleared_with_timing_def split: sum.splits)
  have "bw_db (drop_member env user cid x) = bw_db x" for x by (simp add: drop_member_def split: option.split)
  then have "bw_db w1 = db" using a m by (auto simp: on_card_cleared_with_timing_def Let_def)
  then show "counter_exact user (bw_db w1) \<longleftrightarrow>
      (\<exists>c \<in> set (pending_cards user (bw_db w)). card_id c = cid) \<or> pending_cards user (bw_db w) = []"
    using mark_card_sent_counter [OF assms m] by simp
next
  assume "card_user c = user \<and> on_card_created env c w = (w2, None)"
  then show "counter_exact user (bw_db w2) \<longleftrightarrow> card_state (fill_card env c) = ''pending''"
    using on_card_created_counter [of env c w w2] assms(2) by simp
qed

section \<open>Throttled notifications\<close>

definition last_notified :: "uuid \<Rightarrow> sync_db \<Rightarrow> instant option" where
  "last_notified user db =
     (case List.find (\<lambda>q. queue_user q = user) (queues db) of None \<Rightarrow> None | Some q \<Rightarrow> queue_last_notified q)"

definition published_to :: "uuid \<Rightarrow> batch_world \<Rightarrow> instant list" where
  "published_to user w = map snd (filter (\<lambda>e. fst e = user) (bw_published w))"

definition spaced :: "instant list \<Rightarrow> bool" where
  "spaced ts \<longleftrightarrow> sorted_wrt (\<lambda>s t. 15 * minute_ns \<le> t - s) ts"

text \<open>Requests of the batch API; the read of the last notification works.\<close>

inductive batch_step :: "batch_world \<Rightarrow> batch_world \<Rightarrow> bool" where
  CardCreated: "\<not> be_fails env SelectNotified \<Longrightarrow> batch_step w (fst (on_card_created env c w))"
| CardCleared: "batch_step w (fst (on_card_cleared_with_timing env user cid e w))"
| VersionBumped: "batch_step w (fst (increment_server_version env user w))"
| Dismissed: "batch_step w (fst (handle_dismiss env user body w))"

definition throttle_ok :: "batch_world \<Rightarrow> bool" where
  "throttle_ok w \<longleftrightarrow>
     (\<forall>user. spaced (published_to user w) \<and>
        (published_to user w \<noteq> [] \<longrightarrow>
           (\<exists>t. last_notified user (bw_db w) = Some t \<and> (\<forall>s \<in> set (published_to user w). s \<le> t))))"

lemma throttle_frame:
  assumes "throttle_ok w" "bw_published w' = bw_published w"
    and "\<And>u. last_notified u (bw_db w) = None \<or> last_notified u (bw_db w') = last_notified u (bw_db w)"
  shows "throttle_ok w'"
  using assms unfolding throttle_ok_def published_to_def by (metis option.distinct(1))

lemma last_notified_update:
  assumes "\<And>q. queue_user (f q) = queue_user q" "\<And>q. queue_last_notified (f q) = queue_last_notified q"
  shows "last_notified u (db\<lparr>queues := update_rows (\<lambda>q. queue_user q = user) f (queues db)\<rparr>) = last_notified u db"
  using find_update_queue [of f u user "queues db", OF assms(1)] assms(2)
  by (auto simp: last_notified_def split: option.split)

lemma last_notified_append:
  "last_notified u db = None \<or> last_notified u (db\<lparr>queues := queues db @ rs\<rparr>) = last_notified u db"
proof -
  have "List.find p (xs @ ys) = (case List.find p xs of None \<Rightarrow> List.find p ys | Some x \<Rightarrow> Some x)"
    for p :: "user_queue \<Rightarrow> bool" and xs ys by (induction xs) auto
  then show ?thesis by (simp add: last_notified_def split: option.split)
qed

lemma last_notified_cong: "queues db = queues db' \<Longrightarrow> last_notified u db = last_notified u db'"
  by (simp add: last_notified_def)

lemma trigger_keeps_throttle:
  assumes "throttle_ok w" "\<not> be_fails env SelectNotified" "should_trigger env user (bw_db w) = Inr True"
    and "\<exists>q. List.find (\<lambda>q. queue_user q = user) (queues (bw_db w)) = Some q"
  shows "throttle_ok (fst (trigger_notification env user w))"
proof (cases "be_fails env UpdateNotified")
  case False
  let ?w = "fst (trigger_notification env user w)"
  obtain q where q: "List.find (\<lambda>q. queue_user q = user) (queues (bw_db w)) = Some q" using assms(4) by blast
  have gap: "15 * minute_ns \<le> be_now env - t" if "last_notified user (bw_db w) = Some t" for t
  proof -
    have "queue_last_notified q = Some t" using that q by (simp add: last_notified_def)
    then have "\<not> go_sub (be_now env) t < 15 * minute_ns"
      using assms(2,3) q by (auto simp: should_trigger_def split: sum.splits prod.splits if_splits)
    then show ?thesis by (simp add: go_sub_def)
  qed
  have stamp: "last_notified u (bw_db ?w) = (if u = user then Some (be_now env) else last_notified u (bw_db w))" for u
    using False q find_user
    by (auto simp: last_notified_def queues_after_trigger find_update_queue split: option.split)
  have pub: "published_to u ?w = published_to u w @ (if u = user \<and> \<not> be_fails env RedisPublish then [be_now env] else [])" for u
    using False by (simp add: published_to_def trigger_notification_def Let_def)
  show ?thesis unfolding throttle_ok_def
  proof
    fix u
    have old: "spaced (published_to u w)"
      "published_to u w \<noteq> [] \<Longrightarrow> \<exists>t. last_notified u (bw_db w) = Some t \<and> (\<forall>s \<in> set (published_to u w). s \<le> t)"
      using assms(1) by (auto simp: throttle_ok_def)
    have late: "15 * minute_ns \<le> be_now env - s" if uu: "u = user" and ss: "s \<in> set (published_to u w)" for s
    proof -
      have "published_to u w \<noteq> []" using ss by auto
      then obtain t where "last_notified u (bw_db w) = Some t" "s \<le> t" using old(2) ss by blast
      then show ?thesis using gap [of t] uu by simp
    qed
    show "spaced (published_to u ?w) \<and> (published_to u ?w \<noteq> [] \<longrightarrow>
        (\<exists>t. last_notified u (bw_db ?w) = Some t \<and> (\<forall>s \<in> set (published_to u ?w). s \<le> t)))"
    proof (cases "u = user")
      case True
      have "s \<le> be_now env" if "s \<in> set (published_to u w)" for s using late [OF True that] by simp
      then show ?thesis using old(1) late [OF True] True
        by (auto simp: pub stamp spaced_def sorted_wrt_append)
    qed (use old in \<open>simp add: pub stamp\<close>)
  qed
qed (simp add: trigger_notification_def assms(1))

lemma insert_card_notified:
  assumes "insert_card env c db = Inr db'"
  shows "last_notified u db = None \<or> last_notified u db' = last_notified u db"
proof -
  have "queues db' = queues db \<or> (\<exists>rs. queues db' = queues db @ rs)"
    using assms by (auto simp: insert_card_def Let_def ensure_user_queue_def split: if_splits)
  then show ?thesis
  proof
    assume "\<exists>rs. queues db' = queues db @ rs"
    then obtain rs where "queues db' = queues db @ rs" by blast
    then have "last_notified u db' = last_notified u (db\<lparr>queues := queues db @ rs\<rparr>)" by (simp add: last_notified_def)
    then show ?thesis using last_notified_append [of u db rs] by simp
  qed (simp add: last_notified_def)
qed

lemma on_card_created_throttle:
  assumes "throttle_ok w" "\<not> be_fails env SelectNotified"
  shows "throttle_ok (fst (on_card_created env c w))"
proof (cases "insert_card env (fill_card env c) (bw_db w)")
  case (Inl e)
  then show ?thesis using assms(1) by (simp add: on_card_created_def Let_def)
next
  case (Inr db1)
  have user: "card_user (fill_card env c) = card_user c" by (simp add: fill_card_def)
  note ins = insert_card_notified [OF Inr]
  have found: "\<exists>q. List.find (\<lambda>q. queue_user q = card_user c) (queues db1) = Some q"
    using insert_card_queue(2) [OF Inr] by (simp add: user split: option.splits)
  show ?thesis
  proof (cases "count_created env (card_user c) db1")
    case (Inl e)
    then have "fst (on_card_created env c w) = w\<lparr>bw_db := db1\<rparr>"
      using Inr by (simp add: on_card_created_def Let_def user)
    then show ?thesis using throttle_frame [OF assms(1), of "w\<lparr>bw_db := db1\<rparr>"] ins by simp
  next
    case (Inr x)
    obtain db2 v where x: "x = (db2, v)" by fastforce
    then have "\<exists>w'. on_card_created env c w = (w', None)"
      using \<open>insert_card _ _ _ = _\<close> Inr by (simp add: on_card_created_def Let_def user)
    then obtain w' where w': "on_card_created env c w = (w', None)" by blast
    obtain w3 where w3: "bw_db w3 = db2" "bw_published w3 = bw_published w" "w' = notify_if_due env (card_user c) w3"
      using on_card_created_ok [OF w'] \<open>insert_card _ _ _ = _\<close> Inr x by (metis Inr_inject prod.inject)
    have q2: "queues db2 = update_rows (\<lambda>q. queue_user q = card_user c)
        (\<lambda>q. q\<lparr>queue_pending := queue_pending q + 1, queue_version := queue_version q + 1,
             queue_updated_at := be_now env\<rparr>) (queues db1)"
      using count_created_ok(2) Inr x by simp
    have "last_notified u db2 = last_notified u db1" for u
      using last_notified_update [of "\<lambda>q. q\<lparr>queue_pending := queue_pending q + 1,
          queue_version := queue_version q + 1, queue_updated_at := be_now env\<rparr>" u "card_user c" db1]
      by (simp add: last_notified_def q2)
    then have ok3: "throttle_ok w3" using throttle_frame [OF assms(1), of w3] ins w3(1,2) by simp
    have "\<exists>q. List.find (\<lambda>q. queue_user q = card_user c) (queues (bw_db w3)) = Some q"
      using found by (auto simp: w3(1) q2 find_update_queue)
    then have "throttle_ok (notify_if_due env (card_user c) w3)"
      using notify_if_due_cases [of env "card_user c" w3] trigger_keeps_throttle [OF ok3 assms(2)] ok3 by metis
    then show ?thesis by (simp add: w' w3(3))
  qed
qed

lemma batch_step_throttle:
  assumes "batch_step w w'" "throttle_ok w"
  shows "throttle_ok w'"
  using assms
proof induction
  case (CardCreated env w c)
  then show ?case by (simp add: on_card_created_throttle)
next
  case (CardCleared w env user cid e)
  show ?case
  proof (cases "mark_card_sent env user cid (bw_db w)")
    case (Inr db)
    have "last_notified u db = last_notified u (bw_db w)" for u
      using Inr last_notified_update [of "\<lambda>q. q\<lparr>queue_pending := max (queue_pending q - 1) 0,
          queue_version := queue_version q + 1, queue_updated_at := be_now env\<rparr>" u user "bw_db w"]
      by (auto simp: mark_card_sent_def last_notified_def split: if_splits)
    moreover have "bw_db (fst (on_card_cleared_with_timing env user cid e w)) = db"
      "bw_published (fst (on_card_cleared_with_timing env user cid e w)) = bw_published w"
      using Inr by (simp_all add: on_card_cleared_with_timing_def Let_def drop_member_def set_redis_version_def
          split: option.split)
    ultimately show ?thesis using throttle_frame [OF CardCleared] by metis
  qed (use CardCleared in \<open>simp add: on_card_cleared_with_timing_def\<close>)
next
  case (VersionBumped w env user)
  obtain db r where r: "batch_increment_version env user (bw_db w) = (db, r)" by fastforce
  have "last_notified u (bw_db w) = None \<or> last_notified u db = last_notified u (bw_db w)" for u
    using r last_notified_append [of u "bw_db w"]
      last_notified_update [of "\<lambda>q. q\<lparr>queue_version := queue_version q + 1, queue_updated_at := be_now env\<rparr>" u user "bw_db w"]
    by (auto simp: batch_increment_version_def increment_version_def split: if_splits option.splits)
  moreover have "bw_db (fst (increment_server_version env user w)) = db"
    "bw_published (fst (increment_server_version env user w)) = bw_published w"
    using r by (simp_all add: increment_server_version_def set_redis_version_def split: sum.split)
  ultimately show ?case using throttle_frame [OF VersionBumped] by metis
next
  case (Dismissed w env user body)
  have "bw_db (fst (handle_dismiss env user body w)) = bw_db w"
    "bw_published (fst (handle_dismiss env user body w)) = bw_published w"
    by (auto simp: handle_dismiss_def record_dismissal_def split: option.split prod.split)
  then show ?case using throttle_frame [OF Dismissed] by simp
qed

text \<open>
  In any run of the batch API in which the last notification can be read, two batch notifications of the same user are at least 15 minutes apart.
\<close>

lemma batch_notifications_throttled:
  assumes "batch_step\<^sup>*\<^sup>* w w'" "bw_published w = []"
    and "i < j" "j < length (published_to user w')"
  shows "15 * minute_ns \<le> published_to user w' ! j - published_to user w' ! i"
proof -
  have "throttle_ok w" using assms(2) by (simp add: throttle_ok_def published_to_def spaced_def)
  with assms(1) have "throttle_ok w'" by (induction rule: rtranclp_induct) (auto intro: batch_step_throttle)
  then have "spaced (published_to user w')" by (simp add: throttle_ok_def)
  then show ?thesis using assms(3,4) by (simp add: spaced_def sorted_wrt_iff_nth_less)
qed

section \<open>A creation that fails half way\<close>

text \<open>
  When the card is stored and the queue update fails, the caller sees an error although the card
  is pending, and a second attempt with the same card is refused as a duplicate: the card is never
  counted, versioned or announced.
\<close>

lemma half_created_card_is_never_counted:
  assumes "on_card_created env c w = (w', Some e)" "insert_card env (fill_card env c) (bw_db w) = Inr db1"
    and "card_id c \<noteq> uuid_nil"
  shows "fill_card env c \<in> set (cards (bw_db w')) \<and> (\<exists>m. on_card_created env' c w' = (w', Some m))"
proof -
  note i = assms(2)
  have w': "w' = w\<lparr>bw_db := db1\<rparr>" using assms(1) i by (auto simp: on_card_created_def Let_def split: sum.splits)
  have in1: "fill_card env c \<in> set (cards db1)" using insert_card_queue(1) [OF i] by (simp add: fill_card_idem)
  have "card_id (fill_card env' (fill_card env' c)) = card_id (fill_card env c)" using assms(3) by (simp add: fill_card_def)
  then have "card_id (fill_card env' (fill_card env' c)) \<in> card_id ` set (cards db1)" using in1 by simp
  then have "\<exists>m. insert_card env' (fill_card env' c) db1 = Inl m" by (simp add: insert_card_def Let_def)
  then show ?thesis using in1 by (auto simp: w' on_card_created_def Let_def)
qed

section \<open>Examples\<close>

definition batch_card :: "uuid \<Rightarrow> rat \<Rightarrow> decision_card" where
  "batch_card i u =
     \<lparr>card_id = i, card_user = 1, card_thread = 1, card_account = 1, card_state = ''pending'', card_from = [],
      card_they_want = [], card_context = [], card_need = [], card_citations = [], card_urgency = u,
      card_rule = None, card_confidence = None, card_deadline = None, card_decided_at = None, card_sent_at = None,
      card_version = 0, card_created_at = 1, card_updated_at = 1\<rparr>"

definition batch_world0 :: "decision_card list \<Rightarrow> batch_world" where
  "batch_world0 cs =
     \<lparr>bw_db = \<lparr>cards = cs, drafts = [], queues = [\<lparr>queue_user = 1, queue_pending = int (length cs), queue_version = 0,
         queue_last_notified = None, queue_created_at = 0, queue_updated_at = 0\<rparr>], sync_log = [], decision_log = []\<rparr>,
      bw_dismissals = [], bw_version = (\<lambda>_. None), bw_members = (\<lambda>_. []),
      bw_timing = \<lparr>tm_average = (\<lambda>_. NoAverage), tm_last_clear = (\<lambda>_. None)\<rparr>, bw_published = []\<rparr>"

definition batch_env0 :: "instant \<Rightarrow> batch_env" where
  "batch_env0 t = \<lparr>be_fails = (\<lambda>_. False), be_now = t, be_hour = 12, be_new_id = 99\<rparr>"


lemma pending_counter_exactness_witness:
  "counter_exact 1 (bw_db (batch_world0 [batch_card 1 0])) \<and>
   \<not> counter_exact 1 (bw_db (fst (on_card_cleared_with_timing (batch_env0 0) 1 5 10 (batch_world0 [batch_card 1 0]))))"
proof
  let ?w = "batch_world0 [batch_card 1 0]"
  have pend: "pending_cards 1 (bw_db ?w) = [batch_card 1 0]" by (simp add: pending_cards_def batch_world0_def batch_card_def)
  show exact: "counter_exact 1 (bw_db ?w)" unfolding counter_exact_def pend by (simp add: batch_world0_def)
  have "\<exists>w1. on_card_cleared_with_timing (batch_env0 0) 1 5 10 ?w = (w1, None)"
    by (simp add: on_card_cleared_with_timing_def mark_card_sent_def batch_env0_def Let_def)
  then obtain w1 where w1: "on_card_cleared_with_timing (batch_env0 0) 1 5 10 ?w = (w1, None)" by blast
  have "distinct (map card_id (cards (bw_db ?w)))" by (simp add: batch_world0_def)
  from pending_counter_exactness [OF this exact, of "batch_env0 0" 5 10 w1]
  show "\<not> counter_exact 1 (bw_db (fst (on_card_cleared_with_timing (batch_env0 0) 1 5 10 ?w)))"
    using w1 pend by (simp add: batch_card_def)
qed

lemma batch_notifications_throttled_witness:
  "\<exists>w. batch_step\<^sup>*\<^sup>* (batch_world0 []) w \<and> published_to 1 w = [0, hour_ns] \<and>
     15 * minute_ns \<le> published_to 1 w ! 1 - published_to 1 w ! 0"
proof -
  let ?w0 = "batch_world0 []"
  let ?w1 = "fst (on_card_created (batch_env0 0) (batch_card 1 (9/10)) ?w0)"
  let ?w2 = "fst (on_card_created (batch_env0 hour_ns) (batch_card 2 (9/10)) ?w1)"
  have s: "batch_step ?w0 ?w1" "batch_step ?w1 ?w2" by (rule CardCreated; simp add: batch_env0_def)+
  then have run: "batch_step\<^sup>*\<^sup>* ?w0 ?w2" by (meson converse_rtranclp_into_rtranclp rtranclp.rtrancl_refl)
  have p: "published_to 1 ?w2 = [0, hour_ns]"
    by code_simp
  have "published_to 1 ?w2 ! 1 - published_to 1 ?w2 ! 0 \<ge> 15 * minute_ns"
  proof (rule batch_notifications_throttled [OF run])
    show "bw_published ?w0 = []" by (simp add: batch_world0_def)
    show "(0::nat) < 1" by simp
    show "1 < length (published_to 1 ?w2)" unfolding p by simp
  qed
  then show ?thesis using run p by blast
qed

end
