(* ===== verification/Spec2Isabelle.thy ===== *)
theory Spec2Isabelle
  imports Circuit_Breaker Sync_Merge Decision Extractor Notify_Dispatch Event_Assembler Backfill_Worker OAuth_Handler Webhook_Handler
    Archive_Job Rate_Limits Log_Sanitizer Ws_Session Send_Consumer Auth_Middleware Sync_Server Batch_Queue
begin

text \<open>
  A verification development for Reagent, a mail assistant built from three Go services. The
  ingestion mesh polls mail accounts, parses mail and groups it into threads; the classification
  engine routes every mail to extraction, automatic handling or a decision card; the sync service
  keeps the cards, drafts and devices of a user in step and turns decisions into mail. They share
  a PostgreSQL database and exchange events over NATS. The theories model the logic of these
  services as functions on explicit state, statement by statement, with the failures of the
  environment as arguments, and prove what each part promises and where it does not keep it.

  \<^bold>\<open>Theories and code.\<close>
  \<^item> \<open>Reagent_Prelude\<close>: identifiers, Go's times and durations (\<open>Time.Sub\<close> saturates), ASCII string
    functions of the standard library, lookups on lists. \<open>Tables\<close>: a table is the list of its
    rows; UPDATE as a rewrite of matching rows; the locale \<open>row_evolution\<close> of tables whose rows
    change by a preorder and grow at the end.
  \<^item> \<open>Circuit_Breaker\<close> (\<open>sync/internal/circuitbreaker\<close>): state, queries, recordings, \<open>Call\<close>, the
    registry, and \<open>cb_step\<close>, the system in which calls overlap.
  \<^item> \<open>Sync_Data\<close> and \<open>Sync_Store\<close> (\<open>sync/internal/models\<close>, \<open>sync/store.go\<close>, \<open>sync/cursor.go\<close>): cards,
    drafts, queues, logs and every SQL statement on them. \<open>Sync_Engine\<close> (\<open>conflict.go\<close>,
    \<open>merger.go\<close>, \<open>handler.go\<close>): the sync request, phase by phase. \<open>Sync_Merge\<close>: the merge contract
    \<open>merges\<close> and the properties of a request.
  \<^item> \<open>Decision_Store\<close> and \<open>Decision\<close> (\<open>sync/internal/decision\<close>): stores, proxies to the intelligence
    layer behind their circuit breakers, approval flow, processor, HTTP handlers; \<open>decision_step\<close>
    is one request in any environment.
  \<^item> \<open>Rule_Predicate\<close> (\<open>classification/internal/auto/predicate.go\<close> and the second evaluator of
    \<open>internal/models\<close>): predicates over mail attributes and the bounded pattern cache.
    \<open>Rule_Store\<close> (\<open>auto/store.go\<close>, \<open>auto/loader.go\<close>): the rule table and the rule cache.
    \<open>Rule_Lifecycle\<close> (\<open>internal/rules\<close>, \<open>internal/staging\<close>): creation, the 48 hour staging window,
    activation by the cron job, revocation; \<open>staging_step\<close> and \<open>cached_step\<close> are their runs.
    \<open>Auto_Engine\<close> (\<open>auto/engine.go\<close>, \<open>action.go\<close>, \<open>llm_fallback.go\<close>): matching, actions, fallback.
    \<open>Classification\<close> (\<open>internal/router\<close>, \<open>internal/classifier\<close>): routing, validation, settlement of
    messages. \<open>Extractor\<close> (\<open>internal/extract\<close>): the bank of patterns, the tokenizer and the neural
    classifier, the extractor of the worker.
  \<^item> \<open>Hub\<close> (\<open>sync/internal/websocket/hub.go\<close>): the connection map and its channels; closing or
    sending on a closed channel is the outcome \<open>HubPanic\<close>; \<open>hub_step\<close> is one event of the loop.
  \<^item> \<open>Quiet_Hours\<close> (\<open>sync/internal/notify/quiet_hours.go\<close>). \<open>Thread_Subject\<close>
    (\<open>ingestion/internal/thread/fuzzy.go\<close>, \<open>key.go\<close>): normal forms of subjects, edit distance,
    thread keys. \<open>Thread_Engine\<close> (\<open>thread/engine.go\<close>): the thread table and the three ways a mail
    finds its thread. \<open>Send_Consumer\<close> (\<open>ingestion/internal/nats/send_consumer.go\<close>,
    \<open>server/handler_send.go\<close>): sending approved drafts at most once per job as far as it goes.
  \<^item> \<open>Go_Encoding\<close>: hexadecimal, base64, decimal and quoted strings of the Go library.
    \<open>Auth_Tokens\<close>, \<open>Key_Rotation\<close>, \<open>Auth_Middleware\<close>, \<open>Auth_Sessions\<close> (\<open>sync/internal/auth\<close>):
    tokens, the rotating signing keys with their grace period, the HTTP middleware, the devices and
    sessions with their handlers. \<open>Sync_Server\<close> (\<open>sync/cmd/server/main.go\<close>,
    \<open>websocket/handler.go\<close>): which middleware stands before which route and what an upgrade accepts.
  \<^item> \<open>Batch_Estimator\<close> and \<open>Batch_Queue\<close> (\<open>sync/internal/batch\<close>): the moving average of review
    times, the queue of cards in Redis with its store, the assembly of a batch and its notification.
  \<^item> \<open>Go_Json\<close>: JSON trees, civil dates and time formats of the Go library. \<open>Notify_Builders\<close>,
    \<open>Notify_Push\<close> and \<open>Notify_Dispatch\<close> (\<open>sync/internal/notify\<close>): the notifications, the push
    clients with their error classes, the store with its preferences and deferrals, the dispatcher
    over devices and hub.
  \<^item> \<open>Contacts\<close> (\<open>ingestion/internal/contact\<close>): normal forms, similarity, the contact graph and its
    deduplication. \<open>Event_Assembler\<close> (\<open>ingestion/internal/events\<close>, \<open>internal/tx\<close>): thread, contacts and
    mail row of an ingested mail, its event and the publication; transactions.
  \<^item> \<open>Poll_Limits\<close> and \<open>Poll_State\<close> (\<open>ingestion/internal/poll/ratelimit.go\<close>, \<open>backoff.go\<close>, \<open>state.go\<close>): the quota
    scripts over Redis keys with an expiry, the back-off, the accounts with their cursors and the world a
    poller works on. \<open>Poll_Gmail\<close> and \<open>Poll_Outlook\<close> (\<open>gmail.go\<close>, \<open>outlook.go\<close>): a polling cycle from token to
    cursor. \<open>Fetch_Gmail\<close> and \<open>Fetch_Outlook\<close> (\<open>ingestion/internal/fetch\<close>): what the pollers get from the
    provider clients. \<open>Poll_Worker\<close> (\<open>worker.go\<close>, \<open>scheduler.go\<close>, \<open>cmd/worker/main.go\<close>): the processor of a
    job, pool and scheduler, and \<open>poll_step\<close>, their interleavings with the shutdown.
  \<^item> \<open>Backfill_Queue\<close> and \<open>Backfill_Worker\<close> (\<open>ingestion/internal/backfill\<close>): the jobs of first imports,
    their queue and progress hashes in Redis, the hourly counter, the listing loops and the worker.
  \<^item> \<open>Token_Crypto\<close> (\<open>ingestion/internal/crypto\<close>): tokens sealed under data keys, the key cache, the heap
    of key slices. \<open>OAuth_Store\<close> (\<open>oauth/storage.go\<close>): the token columns of an account and the refresh.
    \<open>OAuth_Providers\<close>, \<open>OAuth_Google\<close> and \<open>OAuth_Microsoft\<close> (\<open>provider.go\<close>, \<open>google.go\<close>,
    \<open>microsoft.go\<close>): the two providers. \<open>OAuth_Handler\<close> (\<open>handler.go\<close>): login, login states, callback.
  \<^item> \<open>Fetch_Queue\<close> (\<open>ingestion/internal/fetch/job.go\<close>, \<open>enqueuer.go\<close>): the queue of fetch jobs in Redis.
    \<open>Webhook_Verifier\<close> and \<open>Webhook_Handler\<close> (\<open>ingestion/internal/webhook\<close>): signatures and tokens of pushes,
    their deduplication and what a push enqueues. \<open>Archive_Job\<close> (\<open>ingestion/internal/archive\<close>): the batches of
    old mail that go to S3 and leave the table. \<open>Log_Sanitizer\<close> (\<open>ingestion/internal/logutil\<close>): redaction.
  \<^item> \<open>Rate_Limits\<close> (\<open>sync/internal/middleware/ratelimit.go\<close>): request windows and connection slots in Redis.
    \<open>Ws_Session\<close> (\<open>sync/internal/websocket/events.go\<close>, \<open>session.go\<close>, \<open>handler.go\<close>): what a WebSocket client
    says and hears, drafting sessions, the stand-ins of \<open>cmd/server/main.go\<close>.

  \<^bold>\<open>Interfaces.\<close> A locale states what a client relies on and is interpreted on the model in the
  theory of its provider: \<open>row_evolution\<close> (cards and drafts of the sync engine, drafts of the
  decision API, rules), \<open>object_registry\<close> (the breaker registry), \<open>pattern_source\<close> (the pattern cache
  answers like the compiler), \<open>auto_handler\<close> (what the router needs from the rule engine),
  \<open>job_processor\<close> (what the worker pool needs from the pollers, interpreted on both and on their
  composite), \<open>draft_store\<close> (what a drafting session needs from its store, interpreted on the stand-in of the
  server and on the draft table).

  \<^bold>\<open>What the lemmas show.\<close> For each component an invariant and its preservation, the functional
  behaviour of the operations with their error branches, and a contract they refine: sync requests
  only record approvals and never touch terminal or foreign cards; verdicts are a function of the
  tables and stable under repetition; a decision run queues one job per draft while commits hold;
  rules become active only after 48 hours and only move forward; the rule cache serves the current
  rules while the loader is told of changes; the first matching rule fires; every mail gets one
  valid route; the worker extracts by the first pattern that matches; a breaker is closed exactly below its threshold; the hub does not panic while
  unregistrations are current; the two row table computes the least number of edits; a
  token validates exactly as what it was issued for, and after a rotation tokens of the old key live
  until the grace period ends; a refresh token is good for one use; a batch is a prefix of the queue
  in priority order; a notification reaches every device once unless it is deferred, and deferred
  ones are never sent; an address resolves to one contact for good; an assembled mail is counted in
  one thread of its user; a polling job ends and a cycle that succeeds has stored every new mail; an
  accepted job is never lost while the pool runs, and a tick serves those who waited longest; a backfill
  counts every mail it listed once and drains its queue; the key cache holds only wiped slices, so that
  the next refresh stores its tokens under the zero key and the same tokens load only once from a warm
  cache, while from a cold one stored tokens load unchanged; a login authorises one callback, and a
  completed callback connects its account (and queues no backfill); a mail whose fields have no line
  breaks is sent with exactly its headers; a push that carries a signature is refused, one delivered twice is
  dropped, and the fetch jobs of a user arrive in order; the archive deletes no mail that it has not stored,
  and its run returns; a window of the rate limiter admits at most its limit, but a connection slot is never
  given back; drafting over the WebSocket saves nothing, and an event that fails after its device reconnected
  crashes the server. A number of
  properties state behaviour that the code's comments deny (a new card can be missed by the
  cursor, a mail can be queued or sent twice, a revoked rule can be served from the cache, typed
  errors never reach the client, a failed mail takes the rest of its history along, polling never
  starts); each is a theorem about the code as it is.

  \<^bold>\<open>Modelling decisions and bounds.\<close> Every statement takes a flag that says whether it fails; the
  flags are independent, which covers more than PostgreSQL does (a failed statement there also
  dooms the rest of its transaction). A transaction works on a copy of the tables. The tables have
  the columns the statements name. Times are nanoseconds as integers, counters that the code never
  brings near their range are integers, cache statistics are 64 bit words. Scores and confidences
  are rationals: the code compares and clamps them. Strings are ASCII. An operation reads the clock
  where the code does, or once where only the order matters. Time zones are the offset at the time
  of the call. Key slices live in an explicit store because the cache and its callers share them; a
  call of the crypto package is one step, nothing interleaves with it. The only loops that are not structural (prefix stripping, tag removal, the swap in
  the edit distance) are total functions with a termination proof. The loops over the pages of a provider,
  in polling, backfill and sent mail, and the loop over the archive batches are \<open>partial_function\<close>s, where \<open>None\<close> is a loop that never returns, and that polling jobs return is proved from
  the rate limiter, that an archive run returns from the mails it deletes. A call of Redis or S3 whose failure
  leaves open whether it was performed has a fate: \<open>Performed\<close>, \<open>NotSent\<close> or \<open>Unanswered\<close>. A \<open>select\<close> over
  several channels takes its signals in the order of an argument. No fuel is used. Error texts of the database driver are shortened to the prefix the code adds. A polling job and a tick of the scheduler are one step each.

  \<^bold>\<open>Parameters.\<close> Regular expression compilation, JSON decoding, SHA-256, the JWT and UUID
  packages (record \<open>jwt_lib\<close>, laws \<open>jwt_ok\<close> and others, concrete instance \<open>sample_lib\<close>), the LLM, the intelligence
  layer, the ONNX session, the KMS, AES-GCM, the random source and the JSON text of key references (laws
  \<open>aead_opens\<close>, \<open>reference_codec\<close>, \<open>kms_unwraps\<close>, instance \<open>sample_crypto\<close>), the oauth2 and gmail packages
  and the replies of the providers, the ingestion mesh client, the push transports, ECDSA, the clients of
  Gmail and Graph up to their decoded answers, the MIME parser, the parser of mail addresses, the decoders of pushes, the Parquet writer, the session store and the time zone
  database are arguments; laws they obey are hypotheses of the statements that need them.

  \<^bold>\<open>Not modelled.\<close> MIME and HTML parsing, Redis transport, HTTP and NATS plumbing, configuration and logging, the Python services and the
  client: glue around external systems. The MIME parser (\<open>ingestion/internal/parse\<close>) walks the trees of third-party
  packages; the read and write pumps of a WebSocket only move bytes and deadlines.
\<close>

end
